(* ===== verification/Prelude.thy ===== *)
theory Prelude
  imports Main
begin

text \<open>
  Vocabulary shared by every component: errors as values, JavaScript text and
  numbers, instants, uuid text, and generic facts on keyed lists of rows.

  \<^item> A function of the program that may throw returns \<open>'e + 'a\<close>, \<open>Inl\<close> being the
    exception; \<open>bindR\<close> is its sequencing (an exception leaves at once).
  \<^item> Free text is the list of its UTF-16 code units (\<open>js_text\<close>), so that \<open>length\<close>
    is JavaScript's \<open>length\<close>; \<open>js_trim\<close> is \<open>String.prototype.trim\<close> and
    \<open>sql_btrim\<close> is the one-argument \<open>btrim\<close> of SQL, which strips spaces only.
  \<^item> A column of type \<open>timestamptz\<close> is a number of microseconds since the epoch;
    a JavaScript \<open>Date\<close> is a number of milliseconds.
  \<^item> A uuid is its text in the lower-case spelling in which the database renders it;
    \<open>pg_uuid\<close> is the conversion the database applies to a parameter.
\<close>

named_theorems tbl_simps \<open>rewrite rules for tables as keyed lists of rows\<close>
named_theorems time_defs \<open>the units of time of the program\<close>

section \<open>Errors as values\<close>

primrec bindR :: "'e + 'a \<Rightarrow> ('a \<Rightarrow> 'e + 'b) \<Rightarrow> 'e + 'b" where
  "bindR (Inl e) f = Inl e"
| "bindR (Inr x) f = f x"

lemma bindR_eq_Inr_iff: "bindR m f = Inr y \<longleftrightarrow> (\<exists>x. m = Inr x \<and> f x = Inr y)"
  by (cases m) auto

lemma bindR_eq_Inl_iff: "bindR m f = Inl e \<longleftrightarrow> m = Inl e \<or> (\<exists>x. m = Inr x \<and> f x = Inl e)"
  by (cases m) auto

lemma bindR_InrE:
  assumes "bindR m f = Inr y"
  obtains x where "m = Inr x" and "f x = Inr y"
  using assms by (auto simp: bindR_eq_Inr_iff)

lemma bindR_cong [fundef_cong]:
  "m = m' \<Longrightarrow> (\<And>x. m' = Inr x \<Longrightarrow> f x = f' x) \<Longrightarrow> bindR m f = bindR m' f'"
  by (cases m') auto

lemma bindR_assoc: "bindR (bindR m f) g = bindR m (\<lambda>x. bindR (f x) g)"
  by (cases m) auto

lemma sum_not_Inl_obtain: "(\<And>e. m \<noteq> Inl e) \<Longrightarrow> \<exists>x. m = Inr x"
  by (cases m) auto

section \<open>Text, numbers and instants\<close>

type_synonym js_text = "nat list"
type_synonym uuid = string
type_synonym micros = int
type_synonym millis = int

text \<open>The code units of a string literal of the source.\<close>

definition js :: "string \<Rightarrow> js_text" where
  "js s = map of_char s"

lemma js_eq_iff [simp]: "js s = js t \<longleftrightarrow> s = t"
  by (simp add: js_def inj_map_eq_map [OF inj_of_char])

lemma js_Nil_iff [simp]: "js s = [] \<longleftrightarrow> s = []" "[] = js s \<longleftrightarrow> s = []"
  by (auto simp: js_def)

text \<open>White space as \<open>String.prototype.trim\<close> sees it (WhiteSpace and LineTerminator).\<close>

definition js_space :: "nat \<Rightarrow> bool" where
  "js_space u \<longleftrightarrow>
     u \<in> {9, 10, 11, 12, 13, 32, 160, 5760, 8232, 8233, 8239, 8287, 12288, 65279}
     \<or> (8192 \<le> u \<and> u \<le> 8202)"

definition js_trim :: "js_text \<Rightarrow> js_text" where
  "js_trim t = rev (dropWhile js_space (rev (dropWhile js_space t)))"

definition sql_btrim :: "js_text \<Rightarrow> js_text" where
  "sql_btrim t = rev (dropWhile (\<lambda>u. u = 32) (rev (dropWhile (\<lambda>u. u = 32) t)))"

text \<open>
  A JavaScript number as far as the code looks at it: either an integer or a value for
  which \<open>Number.isInteger\<close> is false (a fraction, an infinity, NaN).
\<close>

datatype js_num = JsInt int | JsNonInt

definition ms_per_minute :: int where [time_defs]: "ms_per_minute = 60000"
definition us_per_ms :: int where [time_defs]: "us_per_ms = 1000"
definition us_per_second :: int where [time_defs]: "us_per_second = 1000000"
definition us_per_minute :: int where [time_defs]: "us_per_minute = 60 * us_per_second"
definition us_per_hour :: int where [time_defs]: "us_per_hour = 60 * us_per_minute"
definition us_per_day :: int where [time_defs]: "us_per_day = 24 * us_per_hour"

text \<open>
  The driver turns a \<open>timestamptz\<close> into a \<open>Date\<close> by dropping the microseconds below
  a millisecond; \<open>String(date)\<close>, through which most projections go, also drops the
  milliseconds.
\<close>

definition js_date :: "micros \<Rightarrow> millis" where
  "js_date t = t div us_per_ms"

definition js_date_via_string :: "micros \<Rightarrow> millis" where
  "js_date_via_string t = (js_date t div 1000) * 1000"

text \<open>Both clocks an operation reads: \<open>now()\<close> of its transaction and \<open>Date.now()\<close>.\<close>

record clock =
  pg_now :: micros
  js_now :: millis

section \<open>Uuid text\<close>

definition hex_digit :: "char \<Rightarrow> bool" where
  "hex_digit c \<longleftrightarrow> c \<in> set ''0123456789abcdefABCDEF''"

definition lower_hex :: "char \<Rightarrow> char" where
  "lower_hex c =
     (if c = CHR ''A'' then CHR ''a'' else if c = CHR ''B'' then CHR ''b''
      else if c = CHR ''C'' then CHR ''c'' else if c = CHR ''D'' then CHR ''d''
      else if c = CHR ''E'' then CHR ''e'' else if c = CHR ''F'' then CHR ''f'' else c)"

definition uuid_pattern :: "string \<Rightarrow> bool" where
  "uuid_pattern s \<longleftrightarrow>
     length s = 36
     \<and> list_all (\<lambda>i. if i \<in> {8, 13, 18, 23} then s ! i = CHR ''-'' else hex_digit (s ! i)) [0..<36]"

definition pg_uuid :: "string \<Rightarrow> uuid" where
  "pg_uuid s = map lower_hex s"

lemma lower_hex_idem [simp]: "lower_hex (lower_hex c) = lower_hex c"
  by (simp add: lower_hex_def)

lemma pg_uuid_idem [simp]: "pg_uuid (pg_uuid s) = pg_uuid s"
  by (simp add: pg_uuid_def)

text \<open>A uuid that repeats one digit, for concrete inputs.\<close>

definition uuid_of :: "char \<Rightarrow> uuid" where
  "uuid_of c = replicate 8 c @ ''-'' @ replicate 4 c @ ''-'' @ replicate 4 c @ ''-''
     @ replicate 4 c @ ''-'' @ replicate 12 c"

lemma replicate_8: "replicate 8 c = [c, c, c, c, c, c, c, c]"
  and replicate_4: "replicate 4 c = [c, c, c, c]"
  and replicate_12: "replicate 12 c = [c, c, c, c, c, c, c, c, c, c, c, c]"
  by (simp_all add: numeral_eq_Suc)

lemma uuid_of_eq_iff [simp]: "uuid_of a = uuid_of b \<longleftrightarrow> a = b"
  by (auto simp: uuid_of_def replicate_8)

lemma uuid_of_not_Nil [simp]: "uuid_of a \<noteq> []"
  by (simp add: uuid_of_def)

lemma uuid_pattern_uuid_of [simp]: "hex_digit c \<Longrightarrow> uuid_pattern (uuid_of c)"
  by (simp add: uuid_pattern_def uuid_of_def replicate_8 replicate_4 replicate_12 upt_conv_Cons)

lemma pg_uuid_uuid_of [simp]: "lower_hex c = c \<Longrightarrow> pg_uuid (uuid_of c) = uuid_of c"
  by (simp add: pg_uuid_def uuid_of_def replicate_8 replicate_4 replicate_12)
     (simp add: lower_hex_def)

section \<open>Tables as keyed lists of rows\<close>

definition find_by :: "('r \<Rightarrow> 'k) \<Rightarrow> 'k \<Rightarrow> 'r list \<Rightarrow> 'r option" where
  "find_by key k rows = find (\<lambda>r. key r = k) rows"

definition replace_row :: "('r \<Rightarrow> 'k) \<Rightarrow> 'r \<Rightarrow> 'r list \<Rightarrow> 'r list" where
  "replace_row key r rows = map (\<lambda>x. if key x = key r then r else x) rows"

lemma find_by_SomeD: "find_by key k rows = Some r \<Longrightarrow> r \<in> set rows \<and> key r = k"
  by (auto simp: find_by_def find_Some_iff)

lemma find_by_None_iff: "find_by key k rows = None \<longleftrightarrow> k \<notin> key ` set rows"
  by (auto simp: find_by_def find_None_iff)

lemma find_by_distinct:
  "distinct (map key rows) \<Longrightarrow> r \<in> set rows \<Longrightarrow> find_by key (key r) rows = Some r"
  by (induction rows) (auto simp: find_by_def)

lemma distinct_key_eq:
  "distinct (map key rows) \<Longrightarrow> r \<in> set rows \<Longrightarrow> r' \<in> set rows \<Longrightarrow> key r = key r' \<Longrightarrow> r = r'"
  by (auto simp: distinct_map inj_on_def)

lemma map_key_replace_row [tbl_simps]:
  "map key (replace_row key r rows) = map key rows"
  by (auto simp: replace_row_def)

lemma set_replace_row:
  "set (replace_row key r rows) \<subseteq> insert r {x \<in> set rows. key x \<noteq> key r}"
  by (auto simp: replace_row_def)

lemma set_replace_row_eq:
  "key r \<in> key ` set rows \<Longrightarrow>
   set (replace_row key r rows) = insert r {x \<in> set rows. key x \<noteq> key r}"
  by (auto simp: replace_row_def image_iff)

lemma find_by_replace_row [tbl_simps]:
  "find_by key k (replace_row key r rows) =
     (if k = key r then map_option (\<lambda>_. r) (find_by key k rows) else find_by key k rows)"
  by (induction rows) (auto simp: find_by_def replace_row_def)

lemma find_by_single: "find_by key k [x] = (if key x = k then Some x else None)"
  by (simp add: find_by_def)

lemma find_by_append:
  "find_by key k (xs @ ys) =
     (case find_by key k xs of None \<Rightarrow> find_by key k ys | Some r \<Rightarrow> Some r)"
  by (induction xs) (auto simp: find_by_def)

lemma find_by_snoc:
  "find_by key k (xs @ [y]) =
     (case find_by key k xs of None \<Rightarrow> if key y = k then Some y else None | Some r \<Rightarrow> Some r)"
  by (induction xs) (auto simp: find_by_def)

lemma find_by_map:
  "(\<And>x. key (g x) = key x) \<Longrightarrow> find_by key k (map g rows) = map_option g (find_by key k rows)"
  by (induction rows) (auto simp: find_by_def)

lemma find_by_key: "find_by key k rows = Some r \<Longrightarrow> key r = k"
  by (blast dest: find_by_SomeD)

text \<open>The earliest row of a list under a sort key: SQL's \<open>order by .. limit 1\<close>.\<close>

fun min_by :: "('r \<Rightarrow> 'r \<Rightarrow> bool) \<Rightarrow> 'r list \<Rightarrow> 'r option" where
  "min_by before [] = None"
| "min_by before (x # xs) =
     (case min_by before xs of
        None \<Rightarrow> Some x
      | Some y \<Rightarrow> if before y x then Some y else Some x)"

lemma min_by_None_iff [simp]: "min_by before xs = None \<longleftrightarrow> xs = []"
  by (cases xs) (simp_all split: option.split)

lemma min_by_Cons_Some:
  "min_by before (x # xs) = Some y \<Longrightarrow>
   y = x \<or> (\<exists>m. min_by before xs = Some m \<and> y = m)"
  by (cases "min_by before xs") (auto split: if_splits)

lemma min_by_mem: "min_by before xs = Some x \<Longrightarrow> x \<in> set xs"
proof (induction xs arbitrary: x)
  case Nil
  then show ?case by simp
next
  case (Cons z zs)
  then show ?case using min_by_Cons_Some [OF Cons.prems] by auto
qed

lemma min_by_least:
  assumes "min_by before xs = Some x" and "y \<in> set xs"
    and asym: "\<And>a b. before a b \<Longrightarrow> \<not> before b a"
    and trans: "\<And>a b c. \<not> before b a \<Longrightarrow> \<not> before c b \<Longrightarrow> \<not> before c a"
  shows "\<not> before y x"
  using assms(1,2)
proof (induction xs arbitrary: x y)
  case Nil
  then show ?case by simp
next
  case (Cons z zs)
  show ?case
  proof (cases "min_by before zs")
    case None
    with Cons.prems asym show ?thesis by fastforce
  next
    case (Some m)
    have m: "\<not> before w m" if "w \<in> set zs" for w
      using Cons.IH [OF Some that] .
    show ?thesis
    proof (cases "before m z")
      case True
      with Some Cons.prems(1) have "x = m" by simp
      with m asym True Cons.prems(2) show ?thesis by auto
    next
      case False
      with Some Cons.prems(1) have x: "x = z" by simp
      show ?thesis
      proof (cases "y = z")
        case True
        with x asym show ?thesis by blast
      next
        case False
        with Cons.prems(2) have "\<not> before y m" by (simp add: m)
        with \<open>\<not> before m z\<close> x trans show ?thesis by blast
      qed
    qed
  qed
qed

text \<open>A whole result in order: SQL's \<open>order by\<close>, rows that compare equal in table order.\<close>

fun insert_by :: "('r \<Rightarrow> 'r \<Rightarrow> bool) \<Rightarrow> 'r \<Rightarrow> 'r list \<Rightarrow> 'r list" where
  "insert_by before x [] = [x]"
| "insert_by before x (y # ys) =
     (if before y x then y # insert_by before x ys else x # y # ys)"

fun order_by :: "('r \<Rightarrow> 'r \<Rightarrow> bool) \<Rightarrow> 'r list \<Rightarrow> 'r list" where
  "order_by before [] = []"
| "order_by before (x # xs) = insert_by before x (order_by before xs)"

lemma set_insert_by [simp]: "set (insert_by before x xs) = insert x (set xs)"
  by (induction xs) auto

lemma set_order_by [simp]: "set (order_by before xs) = set xs"
  by (induction xs) auto

lemma length_insert_by [simp]: "length (insert_by before x xs) = Suc (length xs)"
  by (induction xs) auto

lemma length_order_by [simp]: "length (order_by before xs) = length xs"
  by (induction xs) auto

lemma sum_list_insert_by:
  "sum_list (map f (insert_by before x xs)) = (f x :: 'a :: comm_monoid_add) + sum_list (map f xs)"
  by (induction xs) (auto simp: add.left_commute)

lemma sum_list_order_by:
  "sum_list (map f (order_by before xs)) = (sum_list (map f xs) :: 'a :: comm_monoid_add)"
  by (induction xs) (simp_all add: sum_list_insert_by)

lemma distinct_map_insert_by:
  "distinct (map f (insert_by before x xs)) \<longleftrightarrow> f x \<notin> f ` set xs \<and> distinct (map f xs)"
  by (induction xs) auto

lemma distinct_map_order_by [simp]:
  "distinct (map f (order_by before xs)) \<longleftrightarrow> distinct (map f xs)"
  by (induction xs) (auto simp: distinct_map_insert_by)

lemma length_filter_insert_by:
  "length (filter P (insert_by before x xs)) = length (filter P (x # xs))"
  by (induction xs) auto

lemma length_filter_order_by:
  "length (filter P (order_by before xs)) = length (filter P xs)"
  by (induction xs) (simp_all add: length_filter_insert_by)

lemma order_by_eq_Nil_iff [simp]: "order_by before xs = [] \<longleftrightarrow> xs = []"
  by (metis length_order_by length_0_conv)

lemma min_by_order_by:
  "min_by before xs = (case order_by before xs of [] \<Rightarrow> None | y # _ \<Rightarrow> Some y)"
  by (induction xs) (auto split: list.splits option.splits)

lemma sorted_insert_by:
  assumes asym: "\<And>a b. before a b \<Longrightarrow> \<not> before b a"
    and trans: "\<And>a b c. \<not> before b a \<Longrightarrow> \<not> before c b \<Longrightarrow> \<not> before c a"
  shows "sorted_wrt (\<lambda>a b. \<not> before b a) xs \<Longrightarrow> sorted_wrt (\<lambda>a b. \<not> before b a) (insert_by before x xs)"
proof (induction xs)
  case Nil
  then show ?case by simp
next
  case (Cons y ys)
  then have y: "\<forall>z \<in> set ys. \<not> before z y" by simp
  show ?case
  proof (cases "before y x")
    case True
    with Cons y asym show ?thesis by auto
  next
    case False
    with y trans have "\<forall>z \<in> set ys. \<not> before z x" by blast
    with False Cons show ?thesis by simp
  qed
qed

lemma sorted_order_by:
  assumes "\<And>a b. before a b \<Longrightarrow> \<not> before b a"
    and "\<And>a b c. \<not> before b a \<Longrightarrow> \<not> before c b \<Longrightarrow> \<not> before c a"
  shows "sorted_wrt (\<lambda>a b. \<not> before b a) (order_by before xs)"
  by (induction xs) (auto intro: sorted_insert_by [OF assms])

text \<open>Sums over a list of rows.\<close>

definition sum_by :: "('r \<Rightarrow> int) \<Rightarrow> 'r list \<Rightarrow> int" where
  "sum_by f rows = sum_list (map f rows)"

lemma sum_by_Nil [simp]: "sum_by f [] = 0"
  and sum_by_Cons [simp]: "sum_by f (x # xs) = f x + sum_by f xs"
  and sum_by_append [simp]: "sum_by f (xs @ ys) = sum_by f xs + sum_by f ys"
  by (simp_all add: sum_by_def)

lemma sum_by_nonneg: "(\<And>x. x \<in> set xs \<Longrightarrow> 0 \<le> f x) \<Longrightarrow> 0 \<le> sum_by f xs"
  by (induction xs) auto

lemma length_filter_le_map_update:
  assumes "\<And>x. x \<in> set xs \<Longrightarrow> P (g x) \<Longrightarrow> P x"
  shows "length (filter P (map g xs)) \<le> length (filter P xs)"
  using assms by (induction xs) auto

end
