(* ===== verification/Database.thy ===== *)
theory Database
  imports Prelude
begin

text \<open>
  The relational state behind \<open>src/lib/scheduling\<close>, \<open>src/lib/billing\<close> and
  \<open>src/lib/teacher-ledger\<close>: one record per table row, one list of rows per table, and
  the statements on \<open>lesson_slots\<close> and \<open>lesson_completions\<close> with what the schema
  under \<open>src/migrations\<close> attaches to them (CHECK constraints, the partial unique index on
  (teacher, start), the snapshot trigger, the forward and reverse completion triggers and
  the delete guard). A statement that the schema refuses is \<open>Inl\<close> of the error the
  driver throws, and its transaction leaves the state unchanged.
\<close>

section \<open>Rows\<close>

datatype slot_status =
  Open | Booked | Cancelled | Completed | NoShowLearner | NoShowTeacher | PersonalEvent

datatype slot_source = SrcOpenSlot | SrcDirectAssign | SrcPersonalEvent

datatype js_val = VNull | VStr string | VText js_text | VInstant millis | VNum js_num

record slot_event =
  ev_type :: string
  ev_at :: millis
  ev_actor :: "string option"
  ev_payload :: "(string \<times> js_val) list option"

record slot_row =
  ls_id :: uuid
  ls_teacher_account_id :: uuid
  ls_start_at :: micros
  ls_duration_minutes :: int
  ls_status :: slot_status
  ls_learner_account_id :: "uuid option"
  ls_booked_at :: "micros option"
  ls_cancelled_at :: "micros option"
  ls_cancelled_by_account_id :: "uuid option"
  ls_cancellation_reason :: "js_text option"
  ls_marked_at :: "micros option"
  ls_tariff_id :: "uuid option"
  ls_snapshot_amount_kopecks :: "int option"
  ls_notes :: "js_text option"
  ls_agenda :: "js_text option"
  ls_zoom_url :: "js_text option"
  ls_external_conflict_at :: "micros option"
  ls_source :: "slot_source option"
  ls_personal_event_title :: "js_text option"
  ls_personal_event_body :: "js_text option"
  ls_legacy_grandfathered :: bool
  ls_events :: "slot_event list"
  ls_created_at :: micros
  ls_updated_at :: micros

record completion_row =
  lc_id :: uuid
  lc_slot_id :: uuid
  lc_teacher_id :: uuid
  lc_was_no_show :: bool
  lc_amount_kopecks :: int
  lc_completed_at :: micros
  lc_immutable_at :: "micros option"
  lc_marked_by_account_id :: "uuid option"
  lc_created_at :: micros

record settlement_row =
  st_id :: uuid
  st_learner_account_id :: uuid
  st_teacher_id :: uuid
  st_amount_kopecks :: int
  st_marked_by_account_id :: "uuid option"

record coverage_row =
  sc_settlement_id :: uuid
  sc_completion_id :: uuid
  sc_amount_kopecks :: int

record earning_row =
  te_id :: uuid
  te_related_completion_id :: "uuid option"

record purchase_row =
  pp_id :: uuid
  pp_account_id :: uuid
  pp_package_id :: uuid
  pp_payment_order_id :: js_text
  pp_amount_kopecks :: int
  pp_title_snapshot :: js_text
  pp_duration_minutes :: int
  pp_count_initial :: int
  pp_expires_at :: micros
  pp_created_at :: micros
  pp_teacher_id :: "uuid option"
  pp_voided_at :: "micros option"

record package_row =
  lp_id :: uuid
  lp_teacher_id :: uuid
  lp_title_ru :: js_text

datatype billing_actor = ActorLearner | ActorAdmin | ActorTeacher

record consumption_row =
  pc_slot_id :: uuid
  pc_package_purchase_id :: uuid
  pc_consumed_at :: micros
  pc_consumed_by_actor :: billing_actor
  pc_restored_at :: "micros option"
  pc_restored_by_actor :: "billing_actor option"
  pc_restored_reason :: "string option"

datatype visibility = Catalog | Private

record tariff_row =
  pt_id :: uuid
  pt_slug :: string
  pt_teacher_id :: "uuid option"
  pt_amount_kopecks :: int
  pt_currency :: string
  pt_duration_minutes :: int
  pt_is_active :: bool
  pt_deleted_at :: "micros option"
  pt_visibility :: visibility

record tariff_access_row =
  ta_tariff_id :: uuid
  ta_learner_account_id :: uuid
  ta_revoked_at :: "micros option"

record billing_preference_row =
  bp_teacher_account_id :: uuid
  bp_learner_account_id :: uuid
  bp_payment_method :: string
  bp_updated_by_account_id :: "uuid option"

record link_row =
  ln_learner_account_id :: uuid
  ln_teacher_account_id :: uuid
  ln_unlinked_at :: "micros option"

record account_row =
  ac_id :: uuid
  ac_teacher_cancel_window_minutes :: int

record role_row =
  ar_account_id :: uuid
  ar_role :: string

record busy_row =
  eb_teacher_account_id :: uuid
  eb_start_at :: micros
  eb_end_at :: micros
  eb_is_own_event :: bool

record integration_row =
  ci_account_id :: uuid
  ci_sync_state :: string
  ci_last_pulled_at :: "micros option"

record order_row =
  po_invoice_id :: js_text
  po_status :: string
  po_meta_account_id :: "string option"
  po_meta_package_slug :: "string option"
  po_meta_package_duration :: "int option"
  po_teacher_account_id :: uuid
  po_created_at :: micros

record allocation_row =
  pa_payment_order_id :: js_text
  pa_kind :: string
  pa_target_id :: string
  pa_amount_kopecks :: int

record reversal_row =
  rv_id :: uuid
  rv_payment_order_id :: js_text
  rv_kind :: string
  rv_target_id :: string
  rv_refunded_at :: micros
  rv_refunded_kopecks :: int
  rv_refunded_by_account_id :: uuid
  rv_reason :: "js_text option"
  rv_created_at :: micros

record audit_row =
  au_id :: uuid
  au_slot_id :: uuid
  au_actor_account_id :: uuid
  au_learner_account_id :: "uuid option"
  au_is_deal :: bool
  au_from_status :: slot_status
  au_to_status :: slot_status
  au_notify_intent :: bool
  au_notify_dispatched_at :: "micros option"
  au_ts :: micros

record auth_audit_row =
  ae_event_type :: string
  ae_account_id :: uuid
  ae_payload :: "(string \<times> string) list"

section \<open>The database\<close>

record db =
  lesson_slots :: "slot_row list"
  lesson_completions :: "completion_row list"
  lesson_settlements :: "settlement_row list"
  lesson_settlement_completions :: "coverage_row list"
  teacher_earnings :: "earning_row list"
  lesson_packages :: "package_row list"
  package_purchases :: "purchase_row list"
  package_consumptions :: "consumption_row list"
  pricing_tariffs :: "tariff_row list"
  learner_tariff_access :: "tariff_access_row list"
  learner_billing_preferences :: "billing_preference_row list"
  learner_teacher_links :: "link_row list"
  accounts :: "account_row list"
  account_roles :: "role_row list"
  teacher_external_busy_intervals :: "busy_row list"
  teacher_calendar_integrations :: "integration_row list"
  payment_orders :: "order_row list"
  payment_allocations :: "allocation_row list"
  payment_allocation_reversals :: "reversal_row list"
  audit_lesson_status_change :: "audit_row list"
  auth_audit_events :: "auth_audit_row list"

definition empty_db :: db where
  "empty_db =
     \<lparr>lesson_slots = [], lesson_completions = [], lesson_settlements = [],
      lesson_settlement_completions = [], teacher_earnings = [], lesson_packages = [], package_purchases = [],
      package_consumptions = [], pricing_tariffs = [], learner_tariff_access = [],
      learner_billing_preferences = [], learner_teacher_links = [], accounts = [],
      account_roles = [], teacher_external_busy_intervals = [],
      teacher_calendar_integrations = [], payment_orders = [], payment_allocations = [],
      payment_allocation_reversals = [], audit_lesson_status_change = [], auth_audit_events = []\<rparr>"

datatype pg_error = UniqueViolation | CheckViolation | NotNullViolation | ForeignKeyViolation
  | RaisedException string | InvalidUuidText

datatype eligibility_reason =
  SlotNotFound | WrongTeacher | NotBooked | NotYetEnded | MissingSnapshot

datatype exn =
    PgErr pg_error
  | JsError string
  | TypeErrorUndefined
  | LessonCompletionEligibilityError eligibility_reason
  | CancelAfterCompletionError slot_status
  | SettleLessonsError string "uuid option"
  | TariffNotActiveError string
  | TariffOwnershipError "uuid option" uuid
  | SlotTariffDurationMismatchError int int
  | SlotTeacherRoleError uuid

type_synonym 'a outcome = "exn + ('a \<times> db)"

definition coalesce :: "'a option \<Rightarrow> 'a \<Rightarrow> 'a" where
  "coalesce x y = (case x of None \<Rightarrow> y | Some v \<Rightarrow> v)"

definition coalesce_opt :: "'a option \<Rightarrow> 'a option \<Rightarrow> 'a option" where
  "coalesce_opt x y = (case x of None \<Rightarrow> y | Some v \<Rightarrow> Some v)"

lemma coalesce_simps [simp]:
  "coalesce None y = y" "coalesce (Some v) y = v"
  "coalesce_opt None z = z" "coalesce_opt (Some v) z = Some v"
  by (simp_all add: coalesce_def coalesce_opt_def)

definition slot_by_id :: "db \<Rightarrow> uuid \<Rightarrow> slot_row option" where
  "slot_by_id d i = find_by ls_id i (lesson_slots d)"

definition tariff_by_id :: "db \<Rightarrow> uuid \<Rightarrow> tariff_row option" where
  "tariff_by_id d i = find_by pt_id i (pricing_tariffs d)"

definition completion_of_slot :: "db \<Rightarrow> uuid \<Rightarrow> completion_row option" where
  "completion_of_slot d i = find_by lc_slot_id i (lesson_completions d)"

section \<open>The constraints on \<open>lesson_slots\<close>\<close>

text \<open>
  Wall clock of Europe/Moscow, UTC+3 without daylight saving since October 2014; the
  development considers instants after that date.
\<close>

definition msk_time_of_day :: "micros \<Rightarrow> micros" where
  "msk_time_of_day t = (t + 3 * us_per_hour) mod us_per_day"

definition msk_hour :: "micros \<Rightarrow> int" where
  "msk_hour t = msk_time_of_day t div us_per_hour"

definition msk_minute :: "micros \<Rightarrow> int" where
  "msk_minute t = (msk_time_of_day t mod us_per_hour) div us_per_minute"

text \<open>
  \<open>time + interval\<close> of SQL stays within a day: it wraps at midnight. This is how
  \<open>lesson_slots_within_msk_day\<close> is evaluated.
\<close>

definition check_within_msk_day :: "slot_row \<Rightarrow> bool" where
  "check_within_msk_day r \<longleftrightarrow>
     (msk_time_of_day (ls_start_at r) + ls_duration_minutes r * us_per_minute) mod us_per_day
       \<le> us_per_day - us_per_second"

definition check_business_hours :: "slot_row \<Rightarrow> bool" where
  "check_business_hours r \<longleftrightarrow>
     msk_hour (ls_start_at r) \<ge> 6
     \<and> (msk_hour (ls_start_at r) < 22
        \<or> (msk_hour (ls_start_at r) = 22 \<and> msk_minute (ls_start_at r) = 0))"

definition check_seconds_zero :: "slot_row \<Rightarrow> bool" where
  "check_seconds_zero r \<longleftrightarrow> msk_time_of_day (ls_start_at r) mod us_per_minute = 0"

definition check_duration_band :: "slot_row \<Rightarrow> bool" where
  "check_duration_band r \<longleftrightarrow> 15 \<le> ls_duration_minutes r \<and> ls_duration_minutes r \<le> 180"

definition check_booked_invariants :: "slot_row \<Rightarrow> bool" where
  "check_booked_invariants r \<longleftrightarrow>
     (ls_status r = Booked \<and> ls_learner_account_id r \<noteq> None \<and> ls_booked_at r \<noteq> None)
     \<or> ls_status r \<noteq> Booked"

definition check_cancelled_invariants :: "slot_row \<Rightarrow> bool" where
  "check_cancelled_invariants r \<longleftrightarrow>
     (ls_status r = Cancelled \<and> ls_cancelled_at r \<noteq> None) \<or> ls_status r \<noteq> Cancelled"

definition sql_char_length :: "js_text \<Rightarrow> nat" where
  "sql_char_length t = length (filter (\<lambda>u. \<not> (56320 \<le> u \<and> u \<le> 57343)) t)"

definition check_personal_event :: "slot_row \<Rightarrow> bool" where
  "check_personal_event r \<longleftrightarrow>
     (if ls_source r = Some SrcPersonalEvent
      then ls_status r \<in> {PersonalEvent, Completed, Cancelled}
           \<and> ls_learner_account_id r = None
           \<and> ls_personal_event_title r \<noteq> None
      else ls_personal_event_title r = None \<and> ls_personal_event_body r = None)"

definition check_text_limits :: "slot_row \<Rightarrow> bool" where
  "check_text_limits r \<longleftrightarrow>
     (case ls_zoom_url r of None \<Rightarrow> True
        | Some u \<Rightarrow> sql_char_length u \<le> 512 \<and> take 8 u = js ''https://'')
     \<and> (case ls_personal_event_title r of None \<Rightarrow> True | Some t \<Rightarrow> sql_char_length t \<le> 80)
     \<and> (case ls_personal_event_body r of None \<Rightarrow> True | Some b \<Rightarrow> sql_char_length b \<le> 2000)"

definition check_snapshot_band :: "slot_row \<Rightarrow> bool" where
  "check_snapshot_band r \<longleftrightarrow>
     (case ls_snapshot_amount_kopecks r of None \<Rightarrow> True
      | Some a \<Rightarrow> 100 \<le> a \<and> a \<le> 100000000)"

definition slot_check :: "slot_row \<Rightarrow> bool" where
  "slot_check r \<longleftrightarrow>
     check_duration_band r \<and> check_booked_invariants r \<and> check_cancelled_invariants r
     \<and> check_within_msk_day r \<and> check_business_hours r \<and> check_seconds_zero r
     \<and> check_personal_event r \<and> check_text_limits r \<and> check_snapshot_band r"

text \<open>The partial unique index on (teacher, start) of the rows that are not cancelled.\<close>

definition same_lane :: "slot_row \<Rightarrow> slot_row \<Rightarrow> bool" where
  "same_lane x r \<longleftrightarrow>
     ls_status x \<noteq> Cancelled \<and> ls_status r \<noteq> Cancelled
     \<and> ls_teacher_account_id x = ls_teacher_account_id r \<and> ls_start_at x = ls_start_at r"

definition slot_conflict :: "db \<Rightarrow> slot_row \<Rightarrow> bool" where
  "slot_conflict d r \<longleftrightarrow> list_ex (\<lambda>x. ls_id x \<noteq> ls_id r \<and> same_lane x r) (lesson_slots d)"

text \<open>\<open>lesson_slots_snapshot_on_book\<close>: freeze the tariff's price when a booking appears.\<close>

definition snapshot_value :: "db \<Rightarrow> slot_row \<Rightarrow> int option" where
  "snapshot_value d r =
     (case ls_snapshot_amount_kopecks r of
        Some a \<Rightarrow> Some a
      | None \<Rightarrow>
          (case ls_tariff_id r of
             None \<Rightarrow> None
           | Some t \<Rightarrow>
               if ls_status r \<in> {Booked, Completed, NoShowLearner, NoShowTeacher}
               then map_option pt_amount_kopecks (tariff_by_id d t) else None))"

definition snapshot_on_book :: "db \<Rightarrow> slot_row \<Rightarrow> slot_row" where
  "snapshot_on_book d r = r\<lparr>ls_snapshot_amount_kopecks := snapshot_value d r\<rparr>"

definition snapshot_frozen :: "slot_row \<Rightarrow> slot_row \<Rightarrow> bool" where
  "snapshot_frozen old new \<longleftrightarrow>
     \<not> (ls_snapshot_amount_kopecks old \<noteq> None
        \<and> ls_status old \<in> {Booked, Completed, Cancelled, NoShowLearner, NoShowTeacher}
        \<and> ls_snapshot_amount_kopecks new \<noteq> ls_snapshot_amount_kopecks old)"

section \<open>Statements on \<open>lesson_slots\<close>\<close>

text \<open>\<open>update lesson_slots set \<dots> where id = i and P returning *\<close>.\<close>

definition pg_update_slot ::
  "uuid \<Rightarrow> (slot_row \<Rightarrow> bool) \<Rightarrow> (slot_row \<Rightarrow> slot_row) \<Rightarrow> db \<Rightarrow> slot_row option outcome" where
  "pg_update_slot i P f d =
     (case slot_by_id d i of
        None \<Rightarrow> Inr (None, d)
      | Some r \<Rightarrow>
          if \<not> P r then Inr (None, d)
          else
            let r' = snapshot_on_book d (f r) in
            if \<not> snapshot_frozen r r' then Inl (PgErr (RaisedException ''snapshot immutable''))
            else if \<not> slot_check r' then Inl (PgErr CheckViolation)
            else if slot_conflict d r' then Inl (PgErr UniqueViolation)
            else Inr (Some r', d\<lparr>lesson_slots := replace_row ls_id r' (lesson_slots d)\<rparr>))"

text \<open>\<open>insert into lesson_slots \<dots> returning *\<close>.\<close>

definition pg_insert_slot :: "slot_row \<Rightarrow> db \<Rightarrow> slot_row outcome" where
  "pg_insert_slot r d =
     (let r' = snapshot_on_book d r in
      if \<not> slot_check r' then Inl (PgErr CheckViolation)
      else if slot_by_id d (ls_id r') \<noteq> None \<or> slot_conflict d r' then Inl (PgErr UniqueViolation)
      else Inr (r', d\<lparr>lesson_slots := lesson_slots d @ [r']\<rparr>))"

section \<open>Statements on \<open>lesson_completions\<close>\<close>

text \<open>\<open>lesson_completion_apply\<close>, after each insert.\<close>

definition lesson_completion_apply :: "clock \<Rightarrow> completion_row \<Rightarrow> db \<Rightarrow> slot_row option outcome" where
  "lesson_completion_apply c new d =
     pg_update_slot (lc_slot_id new) (\<lambda>r. ls_status r = Booked)
       (\<lambda>r. r\<lparr>ls_status := (if lc_was_no_show new then NoShowLearner else Completed),
              ls_updated_at := pg_now c\<rparr>) d"

text \<open>\<open>lesson_completion_revert\<close>, after each delete.\<close>

definition lesson_completion_revert :: "clock \<Rightarrow> completion_row \<Rightarrow> db \<Rightarrow> slot_row option outcome" where
  "lesson_completion_revert c old d =
     pg_update_slot (lc_slot_id old) (\<lambda>r. ls_status r \<in> {Completed, NoShowLearner})
       (\<lambda>r. r\<lparr>ls_status := Booked, ls_updated_at := pg_now c\<rparr>) d"

definition completion_settled :: "db \<Rightarrow> uuid \<Rightarrow> bool" where
  "completion_settled d i \<longleftrightarrow>
     list_ex (\<lambda>x. sc_completion_id x = i) (lesson_settlement_completions d)"

definition completion_accrued :: "db \<Rightarrow> uuid \<Rightarrow> bool" where
  "completion_accrued d i \<longleftrightarrow> list_ex (\<lambda>x. te_related_completion_id x = Some i) (teacher_earnings d)"

text \<open>\<open>lesson_completion_delete_guard\<close>, before each delete.\<close>

definition lesson_completion_delete_guard :: "db \<Rightarrow> completion_row \<Rightarrow> exn option" where
  "lesson_completion_delete_guard d old =
     (if lc_immutable_at old \<noteq> None then Some (PgErr (RaisedException ''40006''))
      else if completion_settled d (lc_id old) then Some (PgErr (RaisedException ''40007''))
      else if completion_accrued d (lc_id old) then Some (PgErr (RaisedException ''40008''))
      else None)"

text \<open>
  Both shapes of insert: \<open>on conflict (slot_id) do nothing returning id\<close>, which gives
  \<open>None\<close> on a conflict, and the plain insert, which throws.
\<close>

definition pg_insert_completion_or_skip ::
  "clock \<Rightarrow> completion_row \<Rightarrow> db \<Rightarrow> completion_row option outcome" where
  "pg_insert_completion_or_skip c row d =
     (if completion_of_slot d (lc_slot_id row) \<noteq> None then Inr (None, d)
      else if find_by lc_id (lc_id row) (lesson_completions d) \<noteq> None
      then Inl (PgErr UniqueViolation)
      else bindR (lesson_completion_apply c row
                    (d\<lparr>lesson_completions := lesson_completions d @ [row]\<rparr>))
             (\<lambda>(_, d'). Inr (Some row, d')))"

definition pg_insert_completion :: "clock \<Rightarrow> completion_row \<Rightarrow> db \<Rightarrow> completion_row outcome" where
  "pg_insert_completion c row d =
     bindR (pg_insert_completion_or_skip c row d)
       (\<lambda>(ro, d'). case ro of None \<Rightarrow> Inl (PgErr UniqueViolation) | Some r \<Rightarrow> Inr (r, d'))"

definition pg_delete_completion :: "clock \<Rightarrow> uuid \<Rightarrow> db \<Rightarrow> unit outcome" where
  "pg_delete_completion c i d =
     (case find_by lc_id i (lesson_completions d) of
        None \<Rightarrow> Inr ((), d)
      | Some old \<Rightarrow>
          (case lesson_completion_delete_guard d old of
             Some e \<Rightarrow> Inl e
           | None \<Rightarrow>
               bindR (lesson_completion_revert c old
                        (d\<lparr>lesson_completions := filter (\<lambda>x. lc_id x \<noteq> i) (lesson_completions d)\<rparr>))
                 (\<lambda>(_, d'). Inr ((), d'))))"

definition pg_set_was_no_show :: "uuid \<Rightarrow> bool \<Rightarrow> db \<Rightarrow> db" where
  "pg_set_was_no_show i b d =
     d\<lparr>lesson_completions :=
         map (\<lambda>x. if lc_id x = i then x\<lparr>lc_was_no_show := b\<rparr> else x) (lesson_completions d)\<rparr>"

section \<open>What the schema guarantees\<close>

definition keys_ok :: "db \<Rightarrow> bool" where
  "keys_ok d \<longleftrightarrow>
     distinct (map ls_id (lesson_slots d))
     \<and> distinct (map lc_id (lesson_completions d))
     \<and> distinct (map lc_slot_id (lesson_completions d))
     \<and> distinct (map pp_id (package_purchases d))
     \<and> distinct (map pp_payment_order_id (package_purchases d))
     \<and> distinct (map pc_slot_id (package_consumptions d))"

definition lanes_ok :: "db \<Rightarrow> bool" where
  "lanes_ok d \<longleftrightarrow>
     (\<forall>x \<in> set (lesson_slots d). \<forall>y \<in> set (lesson_slots d).
        ls_id x \<noteq> ls_id y \<longrightarrow> \<not> same_lane x y)"

definition checks_ok :: "db \<Rightarrow> bool" where
  "checks_ok d \<longleftrightarrow> (\<forall>r \<in> set (lesson_slots d). slot_check r)"

definition schema_ok :: "db \<Rightarrow> bool" where
  "schema_ok d \<longleftrightarrow> keys_ok d \<and> lanes_ok d \<and> checks_ok d"

lemmas slot_check_defs =
  slot_check_def check_duration_band_def check_booked_invariants_def
  check_cancelled_invariants_def check_within_msk_day_def check_business_hours_def
  check_seconds_zero_def check_personal_event_def check_text_limits_def check_snapshot_band_def

lemma slot_check_stamps [simp]:
  "slot_check (r\<lparr>ls_marked_at := m\<rparr>) = slot_check r"
  "slot_check (r\<lparr>ls_events := e\<rparr>) = slot_check r"
  "slot_check (r\<lparr>ls_updated_at := u\<rparr>) = slot_check r"
  "slot_check (r\<lparr>ls_cancelled_by_account_id := a\<rparr>) = slot_check r"
  "slot_check (r\<lparr>ls_cancellation_reason := t\<rparr>) = slot_check r"
  by (simp_all add: slot_check_defs)

lemma slot_by_id_SomeD: "slot_by_id d i = Some r \<Longrightarrow> r \<in> set (lesson_slots d) \<and> ls_id r = i"
  unfolding slot_by_id_def by (rule find_by_SomeD)

lemma slot_by_id_mem:
  "keys_ok d \<Longrightarrow> r \<in> set (lesson_slots d) \<Longrightarrow> slot_by_id d (ls_id r) = Some r"
  unfolding slot_by_id_def keys_ok_def by (rule find_by_distinct) simp_all

lemma completion_of_slot_SomeD:
  "completion_of_slot d i = Some r \<Longrightarrow> r \<in> set (lesson_completions d) \<and> lc_slot_id r = i"
  unfolding completion_of_slot_def by (rule find_by_SomeD)

lemma completion_of_slot_None_iff:
  "completion_of_slot d i = None \<longleftrightarrow> (\<forall>r \<in> set (lesson_completions d). lc_slot_id r \<noteq> i)"
  by (auto simp: completion_of_slot_def find_by_None_iff)

lemma snapshot_on_book_simps [simp]:
  "ls_id (snapshot_on_book d r) = ls_id r"
  "ls_teacher_account_id (snapshot_on_book d r) = ls_teacher_account_id r"
  "ls_start_at (snapshot_on_book d r) = ls_start_at r"
  "ls_duration_minutes (snapshot_on_book d r) = ls_duration_minutes r"
  "ls_status (snapshot_on_book d r) = ls_status r"
  "ls_learner_account_id (snapshot_on_book d r) = ls_learner_account_id r"
  "ls_booked_at (snapshot_on_book d r) = ls_booked_at r"
  "ls_cancelled_at (snapshot_on_book d r) = ls_cancelled_at r"
  "ls_cancelled_by_account_id (snapshot_on_book d r) = ls_cancelled_by_account_id r"
  "ls_cancellation_reason (snapshot_on_book d r) = ls_cancellation_reason r"
  "ls_marked_at (snapshot_on_book d r) = ls_marked_at r"
  "ls_tariff_id (snapshot_on_book d r) = ls_tariff_id r"
  "ls_source (snapshot_on_book d r) = ls_source r"
  "ls_agenda (snapshot_on_book d r) = ls_agenda r"
  "ls_zoom_url (snapshot_on_book d r) = ls_zoom_url r"
  "ls_personal_event_title (snapshot_on_book d r) = ls_personal_event_title r"
  "ls_personal_event_body (snapshot_on_book d r) = ls_personal_event_body r"
  "ls_events (snapshot_on_book d r) = ls_events r"
  "ls_updated_at (snapshot_on_book d r) = ls_updated_at r"
  by (simp_all add: snapshot_on_book_def)

lemma pg_update_slot_SomeE:
  assumes "pg_update_slot i P f d = Inr (Some r', d')"
  obtains r where "slot_by_id d i = Some r" and "r \<in> set (lesson_slots d)" and "ls_id r = i"
    and "P r" and "r' = snapshot_on_book d (f r)" and "slot_check r'" and "\<not> slot_conflict d r'"
    and "d' = d\<lparr>lesson_slots := replace_row ls_id r' (lesson_slots d)\<rparr>"
  using assms slot_by_id_SomeD [of d i]
  by (auto simp: pg_update_slot_def Let_def split: option.splits if_splits)

lemma pg_update_slot_NoneD: "pg_update_slot i P f d = Inr (None, d') \<Longrightarrow> d' = d"
  by (auto simp: pg_update_slot_def Let_def split: option.splits if_splits)

lemma pg_update_slot_None_iff:
  "pg_update_slot i P f d = Inr (None, d') \<longleftrightarrow>
     d' = d \<and> (\<forall>r. slot_by_id d i = Some r \<longrightarrow> \<not> P r)"
  by (auto simp: pg_update_slot_def Let_def split: option.splits if_splits)

lemma pg_update_slot_hit:
  assumes "pg_update_slot i P f d = Inr (ro, d')" and "slot_by_id d i = Some r" and "P r"
  shows "ro \<noteq> None"
  using assms by (auto simp: pg_update_slot_def Let_def split: if_splits)

lemma pg_insert_slot_InrE:
  assumes "pg_insert_slot r d = Inr (r', d')"
  obtains "r' = snapshot_on_book d r" and "slot_check r'" and "slot_by_id d (ls_id r) = None"
    and "\<not> slot_conflict d r'" and "d' = d\<lparr>lesson_slots := lesson_slots d @ [r']\<rparr>"
  using assms by (auto simp: pg_insert_slot_def Let_def split: if_splits)

text \<open>Every statement that goes through keeps what the schema guarantees.\<close>

lemma same_lane_sym: "same_lane x y \<longleftrightarrow> same_lane y x"
  by (auto simp: same_lane_def)

lemma schema_ok_replace:
  assumes "schema_ok d" and "slot_check r'" and "\<not> slot_conflict d r'"
  shows "schema_ok (d\<lparr>lesson_slots := replace_row ls_id r' (lesson_slots d)\<rparr>)"
proof -
  let ?slots = "replace_row ls_id r' (lesson_slots d)"
  have sub: "set ?slots \<subseteq> insert r' {x \<in> set (lesson_slots d). ls_id x \<noteq> ls_id r'}"
    by (rule set_replace_row)
  have "lanes_ok (d\<lparr>lesson_slots := ?slots\<rparr>)"
    using assms(1,3) sub
    unfolding lanes_ok_def schema_ok_def slot_conflict_def list_ex_iff
    by (simp add: subset_iff) (metis same_lane_sym)
  moreover have "checks_ok (d\<lparr>lesson_slots := ?slots\<rparr>)"
    using assms(1,2) sub by (auto simp: checks_ok_def schema_ok_def)
  ultimately show ?thesis
    using assms(1) by (simp add: schema_ok_def keys_ok_def map_key_replace_row)
qed

lemma pg_update_slot_schema_ok:
  assumes "schema_ok d" and "pg_update_slot i P f d = Inr (ro, d')"
  shows "schema_ok d'"
proof (cases ro)
  case None
  with assms show ?thesis by (auto dest: pg_update_slot_NoneD)
next
  case (Some r')
  with assms(2) have "pg_update_slot i P f d = Inr (Some r', d')" by simp
  then show ?thesis
    by (rule pg_update_slot_SomeE) (use assms(1) schema_ok_replace in blast)
qed

lemma pg_insert_slot_schema_ok:
  assumes "schema_ok d" and "pg_insert_slot r d = Inr (r', d')"
  shows "schema_ok d'"
  using assms(2)
proof (rule pg_insert_slot_InrE)
  assume r': "r' = snapshot_on_book d r" "slot_check r'" "slot_by_id d (ls_id r) = None"
    "\<not> slot_conflict d r'" "d' = d\<lparr>lesson_slots := lesson_slots d @ [r']\<rparr>"
  have "ls_id r' \<notin> ls_id ` set (lesson_slots d)"
    using r'(1,3) by (simp add: slot_by_id_def find_by_None_iff)
  moreover have "lanes_ok d'"
    using assms(1) r'(4) unfolding r'(5) lanes_ok_def schema_ok_def slot_conflict_def list_ex_iff
    by simp (metis same_lane_sym)
  ultimately show ?thesis
    using assms(1) r'(2,5) by (simp add: schema_ok_def keys_ok_def checks_ok_def)
qed

end
