(* ===== verification/Invariants.thy ===== *)
theory Invariants
  imports Database
begin

text \<open>
  The agreements between tables that no constraint of the schema states and that every
  writer of \<open>src/lib/scheduling\<close>, \<open>src/lib/billing\<close> and \<open>src/lib/teacher-ledger\<close>
  has to keep, with one preservation lemma per kind of statement:
  \<^item> \<open>completion_sync\<close>: a lesson is in a billable status exactly when a row of
    \<open>lesson_completions\<close> records it, and the row says which of the two statuses;
  \<^item> \<open>consumption_sync\<close>: a package unit that is out belongs to a booked or held lesson of
    the package's owner, of the package's duration and teacher;
  \<^item> \<open>capacity_ok\<close>: no package is consumed beyond its count;
  \<^item> \<open>coverage_ok\<close>: settlements never cover a completion beyond its amount.
\<close>

definition billable :: "slot_row \<Rightarrow> bool" where
  "billable r \<longleftrightarrow> ls_source r \<noteq> Some SrcPersonalEvent \<and> ls_status r \<in> {Completed, NoShowLearner}"

definition completion_backed :: "db \<Rightarrow> completion_row \<Rightarrow> bool" where
  "completion_backed d c \<longleftrightarrow>
     (\<exists>r \<in> set (lesson_slots d).
        ls_id r = lc_slot_id c \<and> ls_source r \<noteq> Some SrcPersonalEvent
        \<and> ls_status r = (if lc_was_no_show c then NoShowLearner else Completed)
        \<and> ls_teacher_account_id r = lc_teacher_id c)"

definition completion_sync :: "db \<Rightarrow> bool" where
  "completion_sync d \<longleftrightarrow>
     (\<forall>c \<in> set (lesson_completions d). completion_backed d c)
     \<and> (\<forall>r \<in> set (lesson_slots d). billable r \<longrightarrow>
          (\<exists>c \<in> set (lesson_completions d). lc_slot_id c = ls_id r))"

definition holds_unit :: "slot_row \<Rightarrow> bool" where
  "holds_unit r \<longleftrightarrow> ls_status r \<in> {Booked, Completed, NoShowLearner, NoShowTeacher}"

definition purchase_fits :: "purchase_row \<Rightarrow> slot_row \<Rightarrow> bool" where
  "purchase_fits p r \<longleftrightarrow>
     ls_learner_account_id r = Some (pp_account_id p)
     \<and> ls_duration_minutes r = pp_duration_minutes p
     \<and> (pp_teacher_id p = None \<or> pp_teacher_id p = Some (ls_teacher_account_id r))"

definition unit_backed :: "db \<Rightarrow> consumption_row \<Rightarrow> bool" where
  "unit_backed d c \<longleftrightarrow>
     (\<exists>r \<in> set (lesson_slots d). ls_id r = pc_slot_id c \<and> holds_unit r
        \<and> (\<exists>p \<in> set (package_purchases d).
             pp_id p = pc_package_purchase_id c \<and> purchase_fits p r))"

definition unit_active :: "consumption_row \<Rightarrow> bool" where
  "unit_active c \<longleftrightarrow> pc_restored_at c = None"

definition consumption_sync :: "db \<Rightarrow> bool" where
  "consumption_sync d \<longleftrightarrow> (\<forall>c \<in> set (package_consumptions d). unit_active c \<longrightarrow> unit_backed d c)"

definition active_units :: "db \<Rightarrow> uuid \<Rightarrow> nat" where
  "active_units d p =
     length (filter (\<lambda>c. pc_package_purchase_id c = p \<and> unit_active c) (package_consumptions d))"

definition capacity_ok :: "db \<Rightarrow> bool" where
  "capacity_ok d \<longleftrightarrow>
     (\<forall>p \<in> set (package_purchases d). int (active_units d (pp_id p)) \<le> pp_count_initial p)"

definition covered :: "db \<Rightarrow> uuid \<Rightarrow> int" where
  "covered d i =
     sum_by sc_amount_kopecks
       (filter (\<lambda>x. sc_completion_id x = i) (lesson_settlement_completions d))"

definition coverage_ok :: "db \<Rightarrow> bool" where
  "coverage_ok d \<longleftrightarrow>
     (\<forall>x \<in> set (lesson_settlement_completions d).
        0 < sc_amount_kopecks x \<and> sc_completion_id x \<in> lc_id ` set (lesson_completions d))
     \<and> (\<forall>c \<in> set (lesson_completions d). covered d (lc_id c) \<le> lc_amount_kopecks c)"

definition ledger_inv :: "db \<Rightarrow> bool" where
  "ledger_inv d \<longleftrightarrow>
     schema_ok d \<and> completion_sync d \<and> consumption_sync d \<and> capacity_ok d \<and> coverage_ok d"

lemma ledger_inv_empty_db: "ledger_inv empty_db"
  by (simp add: ledger_inv_def empty_db_def schema_ok_def keys_ok_def lanes_ok_def checks_ok_def
      completion_sync_def consumption_sync_def capacity_ok_def coverage_ok_def)

lemma ledger_inv_keys: "ledger_inv d \<Longrightarrow> keys_ok d"
  and ledger_inv_schema: "ledger_inv d \<Longrightarrow> schema_ok d"
  and ledger_inv_completion: "ledger_inv d \<Longrightarrow> completion_sync d"
  and ledger_inv_consumption: "ledger_inv d \<Longrightarrow> consumption_sync d"
  by (simp_all add: ledger_inv_def schema_ok_def)

lemma slot_by_id_check: "schema_ok d \<Longrightarrow> slot_by_id d i = Some r \<Longrightarrow> slot_check r"
  by (auto simp: schema_ok_def checks_ok_def dest: slot_by_id_SomeD)

lemma slot_by_id_unique:
  "keys_ok d \<Longrightarrow> slot_by_id d i = Some r \<Longrightarrow> x \<in> set (lesson_slots d) \<Longrightarrow> ls_id x = i \<Longrightarrow> x = r"
  by (drule (1) slot_by_id_mem) simp

text \<open>Each agreement only looks at some of the tables.\<close>

lemma completion_sync_cong:
  "lesson_slots a = lesson_slots b \<Longrightarrow> lesson_completions a = lesson_completions b \<Longrightarrow>
   completion_sync a = completion_sync b"
  by (simp add: completion_sync_def completion_backed_def)

lemma consumption_sync_cong:
  "lesson_slots a = lesson_slots b \<Longrightarrow> package_purchases a = package_purchases b \<Longrightarrow>
   package_consumptions a = package_consumptions b \<Longrightarrow> consumption_sync a = consumption_sync b"
  by (simp add: consumption_sync_def unit_backed_def)

lemma capacity_ok_cong:
  "package_purchases a = package_purchases b \<Longrightarrow> package_consumptions a = package_consumptions b \<Longrightarrow>
   capacity_ok a = capacity_ok b"
  by (simp add: capacity_ok_def active_units_def)

lemma coverage_ok_cong:
  "lesson_completions a = lesson_completions b \<Longrightarrow>
   lesson_settlement_completions a = lesson_settlement_completions b \<Longrightarrow>
   coverage_ok a = coverage_ok b"
  by (simp add: coverage_ok_def covered_def)

lemma schema_ok_cong:
  "lesson_slots a = lesson_slots b \<Longrightarrow> lesson_completions a = lesson_completions b \<Longrightarrow>
   package_purchases a = package_purchases b \<Longrightarrow> package_consumptions a = package_consumptions b \<Longrightarrow>
   schema_ok a = schema_ok b"
  by (simp add: schema_ok_def keys_ok_def lanes_ok_def checks_ok_def)

text \<open>Tables outside the ledgers never matter.\<close>

lemma ledger_inv_cong:
  assumes "lesson_slots a = lesson_slots b" "lesson_completions a = lesson_completions b"
    "package_purchases a = package_purchases b" "package_consumptions a = package_consumptions b"
    "lesson_settlement_completions a = lesson_settlement_completions b"
  shows "ledger_inv a = ledger_inv b"
  unfolding ledger_inv_def
  using assms schema_ok_cong [of a b] completion_sync_cong [of a b] consumption_sync_cong [of a b]
    capacity_ok_cong [of a b] coverage_ok_cong [of a b] by simp

section \<open>Replacing a slot\<close>

lemma set_replace_slot:
  assumes "slot_by_id d i = Some r" and "ls_id r' = i"
  shows "set (replace_row ls_id r' (lesson_slots d)) =
     insert r' {x \<in> set (lesson_slots d). ls_id x \<noteq> i}"
proof -
  have "ls_id r' \<in> ls_id ` set (lesson_slots d)"
    using slot_by_id_SomeD [OF assms(1)] assms(2) by (metis image_eqI)
  then show ?thesis using assms(2) set_replace_row_eq [of ls_id r' "lesson_slots d"] by simp
qed

lemma completion_sync_replace:
  assumes keys: "keys_ok d" and sync: "completion_sync d"
    and r: "slot_by_id d i = Some r" and id: "ls_id r' = i"
    and teacher: "ls_teacher_account_id r' = ls_teacher_account_id r"
    and same: "ls_status r' = ls_status r \<and> ls_source r' = ls_source r
               \<or> \<not> billable r \<and> \<not> billable r'"
  shows "completion_sync (d\<lparr>lesson_slots := replace_row ls_id r' (lesson_slots d)\<rparr>)"
    (is "completion_sync ?d'")
proof -
  note slots = set_replace_slot [OF r id]
  have r_in: "r \<in> set (lesson_slots d)" "ls_id r = i" using slot_by_id_SomeD [OF r] by auto
  have "completion_backed ?d' c" if c: "c \<in> set (lesson_completions d)" for c
  proof -
    obtain x where x: "x \<in> set (lesson_slots d)" "ls_id x = lc_slot_id c"
      "ls_source x \<noteq> Some SrcPersonalEvent" "ls_teacher_account_id x = lc_teacher_id c"
      "ls_status x = (if lc_was_no_show c then NoShowLearner else Completed)"
      using sync c by (auto simp: completion_sync_def completion_backed_def)
    show ?thesis
    proof (cases "ls_id x = i")
      case True
      then have "x = r" using slot_by_id_unique [OF keys r x(1)] by simp
      moreover from this x have "billable r" by (auto simp: billable_def)
      ultimately show ?thesis
        using same x id teacher True by (auto simp: completion_backed_def slots)
    next
      case False
      with x show ?thesis by (auto simp: completion_backed_def slots)
    qed
  qed
  moreover have "\<exists>c \<in> set (lesson_completions d). lc_slot_id c = ls_id y"
    if "y \<in> set (lesson_slots ?d')" and "billable y" for y
  proof (cases "ls_id y = i")
    case True
    with that(1) id have "y = r'" by (auto simp: slots)
    with that(2) same have "billable r" by (auto simp: billable_def)
    with sync r_in True show ?thesis by (auto simp: completion_sync_def)
  next
    case False
    with that sync id show ?thesis by (auto simp: completion_sync_def slots)
  qed
  ultimately show ?thesis by (simp add: completion_sync_def)
qed

lemma unit_backed_replace:
  assumes keys: "keys_ok d" and r: "slot_by_id d i = Some r" and id: "ls_id r' = i"
    and backed: "unit_backed d c"
    and keep: "pc_slot_id c = i \<Longrightarrow>
       holds_unit r' \<and> ls_learner_account_id r' = ls_learner_account_id r
       \<and> ls_duration_minutes r' = ls_duration_minutes r
       \<and> ls_teacher_account_id r' = ls_teacher_account_id r"
  shows "unit_backed (d\<lparr>lesson_slots := replace_row ls_id r' (lesson_slots d)\<rparr>) c"
proof -
  note slots = set_replace_slot [OF r id]
  obtain x p where x: "x \<in> set (lesson_slots d)" "ls_id x = pc_slot_id c" "holds_unit x"
    and p: "p \<in> set (package_purchases d)" "pp_id p = pc_package_purchase_id c" "purchase_fits p x"
    using backed by (auto simp: unit_backed_def)
  show ?thesis
  proof (cases "pc_slot_id c = i")
    case True
    with x have "x = r" using slot_by_id_unique [OF keys r x(1)] by simp
    with keep [OF True] p(3) have "holds_unit r' \<and> purchase_fits p r'"
      by (simp add: purchase_fits_def)
    with p id True show ?thesis by (auto simp: unit_backed_def slots)
  next
    case False
    with x p show ?thesis by (auto simp: unit_backed_def slots)
  qed
qed

text \<open>A slot that holds no unit has no active consumption.\<close>

lemma no_active_unit:
  assumes "keys_ok d" and "consumption_sync d" and "slot_by_id d i = Some r" and "\<not> holds_unit r"
    and "c \<in> set (package_consumptions d)" and "pc_slot_id c = i"
  shows "\<not> unit_active c"
  using assms slot_by_id_unique [OF assms(1,3)]
  by (auto simp: consumption_sync_def unit_backed_def)

lemma consumption_sync_replace:
  assumes keys: "keys_ok d" and sync: "consumption_sync d"
    and r: "slot_by_id d i = Some r" and id: "ls_id r' = i"
    and keep: "holds_unit r \<Longrightarrow>
       holds_unit r' \<and> ls_learner_account_id r' = ls_learner_account_id r
       \<and> ls_duration_minutes r' = ls_duration_minutes r
       \<and> ls_teacher_account_id r' = ls_teacher_account_id r"
  shows "consumption_sync (d\<lparr>lesson_slots := replace_row ls_id r' (lesson_slots d)\<rparr>)"
proof -
  have "unit_backed (d\<lparr>lesson_slots := replace_row ls_id r' (lesson_slots d)\<rparr>) c"
    if c: "c \<in> set (package_consumptions d)" "unit_active c" for c
  proof (rule unit_backed_replace [OF keys r id])
    show "unit_backed d c" using sync c by (simp add: consumption_sync_def)
    assume "pc_slot_id c = i"
    then have "holds_unit r" using no_active_unit [OF keys sync r] c by blast
    then show "holds_unit r' \<and> ls_learner_account_id r' = ls_learner_account_id r
       \<and> ls_duration_minutes r' = ls_duration_minutes r
       \<and> ls_teacher_account_id r' = ls_teacher_account_id r" by (rule keep)
  qed
  then show ?thesis by (simp add: consumption_sync_def)
qed

text \<open>
  The two facts in one: an update of a slot keeps the invariant as long as it does not
  move the slot in or out of the billable statuses, nor take a unit's lesson away.
\<close>

lemma capacity_ok_slots [simp]: "capacity_ok (d\<lparr>lesson_slots := s\<rparr>) = capacity_ok d"
  and coverage_ok_slots [simp]: "coverage_ok (d\<lparr>lesson_slots := s\<rparr>) = coverage_ok d"
  and active_units_slots [simp]: "active_units (d\<lparr>lesson_slots := s\<rparr>) p = active_units d p"
  and covered_slots [simp]: "covered (d\<lparr>lesson_slots := s\<rparr>) i = covered d i"
  by (simp_all add: capacity_ok_def coverage_ok_def active_units_def covered_def)

definition slot_step_safe :: "slot_row \<Rightarrow> slot_row \<Rightarrow> bool" where
  "slot_step_safe r r' \<longleftrightarrow>
     ls_id r' = ls_id r \<and> ls_teacher_account_id r' = ls_teacher_account_id r
     \<and> (ls_status r' = ls_status r \<and> ls_source r' = ls_source r \<or> \<not> billable r \<and> \<not> billable r')
     \<and> (holds_unit r \<longrightarrow>
          holds_unit r' \<and> ls_learner_account_id r' = ls_learner_account_id r
          \<and> ls_duration_minutes r' = ls_duration_minutes r)"

lemma pg_update_slot_inv:
  assumes inv: "ledger_inv d" and upd: "pg_update_slot i P f d = Inr (ro, d')"
    and safe: "\<And>r. slot_by_id d i = Some r \<Longrightarrow> P r \<Longrightarrow> slot_step_safe r (f r)"
  shows "ledger_inv d'"
proof (cases ro)
  case None
  with inv upd show ?thesis by (auto dest: pg_update_slot_NoneD)
next
  case (Some r')
  with upd have u: "pg_update_slot i P f d = Inr (Some r', d')" by simp
  then show ?thesis
  proof (rule pg_update_slot_SomeE)
    fix r
    assume r: "slot_by_id d i = Some r" "ls_id r = i" "P r" "r' = snapshot_on_book d (f r)"
      and d': "d' = d\<lparr>lesson_slots := replace_row ls_id r' (lesson_slots d)\<rparr>"
    have s: "slot_step_safe r r'"
      using safe [OF r(1,3)] r(4) by (simp add: slot_step_safe_def billable_def holds_unit_def)
    have id: "ls_id r' = i" using s r(2) by (simp add: slot_step_safe_def)
    have "completion_sync d'"
      unfolding d' using s
      by (intro completion_sync_replace [OF ledger_inv_keys [OF inv] _ r(1) id])
        (use inv in \<open>auto simp: slot_step_safe_def ledger_inv_def\<close>)
    moreover have "consumption_sync d'"
      unfolding d' using s
      by (intro consumption_sync_replace [OF ledger_inv_keys [OF inv] _ r(1) id])
        (use inv in \<open>auto simp: slot_step_safe_def ledger_inv_def\<close>)
    ultimately show ?thesis
      using inv pg_update_slot_schema_ok [OF ledger_inv_schema [OF inv] u] d'
      by (simp add: ledger_inv_def)
  qed
qed

text \<open>An update that passes the constraints and stays in its lane goes through.\<close>

lemma no_self_conflict:
  assumes "ledger_inv d" and "slot_by_id d i = Some r" and "ls_id r' = ls_id r"
    and "ls_teacher_account_id r' = ls_teacher_account_id r" "ls_start_at r' = ls_start_at r"
    and "ls_status r \<noteq> Cancelled"
  shows "\<not> slot_conflict d r'"
proof -
  have r: "r \<in> set (lesson_slots d)" using slot_by_id_SomeD [OF assms(2)] by blast
  have "\<not> same_lane x r'" if "x \<in> set (lesson_slots d)" "ls_id x \<noteq> ls_id r'" for x
  proof -
    have "\<not> same_lane x r"
      using assms(1,3) that r unfolding ledger_inv_def schema_ok_def lanes_ok_def by metis
    then show ?thesis using assms(4-6) by (auto simp: same_lane_def)
  qed
  then show ?thesis by (auto simp: slot_conflict_def list_ex_iff)
qed

lemma pg_update_slot_ok:
  assumes inv: "ledger_inv d" and r: "slot_by_id d i = Some r" and tabs: "lesson_slots d1 = lesson_slots d"
    and "P r" and "ls_id (f r) = ls_id r" "ls_teacher_account_id (f r) = ls_teacher_account_id r"
      "ls_start_at (f r) = ls_start_at r" "ls_status r \<noteq> Cancelled"
    and "ls_snapshot_amount_kopecks (f r) = ls_snapshot_amount_kopecks r"
    and sv: "snapshot_value d1 (f r) = ls_snapshot_amount_kopecks r" and "slot_check (f r)"
  shows "pg_update_slot i P f d1
       = Inr (Some (f r), d1\<lparr>lesson_slots := replace_row ls_id (f r) (lesson_slots d)\<rparr>)"
proof -
  have same: "snapshot_on_book d1 (f r) = f r" using sv assms(9) by (simp add: snapshot_on_book_def)
  have "\<not> slot_conflict d (f r)" using assms(5-8) by (intro no_self_conflict [OF inv r])
  then have "\<not> slot_conflict d1 (f r)" by (simp add: slot_conflict_def tabs)
  moreover have "slot_by_id d1 i = Some r" using r by (simp add: slot_by_id_def tabs)
  ultimately show ?thesis
    using same assms(4,9,11) by (simp add: pg_update_slot_def Let_def snapshot_frozen_def tabs)
qed

section \<open>Inserting a slot\<close>

lemma completion_backed_append:
  "completion_backed d c \<Longrightarrow> completion_backed (d\<lparr>lesson_slots := lesson_slots d @ rs\<rparr>) c"
  by (auto simp: completion_backed_def)

lemma unit_backed_append:
  "unit_backed d c \<Longrightarrow> unit_backed (d\<lparr>lesson_slots := lesson_slots d @ rs\<rparr>) c"
  by (auto simp: unit_backed_def)

lemma pg_insert_slot_inv:
  assumes inv: "ledger_inv d" and ins: "pg_insert_slot r d = Inr (r', d')" and "\<not> billable r"
  shows "ledger_inv d'"
  using ins
proof (rule pg_insert_slot_InrE)
  assume r': "r' = snapshot_on_book d r" and d': "d' = d\<lparr>lesson_slots := lesson_slots d @ [r']\<rparr>"
  have "\<not> billable r'" using assms(3) r' by (simp add: billable_def)
  then have "completion_sync d'"
    using inv by (auto simp: ledger_inv_def completion_sync_def d' intro: completion_backed_append)
  moreover have "consumption_sync d'"
    using inv by (auto simp: ledger_inv_def consumption_sync_def d' intro: unit_backed_append)
  ultimately show ?thesis
    using inv pg_insert_slot_schema_ok [OF ledger_inv_schema [OF inv] ins] d'
    by (simp add: ledger_inv_def)
qed

section \<open>Recording, removing and flipping a completion\<close>

lemma booked_not_personal: "slot_check r \<Longrightarrow> ls_status r = Booked \<Longrightarrow> ls_source r \<noteq> Some SrcPersonalEvent"
  by (auto simp: slot_check_def check_personal_event_def)

lemma covered_fresh:
  "coverage_ok d \<Longrightarrow> i \<notin> lc_id ` set (lesson_completions d) \<Longrightarrow> covered d i = 0"
  unfolding coverage_ok_def covered_def
  by (subst (asm) ball_conj_distrib) (metis (mono_tags, lifting) filter_False sum_by_Nil)

lemma pg_insert_completion_or_skip_SomeE:
  assumes "pg_insert_completion_or_skip c row d = Inr (Some row', d')"
  obtains ro where "row' = row" and "completion_of_slot d (lc_slot_id row) = None"
    and "lc_id row \<notin> lc_id ` set (lesson_completions d)"
    and "lesson_completion_apply c row (d\<lparr>lesson_completions := lesson_completions d @ [row]\<rparr>)
           = Inr (ro, d')"
  using assms
  by (auto simp: pg_insert_completion_or_skip_def bindR_eq_Inr_iff find_by_None_iff
      split: if_splits)

lemma slot_by_id_completions [simp]:
  "slot_by_id (d\<lparr>lesson_completions := x\<rparr>) i = slot_by_id d i"
  by (simp add: slot_by_id_def)

lemma completion_insert_sync:
  assumes keys: "keys_ok d" and sync: "completion_sync d"
    and r: "slot_by_id d (lc_slot_id row) = Some r" and id: "ls_id r' = lc_slot_id row"
    and r': "ls_teacher_account_id r' = lc_teacher_id row" "ls_source r' \<noteq> Some SrcPersonalEvent"
      "ls_status r' = (if lc_was_no_show row then NoShowLearner else Completed)"
    and fresh: "completion_of_slot d (lc_slot_id row) = None"
  shows "completion_sync (d\<lparr>lesson_completions := lesson_completions d @ [row],
           lesson_slots := replace_row ls_id r' (lesson_slots d)\<rparr>)"
proof -
  note slots = set_replace_slot [OF r id]
  have "lc_slot_id c \<noteq> lc_slot_id row" if "c \<in> set (lesson_completions d)" for c
    using fresh that by (auto simp: completion_of_slot_None_iff)
  with sync r' id show ?thesis
    unfolding completion_sync_def completion_backed_def by (fastforce simp: slots)
qed

lemma completion_delete_sync:
  assumes keys: "keys_ok d" and sync: "completion_sync d"
    and old: "old \<in> set (lesson_completions d)"
    and r: "slot_by_id d (lc_slot_id old) = Some r" and id: "ls_id r' = lc_slot_id old"
    and r': "ls_status r' = Booked"
  shows "completion_sync (d\<lparr>lesson_completions :=
             filter (\<lambda>x. lc_id x \<noteq> lc_id old) (lesson_completions d),
           lesson_slots := replace_row ls_id r' (lesson_slots d)\<rparr>)"
proof -
  note slots = set_replace_slot [OF r id]
  have other: "lc_slot_id x \<noteq> lc_slot_id old"
    if "x \<in> set (lesson_completions d)" "lc_id x \<noteq> lc_id old" for x
    using keys that old distinct_key_eq [of lc_slot_id "lesson_completions d" x old]
    by (auto simp: keys_ok_def)
  let ?d' = "d\<lparr>lesson_completions := filter (\<lambda>x. lc_id x \<noteq> lc_id old) (lesson_completions d),
           lesson_slots := replace_row ls_id r' (lesson_slots d)\<rparr>"
  have "completion_backed ?d' c" if "c \<in> set (lesson_completions ?d')" for c
  proof -
    from that have c: "c \<in> set (lesson_completions d)" "lc_id c \<noteq> lc_id old" by auto
    then obtain x where x: "x \<in> set (lesson_slots d)" "ls_id x = lc_slot_id c"
      "ls_source x \<noteq> Some SrcPersonalEvent" "ls_teacher_account_id x = lc_teacher_id c"
      "ls_status x = (if lc_was_no_show c then NoShowLearner else Completed)"
      using sync by (auto simp: completion_sync_def completion_backed_def)
    then have "x \<in> set (lesson_slots ?d')" using other [OF c] by (simp add: slots)
    with x show ?thesis unfolding completion_backed_def by blast
  qed
  moreover have "\<exists>c \<in> set (lesson_completions ?d'). lc_slot_id c = ls_id y"
    if "y \<in> set (lesson_slots ?d')" "billable y" for y
  proof -
    have y: "y \<in> set (lesson_slots d)" "ls_id y \<noteq> lc_slot_id old" "billable y"
      using that r' by (auto simp: slots billable_def)
    then obtain c where c: "c \<in> set (lesson_completions d)" "lc_slot_id c = ls_id y"
      using sync by (auto simp: completion_sync_def)
    with y(2) keys old distinct_key_eq [of lc_id "lesson_completions d" c old]
    have "lc_id c \<noteq> lc_id old" by (auto simp: keys_ok_def)
    with c show ?thesis by auto
  qed
  ultimately show ?thesis by (simp add: completion_sync_def)
qed

lemma pg_insert_completion_or_skip_inv:
  assumes inv: "ledger_inv d" and r: "slot_by_id d (lc_slot_id row) = Some r"
    and booked: "ls_status r = Booked" and teacher: "lc_teacher_id row = ls_teacher_account_id r"
    and amount: "0 \<le> lc_amount_kopecks row"
    and ins: "pg_insert_completion_or_skip c row d = Inr (ro, d')"
  shows "ledger_inv d'"
proof (cases ro)
  case None
  then have "d' = d"
    using ins by (auto simp: pg_insert_completion_or_skip_def bindR_eq_Inr_iff split: if_splits)
  with inv show ?thesis by simp
next
  case (Some row')
  let ?d1 = "d\<lparr>lesson_completions := lesson_completions d @ [row]\<rparr>"
  from ins Some obtain so where fresh: "completion_of_slot d (lc_slot_id row) = None"
    and id: "lc_id row \<notin> lc_id ` set (lesson_completions d)"
    and app: "lesson_completion_apply c row ?d1 = Inr (so, d')"
    by (auto elim: pg_insert_completion_or_skip_SomeE)
  have keys: "keys_ok d" and keys1: "keys_ok ?d1"
    using inv fresh id
    by (auto simp: ledger_inv_def schema_ok_def keys_ok_def completion_of_slot_None_iff)
  have "so \<noteq> None"
    by (rule pg_update_slot_hit [OF app [unfolded lesson_completion_apply_def], of r]) (simp_all add: r booked)
  then obtain r' where upd: "pg_update_slot (lc_slot_id row) (\<lambda>r. ls_status r = Booked)
       (\<lambda>r. r\<lparr>ls_status := (if lc_was_no_show row then NoShowLearner else Completed),
              ls_updated_at := pg_now c\<rparr>) ?d1 = Inr (Some r', d')"
    using app by (auto simp: lesson_completion_apply_def)
  from upd r have r': "r' = snapshot_on_book ?d1
       (r\<lparr>ls_status := (if lc_was_no_show row then NoShowLearner else Completed),
              ls_updated_at := pg_now c\<rparr>)"
    and d': "d' = ?d1\<lparr>lesson_slots := replace_row ls_id r' (lesson_slots d)\<rparr>"
    by (auto elim!: pg_update_slot_SomeE)
  have rid: "ls_id r' = lc_slot_id row" using r' slot_by_id_SomeD [OF r] by simp
  have chk: "ls_source r' \<noteq> Some SrcPersonalEvent"
    using booked_not_personal [OF slot_by_id_check [OF ledger_inv_schema [OF inv] r] booked] r' by simp
  have "completion_sync d'"
    using completion_insert_sync [OF keys ledger_inv_completion [OF inv] r rid _ chk _ fresh]
      teacher r' d' by simp
  moreover have "consumption_sync d'"
    using consumption_sync_replace [OF keys ledger_inv_consumption [OF inv] r rid] r' d'
      consumption_sync_cong [of d' "d\<lparr>lesson_slots := replace_row ls_id r' (lesson_slots d)\<rparr>"]
    by (simp add: holds_unit_def)
  moreover have "schema_ok ?d1"
    using keys1 inv by (simp add: ledger_inv_def schema_ok_def lanes_ok_def checks_ok_def)
  then have "schema_ok d'" using upd by (rule pg_update_slot_schema_ok)
  moreover have "coverage_ok d'"
    using inv covered_fresh [OF _ id] amount
    by (auto simp: ledger_inv_def coverage_ok_def covered_def d')
  ultimately show ?thesis
    using inv by (simp add: ledger_inv_def d' capacity_ok_def active_units_def)
qed

lemma pg_delete_completion_inv:
  assumes inv: "ledger_inv d" and del: "pg_delete_completion c i d = Inr ((), d')"
  shows "ledger_inv d'"
proof (cases "find_by lc_id i (lesson_completions d)")
  case None
  with del inv show ?thesis by (simp add: pg_delete_completion_def)
next
  case (Some old)
  let ?d1 = "d\<lparr>lesson_completions := filter (\<lambda>x. lc_id x \<noteq> i) (lesson_completions d)\<rparr>"
  from find_by_SomeD [OF Some] have old: "old \<in> set (lesson_completions d)" "lc_id old = i" by auto
  from del Some obtain so where guard: "lesson_completion_delete_guard d old = None"
    and rev: "lesson_completion_revert c old ?d1 = Inr (so, d')"
    by (auto simp: pg_delete_completion_def bindR_eq_Inr_iff split: option.splits)
  have keys: "keys_ok d" using inv by (rule ledger_inv_keys)
  have keys1: "keys_ok ?d1" using keys by (auto simp: keys_ok_def intro: distinct_map_filter)
  obtain r where rin: "r \<in> set (lesson_slots d)" "ls_id r = lc_slot_id old" "billable r"
    using inv old
    by (fastforce simp: ledger_inv_def completion_sync_def completion_backed_def billable_def)
  have r: "slot_by_id d (lc_slot_id old) = Some r" using slot_by_id_mem [OF keys rin(1)] rin(2) by simp
  have "so \<noteq> None"
    by (rule pg_update_slot_hit [OF rev [unfolded lesson_completion_revert_def], of r])
      (use r rin(3) in \<open>auto simp: billable_def\<close>)
  then obtain r' where upd: "pg_update_slot (lc_slot_id old)
       (\<lambda>r. ls_status r \<in> {Completed, NoShowLearner})
       (\<lambda>r. r\<lparr>ls_status := Booked, ls_updated_at := pg_now c\<rparr>) ?d1 = Inr (Some r', d')"
    using rev by (auto simp: lesson_completion_revert_def)
  from upd r have r': "r' = snapshot_on_book ?d1 (r\<lparr>ls_status := Booked, ls_updated_at := pg_now c\<rparr>)"
    and d': "d' = ?d1\<lparr>lesson_slots := replace_row ls_id r' (lesson_slots d)\<rparr>"
    by (auto elim!: pg_update_slot_SomeE)
  have rid: "ls_id r' = lc_slot_id old" using r' rin(2) by simp
  have "completion_sync d'"
    using completion_delete_sync [OF keys ledger_inv_completion [OF inv] old(1) r rid] r' d' old(2)
    by simp
  moreover have "consumption_sync d'"
    using consumption_sync_replace [OF keys ledger_inv_consumption [OF inv] r rid] r' d'
      consumption_sync_cong [of d' "d\<lparr>lesson_slots := replace_row ls_id r' (lesson_slots d)\<rparr>"]
    by (simp add: holds_unit_def)
  moreover have "schema_ok ?d1"
    using keys1 inv by (simp add: ledger_inv_def schema_ok_def lanes_ok_def checks_ok_def)
  then have "schema_ok d'" using upd by (rule pg_update_slot_schema_ok)
  moreover have "coverage_ok d'"
  proof -
    have "\<forall>x \<in> set (lesson_settlement_completions d). sc_completion_id x \<noteq> i"
      using guard old(2)
      by (auto simp: lesson_completion_delete_guard_def completion_settled_def list_ex_iff
          split: if_splits)
    then show ?thesis
      using inv unfolding ledger_inv_def coverage_ok_def covered_def d' by (simp add: image_iff) metis
  qed
  ultimately show ?thesis
    using inv by (simp add: ledger_inv_def d' capacity_ok_def active_units_def)
qed

end
