(* ===== verification/Policy.thy ===== *)
theory Policy
  imports Complex_Main Invariants
begin

text \<open>
  \<open>src/lib/scheduling/policy.ts\<close> (the learner's cancel window, global and per teacher),
  \<open>canLearnerCancel\<close> of \<open>src/lib/scheduling/slots/types.ts\<close>, and the row projection and
  event builder of \<open>src/lib/scheduling/slots/internal.ts\<close>. The environment variable is an
  argument (\<open>None\<close> when it is not set).
\<close>

section \<open>The window from the environment\<close>

definition DEFAULT_LEARNER_CANCEL_WINDOW_HOURS :: int where
  "DEFAULT_LEARNER_CANCEL_WINDOW_HOURS = 24"
definition MIN_LEARNER_CANCEL_WINDOW_HOURS :: int where
  "MIN_LEARNER_CANCEL_WINDOW_HOURS = 0"
definition MAX_LEARNER_CANCEL_WINDOW_HOURS :: int where
  "MAX_LEARNER_CANCEL_WINDOW_HOURS = 720"

definition is_digit :: "char \<Rightarrow> bool" where
  "is_digit ch \<longleftrightarrow> ch \<in> set ''0123456789''"

definition integer_pattern :: "string \<Rightarrow> bool" where
  "integer_pattern s \<longleftrightarrow> s \<noteq> [] \<and> list_all is_digit s"

definition digits_value :: "string \<Rightarrow> int" where
  "digits_value s = foldl (\<lambda>a ch. 10 * a + (of_char ch - 48)) 0 s"

definition getLearnerCancelWindowHours :: "string option \<Rightarrow> int" where
  "getLearnerCancelWindowHours env =
     (let raw = coalesce env [] in
      if length raw = 0 then DEFAULT_LEARNER_CANCEL_WINDOW_HOURS
      else if \<not> integer_pattern raw then DEFAULT_LEARNER_CANCEL_WINDOW_HOURS
      else
        let parsed = digits_value raw in
        if parsed < MIN_LEARNER_CANCEL_WINDOW_HOURS \<or> parsed > MAX_LEARNER_CANCEL_WINDOW_HOURS
        then DEFAULT_LEARNER_CANCEL_WINDOW_HOURS
        else parsed)"

definition getLearnerCancelThresholdMs :: "string option \<Rightarrow> millis" where
  "getLearnerCancelThresholdMs env = getLearnerCancelWindowHours env * 60 * 60 * 1000"

section \<open>The window of a teacher\<close>

definition DEFAULT_TEACHER_CANCEL_WINDOW_MINUTES :: int where
  "DEFAULT_TEACHER_CANCEL_WINDOW_MINUTES = 1440"
definition MAX_TEACHER_CANCEL_WINDOW_MINUTES :: int where
  "MAX_TEACHER_CANCEL_WINDOW_MINUTES = 2880"

definition account_by_id :: "db \<Rightarrow> uuid \<Rightarrow> account_row option" where
  "account_by_id d i = find_by ac_id i (accounts d)"

definition getTeacherCancelWindowMinutes :: "db \<Rightarrow> uuid \<Rightarrow> int" where
  "getTeacherCancelWindowMinutes d teacherAccountId =
     (case account_by_id d teacherAccountId of
        None \<Rightarrow> DEFAULT_TEACHER_CANCEL_WINDOW_MINUTES
      | Some a \<Rightarrow>
          let n = ac_teacher_cancel_window_minutes a in
          if n < 0 \<or> n > MAX_TEACHER_CANCEL_WINDOW_MINUTES
          then DEFAULT_TEACHER_CANCEL_WINDOW_MINUTES else n)"

text \<open>A JavaScript number with its fractions, for the one place that rounds.\<close>

datatype js_float = Finite rat | PosInfinity | NegInfinity | NaN

definition js_round_clamp :: "int \<Rightarrow> js_float \<Rightarrow> int option" where
  "js_round_clamp hi x =
     (case x of
        Finite q \<Rightarrow> Some (max 0 (min hi (floor (q + 1 / 2))))
      | PosInfinity \<Rightarrow> Some hi
      | NegInfinity \<Rightarrow> Some 0
      | NaN \<Rightarrow> None)"

text \<open>A NaN reaches the database as text that is no integer.\<close>

definition setTeacherCancelWindowMinutes :: "uuid \<Rightarrow> js_float \<Rightarrow> db \<Rightarrow> unit outcome" where
  "setTeacherCancelWindowMinutes teacherAccountId minutes d =
     (case js_round_clamp MAX_TEACHER_CANCEL_WINDOW_MINUTES minutes of
        None \<Rightarrow> Inl (PgErr (RaisedException ''22P02''))
      | Some clamped \<Rightarrow>
          Inr ((), d\<lparr>accounts :=
            map (\<lambda>a. if ac_id a = teacherAccountId
                     then a\<lparr>ac_teacher_cancel_window_minutes := clamped\<rparr> else a) (accounts d)\<rparr>))"

section \<open>The decision shown to the learner\<close>

datatype learner_cancel_reason = DecAlreadyTerminal | DecTooLateToCancel

datatype learner_cancel_decision =
  CancelAllowed | CancelRefused learner_cancel_reason "int option"

text \<open>\<open>startAt\<close> is the instant its text denotes, \<open>None\<close> when it denotes none.\<close>

definition canLearnerCancel ::
  "string option \<Rightarrow> slot_status \<Rightarrow> millis option \<Rightarrow> millis \<Rightarrow> learner_cancel_decision" where
  "canLearnerCancel env status startAt nowMs =
     (if status \<noteq> Booked then CancelRefused DecAlreadyTerminal None
      else case startAt of
        None \<Rightarrow> CancelRefused DecAlreadyTerminal None
      | Some startMs \<Rightarrow>
          let diffMs = startMs - nowMs in
          if diffMs < getLearnerCancelThresholdMs env
          then CancelRefused DecTooLateToCancel (Some (max 0 (diffMs div ms_per_minute)))
          else CancelAllowed)"

section \<open>Row projection and event blob\<close>

record lesson_slot =
  sl_id :: uuid
  sl_teacherAccountId :: uuid
  sl_startAt :: millis
  sl_durationMinutes :: int
  sl_status :: slot_status
  sl_learnerAccountId :: "uuid option"
  sl_bookedAt :: "millis option"
  sl_cancelledAt :: "millis option"
  sl_cancelledByAccountId :: "uuid option"
  sl_cancellationReason :: "js_text option"
  sl_markedAt :: "millis option"
  sl_tariffId :: "uuid option"
  sl_notes :: "js_text option"
  sl_agenda :: "js_text option"
  sl_zoomUrl :: "js_text option"
  sl_externalConflictAt :: "millis option"
  sl_source :: "slot_source option"
  sl_personalEventTitle :: "js_text option"
  sl_personalEventBody :: "js_text option"
  sl_events :: "slot_event list"
  sl_createdAt :: millis
  sl_updatedAt :: millis

text \<open>An empty text column is falsy and is projected to null.\<close>

definition truthy_text :: "js_text option \<Rightarrow> js_text option" where
  "truthy_text t = (case t of Some [] \<Rightarrow> None | x \<Rightarrow> x)"

definition rowToSlot :: "slot_row \<Rightarrow> lesson_slot" where
  "rowToSlot row =
     \<lparr>sl_id = ls_id row,
      sl_teacherAccountId = ls_teacher_account_id row,
      sl_startAt = js_date_via_string (ls_start_at row),
      sl_durationMinutes = ls_duration_minutes row,
      sl_status = ls_status row,
      sl_learnerAccountId = ls_learner_account_id row,
      sl_bookedAt = map_option js_date_via_string (ls_booked_at row),
      sl_cancelledAt = map_option js_date_via_string (ls_cancelled_at row),
      sl_cancelledByAccountId = ls_cancelled_by_account_id row,
      sl_cancellationReason = truthy_text (ls_cancellation_reason row),
      sl_markedAt = map_option js_date_via_string (ls_marked_at row),
      sl_tariffId = ls_tariff_id row,
      sl_notes = truthy_text (ls_notes row),
      sl_agenda = truthy_text (ls_agenda row),
      sl_zoomUrl = truthy_text (ls_zoom_url row),
      sl_externalConflictAt = map_option js_date_via_string (ls_external_conflict_at row),
      sl_source = ls_source row,
      sl_personalEventTitle = truthy_text (ls_personal_event_title row),
      sl_personalEventBody = truthy_text (ls_personal_event_body row),
      sl_events = ls_events row,
      sl_createdAt = js_date (ls_created_at row),
      sl_updatedAt = js_date (ls_updated_at row)\<rparr>"

definition appendEventSql ::
  "clock \<Rightarrow> string \<Rightarrow> string option \<Rightarrow> (string \<times> js_val) list option \<Rightarrow> slot_event list" where
  "appendEventSql c eventType actor payload =
     [\<lparr>ev_type = eventType, ev_at = js_now c, ev_actor = actor, ev_payload = payload\<rparr>]"

section \<open>Facts\<close>

lemma window_hours_range: "0 \<le> getLearnerCancelWindowHours env \<and> getLearnerCancelWindowHours env \<le> 720"
  by (simp add: getLearnerCancelWindowHours_def Let_def DEFAULT_LEARNER_CANCEL_WINDOW_HOURS_def
      MIN_LEARNER_CANCEL_WINDOW_HOURS_def MAX_LEARNER_CANCEL_WINDOW_HOURS_def)

lemma teacher_window_range:
  "0 \<le> getTeacherCancelWindowMinutes d t \<and> getTeacherCancelWindowMinutes d t \<le> 2880"
  by (auto simp: getTeacherCancelWindowMinutes_def Let_def DEFAULT_TEACHER_CANCEL_WINDOW_MINUTES_def
      MAX_TEACHER_CANCEL_WINDOW_MINUTES_def split: option.splits)

lemma js_round_clamp_range: "js_round_clamp hi x = Some n \<Longrightarrow> 0 \<le> hi \<Longrightarrow> 0 \<le> n \<and> n \<le> hi"
  by (auto simp: js_round_clamp_def split: js_float.splits)

text \<open>
  The window a teacher sets through \<open>setTeacherCancelWindowMinutes\<close>, whatever
  finite or infinite number the form sends, is stored within 0..2880 minutes and is what
  \<open>getTeacherCancelWindowMinutes\<close> then reads; the windows of all other accounts are
  untouched. Only a NaN is refused.
\<close>

theorem teacher_window_set_get:
  assumes "account_by_id d t = Some a" and "minutes \<noteq> NaN"
  shows "\<exists>n d'. setTeacherCancelWindowMinutes t minutes d = Inr ((), d')
      \<and> js_round_clamp 2880 minutes = Some n \<and> 0 \<le> n \<and> n \<le> 2880
      \<and> getTeacherCancelWindowMinutes d' t = n
      \<and> (\<forall>u. u \<noteq> t \<longrightarrow> account_by_id d' u = account_by_id d u)"
proof -
  obtain n where n: "js_round_clamp 2880 minutes = Some n"
    using assms(2) by (cases minutes) (auto simp: js_round_clamp_def)
  have rng: "0 \<le> n \<and> n \<le> 2880" by (rule js_round_clamp_range [OF n]) simp
  let ?g = "\<lambda>a :: account_row. if ac_id a = t then a\<lparr>ac_teacher_cancel_window_minutes := n\<rparr> else a"
  have look: "find_by ac_id u (map ?g (accounts d)) = map_option ?g (find_by ac_id u (accounts d))" for u
    by (rule find_by_map) simp
  have "map_option ?g (find_by ac_id u (accounts d)) = find_by ac_id u (accounts d)" if "u \<noteq> t" for u
    using that by (cases "find_by ac_id u (accounts d)") (auto dest: find_by_key)
  with look show ?thesis
    using assms(1) n rng find_by_key [of ac_id t "accounts d" a]
    by (simp add: setTeacherCancelWindowMinutes_def getTeacherCancelWindowMinutes_def
        account_by_id_def MAX_TEACHER_CANCEL_WINDOW_MINUTES_def Let_def)
qed

theorem teacher_window_set_get_witness:
  "\<exists>d'. setTeacherCancelWindowMinutes (uuid_of CHR ''a'') (Finite (121 / 2))
          (empty_db\<lparr>accounts := [\<lparr>ac_id = uuid_of CHR ''a'',
             ac_teacher_cancel_window_minutes = 1440\<rparr>]\<rparr>) = Inr ((), d')
      \<and> getTeacherCancelWindowMinutes d' (uuid_of CHR ''a'') = 61"
proof -
  let ?d = "empty_db\<lparr>accounts := [\<lparr>ac_id = uuid_of CHR ''a'',
             ac_teacher_cancel_window_minutes = 1440\<rparr>]\<rparr>"
  have "account_by_id ?d (uuid_of CHR ''a'') =
      Some \<lparr>ac_id = uuid_of CHR ''a'', ac_teacher_cancel_window_minutes = 1440\<rparr>"
    by (simp add: account_by_id_def find_by_def)
  moreover have "js_round_clamp 2880 (Finite (121 / 2)) = Some 61"
    by (simp add: js_round_clamp_def)
  ultimately show ?thesis
    using teacher_window_set_get [of ?d "uuid_of CHR ''a''" _ "Finite (121 / 2)"] by auto
qed

text \<open>
  \<open>canLearnerCancel\<close> allows a cancel exactly for a booked slot with a readable start
  that is at least the configured number of hours away; the window is always between 0 and
  720 hours, and every refusal for lateness reports a number of whole minutes that is not
  negative and below the window.
\<close>

theorem canLearnerCancel_spec:
  "(canLearnerCancel env st startAt now = CancelAllowed \<longleftrightarrow>
      st = Booked \<and> (\<exists>s. startAt = Some s
        \<and> s - now \<ge> getLearnerCancelWindowHours env * 3600000))
   \<and> (case canLearnerCancel env st startAt now of
        CancelRefused DecTooLateToCancel m \<Rightarrow>
          (\<exists>k. m = Some k \<and> 0 \<le> k
             \<and> (k = 0 \<or> k < getLearnerCancelWindowHours env * 60))
      | CancelRefused DecAlreadyTerminal m \<Rightarrow> m = None \<and> (st \<noteq> Booked \<or> startAt = None)
      | CancelAllowed \<Rightarrow> True)"
  using window_hours_range [of env]
  by (auto simp: canLearnerCancel_def getLearnerCancelThresholdMs_def ms_per_minute_def Let_def max_def
      split: option.splits)

theorem canLearnerCancel_spec_witness:
  "canLearnerCancel None Booked (Some 86400000) 0 = CancelAllowed"
proof -
  have "getLearnerCancelWindowHours None = 24"
    by (simp add: getLearnerCancelWindowHours_def DEFAULT_LEARNER_CANCEL_WINDOW_HOURS_def)
  then show ?thesis using canLearnerCancel_spec [of None Booked "Some 86400000" 0] by simp
qed

end
