(* ===== verification/Validation.thy ===== *)
theory Validation
  imports Policy
begin

text \<open>
  \<open>src/lib/scheduling/slots/validation.ts\<close>: the pure validators of a slot's start, input
  and join link, and the bulk preview that walks the calendar in a time zone.

  A date or time of day that arrives as text is represented by what the text denotes; the
  cases in which it denotes nothing are constructors of their own, because the code answers
  them in different places. The offset of a time zone at an instant and the parser of the
  \<open>URL\<close> constructor are arguments.
\<close>

section \<open>The start of a slot\<close>

definition MSK_BUSINESS_HOUR_MIN :: int where "MSK_BUSINESS_HOUR_MIN = 6"
definition MSK_BUSINESS_HOUR_MAX :: int where "MSK_BUSINESS_HOUR_MAX = 22"

datatype slot_start_error = StartOutOfBand | StartNotAligned

definition validateSlotStartMsk :: "millis \<Rightarrow> slot_start_error option" where
  "validateSlotStartMsk startMs =
     (let t = startMs * us_per_ms;
          hour = msk_hour t;
          minute = msk_minute t;
          second = (msk_time_of_day t mod us_per_minute) div us_per_second
      in if hour < MSK_BUSINESS_HOUR_MIN \<or> hour > MSK_BUSINESS_HOUR_MAX
            \<or> (hour = MSK_BUSINESS_HOUR_MAX \<and> minute > 0)
         then Some StartOutOfBand
         else if second \<noteq> 0 then Some StartNotAligned
         else None)"

text \<open>
  \<open>computeMskHour\<close>, of which the direct-assign and reschedule writers have a copy each,
  gives hours and minutes as one number; here as minutes since midnight. The writers
  compare it with 6 and 22 hours.
\<close>

definition computeMskMinutes :: "millis \<Rightarrow> int" where
  "computeMskMinutes ms =
     (let m = (ms + 3 * 60 * 60 * 1000) mod 86400000
      in (m div 3600000) * 60 + (m mod 3600000) div 60000)"

definition mskHourOutOfBand :: "millis \<Rightarrow> bool" where
  "mskHourOutOfBand ms \<longleftrightarrow>
     computeMskMinutes ms < MSK_BUSINESS_HOUR_MIN * 60
     \<or> computeMskMinutes ms \<ge> MSK_BUSINESS_HOUR_MAX * 60"

section \<open>The input of a slot\<close>

definition MAX_NOTES_LEN :: nat where "MAX_NOTES_LEN = 500"
definition MAX_REASON_LEN :: nat where "MAX_REASON_LEN = 500"
definition MAX_AGENDA_LEN :: nat where "MAX_AGENDA_LEN = 1000"

datatype slot_validation_error =
  StartAtInvalid | StartAtInPast | DurationOutOfBand | DurationNotInteger
  | TeacherAccountIdInvalid | NotesTooLong

text \<open>
  Each field is optional: the outer option is \<open>undefined\<close>. A start that is given but
  denotes no instant is \<open>Some None\<close>; notes that are null are \<open>Some None\<close>.
\<close>

record slot_input =
  si_teacherAccountId :: "string option"
  si_startAt :: "millis option option"
  si_durationMinutes :: "js_num option"
  si_notes :: "js_text option option"

definition validateSlotInput :: "clock \<Rightarrow> slot_input \<Rightarrow> slot_validation_error option" where
  "validateSlotInput c input =
     (if (case si_teacherAccountId input of None \<Rightarrow> False | Some t \<Rightarrow> \<not> uuid_pattern t)
      then Some TeacherAccountIdInvalid
      else if si_startAt input = Some None then Some StartAtInvalid
      else if (case si_startAt input of Some (Some ts) \<Rightarrow> ts \<le> js_now c | _ \<Rightarrow> False)
      then Some StartAtInPast
      else if si_durationMinutes input = Some JsNonInt then Some DurationNotInteger
      else if (case si_durationMinutes input of Some (JsInt n) \<Rightarrow> n < 15 \<or> n > 180 | _ \<Rightarrow> False)
      then Some DurationOutOfBand
      else if (case si_notes input of Some (Some t) \<Rightarrow> length t > MAX_NOTES_LEN | _ \<Rightarrow> False)
      then Some NotesTooLong
      else None)"

section \<open>The bulk preview\<close>

datatype date_text = DateBadShape | DateUnparsable | DateDay int

datatype bulk_error =
  WeekdaysEmpty | WeekdaysInvalid | StartTimeInvalid | StartDateInvalid | WeeksOutOfBand
  | BulkDurationNotInteger | BulkDurationOutOfBand | SkipDatesInvalid

text \<open>
  \<open>bi_startTime\<close> is (hour, minute), \<open>None\<close> when it does not match \<open>TIME_PATTERN\<close>. A date
  is \<open>DateBadShape\<close> when it does not match \<open>DATE_PATTERN\<close>, and \<open>DateUnparsable\<close> when it
  matches and names no day (such a start is refused, such a skipped date skips nothing).
  Days count from 1970-01-01, a Thursday.
\<close>

record bulk_input =
  bi_weekdays :: "js_num list"
  bi_startTime :: "(int \<times> int) option"
  bi_startDate :: date_text
  bi_weeks :: js_num
  bi_durationMinutes :: js_num
  bi_skipDates :: "date_text list"

record bulk_slot =
  bs_startAt :: millis
  bs_date :: int
  bs_time :: "int \<times> int"

definition MAX_BULK_WEEKS :: int where "MAX_BULK_WEEKS = 26"
definition ms_per_day :: int where "ms_per_day = 86400000"

text \<open>\<open>off\<close> is the offset of the chosen zone, in minutes east of UTC, at an instant.\<close>

definition isoDateInTz :: "(millis \<Rightarrow> int) \<Rightarrow> millis \<Rightarrow> int" where
  "isoDateInTz off utcMs = (utcMs + off utcMs * 60000) div ms_per_day"

definition weekdayInTz :: "(millis \<Rightarrow> int) \<Rightarrow> millis \<Rightarrow> int" where
  "weekdayInTz off utcMs = (isoDateInTz off utcMs + 4) mod 7"

definition wallTimeToUtc :: "(millis \<Rightarrow> int) \<Rightarrow> int \<Rightarrow> int \<times> int \<Rightarrow> millis" where
  "wallTimeToUtc off day hm =
     (let wall = day * ms_per_day + fst hm * 3600000 + snd hm * 60000;
          u1 = wall - off wall * 60000
      in wall - off u1 * 60000)"

definition bulk_day ::
  "(millis \<Rightarrow> int) \<Rightarrow> clock \<Rightarrow> int list \<Rightarrow> date_text list \<Rightarrow> int \<times> int \<Rightarrow> millis \<Rightarrow> bulk_slot list" where
  "bulk_day off c weekdays skip hm dayMs =
     (let dateInTz = isoDateInTz off dayMs in
      if weekdayInTz off dayMs \<notin> set weekdays then []
      else if DateDay dateInTz \<in> set skip then []
      else
        let utc = wallTimeToUtc off dateInTz hm in
        if utc \<le> js_now c then []
        else [\<lparr>bs_startAt = utc, bs_date = dateInTz, bs_time = hm\<rparr>])"

definition bulk_weekday_bad :: "js_num \<Rightarrow> bool" where
  "bulk_weekday_bad w = (case w of JsNonInt \<Rightarrow> True | JsInt n \<Rightarrow> n < 0 \<or> n > 6)"

definition js_int :: "js_num \<Rightarrow> int" where
  "js_int n = (case n of JsInt k \<Rightarrow> k | JsNonInt \<Rightarrow> 0)"

definition bulkGeneratePreview ::
  "(millis \<Rightarrow> int) \<Rightarrow> clock \<Rightarrow> bulk_input \<Rightarrow> bulk_error + bulk_slot list" where
  "bulkGeneratePreview off c input =
     (if bi_weekdays input = [] then Inl WeekdaysEmpty
      else if list_ex bulk_weekday_bad (bi_weekdays input) then Inl WeekdaysInvalid
      else case bi_startTime input of None \<Rightarrow> Inl StartTimeInvalid
      | Some hm \<Rightarrow>
        if bi_startDate input = DateBadShape then Inl StartDateInvalid
        else if bi_weeks input = JsNonInt \<or> js_int (bi_weeks input) < 1
                \<or> js_int (bi_weeks input) > MAX_BULK_WEEKS then Inl WeeksOutOfBand
        else if bi_durationMinutes input = JsNonInt then Inl BulkDurationNotInteger
        else if js_int (bi_durationMinutes input) < 15 \<or> js_int (bi_durationMinutes input) > 180
        then Inl BulkDurationOutOfBand
        else if list_ex (\<lambda>s. s = DateBadShape) (bi_skipDates input) then Inl SkipDatesInvalid
        else case bi_startDate input of
            DateDay day \<Rightarrow>
              Inr (concat (map (\<lambda>i. bulk_day off c (map js_int (bi_weekdays input))
                                      (bi_skipDates input) hm ((day + int i) * ms_per_day))
                     [0..<nat (js_int (bi_weeks input) * 7)]))
          | _ \<Rightarrow> Inl StartDateInvalid)"

section \<open>The join link\<close>

definition MAX_ZOOM_URL_LEN :: nat where "MAX_ZOOM_URL_LEN = 512"

datatype zoom_url_error = ZoomTooLong | ZoomInvalidScheme | ZoomInvalidUrl

text \<open>\<open>url\<close> is the \<open>URL\<close> constructor: \<open>None\<close> when it throws, else protocol and hostname.\<close>

definition validateZoomUrl ::
  "(js_text \<Rightarrow> (string \<times> js_text) option) \<Rightarrow> js_text \<Rightarrow> zoom_url_error option" where
  "validateZoomUrl url raw =
     (if length raw > MAX_ZOOM_URL_LEN then Some ZoomTooLong
      else if take 8 raw \<noteq> js ''https://'' then Some ZoomInvalidScheme
      else case url raw of
        None \<Rightarrow> Some ZoomInvalidUrl
      | Some (protocol, hostname) \<Rightarrow>
          if protocol \<noteq> ''https:'' then Some ZoomInvalidScheme
          else if hostname = [] then Some ZoomInvalidUrl
          else None)"

section \<open>Facts\<close>

lemmas msk_defs = msk_hour_def msk_minute_def msk_time_of_day_def
  us_per_ms_def us_per_second_def us_per_minute_def us_per_hour_def us_per_day_def

text \<open>The database reads the same hour and minute as the writers' own clock.\<close>

lemma computeMskMinutes_msk:
  "computeMskMinutes ms = msk_hour (ms * us_per_ms) * 60 + msk_minute (ms * us_per_ms)"
proof -
  have e: "(ms * 1000 + 10800000000) mod 86400000000 = ((ms + 10800000) mod 86400000) * 1000"
    by (simp add: mult_mod_right algebra_simps flip: mult_mod_left)
  have "x * 1000 mod 3600000000 div 60000000 = x mod 3600000 div 60000"
    and "x * 1000 div 3600000000 = x div 3600000" for x :: int
    using mod_mult_mult2 [of x 1000 3600000] div_mult_mult2 [of 1000 "x mod 3600000" 60000]
      div_mult_mult2 [of 1000 x 3600000] by simp_all
  then show ?thesis
    unfolding computeMskMinutes_def Let_def msk_defs using e by simp
qed

lemma msk_minute_range: "0 \<le> msk_minute t \<and> msk_minute t < 60"
proof -
  let ?y = "msk_time_of_day t mod us_per_hour"
  have "0 \<le> ?y" and "?y \<le> 3599999999" by (simp_all add: msk_defs)
  then have "?y div us_per_minute \<le> 3599999999 div us_per_minute"
    by (intro zdiv_mono1) (simp_all add: time_defs)
  then show ?thesis
    using \<open>0 \<le> ?y\<close> by (simp add: msk_minute_def pos_imp_zdiv_nonneg_iff us_per_minute_def us_per_second_def)
qed

lemma validateSlotInput_None_iff:
  "validateSlotInput c input = None \<longleftrightarrow>
     (\<forall>t. si_teacherAccountId input = Some t \<longrightarrow> uuid_pattern t)
     \<and> (\<forall>x. si_startAt input = Some x \<longrightarrow> (\<exists>ts. x = Some ts \<and> ts > js_now c))
     \<and> (\<forall>n. si_durationMinutes input = Some n \<longrightarrow> (\<exists>k. n = JsInt k \<and> 15 \<le> k \<and> k \<le> 180))
     \<and> (\<forall>t. si_notes input = Some (Some t) \<longrightarrow> length t \<le> 500)"
  by (auto simp: validateSlotInput_def MAX_NOTES_LEN_def split: option.splits js_num.splits)

lemma sql_char_length_le: "sql_char_length t \<le> length t"
  by (simp add: sql_char_length_def)

text \<open>The days and instants of the preview in a zone whose offset is always \<open>k\<close> minutes.\<close>

definition preview_shift :: "int \<Rightarrow> int" where
  "preview_shift k = (if k < 0 then -1 else 0)"

definition wall_instant :: "int \<Rightarrow> int \<Rightarrow> int \<times> int \<Rightarrow> millis" where
  "wall_instant k day hm = day * ms_per_day + (fst hm * 60 + snd hm - k) * 60000"

lemma isoDateInTz_const:
  assumes "-1440 < k" and "k < 1440"
  shows "isoDateInTz (\<lambda>_. k) (day * ms_per_day) = day + preview_shift k"
proof -
  have "k * 60000 div 86400000 = preview_shift k"
  proof (cases "k < 0")
    case True
    then have "k * 60000 div 86400000 = -1" using assms
      by (intro int_div_pos_eq [of _ _ _ "k * 60000 + 86400000"]) simp_all
    with True show ?thesis by (simp add: preview_shift_def)
  next
    case False
    with assms show ?thesis by (simp add: preview_shift_def div_pos_pos_trivial)
  qed
  then show ?thesis unfolding isoDateInTz_def ms_per_day_def by simp
qed

lemma wallTimeToUtc_const: "wallTimeToUtc (\<lambda>_. k) day hm = wall_instant k day hm"
  by (simp add: wallTimeToUtc_def wall_instant_def Let_def algebra_simps)

lemma isoDateInTz_wall_instant:
  assumes "0 \<le> fst hm" "fst hm \<le> 23" "0 \<le> snd hm" "snd hm \<le> 59"
  shows "isoDateInTz (\<lambda>_. k) (wall_instant k day hm) = day"
proof -
  have "wall_instant k day hm + k * 60000 = (fst hm * 60 + snd hm) * 60000 + day * ms_per_day"
    by (simp add: wall_instant_def algebra_simps)
  moreover have "(fst hm * 60 + snd hm) * 60000 div ms_per_day = 0"
    using assms by (intro div_pos_pos_trivial) (simp_all add: ms_per_day_def)
  ultimately show ?thesis by (simp add: isoDateInTz_def ms_per_day_def)
qed

definition preview_wanted :: "int \<Rightarrow> clock \<Rightarrow> bulk_input \<Rightarrow> int \<times> int \<Rightarrow> int \<Rightarrow> bool" where
  "preview_wanted k c input hm d \<longleftrightarrow>
     JsInt ((d + 4) mod 7) \<in> set (bi_weekdays input)
     \<and> DateDay d \<notin> set (bi_skipDates input)
     \<and> js_now c < wall_instant k d hm"

lemma js_int_weekdays:
  "\<not> list_ex bulk_weekday_bad ws \<Longrightarrow> n \<in> js_int ` set ws \<longleftrightarrow> JsInt n \<in> set ws"
  by (induction ws) (auto simp: js_int_def bulk_weekday_bad_def split: js_num.splits)

lemma concat_map_filter: "concat (map (\<lambda>x. if P (g x) then [h (g x)] else []) xs) = map h (filter P (map g xs))"
  by (induction xs) auto

text \<open>
  On a start with whole seconds, the validator accepts exactly the starts that the
  database's business-hours and zero-seconds constraints accept.
\<close>

theorem validateSlotStartMsk_matches_checks:
  assumes "ls_start_at r = ms * us_per_ms" and "ms mod 1000 = 0"
  shows "validateSlotStartMsk ms = None \<longleftrightarrow> check_business_hours r \<and> check_seconds_zero r"
proof -
  let ?t = "ms * us_per_ms"
  obtain k where k: "ms = 1000 * k" using assms(2) by (auto elim: dvdE)
  have "msk_time_of_day ?t mod us_per_minute = (k * 1000000 + 10800000000) mod 60000000"
    unfolding msk_defs k by (simp add: mod_mod_cancel algebra_simps)
  also have "\<dots> = ((k + 10800) mod 60) * 1000000"
    using mod_mult_mult2 [of "k + 10800" 1000000 60] by (simp add: algebra_simps)
  finally have s: "msk_time_of_day ?t mod us_per_minute = ((k + 10800) mod 60) * 1000000" .
  have "(msk_time_of_day ?t mod us_per_minute) div us_per_second = 0
      \<longleftrightarrow> msk_time_of_day ?t mod us_per_minute = 0"
    unfolding s us_per_second_def by simp
  then show ?thesis
    using assms(1) msk_minute_range [of ?t]
    by (auto simp: validateSlotStartMsk_def Let_def check_business_hours_def check_seconds_zero_def
        MSK_BUSINESS_HOUR_MIN_def MSK_BUSINESS_HOUR_MAX_def)
qed

text \<open>A booked lesson of an hour at 10:00 MSK on 2026-01-05, for concrete inputs.\<close>

definition sample_slot :: slot_row where
  "sample_slot =
     \<lparr>ls_id = uuid_of CHR ''1'', ls_teacher_account_id = uuid_of CHR ''a'',
      ls_start_at = 1767596400000000, ls_duration_minutes = 60, ls_status = Booked,
      ls_learner_account_id = Some (uuid_of CHR ''b''), ls_booked_at = Some 1767500000000000,
      ls_cancelled_at = None, ls_cancelled_by_account_id = None, ls_cancellation_reason = None,
      ls_marked_at = None, ls_tariff_id = None, ls_snapshot_amount_kopecks = Some 150000,
      ls_notes = None, ls_agenda = None, ls_zoom_url = None, ls_external_conflict_at = None,
      ls_source = Some SrcOpenSlot, ls_personal_event_title = None, ls_personal_event_body = None,
      ls_legacy_grandfathered = False, ls_events = [], ls_created_at = 1767400000000000,
      ls_updated_at = 1767500000000000\<rparr>"

lemma sample_slot_check: "slot_check sample_slot"
  by (simp add: sample_slot_def slot_check_defs msk_defs)

theorem validateSlotStartMsk_matches_checks_witness:
  "validateSlotStartMsk 1767596400000 = None \<and> check_business_hours sample_slot
   \<and> check_seconds_zero sample_slot"
proof -
  have "validateSlotStartMsk 1767596400000 = None"
    by (simp add: validateSlotStartMsk_def msk_defs MSK_BUSINESS_HOUR_MIN_def
        MSK_BUSINESS_HOUR_MAX_def)
  then show ?thesis
    using validateSlotStartMsk_matches_checks [of sample_slot 1767596400000]
    by (simp add: sample_slot_def us_per_ms_def)
qed

lemma seconds_zero_within_day:
  assumes "check_seconds_zero r"
  shows "check_within_msk_day r"
proof -
  let ?m = "us_per_minute" and ?day = "us_per_day"
  let ?x = "(msk_time_of_day (ls_start_at r) + ls_duration_minutes r * ?m) mod ?day"
  have day: "?day = 1440 * ?m" by (simp add: us_per_day_def us_per_hour_def)
  have m: "0 < ?m" "us_per_second \<le> ?m" by (simp_all add: us_per_minute_def us_per_second_def)
  have "?m dvd msk_time_of_day (ls_start_at r)"
    using assms by (simp add: check_seconds_zero_def mod_eq_0_iff_dvd)
  then have "?m dvd msk_time_of_day (ls_start_at r) + ls_duration_minutes r * ?m"
    by (rule dvd_add) (rule dvd_triv_right)
  moreover have "?m dvd ?day" unfolding day by (rule dvd_triv_right)
  ultimately have "?m dvd ?x" by (simp only: dvd_mod_iff)
  then obtain q where q: "?x = ?m * q" by (elim dvdE)
  have "?x < ?day" using m(1) day by simp
  then have "?m * q < ?m * 1440" using q day by (simp add: mult.commute)
  then have "q \<le> 1439" using m(1) by simp
  then have "?m * q \<le> ?m * 1439" using m(1) by (simp add: mult_left_mono)
  then have "?x \<le> ?day - ?m" using q day by (simp add: algebra_simps)
  then show ?thesis using m(2) by (simp add: check_within_msk_day_def)
qed

text \<open>
  The constraint \<open>lesson_slots_within_msk_day\<close>, meant to forbid a lesson that runs
  past midnight, holds of every row that starts on a whole minute, however long it lasts: SQL's \<open>time + interval\<close>
  wraps at midnight, so the sum never exceeds 23:59:00.
\<close>

theorem within_msk_day_vacuous:
  assumes "check_seconds_zero r"
  shows "check_within_msk_day (r\<lparr>ls_duration_minutes := n\<rparr>)"
  by (rule seconds_zero_within_day) (use assms in \<open>simp add: check_seconds_zero_def\<close>)

text \<open>A lesson from 22:00 for three hours ends after midnight.\<close>

theorem within_msk_day_vacuous_witness:
  "check_within_msk_day (sample_slot\<lparr>ls_start_at := 1767639600000000, ls_duration_minutes := 180\<rparr>)
   \<and> msk_hour 1767639600000000 = 22"
  using within_msk_day_vacuous [of "sample_slot\<lparr>ls_start_at := 1767639600000000\<rparr>" 180]
  by (simp add: check_seconds_zero_def msk_defs)

text \<open>
  The writers that use \<open>computeMskHour\<close> (direct assign, reschedule) and
  \<open>validateSlotStartMsk\<close> agree on the business band except at 22:00 sharp, which the
  validator and the database accept and the writers refuse.
\<close>

theorem business_band_disagrees_only_at_22:
  "validateSlotStartMsk ms = Some StartOutOfBand \<longleftrightarrow>
     mskHourOutOfBand ms \<and> computeMskMinutes ms \<noteq> 22 * 60"
  using msk_minute_range [of "ms * us_per_ms"]
  unfolding validateSlotStartMsk_def mskHourOutOfBand_def computeMskMinutes_msk
    MSK_BUSINESS_HOUR_MIN_def MSK_BUSINESS_HOUR_MAX_def Let_def
  by auto

text \<open>
  A join link that \<open>validateZoomUrl\<close> accepts also satisfies the database's constraint
  on \<open>zoom_url\<close>, whatever the \<open>URL\<close> constructor does.
\<close>

theorem validateZoomUrl_sound:
  assumes "validateZoomUrl url raw = None"
  shows "sql_char_length raw \<le> 512 \<and> take 8 raw = js ''https://''
     \<and> (\<exists>h. url raw = Some (''https:'', h) \<and> h \<noteq> [])"
  using assms sql_char_length_le [of raw]
  by (auto simp: validateZoomUrl_def MAX_ZOOM_URL_LEN_def split: if_splits option.splits)

theorem validateZoomUrl_sound_witness:
  "sql_char_length (js ''https://zoom.us/j/1'') \<le> 512"
  using validateZoomUrl_sound [of "\<lambda>_. Some (''https:'', js ''zoom.us'')" "js ''https://zoom.us/j/1''"]
  by (simp add: validateZoomUrl_def MAX_ZOOM_URL_LEN_def js_def)

text \<open>
  In a zone with a constant offset, an accepted bulk input previews exactly the wanted
  days of its window, in order and each once: the \<open>7 * weeks\<close> consecutive days whose weekday
  was chosen, that are not skipped and whose start is still ahead; the start of each is the
  wall-clock time in the zone, and it falls on the day it is labelled with. East of UTC and
  at UTC the window begins on the start date, west of UTC one day before it.
\<close>

theorem bulkGeneratePreview_spec:
  assumes "-1440 < k" and "k < 1440" and "bi_startDate input = DateDay day"
    and "bi_weeks input = JsInt weeks" and "bi_startTime input = Some (h, m)"
    and "0 \<le> h" "h \<le> 23" "0 \<le> m" "m \<le> 59"
    and ok: "bulkGeneratePreview (\<lambda>_. k) c input = Inr slots"
  shows "map bs_date slots =
      filter (preview_wanted k c input (h, m))
        (map (\<lambda>i. day + preview_shift k + int i) [0..<nat (weeks * 7)])
    \<and> (\<forall>s \<in> set slots. bs_startAt s = wall_instant k (bs_date s) (h, m)
         \<and> isoDateInTz (\<lambda>_. k) (bs_startAt s) = bs_date s \<and> js_now c < bs_startAt s)
    \<and> 1 \<le> weeks \<and> weeks \<le> 26"
proof -
  let ?g = "\<lambda>i. day + preview_shift k + int i"
  let ?mk = "\<lambda>d. \<lparr>bs_startAt = wall_instant k d (h, m), bs_date = d, bs_time = (h, m)\<rparr>"
  from ok assms(3-5) have wd: "\<not> list_ex bulk_weekday_bad (bi_weekdays input)"
    and wk: "1 \<le> weeks" "weeks \<le> 26"
    and slots: "slots = concat (map (\<lambda>i. bulk_day (\<lambda>_. k) c (map js_int (bi_weekdays input))
        (bi_skipDates input) (h, m) ((day + int i) * ms_per_day)) [0..<nat (weeks * 7)])"
    by (auto simp: bulkGeneratePreview_def MAX_BULK_WEEKS_def js_int_def split: if_splits)
  have day: "bulk_day (\<lambda>_. k) c (map js_int (bi_weekdays input)) (bi_skipDates input) (h, m)
        ((day + int i) * ms_per_day)
      = (if preview_wanted k c input (h, m) (?g i) then [?mk (?g i)] else [])" for i
    using isoDateInTz_const [OF assms(1,2), of "day + int i"] js_int_weekdays [OF wd]
    by (auto simp: bulk_day_def weekdayInTz_def wallTimeToUtc_const preview_wanted_def Let_def
        algebra_simps)
  have eq: "slots = map ?mk (filter (preview_wanted k c input (h, m)) (map ?g [0..<nat (weeks * 7)]))"
    unfolding slots day by (rule concat_map_filter)
  have "isoDateInTz (\<lambda>_. k) (wall_instant k d (h, m)) = d" for d
    by (rule isoDateInTz_wall_instant) (use assms(6-9) in auto)
  then show ?thesis using wk unfolding eq by (auto simp: preview_wanted_def comp_def)
qed

definition sample_bulk :: bulk_input where
  "sample_bulk =
     \<lparr>bi_weekdays = [JsInt 1], bi_startTime = Some (10, 0), bi_startDate = DateDay 20459,
      bi_weeks = JsInt 2, bi_durationMinutes = JsInt 60, bi_skipDates = []\<rparr>"

text \<open>
  Mondays from Tuesday 2026-01-06 (day 20459) on: five hours west of UTC the first lesson is on
  Monday 2026-01-05, a day before the start date.
\<close>

theorem bulkGeneratePreview_spec_witness:
  "\<exists>slots. bulkGeneratePreview (\<lambda>_. -300) \<lparr>pg_now = 0, js_now = 0\<rparr> sample_bulk = Inr slots
     \<and> map bs_date slots = [20458, 20465]"
proof -
  let ?c = "\<lparr>pg_now = 0, js_now = 0\<rparr>"
  have "\<exists>slots. bulkGeneratePreview (\<lambda>_. -300) ?c sample_bulk = Inr slots"
    by (simp add: bulkGeneratePreview_def sample_bulk_def bulk_weekday_bad_def js_int_def
        MAX_BULK_WEEKS_def)
  then obtain slots where s: "bulkGeneratePreview (\<lambda>_. -300) ?c sample_bulk = Inr slots" ..
  have days: "[0..<nat (2 * 7)] = [0, 1, 2, 3, 4, 5, 6, 7, 8, 9, 10, 11, 12, 13]"
    by (simp add: upt_conv_Cons)
  have "map bs_date slots = filter (preview_wanted (-300) ?c sample_bulk (10, 0))
        (map (\<lambda>i. 20459 + preview_shift (-300) + int i) [0..<nat (2 * 7)])"
    by (rule conjunct1 [OF bulkGeneratePreview_spec [OF _ _ _ _ _ _ _ _ _ s]])
      (simp_all add: sample_bulk_def)
  also have "\<dots> = [20458, 20465]"
    unfolding days
    by (simp add: preview_shift_def preview_wanted_def sample_bulk_def wall_instant_def ms_per_day_def)
  finally have "map bs_date slots = [20458, 20465]" .
  with s show ?thesis by (intro exI [of _ slots] conjI)
qed

end
