(* ===== verification/Consumption.thy ===== *)
theory Consumption
  imports Validation "HOL-Library.Char_ord" "HOL-Library.List_Lexorder"
begin

text \<open>
  The package ledger: \<open>src/lib/billing/consumption.ts\<close> (take a unit for a lesson, give it
  back, void a purchase), \<open>src/lib/billing/packages/purchases.ts\<close> and
  \<open>src/lib/billing/packages/eligibility.ts\<close>. The locale \<open>unit_ledger\<close> states what the
  booking and cancel flows rely on; it is interpreted on the operations below. Uuids are
  compared as the database compares them, which on their lower-case text is the order of
  the characters.
\<close>

section \<open>Taking and giving back a unit\<close>

datatype consume_result = Consumed uuid | NoEligiblePackage | AlreadyConsumed

definition purchase_by_id :: "db \<Rightarrow> uuid \<Rightarrow> purchase_row option" where
  "purchase_by_id d i = find_by pp_id i (package_purchases d)"

definition consumption_of_slot :: "db \<Rightarrow> uuid \<Rightarrow> consumption_row option" where
  "consumption_of_slot d i = find_by pc_slot_id i (package_consumptions d)"

definition count_remaining :: "db \<Rightarrow> purchase_row \<Rightarrow> int" where
  "count_remaining d p = pp_count_initial p - int (active_units d (pp_id p))"

definition expires_before :: "purchase_row \<Rightarrow> purchase_row \<Rightarrow> bool" where
  "expires_before p q \<longleftrightarrow>
     pp_expires_at p < pp_expires_at q \<or> (pp_expires_at p = pp_expires_at q \<and> pp_id p < pp_id q)"

definition package_eligible :: "clock \<Rightarrow> uuid \<Rightarrow> int \<Rightarrow> uuid \<Rightarrow> db \<Rightarrow> purchase_row \<Rightarrow> bool" where
  "package_eligible c accountId durationMinutes expectedTeacherId d pp \<longleftrightarrow>
     pp_account_id pp = accountId
     \<and> pp_duration_minutes pp = durationMinutes
     \<and> (pp_teacher_id pp = Some expectedTeacherId \<or> pp_teacher_id pp = None)
     \<and> pp_expires_at pp > pg_now c
     \<and> pp_voided_at pp = None
     \<and> count_remaining d pp > 0"

definition consumePackageUnit ::
  "clock \<Rightarrow> uuid \<Rightarrow> uuid \<Rightarrow> int \<Rightarrow> billing_actor \<Rightarrow> uuid \<Rightarrow> db \<Rightarrow> consume_result \<times> db" where
  "consumePackageUnit c accountId slotId durationMinutes actor expectedTeacherId d =
     (case min_by expires_before
             (filter (package_eligible c accountId durationMinutes expectedTeacherId d)
                (package_purchases d)) of
        None \<Rightarrow> (NoEligiblePackage, d)
      | Some pp \<Rightarrow>
          if consumption_of_slot d slotId \<noteq> None then (AlreadyConsumed, d)
          else
            (Consumed (pp_id pp),
             d\<lparr>package_consumptions := package_consumptions d @
                 [\<lparr>pc_slot_id = slotId, pc_package_purchase_id = pp_id pp,
                   pc_consumed_at = pg_now c, pc_consumed_by_actor = actor,
                   pc_restored_at = None, pc_restored_by_actor = None,
                   pc_restored_reason = None\<rparr>]\<rparr>))"

definition stamp_restored ::
  "clock \<Rightarrow> billing_actor \<Rightarrow> string option \<Rightarrow> consumption_row \<Rightarrow> consumption_row" where
  "stamp_restored c actor reason r =
     r\<lparr>pc_restored_at := Some (pg_now c), pc_restored_by_actor := Some actor,
        pc_restored_reason := reason\<rparr>"

definition restore_where ::
  "clock \<Rightarrow> billing_actor \<Rightarrow> string option \<Rightarrow> (consumption_row \<Rightarrow> bool) \<Rightarrow> db \<Rightarrow> db" where
  "restore_where c actor reason P d =
     d\<lparr>package_consumptions :=
         map (\<lambda>r. if P r \<and> unit_active r then stamp_restored c actor reason r else r)
           (package_consumptions d)\<rparr>"

definition restorePackageConsumption ::
  "clock \<Rightarrow> uuid \<Rightarrow> billing_actor \<Rightarrow> string option \<Rightarrow> db \<Rightarrow> uuid option \<times> db" where
  "restorePackageConsumption c slotId actor reason d =
     ((case filter (\<lambda>r. pc_slot_id r = slotId \<and> unit_active r) (package_consumptions d) of
         [] \<Rightarrow> None
       | r # _ \<Rightarrow> Some (pc_package_purchase_id r)),
      restore_where c actor reason (\<lambda>r. pc_slot_id r = slotId) d)"

text \<open>
  \<open>just_voided\<close> compares the stamp with \<open>now()\<close>, which is the start of the transaction.
\<close>

definition restoreAllConsumptionsForPurchase ::
  "clock \<Rightarrow> uuid \<Rightarrow> billing_actor \<Rightarrow> string option \<Rightarrow> db \<Rightarrow> (nat \<times> bool) \<times> db" where
  "restoreAllConsumptionsForPurchase c packagePurchaseId actor reason d =
     (let d1 = d\<lparr>package_purchases :=
                  map (\<lambda>p. if pp_id p = packagePurchaseId
                           then p\<lparr>pp_voided_at := Some (coalesce (pp_voided_at p) (pg_now c))\<rparr>
                           else p) (package_purchases d)\<rparr>;
          alreadyVoided =
            (case purchase_by_id d1 packagePurchaseId of
               None \<Rightarrow> False | Some p \<Rightarrow> pp_voided_at p \<noteq> Some (pg_now c));
          restoredCount = active_units d1 packagePurchaseId
      in ((restoredCount, alreadyVoided),
          restore_where c actor reason (\<lambda>r. pc_package_purchase_id r = packagePurchaseId) d1))"

record package_remaining =
  pr_countInitial :: int
  pr_countRemaining :: int
  pr_countConsumed :: int

definition derivePackageRemaining :: "uuid \<Rightarrow> db \<Rightarrow> package_remaining option" where
  "derivePackageRemaining packagePurchaseId d =
     (case purchase_by_id d packagePurchaseId of
        None \<Rightarrow> None
      | Some pp \<Rightarrow>
          let countConsumed = int (active_units d (pp_id pp)) in
          Some \<lparr>pr_countInitial = pp_count_initial pp,
                pr_countRemaining = max 0 (pp_count_initial pp - countConsumed),
                pr_countConsumed = countConsumed\<rparr>)"

text \<open>The projected row: consumed and restored instants at the precision of the projection.\<close>

record slot_consumption =
  sq_slotId :: uuid
  sq_packagePurchaseId :: uuid
  sq_consumedAt :: millis
  sq_consumedByActor :: billing_actor
  sq_restoredAt :: "millis option"
  sq_restoredByActor :: "billing_actor option"
  sq_restoredReason :: "string option"

definition getConsumptionForSlot :: "uuid \<Rightarrow> db \<Rightarrow> slot_consumption option" where
  "getConsumptionForSlot slotId d =
     map_option
       (\<lambda>row. \<lparr>sq_slotId = pc_slot_id row, sq_packagePurchaseId = pc_package_purchase_id row,
               sq_consumedAt = js_date_via_string (pc_consumed_at row),
               sq_consumedByActor = pc_consumed_by_actor row,
               sq_restoredAt = map_option js_date_via_string (pc_restored_at row),
               sq_restoredByActor = pc_restored_by_actor row,
               sq_restoredReason =
                 (case pc_restored_reason row of Some [] \<Rightarrow> None | x \<Rightarrow> x)\<rparr>)
       (consumption_of_slot d slotId)"

section \<open>Purchases\<close>

text \<open>The CHECK constraints of \<open>package_purchases\<close>.\<close>

definition purchase_check :: "purchase_row \<Rightarrow> bool" where
  "purchase_check p \<longleftrightarrow>
     100 \<le> pp_amount_kopecks p \<and> pp_amount_kopecks p \<le> 100000000
     \<and> 15 \<le> pp_duration_minutes p \<and> pp_duration_minutes p \<le> 180
     \<and> 0 < pp_count_initial p \<and> pp_count_initial p \<le> 100"

record purchase_input =
  pi_accountId :: uuid
  pi_packageId :: uuid
  pi_paymentOrderId :: js_text
  pi_amountKopecks :: int
  pi_titleSnapshot :: js_text
  pi_durationMinutes :: int
  pi_countInitial :: int
  pi_expiresAt :: millis
  pi_teacherId :: "uuid option"

definition createPackagePurchase ::
  "clock \<Rightarrow> uuid \<Rightarrow> purchase_input \<Rightarrow> db \<Rightarrow> purchase_row option outcome" where
  "createPackagePurchase c newId input d =
     (let teacherId =
            (case pi_teacherId input of
               Some (t # ts) \<Rightarrow> Some (t # ts)
             | _ \<Rightarrow> map_option lp_teacher_id
                     (find_by lp_id (pi_packageId input) (lesson_packages d)));
          row = \<lparr>pp_id = newId, pp_account_id = pi_accountId input,
                 pp_package_id = pi_packageId input,
                 pp_payment_order_id = pi_paymentOrderId input,
                 pp_amount_kopecks = pi_amountKopecks input,
                 pp_title_snapshot = pi_titleSnapshot input,
                 pp_duration_minutes = pi_durationMinutes input,
                 pp_count_initial = pi_countInitial input,
                 pp_expires_at = pi_expiresAt input * us_per_ms,
                 pp_created_at = pg_now c, pp_teacher_id = teacherId, pp_voided_at = None\<rparr>
      in if teacherId = None then Inl (PgErr NotNullViolation)
         else if \<not> purchase_check row then Inl (PgErr CheckViolation)
         else if find_by pp_payment_order_id (pi_paymentOrderId input) (package_purchases d) \<noteq> None
         then Inr (None, d)
         else if purchase_by_id d newId \<noteq> None then Inl (PgErr UniqueViolation)
         else Inr (Some row, d\<lparr>package_purchases := package_purchases d @ [row]\<rparr>))"

text \<open>A purchase with \<open>countRemaining\<close> and \<open>countConsumed\<close>, as the listings return it.\<close>

definition listAccountActivePackages ::
  "clock \<Rightarrow> uuid \<Rightarrow> db \<Rightarrow> (purchase_row \<times> int \<times> int) list" where
  "listAccountActivePackages c accountId d =
     filter (\<lambda>(_, countRemaining, _). countRemaining > 0)
       (map (\<lambda>pp. (pp, count_remaining d pp, int (active_units d (pp_id pp))))
         (order_by expires_before
           (filter (\<lambda>pp. pp_account_id pp = accountId \<and> pp_expires_at pp > pg_now c
                         \<and> pp_voided_at pp = None)
              (package_purchases d))))"

definition upcoming_units :: "clock \<Rightarrow> db \<Rightarrow> uuid \<Rightarrow> nat" where
  "upcoming_units c d p =
     length (filter (\<lambda>r. pc_package_purchase_id r = p \<and> unit_active r
               \<and> (case slot_by_id d (pc_slot_id r) of
                    None \<Rightarrow> False
                  | Some ls \<Rightarrow> ls_status ls \<in> {Open, Booked} \<and> ls_start_at ls > pg_now c))
               (package_consumptions d))"

definition listLearnerPackagesByTeacher ::
  "clock \<Rightarrow> uuid \<Rightarrow> uuid \<Rightarrow> db \<Rightarrow> (purchase_row \<times> js_text \<times> int \<times> int \<times> bool) list" where
  "listLearnerPackagesByTeacher c teacherId learnerAccountId d =
     concat (map (\<lambda>pp.
         (case find_by lp_id (pp_package_id pp) (lesson_packages d) of
            None \<Rightarrow> []
          | Some lp \<Rightarrow>
              [(pp, lp_title_ru lp, count_remaining d pp, int (active_units d (pp_id pp)),
                upcoming_units c d (pp_id pp) > 0)]))
       (order_by expires_before
         (filter (\<lambda>pp. pp_teacher_id pp = Some teacherId \<and> pp_account_id pp = learnerAccountId
                       \<and> pp_expires_at pp > pg_now c \<and> pp_voided_at pp = None)
            (package_purchases d))))"

definition aggregateActiveLearnersByPackage :: "clock \<Rightarrow> uuid \<Rightarrow> db \<Rightarrow> (uuid \<times> nat) list" where
  "aggregateActiveLearnersByPackage c teacherId d =
     (let live = filter (\<lambda>pp. pp_teacher_id pp = Some teacherId \<and> pp_expires_at pp > pg_now c
                              \<and> pp_voided_at pp = None) (package_purchases d)
      in map (\<lambda>k. (k, length (remdups (map pp_account_id
                               (filter (\<lambda>pp. pp_package_id pp = k) live)))))
           (remdups (map pp_package_id live)))"

definition listPackagePurchasesByIds :: "uuid list \<Rightarrow> db \<Rightarrow> (uuid \<times> purchase_row) list" where
  "listPackagePurchasesByIds ids d =
     (if ids = [] then []
      else map (\<lambda>p. (pp_id p, p)) (filter (\<lambda>p. pp_id p \<in> set ids) (package_purchases d)))"

definition accountHasPendingPackageGrantForDuration ::
  "clock \<Rightarrow> uuid \<Rightarrow> int \<Rightarrow> uuid option \<Rightarrow> db \<Rightarrow> bool" where
  "accountHasPendingPackageGrantForDuration c accountId durationMinutes teacherId d \<longleftrightarrow>
     list_ex (\<lambda>x.
         po_meta_account_id x = Some accountId
         \<and> po_meta_package_slug x \<noteq> None
         \<and> po_meta_package_duration x = Some durationMinutes
         \<and> (teacherId = None \<or> Some (po_teacher_account_id x) = teacherId)
         \<and> po_status x \<in> {''pending'', ''3ds_required''}
         \<and> po_created_at x > pg_now c - 15 * us_per_minute)
       (payment_orders d)"

text \<open>
  The gate before a second purchase. It orders by expiry alone; between purchases that
  expire at the same instant the database may return either.
\<close>

record active_owned_package =
  ap_purchaseId :: uuid
  ap_packageId :: uuid
  ap_titleSnapshot :: js_text
  ap_durationMinutes :: int
  ap_countRemaining :: int
  ap_expiresAt :: millis

definition learnerHasActivePackageOfDuration ::
  "clock \<Rightarrow> uuid \<Rightarrow> int \<Rightarrow> uuid option \<Rightarrow> db \<Rightarrow> active_owned_package option" where
  "learnerHasActivePackageOfDuration c accountId durationMinutes teacherId d =
     map_option
       (\<lambda>pp. \<lparr>ap_purchaseId = pp_id pp, ap_packageId = pp_package_id pp,
              ap_titleSnapshot = pp_title_snapshot pp,
              ap_durationMinutes = pp_duration_minutes pp,
              ap_countRemaining = count_remaining d pp,
              ap_expiresAt = js_date_via_string (pp_expires_at pp)\<rparr>)
       (min_by (\<lambda>p q. pp_expires_at p < pp_expires_at q)
         (filter (\<lambda>pp. pp_account_id pp = accountId
                       \<and> pp_duration_minutes pp = durationMinutes
                       \<and> pp_voided_at pp = None
                       \<and> pp_expires_at pp > pg_now c
                       \<and> (teacherId = None \<or> pp_teacher_id pp = teacherId)
                       \<and> count_remaining d pp > 0)
            (package_purchases d)))"

section \<open>What the flows rely on\<close>

text \<open>
  A ledger of units: \<open>free s p\<close> units of package \<open>p\<close> are left, \<open>held s l\<close> is the
  package whose unit lesson \<open>l\<close> holds. Taking a unit moves one from the package to the
  lesson, giving it back undoes exactly that.
\<close>

locale unit_ledger =
  fixes wf :: "'s \<Rightarrow> bool"
    and free :: "'s \<Rightarrow> 'p \<Rightarrow> int"
    and held :: "'s \<Rightarrow> 'l \<Rightarrow> 'p option"
    and take_unit :: "'a \<Rightarrow> 'l \<Rightarrow> 's \<Rightarrow> 'p option \<times> 's"
    and give_unit :: "'b \<Rightarrow> 'l \<Rightarrow> 's \<Rightarrow> 'p option \<times> 's"
  assumes take_Some: "wf s \<Longrightarrow> take_unit a l s = (Some p, s') \<Longrightarrow>
        wf s' \<and> held s l = None \<and> 0 < free s p
        \<and> held s' = (held s)(l := Some p) \<and> free s' = (free s)(p := free s p - 1)"
    and take_None: "take_unit a l s = (None, s') \<Longrightarrow> s' = s"
    and give: "wf s \<Longrightarrow> give_unit b l s = (r, s') \<Longrightarrow>
        wf s' \<and> r = held s l \<and> held s' = (held s)(l := None)
        \<and> free s' = (case held s l of None \<Rightarrow> free s | Some p \<Rightarrow> (free s)(p := free s p + 1))"
begin

lemma take_then_give:
  assumes "wf s" and "take_unit a l s = (Some p, s1)" and "give_unit b l s1 = (r, s2)"
  shows "r = Some p \<and> held s2 = held s \<and> free s2 = free s"
  using take_Some [OF assms(1,2)] give [OF _ assms(3)] by (auto simp: fun_eq_iff)

lemma give_twice:
  assumes "wf s" and "give_unit b l s = (r, s1)" and "give_unit b' l s1 = (r', s2)"
  shows "r' = None \<and> held s2 = held s1 \<and> free s2 = free s1"
  using give [OF assms(1,2)] give [OF _ assms(3)] by (auto simp: fun_eq_iff)

lemma take_twice:
  assumes "wf s" and "take_unit a l s = (Some p, s1)" and "take_unit a' l s1 = (r, s2)"
  shows "r = None \<and> s2 = s1"
proof (cases r)
  case None
  with take_None [of a' l s1 s2] assms(3) show ?thesis by simp
next
  case (Some q)
  with assms take_Some [OF assms(1,2)] take_Some [of s1 a' l q s2] show ?thesis by auto
qed

lemma take_free_nonneg:
  assumes "wf s" and "\<forall>q. 0 \<le> free s q" and "take_unit a l s = (r, s')"
  shows "\<forall>q. 0 \<le> free s' q"
proof (cases r)
  case None
  with take_None [of a l s s'] assms show ?thesis by simp
next
  case (Some p)
  with assms take_Some [of s a l p s'] show ?thesis by auto
qed

end

section \<open>The operations are a unit ledger\<close>

definition free_units :: "db \<Rightarrow> uuid \<Rightarrow> int" where
  "free_units d p = (case purchase_by_id d p of None \<Rightarrow> 0 | Some pp \<Rightarrow> count_remaining d pp)"

definition held_unit :: "db \<Rightarrow> uuid \<Rightarrow> uuid option" where
  "held_unit d l =
     (case consumption_of_slot d l of
        None \<Rightarrow> None
      | Some r \<Rightarrow> if unit_active r then Some (pc_package_purchase_id r) else None)"

definition units_wf :: "db \<Rightarrow> bool" where
  "units_wf d \<longleftrightarrow>
     distinct (map pp_id (package_purchases d))
     \<and> distinct (map pc_slot_id (package_consumptions d))
     \<and> (\<forall>r \<in> set (package_consumptions d). unit_active r \<longrightarrow>
          pc_package_purchase_id r \<in> pp_id ` set (package_purchases d))"

definition take_package_unit ::
  "clock \<times> uuid \<times> int \<times> billing_actor \<times> uuid \<Rightarrow> uuid \<Rightarrow> db \<Rightarrow> uuid option \<times> db" where
  "take_package_unit a l d =
     (case a of (c, accountId, durationMinutes, actor, teacherId) \<Rightarrow>
        (case consumePackageUnit c accountId l durationMinutes actor teacherId d of
           (Consumed p, d') \<Rightarrow> (Some p, d')
         | (_, d') \<Rightarrow> (None, d')))"

definition give_package_unit ::
  "clock \<times> billing_actor \<times> string option \<Rightarrow> uuid \<Rightarrow> db \<Rightarrow> uuid option \<times> db" where
  "give_package_unit b l d =
     (case b of (c, actor, reason) \<Rightarrow> restorePackageConsumption c l actor reason d)"

lemma free_units_eq:
  "free_units d p =
     (case purchase_by_id d p of None \<Rightarrow> 0 | Some pp \<Rightarrow> pp_count_initial pp - int (active_units d p))"
  by (auto simp: free_units_def count_remaining_def purchase_by_id_def split: option.split
      dest: find_by_key)

lemma ledger_inv_units_wf: "ledger_inv d \<Longrightarrow> units_wf d"
  unfolding ledger_inv_def units_wf_def schema_ok_def keys_ok_def consumption_sync_def
    unit_backed_def by (metis image_eqI)

lemma consumePackageUnit_ConsumedE:
  assumes "consumePackageUnit c acc l dur actor t d = (Consumed p, d')"
  obtains pp where "min_by expires_before
        (filter (package_eligible c acc dur t d) (package_purchases d)) = Some pp"
    and "pp \<in> set (package_purchases d)" and "package_eligible c acc dur t d pp" and "pp_id pp = p"
    and "consumption_of_slot d l = None"
    and "d' = d\<lparr>package_consumptions := package_consumptions d @
           [\<lparr>pc_slot_id = l, pc_package_purchase_id = p, pc_consumed_at = pg_now c,
             pc_consumed_by_actor = actor, pc_restored_at = None, pc_restored_by_actor = None,
             pc_restored_reason = None\<rparr>]\<rparr>"
  using assms
  by (auto simp: consumePackageUnit_def split: option.splits if_splits dest: min_by_mem)

lemma consumePackageUnit_not_Consumed:
  "consumePackageUnit c acc l dur actor t d = (r, d') \<Longrightarrow> (\<forall>p. r \<noteq> Consumed p) \<Longrightarrow> d' = d"
  by (auto simp: consumePackageUnit_def split: option.splits if_splits)

lemma consumePackageUnit_not_eligible:
  assumes "consumePackageUnit c acc l dur actor t d = (r, d')" and "\<forall>p. r \<noteq> Consumed p"
  shows "consumption_of_slot d l \<noteq> None
    \<or> (\<forall>q \<in> set (package_purchases d). \<not> package_eligible c acc dur t d q)"
  using assms by (auto simp: consumePackageUnit_def filter_empty_conv split: option.splits if_splits)

lemma consumption_of_slot_None_iff:
  "consumption_of_slot d l = None \<longleftrightarrow> l \<notin> pc_slot_id ` set (package_consumptions d)"
  by (simp add: consumption_of_slot_def find_by_None_iff)

lemma count_after_restore:
  fixes rs :: "consumption_row list"
  assumes "distinct (map pc_slot_id rs)"
  defines "A \<equiv> \<lambda>p r. pc_package_purchase_id r = p \<and> unit_active r"
  shows "int (length (filter (A p)
            (map (\<lambda>r. if pc_slot_id r = l \<and> unit_active r then stamp_restored c actor reason r else r) rs)))
       = int (length (filter (A p) rs))
         - (case find_by pc_slot_id l rs of None \<Rightarrow> 0 | Some r \<Rightarrow> if A p r then 1 else 0)"
  using assms(1)
proof (induction rs)
  case Nil
  then show ?case by (simp add: find_by_def)
next
  case (Cons r rs)
  then have IH: "int (length (filter (A p)
            (map (\<lambda>r. if pc_slot_id r = l \<and> unit_active r then stamp_restored c actor reason r else r) rs)))
       = int (length (filter (A p) rs))
         - (case find_by pc_slot_id l rs of None \<Rightarrow> 0 | Some r \<Rightarrow> if A p r then 1 else 0)" by simp
  have stamped: "\<not> A p (stamp_restored c actor reason x)" for x
    by (simp add: A_def unit_active_def stamp_restored_def)
  show ?case
  proof (cases "pc_slot_id r = l")
    case True
    with Cons.prems have "find_by pc_slot_id l rs = None" by (simp add: find_by_None_iff)
    with True IH stamped show ?thesis by (auto simp: find_by_def A_def)
  next
    case False
    with IH show ?thesis by (simp add: find_by_def)
  qed
qed

lemma stamp_restored_simps [simp]:
  "pc_slot_id (stamp_restored c actor reason r) = pc_slot_id r"
  "pc_package_purchase_id (stamp_restored c actor reason r) = pc_package_purchase_id r"
  "\<not> unit_active (stamp_restored c actor reason r)"
  by (simp_all add: stamp_restored_def unit_active_def)

lemma restore_where_simps [simp]:
  "lesson_slots (restore_where c actor reason P d) = lesson_slots d"
  "lesson_completions (restore_where c actor reason P d) = lesson_completions d"
  "package_purchases (restore_where c actor reason P d) = package_purchases d"
  "lesson_settlement_completions (restore_where c actor reason P d) = lesson_settlement_completions d"
  "purchase_by_id (restore_where c actor reason P d) i = purchase_by_id d i"
  "map pc_slot_id (package_consumptions (restore_where c actor reason P d))
     = map pc_slot_id (package_consumptions d)"
  by (auto simp: restore_where_def purchase_by_id_def)

lemma active_units_restore:
  assumes "distinct (map pc_slot_id (package_consumptions d))"
  shows "int (active_units (restore_where c actor reason (\<lambda>r. pc_slot_id r = l) d) p)
       = int (active_units d p) - (if held_unit d l = Some p then 1 else 0)"
proof -
  have "(case find_by pc_slot_id l (package_consumptions d) of None \<Rightarrow> 0
         | Some r \<Rightarrow> if pc_package_purchase_id r = p \<and> unit_active r then 1 else 0)
      = (if held_unit d l = Some p then 1 else (0::int))"
    by (simp add: held_unit_def consumption_of_slot_def split: option.split)
  with count_after_restore [OF assms, of p l c actor reason]
  show ?thesis by (simp add: active_units_def restore_where_def)
qed

lemma held_unit_restore:
  "held_unit (restore_where c actor reason (\<lambda>r. pc_slot_id r = l) d) = (held_unit d)(l := None)"
proof
  fix k
  let ?g = "\<lambda>r. if pc_slot_id r = l \<and> unit_active r then stamp_restored c actor reason r else r"
  have "find_by pc_slot_id k (map ?g (package_consumptions d))
      = map_option ?g (find_by pc_slot_id k (package_consumptions d))"
    by (rule find_by_map) simp
  then show "held_unit (restore_where c actor reason (\<lambda>r. pc_slot_id r = l) d) k
      = ((held_unit d)(l := None)) k"
    by (auto simp: held_unit_def consumption_of_slot_def restore_where_def
        split: option.splits dest: find_by_key)
qed

lemma restorePackageConsumption_result:
  assumes "distinct (map pc_slot_id (package_consumptions d))"
  shows "restorePackageConsumption c l actor reason d
       = (held_unit d l, restore_where c actor reason (\<lambda>r. pc_slot_id r = l) d)"
proof -
  have "(case filter (\<lambda>r. pc_slot_id r = l \<and> unit_active r) rs of [] \<Rightarrow> None
         | r # _ \<Rightarrow> Some (pc_package_purchase_id r))
      = (case find_by pc_slot_id l rs of None \<Rightarrow> None
         | Some r \<Rightarrow> if unit_active r then Some (pc_package_purchase_id r) else None)"
    if "distinct (map pc_slot_id rs)" for rs :: "consumption_row list"
    using that
  proof (induction rs)
    case Nil
    then show ?case by (simp add: find_by_def)
  next
    case (Cons r rs)
    have none: "filter (\<lambda>x. pc_slot_id x = l \<and> unit_active x) rs = []" if "pc_slot_id r = l"
      using Cons.prems that by (auto simp: filter_empty_conv image_iff)
    show ?case
    proof (cases "pc_slot_id r = l")
      case True
      with none show ?thesis by (simp add: find_by_def)
    next
      case False
      with Cons show ?thesis by (simp add: find_by_def)
    qed
  qed
  from this [OF assms] show ?thesis
    by (simp add: restorePackageConsumption_def held_unit_def consumption_of_slot_def)
qed

text \<open>What a new row of \<open>package_consumptions\<close> does, for a purchase the lesson may draw on.\<close>

definition unit_row :: "clock \<Rightarrow> uuid \<Rightarrow> uuid \<Rightarrow> billing_actor \<Rightarrow> consumption_row" where
  "unit_row c l p actor =
     \<lparr>pc_slot_id = l, pc_package_purchase_id = p, pc_consumed_at = pg_now c,
      pc_consumed_by_actor = actor, pc_restored_at = None, pc_restored_by_actor = None,
      pc_restored_reason = None\<rparr>"

lemma unit_row_simps [simp]:
  "pc_slot_id (unit_row c l p actor) = l" "pc_package_purchase_id (unit_row c l p actor) = p"
  "unit_active (unit_row c l p actor)"
  by (simp_all add: unit_row_def unit_active_def)

lemma unit_insert_effect:
  assumes wf: "units_wf d" and pp: "pp \<in> set (package_purchases d)" "0 < count_remaining d pp"
    and none: "consumption_of_slot d l = None"
    and d': "d' = d\<lparr>package_consumptions := package_consumptions d @ [unit_row c l (pp_id pp) actor]\<rparr>"
  shows "units_wf d' \<and> held_unit d l = None \<and> 0 < free_units d (pp_id pp)
       \<and> held_unit d' = (held_unit d)(l := Some (pp_id pp))
       \<and> free_units d' = (free_units d)(pp_id pp := free_units d (pp_id pp) - 1)"
proof -
  have look: "purchase_by_id d (pp_id pp) = Some pp"
    using wf pp find_by_distinct [of pp_id "package_purchases d" pp]
    by (simp add: units_wf_def purchase_by_id_def)
  have units: "active_units d' q = active_units d q + (if q = pp_id pp then 1 else 0)" for q
    by (simp add: active_units_def d')
  have "units_wf d'"
    using wf pp none by (auto simp: units_wf_def d' consumption_of_slot_None_iff)
  moreover have "held_unit d' = (held_unit d)(l := Some (pp_id pp))"
    using none
    by (auto simp: fun_eq_iff held_unit_def consumption_of_slot_def d' find_by_snoc split: option.splits)
  moreover have "free_units d' = (free_units d)(pp_id pp := free_units d (pp_id pp) - 1)"
    using look units by (auto simp: fun_eq_iff free_units_eq purchase_by_id_def d' split: option.split)
  moreover have "0 < free_units d (pp_id pp)"
    using pp(2) look by (simp add: free_units_def)
  ultimately show ?thesis using none by (simp add: held_unit_def)
qed

lemma take_package_unit_Some:
  assumes wf: "units_wf d" and "take_package_unit a l d = (Some p, d')"
  shows "units_wf d' \<and> held_unit d l = None \<and> 0 < free_units d p
       \<and> held_unit d' = (held_unit d)(l := Some p)
       \<and> free_units d' = (free_units d)(p := free_units d p - 1)"
proof -
  obtain c acc dur actor t where "consumePackageUnit c acc l dur actor t d = (Consumed p, d')"
    using assms(2)
    by (auto simp: take_package_unit_def split: prod.splits consume_result.splits)
  then show ?thesis
  proof (rule consumePackageUnit_ConsumedE)
    fix pp
    assume "pp \<in> set (package_purchases d)" "package_eligible c acc dur t d pp" "pp_id pp = p"
      "consumption_of_slot d l = None"
      "d' = d\<lparr>package_consumptions := package_consumptions d @
           [\<lparr>pc_slot_id = l, pc_package_purchase_id = p, pc_consumed_at = pg_now c,
             pc_consumed_by_actor = actor, pc_restored_at = None, pc_restored_by_actor = None,
             pc_restored_reason = None\<rparr>]\<rparr>"
    then show ?thesis
      using unit_insert_effect [OF wf, of pp l d' c actor]
      by (simp add: unit_row_def package_eligible_def)
  qed
qed

lemma units_wf_restore:
  "units_wf d \<Longrightarrow> units_wf (restore_where c actor reason P d)"
  by (auto simp: units_wf_def) (auto simp: restore_where_def split: if_splits)

lemma give_package_unit_eff:
  assumes wf: "units_wf d" and "give_package_unit b l d = (r, d')"
  shows "units_wf d' \<and> r = held_unit d l \<and> held_unit d' = (held_unit d)(l := None)
       \<and> free_units d' = (case held_unit d l of None \<Rightarrow> free_units d
            | Some p \<Rightarrow> (free_units d)(p := free_units d p + 1))"
proof -
  obtain c actor reason where b: "b = (c, actor, reason)" by (cases b)
  have dist: "distinct (map pc_slot_id (package_consumptions d))" using wf by (simp add: units_wf_def)
  have d': "d' = restore_where c actor reason (\<lambda>r. pc_slot_id r = l) d" and r: "r = held_unit d l"
    using assms(2) restorePackageConsumption_result [OF dist]
    by (auto simp: give_package_unit_def b)
  have known: "purchase_by_id d p \<noteq> None" if "held_unit d l = Some p" for p
    using that wf
    by (auto simp: held_unit_def consumption_of_slot_def units_wf_def purchase_by_id_def
        find_by_None_iff split: option.splits if_splits dest!: find_by_SomeD)
  have "free_units d' q = (free_units d q + (if held_unit d l = Some q then 1 else 0))" for q
    using active_units_restore [OF dist, of c actor reason l q] known [of q]
    by (auto simp: free_units_eq d' split: option.splits)
  then have "free_units d' = (case held_unit d l of None \<Rightarrow> free_units d
            | Some p \<Rightarrow> (free_units d)(p := free_units d p + 1))"
    by (auto simp: fun_eq_iff split: option.split)
  then show ?thesis
    using r units_wf_restore [OF wf] held_unit_restore [of c actor reason l d] by (simp add: d')
qed

interpretation packages: unit_ledger units_wf free_units held_unit take_package_unit give_package_unit
proof unfold_locales
  show "s' = s" if "take_package_unit a l s = (None, s')" for a l s s'
    using that
    by (auto simp: take_package_unit_def split: prod.splits consume_result.splits
        dest: consumePackageUnit_not_Consumed)
qed (use take_package_unit_Some give_package_unit_eff in blast)+

section \<open>The agreements of the ledger are kept\<close>

lemma package_consumptions_restore:
  "package_consumptions (restore_where c actor reason P d) =
     map (\<lambda>r. if P r \<and> unit_active r then stamp_restored c actor reason r else r)
       (package_consumptions d)"
  by (simp add: restore_where_def)

lemma restored_inactive:
  "r \<in> set (package_consumptions (restore_where c actor reason P d)) \<Longrightarrow> P r \<Longrightarrow> \<not> unit_active r"
  unfolding package_consumptions_restore by (auto split: if_splits)

lemma active_units_restore_le:
  "active_units (restore_where c actor reason P d) p \<le> active_units d p"
  unfolding active_units_def package_consumptions_restore
  by (rule length_filter_le_map_update) (auto split: if_splits)

lemma capacity_ok_restore: "capacity_ok d \<Longrightarrow> capacity_ok (restore_where c actor reason P d)"
  unfolding capacity_ok_def restore_where_simps
  by (meson active_units_restore_le of_nat_mono order_trans)

lemma schema_ok_restore: "schema_ok d \<Longrightarrow> schema_ok (restore_where c actor reason P d)"
  by (simp add: schema_ok_def keys_ok_def lanes_ok_def checks_ok_def)

lemma unit_backed_restore [simp]: "unit_backed (restore_where c actor reason P d) x = unit_backed d x"
  by (simp add: unit_backed_def)

lemma other_tables_restore [simp]:
  "completion_sync (restore_where c actor reason P d) = completion_sync d"
  "coverage_ok (restore_where c actor reason P d) = coverage_ok d"
  by (rule completion_sync_cong coverage_ok_cong; simp)+

lemma ledger_inv_restore_where: "ledger_inv d \<Longrightarrow> ledger_inv (restore_where c actor reason P d)"
  by (auto simp: ledger_inv_def consumption_sync_def schema_ok_restore capacity_ok_restore
      package_consumptions_restore split: if_splits)

lemma restorePackageConsumption_inv:
  "ledger_inv d \<Longrightarrow> restorePackageConsumption c l actor reason d = (r, d') \<Longrightarrow> ledger_inv d'"
  by (auto simp: restorePackageConsumption_def intro: ledger_inv_restore_where)

lemma unit_insert_inv:
  assumes inv: "ledger_inv d"
    and slot: "slot_by_id d l = Some r" "holds_unit r"
    and pp: "pp \<in> set (package_purchases d)" "purchase_fits pp r" "0 < count_remaining d pp"
    and none: "consumption_of_slot d l = None"
    and d': "d' = d\<lparr>package_consumptions := package_consumptions d @ [unit_row c l (pp_id pp) actor]\<rparr>"
  shows "ledger_inv d'"
proof -
  have dist: "distinct (map pp_id (package_purchases d))"
    using ledger_inv_keys [OF inv] by (simp add: keys_ok_def)
  have rin: "r \<in> set (lesson_slots d)" "ls_id r = l" using slot_by_id_SomeD [OF slot(1)] by auto
  have "unit_backed d' (unit_row c l (pp_id pp) actor)"
    unfolding unit_backed_def d'
    using rin pp slot(2) by (intro bexI [of _ r] conjI bexI [of _ pp]) simp_all
  moreover have "unit_backed d' x = unit_backed d x" for x by (simp add: unit_backed_def d')
  ultimately have "consumption_sync d'"
    using inv by (auto simp: ledger_inv_def consumption_sync_def d')
  moreover have "int (active_units d' (pp_id q)) \<le> pp_count_initial q"
    if q: "q \<in> set (package_purchases d)" for q
  proof (cases "pp_id q = pp_id pp")
    case True
    then have "q = pp" using distinct_key_eq [OF dist q pp(1)] by simp
    with pp show ?thesis by (simp add: active_units_def d' count_remaining_def)
  next
    case False
    with q inv show ?thesis by (simp add: ledger_inv_def capacity_ok_def active_units_def d')
  qed
  then have "capacity_ok d'" by (simp add: capacity_ok_def d')
  moreover have "schema_ok d'"
    using inv none
    by (auto simp: ledger_inv_def schema_ok_def keys_ok_def lanes_ok_def checks_ok_def d'
        consumption_of_slot_None_iff)
  ultimately show ?thesis
    using inv completion_sync_cong [of d' d] coverage_ok_cong [of d' d]
    by (simp add: ledger_inv_def d')
qed

lemma consumePackageUnit_inv:
  assumes inv: "ledger_inv d"
    and slot: "slot_by_id d l = Some r" "holds_unit r" "ls_learner_account_id r = Some acc"
      "ls_duration_minutes r = dur" "ls_teacher_account_id r = t"
    and con: "consumePackageUnit c acc l dur actor t d = (res, d')"
  shows "ledger_inv d'"
proof (cases "\<exists>p. res = Consumed p")
  case False
  with con inv show ?thesis by (auto dest: consumePackageUnit_not_Consumed)
next
  case True
  then obtain p where "consumePackageUnit c acc l dur actor t d = (Consumed p, d')" using con by auto
  then show ?thesis
  proof (rule consumePackageUnit_ConsumedE)
    fix pp
    assume pp: "pp \<in> set (package_purchases d)" "package_eligible c acc dur t d pp" "pp_id pp = p"
      and rest: "consumption_of_slot d l = None"
      "d' = d\<lparr>package_consumptions := package_consumptions d @
           [\<lparr>pc_slot_id = l, pc_package_purchase_id = p, pc_consumed_at = pg_now c,
             pc_consumed_by_actor = actor, pc_restored_at = None, pc_restored_by_actor = None,
             pc_restored_reason = None\<rparr>]\<rparr>"
    have "purchase_fits pp r" using pp(2) slot by (auto simp: purchase_fits_def package_eligible_def)
    with pp rest show ?thesis
      using unit_insert_inv [OF inv slot(1,2), of pp d' c actor]
      by (simp add: unit_row_def package_eligible_def)
  qed
qed

lemma consumePackageUnit_frame:
  assumes "consumePackageUnit c acc l dur actor t d = (res, d')"
  shows "lesson_slots d' = lesson_slots d \<and> lesson_completions d' = lesson_completions d
    \<and> package_purchases d' = package_purchases d"
  using assms by (auto simp: consumePackageUnit_def split: option.splits if_splits)

text \<open>The agreements with the unit of one slot left out, for a cancel half done.\<close>

definition ledger_inv_but :: "uuid \<Rightarrow> db \<Rightarrow> bool" where
  "ledger_inv_but i d \<longleftrightarrow>
     schema_ok d \<and> completion_sync d \<and> capacity_ok d \<and> coverage_ok d
     \<and> (\<forall>c \<in> set (package_consumptions d). unit_active c \<longrightarrow> pc_slot_id c \<noteq> i \<longrightarrow> unit_backed d c)"

lemma ledger_inv_but_weaken: "ledger_inv d \<Longrightarrow> ledger_inv_but i d"
  by (simp add: ledger_inv_def ledger_inv_but_def consumption_sync_def)

lemma ledger_inv_but_unheld:
  assumes "ledger_inv_but i d" and "\<forall>c \<in> set (package_consumptions d). unit_active c \<longrightarrow> pc_slot_id c \<noteq> i"
  shows "ledger_inv d"
  using assms by (auto simp: ledger_inv_def ledger_inv_but_def consumption_sync_def)

lemma pg_update_slot_inv_but:
  assumes inv: "ledger_inv d" and upd: "pg_update_slot i P f d = Inr (Some r', d')"
    and safe: "\<And>r. slot_by_id d i = Some r \<Longrightarrow> P r \<Longrightarrow>
      ls_id (f r) = ls_id r \<and> ls_teacher_account_id (f r) = ls_teacher_account_id r
      \<and> \<not> billable r \<and> \<not> billable (f r)"
  shows "ledger_inv_but i d'"
  using upd
proof (rule pg_update_slot_SomeE)
  fix r
  assume r: "slot_by_id d i = Some r" "ls_id r = i" "P r" "r' = snapshot_on_book d (f r)"
    and d': "d' = d\<lparr>lesson_slots := replace_row ls_id r' (lesson_slots d)\<rparr>"
  have s: "ls_id r' = i" "ls_teacher_account_id r' = ls_teacher_account_id r" "\<not> billable r" "\<not> billable r'"
    using safe [OF r(1,3)] r(2,4) by (simp_all add: billable_def)
  have "completion_sync d'"
    unfolding d' by (rule completion_sync_replace [OF ledger_inv_keys [OF inv] ledger_inv_completion [OF inv] r(1) s(1,2)])
      (use s in blast)
  moreover have "unit_backed d' x" if "x \<in> set (package_consumptions d)" "unit_active x" "pc_slot_id x \<noteq> i" for x
    unfolding d'
    by (rule unit_backed_replace [OF ledger_inv_keys [OF inv] r(1) s(1)])
      (use that inv in \<open>auto simp: ledger_inv_def consumption_sync_def\<close>)
  ultimately show ?thesis
    using inv pg_update_slot_schema_ok [OF ledger_inv_schema [OF inv] upd]
    by (simp add: ledger_inv_but_def ledger_inv_def d')
qed

lemma restore_inv_but:
  "ledger_inv_but i d \<Longrightarrow> restorePackageConsumption c i actor reason d = (p, d') \<Longrightarrow> ledger_inv d'"
  by (auto simp: restorePackageConsumption_def ledger_inv_def ledger_inv_but_def consumption_sync_def
      schema_ok_restore capacity_ok_restore package_consumptions_restore split: if_splits)

text \<open>Voiding a purchase only stamps its row.\<close>

lemma ledger_inv_void:
  assumes "ledger_inv d"
  shows "ledger_inv (d\<lparr>package_purchases :=
     map (\<lambda>p. if pp_id p = i then p\<lparr>pp_voided_at := v p\<rparr> else p) (package_purchases d)\<rparr>)"
    (is "ledger_inv (d\<lparr>package_purchases := map ?g _\<rparr>)")
proof -
  let ?d' = "d\<lparr>package_purchases := map ?g (package_purchases d)\<rparr>"
  have keep: "pp_id (?g p) = pp_id p" "pp_count_initial (?g p) = pp_count_initial p"
    "purchase_fits (?g p) r = purchase_fits p r" "pp_payment_order_id (?g p) = pp_payment_order_id p" for p r
    by (simp_all add: purchase_fits_def)
  have maps: "pp_id \<circ> ?g = pp_id" "pp_payment_order_id \<circ> ?g = pp_payment_order_id"
    by (simp_all add: fun_eq_iff)
  have "schema_ok ?d'"
    using assms maps by (simp add: ledger_inv_def schema_ok_def keys_ok_def lanes_ok_def checks_ok_def)
  moreover have "capacity_ok ?d'"
    using assms keep by (auto simp: ledger_inv_def capacity_ok_def active_units_def)
  moreover have "unit_backed ?d' x" if x: "unit_backed d x" for x
  proof -
    from x obtain r p where rp: "r \<in> set (lesson_slots d)" "ls_id r = pc_slot_id x" "holds_unit r"
      "p \<in> set (package_purchases d)" "pp_id p = pc_package_purchase_id x" "purchase_fits p r"
      by (auto simp: unit_backed_def)
    have "?g p \<in> set (package_purchases ?d')" using rp(4) by simp
    then show ?thesis
      unfolding unit_backed_def using rp keep(1,3) [of p]
      by (intro bexI [of _ r] conjI bexI [of _ "?g p"]) simp_all
  qed
  then have "consumption_sync ?d'" using assms by (simp add: ledger_inv_def consumption_sync_def)
  ultimately show ?thesis
    using assms completion_sync_cong [of ?d' d] coverage_ok_cong [of ?d' d] by (simp add: ledger_inv_def)
qed

lemma restoreAllConsumptionsForPurchase_inv:
  "ledger_inv d \<Longrightarrow> restoreAllConsumptionsForPurchase c i actor reason d = (r, d') \<Longrightarrow> ledger_inv d'"
  by (auto simp: restoreAllConsumptionsForPurchase_def Let_def
      intro!: ledger_inv_restore_where ledger_inv_void)

lemma active_units_unknown:
  "ledger_inv d \<Longrightarrow> purchase_by_id d i = None \<Longrightarrow> active_units d i = 0"
  by (force simp: ledger_inv_def consumption_sync_def unit_backed_def active_units_def
      purchase_by_id_def find_by_None_iff filter_empty_conv)

lemma createPackagePurchase_inv:
  assumes inv: "ledger_inv d" and cre: "createPackagePurchase c i input d = Inr (r, d')"
  shows "ledger_inv d'"
proof (cases r)
  case None
  with cre inv show ?thesis by (auto simp: createPackagePurchase_def Let_def split: if_splits)
next
  case (Some row)
  with cre have row: "pp_id row = i" "purchase_check row" "purchase_by_id d i = None"
    "find_by pp_payment_order_id (pp_payment_order_id row) (package_purchases d) = None"
    and d': "d' = d\<lparr>package_purchases := package_purchases d @ [row]\<rparr>"
    by (auto simp: createPackagePurchase_def Let_def split: if_splits)
  have "active_units d i = 0" using inv row(3) by (rule active_units_unknown)
  then have "capacity_ok d'"
    using inv row(1,2) by (auto simp: ledger_inv_def capacity_ok_def active_units_def d' purchase_check_def)
  moreover have "unit_backed d' x" if "unit_backed d x" for x
    using that by (auto simp: unit_backed_def d')
  then have "consumption_sync d'" using inv by (simp add: ledger_inv_def consumption_sync_def d')
  moreover have "schema_ok d'"
    using inv row
    by (auto simp: ledger_inv_def schema_ok_def keys_ok_def lanes_ok_def checks_ok_def d'
        purchase_by_id_def find_by_None_iff)
  ultimately show ?thesis
    using inv completion_sync_cong [of d' d] coverage_ok_cong [of d' d] by (simp add: ledger_inv_def d')
qed

section \<open>Properties\<close>

lemma expires_before_order:
  "expires_before a b \<Longrightarrow> \<not> expires_before b a"
  "\<not> expires_before b a \<Longrightarrow> \<not> expires_before c b \<Longrightarrow> \<not> expires_before c a"
  by (auto simp: expires_before_def)

text \<open>
  \<open>consumePackageUnit\<close> consumes from the earliest-expiring purchase that belongs to the
  learner, has the lesson's duration, is for this teacher or for none, is neither expired nor
  voided and has a unit left (ties by id); it reports that there is none exactly when there is
  none, and it refuses a lesson that has a consumption row of any kind. Only in the first
  case does anything change.
\<close>

theorem consumePackageUnit_spec:
  "case consumePackageUnit c acc l dur actor t d of
     (Consumed p, d') \<Rightarrow>
       consumption_of_slot d l = None
       \<and> (\<exists>pp \<in> set (package_purchases d). pp_id pp = p \<and> package_eligible c acc dur t d pp
            \<and> (\<forall>q \<in> set (package_purchases d).
                 package_eligible c acc dur t d q \<longrightarrow> \<not> expires_before q pp))
       \<and> map pc_slot_id (package_consumptions d') = map pc_slot_id (package_consumptions d) @ [l]
   | (NoEligiblePackage, d') \<Rightarrow>
       d' = d \<and> (\<forall>q \<in> set (package_purchases d). \<not> package_eligible c acc dur t d q)
   | (AlreadyConsumed, d') \<Rightarrow> d' = d \<and> consumption_of_slot d l \<noteq> None"
proof -
  let ?ok = "filter (package_eligible c acc dur t d) (package_purchases d)"
  show ?thesis
  proof (cases "min_by expires_before ?ok")
    case None
    then show ?thesis by (simp add: consumePackageUnit_def filter_empty_conv)
  next
    case (Some pp)
    have "\<not> expires_before q pp" if "q \<in> set ?ok" for q
      using min_by_least [OF Some that] expires_before_order by blast
    moreover have "pp \<in> set ?ok" using Some by (rule min_by_mem)
    ultimately show ?thesis using Some by (auto simp: consumePackageUnit_def)
  qed
qed

text \<open>A restore that finds no active unit of the lesson writes nothing.\<close>

lemma restore_of_nothing:
  assumes "restorePackageConsumption c l actor reason d = (None, d')"
  shows "d' = d"
proof -
  have "filter (\<lambda>r. pc_slot_id r = l \<and> unit_active r) (package_consumptions d) = []"
    using assms by (auto simp: restorePackageConsumption_def split: list.splits)
  then have "map (\<lambda>r. if pc_slot_id r = l \<and> unit_active r then stamp_restored c actor reason r else r) (package_consumptions d)
      = package_consumptions d"
    by (intro map_idI) (auto simp: filter_empty_conv)
  then show ?thesis using assms by (simp add: restorePackageConsumption_def restore_where_def)
qed

text \<open>
  C3: consuming a unit and restoring it is a round trip: the restore names the purchase the
  unit came from, and every purchase then has as many free units and every lesson holds
  the unit it held before. A second restore finds nothing and leaves the whole database as it is, the stamps of the
  first one included, and a lesson that holds a unit is never charged again.
\<close>

theorem consume_restore_round_trip:
  assumes wf: "units_wf d"
    and con: "consumePackageUnit c acc l dur actor t d = (Consumed p, d1)"
    and res: "restorePackageConsumption c' l actor' reason d1 = (r, d2)"
  shows "r = Some p
    \<and> held_unit d1 = (held_unit d)(l := Some p) \<and> free_units d1 = (free_units d)(p := free_units d p - 1)
    \<and> held_unit d2 = held_unit d \<and> free_units d2 = free_units d
    \<and> restorePackageConsumption c'' l actor'' reason'' d2 = (None, d2)
    \<and> (\<forall>q. fst (consumePackageUnit c'' acc' l dur' actor'' t' d1) \<noteq> Consumed q)"
proof -
  have tk: "take_package_unit (c, acc, dur, actor, t) l d = (Some p, d1)"
    by (simp add: take_package_unit_def con)
  have gv: "give_package_unit (c', actor', reason) l d1 = (r, d2)"
    by (simp add: give_package_unit_def res)
  have wf1: "units_wf d1" using packages.take_Some [OF wf tk] by blast
  obtain r' d3 where gv': "give_package_unit (c'', actor'', reason'') l d2 = (r', d3)"
    by (cases "give_package_unit (c'', actor'', reason'') l d2")
  have "r' = None" using packages.give_twice [OF wf1 gv gv'] by simp
  then have second: "restorePackageConsumption c'' l actor'' reason'' d2 = (None, d2)"
    using gv' by (simp add: give_package_unit_def restore_of_nothing)
  obtain q d4 where tk': "take_package_unit (c'', acc', dur', actor'', t') l d1 = (q, d4)"
    by (cases "take_package_unit (c'', acc', dur', actor'', t') l d1")
  have "q = None" using packages.take_twice [OF wf tk tk'] by simp
  with tk' have "\<forall>q. fst (consumePackageUnit c'' acc' l dur' actor'' t' d1) \<noteq> Consumed q"
    by (auto simp: take_package_unit_def split: prod.splits consume_result.splits)
  with second show ?thesis
    using packages.take_then_give [OF wf tk gv] packages.take_Some [OF wf tk] by blast
qed

definition sample_clock :: clock where
  "sample_clock = \<lparr>pg_now = 1767550000000000, js_now = 1767550000000\<rparr>"

definition sample_purchase :: purchase_row where
  "sample_purchase =
     \<lparr>pp_id = uuid_of CHR ''9'', pp_account_id = uuid_of CHR ''b'', pp_package_id = uuid_of CHR ''8'',
      pp_payment_order_id = js ''lc_1'', pp_amount_kopecks = 500000, pp_title_snapshot = [],
      pp_duration_minutes = 60, pp_count_initial = 5, pp_expires_at = 1783000000000000,
      pp_created_at = 1767400000000000, pp_teacher_id = Some (uuid_of CHR ''a''), pp_voided_at = None\<rparr>"

text \<open>A teacher \<open>a\<close>, a learner \<open>b\<close> with a package of five, and a booked lesson.\<close>

definition sample_db :: db where
  "sample_db = empty_db\<lparr>lesson_slots := [sample_slot], package_purchases := [sample_purchase]\<rparr>"

lemmas sample_defs = sample_db_def sample_slot_def sample_purchase_def sample_clock_def empty_db_def

lemma sample_db_inv: "ledger_inv sample_db"
  using sample_slot_check
  by (simp add: sample_db_def sample_purchase_def empty_db_def ledger_inv_def schema_ok_def
      keys_ok_def lanes_ok_def checks_ok_def completion_sync_def billable_def consumption_sync_def
      capacity_ok_def active_units_def coverage_ok_def)
    (simp add: sample_slot_def)

lemma sample_consume:
  "\<exists>d1. consumePackageUnit sample_clock (uuid_of CHR ''b'') (uuid_of CHR ''1'') 60 ActorLearner
          (uuid_of CHR ''a'') sample_db = (Consumed (uuid_of CHR ''9''), d1)"
  by (simp add: consumePackageUnit_def package_eligible_def count_remaining_def active_units_def
      consumption_of_slot_def find_by_def sample_defs)

theorem consume_restore_round_trip_witness:
  "\<exists>d1 d2. consumePackageUnit sample_clock (uuid_of CHR ''b'') (uuid_of CHR ''1'') 60 ActorLearner
             (uuid_of CHR ''a'') sample_db = (Consumed (uuid_of CHR ''9''), d1)
       \<and> restorePackageConsumption sample_clock (uuid_of CHR ''1'') ActorLearner None d1
           = (Some (uuid_of CHR ''9''), d2)
       \<and> free_units d2 (uuid_of CHR ''9'') = 5"
proof -
  obtain d1 where con: "consumePackageUnit sample_clock (uuid_of CHR ''b'') (uuid_of CHR ''1'') 60
      ActorLearner (uuid_of CHR ''a'') sample_db = (Consumed (uuid_of CHR ''9''), d1)"
    using sample_consume by blast
  obtain r d2 where res: "restorePackageConsumption sample_clock (uuid_of CHR ''1'') ActorLearner None d1
      = (r, d2)"
    by (cases "restorePackageConsumption sample_clock (uuid_of CHR ''1'') ActorLearner None d1")
  have "free_units sample_db (uuid_of CHR ''9'') = 5"
    by (simp add: free_units_def purchase_by_id_def find_by_def count_remaining_def active_units_def
        sample_defs)
  with con res show ?thesis
    using consume_restore_round_trip [OF ledger_inv_units_wf [OF sample_db_inv] con res] by simp
qed

text \<open>
  Voiding a purchase returns all its units and closes it: afterwards it holds no active
  unit, no lesson can consume from it at any later time, and its stamp is the first one ever
  set. Doing it again in a later transaction restores nothing, reports the purchase as
  already voided and leaves the state as it is.
\<close>

theorem restoreAllConsumptionsForPurchase_voids:
  assumes "purchase_by_id d i = Some pp"
    and one: "restoreAllConsumptionsForPurchase c i actor reason d = ((n, already), d1)"
    and "pg_now c < pg_now c'"
  shows "n = active_units d i \<and> active_units d1 i = 0
    \<and> purchase_by_id d1 i = Some (pp\<lparr>pp_voided_at := Some (coalesce (pp_voided_at pp) (pg_now c))\<rparr>)
    \<and> fst (consumePackageUnit c' acc l dur actor' t d1) \<noteq> Consumed i
    \<and> (pp_voided_at pp = None \<longrightarrow>
         restoreAllConsumptionsForPurchase c' i actor' reason' d1 = ((0, True), d1))"
proof -
  let ?g = "\<lambda>k p. if pp_id p = i then p\<lparr>pp_voided_at := Some (coalesce (pp_voided_at p) (pg_now k))\<rparr> else p"
  let ?d0 = "d\<lparr>package_purchases := map (?g c) (package_purchases d)\<rparr>"
  let ?pp = "pp\<lparr>pp_voided_at := Some (coalesce (pp_voided_at pp) (pg_now c))\<rparr>"
  have d1: "d1 = restore_where c actor reason (\<lambda>r. pc_package_purchase_id r = i) ?d0"
    using one by (simp only: restoreAllConsumptionsForPurchase_def Let_def prod.inject)
  have "active_units ?d0 i = active_units d i" by (simp add: active_units_def)
  then have n: "n = active_units d i"
    using one by (simp only: restoreAllConsumptionsForPurchase_def Let_def prod.inject)
  have id: "pp_id pp = i" using assms(1) unfolding purchase_by_id_def by (rule find_by_key)
  have look: "purchase_by_id (d\<lparr>package_purchases := map (?g k) (package_purchases d)\<rparr>) i
      = map_option (?g k) (purchase_by_id d i)" for d k
    by (simp add: purchase_by_id_def) (rule find_by_map, simp)
  have p1: "purchase_by_id d1 i = Some ?pp" using look [of c d] assms(1) id by (simp add: d1)
  have none: "\<forall>r \<in> set (package_consumptions d1). pc_package_purchase_id r = i \<longrightarrow> \<not> unit_active r"
    unfolding d1 using restored_inactive by blast
  then have a0: "active_units d1 i = 0" by (auto simp: active_units_def filter_empty_conv)
  have void: "pp_voided_at q \<noteq> None" if "q \<in> set (package_purchases d1)" "pp_id q = i" for q
  proof -
    have "package_purchases d1 = map (?g c) (package_purchases d)" by (simp add: d1)
    with that(1) have "q \<in> ?g c ` set (package_purchases d)" by simp
    then obtain p where "q = ?g c p" by (rule imageE)
    with that(2) show ?thesis by (cases "pp_id p = i") simp_all
  qed
  then have closed: "fst (consumePackageUnit c' acc l dur actor' t d1) \<noteq> Consumed i"
  proof -
    have False if "consumePackageUnit c' acc l dur actor' t d1 = (Consumed i, d2)" for d2
      using that by (rule consumePackageUnit_ConsumedE) (use void in \<open>auto simp: package_eligible_def\<close>)
    then show ?thesis by (metis prod.collapse)
  qed
  have again: "restoreAllConsumptionsForPurchase c' i actor' reason' d1 = ((0, True), d1)"
    if "pp_voided_at pp = None"
  proof -
    have stay: "q\<lparr>pp_voided_at := Some (coalesce (pp_voided_at q) (pg_now c'))\<rparr> = q"
      if q: "q \<in> set (package_purchases d1)" "pp_id q = i" for q
      using void [OF q] by (cases "pp_voided_at q") (simp_all add: coalesce_def)
    have same: "map (?g c') (package_purchases d1) = package_purchases d1"
      by (rule map_idI) (simp add: stay)
    have keep: "restore_where c' actor' reason' (\<lambda>r. pc_package_purchase_id r = i) d1 = d1"
    proof -
      have "map (\<lambda>r. if pc_package_purchase_id r = i \<and> unit_active r
               then stamp_restored c' actor' reason' r else r) (package_consumptions d1)
          = package_consumptions d1"
        by (rule map_idI) (use none in auto)
      then show ?thesis by (simp add: restore_where_def)
    qed
    show ?thesis
      using that assms(3) p1 a0 keep
      by (simp add: restoreAllConsumptionsForPurchase_def Let_def same)
  qed
  show ?thesis using n a0 p1 closed again by blast
qed

theorem restoreAllConsumptionsForPurchase_voids_witness:
  "\<exists>n already d1. restoreAllConsumptionsForPurchase sample_clock (uuid_of CHR ''9'') ActorAdmin None sample_db
       = ((n, already), d1)
     \<and> restoreAllConsumptionsForPurchase (sample_clock\<lparr>pg_now := 1767560000000000\<rparr>)
         (uuid_of CHR ''9'') ActorAdmin None d1 = ((0, True), d1)"
proof -
  obtain n already d1 where one: "restoreAllConsumptionsForPurchase sample_clock (uuid_of CHR ''9'')
      ActorAdmin None sample_db = ((n, already), d1)"
    by (metis prod.collapse)
  have look: "purchase_by_id sample_db (uuid_of CHR ''9'') = Some sample_purchase"
    by (simp add: purchase_by_id_def find_by_def sample_defs)
  have "restoreAllConsumptionsForPurchase (sample_clock\<lparr>pg_now := 1767560000000000\<rparr>)
         (uuid_of CHR ''9'') ActorAdmin None d1 = ((0, True), d1)"
    using restoreAllConsumptionsForPurchase_voids
      [OF look one, of "sample_clock\<lparr>pg_now := 1767560000000000\<rparr>" "[]" "[]" 60 ActorAdmin "[]" None]
    by (simp add: sample_purchase_def sample_clock_def)
  with one show ?thesis by (intro exI conjI)
qed

text \<open>
  The gate before a second purchase (\<open>learnerHasActivePackageOfDuration\<close>) and the list
  of active packages agree: the gate is empty exactly when no listed package has the duration
  and the teacher, and otherwise it names a listed one, with its remaining count, that no
  other listed candidate expires before.
\<close>

theorem active_package_gate_agrees:
  "let listed = filter (\<lambda>(pp, _, _). pp_duration_minutes pp = dur
         \<and> (teacherId = None \<or> pp_teacher_id pp = teacherId)) (listAccountActivePackages c acc d)
   in case learnerHasActivePackageOfDuration c acc dur teacherId d of
        None \<Rightarrow> listed = []
      | Some a \<Rightarrow> (\<exists>pp used. (pp, ap_countRemaining a, used) \<in> set listed \<and> pp_id pp = ap_purchaseId a
           \<and> 0 < ap_countRemaining a
           \<and> (\<forall>(q, _, _) \<in> set listed. pp_expires_at pp \<le> pp_expires_at q))"
proof -
  let ?P = "\<lambda>pp. pp_account_id pp = acc \<and> pp_duration_minutes pp = dur \<and> pp_voided_at pp = None
      \<and> pp_expires_at pp > pg_now c \<and> (teacherId = None \<or> pp_teacher_id pp = teacherId)
      \<and> count_remaining d pp > 0"
  let ?before = "\<lambda>p q :: purchase_row. pp_expires_at p < pp_expires_at q"
  let ?listed = "filter (\<lambda>(pp, _, _). pp_duration_minutes pp = dur
         \<and> (teacherId = None \<or> pp_teacher_id pp = teacherId)) (listAccountActivePackages c acc d)"
  have listed: "set ?listed = (\<lambda>pp. (pp, count_remaining d pp, int (active_units d (pp_id pp)))) `
      {pp \<in> set (package_purchases d). ?P pp}"
    by (auto simp: listAccountActivePackages_def)
  show ?thesis
  proof (cases "min_by ?before (filter ?P (package_purchases d))")
    case None
    then have "{pp \<in> set (package_purchases d). ?P pp} = {}" by (auto simp: filter_empty_conv)
    with listed None show ?thesis
      by (simp add: learnerHasActivePackageOfDuration_def Let_def flip: set_empty)
  next
    case (Some pp)
    have mem: "pp \<in> set (filter ?P (package_purchases d))" using Some by (rule min_by_mem)
    have least: "pp_expires_at pp \<le> pp_expires_at q" if "q \<in> set (filter ?P (package_purchases d))" for q
      using min_by_least [OF Some that] by force
    have "(pp, count_remaining d pp, int (active_units d (pp_id pp))) \<in> set ?listed"
      using mem unfolding listed by auto
    moreover have "\<forall>(q, _, _) \<in> set ?listed. pp_expires_at pp \<le> pp_expires_at q"
      using least unfolding listed by auto
    moreover have "0 < count_remaining d pp" using mem by simp
    ultimately show ?thesis
      unfolding learnerHasActivePackageOfDuration_def Let_def Some option.map option.case
      by (intro exI [of _ pp] exI [of _ "int (active_units d (pp_id pp))"] conjI) simp_all
  qed
qed

text \<open>
  A payment order grants at most one purchase: once \<open>createPackagePurchase\<close> has inserted
  the purchase of an order, every replay for that order (whatever id and terms it carries) that
  does not fail on the input itself returns nothing and leaves the state unchanged.
\<close>

theorem createPackagePurchase_once:
  assumes "createPackagePurchase c i input d = Inr (Some row, d1)"
    and "pi_paymentOrderId input' = pi_paymentOrderId input"
    and "createPackagePurchase c' i' input' d1 = Inr (r, d2)"
  shows "r = None \<and> d2 = d1 \<and> purchase_by_id d1 i = Some row
    \<and> pp_payment_order_id row = pi_paymentOrderId input \<and> pp_teacher_id row \<noteq> None"
proof -
  from assms(1) have row: "pp_id row = i" "pp_payment_order_id row = pi_paymentOrderId input"
    "pp_teacher_id row \<noteq> None" "purchase_by_id d i = None"
    and d1: "d1 = d\<lparr>package_purchases := package_purchases d @ [row]\<rparr>"
    by (auto simp: createPackagePurchase_def Let_def split: if_splits)
  have "find_by pp_payment_order_id (pi_paymentOrderId input') (package_purchases d1) \<noteq> None"
    using row(2) assms(2) by (simp add: d1 find_by_None_iff)
  then have "r = None \<and> d2 = d1"
    using assms(3) by (auto simp: createPackagePurchase_def Let_def split: if_splits)
  moreover have "purchase_by_id d1 i = Some row"
    using row(1,4) by (simp add: purchase_by_id_def d1 find_by_snoc)
  ultimately show ?thesis using row by blast
qed

definition sample_purchase_input :: purchase_input where
  "sample_purchase_input =
     \<lparr>pi_accountId = uuid_of CHR ''b'', pi_packageId = uuid_of CHR ''8'', pi_paymentOrderId = js ''lc_2'',
      pi_amountKopecks = 500000, pi_titleSnapshot = [], pi_durationMinutes = 60,
      pi_countInitial = 5, pi_expiresAt = 1783000000000, pi_teacherId = Some (uuid_of CHR ''a'')\<rparr>"

theorem createPackagePurchase_once_witness:
  "\<exists>row d1. createPackagePurchase sample_clock (uuid_of CHR ''7'') sample_purchase_input sample_db
       = Inr (Some row, d1)
     \<and> createPackagePurchase sample_clock (uuid_of CHR ''6'') sample_purchase_input d1 = Inr (None, d1)"
proof -
  have tch: "(case uuid_of CHR ''a'' of [] \<Rightarrow> x | t # ts \<Rightarrow> Some (t # ts)) = Some (uuid_of CHR ''a'')" for x
    by (simp add: uuid_of_def replicate_8)
  have "\<exists>row d1. createPackagePurchase sample_clock (uuid_of CHR ''7'') sample_purchase_input sample_db
       = Inr (Some row, d1)"
    by (simp add: createPackagePurchase_def Let_def sample_purchase_input_def tch purchase_check_def
        purchase_by_id_def find_by_def sample_defs)
  then obtain row d1 where one: "createPackagePurchase sample_clock (uuid_of CHR ''7'')
      sample_purchase_input sample_db = Inr (Some row, d1)" by blast
  have "find_by pp_payment_order_id (js ''lc_2'') (package_purchases d1) \<noteq> None"
    using one by (auto simp: createPackagePurchase_def Let_def sample_purchase_input_def find_by_None_iff
        split: if_splits)
  then have "\<exists>r d2. createPackagePurchase sample_clock (uuid_of CHR ''6'') sample_purchase_input d1 = Inr (r, d2)"
    by (simp add: createPackagePurchase_def Let_def sample_purchase_input_def tch purchase_check_def)
  then obtain r d2 where two: "createPackagePurchase sample_clock (uuid_of CHR ''6'')
      sample_purchase_input d1 = Inr (r, d2)" by blast
  with one createPackagePurchase_once [OF one refl two] show ?thesis by auto
qed

section \<open>Two properties at the sample\<close>

theorem consumePackageUnit_spec_witness:
  "\<exists>pp \<in> set (package_purchases sample_db). pp_id pp = uuid_of CHR ''9''
     \<and> package_eligible sample_clock (uuid_of CHR ''b'') 60 (uuid_of CHR ''a'') sample_db pp"
proof -
  obtain d1 where "consumePackageUnit sample_clock (uuid_of CHR ''b'') (uuid_of CHR ''1'') 60 ActorLearner
      (uuid_of CHR ''a'') sample_db = (Consumed (uuid_of CHR ''9''), d1)"
    using sample_consume by blast
  with consumePackageUnit_spec [where c = sample_clock and acc = "uuid_of CHR ''b''" and l = "uuid_of CHR ''1''"
      and dur = 60 and actor = ActorLearner and t = "uuid_of CHR ''a''" and d = sample_db]
  show ?thesis by auto
qed

theorem active_package_gate_agrees_witness:
  "\<exists>a. learnerHasActivePackageOfDuration sample_clock (uuid_of CHR ''b'') 60 None sample_db = Some a
     \<and> (\<exists>pp used. (pp, ap_countRemaining a, used)
          \<in> set (listAccountActivePackages sample_clock (uuid_of CHR ''b'') sample_db))"
proof -
  have "\<exists>a. learnerHasActivePackageOfDuration sample_clock (uuid_of CHR ''b'') 60 None sample_db = Some a"
    by (simp add: learnerHasActivePackageOfDuration_def count_remaining_def active_units_def sample_defs)
  then obtain a where a: "learnerHasActivePackageOfDuration sample_clock (uuid_of CHR ''b'') 60 None sample_db
      = Some a" by blast
  with active_package_gate_agrees [where c = sample_clock and acc = "uuid_of CHR ''b''" and dur = 60
      and teacherId = None and d = sample_db]
  show ?thesis by (auto simp: Let_def)
qed

end
