(* ===== verification/Paid_State.thy ===== *)
theory Paid_State
  imports Consumption
begin

text \<open>
  Is a lesson paid? \<open>src/lib/billing/paid-state.ts\<close> (allocations of paid orders, and the
  source shown in the teacher's history), \<open>src/lib/billing/packages/debt.ts\<close> (postpaid debt
  of a learner, and its aggregate over all learners) and \<open>src/lib/billing/reversals.ts\<close>
  (refunds of allocations). An allocation counts in full until its refunds reach its amount,
  and then not at all.
\<close>

section \<open>Reversals\<close>

definition same_allocation :: "js_text \<Rightarrow> string \<Rightarrow> string \<Rightarrow> reversal_row \<Rightarrow> bool" where
  "same_allocation order kind target r \<longleftrightarrow>
     rv_payment_order_id r = order \<and> rv_kind r = kind \<and> rv_target_id r = target"

definition allocation_exists :: "js_text \<Rightarrow> string \<Rightarrow> string \<Rightarrow> db \<Rightarrow> bool" where
  "allocation_exists order kind target d \<longleftrightarrow>
     list_ex (\<lambda>a. pa_payment_order_id a = order \<and> pa_kind a = kind \<and> pa_target_id a = target)
       (payment_allocations d)"

definition createAllocationReversal ::
  "clock \<Rightarrow> uuid \<Rightarrow> js_text \<Rightarrow> string \<Rightarrow> string \<Rightarrow> int \<Rightarrow> uuid \<Rightarrow> js_text option \<Rightarrow> millis option
   \<Rightarrow> db \<Rightarrow> reversal_row outcome" where
  "createAllocationReversal c newId paymentOrderId kind targetId refundedKopecks by_account reason
       refundedAt d =
     (let row = \<lparr>rv_id = newId, rv_payment_order_id = paymentOrderId, rv_kind = kind,
                 rv_target_id = targetId,
                 rv_refunded_at = (case refundedAt of None \<Rightarrow> pg_now c | Some t \<Rightarrow> t * us_per_ms),
                 rv_refunded_kopecks = refundedKopecks, rv_refunded_by_account_id = by_account,
                 rv_reason = reason, rv_created_at = pg_now c\<rparr>
      in if refundedKopecks \<le> 0
            \<or> (case reason of None \<Rightarrow> False | Some t \<Rightarrow> sql_char_length t > 500)
         then Inl (PgErr CheckViolation)
         else if find_by rv_id newId (payment_allocation_reversals d) \<noteq> None
         then Inl (PgErr UniqueViolation)
         else if \<not> allocation_exists paymentOrderId kind targetId d
         then Inl (PgErr ForeignKeyViolation)
         else Inr (row, d\<lparr>payment_allocation_reversals := payment_allocation_reversals d @ [row]\<rparr>))"

definition created_before :: "reversal_row \<Rightarrow> reversal_row \<Rightarrow> bool" where
  "created_before a b \<longleftrightarrow> rv_created_at a < rv_created_at b"

definition listReversalsForAllocation :: "js_text \<Rightarrow> string \<Rightarrow> string \<Rightarrow> db \<Rightarrow> reversal_row list" where
  "listReversalsForAllocation order kind target d =
     order_by created_before
       (filter (same_allocation order kind target) (payment_allocation_reversals d))"

definition sumReversalsForAllocation :: "js_text \<Rightarrow> string \<Rightarrow> string \<Rightarrow> db \<Rightarrow> int" where
  "sumReversalsForAllocation order kind target d =
     sum_by rv_refunded_kopecks
       (filter (same_allocation order kind target) (payment_allocation_reversals d))"

definition listReversalsForOrder :: "js_text \<Rightarrow> db \<Rightarrow> reversal_row list" where
  "listReversalsForOrder order d =
     order_by created_before
       (filter (\<lambda>r. rv_payment_order_id r = order) (payment_allocation_reversals d))"

definition clamp_page :: "int option \<Rightarrow> int option \<Rightarrow> nat \<times> nat" where
  "clamp_page limit offset =
     (nat (min (max (coalesce limit 50) 1) 500), nat (max (coalesce offset 0) 0))"

definition listRecentReversals :: "int option \<Rightarrow> int option \<Rightarrow> db \<Rightarrow> reversal_row list" where
  "listRecentReversals limit offset d =
     (case clamp_page limit offset of (n, k) \<Rightarrow>
        take n (drop k (order_by (\<lambda>a b. created_before b a) (payment_allocation_reversals d))))"

section \<open>What an allocation is worth\<close>

definition order_paid :: "db \<Rightarrow> js_text \<Rightarrow> bool" where
  "order_paid d invoice \<longleftrightarrow>
     list_ex (\<lambda>x. po_invoice_id x = invoice \<and> po_status x = ''paid'') (payment_orders d)"

definition allocation_live :: "db \<Rightarrow> allocation_row \<Rightarrow> bool" where
  "allocation_live d a \<longleftrightarrow>
     sumReversalsForAllocation (pa_payment_order_id a) (pa_kind a) (pa_target_id a) d
       < pa_amount_kopecks a"

definition pays_slot :: "db \<Rightarrow> uuid \<Rightarrow> allocation_row \<Rightarrow> bool" where
  "pays_slot d slot a \<longleftrightarrow>
     pa_kind a = ''lesson_slot'' \<and> pa_target_id a = slot
     \<and> order_paid d (pa_payment_order_id a) \<and> allocation_live d a"

record slot_paid_status =
  ps_slotId :: uuid
  ps_expectedAmountKopecks :: "int option"
  ps_paidAmountKopecks :: int
  ps_isPaid :: bool

definition slotIsPaidByAllocations :: "uuid \<Rightarrow> db \<Rightarrow> slot_paid_status option" where
  "slotIsPaidByAllocations slotId d =
     (case slot_by_id d slotId of
        None \<Rightarrow> None
      | Some s \<Rightarrow>
          let expected = coalesce_opt (ls_snapshot_amount_kopecks s)
                (Option.bind (ls_tariff_id s) (\<lambda>t. map_option pt_amount_kopecks (tariff_by_id d t)));
              paid = sum_by (\<lambda>a. if order_paid d (pa_payment_order_id a) \<and> allocation_live d a
                                 then pa_amount_kopecks a else 0)
                       (filter (\<lambda>a. pa_kind a = ''lesson_slot'' \<and> pa_target_id a = ls_id s)
                          (payment_allocations d))
          in Some \<lparr>ps_slotId = ls_id s, ps_expectedAmountKopecks = expected,
                   ps_paidAmountKopecks = paid,
                   ps_isPaid = (case expected of None \<Rightarrow> False | Some e \<Rightarrow> paid \<ge> e)\<rparr>)"

datatype slot_payment_source = PaidPackage | PaidDirect | Unpaid

definition getSlotPaymentSources ::
  "string list \<Rightarrow> db \<Rightarrow> exn + (uuid \<times> slot_payment_source option) list" where
  "getSlotPaymentSources slotIds d =
     (if slotIds = [] then Inr []
      else if list_ex (\<lambda>i. \<not> uuid_pattern i) slotIds then Inl (PgErr InvalidUuidText)
      else Inr (map (\<lambda>s.
             (ls_id s,
              if list_ex (\<lambda>pc. pc_slot_id pc = ls_id s \<and> unit_active pc) (package_consumptions d)
              then Some PaidPackage
              else if list_ex (\<lambda>a. pa_target_id a \<in> set slotIds \<and> pays_slot d (ls_id s) a)
                        (payment_allocations d)
              then Some PaidDirect
              else if ls_status s = Booked then Some Unpaid
              else None))
           (filter (\<lambda>s. ls_id s \<in> pg_uuid ` set slotIds) (lesson_slots d))))"

section \<open>Postpaid debt\<close>

record postpaid_debt_slot =
  pd_slotId :: uuid
  pd_startAt :: millis
  pd_durationMinutes :: int
  pd_status :: slot_status
  pd_tariffId :: "uuid option"
  pd_tariffSlug :: "string option"
  pd_expectedAmountKopecks :: "int option"
  pd_legacyGrandfathered :: bool

definition active_tariff :: "db \<Rightarrow> slot_row \<Rightarrow> tariff_row option" where
  "active_tariff d s =
     Option.bind (ls_tariff_id s) (\<lambda>t.
       (case tariff_by_id d t of
          None \<Rightarrow> None | Some x \<Rightarrow> if pt_is_active x then Some x else None))"

definition debt_expected :: "db \<Rightarrow> slot_row \<Rightarrow> int option" where
  "debt_expected d s =
     coalesce_opt (ls_snapshot_amount_kopecks s) (map_option pt_amount_kopecks (active_tariff d s))"

definition is_debt_slot :: "db \<Rightarrow> slot_row \<Rightarrow> bool" where
  "is_debt_slot d s \<longleftrightarrow>
     completion_of_slot d (ls_id s) \<noteq> None
     \<and> \<not> list_ex (\<lambda>pc. pc_slot_id pc = ls_id s \<and> unit_active pc) (package_consumptions d)
     \<and> \<not> list_ex (pays_slot d (ls_id s)) (payment_allocations d)"

definition debt_slot_row :: "db \<Rightarrow> slot_row \<Rightarrow> postpaid_debt_slot" where
  "debt_slot_row d r =
     \<lparr>pd_slotId = ls_id r, pd_startAt = js_date_via_string (ls_start_at r),
      pd_durationMinutes = ls_duration_minutes r, pd_status = ls_status r,
      pd_tariffId = ls_tariff_id r, pd_tariffSlug = map_option pt_slug (active_tariff d r),
      pd_expectedAmountKopecks = debt_expected d r,
      pd_legacyGrandfathered = ls_legacy_grandfathered r\<rparr>"

definition listAccountPostpaidDebt :: "uuid \<Rightarrow> db \<Rightarrow> postpaid_debt_slot list" where
  "listAccountPostpaidDebt accountId d =
     map (debt_slot_row d)
       (order_by (\<lambda>a b. ls_start_at a > ls_start_at b)
         (filter (\<lambda>s. ls_learner_account_id s = Some accountId \<and> is_debt_slot d s)
            (lesson_slots d)))"

text \<open>The summary carries the oldest start as the query computes it; the projection comes last.\<close>

record debt_summary =
  ds_accountId :: uuid
  ds_totalDebtKopecks :: int
  ds_slotCount :: nat
  ds_slotsWithoutTariff :: nat
  ds_oldestDebtSlotAt :: int

definition debt_summary_of :: "uuid \<Rightarrow> slot_row list \<Rightarrow> db \<Rightarrow> debt_summary" where
  "debt_summary_of accountId slots d =
     \<lparr>ds_accountId = accountId,
      ds_totalDebtKopecks = sum_by (\<lambda>s. coalesce (debt_expected d s) 0) slots,
      ds_slotCount = length slots,
      ds_slotsWithoutTariff = length (filter (\<lambda>s. debt_expected d s = None) slots),
      ds_oldestDebtSlotAt = Min (ls_start_at ` set slots)\<rparr>"

definition debt_slots_of :: "db \<Rightarrow> uuid \<Rightarrow> slot_row list" where
  "debt_slots_of d accountId =
     filter (\<lambda>s. ls_learner_account_id s = Some accountId \<and> is_debt_slot d s) (lesson_slots d)"

definition listAccountsWithPostpaidDebtAggregate :: "int option \<Rightarrow> db \<Rightarrow> debt_summary list" where
  "listAccountsWithPostpaidDebtAggregate minKopecks d =
     map (\<lambda>x. x\<lparr>ds_oldestDebtSlotAt := js_date_via_string (ds_oldestDebtSlotAt x)\<rparr>)
       (order_by (\<lambda>a b. ds_totalDebtKopecks a > ds_totalDebtKopecks b
                   \<or> (ds_totalDebtKopecks a = ds_totalDebtKopecks b
                      \<and> ds_oldestDebtSlotAt a < ds_oldestDebtSlotAt b))
         (filter (\<lambda>x. ds_totalDebtKopecks x \<ge> coalesce minKopecks 0)
           (map (\<lambda>a. debt_summary_of (ac_id a) (debt_slots_of d (ac_id a)) d)
             (filter (\<lambda>a. debt_slots_of d (ac_id a) \<noteq> []) (accounts d)))))"

section \<open>Properties\<close>

text \<open>The CHECK constraints on the amounts of allocations and reversals.\<close>

definition amounts_ok :: "db \<Rightarrow> bool" where
  "amounts_ok d \<longleftrightarrow>
     (\<forall>a \<in> set (payment_allocations d). 0 \<le> pa_amount_kopecks a)
     \<and> (\<forall>r \<in> set (payment_allocation_reversals d). 0 < rv_refunded_kopecks r)"

lemma sum_by_eq_0_iff:
  "(\<And>x. x \<in> set xs \<Longrightarrow> 0 \<le> f x) \<Longrightarrow> sum_by f xs = 0 \<longleftrightarrow> (\<forall>x \<in> set xs. f x = 0)"
proof (induction xs)
  case (Cons x xs)
  then have "0 \<le> f x" "0 \<le> sum_by f xs" by (simp_all add: sum_by_nonneg)
  with Cons show ?case by (auto simp: add_nonneg_eq_0_iff)
qed simp

lemma sumReversals_nonneg: "amounts_ok d \<Longrightarrow> 0 \<le> sumReversalsForAllocation i k t d"
  unfolding sumReversalsForAllocation_def
  by (rule sum_by_nonneg) (auto simp: amounts_ok_def intro: order.strict_implies_order)

lemma list_ex_unit_held:
  assumes "keys_ok d"
  shows "list_ex (\<lambda>pc. pc_slot_id pc = i \<and> unit_active pc) (package_consumptions d) \<longleftrightarrow> held_unit d i \<noteq> None"
proof -
  have dist: "distinct (map pc_slot_id (package_consumptions d))" using assms by (simp add: keys_ok_def)
  have "held_unit d i \<noteq> None \<longleftrightarrow> (\<exists>r. consumption_of_slot d i = Some r \<and> unit_active r)"
    by (auto simp: held_unit_def split: option.splits)
  also have "\<dots> \<longleftrightarrow> (\<exists>r \<in> set (package_consumptions d). pc_slot_id r = i \<and> unit_active r)"
    using find_by_distinct [OF dist] unfolding consumption_of_slot_def by (blast dest: find_by_SomeD)
  finally show ?thesis by (simp add: list_ex_iff)
qed

lemma paid_zero_iff:
  assumes "amounts_ok d" and "slotIsPaidByAllocations i d = Some st"
  shows "ps_paidAmountKopecks st = 0 \<longleftrightarrow> \<not> list_ex (pays_slot d i) (payment_allocations d)"
proof -
  let ?as = "filter (\<lambda>a. pa_kind a = ''lesson_slot'' \<and> pa_target_id a = i) (payment_allocations d)"
  let ?w = "\<lambda>a. if order_paid d (pa_payment_order_id a) \<and> allocation_live d a then pa_amount_kopecks a else 0"
  have st: "ps_paidAmountKopecks st = sum_by ?w ?as"
    using assms(2)
    by (auto simp: slotIsPaidByAllocations_def Let_def split: option.splits dest!: slot_by_id_SomeD)
  have pos: "0 < pa_amount_kopecks a" if "allocation_live d a" for a
    using that sumReversals_nonneg [OF assms(1), of "pa_payment_order_id a" "pa_kind a" "pa_target_id a"]
    by (simp add: allocation_live_def)
  have "sum_by ?w ?as = 0 \<longleftrightarrow> (\<forall>a \<in> set ?as. ?w a = 0)"
    by (rule sum_by_eq_0_iff) (use assms(1) in \<open>auto simp: amounts_ok_def\<close>)
  with pos show ?thesis unfolding st list_ex_iff pays_slot_def by force
qed

text \<open>
  A lesson is in its learner's postpaid debt exactly when it has a completion, holds no
  package unit, and live allocations of paid orders cover none of it. So the debt list and
  \<open>slotIsPaidByAllocations\<close> never contradict each other on a lesson that is paid in full, and
  they differ (neither in debt nor paid) exactly on a lesson covered in part.
\<close>

theorem debt_iff_nothing_paid:
  assumes "keys_ok d" and "amounts_ok d" and "slot_by_id d i = Some s"
    and "slotIsPaidByAllocations i d = Some st"
  shows "(is_debt_slot d s \<longleftrightarrow>
            completion_of_slot d i \<noteq> None \<and> held_unit d i = None \<and> ps_paidAmountKopecks st = 0)
    \<and> (ps_isPaid st \<and> ps_expectedAmountKopecks st = Some e \<and> 0 < e \<longrightarrow> \<not> is_debt_slot d s)
    \<and> (0 < ps_paidAmountKopecks st \<and> ps_expectedAmountKopecks st = Some e
        \<and> ps_paidAmountKopecks st < e \<longrightarrow> \<not> is_debt_slot d s \<and> \<not> ps_isPaid st)"
proof -
  have id: "ls_id s = i" using slot_by_id_SomeD [OF assms(3)] by blast
  have iff: "is_debt_slot d s \<longleftrightarrow>
      completion_of_slot d i \<noteq> None \<and> held_unit d i = None \<and> ps_paidAmountKopecks st = 0"
    unfolding is_debt_slot_def id paid_zero_iff [OF assms(2,4)] list_ex_unit_held [OF assms(1)] by simp
  have paid: "ps_isPaid st \<longleftrightarrow> (case ps_expectedAmountKopecks st of None \<Rightarrow> False
      | Some e \<Rightarrow> ps_paidAmountKopecks st \<ge> e)"
    using assms(4) by (auto simp: slotIsPaidByAllocations_def Let_def split: option.splits)
  show ?thesis unfolding iff paid by auto
qed

text \<open>
  A lesson of 1500 roubles with a live allocation of 1 kopeck on a paid order: completed, not
  paid, and not in the debt list.
\<close>

definition sample_partly_paid :: db where
  "sample_partly_paid =
     sample_db\<lparr>lesson_slots := [sample_slot\<lparr>ls_status := Completed\<rparr>],
       lesson_completions :=
         [\<lparr>lc_id = uuid_of CHR ''5'', lc_slot_id = uuid_of CHR ''1'', lc_teacher_id = uuid_of CHR ''a'',
           lc_was_no_show = False, lc_amount_kopecks = 150000, lc_completed_at = 0,
           lc_immutable_at = None, lc_marked_by_account_id = None, lc_created_at = 0\<rparr>],
       payment_orders :=
         [\<lparr>po_invoice_id = js ''lc_3'', po_status = ''paid'', po_meta_account_id = None,
           po_meta_package_slug = None, po_meta_package_duration = None,
           po_teacher_account_id = uuid_of CHR ''a'', po_created_at = 0\<rparr>],
       payment_allocations :=
         [\<lparr>pa_payment_order_id = js ''lc_3'', pa_kind = ''lesson_slot'',
           pa_target_id = uuid_of CHR ''1'', pa_amount_kopecks = 1\<rparr>]\<rparr>"

theorem debt_iff_nothing_paid_witness:
  "\<exists>s st. slot_by_id sample_partly_paid (uuid_of CHR ''1'') = Some s
     \<and> slotIsPaidByAllocations (uuid_of CHR ''1'') sample_partly_paid = Some st
     \<and> \<not> is_debt_slot sample_partly_paid s \<and> \<not> ps_isPaid st"
proof -
  let ?i = "uuid_of CHR ''1''" and ?d = sample_partly_paid
  have keys: "keys_ok ?d" and am: "amounts_ok ?d"
    by (simp_all add: keys_ok_def amounts_ok_def sample_partly_paid_def sample_defs)
  have s: "slot_by_id ?d ?i = Some (sample_slot\<lparr>ls_status := Completed\<rparr>)"
    by (simp add: slot_by_id_def find_by_def sample_partly_paid_def sample_slot_def)
  have "slotIsPaidByAllocations ?i ?d = Some \<lparr>ps_slotId = ?i, ps_expectedAmountKopecks = Some 150000,
      ps_paidAmountKopecks = 1, ps_isPaid = False\<rparr>"
    unfolding slotIsPaidByAllocations_def s
    by (simp add: sample_partly_paid_def sample_defs order_paid_def allocation_live_def
        sumReversalsForAllocation_def)
  from s this debt_iff_nothing_paid [OF keys am s this, of 150000] show ?thesis
    by (intro exI conjI) (assumption, assumption, simp_all)
qed

lemma js_date_via_string_mono: "mono js_date_via_string"
  by (rule monoI) (simp add: js_date_via_string_def js_date_def us_per_ms_def zdiv_mono1)

definition debt_total :: "uuid \<Rightarrow> db \<Rightarrow> int" where
  "debt_total acc d =
     sum_by (\<lambda>p. coalesce (pd_expectedAmountKopecks p) 0) (listAccountPostpaidDebt acc d)"

text \<open>
  The admin aggregate is the roll-up of the per-learner debt lists: a learner appears in it
  exactly when the account exists, its own list is not empty and its total reaches the
  threshold, and then the total, the counts and the oldest start are those of its own list.
\<close>

theorem debt_aggregate_rolls_up:
  "((\<exists>x \<in> set (listAccountsWithPostpaidDebtAggregate m d). ds_accountId x = acc) \<longleftrightarrow>
       acc \<in> ac_id ` set (accounts d) \<and> listAccountPostpaidDebt acc d \<noteq> [] \<and> coalesce m 0 \<le> debt_total acc d)
    \<and> (\<forall>x \<in> set (listAccountsWithPostpaidDebtAggregate m d). ds_accountId x = acc \<longrightarrow>
         ds_totalDebtKopecks x = debt_total acc d
         \<and> ds_slotCount x = length (listAccountPostpaidDebt acc d)
         \<and> ds_slotsWithoutTariff x = length (filter (\<lambda>p. pd_expectedAmountKopecks p = None) (listAccountPostpaidDebt acc d))
         \<and> ds_oldestDebtSlotAt x = Min (pd_startAt ` set (listAccountPostpaidDebt acc d)))"
proof -
  let ?slots = "debt_slots_of d"
  let ?proj = "\<lambda>x :: debt_summary. x\<lparr>ds_oldestDebtSlotAt := js_date_via_string (ds_oldestDebtSlotAt x)\<rparr>"
  have row: "pd_expectedAmountKopecks \<circ> debt_slot_row d = debt_expected d"
    "pd_startAt \<circ> debt_slot_row d = js_date_via_string \<circ> ls_start_at"
    by (simp_all add: fun_eq_iff debt_slot_row_def)
  have debt: "listAccountPostpaidDebt acc d = map (debt_slot_row d) (order_by (\<lambda>a b. ls_start_at a > ls_start_at b) (?slots acc))"
    for acc by (simp add: listAccountPostpaidDebt_def debt_slots_of_def)
  have tot: "debt_total acc d = sum_by (\<lambda>s. coalesce (debt_expected d s) 0) (?slots acc)" for acc
  proof -
    have "debt_total acc d = sum_list (map (\<lambda>s. coalesce (debt_expected d s) 0)
        (order_by (\<lambda>a b. ls_start_at a > ls_start_at b) (?slots acc)))"
      unfolding debt_total_def debt
      by (simp add: sum_by_def comp_def debt_slot_row_def)
    then show ?thesis by (simp add: sum_list_order_by sum_by_def)
  qed
  have nil: "listAccountPostpaidDebt acc d = [] \<longleftrightarrow> ?slots acc = []" for acc by (simp add: debt)
  have len: "length (listAccountPostpaidDebt acc d) = length (?slots acc)" for acc by (simp add: debt)
  have without: "length (filter (\<lambda>p. pd_expectedAmountKopecks p = None) (listAccountPostpaidDebt acc d))
      = length (filter (\<lambda>s. debt_expected d s = None) (?slots acc))" for acc
    by (simp add: debt filter_map comp_def debt_slot_row_def length_filter_order_by)
  have oldest: "Min (pd_startAt ` set (listAccountPostpaidDebt acc d)) = js_date_via_string (Min (ls_start_at ` set (?slots acc)))"
    if "?slots acc \<noteq> []" for acc
    using that mono_Min_commute [OF js_date_via_string_mono, of "ls_start_at ` set (?slots acc)"]
    by (simp add: debt image_image debt_slot_row_def)
  have agg: "set (listAccountsWithPostpaidDebtAggregate m d) =
      (\<lambda>a. ?proj (debt_summary_of (ac_id a) (?slots (ac_id a)) d)) `
        {a \<in> set (accounts d). ?slots (ac_id a) \<noteq> [] \<and> coalesce m 0 \<le> debt_total (ac_id a) d}"
  proof -
    have "ds_totalDebtKopecks (debt_summary_of acc (?slots acc) d) = debt_total acc d" for acc
      by (simp add: debt_summary_of_def tot)
    then show ?thesis
      unfolding listAccountsWithPostpaidDebtAggregate_def filter_map set_map set_order_by image_image
        set_filter comp_def by (simp add: conj_ac)
  qed
  show ?thesis
    unfolding agg nil len without by (auto simp: debt_summary_of_def tot oldest)
qed

text \<open>
  Refunds accumulate per allocation. Recording a reversal adds exactly its amount to the
  refunded sum of its own allocation and of no other, so the allocation stops counting as a
  payment at the reversal that brings the sum up to its amount, and not before.
\<close>

theorem reversal_accumulates:
  assumes "createAllocationReversal c i ord kind target k actor reason refundedAt d = Inr (row, d')"
  shows "0 < k
    \<and> sumReversalsForAllocation ord' kind' target' d' =
        sumReversalsForAllocation ord' kind' target' d
          + (if ord' = ord \<and> kind' = kind \<and> target' = target then k else 0)
    \<and> (pa_payment_order_id a = ord \<and> pa_kind a = kind \<and> pa_target_id a = target \<longrightarrow>
         (allocation_live d' a \<longleftrightarrow> sumReversalsForAllocation ord kind target d + k < pa_amount_kopecks a))
    \<and> listReversalsForAllocation ord kind target d' \<noteq> []"
proof -
  from assms have k: "0 < k" and row: "rv_payment_order_id row = ord" "rv_kind row = kind"
    "rv_target_id row = target" "rv_refunded_kopecks row = k"
    and d': "d' = d\<lparr>payment_allocation_reversals := payment_allocation_reversals d @ [row]\<rparr>"
    by (auto simp: createAllocationReversal_def Let_def split: if_splits)
  have sum: "sumReversalsForAllocation ord' kind' target' d' =
        sumReversalsForAllocation ord' kind' target' d
          + (if ord' = ord \<and> kind' = kind \<and> target' = target then k else 0)" for ord' kind' target'
    using row by (auto simp: sumReversalsForAllocation_def d' same_allocation_def)
  have "listReversalsForAllocation ord kind target d' \<noteq> []"
    using row by (simp add: listReversalsForAllocation_def d' same_allocation_def)
  then show ?thesis using k by (auto simp: sum allocation_live_def)
qed

theorem reversal_accumulates_witness:
  "\<exists>row d'. createAllocationReversal sample_clock (uuid_of CHR ''2'') (js ''lc_3'') ''lesson_slot''
       (uuid_of CHR ''1'') 1 (uuid_of CHR ''c'') None None sample_partly_paid = Inr (row, d')
     \<and> sumReversalsForAllocation (js ''lc_3'') ''lesson_slot'' (uuid_of CHR ''1'') d' = 1"
proof -
  have "\<exists>row d'. createAllocationReversal sample_clock (uuid_of CHR ''2'') (js ''lc_3'') ''lesson_slot''
       (uuid_of CHR ''1'') 1 (uuid_of CHR ''c'') None None sample_partly_paid = Inr (row, d')"
    by (simp add: createAllocationReversal_def Let_def allocation_exists_def find_by_def
        sample_partly_paid_def sample_db_def empty_db_def)
  then obtain row d' where ok: "createAllocationReversal sample_clock (uuid_of CHR ''2'') (js ''lc_3'')
      ''lesson_slot'' (uuid_of CHR ''1'') 1 (uuid_of CHR ''c'') None None sample_partly_paid
      = Inr (row, d')" by blast
  have "sumReversalsForAllocation (js ''lc_3'') ''lesson_slot'' (uuid_of CHR ''1'') sample_partly_paid = 0"
    by (simp add: sumReversalsForAllocation_def sample_partly_paid_def sample_db_def empty_db_def)
  with ok reversal_accumulates [OF ok, of "js ''lc_3''" "''lesson_slot''" "uuid_of CHR ''1''"]
  show ?thesis by auto
qed

text \<open>The same lesson without the allocation, and the account of its learner.\<close>

definition sample_unpaid :: db where
  "sample_unpaid = sample_partly_paid\<lparr>payment_allocations := [],
     accounts := [\<lparr>ac_id = uuid_of CHR ''b'', ac_teacher_cancel_window_minutes = 1440\<rparr>]\<rparr>"

theorem debt_aggregate_rolls_up_witness:
  "\<exists>x \<in> set (listAccountsWithPostpaidDebtAggregate None sample_unpaid).
     ds_accountId x = uuid_of CHR ''b'' \<and> ds_totalDebtKopecks x = 150000"
proof -
  let ?b = "uuid_of CHR ''b''"
  have debt: "listAccountPostpaidDebt ?b sample_unpaid = [debt_slot_row sample_unpaid (sample_slot\<lparr>ls_status := Completed\<rparr>)]"
    by (simp add: listAccountPostpaidDebt_def is_debt_slot_def completion_of_slot_def find_by_def
        sample_unpaid_def sample_partly_paid_def sample_defs)
  have "debt_total ?b sample_unpaid = 150000"
    unfolding debt_total_def debt by (simp add: debt_slot_row_def debt_expected_def sample_slot_def)
  moreover have "?b \<in> ac_id ` set (accounts sample_unpaid)" by (simp add: sample_unpaid_def)
  ultimately show ?thesis
    using debt_aggregate_rolls_up [where m = None and acc = ?b and d = sample_unpaid] debt by force
qed

end
