(* ===== verification/Ledger.thy ===== *)
theory Ledger
  imports Paid_State
begin

text \<open>
  The teacher's ledger: \<open>src/lib/teacher-ledger/mark-lesson-completed.ts\<close> (the one writer of
  completions) and \<open>src/lib/teacher-ledger/settle-lessons.ts\<close> (money the learner paid outside
  the platform, spread over the outstanding completions). The loop over the candidates is
  \<open>settle_loop\<close>; \<open>waterfall\<close> is the closed form it is proved equal to.
\<close>

section \<open>Marking a lesson completed\<close>

record mark_params =
  mp_slotId :: uuid
  mp_teacherId :: uuid
  mp_wasNoShow :: bool
  mp_markedByAccountId :: "uuid option"

record mark_result =
  mr_completionId :: uuid
  mr_created :: bool

definition lesson_end_ms :: "slot_row \<Rightarrow> millis" where
  "lesson_end_ms slot =
     js_date_via_string (ls_start_at slot) + ls_duration_minutes slot * ms_per_minute"

definition mark_eligibility :: "clock \<Rightarrow> mark_params \<Rightarrow> slot_row \<Rightarrow> eligibility_reason option" where
  "mark_eligibility c params slot =
     (if ls_status slot \<noteq> Booked then Some NotBooked
      else if \<not> lesson_end_ms slot \<le> js_now c then Some NotYetEnded
      else if ls_snapshot_amount_kopecks slot = None \<and> ls_tariff_id slot \<noteq> None
      then Some MissingSnapshot
      else None)"

definition mark_insert :: "clock \<Rightarrow> uuid \<Rightarrow> mark_params \<Rightarrow> slot_row \<Rightarrow> db \<Rightarrow> mark_result outcome" where
  "mark_insert c newId params slot d =
     bindR (pg_insert_completion_or_skip c
              \<lparr>lc_id = newId, lc_slot_id = mp_slotId params, lc_teacher_id = mp_teacherId params,
               lc_was_no_show = mp_wasNoShow params,
               lc_amount_kopecks = coalesce (ls_snapshot_amount_kopecks slot) 0,
               lc_completed_at = lesson_end_ms slot * us_per_ms, lc_immutable_at = None,
               lc_marked_by_account_id = mp_markedByAccountId params, lc_created_at = pg_now c\<rparr> d)
       (\<lambda>(inserted, d1).
          case inserted of
            Some row \<Rightarrow> Inr (\<lparr>mr_completionId = lc_id row, mr_created = True\<rparr>, d1)
          | None \<Rightarrow>
              (case completion_of_slot d1 (mp_slotId params) of
                 None \<Rightarrow> Inl (LessonCompletionEligibilityError SlotNotFound)
               | Some existing \<Rightarrow>
                   Inr (\<lparr>mr_completionId = lc_id existing, mr_created = False\<rparr>, d1)))"

definition markLessonCompleted :: "clock \<Rightarrow> uuid \<Rightarrow> mark_params \<Rightarrow> db \<Rightarrow> mark_result outcome" where
  "markLessonCompleted c newId params d =
     (case slot_by_id d (mp_slotId params) of
        None \<Rightarrow> Inl (LessonCompletionEligibilityError SlotNotFound)
      | Some slot \<Rightarrow>
          if ls_teacher_account_id slot \<noteq> mp_teacherId params
          then Inl (LessonCompletionEligibilityError WrongTeacher)
          else if ls_status slot \<in> {Completed, NoShowLearner} then
            (case completion_of_slot d (mp_slotId params) of
               Some existing \<Rightarrow> Inr (\<lparr>mr_completionId = lc_id existing, mr_created = False\<rparr>, d)
             | None \<Rightarrow> Inl (LessonCompletionEligibilityError NotBooked))
          else case mark_eligibility c params slot of
            Some reason \<Rightarrow> Inl (LessonCompletionEligibilityError reason)
          | None \<Rightarrow> mark_insert c newId params slot d)"

section \<open>Settling\<close>

record settle_params =
  sp_learnerId :: uuid
  sp_teacherId :: uuid
  sp_completionIds :: "string list option"
  sp_markedByAccountId :: "uuid option"

record settle_result =
  sr_settlementId :: uuid
  sr_coveredCompletionIds :: "uuid list"
  sr_allocatedKopecks :: int
  sr_unallocatedKopecks :: int

definition completed_before :: "completion_row \<Rightarrow> completion_row \<Rightarrow> bool" where
  "completed_before a b \<longleftrightarrow>
     lc_completed_at a < lc_completed_at b
     \<or> (lc_completed_at a = lc_completed_at b \<and> lc_id a < lc_id b)"

definition explicit_ids :: "settle_params \<Rightarrow> string list" where
  "explicit_ids params = coalesce (sp_completionIds params) []"

definition settle_candidates :: "settle_params \<Rightarrow> db \<Rightarrow> completion_row list" where
  "settle_candidates params d =
     order_by completed_before
       (filter (\<lambda>lc. lc_teacher_id lc = sp_teacherId params
            \<and> (case slot_by_id d (lc_slot_id lc) of
                 None \<Rightarrow> False
               | Some s \<Rightarrow> ls_learner_account_id s = Some (sp_learnerId params))
            \<and> (explicit_ids params = [] \<or> lc_id lc \<in> pg_uuid ` set (explicit_ids params))
            \<and> covered d (lc_id lc) < lc_amount_kopecks lc)
          (lesson_completions d))"

text \<open>\<open>insert .. on conflict (settlement_id, completion_id) do update set amount = amount + ..\<close>\<close>

fun upsert_coverage :: "uuid \<Rightarrow> uuid \<Rightarrow> int \<Rightarrow> coverage_row list \<Rightarrow> coverage_row list" where
  "upsert_coverage settlementId completionId k [] =
     [\<lparr>sc_settlement_id = settlementId, sc_completion_id = completionId, sc_amount_kopecks = k\<rparr>]"
| "upsert_coverage settlementId completionId k (x # xs) =
     (if sc_settlement_id x = settlementId \<and> sc_completion_id x = completionId
      then x\<lparr>sc_amount_kopecks := sc_amount_kopecks x + k\<rparr> # xs
      else x # upsert_coverage settlementId completionId k xs)"

text \<open>The loop over the candidates, each with the coverage the query reported for it.\<close>

fun settle_loop ::
  "uuid \<Rightarrow> (completion_row \<times> int) list \<Rightarrow> int \<Rightarrow> uuid list \<Rightarrow> coverage_row list
   \<Rightarrow> int \<times> uuid list \<times> coverage_row list" where
  "settle_loop settlementId [] budget ids rows = (budget, ids, rows)"
| "settle_loop settlementId ((lc, cov) # rest) budget ids rows =
     (if budget \<le> 0 then (budget, ids, rows)
      else
        let remaining = max 0 (lc_amount_kopecks lc - cov) in
        if remaining \<le> 0 then settle_loop settlementId rest budget ids rows
        else
          let allocation = min remaining budget in
          if allocation \<le> 0 then settle_loop settlementId rest budget ids rows
          else settle_loop settlementId rest (budget - allocation) (ids @ [lc_id lc])
                 (upsert_coverage settlementId (lc_id lc) allocation rows))"

definition max_int4 :: int where "max_int4 = 2147483647"

definition settleLessonsInTx :: "uuid \<Rightarrow> settle_params \<Rightarrow> int \<Rightarrow> db \<Rightarrow> settle_result outcome" where
  "settleLessonsInTx newId params amountKopecks d =
     (if list_ex (\<lambda>i. \<not> uuid_pattern i) (explicit_ids params) then Inl (PgErr InvalidUuidText)
      else
        let candidates = settle_candidates params d;
            missing = filter (\<lambda>i. i \<notin> lc_id ` set candidates) (explicit_ids params)
        in case missing of
             i # _ \<Rightarrow> Inl (SettleLessonsError ''completion_not_eligible'' (Some i))
           | [] \<Rightarrow>
               if amountKopecks > max_int4 then Inl (PgErr (RaisedException ''22003''))
               else if amountKopecks \<le> 0 then Inl (PgErr CheckViolation)
               else if find_by st_id newId (lesson_settlements d) \<noteq> None
               then Inl (PgErr UniqueViolation)
               else
                 (case settle_loop newId (map (\<lambda>lc. (lc, covered d (lc_id lc))) candidates)
                         amountKopecks [] (lesson_settlement_completions d) of
                    (budget, ids, rows) \<Rightarrow>
                      Inr (\<lparr>sr_settlementId = newId, sr_coveredCompletionIds = ids,
                            sr_allocatedKopecks = amountKopecks - budget,
                            sr_unallocatedKopecks = budget\<rparr>,
                           d\<lparr>lesson_settlements := lesson_settlements d @
                               [\<lparr>st_id = newId, st_learner_account_id = sp_learnerId params,
                                 st_teacher_id = sp_teacherId params,
                                 st_amount_kopecks = amountKopecks,
                                 st_marked_by_account_id = sp_markedByAccountId params\<rparr>],
                             lesson_settlement_completions := rows\<rparr>)))"

definition settleLessons :: "uuid \<Rightarrow> settle_params \<Rightarrow> js_num \<Rightarrow> db \<Rightarrow> settle_result outcome" where
  "settleLessons newId params amountKopecks d =
     (case amountKopecks of
        JsNonInt \<Rightarrow> Inl (SettleLessonsError ''invalid_amount'' None)
      | JsInt k \<Rightarrow>
          if k \<le> 0 then Inl (SettleLessonsError ''invalid_amount'' None)
          else settleLessonsInTx newId params k d)"

section \<open>The closed form of the loop\<close>

definition due :: "completion_row \<times> int \<Rightarrow> int" where
  "due x = lc_amount_kopecks (fst x) - snd x"

fun waterfall :: "(completion_row \<times> int) list \<Rightarrow> int \<Rightarrow> uuid \<Rightarrow> int" where
  "waterfall [] b i = 0"
| "waterfall (x # xs) b i =
     (if lc_id (fst x) = i then min (due x) b else 0) + waterfall xs (max 0 (b - due x)) i"

definition coverage_of :: "coverage_row list \<Rightarrow> uuid \<Rightarrow> int" where
  "coverage_of rows i = sum_by sc_amount_kopecks (filter (\<lambda>x. sc_completion_id x = i) rows)"

lemma covered_eq: "covered d i = coverage_of (lesson_settlement_completions d) i"
  by (simp add: covered_def coverage_of_def)

lemma coverage_of_upsert:
  "coverage_of (upsert_coverage s ci k rows) i = coverage_of rows i + (if ci = i then k else 0)"
  by (induction rows) (auto simp: coverage_of_def)

lemma waterfall_no_budget: "\<forall>x \<in> set xs. 0 < due x \<Longrightarrow> waterfall xs 0 i = 0"
  by (induction xs) auto

lemma sum_due_nonneg: "\<forall>x \<in> set xs. 0 < due x \<Longrightarrow> 0 \<le> sum_by due xs"
  by (rule sum_by_nonneg) (auto intro: order.strict_implies_order)

lemma settle_loop_waterfall:
  assumes "settle_loop s xs b ids rows = (b', ids', rows')" and "0 \<le> b" and "\<forall>x \<in> set xs. 0 < due x"
  shows "b' = max 0 (b - sum_by due xs)
    \<and> coverage_of rows' i = coverage_of rows i + waterfall xs b i"
  using assms
proof (induction xs arbitrary: b ids rows)
  case Nil
  then show ?case by simp
next
  case (Cons x rest)
  have pos: "0 < due x" "\<forall>x \<in> set rest. 0 < due x" using Cons.prems(3) by simp_all
  note rest0 = sum_due_nonneg [OF pos(2)]
  obtain lc cov where x: "x = (lc, cov)" by (cases x)
  show ?case
  proof (cases "b \<le> 0")
    case True
    with Cons.prems pos rest0 show ?thesis by (simp add: waterfall_no_budget x)
  next
    case False
    let ?a = "min (due x) b"
    have a: "\<not> ?a \<le> 0" "max 0 (lc_amount_kopecks lc - cov) = due x"
      using False pos by (simp_all add: due_def x min_def)
    have loop: "settle_loop s rest (b - ?a) (ids @ [lc_id lc])
        (upsert_coverage s (lc_id lc) ?a rows) = (b', ids', rows')"
      using Cons.prems(1) False a pos(1) by (auto simp: Let_def x split: if_splits)
    have IH: "b' = max 0 ((b - ?a) - sum_by due rest)
        \<and> coverage_of rows' i = coverage_of (upsert_coverage s (lc_id lc) ?a rows) i
            + waterfall rest (b - ?a) i"
      by (rule Cons.IH [OF loop _ pos(2)]) simp
    have "max 0 (b - due x) = b - ?a" by auto
    with IH rest0 show ?thesis by (auto simp: coverage_of_upsert x)
  qed
qed

lemma waterfall_absent: "i \<notin> (lc_id \<circ> fst) ` set xs \<Longrightarrow> waterfall xs b i = 0"
  by (induction xs arbitrary: b) auto

text \<open>The share of the candidate at position \<open>k\<close>: what the ones before it leave.\<close>

lemma waterfall_nth:
  assumes "distinct (map (lc_id \<circ> fst) xs)" and "\<forall>x \<in> set xs. 0 < due x" and "k < length xs" and "0 \<le> b"
  shows "waterfall xs b (lc_id (fst (xs ! k))) = min (due (xs ! k)) (max 0 (b - sum_by due (take k xs)))"
  using assms
proof (induction xs arbitrary: k b)
  case Nil
  then show ?case by simp
next
  case (Cons x xs)
  have pos: "0 < due x" "\<forall>x \<in> set xs. 0 < due x" using Cons.prems(2) by simp_all
  show ?case
  proof (cases k)
    case 0
    with Cons.prems have "waterfall xs (max 0 (b - due x)) (lc_id (fst x)) = 0"
      by (intro waterfall_absent) auto
    with 0 Cons.prems show ?thesis by simp
  next
    case (Suc j)
    then have j: "j < length xs" using Cons.prems(3) by simp
    then have "lc_id (fst (xs ! j)) \<in> (lc_id \<circ> fst) ` set xs" by (simp add: image_iff) (metis nth_mem)
    then have "lc_id (fst x) \<noteq> lc_id (fst (xs ! j))" using Cons.prems(1) by (simp add: comp_def) metis
    moreover have "0 \<le> sum_by due (take j xs)"
      by (rule sum_due_nonneg) (use pos(2) in \<open>auto dest: in_set_takeD\<close>)
    moreover have "waterfall xs (max 0 (b - due x)) (lc_id (fst (xs ! j)))
        = min (due (xs ! j)) (max 0 (max 0 (b - due x) - sum_by due (take j xs)))"
      by (rule Cons.IH) (use Cons.prems(1) pos(2) j in auto)
    ultimately show ?thesis using Suc by (auto simp: max_def)
  qed
qed

section \<open>The ledger is kept\<close>

lemma settle_candidates_mem:
  "lc \<in> set (settle_candidates params d) \<Longrightarrow>
   lc \<in> set (lesson_completions d) \<and> covered d (lc_id lc) < lc_amount_kopecks lc
   \<and> lc_teacher_id lc = sp_teacherId params"
  by (auto simp: settle_candidates_def)

lemma settle_candidates_distinct:
  "keys_ok d \<Longrightarrow> distinct (map lc_id (settle_candidates params d))"
  by (simp add: settle_candidates_def keys_ok_def distinct_map_filter)

abbreviation with_coverage :: "db \<Rightarrow> completion_row list \<Rightarrow> (completion_row \<times> int) list" where
  "with_coverage d cs \<equiv> map (\<lambda>lc. (lc, covered d (lc_id lc))) cs"

lemma settleLessonsInTx_InrE:
  assumes "settleLessonsInTx i params k d = Inr (r, d')"
  obtains ids rows where "0 < k" and "find_by st_id i (lesson_settlements d) = None"
    and "\<forall>j \<in> set (explicit_ids params). j \<in> lc_id ` set (settle_candidates params d)"
    and "settle_loop i (with_coverage d (settle_candidates params d)) k []
           (lesson_settlement_completions d) = (sr_unallocatedKopecks r, ids, rows)"
    and "sr_allocatedKopecks r = k - sr_unallocatedKopecks r" and "sr_coveredCompletionIds r = ids"
    and "d' = d\<lparr>lesson_settlements := lesson_settlements d @
           [\<lparr>st_id = i, st_learner_account_id = sp_learnerId params,
             st_teacher_id = sp_teacherId params, st_amount_kopecks = k,
             st_marked_by_account_id = sp_markedByAccountId params\<rparr>],
           lesson_settlement_completions := rows\<rparr>"
  using assms
  by (auto simp: settleLessonsInTx_def Let_def filter_empty_conv split: if_splits list.splits prod.splits)

lemma due_candidates:
  "x \<in> set (with_coverage d (settle_candidates params d)) \<Longrightarrow> 0 < due x"
  by (auto simp: due_def dest: settle_candidates_mem)

lemma settle_covered:
  assumes "settleLessonsInTx i params k d = Inr (r, d')"
  shows "covered d' j = covered d j + waterfall (with_coverage d (settle_candidates params d)) k j"
    and "sr_unallocatedKopecks r = max 0 (k - sum_by due (with_coverage d (settle_candidates params d)))"
proof -
  obtain ids rows where k: "0 < k"
    and loop: "settle_loop i (with_coverage d (settle_candidates params d)) k []
           (lesson_settlement_completions d) = (sr_unallocatedKopecks r, ids, rows)"
    and rows: "lesson_settlement_completions d' = rows"
    using assms by (rule settleLessonsInTx_InrE) simp
  have pos: "\<forall>x \<in> set (with_coverage d (settle_candidates params d)). 0 < due x"
    using due_candidates by blast
  note w = settle_loop_waterfall [OF loop _ pos, of j]
  show "covered d' j = covered d j + waterfall (with_coverage d (settle_candidates params d)) k j"
    using w k rows by (simp add: covered_eq)
  show "sr_unallocatedKopecks r = max 0 (k - sum_by due (with_coverage d (settle_candidates params d)))"
    using w k by simp
qed

lemma upsert_coverage_rows:
  "x \<in> set (upsert_coverage s ci k rows) \<Longrightarrow>
   (\<exists>y \<in> set rows. sc_completion_id x = sc_completion_id y
      \<and> (sc_amount_kopecks x = sc_amount_kopecks y \<or> sc_amount_kopecks x = sc_amount_kopecks y + k))
   \<or> sc_completion_id x = ci \<and> sc_amount_kopecks x = k"
  by (induction rows) (auto split: if_splits)

lemma settle_loop_rows:
  assumes "settle_loop s xs b ids rows = (b', ids', rows')"
    and "\<forall>x \<in> set rows. 0 < sc_amount_kopecks x \<and> sc_completion_id x \<in> K"
    and "(lc_id \<circ> fst) ` set xs \<subseteq> K"
  shows "\<forall>x \<in> set rows'. 0 < sc_amount_kopecks x \<and> sc_completion_id x \<in> K"
  using assms
proof (induction xs arbitrary: b ids rows)
  case Nil
  then show ?case by simp
next
  case (Cons x rest)
  obtain lc cov where x: "x = (lc, cov)" by (cases x)
  let ?a = "min (max 0 (lc_amount_kopecks lc - cov)) b"
  show ?case
  proof (cases "0 < ?a")
    case False
    with Cons.prems x have "settle_loop s rest b ids rows = (b', ids', rows') \<or> rows' = rows"
      by (auto simp: Let_def split: if_splits)
    with Cons x show ?thesis by auto
  next
    case True
    with Cons.prems x have loop: "settle_loop s rest (b - ?a) (ids @ [lc_id lc])
        (upsert_coverage s (lc_id lc) ?a rows) = (b', ids', rows')"
      by (auto simp: Let_def split: if_splits)
    have "\<forall>x \<in> set (upsert_coverage s (lc_id lc) ?a rows). 0 < sc_amount_kopecks x \<and> sc_completion_id x \<in> K"
    proof
      fix z
      assume "z \<in> set (upsert_coverage s (lc_id lc) ?a rows)"
      from upsert_coverage_rows [OF this] show "0 < sc_amount_kopecks z \<and> sc_completion_id z \<in> K"
        using Cons.prems(2,3) True x by fastforce
    qed
    with Cons.IH [OF loop] Cons.prems(3) show ?thesis by simp
  qed
qed

lemma coverage_ok_settle:
  assumes inv: "ledger_inv d" and ok: "settleLessonsInTx i params k d = Inr (r, d')"
  shows "coverage_ok d'"
proof -
  let ?cs = "settle_candidates params d"
  have dist: "distinct (map (lc_id \<circ> fst) (with_coverage d ?cs))"
    using settle_candidates_distinct [OF ledger_inv_keys [OF inv]] by (simp add: comp_def)
  have pos: "\<forall>x \<in> set (with_coverage d ?cs). 0 < due x" using due_candidates by blast
  from ok obtain ids rows where k: "0 < k"
    and loop: "settle_loop i (with_coverage d ?cs) k [] (lesson_settlement_completions d)
           = (sr_unallocatedKopecks r, ids, rows)"
    and rows: "lesson_settlement_completions d' = rows" "lesson_completions d' = lesson_completions d"
    by (rule settleLessonsInTx_InrE) simp
  have "\<forall>x \<in> set rows. 0 < sc_amount_kopecks x \<and> sc_completion_id x \<in> lc_id ` set (lesson_completions d)"
    by (rule settle_loop_rows [OF loop])
      (use inv in \<open>auto simp: ledger_inv_def coverage_ok_def dest: settle_candidates_mem\<close>)
  moreover have "covered d' (lc_id lc) \<le> lc_amount_kopecks lc" if lc: "lc \<in> set (lesson_completions d)" for lc
  proof (cases "lc \<in> set ?cs")
    case True
    then obtain n where n: "n < length ?cs" "?cs ! n = lc" by (auto simp: in_set_conv_nth)
    have "waterfall (with_coverage d ?cs) k (lc_id lc) \<le> lc_amount_kopecks lc - covered d (lc_id lc)"
      using waterfall_nth [OF dist pos, of n k] n k by (simp add: due_def)
    then show ?thesis using settle_covered(1) [OF ok, of "lc_id lc"] by simp
  next
    case False
    have "x = lc" if "x \<in> set ?cs" "lc_id x = lc_id lc" for x
      using distinct_key_eq [of lc_id "lesson_completions d" x lc] that lc settle_candidates_mem [of x params d]
        ledger_inv_keys [OF inv] by (simp add: keys_ok_def)
    with False have "lc_id lc \<notin> (lc_id \<circ> fst) ` set (with_coverage d ?cs)" by auto
    then have "covered d' (lc_id lc) = covered d (lc_id lc)"
      using settle_covered(1) [OF ok, of "lc_id lc"] waterfall_absent by simp
    with inv lc show ?thesis by (simp add: ledger_inv_def coverage_ok_def)
  qed
  ultimately show ?thesis by (simp add: coverage_ok_def rows)
qed

lemma settleLessonsInTx_inv:
  assumes inv: "ledger_inv d" and ok: "settleLessonsInTx i params k d = Inr (r, d')"
  shows "ledger_inv d'"
proof -
  from ok have same: "lesson_slots d' = lesson_slots d" "lesson_completions d' = lesson_completions d"
    "package_purchases d' = package_purchases d" "package_consumptions d' = package_consumptions d"
    by (rule settleLessonsInTx_InrE, simp)+
  then show ?thesis
    using inv coverage_ok_settle [OF inv ok] schema_ok_cong [of d' d] completion_sync_cong [of d' d]
      consumption_sync_cong [of d' d] capacity_ok_cong [of d' d]
    by (simp add: ledger_inv_def)
qed

lemma settleLessons_inv:
  "ledger_inv d \<Longrightarrow> settleLessons i params k d = Inr (r, d') \<Longrightarrow> ledger_inv d'"
  by (auto simp: settleLessons_def split: js_num.splits if_splits intro: settleLessonsInTx_inv)

lemma snapshot_nonneg: "slot_check r \<Longrightarrow> 0 \<le> coalesce (ls_snapshot_amount_kopecks r) 0"
  by (auto simp: slot_check_def check_snapshot_band_def split: option.splits)

lemma markLessonCompleted_inv:
  assumes inv: "ledger_inv d" and ok: "markLessonCompleted c i params d = Inr (r, d')"
  shows "ledger_inv d'"
proof -
  obtain slot where slot: "slot_by_id d (mp_slotId params) = Some slot"
    and tch: "ls_teacher_account_id slot = mp_teacherId params"
    using ok by (auto simp: markLessonCompleted_def split: option.splits if_splits)
  show ?thesis
  proof (cases "ls_status slot \<in> {Completed, NoShowLearner}")
    case True
    with ok slot tch inv show ?thesis by (auto simp: markLessonCompleted_def split: option.splits)
  next
    case False
    with ok slot tch have booked: "ls_status slot = Booked" and ins: "mark_insert c i params slot d = Inr (r, d')"
      by (auto simp: markLessonCompleted_def mark_eligibility_def split: option.splits if_splits)
    let ?row = "\<lparr>lc_id = i, lc_slot_id = mp_slotId params, lc_teacher_id = mp_teacherId params,
               lc_was_no_show = mp_wasNoShow params,
               lc_amount_kopecks = coalesce (ls_snapshot_amount_kopecks slot) 0,
               lc_completed_at = lesson_end_ms slot * us_per_ms, lc_immutable_at = None,
               lc_marked_by_account_id = mp_markedByAccountId params, lc_created_at = pg_now c\<rparr>"
    from ins obtain ro where "pg_insert_completion_or_skip c ?row d = Inr (ro, d')"
      by (auto simp: mark_insert_def bindR_eq_Inr_iff split: option.splits)
    then show ?thesis
      using slot booked tch snapshot_nonneg [OF slot_by_id_check [OF ledger_inv_schema [OF inv] slot]]
        pg_insert_completion_or_skip_inv [OF inv, of ?row slot c ro d'] by simp
  qed
qed

section \<open>Properties\<close>

lemma apply_succeeds:
  assumes inv: "ledger_inv d" and r: "slot_by_id d i = Some r" and booked: "ls_status r = Booked"
    and snap: "ls_snapshot_amount_kopecks r = None \<Longrightarrow> ls_tariff_id r = None" and st: "st \<in> {Completed, NoShowLearner}"
    and tabs: "lesson_slots d1 = lesson_slots d"
  shows "pg_update_slot i (\<lambda>r. ls_status r = Booked)
           (\<lambda>r. r\<lparr>ls_status := st, ls_updated_at := t\<rparr>) d1
       = Inr (Some (r\<lparr>ls_status := st, ls_updated_at := t\<rparr>),
              d1\<lparr>lesson_slots := replace_row ls_id (r\<lparr>ls_status := st, ls_updated_at := t\<rparr>) (lesson_slots d)\<rparr>)"
proof -
  have chk: "slot_check r" by (rule slot_by_id_check [OF ledger_inv_schema [OF inv] r])
  have "slot_check (r\<lparr>ls_status := st, ls_updated_at := t\<rparr>)"
    using chk booked st booked_not_personal [OF chk booked] by (auto simp: slot_check_defs split: option.splits)
  then show ?thesis
    using snap booked
    by (intro pg_update_slot_ok [OF inv r tabs])
      (auto simp: snapshot_value_def split: option.splits)
qed

lemma booked_no_completion:
  assumes inv: "ledger_inv d" and r: "slot_by_id d i = Some r" and "ls_status r = Booked"
  shows "completion_of_slot d i = None"
proof (rule ccontr)
  assume "completion_of_slot d i \<noteq> None"
  then obtain c where c: "c \<in> set (lesson_completions d)" "lc_slot_id c = i"
    using completion_of_slot_SomeD by blast
  then obtain x where x: "x \<in> set (lesson_slots d)" "ls_id x = i" "ls_status x \<noteq> Booked"
    using inv by (auto simp: ledger_inv_def completion_sync_def completion_backed_def split: if_splits)
  with slot_by_id_unique [OF ledger_inv_keys [OF inv] r x(1,2)] assms(3) show False by simp
qed

text \<open>What a fresh mark writes.\<close>

definition mark_row :: "clock \<Rightarrow> uuid \<Rightarrow> mark_params \<Rightarrow> slot_row \<Rightarrow> completion_row" where
  "mark_row c i params slot =
     \<lparr>lc_id = i, lc_slot_id = mp_slotId params, lc_teacher_id = mp_teacherId params,
      lc_was_no_show = mp_wasNoShow params,
      lc_amount_kopecks = coalesce (ls_snapshot_amount_kopecks slot) 0,
      lc_completed_at = lesson_end_ms slot * us_per_ms, lc_immutable_at = None,
      lc_marked_by_account_id = mp_markedByAccountId params, lc_created_at = pg_now c\<rparr>"

definition marked_slot :: "clock \<Rightarrow> mark_params \<Rightarrow> slot_row \<Rightarrow> slot_row" where
  "marked_slot c params slot =
     slot\<lparr>ls_status := (if mp_wasNoShow params then NoShowLearner else Completed),
          ls_updated_at := pg_now c\<rparr>"

definition marked_db :: "clock \<Rightarrow> uuid \<Rightarrow> mark_params \<Rightarrow> slot_row \<Rightarrow> db \<Rightarrow> db" where
  "marked_db c i params slot d =
     d\<lparr>lesson_completions := lesson_completions d @ [mark_row c i params slot],
       lesson_slots := replace_row ls_id (marked_slot c params slot) (lesson_slots d)\<rparr>"

lemma mark_insert_ok:
  assumes inv: "ledger_inv d" and slot: "slot_by_id d (mp_slotId params) = Some slot"
    and elig: "mark_eligibility c params slot = None"
    and fresh: "find_by lc_id i (lesson_completions d) = None"
  shows "mark_insert c i params slot d
       = Inr (\<lparr>mr_completionId = i, mr_created = True\<rparr>, marked_db c i params slot d)"
proof -
  have booked: "ls_status slot = Booked"
    and snap: "ls_snapshot_amount_kopecks slot = None \<Longrightarrow> ls_tariff_id slot = None"
    using elig by (auto simp: mark_eligibility_def split: if_splits)
  have none: "completion_of_slot d (mp_slotId params) = None" by (rule booked_no_completion [OF inv slot booked])
  have "lesson_completion_apply c (mark_row c i params slot)
      (d\<lparr>lesson_completions := lesson_completions d @ [mark_row c i params slot]\<rparr>)
      = Inr (Some (marked_slot c params slot), marked_db c i params slot d)"
    using apply_succeeds [OF inv slot booked snap, of "if mp_wasNoShow params then NoShowLearner else Completed"
        "d\<lparr>lesson_completions := lesson_completions d @ [mark_row c i params slot]\<rparr>" "pg_now c"]
    by (simp add: lesson_completion_apply_def marked_slot_def marked_db_def mark_row_def)
  then have "pg_insert_completion_or_skip c (mark_row c i params slot) d
      = Inr (Some (mark_row c i params slot), marked_db c i params slot d)"
    using none fresh by (simp add: pg_insert_completion_or_skip_def) (simp add: mark_row_def)
  then show ?thesis unfolding mark_insert_def by (simp add: mark_row_def)
qed

lemma slot_by_id_marked:
  assumes "slot_by_id d (mp_slotId params) = Some slot"
  shows "slot_by_id (marked_db c i params slot d) j =
     (if j = mp_slotId params then Some (marked_slot c params slot) else slot_by_id d j)"
  using assms slot_by_id_SomeD [OF assms]
  by (simp add: slot_by_id_def marked_db_def find_by_replace_row marked_slot_def)

lemma markLessonCompleted_success:
  assumes inv: "ledger_inv d" and ok: "markLessonCompleted c i params d = Inr (r, d')"
  obtains slot where "slot_by_id d (mp_slotId params) = Some slot"
      and "ls_teacher_account_id slot = mp_teacherId params"
      and "ls_status slot \<in> {Completed, NoShowLearner}" and "d' = d" and "mr_created r = False"
    | slot where "slot_by_id d (mp_slotId params) = Some slot"
      and "ls_teacher_account_id slot = mp_teacherId params"
      and "mark_eligibility c params slot = None" and "d' = marked_db c i params slot d"
      and "mr_created r"
proof -
  from ok obtain slot where slot: "slot_by_id d (mp_slotId params) = Some slot"
    and tch: "ls_teacher_account_id slot = mp_teacherId params"
    by (auto simp: markLessonCompleted_def split: option.splits if_splits)
  show ?thesis
  proof (cases "ls_status slot \<in> {Completed, NoShowLearner}")
    case True
    with ok slot tch show ?thesis
      by (intro that(1) [of slot]) (auto simp: markLessonCompleted_def split: option.splits)
  next
    case False
    with ok slot tch have elig: "mark_eligibility c params slot = None"
      and ins: "mark_insert c i params slot d = Inr (r, d')"
      by (auto simp: markLessonCompleted_def split: option.splits if_splits)
    have "ls_status slot = Booked" using elig by (auto simp: mark_eligibility_def split: if_splits)
    from booked_no_completion [OF inv slot this] ins
    have fresh: "find_by lc_id i (lesson_completions d) = None"
      by (auto simp: mark_insert_def pg_insert_completion_or_skip_def split: if_splits)
    show ?thesis
      using mark_insert_ok [OF inv slot elig fresh] ins slot tch elig by (intro that(2) [of slot]) auto
  qed
qed

text \<open>What a mark of a booked lesson by its teacher comes to.\<close>

lemma booked_mark:
  assumes inv: "ledger_inv d" and slot: "slot_by_id d (mp_slotId params) = Some slot"
    and tch: "ls_teacher_account_id slot = mp_teacherId params" and booked: "ls_status slot = Booked"
    and fresh: "find_by lc_id i (lesson_completions d) = None"
    and again: "mp_slotId params' = mp_slotId params" "mp_teacherId params' = mp_teacherId params"
  shows "if js_now c < lesson_end_ms slot
     then markLessonCompleted c i params d = Inl (LessonCompletionEligibilityError NotYetEnded)
     else if ls_snapshot_amount_kopecks slot = None \<and> ls_tariff_id slot \<noteq> None
     then markLessonCompleted c i params d = Inl (LessonCompletionEligibilityError MissingSnapshot)
     else \<exists>d' row slot'.
       markLessonCompleted c i params d = Inr (\<lparr>mr_completionId = i, mr_created = True\<rparr>, d')
     \<and> completion_of_slot d' (mp_slotId params) = Some row
     \<and> lc_id row = i \<and> lc_amount_kopecks row = coalesce (ls_snapshot_amount_kopecks slot) 0
     \<and> lc_was_no_show row = mp_wasNoShow params
     \<and> slot_by_id d' (mp_slotId params) = Some slot'
     \<and> ls_status slot' = (if mp_wasNoShow params then NoShowLearner else Completed)
     \<and> ls_snapshot_amount_kopecks slot' = ls_snapshot_amount_kopecks slot
     \<and> (\<forall>j. j \<noteq> mp_slotId params \<longrightarrow> slot_by_id d' j = slot_by_id d j)
     \<and> markLessonCompleted c' i' params' d' = Inr (\<lparr>mr_completionId = i, mr_created = False\<rparr>, d')"
proof (cases "mark_eligibility c params slot")
  case (Some reason)
  then show ?thesis using slot tch booked by (auto simp: markLessonCompleted_def mark_eligibility_def split: if_splits)
next
  case elig: None
  let ?d' = "marked_db c i params slot d" and ?s = "mp_slotId params"
  have mark: "markLessonCompleted c i params d = Inr (\<lparr>mr_completionId = i, mr_created = True\<rparr>, ?d')"
    using slot tch booked elig mark_insert_ok [OF inv slot elig fresh] by (simp add: markLessonCompleted_def)
  have row: "completion_of_slot ?d' ?s = Some (mark_row c i params slot)"
    using booked_no_completion [OF inv slot booked]
    by (simp add: completion_of_slot_def marked_db_def find_by_snoc mark_row_def)
  note look = slot_by_id_marked [OF slot, of c i]
  have "markLessonCompleted c' i' params' ?d' = Inr (\<lparr>mr_completionId = i, mr_created = False\<rparr>, ?d')"
    using look [of ?s] row again tch
    by (simp add: markLessonCompleted_def marked_slot_def mark_row_def)
  with mark row look have ok: "\<exists>d' row slot'.
       markLessonCompleted c i params d = Inr (\<lparr>mr_completionId = i, mr_created = True\<rparr>, d')
     \<and> completion_of_slot d' ?s = Some row
     \<and> lc_id row = i \<and> lc_amount_kopecks row = coalesce (ls_snapshot_amount_kopecks slot) 0
     \<and> lc_was_no_show row = mp_wasNoShow params
     \<and> slot_by_id d' ?s = Some slot'
     \<and> ls_status slot' = (if mp_wasNoShow params then NoShowLearner else Completed)
     \<and> ls_snapshot_amount_kopecks slot' = ls_snapshot_amount_kopecks slot
     \<and> (\<forall>j. j \<noteq> ?s \<longrightarrow> slot_by_id d' j = slot_by_id d j)
     \<and> markLessonCompleted c' i' params' d' = Inr (\<lparr>mr_completionId = i, mr_created = False\<rparr>, d')"
    by (intro exI [of _ ?d'] exI [of _ "mark_row c i params slot"] exI [of _ "marked_slot c params slot"] conjI)
      (simp_all add: mark_row_def marked_slot_def)
  have "\<not> js_now c < lesson_end_ms slot" "\<not> (ls_snapshot_amount_kopecks slot = None \<and> ls_tariff_id slot \<noteq> None)"
    using elig booked by (auto simp: mark_eligibility_def split: if_splits)
  then show ?thesis using ok by (simp only: if_False)
qed

text \<open>
  C21: what a mark of a lesson comes to, on every branch. A lesson that is not there, that is another teacher's, or that
  was never booked or is cancelled is refused, each with its reason. A lesson marked before answers with its completion
  and changes nothing. A booked lesson is decided by the clock and the price: before it has ended it is refused; with a
  tariff whose price was not frozen at booking it is refused; otherwise the mark always succeeds. It records one
  completion, with the price frozen at booking (zero for a lesson without tariff), and moves the lesson to completed, or
  to no-show of the learner, leaving all other lessons alone. Marking it again for the same teacher, with either
  outcome and in whoever's name, answers with the same completion and changes nothing.
\<close>

theorem markLessonCompleted_spec:
  assumes inv: "ledger_inv d" and fresh: "find_by lc_id i (lesson_completions d) = None"
    and again: "mp_slotId params' = mp_slotId params" "mp_teacherId params' = mp_teacherId params"
  shows "case slot_by_id d (mp_slotId params) of
     None \<Rightarrow> markLessonCompleted c i params d = Inl (LessonCompletionEligibilityError SlotNotFound)
   | Some slot \<Rightarrow>
     if ls_teacher_account_id slot \<noteq> mp_teacherId params
     then markLessonCompleted c i params d = Inl (LessonCompletionEligibilityError WrongTeacher)
     else if ls_status slot \<in> {Completed, NoShowLearner}
     then (case completion_of_slot d (mp_slotId params) of
         Some row \<Rightarrow> markLessonCompleted c i params d = Inr (\<lparr>mr_completionId = lc_id row, mr_created = False\<rparr>, d)
       | None \<Rightarrow> markLessonCompleted c i params d = Inl (LessonCompletionEligibilityError NotBooked))
     else if ls_status slot \<noteq> Booked
     then markLessonCompleted c i params d = Inl (LessonCompletionEligibilityError NotBooked)
     else if js_now c < lesson_end_ms slot
     then markLessonCompleted c i params d = Inl (LessonCompletionEligibilityError NotYetEnded)
     else if ls_snapshot_amount_kopecks slot = None \<and> ls_tariff_id slot \<noteq> None
     then markLessonCompleted c i params d = Inl (LessonCompletionEligibilityError MissingSnapshot)
     else \<exists>d' row slot'.
       markLessonCompleted c i params d = Inr (\<lparr>mr_completionId = i, mr_created = True\<rparr>, d')
     \<and> completion_of_slot d' (mp_slotId params) = Some row
     \<and> lc_id row = i \<and> lc_amount_kopecks row = coalesce (ls_snapshot_amount_kopecks slot) 0
     \<and> lc_was_no_show row = mp_wasNoShow params
     \<and> slot_by_id d' (mp_slotId params) = Some slot'
     \<and> ls_status slot' = (if mp_wasNoShow params then NoShowLearner else Completed)
     \<and> ls_snapshot_amount_kopecks slot' = ls_snapshot_amount_kopecks slot
     \<and> (\<forall>j. j \<noteq> mp_slotId params \<longrightarrow> slot_by_id d' j = slot_by_id d j)
     \<and> markLessonCompleted c' i' params' d' = Inr (\<lparr>mr_completionId = i, mr_created = False\<rparr>, d')"
proof (cases "slot_by_id d (mp_slotId params)")
  case None
  then show ?thesis by (simp add: markLessonCompleted_def)
next
  case (Some slot)
  consider "ls_teacher_account_id slot \<noteq> mp_teacherId params"
    | "ls_teacher_account_id slot = mp_teacherId params" "ls_status slot \<in> {Completed, NoShowLearner}"
    | "ls_teacher_account_id slot = mp_teacherId params" "ls_status slot \<notin> {Completed, NoShowLearner, Booked}"
    | "ls_teacher_account_id slot = mp_teacherId params" "ls_status slot = Booked" by blast
  then show ?thesis
  proof cases
    case 1
    then show ?thesis using Some by (simp add: markLessonCompleted_def)
  next
    case 2
    then show ?thesis using Some by (cases "completion_of_slot d (mp_slotId params)") (simp_all add: markLessonCompleted_def)
  next
    case 3
    then show ?thesis using Some by (simp add: markLessonCompleted_def mark_eligibility_def)
  next
    case 4
    note booked_mark [OF inv Some 4 fresh again, of c c' i']
    then show ?thesis unfolding Some option.case using 4 by (simp only: simp_thms if_False insert_iff empty_iff slot_status.distinct)
  qed
qed

definition sample_mark :: mark_params where
  "sample_mark = \<lparr>mp_slotId = uuid_of CHR ''1'', mp_teacherId = uuid_of CHR ''a'',
     mp_wasNoShow = False, mp_markedByAccountId = Some (uuid_of CHR ''a'')\<rparr>"

definition later_clock :: clock where
  "later_clock = \<lparr>pg_now = 1767600000000000, js_now = 1767600000000\<rparr>"

theorem markLessonCompleted_spec_witness:
  "\<exists>d'. markLessonCompleted later_clock (uuid_of CHR ''5'') sample_mark sample_db
        = Inr (\<lparr>mr_completionId = uuid_of CHR ''5'', mr_created = True\<rparr>, d')
      \<and> markLessonCompleted later_clock (uuid_of CHR ''6'') sample_mark d'
        = Inr (\<lparr>mr_completionId = uuid_of CHR ''5'', mr_created = False\<rparr>, d')"
proof -
  have slot: "slot_by_id sample_db (mp_slotId sample_mark) = Some sample_slot"
    by (simp add: slot_by_id_def find_by_def sample_mark_def sample_db_def sample_slot_def)
  have "\<not> js_now later_clock < lesson_end_ms sample_slot" "ls_snapshot_amount_kopecks sample_slot \<noteq> None"
    by (simp_all add: lesson_end_ms_def sample_slot_def later_clock_def
        js_date_via_string_def js_date_def us_per_ms_def ms_per_minute_def)
  moreover have "find_by lc_id (uuid_of CHR ''5'') (lesson_completions sample_db) = None"
    by (simp add: find_by_def sample_db_def empty_db_def)
  moreover have "ls_teacher_account_id sample_slot = mp_teacherId sample_mark" "ls_status sample_slot = Booked"
    by (simp_all add: sample_slot_def sample_mark_def)
  ultimately show ?thesis
    using markLessonCompleted_spec [OF sample_db_inv, of "uuid_of CHR ''5''" sample_mark sample_mark later_clock
        later_clock "uuid_of CHR ''6''"] slot by auto
qed

definition outstanding :: "db \<Rightarrow> completion_row \<Rightarrow> int" where
  "outstanding d lc = lc_amount_kopecks lc - covered d (lc_id lc)"

text \<open>
  C20: a settlement is a waterfall over the outstanding lessons, oldest first. The lesson at
  position \<open>n\<close> receives what it still owes, or what the lessons before it leave of the amount;
  lessons that are not candidates receive nothing; no lesson is covered beyond its price; and
  what is not allocated is exactly the excess of the payment over the total owed.
\<close>

theorem settleLessons_waterfall:
  assumes inv: "ledger_inv d" and ok: "settleLessons i params (JsInt k) d = Inr (r, d')"
  shows "let cs = settle_candidates params d in
    (\<forall>n < length cs. covered d' (lc_id (cs ! n)) = covered d (lc_id (cs ! n))
           + min (outstanding d (cs ! n)) (max 0 (k - sum_by (outstanding d) (take n cs))))
    \<and> (\<forall>j. j \<notin> lc_id ` set cs \<longrightarrow> covered d' j = covered d j)
    \<and> (\<forall>lc \<in> set (lesson_completions d'). covered d' (lc_id lc) \<le> lc_amount_kopecks lc)
    \<and> sr_unallocatedKopecks r = max 0 (k - sum_by (outstanding d) cs)
    \<and> sr_allocatedKopecks r + sr_unallocatedKopecks r = k
    \<and> sorted_wrt (\<lambda>a b. \<not> completed_before b a) cs"
proof -
  define cs where "cs = settle_candidates params d"
  from ok have tx: "settleLessonsInTx i params k d = Inr (r, d')" and k: "0 < k"
    by (auto simp: settleLessons_def split: if_splits)
  let ?xs = "with_coverage d cs"
  have sums: "sum_by due (map (\<lambda>lc. (lc, covered d (lc_id lc))) zs) = sum_by (outstanding d) zs" for zs
    by (simp add: sum_by_def comp_def due_def outstanding_def [abs_def])
  have dist: "distinct (map (lc_id \<circ> fst) ?xs)"
    using settle_candidates_distinct [OF ledger_inv_keys [OF inv], of params] by (simp add: comp_def cs_def)
  have pos: "\<forall>x \<in> set ?xs. 0 < due x" unfolding cs_def using due_candidates by blast
  have share: "covered d' (lc_id (cs ! n)) = covered d (lc_id (cs ! n))
           + min (outstanding d (cs ! n)) (max 0 (k - sum_by (outstanding d) (take n cs)))"
    if "n < length cs" for n
    using settle_covered(1) [OF tx, of "lc_id (cs ! n)"] waterfall_nth [OF dist pos, of n k] that k
    by (simp add: cs_def [symmetric] take_map sums due_def outstanding_def)
  have rest: "covered d' j = covered d j" if "j \<notin> lc_id ` set cs" for j
    using settle_covered(1) [OF tx, of j] waterfall_absent [of j ?xs k] that
    by (simp add: cs_def [symmetric] image_image comp_def)
  have "sr_unallocatedKopecks r = max 0 (k - sum_by (outstanding d) cs)"
    using settle_covered(2) [OF tx] sums [of cs] by (simp add: cs_def)
  moreover have "sr_allocatedKopecks r + sr_unallocatedKopecks r = k"
    using tx by (rule settleLessonsInTx_InrE) simp
  moreover have "sorted_wrt (\<lambda>a b. \<not> completed_before b a) cs"
    unfolding cs_def settle_candidates_def
    by (rule sorted_order_by) (auto simp: completed_before_def)
  moreover have "\<forall>lc \<in> set (lesson_completions d'). covered d' (lc_id lc) \<le> lc_amount_kopecks lc"
    using coverage_ok_settle [OF inv tx] by (simp add: coverage_ok_def)
  ultimately show ?thesis unfolding Let_def cs_def [symmetric] using share rest by blast
qed

lemma sample_partly_paid_inv: "ledger_inv sample_partly_paid"
proof -
  have "slot_check (sample_slot\<lparr>ls_status := Completed\<rparr>)"
    using sample_slot_check by (simp add: slot_check_defs sample_slot_def)
  then show ?thesis
    by (simp add: sample_partly_paid_def sample_db_def empty_db_def ledger_inv_def schema_ok_def
        keys_ok_def lanes_ok_def checks_ok_def completion_sync_def completion_backed_def
        consumption_sync_def capacity_ok_def active_units_def coverage_ok_def covered_def)
      (simp add: sample_slot_def sample_purchase_def)
qed

definition sample_settle :: settle_params where
  "sample_settle = \<lparr>sp_learnerId = uuid_of CHR ''b'', sp_teacherId = uuid_of CHR ''a'',
     sp_completionIds = None, sp_markedByAccountId = None\<rparr>"

text \<open>A learner who owes 1500 roubles pays 2000.\<close>

theorem settleLessons_waterfall_witness:
  "\<exists>r d'. settleLessons (uuid_of CHR ''4'') sample_settle (JsInt 200000) sample_partly_paid = Inr (r, d')
     \<and> sr_allocatedKopecks r = 150000 \<and> sr_unallocatedKopecks r = 50000"
proof -
  let ?d = sample_partly_paid
  have cs: "settle_candidates sample_settle ?d = lesson_completions ?d"
    by (simp add: settle_candidates_def sample_settle_def sample_partly_paid_def sample_db_def
        sample_slot_def empty_db_def explicit_ids_def covered_def slot_by_id_def find_by_def)
  have "\<exists>r d'. settleLessons (uuid_of CHR ''4'') sample_settle (JsInt 200000) ?d = Inr (r, d')"
    by (simp add: settleLessons_def settleLessonsInTx_def explicit_ids_def max_int4_def Let_def
        find_by_def sample_settle_def sample_partly_paid_def sample_db_def empty_db_def
        split: prod.split)
  then obtain r d' where ok: "settleLessons (uuid_of CHR ''4'') sample_settle (JsInt 200000) ?d = Inr (r, d')"
    by blast
  have "sum_by (outstanding ?d) (settle_candidates sample_settle ?d) = 150000"
    unfolding cs by (simp add: outstanding_def covered_def sample_partly_paid_def sample_db_def empty_db_def)
  with settleLessons_waterfall [OF sample_partly_paid_inv ok]
  have "sr_unallocatedKopecks r = 50000 \<and> sr_allocatedKopecks r + sr_unallocatedKopecks r = 200000"
    by (simp add: Let_def)
  with ok show ?thesis by (intro exI [of _ r] exI [of _ d'] conjI) simp_all
qed

text \<open>
  \<open>settleLessons\<close> answers or throws according to its input alone: it succeeds exactly when the
  amount is a positive integer that fits the column, every listed completion is named in the
  canonical spelling and is one of the learner's outstanding lessons with this teacher, and the
  new id is not taken. In particular it never fails half way through the allocation.
\<close>

theorem settleLessons_succeeds_iff:
  "(\<exists>r d'. settleLessons i params amount d = Inr (r, d')) \<longleftrightarrow>
     (\<exists>k. amount = JsInt k \<and> 0 < k \<and> k \<le> 2147483647)
     \<and> list_all uuid_pattern (explicit_ids params)
     \<and> set (explicit_ids params) \<subseteq> lc_id ` set (settle_candidates params d)
     \<and> find_by st_id i (lesson_settlements d) = None"
proof -
  have all: "\<not> list_ex (\<lambda>i. \<not> uuid_pattern i) xs \<longleftrightarrow> list_all uuid_pattern xs" for xs
    by (induction xs) auto
  have miss: "filter (\<lambda>i. i \<notin> A) xs = [] \<longleftrightarrow> set xs \<subseteq> A" for A :: "uuid set" and xs
    by (auto simp: filter_empty_conv)
  show ?thesis
  proof (cases amount)
    case JsNonInt
    then show ?thesis by (simp add: settleLessons_def)
  next
    case (JsInt k)
    show ?thesis
      unfolding settleLessons_def settleLessonsInTx_def JsInt Let_def max_int4_def all [symmetric] miss [symmetric]
      by (simp split: list.split prod.split)
  qed
qed

end
