(* ===== verification/Lifecycle.thy ===== *)
theory Lifecycle
  imports Ledger
begin

text \<open>
  Marking a lesson after it took place: \<open>src/lib/scheduling/slots/lifecycle.ts\<close> (the
  dispatch on the wanted status) and \<open>src/lib/scheduling/slots/teacher-lifecycle.ts\<close> (the
  teacher's entry point). An answer \<open>{ ok: false }\<close> is \<open>Inl\<close> of its reason, with the
  state the transaction left; a thrown error is \<open>Inl\<close> of the outcome.
\<close>

datatype lifecycle_status = ToCompleted | ToNoShowLearner | ToNoShowTeacher

datatype mark_refusal =
  MarkNotFound | MarkNotBooked | MarkNotYetStarted | MarkWrongTeacher | MarkMissingSnapshot
  | MarkNotOwner

fun lifecycle_text :: "lifecycle_status \<Rightarrow> string" where
  "lifecycle_text ToCompleted = ''completed''"
| "lifecycle_text ToNoShowLearner = ''no_show_learner''"
| "lifecycle_text ToNoShowTeacher = ''no_show_teacher''"

definition lifecycle_event :: "clock \<Rightarrow> lifecycle_status \<Rightarrow> uuid \<Rightarrow> slot_event list" where
  "lifecycle_event c status actor =
     appendEventSql c ''slot.lifecycle'' (Some ''admin'')
       (Some [(''toStatus'', VStr (lifecycle_text status)), (''actorAccountId'', VStr actor)])"

definition sniffMarkFailure :: "uuid \<Rightarrow> db \<Rightarrow> mark_refusal" where
  "sniffMarkFailure slotId d =
     (case slot_by_id d slotId of
        None \<Rightarrow> MarkNotFound
      | Some s \<Rightarrow> if ls_status s \<noteq> Booked then MarkNotBooked else MarkNotYetStarted)"

fun mark_refusal_of :: "eligibility_reason \<Rightarrow> mark_refusal" where
  "mark_refusal_of SlotNotFound = MarkNotFound"
| "mark_refusal_of WrongTeacher = MarkWrongTeacher"
| "mark_refusal_of NotBooked = MarkNotBooked"
| "mark_refusal_of NotYetEnded = MarkNotYetStarted"
| "mark_refusal_of MissingSnapshot = MarkMissingSnapshot"

definition mark_no_show_teacher ::
  "clock \<Rightarrow> uuid \<Rightarrow> uuid \<Rightarrow> db \<Rightarrow> (mark_refusal + slot_row) outcome" where
  "mark_no_show_teacher c slotId actor d =
     bindR (pg_update_slot slotId (\<lambda>r. ls_status r = Booked \<and> ls_start_at r \<le> pg_now c)
              (\<lambda>r. r\<lparr>ls_status := NoShowTeacher,
                     ls_marked_at := Some (coalesce (ls_marked_at r) (pg_now c)),
                     ls_updated_at := pg_now c,
                     ls_events := lifecycle_event c ToNoShowTeacher actor @ ls_events r\<rparr>) d)
       (\<lambda>(ro, d1). case ro of
            Some slot \<Rightarrow> Inr (Inr slot, d1)
          | None \<Rightarrow> Inr (Inl (sniffMarkFailure slotId d1), d1))"

definition mark_billable ::
  "clock \<Rightarrow> uuid \<Rightarrow> uuid \<Rightarrow> lifecycle_status \<Rightarrow> uuid \<Rightarrow> db \<Rightarrow> (mark_refusal + slot_row) outcome" where
  "mark_billable c newId slotId status actor d =
     (case slot_by_id d slotId of
        None \<Rightarrow> Inr (Inl MarkNotFound, d)
      | Some slotInfo \<Rightarrow>
          (case markLessonCompleted c newId
                  \<lparr>mp_slotId = slotId, mp_teacherId = ls_teacher_account_id slotInfo,
                   mp_wasNoShow = (status = ToNoShowLearner), mp_markedByAccountId = Some actor\<rparr> d of
             Inl (LessonCompletionEligibilityError e) \<Rightarrow> Inr (Inl (mark_refusal_of e), d)
           | Inl e \<Rightarrow> Inl e
           | Inr (_, d1) \<Rightarrow>
               bindR (pg_update_slot slotId (\<lambda>_. True)
                        (\<lambda>r. r\<lparr>ls_marked_at := Some (coalesce (ls_marked_at r) (pg_now c)),
                               ls_events := lifecycle_event c status actor @ ls_events r,
                               ls_updated_at := pg_now c\<rparr>) d1)
                 (\<lambda>(ro, d2). case ro of
                      Some slot \<Rightarrow> Inr (Inr slot, d2)
                    | None \<Rightarrow> Inr (Inl MarkNotFound, d2))))"

definition markSlotLifecycle ::
  "clock \<Rightarrow> uuid \<Rightarrow> string \<Rightarrow> lifecycle_status \<Rightarrow> uuid \<Rightarrow> db \<Rightarrow> (mark_refusal + slot_row) outcome" where
  "markSlotLifecycle c newId slotId status actorAccountId d =
     (if \<not> uuid_pattern slotId then Inr (Inl MarkNotFound, d)
      else if status = ToNoShowTeacher then mark_no_show_teacher c (pg_uuid slotId) actorAccountId d
      else mark_billable c newId (pg_uuid slotId) status actorAccountId d)"

text \<open>Disabled: it writes nothing.\<close>

definition autoCompletePastBookedSlots :: "db \<Rightarrow> nat \<times> db" where
  "autoCompletePastBookedSlots d = (0, d)"

definition markSlotByTeacher ::
  "clock \<Rightarrow> uuid \<Rightarrow> string \<Rightarrow> uuid \<Rightarrow> lifecycle_status \<Rightarrow> db
   \<Rightarrow> (mark_refusal + slot_row \<times> uuid option) outcome" where
  "markSlotByTeacher c newId slotId teacherAccountId status d =
     (if \<not> uuid_pattern slotId then Inl (PgErr InvalidUuidText)
      else case slot_by_id d (pg_uuid slotId) of
        None \<Rightarrow> Inr (Inl MarkNotFound, d)
      | Some pre \<Rightarrow>
          if ls_teacher_account_id pre \<noteq> teacherAccountId then Inr (Inl MarkNotOwner, d)
          else
            bindR (markSlotLifecycle c newId slotId status teacherAccountId d)
              (\<lambda>(res, d1). Inr
                 (case res of
                    Inl MarkWrongTeacher \<Rightarrow> Inl MarkNotOwner
                  | Inl e \<Rightarrow> Inl e
                  | Inr slot \<Rightarrow> Inr (slot, ls_learner_account_id pre), d1)))"

section \<open>The ledger is kept\<close>

lemma stamp_safe: "slot_step_safe r (r\<lparr>ls_marked_at := m, ls_events := e, ls_updated_at := u\<rparr>)"
  by (simp add: slot_step_safe_def holds_unit_def)

lemma mark_no_show_teacher_inv:
  assumes "ledger_inv d" and "mark_no_show_teacher c i actor d = Inr (res, d')"
  shows "ledger_inv d'"
proof -
  from assms(2) obtain ro where "pg_update_slot i (\<lambda>r. ls_status r = Booked \<and> ls_start_at r \<le> pg_now c)
              (\<lambda>r. r\<lparr>ls_status := NoShowTeacher,
                     ls_marked_at := Some (coalesce (ls_marked_at r) (pg_now c)),
                     ls_updated_at := pg_now c,
                     ls_events := lifecycle_event c ToNoShowTeacher actor @ ls_events r\<rparr>) d = Inr (ro, d')"
    by (auto simp: mark_no_show_teacher_def bindR_eq_Inr_iff split: option.splits)
  then show ?thesis
    by (rule pg_update_slot_inv [OF assms(1)])
      (simp add: slot_step_safe_def billable_def holds_unit_def)
qed

lemma mark_billable_inv:
  assumes inv: "ledger_inv d" and "mark_billable c n i status actor d = Inr (res, d')"
  shows "ledger_inv d'"
proof (cases "d' = d")
  case True
  with inv show ?thesis by simp
next
  case False
  with assms(2) obtain params r d1 ro where "markLessonCompleted c n params d = Inr (r, d1)"
    and upd: "pg_update_slot i (\<lambda>_. True)
                        (\<lambda>r. r\<lparr>ls_marked_at := Some (coalesce (ls_marked_at r) (pg_now c)),
                               ls_events := lifecycle_event c status actor @ ls_events r,
                               ls_updated_at := pg_now c\<rparr>) d1 = Inr (ro, d')"
    by (auto simp: mark_billable_def bindR_eq_Inr_iff split: option.splits sum.splits exn.splits)
  then have "ledger_inv d1" using markLessonCompleted_inv [OF inv] by blast
  then show ?thesis using upd by (rule pg_update_slot_inv) (rule stamp_safe)
qed

lemma markSlotLifecycle_inv:
  "ledger_inv d \<Longrightarrow> markSlotLifecycle c n i status actor d = Inr (res, d') \<Longrightarrow> ledger_inv d'"
  by (auto simp: markSlotLifecycle_def split: if_splits
      intro: mark_no_show_teacher_inv mark_billable_inv)

lemma markSlotByTeacher_inv:
  "ledger_inv d \<Longrightarrow> markSlotByTeacher c n i t status d = Inr (res, d') \<Longrightarrow> ledger_inv d'"
  by (auto simp: markSlotByTeacher_def bindR_eq_Inr_iff split: if_splits option.splits
      intro: markSlotLifecycle_inv)

section \<open>Properties\<close>

lemma slot_by_id_updated:
  assumes "pg_update_slot i P f d = Inr (Some r', d')" and "\<And>r. ls_id (f r) = ls_id r"
  shows "slot_by_id d' j = (if j = i then Some r' else slot_by_id d j)"
  using assms(1)
proof (rule pg_update_slot_SomeE)
  fix r
  assume r: "slot_by_id d i = Some r" "ls_id r = i" "r' = snapshot_on_book d (f r)"
    and d': "d' = d\<lparr>lesson_slots := replace_row ls_id r' (lesson_slots d)\<rparr>"
  have "ls_id r' = i" using r(2,3) assms(2) by simp
  with r(1) show ?thesis by (simp add: d' slot_by_id_def find_by_replace_row)
qed

lemma pg_update_slot_eff:
  assumes "pg_update_slot i P f d = Inr (Some r', d')" and "slot_by_id d i = Some r"
  shows "P r \<and> r' = snapshot_on_book d (f r) \<and> lesson_completions d' = lesson_completions d
    \<and> package_consumptions d' = package_consumptions d"
  using assms(1) by (rule pg_update_slot_SomeE) (use assms(2) in auto)

text \<open>
  What a mark by a teacher does when it answers ok. Only the owner's lesson is touched.
  A no-show of the teacher is recorded on a booked lesson that has started, and creates no
  billable completion. A completion or a no-show of the learner is recorded on a booked lesson
  that has ended, with exactly one completion row more; on a lesson that already has one, the
  answer is ok as well, and both the status and the completions stay as they were, whichever of
  the two outcomes is asked for.
\<close>

theorem markSlotByTeacher_effect:
  assumes inv: "ledger_inv d"
    and ok: "markSlotByTeacher c n slotId t status d = Inr (Inr (slot, learner), d')"
  shows "\<exists>pre. slot_by_id d (pg_uuid slotId) = Some pre \<and> ls_teacher_account_id pre = t
     \<and> learner = ls_learner_account_id pre
     \<and> slot_by_id d' (pg_uuid slotId) = Some slot
     \<and> (\<forall>j. j \<noteq> pg_uuid slotId \<longrightarrow> slot_by_id d' j = slot_by_id d j)
     \<and> (if status = ToNoShowTeacher
        then ls_status pre = Booked \<and> ls_start_at pre \<le> pg_now c \<and> ls_status slot = NoShowTeacher
             \<and> lesson_completions d' = lesson_completions d
        else (ls_status pre = Booked \<and> lesson_end_ms pre \<le> js_now c
               \<and> ls_status slot = (if status = ToNoShowLearner then NoShowLearner else Completed)
               \<and> length (lesson_completions d') = Suc (length (lesson_completions d)))
             \<or> (ls_status pre \<in> {Completed, NoShowLearner} \<and> ls_status slot = ls_status pre
               \<and> lesson_completions d' = lesson_completions d))"
proof -
  let ?i = "pg_uuid slotId"
  have pat: "uuid_pattern slotId" using ok by (auto simp: markSlotByTeacher_def split: if_splits)
  with ok obtain pre where pre: "slot_by_id d ?i = Some pre" "ls_teacher_account_id pre = t"
    by (auto simp: markSlotByTeacher_def split: option.splits if_splits)
  with ok pat obtain res where
    life: "markSlotLifecycle c n slotId status t d = Inr (res, d')"
    and res: "(case res of Inl MarkWrongTeacher \<Rightarrow> Inl MarkNotOwner | Inl e \<Rightarrow> Inl e
       | Inr slot \<Rightarrow> Inr (slot, ls_learner_account_id pre)) = Inr (slot, learner)"
    by (auto simp: markSlotByTeacher_def bindR_eq_Inr_iff)
  from res have "res = Inr slot" and learner: "learner = ls_learner_account_id pre"
    by (cases res; auto split: mark_refusal.splits)+
  with life have life: "markSlotLifecycle c n slotId status t d = Inr (Inr slot, d')" by simp
  show ?thesis
  proof (cases "status = ToNoShowTeacher")
    case True
    with life pat obtain f where upd: "pg_update_slot ?i (\<lambda>r. ls_status r = Booked \<and> ls_start_at r \<le> pg_now c) f d
        = Inr (Some slot, d')" and f: "\<And>r. ls_status (f r) = NoShowTeacher" "\<And>r. ls_id (f r) = ls_id r"
      by (auto simp: markSlotLifecycle_def mark_no_show_teacher_def bindR_eq_Inr_iff split: option.splits)
    with pg_update_slot_eff [OF upd pre(1)] slot_by_id_updated [OF upd f(2)] pre learner f(1) True
    show ?thesis by simp
  next
    case False
    let ?params = "\<lparr>mp_slotId = ?i, mp_teacherId = t, mp_wasNoShow = (status = ToNoShowLearner),
        mp_markedByAccountId = Some t\<rparr>"
    from life pat False pre obtain r d1 where mark: "markLessonCompleted c n ?params d = Inr (r, d1)"
      and upd: "pg_update_slot ?i (\<lambda>_. True)
           (\<lambda>r. r\<lparr>ls_marked_at := Some (coalesce (ls_marked_at r) (pg_now c)),
                  ls_events := lifecycle_event c status t @ ls_events r, ls_updated_at := pg_now c\<rparr>) d1
           = Inr (Some slot, d')"
      by (auto simp: markSlotLifecycle_def mark_billable_def bindR_eq_Inr_iff
          split: option.splits sum.splits exn.splits)
    note look = slot_by_id_updated [OF upd]
    from inv mark show ?thesis
    proof (rule markLessonCompleted_success)
      fix s
      assume s: "slot_by_id d (mp_slotId ?params) = Some s" "ls_status s \<in> {Completed, NoShowLearner}" "d1 = d"
      then have "slot_by_id d1 ?i = Some pre" "s = pre" using pre(1) by simp_all
      with pg_update_slot_eff [OF upd, of pre] look s pre learner False show ?thesis by simp
    next
      fix s
      assume s: "slot_by_id d (mp_slotId ?params) = Some s" "mark_eligibility c ?params s = None"
        "d1 = marked_db c n ?params s d"
      then have sp: "s = pre" using pre(1) by simp
      have "slot_by_id d1 j = (if j = ?i then Some (marked_slot c ?params pre) else slot_by_id d j)" for j
        using slot_by_id_marked [OF s(1), of c n j] s(3) sp by simp
      with pg_update_slot_eff [OF upd, of "marked_slot c ?params pre"] look s(2,3) sp pre learner False
      show ?thesis by (auto simp: marked_slot_def marked_db_def mark_eligibility_def split: if_splits)
    qed
  qed
qed

text \<open>A lesson marked completed, then marked as a no-show: ok, and still completed.\<close>

theorem markSlotByTeacher_effect_witness:
  "\<exists>slot learner d'. markSlotByTeacher later_clock (uuid_of CHR ''6'') (uuid_of CHR ''1'') (uuid_of CHR ''a'')
       ToNoShowLearner sample_partly_paid = Inr (Inr (slot, learner), d')
     \<and> ls_status slot = Completed \<and> learner = Some (uuid_of CHR ''b'')"
proof -
  let ?d = sample_partly_paid and ?i = "uuid_of CHR ''1''"
  have pat: "uuid_pattern ?i" "pg_uuid ?i = ?i" by (simp_all add: hex_digit_def lower_hex_def)
  have slot: "slot_by_id ?d ?i = Some (sample_slot\<lparr>ls_status := Completed\<rparr>)"
    by (simp add: slot_by_id_def find_by_def sample_partly_paid_def sample_slot_def)
  have comp: "completion_of_slot ?d ?i = Some (hd (lesson_completions ?d))"
    by (simp add: completion_of_slot_def find_by_def sample_partly_paid_def)
  have "slot_check (sample_slot\<lparr>ls_status := Completed\<rparr>)"
    by (rule slot_by_id_check [OF ledger_inv_schema [OF sample_partly_paid_inv] slot])
  then have "\<exists>x y. pg_update_slot ?i (\<lambda>_. True)
       (\<lambda>r. r\<lparr>ls_marked_at := Some (coalesce (ls_marked_at r) (pg_now later_clock)),
              ls_events := lifecycle_event later_clock ToNoShowLearner (uuid_of CHR ''a'') @ ls_events r,
              ls_updated_at := pg_now later_clock\<rparr>) ?d = Inr (Some x, y)"
    by (subst pg_update_slot_ok [OF sample_partly_paid_inv slot])
      (auto simp: snapshot_value_def sample_slot_def slot_check_defs)
  then obtain x y where upd: "pg_update_slot ?i (\<lambda>_. True)
       (\<lambda>r. r\<lparr>ls_marked_at := Some (coalesce (ls_marked_at r) (pg_now later_clock)),
              ls_events := lifecycle_event later_clock ToNoShowLearner (uuid_of CHR ''a'') @ ls_events r,
              ls_updated_at := pg_now later_clock\<rparr>) ?d = Inr (Some x, y)" by blast
  have tch: "ls_teacher_account_id sample_slot = uuid_of CHR ''a''" by (simp add: sample_slot_def)
  have "\<exists>slot learner d'. markSlotByTeacher later_clock (uuid_of CHR ''6'') ?i (uuid_of CHR ''a'')
       ToNoShowLearner ?d = Inr (Inr (slot, learner), d')"
    using upd by (simp add: markSlotByTeacher_def markSlotLifecycle_def mark_billable_def
        markLessonCompleted_def pat slot comp tch)
  then obtain s learner d' where ok: "markSlotByTeacher later_clock (uuid_of CHR ''6'') ?i (uuid_of CHR ''a'')
       ToNoShowLearner ?d = Inr (Inr (s, learner), d')" by blast
  from markSlotByTeacher_effect [OF sample_partly_paid_inv ok] slot pat
  have "ls_status s = Completed \<and> learner = Some (uuid_of CHR ''b'')" by (simp add: sample_slot_def)
  with ok show ?thesis by (intro exI conjI) auto
qed

end
