(* ===== verification/Change_Status.thy ===== *)
theory Change_Status
  imports Lifecycle
begin

text \<open>
  \<open>src/lib/scheduling/slots/change-status.ts\<close>: a teacher corrects the status of a past lesson
  (\<open>changeLessonStatus\<close>) or of a personal event (\<open>changeDealStatus\<close>), with an optimistic token,
  the gates on the completion, the transition matrix and the audit row. \<open>changeLessonStatus\<close>
  reads the slot before it takes the learner's advisory lock and again under the row lock:
  \<open>pre\<close> is the state of the first read, \<open>d\<close> the state under the lock. The two clocks and the
  ids the database generates are arguments.
\<close>

section \<open>Input and answers\<close>

datatype lesson_target = LtCompleted | LtNoShowLearner | LtNoShowTeacher | LtBooked

fun lesson_target_status :: "lesson_target \<Rightarrow> slot_status" where
  "lesson_target_status LtCompleted = Completed"
| "lesson_target_status LtNoShowLearner = NoShowLearner"
| "lesson_target_status LtNoShowTeacher = NoShowTeacher"
| "lesson_target_status LtBooked = Booked"

datatype deal_target = DtPersonalEvent | DtCompleted | DtCancelled

fun deal_target_status :: "deal_target \<Rightarrow> slot_status" where
  "deal_target_status DtPersonalEvent = PersonalEvent"
| "deal_target_status DtCompleted = Completed"
| "deal_target_status DtCancelled = Cancelled"

datatype change_refusal =
  ChNotFound | ChNotOwner | ChWrongKind | ChCannotEditCancelled | ChStale | ChImmutable | ChSettled
  | ChAccrued | ChMissingSnapshot | ChInvalidTransition | ChNotYetEnded

record change_lesson_ok =
  cl_newUpdatedAt :: millis
  cl_auditId :: uuid
  cl_learnerAccountId :: "uuid option"
  cl_startAt :: millis

text \<open>The token is the instant its text denotes; a text that denotes none throws.\<close>

record change_lesson_input =
  ci_slotId :: string
  ci_teacherAccountId :: uuid
  ci_toStatus :: lesson_target
  ci_expectedUpdatedAt :: "millis option"
  ci_notifyIntent :: bool

record change_deal_input =
  cd_slotId :: string
  cd_teacherAccountId :: uuid
  cd_toStatus :: deal_target
  cd_expectedUpdatedAt :: "millis option"

definition FORTY_EIGHT_HOURS_MS :: millis where
  "FORTY_EIGHT_HOURS_MS = 48 * 60 * 60 * 1000"

section \<open>The transition matrix of a lesson\<close>

record chain_args =
  ca_slotId :: uuid
  ca_teacherId :: uuid
  ca_tariffId :: "uuid option"
  ca_snapshotAmountKopecks :: "int option"
  ca_completedAt :: millis
  ca_fromStatus :: slot_status
  ca_toStatus :: lesson_target
  ca_completion :: "completion_row option"

text \<open>\<open>update lesson_slots set \<dots> where id = $1\<close>, whose row count nobody reads.\<close>

definition set_slot :: "uuid \<Rightarrow> (slot_row \<Rightarrow> slot_row) \<Rightarrow> db \<Rightarrow> unit outcome" where
  "set_slot slotId f d = bindR (pg_update_slot slotId (\<lambda>_. True) f d) (\<lambda>(_, d'). Inr ((), d'))"

definition chain_completion :: "clock \<Rightarrow> uuid \<Rightarrow> chain_args \<Rightarrow> completion_row" where
  "chain_completion c newId args =
     \<lparr>lc_id = newId, lc_slot_id = ca_slotId args, lc_teacher_id = ca_teacherId args,
      lc_was_no_show = (ca_toStatus args = LtNoShowLearner),
      lc_amount_kopecks = coalesce (ca_snapshotAmountKopecks args) 0,
      lc_completed_at = ca_completedAt args * us_per_ms, lc_immutable_at = None,
      lc_marked_by_account_id = Some (ca_teacherId args), lc_created_at = pg_now c\<rparr>"

text \<open>completed \<open>\<leftrightarrow>\<close> no-show of the learner.\<close>

definition chain_flip :: "uuid \<Rightarrow> chain_args \<Rightarrow> bool \<Rightarrow> db \<Rightarrow> change_refusal option outcome" where
  "chain_flip slotId args noShow d =
     (case ca_completion args of
        None \<Rightarrow> Inr (Some ChInvalidTransition, d)
      | Some cr \<Rightarrow>
          bindR (set_slot slotId
                   (\<lambda>r. r\<lparr>ls_status := (if noShow then NoShowLearner else Completed)\<rparr>)
                   (pg_set_was_no_show (lc_id cr) noShow d))
            (\<lambda>(_, d1). Inr (None, d1)))"

text \<open>completed or no-show of the learner back to booked; the trigger sets the status.\<close>

definition chain_unmark :: "clock \<Rightarrow> chain_args \<Rightarrow> db \<Rightarrow> change_refusal option outcome" where
  "chain_unmark c args d =
     (case ca_completion args of
        None \<Rightarrow> Inr (Some ChInvalidTransition, d)
      | Some cr \<Rightarrow> bindR (pg_delete_completion c (lc_id cr) d) (\<lambda>(_, d1). Inr (None, d1)))"

definition set_no_show_teacher :: "clock \<Rightarrow> uuid \<Rightarrow> db \<Rightarrow> change_refusal option outcome" where
  "set_no_show_teacher c slotId d =
     bindR (set_slot slotId
              (\<lambda>r. r\<lparr>ls_status := NoShowTeacher,
                     ls_marked_at := Some (coalesce (ls_marked_at r) (pg_now c))\<rparr>) d)
       (\<lambda>(_, d1). Inr (None, d1))"

definition chain_blame_teacher :: "clock \<Rightarrow> chain_args \<Rightarrow> db \<Rightarrow> change_refusal option outcome" where
  "chain_blame_teacher c args d =
     (case ca_completion args of
        None \<Rightarrow> Inr (Some ChInvalidTransition, d)
      | Some cr \<Rightarrow>
          bindR (pg_delete_completion c (lc_id cr) d)
            (\<lambda>(_, d1). set_no_show_teacher c (ca_slotId args) d1))"

definition chain_mark :: "clock \<Rightarrow> uuid \<Rightarrow> chain_args \<Rightarrow> db \<Rightarrow> change_refusal option outcome" where
  "chain_mark c newId args d =
     (if ca_snapshotAmountKopecks args = None \<and> ca_tariffId args \<noteq> None
      then Inr (Some ChMissingSnapshot, d)
      else
        bindR (pg_insert_completion c (chain_completion c newId args) d)
          (\<lambda>(_, d1). bindR (set_slot (ca_slotId args)
                             (\<lambda>r. r\<lparr>ls_marked_at := Some (coalesce (ls_marked_at r) (pg_now c))\<rparr>) d1)
             (\<lambda>(_, d2). Inr (None, d2))))"

definition set_booked :: "uuid \<Rightarrow> db \<Rightarrow> unit outcome" where
  "set_booked slotId d = set_slot slotId (\<lambda>r. r\<lparr>ls_status := Booked, ls_marked_at := None\<rparr>) d"

definition chain_remark :: "clock \<Rightarrow> uuid \<Rightarrow> chain_args \<Rightarrow> db \<Rightarrow> change_refusal option outcome" where
  "chain_remark c newId args d =
     (if ca_snapshotAmountKopecks args = None \<and> ca_tariffId args \<noteq> None
      then Inr (Some ChMissingSnapshot, d)
      else bindR (set_booked (ca_slotId args) d) (\<lambda>(_, d1). chain_mark c newId args d1))"

definition applyLessonChainInTx ::
  "clock \<Rightarrow> uuid \<Rightarrow> chain_args \<Rightarrow> db \<Rightarrow> change_refusal option outcome" where
  "applyLessonChainInTx c newId args d =
     (let from_status = ca_fromStatus args; to = ca_toStatus args in
      if from_status = Completed \<and> to = LtNoShowLearner then chain_flip (ca_slotId args) args True d
      else if from_status = NoShowLearner \<and> to = LtCompleted
      then chain_flip (ca_slotId args) args False d
      else if from_status \<in> {Completed, NoShowLearner} \<and> to = LtBooked then chain_unmark c args d
      else if from_status \<in> {Completed, NoShowLearner} \<and> to = LtNoShowTeacher
      then chain_blame_teacher c args d
      else if from_status = Booked \<and> to \<in> {LtCompleted, LtNoShowLearner}
      then chain_mark c newId args d
      else if from_status = Booked \<and> to = LtNoShowTeacher
      then set_no_show_teacher c (ca_slotId args) d
      else if from_status = NoShowTeacher \<and> to = LtBooked
      then bindR (set_booked (ca_slotId args) d) (\<lambda>(_, d1). Inr (None, d1))
      else if from_status = NoShowTeacher \<and> to \<in> {LtCompleted, LtNoShowLearner}
      then chain_remark c newId args d
      else Inr (Some ChInvalidTransition, d))"

section \<open>Changing the status of a lesson\<close>

definition pre_read_refusal :: "change_lesson_input \<Rightarrow> slot_row \<Rightarrow> change_refusal option" where
  "pre_read_refusal input preRow =
     (if ls_teacher_account_id preRow \<noteq> ci_teacherAccountId input then Some ChNotOwner
      else if ls_source preRow = Some SrcPersonalEvent then Some ChWrongKind
      else if ls_status preRow = Cancelled then Some ChCannotEditCancelled
      else if ls_learner_account_id preRow = None then Some ChInvalidTransition
      else None)"

definition change_end_ms :: "slot_row \<Rightarrow> millis" where
  "change_end_ms row = js_date (ls_start_at row) + ls_duration_minutes row * ms_per_minute"

definition locked_refusal :: "clock \<Rightarrow> change_lesson_input \<Rightarrow> slot_row \<Rightarrow> exn + change_refusal option" where
  "locked_refusal c input row =
     (case ci_expectedUpdatedAt input of
        None \<Rightarrow> Inl (JsError ''RangeError'')
      | Some t \<Rightarrow>
          if js_date (ls_updated_at row) \<noteq> t then Inr (Some ChStale)
          else if js_now c < change_end_ms row then Inr (Some ChNotYetEnded)
          else if ls_status row = lesson_target_status (ci_toStatus input)
          then Inr (Some ChInvalidTransition)
          else Inr None)"

definition willDeleteCompletion :: "slot_status \<Rightarrow> lesson_target \<Rightarrow> bool" where
  "willDeleteCompletion from_status to \<longleftrightarrow>
     from_status \<in> {Completed, NoShowLearner} \<and> to \<in> {LtBooked, LtNoShowTeacher}"

definition delete_gate :: "clock \<Rightarrow> db \<Rightarrow> completion_row \<Rightarrow> change_refusal option" where
  "delete_gate c d cr =
     (if lc_immutable_at cr \<noteq> None
         \<or> js_now c - js_date (lc_created_at cr) \<ge> FORTY_EIGHT_HOURS_MS then Some ChImmutable
      else if completion_settled d (lc_id cr) then Some ChSettled
      else if completion_accrued d (lc_id cr) then Some ChAccrued
      else None)"

definition insert_audit :: "audit_row \<Rightarrow> db \<Rightarrow> unit outcome" where
  "insert_audit row d =
     (if find_by au_id (au_id row) (audit_lesson_status_change d) \<noteq> None
      then Inl (PgErr UniqueViolation)
      else Inr ((), d\<lparr>audit_lesson_status_change := audit_lesson_status_change d @ [row]\<rparr>))"

definition change_lesson_commit ::
  "clock \<Rightarrow> uuid \<Rightarrow> change_lesson_input \<Rightarrow> slot_row \<Rightarrow> db \<Rightarrow> (change_refusal + change_lesson_ok) outcome" where
  "change_lesson_commit c auditId input row d =
     bindR (pg_update_slot (pg_uuid (ci_slotId input)) (\<lambda>_. True)
              (\<lambda>r. r\<lparr>ls_updated_at := pg_now c\<rparr>) d)
       (\<lambda>(bump, d1). case bump of
            None \<Rightarrow> Inl TypeErrorUndefined
          | Some b \<Rightarrow>
              bindR (insert_audit
                       \<lparr>au_id = auditId, au_slot_id = pg_uuid (ci_slotId input),
                        au_actor_account_id = ci_teacherAccountId input,
                        au_learner_account_id = ls_learner_account_id row, au_is_deal = False,
                        au_from_status = ls_status row,
                        au_to_status = lesson_target_status (ci_toStatus input),
                        au_notify_intent = ci_notifyIntent input, au_notify_dispatched_at = None,
                        au_ts = pg_now c\<rparr> d1)
                (\<lambda>(_, d2). Inr (Inr \<lparr>cl_newUpdatedAt = js_date (ls_updated_at b),
                                    cl_auditId = auditId,
                                    cl_learnerAccountId = ls_learner_account_id row,
                                    cl_startAt = js_date (ls_start_at row)\<rparr>, d2)))"

definition chain_args_of ::
  "change_lesson_input \<Rightarrow> slot_row \<Rightarrow> completion_row option \<Rightarrow> chain_args" where
  "chain_args_of input row completionRow =
     \<lparr>ca_slotId = pg_uuid (ci_slotId input), ca_teacherId = ci_teacherAccountId input,
      ca_tariffId = ls_tariff_id row, ca_snapshotAmountKopecks = ls_snapshot_amount_kopecks row,
      ca_completedAt = change_end_ms row, ca_fromStatus = ls_status row,
      ca_toStatus = ci_toStatus input, ca_completion = completionRow\<rparr>"

definition change_lesson_locked ::
  "clock \<Rightarrow> uuid \<Rightarrow> uuid \<Rightarrow> change_lesson_input \<Rightarrow> slot_row \<Rightarrow> db
   \<Rightarrow> (change_refusal + change_lesson_ok) outcome" where
  "change_lesson_locked c completionId auditId input row d =
     (let completionRow = completion_of_slot d (pg_uuid (ci_slotId input));
          gate = (case completionRow of
                    None \<Rightarrow> None
                  | Some cr \<Rightarrow> if willDeleteCompletion (ls_status row) (ci_toStatus input)
                               then delete_gate c d cr else None)
      in case gate of
           Some reason \<Rightarrow> Inr (Inl reason, d)
         | None \<Rightarrow>
             bindR (applyLessonChainInTx c completionId (chain_args_of input row completionRow) d)
               (\<lambda>(refused, d1). case refused of
                    Some reason \<Rightarrow> Inr (Inl reason, d)
                  | None \<Rightarrow> change_lesson_commit c auditId input row d1))"

definition changeLessonStatus ::
  "clock \<Rightarrow> uuid \<Rightarrow> uuid \<Rightarrow> change_lesson_input \<Rightarrow> db \<Rightarrow> db \<Rightarrow> (change_refusal + change_lesson_ok) outcome" where
  "changeLessonStatus c completionId auditId input pre d =
     (if \<not> uuid_pattern (ci_slotId input) then Inl (PgErr InvalidUuidText)
      else case slot_by_id pre (pg_uuid (ci_slotId input)) of
        None \<Rightarrow> Inr (Inl ChNotFound, d)
      | Some preRow \<Rightarrow>
          (case pre_read_refusal input preRow of
             Some reason \<Rightarrow> Inr (Inl reason, d)
           | None \<Rightarrow>
               (case slot_by_id d (pg_uuid (ci_slotId input)) of
                  None \<Rightarrow> Inl TypeErrorUndefined
                | Some row \<Rightarrow>
                    bindR (locked_refusal c input row)
                      (\<lambda>refused. case refused of
                           Some reason \<Rightarrow> Inr (Inl reason, d)
                         | None \<Rightarrow> change_lesson_locked c completionId auditId input row d))))"

section \<open>The notification stamp\<close>

definition markAuditNotifyDispatched :: "clock \<Rightarrow> uuid \<Rightarrow> db \<Rightarrow> db" where
  "markAuditNotifyDispatched c auditId d =
     d\<lparr>audit_lesson_status_change :=
         map (\<lambda>a. if au_id a = auditId then a\<lparr>au_notify_dispatched_at := Some (pg_now c)\<rparr> else a)
           (audit_lesson_status_change d)\<rparr>"

definition isStatusChangeNotifyRateLimited :: "clock \<Rightarrow> uuid \<Rightarrow> uuid \<Rightarrow> db \<Rightarrow> bool" where
  "isStatusChangeNotifyRateLimited c teacherAccountId slotId d \<longleftrightarrow>
     list_ex (\<lambda>a. au_actor_account_id a = teacherAccountId \<and> au_slot_id a = slotId
                  \<and> au_notify_dispatched_at a \<noteq> None \<and> au_ts a > pg_now c - us_per_day)
       (audit_lesson_status_change d)"

section \<open>Changing the status of a personal event\<close>

definition applyDealChainInTx ::
  "clock \<Rightarrow> uuid \<Rightarrow> uuid \<Rightarrow> slot_status \<Rightarrow> deal_target \<Rightarrow> db \<Rightarrow> change_refusal option outcome" where
  "applyDealChainInTx c slotId teacherId from_status to d =
     (let run = (\<lambda>f. bindR (set_slot slotId f d) (\<lambda>(_, d1). Inr (None, d1)))
      in if from_status = Completed \<and> to = DtPersonalEvent
         then run (\<lambda>r. r\<lparr>ls_status := PersonalEvent, ls_marked_at := None\<rparr>)
         else if from_status = Completed \<and> to = DtCancelled
         then run (\<lambda>r. r\<lparr>ls_status := Cancelled, ls_marked_at := None,
                         ls_cancelled_at := Some (pg_now c),
                         ls_cancelled_by_account_id := Some teacherId,
                         ls_cancellation_reason := None\<rparr>)
         else if from_status = Cancelled \<and> to = DtPersonalEvent
         then run (\<lambda>r. r\<lparr>ls_status := PersonalEvent, ls_cancelled_at := None,
                         ls_cancelled_by_account_id := None, ls_cancellation_reason := None\<rparr>)
         else if from_status = Cancelled \<and> to = DtCompleted
         then run (\<lambda>r. r\<lparr>ls_status := Completed, ls_marked_at := Some (pg_now c),
                         ls_cancelled_at := None, ls_cancelled_by_account_id := None,
                         ls_cancellation_reason := None\<rparr>)
         else if from_status = PersonalEvent \<and> to = DtCompleted
         then run (\<lambda>r. r\<lparr>ls_status := Completed, ls_marked_at := Some (pg_now c)\<rparr>)
         else if from_status = PersonalEvent \<and> to = DtCancelled
         then run (\<lambda>r. r\<lparr>ls_status := Cancelled, ls_cancelled_at := Some (pg_now c),
                         ls_cancelled_by_account_id := Some teacherId,
                         ls_cancellation_reason := None\<rparr>)
         else Inr (Some ChInvalidTransition, d))"

definition change_deal_commit ::
  "clock \<Rightarrow> uuid \<Rightarrow> change_deal_input \<Rightarrow> slot_status \<Rightarrow> db \<Rightarrow> (change_refusal + millis) outcome" where
  "change_deal_commit c auditId input from_status d =
     bindR (pg_update_slot (pg_uuid (cd_slotId input)) (\<lambda>_. True)
              (\<lambda>r. r\<lparr>ls_updated_at := pg_now c\<rparr>) d)
       (\<lambda>(bump, d1). case bump of
            None \<Rightarrow> Inl TypeErrorUndefined
          | Some b \<Rightarrow>
              bindR (insert_audit
                       \<lparr>au_id = auditId, au_slot_id = pg_uuid (cd_slotId input),
                        au_actor_account_id = cd_teacherAccountId input,
                        au_learner_account_id = None, au_is_deal = True,
                        au_from_status = from_status,
                        au_to_status = deal_target_status (cd_toStatus input),
                        au_notify_intent = False, au_notify_dispatched_at = None,
                        au_ts = pg_now c\<rparr> d1)
                (\<lambda>(_, d2). Inr (Inr (js_date (ls_updated_at b)), d2)))"

definition changeDealStatus ::
  "clock \<Rightarrow> uuid \<Rightarrow> change_deal_input \<Rightarrow> db \<Rightarrow> (change_refusal + millis) outcome" where
  "changeDealStatus c auditId input d =
     (if \<not> uuid_pattern (cd_slotId input) then Inl (PgErr InvalidUuidText)
      else case slot_by_id d (pg_uuid (cd_slotId input)) of
        None \<Rightarrow> Inr (Inl ChNotFound, d)
      | Some row \<Rightarrow>
          if ls_teacher_account_id row \<noteq> cd_teacherAccountId input then Inr (Inl ChNotOwner, d)
          else if ls_source row \<noteq> Some SrcPersonalEvent then Inr (Inl ChWrongKind, d)
          else case cd_expectedUpdatedAt input of
            None \<Rightarrow> Inl (JsError ''RangeError'')
          | Some t \<Rightarrow>
              if js_date (ls_updated_at row) \<noteq> t then Inr (Inl ChStale, d)
              else if ls_status row = deal_target_status (cd_toStatus input)
              then Inr (Inl ChInvalidTransition, d)
              else
                bindR (applyDealChainInTx c (pg_uuid (cd_slotId input)) (cd_teacherAccountId input)
                         (ls_status row) (cd_toStatus input) d)
                  (\<lambda>(refused, d1). case refused of
                       Some reason \<Rightarrow> Inr (Inl reason, d)
                     | None \<Rightarrow> change_deal_commit c auditId input (ls_status row) d1))"

section \<open>The ledger is kept\<close>

lemma set_slot_inv:
  assumes "ledger_inv d" and "set_slot i f d = Inr (u, d')"
    and "\<And>r. slot_by_id d i = Some r \<Longrightarrow> slot_step_safe r (f r)"
  shows "ledger_inv d'"
proof -
  from assms(2) obtain ro where "pg_update_slot i (\<lambda>_. True) f d = Inr (ro, d')"
    by (auto simp: set_slot_def bindR_eq_Inr_iff)
  then show ?thesis by (rule pg_update_slot_inv [OF assms(1)]) (rule assms(3))
qed

lemma set_was_no_show_simps [simp]:
  "lesson_slots (pg_set_was_no_show i b d) = lesson_slots d"
  "slot_by_id (pg_set_was_no_show i b d) j = slot_by_id d j"
  "package_purchases (pg_set_was_no_show i b d) = package_purchases d"
  "package_consumptions (pg_set_was_no_show i b d) = package_consumptions d"
  "lesson_settlement_completions (pg_set_was_no_show i b d) = lesson_settlement_completions d"
  by (simp_all add: pg_set_was_no_show_def slot_by_id_def)

lemma set_was_no_show_keys:
  "map lc_id (lesson_completions (pg_set_was_no_show i b d)) = map lc_id (lesson_completions d)"
  "map lc_slot_id (lesson_completions (pg_set_was_no_show i b d)) = map lc_slot_id (lesson_completions d)"
  by (auto simp: pg_set_was_no_show_def)

lemma coverage_ok_was_no_show: "coverage_ok (pg_set_was_no_show i b d) = coverage_ok d"
proof -
  let ?g = "\<lambda>x :: completion_row. if lc_id x = i then x\<lparr>lc_was_no_show := b\<rparr> else x"
  have "lesson_completions (pg_set_was_no_show i b d) = map ?g (lesson_completions d)"
    by (simp add: pg_set_was_no_show_def)
  moreover have "lc_id (?g x) = lc_id x" "lc_amount_kopecks (?g x) = lc_amount_kopecks x" for x by simp_all
  ultimately show ?thesis by (simp only: coverage_ok_def covered_def set_was_no_show_simps set_map ball_simps
      image_image)
qed

lemma completion_sync_flip:
  assumes keys: "keys_ok d" and sync: "completion_sync d"
    and cr: "cr \<in> set (lesson_completions d)" "lc_slot_id cr = i"
    and r: "slot_by_id d i = Some r" and id: "ls_id r' = i"
    and r': "ls_teacher_account_id r' = ls_teacher_account_id r" "ls_source r' = ls_source r"
      "ls_status r' = (if b then NoShowLearner else Completed)"
  shows "completion_sync ((pg_set_was_no_show (lc_id cr) b d)
           \<lparr>lesson_slots := replace_row ls_id r' (lesson_slots d)\<rparr>)" (is "completion_sync ?d'")
proof -
  note slots = set_replace_slot [OF r id]
  let ?g = "\<lambda>x. if lc_id x = lc_id cr then x\<lparr>lc_was_no_show := b\<rparr> else x"
  have comps: "set (lesson_completions ?d') = ?g ` set (lesson_completions d)"
    by (simp add: pg_set_was_no_show_def)
  have same: "x = cr" if "x \<in> set (lesson_completions d)" "lc_slot_id x = i \<or> lc_id x = lc_id cr" for x
    using keys that cr distinct_key_eq [of lc_slot_id "lesson_completions d" x cr]
      distinct_key_eq [of lc_id "lesson_completions d" x cr] by (auto simp: keys_ok_def)
  have backed: "completion_backed d c" if "c \<in> set (lesson_completions d)" for c
    using sync that by (simp add: completion_sync_def)
  have "completion_backed ?d' (?g c)" if c: "c \<in> set (lesson_completions d)" for c
  proof (cases "c = cr")
    case True
    obtain x where x: "x \<in> set (lesson_slots d)" "ls_id x = i" "ls_source x \<noteq> Some SrcPersonalEvent"
      "ls_teacher_account_id x = lc_teacher_id cr"
      using backed [OF cr(1)] cr(2) by (auto simp: completion_backed_def)
    have "x = r" by (rule slot_by_id_unique [OF keys r x(1,2)])
    with x r' id cr(2) True show ?thesis
      unfolding completion_backed_def by (intro bexI [of _ r']) (simp_all add: slots)
  next
    case False
    then have ne: "lc_slot_id c \<noteq> i" "lc_id c \<noteq> lc_id cr" using same [OF c] by auto
    obtain x where "x \<in> set (lesson_slots d)" "ls_id x = lc_slot_id c"
      "ls_source x \<noteq> Some SrcPersonalEvent" "ls_teacher_account_id x = lc_teacher_id c"
      "ls_status x = (if lc_was_no_show c then NoShowLearner else Completed)"
      using backed [OF c] by (auto simp: completion_backed_def)
    with ne show ?thesis unfolding completion_backed_def by (intro bexI [of _ x]) (simp_all add: slots)
  qed
  then have "\<forall>c \<in> set (lesson_completions ?d'). completion_backed ?d' c"
    unfolding comps ball_simps by blast
  moreover have "\<exists>c \<in> set (lesson_completions ?d'). lc_slot_id c = ls_id y"
    if y: "y \<in> set (lesson_slots ?d')" "billable y" for y
  proof (cases "ls_id y = i")
    case True
    have "?g cr \<in> set (lesson_completions ?d')" unfolding comps using cr(1) by (rule imageI)
    with True cr(2) show ?thesis by (intro bexI [of _ "?g cr"]) simp_all
  next
    case False
    with y id have "y \<in> set (lesson_slots d)" by (auto simp: slots)
    with y(2) sync obtain c where c: "c \<in> set (lesson_completions d)" "lc_slot_id c = ls_id y"
      by (auto simp: completion_sync_def)
    have "?g c \<in> set (lesson_completions ?d')" unfolding comps using c(1) by (rule imageI)
    with c(2) show ?thesis by (intro bexI [of _ "?g c"]) simp_all
  qed
  ultimately show ?thesis unfolding completion_sync_def by blast
qed

lemma flip_inv:
  assumes inv: "ledger_inv d" and cr: "completion_of_slot d i = Some cr"
    and upd: "set_slot i (\<lambda>r. r\<lparr>ls_status := (if b then NoShowLearner else Completed)\<rparr>)
                (pg_set_was_no_show (lc_id cr) b d) = Inr (u, d')"
  shows "ledger_inv d'"
proof -
  let ?d1 = "pg_set_was_no_show (lc_id cr) b d"
  have keys: "keys_ok d" by (rule ledger_inv_keys [OF inv])
  have crin: "cr \<in> set (lesson_completions d)" "lc_slot_id cr = i"
    using completion_of_slot_SomeD [OF cr] by auto
  obtain x where x: "x \<in> set (lesson_slots d)" "ls_id x = i" "holds_unit x"
    using inv crin unfolding ledger_inv_def completion_sync_def completion_backed_def holds_unit_def
    by (auto split: if_splits)
  have r: "slot_by_id d i = Some x" using slot_by_id_mem [OF keys x(1)] x(2) by simp
  from upd obtain r' where u: "pg_update_slot i (\<lambda>_. True)
      (\<lambda>r. r\<lparr>ls_status := (if b then NoShowLearner else Completed)\<rparr>) ?d1 = Inr (Some r', d')"
    using r by (auto simp: set_slot_def bindR_eq_Inr_iff pg_update_slot_def Let_def split: if_splits)
  then have r': "r' = snapshot_on_book ?d1 (x\<lparr>ls_status := (if b then NoShowLearner else Completed)\<rparr>)"
    and d': "d' = ?d1\<lparr>lesson_slots := replace_row ls_id r' (lesson_slots d)\<rparr>"
    using r by (auto elim!: pg_update_slot_SomeE)
  have rid: "ls_id r' = i" using r' x(2) by simp
  have "completion_sync d'"
    unfolding d'
    by (rule completion_sync_flip [OF keys ledger_inv_completion [OF inv] crin r rid]) (simp_all add: r')
  moreover have "consumption_sync d'"
    using consumption_sync_replace [OF keys ledger_inv_consumption [OF inv] r rid] r' d'
      consumption_sync_cong [of d' "d\<lparr>lesson_slots := replace_row ls_id r' (lesson_slots d)\<rparr>"]
    by (simp add: holds_unit_def)
  moreover have "schema_ok ?d1"
    using inv set_was_no_show_keys [of "lc_id cr" b d]
    by (simp add: ledger_inv_def schema_ok_def keys_ok_def lanes_ok_def checks_ok_def)
  then have "schema_ok d'" using u by (rule pg_update_slot_schema_ok)
  moreover have "capacity_ok d'" using inv d' by (simp add: ledger_inv_def capacity_ok_def active_units_def)
  moreover have "coverage_ok d'"
    using inv coverage_ok_was_no_show [of "lc_id cr" b d] d' by (simp add: ledger_inv_def)
  ultimately show ?thesis by (simp add: ledger_inv_def)
qed

text \<open>Once its completion is gone, a lesson is not billable.\<close>

lemma deleted_not_billable:
  assumes inv: "ledger_inv d" and cr: "completion_of_slot d i = Some cr"
    and del: "pg_delete_completion c (lc_id cr) d = Inr (u, d')"
    and r: "slot_by_id d' i = Some r"
  shows "\<not> billable r"
proof
  assume bill: "billable r"
  have crin: "cr \<in> set (lesson_completions d)" "lc_slot_id cr = i"
    using completion_of_slot_SomeD [OF cr] by auto
  have keys: "keys_ok d" by (rule ledger_inv_keys [OF inv])
  have inv': "ledger_inv d'" using del by (cases u) (auto intro: pg_delete_completion_inv [OF inv])
  have "find_by lc_id (lc_id cr) (lesson_completions d) = Some cr"
    using keys crin(1) by (intro find_by_distinct) (simp_all add: keys_ok_def)
  with del obtain so where "lesson_completion_revert c cr
      (d\<lparr>lesson_completions := filter (\<lambda>x. lc_id x \<noteq> lc_id cr) (lesson_completions d)\<rparr>) = Inr (so, d')"
    by (auto simp: pg_delete_completion_def bindR_eq_Inr_iff split: option.splits)
  then have comps: "lesson_completions d' = filter (\<lambda>x. lc_id x \<noteq> lc_id cr) (lesson_completions d)"
    by (cases so) (auto simp: lesson_completion_revert_def dest: pg_update_slot_NoneD elim!: pg_update_slot_SomeE)
  have rin: "r \<in> set (lesson_slots d')" "ls_id r = i" using slot_by_id_SomeD [OF r] by auto
  with inv' bill obtain x where x: "x \<in> set (lesson_completions d')" "lc_slot_id x = i"
    unfolding ledger_inv_def completion_sync_def by blast
  with comps keys crin distinct_key_eq [of lc_slot_id "lesson_completions d" x cr]
  show False by (auto simp: keys_ok_def)
qed

lemma set_no_show_teacher_inv:
  assumes "ledger_inv d" and "set_no_show_teacher c i d = Inr (u, d')"
    and "\<And>r. slot_by_id d i = Some r \<Longrightarrow> \<not> billable r"
  shows "ledger_inv d'"
proof -
  from assms(2) obtain v where "set_slot i (\<lambda>r. r\<lparr>ls_status := NoShowTeacher,
      ls_marked_at := Some (coalesce (ls_marked_at r) (pg_now c))\<rparr>) d = Inr (v, d')"
    by (auto simp: set_no_show_teacher_def bindR_eq_Inr_iff)
  then show ?thesis
    by (rule set_slot_inv [OF assms(1)])
      (use assms(3) in \<open>auto simp: slot_step_safe_def billable_def holds_unit_def\<close>)
qed

lemma pg_insert_completion_inv:
  assumes "ledger_inv d" "slot_by_id d (lc_slot_id row) = Some r" "ls_status r = Booked"
    "lc_teacher_id row = ls_teacher_account_id r" "0 \<le> lc_amount_kopecks row"
    and "pg_insert_completion c row d = Inr (x, d')"
  shows "ledger_inv d'"
proof -
  from assms(6) obtain ro where "pg_insert_completion_or_skip c row d = Inr (ro, d')"
    by (auto simp: pg_insert_completion_def bindR_eq_Inr_iff split: option.splits)
  then show ?thesis by (rule pg_insert_completion_or_skip_inv [OF assms(1-5)])
qed

lemma chain_mark_inv:
  assumes inv: "ledger_inv d" and r: "slot_by_id d (ca_slotId args) = Some r" "ls_status r = Booked"
      "ls_teacher_account_id r = ca_teacherId args"
    and amount: "0 \<le> coalesce (ca_snapshotAmountKopecks args) 0"
    and ok: "chain_mark c n args d = Inr (u, d')"
  shows "ledger_inv d'"
proof (cases "d' = d")
  case False
  with ok obtain x d1 v where ins: "pg_insert_completion c (chain_completion c n args) d = Inr (x, d1)"
    and stamp: "set_slot (ca_slotId args)
      (\<lambda>r. r\<lparr>ls_marked_at := Some (coalesce (ls_marked_at r) (pg_now c))\<rparr>) d1 = Inr (v, d')"
    by (auto simp: chain_mark_def bindR_eq_Inr_iff split: if_splits)
  have "ledger_inv d1"
    by (rule pg_insert_completion_inv [OF inv _ r(2) _ _ ins])
      (use r amount in \<open>simp_all add: chain_completion_def\<close>)
  then show ?thesis using stamp by (rule set_slot_inv) (simp add: slot_step_safe_def holds_unit_def)
qed (use inv in simp)

lemma set_booked_inv:
  assumes "ledger_inv d" and "slot_by_id d i = Some r" "ls_status r = NoShowTeacher"
    and "set_booked i d = Inr (u, d')"
  shows "ledger_inv d' \<and> (\<exists>r'. slot_by_id d' i = Some r' \<and> ls_status r' = Booked
    \<and> ls_teacher_account_id r' = ls_teacher_account_id r)"
proof
  show "ledger_inv d'"
    by (rule set_slot_inv [OF assms(1) assms(4) [unfolded set_booked_def]])
      (use assms(2,3) in \<open>simp add: slot_step_safe_def billable_def holds_unit_def\<close>)
  from assms(2,4) obtain r' where "pg_update_slot i (\<lambda>_. True)
      (\<lambda>r. r\<lparr>ls_status := Booked, ls_marked_at := None\<rparr>) d = Inr (Some r', d')"
    by (auto simp: set_booked_def set_slot_def bindR_eq_Inr_iff pg_update_slot_def Let_def split: if_splits)
  from slot_by_id_updated [OF this] pg_update_slot_eff [OF this assms(2)]
  show "\<exists>r'. slot_by_id d' i = Some r' \<and> ls_status r' = Booked
    \<and> ls_teacher_account_id r' = ls_teacher_account_id r" by simp
qed

lemma applyLessonChainInTx_inv:
  assumes inv: "ledger_inv d" and r: "slot_by_id d (ca_slotId args) = Some r"
    and args: "ca_fromStatus args = ls_status r" "ca_teacherId args = ls_teacher_account_id r"
      "ca_completion args = completion_of_slot d (ca_slotId args)"
      "ca_snapshotAmountKopecks args = ls_snapshot_amount_kopecks r"
    and ok: "applyLessonChainInTx c n args d = Inr (u, d')"
  shows "ledger_inv d'"
proof -
  have amount: "0 \<le> coalesce (ca_snapshotAmountKopecks args) 0"
    using snapshot_nonneg [OF slot_by_id_check [OF ledger_inv_schema [OF inv] r]] args(4) by simp
  consider (same) "d' = d" | (flip) b where "chain_flip (ca_slotId args) args b d = Inr (u, d')"
    | (unmark) "chain_unmark c args d = Inr (u, d')" | (blame) "chain_blame_teacher c args d = Inr (u, d')"
    | (mark) "ls_status r = Booked" "chain_mark c n args d = Inr (u, d')"
    | (nst) "ls_status r = Booked" "set_no_show_teacher c (ca_slotId args) d = Inr (u, d')"
    | (booked) v where "ls_status r = NoShowTeacher" "set_booked (ca_slotId args) d = Inr (v, d')"
    | (remark) "ls_status r = NoShowTeacher" "chain_remark c n args d = Inr (u, d')"
    using ok args(1) by (auto simp: applyLessonChainInTx_def Let_def bindR_eq_Inr_iff split: if_splits)
  then show ?thesis
  proof cases
    case same
    with inv show ?thesis by simp
  next
    case flip
    then show ?thesis
      using args(3) inv
      by (auto simp: chain_flip_def bindR_eq_Inr_iff split: option.splits intro: flip_inv [OF inv])
  next
    case unmark
    then show ?thesis
      using inv by (auto simp: chain_unmark_def bindR_eq_Inr_iff split: option.splits intro: pg_delete_completion_inv)
  next
    case blame
    show ?thesis
    proof (cases "ca_completion args")
      case None
      with blame inv show ?thesis by (simp add: chain_blame_teacher_def)
    next
      case (Some cr)
      with blame obtain v d1 where del: "pg_delete_completion c (lc_id cr) d = Inr (v, d1)"
        and nst: "set_no_show_teacher c (ca_slotId args) d1 = Inr (u, d')"
        by (auto simp: chain_blame_teacher_def bindR_eq_Inr_iff)
      have "ledger_inv d1" using del by (cases v) (auto intro: pg_delete_completion_inv [OF inv])
      then show ?thesis
        by (rule set_no_show_teacher_inv [OF _ nst])
          (use deleted_not_billable [OF inv _ del] Some args(3) in auto)
    qed
  next
    case mark
    then show ?thesis using chain_mark_inv [OF inv r _ _ amount] args(2) by simp
  next
    case nst
    then show ?thesis by - (rule set_no_show_teacher_inv [OF inv nst(2)], simp add: r billable_def)
  next
    case booked
    with set_booked_inv [OF inv r] show ?thesis by blast
  next
    case remark
    show ?thesis
    proof (cases "d' = d")
      case False
      with remark obtain v d1 where b: "set_booked (ca_slotId args) d = Inr (v, d1)"
        and m: "chain_mark c n args d1 = Inr (u, d')"
        by (auto simp: chain_remark_def bindR_eq_Inr_iff split: if_splits)
      from set_booked_inv [OF inv r remark(1) b] m amount args(2) show ?thesis
        using chain_mark_inv by metis
    qed (use inv in simp)
  qed
qed

lemma insert_audit_inv: "ledger_inv d \<Longrightarrow> insert_audit a d = Inr (u, d') \<Longrightarrow> ledger_inv d'"
  using ledger_inv_cong [of d' d] by (auto simp: insert_audit_def split: if_splits)

lemma bump_inv:
  assumes "ledger_inv d" and "pg_update_slot i (\<lambda>_. True) (\<lambda>r. r\<lparr>ls_updated_at := t\<rparr>) d = Inr (ro, d')"
  shows "ledger_inv d'"
  using assms by (rule pg_update_slot_inv) (simp add: slot_step_safe_def holds_unit_def)

lemma change_lesson_commit_inv:
  assumes inv: "ledger_inv d" and ok: "change_lesson_commit c a input row d = Inr (res, d')"
  shows "ledger_inv d'"
proof -
  from ok obtain ro d1 x u where
    b: "pg_update_slot (pg_uuid (ci_slotId input)) (\<lambda>_. True) (\<lambda>r. r\<lparr>ls_updated_at := pg_now c\<rparr>) d = Inr (ro, d1)"
    and i: "insert_audit x d1 = Inr (u, d')"
    by (auto simp: change_lesson_commit_def bindR_eq_Inr_iff split: option.splits)
  show ?thesis by (rule insert_audit_inv [OF bump_inv [OF inv b] i])
qed

text \<open>
  Between the two reads of \<open>changeLessonStatus\<close> other requests may run; no statement of the
  program changes the teacher of a slot.
\<close>

definition teacher_stable :: "db \<Rightarrow> db \<Rightarrow> bool" where
  "teacher_stable pre d \<longleftrightarrow>
     (\<forall>r \<in> set (lesson_slots pre). \<forall>r' \<in> set (lesson_slots d).
        ls_id r' = ls_id r \<longrightarrow> ls_teacher_account_id r' = ls_teacher_account_id r)"

lemma changeLessonStatus_inv:
  assumes inv: "ledger_inv d" and stable: "teacher_stable pre d"
    and ok: "changeLessonStatus c n a input pre d = Inr (res, d')"
  shows "ledger_inv d'"
proof (cases "d' = d")
  case False
  let ?i = "pg_uuid (ci_slotId input)"
  from ok False obtain preRow row where pr: "slot_by_id pre ?i = Some preRow" "pre_read_refusal input preRow = None"
    and row: "slot_by_id d ?i = Some row"
    and locked: "change_lesson_locked c n a input row d = Inr (res, d')"
    by (auto simp: changeLessonStatus_def bindR_eq_Inr_iff split: if_splits option.splits)
  have "ls_teacher_account_id row = ci_teacherAccountId input"
    using stable slot_by_id_SomeD [OF pr(1)] slot_by_id_SomeD [OF row] pr(2)
    by (auto simp: teacher_stable_def pre_read_refusal_def split: if_splits)
  moreover from locked False obtain u d1 where
    chain: "applyLessonChainInTx c n (chain_args_of input row (completion_of_slot d ?i)) d = Inr (u, d1)"
    and commit: "change_lesson_commit c a input row d1 = Inr (res, d')"
    by (auto simp: change_lesson_locked_def Let_def bindR_eq_Inr_iff split: option.splits if_splits)
  ultimately have "ledger_inv d1"
    using applyLessonChainInTx_inv [OF inv _ _ _ _ _ chain, of row] row by (simp add: chain_args_of_def)
  then show ?thesis using commit by (rule change_lesson_commit_inv)
qed (use inv in simp)

lemma personal_no_unit:
  assumes inv: "ledger_inv d" and r: "slot_by_id d i = Some r" "ls_source r = Some SrcPersonalEvent"
    and x: "x \<in> set (package_consumptions d)" "unit_active x"
  shows "pc_slot_id x \<noteq> i"
proof
  assume i: "pc_slot_id x = i"
  have "unit_backed d x" using inv x by (simp add: ledger_inv_def consumption_sync_def)
  with i obtain s where s: "s \<in> set (lesson_slots d)" "ls_id s = i" "ls_learner_account_id s \<noteq> None"
    by (auto simp: unit_backed_def purchase_fits_def)
  have "s = r" by (rule slot_by_id_unique [OF ledger_inv_keys [OF inv] r(1) s(1,2)])
  with s(3) slot_by_id_check [OF ledger_inv_schema [OF inv] r(1)] r(2) show False
    by (simp add: slot_check_def check_personal_event_def)
qed

lemma applyDealChainInTx_inv:
  assumes inv: "ledger_inv d" and r: "slot_by_id d i = Some r" "ls_source r = Some SrcPersonalEvent"
    and ok: "applyDealChainInTx c i t (ls_status r) to d = Inr (u, d')"
  shows "ledger_inv d'"
proof (cases "d' = d")
  case False
  from ok False obtain f v where set: "set_slot i f d = Inr (v, d')"
    and f: "\<And>x. ls_id (f x) = ls_id x \<and> ls_teacher_account_id (f x) = ls_teacher_account_id x
        \<and> ls_source (f x) = ls_source x"
    by (auto simp: applyDealChainInTx_def Let_def bindR_eq_Inr_iff split: if_splits)
  then obtain r' where upd: "pg_update_slot i (\<lambda>_. True) f d = Inr (Some r', d')"
    using r(1) by (auto simp: set_slot_def bindR_eq_Inr_iff pg_update_slot_def Let_def split: if_splits)
  have "ledger_inv_but i d'"
    by (rule pg_update_slot_inv_but [OF inv upd]) (use f r in \<open>auto simp: billable_def\<close>)
  moreover have "package_consumptions d' = package_consumptions d" using pg_update_slot_eff [OF upd r(1)] by simp
  ultimately show ?thesis
    using personal_no_unit [OF inv r] by (intro ledger_inv_but_unheld [of i]) auto
qed (use inv in simp)

lemma changeDealStatus_inv:
  assumes inv: "ledger_inv d" and ok: "changeDealStatus c a input d = Inr (res, d')"
  shows "ledger_inv d'"
proof (cases "d' = d")
  case False
  from ok False obtain row u d1 where row: "slot_by_id d (pg_uuid (cd_slotId input)) = Some row"
      "ls_source row = Some SrcPersonalEvent"
    and chain: "applyDealChainInTx c (pg_uuid (cd_slotId input)) (cd_teacherAccountId input)
         (ls_status row) (cd_toStatus input) d = Inr (u, d1)"
    and commit: "change_deal_commit c a input (ls_status row) d1 = Inr (res, d')"
    by (auto simp: changeDealStatus_def bindR_eq_Inr_iff split: if_splits option.splits)
  from commit obtain ro d2 x v where
    b: "pg_update_slot (pg_uuid (cd_slotId input)) (\<lambda>_. True) (\<lambda>r. r\<lparr>ls_updated_at := pg_now c\<rparr>) d1 = Inr (ro, d2)"
    and i: "insert_audit x d2 = Inr (v, d')"
    by (auto simp: change_deal_commit_def bindR_eq_Inr_iff split: option.splits)
  show ?thesis
    by (rule insert_audit_inv [OF bump_inv [OF applyDealChainInTx_inv [OF inv row chain] b] i])
qed (use inv in simp)

section \<open>Properties\<close>

text \<open>\<open>only_slot i st d d'\<close>: slot \<open>i\<close> is now in status \<open>st\<close>, of the kind it
  was; all others are as before.\<close>

definition only_slot :: "uuid \<Rightarrow> slot_status \<Rightarrow> db \<Rightarrow> db \<Rightarrow> bool" where
  "only_slot i st d d' \<longleftrightarrow>
     (\<exists>r. slot_by_id d' i = Some r \<and> ls_status r = st
        \<and> (\<forall>r0. slot_by_id d i = Some r0 \<longrightarrow> ls_source r = ls_source r0))
     \<and> (\<forall>j. j \<noteq> i \<longrightarrow> slot_by_id d' j = slot_by_id d j)"

lemma only_slot_trans: "only_slot i st d d1 \<Longrightarrow> only_slot i st' d1 d2 \<Longrightarrow> only_slot i st' d d2"
  unfolding only_slot_def by (metis option.inject)

lemma update_only_slot:
  assumes "pg_update_slot i P f d = Inr (Some r', d')" and "\<And>r. ls_id (f r) = ls_id r"
    and "slot_by_id d i = Some r" and "ls_status (f r) = st" "ls_source (f r) = ls_source r"
  shows "only_slot i st d d'"
  using slot_by_id_updated [OF assms(1,2)] pg_update_slot_eff [OF assms(1,3)] assms(3-5)
  by (simp add: only_slot_def)

lemma set_only_slot:
  assumes "set_slot i f d = Inr (u, d')" and "slot_by_id d i = Some r"
    and "\<And>r. ls_id (f r) = ls_id r" and "ls_status (f r) = st" "ls_source (f r) = ls_source r"
  shows "only_slot i st d d'"
proof -
  from assms(1,2) obtain r' where "pg_update_slot i (\<lambda>_. True) f d = Inr (Some r', d')"
    by (auto simp: set_slot_def bindR_eq_Inr_iff pg_update_slot_def Let_def split: if_splits)
  then show ?thesis using assms(2-5) update_only_slot [of i "\<lambda>_. True" f d r' d' r st] by blast
qed

lemma delete_only_slot:
  assumes inv: "ledger_inv d" and cr: "completion_of_slot d i = Some cr" and r: "slot_by_id d i = Some r"
    and del: "pg_delete_completion c (lc_id cr) d = Inr (u, d')"
  shows "only_slot i Booked d d'"
proof -
  have crin: "cr \<in> set (lesson_completions d)" "lc_slot_id cr = i"
    using completion_of_slot_SomeD [OF cr] by auto
  then obtain x where x: "x \<in> set (lesson_slots d)" "ls_id x = i" "ls_status x \<in> {Completed, NoShowLearner}"
    using inv unfolding ledger_inv_def completion_sync_def completion_backed_def by auto
  have "x = r" by (rule slot_by_id_unique [OF ledger_inv_keys [OF inv] r x(1,2)])
  with x(3) have st: "ls_status r \<in> {Completed, NoShowLearner}" by simp
  let ?d1 = "d\<lparr>lesson_completions := filter (\<lambda>x. lc_id x \<noteq> lc_id cr) (lesson_completions d)\<rparr>"
  have "find_by lc_id (lc_id cr) (lesson_completions d) = Some cr"
    using ledger_inv_keys [OF inv] crin(1) by (intro find_by_distinct) (simp_all add: keys_ok_def)
  with del obtain so where rev: "lesson_completion_revert c cr ?d1 = Inr (so, d')"
    by (auto simp: pg_delete_completion_def bindR_eq_Inr_iff split: option.splits)
  then have "so \<noteq> None"
    using r st crin(2) pg_update_slot_hit [OF rev [unfolded lesson_completion_revert_def], of r] by simp
  with rev obtain r' where upd: "pg_update_slot i (\<lambda>r. ls_status r \<in> {Completed, NoShowLearner})
       (\<lambda>r. r\<lparr>ls_status := Booked, ls_updated_at := pg_now c\<rparr>) ?d1 = Inr (Some r', d')"
    using crin(2) by (auto simp: lesson_completion_revert_def)
  have "only_slot i Booked ?d1 d'" by (rule update_only_slot [OF upd, of r]) (simp_all add: r)
  then show ?thesis by (simp add: only_slot_def)
qed

lemma insert_only_slot:
  assumes "pg_insert_completion c row d = Inr (x, d')" and "slot_by_id d (lc_slot_id row) = Some r"
    and "ls_status r = Booked"
  shows "only_slot (lc_slot_id row) (if lc_was_no_show row then NoShowLearner else Completed) d d'"
proof -
  let ?d1 = "d\<lparr>lesson_completions := lesson_completions d @ [row]\<rparr>"
  from assms(1) obtain so where app: "lesson_completion_apply c row ?d1 = Inr (so, d')"
    by (auto simp: pg_insert_completion_def pg_insert_completion_or_skip_def bindR_eq_Inr_iff
        split: if_splits option.splits)
  then have "so \<noteq> None"
    using assms(2,3) pg_update_slot_hit [OF app [unfolded lesson_completion_apply_def], of r] by simp
  with app obtain r' where upd: "pg_update_slot (lc_slot_id row) (\<lambda>r. ls_status r = Booked)
       (\<lambda>r. r\<lparr>ls_status := (if lc_was_no_show row then NoShowLearner else Completed),
              ls_updated_at := pg_now c\<rparr>) ?d1 = Inr (Some r', d')"
    by (auto simp: lesson_completion_apply_def)
  have "only_slot (lc_slot_id row) (if lc_was_no_show row then NoShowLearner else Completed) ?d1 d'"
    by (rule update_only_slot [OF upd, of r]) (simp_all add: assms(2))
  then show ?thesis by (simp add: only_slot_def)
qed

lemma chain_mark_only_slot:
  assumes "chain_mark c n args d = Inr (None, d')" and "slot_by_id d (ca_slotId args) = Some r"
    and "ls_status r = Booked" and "ca_toStatus args \<in> {LtCompleted, LtNoShowLearner}"
  shows "only_slot (ca_slotId args) (lesson_target_status (ca_toStatus args)) d d'"
proof -
  from assms(1) obtain x d1 v where ins: "pg_insert_completion c (chain_completion c n args) d = Inr (x, d1)"
    and stamp: "set_slot (ca_slotId args)
      (\<lambda>r. r\<lparr>ls_marked_at := Some (coalesce (ls_marked_at r) (pg_now c))\<rparr>) d1 = Inr (v, d')"
    by (auto simp: chain_mark_def bindR_eq_Inr_iff split: if_splits)
  have one: "only_slot (ca_slotId args) (lesson_target_status (ca_toStatus args)) d d1"
    using insert_only_slot [OF ins, of r] assms(2-4) by (auto simp: chain_completion_def split: if_splits)
  then obtain r1 where r1: "slot_by_id d1 (ca_slotId args) = Some r1"
    "ls_status r1 = lesson_target_status (ca_toStatus args)" by (auto simp: only_slot_def)
  from set_only_slot [OF stamp r1(1)] r1(2) one show ?thesis by (auto intro: only_slot_trans)
qed

lemma applyLessonChainInTx_only_slot:
  assumes inv: "ledger_inv d" and r: "slot_by_id d (ca_slotId args) = Some r"
    and args: "ca_fromStatus args = ls_status r" "ca_completion args = completion_of_slot d (ca_slotId args)"
    and ok: "applyLessonChainInTx c n args d = Inr (None, d')"
  shows "only_slot (ca_slotId args) (lesson_target_status (ca_toStatus args)) d d'"
proof -
  let ?i = "ca_slotId args"
  consider (flip) b where "chain_flip ?i args b d = Inr (None, d')"
      "ca_toStatus args = (if b then LtNoShowLearner else LtCompleted)"
    | (unmark) "chain_unmark c args d = Inr (None, d')" "ca_toStatus args = LtBooked"
    | (blame) "chain_blame_teacher c args d = Inr (None, d')" "ca_toStatus args = LtNoShowTeacher"
    | (mark) "ls_status r = Booked" "chain_mark c n args d = Inr (None, d')"
      "ca_toStatus args \<in> {LtCompleted, LtNoShowLearner}"
    | (nst) "set_no_show_teacher c ?i d = Inr (None, d')" "ca_toStatus args = LtNoShowTeacher"
    | (booked) v where "set_booked ?i d = Inr (v, d')" "ca_toStatus args = LtBooked"
    | (remark) "ls_status r = NoShowTeacher" "chain_remark c n args d = Inr (None, d')"
      "ca_toStatus args \<in> {LtCompleted, LtNoShowLearner}"
    using ok args(1)
    by (auto simp: applyLessonChainInTx_def Let_def bindR_eq_Inr_iff split: if_splits)
  then show ?thesis
  proof cases
    case flip
    show ?thesis
    proof (cases "ca_completion args")
      case None
      with flip show ?thesis by (simp add: chain_flip_def)
    next
      case (Some cr)
      with flip(1) have "set_slot ?i (\<lambda>r. r\<lparr>ls_status := (if b then NoShowLearner else Completed)\<rparr>)
                   (pg_set_was_no_show (lc_id cr) b d) = Inr ((), d')"
        by (simp add: chain_flip_def bindR_eq_Inr_iff)
      from set_only_slot [OF this, of r] r flip(2) show ?thesis by (cases b) (simp_all add: only_slot_def)
    qed
  next
    case unmark
    then obtain cr v where "completion_of_slot d ?i = Some cr" "pg_delete_completion c (lc_id cr) d = Inr (v, d')"
      using args(2) by (auto simp: chain_unmark_def bindR_eq_Inr_iff split: option.splits)
    with delete_only_slot [OF inv _ r] unmark(2) show ?thesis by simp
  next
    case blame
    then obtain cr v d1 w where cr: "completion_of_slot d ?i = Some cr"
      and del: "pg_delete_completion c (lc_id cr) d = Inr (v, d1)"
      and nst: "set_slot ?i (\<lambda>r. r\<lparr>ls_status := NoShowTeacher,
                     ls_marked_at := Some (coalesce (ls_marked_at r) (pg_now c))\<rparr>) d1 = Inr (w, d')"
      using args(2)
      by (auto simp: chain_blame_teacher_def set_no_show_teacher_def bindR_eq_Inr_iff split: option.splits)
    have one: "only_slot ?i Booked d d1" by (rule delete_only_slot [OF inv cr r del])
    then obtain r1 where "slot_by_id d1 ?i = Some r1" by (auto simp: only_slot_def)
    from set_only_slot [OF nst this] one blame(2) show ?thesis by (auto intro: only_slot_trans)
  next
    case mark
    then show ?thesis using r by (intro chain_mark_only_slot)
  next
    case nst
    then obtain w where "set_slot ?i (\<lambda>r. r\<lparr>ls_status := NoShowTeacher,
                     ls_marked_at := Some (coalesce (ls_marked_at r) (pg_now c))\<rparr>) d = Inr (w, d')"
      by (auto simp: set_no_show_teacher_def bindR_eq_Inr_iff)
    from set_only_slot [OF this r] nst(2) show ?thesis by simp
  next
    case booked
    from set_only_slot [OF booked(1) [unfolded set_booked_def] r] booked(2) show ?thesis by simp
  next
    case remark
    then obtain v d1 where b: "set_booked ?i d = Inr (v, d1)" and m: "chain_mark c n args d1 = Inr (None, d')"
      by (auto simp: chain_remark_def bindR_eq_Inr_iff split: if_splits)
    have one: "only_slot ?i Booked d d1" using set_only_slot [OF b [unfolded set_booked_def] r] by simp
    then obtain r1 where "slot_by_id d1 ?i = Some r1" "ls_status r1 = Booked" by (auto simp: only_slot_def)
    with one m remark(3) show ?thesis by (auto intro: only_slot_trans chain_mark_only_slot)
  qed
qed

lemma completion_iff_billable:
  assumes inv: "ledger_inv d" and r: "slot_by_id d i = Some r"
  shows "completion_of_slot d i \<noteq> None \<longleftrightarrow> billable r"
proof
  assume "completion_of_slot d i \<noteq> None"
  then obtain cr where "cr \<in> set (lesson_completions d)" "lc_slot_id cr = i"
    using completion_of_slot_SomeD by blast
  then obtain x where x: "x \<in> set (lesson_slots d)" "ls_id x = i" "billable x"
    using inv unfolding ledger_inv_def completion_sync_def completion_backed_def billable_def by auto
  with slot_by_id_unique [OF ledger_inv_keys [OF inv] r x(1,2)] show "billable r" by simp
next
  assume "billable r"
  then show "completion_of_slot d i \<noteq> None"
    using inv slot_by_id_SomeD [OF r]
    unfolding ledger_inv_def completion_sync_def completion_of_slot_None_iff by blast
qed

lemma chain_personal_refused:
  assumes inv: "ledger_inv d" and r: "slot_by_id d (ca_slotId args) = Some r" "ls_source r = Some SrcPersonalEvent"
    and args: "ca_fromStatus args = ls_status r" "ca_completion args = completion_of_slot d (ca_slotId args)"
  shows "applyLessonChainInTx c n args d \<noteq> Inr (None, d')"
proof -
  have "ls_status r \<in> {PersonalEvent, Completed, Cancelled}"
    using slot_by_id_check [OF ledger_inv_schema [OF inv] r(1)] r(2)
    by (simp add: slot_check_def check_personal_event_def)
  moreover have "completion_of_slot d (ca_slotId args) = None"
    using completion_iff_billable [OF inv r(1)] r(2) by (simp add: billable_def)
  ultimately show ?thesis
    using args by (auto simp: applyLessonChainInTx_def Let_def chain_flip_def chain_unmark_def
        chain_blame_teacher_def)
qed

lemma update_audit:
  "pg_update_slot i P f d = Inr (ro, d') \<Longrightarrow> audit_lesson_status_change d' = audit_lesson_status_change d"
  by (cases ro) (auto dest: pg_update_slot_NoneD elim!: pg_update_slot_SomeE)

lemma set_slot_audit:
  "set_slot i f d = Inr (u, d') \<Longrightarrow> audit_lesson_status_change d' = audit_lesson_status_change d"
  by (auto simp: set_slot_def bindR_eq_Inr_iff dest: update_audit)

lemma delete_audit:
  "pg_delete_completion c i d = Inr (u, d') \<Longrightarrow> audit_lesson_status_change d' = audit_lesson_status_change d"
  by (auto simp: pg_delete_completion_def lesson_completion_revert_def bindR_eq_Inr_iff
      split: option.splits dest!: update_audit)

lemma insert_audit_kept:
  assumes "pg_insert_completion c row d = Inr (x, d')"
  shows "audit_lesson_status_change d' = audit_lesson_status_change d"
proof -
  from assms obtain so where
    "lesson_completion_apply c row (d\<lparr>lesson_completions := lesson_completions d @ [row]\<rparr>) = Inr (so, d')"
    by (auto simp: pg_insert_completion_def pg_insert_completion_or_skip_def bindR_eq_Inr_iff
        split: option.splits if_splits)
  from update_audit [OF this [unfolded lesson_completion_apply_def]] show ?thesis by simp
qed

lemma was_no_show_audit [simp]:
  "audit_lesson_status_change (pg_set_was_no_show i b d) = audit_lesson_status_change d"
  by (simp add: pg_set_was_no_show_def)

lemma chain_audit:
  "chain_flip i args b d = Inr (u, d') \<Longrightarrow> audit_lesson_status_change d' = audit_lesson_status_change d"
  "chain_unmark c args d = Inr (u, d') \<Longrightarrow> audit_lesson_status_change d' = audit_lesson_status_change d"
  "set_no_show_teacher c i d = Inr (u, d') \<Longrightarrow> audit_lesson_status_change d' = audit_lesson_status_change d"
  "chain_mark c n args d = Inr (u, d') \<Longrightarrow> audit_lesson_status_change d' = audit_lesson_status_change d"
  "set_booked i d = Inr (v, d') \<Longrightarrow> audit_lesson_status_change d' = audit_lesson_status_change d"
proof -
  show "chain_flip i args b d = Inr (u, d') \<Longrightarrow> audit_lesson_status_change d' = audit_lesson_status_change d"
    by (auto simp: chain_flip_def bindR_eq_Inr_iff split: option.splits dest: set_slot_audit)
  show "chain_unmark c args d = Inr (u, d') \<Longrightarrow> audit_lesson_status_change d' = audit_lesson_status_change d"
    by (auto simp: chain_unmark_def bindR_eq_Inr_iff split: option.splits dest: delete_audit)
  show "set_no_show_teacher c i d = Inr (u, d') \<Longrightarrow> audit_lesson_status_change d' = audit_lesson_status_change d"
    by (auto simp: set_no_show_teacher_def bindR_eq_Inr_iff dest: set_slot_audit)
  show "chain_mark c n args d = Inr (u, d') \<Longrightarrow> audit_lesson_status_change d' = audit_lesson_status_change d"
    by (auto simp: chain_mark_def bindR_eq_Inr_iff split: if_splits dest!: set_slot_audit insert_audit_kept)
  show "set_booked i d = Inr (v, d') \<Longrightarrow> audit_lesson_status_change d' = audit_lesson_status_change d"
    by (auto simp: set_booked_def dest: set_slot_audit)
qed

lemma chain_two_step_audit:
  "chain_blame_teacher c args d = Inr (u, d') \<Longrightarrow> audit_lesson_status_change d' = audit_lesson_status_change d"
  "chain_remark c n args d = Inr (u, d') \<Longrightarrow> audit_lesson_status_change d' = audit_lesson_status_change d"
proof -
  show "chain_blame_teacher c args d = Inr (u, d') \<Longrightarrow> audit_lesson_status_change d' = audit_lesson_status_change d"
    by (auto simp: chain_blame_teacher_def bindR_eq_Inr_iff split: option.splits
        dest!: delete_audit chain_audit(3))
  show "chain_remark c n args d = Inr (u, d') \<Longrightarrow> audit_lesson_status_change d' = audit_lesson_status_change d"
    by (auto simp: chain_remark_def bindR_eq_Inr_iff split: if_splits dest!: chain_audit(4,5))
qed

lemma applyLessonChainInTx_audit:
  assumes "applyLessonChainInTx c n args d = Inr (u, d')"
  shows "audit_lesson_status_change d' = audit_lesson_status_change d"
proof -
  consider "d' = d" | b where "chain_flip (ca_slotId args) args b d = Inr (u, d')"
    | "chain_unmark c args d = Inr (u, d')" | "chain_blame_teacher c args d = Inr (u, d')"
    | "chain_mark c n args d = Inr (u, d')" | "set_no_show_teacher c (ca_slotId args) d = Inr (u, d')"
    | v where "set_booked (ca_slotId args) d = Inr (v, d')" | "chain_remark c n args d = Inr (u, d')"
    using assms by (auto simp: applyLessonChainInTx_def Let_def bindR_eq_Inr_iff split: if_splits)
  then show ?thesis by cases (auto dest: chain_audit chain_two_step_audit)
qed

text \<open>
  When a teacher's status change of a lesson is accepted, the lesson was theirs, had ended
  and was read at the version the token names; it is now in the requested status, all other
  lessons are untouched, a completion exists exactly when the new status is billable, and the
  change is on record: one audit row more, with the old and the new status. When it is refused,
  nothing changed.
\<close>

theorem changeLessonStatus_effect:
  assumes inv: "ledger_inv d" and stable: "teacher_stable pre d"
    and ok: "changeLessonStatus c n a input pre d = Inr (res, d')"
  shows "case res of
     Inl reason \<Rightarrow> d' = d
   | Inr r \<Rightarrow> (let i = pg_uuid (ci_slotId input); to = lesson_target_status (ci_toStatus input) in
       \<exists>row row' audit. slot_by_id d i = Some row \<and> slot_by_id d' i = Some row'
         \<and> ls_teacher_account_id row = ci_teacherAccountId input
         \<and> ci_expectedUpdatedAt input = Some (js_date (ls_updated_at row))
         \<and> change_end_ms row \<le> js_now c
         \<and> ls_status row' = to \<and> ls_status row \<noteq> to
         \<and> (\<forall>j. j \<noteq> i \<longrightarrow> slot_by_id d' j = slot_by_id d j)
         \<and> (completion_of_slot d' i \<noteq> None \<longleftrightarrow> to \<in> {Completed, NoShowLearner})
         \<and> audit_lesson_status_change d' = audit_lesson_status_change d @ [audit]
         \<and> au_from_status audit = ls_status row \<and> au_to_status audit = to \<and> au_slot_id audit = i)"
proof (cases res)
  case (Inl reason)
  with ok show ?thesis
    by (auto simp: changeLessonStatus_def change_lesson_locked_def change_lesson_commit_def Let_def
        bindR_eq_Inr_iff split: if_splits option.splits)
next
  case (Inr r)
  let ?i = "pg_uuid (ci_slotId input)" and ?to = "lesson_target_status (ci_toStatus input)"
  from ok Inr obtain preRow row where pr: "slot_by_id pre ?i = Some preRow" "pre_read_refusal input preRow = None"
    and row: "slot_by_id d ?i = Some row" and gate: "locked_refusal c input row = Inr None"
    and locked: "change_lesson_locked c n a input row d = Inr (Inr r, d')"
    by (auto simp: changeLessonStatus_def bindR_eq_Inr_iff split: if_splits option.splits)
  have tch: "ls_teacher_account_id row = ci_teacherAccountId input"
    using stable slot_by_id_SomeD [OF pr(1)] slot_by_id_SomeD [OF row] pr(2)
    by (auto simp: teacher_stable_def pre_read_refusal_def split: if_splits)
  have guards: "ci_expectedUpdatedAt input = Some (js_date (ls_updated_at row))"
    "change_end_ms row \<le> js_now c" "ls_status row \<noteq> ?to"
    using gate by (auto simp: locked_refusal_def split: option.splits if_splits)
  let ?args = "chain_args_of input row (completion_of_slot d ?i)"
  from locked obtain d1 where chain: "applyLessonChainInTx c n ?args d = Inr (None, d1)"
    and commit: "change_lesson_commit c a input row d1 = Inr (Inr r, d')"
    by (auto simp: change_lesson_locked_def Let_def bindR_eq_Inr_iff split: option.splits if_splits)
  have one: "only_slot ?i ?to d d1"
    using applyLessonChainInTx_only_slot [OF inv _ _ _ chain, of row] row by (simp add: chain_args_of_def)
  from commit obtain b d2 audit u where
    bump: "pg_update_slot ?i (\<lambda>_. True) (\<lambda>r. r\<lparr>ls_updated_at := pg_now c\<rparr>) d1 = Inr (Some b, d2)"
    and ins: "insert_audit audit d2 = Inr (u, d')"
    and audit: "au_from_status audit = ls_status row" "au_to_status audit = ?to" "au_slot_id audit = ?i"
    by (auto simp: change_lesson_commit_def bindR_eq_Inr_iff split: option.splits)
  obtain r1 where r1: "slot_by_id d1 ?i = Some r1" "ls_status r1 = ?to" using one by (auto simp: only_slot_def)
  have two: "only_slot ?i ?to d1 d2" by (rule update_only_slot [OF bump _ r1(1)]) (simp_all add: r1(2))
  have d': "d' = d2\<lparr>audit_lesson_status_change := audit_lesson_status_change d2 @ [audit]\<rparr>"
    using ins by (auto simp: insert_audit_def split: if_splits)
  have all: "only_slot ?i ?to d d'"
    using only_slot_trans [OF one two] by (simp add: only_slot_def d' slot_by_id_def)
  then obtain row' where row': "slot_by_id d' ?i = Some row'" "ls_status row' = ?to" by (auto simp: only_slot_def)
  have "audit_lesson_status_change d1 = audit_lesson_status_change d"
    using chain by (rule applyLessonChainInTx_audit)
  moreover have "audit_lesson_status_change d2 = audit_lesson_status_change d1"
    using bump by (auto elim!: pg_update_slot_SomeE)
  ultimately have trail: "audit_lesson_status_change d' = audit_lesson_status_change d @ [audit]" by (simp add: d')
  have inv': "ledger_inv d'" by (rule changeLessonStatus_inv [OF inv stable ok])
  have "ls_source row \<noteq> Some SrcPersonalEvent"
    using chain_personal_refused [OF inv, of ?args row] row chain by (auto simp: chain_args_of_def)
  then have src: "ls_source row' \<noteq> Some SrcPersonalEvent"
    using all row row'(1) by (auto simp: only_slot_def)
  have "completion_of_slot d' ?i \<noteq> None \<longleftrightarrow> billable row'"
    by (rule completion_iff_billable [OF inv' row'(1)])
  then have "completion_of_slot d' ?i \<noteq> None \<longleftrightarrow> ?to \<in> {Completed, NoShowLearner}"
    using src row'(2) by (simp add: billable_def)
  then show ?thesis
    using row row' tch guards all trail audit unfolding Inr sum.case Let_def only_slot_def
    by (intro exI [of _ row] exI [of _ row'] exI [of _ audit] conjI) simp_all
qed

definition sample_change :: change_lesson_input where
  "sample_change =
     \<lparr>ci_slotId = uuid_of CHR ''1'', ci_teacherAccountId = uuid_of CHR ''a'',
      ci_toStatus = LtNoShowLearner, ci_expectedUpdatedAt = Some 1767500000000, ci_notifyIntent = True\<rparr>"

text \<open>A completed lesson is corrected to a no-show of the learner.\<close>

theorem changeLessonStatus_effect_witness:
  "\<exists>r d' row'. changeLessonStatus later_clock (uuid_of CHR ''6'') (uuid_of CHR ''7'') sample_change
       sample_partly_paid sample_partly_paid = Inr (Inr r, d')
     \<and> slot_by_id d' (uuid_of CHR ''1'') = Some row' \<and> ls_status row' = NoShowLearner"
proof -
  let ?run = "changeLessonStatus later_clock (uuid_of CHR ''6'') (uuid_of CHR ''7'') sample_change
       sample_partly_paid sample_partly_paid"
  have "case ?run of Inr (Inr _, _) \<Rightarrow> True | _ \<Rightarrow> False" by code_simp
  then obtain r d' where ok: "?run = Inr (Inr r, d')"
    by (auto split: sum.splits)
  have "teacher_stable sample_partly_paid sample_partly_paid"
    by (simp add: teacher_stable_def sample_partly_paid_def)
  from changeLessonStatus_effect [OF sample_partly_paid_inv this ok]
  have "\<exists>row'. slot_by_id d' (uuid_of CHR ''1'') = Some row' \<and> ls_status row' = NoShowLearner"
    by (auto simp: Let_def sample_change_def lower_hex_def)
  with ok show ?thesis by blast
qed

text \<open>
  Bringing a cancelled personal event back, to active or to done, is an uncaught failure
  of the unique index when the teacher has meanwhile put something else at the same time: the
  function then throws instead of answering with a reason.
\<close>

theorem changeDealStatus_reopen_collision:
  assumes inv: "ledger_inv d" and pat: "uuid_pattern (cd_slotId input)"
    and row: "slot_by_id d (pg_uuid (cd_slotId input)) = Some row"
    and "ls_teacher_account_id row = cd_teacherAccountId input" "ls_source row = Some SrcPersonalEvent"
      "ls_status row = Cancelled" "cd_expectedUpdatedAt input = Some (js_date (ls_updated_at row))"
      "cd_toStatus input \<noteq> DtCancelled"
    and other: "x \<in> set (lesson_slots d)" "ls_id x \<noteq> ls_id row" "ls_status x \<noteq> Cancelled"
      "ls_teacher_account_id x = ls_teacher_account_id row" "ls_start_at x = ls_start_at row"
    and "ls_tariff_id row = None"
  shows "changeDealStatus c a input d = Inl (PgErr UniqueViolation)"
proof -
  have chk: "slot_check row" by (rule slot_by_id_check [OF ledger_inv_schema [OF inv] row])
  have clash: "pg_update_slot (pg_uuid (cd_slotId input)) (\<lambda>_. True) f d = Inl (PgErr UniqueViolation)"
    if f: "ls_id (f row) = ls_id row" "ls_teacher_account_id (f row) = ls_teacher_account_id row"
      "ls_start_at (f row) = ls_start_at row" "ls_status (f row) \<noteq> Cancelled"
      "ls_tariff_id (f row) = None" "ls_snapshot_amount_kopecks (f row) = ls_snapshot_amount_kopecks row"
      "slot_check (f row)" for f
  proof -
    have same: "snapshot_on_book d (f row) = f row"
      using f(5,6) by (simp add: snapshot_on_book_def snapshot_value_def split: option.split)
    have "slot_conflict d (f row)"
      using other f by (auto simp: slot_conflict_def list_ex_iff same_lane_def)
    with same f row show ?thesis by (simp add: pg_update_slot_def Let_def snapshot_frozen_def)
  qed
  have ok1: "slot_check (row\<lparr>ls_status := PersonalEvent, ls_cancelled_at := None,
        ls_cancelled_by_account_id := None, ls_cancellation_reason := None\<rparr>)"
    and ok2: "slot_check (row\<lparr>ls_status := Completed, ls_marked_at := Some (pg_now c),
        ls_cancelled_at := None, ls_cancelled_by_account_id := None, ls_cancellation_reason := None\<rparr>)"
    using chk assms(5) by (auto simp: slot_check_defs split: option.splits)
  show ?thesis
  proof (cases "cd_toStatus input")
    case DtPersonalEvent
    with assms ok1 show ?thesis
      by (simp add: changeDealStatus_def applyDealChainInTx_def set_slot_def clash)
  next
    case DtCompleted
    with assms ok2 show ?thesis
      by (simp add: changeDealStatus_def applyDealChainInTx_def set_slot_def clash)
  qed (use assms(8) in simp)
qed

definition sample_event :: slot_row where
  "sample_event = sample_slot\<lparr>ls_id := uuid_of CHR ''2'', ls_status := Cancelled,
     ls_learner_account_id := None, ls_booked_at := None, ls_cancelled_at := Some 1767510000000000,
     ls_snapshot_amount_kopecks := None, ls_source := Some SrcPersonalEvent,
     ls_personal_event_title := Some (js ''gym'')\<rparr>"

definition sample_event_db :: db where
  "sample_event_db = empty_db\<lparr>lesson_slots := [sample_slot, sample_event]\<rparr>"

lemma sample_event_db_inv: "ledger_inv sample_event_db"
proof -
  have "slot_check sample_event"
    using sample_slot_check by (simp add: slot_check_defs sample_slot_def sample_event_def js_def sql_char_length_def)
  with sample_slot_check show ?thesis
    by (simp add: sample_event_db_def empty_db_def ledger_inv_def schema_ok_def keys_ok_def lanes_ok_def
        checks_ok_def completion_sync_def billable_def consumption_sync_def capacity_ok_def coverage_ok_def
        same_lane_def) (simp add: sample_slot_def sample_event_def)
qed

definition sample_deal :: change_deal_input where
  "sample_deal = \<lparr>cd_slotId = uuid_of CHR ''2'', cd_teacherAccountId = uuid_of CHR ''a'',
     cd_toStatus = DtPersonalEvent, cd_expectedUpdatedAt = Some 1767500000000\<rparr>"

theorem changeDealStatus_reopen_collision_witness:
  "changeDealStatus later_clock (uuid_of CHR ''7'') sample_deal sample_event_db = Inl (PgErr UniqueViolation)"
proof -
  have row: "slot_by_id sample_event_db (pg_uuid (cd_slotId sample_deal)) = Some sample_event"
    by (simp add: slot_by_id_def find_by_def sample_event_db_def sample_deal_def sample_event_def
        sample_slot_def lower_hex_def)
  show ?thesis
    by (rule changeDealStatus_reopen_collision [OF sample_event_db_inv _ row, of sample_slot])
      (simp_all add: sample_deal_def sample_event_def sample_slot_def sample_event_db_def hex_digit_def
        js_date_def us_per_ms_def)
qed

end
