(* ===== verification/Personal_Events.thy ===== *)
theory Personal_Events
  imports Change_Status
begin

text \<open>
  \<open>src/lib/scheduling/slots/personal-events.ts\<close>: a teacher's own events share the table of the
  lessons. Creating one competes for the (teacher, start) lane like a lesson does; a text
  field that is absent is \<open>None\<close>.
\<close>

definition MAX_PERSONAL_EVENT_TITLE_LEN :: nat where "MAX_PERSONAL_EVENT_TITLE_LEN = 80"
definition MAX_PERSONAL_EVENT_BODY_LEN :: nat where "MAX_PERSONAL_EVENT_BODY_LEN = 2000"

record personal_event_input =
  pe_startAt :: "millis option"
  pe_durationMinutes :: js_num
  pe_title :: "js_text option"
  pe_body :: "js_text option"

datatype create_event_refusal =
  EvInvalidTitle | EvTitleTooLong | EvBodyTooLong | EvInvalidDuration | EvInvalidStartAt | EvConflict

text \<open>A slot row with every column at its default.\<close>

definition blank_slot :: "clock \<Rightarrow> uuid \<Rightarrow> uuid \<Rightarrow> micros \<Rightarrow> int \<Rightarrow> slot_status \<Rightarrow> slot_row" where
  "blank_slot c newId teacher start dur status =
     \<lparr>ls_id = newId, ls_teacher_account_id = teacher, ls_start_at = start,
      ls_duration_minutes = dur, ls_status = status, ls_learner_account_id = None,
      ls_booked_at = None, ls_cancelled_at = None, ls_cancelled_by_account_id = None,
      ls_cancellation_reason = None, ls_marked_at = None, ls_tariff_id = None,
      ls_snapshot_amount_kopecks = None, ls_notes = None, ls_agenda = None, ls_zoom_url = None,
      ls_external_conflict_at = None, ls_source = None, ls_personal_event_title = None,
      ls_personal_event_body = None, ls_legacy_grandfathered = False, ls_events = [],
      ls_created_at = pg_now c, ls_updated_at = pg_now c\<rparr>"

definition event_insert ::
  "clock \<Rightarrow> uuid \<Rightarrow> uuid \<Rightarrow> millis \<Rightarrow> int \<Rightarrow> js_text \<Rightarrow> js_text option \<Rightarrow> db
   \<Rightarrow> (create_event_refusal + slot_row) outcome" where
  "event_insert c newId teacherAccountId startMs durationMinutes title body d =
     (case pg_insert_slot
            ((blank_slot c newId teacherAccountId (startMs * us_per_ms) durationMinutes PersonalEvent)
             \<lparr>ls_source := Some SrcPersonalEvent, ls_personal_event_title := Some title,
              ls_personal_event_body := body,
              ls_events := appendEventSql c ''personal_event_created'' (Some teacherAccountId)
                             (Some [(''title'', VText title)])\<rparr>) d of
        Inl (PgErr UniqueViolation) \<Rightarrow> Inr (Inl EvConflict, d)
      | Inl e \<Rightarrow> Inl e
      | Inr (row, d') \<Rightarrow> Inr (Inr row, d'))"

definition createPersonalEvent ::
  "clock \<Rightarrow> uuid \<Rightarrow> uuid \<Rightarrow> personal_event_input \<Rightarrow> db \<Rightarrow> (create_event_refusal + slot_row) outcome" where
  "createPersonalEvent c newId teacherAccountId input d =
     (let title = js_trim (coalesce (pe_title input) []);
          bodyRaw = map_option js_trim (pe_body input);
          body = (case bodyRaw of Some [] \<Rightarrow> None | x \<Rightarrow> x)
      in if length title = 0 then Inr (Inl EvInvalidTitle, d)
         else if length title > MAX_PERSONAL_EVENT_TITLE_LEN then Inr (Inl EvTitleTooLong, d)
         else if (case body of None \<Rightarrow> False | Some b \<Rightarrow> length b > MAX_PERSONAL_EVENT_BODY_LEN)
         then Inr (Inl EvBodyTooLong, d)
         else if pe_durationMinutes input = JsNonInt \<or> js_int (pe_durationMinutes input) < 15
                 \<or> js_int (pe_durationMinutes input) > 180
         then Inr (Inl EvInvalidDuration, d)
         else case pe_startAt input of
                None \<Rightarrow> Inr (Inl EvInvalidStartAt, d)
              | Some startMs \<Rightarrow>
                  event_insert c newId teacherAccountId startMs (js_int (pe_durationMinutes input))
                    title body d)"

datatype event_refusal = EvNotFound | EvWrongStatus | EvNotOwner

definition transitionPersonalEvent ::
  "clock \<Rightarrow> string \<Rightarrow> uuid \<Rightarrow> bool \<Rightarrow> string \<Rightarrow> js_text option \<Rightarrow> db
   \<Rightarrow> (event_refusal + slot_row) outcome" where
  "transitionPersonalEvent c slotId teacherAccountId cancelled eventKind cancellationReason d =
     (if \<not> uuid_pattern slotId then Inl (PgErr InvalidUuidText)
      else case slot_by_id d (pg_uuid slotId) of
        None \<Rightarrow> Inr (Inl EvNotFound, d)
      | Some row \<Rightarrow>
          if ls_teacher_account_id row \<noteq> teacherAccountId then Inr (Inl EvNotOwner, d)
          else if ls_source row \<noteq> Some SrcPersonalEvent \<or> ls_status row \<noteq> PersonalEvent
          then Inr (Inl EvWrongStatus, d)
          else
            bindR (pg_update_slot (pg_uuid slotId) (\<lambda>_. True)
                (\<lambda>r. r\<lparr>ls_status := (if cancelled then Cancelled else Completed),
                       ls_cancelled_at := (if cancelled then Some (pg_now c) else ls_cancelled_at r),
                       ls_cancelled_by_account_id :=
                         (if cancelled then Some teacherAccountId else ls_cancelled_by_account_id r),
                       ls_cancellation_reason :=
                         (if cancelled then cancellationReason else ls_cancellation_reason r),
                       ls_marked_at := (if cancelled then ls_marked_at r else Some (pg_now c)),
                       ls_events := ls_events r @
                         appendEventSql c eventKind (Some teacherAccountId)
                           (Some [(''reason'', (case cancellationReason of
                              None \<Rightarrow> VNull | Some t \<Rightarrow> VText t))]),
                       ls_updated_at := pg_now c\<rparr>) d)
              (\<lambda>(upd, d1). case upd of
                   None \<Rightarrow> Inl TypeErrorUndefined
                 | Some r \<Rightarrow> Inr (Inr r, d1)))"

definition completePersonalEvent :: "clock \<Rightarrow> string \<Rightarrow> uuid \<Rightarrow> db \<Rightarrow> (event_refusal + slot_row) outcome" where
  "completePersonalEvent c slotId teacherAccountId d =
     transitionPersonalEvent c slotId teacherAccountId False ''personal_event_completed'' None d"

definition cancelPersonalEventByTeacher ::
  "clock \<Rightarrow> string \<Rightarrow> uuid \<Rightarrow> js_text option \<Rightarrow> db \<Rightarrow> (event_refusal + slot_row) outcome" where
  "cancelPersonalEventByTeacher c slotId teacherAccountId reason d =
     transitionPersonalEvent c slotId teacherAccountId True ''personal_event_cancelled'' reason d"

definition listPersonalEventsForTeacher ::
  "uuid \<Rightarrow> nat option \<Rightarrow> bool option \<Rightarrow> db \<Rightarrow> slot_row list" where
  "listPersonalEventsForTeacher teacherAccountId limit includeTerminal d =
     take (coalesce limit 100)
       (order_by (\<lambda>a b. ls_start_at a > ls_start_at b)
         (filter (\<lambda>s. ls_teacher_account_id s = teacherAccountId \<and> ls_source s = Some SrcPersonalEvent
                      \<and> (coalesce includeTerminal True \<or> ls_status s = PersonalEvent))
            (lesson_slots d)))"

section \<open>The ledger is kept\<close>

lemma createPersonalEvent_inv:
  assumes inv: "ledger_inv d" and ok: "createPersonalEvent c n t input d = Inr (res, d')"
  shows "ledger_inv d'"
proof (cases "d' = d")
  case False
  with ok obtain row r where ins: "pg_insert_slot row d = Inr (r, d')" and src: "ls_source row = Some SrcPersonalEvent"
    by (auto simp: createPersonalEvent_def event_insert_def Let_def
        split: if_splits option.splits sum.splits exn.splits pg_error.splits)
  show ?thesis by (rule pg_insert_slot_inv [OF inv ins]) (simp add: billable_def src)
qed (use inv in simp)

lemma transitionPersonalEvent_inv:
  assumes inv: "ledger_inv d" and ok: "transitionPersonalEvent c i t b k reason d = Inr (res, d')"
  shows "ledger_inv d'"
proof (cases "d' = d")
  case False
  from ok False obtain row f r' where row: "slot_by_id d (pg_uuid i) = Some row" "ls_source row = Some SrcPersonalEvent"
    and upd: "pg_update_slot (pg_uuid i) (\<lambda>_. True) f d = Inr (Some r', d')"
    and f: "\<And>x. ls_id (f x) = ls_id x \<and> ls_teacher_account_id (f x) = ls_teacher_account_id x
      \<and> ls_source (f x) = ls_source x"
    by (auto simp: transitionPersonalEvent_def bindR_eq_Inr_iff split: if_splits option.splits)
  have "ledger_inv_but (pg_uuid i) d'"
    by (rule pg_update_slot_inv_but [OF inv upd]) (use f row in \<open>auto simp: billable_def\<close>)
  moreover have "package_consumptions d' = package_consumptions d" using pg_update_slot_eff [OF upd row(1)] by simp
  ultimately show ?thesis
    using personal_no_unit [OF inv row] by (intro ledger_inv_but_unheld [of "pg_uuid i"]) auto
qed (use inv in simp)

section \<open>Properties\<close>

text \<open>
  A teacher's event never overlaps the start of another live row of theirs: creating one
  answers with a conflict exactly when that teacher already has a row at that start that is not
  cancelled (given a valid input and a fresh id), and otherwise inserts exactly one active
  event that the teacher's list then shows.
\<close>

theorem createPersonalEvent_conflict_iff:
  assumes inv: "ledger_inv d" and fresh: "slot_by_id d n = None"
    and ok: "createPersonalEvent c n t input d = Inr (res, d')"
    and valid: "res \<notin> Inl ` {EvInvalidTitle, EvTitleTooLong, EvBodyTooLong, EvInvalidDuration, EvInvalidStartAt}"
    and start: "pe_startAt input = Some s"
  shows "(res = Inl EvConflict \<longleftrightarrow>
       (\<exists>x \<in> set (lesson_slots d). ls_status x \<noteq> Cancelled \<and> ls_teacher_account_id x = t
          \<and> ls_start_at x = s * us_per_ms))
    \<and> (res = Inl EvConflict \<longrightarrow> d' = d)
    \<and> (\<forall>r. res = Inr r \<longrightarrow> ls_id r = n \<and> lesson_slots d' = lesson_slots d @ [r]
         \<and> ls_status r = PersonalEvent \<and> r \<in> set (order_by (\<lambda>a b. ls_start_at a > ls_start_at b)
              (filter (\<lambda>s. ls_teacher_account_id s = t \<and> ls_source s = Some SrcPersonalEvent)
                (lesson_slots d'))))"
proof -
  from ok valid start obtain title body dur where
    ins: "event_insert c n t s dur title body d = Inr (res, d')"
    by (auto simp: createPersonalEvent_def Let_def split: if_splits)
  let ?row = "(blank_slot c n t (s * us_per_ms) dur PersonalEvent)
             \<lparr>ls_source := Some SrcPersonalEvent, ls_personal_event_title := Some title,
              ls_personal_event_body := body,
              ls_events := appendEventSql c ''personal_event_created'' (Some t)
                             (Some [(''title'', VText title)])\<rparr>"
  have same: "snapshot_on_book d ?row = ?row"
    by (simp add: snapshot_on_book_def snapshot_value_def blank_slot_def)
  have ids: "ls_id x \<noteq> n" if "x \<in> set (lesson_slots d)" for x
    using fresh that by (auto simp: slot_by_id_def find_by_None_iff)
  have clash: "slot_conflict d ?row \<longleftrightarrow> (\<exists>x \<in> set (lesson_slots d). ls_status x \<noteq> Cancelled
      \<and> ls_teacher_account_id x = t \<and> ls_start_at x = s * us_per_ms)"
    using ids by (auto simp: slot_conflict_def list_ex_iff same_lane_def blank_slot_def)
  have chk: "slot_check ?row"
    using ins unfolding event_insert_def pg_insert_slot_def Let_def same by (auto split: if_splits)
  show ?thesis
  proof (cases "slot_conflict d ?row")
    case True
    then have "res = Inl EvConflict \<and> d' = d"
      using ins chk unfolding event_insert_def pg_insert_slot_def Let_def same by simp
    with True clash show ?thesis by simp
  next
    case False
    then have "res = Inr ?row" "d' = d\<lparr>lesson_slots := lesson_slots d @ [?row]\<rparr>"
      using ins chk fresh unfolding event_insert_def pg_insert_slot_def Let_def same
      by (simp_all add: blank_slot_def)
    with False clash show ?thesis by (simp add: blank_slot_def)
  qed
qed

theorem createPersonalEvent_conflict_iff_witness:
  "\<exists>res d'. createPersonalEvent sample_clock (uuid_of CHR ''3'') (uuid_of CHR ''a'')
       \<lparr>pe_startAt = Some 1767596400000, pe_durationMinutes = JsInt 30,
        pe_title = Some (js ''gym''), pe_body = None\<rparr> sample_db = Inr (res, d') \<and> res = Inl EvConflict"
proof -
  let ?in = "\<lparr>pe_startAt = Some 1767596400000, pe_durationMinutes = JsInt 30,
        pe_title = Some (js ''gym''), pe_body = None\<rparr>"
  let ?run = "createPersonalEvent sample_clock (uuid_of CHR ''3'') (uuid_of CHR ''a'') ?in sample_db"
  have title: "js_trim (js ''gym'') = js ''gym''" "length (js ''gym'') = 3" "js ''gym'' \<noteq> []"
    by (simp_all add: js_trim_def js_def js_space_def)
  let ?row = "\<lambda>e. (blank_slot sample_clock (uuid_of CHR ''3'') (uuid_of CHR ''a'')
        (1767596400000 * us_per_ms) 30 PersonalEvent)
      \<lparr>ls_source := Some SrcPersonalEvent, ls_personal_event_title := Some (js ''gym''),
       ls_personal_event_body := None, ls_events := e\<rparr>"
  have same: "snapshot_on_book sample_db (?row e) = ?row e" for e
    by (simp add: snapshot_on_book_def snapshot_value_def blank_slot_def)
  have "sql_char_length (js ''gym'') = 3" by (simp add: sql_char_length_def js_def)
  then have chk: "slot_check (?row e)" for e
    by (simp add: blank_slot_def slot_check_defs msk_defs)
  have clash: "slot_conflict sample_db (?row e)" for e
    by (simp add: slot_conflict_def same_lane_def blank_slot_def sample_db_def sample_slot_def us_per_ms_def)
  have ins: "pg_insert_slot (?row e) sample_db = Inl (PgErr UniqueViolation)" for e
    using chk [of e] clash [of e] unfolding pg_insert_slot_def Let_def same by simp
  have run: "?run = Inr (Inl EvConflict, sample_db)"
    by (simp add: createPersonalEvent_def event_insert_def Let_def js_int_def title ins
        MAX_PERSONAL_EVENT_TITLE_LEN_def)
  have fresh: "slot_by_id sample_db (uuid_of CHR ''3'') = None"
    by (simp add: slot_by_id_def find_by_def sample_defs)
  have "\<exists>x \<in> set (lesson_slots sample_db). ls_status x \<noteq> Cancelled \<and> ls_teacher_account_id x = uuid_of CHR ''a''
          \<and> ls_start_at x = 1767596400000 * us_per_ms"
    by (simp add: sample_defs us_per_ms_def)
  with createPersonalEvent_conflict_iff [OF sample_db_inv fresh run, of 1767596400000] run show ?thesis
    by auto
qed

end
