(* ===== verification/Booking.thy ===== *)
theory Booking
  imports Personal_Events
begin

text \<open>
  \<open>src/lib/scheduling/slots/booking.ts\<close> with the gate on the external calendar
  (\<open>src/lib/calendar/freshness-sql.ts\<close>) and \<open>src/lib/billing/learner-payment-method.ts\<close>.
  \<open>BILLING_WAVE_ACTIVE\<close> is an argument. Every refusal rolls the transaction back.
\<close>

section \<open>The payment method of a teacher and a learner\<close>

datatype payment_method = MPostpaid | MNone

definition method_text :: "payment_method \<Rightarrow> string" where
  "method_text m = (case m of MPostpaid \<Rightarrow> ''postpaid'' | MNone \<Rightarrow> ''none'')"

definition assertMethod :: "string \<Rightarrow> exn + payment_method" where
  "assertMethod v =
     (if v = ''postpaid'' then Inr MPostpaid
      else if v = ''none'' then Inr MNone
      else Inl (JsError ''invalid payment_method''))"

definition preference_of :: "uuid \<Rightarrow> uuid \<Rightarrow> db \<Rightarrow> billing_preference_row option" where
  "preference_of teacherId learnerId d =
     find (\<lambda>p. bp_teacher_account_id p = teacherId \<and> bp_learner_account_id p = learnerId)
       (learner_billing_preferences d)"

definition getPaymentMethodForPair :: "uuid \<Rightarrow> uuid \<Rightarrow> db \<Rightarrow> exn + payment_method" where
  "getPaymentMethodForPair teacherId learnerId d =
     (case preference_of teacherId learnerId d of
        None \<Rightarrow> Inr MNone | Some p \<Rightarrow> assertMethod (bp_payment_method p))"

definition getPaymentMethodForPairTx :: "uuid \<Rightarrow> uuid \<Rightarrow> db \<Rightarrow> exn + payment_method" where
  "getPaymentMethodForPairTx teacherId learnerId d =
     (case preference_of teacherId learnerId d of
        None \<Rightarrow> Inr MNone | Some p \<Rightarrow> assertMethod (bp_payment_method p))"

fun upsert_preference ::
  "uuid \<Rightarrow> uuid \<Rightarrow> string \<Rightarrow> uuid \<Rightarrow> billing_preference_row list \<Rightarrow> billing_preference_row list" where
  "upsert_preference t l m actor [] =
     [\<lparr>bp_teacher_account_id = t, bp_learner_account_id = l, bp_payment_method = m,
       bp_updated_by_account_id = Some actor\<rparr>]"
| "upsert_preference t l m actor (p # ps) =
     (if bp_teacher_account_id p = t \<and> bp_learner_account_id p = l
      then p\<lparr>bp_payment_method := m, bp_updated_by_account_id := Some actor\<rparr> # ps
      else p # upsert_preference t l m actor ps)"

definition setPaymentMethodForPair ::
  "uuid \<Rightarrow> uuid \<Rightarrow> payment_method \<Rightarrow> uuid \<Rightarrow> db \<Rightarrow> (payment_method \<times> payment_method) outcome" where
  "setPaymentMethodForPair teacherId learnerId chosen byAccountId d =
     bindR (getPaymentMethodForPairTx teacherId learnerId d)
       (\<lambda>previousMethod. Inr ((previousMethod, chosen),
          d\<lparr>learner_billing_preferences :=
              upsert_preference teacherId learnerId (method_text chosen) byAccountId
                (learner_billing_preferences d),
            auth_audit_events := auth_audit_events d @
              [\<lparr>ae_event_type = ''auth.billing.method_changed'', ae_account_id = byAccountId,
                ae_payload = [(''learner_account_id'', learnerId),
                              (''from_method'', method_text previousMethod),
                              (''to_method'', method_text chosen)]\<rparr>]\<rparr>))"

section \<open>The gate on the external calendar\<close>

definition integration_fresh :: "clock \<Rightarrow> integration_row \<Rightarrow> bool" where
  "integration_fresh c tci \<longleftrightarrow>
     ci_sync_state tci = ''active''
     \<and> (case ci_last_pulled_at tci of None \<Rightarrow> False | Some t \<Rightarrow> t \<ge> pg_now c - 10 * us_per_minute)"

text \<open>\<open>tstzrange(b, e, '[)') && tstzrange(s, t, '[)')\<close> for ranges that are not reversed.\<close>

definition ranges_overlap :: "micros \<Rightarrow> micros \<Rightarrow> micros \<Rightarrow> micros \<Rightarrow> bool" where
  "ranges_overlap b e s t \<longleftrightarrow> b < e \<and> s < t \<and> b < t \<and> s < e"

definition busy_overlap :: "clock \<Rightarrow> uuid \<Rightarrow> micros \<Rightarrow> int \<Rightarrow> db \<Rightarrow> bool" where
  "busy_overlap c teacher start durationMinutes d \<longleftrightarrow>
     list_ex (\<lambda>b. eb_teacher_account_id b = teacher \<and> \<not> eb_is_own_event b
         \<and> list_ex (\<lambda>tci. ci_account_id tci = eb_teacher_account_id b \<and> integration_fresh c tci)
             (teacher_calendar_integrations d)
         \<and> ranges_overlap (eb_start_at b) (eb_end_at b)
             start (start + durationMinutes * us_per_minute))
       (teacher_external_busy_intervals d)"

section \<open>Booking\<close>

definition sanitizeAgenda :: "js_text option \<Rightarrow> js_text option" where
  "sanitizeAgenda input =
     (case input of
        None \<Rightarrow> None
      | Some t \<Rightarrow>
          let trimmed = js_trim t in
          if length trimmed = 0 then None
          else if length trimmed > MAX_AGENDA_LEN then None
          else Some trimmed)"

datatype book_actor = BookLearner | BookAdmin

definition book_actor_text :: "book_actor \<Rightarrow> string" where
  "book_actor_text a = (case a of BookLearner \<Rightarrow> ''learner'' | BookAdmin \<Rightarrow> ''admin'')"

definition book_billing_actor :: "book_actor \<Rightarrow> billing_actor" where
  "book_billing_actor a = (case a of BookLearner \<Rightarrow> ActorLearner | BookAdmin \<Rightarrow> ActorAdmin)"

record book_options =
  bo_agenda :: "js_text option"
  bo_expectedTeacherId :: "string option"

datatype book_billing =
    BillLegacy
  | BillPrepaid uuid int "millis option"
  | BillPostpaid uuid int string

datatype book_refusal =
  BookNotFound | BookNotOpen | BookInPast | BookSelfBlocked | BookExternalConflict
  | BookPaymentMethodNotSet | BookPendingPackageGrant | BookTariffRequired

definition pinned_teacher :: "book_options \<Rightarrow> string option" where
  "pinned_teacher options =
     (case bo_expectedTeacherId options of
        None \<Rightarrow> None
      | Some t \<Rightarrow> if t \<noteq> [] \<and> uuid_pattern t then Some t else None)"

text \<open>The WHERE clause and the SET clause of the reservation.\<close>

definition bookable :: "clock \<Rightarrow> uuid \<Rightarrow> string option \<Rightarrow> db \<Rightarrow> slot_row \<Rightarrow> bool" where
  "bookable c learner pinned d r \<longleftrightarrow>
     ls_status r = Open \<and> ls_start_at r > pg_now c \<and> ls_teacher_account_id r \<noteq> learner
     \<and> (case pinned of None \<Rightarrow> True | Some t \<Rightarrow> ls_teacher_account_id r = pg_uuid t)
     \<and> \<not> busy_overlap c (ls_teacher_account_id r) (ls_start_at r) (ls_duration_minutes r) d"

definition booked_row :: "clock \<Rightarrow> uuid \<Rightarrow> book_actor \<Rightarrow> js_text option \<Rightarrow> slot_row \<Rightarrow> slot_row" where
  "booked_row c learner actor agenda r =
     r\<lparr>ls_status := Booked, ls_learner_account_id := Some learner,
       ls_booked_at := Some (pg_now c), ls_agenda := agenda, ls_updated_at := pg_now c,
       ls_events := appendEventSql c ''slot.booked'' (Some (book_actor_text actor))
                      (Some [(''learnerAccountId'', VStr learner)]) @ ls_events r\<rparr>"

definition reserve_slot ::
  "clock \<Rightarrow> uuid \<Rightarrow> uuid \<Rightarrow> book_actor \<Rightarrow> book_options \<Rightarrow> db \<Rightarrow> slot_row option outcome" where
  "reserve_slot c slotId learner actor options d =
     pg_update_slot slotId (bookable c learner (pinned_teacher options) d)
       (booked_row c learner actor
          (if actor = BookLearner then sanitizeAgenda (bo_agenda options) else None)) d"

definition classifyBookSlotFailure :: "clock \<Rightarrow> uuid \<Rightarrow> uuid \<Rightarrow> string option \<Rightarrow> db \<Rightarrow> book_refusal" where
  "classifyBookSlotFailure c slotId learner pinned d =
     (case slot_by_id d slotId of
        None \<Rightarrow> BookNotFound
      | Some row \<Rightarrow>
          if (case pinned of None \<Rightarrow> False | Some t \<Rightarrow> ls_teacher_account_id row \<noteq> t)
          then BookNotFound
          else if ls_teacher_account_id row = learner then BookSelfBlocked
          else if js_date_via_string (ls_start_at row) \<le> js_now c then BookInPast
          else if ls_status row = Open
                  \<and> busy_overlap c (ls_teacher_account_id row)
                      (js_date_via_string (ls_start_at row) * us_per_ms) (ls_duration_minutes row) d
          then BookExternalConflict
          else BookNotOpen)"

definition private_no_access :: "uuid \<Rightarrow> slot_row \<Rightarrow> db \<Rightarrow> bool" where
  "private_no_access learner slot d \<longleftrightarrow>
     (case ls_tariff_id slot of
        None \<Rightarrow> False
      | Some t \<Rightarrow>
          (case tariff_by_id d t of
             None \<Rightarrow> False
           | Some x \<Rightarrow>
               pt_visibility x = Private
               \<and> \<not> list_ex (\<lambda>lta. ta_tariff_id lta = pt_id x \<and> ta_learner_account_id lta = learner
                                  \<and> ta_revoked_at lta = None) (learner_tariff_access d)))"

definition prepaid_billing :: "uuid \<Rightarrow> db \<Rightarrow> book_billing" where
  "prepaid_billing p d =
     (case purchase_by_id d p of
        None \<Rightarrow> BillPrepaid p 0 None
      | Some pp \<Rightarrow> BillPrepaid p (count_remaining d pp) (Some (js_date_via_string (pp_expires_at pp))))"

definition postpaid_billing :: "uuid \<Rightarrow> db \<Rightarrow> book_billing" where
  "postpaid_billing t d =
     (case tariff_by_id d t of
        None \<Rightarrow> BillPostpaid t 0 ''RUB''
      | Some x \<Rightarrow> BillPostpaid t (pt_amount_kopecks x) (pt_currency x))"

text \<open>Steps 3 to 6, on the reserved slot; \<open>d0\<close> is the state a rollback returns to.\<close>

definition bill_booking ::
  "clock \<Rightarrow> uuid \<Rightarrow> book_actor \<Rightarrow> slot_row \<Rightarrow> db \<Rightarrow> db \<Rightarrow> (book_refusal + slot_row \<times> book_billing) outcome" where
  "bill_booking c learner actor slot d0 d =
     bindR (getPaymentMethodForPairTx (ls_teacher_account_id slot) learner d)
       (\<lambda>chosen.
          if chosen = MNone then Inr (Inl BookPaymentMethodNotSet, d0)
          else case consumePackageUnit c learner (ls_id slot) (ls_duration_minutes slot)
                      (book_billing_actor actor) (ls_teacher_account_id slot) d of
            (Consumed p, d1) \<Rightarrow> Inr (Inr (slot, prepaid_billing p d1), d1)
          | (_, d1) \<Rightarrow>
              if accountHasPendingPackageGrantForDuration c learner (ls_duration_minutes slot)
                   (Some (ls_teacher_account_id slot)) d1
              then Inr (Inl BookPendingPackageGrant, d0)
              else case ls_tariff_id slot of
                None \<Rightarrow> Inr (Inl BookTariffRequired, d0)
              | Some t \<Rightarrow> Inr (Inr (slot, postpaid_billing t d1), d1))"

definition bookSlot ::
  "bool \<Rightarrow> clock \<Rightarrow> string \<Rightarrow> uuid \<Rightarrow> book_actor \<Rightarrow> book_options \<Rightarrow> db
   \<Rightarrow> (book_refusal + slot_row \<times> book_billing) outcome" where
  "bookSlot billingActive c slotId learner actor options d =
     (if \<not> uuid_pattern slotId then Inr (Inl BookNotFound, d)
      else
        bindR (reserve_slot c (pg_uuid slotId) learner actor options d)
          (\<lambda>(ro, d1). case ro of
               None \<Rightarrow> Inr (Inl (classifyBookSlotFailure c (pg_uuid slotId) learner
                                  (pinned_teacher options) d), d)
             | Some slot \<Rightarrow>
                 if \<not> billingActive then Inr (Inr (slot, BillLegacy), d1)
                 else if private_no_access learner slot d1 then Inr (Inl BookNotFound, d)
                 else bill_booking c learner actor slot d d1))"

section \<open>The agreements of the ledger are kept\<close>

lemma setPaymentMethodForPair_inv:
  assumes "ledger_inv d" and "setPaymentMethodForPair t l m a d = Inr (r, d')"
  shows "ledger_inv d'"
  using assms ledger_inv_cong [of d' d]
  by (auto simp: setPaymentMethodForPair_def bindR_eq_Inr_iff)

lemma reserve_slot_SomeE:
  assumes "reserve_slot c i learner actor options d = Inr (Some slot, d1)"
  obtains r agenda where "slot_by_id d i = Some r"
    and "bookable c learner (pinned_teacher options) d r"
    and "slot = snapshot_on_book d (booked_row c learner actor agenda r)"
    and "d1 = d\<lparr>lesson_slots := replace_row ls_id slot (lesson_slots d)\<rparr>"
    and "\<And>j. slot_by_id d1 j = (if j = i then Some slot else slot_by_id d j)"
proof -
  note upd = assms [unfolded reserve_slot_def]
  from slot_by_id_updated [OF upd]
  have "slot_by_id d1 j = (if j = i then Some slot else slot_by_id d j)" for j
    by (simp add: booked_row_def)
  with upd that show ?thesis by (auto elim!: pg_update_slot_SomeE)
qed

lemma booked_row_simps [simp]:
  "ls_id (booked_row c l a g r) = ls_id r"
  "ls_status (booked_row c l a g r) = Booked"
  "ls_learner_account_id (booked_row c l a g r) = Some l"
  "ls_teacher_account_id (booked_row c l a g r) = ls_teacher_account_id r"
  "ls_duration_minutes (booked_row c l a g r) = ls_duration_minutes r"
  "ls_start_at (booked_row c l a g r) = ls_start_at r"
  "ls_tariff_id (booked_row c l a g r) = ls_tariff_id r"
  by (simp_all add: booked_row_def)

lemma reserve_slot_inv:
  assumes "ledger_inv d" and "reserve_slot c i learner actor options d = Inr (ro, d1)"
  shows "ledger_inv d1"
  by (rule pg_update_slot_inv [OF assms(1) assms(2) [unfolded reserve_slot_def]])
    (auto simp: slot_step_safe_def bookable_def booked_row_def billable_def holds_unit_def)

text \<open>What a call that answers has done, case by case.\<close>

lemma bill_booking_cases:
  assumes "bill_booking c learner actor slot d0 d = Inr (res, d')"
  obtains e where "res = Inl e" and "d' = d0"
  | p where "res = Inr (slot, prepaid_billing p d')"
      and "getPaymentMethodForPairTx (ls_teacher_account_id slot) learner d = Inr MPostpaid"
      and "consumePackageUnit c learner (ls_id slot) (ls_duration_minutes slot)
             (book_billing_actor actor) (ls_teacher_account_id slot) d = (Consumed p, d')"
  | t cr where "res = Inr (slot, postpaid_billing t d)" and "d' = d"
      and "getPaymentMethodForPairTx (ls_teacher_account_id slot) learner d = Inr MPostpaid"
      and "ls_tariff_id slot = Some t"
      and "consumePackageUnit c learner (ls_id slot) (ls_duration_minutes slot)
             (book_billing_actor actor) (ls_teacher_account_id slot) d = (cr, d)"
      and "\<forall>p. cr \<noteq> Consumed p"
proof -
  obtain chosen where m: "getPaymentMethodForPairTx (ls_teacher_account_id slot) learner d = Inr chosen"
    using assms by (auto simp: bill_booking_def bindR_eq_Inr_iff)
  obtain cr d1 where con: "consumePackageUnit c learner (ls_id slot) (ls_duration_minutes slot)
      (book_billing_actor actor) (ls_teacher_account_id slot) d = (cr, d1)" by force
  note b = assms [unfolded bill_booking_def m bindR.simps con]
  show ?thesis
  proof (cases "chosen = MNone")
    case True
    with b that(1) show ?thesis by auto
  next
    case False
    then have mp: "chosen = MPostpaid" by (cases chosen) simp_all
    show ?thesis
    proof (cases "\<exists>p. cr = Consumed p")
      case True
      with b mp m con that(2) show ?thesis by auto
    next
      case no: False
      have d1: "d1 = d" using consumePackageUnit_not_Consumed [OF con] no by blast
      show ?thesis
      proof (cases "accountHasPendingPackageGrantForDuration c learner (ls_duration_minutes slot)
          (Some (ls_teacher_account_id slot)) d")
        case True
        with no b mp d1 that(1) show ?thesis by (cases cr) auto
      next
        case fresh: False
        show ?thesis
        proof (cases "ls_tariff_id slot")
          case None
          with no b mp d1 fresh that(1) show ?thesis by (cases cr) auto
        next
          case (Some t)
          with no b mp d1 fresh have "res = Inr (slot, postpaid_billing t d)" "d' = d"
            by (cases cr; simp)+
          with that(3) [of t cr] Some m mp con d1 no show ?thesis by blast
        qed
      qed
    qed
  qed
qed

lemma bookSlot_cases:
  assumes "bookSlot b c slotId learner actor options d = Inr (res, d')"
  obtains e where "res = Inl e" and "d' = d"
  | slot where "reserve_slot c (pg_uuid slotId) learner actor options d = Inr (Some slot, d')"
      and "\<not> b" and "res = Inr (slot, BillLegacy)"
  | slot d1 where "reserve_slot c (pg_uuid slotId) learner actor options d = Inr (Some slot, d1)"
      and "b" and "\<not> private_no_access learner slot d1"
      and "bill_booking c learner actor slot d d1 = Inr (res, d')"
proof (cases "uuid_pattern slotId")
  case False
  with assms that(1) show ?thesis by (auto simp: bookSlot_def)
next
  case True
  with assms obtain ro d1 where res: "reserve_slot c (pg_uuid slotId) learner actor options d = Inr (ro, d1)"
    by (auto simp: bookSlot_def bindR_eq_Inr_iff)
  show ?thesis
  proof (cases ro)
    case None
    with assms True res that(1) show ?thesis by (auto simp: bookSlot_def)
  next
    case (Some slot)
    with assms True res show ?thesis
      using that(1) that(2) [of slot] that(3) [of slot d1] by (auto simp: bookSlot_def split: if_splits)
  qed
qed

lemma bookSlot_booked:
  assumes "ledger_inv d" and "bookSlot b c slotId learner actor options d = Inr (Inr (slot, bill), d')"
  shows "slot_by_id d' (pg_uuid slotId) = Some slot \<and> ls_status slot = Booked"
  using assms(2)
proof (cases rule: bookSlot_cases)
  case (2 slot')
  from 2(1) show ?thesis by (rule reserve_slot_SomeE) (use 2 in auto)
next
  case (3 slot' d1)
  have r: "slot_by_id d1 (pg_uuid slotId) = Some slot'" "ls_status slot' = Booked"
    using 3(1) by (auto elim!: reserve_slot_SomeE)
  from 3(4) show ?thesis
  proof (cases rule: bill_booking_cases)
    case (2 p)
    with r consumePackageUnit_frame [OF 2(3)] show ?thesis by (simp add: slot_by_id_def)
  qed (use r in simp_all)
qed simp

lemma bookSlot_inv:
  assumes inv: "ledger_inv d" and "bookSlot b c slotId learner actor options d = Inr (res, d')"
  shows "ledger_inv d'"
  using assms(2)
proof (cases rule: bookSlot_cases)
  case 1
  with inv show ?thesis by simp
next
  case 2
  then show ?thesis using reserve_slot_inv [OF inv] by blast
next
  case (3 slot d1)
  have inv1: "ledger_inv d1" using reserve_slot_inv [OF inv 3(1)] .
  from 3(1) have at_d1: "slot_by_id d1 (ls_id slot) = Some slot" "holds_unit slot"
    "ls_learner_account_id slot = Some learner"
    using slot_by_id_SomeD [of d "pg_uuid slotId"]
    by (auto elim!: reserve_slot_SomeE simp: holds_unit_def)
  from 3(4) show ?thesis
  proof (cases rule: bill_booking_cases)
    case (2 p)
    then show ?thesis using consumePackageUnit_inv [OF inv1 at_d1 refl refl] by blast
  qed (use inv inv1 in simp_all)
qed

section \<open>Properties\<close>

lemma preference_of_upsert:
  "find (\<lambda>p. bp_teacher_account_id p = t' \<and> bp_learner_account_id p = l')
     (upsert_preference t l m a ps) =
   (if t' = t \<and> l' = l
    then Some (case find (\<lambda>p. bp_teacher_account_id p = t \<and> bp_learner_account_id p = l) ps of
           None \<Rightarrow> \<lparr>bp_teacher_account_id = t, bp_learner_account_id = l, bp_payment_method = m,
                    bp_updated_by_account_id = Some a\<rparr>
         | Some p \<Rightarrow> p\<lparr>bp_payment_method := m, bp_updated_by_account_id := Some a\<rparr>)
    else find (\<lambda>p. bp_teacher_account_id p = t' \<and> bp_learner_account_id p = l') ps)"
  by (induction ps) auto

lemma assertMethod_text [simp]: "assertMethod (method_text m) = Inr m"
  by (cases m) (simp_all add: assertMethod_def method_text_def)

text \<open>
  Setting the payment method of a pair and reading it back gives the method that was
  set, the answer names the method in force before, every other pair keeps its method, and one
  audit row records the change.
\<close>

theorem setPaymentMethodForPair_get:
  assumes "setPaymentMethodForPair t l m a d = Inr ((previous, now_method), d')"
  shows "now_method = m \<and> getPaymentMethodForPair t l d = Inr previous
    \<and> getPaymentMethodForPair t' l' d' =
        (if t' = t \<and> l' = l then Inr m else getPaymentMethodForPair t' l' d)
    \<and> length (auth_audit_events d') = Suc (length (auth_audit_events d))"
proof -
  from assms have prev: "getPaymentMethodForPairTx t l d = Inr previous" and "now_method = m"
    and d': "learner_billing_preferences d' =
        upsert_preference t l (method_text m) a (learner_billing_preferences d)"
      "length (auth_audit_events d') = Suc (length (auth_audit_events d))"
    by (auto simp: setPaymentMethodForPair_def bindR_eq_Inr_iff)
  moreover have "getPaymentMethodForPair t' l' d' =
        (if t' = t \<and> l' = l then Inr m else getPaymentMethodForPair t' l' d)"
    by (simp add: getPaymentMethodForPair_def preference_of_def d'(1) preference_of_upsert
        split: option.split)
  moreover have "getPaymentMethodForPair t l d = getPaymentMethodForPairTx t l d"
    by (simp add: getPaymentMethodForPair_def getPaymentMethodForPairTx_def)
  ultimately show ?thesis by simp
qed

theorem setPaymentMethodForPair_get_witness:
  "\<exists>d'. setPaymentMethodForPair (uuid_of CHR ''a'') (uuid_of CHR ''b'') MPostpaid (uuid_of CHR ''a'')
          empty_db = Inr ((MNone, MPostpaid), d')
     \<and> getPaymentMethodForPair (uuid_of CHR ''a'') (uuid_of CHR ''b'') d' = Inr MPostpaid"
proof -
  obtain d' where set: "setPaymentMethodForPair (uuid_of CHR ''a'') (uuid_of CHR ''b'') MPostpaid
      (uuid_of CHR ''a'') empty_db = Inr ((MNone, MPostpaid), d')"
    by (simp add: setPaymentMethodForPair_def getPaymentMethodForPairTx_def preference_of_def empty_db_def)
  with setPaymentMethodForPair_get [OF set, of "uuid_of CHR ''a''" "uuid_of CHR ''b''"]
  show ?thesis by auto
qed

text \<open>
  C2: what booking does. A refusal changes nothing. A success means that the slot was open, in
  the future, not the learner's own, of the pinned teacher and free of a fresh external busy
  interval; it is now booked by the learner, and no other slot has changed. With billing on,
  either exactly one unit went from one package to this lesson, the answer being what is left
  of that package, or no unit moved and the lesson has a tariff to be charged later, which
  happens only when the learner has no eligible package (or the slot already has a
  consumption row), and only for a pair whose payment method is set.
\<close>

theorem bookSlot_effect:
  assumes inv: "ledger_inv d"
    and book: "bookSlot b c slotId learner actor options d = Inr (res, d')"
  shows "case res of
      Inl e \<Rightarrow> d' = d
    | Inr (slot, bill) \<Rightarrow>
        (\<exists>r. slot_by_id d (pg_uuid slotId) = Some r \<and> bookable c learner (pinned_teacher options) d r
           \<and> ls_start_at slot = ls_start_at r \<and> ls_teacher_account_id slot = ls_teacher_account_id r
           \<and> ls_status slot = Booked \<and> ls_learner_account_id slot = Some learner
           \<and> (\<forall>j. slot_by_id d' j = (if j = pg_uuid slotId then Some slot else slot_by_id d j))
           \<and> (case bill of
                BillLegacy \<Rightarrow> \<not> b \<and> package_consumptions d' = package_consumptions d
              | BillPrepaid p n expiry \<Rightarrow> b
                  \<and> getPaymentMethodForPair (ls_teacher_account_id r) learner d = Inr MPostpaid
                  \<and> held_unit d' = (held_unit d)(pg_uuid slotId := Some p)
                  \<and> free_units d' = (free_units d)(p := free_units d p - 1)
                  \<and> n = free_units d' p \<and> 0 \<le> n
              | BillPostpaid t amount currency \<Rightarrow> b
                  \<and> getPaymentMethodForPair (ls_teacher_account_id r) learner d = Inr MPostpaid
                  \<and> package_consumptions d' = package_consumptions d \<and> ls_tariff_id r = Some t
                  \<and> (consumption_of_slot d (pg_uuid slotId) \<noteq> None
                     \<or> (\<forall>q \<in> set (package_purchases d).
                          \<not> package_eligible c learner (ls_duration_minutes r)
                              (ls_teacher_account_id r) d q))))"
  using book
proof (cases rule: bookSlot_cases)
  case 1
  then show ?thesis by simp
next
  case (2 slot)
  from 2(1) show ?thesis
    by (rule reserve_slot_SomeE) (use 2 in auto)
next
  case (3 slot d1)
  let ?i = "pg_uuid slotId"
  from 3(1) show ?thesis
  proof (rule reserve_slot_SomeE)
    fix r agenda
    assume r: "slot_by_id d ?i = Some r" "bookable c learner (pinned_teacher options) d r"
      "slot = snapshot_on_book d (booked_row c learner actor agenda r)"
      and d1: "d1 = d\<lparr>lesson_slots := replace_row ls_id slot (lesson_slots d)\<rparr>"
      and look: "\<And>j. slot_by_id d1 j = (if j = ?i then Some slot else slot_by_id d j)"
    have id: "ls_id slot = ?i" using r slot_by_id_SomeD [OF r(1)] by simp
    have pm: "getPaymentMethodForPair (ls_teacher_account_id r) learner d
        = getPaymentMethodForPairTx (ls_teacher_account_id slot) learner d1"
      using r(3) by (simp add: getPaymentMethodForPair_def getPaymentMethodForPairTx_def
          preference_of_def d1)
    have same: "package_consumptions d1 = package_consumptions d" "package_purchases d1 = package_purchases d"
      "held_unit d1 = held_unit d" "free_units d1 = free_units d"
      "consumption_of_slot d1 = consumption_of_slot d"
      by (auto simp: d1 fun_eq_iff held_unit_def free_units_def consumption_of_slot_def purchase_by_id_def
          count_remaining_def split: option.split)
    have elig: "package_eligible c learner x y d1 = package_eligible c learner x y d" for x y
      by (simp add: fun_eq_iff package_eligible_def count_remaining_def d1)
    have inv1: "ledger_inv d1" using reserve_slot_inv [OF inv 3(1)] .
    from 3(4) show ?thesis
    proof (cases rule: bill_booking_cases)
      case 1
      then show ?thesis by simp
    next
      case (2 p)
      have "take_package_unit (c, learner, ls_duration_minutes slot, book_billing_actor actor,
          ls_teacher_account_id slot) ?i d1 = (Some p, d')"
        using 2(3) id by (simp add: take_package_unit_def)
      note unit = packages.take_Some [OF ledger_inv_units_wf [OF inv1] this]
      have slots: "slot_by_id d' j = slot_by_id d1 j" for j
        using consumePackageUnit_frame [OF 2(3)] by (simp add: slot_by_id_def)
      have "purchase_by_id d1 p \<noteq> None" using unit by (auto simp: free_units_def split: option.splits)
      then obtain pp where "purchase_by_id d' p = Some pp"
        using consumePackageUnit_frame [OF 2(3)] by (auto simp: purchase_by_id_def)
      then have bill: "prepaid_billing p d'
          = BillPrepaid p (free_units d' p) (Some (js_date_via_string (pp_expires_at pp)))"
        by (simp add: prepaid_billing_def free_units_def)
      show ?thesis
        using 2(1,2) 3(2) r unit same look pm slots unfolding bill by auto
    next
      case (3 t cr)
      have "consumption_of_slot d ?i \<noteq> None \<or>
          (\<forall>q \<in> set (package_purchases d). \<not> package_eligible c learner (ls_duration_minutes r)
                              (ls_teacher_account_id r) d q)"
        using consumePackageUnit_not_eligible [OF 3(5,6)] id elig same r(3) by auto
      with 3 \<open>b\<close> r look pm same show ?thesis
        by (auto simp: postpaid_billing_def split: option.split)
    qed
  qed
qed

text \<open>
  A slot is booked at most once: after a successful booking every later booking of the same
  slot, by whomever, is refused and changes nothing.
\<close>

theorem bookSlot_at_most_once:
  assumes inv: "ledger_inv d"
    and one: "bookSlot b c slotId learner actor options d = Inr (Inr ok, d1)"
    and same: "pg_uuid slotId' = pg_uuid slotId"
  shows "\<exists>e. bookSlot b' c' slotId' learner' actor' options' d1 = Inr (Inl e, d1)"
proof -
  obtain slot bill where ok: "ok = (slot, bill)" by (cases ok)
  have "slot_by_id d1 (pg_uuid slotId) = Some slot" "ls_status slot = Booked"
    using bookSlot_booked [OF inv one [unfolded ok]] by simp_all
  then have "reserve_slot c' (pg_uuid slotId') learner' actor' options' d1 = Inr (None, d1)"
    using same by (simp add: reserve_slot_def pg_update_slot_None_iff bookable_def)
  then show ?thesis by (simp add: bookSlot_def)
qed

definition sample_open :: slot_row where
  "sample_open = sample_slot\<lparr>ls_status := Open, ls_learner_account_id := None, ls_booked_at := None,
     ls_snapshot_amount_kopecks := None\<rparr>"

text \<open>The lesson of the sample still open, and a learner who may pay later.\<close>

definition sample_open_db :: db where
  "sample_open_db = empty_db\<lparr>lesson_slots := [sample_open], package_purchases := [sample_purchase],
     learner_billing_preferences :=
       [\<lparr>bp_teacher_account_id = uuid_of CHR ''a'', bp_learner_account_id = uuid_of CHR ''b'',
         bp_payment_method = ''postpaid'', bp_updated_by_account_id = None\<rparr>]\<rparr>"

definition no_options :: book_options where
  "no_options = \<lparr>bo_agenda = None, bo_expectedTeacherId = None\<rparr>"

lemma sample_open_check: "slot_check sample_open"
  using sample_slot_check by (simp add: slot_check_defs sample_open_def sample_slot_def)

lemma sample_open_db_inv: "ledger_inv sample_open_db"
  using sample_open_check
  by (simp add: sample_open_db_def sample_purchase_def empty_db_def ledger_inv_def schema_ok_def
      keys_ok_def lanes_ok_def checks_ok_def completion_sync_def billable_def consumption_sync_def
      capacity_ok_def active_units_def coverage_ok_def)
    (simp add: sample_open_def)

lemma sample_open_reserve:
  "reserve_slot sample_clock (uuid_of CHR ''1'') (uuid_of CHR ''b'') BookLearner no_options sample_open_db
     = (let slot = booked_row sample_clock (uuid_of CHR ''b'') BookLearner None sample_open
        in Inr (Some slot, sample_open_db\<lparr>lesson_slots := [slot]\<rparr>))"
proof -
  let ?slot = "booked_row sample_clock (uuid_of CHR ''b'') BookLearner None sample_open"
  have r: "slot_by_id sample_open_db (uuid_of CHR ''1'') = Some sample_open"
    by (simp add: slot_by_id_def find_by_def sample_open_db_def sample_open_def sample_slot_def)
  have ok: "bookable sample_clock (uuid_of CHR ''b'') None sample_open_db sample_open"
    by (simp add: bookable_def busy_overlap_def sample_open_db_def sample_open_def sample_defs)
  have same: "snapshot_on_book sample_open_db ?slot = ?slot"
    by (simp add: snapshot_on_book_def snapshot_value_def booked_row_def sample_open_def sample_slot_def)
  have chk: "slot_check ?slot"
    using sample_open_check by (simp add: slot_check_defs booked_row_def sample_open_def sample_slot_def)
  have "\<not> slot_conflict sample_open_db ?slot"
    by (simp add: slot_conflict_def sample_open_db_def booked_row_def)
  moreover have "snapshot_frozen sample_open ?slot" by (simp add: snapshot_frozen_def sample_open_def)
  ultimately show ?thesis
    using r ok same chk
    by (simp add: reserve_slot_def pg_update_slot_def no_options_def pinned_teacher_def sanitizeAgenda_def
        Let_def replace_row_def sample_open_db_def)
qed

lemma sample_booking:
  "\<exists>slot expiry d'. bookSlot True sample_clock (uuid_of CHR ''1'') (uuid_of CHR ''b'') BookLearner no_options
       sample_open_db = Inr (Inr (slot, BillPrepaid (uuid_of CHR ''9'') 4 expiry), d')"
proof -
  have "hex_digit CHR ''1''" "lower_hex CHR ''1'' = CHR ''1''" by (simp_all add: hex_digit_def lower_hex_def)
  then show ?thesis
    by (simp add: bookSlot_def sample_open_reserve Let_def)
      (simp add: private_no_access_def bill_booking_def getPaymentMethodForPairTx_def preference_of_def assertMethod_def
        consumePackageUnit_def package_eligible_def count_remaining_def active_units_def
        consumption_of_slot_def find_by_def prepaid_billing_def purchase_by_id_def unit_active_def
        sample_open_db_def sample_open_def sample_defs)
qed

theorem bookSlot_effect_witness:
  "\<exists>slot expiry d'. bookSlot True sample_clock (uuid_of CHR ''1'') (uuid_of CHR ''b'') BookLearner no_options
       sample_open_db = Inr (Inr (slot, BillPrepaid (uuid_of CHR ''9'') 4 expiry), d')
     \<and> held_unit d' (uuid_of CHR ''1'') = Some (uuid_of CHR ''9'')"
proof -
  obtain slot expiry d' where book: "bookSlot True sample_clock (uuid_of CHR ''1'') (uuid_of CHR ''b'')
      BookLearner no_options sample_open_db = Inr (Inr (slot, BillPrepaid (uuid_of CHR ''9'') 4 expiry), d')"
    using sample_booking by blast
  have "pg_uuid (uuid_of CHR ''1'') = uuid_of CHR ''1''" by (simp add: lower_hex_def)
  with bookSlot_effect [OF sample_open_db_inv book]
  have "held_unit d' (uuid_of CHR ''1'') = Some (uuid_of CHR ''9'')" by auto
  with book show ?thesis by blast
qed

theorem bookSlot_at_most_once_witness:
  "\<exists>slot bill d1 e. bookSlot True sample_clock (uuid_of CHR ''1'') (uuid_of CHR ''b'') BookLearner no_options
       sample_open_db = Inr (Inr (slot, bill), d1)
     \<and> bookSlot True sample_clock (uuid_of CHR ''1'') (uuid_of CHR ''c'') BookLearner no_options d1
         = Inr (Inl e, d1)"
proof -
  obtain slot bill d1 where book: "bookSlot True sample_clock (uuid_of CHR ''1'') (uuid_of CHR ''b'')
      BookLearner no_options sample_open_db = Inr (Inr (slot, bill), d1)"
    using sample_booking by blast
  from bookSlot_at_most_once [OF sample_open_db_inv book refl] book show ?thesis by blast
qed

end
