(* ===== verification/Cancel.thy ===== *)
theory Cancel
  imports Booking
begin

text \<open>
  \<open>src/lib/scheduling/slots/mutations-cancel.ts\<close>: cancelling by the operator, by the learner
  within the window, and by the teacher with a reason. Each cancels the slot and gives the package
  unit back in one transaction. The notification sent after the commit is left out: its
  failure is caught and nothing depends on it. \<open>cancelSlot\<close> reads the status before it opens
  the transaction; the state it then sees is the argument \<open>pre\<close>.
\<close>

section \<open>The transaction of a cancel\<close>

definition reason_too_long :: "js_text option \<Rightarrow> bool" where
  "reason_too_long reason \<longleftrightarrow> (case reason of None \<Rightarrow> False | Some t \<Rightarrow> length t > MAX_REASON_LEN)"

definition cancel_event :: "clock \<Rightarrow> string \<Rightarrow> string \<Rightarrow> js_text option \<Rightarrow> slot_event list" where
  "cancel_event c actor account reason =
     appendEventSql c ''slot.cancelled'' (Some actor)
       (Some [(''cancelledByAccountId'', VStr account),
              (''reason'', case reason of None \<Rightarrow> VNull | Some t \<Rightarrow> VText t)])"

definition cancelled_row ::
  "clock \<Rightarrow> micros \<Rightarrow> uuid \<Rightarrow> js_text option \<Rightarrow> slot_event list \<Rightarrow> slot_row \<Rightarrow> slot_row" where
  "cancelled_row c cancelledAt account reason ev r =
     r\<lparr>ls_status := Cancelled, ls_cancelled_at := Some cancelledAt,
       ls_cancelled_by_account_id := Some account, ls_cancellation_reason := reason,
       ls_updated_at := pg_now c, ls_events := ev @ ls_events r\<rparr>"

definition cancel_and_restore ::
  "clock \<Rightarrow> uuid \<Rightarrow> (slot_row \<Rightarrow> bool) \<Rightarrow> (slot_row \<Rightarrow> slot_row) \<Rightarrow> billing_actor \<Rightarrow> string \<Rightarrow> db
   \<Rightarrow> slot_row option outcome" where
  "cancel_and_restore c slotId P f actor why d =
     bindR (pg_update_slot slotId P f d)
       (\<lambda>(ro, d1). case ro of
            None \<Rightarrow> Inr (None, d)
          | Some row \<Rightarrow>
              Inr (Some row, snd (restorePackageConsumption c slotId actor (Some why) d1)))"

section \<open>The three cancels\<close>

definition cancelSlot_tx ::
  "clock \<Rightarrow> uuid \<Rightarrow> uuid \<Rightarrow> js_text option \<Rightarrow> book_actor \<Rightarrow> db \<Rightarrow> slot_row option outcome" where
  "cancelSlot_tx c i cancelledBy reason actor d =
     cancel_and_restore c i
       (\<lambda>r. ls_status r \<notin> {Cancelled, Completed, NoShowLearner})
       (\<lambda>r. cancelled_row c (coalesce (ls_cancelled_at r) (pg_now c)) cancelledBy reason
              (cancel_event c (book_actor_text actor) cancelledBy reason) r)
       (book_billing_actor actor) ''admin_or_learner_cancel'' d"

definition cancelSlot ::
  "clock \<Rightarrow> db \<Rightarrow> string \<Rightarrow> uuid \<Rightarrow> js_text option \<Rightarrow> book_actor \<Rightarrow> db \<Rightarrow> slot_row option outcome" where
  "cancelSlot c pre slotId cancelledBy reason actor d =
     (if \<not> uuid_pattern slotId then Inr (None, d)
      else if reason_too_long reason then Inl (JsError ''slot/cancellationReason/too_long'')
      else
        case slot_by_id pre (pg_uuid slotId) of
          None \<Rightarrow> cancelSlot_tx c (pg_uuid slotId) cancelledBy reason actor d
        | Some r \<Rightarrow>
            if ls_status r = Completed \<or> ls_status r = NoShowLearner
            then Inl (CancelAfterCompletionError (ls_status r))
            else cancelSlot_tx c (pg_uuid slotId) cancelledBy reason actor d)"

datatype cancel_refusal =
  CanNotFound | CanNotOwner | CanAfterCompletion | CanAlreadyTerminal
  | CanTooLate int | CanReasonRequired

definition cancel_window_minutes :: "string option \<Rightarrow> db \<Rightarrow> uuid \<Rightarrow> int" where
  "cancel_window_minutes env d teacher =
     coalesce (map_option ac_teacher_cancel_window_minutes (account_by_id d teacher))
       (getLearnerCancelWindowHours env * 60)"

definition cancelLearnerSlot_tx ::
  "string option \<Rightarrow> clock \<Rightarrow> uuid \<Rightarrow> uuid \<Rightarrow> js_text option \<Rightarrow> db \<Rightarrow> slot_row option outcome" where
  "cancelLearnerSlot_tx env c i learner reason d =
     cancel_and_restore c i
       (\<lambda>r. ls_learner_account_id r = Some learner \<and> ls_status r = Booked
            \<and> ls_start_at r - pg_now c
                \<ge> cancel_window_minutes env d (ls_teacher_account_id r) * us_per_minute)
       (\<lambda>r. cancelled_row c (pg_now c) learner reason (cancel_event c ''learner'' learner reason) r)
       ActorLearner ''learner_cancel'' d"

definition cancelLearnerSlot ::
  "string option \<Rightarrow> clock \<Rightarrow> string \<Rightarrow> uuid \<Rightarrow> js_text option \<Rightarrow> db \<Rightarrow> (cancel_refusal + slot_row) outcome" where
  "cancelLearnerSlot env c slotId learner reason d =
     (if \<not> uuid_pattern slotId then Inr (Inl CanNotFound, d)
      else if reason_too_long reason then Inl (JsError ''slot/cancellationReason/too_long'')
      else
        let i = pg_uuid slotId in
        bindR (cancelLearnerSlot_tx env c i learner reason d)
          (\<lambda>(ro, d1). case ro of
               Some slot \<Rightarrow> Inr (Inr slot, d1)
             | None \<Rightarrow>
                 (case slot_by_id d1 i of
                    None \<Rightarrow> Inr (Inl CanNotFound, d1)
                  | Some row \<Rightarrow>
                      if ls_learner_account_id row \<noteq> Some learner then Inr (Inl CanNotOwner, d1)
                      else if ls_status row = Completed \<or> ls_status row = NoShowLearner
                      then Inr (Inl CanAfterCompletion, d1)
                      else if ls_status row \<noteq> Booked then Inr (Inl CanAlreadyTerminal, d1)
                      else
                        let diffMs = js_date_via_string (ls_start_at row) - js_now c in
                        Inr (Inl (CanTooLate (max 0 (diffMs div ms_per_minute))), d1))))"

definition reason_given :: "js_text option \<Rightarrow> bool" where
  "reason_given reason \<longleftrightarrow> (case reason of None \<Rightarrow> False | Some t \<Rightarrow> sql_btrim t \<noteq> [])"

definition cancelSlotByTeacher_tx ::
  "clock \<Rightarrow> uuid \<Rightarrow> string \<Rightarrow> js_text option \<Rightarrow> db \<Rightarrow> slot_row option outcome" where
  "cancelSlotByTeacher_tx c i teacher reason d =
     cancel_and_restore c i
       (\<lambda>r. ls_teacher_account_id r = pg_uuid teacher \<and> ls_status r \<in> {Open, Booked}
            \<and> (ls_status r = Open \<or> reason_given reason))
       (\<lambda>r. cancelled_row c (coalesce (ls_cancelled_at r) (pg_now c)) (pg_uuid teacher) reason
              (cancel_event c ''teacher'' teacher reason) r)
       ActorTeacher ''teacher_cancel'' d"

definition cancelSlotByTeacher ::
  "clock \<Rightarrow> string \<Rightarrow> string \<Rightarrow> js_text option \<Rightarrow> db \<Rightarrow> (cancel_refusal + slot_row) outcome" where
  "cancelSlotByTeacher c slotId teacher reason d =
     (if \<not> uuid_pattern slotId then Inr (Inl CanNotFound, d)
      else if \<not> uuid_pattern teacher then Inr (Inl CanNotFound, d)
      else if reason_too_long reason then Inl (JsError ''slot/cancellationReason/too_long'')
      else
        let i = pg_uuid slotId in
        bindR (cancelSlotByTeacher_tx c i teacher reason d)
          (\<lambda>(ro, d1). case ro of
               Some slot \<Rightarrow> Inr (Inr slot, d1)
             | None \<Rightarrow>
                 (case slot_by_id d1 i of
                    None \<Rightarrow> Inr (Inl CanNotFound, d1)
                  | Some row \<Rightarrow>
                      if ls_teacher_account_id row \<noteq> teacher then Inr (Inl CanNotOwner, d1)
                      else if ls_status row = Booked
                              \<and> (case reason of None \<Rightarrow> True | Some t \<Rightarrow> js_trim t = [])
                      then Inr (Inl CanReasonRequired, d1)
                      else if ls_status row = Completed \<or> ls_status row = NoShowLearner
                      then Inr (Inl CanAfterCompletion, d1)
                      else Inr (Inl CanAlreadyTerminal, d1))))"

section \<open>What the transaction does\<close>

lemma cancelled_row_simps [simp]:
  "ls_id (cancelled_row c t a reason ev r) = ls_id r"
  "ls_status (cancelled_row c t a reason ev r) = Cancelled"
  "ls_teacher_account_id (cancelled_row c t a reason ev r) = ls_teacher_account_id r"
  "ls_start_at (cancelled_row c t a reason ev r) = ls_start_at r"
  "ls_learner_account_id (cancelled_row c t a reason ev r) = ls_learner_account_id r"
  "ls_snapshot_amount_kopecks (cancelled_row c t a reason ev r) = ls_snapshot_amount_kopecks r"
  "ls_cancellation_reason (cancelled_row c t a reason ev r) = reason"
  by (simp_all add: cancelled_row_def)

lemma cancelled_row_not_billable [simp]: "\<not> billable (cancelled_row c t a reason ev r)"
  by (simp add: billable_def)

lemma cancelled_row_check: "slot_check r \<Longrightarrow> slot_check (cancelled_row c t a reason ev r)"
  by (auto simp: slot_check_defs cancelled_row_def)

text \<open>The unit that lesson \<open>i\<close> held, if any, is free again; nothing else moved.\<close>

definition unit_released :: "uuid \<Rightarrow> db \<Rightarrow> db \<Rightarrow> bool" where
  "unit_released i d d' \<longleftrightarrow>
     held_unit d' = (held_unit d)(i := None)
     \<and> free_units d' = (case held_unit d i of None \<Rightarrow> free_units d
          | Some p \<Rightarrow> (free_units d)(p := free_units d p + 1))"

lemma units_of_slots [simp]:
  "held_unit (d\<lparr>lesson_slots := x\<rparr>) = held_unit d"
  "free_units (d\<lparr>lesson_slots := x\<rparr>) = free_units d"
  "units_wf (d\<lparr>lesson_slots := x\<rparr>) = units_wf d"
  by (auto simp: fun_eq_iff held_unit_def free_units_def consumption_of_slot_def purchase_by_id_def
      count_remaining_def units_wf_def split: option.split)

lemma unit_released_slots [simp]: "unit_released i (d\<lparr>lesson_slots := x\<rparr>) d' = unit_released i d d'"
  by (simp add: unit_released_def split: option.split)

lemma restore_released:
  assumes "units_wf d"
  shows "unit_released i d (snd (restorePackageConsumption c i actor why d))"
  using packages.give [OF assms, of "(c, actor, why)" i]
  by (cases "restorePackageConsumption c i actor why d")
    (simp add: give_package_unit_def unit_released_def)

lemma restore_frame [simp]:
  "lesson_slots (snd (restorePackageConsumption c i actor why d)) = lesson_slots d"
  "lesson_completions (snd (restorePackageConsumption c i actor why d)) = lesson_completions d"
  by (simp_all add: restorePackageConsumption_def)

lemma cancel_hit:
  assumes inv: "ledger_inv d" and r: "slot_by_id d i = Some r" and "P r"
    and f: "f r = cancelled_row c t a reason ev r"
    and st: "ls_status r \<notin> {Cancelled, Completed, NoShowLearner}"
  shows "\<exists>d'. cancel_and_restore c i P f actor why d = Inr (Some (f r), d')
    \<and> (\<forall>j. slot_by_id d' j = (if j = i then Some (f r) else slot_by_id d j))
    \<and> unit_released i d d' \<and> lesson_completions d' = lesson_completions d"
proof -
  have chk: "slot_check (f r)"
    unfolding f by (rule cancelled_row_check) (rule slot_by_id_check [OF ledger_inv_schema [OF inv] r])
  have sv: "snapshot_value d (f r) = ls_snapshot_amount_kopecks r"
    by (simp add: f snapshot_value_def split: option.split)
  let ?d1 = "d\<lparr>lesson_slots := replace_row ls_id (f r) (lesson_slots d)\<rparr>"
  let ?d' = "snd (restorePackageConsumption c i actor (Some why) ?d1)"
  have upd: "pg_update_slot i P f d = Inr (Some (f r), ?d1)"
    using pg_update_slot_ok [OF inv r refl, of P f] \<open>P r\<close> sv chk f st by simp
  have "slot_by_id ?d' j = (if j = i then Some (f r) else slot_by_id d j)" for j
    using slot_by_id_SomeD [OF r] r f by (simp add: slot_by_id_def find_by_replace_row)
  moreover have "unit_released i d ?d'"
    using restore_released [of ?d1 i c actor "Some why"] ledger_inv_units_wf [OF inv] by simp
  ultimately show ?thesis by (simp add: cancel_and_restore_def upd)
qed

lemma cancel_miss:
  "\<forall>r. slot_by_id d i = Some r \<longrightarrow> \<not> P r \<Longrightarrow> cancel_and_restore c i P f actor why d = Inr (None, d)"
  using pg_update_slot_None_iff [of i P f d d] by (simp add: cancel_and_restore_def)

lemma cancel_and_restore_inv:
  assumes inv: "ledger_inv d" and run: "cancel_and_restore c i P f actor why d = Inr (ro, d')"
    and f: "\<And>r. \<exists>t a reason ev. f r = cancelled_row c t a reason ev r"
    and st: "\<And>r. P r \<Longrightarrow> ls_status r \<notin> {Completed, NoShowLearner}"
  shows "ledger_inv d'"
proof -
  from run obtain uo d1 where upd: "pg_update_slot i P f d = Inr (uo, d1)"
    by (auto simp: cancel_and_restore_def bindR_eq_Inr_iff)
  show ?thesis
  proof (cases uo)
    case None
    with run upd inv show ?thesis by (simp add: cancel_and_restore_def)
  next
    case (Some r')
    have "ledger_inv_but i d1"
    proof (rule pg_update_slot_inv_but [OF inv upd [unfolded Some]])
      fix r
      assume "P r"
      moreover obtain t a reason ev where "f r = cancelled_row c t a reason ev r" using f by blast
      ultimately show "ls_id (f r) = ls_id r \<and> ls_teacher_account_id (f r) = ls_teacher_account_id r
          \<and> \<not> billable r \<and> \<not> billable (f r)"
        using st [of r] by (auto simp: billable_def)
    qed
    moreover have "d' = snd (restorePackageConsumption c i actor (Some why) d1)"
      using run upd Some by (simp add: cancel_and_restore_def)
    ultimately show ?thesis
      using restore_inv_but [of i d1 c actor "Some why"]
      by (cases "restorePackageConsumption c i actor (Some why) d1") simp
  qed
qed

lemma cancel_tx_inv:
  assumes "ledger_inv d"
  shows "cancelSlot_tx c i a reason actor d = Inr (ro, d') \<Longrightarrow> ledger_inv d'"
    and "cancelLearnerSlot_tx env c i learner reason d = Inr (ro, d') \<Longrightarrow> ledger_inv d'"
    and "cancelSlotByTeacher_tx c i teacher reason d = Inr (ro, d') \<Longrightarrow> ledger_inv d'"
  unfolding cancelSlot_tx_def cancelLearnerSlot_tx_def cancelSlotByTeacher_tx_def
  by (rule cancel_and_restore_inv [OF assms], assumption, blast, force)+

lemma cancelSlot_inv:
  assumes "ledger_inv d" and "cancelSlot c pre slotId a reason actor d = Inr (res, d')"
  shows "ledger_inv d'"
  using assms(2) cancel_tx_inv(1) [OF assms(1)] assms(1)
  by (auto simp: cancelSlot_def split: if_splits option.splits)

lemma cancelLearnerSlot_inv:
  assumes "ledger_inv d" and "cancelLearnerSlot env c slotId learner reason d = Inr (res, d')"
  shows "ledger_inv d'"
  using assms(2) cancel_tx_inv(2) [OF assms(1)] assms(1)
  by (auto simp: cancelLearnerSlot_def Let_def bindR_eq_Inr_iff split: if_splits option.splits)

lemma cancelSlotByTeacher_inv:
  assumes "ledger_inv d" and "cancelSlotByTeacher c slotId teacher reason d = Inr (res, d')"
  shows "ledger_inv d'"
  using assms(2) cancel_tx_inv(3) [OF assms(1)] assms(1)
  by (auto simp: cancelSlotByTeacher_def Let_def bindR_eq_Inr_iff split: if_splits option.splits)

section \<open>Properties\<close>


lemma trim_Nil_iff:
  "rev (dropWhile P (rev (dropWhile P xs))) = [] \<longleftrightarrow> (\<forall>x \<in> set xs. P x)"
proof -
  have "(\<forall>x \<in> set (dropWhile P xs). P x) \<longleftrightarrow> (\<forall>x \<in> set xs. P x)" by (induction xs) auto
  then show ?thesis by simp
qed

lemma sql_btrim_Nil_iff: "sql_btrim t = [] \<longleftrightarrow> (\<forall>u \<in> set t. u = 32)"
  unfolding sql_btrim_def by (rule trim_Nil_iff)

lemma js_trim_Nil_iff: "js_trim t = [] \<longleftrightarrow> (\<forall>u \<in> set t. js_space u)"
  unfolding js_trim_def by (rule trim_Nil_iff)

lemma reason_given_iff: "reason_given reason \<longleftrightarrow> (\<exists>t. reason = Some t \<and> (\<exists>u \<in> set t. u \<noteq> 32))"
  by (auto simp: reason_given_def sql_btrim_Nil_iff split: option.split)

lemma blank_trims: "\<not> reason_given (Some t) \<Longrightarrow> js_trim t = []"
  by (auto simp: reason_given_iff js_trim_Nil_iff js_space_def)

text \<open>
  The teacher's cancel, on every branch. For a slot that exists and a reason within the limit: a
  foreign slot, a completed lesson and a terminal one are refused without change; an open slot
  is always cancelled; a booked lesson is cancelled exactly when the reason has a code unit
  other than the space character (a reason of tabs or line breaks alone passes), and is otherwise
  refused for want of a reason. On success the unit the lesson held is free again and nothing
  else changes.
\<close>

theorem cancelSlotByTeacher_decision:
  assumes inv: "ledger_inv d" and pat: "uuid_pattern slotId" "uuid_pattern teacher" "pg_uuid teacher = teacher"
    and "\<not> reason_too_long reason"
    and r: "slot_by_id d (pg_uuid slotId) = Some r"
  shows "if ls_teacher_account_id r \<noteq> teacher
     then cancelSlotByTeacher c slotId teacher reason d = Inr (Inl CanNotOwner, d)
     else if ls_status r = Open
       \<or> ls_status r = Booked \<and> (\<exists>t. reason = Some t \<and> (\<exists>u \<in> set t. u \<noteq> 32))
     then \<exists>slot d'. cancelSlotByTeacher c slotId teacher reason d = Inr (Inr slot, d')
       \<and> ls_status slot = Cancelled \<and> ls_cancelled_by_account_id slot = Some teacher
       \<and> ls_cancellation_reason slot = reason
       \<and> (\<forall>j. slot_by_id d' j = (if j = pg_uuid slotId then Some slot else slot_by_id d j))
       \<and> unit_released (pg_uuid slotId) d d' \<and> lesson_completions d' = lesson_completions d
     else cancelSlotByTeacher c slotId teacher reason d =
       Inr (Inl (if ls_status r = Booked then CanReasonRequired
                 else if ls_status r \<in> {Completed, NoShowLearner} then CanAfterCompletion
                 else CanAlreadyTerminal), d)"
proof -
  let ?i = "pg_uuid slotId"
  let ?P = "\<lambda>r. ls_teacher_account_id r = pg_uuid teacher \<and> ls_status r \<in> {Open, Booked}
            \<and> (ls_status r = Open \<or> reason_given reason)"
  let ?f = "\<lambda>r. cancelled_row c (coalesce (ls_cancelled_at r) (pg_now c)) (pg_uuid teacher) reason
              (cancel_event c ''teacher'' teacher reason) r"
  show ?thesis
  proof (cases "?P r")
    case True
    then obtain d' where "cancelSlotByTeacher_tx c ?i teacher reason d = Inr (Some (?f r), d')"
      and "\<forall>j. slot_by_id d' j = (if j = ?i then Some (?f r) else slot_by_id d j)"
      and "unit_released ?i d d'" "lesson_completions d' = lesson_completions d"
      using cancel_hit [OF inv r, of ?P ?f c "coalesce (ls_cancelled_at r) (pg_now c)" "pg_uuid teacher" reason
          "cancel_event c ''teacher'' teacher reason" ActorTeacher "''teacher_cancel''"]
      unfolding cancelSlotByTeacher_tx_def by auto
    then show ?thesis
      using True pat assms(5)
      by (auto simp: cancelSlotByTeacher_def Let_def cancelled_row_def reason_given_iff
          intro!: exI [of _ d'])
  next
    case False
    then have "cancelSlotByTeacher_tx c ?i teacher reason d = Inr (None, d)"
      unfolding cancelSlotByTeacher_tx_def using r by (intro cancel_miss) auto
    then show ?thesis
      using False pat assms(5) r blank_trims
      by (auto simp: cancelSlotByTeacher_def Let_def simp flip: reason_given_iff split: option.splits)
  qed
qed

text \<open>
  The operator's cancel never touches a completed lesson, however stale the status was that
  it read first: it throws when the first read shows one, and otherwise the update itself
  leaves it alone. It cancels every other slot that is not cancelled yet, a lesson the teacher
  missed included, and frees its unit.
\<close>

theorem cancelSlot_decision:
  assumes inv: "ledger_inv d" and pat: "uuid_pattern slotId" and "\<not> reason_too_long reason"
    and r: "slot_by_id d (pg_uuid slotId) = Some r" and r0: "slot_by_id pre (pg_uuid slotId) = Some r0"
  shows "if ls_status r0 \<in> {Completed, NoShowLearner}
     then cancelSlot c pre slotId a reason actor d = Inl (CancelAfterCompletionError (ls_status r0))
     else if ls_status r \<in> {Cancelled, Completed, NoShowLearner}
     then cancelSlot c pre slotId a reason actor d = Inr (None, d)
     else \<exists>slot d'. cancelSlot c pre slotId a reason actor d = Inr (Some slot, d')
       \<and> ls_status slot = Cancelled \<and> ls_cancelled_by_account_id slot = Some a
       \<and> (\<forall>j. slot_by_id d' j = (if j = pg_uuid slotId then Some slot else slot_by_id d j))
       \<and> unit_released (pg_uuid slotId) d d' \<and> lesson_completions d' = lesson_completions d"
proof -
  let ?i = "pg_uuid slotId"
  let ?P = "\<lambda>r. ls_status r \<notin> {Cancelled, Completed, NoShowLearner}"
  let ?f = "\<lambda>r. cancelled_row c (coalesce (ls_cancelled_at r) (pg_now c)) a reason
              (cancel_event c (book_actor_text actor) a reason) r"
  show ?thesis
  proof (cases "?P r")
    case True
    then obtain d' where "cancelSlot_tx c ?i a reason actor d = Inr (Some (?f r), d')"
      and "\<forall>j. slot_by_id d' j = (if j = ?i then Some (?f r) else slot_by_id d j)"
      and "unit_released ?i d d'" "lesson_completions d' = lesson_completions d"
      using cancel_hit [OF inv r, of ?P ?f c "coalesce (ls_cancelled_at r) (pg_now c)" a reason
          "cancel_event c (book_actor_text actor) a reason" "book_billing_actor actor"
          "''admin_or_learner_cancel''"]
      unfolding cancelSlot_tx_def by auto
    then show ?thesis
      using True pat assms(3) r0
      by (auto simp: cancelSlot_def cancelled_row_def intro!: exI [of _ d'])
  next
    case False
    then have "cancelSlot_tx c ?i a reason actor d = Inr (None, d)"
      unfolding cancelSlot_tx_def using r by (intro cancel_miss) auto
    then show ?thesis
      using False pat assms(3) r0 by (auto simp: cancelSlot_def)
  qed
qed

section \<open>The properties at a concrete lesson\<close>

lemma sample_slot_row: "slot_by_id sample_db (pg_uuid (uuid_of CHR ''1'')) = Some sample_slot"
  by (simp add: slot_by_id_def find_by_def sample_db_def sample_slot_def lower_hex_def)

lemma sample_ids [simp]: "uuid_pattern (uuid_of CHR ''1'')" "uuid_pattern (uuid_of CHR ''a'')"
  "pg_uuid (uuid_of CHR ''a'') = uuid_of CHR ''a''" "pg_uuid (uuid_of CHR ''1'') = uuid_of CHR ''1''"
  by (simp_all add: hex_digit_def lower_hex_def)

lemma no_reason [simp]: "\<not> reason_too_long None" "\<not> reason_too_long (Some [9])"
  by (simp_all add: reason_too_long_def MAX_REASON_LEN_def)


text \<open>A reason of a single tab cancels a booked lesson.\<close>

theorem cancelSlotByTeacher_decision_witness:
  "\<exists>slot d'. cancelSlotByTeacher sample_clock (uuid_of CHR ''1'') (uuid_of CHR ''a'') (Some [9]) sample_db
     = Inr (Inr slot, d') \<and> js_trim [9] = []"
proof -
  have "ls_teacher_account_id sample_slot = uuid_of CHR ''a''" "ls_status sample_slot = Booked"
    by (simp_all add: sample_slot_def)
  moreover have "js_trim [9] = []" by (simp add: js_trim_def js_space_def)
  ultimately show ?thesis
    using cancelSlotByTeacher_decision [OF sample_db_inv _ _ _ _ sample_slot_row, of "uuid_of CHR ''a''" "Some [9]"
        sample_clock] by auto
qed

theorem cancelSlot_decision_witness:
  "\<exists>slot d'. cancelSlot sample_clock sample_db (uuid_of CHR ''1'') (uuid_of CHR ''c'') None BookAdmin sample_db
     = Inr (Some slot, d') \<and> ls_status slot = Cancelled"
proof -
  have "ls_status sample_slot = Booked" by (simp add: sample_slot_def)
  then show ?thesis
    using cancelSlot_decision [OF sample_db_inv _ _ sample_slot_row sample_slot_row, of None sample_clock
        "uuid_of CHR ''c''" BookAdmin] by auto
qed

end
