(* ===== verification/Slot_Write.thy ===== *)
theory Slot_Write
  imports Cancel
begin

text \<open>
  \<open>src/lib/scheduling/slots/mutations-write.ts\<close>: creating slots one by one and in bulk, editing,
  moving and deleting open slots, and the join link of a booked one, with the tariff gates of
  \<open>src/lib/pricing/tariffs.ts\<close> they call. A start is the instant its ISO text denotes, \<open>None\<close> for
  a text that denotes none. The ids of new rows are arguments (for the bulk a supply, one per
  requested start).
\<close>

section \<open>The gates\<close>

definition assertTeacherRole :: "string \<Rightarrow> db \<Rightarrow> exn + unit" where
  "assertTeacherRole teacherAccountId d =
     (if list_ex (\<lambda>r. ar_account_id r = pg_uuid teacherAccountId \<and> ar_role r = ''teacher'') (account_roles d)
      then Inr () else Inl (SlotTeacherRoleError teacherAccountId))"

definition assertTariffActive :: "string \<Rightarrow> db \<Rightarrow> exn + tariff_row" where
  "assertTariffActive tariffId d =
     (case tariff_by_id d (pg_uuid tariffId) of
        None \<Rightarrow> Inl (TariffNotActiveError ''unknown'')
      | Some t \<Rightarrow>
          if pt_deleted_at t \<noteq> None then Inl (TariffNotActiveError ''soft_deleted'') else Inr t)"

definition assertTariffOwnedByTeacher :: "string \<Rightarrow> string \<Rightarrow> db \<Rightarrow> exn + unit" where
  "assertTariffOwnedByTeacher tariffId teacherAccountId d =
     (case tariff_by_id d (pg_uuid tariffId) of
        None \<Rightarrow> Inl (TariffNotActiveError ''unknown'')
      | Some t \<Rightarrow>
          if pt_teacher_id t \<noteq> Some teacherAccountId
          then Inl (TariffOwnershipError (pt_teacher_id t) teacherAccountId) else Inr ())"

definition assertTariffDurationMatches :: "string \<Rightarrow> int \<Rightarrow> db \<Rightarrow> exn + unit" where
  "assertTariffDurationMatches tariffId slotDurationMinutes d =
     (case tariff_by_id d (pg_uuid tariffId) of
        None \<Rightarrow> Inl (JsError ''slot/tariffId/unknown'')
      | Some t \<Rightarrow>
          if pt_duration_minutes t \<noteq> slotDurationMinutes
          then Inl (SlotTariffDurationMismatchError slotDurationMinutes (pt_duration_minutes t))
          else Inr ())"

text \<open>The four gates on an optional tariff, in the order both creators run them.\<close>

definition tariff_gates :: "string option \<Rightarrow> string \<Rightarrow> int \<Rightarrow> db \<Rightarrow> exn + unit" where
  "tariff_gates tariff teacherAccountId durationMinutes d =
     (case tariff of
        None \<Rightarrow> Inr ()
      | Some tariffId \<Rightarrow>
          if \<not> uuid_pattern tariffId then Inl (JsError ''slot/tariffId/invalid'')
          else bindR (assertTariffActive tariffId d)
                 (\<lambda>_. bindR (assertTariffOwnedByTeacher tariffId teacherAccountId d)
                   (\<lambda>_. assertTariffDurationMatches tariffId durationMinutes d)))"

fun validation_text :: "slot_validation_error \<Rightarrow> string" where
  "validation_text StartAtInvalid = ''slot/startAt/invalid''"
| "validation_text StartAtInPast = ''slot/startAt/in_past''"
| "validation_text DurationOutOfBand = ''slot/durationMinutes/out_of_band''"
| "validation_text DurationNotInteger = ''slot/durationMinutes/not_integer''"
| "validation_text TeacherAccountIdInvalid = ''slot/teacherAccountId/invalid''"
| "validation_text NotesTooLong = ''slot/notes/too_long''"

definition validated :: "clock \<Rightarrow> slot_input \<Rightarrow> exn + unit" where
  "validated c input =
     (case validateSlotInput c input of None \<Rightarrow> Inr () | Some e \<Rightarrow> Inl (JsError (validation_text e)))"

section \<open>Creating slots\<close>

record create_input =
  cs_teacherAccountId :: string
  cs_startAt :: "millis option"
  cs_durationMinutes :: js_num
  cs_notes :: "js_text option"
  cs_tariffId :: "string option"

definition open_slot_row ::
  "clock \<Rightarrow> uuid \<Rightarrow> string \<Rightarrow> millis \<Rightarrow> int \<Rightarrow> js_text option \<Rightarrow> string option \<Rightarrow> slot_event list \<Rightarrow> slot_row" where
  "open_slot_row c newId teacher startMs dur notes tariff ev =
     (blank_slot c newId (pg_uuid teacher) (startMs * us_per_ms) dur Open)
       \<lparr>ls_notes := notes, ls_tariff_id := map_option pg_uuid tariff,
        ls_source := Some SrcOpenSlot, ls_events := ev\<rparr>"

definition createSlot :: "clock \<Rightarrow> uuid \<Rightarrow> create_input \<Rightarrow> db \<Rightarrow> slot_row outcome" where
  "createSlot c newId input d =
     bindR (validated c \<lparr>si_teacherAccountId = Some (cs_teacherAccountId input),
                         si_startAt = Some (cs_startAt input),
                         si_durationMinutes = Some (cs_durationMinutes input),
                         si_notes = Some (cs_notes input)\<rparr>)
       (\<lambda>_. bindR (tariff_gates (cs_tariffId input) (cs_teacherAccountId input)
                     (js_int (cs_durationMinutes input)) d)
         (\<lambda>_. bindR (assertTeacherRole (cs_teacherAccountId input) d)
           (\<lambda>_. case cs_startAt input of
                  None \<Rightarrow> Inl (JsError ''slot/startAt/invalid'')
                | Some startMs \<Rightarrow>
                    pg_insert_slot
                      (open_slot_row c newId (cs_teacherAccountId input) startMs
                         (js_int (cs_durationMinutes input)) (cs_notes input) (cs_tariffId input)
                         (appendEventSql c ''slot.created'' (Some ''admin'') None)) d)))"

record bulk_create_input =
  bc_teacherAccountId :: string
  bc_durationMinutes :: js_num
  bc_notes :: "js_text option"
  bc_tariffId :: "string option"
  bc_slots :: "millis option list"

text \<open>\<open>insert into lesson_slots \<dots> on conflict do nothing returning *\<close>.\<close>

definition pg_insert_slot_or_skip :: "slot_row \<Rightarrow> db \<Rightarrow> slot_row option outcome" where
  "pg_insert_slot_or_skip row d =
     (case pg_insert_slot row d of
        Inl e \<Rightarrow> if e = PgErr UniqueViolation then Inr (None, d) else Inl e
      | Inr (r, d') \<Rightarrow> Inr (Some r, d'))"

text \<open>The loop of inserts: the rows made, and the starts skipped.\<close>

fun bulk_loop ::
  "(uuid \<Rightarrow> millis \<Rightarrow> slot_row) \<Rightarrow> (nat \<Rightarrow> uuid) \<Rightarrow> nat \<Rightarrow> millis list \<Rightarrow> db
   \<Rightarrow> (slot_row list \<times> millis list) outcome" where
  "bulk_loop mk newId n [] d = Inr (([], []), d)"
| "bulk_loop mk newId n (s # ss) d =
     bindR (pg_insert_slot_or_skip (mk (newId n) s) d)
       (\<lambda>(ro, d1). bindR (bulk_loop mk newId (Suc n) ss d1)
         (\<lambda>((created, skipped), d').
            Inr (case ro of Some row \<Rightarrow> (row # created, skipped) | None \<Rightarrow> (created, s # skipped), d')))"

fun validate_starts :: "clock \<Rightarrow> millis option list \<Rightarrow> exn + millis list" where
  "validate_starts c [] = Inr []"
| "validate_starts c (s # ss) =
     bindR (validated c \<lparr>si_teacherAccountId = None, si_startAt = Some s,
                         si_durationMinutes = None, si_notes = None\<rparr>)
       (\<lambda>_. bindR (validate_starts c ss)
         (\<lambda>rest. case s of None \<Rightarrow> Inl (JsError ''slot/startAt/invalid'') | Some ms \<Rightarrow> Inr (ms # rest)))"

definition bulk_row :: "clock \<Rightarrow> bulk_create_input \<Rightarrow> uuid \<Rightarrow> millis \<Rightarrow> slot_row" where
  "bulk_row c input newId startMs =
     open_slot_row c newId (bc_teacherAccountId input) startMs (js_int (bc_durationMinutes input))
       (bc_notes input) (bc_tariffId input)
       (appendEventSql c ''slot.created'' (Some ''admin'') (Some [(''source'', VStr ''bulk'')]))"

definition bulkCreateSlots ::
  "clock \<Rightarrow> (nat \<Rightarrow> uuid) \<Rightarrow> bulk_create_input \<Rightarrow> db \<Rightarrow> (slot_row list \<times> millis list) outcome" where
  "bulkCreateSlots c newId input d =
     bindR (validated c \<lparr>si_teacherAccountId = Some (bc_teacherAccountId input), si_startAt = None,
                         si_durationMinutes = Some (bc_durationMinutes input),
                         si_notes = Some (bc_notes input)\<rparr>)
       (\<lambda>_. if bc_slots input = [] then Inl (JsError ''slot/slots/empty'')
            else if length (bc_slots input) > 200 then Inl (JsError ''slot/slots/too_many'')
            else bindR (validate_starts c (bc_slots input))
              (\<lambda>starts. bindR (tariff_gates (bc_tariffId input) (bc_teacherAccountId input)
                                 (js_int (bc_durationMinutes input)) d)
                (\<lambda>_. bindR (assertTeacherRole (bc_teacherAccountId input) d)
                  (\<lambda>_. bulk_loop (bulk_row c input) newId 0 starts d))))"

section \<open>Editing, moving and deleting open slots\<close>

text \<open>A key of a patch: absent, present with \<open>undefined\<close>, or present with a value.\<close>

datatype 'a field = Absent | Undefined | Given 'a

record edit_patch =
  ep_startAt :: "millis option field"
  ep_durationMinutes :: "js_num field"
  ep_notes :: "js_text option field"

definition field_value :: "'a field \<Rightarrow> 'a option" where
  "field_value f = (case f of Given x \<Rightarrow> Some x | _ \<Rightarrow> None)"

definition patch_payload :: "edit_patch \<Rightarrow> (string \<times> js_val) list" where
  "patch_payload patch =
     (case ep_startAt patch of Given (Some t) \<Rightarrow> [(''startAt'', VInstant t)] | _ \<Rightarrow> [])
     @ (case ep_durationMinutes patch of Given n \<Rightarrow> [(''durationMinutes'', VNum n)] | _ \<Rightarrow> [])
     @ (case ep_notes patch of
          Given (Some t) \<Rightarrow> [(''notes'', VText t)] | Given None \<Rightarrow> [(''notes'', VNull)] | _ \<Rightarrow> [])"

definition edited_row :: "clock \<Rightarrow> edit_patch \<Rightarrow> slot_row \<Rightarrow> slot_row" where
  "edited_row c patch r =
     r\<lparr>ls_start_at := (case ep_startAt patch of Given (Some t) \<Rightarrow> t * us_per_ms | _ \<Rightarrow> ls_start_at r),
       ls_duration_minutes :=
         (case ep_durationMinutes patch of Given n \<Rightarrow> js_int n | _ \<Rightarrow> ls_duration_minutes r),
       ls_notes := (case ep_notes patch of Absent \<Rightarrow> ls_notes r | Undefined \<Rightarrow> None | Given x \<Rightarrow> x),
       ls_updated_at := pg_now c,
       ls_events := appendEventSql c ''slot.edited'' (Some ''admin'') (Some (patch_payload patch))
                      @ ls_events r\<rparr>"

datatype write_refusal = WrNotFound | WrNotOpen | WrSlotCollision | WrNotOwner | WrNotBooked

definition editOpenSlot :: "clock \<Rightarrow> string \<Rightarrow> edit_patch \<Rightarrow> db \<Rightarrow> (write_refusal + slot_row) outcome" where
  "editOpenSlot c slotId patch d =
     (if \<not> uuid_pattern slotId then Inr (Inl WrNotFound, d)
      else
        bindR (validated c \<lparr>si_teacherAccountId = None, si_startAt = field_value (ep_startAt patch),
                            si_durationMinutes = field_value (ep_durationMinutes patch),
                            si_notes = field_value (ep_notes patch)\<rparr>)
          (\<lambda>_.
            let i = pg_uuid slotId in
            case slot_by_id d i of
              None \<Rightarrow> Inr (Inl WrNotFound, d)
            | Some r \<Rightarrow>
                if ls_status r \<noteq> Open then Inr (Inl WrNotOpen, d)
                else if ep_startAt patch = Undefined \<or> ep_durationMinutes patch = Undefined
                then Inl (PgErr NotNullViolation)
                else
                  bindR (pg_update_slot i (\<lambda>r. ls_status r = Open) (edited_row c patch) d)
                    (\<lambda>(ro, d1). case ro of
                         Some slot \<Rightarrow> Inr (Inr slot, d1)
                       | None \<Rightarrow> Inr (Inl WrNotOpen, d1))))"

definition moved_row :: "clock \<Rightarrow> string \<Rightarrow> uuid \<Rightarrow> millis \<Rightarrow> slot_row \<Rightarrow> slot_row" where
  "moved_row c actor account startMs r =
     r\<lparr>ls_start_at := startMs * us_per_ms, ls_updated_at := pg_now c,
       ls_events := appendEventSql c ''slot.moved'' (Some actor)
                      (Some [(''newStartAt'', VInstant startMs), (''actorAccountId'', VStr account)])
                      @ ls_events r\<rparr>"

text \<open>A start that is no timestamp is refused by the database when it reads the parameter.\<close>

definition moveOpenSlot ::
  "clock \<Rightarrow> string \<Rightarrow> millis option \<Rightarrow> uuid \<Rightarrow> db \<Rightarrow> (write_refusal + slot_row) outcome" where
  "moveOpenSlot c slotId newStartAt actorAccountId d =
     (if \<not> uuid_pattern slotId then Inr (Inl WrNotFound, d)
      else case newStartAt of
        None \<Rightarrow> Inl (PgErr (RaisedException ''22007''))
      | Some startMs \<Rightarrow>
          (case pg_update_slot (pg_uuid slotId) (\<lambda>r. ls_status r = Open)
                  (moved_row c ''admin'' actorAccountId startMs) d of
             Inl (PgErr UniqueViolation) \<Rightarrow> Inr (Inl WrSlotCollision, d)
           | Inl e \<Rightarrow> Inl e
           | Inr (Some slot, d1) \<Rightarrow> Inr (Inr slot, d1)
           | Inr (None, d1) \<Rightarrow>
               (case slot_by_id d1 (pg_uuid slotId) of
                  None \<Rightarrow> Inr (Inl WrNotFound, d1) | Some _ \<Rightarrow> Inr (Inl WrNotOpen, d1))))"

definition moveOpenSlotByTeacher ::
  "clock \<Rightarrow> string \<Rightarrow> millis option \<Rightarrow> string \<Rightarrow> db \<Rightarrow> (write_refusal + slot_row) outcome" where
  "moveOpenSlotByTeacher c slotId newStartAt teacherAccountId d =
     (if \<not> uuid_pattern slotId then Inr (Inl WrNotFound, d)
      else if \<not> uuid_pattern teacherAccountId then Inr (Inl WrNotFound, d)
      else case newStartAt of
        None \<Rightarrow> Inl (PgErr (RaisedException ''22007''))
      | Some startMs \<Rightarrow>
          (case pg_update_slot (pg_uuid slotId)
                  (\<lambda>r. ls_status r = Open \<and> ls_teacher_account_id r = pg_uuid teacherAccountId)
                  (moved_row c ''teacher'' teacherAccountId startMs) d of
             Inl (PgErr UniqueViolation) \<Rightarrow> Inr (Inl WrSlotCollision, d)
           | Inl e \<Rightarrow> Inl e
           | Inr (Some slot, d1) \<Rightarrow> Inr (Inr slot, d1)
           | Inr (None, d1) \<Rightarrow>
               (case slot_by_id d1 (pg_uuid slotId) of
                  None \<Rightarrow> Inr (Inl WrNotFound, d1)
                | Some row \<Rightarrow>
                    if ls_teacher_account_id row \<noteq> teacherAccountId then Inr (Inl WrNotOwner, d1)
                    else Inr (Inl WrNotOpen, d1))))"

text \<open>
  \<open>delete from lesson_slots\<close>: a consumption or completion row that refers to the slot refuses the
  delete, its audit rows go with it.
\<close>

definition pg_delete_slot :: "uuid \<Rightarrow> (slot_row \<Rightarrow> bool) \<Rightarrow> db \<Rightarrow> bool outcome" where
  "pg_delete_slot i P d =
     (case slot_by_id d i of
        None \<Rightarrow> Inr (False, d)
      | Some r \<Rightarrow>
          if \<not> P r then Inr (False, d)
          else if consumption_of_slot d i \<noteq> None \<or> completion_of_slot d i \<noteq> None
          then Inl (PgErr ForeignKeyViolation)
          else Inr (True, d\<lparr>lesson_slots := filter (\<lambda>x. ls_id x \<noteq> i) (lesson_slots d),
                            audit_lesson_status_change :=
                              filter (\<lambda>a. au_slot_id a \<noteq> i) (audit_lesson_status_change d)\<rparr>))"

definition deleteOpenSlot :: "string \<Rightarrow> db \<Rightarrow> (write_refusal + unit) outcome" where
  "deleteOpenSlot slotId d =
     (if \<not> uuid_pattern slotId then Inr (Inl WrNotFound, d)
      else
        bindR (pg_delete_slot (pg_uuid slotId) (\<lambda>r. ls_status r = Open) d)
          (\<lambda>(gone, d1).
             if gone then Inr (Inr (), d1)
             else case slot_by_id d1 (pg_uuid slotId) of
               None \<Rightarrow> Inr (Inl WrNotFound, d1) | Some _ \<Rightarrow> Inr (Inl WrNotOpen, d1)))"

section \<open>The join link\<close>

datatype zoom_actor = ZoomAdmin | ZoomTeacher

definition zoom_actor_text :: "zoom_actor \<Rightarrow> string" where
  "zoom_actor_text k = (case k of ZoomAdmin \<Rightarrow> ''admin'' | ZoomTeacher \<Rightarrow> ''teacher'')"

definition zoom_row :: "clock \<Rightarrow> js_text option \<Rightarrow> uuid \<Rightarrow> zoom_actor \<Rightarrow> slot_row \<Rightarrow> slot_row" where
  "zoom_row c zoomUrl by_account kind r =
     r\<lparr>ls_zoom_url := zoomUrl, ls_updated_at := pg_now c,
       ls_events := appendEventSql c ''slot.zoom_url_updated'' (Some (zoom_actor_text kind))
                      (Some [(''byAccountId'', VStr by_account),
                             (''zoomUrl'', case zoomUrl of None \<Rightarrow> VNull | Some u \<Rightarrow> VText u)])
                      @ ls_events r\<rparr>"

definition setSlotZoomUrl ::
  "clock \<Rightarrow> string \<Rightarrow> js_text option \<Rightarrow> uuid \<Rightarrow> zoom_actor \<Rightarrow> db \<Rightarrow> (write_refusal + slot_row) outcome" where
  "setSlotZoomUrl c slotId zoomUrl by_account kind d =
     (if \<not> uuid_pattern slotId then Inr (Inl WrNotFound, d)
      else
        bindR (pg_update_slot (pg_uuid slotId)
                 (\<lambda>r. ls_status r = Booked
                      \<and> (kind = ZoomTeacher \<longrightarrow> ls_teacher_account_id r = by_account))
                 (zoom_row c zoomUrl by_account kind) d)
          (\<lambda>(ro, d1). case ro of
               Some slot \<Rightarrow> Inr (Inr slot, d1)
             | None \<Rightarrow>
                 (case slot_by_id d1 (pg_uuid slotId) of
                    None \<Rightarrow> Inr (Inl WrNotFound, d1)
                  | Some row \<Rightarrow>
                      if ls_status row \<noteq> Booked then Inr (Inl WrNotBooked, d1)
                      else if kind = ZoomTeacher \<and> ls_teacher_account_id row \<noteq> by_account
                      then Inr (Inl WrNotOwner, d1)
                      else Inr (Inl WrNotFound, d1))))"

section \<open>The agreements of the ledger are kept\<close>

lemma open_slot_row_simps [simp]:
  "ls_id (open_slot_row c i t ms dur notes tariff ev) = i"
  "ls_status (open_slot_row c i t ms dur notes tariff ev) = Open"
  "ls_teacher_account_id (open_slot_row c i t ms dur notes tariff ev) = pg_uuid t"
  "ls_start_at (open_slot_row c i t ms dur notes tariff ev) = ms * us_per_ms"
  "ls_duration_minutes (open_slot_row c i t ms dur notes tariff ev) = dur"
  "ls_tariff_id (open_slot_row c i t ms dur notes tariff ev) = map_option pg_uuid tariff"
  "ls_snapshot_amount_kopecks (open_slot_row c i t ms dur notes tariff ev) = None"
  by (simp_all add: open_slot_row_def blank_slot_def)

text \<open>An open slot is not priced yet.\<close>

lemma snapshot_open [simp]: "ls_status r = Open \<Longrightarrow> snapshot_on_book d r = r"
  by (cases r) (simp add: snapshot_on_book_def snapshot_value_def split: option.split)

lemma createSlot_InrE:
  assumes "createSlot c i input d = Inr (slot, d')"
  obtains startMs where "cs_startAt input = Some startMs"
    and "tariff_gates (cs_tariffId input) (cs_teacherAccountId input)
           (js_int (cs_durationMinutes input)) d = Inr ()"
    and "assertTeacherRole (cs_teacherAccountId input) d = Inr ()"
    and "pg_insert_slot
           (open_slot_row c i (cs_teacherAccountId input) startMs
              (js_int (cs_durationMinutes input)) (cs_notes input) (cs_tariffId input)
              (appendEventSql c ''slot.created'' (Some ''admin'') None)) d = Inr (slot, d')"
  using assms by (auto simp: createSlot_def bindR_eq_Inr_iff split: option.splits)

lemma createSlot_inv:
  assumes "ledger_inv d" and "createSlot c i input d = Inr (slot, d')"
  shows "ledger_inv d'"
  using assms(2)
  by (rule createSlot_InrE) (use pg_insert_slot_inv [OF assms(1)] in \<open>fastforce simp: billable_def\<close>)

lemma pg_insert_slot_or_skip_cases:
  assumes "pg_insert_slot_or_skip row d = Inr (ro, d')"
  obtains "ro = None" and "d' = d" and "pg_insert_slot row d = Inl (PgErr UniqueViolation)"
  | r where "ro = Some r" and "pg_insert_slot row d = Inr (r, d')"
  using assms by (auto simp: pg_insert_slot_or_skip_def split: sum.splits if_splits)

lemma bulk_loop_inv:
  assumes "\<And>i s. ls_status (mk i s) = Open"
  shows "ledger_inv d \<Longrightarrow> bulk_loop mk newId n ss d = Inr (r, d') \<Longrightarrow> ledger_inv d'"
proof (induction ss arbitrary: n d r)
  case Nil
  then show ?case by simp
next
  case (Cons s ss)
  then obtain ro d1 r1 where ins: "pg_insert_slot_or_skip (mk (newId n) s) d = Inr (ro, d1)"
    and rest: "bulk_loop mk newId (Suc n) ss d1 = Inr (r1, d')"
    by (auto simp: bindR_eq_Inr_iff)
  from ins have "ledger_inv d1"
  proof (cases rule: pg_insert_slot_or_skip_cases)
    case 1
    with Cons.prems show ?thesis by simp
  next
    case (2 row)
    with pg_insert_slot_inv [OF Cons.prems(1) 2(2)] assms show ?thesis by (simp add: billable_def)
  qed
  with rest show ?case by (rule Cons.IH [rotated])
qed

lemma bulkCreateSlots_InrE:
  assumes "bulkCreateSlots c newId input d = Inr (r, d')"
  obtains starts where "validate_starts c (bc_slots input) = Inr starts"
    and "tariff_gates (bc_tariffId input) (bc_teacherAccountId input)
           (js_int (bc_durationMinutes input)) d = Inr ()"
    and "assertTeacherRole (bc_teacherAccountId input) d = Inr ()"
    and "bulk_loop (bulk_row c input) newId 0 starts d = Inr (r, d')"
  using assms by (auto simp: bulkCreateSlots_def bindR_eq_Inr_iff split: if_splits)

lemma bulkCreateSlots_inv:
  assumes "ledger_inv d" and "bulkCreateSlots c newId input d = Inr (r, d')"
  shows "ledger_inv d'"
  using assms(2)
proof (rule bulkCreateSlots_InrE)
  fix starts
  assume "bulk_loop (bulk_row c input) newId 0 starts d = Inr (r, d')"
  then show ?thesis by (rule bulk_loop_inv [rotated 2]) (simp_all add: bulk_row_def assms(1))
qed

text \<open>Whatever an update does to an open slot of the same teacher, the ledger is not concerned.\<close>

lemma open_update_inv:
  assumes "ledger_inv d" and "pg_update_slot i P f d = Inr (ro, d')"
    and "\<And>r. P r \<Longrightarrow> ls_status r = Open"
    and "\<And>r. ls_id (f r) = ls_id r \<and> ls_status (f r) = ls_status r
           \<and> ls_teacher_account_id (f r) = ls_teacher_account_id r \<and> ls_source (f r) = ls_source r"
  shows "ledger_inv d'"
  by (rule pg_update_slot_inv [OF assms(1,2)])
    (use assms(3,4) in \<open>auto simp: slot_step_safe_def holds_unit_def\<close>)

lemma editOpenSlot_inv:
  assumes "ledger_inv d" and "editOpenSlot c slotId patch d = Inr (res, d')"
  shows "ledger_inv d'"
proof -
  have "d' = d \<or> (\<exists>ro. pg_update_slot (pg_uuid slotId) (\<lambda>r. ls_status r = Open) (edited_row c patch) d
      = Inr (ro, d'))"
    using assms(2)
    by (auto simp: editOpenSlot_def Let_def bindR_eq_Inr_iff split: if_splits option.splits)
  with assms(1) show ?thesis
    using open_update_inv [OF assms(1), of "pg_uuid slotId" "\<lambda>r. ls_status r = Open" "edited_row c patch"]
    by (auto simp: edited_row_def)
qed

text \<open>A move answers with what its statement did, or leaves the state as it was.\<close>

lemma moveOpenSlot_state:
  assumes "moveOpenSlot c slotId newStartAt a d = Inr (res, d')"
  shows "d' = d \<or> (\<exists>ms ro. pg_update_slot (pg_uuid slotId) (\<lambda>r. ls_status r = Open)
      (moved_row c ''admin'' a ms) d = Inr (ro, d'))"
  using assms
  by (auto simp: moveOpenSlot_def split: if_splits option.splits sum.splits exn.splits pg_error.splits)

lemma moveOpenSlotByTeacher_state:
  assumes "moveOpenSlotByTeacher c slotId newStartAt t d = Inr (res, d')"
  shows "d' = d \<or> (\<exists>ms ro. pg_update_slot (pg_uuid slotId)
      (\<lambda>r. ls_status r = Open \<and> ls_teacher_account_id r = pg_uuid t)
      (moved_row c ''teacher'' t ms) d = Inr (ro, d'))"
  using assms
  by (auto simp: moveOpenSlotByTeacher_def split: if_splits option.splits sum.splits exn.splits pg_error.splits)

lemma moveOpenSlot_inv:
  assumes "ledger_inv d" and "moveOpenSlot c slotId newStartAt a d = Inr (res, d')"
  shows "ledger_inv d'"
  using moveOpenSlot_state [OF assms(2)] assms(1)
  by (auto dest: open_update_inv [OF assms(1)] simp: moved_row_def)

lemma moveOpenSlotByTeacher_inv:
  assumes "ledger_inv d" and "moveOpenSlotByTeacher c slotId newStartAt t d = Inr (res, d')"
  shows "ledger_inv d'"
  using moveOpenSlotByTeacher_state [OF assms(2)] assms(1)
  by (auto dest: open_update_inv [OF assms(1)] simp: moved_row_def)

lemma setSlotZoomUrl_inv:
  assumes inv: "ledger_inv d" and "setSlotZoomUrl c slotId url a kind d = Inr (res, d')"
  shows "ledger_inv d'"
proof -
  obtain ro where "pg_update_slot (pg_uuid slotId)
      (\<lambda>r. ls_status r = Booked \<and> (kind = ZoomTeacher \<longrightarrow> ls_teacher_account_id r = a))
      (zoom_row c url a kind) d = Inr (ro, d') \<or> d' = d"
    using assms(2)
    by (fastforce simp: setSlotZoomUrl_def bindR_eq_Inr_iff split: if_splits option.splits)
  then show ?thesis
    using inv by (auto intro: pg_update_slot_inv [OF inv] simp: slot_step_safe_def zoom_row_def holds_unit_def)
qed

lemma pg_delete_slot_inv:
  assumes inv: "ledger_inv d" and del: "pg_delete_slot i P d = Inr (gone, d')"
  shows "ledger_inv d'"
proof (cases gone)
  case False
  with del inv show ?thesis by (auto simp: pg_delete_slot_def split: option.splits if_splits)
next
  case True
  let ?slots = "filter (\<lambda>x. ls_id x \<noteq> i) (lesson_slots d)"
  let ?d1 = "d\<lparr>lesson_slots := ?slots\<rparr>"
  from True del have cons: "consumption_of_slot d i = None" and comp: "completion_of_slot d i = None"
    and same: "lesson_slots d' = ?slots" "lesson_completions d' = lesson_completions d"
      "package_purchases d' = package_purchases d" "package_consumptions d' = package_consumptions d"
      "lesson_settlement_completions d' = lesson_settlement_completions d"
    by (auto simp: pg_delete_slot_def split: option.splits if_splits)
  have d': "ledger_inv d' = ledger_inv ?d1" using same by (intro ledger_inv_cong) simp_all
  have "schema_ok ?d1"
    using inv by (auto simp: ledger_inv_def schema_ok_def keys_ok_def lanes_ok_def checks_ok_def
        intro: distinct_map_filter)
  moreover have "completion_sync ?d1"
    using inv comp
    unfolding ledger_inv_def completion_sync_def completion_backed_def completion_of_slot_None_iff
    by fastforce
  moreover have "consumption_sync ?d1"
    using inv cons
    unfolding ledger_inv_def consumption_sync_def unit_backed_def consumption_of_slot_None_iff
    by fastforce
  ultimately show ?thesis using inv d' by (simp add: ledger_inv_def)
qed

lemma deleteOpenSlot_inv:
  assumes "ledger_inv d" and "deleteOpenSlot slotId d = Inr (res, d')"
  shows "ledger_inv d'"
  using assms pg_delete_slot_inv [OF assms(1)]
  by (auto simp: deleteOpenSlot_def bindR_eq_Inr_iff split: if_splits option.splits)

section \<open>Properties\<close>

lemma bindR_unit_iff: "bindR (m :: 'e + unit) f = Inr y \<longleftrightarrow> m = Inr () \<and> f () = Inr y"
  by (auto simp: bindR_eq_Inr_iff)

lemma tariff_gates_ok_iff:
  "tariff_gates tariff teacher dur d = Inr () \<longleftrightarrow>
     (\<forall>i. tariff = Some i \<longrightarrow> uuid_pattern i
        \<and> (\<exists>t. tariff_by_id d (pg_uuid i) = Some t \<and> pt_deleted_at t = None
             \<and> pt_teacher_id t = Some teacher \<and> pt_duration_minutes t = dur))"
  by (auto simp: tariff_gates_def assertTariffActive_def assertTariffOwnedByTeacher_def
      assertTariffDurationMatches_def bindR_eq_Inr_iff split: option.splits if_splits)

lemma assertTeacherRole_ok_iff:
  "assertTeacherRole t d = Inr () \<longleftrightarrow>
     (\<exists>r \<in> set (account_roles d). ar_account_id r = pg_uuid t \<and> ar_role r = ''teacher'')"
  by (auto simp: assertTeacherRole_def list_ex_iff)

definition create_row :: "clock \<Rightarrow> uuid \<Rightarrow> create_input \<Rightarrow> millis \<Rightarrow> slot_row" where
  "create_row c i input ms =
     open_slot_row c i (cs_teacherAccountId input) ms (js_int (cs_durationMinutes input))
       (cs_notes input) (cs_tariffId input) (appendEventSql c ''slot.created'' (Some ''admin'') None)"

text \<open>
  Exactly when a slot is created. \<open>createSlot\<close> succeeds exactly when the input is well
  formed and in the future, its tariff (if any) exists, is not deleted, is the teacher's own and
  has the slot's duration, the account is a teacher's, the row satisfies the constraints of the
  database and no live slot of the teacher starts then; the new row is then the only change, is
  open, and carries no price yet.
\<close>

theorem createSlot_succeeds_iff:
  "createSlot c i input d = Inr (slot, d') \<longleftrightarrow>
     (\<exists>ms n. cs_startAt input = Some ms \<and> js_now c < ms
        \<and> cs_durationMinutes input = JsInt n \<and> 15 \<le> n \<and> n \<le> 180
        \<and> uuid_pattern (cs_teacherAccountId input)
        \<and> (case cs_notes input of None \<Rightarrow> True | Some t \<Rightarrow> length t \<le> MAX_NOTES_LEN)
        \<and> (case cs_tariffId input of None \<Rightarrow> True
           | Some k \<Rightarrow> uuid_pattern k
              \<and> (\<exists>t. tariff_by_id d (pg_uuid k) = Some t \<and> pt_deleted_at t = None
                   \<and> pt_teacher_id t = Some (cs_teacherAccountId input) \<and> pt_duration_minutes t = n))
        \<and> (\<exists>r \<in> set (account_roles d).
             ar_account_id r = pg_uuid (cs_teacherAccountId input) \<and> ar_role r = ''teacher'')
        \<and> slot = create_row c i input ms \<and> slot_check slot
        \<and> slot_by_id d i = None \<and> \<not> slot_conflict d slot
        \<and> d' = d\<lparr>lesson_slots := lesson_slots d @ [slot]\<rparr>)"
proof -
  have valid: "validated c \<lparr>si_teacherAccountId = Some t, si_startAt = Some st,
        si_durationMinutes = Some dm, si_notes = Some nt\<rparr> = Inr () \<longleftrightarrow>
      uuid_pattern t \<and> (\<exists>ms. st = Some ms \<and> js_now c < ms)
      \<and> (\<exists>n. dm = JsInt n \<and> 15 \<le> n \<and> n \<le> 180)
      \<and> (case nt of None \<Rightarrow> True | Some x \<Rightarrow> length x \<le> MAX_NOTES_LEN)" for t st dm nt
    by (cases st; cases dm; cases nt) (auto simp: validated_def validateSlotInput_def split: option.splits)
  have insert: "pg_insert_slot (create_row c i input ms) d = Inr (slot, d') \<longleftrightarrow>
      slot = create_row c i input ms \<and> slot_check slot \<and> slot_by_id d i = None \<and> \<not> slot_conflict d slot
      \<and> d' = d\<lparr>lesson_slots := lesson_slots d @ [slot]\<rparr>" for ms
    by (auto simp: pg_insert_slot_def Let_def create_row_def)
  have gates: "(\<forall>k. cs_tariffId input = Some k \<longrightarrow> Q k)
      \<longleftrightarrow> (case cs_tariffId input of None \<Rightarrow> True | Some k \<Rightarrow> Q k)" for Q
    by (simp split: option.split)
  show ?thesis
    unfolding createSlot_def bindR_unit_iff valid tariff_gates_ok_iff assertTeacherRole_ok_iff
      create_row_def [symmetric] gates
    by (cases "cs_startAt input"; cases "cs_durationMinutes input") (auto simp: insert js_int_def cong: option.case_cong)
qed

text \<open>
  Deleting undoes creating: a slot just created and deleted again leaves the database as it
  was, provided no audit row carries its fresh id.
\<close>

theorem create_delete_round_trip:
  assumes inv: "ledger_inv d" and cre: "createSlot c i input d = Inr (slot, d1)"
    and id: "uuid_pattern slotId" "pg_uuid slotId = i"
    and fresh: "i \<notin> au_slot_id ` set (audit_lesson_status_change d)"
      "consumption_of_slot d i = None"
  shows "deleteOpenSlot slotId d1 = Inr (Inr (), d)"
proof -
  from cre obtain ms where ins: "pg_insert_slot (create_row c i input ms) d = Inr (slot, d1)"
    unfolding create_row_def by (auto elim: createSlot_InrE)
  then have slot: "slot = create_row c i input ms" and none: "slot_by_id d i = None"
    and d1: "d1 = d\<lparr>lesson_slots := lesson_slots d @ [slot]\<rparr>"
    by (auto elim!: pg_insert_slot_InrE simp: create_row_def)
  have row: "ls_id slot = i" "ls_status slot = Open" by (simp_all add: slot create_row_def)
  have look: "slot_by_id d1 i = Some slot"
    using none row by (simp add: d1 slot_by_id_def find_by_snoc)
  have comp: "completion_of_slot d i = None"
    using none inv
    by (force simp: completion_of_slot_None_iff ledger_inv_def completion_sync_def completion_backed_def
        slot_by_id_def find_by_None_iff)
  have "filter (\<lambda>x. ls_id x \<noteq> i) (lesson_slots d) = lesson_slots d"
    using none by (auto simp: filter_id_conv slot_by_id_def find_by_None_iff)
  moreover have "filter (\<lambda>a. au_slot_id a \<noteq> i) (audit_lesson_status_change d) = audit_lesson_status_change d"
    using fresh by (auto simp: filter_id_conv)
  moreover have "consumption_of_slot d1 i = None" "completion_of_slot d1 i = None"
    using fresh comp by (simp_all add: d1 consumption_of_slot_def completion_of_slot_def)
  ultimately show ?thesis
    using id look row by (simp add: deleteOpenSlot_def pg_delete_slot_def d1)
qed

text \<open>What an update of an open slot answers, by the constraint that decides.\<close>

lemma update_open_slot:
  assumes "slot_by_id d i = Some r" and "P r" and "ls_status r = Open" "ls_status (f r) = Open"
  shows "pg_update_slot i P f d =
     (if \<not> slot_check (f r) then Inl (PgErr CheckViolation)
      else if slot_conflict d (f r) then Inl (PgErr UniqueViolation)
      else Inr (Some (f r), d\<lparr>lesson_slots := replace_row ls_id (f r) (lesson_slots d)\<rparr>))"
  using assms by (simp add: pg_update_slot_def Let_def snapshot_frozen_def)

lemma slot_by_id_replaced:
  "slot_by_id d i = Some r \<Longrightarrow> ls_id r' = i \<Longrightarrow>
   slot_by_id (d\<lparr>lesson_slots := replace_row ls_id r' (lesson_slots d)\<rparr>) j =
     (if j = i then Some r' else slot_by_id d j)"
  by (simp add: slot_by_id_def find_by_replace_row)

text \<open>
  The teacher's move of a slot, on every branch: a foreign slot and a slot that is no longer
  open are refused, a start outside the constraints of the database throws, a start that
  another live slot of the teacher occupies is a collision, and none of these changes anything;
  otherwise only the start of this slot changes (with its stamp and log).
\<close>

theorem moveOpenSlotByTeacher_decision:
  assumes pat: "uuid_pattern slotId" "uuid_pattern teacher" "pg_uuid teacher = teacher"
    and r: "slot_by_id d (pg_uuid slotId) = Some r"
  shows "let r' = moved_row c ''teacher'' teacher ms r in
     moveOpenSlotByTeacher c slotId (Some ms) teacher d =
       (if ls_teacher_account_id r \<noteq> teacher then Inr (Inl WrNotOwner, d)
        else if ls_status r \<noteq> Open then Inr (Inl WrNotOpen, d)
        else if \<not> slot_check r' then Inl (PgErr CheckViolation)
        else if slot_conflict d r' then Inr (Inl WrSlotCollision, d)
        else Inr (Inr r', d\<lparr>lesson_slots := replace_row ls_id r' (lesson_slots d)\<rparr>))"
proof (cases "ls_status r = Open \<and> ls_teacher_account_id r = teacher")
  case True
  let ?P = "\<lambda>r. ls_status r = Open \<and> ls_teacher_account_id r = pg_uuid teacher"
  have "ls_status (moved_row c ''teacher'' teacher ms r) = Open" using True by (simp add: moved_row_def)
  with update_open_slot [OF r, of ?P "moved_row c ''teacher'' teacher ms"] True pat
  show ?thesis by (simp add: moveOpenSlotByTeacher_def Let_def)
next
  case False
  then have "pg_update_slot (pg_uuid slotId)
      (\<lambda>r. ls_status r = Open \<and> ls_teacher_account_id r = pg_uuid teacher)
      (moved_row c ''teacher'' teacher ms) d = Inr (None, d)"
    using r pat by (simp add: pg_update_slot_None_iff)
  with False r pat show ?thesis by (auto simp: moveOpenSlotByTeacher_def Let_def)
qed

text \<open>
  Editing breaks the match of a slot and its tariff: \<open>createSlot\<close> insists that a slot lasts as
  long as its tariff, but \<open>editOpenSlot\<close> accepts any other duration between 15 and 180 minutes
  and keeps the tariff.
\<close>

theorem editOpenSlot_unmatches_tariff:
  assumes inv: "ledger_inv d" and pat: "uuid_pattern slotId"
    and r: "slot_by_id d (pg_uuid slotId) = Some r" "ls_status r = Open" "ls_tariff_id r = Some k"
    and t: "tariff_by_id d k = Some t" "pt_duration_minutes t = ls_duration_minutes r"
    and n: "15 \<le> n" "n \<le> 180" "n \<noteq> ls_duration_minutes r"
  shows "\<exists>slot d'. editOpenSlot c slotId
       \<lparr>ep_startAt = Absent, ep_durationMinutes = Given (JsInt n), ep_notes = Absent\<rparr> d = Inr (Inr slot, d')
     \<and> slot_by_id d' (pg_uuid slotId) = Some slot \<and> ls_tariff_id slot = Some k
     \<and> tariff_by_id d' k = Some t \<and> pt_duration_minutes t \<noteq> ls_duration_minutes slot"
proof -
  let ?patch = "\<lparr>ep_startAt = Absent, ep_durationMinutes = Given (JsInt n), ep_notes = Absent\<rparr>"
  let ?r' = "edited_row c ?patch r" and ?P = "\<lambda>r. ls_status r = Open"
  let ?d' = "d\<lparr>lesson_slots := replace_row ls_id ?r' (lesson_slots d)\<rparr>"
  have chk: "slot_check r" using slot_by_id_check [OF ledger_inv_schema [OF inv] r(1)] .
  then have "check_within_msk_day ?r'"
    by (intro seconds_zero_within_day) (simp add: slot_check_def check_seconds_zero_def edited_row_def)
  with chk n have chk': "slot_check ?r'"
    by (auto simp: slot_check_defs edited_row_def js_int_def)
  have free: "\<not> slot_conflict d ?r'"
    by (rule no_self_conflict [OF inv r(1)]) (simp_all add: edited_row_def r(2))
  have "ls_status ?r' = Open" using r(2) by (simp add: edited_row_def)
  then have upd: "pg_update_slot (pg_uuid slotId) ?P (edited_row c ?patch) d = Inr (Some ?r', ?d')"
    using update_open_slot [OF r(1), of ?P "edited_row c ?patch"] r(2) chk' free by simp
  have look: "slot_by_id ?d' (pg_uuid slotId) = Some ?r'"
    using slot_by_id_replaced [OF r(1), of ?r'] slot_by_id_SomeD [OF r(1)] by (simp add: edited_row_def)
  have "validated c \<lparr>si_teacherAccountId = None, si_startAt = None,
      si_durationMinutes = Some (JsInt n), si_notes = None\<rparr> = Inr ()"
    using n by (simp add: validated_def validateSlotInput_def)
  then have "editOpenSlot c slotId ?patch d = Inr (Inr ?r', ?d')"
    using pat r upd by (simp add: editOpenSlot_def field_value_def Let_def)
  moreover have "ls_tariff_id ?r' = Some k" "ls_duration_minutes ?r' = n"
    using r(3) by (simp_all add: edited_row_def js_int_def)
  moreover have "tariff_by_id ?d' k = Some t" using t(1) by (simp add: tariff_by_id_def)
  ultimately show ?thesis using look t(2) n(3) by (intro exI [of _ ?r'] exI [of _ ?d']) simp
qed

section \<open>The bulk\<close>

text \<open>A live slot of the teacher starts at the instant.\<close>

definition lane_taken :: "db \<Rightarrow> uuid \<Rightarrow> micros \<Rightarrow> bool" where
  "lane_taken d t start \<longleftrightarrow>
     (\<exists>x \<in> set (lesson_slots d). ls_status x \<noteq> Cancelled \<and> ls_teacher_account_id x = t \<and> ls_start_at x = start)"

lemma validate_starts_eq: "validate_starts c ss = Inr starts \<Longrightarrow> ss = map Some starts"
  by (induction ss arbitrary: starts) (auto simp: bindR_eq_Inr_iff split: option.splits)

lemma insert_unique_taken:
  assumes "pg_insert_slot r d = Inl (PgErr UniqueViolation)" and "ls_status r = Open"
    and "ls_id r \<notin> ls_id ` set (lesson_slots d)"
  shows "lane_taken d (ls_teacher_account_id r) (ls_start_at r)"
  using assms
  by (auto simp: pg_insert_slot_def slot_conflict_def list_ex_iff same_lane_def lane_taken_def
      slot_by_id_def simp flip: find_by_None_iff split: if_splits)

lemma insert_taken_unique:
  assumes "lane_taken d (ls_teacher_account_id r) (ls_start_at r)" and "ls_status r = Open"
  shows "\<exists>e. pg_insert_slot r d = Inl e"
proof -
  from assms obtain x where x: "x \<in> set (lesson_slots d)" "same_lane x r"
    by (auto simp: lane_taken_def same_lane_def)
  have "slot_by_id d (ls_id r) \<noteq> None \<or> slot_conflict d r"
  proof (cases "ls_id x = ls_id r")
    case True
    with x(1) have "ls_id r \<in> ls_id ` set (lesson_slots d)" by (metis image_eqI)
    then show ?thesis by (simp add: slot_by_id_def find_by_None_iff)
  next
    case False
    with x show ?thesis by (auto simp: slot_conflict_def list_ex_iff)
  qed
  then show ?thesis using assms(2) by (simp add: pg_insert_slot_def Let_def)
qed

lemma bulk_loop_spec:
  assumes mk: "\<And>i s. ls_status (mk i s) = Open \<and> ls_id (mk i s) = i \<and> ls_teacher_account_id (mk i s) = t
      \<and> ls_start_at (mk i s) = s * us_per_ms"
    and ids: "inj newId"
  shows "\<forall>m \<ge> n. newId m \<notin> ls_id ` set (lesson_slots d) \<Longrightarrow>
    bulk_loop mk newId n ss d = Inr ((created, skipped), d') \<Longrightarrow>
    d' = d\<lparr>lesson_slots := lesson_slots d @ created\<rparr>
    \<and> length created + length skipped = length ss \<and> set skipped \<subseteq> set ss
    \<and> (\<forall>r \<in> set created. ls_status r = Open \<and> ls_teacher_account_id r = t
         \<and> ls_start_at r \<in> (\<lambda>s. s * us_per_ms) ` set ss)
    \<and> (\<forall>s \<in> set ss. lane_taken d' t (s * us_per_ms))"
proof (induction ss arbitrary: n d created skipped)
  case Nil
  then show ?case by simp
next
  case (Cons s ss)
  let ?r = "mk (newId n) s"
  from Cons.prems(2) obtain ro d1 cr sk where
    ins: "pg_insert_slot_or_skip ?r d = Inr (ro, d1)"
    and rest: "bulk_loop mk newId (Suc n) ss d1 = Inr ((cr, sk), d')"
    and res: "(created, skipped) = (case ro of Some row \<Rightarrow> (row # cr, sk) | None \<Rightarrow> (cr, s # sk))"
    by (auto simp: bindR_eq_Inr_iff)
  from ins show ?case
  proof (cases rule: pg_insert_slot_or_skip_cases)
    case 1
    have "ls_id ?r \<notin> ls_id ` set (lesson_slots d)" using Cons.prems(1) mk by simp
    then have "lane_taken d t (s * us_per_ms)" using insert_unique_taken [OF 1(3)] mk by simp
    then have taken: "lane_taken d' t (s * us_per_ms)" if "d' = d\<lparr>lesson_slots := lesson_slots d @ cr\<rparr>"
      using that by (auto simp: lane_taken_def)
    have "\<forall>m \<ge> Suc n. newId m \<notin> ls_id ` set (lesson_slots d1)" using Cons.prems(1) 1(2) by simp
    from Cons.IH [OF this rest] taken 1 res show ?thesis by auto
  next
    case (2 row)
    have row: "row = ?r" and d1: "d1 = d\<lparr>lesson_slots := lesson_slots d @ [row]\<rparr>"
      using 2(2) mk by (auto elim!: pg_insert_slot_InrE)
    have "\<forall>m \<ge> Suc n. newId m \<notin> ls_id ` set (lesson_slots d1)"
      using Cons.prems(1) ids mk by (auto simp: d1 row inj_eq)
    note ih = Cons.IH [OF this rest]
    then have "lane_taken d' t (s * us_per_ms)"
      using mk by (auto simp: d1 row lane_taken_def)
    with ih 2(1) res d1 row mk show ?thesis by auto
  qed
qed

lemma bulk_loop_taken:
  assumes mk: "\<And>i s. ls_status (mk i s) = Open \<and> ls_teacher_account_id (mk i s) = t
      \<and> ls_start_at (mk i s) = s * us_per_ms"
    and taken: "\<forall>s \<in> set ss. lane_taken d t (s * us_per_ms)"
  shows "bulk_loop mk newId n ss d = Inr (r, d') \<Longrightarrow> r = ([], ss) \<and> d' = d"
  using taken
proof (induction ss arbitrary: n r)
  case Nil
  then show ?case by simp
next
  case (Cons s ss)
  have "\<exists>e. pg_insert_slot (mk (newId n) s) d = Inl e"
    by (rule insert_taken_unique) (use Cons.prems(2) mk in auto)
  then have "pg_insert_slot_or_skip (mk (newId n) s) d = Inr (None, d)"
    using Cons.prems(1) by (auto simp: pg_insert_slot_or_skip_def bindR_eq_Inr_iff split: if_splits)
  with Cons show ?case by (fastforce simp: bindR_eq_Inr_iff)
qed

lemma bulk_row_facts:
  "ls_status (bulk_row c input i s) = Open \<and> ls_id (bulk_row c input i s) = i
   \<and> ls_teacher_account_id (bulk_row c input i s) = pg_uuid (bc_teacherAccountId input)
   \<and> ls_start_at (bulk_row c input i s) = s * us_per_ms"
  by (simp add: bulk_row_def)

text \<open>
  A bulk creation that answers has accounted for every requested start: the rows it made are
  appended and nothing else changes, every other start is reported as skipped, and the teacher
  has a live slot at each of them. Asking for the same starts again, whenever that answers,
  makes nothing, skips them all and changes nothing.
\<close>

theorem bulkCreateSlots_idempotent:
  assumes one: "bulkCreateSlots c newId input d = Inr ((created, skipped), d1)"
    and ids: "inj newId" "\<forall>m. newId m \<notin> ls_id ` set (lesson_slots d)"
    and two: "bulkCreateSlots c' newId' input d1 = Inr (again, d2)"
  shows "d1 = d\<lparr>lesson_slots := lesson_slots d @ created\<rparr>
    \<and> length created + length skipped = length (bc_slots input)
    \<and> (\<forall>s. Some s \<in> set (bc_slots input) \<longrightarrow> lane_taken d1 (pg_uuid (bc_teacherAccountId input)) (s * us_per_ms))
    \<and> fst again = [] \<and> map Some (snd again) = bc_slots input \<and> d2 = d1"
proof -
  from one obtain starts where starts: "bc_slots input = map Some starts"
    and loop: "bulk_loop (bulk_row c input) newId 0 starts d = Inr ((created, skipped), d1)"
    by (rule bulkCreateSlots_InrE) (use validate_starts_eq in blast)
  from two obtain starts' where starts': "bc_slots input = map Some starts'"
    and loop': "bulk_loop (bulk_row c' input) newId' 0 starts' d1 = Inr (again, d2)"
    by (rule bulkCreateSlots_InrE) (use validate_starts_eq in blast)
  have eq: "starts' = starts" using starts starts' by (metis inj_map_eq_map inj_Some)
  have spec: "d1 = d\<lparr>lesson_slots := lesson_slots d @ created\<rparr>"
    "length created + length skipped = length starts"
    "\<forall>s \<in> set starts. lane_taken d1 (pg_uuid (bc_teacherAccountId input)) (s * us_per_ms)"
    using bulk_loop_spec [OF bulk_row_facts ids(1) _ loop] ids(2) by blast+
  have "again = ([], starts) \<and> d2 = d1"
    by (rule bulk_loop_taken [of "bulk_row c' input" "pg_uuid (bc_teacherAccountId input)" starts d1 newId' 0])
      (use bulk_row_facts spec(3) loop' eq in simp_all)
  with spec starts show ?thesis by auto
qed

section \<open>The properties at the sample\<close>

definition sample_teacher_db :: db where
  "sample_teacher_db = sample_open_db\<lparr>
     account_roles := [\<lparr>ar_account_id = uuid_of CHR ''a'', ar_role = ''teacher''\<rparr>],
     lesson_slots := [sample_open\<lparr>ls_tariff_id := Some (uuid_of CHR ''e'')\<rparr>],
     pricing_tariffs :=
       [\<lparr>pt_id = uuid_of CHR ''e'', pt_slug = ''t60'', pt_teacher_id = Some (uuid_of CHR ''a''),
         pt_amount_kopecks = 150000, pt_currency = ''RUB'', pt_duration_minutes = 60,
         pt_is_active = True, pt_deleted_at = None, pt_visibility = Catalog\<rparr>]\<rparr>"

definition sample_create :: create_input where
  "sample_create = \<lparr>cs_teacherAccountId = uuid_of CHR ''a'', cs_startAt = Some 1767600000000,
     cs_durationMinutes = JsInt 60, cs_notes = None, cs_tariffId = Some (uuid_of CHR ''e'')\<rparr>"

lemma sample_teacher_check: "slot_check (sample_open\<lparr>ls_tariff_id := x\<rparr>)"
  using sample_open_check by (simp add: slot_check_defs sample_open_def sample_slot_def)

lemma sample_teacher_db_inv: "ledger_inv sample_teacher_db"
  using sample_teacher_check
  by (simp add: sample_teacher_db_def sample_open_db_def sample_purchase_def empty_db_def ledger_inv_def
      schema_ok_def keys_ok_def lanes_ok_def checks_ok_def completion_sync_def billable_def
      consumption_sync_def capacity_ok_def active_units_def coverage_ok_def)
    (simp add: sample_open_def)

lemma sample_uuids [simp]: "uuid_pattern (uuid_of CHR ''e'')" "pg_uuid (uuid_of CHR ''e'') = uuid_of CHR ''e''"
  "uuid_pattern (uuid_of CHR ''7'')" "pg_uuid (uuid_of CHR ''7'') = uuid_of CHR ''7''"
  by (simp_all add: hex_digit_def lower_hex_def)

lemma sample_create_facts:
  "slot_check (create_row sample_clock (uuid_of CHR ''7'') sample_create 1767600000000)"
  "\<not> slot_conflict sample_teacher_db (create_row sample_clock (uuid_of CHR ''7'') sample_create 1767600000000)"
  by (simp_all add: create_row_def open_slot_row_def blank_slot_def sample_create_def js_int_def slot_check_defs
      msk_defs time_defs slot_conflict_def same_lane_def sample_teacher_db_def sample_open_def sample_slot_def)

theorem createSlot_succeeds_iff_witness:
  "\<exists>slot d'. createSlot sample_clock (uuid_of CHR ''7'') sample_create sample_teacher_db = Inr (slot, d')"
  unfolding createSlot_succeeds_iff
  using sample_create_facts
  by (simp add: sample_create_def sample_clock_def)
    (simp add: sample_teacher_db_def tariff_by_id_def find_by_def slot_by_id_def sample_open_def sample_slot_def)

lemma sample_created:
  "\<exists>slot d'. createSlot sample_clock (uuid_of CHR ''7'') sample_create sample_teacher_db = Inr (slot, d')"
proof -
  let ?row = "create_row sample_clock (uuid_of CHR ''7'') sample_create 1767600000000"
  have "slot_by_id sample_teacher_db (uuid_of CHR ''7'') = None"
    by (simp add: slot_by_id_def find_by_def sample_teacher_db_def sample_open_def sample_slot_def)
  then have ins: "\<exists>r. pg_insert_slot ?row sample_teacher_db = Inr r"
    using sample_create_facts by (simp add: pg_insert_slot_def create_row_def Let_def)
  have "tariff_gates (Some (uuid_of CHR ''e'')) (uuid_of CHR ''a'') 60 sample_teacher_db = Inr ()"
    "assertTeacherRole (uuid_of CHR ''a'') sample_teacher_db = Inr ()"
    by (simp_all add: tariff_gates_ok_iff assertTeacherRole_ok_iff tariff_by_id_def find_by_def
        sample_teacher_db_def)
  with ins show ?thesis
    by (simp add: createSlot_def create_row_def validated_def validateSlotInput_def sample_create_def
        sample_clock_def js_int_def)
qed

theorem create_delete_round_trip_witness:
  "\<exists>slot d1. createSlot sample_clock (uuid_of CHR ''7'') sample_create sample_teacher_db = Inr (slot, d1)
     \<and> deleteOpenSlot (uuid_of CHR ''7'') d1 = Inr (Inr (), sample_teacher_db)"
proof -
  obtain slot d1 where cre: "createSlot sample_clock (uuid_of CHR ''7'') sample_create sample_teacher_db
      = Inr (slot, d1)"
    using sample_created by blast
  have "deleteOpenSlot (uuid_of CHR ''7'') d1 = Inr (Inr (), sample_teacher_db)"
    by (rule create_delete_round_trip [OF sample_teacher_db_inv cre])
      (simp_all add: sample_teacher_db_def sample_open_db_def empty_db_def consumption_of_slot_def find_by_def)
  with cre show ?thesis by blast
qed

lemma sample_teacher_slot:
  "slot_by_id sample_teacher_db (pg_uuid (uuid_of CHR ''1'')) = Some (sample_open\<lparr>ls_tariff_id := Some (uuid_of CHR ''e'')\<rparr>)"
  by (simp add: slot_by_id_def find_by_def sample_teacher_db_def sample_open_def sample_slot_def)

theorem moveOpenSlotByTeacher_decision_witness:
  "moveOpenSlotByTeacher sample_clock (uuid_of CHR ''1'') (Some 1767600000500) (uuid_of CHR ''a'') sample_teacher_db
     = Inl (PgErr CheckViolation)"
proof -
  have "\<not> slot_check (moved_row sample_clock ''teacher'' (uuid_of CHR ''a'') 1767600000500
      (sample_open\<lparr>ls_tariff_id := Some (uuid_of CHR ''e'')\<rparr>))"
    by (simp add: slot_check_def check_seconds_zero_def moved_row_def msk_defs time_defs)
  then show ?thesis
    using moveOpenSlotByTeacher_decision [OF _ _ _ sample_teacher_slot, of "uuid_of CHR ''a''" sample_clock
        1767600000500]
    by (simp add: Let_def sample_open_def sample_slot_def)
qed

theorem editOpenSlot_unmatches_tariff_witness:
  "\<exists>slot d'. editOpenSlot sample_clock (uuid_of CHR ''1'')
       \<lparr>ep_startAt = Absent, ep_durationMinutes = Given (JsInt 90), ep_notes = Absent\<rparr> sample_teacher_db
     = Inr (Inr slot, d') \<and> ls_tariff_id slot = Some (uuid_of CHR ''e'') \<and> ls_duration_minutes slot \<noteq> 60"
proof -
  let ?t = "\<lparr>pt_id = uuid_of CHR ''e'', pt_slug = ''t60'', pt_teacher_id = Some (uuid_of CHR ''a''),
         pt_amount_kopecks = 150000, pt_currency = ''RUB'', pt_duration_minutes = 60,
         pt_is_active = True, pt_deleted_at = None, pt_visibility = Catalog\<rparr>"
  have t: "tariff_by_id sample_teacher_db (uuid_of CHR ''e'') = Some ?t"
    by (simp add: tariff_by_id_def find_by_def sample_teacher_db_def)
  show ?thesis
    using editOpenSlot_unmatches_tariff [OF sample_teacher_db_inv _ sample_teacher_slot _ _ t, of 90 sample_clock]
    by (auto simp: sample_open_def sample_slot_def)
qed

definition sample_bulk_create :: bulk_create_input where
  "sample_bulk_create = \<lparr>bc_teacherAccountId = uuid_of CHR ''a'', bc_durationMinutes = JsInt 60,
     bc_notes = None, bc_tariffId = None, bc_slots = [Some 1767600000000, Some 1767596400000]\<rparr>"

definition sample_ids_from :: "nat \<Rightarrow> uuid" where
  "sample_ids_from n = replicate n CHR ''z''"

text \<open>The first start is free, the second is taken by the lesson of the sample.\<close>

lemma sample_bulk_runs:
  "\<exists>row d1. bulkCreateSlots sample_clock sample_ids_from sample_bulk_create sample_teacher_db
       = Inr (([row], [1767596400000]), d1)
     \<and> bulkCreateSlots sample_clock sample_ids_from sample_bulk_create d1
       = Inr (([], [1767600000000, 1767596400000]), d1)"
proof -
  let ?mk = "\<lambda>n. bulk_row sample_clock sample_bulk_create (sample_ids_from n)"
  let ?d = sample_teacher_db
  let ?d1 = "?d\<lparr>lesson_slots := lesson_slots ?d @ [?mk 0 1767600000000]\<rparr>"
  have chk: "slot_check (?mk n 1767600000000)" "slot_check (?mk n 1767596400000)" for n
    by (simp_all add: bulk_row_def open_slot_row_def blank_slot_def sample_bulk_create_def js_int_def
        slot_check_defs msk_defs time_defs)
  have st: "ls_status (?mk n s) = Open" "ls_id (?mk n s) = sample_ids_from n"
    "ls_start_at (?mk n s) = s * us_per_ms" "ls_teacher_account_id (?mk n s) = uuid_of CHR ''a''" for n s
    by (simp_all add: bulk_row_def sample_bulk_create_def)
  have slots: "lesson_slots ?d = [sample_open\<lparr>ls_tariff_id := Some (uuid_of CHR ''e'')\<rparr>]"
    by (simp add: sample_teacher_db_def)
  have id: "sample_ids_from n \<noteq> uuid_of CHR ''1''" for n
    by (cases n) (simp_all add: sample_ids_from_def uuid_of_def replicate_8)
  have free: "pg_insert_slot (?mk 0 1767600000000) ?d = Inr (?mk 0 1767600000000, ?d1)"
    using chk(1) [of 0] id id [THEN not_sym] st
    by (simp add: pg_insert_slot_def Let_def slot_by_id_def find_by_def slots slot_conflict_def same_lane_def
        sample_open_def sample_slot_def us_per_ms_def)
  have full: "pg_insert_slot (?mk (Suc 0) 1767596400000) ?d1 = Inl (PgErr UniqueViolation)"
    "pg_insert_slot (?mk 0 1767600000000) ?d1 = Inl (PgErr UniqueViolation)"
    using chk(1) [of 0] chk(2) [of "Suc 0"] id id [THEN not_sym] st
    by (auto simp: pg_insert_slot_def Let_def slot_by_id_def find_by_def slots slot_conflict_def same_lane_def
        sample_open_def sample_slot_def us_per_ms_def)
  have gates: "assertTeacherRole (uuid_of CHR ''a'') ?d = Inr ()" "assertTeacherRole (uuid_of CHR ''a'') ?d1 = Inr ()"
    by (simp_all add: assertTeacherRole_ok_iff) (simp_all add: sample_teacher_db_def)
  have "bulkCreateSlots sample_clock sample_ids_from sample_bulk_create e =
      bulk_loop (bulk_row sample_clock sample_bulk_create) sample_ids_from 0 [1767600000000, 1767596400000] e"
    if "assertTeacherRole (uuid_of CHR ''a'') e = Inr ()" for e
    using that
    by (simp add: bulkCreateSlots_def validated_def validateSlotInput_def tariff_gates_def)
      (simp add: sample_bulk_create_def validated_def validateSlotInput_def sample_clock_def)
  with gates free full show ?thesis
    by (intro exI [of _ "?mk 0 1767600000000"] exI [of _ ?d1]) (simp add: pg_insert_slot_or_skip_def)
qed

theorem bulkCreateSlots_idempotent_witness:
  "\<exists>row d1 again. bulkCreateSlots sample_clock sample_ids_from sample_bulk_create sample_teacher_db
       = Inr (([row], [1767596400000]), d1)
     \<and> bulkCreateSlots sample_clock sample_ids_from sample_bulk_create d1 = Inr (again, d1) \<and> fst again = []"
proof -
  obtain row d1 where run: "bulkCreateSlots sample_clock sample_ids_from sample_bulk_create sample_teacher_db
       = Inr (([row], [1767596400000]), d1)"
    and rerun: "bulkCreateSlots sample_clock sample_ids_from sample_bulk_create d1
       = Inr (([], [1767600000000, 1767596400000]), d1)"
    using sample_bulk_runs by blast
  have "inj sample_ids_from" by (rule inj_onI) (simp add: sample_ids_from_def)
  moreover have "sample_ids_from m \<notin> ls_id ` set (lesson_slots sample_teacher_db)" for m
    by (cases m) (simp_all add: sample_ids_from_def sample_teacher_db_def sample_open_def sample_slot_def
        uuid_of_def replicate_8)
  ultimately have "fst ([] :: slot_row list, [1767600000000, 1767596400000 :: millis]) = []"
    using bulkCreateSlots_idempotent [OF run _ _ rerun] by blast
  with run rerun show ?thesis by blast
qed

end
