(* ===== verification/Assign.thy ===== *)
theory Assign
  imports Slot_Write
begin

text \<open>
  \<open>src/lib/scheduling/slots/mutations-assign-direct.ts\<close>: a teacher puts a learner straight into a
  booked lesson. The billing is chosen by the teacher: a package (perhaps a pinned one), a later
  payment, or whichever applies. Every refusal rolls the transaction back. The id of the new row
  is an argument.
\<close>

section \<open>The operation\<close>

datatype billing_choice = ChooseAuto | ChoosePackage | ChoosePostpaid

record assign_input =
  as_teacherAccountId :: string
  as_learnerAccountId :: string
  as_startAt :: "millis option"
  as_durationMinutes :: js_num
  as_tariffId :: string
  as_notes :: "js_text option"
  as_billingChoice :: "billing_choice option"
  as_packagePurchaseId :: "string option"

datatype assign_refusal =
  AsLearnerNotAssigned | AsTariffNotActive | AsTariffNotOwned | AsTariffDurationMismatch | AsInPast
  | AsStartOutOfBand | AsSelfBookingBlocked | AsSlotCollision | AsExternalConflict
  | AsPendingPackageGrant | AsPaymentMethodNotSet | AsNoEligiblePackage

definition NOTES_MAX :: nat where "NOTES_MAX = 500"

text \<open>The checks before the transaction: a refusal, or the start and the duration.\<close>

definition assign_checks :: "clock \<Rightarrow> assign_input \<Rightarrow> assign_refusal + millis \<times> int" where
  "assign_checks c input =
     (if \<not> uuid_pattern (as_teacherAccountId input) then Inl AsTariffNotOwned
      else if \<not> uuid_pattern (as_learnerAccountId input) then Inl AsLearnerNotAssigned
      else if \<not> uuid_pattern (as_tariffId input) then Inl AsTariffNotActive
      else if as_teacherAccountId input = as_learnerAccountId input then Inl AsSelfBookingBlocked
      else if (case as_durationMinutes input of JsNonInt \<Rightarrow> True | JsInt n \<Rightarrow> n < 30)
      then Inl AsTariffDurationMismatch
      else if (case as_notes input of None \<Rightarrow> False | Some t \<Rightarrow> length t > NOTES_MAX)
      then Inl AsTariffDurationMismatch
      else case as_startAt input of
             None \<Rightarrow> Inl AsInPast
           | Some startMs \<Rightarrow>
               if startMs \<le> js_now c then Inl AsInPast
               else if mskHourOutOfBand startMs then Inl AsStartOutOfBand
               else Inr (startMs, js_int (as_durationMinutes input)))"

definition active_link :: "uuid \<Rightarrow> uuid \<Rightarrow> db \<Rightarrow> bool" where
  "active_link teacher learner d \<longleftrightarrow>
     list_ex (\<lambda>l. ln_teacher_account_id l = teacher \<and> ln_learner_account_id l = learner
                  \<and> ln_unlinked_at l = None) (learner_teacher_links d)"

text \<open>Step 3: the tariff, or why it may not be used.\<close>

definition assign_tariff :: "assign_input \<Rightarrow> int \<Rightarrow> db \<Rightarrow> assign_refusal + tariff_row" where
  "assign_tariff input dur d =
     (case tariff_by_id d (pg_uuid (as_tariffId input)) of
        None \<Rightarrow> Inl AsTariffNotActive
      | Some t \<Rightarrow>
          if pt_deleted_at t \<noteq> None \<or> \<not> pt_is_active t then Inl AsTariffNotActive
          else if pt_teacher_id t \<noteq> Some (as_teacherAccountId input) then Inl AsTariffNotOwned
          else if pt_duration_minutes t \<noteq> dur then Inl AsTariffDurationMismatch
          else Inr t)"

definition assigned_row :: "clock \<Rightarrow> uuid \<Rightarrow> assign_input \<Rightarrow> millis \<Rightarrow> int \<Rightarrow> slot_row" where
  "assigned_row c newId input startMs dur =
     (blank_slot c newId (pg_uuid (as_teacherAccountId input)) (startMs * us_per_ms) dur Booked)
       \<lparr>ls_learner_account_id := Some (pg_uuid (as_learnerAccountId input)),
        ls_booked_at := Some (pg_now c), ls_tariff_id := Some (pg_uuid (as_tariffId input)),
        ls_notes := as_notes input, ls_source := Some SrcDirectAssign,
        ls_events := appendEventSql c ''slot.direct_assigned'' (Some ''teacher'')
          (Some [(''learnerAccountId'', VStr (as_learnerAccountId input)),
                 (''tariffId'', VStr (as_tariffId input))])\<rparr>"

text \<open>
  Step 7a: the unit of the purchase the teacher pinned. The text of the id goes to the database
  unchecked, which refuses one that is no UUID.
\<close>

definition pinned_purchase :: "clock \<Rightarrow> uuid \<Rightarrow> uuid \<Rightarrow> db \<Rightarrow> purchase_row option" where
  "pinned_purchase c p learner d =
     find (\<lambda>pp. pp_id pp = p \<and> pp_account_id pp = learner \<and> pp_expires_at pp > pg_now c
                \<and> pp_voided_at pp = None) (package_purchases d)"

definition consume_pinned ::
  "clock \<Rightarrow> string \<Rightarrow> assign_input \<Rightarrow> slot_row \<Rightarrow> int \<Rightarrow> db \<Rightarrow> db
   \<Rightarrow> (assign_refusal + slot_row \<times> book_billing) outcome" where
  "consume_pinned c p input slot dur d0 d =
     (if \<not> uuid_pattern p then Inl (PgErr InvalidUuidText)
      else case pinned_purchase c (pg_uuid p) (pg_uuid (as_learnerAccountId input)) d of
        None \<Rightarrow> Inr (Inl AsNoEligiblePackage, d0)
      | Some row \<Rightarrow>
          if \<not> (count_remaining d row > 0 \<and> pp_teacher_id row = Some (as_teacherAccountId input)
                \<and> pp_duration_minutes row = dur)
          then Inr (Inl AsNoEligiblePackage, d0)
          else if consumption_of_slot d (ls_id slot) \<noteq> None then Inr (Inl AsNoEligiblePackage, d0)
          else Inr (Inr (slot, BillPrepaid p (max 0 (count_remaining d row - 1))
                                 (Some (js_date_via_string (pp_expires_at row)))),
                    d\<lparr>package_consumptions := package_consumptions d @
                        [unit_row c (ls_id slot) (pg_uuid p) ActorTeacher]\<rparr>))"

text \<open>Steps 8 to 9: payment later.\<close>

definition assign_postpaid ::
  "clock \<Rightarrow> billing_choice \<Rightarrow> assign_input \<Rightarrow> tariff_row \<Rightarrow> slot_row \<Rightarrow> int \<Rightarrow> db \<Rightarrow> db
   \<Rightarrow> (assign_refusal + slot_row \<times> book_billing) outcome" where
  "assign_postpaid c choice input tariff slot dur d0 d =
     (if choice = ChooseAuto
         \<and> accountHasPendingPackageGrantForDuration c (as_learnerAccountId input) dur
             (Some (pg_uuid (as_teacherAccountId input))) d
      then Inr (Inl AsPendingPackageGrant, d0)
      else
        bindR (getPaymentMethodForPairTx (pg_uuid (as_teacherAccountId input))
                 (pg_uuid (as_learnerAccountId input)) d)
          (\<lambda>chosen.
             if chosen = MNone then Inr (Inl AsPaymentMethodNotSet, d0)
             else Inr (Inr (slot, BillPostpaid (as_tariffId input) (pt_amount_kopecks tariff)
                                    (pt_currency tariff)), d)))"

text \<open>Steps 7 to 9, on the inserted slot; \<open>d0\<close> is the state a rollback returns to.\<close>

definition bill_assignment ::
  "clock \<Rightarrow> assign_input \<Rightarrow> tariff_row \<Rightarrow> slot_row \<Rightarrow> int \<Rightarrow> db \<Rightarrow> db
   \<Rightarrow> (assign_refusal + slot_row \<times> book_billing) outcome" where
  "bill_assignment c input tariff slot dur d0 d =
     (let choice = coalesce (as_billingChoice input) ChooseAuto in
      if choice = ChoosePostpaid then assign_postpaid c choice input tariff slot dur d0 d
      else if coalesce (as_packagePurchaseId input) [] \<noteq> []
      then consume_pinned c (coalesce (as_packagePurchaseId input) []) input slot dur d0 d
      else case consumePackageUnit c (pg_uuid (as_learnerAccountId input)) (ls_id slot) dur ActorTeacher
                  (pg_uuid (as_teacherAccountId input)) d of
        (Consumed p, d1) \<Rightarrow> Inr (Inr (slot, prepaid_billing p d1), d1)
      | (_, d1) \<Rightarrow>
          if choice = ChoosePackage then Inr (Inl AsNoEligiblePackage, d0)
          else assign_postpaid c choice input tariff slot dur d0 d1)"

definition assignSlotDirect ::
  "clock \<Rightarrow> uuid \<Rightarrow> assign_input \<Rightarrow> db \<Rightarrow> (assign_refusal + slot_row \<times> book_billing) outcome" where
  "assignSlotDirect c newId input d =
     (case assign_checks c input of
        Inl e \<Rightarrow> Inr (Inl e, d)
      | Inr (startMs, dur) \<Rightarrow>
          if \<not> active_link (pg_uuid (as_teacherAccountId input)) (pg_uuid (as_learnerAccountId input)) d
          then Inr (Inl AsLearnerNotAssigned, d)
          else case assign_tariff input dur d of
            Inl e \<Rightarrow> Inr (Inl e, d)
          | Inr tariff \<Rightarrow>
              if busy_overlap c (pg_uuid (as_teacherAccountId input)) (startMs * us_per_ms) dur d
              then Inr (Inl AsExternalConflict, d)
              else case pg_insert_slot (assigned_row c newId input startMs dur) d of
                Inl e \<Rightarrow> if e = PgErr UniqueViolation then Inr (Inl AsSlotCollision, d) else Inl e
              | Inr (slot, d1) \<Rightarrow> bill_assignment c input tariff slot dur d d1)"

section \<open>What a call that answers has done\<close>

lemma assigned_row_simps [simp]:
  "ls_id (assigned_row c i input s dur) = i"
  "ls_status (assigned_row c i input s dur) = Booked"
  "ls_learner_account_id (assigned_row c i input s dur) = Some (pg_uuid (as_learnerAccountId input))"
  "ls_teacher_account_id (assigned_row c i input s dur) = pg_uuid (as_teacherAccountId input)"
  "ls_start_at (assigned_row c i input s dur) = s * us_per_ms"
  "ls_duration_minutes (assigned_row c i input s dur) = dur"
  "ls_tariff_id (assigned_row c i input s dur) = Some (pg_uuid (as_tariffId input))"
  by (simp_all add: assigned_row_def blank_slot_def)

text \<open>A unit of purchase \<open>pp\<close> went to slot \<open>l\<close>, and the teacher may spend it there.\<close>

definition unit_taken ::
  "clock \<Rightarrow> assign_input \<Rightarrow> uuid \<Rightarrow> int \<Rightarrow> purchase_row \<Rightarrow> db \<Rightarrow> db \<Rightarrow> bool" where
  "unit_taken c input l dur pp d d' \<longleftrightarrow>
     pp \<in> set (package_purchases d) \<and> consumption_of_slot d l = None
     \<and> package_eligible c (pg_uuid (as_learnerAccountId input)) dur (pg_uuid (as_teacherAccountId input)) d pp
     \<and> d' = d\<lparr>package_consumptions := package_consumptions d @ [unit_row c l (pp_id pp) ActorTeacher]\<rparr>"

lemma unit_taken_remaining:
  "unit_taken c input l dur pp d d' \<Longrightarrow> count_remaining d' pp = count_remaining d pp - 1"
  by (auto simp: unit_taken_def count_remaining_def active_units_def)

lemma unit_taken_effect:
  assumes wf: "units_wf d" and taken: "unit_taken c input l dur pp d d'"
  shows "held_unit d' = (held_unit d)(l := Some (pp_id pp))"
    and "free_units d' = (free_units d)(pp_id pp := free_units d (pp_id pp) - 1)"
    and "0 < free_units d (pp_id pp)" and "count_remaining d' pp = free_units d' (pp_id pp)"
    and "slot_by_id d' = slot_by_id d"
proof -
  have t: "pp \<in> set (package_purchases d)" "0 < count_remaining d pp" "consumption_of_slot d l = None"
    "d' = d\<lparr>package_consumptions := package_consumptions d @ [unit_row c l (pp_id pp) ActorTeacher]\<rparr>"
    using taken by (simp_all add: unit_taken_def package_eligible_def)
  show "held_unit d' = (held_unit d)(l := Some (pp_id pp))"
    "free_units d' = (free_units d)(pp_id pp := free_units d (pp_id pp) - 1)" "0 < free_units d (pp_id pp)"
    using unit_insert_effect [OF wf t] by simp_all
  have "purchase_by_id d' (pp_id pp) = Some pp"
    using t wf find_by_distinct [of pp_id "package_purchases d" pp]
    by (auto simp: units_wf_def purchase_by_id_def)
  then show "count_remaining d' pp = free_units d' (pp_id pp)" by (simp add: free_units_def)
  show "slot_by_id d' = slot_by_id d" using t by (auto simp: fun_eq_iff slot_by_id_def)
qed

lemma assign_postpaid_cases:
  assumes "assign_postpaid c choice input tariff slot dur d0 d = Inr (res, d')"
  obtains e where "res = Inl e" and "d' = d0"
  | "res = Inr (slot, BillPostpaid (as_tariffId input) (pt_amount_kopecks tariff) (pt_currency tariff))"
    and "d' = d"
    and "getPaymentMethodForPairTx (pg_uuid (as_teacherAccountId input)) (pg_uuid (as_learnerAccountId input)) d
           = Inr MPostpaid"
proof -
  have "m = MNone \<or> m = MPostpaid" for m by (cases m) simp_all
  with assms that show ?thesis
    by (auto simp: assign_postpaid_def bindR_eq_Inr_iff split: if_splits)
qed

lemma consume_pinned_cases:
  assumes "consume_pinned c p input slot dur d0 d = Inr (res, d')"
    and "pg_uuid (as_teacherAccountId input) = as_teacherAccountId input"
  obtains e where "res = Inl e" and "d' = d0"
  | pp expiry where "res = Inr (slot, BillPrepaid p (count_remaining d' pp) expiry)" and "pp_id pp = pg_uuid p"
      and "unit_taken c input (ls_id slot) dur pp d d'"
proof (cases "pinned_purchase c (pg_uuid p) (pg_uuid (as_learnerAccountId input)) d")
  case None
  with assms(1) that(1) show ?thesis by (auto simp: consume_pinned_def split: if_splits)
next
  case (Some pp)
  then have pp: "pp \<in> set (package_purchases d)" "pp_id pp = pg_uuid p"
    "pp_account_id pp = pg_uuid (as_learnerAccountId input)" "pg_now c < pp_expires_at pp" "pp_voided_at pp = None"
    by (auto simp: pinned_purchase_def find_Some_iff)
  show ?thesis
  proof (cases "\<exists>e. res = Inl e")
    case True
    with Some assms(1) that(1) show ?thesis by (auto simp: consume_pinned_def split: if_splits)
  next
    case False
    with Some assms(1) obtain expiry
      where res: "res = Inr (slot, BillPrepaid p (max 0 (count_remaining d pp - 1)) expiry)"
        and ok: "count_remaining d pp > 0" "pp_teacher_id pp = Some (as_teacherAccountId input)"
          "pp_duration_minutes pp = dur" "consumption_of_slot d (ls_id slot) = None"
        and d': "d' = d\<lparr>package_consumptions := package_consumptions d @
                        [unit_row c (ls_id slot) (pg_uuid p) ActorTeacher]\<rparr>"
      by (auto simp: consume_pinned_def split: if_splits)
    have taken: "unit_taken c input (ls_id slot) dur pp d d'"
      using ok pp d' assms(2) by (simp add: unit_taken_def package_eligible_def)
    with that(2) [OF _ pp(2) taken] res ok(1) show ?thesis
      by (auto simp: unit_taken_remaining [OF taken])
  qed
qed

text \<open>Which purchase the answer names: the pinned one where there is one.\<close>

definition pin_given :: "assign_input \<Rightarrow> bool" where
  "pin_given input \<longleftrightarrow> coalesce (as_packagePurchaseId input) [] \<noteq> []"

definition answer_names :: "assign_input \<Rightarrow> uuid \<Rightarrow> uuid \<Rightarrow> bool" where
  "answer_names input p q \<longleftrightarrow>
     (if pin_given input then as_packagePurchaseId input = Some p \<and> q = pg_uuid p else q = p)"

lemma bill_auto_cases:
  assumes "bill_assignment c input tariff slot dur d0 d = Inr (res, d')"
    and choice: "as_billingChoice input \<noteq> Some ChoosePostpaid" "\<not> pin_given input"
    and keys: "distinct (map pp_id (package_purchases d))"
  obtains e where "res = Inl e" and "d' = d0"
  | pp expiry where "res = Inr (slot, BillPrepaid (pp_id pp) (count_remaining d' pp) expiry)"
      and "unit_taken c input (ls_id slot) dur pp d d'"
  | "assign_postpaid c ChooseAuto input tariff slot dur d0 d = Inr (res, d')"
    and "as_billingChoice input \<noteq> Some ChoosePackage"
    and "consumption_of_slot d (ls_id slot) \<noteq> None
         \<or> (\<forall>q \<in> set (package_purchases d). \<not> package_eligible c (pg_uuid (as_learnerAccountId input)) dur
               (pg_uuid (as_teacherAccountId input)) d q)"
proof -
  obtain cr d1 where con: "consumePackageUnit c (pg_uuid (as_learnerAccountId input)) (ls_id slot) dur ActorTeacher
      (pg_uuid (as_teacherAccountId input)) d = (cr, d1)" by force
  have "coalesce (as_billingChoice input) ChooseAuto \<noteq> ChoosePostpaid"
    using choice(1) by (cases "as_billingChoice input") auto
  note b = assms(1) [unfolded bill_assignment_def Let_def con]
  show ?thesis
  proof (cases "\<exists>p. cr = Consumed p")
    case True
    then obtain p where p: "cr = Consumed p" by blast
    from con [unfolded p] show ?thesis
    proof (rule consumePackageUnit_ConsumedE)
      fix pp
      assume pp: "pp \<in> set (package_purchases d)" "pp_id pp = p"
        "package_eligible c (pg_uuid (as_learnerAccountId input)) dur (pg_uuid (as_teacherAccountId input)) d pp"
        "consumption_of_slot d (ls_id slot) = None"
        and d1: "d1 = d\<lparr>package_consumptions := package_consumptions d @
           [\<lparr>pc_slot_id = ls_id slot, pc_package_purchase_id = p, pc_consumed_at = pg_now c,
             pc_consumed_by_actor = ActorTeacher, pc_restored_at = None, pc_restored_by_actor = None,
             pc_restored_reason = None\<rparr>]\<rparr>"
      have res: "res = Inr (slot, prepaid_billing p d1)" "d' = d1"
        using b p \<open>_ \<noteq> ChoosePostpaid\<close> choice(2) by (auto simp: pin_given_def)
      have "purchase_by_id d1 p = Some pp"
        using keys pp(1,2) find_by_distinct [of pp_id "package_purchases d" pp]
        by (simp add: purchase_by_id_def d1)
      moreover have "unit_taken c input (ls_id slot) dur pp d d1"
        using pp d1 by (simp add: unit_taken_def unit_row_def)
      ultimately show ?thesis using that(2) [of pp] res pp(2) by (simp add: prepaid_billing_def)
    qed
  next
    case False
    have d1: "d1 = d" using consumePackageUnit_not_Consumed [OF con] False by blast
    have auto_choice: "coalesce (as_billingChoice input) ChooseAuto = ChooseAuto"
      if "as_billingChoice input \<noteq> Some ChoosePackage"
      using that choice(1) by (cases "as_billingChoice input"; cases "the (as_billingChoice input)") auto
    have "if as_billingChoice input = Some ChoosePackage then (\<exists>e. res = Inl e) \<and> d' = d0
          else assign_postpaid c ChooseAuto input tariff slot dur d0 d = Inr (res, d')"
      using b False d1 choice auto_choice by (cases cr) (auto simp: pin_given_def)
    with that(1) that(3) consumePackageUnit_not_eligible [OF con] False show ?thesis
      by (auto split: if_splits)
  qed
qed

lemma bill_assignment_cases:
  assumes bill: "bill_assignment c input tariff slot dur d0 d = Inr (res, d')"
    and id: "pg_uuid (as_teacherAccountId input) = as_teacherAccountId input"
    and keys: "distinct (map pp_id (package_purchases d))"
  obtains e where "res = Inl e" and "d' = d0"
  | p pp expiry where "res = Inr (slot, BillPrepaid p (count_remaining d' pp) expiry)"
      and "answer_names input p (pp_id pp)" and "as_billingChoice input \<noteq> Some ChoosePostpaid"
      and "unit_taken c input (ls_id slot) dur pp d d'"
  | "res = Inr (slot, BillPostpaid (as_tariffId input) (pt_amount_kopecks tariff) (pt_currency tariff))"
    and "d' = d" and "as_billingChoice input \<noteq> Some ChoosePackage"
    and "getPaymentMethodForPairTx (pg_uuid (as_teacherAccountId input)) (pg_uuid (as_learnerAccountId input)) d
           = Inr MPostpaid"
    and "as_billingChoice input = Some ChoosePostpaid \<or> consumption_of_slot d (ls_id slot) \<noteq> None
           \<or> (\<forall>q \<in> set (package_purchases d). \<not> package_eligible c (pg_uuid (as_learnerAccountId input)) dur
                 (pg_uuid (as_teacherAccountId input)) d q)"
proof (cases "as_billingChoice input = Some ChoosePostpaid")
  case True
  with bill have "assign_postpaid c ChoosePostpaid input tariff slot dur d0 d = Inr (res, d')"
    by (simp add: bill_assignment_def)
  then show ?thesis by (rule assign_postpaid_cases) (use True that(1,3) in auto)
next
  case choice: False
  show ?thesis
  proof (cases "pin_given input")
    case True
    then obtain p where p: "as_packagePurchaseId input = Some p" "p \<noteq> []"
      by (cases "as_packagePurchaseId input") (auto simp: pin_given_def)
    have "coalesce (as_billingChoice input) ChooseAuto \<noteq> ChoosePostpaid"
      using choice by (cases "as_billingChoice input") auto
    with bill p have "consume_pinned c p input slot dur d0 d = Inr (res, d')"
      by (simp add: bill_assignment_def)
    from this id show ?thesis
      by (rule consume_pinned_cases) (use that(1,2) p choice True in \<open>auto simp: answer_names_def\<close>)
  next
    case False
    from bill choice False keys show ?thesis
    proof (cases rule: bill_auto_cases)
      case 1
      with that(1) show ?thesis .
    next
      case (2 pp expiry)
      with that(2) False choice show ?thesis by (simp add: answer_names_def)
    next
      case 3
      from 3(1) show ?thesis by (rule assign_postpaid_cases) (use 3 that(1,3) in auto)
    qed
  qed
qed

lemma assignSlotDirect_cases:
  assumes "assignSlotDirect c newId input d = Inr (res, d')"
  obtains e where "res = Inl e" and "d' = d"
  | startMs dur tariff slot d1 where "assign_checks c input = Inr (startMs, dur)"
      and "active_link (pg_uuid (as_teacherAccountId input)) (pg_uuid (as_learnerAccountId input)) d"
      and "assign_tariff input dur d = Inr tariff"
      and "\<not> busy_overlap c (pg_uuid (as_teacherAccountId input)) (startMs * us_per_ms) dur d"
      and "pg_insert_slot (assigned_row c newId input startMs dur) d = Inr (slot, d1)"
      and "bill_assignment c input tariff slot dur d d1 = Inr (res, d')"
  using assms
  by (auto simp: assignSlotDirect_def split: sum.splits prod.splits if_splits)

lemma inserted_slot:
  assumes "pg_insert_slot r d = Inr (slot, d1)"
  shows "slot = snapshot_on_book d r" and "slot_by_id d (ls_id r) = None"
    and "slot_by_id d1 j = (if j = ls_id r then Some slot else slot_by_id d j)"
    and "d1 = d\<lparr>lesson_slots := lesson_slots d @ [slot]\<rparr>"
  using assms
  by (auto elim!: pg_insert_slot_InrE simp: slot_by_id_def find_by_snoc split: option.split)

section \<open>The agreements of the ledger are kept\<close>

lemma assignSlotDirect_inv:
  assumes inv: "ledger_inv d"
    and id: "pg_uuid (as_teacherAccountId input) = as_teacherAccountId input"
    and "assignSlotDirect c newId input d = Inr (res, d')"
  shows "ledger_inv d'"
  using assms(3)
proof (cases rule: assignSlotDirect_cases)
  case 1
  with inv show ?thesis by simp
next
  case (2 startMs dur tariff slot d1)
  note ins = inserted_slot [OF 2(5)]
  have inv1: "ledger_inv d1"
    by (rule pg_insert_slot_inv [OF inv 2(5)]) (simp add: billable_def)
  then have keys: "distinct (map pp_id (package_purchases d1))"
    using ledger_inv_keys by (simp add: keys_ok_def)
  have slot: "slot_by_id d1 (ls_id slot) = Some slot" "holds_unit slot"
    using ins(3) [of newId] by (simp_all add: ins(1) holds_unit_def)
  from 2(6) id keys show ?thesis
  proof (cases rule: bill_assignment_cases)
    case (2 p pp expiry)
    then have "purchase_fits pp slot"
      by (auto simp: ins(1) purchase_fits_def unit_taken_def package_eligible_def)
    with 2(4) show ?thesis
      using unit_insert_inv [OF inv1 slot, of pp d' c ActorTeacher]
      by (simp add: unit_taken_def package_eligible_def)
  qed (use inv inv1 in simp_all)
qed

section \<open>Properties\<close>

text \<open>
  C23: what a direct assignment does. A refusal changes nothing. A success means the learner is
  linked to the teacher and the tariff is the teacher's own, live and of the lesson's length; the
  lesson starts in the future inside the band and is free of a fresh external busy interval. It is
  now in the table as a booked slot of that learner, and no other slot has changed. The billing is
  the one asked for: a package unit, moved from exactly one package (the pinned one where the
  teacher pinned one) with the answer what is left of it, never when payment later was chosen; or
  payment later, never when a package was asked for, only for a pair whose payment method is set,
  and by itself only where the learner has no package that fits.
\<close>

theorem assignSlotDirect_effect:
  assumes inv: "ledger_inv d"
    and id: "pg_uuid (as_teacherAccountId input) = as_teacherAccountId input"
    and run: "assignSlotDirect c newId input d = Inr (res, d')"
  shows "case res of
      Inl e \<Rightarrow> d' = d
    | Inr (slot, bill) \<Rightarrow>
        (\<exists>startMs tariff.
           as_startAt input = Some startMs \<and> js_now c < startMs \<and> \<not> mskHourOutOfBand startMs
           \<and> active_link (as_teacherAccountId input) (pg_uuid (as_learnerAccountId input)) d
           \<and> assign_tariff input (js_int (as_durationMinutes input)) d = Inr tariff
           \<and> \<not> busy_overlap c (as_teacherAccountId input) (startMs * us_per_ms)
                 (js_int (as_durationMinutes input)) d
           \<and> ls_status slot = Booked \<and> ls_start_at slot = startMs * us_per_ms
           \<and> ls_learner_account_id slot = Some (pg_uuid (as_learnerAccountId input))
           \<and> slot_by_id d newId = None
           \<and> (\<forall>j. slot_by_id d' j = (if j = newId then Some slot else slot_by_id d j))
           \<and> (case bill of
                BillLegacy \<Rightarrow> False
              | BillPrepaid p n expiry \<Rightarrow> as_billingChoice input \<noteq> Some ChoosePostpaid
                  \<and> (\<exists>q. answer_names input p q \<and> held_unit d' = (held_unit d)(newId := Some q)
                        \<and> free_units d' = (free_units d)(q := free_units d q - 1)
                        \<and> n = free_units d' q \<and> 0 \<le> n)
              | BillPostpaid t amount currency \<Rightarrow> as_billingChoice input \<noteq> Some ChoosePackage
                  \<and> package_consumptions d' = package_consumptions d
                  \<and> amount = pt_amount_kopecks tariff
                  \<and> getPaymentMethodForPair (as_teacherAccountId input)
                      (pg_uuid (as_learnerAccountId input)) d = Inr MPostpaid
                  \<and> (as_billingChoice input = Some ChoosePostpaid \<or> consumption_of_slot d newId \<noteq> None
                     \<or> (\<forall>q \<in> set (package_purchases d).
                          \<not> package_eligible c (pg_uuid (as_learnerAccountId input))
                              (js_int (as_durationMinutes input)) (as_teacherAccountId input) d q))))"
  using run
proof (cases rule: assignSlotDirect_cases)
  case 1
  then show ?thesis by simp
next
  case (2 startMs dur tariff slot d1)
  note ins = inserted_slot [OF 2(5), simplified]
  have chk: "as_startAt input = Some startMs" "js_now c < startMs" "\<not> mskHourOutOfBand startMs"
    "dur = js_int (as_durationMinutes input)"
    using 2(1) by (auto simp: assign_checks_def split: if_splits option.splits)
  have same: "package_consumptions d1 = package_consumptions d" "package_purchases d1 = package_purchases d"
    "held_unit d1 = held_unit d" "free_units d1 = free_units d" "consumption_of_slot d1 = consumption_of_slot d"
    "package_eligible c x y z d1 = package_eligible c x y z d"
    "getPaymentMethodForPairTx x' y' d1 = getPaymentMethodForPair x' y' d" for x y z x' y'
    by (auto simp: ins(4) fun_eq_iff consumption_of_slot_def package_eligible_def count_remaining_def
        getPaymentMethodForPairTx_def getPaymentMethodForPair_def preference_of_def active_units_def)
  have inv1: "ledger_inv d1"
    by (rule pg_insert_slot_inv [OF inv 2(5)]) (simp add: billable_def)
  then have keys: "distinct (map pp_id (package_purchases d1))"
    using ledger_inv_keys by (simp add: keys_ok_def)
  from 2(6) id keys show ?thesis
  proof (cases rule: bill_assignment_cases)
    case 1
    then show ?thesis by simp
  next
    case prepaid: (2 p pp expiry)
    note unit = unit_taken_effect [OF ledger_inv_units_wf [OF inv1] prepaid(4)]
    show ?thesis
      using prepaid(1,2,3) 2(2,3,4) chk id ins(1,2,3) unit same(3,4)
      by (auto intro!: exI [of _ "pp_id pp"])
  next
    case postpaid: 3
    show ?thesis
      using postpaid 2(2,3,4) chk id ins same by simp
  qed
qed

text \<open>The sample with the learner linked to the teacher and no payment method set.\<close>

definition sample_linked_db :: db where
  "sample_linked_db = sample_teacher_db\<lparr>learner_billing_preferences := [],
     learner_teacher_links := [\<lparr>ln_learner_account_id = uuid_of CHR ''b'',
       ln_teacher_account_id = uuid_of CHR ''a'', ln_unlinked_at = None\<rparr>]\<rparr>"

definition sample_assign :: assign_input where
  "sample_assign = \<lparr>as_teacherAccountId = uuid_of CHR ''a'', as_learnerAccountId = uuid_of CHR ''b'',
     as_startAt = Some 1767600000000, as_durationMinutes = JsInt 60, as_tariffId = uuid_of CHR ''e'',
     as_notes = None, as_billingChoice = None, as_packagePurchaseId = Some (uuid_of CHR ''9'')\<rparr>"

lemma sample_linked_db_inv: "ledger_inv sample_linked_db"
proof -
  have "ledger_inv sample_linked_db = ledger_inv sample_teacher_db"
    by (rule ledger_inv_cong) (simp_all add: sample_linked_db_def)
  with sample_teacher_db_inv show ?thesis by simp
qed

lemma sample_more_uuids [simp]:
  "uuid_pattern (uuid_of CHR ''b'')" "pg_uuid (uuid_of CHR ''b'') = uuid_of CHR ''b''"
  "uuid_pattern (uuid_of CHR ''9'')" "pg_uuid (uuid_of CHR ''9'') = uuid_of CHR ''9''"
  "pg_uuid (uuid_of CHR ''a'') = uuid_of CHR ''a''"
  by (simp_all add: hex_digit_def lower_hex_def)

lemma sample_assign_inserts:
  "\<exists>slot. pg_insert_slot (assigned_row sample_clock (uuid_of CHR ''7'') sample_assign 1767600000000 60)
       sample_linked_db = Inr (slot, sample_linked_db\<lparr>lesson_slots := lesson_slots sample_linked_db @ [slot]\<rparr>)
     \<and> ls_id slot = uuid_of CHR ''7''"
proof -
  let ?row = "snapshot_on_book sample_linked_db
      (assigned_row sample_clock (uuid_of CHR ''7'') sample_assign 1767600000000 60)"
  have "slot_check ?row"
    by (simp add: slot_check_defs msk_defs time_defs)
      (simp add: snapshot_on_book_def snapshot_value_def assigned_row_def blank_slot_def sample_assign_def
        tariff_by_id_def find_by_def sample_linked_db_def sample_teacher_db_def)
  moreover have "\<not> slot_conflict sample_linked_db ?row" "slot_by_id sample_linked_db (uuid_of CHR ''7'') = None"
    by (simp_all add: slot_conflict_def same_lane_def time_defs slot_by_id_def find_by_def sample_linked_db_def
        sample_teacher_db_def sample_open_def sample_slot_def)
  ultimately show ?thesis by (simp add: pg_insert_slot_def Let_def)
qed

lemma sample_assigned:
  "\<exists>slot expiry d'. assignSlotDirect sample_clock (uuid_of CHR ''7'') sample_assign sample_linked_db
     = Inr (Inr (slot, BillPrepaid (uuid_of CHR ''9'') 4 expiry), d')"
proof -
  obtain slot where ins: "pg_insert_slot (assigned_row sample_clock (uuid_of CHR ''7'') sample_assign 1767600000000 60)
       sample_linked_db = Inr (slot, sample_linked_db\<lparr>lesson_slots := lesson_slots sample_linked_db @ [slot]\<rparr>)"
    and id: "ls_id slot = uuid_of CHR ''7''"
    using sample_assign_inserts by blast
  have chk: "assign_checks sample_clock sample_assign = Inr (1767600000000, 60)"
    by (simp add: assign_checks_def sample_assign_def sample_clock_def mskHourOutOfBand_def computeMskMinutes_def
        js_int_def MSK_BUSINESS_HOUR_MIN_def MSK_BUSINESS_HOUR_MAX_def time_defs)
  have gates: "active_link (uuid_of CHR ''a'') (uuid_of CHR ''b'') sample_linked_db"
    "\<exists>t. assign_tariff sample_assign 60 sample_linked_db = Inr t"
    "\<not> busy_overlap sample_clock (uuid_of CHR ''a'') (1767600000000 * us_per_ms) 60 sample_linked_db"
    by (simp_all add: active_link_def assign_tariff_def busy_overlap_def sample_linked_db_def sample_teacher_db_def
        sample_open_db_def empty_db_def sample_assign_def tariff_by_id_def find_by_def)
  have bill: "\<exists>expiry d'. bill_assignment sample_clock sample_assign t slot 60 sample_linked_db
      (sample_linked_db\<lparr>lesson_slots := lesson_slots sample_linked_db @ [slot]\<rparr>)
      = Inr (Inr (slot, BillPrepaid (uuid_of CHR ''9'') 4 expiry), d')" for t
    by (simp add: bill_assignment_def consume_pinned_def sample_assign_def pinned_purchase_def sample_linked_db_def
        sample_teacher_db_def sample_open_db_def sample_purchase_def sample_clock_def empty_db_def
        count_remaining_def active_units_def consumption_of_slot_def find_by_def)
  have ids: "as_teacherAccountId sample_assign = uuid_of CHR ''a''" "as_learnerAccountId sample_assign = uuid_of CHR ''b''"
    by (simp_all add: sample_assign_def)
  from gates(2) obtain t where "assign_tariff sample_assign 60 sample_linked_db = Inr t" by blast
  with chk gates ins bill [of t] show ?thesis by (auto simp: assignSlotDirect_def ids)
qed

theorem assignSlotDirect_effect_witness:
  "\<exists>slot expiry d'. assignSlotDirect sample_clock (uuid_of CHR ''7'') sample_assign sample_linked_db
       = Inr (Inr (slot, BillPrepaid (uuid_of CHR ''9'') 4 expiry), d')
     \<and> held_unit d' (uuid_of CHR ''7'') = Some (uuid_of CHR ''9'')"
proof -
  obtain slot expiry d' where run: "assignSlotDirect sample_clock (uuid_of CHR ''7'') sample_assign sample_linked_db
     = Inr (Inr (slot, BillPrepaid (uuid_of CHR ''9'') 4 expiry), d')"
    using sample_assigned by blast
  have "pg_uuid (as_teacherAccountId sample_assign) = as_teacherAccountId sample_assign"
    by (simp add: sample_assign_def)
  from assignSlotDirect_effect [OF sample_linked_db_inv this run]
  obtain q where "answer_names sample_assign (uuid_of CHR ''9'') q" "held_unit d' (uuid_of CHR ''7'') = Some q"
    by auto
  with run show ?thesis by (auto simp: answer_names_def pin_given_def sample_assign_def)
qed

end
