(* ===== verification/Reschedule.thy ===== *)
theory Reschedule
  imports Assign
begin

text \<open>
  \<open>src/lib/scheduling/slots/mutations-reschedule.ts\<close>: moving a booked lesson to another time, by
  the learner within the window and by the teacher with a reason. One transaction cancels the
  lesson, gives its package unit back, books a new slot and takes a unit for it. The notification
  sent after the commit is left out: its failure is caught and nothing depends on it. The id of
  the new row is an argument.
\<close>

section \<open>The operations\<close>

datatype reschedule_refusal =
  ReNotFound | ReNotOwner | ReAlreadyTerminal | ReTooLate int | ReInPast | ReStartOutOfBand
  | ReReasonRequired | ReSlotCollision | ReExternalConflict

definition rescheduled_row ::
  "clock \<Rightarrow> uuid \<Rightarrow> uuid \<Rightarrow> uuid \<Rightarrow> millis \<Rightarrow> int \<Rightarrow> uuid option \<Rightarrow> slot_event list \<Rightarrow> slot_row" where
  "rescheduled_row c newId teacher learner startMs dur tariff ev =
     (blank_slot c newId teacher (startMs * us_per_ms) dur Booked)
       \<lparr>ls_learner_account_id := Some learner, ls_booked_at := Some (pg_now c), ls_tariff_id := tariff,
        ls_source := Some SrcDirectAssign, ls_events := ev\<rparr>"

text \<open>
  The steps after the cancel, on the state \<open>d\<close> it leaves; \<open>d0\<close> is the state a rollback returns
  to. The unit is taken only for a lesson with a tariff, and the answer of taking it is ignored.
\<close>

definition create_rescheduled ::
  "clock \<Rightarrow> uuid \<Rightarrow> uuid \<Rightarrow> uuid option \<Rightarrow> millis \<Rightarrow> slot_event list \<Rightarrow> billing_actor \<Rightarrow> slot_row \<Rightarrow> db \<Rightarrow> db
   \<Rightarrow> (reschedule_refusal + slot_row \<times> slot_row) outcome" where
  "create_rescheduled c newId teacher learner startMs ev actor old d0 d =
     (if busy_overlap c teacher (startMs * us_per_ms) (ls_duration_minutes old) d
      then Inr (Inl ReExternalConflict, d0)
      else case learner of
        None \<Rightarrow> Inl (PgErr InvalidUuidText)
      | Some l \<Rightarrow>
          (case pg_insert_slot
                  (rescheduled_row c newId teacher l startMs (ls_duration_minutes old) (ls_tariff_id old) ev) d of
             Inl e \<Rightarrow> if e = PgErr UniqueViolation then Inr (Inl ReSlotCollision, d0) else Inl e
           | Inr (new, d1) \<Rightarrow>
               Inr (Inr (old, new),
                    case ls_tariff_id old of
                      None \<Rightarrow> d1
                    | Some _ \<Rightarrow> snd (consumePackageUnit c l (ls_id new) (ls_duration_minutes old) actor teacher d1))))"

definition classifyCancelFailure :: "clock \<Rightarrow> uuid \<Rightarrow> string \<Rightarrow> db \<Rightarrow> reschedule_refusal" where
  "classifyCancelFailure c slotId learnerAccountId d =
     (case slot_by_id d slotId of
        None \<Rightarrow> ReNotFound
      | Some row \<Rightarrow>
          if coalesce (ls_learner_account_id row) [] \<noteq> learnerAccountId then ReNotOwner
          else if ls_status row \<noteq> Booked then ReAlreadyTerminal
          else ReTooLate (max 0 ((js_date_via_string (ls_start_at row) - js_now c) div ms_per_minute)))"

text \<open>Steps 1 and 2 of the learner's move: the window is the one of the environment.\<close>

definition learner_may_move :: "string option \<Rightarrow> clock \<Rightarrow> uuid \<Rightarrow> slot_row \<Rightarrow> bool" where
  "learner_may_move env c learner r \<longleftrightarrow>
     ls_learner_account_id r = Some learner \<and> ls_status r = Booked
     \<and> ls_start_at r - pg_now c \<ge> getLearnerCancelWindowHours env * us_per_hour"

definition cancel_by_learner ::
  "string option \<Rightarrow> clock \<Rightarrow> uuid \<Rightarrow> uuid \<Rightarrow> millis \<Rightarrow> db \<Rightarrow> slot_row option outcome" where
  "cancel_by_learner env c i learner startMs d =
     cancel_and_restore c i (learner_may_move env c learner)
       (cancelled_row c (pg_now c) learner (Some (js ''reschedule''))
          (appendEventSql c ''slot.reschedule_cancelled'' (Some ''learner'')
             (Some [(''newStartAt'', VInstant startMs)])))
       ActorLearner ''learner_cancel'' d"

definition rescheduleSlotByLearner ::
  "string option \<Rightarrow> clock \<Rightarrow> uuid \<Rightarrow> string \<Rightarrow> string \<Rightarrow> millis option \<Rightarrow> db
   \<Rightarrow> (reschedule_refusal + slot_row \<times> slot_row) outcome" where
  "rescheduleSlotByLearner env c newId slotId learnerAccountId newStartAt d =
     (if \<not> uuid_pattern slotId then Inr (Inl ReNotFound, d)
      else if \<not> uuid_pattern learnerAccountId then Inr (Inl ReNotOwner, d)
      else case newStartAt of
        None \<Rightarrow> Inr (Inl ReInPast, d)
      | Some startMs \<Rightarrow>
          if startMs \<le> js_now c then Inr (Inl ReInPast, d)
          else if mskHourOutOfBand startMs then Inr (Inl ReStartOutOfBand, d)
          else
            let i = pg_uuid slotId; learner = pg_uuid learnerAccountId in
            bindR (cancel_by_learner env c i learner startMs d)
              (\<lambda>(ro, d1). case ro of
                   None \<Rightarrow> Inr (Inl (classifyCancelFailure c i learnerAccountId d), d)
                 | Some old \<Rightarrow>
                     create_rescheduled c newId (ls_teacher_account_id old) (Some learner) startMs
                       (appendEventSql c ''slot.reschedule_created'' (Some ''learner'')
                          (Some [(''previousSlotId'', VStr slotId)]))
                       ActorLearner old d d1))"

definition classifyTeacherCancelFailure :: "uuid \<Rightarrow> string \<Rightarrow> db \<Rightarrow> reschedule_refusal" where
  "classifyTeacherCancelFailure slotId teacherAccountId d =
     (case slot_by_id d slotId of
        None \<Rightarrow> ReNotFound
      | Some row \<Rightarrow>
          if ls_teacher_account_id row \<noteq> teacherAccountId then ReNotOwner else ReAlreadyTerminal)"

text \<open>Steps 1 to 3 of the teacher's move: no window.\<close>

definition teacher_may_move :: "uuid \<Rightarrow> slot_row \<Rightarrow> bool" where
  "teacher_may_move teacher r \<longleftrightarrow> ls_teacher_account_id r = teacher \<and> ls_status r = Booked"

definition cancel_by_teacher ::
  "clock \<Rightarrow> uuid \<Rightarrow> uuid \<Rightarrow> millis \<Rightarrow> js_text \<Rightarrow> db \<Rightarrow> slot_row option outcome" where
  "cancel_by_teacher c i teacher startMs trimmedReason d =
     cancel_and_restore c i (teacher_may_move teacher)
       (cancelled_row c (pg_now c) teacher (Some trimmedReason)
          (appendEventSql c ''slot.reschedule_cancelled'' (Some ''teacher'')
             (Some [(''newStartAt'', VInstant startMs), (''reason'', VText trimmedReason)])))
       ActorTeacher ''teacher_reschedule'' d"

definition rescheduleSlotByTeacher ::
  "clock \<Rightarrow> uuid \<Rightarrow> string \<Rightarrow> string \<Rightarrow> millis option \<Rightarrow> js_text option \<Rightarrow> db
   \<Rightarrow> (reschedule_refusal + slot_row \<times> slot_row) outcome" where
  "rescheduleSlotByTeacher c newId slotId teacherAccountId newStartAt reason d =
     (if \<not> uuid_pattern slotId then Inr (Inl ReNotFound, d)
      else if \<not> uuid_pattern teacherAccountId then Inr (Inl ReNotOwner, d)
      else
        let trimmedReason = coalesce (map_option js_trim reason) [] in
        if length trimmedReason < 5 then Inr (Inl ReReasonRequired, d)
        else case newStartAt of
          None \<Rightarrow> Inr (Inl ReInPast, d)
        | Some startMs \<Rightarrow>
            if startMs \<le> js_now c then Inr (Inl ReInPast, d)
            else if mskHourOutOfBand startMs then Inr (Inl ReStartOutOfBand, d)
            else
              let i = pg_uuid slotId; teacher = pg_uuid teacherAccountId in
              bindR (cancel_by_teacher c i teacher startMs trimmedReason d)
                (\<lambda>(ro, d1). case ro of
                     None \<Rightarrow> Inr (Inl (classifyTeacherCancelFailure i teacherAccountId d), d)
                   | Some old \<Rightarrow>
                       create_rescheduled c newId teacher (ls_learner_account_id old) startMs
                         (appendEventSql c ''slot.reschedule_created'' (Some ''teacher'')
                            (Some [(''previousSlotId'', VStr slotId), (''reason'', VText trimmedReason)]))
                         ActorTeacher old d d1))"

section \<open>What a move does\<close>

lemma rescheduled_row_simps [simp]:
  "ls_id (rescheduled_row c i t l s dur tariff ev) = i"
  "ls_status (rescheduled_row c i t l s dur tariff ev) = Booked"
  "ls_learner_account_id (rescheduled_row c i t l s dur tariff ev) = Some l"
  "ls_teacher_account_id (rescheduled_row c i t l s dur tariff ev) = t"
  "ls_start_at (rescheduled_row c i t l s dur tariff ev) = s * us_per_ms"
  "ls_duration_minutes (rescheduled_row c i t l s dur tariff ev) = dur"
  "ls_tariff_id (rescheduled_row c i t l s dur tariff ev) = tariff"
  by (simp_all add: rescheduled_row_def blank_slot_def)

lemma cancelled_row_keeps [simp]:
  "ls_duration_minutes (cancelled_row c t a reason ev r) = ls_duration_minutes r"
  "ls_tariff_id (cancelled_row c t a reason ev r) = ls_tariff_id r"
  by (simp_all add: cancelled_row_def)

lemma restore_purchases [simp]:
  "package_purchases (snd (restorePackageConsumption c i actor why d)) = package_purchases d"
  by (simp add: restorePackageConsumption_def)

lemma create_rescheduled_cases:
  assumes "create_rescheduled c newId teacher learner startMs ev actor old d0 d = Inr (res, d')"
  obtains e where "res = Inl e" and "d' = d0"
  | l new d1 where "learner = Some l" and "res = Inr (old, new)"
      and "\<not> busy_overlap c teacher (startMs * us_per_ms) (ls_duration_minutes old) d"
      and "pg_insert_slot (rescheduled_row c newId teacher l startMs (ls_duration_minutes old)
             (ls_tariff_id old) ev) d = Inr (new, d1)"
      and "d' = (case ls_tariff_id old of None \<Rightarrow> d1
             | Some _ \<Rightarrow> snd (consumePackageUnit c l newId (ls_duration_minutes old) actor teacher d1))"
proof -
  have "ls_id new = newId"
    if "pg_insert_slot (rescheduled_row c newId teacher l startMs (ls_duration_minutes old)
             (ls_tariff_id old) ev) d = Inr (new, d1)" for l new d1
    using inserted_slot(1) [OF that] by simp
  with assms that show ?thesis
    by (auto simp: create_rescheduled_def split: if_splits option.splits sum.splits prod.splits)
qed

lemma create_rescheduled_inv:
  assumes inv: "ledger_inv d0" "ledger_inv d"
    and "create_rescheduled c newId teacher learner startMs ev actor old d0 d = Inr (res, d')"
  shows "ledger_inv d'"
  using assms(3)
proof (cases rule: create_rescheduled_cases)
  case 1
  with inv show ?thesis by simp
next
  case (2 l new d1)
  note ins = inserted_slot [OF 2(4), simplified]
  have inv1: "ledger_inv d1"
    by (rule pg_insert_slot_inv [OF inv(2) 2(4)]) (simp add: billable_def)
  have "slot_by_id d1 newId = Some new" "holds_unit new" using ins by (simp_all add: holds_unit_def)
  from consumePackageUnit_inv [OF inv1 this, of l "ls_duration_minutes old" teacher c actor] inv1 2(5) ins(1)
  show ?thesis
    by (cases "consumePackageUnit c l newId (ls_duration_minutes old) actor teacher d1")
      (auto split: option.splits)
qed

text \<open>
  The lesson \<open>r\<close> of slot \<open>i\<close> is cancelled and lives on in slot \<open>newId\<close>, at another time and with
  everything else the move keeps; no other slot has changed.
\<close>

definition lesson_moved ::
  "uuid \<Rightarrow> uuid \<Rightarrow> micros \<Rightarrow> slot_row \<Rightarrow> slot_row \<Rightarrow> slot_row \<Rightarrow> db \<Rightarrow> db \<Rightarrow> bool" where
  "lesson_moved i newId start r old new d d' \<longleftrightarrow>
     slot_by_id d i = Some r \<and> ls_status r = Booked \<and> slot_by_id d newId = None
     \<and> ls_status old = Cancelled \<and> ls_status new = Booked \<and> ls_start_at new = start
     \<and> ls_teacher_account_id new = ls_teacher_account_id r
     \<and> ls_learner_account_id new = ls_learner_account_id r
     \<and> ls_duration_minutes new = ls_duration_minutes r \<and> ls_tariff_id new = ls_tariff_id r
     \<and> (\<forall>j. slot_by_id d' j = (if j = newId then Some new else if j = i then Some old else slot_by_id d j))"

definition purchase_live :: "clock \<Rightarrow> db \<Rightarrow> uuid \<Rightarrow> bool" where
  "purchase_live c d p \<longleftrightarrow>
     (\<exists>pp. purchase_by_id d p = Some pp \<and> pp_voided_at pp = None \<and> pp_expires_at pp > pg_now c)"

text \<open>
  Where the units are after a move: the old slot has none, a unit the new slot has came out of one
  package, and a lesson with a tariff that was paid by a package still valid stays paid by one.
\<close>

definition unit_moved :: "clock \<Rightarrow> uuid \<Rightarrow> uuid \<Rightarrow> slot_row \<Rightarrow> db \<Rightarrow> db \<Rightarrow> bool" where
  "unit_moved c i newId r d d' \<longleftrightarrow>
     held_unit d' = (held_unit d)(i := None, newId := held_unit d' newId)
     \<and> (\<forall>p. free_units d' p = free_units d p + (if held_unit d i = Some p then 1 else 0)
               - (if held_unit d' newId = Some p then 1 else 0))
     \<and> (ls_tariff_id r = None \<longrightarrow> held_unit d' newId = None)
     \<and> (\<forall>p. ls_tariff_id r \<noteq> None \<and> held_unit d i = Some p \<and> purchase_live c d p
          \<longrightarrow> held_unit d' newId \<noteq> None)"

lemma restore_consumption_None:
  "consumption_of_slot d j = None \<Longrightarrow>
     consumption_of_slot (snd (restorePackageConsumption c i actor why d)) j = None"
  by (force simp: consumption_of_slot_None_iff restorePackageConsumption_def package_consumptions_restore)

text \<open>What the first half of a move has done.\<close>

lemma cancel_SomeE:
  assumes inv: "ledger_inv d" and run: "cancel_and_restore c i P f actor why d = Inr (Some old, d1)"
    and f: "f = cancelled_row c t a reason ev" and P: "\<And>r. P r \<Longrightarrow> ls_status r = Booked"
  obtains r where "slot_by_id d i = Some r" and "P r" and "old = f r" and "ledger_inv d1"
    and "\<And>j. slot_by_id d1 j = (if j = i then Some old else slot_by_id d j)"
    and "unit_released i d d1" and "package_purchases d1 = package_purchases d"
    and "\<And>j. consumption_of_slot d j = None \<Longrightarrow> consumption_of_slot d1 j = None"
proof -
  obtain r where r: "slot_by_id d i = Some r" "P r"
    using run cancel_miss [of d i P c f actor why] by auto
  have "\<exists>d'. cancel_and_restore c i P f actor why d = Inr (Some (f r), d')
      \<and> (\<forall>j. slot_by_id d' j = (if j = i then Some (f r) else slot_by_id d j))
      \<and> unit_released i d d' \<and> lesson_completions d' = lesson_completions d"
    using cancel_hit [OF inv r(1), of P f c t a reason ev actor why] r(2) f P [OF r(2)] by simp
  with run have eq: "old = f r" "unit_released i d d1"
    "slot_by_id d1 j = (if j = i then Some old else slot_by_id d j)" for j by auto
  obtain d2 where "pg_update_slot i P f d = Inr (Some old, d2)"
    and d1: "d1 = snd (restorePackageConsumption c i actor (Some why) d2)"
    using run by (auto simp: cancel_and_restore_def bindR_eq_Inr_iff split: option.splits)
  then have d2: "package_purchases d2 = package_purchases d" "consumption_of_slot d2 = consumption_of_slot d"
    by (auto elim!: pg_update_slot_SomeE simp: consumption_of_slot_def fun_eq_iff)
  have "ledger_inv d1"
    by (rule cancel_and_restore_inv [OF inv run]) (use f P in \<open>auto dest!: P\<close>)
  with r eq d2 d1 that show ?thesis using restore_consumption_None by simp
qed

text \<open>The second half, for the units.\<close>

lemma create_rescheduled_units:
  assumes inv: "ledger_inv d"
    and ins: "pg_insert_slot (rescheduled_row c newId teacher l startMs dur tariff ev) d = Inr (new, d1)"
    and fresh: "consumption_of_slot d newId = None"
    and d': "d' = (case tariff of None \<Rightarrow> d1 | Some _ \<Rightarrow> snd (consumePackageUnit c l newId dur actor teacher d1))"
  shows "slot_by_id d' = slot_by_id d1"
    and "held_unit d' = (held_unit d)(newId := held_unit d' newId)"
    and "free_units d' p = free_units d p - (if held_unit d' newId = Some p then 1 else 0)"
    and "tariff = None \<Longrightarrow> held_unit d' newId = None"
    and "tariff \<noteq> None \<Longrightarrow> q \<in> set (package_purchases d) \<Longrightarrow> package_eligible c l dur teacher d q
           \<Longrightarrow> held_unit d' newId \<noteq> None"
proof -
  have d1: "d1 = d\<lparr>lesson_slots := lesson_slots d @ [new]\<rparr>" using inserted_slot(4) [OF ins] .
  have none: "held_unit d newId = None" using fresh by (simp add: held_unit_def)
  have wf: "units_wf d1" using ledger_inv_units_wf [OF inv] by (simp add: d1)
  obtain cr d2 where con: "consumePackageUnit c l newId dur actor teacher d1 = (cr, d2)" by force
  have elig: "package_eligible c l dur teacher d1 = package_eligible c l dur teacher d"
    by (simp add: fun_eq_iff package_eligible_def count_remaining_def active_units_def d1)
  show "slot_by_id d' = slot_by_id d1"
    using consumePackageUnit_frame [OF con] con d'
    by (cases tariff) (auto simp: fun_eq_iff slot_by_id_def)
  consider (same) "d' = d1" "tariff \<noteq> None \<longrightarrow> (\<forall>q \<in> set (package_purchases d). \<not> package_eligible c l dur teacher d q)"
    | (taken) p where "tariff \<noteq> None" "held_unit d' = (held_unit d)(newId := Some p)"
        "free_units d' = (free_units d)(p := free_units d p - 1)"
  proof (cases "tariff \<noteq> None \<and> (\<exists>p. cr = Consumed p)")
    case True
    then obtain p where "take_package_unit (c, l, dur, actor, teacher) newId d1 = (Some p, d')"
      using con d' by (auto simp: take_package_unit_def)
    from packages.take_Some [OF wf this] True that(2) [of p] show ?thesis by (simp add: d1)
  next
    case False
    then have "d' = d1" using d' con consumePackageUnit_not_Consumed [OF con] by (cases tariff) auto
    moreover have "\<forall>q \<in> set (package_purchases d). \<not> package_eligible c l dur teacher d q" if "tariff \<noteq> None"
      using consumePackageUnit_not_eligible [OF con] False that elig fresh
      by (simp add: d1 consumption_of_slot_def)
    ultimately show ?thesis using that(1) by blast
  qed
  note outcome = this
  from outcome show "held_unit d' = (held_unit d)(newId := held_unit d' newId)"
    by cases (simp_all add: d1)
  from outcome show "free_units d' p = free_units d p - (if held_unit d' newId = Some p then 1 else 0)"
    by cases (simp_all add: d1 none)
  from outcome show "tariff = None \<Longrightarrow> held_unit d' newId = None"
    by cases (simp_all add: d1 none)
  from outcome show "tariff \<noteq> None \<Longrightarrow> q \<in> set (package_purchases d) \<Longrightarrow> package_eligible c l dur teacher d q
       \<Longrightarrow> held_unit d' newId \<noteq> None"
    by cases (blast, simp)
qed

text \<open>A package that paid the lesson and is still valid may pay the moved one.\<close>

lemma released_eligible:
  assumes inv: "ledger_inv d" and r: "slot_by_id d i = Some r" and held: "held_unit d i = Some p"
    and live: "purchase_live c d p" and rel: "unit_released i d d1"
    and pur: "package_purchases d1 = package_purchases d"
  shows "\<exists>pp \<in> set (package_purchases d1).
    package_eligible c (the (ls_learner_account_id r)) (ls_duration_minutes r) (ls_teacher_account_id r) d1 pp"
proof -
  from held obtain u where u: "u \<in> set (package_consumptions d)" "pc_slot_id u = i" "unit_active u"
    "pc_package_purchase_id u = p"
    by (auto simp: held_unit_def consumption_of_slot_def dest!: find_by_SomeD split: option.splits if_splits)
  with inv have "unit_backed d u" by (simp add: ledger_inv_def consumption_sync_def)
  then obtain r' q where q: "r' \<in> set (lesson_slots d)" "ls_id r' = i" "q \<in> set (package_purchases d)"
    "pp_id q = p" "purchase_fits q r'" using u by (auto simp: unit_backed_def)
  have "r' = r" using slot_by_id_mem [OF ledger_inv_keys [OF inv] q(1)] q(2) r by simp
  have look: "purchase_by_id d p = Some q"
    using ledger_inv_keys [OF inv] find_by_distinct [of pp_id "package_purchases d" q] q(3,4)
    by (simp add: keys_ok_def purchase_by_id_def)
  have "0 \<le> free_units d p"
    using inv look q(3,4) by (simp add: free_units_eq ledger_inv_def capacity_ok_def) force
  then have "0 < free_units d1 p" using rel held by (simp add: unit_released_def)
  then have "0 < count_remaining d1 q" using look pur by (simp add: free_units_def purchase_by_id_def)
  with q look live pur \<open>r' = r\<close> show ?thesis
    by (intro bexI [of _ q]) (auto simp: package_eligible_def purchase_fits_def purchase_live_def)
qed

lemma move_outcome:
  assumes inv: "ledger_inv d" and can: "cancel_and_restore c i P f actor why d = Inr (Some old, d1)"
    and f: "f = cancelled_row c t a reason ev" and P: "\<And>r. P r \<Longrightarrow> ls_status r = Booked"
    and cre: "create_rescheduled c newId (ls_teacher_account_id old) (ls_learner_account_id old) startMs ev' actor'
        old d d1 = Inr (Inr (old', new), d')"
    and fresh: "consumption_of_slot d newId = None"
  shows "\<exists>r. P r \<and> old' = old \<and> lesson_moved i newId (startMs * us_per_ms) r old new d d'
    \<and> unit_moved c i newId r d d'"
  using inv can f P
proof (rule cancel_SomeE)
  fix r
  assume r: "slot_by_id d i = Some r" "P r" "old = f r" and inv1: "ledger_inv d1"
    and look: "\<And>j. slot_by_id d1 j = (if j = i then Some old else slot_by_id d j)"
    and rel: "unit_released i d d1" and pur: "package_purchases d1 = package_purchases d"
    and keep: "\<And>j. consumption_of_slot d j = None \<Longrightarrow> consumption_of_slot d1 j = None"
  from cre obtain l d2 where l: "ls_learner_account_id old = Some l" "old' = old"
    and ins: "pg_insert_slot (rescheduled_row c newId (ls_teacher_account_id old) l startMs
        (ls_duration_minutes old) (ls_tariff_id old) ev') d1 = Inr (new, d2)"
    and d': "d' = (case ls_tariff_id old of None \<Rightarrow> d2 | Some _ \<Rightarrow>
        snd (consumePackageUnit c l newId (ls_duration_minutes old) actor' (ls_teacher_account_id old) d2))"
    by (rule create_rescheduled_cases) auto
  note new = inserted_slot [OF ins, simplified]
  note units = create_rescheduled_units [OF inv1 ins keep [OF fresh] d']
  have ne: "newId \<noteq> i" using new(2) look [of i] by auto
  have free: "slot_by_id d newId = None" using new(2) look [of newId] ne by simp
  have moved: "lesson_moved i newId (startMs * us_per_ms) r old new d d'"
    using r P [OF r(2)] new(1,3) look l(1) units(1) ne free by (auto simp: lesson_moved_def f)
  have "held_unit d' newId \<noteq> None"
    if "ls_tariff_id r \<noteq> None" "held_unit d i = Some p" "purchase_live c d p" for p
    using released_eligible [OF inv r(1) that(2,3) rel pur] units(5) that(1) r(3) f l(1) by auto
  moreover have "free_units d' p = free_units d p + (if held_unit d i = Some p then 1 else 0)
      - (if held_unit d' newId = Some p then 1 else 0)" for p
    using units(3) [of p] rel by (auto simp: unit_released_def split: option.splits)
  moreover have "held_unit d' = (held_unit d)(i := None, newId := held_unit d' newId)"
    using units(2) rel by (simp add: unit_released_def)
  ultimately have "unit_moved c i newId r d d'"
    using units(4) r(3) f by (simp add: unit_moved_def)
  with moved r(2) l(2) show ?thesis by blast
qed

section \<open>The agreements of the ledger are kept\<close>

lemma cancel_half_inv:
  assumes "ledger_inv d"
  shows "cancel_by_learner env c i l s d = Inr (ro, d1) \<Longrightarrow> ledger_inv d1"
    and "cancel_by_teacher c i t s reason d = Inr (ro, d1) \<Longrightarrow> ledger_inv d1"
  unfolding cancel_by_learner_def cancel_by_teacher_def
  by (rule cancel_and_restore_inv [OF assms], assumption, blast,
      force simp: learner_may_move_def teacher_may_move_def)+

lemma rescheduleSlotByLearner_cases:
  assumes "rescheduleSlotByLearner env c newId slotId learner newStart d = Inr (res, d')"
  obtains e where "res = Inl e" and "d' = d"
  | startMs old d1 ev where "newStart = Some startMs" and "js_now c < startMs" and "\<not> mskHourOutOfBand startMs"
      and "uuid_pattern slotId" and "uuid_pattern learner"
      and "cancel_by_learner env c (pg_uuid slotId) (pg_uuid learner) startMs d = Inr (Some old, d1)"
      and "create_rescheduled c newId (ls_teacher_account_id old) (Some (pg_uuid learner)) startMs ev
             ActorLearner old d d1 = Inr (res, d')"
  using assms
  by (fastforce simp: rescheduleSlotByLearner_def Let_def bindR_eq_Inr_iff split: if_splits option.splits)

lemma rescheduleSlotByTeacher_cases:
  assumes "rescheduleSlotByTeacher c newId slotId teacher newStart reason d = Inr (res, d')"
  obtains e where "res = Inl e" and "d' = d"
  | startMs why old d1 ev where "newStart = Some startMs" and "js_now c < startMs"
      and "\<not> mskHourOutOfBand startMs" and "uuid_pattern slotId" and "uuid_pattern teacher"
      and "reason = Some why" and "5 \<le> length (js_trim why)"
      and "cancel_by_teacher c (pg_uuid slotId) (pg_uuid teacher) startMs (js_trim why) d = Inr (Some old, d1)"
      and "create_rescheduled c newId (pg_uuid teacher) (ls_learner_account_id old) startMs ev
             ActorTeacher old d d1 = Inr (res, d')"
proof (cases reason)
  case None
  with assms that(1) show ?thesis by (auto simp: rescheduleSlotByTeacher_def Let_def split: if_splits)
next
  case (Some why)
  with assms that show ?thesis
    by (fastforce simp: rescheduleSlotByTeacher_def Let_def bindR_eq_Inr_iff split: if_splits option.splits)
qed

lemma rescheduleSlotByLearner_inv:
  assumes inv: "ledger_inv d"
    and run: "rescheduleSlotByLearner env c newId slotId learner newStart d = Inr (res, d')"
  shows "ledger_inv d'"
  using run
  by (cases rule: rescheduleSlotByLearner_cases)
    (use inv create_rescheduled_inv [OF inv cancel_half_inv(1) [OF inv]] in blast)+

lemma rescheduleSlotByTeacher_inv:
  assumes inv: "ledger_inv d"
    and run: "rescheduleSlotByTeacher c newId slotId teacher newStart reason d = Inr (res, d')"
  shows "ledger_inv d'"
  using run
  by (cases rule: rescheduleSlotByTeacher_cases)
    (use inv create_rescheduled_inv [OF inv cancel_half_inv(2) [OF inv]] in blast)+

section \<open>Properties\<close>

text \<open>
  C24: the learner's move. A refusal changes nothing. A success, for a new id that nothing refers
  to, means that the learner's own booked lesson, no nearer than the window of the environment, is
  cancelled and goes on in a new slot with the same teacher, learner, length and tariff at the new
  time, which is in the future and inside the band; no other slot changes. The package units add
  up: the old slot holds none, and a lesson with a tariff that was paid by a package still valid
  is paid by a package unit again.
\<close>

theorem rescheduleSlotByLearner_effect:
  assumes inv: "ledger_inv d" and fresh: "consumption_of_slot d newId = None"
    and run: "rescheduleSlotByLearner env c newId slotId learner newStart d = Inr (res, d')"
  shows "case res of
      Inl e \<Rightarrow> d' = d
    | Inr (old, new) \<Rightarrow>
        (\<exists>r startMs. newStart = Some startMs \<and> js_now c < startMs \<and> \<not> mskHourOutOfBand startMs
           \<and> learner_may_move env c (pg_uuid learner) r
           \<and> lesson_moved (pg_uuid slotId) newId (startMs * us_per_ms) r old new d d'
           \<and> unit_moved c (pg_uuid slotId) newId r d d')"
  using run
proof (cases rule: rescheduleSlotByLearner_cases)
  case 1
  then show ?thesis by simp
next
  case (2 startMs old d1 ev)
  note can = 2(6) [unfolded cancel_by_learner_def]
  have mine: "ls_learner_account_id old = Some (pg_uuid learner)"
    by (rule cancel_SomeE [OF inv can refl]) (auto simp: learner_may_move_def)
  show ?thesis
  proof (cases res)
    case (Inl e)
    then show ?thesis using 2(7) by (auto elim: create_rescheduled_cases)
  next
    case (Inr ok)
    obtain old' new where ok: "ok = (old', new)" by (cases ok)
    have booked: "learner_may_move env c (pg_uuid learner) r \<Longrightarrow> ls_status r = Booked" for r
      by (simp add: learner_may_move_def)
    from move_outcome [OF inv can refl booked _ fresh] 2(7) mine Inr ok 2(1,2,3) show ?thesis by fastforce
  qed
qed

text \<open>
  The teacher's move: the same, for a lesson of the teacher's own, with no window and with a
  reason of five characters or more after trimming.
\<close>

theorem rescheduleSlotByTeacher_effect:
  assumes inv: "ledger_inv d" and fresh: "consumption_of_slot d newId = None"
    and run: "rescheduleSlotByTeacher c newId slotId teacher newStart reason d = Inr (res, d')"
  shows "case res of
      Inl e \<Rightarrow> d' = d
    | Inr (old, new) \<Rightarrow>
        (\<exists>r startMs why. newStart = Some startMs \<and> js_now c < startMs \<and> \<not> mskHourOutOfBand startMs
           \<and> reason = Some why \<and> 5 \<le> length (js_trim why)
           \<and> teacher_may_move (pg_uuid teacher) r
           \<and> lesson_moved (pg_uuid slotId) newId (startMs * us_per_ms) r old new d d'
           \<and> unit_moved c (pg_uuid slotId) newId r d d')"
  using run
proof (cases rule: rescheduleSlotByTeacher_cases)
  case 1
  then show ?thesis by simp
next
  case (2 startMs why old d1 ev)
  note can = 2(8) [unfolded cancel_by_teacher_def]
  have mine: "ls_teacher_account_id old = pg_uuid teacher"
    by (rule cancel_SomeE [OF inv can refl]) (auto simp: teacher_may_move_def)
  show ?thesis
  proof (cases res)
    case (Inl e)
    then show ?thesis using 2(9) by (auto elim: create_rescheduled_cases)
  next
    case (Inr ok)
    obtain old' new where ok: "ok = (old', new)" by (cases ok)
    have booked: "teacher_may_move (pg_uuid teacher) r \<Longrightarrow> ls_status r = Booked" for r
      by (simp add: teacher_may_move_def)
    from move_outcome [OF inv can refl booked _ fresh] 2(9) mine Inr ok 2(1,2,3,6,7) show ?thesis by fastforce
  qed
qed

text \<open>
  A move drops the package unit of a lesson that has no tariff. The unit of the cancelled slot is
  given back and, because the lesson has no tariff, none is taken for the new slot: the lesson was
  paid by the package and is no longer.
\<close>

theorem reschedule_untariffed_loses_unit:
  assumes inv: "ledger_inv d" and fresh: "consumption_of_slot d newId = None"
    and r: "slot_by_id d (pg_uuid slotId) = Some r" "ls_tariff_id r = None"
    and held: "held_unit d (pg_uuid slotId) = Some p"
    and run: "rescheduleSlotByTeacher c newId slotId teacher newStart reason d = Inr (Inr (old, new), d')"
  shows "ls_status new = Booked \<and> held_unit d' newId = None \<and> held_unit d' (pg_uuid slotId) = None
    \<and> free_units d' p = free_units d p + 1"
  using run
proof (cases rule: rescheduleSlotByTeacher_cases)
  case (2 startMs why old1 d1 ev)
  note can = 2(8) [unfolded cancel_by_teacher_def]
  have booked: "teacher_may_move (pg_uuid teacher) r \<Longrightarrow> ls_status r = Booked" for r
    by (simp add: teacher_may_move_def)
  have "ls_teacher_account_id old1 = pg_uuid teacher"
    by (rule cancel_SomeE [OF inv can refl booked]) (auto simp: teacher_may_move_def)
  with move_outcome [OF inv can refl booked _ fresh] 2(9) obtain r'
    where m: "lesson_moved (pg_uuid slotId) newId (startMs * us_per_ms) r' old1 new d d'"
      "unit_moved c (pg_uuid slotId) newId r' d d'" by fastforce
  with r(1) have "r' = r" by (simp add: lesson_moved_def)
  moreover have "newId \<noteq> pg_uuid slotId" using m(1) r(1) by (auto simp: lesson_moved_def)
  moreover have "held_unit d' (pg_uuid slotId) = ((held_unit d)(pg_uuid slotId := None,
      newId := held_unit d' newId)) (pg_uuid slotId)"
    using m(2) unfolding unit_moved_def by metis
  ultimately show ?thesis using m r(2) held by (simp add: lesson_moved_def unit_moved_def)
qed simp

section \<open>The properties at the sample\<close>

text \<open>Nothing stands in the way of a move to a free time.\<close>

lemma move_succeeds:
  assumes inv: "ledger_inv d" and r: "slot_by_id d i = Some r" "P r" "ls_status r = Booked"
    and l: "ls_learner_account_id r = Some l"
    and row: "row = snapshot_on_book d (rescheduled_row c newId (ls_teacher_account_id r) l startMs
        (ls_duration_minutes r) (ls_tariff_id r) ev')"
    and ok: "slot_check row" "slot_by_id d newId = None"
      "\<forall>x \<in> set (lesson_slots d). ls_id x \<noteq> i \<longrightarrow> \<not> same_lane x row"
    and free: "\<not> busy_overlap c (ls_teacher_account_id r) (startMs * us_per_ms) (ls_duration_minutes r) d"
  shows "\<exists>old d1 new d'. cancel_and_restore c i P (cancelled_row c t a reason ev) actor why d = Inr (Some old, d1)
    \<and> ls_teacher_account_id old = ls_teacher_account_id r \<and> ls_learner_account_id old = Some l
    \<and> create_rescheduled c newId (ls_teacher_account_id r) (Some l) startMs ev' actor' old d d1
        = Inr (Inr (old, new), d')"
proof -
  let ?old = "cancelled_row c t a reason ev r"
  obtain d1 where can: "cancel_and_restore c i P (cancelled_row c t a reason ev) actor why d = Inr (Some ?old, d1)"
    and look: "\<forall>j. slot_by_id d1 j = (if j = i then Some ?old else slot_by_id d j)"
    using cancel_hit [OF inv r(1), of P "cancelled_row c t a reason ev" c t a reason ev actor why] r(2,3) by auto
  obtain d2 where upd: "pg_update_slot i P (cancelled_row c t a reason ev) d = Inr (Some ?old, d2)"
    and d1: "d1 = snd (restorePackageConsumption c i actor (Some why) d2)"
    using can by (auto simp: cancel_and_restore_def bindR_eq_Inr_iff split: option.splits)
  have tables: "lesson_slots d1 = replace_row ls_id ?old (lesson_slots d)"
    "pricing_tariffs d1 = pricing_tariffs d"
    "teacher_external_busy_intervals d1 = teacher_external_busy_intervals d"
    "teacher_calendar_integrations d1 = teacher_calendar_integrations d"
    using upd by (auto elim!: pg_update_slot_SomeE simp: d1 restorePackageConsumption_def restore_where_def)
  have id: "ls_id r = i" using slot_by_id_SomeD [OF r(1)] by simp
  have "\<not> slot_conflict d1 row"
    using set_replace_row [of ls_id ?old "lesson_slots d"] ok(3)
    by (fastforce simp: slot_conflict_def list_ex_iff tables(1) id same_lane_def)
  moreover have "slot_by_id d1 newId = None" using look ok(2) r(1) by auto
  moreover have "snapshot_on_book d1 (rescheduled_row c newId (ls_teacher_account_id r) l startMs
        (ls_duration_minutes r) (ls_tariff_id r) ev') = row"
    unfolding row snapshot_on_book_def snapshot_value_def tariff_by_id_def tables(2) by (rule refl)
  ultimately have "pg_insert_slot (rescheduled_row c newId (ls_teacher_account_id r) l startMs
        (ls_duration_minutes r) (ls_tariff_id r) ev') d1 = Inr (row, d1\<lparr>lesson_slots := lesson_slots d1 @ [row]\<rparr>)"
    using ok(1) by (simp add: pg_insert_slot_def Let_def row)
  with can free l show ?thesis
    by (simp add: create_rescheduled_def busy_overlap_def tables(3,4))
qed

text \<open>The lesson of the sample, paid by the package; with a tariff and without.\<close>

definition sample_paid_db :: "uuid option \<Rightarrow> db" where
  "sample_paid_db tariff = sample_db\<lparr>lesson_slots := [sample_slot\<lparr>ls_tariff_id := tariff\<rparr>],
     package_consumptions := [unit_row sample_clock (uuid_of CHR ''1'') (uuid_of CHR ''9'') ActorLearner]\<rparr>"

lemma sample_paid_db_inv: "ledger_inv (sample_paid_db tariff)"
proof -
  have chk: "slot_check (sample_slot\<lparr>ls_tariff_id := tariff\<rparr>)"
    by (simp add: sample_slot_def slot_check_defs msk_defs)
  have backed: "unit_backed (sample_paid_db tariff)
      (unit_row sample_clock (uuid_of CHR ''1'') (uuid_of CHR ''9'') ActorLearner)"
    by (simp add: unit_backed_def sample_paid_db_def sample_db_def sample_slot_def sample_purchase_def
        holds_unit_def purchase_fits_def)
  from chk backed show ?thesis
    by (simp add: ledger_inv_def schema_ok_def consumption_sync_def)
      (simp add: sample_paid_db_def sample_db_def sample_slot_def sample_purchase_def empty_db_def keys_ok_def
        lanes_ok_def checks_ok_def completion_sync_def billable_def capacity_ok_def active_units_def coverage_ok_def)
qed

lemma sample_paid_slot:
  "slot_by_id (sample_paid_db tariff) (pg_uuid (uuid_of CHR ''1'')) = Some (sample_slot\<lparr>ls_tariff_id := tariff\<rparr>)"
  "slot_by_id (sample_paid_db tariff) (uuid_of CHR ''7'') = None"
  "consumption_of_slot (sample_paid_db tariff) (uuid_of CHR ''7'') = None"
  "held_unit (sample_paid_db tariff) (uuid_of CHR ''1'') = Some (uuid_of CHR ''9'')"
  by (simp_all add: slot_by_id_def find_by_def sample_paid_db_def sample_slot_def consumption_of_slot_def
      held_unit_def unit_row_def unit_active_def lower_hex_def)

lemma sample_move_row:
  "slot_check (snapshot_on_book (sample_paid_db tariff) (rescheduled_row sample_clock (uuid_of CHR ''7'')
     (uuid_of CHR ''a'') (uuid_of CHR ''b'') 1767600000000 60 tariff ev))"
proof -
  have "snapshot_value (sample_paid_db tariff) (rescheduled_row sample_clock (uuid_of CHR ''7'')
     (uuid_of CHR ''a'') (uuid_of CHR ''b'') 1767600000000 60 tariff ev) = None"
    by (simp add: snapshot_value_def rescheduled_row_def blank_slot_def tariff_by_id_def find_by_def
        sample_paid_db_def sample_db_def empty_db_def split: option.split)
  then show ?thesis
    by (simp add: slot_check_defs snapshot_on_book_def rescheduled_row_def blank_slot_def msk_defs time_defs)
qed

lemma sample_in_band: "\<not> mskHourOutOfBand 1767600000000"
  by (simp add: mskHourOutOfBand_def computeMskMinutes_def MSK_BUSINESS_HOUR_MIN_def MSK_BUSINESS_HOUR_MAX_def
      time_defs)

lemma sample_moves:
  "\<exists>old new d'. rescheduleSlotByTeacher sample_clock (uuid_of CHR ''7'') (uuid_of CHR ''1'') (uuid_of CHR ''a'')
     (Some 1767600000000) (Some [49, 50, 51, 52, 53]) (sample_paid_db tariff) = Inr (Inr (old, new), d')"
  "\<exists>old new d'. rescheduleSlotByLearner (Some ''2'') sample_clock (uuid_of CHR ''7'') (uuid_of CHR ''1'')
     (uuid_of CHR ''b'') (Some 1767600000000) (sample_paid_db tariff) = Inr (Inr (old, new), d')"
proof -
  let ?d = "sample_paid_db tariff"
  let ?r = "sample_slot\<lparr>ls_tariff_id := tariff\<rparr>"
  have r: "ls_status ?r = Booked" "ls_learner_account_id ?r = Some (uuid_of CHR ''b'')"
    "ls_teacher_account_id ?r = uuid_of CHR ''a''" "ls_duration_minutes ?r = 60" "ls_tariff_id ?r = tariff"
    "teacher_may_move (uuid_of CHR ''a'') ?r" "learner_may_move (Some ''2'') sample_clock (uuid_of CHR ''b'') ?r"
    by (simp_all add: sample_slot_def teacher_may_move_def learner_may_move_def sample_clock_def time_defs
        getLearnerCancelWindowHours_def integer_pattern_def digits_value_def is_digit_def MIN_LEARNER_CANCEL_WINDOW_HOURS_def
        MAX_LEARNER_CANCEL_WINDOW_HOURS_def)
  have "\<not> busy_overlap sample_clock (uuid_of CHR ''a'') (1767600000000 * us_per_ms) 60 ?d"
    by (simp add: busy_overlap_def sample_paid_db_def sample_db_def empty_db_def)
  moreover have "\<forall>x \<in> set (lesson_slots ?d). ls_id x \<noteq> pg_uuid (uuid_of CHR ''1'') \<longrightarrow> \<not> same_lane x y" for y
    by (simp add: sample_paid_db_def sample_slot_def lower_hex_def)
  ultimately have go: "\<exists>old d1 new d'. cancel_and_restore sample_clock (pg_uuid (uuid_of CHR ''1'')) P
        (cancelled_row sample_clock t a reason ev) actor why ?d = Inr (Some old, d1)
      \<and> ls_teacher_account_id old = uuid_of CHR ''a'' \<and> ls_learner_account_id old = Some (uuid_of CHR ''b'')
      \<and> create_rescheduled sample_clock (uuid_of CHR ''7'') (uuid_of CHR ''a'') (Some (uuid_of CHR ''b''))
          1767600000000 ev' actor' old ?d d1 = Inr (Inr (old, new), d')"
    if "P ?r" for P t a reason ev actor why ev' actor'
    using move_succeeds [OF sample_paid_db_inv [of tariff] sample_paid_slot(1) [of tariff], of P "uuid_of CHR ''b''" _ sample_clock
        "uuid_of CHR ''7''" 1767600000000 ev' t a reason ev actor why actor'] that sample_move_row sample_paid_slot(2) r
    by simp
  have past: "js_now sample_clock < 1767600000000" by (simp add: sample_clock_def)
  have trim: "js_trim [49, 50, 51, 52, 53] = [49, 50, 51, 52, 53]" by (simp add: js_trim_def js_space_def)
  show "\<exists>old new d'. rescheduleSlotByTeacher sample_clock (uuid_of CHR ''7'') (uuid_of CHR ''1'') (uuid_of CHR ''a'')
     (Some 1767600000000) (Some [49, 50, 51, 52, 53]) ?d = Inr (Inr (old, new), d')"
  proof -
    let ?ev = "\<lambda>xs. appendEventSql sample_clock ''slot.reschedule_created'' (Some ''teacher'') (Some xs)"
    obtain old d1 new d' where
      "cancel_by_teacher sample_clock (pg_uuid (uuid_of CHR ''1'')) (uuid_of CHR ''a'') 1767600000000
         [49, 50, 51, 52, 53] ?d = Inr (Some old, d1)"
      "ls_learner_account_id old = Some (uuid_of CHR ''b'')"
      "create_rescheduled sample_clock (uuid_of CHR ''7'') (uuid_of CHR ''a'') (Some (uuid_of CHR ''b''))
         1767600000000 (?ev [(''previousSlotId'', VStr (uuid_of CHR ''1'')), (''reason'', VText [49, 50, 51, 52, 53])])
         ActorTeacher old ?d d1 = Inr (Inr (old, new), d')"
      using go [of "teacher_may_move (uuid_of CHR ''a'')", OF r(6)] unfolding cancel_by_teacher_def by blast
    then show ?thesis
      using past sample_in_band by (simp add: rescheduleSlotByTeacher_def Let_def trim)
  qed
  show "\<exists>old new d'. rescheduleSlotByLearner (Some ''2'') sample_clock (uuid_of CHR ''7'') (uuid_of CHR ''1'')
     (uuid_of CHR ''b'') (Some 1767600000000) ?d = Inr (Inr (old, new), d')"
  proof -
    let ?ev = "\<lambda>xs. appendEventSql sample_clock ''slot.reschedule_created'' (Some ''learner'') (Some xs)"
    obtain old d1 new d' where
      "cancel_by_learner (Some ''2'') sample_clock (pg_uuid (uuid_of CHR ''1'')) (uuid_of CHR ''b'') 1767600000000
         ?d = Inr (Some old, d1)"
      "ls_teacher_account_id old = uuid_of CHR ''a''"
      "create_rescheduled sample_clock (uuid_of CHR ''7'') (uuid_of CHR ''a'') (Some (uuid_of CHR ''b''))
         1767600000000 (?ev [(''previousSlotId'', VStr (uuid_of CHR ''1''))])
         ActorLearner old ?d d1 = Inr (Inr (old, new), d')"
      using go [of "learner_may_move (Some ''2'') sample_clock (uuid_of CHR ''b'')", OF r(7)] unfolding cancel_by_learner_def by blast
    then show ?thesis
      using past sample_in_band by (simp add: rescheduleSlotByLearner_def Let_def)
  qed
qed

theorem rescheduleSlotByLearner_effect_witness:
  "\<exists>old new d'. rescheduleSlotByLearner (Some ''2'') sample_clock (uuid_of CHR ''7'') (uuid_of CHR ''1'')
     (uuid_of CHR ''b'') (Some 1767600000000) (sample_paid_db (Some (uuid_of CHR ''e'')))
       = Inr (Inr (old, new), d') \<and> held_unit d' (uuid_of CHR ''7'') \<noteq> None"
proof -
  let ?d = "sample_paid_db (Some (uuid_of CHR ''e''))"
  obtain old new d' where run: "rescheduleSlotByLearner (Some ''2'') sample_clock (uuid_of CHR ''7'') (uuid_of CHR ''1'')
     (uuid_of CHR ''b'') (Some 1767600000000) ?d = Inr (Inr (old, new), d')"
    using sample_moves(2) by blast
  obtain r where m: "lesson_moved (pg_uuid (uuid_of CHR ''1'')) (uuid_of CHR ''7'') (1767600000000 * us_per_ms) r old new ?d d'"
    "unit_moved sample_clock (pg_uuid (uuid_of CHR ''1'')) (uuid_of CHR ''7'') r ?d d'"
    using rescheduleSlotByLearner_effect [OF sample_paid_db_inv sample_paid_slot(3) run] by auto
  have "purchase_live sample_clock ?d (uuid_of CHR ''9'')"
    by (simp add: purchase_live_def purchase_by_id_def find_by_def sample_paid_db_def sample_db_def
        sample_purchase_def sample_clock_def)
  moreover have "r = sample_slot\<lparr>ls_tariff_id := Some (uuid_of CHR ''e'')\<rparr>"
    using m(1) sample_paid_slot(1) [of "Some (uuid_of CHR ''e'')"] by (simp add: lesson_moved_def)
  ultimately have "held_unit d' (uuid_of CHR ''7'') \<noteq> None"
    using m(2) sample_paid_slot(4) by (simp add: unit_moved_def lower_hex_def)
  with run show ?thesis by blast
qed

theorem rescheduleSlotByTeacher_effect_witness:
  "\<exists>old new d'. rescheduleSlotByTeacher sample_clock (uuid_of CHR ''7'') (uuid_of CHR ''1'') (uuid_of CHR ''a'')
     (Some 1767600000000) (Some [49, 50, 51, 52, 53]) (sample_paid_db None) = Inr (Inr (old, new), d')
     \<and> slot_by_id d' (uuid_of CHR ''7'') = Some new"
proof -
  obtain old new d' where run: "rescheduleSlotByTeacher sample_clock (uuid_of CHR ''7'') (uuid_of CHR ''1'')
      (uuid_of CHR ''a'') (Some 1767600000000) (Some [49, 50, 51, 52, 53]) (sample_paid_db None) = Inr (Inr (old, new), d')"
    using sample_moves(1) by blast
  with rescheduleSlotByTeacher_effect [OF sample_paid_db_inv sample_paid_slot(3) run]
  show ?thesis by (auto simp: lesson_moved_def)
qed

theorem reschedule_untariffed_loses_unit_witness:
  "\<exists>old new d'. rescheduleSlotByTeacher sample_clock (uuid_of CHR ''7'') (uuid_of CHR ''1'') (uuid_of CHR ''a'')
     (Some 1767600000000) (Some [49, 50, 51, 52, 53]) (sample_paid_db None) = Inr (Inr (old, new), d')
     \<and> held_unit d' (uuid_of CHR ''7'') = None"
proof -
  obtain old new d' where run: "rescheduleSlotByTeacher sample_clock (uuid_of CHR ''7'') (uuid_of CHR ''1'')
      (uuid_of CHR ''a'') (Some 1767600000000) (Some [49, 50, 51, 52, 53]) (sample_paid_db None) = Inr (Inr (old, new), d')"
    using sample_moves(1) by blast
  have "held_unit (sample_paid_db None) (pg_uuid (uuid_of CHR ''1'')) = Some (uuid_of CHR ''9'')"
    using sample_paid_slot(4) by (simp add: lower_hex_def)
  with reschedule_untariffed_loses_unit [OF sample_paid_db_inv sample_paid_slot(3) sample_paid_slot(1) _ _ run]
  have "held_unit d' (uuid_of CHR ''7'') = None" by simp
  with run show ?thesis by blast
qed

end
