(* ===== verification/Steps.thy ===== *)
theory Steps
  imports Main
begin

text \<open>
  The interface of a component that moves in steps: a predicate every step keeps holds along every
  run, and from every start that has it. The components with a step relation interpret it.
\<close>

locale kept_by_steps =
  fixes step :: "'s \<Rightarrow> 's \<Rightarrow> bool" and good :: "'s \<Rightarrow> bool"
  assumes step_good: "good s \<Longrightarrow> step s s' \<Longrightarrow> good s'"
begin

lemma run_good: "step\<^sup>*\<^sup>* s s' \<Longrightarrow> good s \<Longrightarrow> good s'"
  by (induction rule: rtranclp_induct) (blast intro: step_good)+

end

locale started_system = kept_by_steps step good for step :: "'s \<Rightarrow> 's \<Rightarrow> bool" and good +
  fixes start :: "'s \<Rightarrow> bool"
  assumes start_good: "start s \<Longrightarrow> good s"
begin

lemma reachable_good: "start s \<Longrightarrow> step\<^sup>*\<^sup>* s s' \<Longrightarrow> good s'"
  using run_good start_good by blast

end

end
