(* ===== verification/System.thy ===== *)
theory System
  imports Reschedule Steps
begin

text \<open>
  The operations as one system over the database: \<open>db_step\<close> has a rule per operation of
  \<open>src/lib/scheduling\<close>, \<open>src/lib/billing\<close> and \<open>src/lib/teacher-ledger\<close> that writes, each call that
  answers being a step. A last rule is everything else the program does: it may change any table
  but the five the ledgers live in. A call that throws leaves the database as it was and is no
  step. The locale of systems with an invariant is interpreted on these steps.
\<close>

section \<open>The steps of the program\<close>

inductive db_step :: "db \<Rightarrow> db \<Rightarrow> bool" where
  step_createSlot: "createSlot c i input d = Inr (r, d') \<Longrightarrow> db_step d d'"
| step_bulkCreateSlots: "bulkCreateSlots c ids input d = Inr (r, d') \<Longrightarrow> db_step d d'"
| step_editOpenSlot: "editOpenSlot c slotId patch d = Inr (r, d') \<Longrightarrow> db_step d d'"
| step_moveOpenSlot: "moveOpenSlot c slotId start a d = Inr (r, d') \<Longrightarrow> db_step d d'"
| step_moveOpenSlotByTeacher: "moveOpenSlotByTeacher c slotId start t d = Inr (r, d') \<Longrightarrow> db_step d d'"
| step_deleteOpenSlot: "deleteOpenSlot slotId d = Inr (r, d') \<Longrightarrow> db_step d d'"
| step_setSlotZoomUrl: "setSlotZoomUrl c slotId url a kind d = Inr (r, d') \<Longrightarrow> db_step d d'"
| step_bookSlot: "bookSlot billing c slotId learner actor options d = Inr (r, d') \<Longrightarrow> db_step d d'"
| step_assignSlotDirect: "assignSlotDirect c i ai d = Inr (r, d') \<Longrightarrow>
    pg_uuid (as_teacherAccountId ai) = as_teacherAccountId ai \<Longrightarrow> db_step d d'"
| step_cancelSlot: "cancelSlot c pre slotId a reason actor d = Inr (r, d') \<Longrightarrow> db_step d d'"
| step_cancelLearnerSlot: "cancelLearnerSlot env c slotId learner reason d = Inr (r, d') \<Longrightarrow> db_step d d'"
| step_cancelSlotByTeacher: "cancelSlotByTeacher c slotId teacher reason d = Inr (r, d') \<Longrightarrow> db_step d d'"
| step_rescheduleSlotByLearner:
    "rescheduleSlotByLearner env c i slotId learner start d = Inr (r, d') \<Longrightarrow> db_step d d'"
| step_rescheduleSlotByTeacher:
    "rescheduleSlotByTeacher c i slotId teacher start reason d = Inr (r, d') \<Longrightarrow> db_step d d'"
| step_markSlotLifecycle: "markSlotLifecycle c i slotId status actor d = Inr (r, d') \<Longrightarrow> db_step d d'"
| step_markSlotByTeacher: "markSlotByTeacher c i slotId t status d = Inr (r, d') \<Longrightarrow> db_step d d'"
| step_markLessonCompleted: "markLessonCompleted c i params d = Inr (r, d') \<Longrightarrow> db_step d d'"
| step_settleLessons: "settleLessons i sparams k d = Inr (r, d') \<Longrightarrow> db_step d d'"
| step_changeLessonStatus: "changeLessonStatus c i a linput pre d = Inr (r, d') \<Longrightarrow> teacher_stable pre d
    \<Longrightarrow> db_step d d'"
| step_changeDealStatus: "changeDealStatus c a dinput d = Inr (r, d') \<Longrightarrow> db_step d d'"
| step_createPersonalEvent: "createPersonalEvent c i t pinput d = Inr (r, d') \<Longrightarrow> db_step d d'"
| step_completePersonalEvent: "completePersonalEvent c slotId t d = Inr (r, d') \<Longrightarrow> db_step d d'"
| step_cancelPersonalEvent: "cancelPersonalEventByTeacher c slotId t reason d = Inr (r, d') \<Longrightarrow> db_step d d'"
| step_createPackagePurchase: "createPackagePurchase c i pinput' d = Inr (r, d') \<Longrightarrow> db_step d d'"
| step_voidPurchase: "restoreAllConsumptionsForPurchase c p actor' reason' d = (r, d') \<Longrightarrow> db_step d d'"
| step_restorePackageConsumption: "restorePackageConsumption c slotId actor' reason' d = (r, d') \<Longrightarrow> db_step d d'"
| step_elsewhere: "lesson_slots d' = lesson_slots d \<Longrightarrow> lesson_completions d' = lesson_completions d
    \<Longrightarrow> package_purchases d' = package_purchases d \<Longrightarrow> package_consumptions d' = package_consumptions d
    \<Longrightarrow> lesson_settlement_completions d' = lesson_settlement_completions d \<Longrightarrow> db_step d d'"

text \<open>A database before the first lesson and the first purchase.\<close>

definition start_db :: "db \<Rightarrow> bool" where
  "start_db d \<longleftrightarrow> lesson_slots d = [] \<and> lesson_completions d = [] \<and> package_purchases d = []
     \<and> package_consumptions d = [] \<and> lesson_settlement_completions d = []"

lemmas operation_inv =
  createSlot_inv bulkCreateSlots_inv editOpenSlot_inv moveOpenSlot_inv moveOpenSlotByTeacher_inv
  deleteOpenSlot_inv setSlotZoomUrl_inv bookSlot_inv assignSlotDirect_inv cancelSlot_inv
  cancelLearnerSlot_inv cancelSlotByTeacher_inv rescheduleSlotByLearner_inv rescheduleSlotByTeacher_inv
  markSlotLifecycle_inv markSlotByTeacher_inv markLessonCompleted_inv settleLessons_inv
  changeLessonStatus_inv changeDealStatus_inv createPersonalEvent_inv createPackagePurchase_inv
  restoreAllConsumptionsForPurchase_inv restorePackageConsumption_inv

lemma personal_event_end_inv:
  assumes "ledger_inv d"
  shows "completePersonalEvent c slotId t d = Inr (r, d') \<Longrightarrow> ledger_inv d'"
    and "cancelPersonalEventByTeacher c slotId t reason d = Inr (r, d') \<Longrightarrow> ledger_inv d'"
  unfolding completePersonalEvent_def cancelPersonalEventByTeacher_def
  by (rule transitionPersonalEvent_inv [OF assms], assumption)+

interpretation ledger: started_system db_step ledger_inv start_db
proof unfold_locales
  show "ledger_inv d'" if "ledger_inv d" and "db_step d d'" for d d'
    using that(2)
  proof cases
    case step_elsewhere
    then show ?thesis using that(1) ledger_inv_cong [of d' d] by simp
  qed ((erule operation_inv [OF that(1)] personal_event_end_inv [OF that(1)]; assumption?)+)
  show "ledger_inv d" if "start_db d" for d
  proof -
    have "ledger_inv d = ledger_inv empty_db"
      by (rule ledger_inv_cong) (use that in \<open>simp_all add: start_db_def empty_db_def\<close>)
    then show ?thesis using ledger_inv_empty_db by simp
  qed
qed

end
