(* ===== verification/Sbp_Methods.thy ===== *)
theory Sbp_Methods
  imports Consumption Steps
begin

text \<open>
  Direct payments to a teacher, first part: the tables of \<open>src/migrations/0110\<close> to \<open>0113\<close>, the
  phone numbers of \<open>src/lib/util/phone.ts\<close> and the teacher's payment details of
  \<open>src/lib/payments/sbp-methods.ts\<close>. The state is a record of its own: these operations read the
  lessons and packages and never write them. Account ids are the ones of a session, as the
  database prints them; the id of a payment method comes from the request and goes to the
  database unchecked.
\<close>

section \<open>The tables\<close>

datatype claim_status = Claimed | Confirmed | Declined | ClaimCancelled

datatype pay_channel = ChannelSbp | ChannelOther

datatype initiator = ByLearner | ByTeacher

record claim_row =
  cm_id :: uuid
  cm_learner_account_id :: "uuid option"
  cm_learner_name :: js_text
  cm_teacher_account_id :: "uuid option"
  cm_teacher_name :: js_text
  cm_amount_kopecks :: int
  cm_payment_method_id :: "uuid option"
  cm_method_phone :: "js_text option"
  cm_method_bank :: "js_text option"
  cm_payment_channel :: pay_channel
  cm_initiated_by :: initiator
  cm_status :: claim_status
  cm_amount_mismatch_kopecks :: int
  cm_note_learner :: "js_text option"
  cm_note_teacher :: "js_text option"
  cm_claimed_at :: micros
  cm_paid_at :: "micros option"
  cm_resolved_at :: "micros option"

record claim_item_row =
  it_id :: uuid
  it_claim_id :: uuid
  it_slot_id :: "uuid option"
  it_package_purchase_id :: "uuid option"
  it_expected_amount_kopecks :: int
  it_label :: js_text

datatype refund_reason = RfSlotCancelled | RfOverpaid | RfGoodwill | RfDuplicate | RfOther

record refund_row =
  rf_id :: uuid
  rf_claim_id :: uuid
  rf_amount_kopecks :: int
  rf_reason :: refund_reason
  rf_note :: "js_text option"
  rf_refunded_at :: micros

record method_row =
  pm_id :: uuid
  pm_teacher_account_id :: uuid
  pm_phone_e164 :: js_text
  pm_phone_display :: js_text
  pm_bank_label :: js_text
  pm_is_default :: bool
  pm_created_at :: micros
  pm_archived_at :: "micros option"

record assignment_row =
  ma_teacher_account_id :: uuid
  ma_learner_account_id :: uuid
  ma_payment_method_id :: uuid

text \<open>An account with its profile, and the columns of \<open>accounts\<close> that hold a teacher's policy.\<close>

record person_row =
  pr_account_id :: uuid
  pr_email :: js_text
  pr_display_name :: "js_text option"
  pr_first_name :: "js_text option"
  pr_last_name :: "js_text option"
  pr_charge_on_no_show :: bool
  pr_charge_on_late_cancel :: bool

record sbp_db =
  payment_claims :: "claim_row list"
  payment_claim_items :: "claim_item_row list"
  payment_refunds :: "refund_row list"
  teacher_payment_methods :: "method_row list"
  teacher_payment_method_assignments :: "assignment_row list"
  people :: "person_row list"

type_synonym 'a sbp_outcome = "exn + ('a \<times> sbp_db)"

section \<open>Phone numbers\<close>

definition is_digit_code :: "nat \<Rightarrow> bool" where
  "is_digit_code u \<longleftrightarrow> 48 \<le> u \<and> u \<le> 57"

definition RU_PHONE_RE :: "js_text \<Rightarrow> bool" where
  "RU_PHONE_RE t \<longleftrightarrow> take 2 t = js ''+7'' \<and> length t = 12 \<and> list_all is_digit_code (drop 2 t)"

definition normalizePhoneRu :: "js_text \<Rightarrow> js_text option" where
  "normalizePhoneRu input =
     (let digits = filter is_digit_code input;
          body = (if length digits = 11 \<and> (hd digits = 55 \<or> hd digits = 56) then Some (tl digits)
                  else if length digits = 10 then Some digits else None)
      in if digits = [] then None
         else case body of
           None \<Rightarrow> None
         | Some b \<Rightarrow>
             if length b \<noteq> 10 then None
             else let result = js ''+7'' @ b in if RU_PHONE_RE result then Some result else None)"

definition formatPhoneRu :: "js_text \<Rightarrow> js_text" where
  "formatPhoneRu e164 =
     (if \<not> RU_PHONE_RE e164 then e164
      else let m = drop 2 e164 in
        js ''+7 ('' @ take 3 m @ js '') '' @ take 3 (drop 3 m) @ js ''-'' @ take 2 (drop 6 m)
          @ js ''-'' @ drop 8 m)"

definition isValidPhoneRu :: "js_text \<Rightarrow> bool" where
  "isValidPhoneRu e164 = RU_PHONE_RE e164"

section \<open>Payment details of a teacher\<close>

definition MAX_ACTIVE_METHODS_PER_TEACHER :: nat where "MAX_ACTIVE_METHODS_PER_TEACHER = 10"

definition active_methods :: "uuid \<Rightarrow> sbp_db \<Rightarrow> method_row list" where
  "active_methods teacher s =
     filter (\<lambda>m. pm_teacher_account_id m = teacher \<and> pm_archived_at m = None) (teacher_payment_methods s)"

definition listActivePaymentMethods :: "uuid \<Rightarrow> sbp_db \<Rightarrow> method_row list" where
  "listActivePaymentMethods teacher s =
     order_by (\<lambda>x y. pm_is_default x \<and> \<not> pm_is_default y
                     \<or> (pm_is_default x \<longleftrightarrow> pm_is_default y) \<and> pm_created_at x < pm_created_at y)
       (active_methods teacher s)"

definition countActivePaymentMethods :: "uuid \<Rightarrow> sbp_db \<Rightarrow> nat" where
  "countActivePaymentMethods teacher s = length (active_methods teacher s)"

text \<open>The constraints of the table, and an update or insert of one row under them.\<close>

definition method_check :: "method_row \<Rightarrow> bool" where
  "method_check m \<longleftrightarrow> RU_PHONE_RE (pm_phone_e164 m) \<and> sql_btrim (pm_bank_label m) \<noteq> []"

definition methods_clash :: "method_row \<Rightarrow> method_row \<Rightarrow> bool" where
  "methods_clash x m \<longleftrightarrow>
     pm_teacher_account_id x = pm_teacher_account_id m \<and> pm_archived_at x = None \<and> pm_archived_at m = None
     \<and> (pm_phone_e164 x = pm_phone_e164 m \<and> pm_bank_label x = pm_bank_label m
        \<or> pm_is_default x \<and> pm_is_default m)"

definition method_conflict :: "method_row \<Rightarrow> sbp_db \<Rightarrow> bool" where
  "method_conflict m s \<longleftrightarrow> list_ex (\<lambda>x. pm_id x \<noteq> pm_id m \<and> methods_clash x m) (teacher_payment_methods s)"

definition pg_update_method :: "method_row \<Rightarrow> sbp_db \<Rightarrow> method_row sbp_outcome" where
  "pg_update_method m s =
     (if \<not> method_check m then Inl (PgErr CheckViolation)
      else if method_conflict m s then Inl (PgErr UniqueViolation)
      else Inr (m, s\<lparr>teacher_payment_methods := replace_row pm_id m (teacher_payment_methods s)\<rparr>))"

definition pg_insert_method :: "method_row \<Rightarrow> sbp_db \<Rightarrow> method_row sbp_outcome" where
  "pg_insert_method m s =
     (if \<not> method_check m then Inl (PgErr CheckViolation)
      else if find_by pm_id (pm_id m) (teacher_payment_methods s) \<noteq> None \<or> method_conflict m s
      then Inl (PgErr UniqueViolation)
      else Inr (m, s\<lparr>teacher_payment_methods := teacher_payment_methods s @ [m]\<rparr>))"

definition method_by_id :: "uuid \<Rightarrow> sbp_db \<Rightarrow> method_row option" where
  "method_by_id i s = find_by pm_id i (teacher_payment_methods s)"

text \<open>\<open>update \<dots> set is_default = false\<close> on the active default of a teacher, one row spared.\<close>

definition clear_default :: "uuid \<Rightarrow> uuid option \<Rightarrow> sbp_db \<Rightarrow> sbp_db" where
  "clear_default teacher spared s =
     s\<lparr>teacher_payment_methods :=
         map (\<lambda>m. if pm_teacher_account_id m = teacher \<and> pm_is_default m \<and> pm_archived_at m = None
                     \<and> Some (pm_id m) \<noteq> spared
                  then m\<lparr>pm_is_default := False\<rparr> else m) (teacher_payment_methods s)\<rparr>"

record create_method_input =
  cmi_teacherAccountId :: uuid
  cmi_phoneRaw :: js_text
  cmi_bankLabel :: js_text
  cmi_isDefault :: "bool option"

datatype method_refusal = MtInvalidPhone | MtInvalidBank | MtLimitReached | MtNotFound

definition valid_bank :: "js_text \<Rightarrow> bool" where
  "valid_bank b \<longleftrightarrow> length b \<noteq> 0 \<and> \<not> length b > 80"

definition createPaymentMethod ::
  "clock \<Rightarrow> uuid \<Rightarrow> create_method_input \<Rightarrow> sbp_db \<Rightarrow> (method_refusal + method_row \<times> bool) sbp_outcome" where
  "createPaymentMethod c newId input s =
     (case normalizePhoneRu (cmi_phoneRaw input) of
        None \<Rightarrow> Inr (Inl MtInvalidPhone, s)
      | Some phone \<Rightarrow>
          let teacher = cmi_teacherAccountId input; bank = js_trim (cmi_bankLabel input) in
          if \<not> valid_bank bank then Inr (Inl MtInvalidBank, s)
          else
            let active = countActivePaymentMethods teacher s;
                shouldBeDefault = (cmi_isDefault input = Some True \<or> active = 0);
                cleared = (if shouldBeDefault then clear_default teacher None s else s)
            in case find (\<lambda>m. pm_teacher_account_id m = teacher \<and> pm_phone_e164 m = phone
                              \<and> pm_bank_label m = bank) (teacher_payment_methods s) of
                 Some row \<Rightarrow>
                   if pm_archived_at row = None then Inr (Inr (row, True), s)
                   else bindR (pg_update_method
                                 (row\<lparr>pm_archived_at := None, pm_phone_display := formatPhoneRu phone,
                                      pm_is_default := shouldBeDefault\<rparr>) cleared)
                          (\<lambda>(m, s1). Inr (Inr (m, True), s1))
               | None \<Rightarrow>
                   if active \<ge> MAX_ACTIVE_METHODS_PER_TEACHER then Inr (Inl MtLimitReached, s)
                   else bindR (pg_insert_method
                                 \<lparr>pm_id = newId, pm_teacher_account_id = teacher, pm_phone_e164 = phone,
                                  pm_phone_display = formatPhoneRu phone, pm_bank_label = bank,
                                  pm_is_default = shouldBeDefault, pm_created_at = pg_now c,
                                  pm_archived_at = None\<rparr> cleared)
                          (\<lambda>(m, s1). Inr (Inr (m, False), s1)))"

record update_method_input =
  um_teacherAccountId :: uuid
  um_methodId :: string
  um_phoneRaw :: "js_text option"
  um_bankLabel :: "js_text option"
  um_isDefault :: "bool option"
  um_restore :: bool

text \<open>The columns the statement sets; \<open>None\<close> where there is nothing to set.\<close>

definition method_patch ::
  "update_method_input \<Rightarrow> js_text option \<Rightarrow> js_text option \<Rightarrow> method_row \<Rightarrow> method_row option" where
  "method_patch input phone bank row =
     (let restores = (um_restore input \<and> pm_archived_at row \<noteq> None) in
      if phone = None \<and> bank = None \<and> um_isDefault input = None \<and> \<not> restores then None
      else Some (row\<lparr>pm_phone_e164 := coalesce phone (pm_phone_e164 row),
                     pm_phone_display := coalesce (map_option formatPhoneRu phone) (pm_phone_display row),
                     pm_bank_label := coalesce bank (pm_bank_label row),
                     pm_is_default := coalesce (um_isDefault input) (pm_is_default row),
                     pm_archived_at := (if restores then None else pm_archived_at row)\<rparr>))"

definition updatePaymentMethod ::
  "update_method_input \<Rightarrow> sbp_db \<Rightarrow> (method_refusal + method_row) sbp_outcome" where
  "updatePaymentMethod input s =
     (let phone = (case um_phoneRaw input of None \<Rightarrow> None | Some t \<Rightarrow> normalizePhoneRu t);
          bank = map_option js_trim (um_bankLabel input)
      in if um_phoneRaw input \<noteq> None \<and> phone = None then Inr (Inl MtInvalidPhone, s)
         else if (case bank of None \<Rightarrow> False | Some b \<Rightarrow> \<not> valid_bank b) then Inr (Inl MtInvalidBank, s)
         else if \<not> uuid_pattern (um_methodId input) then Inl (PgErr InvalidUuidText)
         else case method_by_id (pg_uuid (um_methodId input)) s of
           None \<Rightarrow> Inr (Inl MtNotFound, s)
         | Some row \<Rightarrow>
             if pm_teacher_account_id row \<noteq> um_teacherAccountId input then Inr (Inl MtNotFound, s)
             else
               let s1 = (if um_isDefault input = Some True
                         then clear_default (um_teacherAccountId input) (Some (pm_id row)) s else s)
               in case method_patch input phone bank row of
                    None \<Rightarrow> Inr (Inr row, s1)
                  | Some row' \<Rightarrow> bindR (pg_update_method row' s1) (\<lambda>(m, s2). Inr (Inr m, s2)))"

definition archivePaymentMethod ::
  "clock \<Rightarrow> uuid \<Rightarrow> string \<Rightarrow> sbp_db \<Rightarrow> (method_refusal + unit) sbp_outcome" where
  "archivePaymentMethod c teacher methodId s =
     (if \<not> uuid_pattern methodId then Inl (PgErr InvalidUuidText)
      else case method_by_id (pg_uuid methodId) s of
        None \<Rightarrow> Inr (Inl MtNotFound, s)
      | Some row \<Rightarrow>
          if pm_teacher_account_id row \<noteq> teacher \<or> pm_archived_at row \<noteq> None then Inr (Inl MtNotFound, s)
          else
            bindR (pg_update_method (row\<lparr>pm_archived_at := Some (pg_now c), pm_is_default := False\<rparr>) s)
              (\<lambda>(_, s1).
                 if \<not> pm_is_default row then Inr (Inr (), s1)
                 else case min_by (\<lambda>x y. pm_created_at x < pm_created_at y) (active_methods teacher s1) of
                   None \<Rightarrow> Inr (Inr (), s1)
                 | Some m \<Rightarrow> bindR (pg_update_method (m\<lparr>pm_is_default := True\<rparr>) s1)
                               (\<lambda>(_, s2). Inr (Inr (), s2))))"

text \<open>What a learner is shown: the override of the pair, else the default, else nothing.\<close>

definition assigned_method :: "uuid \<Rightarrow> uuid \<Rightarrow> sbp_db \<Rightarrow> method_row option" where
  "assigned_method teacher learner s =
     (case find (\<lambda>a. ma_teacher_account_id a = teacher \<and> ma_learner_account_id a = learner
                     \<and> (case method_by_id (ma_payment_method_id a) s of
                          None \<Rightarrow> False | Some m \<Rightarrow> pm_archived_at m = None))
             (teacher_payment_method_assignments s) of
        None \<Rightarrow> None | Some a \<Rightarrow> method_by_id (ma_payment_method_id a) s)"

definition resolveMethodForLearner :: "uuid \<Rightarrow> uuid \<Rightarrow> sbp_db \<Rightarrow> method_row option" where
  "resolveMethodForLearner teacher learner s =
     (case assigned_method teacher learner s of
        Some m \<Rightarrow> Some m
      | None \<Rightarrow> find (\<lambda>m. pm_teacher_account_id m = teacher \<and> pm_is_default m \<and> pm_archived_at m = None)
                  (teacher_payment_methods s))"

section \<open>The table keeps its constraints\<close>

definition methods_ok :: "sbp_db \<Rightarrow> bool" where
  "methods_ok s \<longleftrightarrow>
     distinct (map pm_id (teacher_payment_methods s))
     \<and> (\<forall>m \<in> set (teacher_payment_methods s). method_check m)
     \<and> (\<forall>x \<in> set (teacher_payment_methods s). \<forall>y \<in> set (teacher_payment_methods s).
          pm_id x \<noteq> pm_id y \<longrightarrow> \<not> methods_clash x y)"

lemma methods_clash_sym: "methods_clash x y \<longleftrightarrow> methods_clash y x"
  by (auto simp: methods_clash_def)

lemma pg_update_method_InrE:
  assumes "pg_update_method m s = Inr (m', s')"
  obtains "m' = m" and "method_check m" and "\<not> method_conflict m s"
    and "s' = s\<lparr>teacher_payment_methods := replace_row pm_id m (teacher_payment_methods s)\<rparr>"
  using assms by (auto simp: pg_update_method_def split: if_splits)

lemma pg_update_method_ok:
  assumes "methods_ok s" and "pg_update_method m s = Inr (m', s')"
  shows "methods_ok s'"
  using assms(2)
proof (rule pg_update_method_InrE)
  assume ok: "method_check m" "\<not> method_conflict m s"
    and s': "s' = s\<lparr>teacher_payment_methods := replace_row pm_id m (teacher_payment_methods s)\<rparr>"
  have sub: "set (teacher_payment_methods s') \<subseteq> insert m {x \<in> set (teacher_payment_methods s). pm_id x \<noteq> pm_id m}"
    unfolding s' by (simp add: set_replace_row)
  have "\<not> methods_clash x m" "\<not> methods_clash m x"
    if "x \<in> set (teacher_payment_methods s)" "pm_id x \<noteq> pm_id m" for x
    using ok(2) that methods_clash_sym by (auto simp: method_conflict_def list_ex_iff)
  then show ?thesis
    using assms(1) ok(1) sub s' unfolding methods_ok_def
    by (simp add: map_key_replace_row subset_iff) (metis (no_types, lifting))
qed

lemma pg_insert_method_ok:
  assumes "methods_ok s" and "pg_insert_method m s = Inr (m', s')"
  shows "methods_ok s'"
proof -
  from assms(2) have ok: "method_check m" "\<not> method_conflict m s"
    "find_by pm_id (pm_id m) (teacher_payment_methods s) = None"
    and s': "s' = s\<lparr>teacher_payment_methods := teacher_payment_methods s @ [m]\<rparr>"
    by (auto simp: pg_insert_method_def split: if_splits)
  have "\<not> methods_clash x m" "\<not> methods_clash m x"
    if "x \<in> set (teacher_payment_methods s)" "pm_id x \<noteq> pm_id m" for x
    using ok(2) that methods_clash_sym by (auto simp: method_conflict_def list_ex_iff)
  with assms(1) ok(1,3) show ?thesis
    by (auto simp: methods_ok_def s' find_by_None_iff)
qed

lemma methods_ok_map:
  assumes ok: "methods_ok s" and f: "\<And>m. pm_id (f m) = pm_id m" "\<And>m. method_check (f m) = method_check m"
    "\<And>x y. methods_clash (f x) (f y) \<Longrightarrow> methods_clash x y"
  shows "methods_ok (s\<lparr>teacher_payment_methods := map f (teacher_payment_methods s)\<rparr>)"
proof -
  have "map pm_id (map f xs) = map pm_id xs" for xs by (induction xs) (simp_all add: f(1))
  with ok f(1,2) show ?thesis by (auto simp: methods_ok_def simp del: map_map dest: f(3))
qed

lemma clear_default_ok: "methods_ok s \<Longrightarrow> methods_ok (clear_default t spared s)"
  unfolding clear_default_def
  by (rule methods_ok_map) (auto simp: method_check_def methods_clash_def split: if_splits)

lemma createPaymentMethod_ok:
  assumes "methods_ok s" and "createPaymentMethod c i input s = Inr (r, s')"
  shows "methods_ok s'"
proof -
  have cleared: "methods_ok (if b then clear_default t x s else s)" for b t x
    using assms(1) clear_default_ok by simp
  from assms show ?thesis
    by (auto simp: createPaymentMethod_def Let_def bindR_eq_Inr_iff split: option.splits if_splits
        dest: pg_update_method_ok [rotated] pg_insert_method_ok [rotated] intro: clear_default_ok)
qed

lemma updatePaymentMethod_ok:
  assumes "methods_ok s" and "updatePaymentMethod input s = Inr (r, s')"
  shows "methods_ok s'"
  using assms
  by (auto simp: updatePaymentMethod_def Let_def bindR_eq_Inr_iff split: option.splits if_splits
      dest: pg_update_method_ok [rotated] intro: clear_default_ok)

lemma archivePaymentMethod_cases:
  assumes "archivePaymentMethod c t i s = Inr (res, s')"
  obtains e where "res = Inl e" and "s' = s"
  | row s1 where "method_by_id (pg_uuid i) s = Some row" "pm_teacher_account_id row = t" "pm_archived_at row = None"
      and "pg_update_method (row\<lparr>pm_archived_at := Some (pg_now c), pm_is_default := False\<rparr>) s
             = Inr (row\<lparr>pm_archived_at := Some (pg_now c), pm_is_default := False\<rparr>, s1)"
      and "s' = s1" and "\<not> pm_is_default row \<or> active_methods t s1 = []" and "res = Inr ()"
  | row s1 m where "method_by_id (pg_uuid i) s = Some row" "pm_teacher_account_id row = t" "pm_archived_at row = None"
      and "pg_update_method (row\<lparr>pm_archived_at := Some (pg_now c), pm_is_default := False\<rparr>) s
             = Inr (row\<lparr>pm_archived_at := Some (pg_now c), pm_is_default := False\<rparr>, s1)"
      and "pm_is_default row" and "min_by (\<lambda>x y. pm_created_at x < pm_created_at y) (active_methods t s1) = Some m"
      and "pg_update_method (m\<lparr>pm_is_default := True\<rparr>) s1 = Inr (m\<lparr>pm_is_default := True\<rparr>, s')" and "res = Inr ()"
proof (cases "\<exists>e. res = Inl e")
  case True
  with assms have "s' = s"
    by (auto simp: archivePaymentMethod_def bindR_eq_Inr_iff simp del: min_by_None_iff split: option.splits if_splits)
  with True that(1) show ?thesis by blast
next
  case False
  from assms False obtain row where row: "method_by_id (pg_uuid i) s = Some row"
    "pm_teacher_account_id row = t" "pm_archived_at row = None"
    by (auto simp: archivePaymentMethod_def split: option.splits if_splits)
  with assms obtain m1 s1 where u: "pg_update_method (row\<lparr>pm_archived_at := Some (pg_now c), pm_is_default := False\<rparr>) s
      = Inr (m1, s1)"
    by (auto simp: archivePaymentMethod_def bindR_eq_Inr_iff split: if_splits)
  have m1: "m1 = row\<lparr>pm_archived_at := Some (pg_now c), pm_is_default := False\<rparr>"
    using u by (auto elim!: pg_update_method_InrE)
  have rest: "(if \<not> pm_is_default row then Inr (Inr (), s1)
      else case min_by (\<lambda>x y. pm_created_at x < pm_created_at y) (active_methods t s1) of
        None \<Rightarrow> Inr (Inr (), s1)
      | Some m \<Rightarrow> bindR (pg_update_method (m\<lparr>pm_is_default := True\<rparr>) s1) (\<lambda>(_, s2). Inr (Inr (), s2)))
    = (Inr (res, s') :: exn + _)"
    using assms row u by (simp add: archivePaymentMethod_def split: if_splits)
  show ?thesis
  proof (cases "pm_is_default row \<and> active_methods t s1 \<noteq> []")
    case True
    then obtain m where m: "min_by (\<lambda>x y. pm_created_at x < pm_created_at y) (active_methods t s1) = Some m"
      by (metis min_by_None_iff option.exhaust)
    with rest True obtain m2 where "pg_update_method (m\<lparr>pm_is_default := True\<rparr>) s1 = Inr (m2, s')" "res = Inr ()"
      by (auto simp: bindR_eq_Inr_iff)
    moreover from this have "m2 = m\<lparr>pm_is_default := True\<rparr>" by (auto elim!: pg_update_method_InrE)
    ultimately show ?thesis using that(3) row u m1 m True by blast
  next
    case False
    with rest have "s' = s1" "res = Inr ()" by (auto split: if_splits)
    with that(2) row u m1 False show ?thesis by blast
  qed
qed

lemma archivePaymentMethod_ok:
  assumes "methods_ok s" and "archivePaymentMethod c t i s = Inr (r, s')"
  shows "methods_ok s'"
  using assms(2)
proof (cases rule: archivePaymentMethod_cases)
  case (3 row s1 m)
  then show ?thesis using pg_update_method_ok [OF assms(1) 3(4)] pg_update_method_ok by blast
qed (use assms(1) pg_update_method_ok in blast)+

inductive method_step :: "sbp_db \<Rightarrow> sbp_db \<Rightarrow> bool" where
  "createPaymentMethod c i input s = Inr (r, s') \<Longrightarrow> method_step s s'"
| "updatePaymentMethod input' s = Inr (r', s') \<Longrightarrow> method_step s s'"
| "archivePaymentMethod c t i' s = Inr (r'', s') \<Longrightarrow> method_step s s'"

interpretation methods: started_system method_step methods_ok "\<lambda>s. teacher_payment_methods s = []"
proof unfold_locales
  show "methods_ok s'" if "methods_ok s" and "method_step s s'" for s s'
    using that(2)
    by cases (blast intro: createPaymentMethod_ok updatePaymentMethod_ok archivePaymentMethod_ok that(1))+
qed (simp add: methods_ok_def)

section \<open>Properties\<close>

lemma js_codes: "js ''+7'' = [43, 55]" "js ''+7 ('' = [43, 55, 32, 40]" "js '') '' = [41, 32]" "js ''-'' = [45]"
  by (simp_all add: js_def)

lemma phone_parts:
  fixes m :: js_text
  assumes "length m = 10"
  shows "take 3 m @ take 3 (drop 3 m) @ take 2 (drop 6 m) @ drop 8 m = m"
proof -
  have "take 2 (drop 6 m) @ drop 8 m = drop 6 m" using append_take_drop_id [of 2 "drop 6 m"] by simp
  moreover have "take 3 (drop 3 m) @ drop 6 m = drop 3 m" using append_take_drop_id [of 3 "drop 3 m"] by simp
  ultimately show ?thesis by simp
qed

lemma normalizePhoneRu_of_digits:
  assumes "filter is_digit_code t = 55 # b" and "length b = 10" and "list_all is_digit_code b"
  shows "normalizePhoneRu t = Some (js ''+7'' @ b)"
  using assms by (simp add: normalizePhoneRu_def Let_def RU_PHONE_RE_def js_codes)

text \<open>
  A phone number that is accepted is stored in the one format the database accepts, and both
  its stored and its displayed form are read back as the same number.
\<close>

theorem phone_round_trip:
  assumes "normalizePhoneRu raw = Some p"
  shows "isValidPhoneRu p \<and> normalizePhoneRu p = Some p \<and> normalizePhoneRu (formatPhoneRu p) = Some p"
proof -
  have re: "RU_PHONE_RE p"
    using assms by (auto simp: normalizePhoneRu_def Let_def split: if_splits)
  define b where "b = drop 2 p"
  have b: "length b = 10" "list_all is_digit_code b" "p = js ''+7'' @ b"
    using re append_take_drop_id [of 2 p] by (auto simp: RU_PHONE_RE_def b_def)
  have all: "filter is_digit_code b = b"
    using b(2) by (simp add: list_all_iff)
  have signs: "\<not> is_digit_code 43" "is_digit_code 55" "\<not> is_digit_code 32" "\<not> is_digit_code 40"
    "\<not> is_digit_code 41" "\<not> is_digit_code 45"
    by (simp_all add: is_digit_code_def)
  have "filter is_digit_code p = 55 # b" unfolding b(3) by (simp add: js_codes signs all)
  moreover have "filter is_digit_code (formatPhoneRu p)
      = 55 # filter is_digit_code (take 3 b @ take 3 (drop 3 b) @ take 2 (drop 6 b) @ drop 8 b)"
    using re by (simp add: formatPhoneRu_def Let_def js_codes signs b_def add.commute)
  then have "filter is_digit_code (formatPhoneRu p) = 55 # b" unfolding phone_parts [OF b(1)] all .
  ultimately show ?thesis
    using normalizePhoneRu_of_digits b re by (simp add: isValidPhoneRu_def)
qed

theorem phone_round_trip_witness:
  "normalizePhoneRu (js ''8 912 345-67-89'') = Some (js ''+79123456789'')
   \<and> normalizePhoneRu (formatPhoneRu (js ''+79123456789'')) = Some (js ''+79123456789'')"
proof -
  have "normalizePhoneRu (js ''8 912 345-67-89'') = Some (js ''+79123456789'')"
    by (simp add: normalizePhoneRu_def js_def is_digit_code_def RU_PHONE_RE_def Let_def)
  from phone_round_trip [OF this] this show ?thesis by simp
qed

section \<open>Who is shown which method\<close>

lemma default_found:
  assumes ok: "methods_ok s" and m: "m \<in> set (teacher_payment_methods s)" "pm_teacher_account_id m = t" "pm_is_default m"
    "pm_archived_at m = None"
  shows "find (\<lambda>x. pm_teacher_account_id x = t \<and> pm_is_default x \<and> pm_archived_at x = None) (teacher_payment_methods s) = Some m"
    (is "find ?P _ = _")
proof (cases "find ?P (teacher_payment_methods s)")
  case None
  with m show ?thesis by (auto simp: find_None_iff)
next
  case (Some x)
  then have x: "x \<in> set (teacher_payment_methods s)" "pm_teacher_account_id x = t" "pm_is_default x" "pm_archived_at x = None"
    by (auto simp: find_Some_iff)
  with m have "methods_clash x m" by (simp add: methods_clash_def)
  with ok x m have "pm_id x = pm_id m" by (auto simp: methods_ok_def)
  with ok x m have "x = m" by (auto simp: methods_ok_def intro: distinct_key_eq [of pm_id])
  with Some show ?thesis by simp
qed

lemma active_methods_archived:
  assumes "pm_archived_at r \<noteq> None"
  shows "active_methods t (s\<lparr>teacher_payment_methods := replace_row pm_id r (teacher_payment_methods s)\<rparr>)
    = filter (\<lambda>m. pm_id m \<noteq> pm_id r) (active_methods t s)"
proof -
  have "filter (\<lambda>m. pm_teacher_account_id m = t \<and> pm_archived_at m = None) (replace_row pm_id r xs)
      = filter (\<lambda>m. pm_id m \<noteq> pm_id r) (filter (\<lambda>m. pm_teacher_account_id m = t \<and> pm_archived_at m = None) xs)" for xs
    using assms by (induction xs) (auto simp: replace_row_def)
  then show ?thesis by (simp add: active_methods_def)
qed

text \<open>
  When the default method of a teacher is archived, the oldest of the other active methods
  becomes the default: it is what a learner without an override is shown from then on, and a
  learner is shown nothing exactly when no active method is left.
\<close>

theorem archive_hands_over_default:
  assumes ok: "methods_ok s" and arch: "archivePaymentMethod c t i s = Inr (Inr (), s')"
    and row: "method_by_id (pg_uuid i) s = Some row" "pm_is_default row" and free: "assigned_method t l s' = None"
  shows "resolveMethodForLearner t l s' = map_option (\<lambda>m. m\<lparr>pm_is_default := True\<rparr>)
    (min_by (\<lambda>x y. pm_created_at x < pm_created_at y) (filter (\<lambda>m. pm_id m \<noteq> pg_uuid i) (active_methods t s)))"
proof -
  have id: "pm_id row = pg_uuid i" using row(1) by (auto simp: method_by_id_def dest: find_by_SomeD)
  have active: "active_methods t s1 = filter (\<lambda>m. pm_id m \<noteq> pg_uuid i) (active_methods t s)"
    if "pg_update_method (row\<lparr>pm_archived_at := Some (pg_now c), pm_is_default := False\<rparr>) s = Inr (m', s1)" for m' s1
    using that id by (auto simp: active_methods_archived elim!: pg_update_method_InrE)
  from arch show ?thesis
  proof (cases rule: archivePaymentMethod_cases)
    case (2 row' s1)
    with row have empty: "active_methods t s' = []" and act: "active_methods t s' = filter (\<lambda>m. pm_id m \<noteq> pg_uuid i) (active_methods t s)"
      using active by auto
    then have "find (\<lambda>m. pm_teacher_account_id m = t \<and> pm_is_default m \<and> pm_archived_at m = None)
        (teacher_payment_methods s') = None"
      by (auto simp: active_methods_def find_None_iff filter_empty_conv)
    with free empty act show ?thesis by (simp add: resolveMethodForLearner_def)
  next
    case (3 row' s1 m)
    have ok': "methods_ok s'" using archivePaymentMethod_ok [OF ok arch] .
    have m: "m \<in> set (active_methods t s1)" using 3(6) by (rule min_by_mem)
    have "m\<lparr>pm_is_default := True\<rparr> \<in> set (teacher_payment_methods s')"
      using m 3(7) by (force simp: active_methods_def replace_row_def elim!: pg_update_method_InrE)
    with m ok' have "find (\<lambda>x. pm_teacher_account_id x = t \<and> pm_is_default x \<and> pm_archived_at x = None)
        (teacher_payment_methods s') = Some (m\<lparr>pm_is_default := True\<rparr>)"
      by (intro default_found) (auto simp: active_methods_def)
    moreover have "min_by (\<lambda>x y. pm_created_at x < pm_created_at y)
        (filter (\<lambda>m. pm_id m \<noteq> pg_uuid i) (active_methods t s)) = Some m"
      using 3(1,4,6) row active by simp
    ultimately show ?thesis using free by (simp add: resolveMethodForLearner_def)
  qed simp
qed

text \<open>
  Making an archived method the default succeeds and takes the default away from the active
  ones: afterwards a learner without an override is shown no method, however many are active.
\<close>

theorem default_on_archived_hides_all:
  assumes ok: "methods_ok s" and i: "uuid_pattern i" and row: "method_by_id (pg_uuid i) s = Some row"
    "pm_teacher_account_id row = t" "pm_archived_at row \<noteq> None"
    and free: "teacher_payment_method_assignments s = []"
  shows "\<exists>m s'. updatePaymentMethod \<lparr>um_teacherAccountId = t, um_methodId = i, um_phoneRaw = None, um_bankLabel = None,
      um_isDefault = Some True, um_restore = False\<rparr> s = Inr (Inr m, s') \<and> resolveMethodForLearner t l s' = None"
proof -
  have mem: "row \<in> set (teacher_payment_methods s)" "pm_id row = pg_uuid i"
    using row(1) by (auto simp: method_by_id_def dest: find_by_SomeD)
  define s1 where "s1 = clear_default t (Some (pm_id row)) s"
  define r where "r = row\<lparr>pm_is_default := True\<rparr>"
  define s2 where "s2 = s1\<lparr>teacher_payment_methods := replace_row pm_id r (teacher_payment_methods s1)\<rparr>"
  have check: "method_check r" using ok mem(1) by (simp add: r_def methods_ok_def method_check_def)
  have conf: "\<not> method_conflict r s1"
    using row(3) by (auto simp: r_def method_conflict_def methods_clash_def list_ex_iff)
  have up: "updatePaymentMethod \<lparr>um_teacherAccountId = t, um_methodId = i, um_phoneRaw = None, um_bankLabel = None,
      um_isDefault = Some True, um_restore = False\<rparr> s = Inr (Inr r, s2)"
  proof -
    have "pg_update_method r s1 = Inr (r, s2)" using check conf by (simp add: pg_update_method_def s2_def)
    moreover have "method_patch \<lparr>um_teacherAccountId = t, um_methodId = i, um_phoneRaw = None, um_bankLabel = None,
      um_isDefault = Some True, um_restore = False\<rparr> None None row = Some r"
      by (simp add: method_patch_def r_def)
    ultimately show ?thesis
      unfolding updatePaymentMethod_def by (simp add: Let_def i row(1,2) s1_def [symmetric])
  qed
  have cleared: "\<not> (pm_teacher_account_id x = t \<and> pm_is_default x \<and> pm_archived_at x = None)"
    if "x \<in> set (teacher_payment_methods s1)" "pm_id x \<noteq> pm_id row" for x
  proof -
    from that(1) have "x \<in> (\<lambda>m. if pm_teacher_account_id m = t \<and> pm_is_default m \<and> pm_archived_at m = None
        \<and> Some (pm_id m) \<noteq> Some (pm_id row) then m\<lparr>pm_is_default := False\<rparr> else m) ` set (teacher_payment_methods s)"
      by (simp add: s1_def clear_default_def)
    then obtain m where "x = (if pm_teacher_account_id m = t \<and> pm_is_default m \<and> pm_archived_at m = None
        \<and> Some (pm_id m) \<noteq> Some (pm_id row) then m\<lparr>pm_is_default := False\<rparr> else m)"
      by (rule imageE)
    with that(2) show ?thesis by (cases "pm_id m = pm_id row") auto
  qed
  have "\<not> (pm_teacher_account_id x = t \<and> pm_is_default x \<and> pm_archived_at x = None)"
    if "x \<in> set (teacher_payment_methods s2)" for x
  proof (cases "x = r")
    case True
    with row(3) show ?thesis by (simp add: r_def)
  next
    case False
    with that set_replace_row [of pm_id r "teacher_payment_methods s1"] show ?thesis
      by (intro cleared) (auto simp: s2_def r_def)
  qed
  moreover have "teacher_payment_method_assignments s2 = []" using free by (simp add: s2_def s1_def clear_default_def)
  ultimately have "resolveMethodForLearner t l s2 = None"
    by (auto simp: resolveMethodForLearner_def assigned_method_def find_None_iff)
  with up show ?thesis by blast
qed

definition sample_archived :: sbp_db where
  "sample_archived = \<lparr>payment_claims = [], payment_claim_items = [], payment_refunds = [],
     teacher_payment_methods =
       [\<lparr>pm_id = uuid_of CHR ''1'', pm_teacher_account_id = uuid_of CHR ''a'', pm_phone_e164 = js ''+79000000001'',
         pm_phone_display = [], pm_bank_label = js ''B'', pm_is_default = True, pm_created_at = 1, pm_archived_at = None\<rparr>,
        \<lparr>pm_id = uuid_of CHR ''2'', pm_teacher_account_id = uuid_of CHR ''a'', pm_phone_e164 = js ''+79000000002'',
         pm_phone_display = [], pm_bank_label = js ''B'', pm_is_default = False, pm_created_at = 2, pm_archived_at = None\<rparr>,
        \<lparr>pm_id = uuid_of CHR ''3'', pm_teacher_account_id = uuid_of CHR ''a'', pm_phone_e164 = js ''+79000000003'',
         pm_phone_display = [], pm_bank_label = js ''B'', pm_is_default = False, pm_created_at = 3, pm_archived_at = Some 4\<rparr>],
     teacher_payment_method_assignments = [], people = []\<rparr>"

lemma sample_archived_ok: "methods_ok sample_archived"
  by (simp add: methods_ok_def sample_archived_def method_check_def RU_PHONE_RE_def js_def is_digit_code_def
      sql_btrim_def methods_clash_def)

theorem default_on_archived_hides_all_witness:
  "\<exists>m s'. updatePaymentMethod \<lparr>um_teacherAccountId = uuid_of CHR ''a'', um_methodId = uuid_of CHR ''3'', um_phoneRaw = None,
      um_bankLabel = None, um_isDefault = Some True, um_restore = False\<rparr> sample_archived = Inr (Inr m, s')
    \<and> resolveMethodForLearner (uuid_of CHR ''a'') (uuid_of CHR ''b'') s' = None"
proof -
  have hex: "hex_digit CHR ''3''" "lower_hex CHR ''3'' = CHR ''3''" by (simp_all add: hex_digit_def lower_hex_def)
  obtain row where "method_by_id (pg_uuid (uuid_of CHR ''3'')) sample_archived = Some row"
    "pm_teacher_account_id row = uuid_of CHR ''a''" "pm_archived_at row \<noteq> None"
    by (simp add: method_by_id_def find_by_def sample_archived_def hex)
  moreover have "teacher_payment_method_assignments sample_archived = []" by (simp add: sample_archived_def)
  moreover have "uuid_pattern (uuid_of CHR ''3'')" using hex by simp
  ultimately show ?thesis by (intro default_on_archived_hides_all [OF sample_archived_ok])
qed

theorem archive_hands_over_default_witness:
  "\<exists>s' m. archivePaymentMethod \<lparr>pg_now = 5, js_now = 0\<rparr> (uuid_of CHR ''a'') (uuid_of CHR ''1'') sample_archived
      = Inr (Inr (), s')
    \<and> resolveMethodForLearner (uuid_of CHR ''a'') (uuid_of CHR ''b'') s' = Some m \<and> pm_id m = uuid_of CHR ''2''"
proof -
  have hex: "hex_digit CHR ''1''" "lower_hex CHR ''1'' = CHR ''1''" by (simp_all add: hex_digit_def lower_hex_def)
  obtain s' where arch: "archivePaymentMethod \<lparr>pg_now = 5, js_now = 0\<rparr> (uuid_of CHR ''a'') (uuid_of CHR ''1'') sample_archived
      = Inr (Inr (), s')" "teacher_payment_method_assignments s' = []"
    by (simp add: archivePaymentMethod_def method_by_id_def find_by_def sample_archived_def hex pg_update_method_def
        method_check_def RU_PHONE_RE_def js_def is_digit_code_def sql_btrim_def method_conflict_def methods_clash_def
        active_methods_def replace_row_def)
  obtain row where row: "method_by_id (pg_uuid (uuid_of CHR ''1'')) sample_archived = Some row" "pm_is_default row"
    by (simp add: method_by_id_def find_by_def sample_archived_def hex)
  have "assigned_method (uuid_of CHR ''a'') (uuid_of CHR ''b'') s' = None" using arch(2) by (simp add: assigned_method_def)
  from archive_hands_over_default [OF sample_archived_ok arch(1) row this] arch(1) show ?thesis
    by (simp add: active_methods_def sample_archived_def hex)
qed

end
