(* ===== verification/Sbp_Claims.thy ===== *)
theory Sbp_Claims
  imports Sbp_Methods Paid_State
begin

text \<open>
  Direct payments to a teacher, second part: the journal of claims and refunds of
  \<open>src/lib/payments/sbp-claims.ts\<close>, \<open>src/lib/payments/sbp-refunds.ts\<close> and the window of
  \<open>src/lib/payments/policy.ts\<close>. The lessons, packages and orders are read from the database of
  \<open>Database\<close> and never written; the notifications sent after the commit are left out. The
  \<open>other\<close> account of a pair and every slot, package and method id come from the request and reach
  the database as text; the ids of new rows are arguments.
\<close>

section \<open>Limits and the window of late payments\<close>

definition MAX_AMOUNT_KOPECKS :: int where "MAX_AMOUNT_KOPECKS = 100000000"
definition MS_PER_DAY :: int where [time_defs]: "MS_PER_DAY = 86400000"
definition EXPIRING_PACKAGE_DAYS :: int where "EXPIRING_PACKAGE_DAYS = 14"
definition EXPIRING_PACKAGE_REMAINING_THRESHOLD :: int where "EXPIRING_PACKAGE_REMAINING_THRESHOLD = 2"
definition PAYMENT_RETRO_WINDOW_DAYS :: int where "PAYMENT_RETRO_WINDOW_DAYS = 30"
definition PAYMENT_RETRO_WINDOW_MS :: int where
  "PAYMENT_RETRO_WINDOW_MS = PAYMENT_RETRO_WINDOW_DAYS * 24 * 60 * 60 * 1000"

definition isWithinPaymentRetroWindow :: "clock \<Rightarrow> micros \<Rightarrow> bool" where
  "isWithinPaymentRetroWindow c startAt \<longleftrightarrow> js_date startAt \<ge> js_now c - PAYMENT_RETRO_WINDOW_MS"

definition isSlotPastRetroWindow :: "clock \<Rightarrow> micros \<Rightarrow> bool" where
  "isSlotPastRetroWindow c startAt \<longleftrightarrow> \<not> isWithinPaymentRetroWindow c startAt"

section \<open>Names and labels\<close>

text \<open>
  What the code takes from the locale data and the date parsers of its platform: the printed date of
  \<open>toLocaleString\<close>, \<open>new Date(text)\<close> (\<open>None\<close> for an invalid date) and the input of \<open>timestamptz\<close>.
\<close>

record platform =
  to_locale :: "millis \<Rightarrow> js_text"
  date_parse :: "string \<Rightarrow> millis option"
  timestamptz_in :: "string \<Rightarrow> micros option"

fun js_digits :: "nat \<Rightarrow> js_text" where
  "js_digits n = (if n < 10 then [48 + n] else js_digits (n div 10) @ [48 + n mod 10])"

definition js_of_int :: "int \<Rightarrow> js_text" where
  "js_of_int k = (if k < 0 then 45 # js_digits (nat (- k)) else js_digits (nat k))"

definition buildUnpaidSlotLabel :: "platform \<Rightarrow> micros \<Rightarrow> int \<Rightarrow> js_text" where
  "buildUnpaidSlotLabel pf startAt durationMinutes =
     to_locale pf (js_date startAt) @ [32, 183, 32] @ js_of_int durationMinutes @ [32, 1084, 1080, 1085]"

definition composed_name :: "person_row \<Rightarrow> js_text" where
  "composed_name p =
     js_trim (case (truthy_text (pr_first_name p), truthy_text (pr_last_name p)) of
                (None, None) \<Rightarrow> []
              | (Some f, None) \<Rightarrow> f
              | (None, Some l) \<Rightarrow> l
              | (Some f, Some l) \<Rightarrow> f @ [32] @ l)"

definition display_name :: "person_row \<Rightarrow> js_text" where
  "display_name p =
     (if composed_name p \<noteq> [] then composed_name p
      else case truthy_text (pr_display_name p) of Some n \<Rightarrow> n | None \<Rightarrow> pr_email p)"

definition person_by_id :: "uuid \<Rightarrow> sbp_db \<Rightarrow> person_row option" where
  "person_by_id i s = find_by pr_account_id i (people s)"

definition loadDisplayName :: "string \<Rightarrow> sbp_db \<Rightarrow> exn + js_text" where
  "loadDisplayName accountId s =
     (if \<not> uuid_pattern accountId then Inl (PgErr InvalidUuidText)
      else case person_by_id (pg_uuid accountId) s of
        None \<Rightarrow> Inr (js ''unknown'')
      | Some p \<Rightarrow> Inr (display_name p))"

record slot_snapshot =
  sn_teacherAccountId :: uuid
  sn_learnerAccountId :: "uuid option"
  sn_label :: js_text
  sn_expected :: int
  sn_startAt :: micros

definition loadSlotSnapshot :: "platform \<Rightarrow> string \<Rightarrow> db \<Rightarrow> exn + slot_snapshot option" where
  "loadSlotSnapshot pf slotId d =
     (if \<not> uuid_pattern slotId then Inl (PgErr InvalidUuidText)
      else Inr (map_option (\<lambda>row.
             \<lparr>sn_teacherAccountId = ls_teacher_account_id row, sn_learnerAccountId = ls_learner_account_id row,
              sn_label = buildUnpaidSlotLabel pf (ls_start_at row) (ls_duration_minutes row),
              sn_expected = coalesce (ls_snapshot_amount_kopecks row) 0, sn_startAt = ls_start_at row\<rparr>)
             (slot_by_id d (pg_uuid slotId))))"

section \<open>Is a lesson paid by any channel?\<close>

definition claim_by_id :: "uuid \<Rightarrow> sbp_db \<Rightarrow> claim_row option" where
  "claim_by_id i s = find_by cm_id i (payment_claims s)"

definition claim_live :: "claim_row \<Rightarrow> bool" where
  "claim_live r \<longleftrightarrow> cm_status r \<in> {Claimed, Confirmed}"

definition item_live :: "sbp_db \<Rightarrow> claim_item_row \<Rightarrow> bool" where
  "item_live s it \<longleftrightarrow> (case claim_by_id (it_claim_id it) s of None \<Rightarrow> False | Some r \<Rightarrow> claim_live r)"

definition slot_claimed :: "uuid \<Rightarrow> sbp_db \<Rightarrow> bool" where
  "slot_claimed i s \<longleftrightarrow> list_ex (\<lambda>it. it_slot_id it = Some i \<and> item_live s it) (payment_claim_items s)"

definition slot_paid_elsewhere :: "uuid \<Rightarrow> db \<Rightarrow> bool" where
  "slot_paid_elsewhere i d \<longleftrightarrow>
     list_ex (\<lambda>pc. pc_slot_id pc = i \<and> unit_active pc) (package_consumptions d)
     \<or> list_ex (\<lambda>a. pa_kind a = ''lesson_slot'' \<and> pa_target_id a = i \<and> order_paid d (pa_payment_order_id a))
         (payment_allocations d)"

definition slot_already_paid :: "uuid \<Rightarrow> db \<Rightarrow> sbp_db \<Rightarrow> bool" where
  "slot_already_paid i d s \<longleftrightarrow> slot_claimed i s \<or> slot_paid_elsewhere i d"

section \<open>The items of a claim\<close>

record claim_item_input =
  pi_slotId :: "string option"
  pi_packagePurchaseId :: "string option"
  pi_expectedAmountKopecks :: js_num

datatype claim_refusal =
    ClInvalidAmount | ClAmountTooLarge | ClNoItems | ClTooManyItems | ClInvalidPaidAt | ClPaidAtInFuture
  | ClMethodRequiredForSbp | ClMethodNotFound | ClMethodArchived | ClItemXorViolation
  | ClSlotNotFound | ClSlotNotBelongsToPair | ClSlotTooOld | ClSlotAlreadyPaid
  | ClPackageNotFound | ClPackageNotBelongsToPair

record item_record =
  ir_slotId :: "string option"
  ir_packagePurchaseId :: "string option"
  ir_expected :: int
  ir_label :: js_text

definition truthy_id :: "string option \<Rightarrow> string option" where
  "truthy_id i = (case i of Some [] \<Rightarrow> None | x \<Rightarrow> x)"

lemma truthy_id_simps [simp]:
  "truthy_id None = None" "i \<noteq> [] \<Longrightarrow> truthy_id (Some i) = Some i"
  by (auto simp: truthy_id_def split: list.splits)

lemma truthy_id_eq_Some [simp]: "truthy_id x = Some i \<longleftrightarrow> x = Some i \<and> i \<noteq> []"
  by (auto simp: truthy_id_def split: option.splits list.splits)

definition slot_item ::
  "platform \<Rightarrow> clock \<Rightarrow> string \<Rightarrow> string \<Rightarrow> string \<Rightarrow> db \<Rightarrow> sbp_db \<Rightarrow> exn + (claim_refusal + item_record)" where
  "slot_item pf c teacher learner slotId d s =
     bindR (loadSlotSnapshot pf slotId d) (\<lambda>snap.
       case snap of
         None \<Rightarrow> Inr (Inl ClSlotNotFound)
       | Some sn \<Rightarrow>
           if sn_teacherAccountId sn \<noteq> teacher \<or> sn_learnerAccountId sn \<noteq> Some learner
           then Inr (Inl ClSlotNotBelongsToPair)
           else if isSlotPastRetroWindow c (sn_startAt sn) then Inr (Inl ClSlotTooOld)
           else if slot_already_paid (pg_uuid slotId) d s then Inr (Inl ClSlotAlreadyPaid)
           else Inr (Inr \<lparr>ir_slotId = Some slotId, ir_packagePurchaseId = None,
                          ir_expected = sn_expected sn, ir_label = sn_label sn\<rparr>))"

definition package_item :: "string \<Rightarrow> string \<Rightarrow> string \<Rightarrow> db \<Rightarrow> exn + (claim_refusal + item_record)" where
  "package_item teacher learner purchaseId d =
     (if \<not> uuid_pattern purchaseId then Inl (PgErr InvalidUuidText)
      else case purchase_by_id d (pg_uuid purchaseId) of
        None \<Rightarrow> Inr (Inl ClPackageNotFound)
      | Some p \<Rightarrow>
          if pp_account_id p \<noteq> learner then Inr (Inl ClPackageNotFound)
          else if pp_teacher_id p \<noteq> None \<and> pp_teacher_id p \<noteq> Some teacher
          then Inr (Inl ClPackageNotBelongsToPair)
          else Inr (Inr \<lparr>ir_slotId = None, ir_packagePurchaseId = Some purchaseId,
                         ir_expected = pp_amount_kopecks p, ir_label = pp_title_snapshot p\<rparr>))"

definition claim_item ::
  "platform \<Rightarrow> clock \<Rightarrow> string \<Rightarrow> string \<Rightarrow> db \<Rightarrow> sbp_db \<Rightarrow> claim_item_input
   \<Rightarrow> exn + (claim_refusal + item_record)" where
  "claim_item pf c teacher learner d s item =
     (case (truthy_id (pi_slotId item), truthy_id (pi_packagePurchaseId item)) of
        (Some slotId, None) \<Rightarrow> slot_item pf c teacher learner slotId d s
      | (None, Some purchaseId) \<Rightarrow> package_item teacher learner purchaseId d
      | _ \<Rightarrow> Inr (Inl ClItemXorViolation))"

fun claim_items ::
  "platform \<Rightarrow> clock \<Rightarrow> string \<Rightarrow> string \<Rightarrow> db \<Rightarrow> sbp_db \<Rightarrow> claim_item_input list
   \<Rightarrow> exn + (claim_refusal + item_record list)" where
  "claim_items pf c teacher learner d s [] = Inr (Inr [])"
| "claim_items pf c teacher learner d s (item # items) =
     bindR (claim_item pf c teacher learner d s item) (\<lambda>r.
       case r of
         Inl e \<Rightarrow> Inr (Inl e)
       | Inr x \<Rightarrow> bindR (claim_items pf c teacher learner d s items) (\<lambda>rs.
           case rs of Inl e \<Rightarrow> Inr (Inl e) | Inr xs \<Rightarrow> Inr (Inr (x # xs))))"

section \<open>Storing a claim\<close>

definition claim_check :: "clock \<Rightarrow> claim_row \<Rightarrow> bool" where
  "claim_check c r \<longleftrightarrow>
     0 < cm_amount_kopecks r \<and> cm_amount_kopecks r < 100000000
     \<and> (cm_initiated_by r \<noteq> ByLearner \<or> cm_payment_channel r \<noteq> ChannelSbp \<or> cm_payment_method_id r \<noteq> None)
     \<and> (cm_initiated_by r \<noteq> ByTeacher \<or> cm_status r \<in> {Confirmed, Declined})
     \<and> (case cm_paid_at r of None \<Rightarrow> True | Some t \<Rightarrow> t \<le> pg_now c + us_per_day)"

definition int4 :: "int \<Rightarrow> bool" where
  "int4 k \<longleftrightarrow> - 2147483648 \<le> k \<and> k \<le> 2147483647"

definition account_known :: "uuid option \<Rightarrow> sbp_db \<Rightarrow> bool" where
  "account_known i s \<longleftrightarrow> (case i of None \<Rightarrow> True | Some a \<Rightarrow> person_by_id a s \<noteq> None)"

definition pg_insert_claim :: "clock \<Rightarrow> claim_row \<Rightarrow> sbp_db \<Rightarrow> exn + sbp_db" where
  "pg_insert_claim c r s =
     (if \<not> int4 (cm_amount_mismatch_kopecks r) then Inl (PgErr (RaisedException ''22003''))
      else if \<not> claim_check c r then Inl (PgErr CheckViolation)
      else if claim_by_id (cm_id r) s \<noteq> None then Inl (PgErr UniqueViolation)
      else if \<not> account_known (cm_learner_account_id r) s \<or> \<not> account_known (cm_teacher_account_id r) s
              \<or> (case cm_payment_method_id r of None \<Rightarrow> False | Some m \<Rightarrow> method_by_id m s = None)
      then Inl (PgErr ForeignKeyViolation)
      else Inr (s\<lparr>payment_claims := payment_claims s @ [r]\<rparr>))"

definition item_check :: "claim_item_row \<Rightarrow> bool" where
  "item_check it \<longleftrightarrow>
     0 \<le> it_expected_amount_kopecks it \<and> it_expected_amount_kopecks it < 100000000
     \<and> ((it_slot_id it \<noteq> None) \<noteq> (it_package_purchase_id it \<noteq> None))"

definition same_item :: "claim_item_row \<Rightarrow> claim_item_row \<Rightarrow> bool" where
  "same_item x y \<longleftrightarrow>
     it_claim_id x = it_claim_id y \<and> it_slot_id x = it_slot_id y
     \<and> it_package_purchase_id x = it_package_purchase_id y"

definition pg_insert_item :: "claim_item_row \<Rightarrow> sbp_db \<Rightarrow> exn + sbp_db" where
  "pg_insert_item it s =
     (if \<not> item_check it then Inl (PgErr CheckViolation)
      else if list_ex (\<lambda>x. it_id x = it_id it \<or> same_item x it) (payment_claim_items s)
      then Inl (PgErr UniqueViolation)
      else Inr (s\<lparr>payment_claim_items := payment_claim_items s @ [it]\<rparr>))"

definition item_row :: "uuid \<Rightarrow> uuid \<Rightarrow> item_record \<Rightarrow> claim_item_row" where
  "item_row newId claimId it =
     \<lparr>it_id = newId, it_claim_id = claimId, it_slot_id = map_option pg_uuid (ir_slotId it),
      it_package_purchase_id = map_option pg_uuid (ir_packagePurchaseId it),
      it_expected_amount_kopecks = ir_expected it, it_label = ir_label it\<rparr>"

fun insert_items :: "(nat \<Rightarrow> uuid) \<Rightarrow> nat \<Rightarrow> uuid \<Rightarrow> item_record list \<Rightarrow> sbp_db \<Rightarrow> exn + sbp_db" where
  "insert_items ids n claimId [] s = Inr s"
| "insert_items ids n claimId (it # rest) s =
     bindR (pg_insert_item (item_row (ids n) claimId it) s) (insert_items ids (Suc n) claimId rest)"

text \<open>The phone and the bank of the method, copied into the claim.\<close>

definition method_snapshot :: "string option \<Rightarrow> sbp_db \<Rightarrow> exn + (js_text option \<times> js_text option)" where
  "method_snapshot methodId s =
     (case truthy_id methodId of
        None \<Rightarrow> Inr (None, None)
      | Some i \<Rightarrow>
          if \<not> uuid_pattern i then Inl (PgErr InvalidUuidText)
          else Inr (case method_by_id (pg_uuid i) s of
                      None \<Rightarrow> (None, None)
                    | Some m \<Rightarrow> (Some (pm_phone_display m), Some (pm_bank_label m))))"

definition pg_uuid_opt :: "string option \<Rightarrow> exn + uuid option" where
  "pg_uuid_opt i =
     (case i of
        None \<Rightarrow> Inr None
      | Some t \<Rightarrow> if uuid_pattern t then Inr (Some (pg_uuid t)) else Inl (PgErr InvalidUuidText))"

section \<open>Creating a claim\<close>

record claim_input =
  rq_teacherAccountId :: string
  rq_learnerAccountId :: string
  rq_amountKopecks :: js_num
  rq_paymentChannel :: pay_channel
  rq_paymentMethodId :: "string option"
  rq_items :: "claim_item_input list"
  rq_note :: "js_text option"

record mark_paid_input = claim_input +
  mp_paidAt :: "string option"

definition request_refusal :: "js_num \<Rightarrow> claim_item_input list \<Rightarrow> claim_refusal option" where
  "request_refusal amount items =
     (case amount of
        JsNonInt \<Rightarrow> Some ClInvalidAmount
      | JsInt k \<Rightarrow>
          if k \<le> 0 then Some ClInvalidAmount
          else if k \<ge> MAX_AMOUNT_KOPECKS then Some ClAmountTooLarge
          else if length items = 0 then Some ClNoItems
          else if length items > 20 then Some ClTooManyItems
          else None)"

definition amount_value :: "js_num \<Rightarrow> int" where
  "amount_value a = (case a of JsInt k \<Rightarrow> k | JsNonInt \<Rightarrow> 0)"

definition paid_at_refusal :: "platform \<Rightarrow> clock \<Rightarrow> string option \<Rightarrow> claim_refusal option" where
  "paid_at_refusal pf c paidAt =
     (case truthy_id paidAt of
        None \<Rightarrow> None
      | Some t \<Rightarrow>
          (case date_parse pf t of
             None \<Rightarrow> Some ClInvalidPaidAt
           | Some ms \<Rightarrow> if ms > js_now c + MS_PER_DAY then Some ClPaidAtInFuture else None))"

definition timestamptz_opt :: "platform \<Rightarrow> string option \<Rightarrow> exn + micros option" where
  "timestamptz_opt pf t =
     (case t of
        None \<Rightarrow> Inr None
      | Some x \<Rightarrow> (case timestamptz_in pf x of None \<Rightarrow> Inl (PgErr (RaisedException ''22007'')) | Some m \<Rightarrow> Inr (Some m)))"

text \<open>The method of an \<open>sbp\<close> payment has to be one of the teacher's; for a learner it has to be active.\<close>

definition method_refusal_of ::
  "bool \<Rightarrow> string \<Rightarrow> pay_channel \<Rightarrow> string option \<Rightarrow> sbp_db \<Rightarrow> exn + claim_refusal option" where
  "method_refusal_of needs_active teacher channel methodId s =
     (case (channel, truthy_id methodId) of
        (ChannelSbp, Some i) \<Rightarrow>
          if \<not> uuid_pattern i then Inl (PgErr InvalidUuidText)
          else (case method_by_id (pg_uuid i) s of
                  None \<Rightarrow> Inr (Some ClMethodNotFound)
                | Some m \<Rightarrow>
                    if pm_teacher_account_id m \<noteq> teacher then Inr (Some ClMethodNotFound)
                    else if needs_active \<and> pm_archived_at m \<noteq> None then Inr (Some ClMethodArchived)
                    else Inr None)
      | _ \<Rightarrow> Inr None)"

text \<open>
  From the checked request to the stored claim: the items, the names, the copied method and the
  mismatch between the amount and the sum of the prices the server knows.
\<close>

definition claim_of ::
  "clock \<Rightarrow> uuid \<Rightarrow> 'x claim_input_scheme \<Rightarrow> initiator \<Rightarrow> claim_status \<Rightarrow> micros option \<Rightarrow> item_record list
   \<Rightarrow> js_text \<Rightarrow> js_text \<Rightarrow> js_text option \<times> js_text option \<Rightarrow> uuid option \<Rightarrow> claim_row" where
  "claim_of c newId input who status paid recs learnerName teacherName snap mid =
     \<lparr>cm_id = newId, cm_learner_account_id = Some (pg_uuid (rq_learnerAccountId input)),
      cm_learner_name = learnerName, cm_teacher_account_id = Some (pg_uuid (rq_teacherAccountId input)),
      cm_teacher_name = teacherName, cm_amount_kopecks = amount_value (rq_amountKopecks input),
      cm_payment_method_id = mid, cm_method_phone = fst snap, cm_method_bank = snd snap,
      cm_payment_channel = rq_paymentChannel input, cm_initiated_by = who, cm_status = status,
      cm_amount_mismatch_kopecks = amount_value (rq_amountKopecks input) - sum_by ir_expected recs,
      cm_note_learner = (if who = ByLearner then rq_note input else None),
      cm_note_teacher = (if who = ByTeacher then rq_note input else None),
      cm_claimed_at = pg_now c, cm_paid_at = paid,
      cm_resolved_at = (if who = ByTeacher then Some (pg_now c) else None)\<rparr>"

definition store_claim ::
  "platform \<Rightarrow> clock \<Rightarrow> uuid \<Rightarrow> (nat \<Rightarrow> uuid) \<Rightarrow> 'x claim_input_scheme \<Rightarrow> initiator \<Rightarrow> claim_status
   \<Rightarrow> string option \<Rightarrow> db \<Rightarrow> sbp_db \<Rightarrow> (claim_refusal + uuid) sbp_outcome" where
  "store_claim pf c newId ids input who status paidAt d s =
     bindR (claim_items pf c (rq_teacherAccountId input) (rq_learnerAccountId input) d s (rq_items input)) (\<lambda>r.
       case r of
         Inl e \<Rightarrow> Inr (Inl e, s)
       | Inr recs \<Rightarrow>
           bindR (loadDisplayName (rq_learnerAccountId input) s) (\<lambda>learnerName.
           bindR (loadDisplayName (rq_teacherAccountId input) s) (\<lambda>teacherName.
           bindR (method_snapshot (rq_paymentMethodId input) s) (\<lambda>snap.
           bindR (pg_uuid_opt (rq_paymentMethodId input)) (\<lambda>mid.
           bindR (timestamptz_opt pf paidAt) (\<lambda>paid.
           bindR (pg_insert_claim c
                    (claim_of c newId input who status paid recs learnerName teacherName snap mid) s) (\<lambda>s1.
           bindR (insert_items ids 0 newId recs s1) (\<lambda>s2. Inr (Inr newId, s2)))))))))"

definition createTeacherMarkPaid ::
  "platform \<Rightarrow> clock \<Rightarrow> uuid \<Rightarrow> (nat \<Rightarrow> uuid) \<Rightarrow> mark_paid_input \<Rightarrow> db \<Rightarrow> sbp_db
   \<Rightarrow> (claim_refusal + uuid) sbp_outcome" where
  "createTeacherMarkPaid pf c newId ids input d s =
     (case request_refusal (rq_amountKopecks input) (rq_items input) of
        Some e \<Rightarrow> Inr (Inl e, s)
      | None \<Rightarrow>
          (case paid_at_refusal pf c (mp_paidAt input) of
             Some e \<Rightarrow> Inr (Inl e, s)
           | None \<Rightarrow>
               bindR (method_refusal_of False (rq_teacherAccountId input) (rq_paymentChannel input)
                        (rq_paymentMethodId input) s) (\<lambda>m.
                 case m of
                   Some e \<Rightarrow> Inr (Inl e, s)
                 | None \<Rightarrow> store_claim pf c newId ids input ByTeacher Confirmed (mp_paidAt input) d s)))"

definition createLearnerClaim ::
  "platform \<Rightarrow> clock \<Rightarrow> uuid \<Rightarrow> (nat \<Rightarrow> uuid) \<Rightarrow> claim_input \<Rightarrow> db \<Rightarrow> sbp_db
   \<Rightarrow> (claim_refusal + uuid) sbp_outcome" where
  "createLearnerClaim pf c newId ids input d s =
     (case request_refusal (rq_amountKopecks input) (rq_items input) of
        Some e \<Rightarrow> Inr (Inl e, s)
      | None \<Rightarrow>
          if rq_paymentChannel input = ChannelSbp \<and> truthy_id (rq_paymentMethodId input) = None
          then Inr (Inl ClMethodRequiredForSbp, s)
          else
            bindR (method_refusal_of True (rq_teacherAccountId input) (rq_paymentChannel input)
                     (rq_paymentMethodId input) s) (\<lambda>m.
              case m of
                Some e \<Rightarrow> Inr (Inl e, s)
              | None \<Rightarrow> store_claim pf c newId ids input ByLearner Claimed None d s))"

section \<open>Resolving a claim\<close>

datatype resolve_refusal = RsNotFound | RsAlreadyResolved claim_status

definition resolve_claim ::
  "clock \<Rightarrow> (claim_row \<Rightarrow> bool) \<Rightarrow> (claim_row \<Rightarrow> bool) \<Rightarrow> (claim_row \<Rightarrow> claim_row) \<Rightarrow> string \<Rightarrow> sbp_db
   \<Rightarrow> (resolve_refusal + claim_status) sbp_outcome" where
  "resolve_claim c owner ready f claimId s =
     (if \<not> uuid_pattern claimId then Inl (PgErr InvalidUuidText)
      else case claim_by_id (pg_uuid claimId) s of
        None \<Rightarrow> Inr (Inl RsNotFound, s)
      | Some r \<Rightarrow>
          if \<not> owner r then Inr (Inl RsNotFound, s)
          else if \<not> ready r then Inr (Inl (RsAlreadyResolved (cm_status r)), s)
          else if \<not> claim_check c (f r) then Inl (PgErr CheckViolation)
          else Inr (Inr (cm_status (f r)),
                    s\<lparr>payment_claims := replace_row cm_id (f r) (payment_claims s)\<rparr>))"

definition confirmClaim :: "clock \<Rightarrow> uuid \<Rightarrow> string \<Rightarrow> sbp_db \<Rightarrow> (resolve_refusal + claim_status) sbp_outcome" where
  "confirmClaim c teacher claimId =
     resolve_claim c (\<lambda>r. cm_teacher_account_id r = Some teacher) (\<lambda>r. cm_status r = Claimed)
       (\<lambda>r. r\<lparr>cm_status := Confirmed, cm_resolved_at := Some (pg_now c)\<rparr>) claimId"

definition declineClaim ::
  "clock \<Rightarrow> uuid \<Rightarrow> string \<Rightarrow> js_text option \<Rightarrow> sbp_db \<Rightarrow> (resolve_refusal + claim_status) sbp_outcome" where
  "declineClaim c teacher claimId note =
     resolve_claim c (\<lambda>r. cm_teacher_account_id r = Some teacher) (\<lambda>r. cm_status r = Claimed)
       (\<lambda>r. r\<lparr>cm_status := Declined, cm_resolved_at := Some (pg_now c), cm_note_teacher := note\<rparr>) claimId"

definition cancelClaimByLearner :: "clock \<Rightarrow> uuid \<Rightarrow> string \<Rightarrow> sbp_db \<Rightarrow> (resolve_refusal + claim_status) sbp_outcome" where
  "cancelClaimByLearner c learner claimId =
     resolve_claim c (\<lambda>r. cm_learner_account_id r = Some learner)
       (\<lambda>r. cm_status r = Claimed \<and> cm_initiated_by r = ByLearner)
       (\<lambda>r. r\<lparr>cm_status := ClaimCancelled, cm_resolved_at := Some (pg_now c)\<rparr>) claimId"

section \<open>Refunds\<close>

datatype refund_refusal =
  RfInvalidAmount | RfAmountTooLarge | RfClaimNotFound | RfNotOwner | RfClaimNotConfirmed | RfExceedsClaim

definition refunded :: "uuid \<Rightarrow> sbp_db \<Rightarrow> int" where
  "refunded claimId s = sum_by rf_amount_kopecks (filter (\<lambda>r. rf_claim_id r = claimId) (payment_refunds s))"

definition createRefund ::
  "clock \<Rightarrow> uuid \<Rightarrow> uuid \<Rightarrow> string \<Rightarrow> js_num \<Rightarrow> refund_reason \<Rightarrow> js_text option \<Rightarrow> sbp_db
   \<Rightarrow> (refund_refusal + uuid) sbp_outcome" where
  "createRefund c newId teacher claimId amountKopecks reason note s =
     (case amountKopecks of
        JsNonInt \<Rightarrow> Inr (Inl RfInvalidAmount, s)
      | JsInt k \<Rightarrow>
          if k \<le> 0 then Inr (Inl RfInvalidAmount, s)
          else if k \<ge> MAX_AMOUNT_KOPECKS then Inr (Inl RfAmountTooLarge, s)
          else if \<not> uuid_pattern claimId then Inl (PgErr InvalidUuidText)
          else case claim_by_id (pg_uuid claimId) s of
            None \<Rightarrow> Inr (Inl RfClaimNotFound, s)
          | Some r \<Rightarrow>
              if cm_teacher_account_id r \<noteq> Some teacher then Inr (Inl RfNotOwner, s)
              else if cm_status r \<noteq> Confirmed then Inr (Inl RfClaimNotConfirmed, s)
              else if refunded (pg_uuid claimId) s + k > cm_amount_kopecks r then Inr (Inl RfExceedsClaim, s)
              else if find_by rf_id newId (payment_refunds s) \<noteq> None then Inl (PgErr UniqueViolation)
              else Inr (Inr newId,
                        s\<lparr>payment_refunds := payment_refunds s @
                            [\<lparr>rf_id = newId, rf_claim_id = pg_uuid claimId, rf_amount_kopecks = k,
                              rf_reason = reason, rf_note = note, rf_refunded_at = pg_now c\<rparr>]\<rparr>))"

section \<open>The teacher's policy on missed and late-cancelled lessons\<close>

record payment_policy =
  py_chargeOnNoShow :: bool
  py_chargeOnLateCancel :: bool

definition getTeacherPaymentPolicy :: "uuid \<Rightarrow> sbp_db \<Rightarrow> payment_policy" where
  "getTeacherPaymentPolicy teacher s =
     (case person_by_id teacher s of
        None \<Rightarrow> \<lparr>py_chargeOnNoShow = False, py_chargeOnLateCancel = False\<rparr>
      | Some p \<Rightarrow> \<lparr>py_chargeOnNoShow = pr_charge_on_no_show p, py_chargeOnLateCancel = pr_charge_on_late_cancel p\<rparr>)"

definition setTeacherPaymentPolicy :: "uuid \<Rightarrow> bool option \<Rightarrow> bool option \<Rightarrow> sbp_db \<Rightarrow> sbp_db" where
  "setTeacherPaymentPolicy teacher noShow lateCancel s =
     (if noShow = None \<and> lateCancel = None then s
      else s\<lparr>people := map (\<lambda>p.
               if pr_account_id p = teacher
               then p\<lparr>pr_charge_on_no_show := coalesce noShow (pr_charge_on_no_show p),
                      pr_charge_on_late_cancel := coalesce lateCancel (pr_charge_on_late_cancel p)\<rparr>
               else p) (people s)\<rparr>)"

declare js_digits.simps [simp del]

section \<open>The journal stays consistent\<close>

text \<open>
  The constraints of the tables, at most one live claim on a lesson, a mismatch that is the
  amount less the listed prices, and refunds within the amount of a confirmed claim.
\<close>

definition items_of :: "uuid \<Rightarrow> sbp_db \<Rightarrow> claim_item_row list" where
  "items_of i s = filter (\<lambda>it. it_claim_id it = i) (payment_claim_items s)"

definition claim_row_ok :: "sbp_db \<Rightarrow> claim_row \<Rightarrow> bool" where
  "claim_row_ok s r \<longleftrightarrow>
     0 < cm_amount_kopecks r \<and> cm_amount_kopecks r < MAX_AMOUNT_KOPECKS
     \<and> (cm_resolved_at r = None \<longleftrightarrow> cm_status r = Claimed)
     \<and> (cm_initiated_by r = ByTeacher \<longrightarrow> cm_status r = Confirmed)
     \<and> items_of (cm_id r) s \<noteq> []
     \<and> cm_amount_mismatch_kopecks r
        = cm_amount_kopecks r - sum_by it_expected_amount_kopecks (items_of (cm_id r) s)
     \<and> refunded (cm_id r) s \<le> cm_amount_kopecks r"

definition claims_ok :: "sbp_db \<Rightarrow> bool" where
  "claims_ok s \<longleftrightarrow>
     distinct (map cm_id (payment_claims s))
     \<and> distinct (map it_id (payment_claim_items s))
     \<and> distinct (map rf_id (payment_refunds s))
     \<and> (\<forall>r \<in> set (payment_claims s). claim_row_ok s r)
     \<and> (\<forall>it \<in> set (payment_claim_items s). item_check it \<and> claim_by_id (it_claim_id it) s \<noteq> None)
     \<and> (\<forall>x \<in> set (payment_claim_items s). \<forall>y \<in> set (payment_claim_items s).
          \<forall>k. it_slot_id x = Some k \<and> it_slot_id y = Some k \<and> item_live s x \<and> item_live s y \<longrightarrow> x = y)
     \<and> (\<forall>f \<in> set (payment_refunds s). 0 < rf_amount_kopecks f
          \<and> (\<exists>r. claim_by_id (rf_claim_id f) s = Some r \<and> cm_status r = Confirmed))"

text \<open>What the loop over the items has checked.\<close>

definition item_fits ::
  "platform \<Rightarrow> clock \<Rightarrow> string \<Rightarrow> string \<Rightarrow> db \<Rightarrow> sbp_db \<Rightarrow> item_record \<Rightarrow> bool" where
  "item_fits pf c teacher learner d s it \<longleftrightarrow>
     (case (ir_slotId it, ir_packagePurchaseId it) of
        (Some i, None) \<Rightarrow>
          (case slot_by_id d (pg_uuid i) of
             None \<Rightarrow> False
           | Some row \<Rightarrow>
               ls_teacher_account_id row = teacher \<and> ls_learner_account_id row = Some learner
               \<and> isWithinPaymentRetroWindow c (ls_start_at row)
               \<and> \<not> slot_already_paid (pg_uuid i) d s
               \<and> ir_expected it = coalesce (ls_snapshot_amount_kopecks row) 0
               \<and> ir_label it = buildUnpaidSlotLabel pf (ls_start_at row) (ls_duration_minutes row))
      | (None, Some i) \<Rightarrow>
          (case purchase_by_id d (pg_uuid i) of
             None \<Rightarrow> False
           | Some p \<Rightarrow>
               pp_account_id p = learner \<and> (pp_teacher_id p = None \<or> pp_teacher_id p = Some teacher)
               \<and> ir_expected it = pp_amount_kopecks p \<and> ir_label it = pp_title_snapshot p)
      | _ \<Rightarrow> False)"

lemma slot_item_fits:
  assumes "slot_item pf c teacher learner i d s = Inr (Inr r)"
  shows "item_fits pf c teacher learner d s r \<and> ir_slotId r = Some i \<and> ir_packagePurchaseId r = None"
proof (cases "slot_by_id d (pg_uuid i)")
  case None
  with assms show ?thesis by (simp add: slot_item_def loadSlotSnapshot_def split: if_splits)
next
  case (Some row)
  with assms show ?thesis
    by (auto simp: slot_item_def loadSlotSnapshot_def item_fits_def isSlotPastRetroWindow_def split: if_splits)
qed

lemma package_item_fits:
  assumes "package_item teacher learner i d = Inr (Inr r)"
  shows "item_fits pf c teacher learner d s r \<and> ir_slotId r = None \<and> ir_packagePurchaseId r = Some i"
proof (cases "purchase_by_id d (pg_uuid i)")
  case None
  with assms show ?thesis by (simp add: package_item_def split: if_splits)
next
  case (Some p)
  with assms show ?thesis by (auto simp: package_item_def item_fits_def split: if_splits)
qed

lemma claim_item_fits:
  assumes "claim_item pf c teacher learner d s item = Inr (Inr r)"
  shows "item_fits pf c teacher learner d s r
    \<and> ir_slotId r = truthy_id (pi_slotId item) \<and> ir_packagePurchaseId r = truthy_id (pi_packagePurchaseId item)"
proof (cases "truthy_id (pi_slotId item)"; cases "truthy_id (pi_packagePurchaseId item)")
  fix i assume *: "truthy_id (pi_slotId item) = Some i" "truthy_id (pi_packagePurchaseId item) = None"
  with assms have "slot_item pf c teacher learner i d s = Inr (Inr r)" by (simp add: claim_item_def)
  with slot_item_fits * show ?thesis by metis
next
  fix i assume *: "truthy_id (pi_slotId item) = None" "truthy_id (pi_packagePurchaseId item) = Some i"
  with assms have "package_item teacher learner i d = Inr (Inr r)" by (simp add: claim_item_def)
  with package_item_fits * show ?thesis by metis
qed (use assms in \<open>simp_all add: claim_item_def\<close>)

lemma claim_items_Cons_okE:
  assumes "claim_items pf c teacher learner d s (item # items) = Inr (Inr recs)"
  obtains x xs where "claim_item pf c teacher learner d s item = Inr (Inr x)"
    "claim_items pf c teacher learner d s items = Inr (Inr xs)" "recs = x # xs"
proof -
  from assms obtain r where r: "claim_item pf c teacher learner d s item = Inr r"
    by (cases "claim_item pf c teacher learner d s item") auto
  with assms obtain x where x: "r = Inr x" by (cases r) auto
  from assms r x obtain rs where rs: "claim_items pf c teacher learner d s items = Inr rs"
    by (cases "claim_items pf c teacher learner d s items") auto
  with assms r x obtain xs where "rs = Inr xs" "recs = x # xs" by (cases rs) auto
  with r x rs that show ?thesis by blast
qed

lemma claim_items_fit:
  "claim_items pf c teacher learner d s items = Inr (Inr recs) \<Longrightarrow>
   length recs = length items \<and> list_all (item_fits pf c teacher learner d s) recs
   \<and> map ir_slotId recs = map (truthy_id \<circ> pi_slotId) items
   \<and> map ir_packagePurchaseId recs = map (truthy_id \<circ> pi_packagePurchaseId) items"
proof (induction items arbitrary: recs)
  case (Cons item items)
  from Cons.prems obtain x xs where "claim_item pf c teacher learner d s item = Inr (Inr x)"
    "claim_items pf c teacher learner d s items = Inr (Inr xs)" "recs = x # xs"
    by (rule claim_items_Cons_okE)
  with Cons.IH [of xs] claim_item_fits [of pf c teacher learner d s item x] show ?case by simp
qed simp

text \<open>What the insert of the items leaves.\<close>

fun item_rows :: "(nat \<Rightarrow> uuid) \<Rightarrow> nat \<Rightarrow> uuid \<Rightarrow> item_record list \<Rightarrow> claim_item_row list" where
  "item_rows ids n claimId [] = []"
| "item_rows ids n claimId (it # rest) = item_row (ids n) claimId it # item_rows ids (Suc n) claimId rest"

definition fresh_item :: "claim_item_row list \<Rightarrow> claim_item_row \<Rightarrow> bool" where
  "fresh_item items it \<longleftrightarrow> item_check it \<and> (\<forall>x \<in> set items. it_id x \<noteq> it_id it \<and> \<not> same_item x it)"

fun all_fresh :: "claim_item_row list \<Rightarrow> claim_item_row list \<Rightarrow> bool" where
  "all_fresh items [] \<longleftrightarrow> True"
| "all_fresh items (it # rest) \<longleftrightarrow> fresh_item items it \<and> all_fresh (items @ [it]) rest"

lemma insert_items_InrD:
  "insert_items ids n claimId recs s = Inr s' \<Longrightarrow>
   s' = s\<lparr>payment_claim_items := payment_claim_items s @ item_rows ids n claimId recs\<rparr>
   \<and> all_fresh (payment_claim_items s) (item_rows ids n claimId recs)"
proof (induction recs arbitrary: n s)
  case (Cons it rest)
  then have ins: "pg_insert_item (item_row (ids n) claimId it) s
      = Inr (s\<lparr>payment_claim_items := payment_claim_items s @ [item_row (ids n) claimId it]\<rparr>)"
    by (auto simp: bindR_eq_Inr_iff pg_insert_item_def split: if_splits)
  then have "fresh_item (payment_claim_items s) (item_row (ids n) claimId it)"
    by (auto simp: pg_insert_item_def fresh_item_def list_ex_iff split: if_splits)
  with ins Cons.IH [of "Suc n" "s\<lparr>payment_claim_items := payment_claim_items s @ [item_row (ids n) claimId it]\<rparr>"]
    Cons.prems show ?case by simp
qed simp

lemma all_fresh_distinct:
  "all_fresh items rows \<Longrightarrow> distinct (map it_id items) \<Longrightarrow> distinct (map it_id (items @ rows))"
  by (induction rows arbitrary: items) (fastforce simp: fresh_item_def)+

lemma all_fresh_check: "all_fresh items rows \<Longrightarrow> \<forall>it \<in> set rows. item_check it"
  by (induction rows arbitrary: items) (auto simp: fresh_item_def)

lemma all_fresh_old: "all_fresh items rows \<Longrightarrow> x \<in> set items \<Longrightarrow> y \<in> set rows \<Longrightarrow> \<not> same_item x y"
proof (induction rows arbitrary: items)
  case (Cons it rest)
  then show ?case using Cons.IH [of "items @ [it]"] by (auto simp: fresh_item_def)
qed simp

lemma all_fresh_new:
  "all_fresh items rows \<Longrightarrow> x \<in> set rows \<Longrightarrow> y \<in> set rows \<Longrightarrow> same_item x y \<Longrightarrow> x = y"
proof (induction rows arbitrary: items)
  case (Cons it rest)
  have sym: "same_item a b \<Longrightarrow> same_item b a" for a b by (simp add: same_item_def)
  from Cons.prems have "\<not> same_item it z" if "z \<in> set rest" for z
    using that all_fresh_old [of "items @ [it]" rest it z] by auto
  with Cons sym show ?case by auto
qed simp

lemma item_rows_mem:
  "y \<in> set (item_rows ids n claimId recs) \<Longrightarrow> it_claim_id y = claimId
     \<and> (\<exists>r \<in> set recs. it_slot_id y = map_option pg_uuid (ir_slotId r)
          \<and> it_package_purchase_id y = map_option pg_uuid (ir_packagePurchaseId r))"
  by (induction recs arbitrary: n) (auto simp: item_row_def)

lemma item_rows_sum: "sum_by it_expected_amount_kopecks (item_rows ids n claimId recs) = sum_by ir_expected recs"
  by (induction recs arbitrary: n) (simp_all add: item_row_def)

lemma item_rows_eq_Nil [simp]: "item_rows ids n claimId recs = [] \<longleftrightarrow> recs = []"
  by (cases recs) simp_all

lemma store_claim_okE:
  assumes "store_claim pf c newId ids input who status paidAt d s = Inr (Inr i, s')"
  obtains recs ln tn snap mid paid r where
    "claim_items pf c (rq_teacherAccountId input) (rq_learnerAccountId input) d s (rq_items input) = Inr (Inr recs)"
    "i = newId" "r = claim_of c newId input who status paid recs ln tn snap mid"
    "loadDisplayName (rq_learnerAccountId input) s = Inr ln" "loadDisplayName (rq_teacherAccountId input) s = Inr tn"
    "method_snapshot (rq_paymentMethodId input) s = Inr snap" "pg_uuid_opt (rq_paymentMethodId input) = Inr mid"
    "timestamptz_opt pf paidAt = Inr paid"
    "claim_check c r" "claim_by_id newId s = None"
    "s' = s\<lparr>payment_claims := payment_claims s @ [r],
            payment_claim_items := payment_claim_items s @ item_rows ids 0 newId recs\<rparr>"
    "all_fresh (payment_claim_items s) (item_rows ids 0 newId recs)"
proof -
  let ?items = "claim_items pf c (rq_teacherAccountId input) (rq_learnerAccountId input) d s (rq_items input)"
  from assms obtain x where x: "?items = Inr x"
    by (cases ?items) (simp_all add: store_claim_def)
  with assms obtain recs where recs: "?items = Inr (Inr recs)"
    by (cases x) (simp_all add: store_claim_def)
  with assms obtain ln tn snap mid paid s1 s2 where w:
    "loadDisplayName (rq_learnerAccountId input) s = Inr ln" "loadDisplayName (rq_teacherAccountId input) s = Inr tn"
    "method_snapshot (rq_paymentMethodId input) s = Inr snap" "pg_uuid_opt (rq_paymentMethodId input) = Inr mid"
    "timestamptz_opt pf paidAt = Inr paid"
    and ins: "pg_insert_claim c (claim_of c newId input who status paid recs ln tn snap mid) s = Inr s1"
    and items: "insert_items ids 0 newId recs s1 = Inr s2" and fin: "i = newId" "s' = s2"
    unfolding store_claim_def recs by (auto simp: bindR_eq_Inr_iff)
  let ?r = "claim_of c newId input who status paid recs ln tn snap mid"
  have "cm_id ?r = newId" by (simp add: claim_of_def)
  with ins have r: "claim_check c ?r" "claim_by_id newId s = None"
    "s1 = s\<lparr>payment_claims := payment_claims s @ [?r]\<rparr>"
    by (auto simp: pg_insert_claim_def split: if_splits)
  show ?thesis
    using that [OF recs fin(1) refl w r(1,2)] insert_items_InrD [OF items] fin(2) r(3) by simp
qed

lemma store_claim_refused:
  "store_claim pf c newId ids input who status paidAt d s = Inr (Inl e, s') \<Longrightarrow> s' = s"
proof (cases "claim_items pf c (rq_teacherAccountId input) (rq_learnerAccountId input) d s (rq_items input)")
  case (Inr x)
  then show "store_claim pf c newId ids input who status paidAt d s = Inr (Inl e, s') \<Longrightarrow> s' = s"
    by (cases x) (auto simp: store_claim_def bindR_eq_Inr_iff)
qed (simp add: store_claim_def)

lemma claim_by_id_append:
  "claim_by_id i (s\<lparr>payment_claims := payment_claims s @ [r], payment_claim_items := xs\<rparr>)
     = (case claim_by_id i s of None \<Rightarrow> if cm_id r = i then Some r else None | Some q \<Rightarrow> Some q)"
  by (simp add: claim_by_id_def find_by_snoc)

lemma claims_ok_fresh:
  assumes "claims_ok s" and "claim_by_id i s = None"
  shows "items_of i s = []" and "refunded i s = 0" and "i \<notin> cm_id ` set (payment_claims s)"
proof -
  have "it_claim_id x \<noteq> i" if "x \<in> set (payment_claim_items s)" for x
    using assms that unfolding claims_ok_def by metis
  then show "items_of i s = []" by (simp add: items_of_def filter_empty_conv)
  have "rf_claim_id f \<noteq> i" if "f \<in> set (payment_refunds s)" for f
    using assms that unfolding claims_ok_def by force
  then have "filter (\<lambda>f. rf_claim_id f = i) (payment_refunds s) = []" by (simp add: filter_empty_conv)
  then show "refunded i s = 0" by (simp add: refunded_def)
  show "i \<notin> cm_id ` set (payment_claims s)"
    using assms(2) by (simp add: claim_by_id_def find_by_None_iff)
qed

lemma claims_okD:
  assumes "claims_ok s"
  shows "r \<in> set (payment_claims s) \<Longrightarrow> claim_row_ok s r"
    and "it \<in> set (payment_claim_items s) \<Longrightarrow> item_check it"
    and "it \<in> set (payment_claim_items s) \<Longrightarrow> \<exists>r. claim_by_id (it_claim_id it) s = Some r"
    and "f \<in> set (payment_refunds s) \<Longrightarrow> \<exists>r. claim_by_id (rf_claim_id f) s = Some r \<and> cm_status r = Confirmed"
    and "f \<in> set (payment_refunds s) \<Longrightarrow> 0 < rf_amount_kopecks f"
    and "x \<in> set (payment_claim_items s) \<Longrightarrow> y \<in> set (payment_claim_items s) \<Longrightarrow> it_slot_id x = Some k
      \<Longrightarrow> it_slot_id y = Some k \<Longrightarrow> item_live s x \<Longrightarrow> item_live s y \<Longrightarrow> x = y"
  using assms by (auto simp: claims_ok_def)

lemma item_check_slot: "item_check it \<Longrightarrow> it_slot_id it = Some k \<Longrightarrow> it_package_purchase_id it = None"
  by (auto simp: item_check_def)

text \<open>A new claim with its items: the lessons it lists are in no live claim.\<close>

definition with_claim :: "claim_row \<Rightarrow> claim_item_row list \<Rightarrow> sbp_db \<Rightarrow> sbp_db" where
  "with_claim r rows s =
     s\<lparr>payment_claims := payment_claims s @ [r], payment_claim_items := payment_claim_items s @ rows\<rparr>"

lemma with_claim_sel [simp]:
  "payment_claims (with_claim r rows s) = payment_claims s @ [r]"
  "payment_claim_items (with_claim r rows s) = payment_claim_items s @ rows"
  "payment_refunds (with_claim r rows s) = payment_refunds s"
  "refunded i (with_claim r rows s) = refunded i s"
  "claim_by_id i (with_claim r rows s)
     = (case claim_by_id i s of None \<Rightarrow> if cm_id r = i then Some r else None | Some q \<Rightarrow> Some q)"
  by (simp_all add: with_claim_def refunded_def claim_by_id_append)

definition insertable :: "sbp_db \<Rightarrow> claim_row \<Rightarrow> claim_item_row list \<Rightarrow> bool" where
  "insertable s r rows \<longleftrightarrow>
     claims_ok s \<and> claim_by_id (cm_id r) s = None \<and> all_fresh (payment_claim_items s) rows
     \<and> (\<forall>y \<in> set rows. it_claim_id y = cm_id r \<and> (\<forall>k. it_slot_id y = Some k \<longrightarrow> \<not> slot_claimed k s))"

lemma insertableD:
  assumes "insertable s r rows"
  shows "claims_ok s" and "claim_by_id (cm_id r) s = None" and "all_fresh (payment_claim_items s) rows"
    and "y \<in> set rows \<Longrightarrow> it_claim_id y = cm_id r"
    and "y \<in> set rows \<Longrightarrow> it_slot_id y = Some k \<Longrightarrow> \<not> slot_claimed k s"
  using assms by (auto simp: insertable_def)

lemma live_old:
  "claims_ok s \<Longrightarrow> x \<in> set (payment_claim_items s) \<Longrightarrow> item_live (with_claim r rows s) x = item_live s x"
  using claims_okD(3) [of s x] by (auto simp: item_live_def)

lemma items_with_claim:
  assumes "insertable s r rows"
  shows "items_of i (with_claim r rows s) = (if i = cm_id r then rows else items_of i s)"
proof -
  have "filter (\<lambda>it. it_claim_id it = i) rows = (if i = cm_id r then rows else [])"
    using insertableD(4) [OF assms] by (auto simp: filter_empty_conv filter_id_conv)
  with claims_ok_fresh(1) [OF insertableD(1,2) [OF assms]] show ?thesis by (auto simp: items_of_def)
qed

lemma unique_with_claim:
  assumes ins: "insertable s r rows"
    and x: "x \<in> set (payment_claim_items s @ rows)" and y: "y \<in> set (payment_claim_items s @ rows)"
    and k: "it_slot_id x = Some k" "it_slot_id y = Some k"
    and l: "item_live (with_claim r rows s) x" "item_live (with_claim r rows s) y"
  shows "x = y"
proof -
  note ok = insertableD(1) [OF ins] and fresh = insertableD(3) [OF ins]
  have apart: False if "z \<in> set (payment_claim_items s)" "w \<in> set rows" "it_slot_id z = Some k" "it_slot_id w = Some k"
    "item_live (with_claim r rows s) z" for z w
    using insertableD(5) [OF ins that(2,4)] that live_old [OF ok] by (auto simp: slot_claimed_def list_ex_iff)
  have new_eq: "x = y" if m: "x \<in> set rows" "y \<in> set rows"
  proof (rule all_fresh_new [OF fresh m])
    have "item_check x" "item_check y" using all_fresh_check [OF fresh] m by auto
    then show "same_item x y"
      using k insertableD(4) [OF ins] m by (simp add: same_item_def item_check_slot)
  qed
  have old_eq: "x = y" if m: "x \<in> set (payment_claim_items s)" "y \<in> set (payment_claim_items s)"
    using claims_okD(6) [OF ok m k] l live_old [OF ok] m by blast
  show ?thesis using x y apart [of x y] apart [of y x] k l new_eq old_eq by auto
qed

lemma with_claim_ok:
  assumes ins: "insertable s r rows" and row: "rows \<noteq> []" "0 < cm_amount_kopecks r" "cm_amount_kopecks r < MAX_AMOUNT_KOPECKS"
      "cm_resolved_at r = None \<longleftrightarrow> cm_status r = Claimed" "cm_initiated_by r = ByTeacher \<Longrightarrow> cm_status r = Confirmed"
      "cm_amount_mismatch_kopecks r = cm_amount_kopecks r - sum_by it_expected_amount_kopecks rows"
  shows "claims_ok (with_claim r rows s)"
proof -
  note ok = insertableD(1) [OF ins] and rows_fresh = insertableD(3) [OF ins] and new = insertableD(2) [OF ins]
  note fresh = claims_ok_fresh [OF ok new]
  have rows_ok: "claim_row_ok (with_claim r rows s) q" if "q \<in> set (payment_claims s @ [r])" for q
  proof (cases "q = r")
    case True
    with row fresh(2) show ?thesis by (auto simp: claim_row_ok_def items_with_claim [OF ins])
  next
    case False
    with that have q: "q \<in> set (payment_claims s)" by simp
    with fresh(3) have "cm_id q \<noteq> cm_id r" by (metis imageI)
    with claims_okD(1) [OF ok q] show ?thesis by (simp add: claim_row_ok_def items_with_claim [OF ins])
  qed
  have members: "item_check it \<and> claim_by_id (it_claim_id it) (with_claim r rows s) \<noteq> None"
    if "it \<in> set (payment_claim_items s @ rows)" for it
  proof (cases "it \<in> set rows")
    case True
    with all_fresh_check [OF rows_fresh] insertableD(4) [OF ins] new show ?thesis by simp
  next
    case False
    with that have "it \<in> set (payment_claim_items s)" by simp
    with claims_okD(2) [OF ok this] claims_okD(3) [OF ok this] show ?thesis by auto
  qed
  have refunds: "0 < rf_amount_kopecks f \<and> (\<exists>q. claim_by_id (rf_claim_id f) (with_claim r rows s) = Some q \<and> cm_status q = Confirmed)"
    if "f \<in> set (payment_refunds s)" for f
    using claims_okD(4,5) [OF ok that] by auto
  have "distinct (map cm_id (payment_claims s @ [r]))" "distinct (map it_id (payment_claim_items s @ rows))"
    "distinct (map rf_id (payment_refunds s))"
    using ok fresh(3) all_fresh_distinct [OF rows_fresh] by (simp_all add: claims_ok_def)
  with rows_ok members refunds unique_with_claim [OF ins] show ?thesis
    unfolding claims_ok_def with_claim_sel(1-3) by blast
qed

lemma store_claim_ok:
  assumes ok: "claims_ok s" and st: "store_claim pf c newId ids input who status paidAt d s = Inr (Inr i, s')"
    and kind: "who = ByTeacher \<and> status = Confirmed \<or> who = ByLearner \<and> status = Claimed"
    and items: "rq_items input \<noteq> []"
  shows "claims_ok s'"
  using st
proof (rule store_claim_okE)
  fix recs ln tn snap mid paid r
  assume recs: "claim_items pf c (rq_teacherAccountId input) (rq_learnerAccountId input) d s (rq_items input) = Inr (Inr recs)"
    and r: "r = claim_of c newId input who status paid recs ln tn snap mid" "claim_check c r" "claim_by_id newId s = None"
    and s': "s' = s\<lparr>payment_claims := payment_claims s @ [r],
            payment_claim_items := payment_claim_items s @ item_rows ids 0 newId recs\<rparr>"
    and fresh: "all_fresh (payment_claim_items s) (item_rows ids 0 newId recs)"
  have id: "cm_id r = newId" using r(1) by (simp add: claim_of_def)
  have fits: "length recs = length (rq_items input)"
    "list_all (item_fits pf c (rq_teacherAccountId input) (rq_learnerAccountId input) d s) recs"
    using claim_items_fit [OF recs] by simp_all
  have free: "\<not> slot_claimed k s" if "y \<in> set (item_rows ids 0 newId recs)" "it_slot_id y = Some k" for y k
  proof -
    from item_rows_mem [OF that(1)] that(2) obtain q where "q \<in> set recs" "Some k = map_option pg_uuid (ir_slotId q)"
      by auto
    then obtain i where q: "q \<in> set recs" "ir_slotId q = Some i" "k = pg_uuid i" by (cases "ir_slotId q") auto
    with fits(2) have "item_fits pf c (rq_teacherAccountId input) (rq_learnerAccountId input) d s q"
      by (simp add: list_all_iff)
    with q show ?thesis by (auto simp: item_fits_def slot_already_paid_def split: option.splits)
  qed
  have "insertable s r (item_rows ids 0 newId recs)"
    using ok r(3) id fresh free item_rows_mem by (fastforce simp: insertable_def)
  moreover have "s' = with_claim r (item_rows ids 0 newId recs) s" using s' by (simp add: with_claim_def)
  moreover have "recs \<noteq> []" using fits(1) items by auto
  ultimately show "claims_ok s'"
    using r(2) kind
    by (auto intro!: with_claim_ok simp: r(1) claim_of_def claim_check_def item_rows_sum MAX_AMOUNT_KOPECKS_def)
qed

lemma claims_ok_resolve:
  assumes ok: "claims_ok s" and r: "claim_by_id (cm_id r') s = Some r" "cm_status r = Claimed"
    and r': "cm_amount_kopecks r' = cm_amount_kopecks r" "cm_amount_mismatch_kopecks r' = cm_amount_mismatch_kopecks r"
      "cm_initiated_by r' = cm_initiated_by r" "cm_resolved_at r' \<noteq> None" "cm_status r' \<noteq> Claimed"
  shows "claims_ok (s\<lparr>payment_claims := replace_row cm_id r' (payment_claims s)\<rparr>)" (is "claims_ok ?s")
proof -
  have mem: "r \<in> set (payment_claims s)" "cm_id r = cm_id r'"
    using r(1) by (auto simp: claim_by_id_def dest: find_by_SomeD)
  have look: "claim_by_id i ?s = (if i = cm_id r' then Some r' else claim_by_id i s)" for i
    using r(1) by (simp add: claim_by_id_def find_by_replace_row)
  have live: "item_live s x" if "item_live ?s x" for x
    using that r by (auto simp: item_live_def look claim_live_def split: if_splits)
  have same: "items_of i ?s = items_of i s" "refunded i ?s = refunded i s" for i
    by (simp_all add: items_of_def refunded_def)
  have rows_ok: "claim_row_ok ?s q" if "q \<in> set (payment_claims ?s)" for q
  proof (cases "q = r'")
    case True
    with claims_okD(1) [OF ok mem(1)] r(2) r' mem(2) show ?thesis by (simp add: claim_row_ok_def same)
  next
    case False
    with that set_replace_row [of cm_id r' "payment_claims s"] have "q \<in> set (payment_claims s)" by auto
    with claims_okD(1) [OF ok this] show ?thesis by (simp add: claim_row_ok_def same)
  qed
  have refunds: "0 < rf_amount_kopecks f \<and> (\<exists>q. claim_by_id (rf_claim_id f) ?s = Some q \<and> cm_status q = Confirmed)"
    if "f \<in> set (payment_refunds s)" for f
    using claims_okD(4,5) [OF ok that] r by (auto simp: look)
  have members: "item_check it \<and> claim_by_id (it_claim_id it) ?s \<noteq> None" if "it \<in> set (payment_claim_items s)" for it
    using claims_okD(2) [OF ok that] claims_okD(3) [OF ok that] by (auto simp: look)
  have d: "distinct (map cm_id (payment_claims ?s))" "distinct (map it_id (payment_claim_items ?s))"
    "distinct (map rf_id (payment_refunds ?s))"
    using ok by (simp_all add: claims_ok_def map_key_replace_row)
  have unique: "x = y" if "x \<in> set (payment_claim_items ?s)" "y \<in> set (payment_claim_items ?s)"
    "it_slot_id x = Some k" "it_slot_id y = Some k" "item_live ?s x" "item_live ?s y" for x y k
    using claims_okD(6) [OF ok _ _ that(3,4)] that live by simp
  from d rows_ok members refunds unique show ?thesis unfolding claims_ok_def by simp
qed

lemma resolve_claim_cases:
  assumes "resolve_claim c owner ready f claimId s = Inr (res, s')"
  obtains e where "res = Inl e" and "s' = s"
  | r where "claim_by_id (pg_uuid claimId) s = Some r" and "owner r" and "ready r" and "claim_check c (f r)"
      and "res = Inr (cm_status (f r))" and "s' = s\<lparr>payment_claims := replace_row cm_id (f r) (payment_claims s)\<rparr>"
  using assms by (auto simp: resolve_claim_def split: option.splits if_splits)

lemma resolve_claim_ok:
  assumes ok: "claims_ok s" and step: "resolve_claim c owner ready f claimId s = Inr (res, s')"
    and ready: "\<And>r. ready r \<Longrightarrow> cm_status r = Claimed"
    and f: "\<And>r. cm_id (f r) = cm_id r" "\<And>r. cm_amount_kopecks (f r) = cm_amount_kopecks r"
      "\<And>r. cm_amount_mismatch_kopecks (f r) = cm_amount_mismatch_kopecks r"
      "\<And>r. cm_initiated_by (f r) = cm_initiated_by r" "\<And>r. cm_resolved_at (f r) \<noteq> None" "\<And>r. cm_status (f r) \<noteq> Claimed"
  shows "claims_ok s'"
  using step
proof (cases rule: resolve_claim_cases)
  case (2 r)
  have "cm_id r = pg_uuid claimId" using 2(1) find_by_key by (fastforce simp: claim_by_id_def)
  with 2 f ready claims_ok_resolve [OF ok, of "f r" r] show ?thesis by simp
qed (simp add: ok)

lemma createRefund_cases:
  assumes "createRefund c newId teacher claimId amount reason note s = Inr (res, s')"
  obtains e where "res = Inl e" and "s' = s"
  | k r where "amount = JsInt k" "0 < k" "k < MAX_AMOUNT_KOPECKS" and "claim_by_id (pg_uuid claimId) s = Some r"
      and "cm_teacher_account_id r = Some teacher" and "cm_status r = Confirmed"
      and "refunded (pg_uuid claimId) s + k \<le> cm_amount_kopecks r"
      and "newId \<notin> rf_id ` set (payment_refunds s)" and "res = Inr newId"
      and "s' = s\<lparr>payment_refunds := payment_refunds s @
             [\<lparr>rf_id = newId, rf_claim_id = pg_uuid claimId, rf_amount_kopecks = k, rf_reason = reason,
               rf_note = note, rf_refunded_at = pg_now c\<rparr>]\<rparr>"
proof (cases amount)
  case (JsInt k)
  show ?thesis
  proof (cases "claim_by_id (pg_uuid claimId) s")
    case None
    with assms that(1) JsInt show ?thesis by (auto simp: createRefund_def split: if_splits)
  next
    case (Some r)
    with assms that(1) JsInt that(2) [of k r] show ?thesis
      by (auto simp: createRefund_def find_by_None_iff split: if_splits)
  qed
qed (use assms that(1) in \<open>auto simp: createRefund_def\<close>)

lemma createRefund_ok:
  assumes ok: "claims_ok s" and step: "createRefund c newId teacher claimId amount reason note s = Inr (res, s')"
  shows "claims_ok s'"
  using step
proof (cases rule: createRefund_cases)
  case (2 k r)
  have r: "r \<in> set (payment_claims s)" "cm_id r = pg_uuid claimId"
    using 2(4) by (auto simp: claim_by_id_def dest: find_by_SomeD)
  have look: "claim_by_id i s' = claim_by_id i s" "items_of i s' = items_of i s" "item_live s' x = item_live s x" for i x
    by (simp_all add: 2(10) claim_by_id_def items_of_def item_live_def)
  have sum: "refunded i s' = (if i = pg_uuid claimId then refunded i s + k else refunded i s)" for i
    by (simp add: 2(10) refunded_def)
  have rows: "claim_row_ok s' q" if "q \<in> set (payment_claims s)" for q
  proof -
    have "q = r" if "cm_id q = pg_uuid claimId"
      using ok that \<open>q \<in> _\<close> r by (auto simp: claims_ok_def intro: distinct_key_eq [of cm_id])
    with claims_okD(1) [OF ok that] 2(7) r(2) show ?thesis by (auto simp: claim_row_ok_def look sum)
  qed
  have "distinct (map rf_id (payment_refunds s'))" using ok 2(8) by (simp add: claims_ok_def 2(10))
  with rows ok 2(2,4,6) show ?thesis unfolding claims_ok_def look by (simp add: 2(10))
qed (simp add: ok)

lemma request_refusal_None_iff:
  "request_refusal amount items = None \<longleftrightarrow>
     (\<exists>k. amount = JsInt k \<and> 0 < k \<and> k < MAX_AMOUNT_KOPECKS) \<and> items \<noteq> [] \<and> length items \<le> 20"
  by (auto simp: request_refusal_def split: js_num.splits)

lemma createTeacherMarkPaid_cases:
  assumes "createTeacherMarkPaid pf c newId ids input d s = Inr (res, s')"
  obtains e where "res = Inl e" and "s' = s"
  | i where "res = Inr i" and "request_refusal (rq_amountKopecks input) (rq_items input) = None"
      and "paid_at_refusal pf c (mp_paidAt input) = None"
      and "method_refusal_of False (rq_teacherAccountId input) (rq_paymentChannel input) (rq_paymentMethodId input) s
             = Inr None"
      and "store_claim pf c newId ids input ByTeacher Confirmed (mp_paidAt input) d s = Inr (Inr i, s')"
proof (cases res)
  case (Inl e)
  then have "s' = s"
    using assms by (auto simp: createTeacherMarkPaid_def bindR_eq_Inr_iff dest: store_claim_refused split: option.splits)
  with Inl that(1) show ?thesis by blast
next
  case (Inr i)
  with assms that(2) show ?thesis
    by (auto simp: createTeacherMarkPaid_def bindR_eq_Inr_iff split: option.splits)
qed

lemma createLearnerClaim_cases:
  assumes "createLearnerClaim pf c newId ids input d s = Inr (res, s')"
  obtains e where "res = Inl e" and "s' = s"
  | i where "res = Inr i" and "request_refusal (rq_amountKopecks input) (rq_items input) = None"
      and "\<not> (rq_paymentChannel input = ChannelSbp \<and> truthy_id (rq_paymentMethodId input) = None)"
      and "method_refusal_of True (rq_teacherAccountId input) (rq_paymentChannel input) (rq_paymentMethodId input) s
             = Inr None"
      and "store_claim pf c newId ids input ByLearner Claimed None d s = Inr (Inr i, s')"
proof (cases res)
  case (Inl e)
  then have "s' = s"
    using assms by (auto simp: createLearnerClaim_def bindR_eq_Inr_iff dest: store_claim_refused split: option.splits if_splits)
  with Inl that(1) show ?thesis by blast
next
  case (Inr i)
  with assms that(2) show ?thesis
    by (auto simp: createLearnerClaim_def bindR_eq_Inr_iff split: option.splits if_splits)
qed

lemma createTeacherMarkPaid_ok:
  assumes ok: "claims_ok s" and step: "createTeacherMarkPaid pf c newId ids input d s = Inr (res, s')"
  shows "claims_ok s'"
  using step
proof (cases rule: createTeacherMarkPaid_cases)
  case (2 i)
  then show ?thesis using store_claim_ok [OF ok 2(5)] by (simp add: request_refusal_None_iff)
qed (simp add: ok)

lemma createLearnerClaim_ok:
  assumes ok: "claims_ok s" and step: "createLearnerClaim pf c newId ids input d s = Inr (res, s')"
  shows "claims_ok s'"
  using step
proof (cases rule: createLearnerClaim_cases)
  case (2 i)
  then show ?thesis using store_claim_ok [OF ok 2(5)] by (simp add: request_refusal_None_iff)
qed (simp add: ok)

lemma resolutions_ok:
  assumes "claims_ok s"
  shows "confirmClaim c t i s = Inr (res, s') \<Longrightarrow> claims_ok s'"
    and "declineClaim c t i note s = Inr (res, s') \<Longrightarrow> claims_ok s'"
    and "cancelClaimByLearner c l i s = Inr (res, s') \<Longrightarrow> claims_ok s'"
  unfolding confirmClaim_def declineClaim_def cancelClaimByLearner_def
  by (erule resolve_claim_ok [OF assms]; simp)+

section \<open>The journal as a system\<close>

inductive sbp_step :: "sbp_db \<Rightarrow> sbp_db \<Rightarrow> bool" where
  step_markPaid: "createTeacherMarkPaid pf c newId ids input d s = Inr (r, s') \<Longrightarrow> sbp_step s s'"
| step_claim: "createLearnerClaim pf c newId ids input' d s = Inr (r, s') \<Longrightarrow> sbp_step s s'"
| step_confirm: "confirmClaim c t i s = Inr (r', s') \<Longrightarrow> sbp_step s s'"
| step_decline: "declineClaim c t i note s = Inr (r', s') \<Longrightarrow> sbp_step s s'"
| step_cancel: "cancelClaimByLearner c l i s = Inr (r', s') \<Longrightarrow> sbp_step s s'"
| step_refund: "createRefund c newId t i k reason note s = Inr (r'', s') \<Longrightarrow> sbp_step s s'"
| step_policy: "setTeacherPaymentPolicy t a b s = s' \<Longrightarrow> sbp_step s s'"
| step_method: "method_step s s' \<Longrightarrow> sbp_step s s'"

definition same_journal :: "sbp_db \<Rightarrow> sbp_db \<Rightarrow> bool" where
  "same_journal s s' \<longleftrightarrow> payment_claims s' = payment_claims s \<and> payment_claim_items s' = payment_claim_items s
     \<and> payment_refunds s' = payment_refunds s"

lemma same_journal_reads:
  assumes "same_journal s s'"
  shows "claims_ok s' = claims_ok s" and "claim_by_id i s' = claim_by_id i s" and "items_of i s' = items_of i s"
proof -
  show look: "claim_by_id i s' = claim_by_id i s" for i using assms by (simp add: same_journal_def claim_by_id_def)
  show its: "items_of i s' = items_of i s" for i using assms by (simp add: same_journal_def items_of_def)
  have "refunded i s' = refunded i s" for i using assms by (simp add: same_journal_def refunded_def)
  then have "claim_row_ok s' r = claim_row_ok s r" "item_live s' x = item_live s x" for r x
    using look its by (simp_all add: claim_row_ok_def item_live_def)
  then show "claims_ok s' = claims_ok s" using assms look by (simp add: claims_ok_def same_journal_def)
qed

lemma pg_update_method_journal: "pg_update_method m s = Inr (m', s') \<Longrightarrow> same_journal s s'"
  by (auto simp: pg_update_method_def same_journal_def split: if_splits)

lemma pg_insert_method_journal: "pg_insert_method m s = Inr (m', s') \<Longrightarrow> same_journal s s'"
  by (auto simp: pg_insert_method_def same_journal_def split: if_splits)

lemma clear_default_journal: "same_journal (clear_default t x s) s' \<longleftrightarrow> same_journal s s'"
  by (simp add: same_journal_def clear_default_def)

lemma same_journal_refl [simp]: "same_journal s s"
  and same_journal_trans: "same_journal s s1 \<Longrightarrow> same_journal s1 s2 \<Longrightarrow> same_journal s s2"
  by (simp_all add: same_journal_def)

lemma method_step_journal:
  assumes "method_step s s'"
  shows "same_journal s s'"
  using assms
proof cases
  case (1 c i input r)
  then show ?thesis
    by (auto simp: createPaymentMethod_def Let_def bindR_eq_Inr_iff clear_default_journal split: option.splits if_splits
        dest!: pg_update_method_journal pg_insert_method_journal)
next
  case (2 input r)
  have "same_journal s (clear_default t x s)" for t x by (simp add: same_journal_def clear_default_def)
  with 2 show ?thesis
    by (auto simp: updatePaymentMethod_def Let_def bindR_eq_Inr_iff clear_default_journal split: option.splits if_splits
        dest!: pg_update_method_journal)
next
  case (3 c t i r)
  then show ?thesis
    by (auto elim!: archivePaymentMethod_cases dest!: pg_update_method_journal intro: same_journal_trans)
qed

lemmas journal_ok = createTeacherMarkPaid_ok createLearnerClaim_ok resolutions_ok createRefund_ok

interpretation journal: started_system sbp_step claims_ok "\<lambda>s. payment_claims s = [] \<and> payment_claim_items s = [] \<and> payment_refunds s = []"
proof unfold_locales
  show "claims_ok s'" if "claims_ok s" and "sbp_step s s'" for s s'
    using that(2)
  proof cases
    case (step_policy t a b)
    then have "same_journal s s'" by (auto simp: setTeacherPaymentPolicy_def same_journal_def)
    with that(1) show ?thesis by (simp add: same_journal_reads)
  next
    case step_method
    with that(1) show ?thesis using same_journal_reads(1) [OF method_step_journal] by blast
  qed ((erule journal_ok [OF that(1)])+)
qed (simp add: claims_ok_def)

section \<open>What the journal promises\<close>

lemma refunded_pos:
  assumes "claims_ok s" and "r \<in> set (payment_claims s)"
  shows "0 \<le> refunded (cm_id r) s" and "refunded (cm_id r) s \<noteq> 0 \<Longrightarrow> cm_status r = Confirmed"
proof -
  show "0 \<le> refunded (cm_id r) s"
    unfolding refunded_def using claims_okD(5) [OF assms(1)] by (fastforce intro: sum_by_nonneg less_imp_le)
  show "cm_status r = Confirmed" if "refunded (cm_id r) s \<noteq> 0"
  proof -
    from that have "filter (\<lambda>f. rf_claim_id f = cm_id r) (payment_refunds s) \<noteq> []"
      unfolding refunded_def by auto
    then obtain f where f: "f \<in> set (payment_refunds s)" "rf_claim_id f = cm_id r"
      by (auto simp: filter_empty_conv)
    have "claim_by_id (cm_id r) s = Some r"
      unfolding claim_by_id_def using assms by (intro find_by_distinct) (simp_all add: claims_ok_def)
    with claims_okD(4) [OF assms(1) f(1)] f(2) show ?thesis by auto
  qed
qed

text \<open>
  C4: whatever the learners and the teachers do, in whatever order: no lesson is in two claims that
  are pending or confirmed, the mismatch of a claim is its amount less the prices of its items, and
  the refunds of a claim never exceed its amount and exist for confirmed claims only.
\<close>

theorem reachable_journal:
  assumes "payment_claims s0 = [] \<and> payment_claim_items s0 = [] \<and> payment_refunds s0 = []" and "sbp_step\<^sup>*\<^sup>* s0 s"
  shows "(\<forall>x \<in> set (payment_claim_items s). \<forall>y \<in> set (payment_claim_items s). \<forall>k.
        it_slot_id x = Some k \<and> it_slot_id y = Some k \<and> item_live s x \<and> item_live s y \<longrightarrow> x = y)
    \<and> (\<forall>r \<in> set (payment_claims s).
        cm_amount_mismatch_kopecks r
          = cm_amount_kopecks r - sum_by it_expected_amount_kopecks (items_of (cm_id r) s)
        \<and> 0 \<le> refunded (cm_id r) s \<and> refunded (cm_id r) s \<le> cm_amount_kopecks r
        \<and> (refunded (cm_id r) s \<noteq> 0 \<longrightarrow> cm_status r = Confirmed))"
proof -
  have ok: "claims_ok s" using journal.reachable_good assms by blast
  have "\<forall>r \<in> set (payment_claims s). claim_row_ok s r" using claims_okD(1) [OF ok] by blast
  then show ?thesis
    using claims_okD(6) [OF ok] refunded_pos [OF ok] by (auto simp: claim_row_ok_def)
qed

text \<open>The steps that leave a claim alone: all of them, once it is resolved.\<close>

lemma store_claim_keeps:
  assumes "store_claim pf c newId ids input who status paidAt d s = Inr (Inr i, s')" and "claim_by_id k s = Some r"
  shows "claim_by_id k s' = Some r \<and> items_of k s' = items_of k s"
  using assms(1)
proof (rule store_claim_okE)
  fix recs r'
  assume new: "claim_by_id newId s = None"
    and s': "s' = s\<lparr>payment_claims := payment_claims s @ [r'],
            payment_claim_items := payment_claim_items s @ item_rows ids 0 newId recs\<rparr>"
  have "k \<noteq> newId" using new assms(2) by auto
  then have "filter (\<lambda>it. it_claim_id it = k) (item_rows ids 0 newId recs) = []"
    using item_rows_mem by (fastforce simp: filter_empty_conv)
  with assms(2) show ?thesis by (simp add: s' items_of_def claim_by_id_append)
qed

lemma resolve_claim_keeps:
  assumes step: "resolve_claim c owner ready f claimId s = Inr (res, s')"
    and ready: "\<And>r. ready r \<Longrightarrow> cm_status r = Claimed" and f: "\<And>r. cm_id (f r) = cm_id r"
    and r: "claim_by_id k s = Some r" "cm_status r \<noteq> Claimed"
  shows "claim_by_id k s' = Some r \<and> items_of k s' = items_of k s"
  using step
proof (cases rule: resolve_claim_cases)
  case (2 q)
  have "cm_id q = pg_uuid claimId" using 2(1) find_by_key by (fastforce simp: claim_by_id_def)
  moreover have "k \<noteq> pg_uuid claimId" using 2(1,3) ready r by auto
  ultimately show ?thesis using r f by (simp add: 2(6) items_of_def claim_by_id_def find_by_replace_row)
qed (simp add: r)

lemma sbp_step_keeps_resolved:
  assumes step: "sbp_step s s'" and r: "claim_by_id k s = Some r" "cm_status r \<noteq> Claimed"
  shows "claim_by_id k s' = Some r \<and> items_of k s' = items_of k s"
  using step
proof cases
  case (step_markPaid pf c newId ids input d res)
  from step_markPaid show ?thesis
    by (rule createTeacherMarkPaid_cases) (simp add: r(1), rule store_claim_keeps [OF _ r(1)])
next
  case (step_claim pf c newId ids input d res)
  from step_claim show ?thesis
    by (rule createLearnerClaim_cases) (simp add: r(1), rule store_claim_keeps [OF _ r(1)])
next
  case (step_refund c newId t i a reason nt res)
  from step_refund show ?thesis
    by (cases rule: createRefund_cases) (use r in \<open>auto simp: claim_by_id_def items_of_def\<close>)
next
  case (step_policy t a b)
  then have "same_journal s s'" by (auto simp: setTeacherPaymentPolicy_def same_journal_def)
  with r show ?thesis by (simp add: same_journal_reads)
next
  case step_method
  with r show ?thesis using same_journal_reads(2,3) [OF method_step_journal] by simp
next
  case (step_confirm c t i res)
  then show ?thesis unfolding confirmClaim_def by (rule resolve_claim_keeps [OF _ _ _ r]) simp_all
next
  case (step_decline c t i nt res)
  then show ?thesis unfolding declineClaim_def by (rule resolve_claim_keeps [OF _ _ _ r]) simp_all
next
  case (step_cancel c l i res)
  then show ?thesis unfolding cancelClaimByLearner_def by (rule resolve_claim_keeps [OF _ _ _ r]) simp_all
qed

interpretation resolved: kept_by_steps sbp_step
  "\<lambda>s. claim_by_id k s = Some r \<and> cm_status r \<noteq> Claimed \<and> items_of k s = its" for k r its
  by unfold_locales (simp add: sbp_step_keeps_resolved)

text \<open>
  A claim that is confirmed, declined or cancelled is final: no sequence of later steps changes
  its row or its items.
\<close>

theorem resolved_claim_is_final:
  assumes "claim_by_id k s = Some r" and "cm_status r \<noteq> Claimed" and "sbp_step\<^sup>*\<^sup>* s s'"
  shows "claim_by_id k s' = Some r \<and> items_of k s' = items_of k s"
  using resolved.run_good [OF assms(3)] assms(1,2) by blast

text \<open>
  The specification the journal implements: a machine that knows the status of each claim. A claim
  appears as claimed or confirmed, and a claimed one is confirmed, declined or cancelled.
\<close>

type_synonym claim_machine = "uuid \<rightharpoonup> claim_status"

inductive claim_move :: "claim_machine \<Rightarrow> claim_machine \<Rightarrow> bool" where
  move_file: "m i = None \<Longrightarrow> x \<in> {Claimed, Confirmed} \<Longrightarrow> claim_move m (m(i \<mapsto> x))"
| move_resolve: "m i = Some Claimed \<Longrightarrow> x \<in> {Confirmed, Declined, ClaimCancelled} \<Longrightarrow> claim_move m (m(i \<mapsto> x))"

definition machine_of :: "sbp_db \<Rightarrow> claim_machine" where
  "machine_of s i = map_option cm_status (claim_by_id i s)"

lemma store_claim_moves:
  assumes "store_claim pf c newId ids input who status paidAt d s = Inr (Inr i, s')" and "status \<in> {Claimed, Confirmed}"
  shows "claim_move (machine_of s) (machine_of s')"
  using assms(1)
proof (rule store_claim_okE)
  fix recs ln tn snap mid paid r
  assume r: "r = claim_of c newId input who status paid recs ln tn snap mid" and new: "claim_by_id newId s = None"
    and s': "s' = s\<lparr>payment_claims := payment_claims s @ [r],
            payment_claim_items := payment_claim_items s @ item_rows ids 0 newId recs\<rparr>"
  have "machine_of s' = (machine_of s)(newId \<mapsto> status)"
    using new by (auto simp: fun_eq_iff machine_of_def s' claim_by_id_append r claim_of_def split: option.splits)
  moreover have "machine_of s newId = None" using new by (simp add: machine_of_def)
  ultimately show ?thesis using move_file [of "machine_of s" newId status] assms(2) by simp
qed

lemma resolve_claim_moves:
  assumes "resolve_claim c owner ready f claimId s = Inr (res, s')"
    and ready: "\<And>r. ready r \<Longrightarrow> cm_status r = Claimed"
    and f: "\<And>r. cm_id (f r) = cm_id r" "\<And>r. cm_status (f r) \<in> {Confirmed, Declined, ClaimCancelled}"
  shows "machine_of s' = machine_of s \<or> claim_move (machine_of s) (machine_of s')"
  using assms(1)
proof (cases rule: resolve_claim_cases)
  case (2 r)
  have id: "cm_id r = pg_uuid claimId" using 2(1) find_by_key by (fastforce simp: claim_by_id_def)
  then have "machine_of s' = (machine_of s)(cm_id r \<mapsto> cm_status (f r))"
    using 2(1) f(1) by (auto simp: fun_eq_iff machine_of_def 2(6) claim_by_id_def find_by_replace_row)
  moreover have "machine_of s (cm_id r) = Some Claimed" using 2(1,3) ready id by (simp add: machine_of_def)
  ultimately show ?thesis using move_resolve [of "machine_of s" "cm_id r"] f(2) by simp
qed simp

lemma same_journal_machine: "same_journal s s' \<Longrightarrow> machine_of s' = machine_of s"
  by (simp add: fun_eq_iff machine_of_def same_journal_reads)

text \<open>
  C35: the journal refines that machine: every operation either leaves the status of every claim as
  it was or makes one move of the machine.
\<close>

theorem journal_refines_claim_machine:
  assumes "sbp_step s s'"
  shows "machine_of s' = machine_of s \<or> claim_move (machine_of s) (machine_of s')"
  using assms
proof cases
  case (step_markPaid pf c newId ids input d res)
  from step_markPaid show ?thesis
    by (rule createTeacherMarkPaid_cases) (simp, rule disjI2, erule store_claim_moves, simp)
next
  case (step_claim pf c newId ids input d res)
  from step_claim show ?thesis
    by (rule createLearnerClaim_cases) (simp, rule disjI2, erule store_claim_moves, simp)
next
  case (step_confirm c t i res)
  then show ?thesis unfolding confirmClaim_def by (rule resolve_claim_moves) simp_all
next
  case (step_decline c t i nt res)
  then show ?thesis unfolding declineClaim_def by (rule resolve_claim_moves) simp_all
next
  case (step_cancel c l i res)
  then show ?thesis unfolding cancelClaimByLearner_def by (rule resolve_claim_moves) simp_all
next
  case (step_refund c newId t i a reason nt res)
  from step_refund show ?thesis
    by (cases rule: createRefund_cases) (simp_all add: fun_eq_iff machine_of_def claim_by_id_def)
next
  case (step_policy t a b)
  then have "same_journal s s'" by (auto simp: setTeacherPaymentPolicy_def same_journal_def)
  then show ?thesis by (simp add: same_journal_machine)
next
  case step_method
  then show ?thesis by (simp add: same_journal_machine method_step_journal)
qed

lemma method_refusal_of_sbp:
  assumes "method_refusal_of active teacher ChannelSbp (Some i) s = Inr None" and "i \<noteq> []"
  shows "uuid_pattern i \<and> (\<exists>m. method_by_id (pg_uuid i) s = Some m \<and> pm_teacher_account_id m = teacher
    \<and> (active \<longrightarrow> pm_archived_at m = None))"
proof -
  from assms show ?thesis
    by (cases "method_by_id (pg_uuid i) s") (auto simp: method_refusal_of_def split: if_splits)
qed

lemma method_snapshot_value:
  assumes "method_snapshot (Some i) s = Inr snap" and "i \<noteq> []" and "method_by_id (pg_uuid i) s = Some m"
  shows "snap = (Some (pm_phone_display m), Some (pm_bank_label m))"
  using assms by (auto simp: method_snapshot_def split: if_splits)

text \<open>What a stored claim is made of.\<close>

definition claim_made ::
  "platform \<Rightarrow> clock \<Rightarrow> uuid \<Rightarrow> (nat \<Rightarrow> uuid) \<Rightarrow> 'x claim_input_scheme \<Rightarrow> initiator \<Rightarrow> claim_status
   \<Rightarrow> db \<Rightarrow> sbp_db \<Rightarrow> sbp_db \<Rightarrow> bool" where
  "claim_made pf c newId ids input who status d s s' \<longleftrightarrow>
     claim_by_id newId s = None
     \<and> (\<exists>r recs k. s' = with_claim r (item_rows ids 0 newId recs) s
         \<and> length recs = length (rq_items input) \<and> recs \<noteq> [] \<and> length recs \<le> 20
         \<and> list_all (item_fits pf c (rq_teacherAccountId input) (rq_learnerAccountId input) d s) recs
         \<and> map ir_slotId recs = map (truthy_id \<circ> pi_slotId) (rq_items input)
         \<and> map ir_packagePurchaseId recs = map (truthy_id \<circ> pi_packagePurchaseId) (rq_items input)
         \<and> rq_amountKopecks input = JsInt k \<and> 0 < k \<and> k < MAX_AMOUNT_KOPECKS
         \<and> cm_id r = newId \<and> cm_status r = status \<and> cm_initiated_by r = who \<and> cm_amount_kopecks r = k
         \<and> cm_amount_mismatch_kopecks r = k - sum_by ir_expected recs
         \<and> cm_learner_account_id r = Some (pg_uuid (rq_learnerAccountId input))
         \<and> cm_teacher_account_id r = Some (pg_uuid (rq_teacherAccountId input))
         \<and> cm_resolved_at r = (if who = ByTeacher then Some (pg_now c) else None))"

lemma store_claim_made:
  assumes "store_claim pf c newId ids input who status paidAt d s = Inr (Inr i, s')"
    and req: "request_refusal (rq_amountKopecks input) (rq_items input) = None"
  shows "i = newId \<and> claim_made pf c newId ids input who status d s s'"
  using assms(1)
proof (rule store_claim_okE)
  fix recs ln tn snap mid paid r
  assume recs: "claim_items pf c (rq_teacherAccountId input) (rq_learnerAccountId input) d s (rq_items input) = Inr (Inr recs)"
    and i: "i = newId" and r: "r = claim_of c newId input who status paid recs ln tn snap mid"
    and new: "claim_by_id newId s = None"
    and s': "s' = s\<lparr>payment_claims := payment_claims s @ [r],
            payment_claim_items := payment_claim_items s @ item_rows ids 0 newId recs\<rparr>"
  from req obtain k where k: "rq_amountKopecks input = JsInt k" "0 < k" "k < MAX_AMOUNT_KOPECKS"
    "rq_items input \<noteq> []" "length (rq_items input) \<le> 20"
    by (auto simp: request_refusal_None_iff)
  note fits = claim_items_fit [OF recs]
  have "recs \<noteq> []" using fits k(4) by auto
  moreover have "s' = with_claim r (item_rows ids 0 newId recs) s" using s' by (simp add: with_claim_def)
  ultimately show ?thesis
    using i new fits k unfolding claim_made_def
    by (intro conjI exI [of _ r] exI [of _ recs] exI [of _ k]) (simp_all add: r claim_of_def amount_value_def)
qed

text \<open>
  The claim of a learner. On success exactly one pending claim is added, with one item per
  listed lesson or package, each of them of this learner with this teacher, every lesson inside the
  window and paid by no channel, the mismatch taken against the prices the server knows, and for a
  transfer to a phone the method is an active one of this teacher; on refusal nothing is written.
\<close>

theorem createLearnerClaim_effect:
  assumes "createLearnerClaim pf c newId ids input d s = Inr (res, s')"
  shows "(\<forall>e. res = Inl e \<longrightarrow> s' = s)
    \<and> (\<forall>i. res = Inr i \<longrightarrow> i = newId \<and> claim_made pf c newId ids input ByLearner Claimed d s s'
        \<and> (rq_paymentChannel input = ChannelSbp \<longrightarrow>
            (\<exists>mid m. rq_paymentMethodId input = Some mid \<and> method_by_id (pg_uuid mid) s = Some m
               \<and> pm_teacher_account_id m = rq_teacherAccountId input \<and> pm_archived_at m = None)))"
  using assms
proof (cases rule: createLearnerClaim_cases)
  case (2 i)
  have "\<exists>mid m. rq_paymentMethodId input = Some mid \<and> method_by_id (pg_uuid mid) s = Some m
      \<and> pm_teacher_account_id m = rq_teacherAccountId input \<and> pm_archived_at m = None"
    if "rq_paymentChannel input = ChannelSbp"
  proof -
    from 2(3) that obtain mid where mid: "rq_paymentMethodId input = Some mid" "mid \<noteq> []"
      by (cases "truthy_id (rq_paymentMethodId input)") auto
    with method_refusal_of_sbp [of True "rq_teacherAccountId input" mid s] 2(4) that show ?thesis by auto
  qed
  with store_claim_made [OF 2(5,2)] 2(1) show ?thesis by simp
qed simp

text \<open>
  The mark of a teacher that a learner has paid: the same, with a claim that is confirmed from
  the start and was not paid in the future.
\<close>

theorem createTeacherMarkPaid_effect:
  assumes "createTeacherMarkPaid pf c newId ids input d s = Inr (res, s')"
  shows "(\<forall>e. res = Inl e \<longrightarrow> s' = s)
    \<and> (\<forall>i. res = Inr i \<longrightarrow> i = newId \<and> claim_made pf c newId ids input ByTeacher Confirmed d s s'
        \<and> (\<forall>t. mp_paidAt input = Some t \<and> t \<noteq> [] \<longrightarrow>
            (\<exists>ms. date_parse pf t = Some ms \<and> ms \<le> js_now c + 86400000)))"
  using assms
proof (cases rule: createTeacherMarkPaid_cases)
  case (2 i)
  have "\<exists>ms. date_parse pf t = Some ms \<and> ms \<le> js_now c + 86400000" if "mp_paidAt input = Some t" "t \<noteq> []" for t
    using 2(3) that by (cases "date_parse pf t") (auto simp: paid_at_refusal_def MS_PER_DAY_def split: if_splits)
  with store_claim_made [OF 2(5,2)] 2(1) show ?thesis by simp
qed simp

text \<open>
  The phone and the bank that a claim shows are those of the method its request names, whoever
  owns that method: outside a transfer to a phone the owner is not checked.
\<close>

theorem claim_copies_any_method:
  assumes "createLearnerClaim pf c newId ids input d s = Inr (Inr i, s')"
    and "rq_paymentMethodId input = Some mid" and "mid \<noteq> []" and "method_by_id (pg_uuid mid) s = Some m"
  shows "\<exists>r. claim_by_id i s' = Some r \<and> cm_method_phone r = Some (pm_phone_display m)
    \<and> cm_method_bank r = Some (pm_bank_label m)"
proof -
  from assms(1) have "store_claim pf c newId ids input ByLearner Claimed None d s = Inr (Inr i, s')"
    by (cases rule: createLearnerClaim_cases) simp_all
  then show ?thesis
  proof (rule store_claim_okE)
    fix recs ln tn snap mid' paid r
    assume i: "i = newId" and r: "r = claim_of c newId input ByLearner Claimed paid recs ln tn snap mid'"
      and snap: "method_snapshot (rq_paymentMethodId input) s = Inr snap" and new: "claim_by_id newId s = None"
      and s': "s' = s\<lparr>payment_claims := payment_claims s @ [r],
            payment_claim_items := payment_claim_items s @ item_rows ids 0 newId recs\<rparr>"
    have id: "cm_id r = i" by (simp add: r claim_of_def i)
    then have "claim_by_id i s' = Some r" using new i by (simp add: s' claim_by_id_append)
    moreover have "snap = (Some (pm_phone_display m), Some (pm_bank_label m))"
      using method_snapshot_value snap assms(2-4) by metis
    ultimately show ?thesis by (auto simp: r claim_of_def)
  qed
qed

text \<open>
  A refund is recorded exactly when its amount is a positive integer below the limit, the claim
  is a confirmed one of this teacher and what it has refunded so far leaves room for the amount;
  then the sum of its refunds grows by the amount, and no other claim's does.
\<close>

theorem createRefund_decision:
  assumes "uuid_pattern claimId" and "newId \<notin> rf_id ` set (payment_refunds s)"
  shows "((\<exists>s'. createRefund c newId teacher claimId amount reason note s = Inr (Inr newId, s'))
      \<longleftrightarrow> (\<exists>k r. amount = JsInt k \<and> 0 < k \<and> k < 100000000 \<and> claim_by_id (pg_uuid claimId) s = Some r
           \<and> cm_teacher_account_id r = Some teacher \<and> cm_status r = Confirmed
           \<and> refunded (pg_uuid claimId) s + k \<le> cm_amount_kopecks r))
    \<and> (\<forall>i s'. createRefund c newId teacher claimId amount reason note s = Inr (Inr i, s') \<longrightarrow>
        (\<exists>k. amount = JsInt k \<and> refunded (pg_uuid claimId) s' = refunded (pg_uuid claimId) s + k)
        \<and> (\<forall>j. j \<noteq> pg_uuid claimId \<longrightarrow> refunded j s' = refunded j s)
        \<and> payment_claims s' = payment_claims s \<and> payment_claim_items s' = payment_claim_items s)"
    (is "(?done \<longleftrightarrow> ?may) \<and> ?effect")
proof (intro conjI iffI allI impI)
  show ?may if ?done
    using that by (auto simp: MAX_AMOUNT_KOPECKS_def elim: createRefund_cases)
  show ?done if ?may
    using that assms by (auto simp: createRefund_def MAX_AMOUNT_KOPECKS_def find_by_None_iff)
qed (auto simp: refunded_def elim!: createRefund_cases)

section \<open>A claim and a refund on concrete rows\<close>

text \<open>
  Two teachers \<open>a\<close> and \<open>c\<close> with a method each, a learner \<open>b\<close>; the claim is for the booked lesson of
  \<open>sample_db\<close> with \<open>a\<close> and names the method of \<open>c\<close>.
\<close>

definition sample_person :: "uuid \<Rightarrow> person_row" where
  "sample_person i = \<lparr>pr_account_id = i, pr_email = js ''x'', pr_display_name = None, pr_first_name = None,
     pr_last_name = None, pr_charge_on_no_show = False, pr_charge_on_late_cancel = False\<rparr>"

definition sample_method :: "uuid \<Rightarrow> uuid \<Rightarrow> js_text \<Rightarrow> method_row" where
  "sample_method i teacher phone = \<lparr>pm_id = i, pm_teacher_account_id = teacher, pm_phone_e164 = phone,
     pm_phone_display = phone, pm_bank_label = js ''B'', pm_is_default = True, pm_created_at = 0, pm_archived_at = None\<rparr>"

definition sample_sbp :: sbp_db where
  "sample_sbp = \<lparr>payment_claims = [], payment_claim_items = [], payment_refunds = [],
     teacher_payment_methods =
       [sample_method (uuid_of CHR ''4'') (uuid_of CHR ''a'') (js ''+79000000001''),
        sample_method (uuid_of CHR ''5'') (uuid_of CHR ''c'') (js ''+79000000002'')],
     teacher_payment_method_assignments = [],
     people = [sample_person (uuid_of CHR ''a''), sample_person (uuid_of CHR ''b''), sample_person (uuid_of CHR ''c'')]\<rparr>"

definition sample_platform :: platform where
  "sample_platform = \<lparr>to_locale = (\<lambda>_. []), date_parse = (\<lambda>_. None), timestamptz_in = (\<lambda>_. None)\<rparr>"

definition sample_claim :: claim_input where
  "sample_claim = \<lparr>rq_teacherAccountId = uuid_of CHR ''a'', rq_learnerAccountId = uuid_of CHR ''b'',
     rq_amountKopecks = JsInt 150000, rq_paymentChannel = ChannelOther,
     rq_paymentMethodId = Some (uuid_of CHR ''5''),
     rq_items = [\<lparr>pi_slotId = Some (uuid_of CHR ''1''), pi_packagePurchaseId = None, pi_expectedAmountKopecks = JsInt 1\<rparr>],
     rq_note = None\<rparr>"

definition sample_mark_paid :: mark_paid_input where
  "sample_mark_paid = claim_input.extend sample_claim (mark_paid_input.fields None)"

lemma hex_samples: "hex_digit CHR ''1''" "hex_digit CHR ''5''" "hex_digit CHR ''6''" "hex_digit CHR ''a''" "hex_digit CHR ''b''"
  "lower_hex CHR ''1'' = CHR ''1''" "lower_hex CHR ''5'' = CHR ''5''" "lower_hex CHR ''6'' = CHR ''6''"
  "lower_hex CHR ''a'' = CHR ''a''" "lower_hex CHR ''b'' = CHR ''b''"
  by (simp_all add: hex_digit_def lower_hex_def)

lemmas sample_claim_defs = sample_sbp_def sample_person_def sample_method_def sample_claim_def sample_mark_paid_def
  mark_paid_input.defs claim_input.defs

lemma sample_request:
  "request_refusal (rq_amountKopecks sample_claim) (rq_items sample_claim) = None"
  "\<exists>l. claim_items pf sample_clock (uuid_of CHR ''a'') (uuid_of CHR ''b'') sample_db sample_sbp (rq_items sample_claim)
    = Inr (Inr [\<lparr>ir_slotId = Some (uuid_of CHR ''1''), ir_packagePurchaseId = None, ir_expected = 150000, ir_label = l\<rparr>])"
  by (simp_all add: request_refusal_def MAX_AMOUNT_KOPECKS_def sample_claim_defs claim_item_def slot_item_def
      loadSlotSnapshot_def slot_by_id_def find_by_def hex_samples isSlotPastRetroWindow_def isWithinPaymentRetroWindow_def
      slot_already_paid_def slot_claimed_def slot_paid_elsewhere_def js_date_def us_per_ms_def PAYMENT_RETRO_WINDOW_MS_def
      PAYMENT_RETRO_WINDOW_DAYS_def sample_defs)

lemma sample_store:
  fixes input :: "'x claim_input_scheme"
  assumes "claim_input.truncate input = sample_claim"
    and "who = ByTeacher \<and> status = Confirmed \<or> who = ByLearner \<and> status = Claimed"
  shows "\<exists>s' r. store_claim sample_platform sample_clock (uuid_of CHR ''6'') (\<lambda>_. uuid_of CHR ''7'') input who status None
      sample_db sample_sbp = Inr (Inr (uuid_of CHR ''6''), s')
    \<and> claim_by_id (uuid_of CHR ''6'') s' = Some r \<and> cm_status r = status \<and> cm_amount_kopecks r = 150000
    \<and> cm_teacher_account_id r = Some (uuid_of CHR ''a'') \<and> payment_refunds s' = []"
proof -
  obtain l where items: "claim_items sample_platform sample_clock (uuid_of CHR ''a'') (uuid_of CHR ''b'') sample_db sample_sbp
      (rq_items sample_claim)
    = Inr (Inr [\<lparr>ir_slotId = Some (uuid_of CHR ''1''), ir_packagePurchaseId = None, ir_expected = 150000, ir_label = l\<rparr>])"
    using sample_request(2) by blast
  have f: "rq_teacherAccountId input = uuid_of CHR ''a''" "rq_learnerAccountId input = uuid_of CHR ''b''"
    "rq_amountKopecks input = JsInt 150000" "rq_paymentChannel input = ChannelOther"
    "rq_paymentMethodId input = Some (uuid_of CHR ''5'')" "rq_items input = rq_items sample_claim" "rq_note input = None"
    using assms(1) by (auto simp: claim_input.truncate_def sample_claim_def)
  show ?thesis
    using assms(2) unfolding store_claim_def f items
    by (elim disjE conjE)
      (simp_all add: f loadDisplayName_def hex_samples person_by_id_def find_by_def sample_sbp_def
        sample_person_def sample_method_def method_snapshot_def method_by_id_def pg_uuid_opt_def timestamptz_opt_def
        pg_insert_claim_def claim_of_def amount_value_def int4_def claim_check_def claim_by_id_def account_known_def
        pg_insert_item_def item_row_def item_check_def)
qed

lemma sample_learner_claim:
  "\<exists>s'. createLearnerClaim sample_platform sample_clock (uuid_of CHR ''6'') (\<lambda>_. uuid_of CHR ''7'') sample_claim
      sample_db sample_sbp = Inr (Inr (uuid_of CHR ''6''), s')"
proof -
  obtain s' where "store_claim sample_platform sample_clock (uuid_of CHR ''6'') (\<lambda>_. uuid_of CHR ''7'') sample_claim
      ByLearner Claimed None sample_db sample_sbp = Inr (Inr (uuid_of CHR ''6''), s')"
    using sample_store [of sample_claim ByLearner Claimed] by (auto simp: claim_input.truncate_def)
  moreover have "rq_paymentChannel sample_claim = ChannelOther" by (simp add: sample_claim_def)
  ultimately show ?thesis using sample_request(1) by (simp add: createLearnerClaim_def method_refusal_of_def)
qed

lemma sample_teacher_mark:
  "\<exists>s' r. createTeacherMarkPaid sample_platform sample_clock (uuid_of CHR ''6'') (\<lambda>_. uuid_of CHR ''7'') sample_mark_paid
      sample_db sample_sbp = Inr (Inr (uuid_of CHR ''6''), s')
    \<and> claim_by_id (uuid_of CHR ''6'') s' = Some r \<and> cm_status r = Confirmed \<and> cm_amount_kopecks r = 150000
    \<and> cm_teacher_account_id r = Some (uuid_of CHR ''a'') \<and> payment_refunds s' = []"
proof -
  have f: "claim_input.truncate sample_mark_paid = sample_claim" "mp_paidAt sample_mark_paid = None"
    "rq_paymentChannel sample_mark_paid = ChannelOther"
    "rq_amountKopecks sample_mark_paid = rq_amountKopecks sample_claim" "rq_items sample_mark_paid = rq_items sample_claim"
    by (simp_all add: sample_mark_paid_def mark_paid_input.defs claim_input.defs sample_claim_def)
  show ?thesis
    using sample_store [OF f(1), of ByTeacher Confirmed] sample_request(1)
    by (simp add: createTeacherMarkPaid_def method_refusal_of_def paid_at_refusal_def f)
qed

lemma sample_journal_start: "payment_claims sample_sbp = [] \<and> payment_claim_items sample_sbp = [] \<and> payment_refunds sample_sbp = []"
  by (simp add: sample_sbp_def)

theorem createLearnerClaim_effect_witness:
  "\<exists>s'. createLearnerClaim sample_platform sample_clock (uuid_of CHR ''6'') (\<lambda>_. uuid_of CHR ''7'') sample_claim
      sample_db sample_sbp = Inr (Inr (uuid_of CHR ''6''), s')
    \<and> claim_made sample_platform sample_clock (uuid_of CHR ''6'') (\<lambda>_. uuid_of CHR ''7'') sample_claim ByLearner Claimed
        sample_db sample_sbp s'"
  using sample_learner_claim createLearnerClaim_effect by blast

theorem createTeacherMarkPaid_effect_witness:
  "\<exists>s'. createTeacherMarkPaid sample_platform sample_clock (uuid_of CHR ''6'') (\<lambda>_. uuid_of CHR ''7'') sample_mark_paid
      sample_db sample_sbp = Inr (Inr (uuid_of CHR ''6''), s')
    \<and> claim_made sample_platform sample_clock (uuid_of CHR ''6'') (\<lambda>_. uuid_of CHR ''7'') sample_mark_paid ByTeacher Confirmed
        sample_db sample_sbp s'"
  using sample_teacher_mark createTeacherMarkPaid_effect by blast

text \<open>The claim of \<open>b\<close> with teacher \<open>a\<close> shows the phone of teacher \<open>c\<close>.\<close>

theorem claim_copies_any_method_witness:
  "\<exists>s' r. createLearnerClaim sample_platform sample_clock (uuid_of CHR ''6'') (\<lambda>_. uuid_of CHR ''7'') sample_claim
      sample_db sample_sbp = Inr (Inr (uuid_of CHR ''6''), s')
    \<and> claim_by_id (uuid_of CHR ''6'') s' = Some r \<and> cm_method_phone r = Some (js ''+79000000002'')"
proof -
  obtain s' where claim: "createLearnerClaim sample_platform sample_clock (uuid_of CHR ''6'') (\<lambda>_. uuid_of CHR ''7'') sample_claim
      sample_db sample_sbp = Inr (Inr (uuid_of CHR ''6''), s')"
    using sample_learner_claim by blast
  have m: "method_by_id (pg_uuid (uuid_of CHR ''5'')) sample_sbp
      = Some (sample_method (uuid_of CHR ''5'') (uuid_of CHR ''c'') (js ''+79000000002''))"
    by (simp add: method_by_id_def find_by_def sample_sbp_def hex_samples sample_method_def)
  have "rq_paymentMethodId sample_claim = Some (uuid_of CHR ''5'')" by (simp add: sample_claim_def)
  from claim_copies_any_method [OF claim this _ m] claim show ?thesis by (auto simp: sample_method_def)
qed

theorem reachable_journal_witness:
  "\<exists>s'. createLearnerClaim sample_platform sample_clock (uuid_of CHR ''6'') (\<lambda>_. uuid_of CHR ''7'') sample_claim
      sample_db sample_sbp = Inr (Inr (uuid_of CHR ''6''), s')
    \<and> (\<forall>r \<in> set (payment_claims s'). refunded (cm_id r) s' \<le> cm_amount_kopecks r)"
proof -
  obtain s' where claim: "createLearnerClaim sample_platform sample_clock (uuid_of CHR ''6'') (\<lambda>_. uuid_of CHR ''7'') sample_claim
      sample_db sample_sbp = Inr (Inr (uuid_of CHR ''6''), s')"
    using sample_learner_claim by blast
  have "sbp_step\<^sup>*\<^sup>* sample_sbp s'" using sbp_step.step_claim [OF claim] by (rule r_into_rtranclp)
  from reachable_journal [OF sample_journal_start this] claim show ?thesis by blast
qed

theorem journal_refines_claim_machine_witness:
  "\<exists>s'. sbp_step sample_sbp s' \<and> claim_move (machine_of sample_sbp) (machine_of s')"
proof -
  obtain s' where claim: "createTeacherMarkPaid sample_platform sample_clock (uuid_of CHR ''6'') (\<lambda>_. uuid_of CHR ''7'')
      sample_mark_paid sample_db sample_sbp = Inr (Inr (uuid_of CHR ''6''), s')"
    and r: "claim_by_id (uuid_of CHR ''6'') s' \<noteq> None"
    using sample_teacher_mark by auto
  have "machine_of s' (uuid_of CHR ''6'') \<noteq> machine_of sample_sbp (uuid_of CHR ''6'')"
    using r by (auto simp: machine_of_def claim_by_id_def sample_sbp_def find_by_def)
  with journal_refines_claim_machine [OF sbp_step.step_markPaid [OF claim]] sbp_step.step_markPaid [OF claim]
  show ?thesis by auto
qed

theorem createRefund_decision_witness:
  "\<exists>s1 s2. createTeacherMarkPaid sample_platform sample_clock (uuid_of CHR ''6'') (\<lambda>_. uuid_of CHR ''7'') sample_mark_paid
      sample_db sample_sbp = Inr (Inr (uuid_of CHR ''6''), s1)
    \<and> createRefund sample_clock (uuid_of CHR ''8'') (uuid_of CHR ''a'') (uuid_of CHR ''6'') (JsInt 150000) RfGoodwill None s1
        = Inr (Inr (uuid_of CHR ''8''), s2)"
proof -
  obtain s1 r where mark: "createTeacherMarkPaid sample_platform sample_clock (uuid_of CHR ''6'') (\<lambda>_. uuid_of CHR ''7'')
      sample_mark_paid sample_db sample_sbp = Inr (Inr (uuid_of CHR ''6''), s1)"
    and r: "claim_by_id (uuid_of CHR ''6'') s1 = Some r" "cm_status r = Confirmed" "cm_amount_kopecks r = 150000"
      "cm_teacher_account_id r = Some (uuid_of CHR ''a'')" "payment_refunds s1 = []"
    using sample_teacher_mark by blast
  from r show ?thesis
    using mark createRefund_decision [of "uuid_of CHR ''6''" "uuid_of CHR ''8''" s1 sample_clock "uuid_of CHR ''a''" "JsInt 150000"]
    by (simp add: hex_samples refunded_def)
qed

theorem resolved_claim_is_final_witness:
  "\<exists>s1 s2 r. createTeacherMarkPaid sample_platform sample_clock (uuid_of CHR ''6'') (\<lambda>_. uuid_of CHR ''7'') sample_mark_paid
      sample_db sample_sbp = Inr (Inr (uuid_of CHR ''6''), s1)
    \<and> claim_by_id (uuid_of CHR ''6'') s1 = Some r \<and> sbp_step s1 s2 \<and> claim_by_id (uuid_of CHR ''6'') s2 = Some r"
proof -
  obtain s1 r where mark: "createTeacherMarkPaid sample_platform sample_clock (uuid_of CHR ''6'') (\<lambda>_. uuid_of CHR ''7'')
      sample_mark_paid sample_db sample_sbp = Inr (Inr (uuid_of CHR ''6''), s1)"
    and r: "claim_by_id (uuid_of CHR ''6'') s1 = Some r" "cm_status r = Confirmed"
    using sample_teacher_mark by blast
  have step: "sbp_step s1 (setTeacherPaymentPolicy (uuid_of CHR ''a'') (Some True) None s1)"
    by (rule sbp_step.step_policy) simp
  have "cm_status r \<noteq> Claimed" using r(2) by simp
  from resolved_claim_is_final [OF r(1) this r_into_rtranclp [of sbp_step, OF step]] mark r step show ?thesis by blast
qed

end
