(* ===== verification/Sbp_Reads.thy ===== *)
theory Sbp_Reads
  imports Sbp_Claims
begin

text \<open>
  Direct payments, third part: what the cabinets read from the journal. The lists of
  \<open>src/lib/payments/sbp-claims.ts\<close> and \<open>src/lib/payments/sbp-refunds.ts\<close>, the pay context of a
  lesson, and how they agree with what the operations accept.
\<close>

section \<open>Unpaid lessons\<close>

definition UNPAID_SLOT_STATUS_LABEL_RU :: "slot_status \<Rightarrow> js_text option" where
  "UNPAID_SLOT_STATUS_LABEL_RU st =
     (case st of
        Booked \<Rightarrow> Some [1079, 1072, 1087, 1083, 1072, 1085, 1080, 1088, 1086, 1074, 1072, 1085, 1086]
      | Completed \<Rightarrow> Some [1087, 1088, 1086, 1096, 1083, 1086]
      | NoShowLearner \<Rightarrow> Some [1085, 1077, 32, 1087, 1088, 1080, 1096, 1105, 1083]
      | Cancelled \<Rightarrow> Some [1086, 1090, 1084, 1077, 1085, 1077, 1085, 1086]
      | _ \<Rightarrow> None)"

record unpaid_slot =
  un_id :: uuid
  un_label :: js_text
  un_statusLabel :: js_text
  un_expectedKopecks :: int
  un_startAt :: micros
  un_status :: slot_status

definition unpaid_of_pair :: "uuid \<Rightarrow> uuid \<Rightarrow> db \<Rightarrow> sbp_db \<Rightarrow> slot_row list" where
  "unpaid_of_pair teacher learner d s =
     filter (\<lambda>r. ls_teacher_account_id r = teacher \<and> ls_learner_account_id r = Some learner
                 \<and> ls_status r \<in> {Booked, Completed, NoShowLearner, Cancelled}
                 \<and> \<not> slot_already_paid (ls_id r) d s) (lesson_slots d)"

text \<open>The status has a label here: the query selects the four labelled ones.\<close>

definition listUnpaidSlotsForPair :: "platform \<Rightarrow> uuid \<Rightarrow> string \<Rightarrow> db \<Rightarrow> sbp_db \<Rightarrow> exn + unpaid_slot list" where
  "listUnpaidSlotsForPair pf teacher learner d s =
     (if \<not> uuid_pattern learner then Inl (PgErr InvalidUuidText)
      else Inr (map (\<lambda>r.
             \<lparr>un_id = ls_id r, un_label = buildUnpaidSlotLabel pf (ls_start_at r) (ls_duration_minutes r),
              un_statusLabel = coalesce (UNPAID_SLOT_STATUS_LABEL_RU (ls_status r)) [],
              un_expectedKopecks = coalesce (ls_snapshot_amount_kopecks r) 0, un_startAt = ls_start_at r,
              un_status = ls_status r\<rparr>)
             (take 50 (order_by (\<lambda>x y. ls_start_at x > ls_start_at y)
                (unpaid_of_pair teacher (pg_uuid learner) d s)))))"

text \<open>The lessons that make a learner a debtor: held ones, and by policy the missed and late-cancelled.\<close>

definition charged_slot :: "clock \<Rightarrow> person_row \<Rightarrow> slot_row \<Rightarrow> bool" where
  "charged_slot c p r \<longleftrightarrow>
     coalesce (ls_snapshot_amount_kopecks r) 0 > 0
     \<and> (ls_status r = Completed
        \<or> ls_status r = Booked \<and> ls_start_at r \<le> pg_now c
        \<or> ls_status r = NoShowLearner \<and> pr_charge_on_no_show p
        \<or> ls_status r = Cancelled \<and> pr_charge_on_late_cancel p
           \<and> (case ls_cancelled_at r of None \<Rightarrow> False | Some t \<Rightarrow> ls_start_at r - t < 24 * us_per_hour))"

definition debt_of_pair :: "clock \<Rightarrow> uuid \<Rightarrow> uuid \<Rightarrow> db \<Rightarrow> sbp_db \<Rightarrow> slot_row list" where
  "debt_of_pair c teacher learner d s =
     (case person_by_id teacher s of
        None \<Rightarrow> []
      | Some p \<Rightarrow>
          filter (\<lambda>r. ls_teacher_account_id r = teacher \<and> ls_learner_account_id r = Some learner
                      \<and> charged_slot c p r \<and> \<not> slot_already_paid (ls_id r) d s) (lesson_slots d))"

record learner_debt =
  ld_learnerId :: uuid
  ld_learnerName :: js_text
  ld_unpaidCount :: nat
  ld_unpaidAmount :: int

definition listLearnersWithUnpaidSlots :: "clock \<Rightarrow> uuid \<Rightarrow> db \<Rightarrow> sbp_db \<Rightarrow> learner_debt list" where
  "listLearnersWithUnpaidSlots c teacher d s =
     take 30 (order_by (\<lambda>x y. ld_unpaidAmount x > ld_unpaidAmount y)
       (map (\<lambda>p. let rows = debt_of_pair c teacher (pr_account_id p) d s in
               \<lparr>ld_learnerId = pr_account_id p, ld_learnerName = display_name p, ld_unpaidCount = length rows,
                ld_unpaidAmount = sum_by (\<lambda>r. coalesce (ls_snapshot_amount_kopecks r) 0) rows\<rparr>)
          (filter (\<lambda>p. debt_of_pair c teacher (pr_account_id p) d s \<noteq> []) (people s))))"

section \<open>Packages that run out\<close>

datatype expiring_reason = LowRemaining | ExpiringSoon

record expiring_package =
  xp_purchaseId :: uuid
  xp_learnerName :: js_text
  xp_learnerId :: uuid
  xp_title :: js_text
  xp_countRemaining :: int
  xp_countInitial :: int
  xp_expiresAt :: micros
  xp_reason :: expiring_reason

definition expiring_view :: "clock \<Rightarrow> db \<Rightarrow> sbp_db \<Rightarrow> purchase_row \<Rightarrow> expiring_package option" where
  "expiring_view c d s pp =
     (case person_by_id (pp_account_id pp) s of
        None \<Rightarrow> None
      | Some p \<Rightarrow>
          let remaining = count_remaining d pp;
              lowRemaining = (remaining > 0 \<and> remaining \<le> EXPIRING_PACKAGE_REMAINING_THRESHOLD);
              expiringSoon = (js_date (pp_expires_at pp) \<le> js_now c + EXPIRING_PACKAGE_DAYS * MS_PER_DAY)
          in if \<not> lowRemaining \<and> \<not> expiringSoon then None
             else Some \<lparr>xp_purchaseId = pp_id pp, xp_learnerName = display_name p, xp_learnerId = pr_account_id p,
                        xp_title = pp_title_snapshot pp, xp_countRemaining = remaining,
                        xp_countInitial = pp_count_initial pp, xp_expiresAt = pp_expires_at pp,
                        xp_reason = (if lowRemaining then LowRemaining else ExpiringSoon)\<rparr>)"

definition listExpiringPackagesForTeacher :: "clock \<Rightarrow> uuid \<Rightarrow> db \<Rightarrow> sbp_db \<Rightarrow> expiring_package list" where
  "listExpiringPackagesForTeacher c teacher d s =
     List.map_filter (expiring_view c d s)
       (order_by (\<lambda>x y. pp_expires_at x < pp_expires_at y)
          (filter (\<lambda>pp. pp_teacher_id pp = Some teacher \<and> pp_voided_at pp = None \<and> pp_expires_at pp > pg_now c)
             (package_purchases d)))"

section \<open>Claims and refunds\<close>

record claim_view =
  cv_claim :: claim_row
  cv_items :: "claim_item_row list"

text \<open>\<open>mapBase\<close> keeps every column but the id of the method.\<close>

definition mapBase :: "claim_row \<Rightarrow> claim_row" where
  "mapBase r = r\<lparr>cm_payment_method_id := None\<rparr>"

definition attachItems :: "claim_row list \<Rightarrow> sbp_db \<Rightarrow> claim_view list" where
  "attachItems rows s = map (\<lambda>r. \<lparr>cv_claim = r, cv_items = items_of (cm_id r) s\<rparr>) rows"

definition listClaimsForTeacher :: "uuid \<Rightarrow> claim_status list \<Rightarrow> nat \<Rightarrow> sbp_db \<Rightarrow> claim_view list" where
  "listClaimsForTeacher teacher statuses limit s =
     attachItems (map mapBase (take limit (order_by (\<lambda>x y. cm_claimed_at x > cm_claimed_at y)
       (filter (\<lambda>r. cm_teacher_account_id r = Some teacher \<and> cm_status r \<in> set statuses) (payment_claims s))))) s"

definition listClaimsForLearner :: "uuid \<Rightarrow> nat \<Rightarrow> sbp_db \<Rightarrow> claim_view list" where
  "listClaimsForLearner learner limit s =
     attachItems (map mapBase (take limit (order_by (\<lambda>x y. cm_claimed_at x > cm_claimed_at y)
       (filter (\<lambda>r. cm_learner_account_id r = Some learner) (payment_claims s))))) s"

definition listClaimedOrConfirmedSlotIds :: "string list \<Rightarrow> sbp_db \<Rightarrow> exn + uuid set" where
  "listClaimedOrConfirmedSlotIds slotIds s =
     (if slotIds = [] then Inr {}
      else if list_ex (\<lambda>i. \<not> uuid_pattern i) slotIds then Inl (PgErr InvalidUuidText)
      else Inr (set (filter (\<lambda>i. slot_claimed i s) (map pg_uuid slotIds))))"

definition countPendingClaimsForTeacher :: "uuid \<Rightarrow> sbp_db \<Rightarrow> nat" where
  "countPendingClaimsForTeacher teacher s =
     length (filter (\<lambda>r. cm_teacher_account_id r = Some teacher \<and> cm_status r = Claimed) (payment_claims s))"

definition refunds_where :: "(claim_row \<Rightarrow> bool) \<Rightarrow> sbp_db \<Rightarrow> refund_row list" where
  "refunds_where P s =
     order_by (\<lambda>x y. rf_refunded_at x > rf_refunded_at y)
       (filter (\<lambda>f. case claim_by_id (rf_claim_id f) s of None \<Rightarrow> False | Some r \<Rightarrow> P r) (payment_refunds s))"

definition listRefundsForTeacher :: "uuid \<Rightarrow> nat \<Rightarrow> sbp_db \<Rightarrow> refund_row list" where
  "listRefundsForTeacher teacher limit s = take limit (refunds_where (\<lambda>r. cm_teacher_account_id r = Some teacher) s)"

definition listRefundsForLearner :: "uuid \<Rightarrow> nat \<Rightarrow> sbp_db \<Rightarrow> refund_row list" where
  "listRefundsForLearner learner limit s = take limit (refunds_where (\<lambda>r. cm_learner_account_id r = Some learner) s)"

definition listRefundsForClaim :: "string \<Rightarrow> sbp_db \<Rightarrow> exn + refund_row list" where
  "listRefundsForClaim claimId s =
     (if \<not> uuid_pattern claimId then Inl (PgErr InvalidUuidText)
      else Inr (order_by (\<lambda>x y. rf_refunded_at x > rf_refunded_at y)
                  (filter (\<lambda>f. rf_claim_id f = pg_uuid claimId) (payment_refunds s))))"

section \<open>The pay context of a lesson\<close>

datatype pay_refusal = PySlotNotFound | PyNotYourSlot | PyAlreadyPaid

record pay_context =
  pk_teacherAccountId :: uuid
  pk_teacherName :: js_text
  pk_slotLabel :: js_text
  pk_expectedAmountKopecks :: int
  pk_paymentMethod :: "(uuid \<times> js_text \<times> js_text) option"

definition getPayContextForSlot ::
  "platform \<Rightarrow> uuid \<Rightarrow> string \<Rightarrow> db \<Rightarrow> sbp_db \<Rightarrow> exn + (pay_refusal + pay_context)" where
  "getPayContextForSlot pf learner slotId d s =
     bindR (loadSlotSnapshot pf slotId d) (\<lambda>snap.
       case snap of
         None \<Rightarrow> Inr (Inl PySlotNotFound)
       | Some sn \<Rightarrow>
           if sn_learnerAccountId sn \<noteq> Some learner then Inr (Inl PyNotYourSlot)
           else if slot_already_paid (pg_uuid slotId) d s then Inr (Inl PyAlreadyPaid)
           else bindR (loadDisplayName (sn_teacherAccountId sn) s) (\<lambda>tn.
                  Inr (Inr \<lparr>pk_teacherAccountId = sn_teacherAccountId sn, pk_teacherName = tn,
                            pk_slotLabel = sn_label sn, pk_expectedAmountKopecks = sn_expected sn,
                            pk_paymentMethod =
                              map_option (\<lambda>m. (pm_id m, pm_phone_display m, pm_bank_label m))
                                (resolveMethodForLearner (sn_teacherAccountId sn) learner s)\<rparr>)))"

section \<open>Reads and operations agree\<close>

lemma claim_made_claimed:
  assumes made: "claim_made pf c newId ids input who status d s s'" and st: "status \<in> {Claimed, Confirmed}"
    and item: "it \<in> set (rq_items input)" "truthy_id (pi_slotId it) = Some i"
  shows "slot_claimed (pg_uuid i) s'"
proof -
  from made obtain r recs where r: "s' = with_claim r (item_rows ids 0 newId recs) s" "cm_id r = newId" "cm_status r = status"
    and recs: "map ir_slotId recs = map (truthy_id \<circ> pi_slotId) (rq_items input)" and new: "claim_by_id newId s = None"
    unfolding claim_made_def by blast
  have "Some i \<in> set (map ir_slotId recs)" unfolding recs using item by force
  then obtain q where q: "q \<in> set recs" "ir_slotId q = Some i" by auto
  have "\<exists>y \<in> set (item_rows ids n newId recs). it_slot_id y = Some (pg_uuid i)" for n
    using q by (induction recs arbitrary: n) (auto simp: item_row_def)
  then obtain y where y: "y \<in> set (item_rows ids 0 newId recs)" "it_slot_id y = Some (pg_uuid i)" by blast
  have "item_live s' y"
    using item_rows_mem [OF y(1)] r new st by (auto simp: item_live_def claim_live_def)
  with y r(1) show ?thesis by (auto simp: slot_claimed_def list_ex_iff)
qed

lemma claimed_slot_hidden:
  assumes "slot_claimed i s"
  shows "i \<notin> ls_id ` set (unpaid_of_pair teacher learner d s)" and "i \<notin> ls_id ` set (debt_of_pair c teacher learner d s)"
  using assms by (auto simp: unpaid_of_pair_def debt_of_pair_def slot_already_paid_def split: option.splits)

text \<open>
  C36: a lesson of a claim that was accepted is gone from the unpaid lessons of its pair and from the
  learner's debt, whatever the rest of the database holds, and the learner is told it is paid.
\<close>

theorem accepted_claim_closes_lesson:
  assumes "createLearnerClaim pf c newId ids input d s = Inr (Inr k, s')"
    and "it \<in> set (rq_items input)" and "pi_slotId it = Some i" and "i \<noteq> []"
  shows "(\<forall>teacher learner us. listUnpaidSlotsForPair pf teacher learner d' s' = Inr us \<longrightarrow> pg_uuid i \<notin> un_id ` set us)
    \<and> (\<forall>c' teacher learner. pg_uuid i \<notin> ls_id ` set (debt_of_pair c' teacher learner d' s'))
    \<and> (\<forall>learner x. getPayContextForSlot pf learner i d' s' \<noteq> Inr (Inr x))"
proof -
  from assms(1) have "claim_made pf c newId ids input ByLearner Claimed d s s'"
    by (cases rule: createLearnerClaim_cases) (auto dest: store_claim_made)
  then have paid: "slot_claimed (pg_uuid i) s'"
    by (rule claim_made_claimed) (use assms in auto)
  have "un_id ` set us \<subseteq> ls_id ` set (unpaid_of_pair teacher (pg_uuid learner) d' s')"
    if "listUnpaidSlotsForPair pf teacher learner d' s' = Inr us" for teacher learner us
    using that by (auto simp: listUnpaidSlotsForPair_def split: if_splits dest!: in_set_takeD)
  with claimed_slot_hidden(1) [OF paid]
  have "pg_uuid i \<notin> un_id ` set us" if "listUnpaidSlotsForPair pf teacher learner d' s' = Inr us" for teacher learner us
    using that by blast
  moreover have "getPayContextForSlot pf learner i d' s' \<noteq> Inr (Inr x)" for learner x
    using paid by (auto simp: getPayContextForSlot_def slot_already_paid_def bindR_eq_Inr_iff split: option.splits if_splits)
  ultimately show ?thesis using claimed_slot_hidden(2) [OF paid] by blast
qed

theorem accepted_claim_closes_lesson_witness:
  "\<exists>s'. createLearnerClaim sample_platform sample_clock (uuid_of CHR ''6'') (\<lambda>_. uuid_of CHR ''7'') sample_claim
      sample_db sample_sbp = Inr (Inr (uuid_of CHR ''6''), s')
    \<and> uuid_of CHR ''1'' \<notin> ls_id ` set (debt_of_pair sample_clock (uuid_of CHR ''a'') (uuid_of CHR ''b'') sample_db s')"
proof -
  obtain s' where claim: "createLearnerClaim sample_platform sample_clock (uuid_of CHR ''6'') (\<lambda>_. uuid_of CHR ''7'')
      sample_claim sample_db sample_sbp = Inr (Inr (uuid_of CHR ''6''), s')"
    using sample_learner_claim by blast
  have item: "hd (rq_items sample_claim) \<in> set (rq_items sample_claim)"
    "pi_slotId (hd (rq_items sample_claim)) = Some (uuid_of CHR ''1'')"
    by (simp_all add: sample_claim_def)
  from accepted_claim_closes_lesson [OF claim item] claim show ?thesis by (auto simp: hex_samples)
qed

definition canonical :: "string \<Rightarrow> bool" where
  "canonical i \<longleftrightarrow> uuid_pattern i \<and> pg_uuid i = i"

lemma canonical_not_Nil: "canonical i \<Longrightarrow> i \<noteq> []"
  by (auto simp: canonical_def uuid_pattern_def)

lemma uuid_pattern_not_Nil: "uuid_pattern i \<Longrightarrow> i \<noteq> []"
  by (auto simp: uuid_pattern_def)

definition claim_for_context :: "uuid \<Rightarrow> string \<Rightarrow> pay_context \<Rightarrow> uuid \<Rightarrow> claim_input" where
  "claim_for_context learner slotId k mid =
     \<lparr>rq_teacherAccountId = pk_teacherAccountId k, rq_learnerAccountId = learner,
      rq_amountKopecks = JsInt (pk_expectedAmountKopecks k), rq_paymentChannel = ChannelSbp,
      rq_paymentMethodId = Some mid,
      rq_items = [\<lparr>pi_slotId = Some slotId, pi_packagePurchaseId = None,
                   pi_expectedAmountKopecks = JsInt (pk_expectedAmountKopecks k)\<rparr>],
      rq_note = None\<rparr>"

lemma claim_for_context_sel [simp]:
  "rq_teacherAccountId (claim_for_context l i k mid) = pk_teacherAccountId k"
  "rq_learnerAccountId (claim_for_context l i k mid) = l"
  "rq_amountKopecks (claim_for_context l i k mid) = JsInt (pk_expectedAmountKopecks k)"
  "rq_paymentChannel (claim_for_context l i k mid) = ChannelSbp"
  "rq_paymentMethodId (claim_for_context l i k mid) = Some mid"
  "rq_note (claim_for_context l i k mid) = None"
  by (simp_all add: claim_for_context_def)

lemma getPayContextForSlot_okE:
  assumes "getPayContextForSlot pf learner slotId d s = Inr (Inr k)"
  obtains row where "uuid_pattern slotId" "slot_by_id d (pg_uuid slotId) = Some row"
    "ls_teacher_account_id row = pk_teacherAccountId k" "ls_learner_account_id row = Some learner"
    "\<not> slot_already_paid (pg_uuid slotId) d s" "pk_expectedAmountKopecks k = coalesce (ls_snapshot_amount_kopecks row) 0"
    "pk_slotLabel k = buildUnpaidSlotLabel pf (ls_start_at row) (ls_duration_minutes row)"
    "pk_paymentMethod k = map_option (\<lambda>m. (pm_id m, pm_phone_display m, pm_bank_label m))
       (resolveMethodForLearner (pk_teacherAccountId k) learner s)"
proof (cases "slot_by_id d (pg_uuid slotId)")
  case None
  with assms show ?thesis by (simp add: getPayContextForSlot_def loadSlotSnapshot_def split: if_splits)
next
  case (Some row)
  with assms show ?thesis
    by (auto simp: getPayContextForSlot_def loadSlotSnapshot_def bindR_eq_Inr_iff split: if_splits intro!: that [of row])
qed

lemma resolved_method_default:
  assumes "resolveMethodForLearner t l s = Some m" and "teacher_payment_method_assignments s = []" and "methods_ok s"
  shows "method_by_id (pm_id m) s = Some m" and "pm_teacher_account_id m = t" and "pm_archived_at m = None"
proof -
  have m: "m \<in> set (teacher_payment_methods s)" "pm_teacher_account_id m = t" "pm_archived_at m = None"
    using assms(1,2) by (auto simp: resolveMethodForLearner_def assigned_method_def find_Some_iff)
  then show "pm_teacher_account_id m = t" "pm_archived_at m = None" by blast+
  show "method_by_id (pm_id m) s = Some m"
    unfolding method_by_id_def using assms(3) m by (intro find_by_distinct) (simp_all add: methods_ok_def)
qed

lemma context_claim_item:
  assumes "getPayContextForSlot pf learner slotId d s = Inr (Inr k)"
    and "slot_by_id d (pg_uuid slotId) = Some row" and "isWithinPaymentRetroWindow c (ls_start_at row)"
  shows "claim_items pf c (pk_teacherAccountId k) learner d s (rq_items (claim_for_context learner slotId k mid))
    = Inr (Inr [\<lparr>ir_slotId = Some slotId, ir_packagePurchaseId = None,
                 ir_expected = pk_expectedAmountKopecks k, ir_label = pk_slotLabel k\<rparr>])"
  using assms(1)
proof (rule getPayContextForSlot_okE)
  fix row'
  assume row': "uuid_pattern slotId" "slot_by_id d (pg_uuid slotId) = Some row'"
    "ls_teacher_account_id row' = pk_teacherAccountId k" "ls_learner_account_id row' = Some learner"
    "\<not> slot_already_paid (pg_uuid slotId) d s" "pk_expectedAmountKopecks k = coalesce (ls_snapshot_amount_kopecks row') 0"
    "pk_slotLabel k = buildUnpaidSlotLabel pf (ls_start_at row') (ls_duration_minutes row')"
  have "row' = row" using row'(2) assms(2) by simp
  with row' assms(3) uuid_pattern_not_Nil [OF row'(1)] show ?thesis
    by (simp add: claim_for_context_def claim_item_def slot_item_def loadSlotSnapshot_def isSlotPastRetroWindow_def)
qed

text \<open>
  The pay context is an offer the server honours. When it shows a lesson with its price and a
  method, a claim for that price over that method is accepted with no mismatch, provided the lesson
  is inside the window of late payments, the price is positive and below the limit, and both
  accounts exist.
\<close>

theorem pay_context_is_honoured:
  assumes ctx: "getPayContextForSlot pf learner slotId d s = Inr (Inr k)"
    and meth: "pk_paymentMethod k = Some (mid, phone, bank)"
    and window: "slot_by_id d (pg_uuid slotId) = Some row" "isWithinPaymentRetroWindow c (ls_start_at row)"
    and price: "0 < pk_expectedAmountKopecks k" "pk_expectedAmountKopecks k < 100000000"
    and people: "person_by_id learner s \<noteq> None" "person_by_id (pk_teacherAccountId k) s \<noteq> None"
    and ids: "canonical learner" "canonical (pk_teacherAccountId k)" "canonical mid"
    and state: "methods_ok s" "claims_ok s" "teacher_payment_method_assignments s = []"
    and fresh: "claim_by_id newId s = None" "ids 0 \<notin> it_id ` set (payment_claim_items s)"
  shows "\<exists>s' r. createLearnerClaim pf c newId ids (claim_for_context learner slotId k mid) d s = Inr (Inr newId, s')
    \<and> claim_by_id newId s' = Some r \<and> cm_amount_mismatch_kopecks r = 0 \<and> cm_method_phone r = Some phone"
proof -
  let ?in = "claim_for_context learner slotId k mid"
  have "map_option (\<lambda>m. (pm_id m, pm_phone_display m, pm_bank_label m))
      (resolveMethodForLearner (pk_teacherAccountId k) learner s) = Some (mid, phone, bank)"
    by (rule getPayContextForSlot_okE [OF ctx]) (use meth in simp)
  then obtain m where m: "resolveMethodForLearner (pk_teacherAccountId k) learner s = Some m"
    "mid = pm_id m" "phone = pm_phone_display m" "bank = pm_bank_label m"
    by auto
  note dm = resolved_method_default [OF m(1) state(3,1)]
  have mid: "mid \<noteq> []" "uuid_pattern mid" "pg_uuid mid = mid" using ids(3) canonical_not_Nil by (auto simp: canonical_def)
  have slot: "uuid_pattern slotId" by (rule getPayContextForSlot_okE [OF ctx])
  have gates: "request_refusal (rq_amountKopecks ?in) (rq_items ?in) = None"
    "method_refusal_of True (pk_teacherAccountId k) ChannelSbp (Some mid) s = Inr None"
    using price mid dm m(2) by (simp_all add: claim_for_context_def request_refusal_def MAX_AMOUNT_KOPECKS_def method_refusal_of_def)
  obtain ln tn where names: "loadDisplayName learner s = Inr ln" "loadDisplayName (pk_teacherAccountId k) s = Inr tn"
    using ids(1,2) people by (auto simp: loadDisplayName_def canonical_def)
  have snap: "method_snapshot (Some mid) s = Inr (Some phone, Some bank)" "pg_uuid_opt (Some mid) = Inr (Some mid)"
    using mid dm m by (simp_all add: method_snapshot_def pg_uuid_opt_def)
  have none: "it_claim_id x \<noteq> newId" if "x \<in> set (payment_claim_items s)" for x
    using claims_okD(3) [OF state(2) that] fresh(1) by auto
  define rec where "rec = \<lparr>ir_slotId = Some slotId, ir_packagePurchaseId = None,
                 ir_expected = pk_expectedAmountKopecks k, ir_label = pk_slotLabel k\<rparr>"
  define r where "r = claim_of c newId ?in ByLearner Claimed None [rec] ln tn (Some phone, Some bank) (Some mid)"
  have ins: "pg_insert_claim c r s = Inr (s\<lparr>payment_claims := payment_claims s @ [r]\<rparr>)"
    using price people fresh(1) ids(1,2) dm(1) m(2)
    by (auto simp: r_def rec_def claim_of_def pg_insert_claim_def int4_def claim_check_def amount_value_def
        account_known_def canonical_def)
  have item: "insert_items ids 0 newId [rec] (s\<lparr>payment_claims := payment_claims s @ [r]\<rparr>)
      = Inr (s\<lparr>payment_claims := payment_claims s @ [r], payment_claim_items := payment_claim_items s @ [item_row (ids 0) newId rec]\<rparr>)"
    using price fresh(2) none
    by (force simp: pg_insert_item_def item_row_def rec_def item_check_def same_item_def list_ex_iff)
  have "createLearnerClaim pf c newId ids ?in d s
      = Inr (Inr newId, s\<lparr>payment_claims := payment_claims s @ [r],
               payment_claim_items := payment_claim_items s @ [item_row (ids 0) newId rec]\<rparr>)"
    using gates mid(1) names snap ins item context_claim_item [OF ctx window, of mid]
    by (simp add: createLearnerClaim_def store_claim_def timestamptz_opt_def rec_def r_def)
  moreover have "cm_id r = newId" "cm_amount_mismatch_kopecks r = 0" "cm_method_phone r = Some phone"
    by (simp_all add: r_def claim_of_def rec_def amount_value_def)
  ultimately show ?thesis using fresh(1) by (auto simp: claim_by_id_append)
qed

lemma sample_context:
  "\<exists>k. getPayContextForSlot sample_platform (uuid_of CHR ''b'') (uuid_of CHR ''1'') sample_db sample_sbp = Inr (Inr k)
    \<and> pk_paymentMethod k = Some (uuid_of CHR ''4'', js ''+79000000001'', js ''B'')
    \<and> pk_expectedAmountKopecks k = 150000 \<and> pk_teacherAccountId k = uuid_of CHR ''a''"
  by (simp add: getPayContextForSlot_def loadSlotSnapshot_def slot_by_id_def find_by_def hex_samples slot_already_paid_def
      slot_claimed_def slot_paid_elsewhere_def loadDisplayName_def person_by_id_def resolveMethodForLearner_def
      assigned_method_def sample_sbp_def sample_person_def sample_method_def sample_defs)

lemma sample_sbp_ok: "methods_ok sample_sbp" "claims_ok sample_sbp"
  by (simp_all add: methods_ok_def claims_ok_def sample_sbp_def sample_method_def method_check_def RU_PHONE_RE_def js_def
      is_digit_code_def sql_btrim_def methods_clash_def)

theorem pay_context_is_honoured_witness:
  "\<exists>k s' r. getPayContextForSlot sample_platform (uuid_of CHR ''b'') (uuid_of CHR ''1'') sample_db sample_sbp = Inr (Inr k)
    \<and> createLearnerClaim sample_platform sample_clock (uuid_of CHR ''6'') (\<lambda>_. uuid_of CHR ''7'')
        (claim_for_context (uuid_of CHR ''b'') (uuid_of CHR ''1'') k (uuid_of CHR ''4'')) sample_db sample_sbp
      = Inr (Inr (uuid_of CHR ''6''), s')
    \<and> claim_by_id (uuid_of CHR ''6'') s' = Some r \<and> cm_amount_mismatch_kopecks r = 0"
proof -
  obtain k where k: "getPayContextForSlot sample_platform (uuid_of CHR ''b'') (uuid_of CHR ''1'') sample_db sample_sbp = Inr (Inr k)"
    "pk_paymentMethod k = Some (uuid_of CHR ''4'', js ''+79000000001'', js ''B'')"
    "pk_expectedAmountKopecks k = 150000" "pk_teacherAccountId k = uuid_of CHR ''a''"
    using sample_context by blast
  have canon: "canonical (uuid_of CHR ''a'')" "canonical (uuid_of CHR ''b'')" "canonical (uuid_of CHR ''4'')"
    by (simp_all add: canonical_def hex_digit_def lower_hex_def)
  have row: "slot_by_id sample_db (pg_uuid (uuid_of CHR ''1'')) = Some sample_slot"
    "isWithinPaymentRetroWindow sample_clock (ls_start_at sample_slot)"
    by (simp_all add: slot_by_id_def find_by_def hex_samples isWithinPaymentRetroWindow_def js_date_def us_per_ms_def
        PAYMENT_RETRO_WINDOW_MS_def PAYMENT_RETRO_WINDOW_DAYS_def sample_defs)
  have rest: "person_by_id (uuid_of CHR ''b'') sample_sbp \<noteq> None" "person_by_id (uuid_of CHR ''a'') sample_sbp \<noteq> None"
    "claim_by_id (uuid_of CHR ''6'') sample_sbp = None" "teacher_payment_method_assignments sample_sbp = []"
    "payment_claim_items sample_sbp = []"
    by (simp_all add: sample_sbp_def sample_person_def person_by_id_def find_by_def claim_by_id_def)
  have "\<exists>s' r. createLearnerClaim sample_platform sample_clock (uuid_of CHR ''6'') (\<lambda>_. uuid_of CHR ''7'')
        (claim_for_context (uuid_of CHR ''b'') (uuid_of CHR ''1'') k (uuid_of CHR ''4'')) sample_db sample_sbp
      = Inr (Inr (uuid_of CHR ''6''), s')
    \<and> claim_by_id (uuid_of CHR ''6'') s' = Some r \<and> cm_amount_mismatch_kopecks r = 0 \<and> cm_method_phone r = Some (js ''+79000000001'')"
    by (rule pay_context_is_honoured [OF k(1,2) row]) (simp_all add: k canon rest sample_sbp_ok)
  with k(1) show ?thesis by blast
qed

text \<open>
  A lesson whose card payment was refunded in full. The debt list counts it as owed, and the
  journal still refuses a claim for it as already paid: the check looks at the order, not at the
  refunds.
\<close>

theorem refunded_lesson_cannot_be_claimed:
  assumes "slot_by_id d (pg_uuid i) = Some row" and "uuid_pattern i"
    and "ls_teacher_account_id row = teacher" and "ls_learner_account_id row = Some learner"
    and "isWithinPaymentRetroWindow c (ls_start_at row)" and "completion_of_slot d (pg_uuid i) \<noteq> None"
    and "\<forall>pc \<in> set (package_consumptions d). pc_slot_id pc = pg_uuid i \<longrightarrow> \<not> unit_active pc"
    and "\<forall>a \<in> set (payment_allocations d). pa_kind a = ''lesson_slot'' \<and> pa_target_id a = pg_uuid i \<longrightarrow> \<not> allocation_live d a"
    and "\<exists>a \<in> set (payment_allocations d). pa_kind a = ''lesson_slot'' \<and> pa_target_id a = pg_uuid i
      \<and> order_paid d (pa_payment_order_id a)"
  shows "is_debt_slot d row \<and> slot_item pf c teacher learner i d s = Inr (Inl ClSlotAlreadyPaid)"
proof -
  have "ls_id row = pg_uuid i" using assms(1) find_by_key by (fastforce simp: slot_by_id_def)
  with assms(6-8) have "is_debt_slot d row" by (auto simp: is_debt_slot_def list_ex_iff pays_slot_def)
  moreover have "slot_already_paid (pg_uuid i) d s"
    using assms(9) by (auto simp: slot_already_paid_def slot_paid_elsewhere_def list_ex_iff)
  ultimately show ?thesis
    using assms(1-5) by (simp add: slot_item_def loadSlotSnapshot_def isSlotPastRetroWindow_def)
qed

definition sample_refunded_db :: db where
  "sample_refunded_db = sample_partly_paid\<lparr>payment_allocation_reversals :=
     [\<lparr>rv_id = uuid_of CHR ''7'', rv_payment_order_id = js ''lc_3'', rv_kind = ''lesson_slot'', rv_target_id = uuid_of CHR ''1'',
       rv_refunded_at = 0, rv_refunded_kopecks = 1, rv_refunded_by_account_id = uuid_of CHR ''d'', rv_reason = None,
       rv_created_at = 0\<rparr>]\<rparr>"

theorem refunded_lesson_cannot_be_claimed_witness:
  "is_debt_slot sample_refunded_db (sample_slot\<lparr>ls_status := Completed\<rparr>)
   \<and> slot_item sample_platform sample_clock (uuid_of CHR ''a'') (uuid_of CHR ''b'') (uuid_of CHR ''1'') sample_refunded_db sample_sbp
       = Inr (Inl ClSlotAlreadyPaid)"
  by (rule refunded_lesson_cannot_be_claimed)
    (simp_all add: sample_refunded_db_def sample_partly_paid_def slot_by_id_def find_by_def hex_samples completion_of_slot_def
      isWithinPaymentRetroWindow_def js_date_def us_per_ms_def PAYMENT_RETRO_WINDOW_MS_def PAYMENT_RETRO_WINDOW_DAYS_def
      allocation_live_def sumReversalsForAllocation_def same_allocation_def order_paid_def sample_defs)

end
