(* ===== verification/Orders.thy ===== *)
theory Orders
  imports Policy Steps
begin

text \<open>
  Payment orders: the types of \<open>src/lib/payments/types.ts\<close>, the table of
  \<open>src/lib/payments/store-postgres.ts\<close> with the constraint of \<open>src/migrations/0090\<close>, and the
  transitions of \<open>src/lib/payments/provider/lifecycle.ts\<close>. The backend that keeps orders in a file
  (development only) is left out.

  A JavaScript number is represented by the decimal that \<open>String\<close> prints for it, so that two numbers
  are equal exactly when their representations are. How a number is printed and read, and how JSON
  and forms are parsed, are arguments (\<open>js_runtime\<close>). An amount has two decimals in the table and is
  written back as it was read. The currency is always RUB and has no field.
\<close>

section \<open>JSON\<close>

datatype json = JNull | JBool bool | JNum js_float | JStr js_text | JArr "json list" | JObj "(js_text \<times> json) list"

record js_runtime =
  rt_num_text :: "js_float \<Rightarrow> js_text"
  rt_text_num :: "js_text \<Rightarrow> js_float"
  rt_json_parse :: "js_text \<Rightarrow> json option"
  rt_form_parse :: "js_text \<Rightarrow> (js_text \<times> js_text) list"
  rt_lower :: "js_text \<Rightarrow> js_text"

text \<open>\<open>String(v)\<close>; the elements of an array are joined by commas, null among them being empty.\<close>

fun join_with :: "js_text \<Rightarrow> js_text list \<Rightarrow> js_text" where
  "join_with sep [] = []"
| "join_with sep [x] = x"
| "join_with sep (x # xs) = x @ sep @ join_with sep xs"

fun js_String :: "js_runtime \<Rightarrow> json \<Rightarrow> js_text" where
  "js_String rt JNull = js ''null''"
| "js_String rt (JBool b) = js (if b then ''true'' else ''false'')"
| "js_String rt (JNum x) = rt_num_text rt x"
| "js_String rt (JStr t) = t"
| "js_String rt (JArr vs) = join_with (js '','') (map (\<lambda>v. if v = JNull then [] else js_String rt v) vs)"
| "js_String rt (JObj fs) = js ''[object Object]''"

fun js_truthy :: "json \<Rightarrow> bool" where
  "js_truthy JNull = False"
| "js_truthy (JBool b) = b"
| "js_truthy (JNum x) = (x \<noteq> Finite 0 \<and> x \<noteq> NaN)"
| "js_truthy (JStr t) = (t \<noteq> [])"
| "js_truthy (JArr vs) = True"
| "js_truthy (JObj fs) = True"

fun js_Number :: "js_runtime \<Rightarrow> json \<Rightarrow> js_float" where
  "js_Number rt JNull = Finite 0"
| "js_Number rt (JBool b) = Finite (if b then 1 else 0)"
| "js_Number rt (JNum x) = x"
| "js_Number rt (JStr t) = rt_text_num rt t"
| "js_Number rt (JArr vs) = rt_text_num rt (js_String rt (JArr vs))"
| "js_Number rt (JObj fs) = NaN"

text \<open>Reading a property; undefined is \<open>None\<close>. Reading one of null throws.\<close>

definition json_field :: "json \<Rightarrow> string \<Rightarrow> json option" where
  "json_field v k = (case v of JObj fs \<Rightarrow> map_of fs (js k) | _ \<Rightarrow> None)"

section \<open>Orders\<close>

datatype payment_provider = PrMock | PrCloudPayments | PrAdminGrant | PrTeacherGrant

datatype order_method = OmCard | OmSbp | OmAdminGrant | OmTeacherGrant

datatype payment_status =
  StPending | StThreeDsRequired | StPaid | StFailed | StCancelled | StGranted | StTeacherGranted | StTeacherRevoked

type_synonym payload = "(string \<times> json) list"

record order_event =
  oe_type :: string
  oe_at :: millis
  oe_payload :: "payload option"

record payment_order =
  od_invoiceId :: js_text
  od_amountRub :: rat
  od_description :: js_text
  od_provider :: payment_provider
  od_status :: payment_status
  od_createdAt :: millis
  od_updatedAt :: millis
  od_paidAt :: "millis option"
  od_failedAt :: "millis option"
  od_providerTransactionId :: "js_text option"
  od_providerMessage :: "js_text option"
  od_customerEmail :: js_text
  od_receiptEmail :: js_text
  od_receipt :: json
  od_metadata :: "payload option"
  od_mockAutoConfirmAt :: "millis option"
  od_events :: "order_event list"
  od_customerComment :: "js_text option"
  od_receiptTokenHash :: "string option"
  od_grantedByOperatorId :: "uuid option"
  od_paymentMethod :: "order_method option"
  od_grantedByTeacherId :: "uuid option"
  od_teacherAccountId :: "uuid option"

record public_order =
  pu_invoiceId :: js_text
  pu_amountRub :: rat
  pu_description :: js_text
  pu_provider :: payment_provider
  pu_status :: payment_status
  pu_createdAt :: millis
  pu_updatedAt :: millis
  pu_paidAt :: "millis option"
  pu_failedAt :: "millis option"
  pu_providerMessage :: "js_text option"

section \<open>The table\<close>

text \<open>
  A row holds what \<open>toInsertValues\<close> wrote, instants to the millisecond. Reading goes through
  \<open>String(date)\<close>, which drops the milliseconds, and an empty text becomes undefined.
\<close>

definition seconds_of :: "millis \<Rightarrow> millis" where
  "seconds_of t = (t div 1000) * 1000"

definition mapRowToOrder :: "payment_order \<Rightarrow> payment_order" where
  "mapRowToOrder row =
     row\<lparr>od_createdAt := seconds_of (od_createdAt row), od_updatedAt := seconds_of (od_updatedAt row),
         od_paidAt := map_option seconds_of (od_paidAt row), od_failedAt := map_option seconds_of (od_failedAt row),
         od_providerTransactionId := truthy_text (od_providerTransactionId row),
         od_providerMessage := truthy_text (od_providerMessage row),
         od_mockAutoConfirmAt := map_option seconds_of (od_mockAutoConfirmAt row)\<rparr>"

definition toInsertValues :: "payment_order \<Rightarrow> payment_order" where
  "toInsertValues ord =
     ord\<lparr>od_providerTransactionId := truthy_text (od_providerTransactionId ord),
         od_providerMessage := truthy_text (od_providerMessage ord)\<rparr>"

text \<open>\<open>payment_orders_grant_consistency\<close> and the owner of migration 0094.\<close>

definition order_check :: "payment_order \<Rightarrow> bool" where
  "order_check r \<longleftrightarrow>
     (od_provider r \<in> {PrCloudPayments, PrMock} \<and> od_grantedByOperatorId r = None \<and> od_grantedByTeacherId r = None
        \<and> od_status r \<in> {StPending, StThreeDsRequired, StPaid, StFailed, StCancelled}
        \<and> od_paymentMethod r \<in> {None, Some OmCard, Some OmSbp}
      \<or> od_provider r = PrAdminGrant \<and> od_grantedByOperatorId r \<noteq> None \<and> od_grantedByTeacherId r = None
        \<and> od_status r = StGranted \<and> od_paymentMethod r = Some OmAdminGrant
      \<or> od_provider r = PrTeacherGrant \<and> od_grantedByOperatorId r = None \<and> od_grantedByTeacherId r \<noteq> None
        \<and> od_status r \<in> {StTeacherGranted, StTeacherRevoked} \<and> od_paymentMethod r = Some OmTeacherGrant)"

type_synonym order_table = "payment_order list"

definition order_row_by_id :: "order_table \<Rightarrow> js_text \<Rightarrow> payment_order option" where
  "order_row_by_id t i = find_by od_invoiceId i t"

definition getOrder :: "order_table \<Rightarrow> js_text \<Rightarrow> payment_order option" where
  "getOrder t i = map_option mapRowToOrder (order_row_by_id t i)"

definition createOrder :: "(uuid \<Rightarrow> bool) \<Rightarrow> payment_order \<Rightarrow> order_table \<Rightarrow> exn + payment_order \<times> order_table" where
  "createOrder account_exists ord t =
     (case od_teacherAccountId ord of
        None \<Rightarrow> Inl (PgErr NotNullViolation)
      | Some teacher \<Rightarrow>
          if \<not> order_check ord then Inl (PgErr CheckViolation)
          else if order_row_by_id t (od_invoiceId ord) \<noteq> None then Inl (PgErr UniqueViolation)
          else if \<not> account_exists teacher
            \<or> (\<exists>u \<in> set_option (od_grantedByOperatorId ord) \<union> set_option (od_grantedByTeacherId ord). \<not> account_exists u)
          then Inl (PgErr ForeignKeyViolation)
          else Inr (ord, t @ [toInsertValues ord]))"

definition updateOrder ::
  "js_text \<Rightarrow> (payment_order \<Rightarrow> payment_order) \<Rightarrow> order_table \<Rightarrow> exn + payment_order option \<times> order_table" where
  "updateOrder invoiceId updater t =
     (case order_row_by_id t invoiceId of
        None \<Rightarrow> Inr (None, t)
      | Some row \<Rightarrow>
          let ord = updater (mapRowToOrder row) in
          if \<not> order_check ord then Inl (PgErr CheckViolation)
          else Inr (Some ord, replace_row od_invoiceId (toInsertValues ord) t))"

section \<open>Transitions\<close>

definition getPayloadString :: "js_runtime \<Rightarrow> payload option \<Rightarrow> string \<Rightarrow> js_text option" where
  "getPayloadString rt p k =
     (case p of
        None \<Rightarrow> None
      | Some fs \<Rightarrow>
          (case map_of fs k of
             Some (JStr t) \<Rightarrow> if t = [] then None else Some t
           | Some (JNum x) \<Rightarrow> Some (rt_num_text rt x)
           | _ \<Rightarrow> None))"

text \<open>\<open>a || b\<close> on texts.\<close>

definition or_text :: "js_text option \<Rightarrow> js_text option \<Rightarrow> js_text option" where
  "or_text a b = (case a of Some (u # us) \<Rightarrow> Some (u # us) | _ \<Rightarrow> b)"

definition appendEvent :: "millis \<Rightarrow> payment_order \<Rightarrow> string \<Rightarrow> payload option \<Rightarrow> payment_order" where
  "appendEvent now ord type p =
     ord\<lparr>od_updatedAt := now, od_events := take 50 (\<lparr>oe_type = type, oe_at = now, oe_payload = p\<rparr> # od_events ord)\<rparr>"

definition toPublicOrder :: "payment_order \<Rightarrow> public_order" where
  "toPublicOrder ord =
     \<lparr>pu_invoiceId = od_invoiceId ord, pu_amountRub = od_amountRub ord, pu_description = od_description ord,
      pu_provider = od_provider ord, pu_status = od_status ord, pu_createdAt = od_createdAt ord,
      pu_updatedAt = od_updatedAt ord, pu_paidAt = od_paidAt ord, pu_failedAt = od_failedAt ord,
      pu_providerMessage = od_providerMessage ord\<rparr>"

definition TRANSITION_EVENT_TYPES :: "string list" where
  "TRANSITION_EVENT_TYPES = [''payment.paid'', ''payment.failed'', ''payment.cancelled'']"

text \<open>What is announced on the bus of status changes, if anything.\<close>

definition maybeEmitStatusChange :: "payment_order option \<Rightarrow> public_order option" where
  "maybeEmitStatusChange ord =
     (case ord of
        None \<Rightarrow> None
      | Some x \<Rightarrow>
          (case od_events x of
             [] \<Rightarrow> None
           | latest # _ \<Rightarrow> if oe_type latest \<in> set TRANSITION_EVENT_TYPES then Some (toPublicOrder x) else None))"

definition mock_paid_message :: js_text where
  "mock_paid_message =
     [77, 111, 99, 107, 45, 1088, 1077, 1078, 1080, 1084, 58, 32, 1087, 1083, 1072, 1090, 1105, 1078, 32,
      1072, 1074, 1090, 1086, 1084, 1072, 1090, 1080, 1095, 1077, 1089, 1082, 1080, 32, 1087, 1086, 1076,
      1090, 1074, 1077, 1088, 1078, 1076, 1105, 1085, 46]"
definition paid_message :: js_text where
  "paid_message = [1055, 1083, 1072, 1090, 1105, 1078, 32, 1087, 1086, 1076, 1090, 1074, 1077, 1088, 1078, 1076, 1105, 1085, 46]"
definition failed_message :: js_text where
  "failed_message =
     [1055, 1083, 1072, 1090, 1105, 1078, 32, 1086, 1090, 1082, 1083, 1086, 1085, 1105, 1085, 32, 1080, 1083, 1080, 32,
      1086, 1090, 1084, 1077, 1085, 1105, 1085, 46]"
definition cancelled_message :: js_text where
  "cancelled_message =
     [1055, 1083, 1072, 1090, 1105, 1078, 1085, 1072, 1103, 32, 1092, 1086, 1088, 1084, 1072, 32, 1073, 1099, 1083, 1072, 32,
      1079, 1072, 1082, 1088, 1099, 1090, 1072, 32, 1073, 1077, 1079, 32, 1079, 1072, 1074, 1077, 1088, 1096, 1077, 1085,
      1080, 1103, 32, 1086, 1087, 1083, 1072, 1090, 1099, 46]"

text \<open>
  The status is read before the transaction of the update: \<open>pre\<close> is the table of the first read. The
  update itself does not look at the status again.
\<close>

definition syncMockOrderState ::
  "millis \<Rightarrow> js_text \<Rightarrow> order_table \<Rightarrow> order_table \<Rightarrow> exn + payment_order option \<times> order_table" where
  "syncMockOrderState now invoiceId pre t =
     (case getOrder pre invoiceId of
        None \<Rightarrow> Inr (None, t)
      | Some current \<Rightarrow>
          if od_provider current \<noteq> PrMock then Inr (Some current, t)
          else if od_status current = StPending
            \<and> (case od_mockAutoConfirmAt current of None \<Rightarrow> False | Some a \<Rightarrow> a \<le> now)
          then updateOrder invoiceId
                 (\<lambda>ord. appendEvent now
                    (ord\<lparr>od_status := StPaid, od_paidAt := Some now, od_providerMessage := Some mock_paid_message\<rparr>)
                    ''mock.auto_paid'' None) t
          else Inr (Some current, t))"

datatype detected_method = DetectedCard | DetectedSbp | DetectedUnknown

definition next_payment_method :: "detected_method option \<Rightarrow> payment_order \<Rightarrow> order_method option" where
  "next_payment_method detected ord =
     (case od_paymentMethod ord of
        Some m \<Rightarrow> Some m
      | None \<Rightarrow>
          (case detected of
             Some DetectedCard \<Rightarrow> Some OmCard
           | Some DetectedSbp \<Rightarrow> Some OmSbp
           | _ \<Rightarrow> None))"

definition paid_update :: "js_runtime \<Rightarrow> millis \<Rightarrow> payload option \<Rightarrow> detected_method option \<Rightarrow> payment_order \<Rightarrow> payment_order" where
  "paid_update rt now p detected ord =
     (if od_status ord = StPaid then appendEvent now ord ''payment.paid_duplicate'' p
      else appendEvent now
        (ord\<lparr>od_status := StPaid,
             od_paidAt := (case od_paidAt ord of Some x \<Rightarrow> Some x | None \<Rightarrow> Some now),
             od_providerTransactionId := or_text (getPayloadString rt p ''transactionId'') (od_providerTransactionId ord),
             od_providerMessage := Some paid_message,
             od_paymentMethod := next_payment_method detected ord\<rparr>)
        ''payment.paid'' p)"

definition failed_update :: "js_runtime \<Rightarrow> millis \<Rightarrow> payload option \<Rightarrow> payment_order \<Rightarrow> payment_order" where
  "failed_update rt now p ord =
     (let reason = getPayloadString rt p ''reason'' in
      if od_status ord = StPaid then appendEvent now ord ''payment.fail_ignored_after_paid'' p
      else if od_status ord = StFailed then appendEvent now ord ''payment.fail_duplicate'' p
      else appendEvent now
        (ord\<lparr>od_status := StFailed,
             od_failedAt := (case od_failedAt ord of Some x \<Rightarrow> Some x | None \<Rightarrow> Some now),
             od_providerTransactionId := or_text (getPayloadString rt p ''transactionId'') (od_providerTransactionId ord),
             od_providerMessage := or_text reason (Some failed_message)\<rparr>)
        ''payment.failed'' p)"

definition cancelled_update :: "millis \<Rightarrow> payload option \<Rightarrow> payment_order \<Rightarrow> payment_order" where
  "cancelled_update now p ord =
     (if od_status ord = StPaid then appendEvent now ord ''payment.cancel_ignored_after_paid'' p
      else if od_status ord = StCancelled then appendEvent now ord ''payment.cancel_duplicate'' p
      else if od_status ord = StFailed then appendEvent now ord ''payment.cancel_ignored_after_failed'' p
      else appendEvent now (ord\<lparr>od_status := StCancelled, od_providerMessage := Some cancelled_message\<rparr>)
        ''payment.cancelled'' p)"

definition markOrderPaid ::
  "js_runtime \<Rightarrow> millis \<Rightarrow> js_text \<Rightarrow> payload option \<Rightarrow> detected_method option \<Rightarrow> order_table
     \<Rightarrow> exn + (payment_order option \<times> public_order option) \<times> order_table" where
  "markOrderPaid rt now invoiceId p detected t =
     bindR (updateOrder invoiceId (paid_update rt now p detected) t)
       (\<lambda>(ord, t'). Inr ((ord, maybeEmitStatusChange ord), t'))"

definition markOrderFailed ::
  "js_runtime \<Rightarrow> millis \<Rightarrow> js_text \<Rightarrow> payload option \<Rightarrow> order_table
     \<Rightarrow> exn + (payment_order option \<times> public_order option) \<times> order_table" where
  "markOrderFailed rt now invoiceId p t =
     bindR (updateOrder invoiceId (failed_update rt now p) t)
       (\<lambda>(ord, t'). Inr ((ord, maybeEmitStatusChange ord), t'))"

definition markOrderCancelled ::
  "millis \<Rightarrow> js_text \<Rightarrow> payload option \<Rightarrow> order_table
     \<Rightarrow> exn + (payment_order option \<times> public_order option) \<times> order_table" where
  "markOrderCancelled now invoiceId p t =
     bindR (updateOrder invoiceId (cancelled_update now p) t)
       (\<lambda>(ord, t'). Inr ((ord, maybeEmitStatusChange ord), t'))"

section \<open>The machine of an order\<close>

text \<open>What may happen to the status of an order, in one step or many.\<close>

definition order_move :: "payment_status \<Rightarrow> payment_status \<Rightarrow> bool" where
  "order_move a b \<longleftrightarrow>
     b = a
     \<or> a \<in> {StPending, StThreeDsRequired} \<and> b \<in> {StPaid, StFailed, StCancelled}
     \<or> a = StCancelled \<and> b \<in> {StPaid, StFailed}
     \<or> a = StFailed \<and> b = StPaid"

lemma order_move_refl [simp, intro]: "order_move a a"
  by (simp add: order_move_def)

lemma order_move_trans: "order_move a b \<Longrightarrow> order_move b c \<Longrightarrow> order_move a c"
  by (auto simp: order_move_def)

text \<open>How a row may differ from an earlier row of the same order.\<close>

definition advanced :: "payment_order \<Rightarrow> payment_order \<Rightarrow> bool" where
  "advanced a b \<longleftrightarrow>
     od_invoiceId b = od_invoiceId a \<and> od_amountRub b = od_amountRub a \<and> od_provider b = od_provider a
     \<and> order_move (od_status a) (od_status b)
     \<and> (od_status a = StPaid \<longrightarrow> od_paymentMethod b = od_paymentMethod a
          \<and> (od_provider a \<noteq> PrMock \<longrightarrow> map_option seconds_of (od_paidAt b) = map_option seconds_of (od_paidAt a)))"

lemma advanced_refl [simp, intro]: "advanced a a"
  by (simp add: advanced_def)

lemma paid_stays: "order_move StPaid b \<longleftrightarrow> b = StPaid"
  by (simp add: order_move_def)

lemma advanced_trans:
  assumes "advanced a b" and "advanced b c"
  shows "advanced a c"
proof -
  have "order_move (od_status a) (od_status c)"
    using assms order_move_trans unfolding advanced_def by blast
  moreover have "od_status b = StPaid" if "od_status a = StPaid"
    using assms(1) that paid_stays unfolding advanced_def by metis
  ultimately show ?thesis using assms unfolding advanced_def by metis
qed

lemma seconds_of_idem [simp]: "seconds_of (seconds_of t) = seconds_of t"
  by (simp add: seconds_of_def)

lemma advanced_read [intro]: "advanced a (mapRowToOrder a)"
  by (simp add: advanced_def mapRowToOrder_def option.map_comp comp_def)

lemma advanced_write: "advanced a b \<Longrightarrow> advanced a (toInsertValues b)"
  by (simp add: advanced_def toInsertValues_def)

lemmas updates = paid_update_def failed_update_def cancelled_update_def appendEvent_def

text \<open>Only the status matters to the moves of the three updates.\<close>

lemma money_status:
  "order_check x \<Longrightarrow> order_check y \<Longrightarrow> od_provider y = od_provider x \<Longrightarrow> od_status y \<in> {StPaid, StFailed, StCancelled} \<Longrightarrow>
   od_status x \<in> {StPending, StThreeDsRequired, StPaid, StFailed, StCancelled}"
  by (auto simp: order_check_def)

lemma paid_update_advances:
  assumes "order_check x" and "order_check (paid_update rt now p m x)"
  shows "advanced x (paid_update rt now p m x)"
proof -
  have "od_status (paid_update rt now p m x) = StPaid" by (simp add: updates)
  then have "order_move (od_status x) StPaid"
    using money_status [OF assms] by (auto simp: updates order_move_def)
  then show ?thesis by (simp add: advanced_def updates)
qed

lemma failed_update_advances:
  assumes "order_check x" and "order_check (failed_update rt now p x)"
  shows "advanced x (failed_update rt now p x)"
proof -
  have st: "od_status (failed_update rt now p x) = (if od_status x = StPaid then StPaid else StFailed)"
    by (simp add: updates Let_def)
  then have "order_move (od_status x) (od_status (failed_update rt now p x))"
    using money_status [OF assms] by (auto simp: updates Let_def order_move_def)
  then show ?thesis by (simp add: advanced_def updates Let_def)
qed

lemma cancelled_update_advances:
  assumes "order_check x" and "order_check (cancelled_update now p x)"
  shows "advanced x (cancelled_update now p x)"
proof -
  have st: "od_status (cancelled_update now p x)
      = (if od_status x \<in> {StPaid, StFailed} then od_status x else StCancelled)"
    by (simp add: updates)
  then have "order_move (od_status x) (od_status (cancelled_update now p x))"
    using money_status [OF assms] by (auto simp: updates order_move_def)
  then show ?thesis by (simp add: advanced_def updates)
qed

definition sync_update :: "millis \<Rightarrow> payment_order \<Rightarrow> payment_order" where
  "sync_update now ord = appendEvent now
     (ord\<lparr>od_status := StPaid, od_paidAt := Some now, od_providerMessage := Some mock_paid_message\<rparr>)
     ''mock.auto_paid'' None"

lemma sync_update_advances:
  assumes "order_check x" and "order_check (sync_update now x)" and "od_provider x = PrMock"
  shows "advanced x (sync_update now x)"
  using money_status [OF assms(1,2)] assms(3) by (auto simp: sync_update_def appendEvent_def advanced_def order_move_def)

section \<open>Runs\<close>

text \<open>The rows of a table: unique invoices, each within the constraint.\<close>

definition orders_ok :: "order_table \<Rightarrow> bool" where
  "orders_ok t \<longleftrightarrow> distinct (map od_invoiceId t) \<and> list_all order_check t"

text \<open>The other updates of the program note a provider's id, a message or an event on the order.\<close>

definition keeps_payment :: "(payment_order \<Rightarrow> payment_order) \<Rightarrow> bool" where
  "keeps_payment f \<longleftrightarrow>
     (\<forall>x. od_invoiceId (f x) = od_invoiceId x \<and> od_amountRub (f x) = od_amountRub x \<and> od_provider (f x) = od_provider x
        \<and> od_status (f x) = od_status x \<and> od_paymentMethod (f x) = od_paymentMethod x \<and> od_paidAt (f x) = od_paidAt x)"

inductive order_step :: "js_runtime \<Rightarrow> order_table \<Rightarrow> order_table \<Rightarrow> bool" for rt where
  step_create: "createOrder exists ord t = Inr (r, t') \<Longrightarrow> order_step rt t t'"
| step_paid: "markOrderPaid rt now i p m t = Inr (r, t') \<Longrightarrow> order_step rt t t'"
| step_failed: "markOrderFailed rt now i p t = Inr (r, t') \<Longrightarrow> order_step rt t t'"
| step_cancelled: "markOrderCancelled now i p t = Inr (r, t') \<Longrightarrow> order_step rt t t'"
| step_sync: "syncMockOrderState now i pre t = Inr (r, t') \<Longrightarrow> (order_step rt)\<^sup>*\<^sup>* pre t \<Longrightarrow> order_step rt t t'"
| step_note: "keeps_payment f \<Longrightarrow> updateOrder i f t = Inr (r, t') \<Longrightarrow> order_step rt t t'"

lemma updateOrder_rows:
  assumes "updateOrder i f t = Inr (r, t')" and "\<And>x. od_invoiceId (f x) = od_invoiceId x"
  shows "order_row_by_id t' j
      = (if j = i then map_option (\<lambda>row. toInsertValues (f (mapRowToOrder row))) (order_row_by_id t i) else order_row_by_id t j)"
    and "order_row_by_id t i = Some row \<Longrightarrow> order_check (f (mapRowToOrder row)) \<and> r = Some (f (mapRowToOrder row))"
    and "orders_ok t \<Longrightarrow> orders_ok t'"
proof -
  have key: "od_invoiceId (toInsertValues (f (mapRowToOrder row))) = i" if "order_row_by_id t i = Some row" for row
    using that assms(2) by (auto simp: order_row_by_id_def toInsertValues_def mapRowToOrder_def dest!: find_by_SomeD)
  show "order_row_by_id t' j
      = (if j = i then map_option (\<lambda>row. toInsertValues (f (mapRowToOrder row))) (order_row_by_id t i) else order_row_by_id t j)"
    using assms(1) key
    by (auto simp: updateOrder_def order_row_by_id_def Let_def find_by_replace_row split: option.splits if_splits)
  show chk: "order_check (f (mapRowToOrder row)) \<and> r = Some (f (mapRowToOrder row))"
    if "order_row_by_id t i = Some row" for row
    using assms(1) that by (auto simp: updateOrder_def Let_def split: if_splits)
  show "orders_ok t'" if ok: "orders_ok t"
  proof (cases "order_row_by_id t i")
    case None
    with assms(1) ok show ?thesis by (simp add: updateOrder_def)
  next
    case (Some row)
    let ?n = "toInsertValues (f (mapRowToOrder row))"
    have t': "t' = replace_row od_invoiceId ?n t"
      using assms(1) Some by (auto simp: updateOrder_def Let_def split: if_splits)
    have "order_check ?n" using chk [OF Some] by (simp add: order_check_def toInsertValues_def)
    with ok show ?thesis
      unfolding t' orders_ok_def list_all_iff map_key_replace_row
      using set_replace_row [of od_invoiceId ?n t] by blast
  qed
qed

lemma updates_keep_key [simp]:
  "od_invoiceId (paid_update rt now p m x) = od_invoiceId x"
  "od_invoiceId (failed_update rt now p x) = od_invoiceId x"
  "od_invoiceId (cancelled_update now p x) = od_invoiceId x"
  "od_invoiceId (sync_update now x) = od_invoiceId x"
  by (simp_all add: updates sync_update_def Let_def)

text \<open>Every step is one update, one insert, or nothing.\<close>

lemma syncMockOrderState_cases:
  assumes "syncMockOrderState now i pre t = Inr (r, t')"
  shows "t' = t \<or> (\<exists>c. getOrder pre i = Some c \<and> od_provider c = PrMock \<and> updateOrder i (sync_update now) t = Inr (r, t'))"
  using assms by (auto simp: syncMockOrderState_def sync_update_def [abs_def] split: option.splits if_splits)

lemma markOrder_update:
  "markOrderPaid rt now i p m t = Inr (r, t') \<Longrightarrow> updateOrder i (paid_update rt now p m) t = Inr (fst r, t')"
  "markOrderFailed rt now i p t = Inr (r, t') \<Longrightarrow> updateOrder i (failed_update rt now p) t = Inr (fst r, t')"
  "markOrderCancelled now i p t = Inr (r, t') \<Longrightarrow> updateOrder i (cancelled_update now p) t = Inr (fst r, t')"
  by (auto simp: markOrderPaid_def markOrderFailed_def markOrderCancelled_def elim!: bindR_InrE)

lemma createOrder_rows:
  assumes "createOrder ex ord t = Inr (r, t')"
  shows "order_row_by_id t j = Some row \<Longrightarrow> order_row_by_id t' j = Some row" and "orders_ok t \<Longrightarrow> orders_ok t'"
proof -
  have t': "t' = t @ [toInsertValues ord]" "order_check ord" "order_row_by_id t (od_invoiceId ord) = None"
    using assms by (auto simp: createOrder_def split: option.splits if_splits)
  then show "order_row_by_id t j = Some row \<Longrightarrow> order_row_by_id t' j = Some row"
    by (simp add: order_row_by_id_def find_by_append)
  show "orders_ok t \<Longrightarrow> orders_ok t'"
    using t' by (auto simp: orders_ok_def order_row_by_id_def find_by_None_iff toInsertValues_def order_check_def)
qed

lemma step_keeps_provider:
  assumes "order_step rt t t'" and "order_row_by_id t j = Some a"
  shows "\<exists>b. order_row_by_id t' j = Some b \<and> od_provider b = od_provider a"
proof -
  have upd: ?thesis if "updateOrder i f t = Inr (r, t')"
    and "\<And>x. od_invoiceId (f x) = od_invoiceId x" and "\<And>x. od_provider (f x) = od_provider x" for i f r
    using updateOrder_rows(1) [OF that(1,2), of j] that(3) assms(2)
    by (auto simp: toInsertValues_def mapRowToOrder_def)
  from assms(1) show ?thesis
  proof cases
    case step_create then show ?thesis using createOrder_rows(1) assms(2) by blast
  next
    case step_paid show ?thesis by (rule upd [OF markOrder_update(1) [OF step_paid]]) (simp_all add: updates)
  next
    case step_failed show ?thesis by (rule upd [OF markOrder_update(2) [OF step_failed]]) (simp_all add: updates Let_def)
  next
    case step_cancelled show ?thesis by (rule upd [OF markOrder_update(3) [OF step_cancelled]]) (simp_all add: updates)
  next
    case (step_sync now i pre r)
    with syncMockOrderState_cases [OF this(1)] assms(2) show ?thesis
      by (auto intro: upd simp: sync_update_def appendEvent_def)
  next
    case (step_note f i r)
    then show ?thesis using upd [of i f r] by (auto simp: keeps_payment_def)
  qed
qed

lemma run_keeps_provider:
  assumes "(order_step rt)\<^sup>*\<^sup>* t t'" and "order_row_by_id t j = Some a"
  shows "\<exists>b. order_row_by_id t' j = Some b \<and> od_provider b = od_provider a"
  using assms by (induction rule: rtranclp_induct) (auto dest: step_keeps_provider)

lemma order_row_check: "orders_ok t \<Longrightarrow> order_row_by_id t i = Some row \<Longrightarrow> order_check (mapRowToOrder row)"
  by (auto simp: orders_ok_def list_all_iff order_row_by_id_def order_check_def mapRowToOrder_def dest!: find_by_SomeD)

lemma updateOrder_advances:
  assumes "orders_ok t" and "updateOrder i f t = Inr (r, t')" and "\<And>x. od_invoiceId (f x) = od_invoiceId x"
    and "\<And>row. order_row_by_id t i = Some row \<Longrightarrow> order_check (mapRowToOrder row) \<Longrightarrow> order_check (f (mapRowToOrder row)) \<Longrightarrow>
      advanced (mapRowToOrder row) (f (mapRowToOrder row))"
    and row: "order_row_by_id t j = Some a"
  shows "\<exists>b. order_row_by_id t' j = Some b \<and> advanced a b"
proof (cases "j = i")
  case True
  have "advanced (mapRowToOrder a) (f (mapRowToOrder a))"
    using assms(4) row True order_row_check [OF assms(1)] updateOrder_rows(2) [OF assms(2,3)] by blast
  then have "advanced a (toInsertValues (f (mapRowToOrder a)))"
    using advanced_read advanced_trans advanced_write by blast
  then show ?thesis using updateOrder_rows(1) [OF assms(2,3), of j] row True by auto
qed (use updateOrder_rows(1) [OF assms(2,3), of j] row in auto)

lemma step_advances:
  assumes step: "order_step rt t t'" and ok: "orders_ok t"
  shows "orders_ok t'" and "order_row_by_id t j = Some a \<Longrightarrow> \<exists>b. order_row_by_id t' j = Some b \<and> advanced a b"
proof -
  have "orders_ok t' \<and> (\<forall>a. order_row_by_id t j = Some a \<longrightarrow> (\<exists>b. order_row_by_id t' j = Some b \<and> advanced a b))"
  proof -
    note upd = updateOrder_rows(3) [OF _ _ ok] updateOrder_advances [OF ok]
    from step show ?thesis
    proof cases
      case step_create
      then show ?thesis using createOrder_rows ok by blast
    next
      case (step_paid now i p m r)
      note u = markOrder_update(1) [OF step_paid]
      show ?thesis using upd(1) [OF u] upd(2) [OF u _ paid_update_advances] by simp
    next
      case (step_failed now i p r)
      note u = markOrder_update(2) [OF step_failed]
      show ?thesis using upd(1) [OF u] upd(2) [OF u _ failed_update_advances] by simp
    next
      case (step_cancelled now i p r)
      note u = markOrder_update(3) [OF step_cancelled]
      show ?thesis using upd(1) [OF u] upd(2) [OF u _ cancelled_update_advances] by simp
    next
      case (step_sync now i pre r)
      show ?thesis
        using syncMockOrderState_cases [OF step_sync(1)]
      proof (elim disjE exE conjE)
        fix c assume c: "getOrder pre i = Some c" "od_provider c = PrMock"
          and u: "updateOrder i (sync_update now) t = Inr (r, t')"
        obtain z where z: "order_row_by_id pre i = Some z" "od_provider z = PrMock"
          using c by (auto simp: getOrder_def mapRowToOrder_def)
        have "od_provider (mapRowToOrder row) = PrMock" if "order_row_by_id t i = Some row" for row
          using run_keeps_provider [OF step_sync(2) z(1)] that z(2) by (auto simp: mapRowToOrder_def)
        then show ?thesis using upd(1) [OF u] upd(2) [OF u _ sync_update_advances] by simp
      qed (use ok in auto)
    next
      case (step_note f i r)
      have key: "\<And>x. od_invoiceId (f x) = od_invoiceId x" using step_note(1) by (simp add: keeps_payment_def)
      have "advanced x (f x)" for x using step_note(1) by (simp add: keeps_payment_def advanced_def)
      with upd(1) [OF step_note(2) key] upd(2) [OF step_note(2) key] show ?thesis by blast
    qed
  qed
  then show "orders_ok t'" and "order_row_by_id t j = Some a \<Longrightarrow> \<exists>b. order_row_by_id t' j = Some b \<and> advanced a b"
    by blast+
qed

definition advanced_in :: "payment_order \<Rightarrow> order_table \<Rightarrow> bool" where
  "advanced_in a t \<longleftrightarrow> orders_ok t \<and> (\<exists>b. order_row_by_id t (od_invoiceId a) = Some b \<and> advanced a b)"

interpretation order_run: kept_by_steps "order_step rt" "advanced_in a" for rt a
  by unfold_locales (metis advanced_in_def step_advances advanced_trans)

text \<open>
  C5: the life of an order, whatever sequence of creations, webhooks, cancels, mock confirmations
  (even ones that act on a stale read) and notes comes. The order stays in the table with its amount
  and its provider. Its status moves only from pending to paid, failed or cancelled, from cancelled to paid
  or failed, and from failed to paid; a grant never becomes a payment. Once paid it stays paid,
  with its payment method and, unless it is a mock order, with the second it was paid at.
\<close>

theorem order_status_machine:
  assumes "orders_ok t" and "(order_step rt)\<^sup>*\<^sup>* t t'" and "order_row_by_id t i = Some a"
  shows "\<exists>b. order_row_by_id t' i = Some b \<and> od_amountRub b = od_amountRub a \<and> od_provider b = od_provider a
     \<and> order_move (od_status a) (od_status b)
     \<and> (od_status a = StPaid \<longrightarrow> od_status b = StPaid \<and> od_paymentMethod b = od_paymentMethod a
          \<and> (od_provider a \<noteq> PrMock \<longrightarrow> map_option seconds_of (od_paidAt b) = map_option seconds_of (od_paidAt a)))"
proof -
  have i: "od_invoiceId a = i" using assms(3) by (auto simp: order_row_by_id_def dest!: find_by_SomeD)
  have "advanced_in a t" using assms(1,3) i by (auto simp: advanced_in_def)
  with order_run.run_good assms(2) have "advanced_in a t'" by blast
  with i show ?thesis by (auto simp: advanced_in_def advanced_def paid_stays)
qed

text \<open>A failed order that a late webhook pays, and a refusal that comes after it.\<close>

definition sample_order :: payment_order where
  "sample_order =
     \<lparr>od_invoiceId = js ''lc_1'', od_amountRub = 1500, od_description = [], od_provider = PrCloudPayments, od_status = StFailed,
      od_createdAt = 1500, od_updatedAt = 1500, od_paidAt = None, od_failedAt = Some 1700, od_providerTransactionId = None,
      od_providerMessage = None, od_customerEmail = js ''a@b.ru'', od_receiptEmail = js ''a@b.ru'', od_receipt = JNull,
      od_metadata = None, od_mockAutoConfirmAt = None, od_events = [], od_customerComment = None, od_receiptTokenHash = None,
      od_grantedByOperatorId = None, od_paymentMethod = None, od_grantedByTeacherId = None,
      od_teacherAccountId = Some (uuid_of CHR ''a'')\<rparr>"

definition sample_runtime :: js_runtime where
  "sample_runtime = \<lparr>rt_num_text = (\<lambda>x. js ''42''), rt_text_num = (\<lambda>t. if t = js ''1500.00'' then Finite 1500 else NaN),
     rt_json_parse = (\<lambda>t. None), rt_form_parse = (\<lambda>t. []), rt_lower = (\<lambda>t. t)\<rparr>"

theorem order_status_machine_witness:
  "\<exists>t1 t2 b. markOrderPaid sample_runtime 9900 (js ''lc_1'') None (Some DetectedCard) [sample_order] = Inr t1
     \<and> markOrderFailed sample_runtime 12000 (js ''lc_1'') None (snd t1) = Inr t2
     \<and> order_row_by_id (snd t2) (js ''lc_1'') = Some b \<and> od_status b = StPaid
     \<and> od_paymentMethod b = Some OmCard \<and> map_option seconds_of (od_paidAt b) = Some 9000"
proof -
  let ?i = "js ''lc_1''"
  obtain r1 t1 where t1: "markOrderPaid sample_runtime 9900 ?i None (Some DetectedCard) [sample_order] = Inr (r1, t1)"
    and row: "order_row_by_id t1 ?i = Some (toInsertValues (paid_update sample_runtime 9900 None (Some DetectedCard) (mapRowToOrder sample_order)))"
    by (simp add: markOrderPaid_def updateOrder_def order_row_by_id_def find_by_def sample_order_def Let_def
        order_check_def updates mapRowToOrder_def next_payment_method_def replace_row_def toInsertValues_def)
  obtain r2 t2 where t2: "markOrderFailed sample_runtime 12000 ?i None t1 = Inr (r2, t2)"
    using row by (simp add: markOrderFailed_def updateOrder_def Let_def sample_order_def
        order_check_def updates mapRowToOrder_def next_payment_method_def toInsertValues_def)
  have ok: "orders_ok [sample_order]" by (simp add: orders_ok_def order_check_def sample_order_def)
  have ok1: "orders_ok t1" by (rule step_advances(1) [OF step_paid [OF t1] ok])
  have st: "od_status (toInsertValues (paid_update sample_runtime 9900 None (Some DetectedCard) (mapRowToOrder sample_order))) = StPaid"
    by (simp add: toInsertValues_def updates)
  obtain b where "order_row_by_id t2 ?i = Some b" "od_status b = StPaid" "od_paymentMethod b = Some OmCard"
    "map_option seconds_of (od_paidAt b) = Some 9000"
    using order_status_machine [OF ok1 r_into_rtranclp [of "order_step sample_runtime", OF step_failed [OF t2]] row]
    unfolding st by (auto simp: toInsertValues_def updates mapRowToOrder_def sample_order_def next_payment_method_def seconds_of_def)
  then show ?thesis using t1 t2 by force
qed

section \<open>What is announced\<close>

lemma announced_by_update:
  assumes "updateOrder i f t = Inr (ord, t')"
    and "\<And>x. od_invoiceId (f x) = od_invoiceId x"
    and "\<And>x. od_status (f x) \<noteq> od_status x \<longleftrightarrow> oe_type (hd (od_events (f x))) \<in> set TRANSITION_EVENT_TYPES"
    and "\<And>x. od_events (f x) \<noteq> []"
  shows "maybeEmitStatusChange ord
     = (case (order_row_by_id t i, order_row_by_id t' i) of
          (Some a, Some b) \<Rightarrow> if od_status b \<noteq> od_status a then map_option toPublicOrder ord else None
        | _ \<Rightarrow> None)"
proof (cases "order_row_by_id t i")
  case None
  then show ?thesis using assms(1) by (auto simp: updateOrder_def maybeEmitStatusChange_def)
next
  case (Some row)
  let ?x = "mapRowToOrder row"
  have row': "order_row_by_id t' i = Some (toInsertValues (f ?x))" and ord: "ord = Some (f ?x)"
    using updateOrder_rows(1,2) [OF assms(1,2)] Some by auto
  have "od_status (toInsertValues (f ?x)) = od_status (f ?x)" "od_status ?x = od_status row"
    by (simp_all add: toInsertValues_def mapRowToOrder_def)
  with Some row' ord assms(3) [of ?x] assms(4) [of ?x] show ?thesis
    by (simp add: maybeEmitStatusChange_def split: list.split)
qed

lemma transition_events:
  "od_status (paid_update rt now p m x) \<noteq> od_status x
     \<longleftrightarrow> oe_type (hd (od_events (paid_update rt now p m x))) \<in> set TRANSITION_EVENT_TYPES"
  "od_status (failed_update rt now p x) \<noteq> od_status x
     \<longleftrightarrow> oe_type (hd (od_events (failed_update rt now p x))) \<in> set TRANSITION_EVENT_TYPES"
  "od_status (cancelled_update now p x) \<noteq> od_status x
     \<longleftrightarrow> oe_type (hd (od_events (cancelled_update now p x))) \<in> set TRANSITION_EVENT_TYPES"
  "od_events (paid_update rt now p m x) \<noteq> []" "od_events (failed_update rt now p x) \<noteq> []"
  "od_events (cancelled_update now p x) \<noteq> []"
  by (simp_all add: updates Let_def TRANSITION_EVENT_TYPES_def)

text \<open>
  The bus of status changes hears of an order exactly when a mark changes its status, and hears
  the order as the mark left it; a duplicate or ignored webhook is silent, although it is recorded on the order.
\<close>

theorem announced_iff_status_changes:
  assumes "markOrderPaid rt now i p m t = Inr ((ord, said), t')
    \<or> markOrderFailed rt now i p t = Inr ((ord, said), t') \<or> markOrderCancelled now i p t = Inr ((ord, said), t')"
  shows "said = (case (order_row_by_id t i, order_row_by_id t' i) of
          (Some a, Some b) \<Rightarrow> if od_status b \<noteq> od_status a then map_option toPublicOrder ord else None
        | _ \<Rightarrow> None)"
proof -
  have said: "said = maybeEmitStatusChange ord"
    using assms by (auto simp: markOrderPaid_def markOrderFailed_def markOrderCancelled_def elim!: bindR_InrE)
  from assms consider "updateOrder i (paid_update rt now p m) t = Inr (ord, t')"
    | "updateOrder i (failed_update rt now p) t = Inr (ord, t')" | "updateOrder i (cancelled_update now p) t = Inr (ord, t')"
    using markOrder_update by force
  then show ?thesis unfolding said
    by cases (erule announced_by_update; use transition_events in simp)+
qed

theorem announced_iff_status_changes_witness:
  "\<exists>t' ord said. markOrderPaid sample_runtime 9900 (js ''lc_1'') None None [sample_order] = Inr ((ord, said), t') \<and> said \<noteq> None
   \<and> (\<exists>t'' ord'. markOrderPaid sample_runtime 9990 (js ''lc_1'') None None t' = Inr ((ord', None), t''))"
proof -
  let ?i = "js ''lc_1''"
  let ?x = "paid_update sample_runtime 9900 None None (mapRowToOrder sample_order)"
  obtain ord said t' where t': "markOrderPaid sample_runtime 9900 ?i None None [sample_order] = Inr ((ord, said), t')"
    and row: "order_row_by_id t' ?i = Some (toInsertValues ?x)" and ord: "ord = Some ?x"
    by (simp add: markOrderPaid_def updateOrder_def order_row_by_id_def find_by_def sample_order_def Let_def
        order_check_def updates mapRowToOrder_def next_payment_method_def replace_row_def toInsertValues_def)
  have st: "od_status (toInsertValues ?x) = StPaid" by (simp add: toInsertValues_def updates)
  have "said \<noteq> None"
    using announced_iff_status_changes [OF disjI1, OF t'] row ord st
    by (simp add: order_row_by_id_def find_by_def) (simp add: sample_order_def)
  moreover obtain ord' said' t'' where t'': "markOrderPaid sample_runtime 9990 ?i None None t' = Inr ((ord', said'), t'')"
    using row by (simp add: markOrderPaid_def updateOrder_def Let_def sample_order_def
        order_check_def updates mapRowToOrder_def next_payment_method_def toInsertValues_def)
  moreover have "said' = None"
  proof -
    have "orders_ok t'"
      by (rule step_advances(1) [OF step_paid [OF t']]) (simp add: orders_ok_def order_check_def sample_order_def)
    from step_advances(2) [OF step_paid [OF t''] this row] obtain b where
      "order_row_by_id t'' ?i = Some b" "od_status b = StPaid"
      using st by (auto simp: advanced_def paid_stays)
    with announced_iff_status_changes [OF disjI1, OF t''] row st show ?thesis by simp
  qed
  ultimately show ?thesis using t' by blast
qed

end
