(* ===== verification/Allocation.thy ===== *)
theory Allocation
  imports Ledger Orders
begin

text \<open>
  From an order to a lesson: the binding of a payment to a slot (\<open>src/lib/payments/slot-binding.ts\<close>), the
  allocations of paid orders (\<open>src/lib/payments/allocations.ts\<close>), the amounts
  (\<open>src/lib/payments/money.ts\<close>) and the lessons that are covered by settlements
  (\<open>src/lib/payments/settle-paid-slots.ts\<close>). Orders are read in the table of \<open>Orders\<close>.
\<close>

section \<open>Amounts and texts\<close>

text \<open>
  \<open>Math.round(x * 100)\<close>. Amounts are exact rationals here: a number with two decimals is rounded to its kopecks, as the
  double nearest to it is, while the rounding of the doubles next to half a kopeck is not modelled.
\<close>

definition rublesToKopecks :: "rat \<Rightarrow> int" where
  "rublesToKopecks amountRub = \<lfloor>amountRub * 100 + 1 / 2\<rfloor>"

text \<open>A text passed where the database takes a uuid: \<open>None\<close> when it is none.\<close>

definition uuid_text :: "js_text \<Rightarrow> string option" where
  "uuid_text t =
     (let s = map char_of t in if list_all (\<lambda>u. u < 128) t \<and> uuid_pattern s then Some s else None)"

lemma uuid_text_js [simp]: "uuid_pattern s \<Longrightarrow> list_all (\<lambda>c. of_char c < (128 :: nat)) s \<Longrightarrow> uuid_text (js s) = Some s"
  by (simp add: uuid_text_def js_def Let_def list.pred_map comp_def)

section \<open>The binding\<close>

datatype binding_refusal = SlotNotThere | NotOwner | NotInPayableState | TariffMismatch

definition KOPECKS_TOLERANCE :: int where "KOPECKS_TOLERANCE = 1"

definition payable_amount :: "db \<Rightarrow> slot_row \<Rightarrow> int option" where
  "payable_amount d s =
     coalesce_opt (ls_snapshot_amount_kopecks s)
       (Option.bind (ls_tariff_id s) (\<lambda>t. map_option pt_amount_kopecks (tariff_by_id d t)))"

definition validatePaymentSlotBinding :: "string \<Rightarrow> uuid \<Rightarrow> rat \<Rightarrow> db \<Rightarrow> exn + (binding_refusal + int option)" where
  "validatePaymentSlotBinding slotId learnerAccountId amountRub d =
     (if \<not> uuid_pattern slotId then Inl (PgErr InvalidUuidText)
      else Inr (case slot_by_id d (pg_uuid slotId) of
        None \<Rightarrow> Inl SlotNotThere
      | Some row \<Rightarrow>
          if ls_learner_account_id row \<noteq> Some learnerAccountId then Inl NotOwner
          else if ls_status row \<noteq> Booked then Inl NotInPayableState
          else (case payable_amount d row of
            None \<Rightarrow> Inr None
          | Some k \<Rightarrow> if \<bar>rublesToKopecks amountRub - k\<bar> > KOPECKS_TOLERANCE then Inl TariffMismatch else Inr (Some k))))"

section \<open>Allocations\<close>

definition ALLOWED_KINDS :: "string set" where
  "ALLOWED_KINDS = {''lesson_slot'', ''package''}"

definition allocation_key :: "allocation_row \<Rightarrow> js_text \<times> string \<times> string" where
  "allocation_key a = (pa_payment_order_id a, pa_kind a, pa_target_id a)"

text \<open>The insert with \<open>on conflict do nothing\<close>; an exception of the driver is answered with false.\<close>

definition insert_allocation :: "order_table \<Rightarrow> allocation_row \<Rightarrow> db \<Rightarrow> bool outcome" where
  "insert_allocation t row d =
     (if pa_amount_kopecks row > 2147483647 then Inl (PgErr (RaisedException ''22003''))
      else if find_by allocation_key (allocation_key row) (payment_allocations d) \<noteq> None then Inr (False, d)
      else if order_row_by_id t (pa_payment_order_id row) = None then Inl (PgErr ForeignKeyViolation)
      else Inr (True, d\<lparr>payment_allocations := payment_allocations d @ [row]\<rparr>))"

definition recordAllocation :: "order_table \<Rightarrow> js_text \<Rightarrow> string \<Rightarrow> string \<Rightarrow> js_num \<Rightarrow> db \<Rightarrow> bool \<times> db" where
  "recordAllocation t paymentOrderId kind targetId amountKopecks d =
     (if kind \<notin> ALLOWED_KINDS then (False, d)
      else case amountKopecks of
        JsNonInt \<Rightarrow> (False, d)
      | JsInt k \<Rightarrow>
          if k < 0 then (False, d)
          else (case insert_allocation t \<lparr>pa_payment_order_id = paymentOrderId, pa_kind = kind, pa_target_id = targetId,
                                          pa_amount_kopecks = k\<rparr> d of
            Inl _ \<Rightarrow> (False, d)
          | Inr r \<Rightarrow> r))"

definition listAllocationsForOrder :: "js_text \<Rightarrow> db \<Rightarrow> allocation_row list" where
  "listAllocationsForOrder paymentOrderId d =
     filter (\<lambda>a. pa_payment_order_id a = paymentOrderId) (payment_allocations d)"

text \<open>\<open>join payment_orders o .. where o.status = 'paid'\<close>, and the sum of the reversals of an allocation.\<close>

definition order_is_paid :: "order_table \<Rightarrow> js_text \<Rightarrow> bool" where
  "order_is_paid t i \<longleftrightarrow> (case order_row_by_id t i of None \<Rightarrow> False | Some r \<Rightarrow> od_status r = StPaid)"

definition paid_slot_allocations :: "order_table \<Rightarrow> string list \<Rightarrow> db \<Rightarrow> allocation_row list" where
  "paid_slot_allocations t slotIds d =
     filter (\<lambda>a. pa_kind a = ''lesson_slot'' \<and> order_is_paid t (pa_payment_order_id a) \<and> pa_target_id a \<in> set slotIds)
       (payment_allocations d)"

text \<open>The map from a slot to the order that pays it: a later row replaces an earlier one.\<close>

definition listSlotPaidStatus :: "order_table \<Rightarrow> string list \<Rightarrow> db \<Rightarrow> (string \<rightharpoonup> js_text)" where
  "listSlotPaidStatus t slotIds d =
     (if slotIds = [] then Map.empty
      else map_of (rev (map (\<lambda>a. (pa_target_id a, pa_payment_order_id a))
                          (filter (allocation_live d) (paid_slot_allocations t slotIds d)))))"

datatype slot_payment_state = SlotPaid | SlotRefunded

definition listSlotPaymentState :: "order_table \<Rightarrow> string list \<Rightarrow> db \<Rightarrow> (string \<rightharpoonup> slot_payment_state)" where
  "listSlotPaymentState t slotIds d =
     (if slotIds = [] then Map.empty
      else map_of (map (\<lambda>i. (i, if list_ex (\<lambda>a. pa_target_id a = i \<and> allocation_live d a) (paid_slot_allocations t slotIds d)
                                then SlotPaid else SlotRefunded))
                     (remdups (map pa_target_id (paid_slot_allocations t slotIds d)))))"

section \<open>Lessons covered by settlements\<close>

definition listSettledPaidSlotIds :: "string list \<Rightarrow> db \<Rightarrow> exn + uuid set" where
  "listSettledPaidSlotIds slotIds d =
     (if slotIds = [] then Inr {}
      else if list_ex (\<lambda>i. \<not> uuid_pattern i) slotIds then Inl (PgErr InvalidUuidText)
      else Inr (set (map lc_slot_id
        (filter (\<lambda>lc. lc_slot_id lc \<in> pg_uuid ` set slotIds \<and> covered d (lc_id lc) \<ge> lc_amount_kopecks lc)
          (lesson_completions d)))))"

section \<open>How the reads agree\<close>

lemma map_of_rev_dom: "map_of (rev xs) k \<noteq> None \<longleftrightarrow> k \<in> fst ` set xs"
  by (simp add: map_of_eq_None_iff)

lemma paid_status_dom:
  "listSlotPaidStatus t ids d i \<noteq> None \<longleftrightarrow>
     (\<exists>a \<in> set (paid_slot_allocations t ids d). pa_target_id a = i \<and> allocation_live d a)"
proof (cases "ids = []")
  case True
  then show ?thesis by (simp add: listSlotPaidStatus_def paid_slot_allocations_def)
next
  case False
  show ?thesis unfolding listSlotPaidStatus_def if_not_P [OF False] map_of_rev_dom by force
qed

lemma payment_state_at:
  "listSlotPaymentState t ids d i
     = (if i \<in> pa_target_id ` set (paid_slot_allocations t ids d)
        then Some (if \<exists>a \<in> set (paid_slot_allocations t ids d). pa_target_id a = i \<and> allocation_live d a
                   then SlotPaid else SlotRefunded)
        else None)"
proof (cases "ids = []")
  case True
  then show ?thesis by (simp add: listSlotPaymentState_def paid_slot_allocations_def)
next
  case False
  let ?f = "\<lambda>i. if list_ex (\<lambda>a. pa_target_id a = i \<and> allocation_live d a) (paid_slot_allocations t ids d)
                 then SlotPaid else SlotRefunded"
  have "map_of (map (\<lambda>i. (i, ?f i)) ks) i = (if i \<in> set ks then Some (?f i) else None)" for ks
    by (induction ks) auto
  with False show ?thesis by (simp add: listSlotPaymentState_def list_ex_iff)
qed

text \<open>
  The two reads of the cabinet agree on every list of lessons. A lesson is in the map of paid
  lessons exactly when its payment state is paid; its state is refunded exactly when some paid order was
  allocated to it but each such allocation is refunded in full; otherwise it has no state. The order named
  with a paid lesson is a paid one with an allocation to that lesson that is not refunded in full.
\<close>

theorem paid_reads_agree:
  "(listSlotPaidStatus t ids d i \<noteq> None \<longleftrightarrow> listSlotPaymentState t ids d i = Some SlotPaid)
   \<and> (listSlotPaymentState t ids d i = Some SlotRefunded \<longleftrightarrow>
        i \<in> set ids \<and> (\<exists>a \<in> set (payment_allocations d). pa_kind a = ''lesson_slot'' \<and> pa_target_id a = i
                                \<and> order_is_paid t (pa_payment_order_id a))
        \<and> \<not> (\<exists>a \<in> set (payment_allocations d). pa_kind a = ''lesson_slot'' \<and> pa_target_id a = i
                \<and> order_is_paid t (pa_payment_order_id a) \<and> allocation_live d a))
   \<and> (\<forall>inv. listSlotPaidStatus t ids d i = Some inv \<longrightarrow>
        (\<exists>a \<in> set (payment_allocations d). pa_payment_order_id a = inv \<and> pa_kind a = ''lesson_slot'' \<and> pa_target_id a = i
           \<and> order_is_paid t inv \<and> allocation_live d a))"
proof (intro conjI)
  show "listSlotPaidStatus t ids d i \<noteq> None \<longleftrightarrow> listSlotPaymentState t ids d i = Some SlotPaid"
    unfolding paid_status_dom payment_state_at by auto
  show "listSlotPaymentState t ids d i = Some SlotRefunded \<longleftrightarrow>
        i \<in> set ids \<and> (\<exists>a \<in> set (payment_allocations d). pa_kind a = ''lesson_slot'' \<and> pa_target_id a = i
                                \<and> order_is_paid t (pa_payment_order_id a))
        \<and> \<not> (\<exists>a \<in> set (payment_allocations d). pa_kind a = ''lesson_slot'' \<and> pa_target_id a = i
                \<and> order_is_paid t (pa_payment_order_id a) \<and> allocation_live d a)"
    unfolding payment_state_at paid_slot_allocations_def by (auto split: if_splits)
  have "(i, inv) \<in> set (map (\<lambda>a. (pa_target_id a, pa_payment_order_id a)) (filter (allocation_live d) (paid_slot_allocations t ids d)))"
    if "listSlotPaidStatus t ids d i = Some inv" for inv
    using that map_of_SomeD by (fastforce simp: listSlotPaidStatus_def split: if_splits)
  then show "\<forall>inv. listSlotPaidStatus t ids d i = Some inv \<longrightarrow>
        (\<exists>a \<in> set (payment_allocations d). pa_payment_order_id a = inv \<and> pa_kind a = ''lesson_slot'' \<and> pa_target_id a = i
           \<and> order_is_paid t inv \<and> allocation_live d a)"
    by (fastforce simp: paid_slot_allocations_def)
qed

text \<open>One order of 15 roubles paid for one lesson.\<close>

definition sample_paid_orders :: order_table where
  "sample_paid_orders = [sample_order\<lparr>od_status := StPaid\<rparr>]"

definition sample_allocated :: db where
  "sample_allocated = empty_db\<lparr>payment_allocations :=
     [\<lparr>pa_payment_order_id = js ''lc_1'', pa_kind = ''lesson_slot'', pa_target_id = uuid_of CHR ''1'', pa_amount_kopecks = 150000\<rparr>]\<rparr>"

theorem paid_reads_agree_witness:
  "listSlotPaidStatus sample_paid_orders [uuid_of CHR ''1''] sample_allocated (uuid_of CHR ''1'') = Some (js ''lc_1'')
   \<and> listSlotPaymentState sample_paid_orders [uuid_of CHR ''1''] sample_allocated (uuid_of CHR ''1'') = Some SlotPaid"
proof -
  have "listSlotPaidStatus sample_paid_orders [uuid_of CHR ''1''] sample_allocated (uuid_of CHR ''1'') = Some (js ''lc_1'')"
    by (simp add: listSlotPaidStatus_def paid_slot_allocations_def sample_allocated_def order_is_paid_def order_row_by_id_def
        find_by_def sample_paid_orders_def sample_order_def allocation_live_def sumReversalsForAllocation_def empty_db_def)
  then show ?thesis
    using paid_reads_agree [of sample_paid_orders "[uuid_of CHR ''1'']" sample_allocated "uuid_of CHR ''1''"] by simp
qed

section \<open>The spelling of a lesson\<close>

lemma uuid_pattern_canonical [simp]: "uuid_pattern (pg_uuid s) = uuid_pattern s"
proof -
  have "hex_digit (lower_hex c) = hex_digit c" "(lower_hex c = CHR ''-'') = (c = CHR ''-'')" for c
    by (auto simp: hex_digit_def lower_hex_def)
  then have "list_all (\<lambda>i. if i \<in> {8, 13, 18, 23} then map lower_hex s ! i = CHR ''-'' else hex_digit (map lower_hex s ! i)) [0..<36]
      = list_all (\<lambda>i. if i \<in> {8, 13, 18, 23} then s ! i = CHR ''-'' else hex_digit (s ! i)) [0..<36]" if "length s = 36"
    using that by (intro list.pred_cong refl) simp
  then show ?thesis unfolding uuid_pattern_def pg_uuid_def length_map by blast
qed

lemma insert_allocation_cases:
  "insert_allocation t row d = Inr (b, d') \<Longrightarrow>
     d' = (if b then d\<lparr>payment_allocations := payment_allocations d @ [row]\<rparr> else d)"
  by (auto simp: insert_allocation_def split: if_splits)

lemma recordAllocation_cases:
  assumes "recordAllocation t invoice kind i k d = (b, d')"
  shows "d' = d \<or> (\<exists>n. d' = d\<lparr>payment_allocations := payment_allocations d
      @ [\<lparr>pa_payment_order_id = invoice, pa_kind = kind, pa_target_id = i, pa_amount_kopecks = n\<rparr>]\<rparr>)"
proof (cases k)
  case (JsInt n)
  let ?row = "\<lparr>pa_payment_order_id = invoice, pa_kind = kind, pa_target_id = i, pa_amount_kopecks = n\<rparr>"
  show ?thesis
  proof (cases "insert_allocation t ?row d")
    case (Inl e)
    with assms JsInt show ?thesis by (simp add: recordAllocation_def split: if_splits)
  next
    case (Inr r)
    with assms JsInt have "d' = d \<or> insert_allocation t ?row d = Inr (b, d')"
      by (simp add: recordAllocation_def split: if_splits)
    then show ?thesis using insert_allocation_cases [of t ?row d b d'] by (cases b) auto
  qed
qed (use assms in \<open>simp add: recordAllocation_def split: if_splits\<close>)

text \<open>
  C39: a payment for a lesson is lost when the request spells the id of the lesson in capitals. The check
  before the payment reads it as a uuid and answers as for the canonical spelling, but the allocation
  stores the text, and every read of what pays the lesson compares texts: none of them changes.
\<close>

theorem other_spelling_is_not_paid:
  assumes "pg_uuid s \<noteq> s" and "recordAllocation t invoice ''lesson_slot'' s k d = (b, d')"
  shows "validatePaymentSlotBinding s learner amount d = (if uuid_pattern s then validatePaymentSlotBinding (pg_uuid s) learner amount d
           else Inl (PgErr InvalidUuidText))
     \<and> listSlotPaidStatus t [pg_uuid s] d' = listSlotPaidStatus t [pg_uuid s] d
     \<and> listSlotPaymentState t [pg_uuid s] d' = listSlotPaymentState t [pg_uuid s] d
     \<and> slotIsPaidByAllocations (pg_uuid s) d' = slotIsPaidByAllocations (pg_uuid s) d"
proof -
  have d': "d' = d \<or> (\<exists>a. d' = d\<lparr>payment_allocations := payment_allocations d @ [a]\<rparr> \<and> pa_target_id a = s)"
    using recordAllocation_cases [OF assms(2)] by auto
  have "paid_slot_allocations t [pg_uuid s] d' = paid_slot_allocations t [pg_uuid s] d \<and> allocation_live d' = allocation_live d"
    using d'
  proof
    assume "\<exists>a. d' = d\<lparr>payment_allocations := payment_allocations d @ [a]\<rparr> \<and> pa_target_id a = s"
    with assms(1) show ?thesis
      by (auto simp: paid_slot_allocations_def allocation_live_def sumReversalsForAllocation_def fun_eq_iff)
  qed simp
  then have rows: "paid_slot_allocations t [pg_uuid s] d' = paid_slot_allocations t [pg_uuid s] d"
    and same: "allocation_live d' = allocation_live d" by blast+
  have "slotIsPaidByAllocations (pg_uuid s) d' = slotIsPaidByAllocations (pg_uuid s) d"
  proof (cases "slot_by_id d (pg_uuid s)")
    case None
    with d' show ?thesis by (auto simp: slotIsPaidByAllocations_def slot_by_id_def)
  next
    case (Some r)
    then have id: "ls_id r = pg_uuid s" by (auto simp: slot_by_id_def dest: find_by_key)
    have pay: "filter (\<lambda>a. pa_kind a = ''lesson_slot'' \<and> pa_target_id a = pg_uuid s) (payment_allocations d')
        = filter (\<lambda>a. pa_kind a = ''lesson_slot'' \<and> pa_target_id a = pg_uuid s) (payment_allocations d)"
      and rest: "slot_by_id d' = slot_by_id d" "tariff_by_id d' = tariff_by_id d" "order_paid d' = order_paid d"
      using d' assms(1) by (auto simp: slot_by_id_def tariff_by_id_def order_paid_def fun_eq_iff)
    show ?thesis unfolding slotIsPaidByAllocations_def rest same Some option.case Let_def id pay by (rule refl)
  qed
  then show ?thesis
    using rows same by (simp add: validatePaymentSlotBinding_def listSlotPaidStatus_def listSlotPaymentState_def)
qed

theorem other_spelling_is_not_paid_witness:
  "pg_uuid (uuid_of CHR ''A'') = uuid_of CHR ''a''
   \<and> listSlotPaidStatus sample_paid_orders [uuid_of CHR ''a'']
       (snd (recordAllocation sample_paid_orders (js ''lc_1'') ''lesson_slot'' (uuid_of CHR ''A'') (JsInt 150000) sample_allocated))
     = listSlotPaidStatus sample_paid_orders [uuid_of CHR ''a''] sample_allocated"
proof -
  have canon: "pg_uuid (uuid_of CHR ''A'') = uuid_of CHR ''a''"
    by (simp add: pg_uuid_def uuid_of_def replicate_8 replicate_4 replicate_12 lower_hex_def)
  obtain b d' where run: "recordAllocation sample_paid_orders (js ''lc_1'') ''lesson_slot'' (uuid_of CHR ''A'') (JsInt 150000)
      sample_allocated = (b, d')"
    by (rule prod.exhaust)
  show ?thesis using other_spelling_is_not_paid [OF _ run] canon run by simp
qed

section \<open>Settled and outstanding lessons\<close>

text \<open>
  The cabinet and the settlement screen agree. Among the completed lessons of a learner with a
  teacher, the ones the cabinet shows as paid by settlements are exactly the ones that the settlement
  no longer offers; in particular a lesson without a price counts as paid at once.
\<close>

theorem settled_iff_not_outstanding:
  assumes inv: "ledger_inv d" and lc: "lc \<in> set (lesson_completions d)"
    and slot: "slot_by_id d (lc_slot_id lc) = Some s" "ls_learner_account_id s = Some learner"
    and ids: "lc_slot_id lc \<in> pg_uuid ` set slotIds" and ok: "listSettledPaidSlotIds slotIds d = Inr paid"
  shows "lc_slot_id lc \<in> paid \<longleftrightarrow>
     lc \<notin> set (settle_candidates \<lparr>sp_learnerId = learner, sp_teacherId = lc_teacher_id lc, sp_completionIds = None,
                                  sp_markedByAccountId = by_account\<rparr> d)"
proof -
  have paid: "paid = lc_slot_id ` {x \<in> set (lesson_completions d). lc_slot_id x \<in> pg_uuid ` set slotIds
      \<and> lc_amount_kopecks x \<le> covered d (lc_id x)}"
    using ok by (auto simp: listSettledPaidSlotIds_def split: if_splits)
  have dist: "distinct (map lc_slot_id (lesson_completions d))"
    using ledger_inv_keys [OF inv] by (simp add: keys_ok_def)
  have only: "x = lc" if "x \<in> set (lesson_completions d)" "lc_slot_id x = lc_slot_id lc" for x
    by (rule distinct_key_eq [OF dist that(1) lc that(2)])
  have "lc_slot_id lc \<in> paid \<longleftrightarrow> lc_amount_kopecks lc \<le> covered d (lc_id lc)"
  proof
    assume "lc_slot_id lc \<in> paid"
    then obtain x where x: "x \<in> set (lesson_completions d)" "lc_slot_id x = lc_slot_id lc"
        "lc_amount_kopecks x \<le> covered d (lc_id x)"
      unfolding paid by auto
    then show "lc_amount_kopecks lc \<le> covered d (lc_id lc)" using only [OF x(1,2)] by simp
  next
    assume "lc_amount_kopecks lc \<le> covered d (lc_id lc)"
    with lc ids show "lc_slot_id lc \<in> paid" unfolding paid by (intro image_eqI [of _ _ lc]) simp_all
  qed
  with lc slot show ?thesis by (auto simp: settle_candidates_def explicit_ids_def)
qed

theorem settled_iff_not_outstanding_witness:
  "listSettledPaidSlotIds [uuid_of CHR ''1''] sample_partly_paid = Inr {}
   \<and> (\<exists>lc. lc_slot_id lc = uuid_of CHR ''1''
         \<and> lc \<in> set (settle_candidates \<lparr>sp_learnerId = uuid_of CHR ''b'', sp_teacherId = lc_teacher_id lc,
                                         sp_completionIds = None, sp_markedByAccountId = None\<rparr> sample_partly_paid))"
proof -
  have id: "uuid_pattern (uuid_of CHR ''1'')" "pg_uuid (uuid_of CHR ''1'') = uuid_of CHR ''1''"
    by (simp_all add: hex_digit_def lower_hex_def)
  have paid: "listSettledPaidSlotIds [uuid_of CHR ''1''] sample_partly_paid = Inr {}"
    using id by (simp add: listSettledPaidSlotIds_def covered_def sample_partly_paid_def sample_db_def empty_db_def)
  obtain lc where lc: "lc \<in> set (lesson_completions sample_partly_paid)" and lc1: "lc_slot_id lc = uuid_of CHR ''1''"
    by (simp add: sample_partly_paid_def)
  have "slot_by_id sample_partly_paid (uuid_of CHR ''1'') = Some (sample_slot\<lparr>ls_status := Completed\<rparr>)"
    "ls_learner_account_id (sample_slot\<lparr>ls_status := Completed\<rparr>) = Some (uuid_of CHR ''b'')"
    by (simp_all add: slot_by_id_def find_by_def sample_partly_paid_def sample_slot_def)
  then have "slot_by_id sample_partly_paid (lc_slot_id lc) = Some (sample_slot\<lparr>ls_status := Completed\<rparr>)"
    "ls_learner_account_id (sample_slot\<lparr>ls_status := Completed\<rparr>) = Some (uuid_of CHR ''b'')"
    "lc_slot_id lc \<in> pg_uuid ` set [uuid_of CHR ''1'']"
    using id lc1 by simp_all
  from settled_iff_not_outstanding [OF sample_partly_paid_inv lc this paid, of None] paid lc1 show ?thesis by auto
qed

end
