(* ===== verification/Auth.thy ===== *)
theory Auth
  imports Database Steps "HOL-Library.Char_ord" "HOL-Library.List_Lexorder"
begin

text \<open>
  Accounts, roles, sessions and single-use tokens: \<open>src/lib/auth/accounts.ts\<close>,
  \<open>src/lib/auth/sessions.ts\<close>, \<open>src/lib/auth/single-use-tokens.ts\<close> with its two clients
  \<open>resets.ts\<close> and \<open>verifications.ts\<close>, \<open>src/lib/auth/tokens.ts\<close>, the links of
  \<open>src/lib/auth/teacher-scope.ts\<close>, and the two routes that turn a token into a session
  (\<open>src/app/api/auth/reset-confirm\<close>, \<open>src/app/api/auth/verify\<close>). The hash of a token, the random
  tokens and the ids of new rows are arguments. Account ids come from a session or a row, so
  they are compared as they are.
\<close>

section \<open>Tables\<close>

datatype account_role = RoleAdmin | RoleTeacher | RoleStudent

record auth_account =
  aa_id :: uuid
  aa_email :: js_text
  aa_password_hash :: string
  aa_email_verified_at :: "micros option"
  aa_disabled_at :: "micros option"
  aa_scheduled_purge_at :: "micros option"
  aa_purged_at :: "micros option"
  aa_assigned_teacher_id :: "uuid option"
  aa_created_at :: micros
  aa_updated_at :: micros

record account_role_row =
  ro_account_id :: uuid
  ro_role :: account_role
  ro_granted_by :: "uuid option"

record session_row =
  se_id :: uuid
  se_account_id :: uuid
  se_token_hash :: string
  se_expires_at :: micros
  se_revoked_at :: "micros option"
  se_ip :: "string option"
  se_user_agent :: "string option"
  se_created_at :: micros

record token_row =
  tk_id :: uuid
  tk_account_id :: uuid
  tk_token_hash :: string
  tk_expires_at :: micros
  tk_consumed_at :: "micros option"

record teacher_link_row =
  lk_learner :: uuid
  lk_teacher :: uuid
  lk_linked_at :: micros
  lk_unlinked_at :: "micros option"
  lk_via_invite_id :: "uuid option"
  lk_teacher_note :: "js_text option"

datatype token_scope = EmailVerifications | PasswordResets

record auth_db =
  ad_accounts :: "auth_account list"
  ad_roles :: "account_role_row list"
  ad_sessions :: "session_row list"
  ad_tokens :: "token_scope \<Rightarrow> token_row list"
  ad_links :: "teacher_link_row list"

definition has_account :: "auth_db \<Rightarrow> uuid \<Rightarrow> bool" where
  "has_account d i \<longleftrightarrow> find_by aa_id i (ad_accounts d) \<noteq> None"

section \<open>Sessions\<close>

definition SESSION_TTL_MS :: int where
  "SESSION_TTL_MS = 7 * 24 * 60 * 60 * 1000"

record session_view =
  sv_id :: uuid
  sv_accountId :: uuid
  sv_expiresAt :: millis
  sv_createdAt :: millis

record account_view =
  av_id :: uuid
  av_email :: js_text
  av_passwordHash :: string
  av_emailVerifiedAt :: "millis option"
  av_disabledAt :: "millis option"
  av_scheduledPurgeAt :: "millis option"
  av_purgedAt :: "millis option"
  av_assignedTeacherId :: "uuid option"
  av_assignedTeacherIds :: "uuid list"
  av_createdAt :: millis
  av_updatedAt :: millis

definition session_view_of :: "session_row \<Rightarrow> session_view" where
  "session_view_of s = \<lparr>sv_id = se_id s, sv_accountId = se_account_id s,
     sv_expiresAt = js_date_via_string (se_expires_at s), sv_createdAt = js_date_via_string (se_created_at s)\<rparr>"

definition rowToAccount :: "auth_account \<Rightarrow> account_view" where
  "rowToAccount a = \<lparr>av_id = aa_id a, av_email = aa_email a, av_passwordHash = aa_password_hash a,
     av_emailVerifiedAt = map_option js_date_via_string (aa_email_verified_at a),
     av_disabledAt = map_option js_date_via_string (aa_disabled_at a),
     av_scheduledPurgeAt = map_option js_date_via_string (aa_scheduled_purge_at a),
     av_purgedAt = map_option js_date_via_string (aa_purged_at a),
     av_assignedTeacherId = aa_assigned_teacher_id a, av_assignedTeacherIds = [],
     av_createdAt = js_date_via_string (aa_created_at a), av_updatedAt = js_date_via_string (aa_updated_at a)\<rparr>"

text \<open>\<open>mintToken\<close> is the argument \<open>plain\<close> with its hash.\<close>

definition createSession ::
  "(string \<Rightarrow> string) \<Rightarrow> clock \<Rightarrow> uuid \<Rightarrow> string \<Rightarrow> uuid \<Rightarrow> string option \<Rightarrow> string option \<Rightarrow> auth_db
     \<Rightarrow> exn + (session_view \<times> string) \<times> auth_db" where
  "createSession hashToken c i plain accountId ip userAgent d =
     (let row = \<lparr>se_id = i, se_account_id = accountId, se_token_hash = hashToken plain,
                 se_expires_at = (js_now c + SESSION_TTL_MS) * us_per_ms, se_revoked_at = None,
                 se_ip = (if ip = Some '''' then None else ip),
                 se_user_agent = (if userAgent = Some '''' then None else userAgent), se_created_at = pg_now c\<rparr>
      in if find_by se_id i (ad_sessions d) \<noteq> None \<or> find_by se_token_hash (hashToken plain) (ad_sessions d) \<noteq> None
         then Inl (PgErr UniqueViolation)
         else if \<not> has_account d accountId then Inl (PgErr ForeignKeyViolation)
         else Inr ((session_view_of row, plain), d\<lparr>ad_sessions := ad_sessions d @ [row]\<rparr>))"

definition link_before :: "teacher_link_row \<Rightarrow> teacher_link_row \<Rightarrow> bool" where
  "link_before a b \<longleftrightarrow> lk_linked_at a < lk_linked_at b
     \<or> lk_linked_at a = lk_linked_at b \<and> lk_teacher a < lk_teacher b"

definition active_links :: "uuid \<Rightarrow> auth_db \<Rightarrow> teacher_link_row list" where
  "active_links learner d = order_by link_before (filter (\<lambda>l. lk_learner l = learner \<and> lk_unlinked_at l = None) (ad_links d))"

definition getActiveTeacherIdsForLearner :: "string \<Rightarrow> auth_db \<Rightarrow> uuid list" where
  "getActiveTeacherIdsForLearner learner d =
     (if \<not> uuid_pattern learner then [] else map lk_teacher (active_links (pg_uuid learner) d))"

text \<open>The teacher, and whether the learner has to pick one of several.\<close>

definition getActiveTeacherForLearner :: "string \<Rightarrow> auth_db \<Rightarrow> uuid option \<times> bool" where
  "getActiveTeacherForLearner learner d =
     (if \<not> uuid_pattern learner then (None, False)
      else case take 2 (active_links (pg_uuid learner) d) of
        [] \<Rightarrow> (None, False)
      | [l] \<Rightarrow> (Some (lk_teacher l), False)
      | _ \<Rightarrow> (None, True))"

definition lookupSession ::
  "(string \<Rightarrow> string) \<Rightarrow> clock \<Rightarrow> string \<Rightarrow> auth_db \<Rightarrow> (session_view \<times> account_view) option" where
  "lookupSession hashToken c cookieValue d =
     (if cookieValue = '''' then None
      else case find_by se_token_hash (hashToken cookieValue) (ad_sessions d) of
        None \<Rightarrow> None
      | Some s \<Rightarrow>
          (case find_by aa_id (se_account_id s) (ad_accounts d) of
             None \<Rightarrow> None
           | Some a \<Rightarrow>
               if se_revoked_at s \<noteq> None then None
               else if js_date_via_string (se_expires_at s) \<le> js_now c then None
               else if aa_disabled_at a \<noteq> None then None
               else
                 let teachers = getActiveTeacherIdsForLearner (aa_id a) d in
                 Some (session_view_of s,
                       (rowToAccount a)\<lparr>av_assignedTeacherId := (case teachers of [] \<Rightarrow> None | t # _ \<Rightarrow> Some t),
                                        av_assignedTeacherIds := teachers\<rparr>)))"

definition revoke_row :: "micros \<Rightarrow> session_row \<Rightarrow> session_row" where
  "revoke_row now s = s\<lparr>se_revoked_at := Some (case se_revoked_at s of Some t \<Rightarrow> t | None \<Rightarrow> now)\<rparr>"

definition revoke_where :: "micros \<Rightarrow> (session_row \<Rightarrow> bool) \<Rightarrow> session_row \<Rightarrow> session_row" where
  "revoke_where now P s = (if P s then revoke_row now s else s)"

definition revokeSession :: "clock \<Rightarrow> uuid \<Rightarrow> auth_db \<Rightarrow> auth_db" where
  "revokeSession c sessionId d =
     d\<lparr>ad_sessions := map (revoke_where (pg_now c) (\<lambda>s. se_id s = sessionId)) (ad_sessions d)\<rparr>"

definition revokeAllSessionsForAccount :: "clock \<Rightarrow> uuid \<Rightarrow> auth_db \<Rightarrow> auth_db" where
  "revokeAllSessionsForAccount c accountId d =
     d\<lparr>ad_sessions := map (revoke_where (pg_now c) (\<lambda>s. se_account_id s = accountId \<and> se_revoked_at s = None)) (ad_sessions d)\<rparr>"

section \<open>Single-use tokens\<close>

definition PASSWORD_RESET_TTL_MS :: int where "PASSWORD_RESET_TTL_MS = 60 * 60 * 1000"
definition EMAIL_VERIFY_TTL_MS :: int where "EMAIL_VERIFY_TTL_MS = 24 * 60 * 60 * 1000"

definition createSingleUseToken ::
  "(string \<Rightarrow> string) \<Rightarrow> clock \<Rightarrow> uuid \<Rightarrow> string \<Rightarrow> token_scope \<Rightarrow> uuid \<Rightarrow> int \<Rightarrow> auth_db \<Rightarrow> exn + string \<times> auth_db" where
  "createSingleUseToken hashToken c i plain scope accountId ttlMs d =
     (let row = \<lparr>tk_id = i, tk_account_id = accountId, tk_token_hash = hashToken plain,
                 tk_expires_at = (js_now c + ttlMs) * us_per_ms, tk_consumed_at = None\<rparr>;
          rows = ad_tokens d scope
      in if find_by tk_id i rows \<noteq> None \<or> find_by tk_token_hash (hashToken plain) rows \<noteq> None
         then Inl (PgErr UniqueViolation)
         else if \<not> has_account d accountId then Inl (PgErr ForeignKeyViolation)
         else Inr (plain, d\<lparr>ad_tokens := (ad_tokens d)(scope := rows @ [row])\<rparr>))"

definition createPasswordReset :: "(string \<Rightarrow> string) \<Rightarrow> clock \<Rightarrow> uuid \<Rightarrow> string \<Rightarrow> uuid \<Rightarrow> auth_db \<Rightarrow> exn + string \<times> auth_db" where
  "createPasswordReset hashToken c i plain accountId = createSingleUseToken hashToken c i plain PasswordResets accountId PASSWORD_RESET_TTL_MS"

definition createEmailVerification :: "(string \<Rightarrow> string) \<Rightarrow> clock \<Rightarrow> uuid \<Rightarrow> string \<Rightarrow> uuid \<Rightarrow> auth_db \<Rightarrow> exn + string \<times> auth_db" where
  "createEmailVerification hashToken c i plain accountId =
     createSingleUseToken hashToken c i plain EmailVerifications accountId EMAIL_VERIFY_TTL_MS"

definition consume_row :: "micros \<Rightarrow> uuid \<Rightarrow> token_row \<Rightarrow> token_row" where
  "consume_row now i x = (if tk_id x = i then x\<lparr>tk_consumed_at := Some now\<rparr> else x)"

definition consumeSingleUseToken ::
  "(string \<Rightarrow> string) \<Rightarrow> clock \<Rightarrow> token_scope \<Rightarrow> string \<Rightarrow> auth_db \<Rightarrow> uuid option \<times> auth_db" where
  "consumeSingleUseToken hashToken c scope tok d =
     (if tok = '''' then (None, d)
      else case find_by tk_token_hash (hashToken tok) (ad_tokens d scope) of
        None \<Rightarrow> (None, d)
      | Some r \<Rightarrow>
          if tk_consumed_at r \<noteq> None then (None, d)
          else if js_date_via_string (tk_expires_at r) \<le> js_now c then (None, d)
          else (Some (tk_account_id r),
                d\<lparr>ad_tokens := (ad_tokens d)(scope :=
                   map (consume_row (pg_now c) (tk_id r)) (ad_tokens d scope))\<rparr>))"

section \<open>Accounts and roles\<close>

definition update_account :: "uuid \<Rightarrow> (auth_account \<Rightarrow> bool) \<Rightarrow> (auth_account \<Rightarrow> auth_account) \<Rightarrow> auth_db \<Rightarrow> auth_db" where
  "update_account i guard f d =
     d\<lparr>ad_accounts := map (\<lambda>a. if aa_id a = i \<and> guard a then f a else a) (ad_accounts d)\<rparr>"

definition normalizeAccountEmail :: "(js_text \<Rightarrow> js_text) \<Rightarrow> js_text \<Rightarrow> js_text" where
  "normalizeAccountEmail toLowerCase email = toLowerCase (js_trim email)"

definition createAccount ::
  "(js_text \<Rightarrow> js_text) \<Rightarrow> (js_text \<Rightarrow> js_text) \<Rightarrow> clock \<Rightarrow> uuid \<Rightarrow> js_text \<Rightarrow> string \<Rightarrow> auth_db \<Rightarrow> exn + account_view \<times> auth_db" where
  "createAccount toLowerCase sql_lower c i email passwordHash d =
     (let row = \<lparr>aa_id = i, aa_email = normalizeAccountEmail toLowerCase email, aa_password_hash = passwordHash,
                 aa_email_verified_at = None, aa_disabled_at = None, aa_scheduled_purge_at = None, aa_purged_at = None,
                 aa_assigned_teacher_id = None, aa_created_at = pg_now c, aa_updated_at = pg_now c\<rparr>
      in if aa_email row \<noteq> sql_lower (sql_btrim (aa_email row)) then Inl (PgErr CheckViolation)
         else if has_account d i \<or> find_by aa_email (aa_email row) (ad_accounts d) \<noteq> None then Inl (PgErr UniqueViolation)
         else Inr (rowToAccount row, d\<lparr>ad_accounts := ad_accounts d @ [row]\<rparr>))"

definition markAccountVerified :: "clock \<Rightarrow> uuid \<Rightarrow> auth_db \<Rightarrow> auth_db" where
  "markAccountVerified c accountId =
     update_account accountId (\<lambda>_. True)
       (\<lambda>a. a\<lparr>aa_email_verified_at := Some (case aa_email_verified_at a of Some t \<Rightarrow> t | None \<Rightarrow> pg_now c), aa_updated_at := pg_now c\<rparr>)"

definition setAccountPassword :: "clock \<Rightarrow> uuid \<Rightarrow> string \<Rightarrow> auth_db \<Rightarrow> auth_db" where
  "setAccountPassword c accountId passwordHash =
     update_account accountId (\<lambda>_. True) (\<lambda>a. a\<lparr>aa_password_hash := passwordHash, aa_updated_at := pg_now c\<rparr>)"

definition disableAccount :: "clock \<Rightarrow> uuid \<Rightarrow> auth_db \<Rightarrow> auth_db" where
  "disableAccount c accountId =
     update_account accountId (\<lambda>_. True)
       (\<lambda>a. a\<lparr>aa_disabled_at := Some (case aa_disabled_at a of Some t \<Rightarrow> t | None \<Rightarrow> pg_now c), aa_updated_at := pg_now c\<rparr>)"

definition reenableAccount :: "clock \<Rightarrow> uuid \<Rightarrow> auth_db \<Rightarrow> auth_db" where
  "reenableAccount c accountId =
     update_account accountId (\<lambda>a. aa_purged_at a = None)
       (\<lambda>a. a\<lparr>aa_disabled_at := None, aa_scheduled_purge_at := None, aa_updated_at := pg_now c\<rparr>)"

definition requestAccountDeletion :: "clock \<Rightarrow> uuid \<Rightarrow> int \<Rightarrow> auth_db \<Rightarrow> auth_db" where
  "requestAccountDeletion c accountId graceDays =
     update_account accountId (\<lambda>a. aa_purged_at a = None)
       (\<lambda>a. a\<lparr>aa_disabled_at := Some (case aa_disabled_at a of Some t \<Rightarrow> t | None \<Rightarrow> pg_now c),
              aa_scheduled_purge_at := Some (pg_now c + graceDays * us_per_day), aa_updated_at := pg_now c\<rparr>)"

definition cancelAccountDeletion :: "clock \<Rightarrow> uuid \<Rightarrow> auth_db \<Rightarrow> auth_db" where
  "cancelAccountDeletion c accountId =
     update_account accountId (\<lambda>a. aa_purged_at a = None)
       (\<lambda>a. a\<lparr>aa_disabled_at := None, aa_scheduled_purge_at := None, aa_updated_at := pg_now c\<rparr>)"

definition holds_role :: "auth_db \<Rightarrow> uuid \<Rightarrow> account_role \<Rightarrow> bool" where
  "holds_role d i r \<longleftrightarrow> list_ex (\<lambda>x. ro_account_id x = i \<and> ro_role x = r) (ad_roles d)"

text \<open>The statements of \<open>grantAccountRole\<close>, which runs them one by one outside a transaction.\<close>

definition strip_consumer_roles :: "uuid \<Rightarrow> auth_db \<Rightarrow> auth_db" where
  "strip_consumer_roles i d =
     d\<lparr>ad_roles := filter (\<lambda>x. \<not> (ro_account_id x = i \<and> ro_role x \<in> {RoleTeacher, RoleStudent})) (ad_roles d)\<rparr>"

definition insert_role :: "uuid \<Rightarrow> account_role \<Rightarrow> uuid option \<Rightarrow> auth_db \<Rightarrow> exn + unit \<times> auth_db" where
  "insert_role i r granted_by d =
     (if holds_role d i r then Inr ((), d)
      else if \<not> has_account d i \<or> (case granted_by of None \<Rightarrow> False | Some g \<Rightarrow> \<not> has_account d g)
      then Inl (PgErr ForeignKeyViolation)
      else Inr ((), d\<lparr>ad_roles := ad_roles d @ [\<lparr>ro_account_id = i, ro_role = r, ro_granted_by = granted_by\<rparr>]\<rparr>))"

text \<open>A throw after the first statement leaves what that statement did: the state comes with the exception.\<close>

definition grantAccountRole :: "uuid \<Rightarrow> account_role \<Rightarrow> uuid option \<Rightarrow> auth_db \<Rightarrow> (exn + unit) \<times> auth_db" where
  "grantAccountRole accountId role granted_by d =
     (if role = RoleAdmin
      then (let d1 = strip_consumer_roles accountId d in
            case insert_role accountId role granted_by d1 of Inl e \<Rightarrow> (Inl e, d1) | Inr (_, d2) \<Rightarrow> (Inr (), d2))
      else if holds_role d accountId RoleAdmin then (Inl (JsError ''role/admin_exclusive''), d)
      else case insert_role accountId role granted_by d of Inl e \<Rightarrow> (Inl e, d) | Inr (_, d2) \<Rightarrow> (Inr (), d2))"

definition revokeAccountRole :: "uuid \<Rightarrow> account_role \<Rightarrow> auth_db \<Rightarrow> auth_db" where
  "revokeAccountRole accountId role d =
     d\<lparr>ad_roles := filter (\<lambda>x. \<not> (ro_account_id x = accountId \<and> ro_role x = role)) (ad_roles d)\<rparr>"

text \<open>The two updates of links: an active link to another teacher ends, a link to this one lives again.\<close>

definition unlinked_row :: "micros \<Rightarrow> uuid \<Rightarrow> uuid option \<Rightarrow> teacher_link_row \<Rightarrow> teacher_link_row" where
  "unlinked_row now learner keep l =
     (if lk_learner l = learner \<and> Some (lk_teacher l) \<noteq> keep \<and> lk_unlinked_at l = None
      then l\<lparr>lk_unlinked_at := Some now\<rparr> else l)"

definition revived_row :: "micros \<Rightarrow> uuid \<Rightarrow> uuid \<Rightarrow> teacher_link_row \<Rightarrow> teacher_link_row" where
  "revived_row now learner t l =
     (if lk_learner l = learner \<and> lk_teacher l = t
      then l\<lparr>lk_linked_at := (if lk_unlinked_at l \<noteq> None then now else lk_linked_at l), lk_unlinked_at := None\<rparr> else l)"

definition setAssignedTeacher :: "clock \<Rightarrow> uuid \<Rightarrow> uuid option \<Rightarrow> auth_db \<Rightarrow> exn + unit \<times> auth_db" where
  "setAssignedTeacher c learnerId teacherId d =
     (let d1 = update_account learnerId (\<lambda>a. aa_purged_at a = None)
                 (\<lambda>a. a\<lparr>aa_assigned_teacher_id := teacherId, aa_updated_at := pg_now c\<rparr>) d;
          links = map (unlinked_row (pg_now c) learnerId teacherId) (ad_links d)
      in case teacherId of
           None \<Rightarrow> Inr ((), d1\<lparr>ad_links := links\<rparr>)
         | Some t \<Rightarrow>
             if \<not> holds_role d t RoleTeacher then Inl (JsError ''AssignedTeacherRoleError'')
             else if list_ex (\<lambda>l. lk_learner l = learnerId \<and> lk_teacher l = t) links
             then Inr ((), d1\<lparr>ad_links := map (revived_row (pg_now c) learnerId t) links\<rparr>)
             else if \<not> has_account d learnerId \<or> \<not> has_account d t then Inl (PgErr ForeignKeyViolation)
             else Inr ((), d1\<lparr>ad_links := links @ [\<lparr>lk_learner = learnerId, lk_teacher = t, lk_linked_at = pg_now c, lk_unlinked_at = None, lk_via_invite_id = None, lk_teacher_note = None\<rparr>]\<rparr>))"

section \<open>From a token to a session\<close>

text \<open>
  The body of the reset route after its guards: the token, the new hash, the new session. The route runs the statements
  one by one; here they follow one another at one instant, in the order of the code.
\<close>

definition reset_confirm ::
  "(string \<Rightarrow> string) \<Rightarrow> clock \<Rightarrow> uuid \<Rightarrow> string \<Rightarrow> string option \<Rightarrow> string option \<Rightarrow> string \<Rightarrow> string \<Rightarrow> auth_db
     \<Rightarrow> (exn + (session_view \<times> string) option) \<times> auth_db" where
  "reset_confirm hashToken c i plain ip userAgent tok newHash d =
     (case consumeSingleUseToken hashToken c PasswordResets tok d of
        (None, d1) \<Rightarrow> (Inr None, d1)
      | (Some accountId, d1) \<Rightarrow>
          let d2 = revokeAllSessionsForAccount c accountId (setAccountPassword c accountId newHash d1) in
          case createSession hashToken c i plain accountId ip userAgent d2 of
            Inl e \<Rightarrow> (Inl e, d2)
          | Inr (r, d3) \<Rightarrow> (Inr (Some r), d3))"

definition verify_email ::
  "(string \<Rightarrow> string) \<Rightarrow> clock \<Rightarrow> uuid \<Rightarrow> string \<Rightarrow> string option \<Rightarrow> string option \<Rightarrow> string \<Rightarrow> auth_db
     \<Rightarrow> (exn + (session_view \<times> string) option) \<times> auth_db" where
  "verify_email hashToken c i plain ip userAgent tok d =
     (case consumeSingleUseToken hashToken c EmailVerifications tok d of
        (None, d1) \<Rightarrow> (Inr None, d1)
      | (Some accountId, d1) \<Rightarrow>
          let d2 = markAccountVerified c accountId d1 in
          case createSession hashToken c i plain accountId ip userAgent d2 of
            Inl e \<Rightarrow> (Inl e, d2)
          | Inr (r, d3) \<Rightarrow> (Inr (Some r), d3))"

section \<open>Steps\<close>

inductive auth_step :: "(string \<Rightarrow> string) \<Rightarrow> auth_db \<Rightarrow> auth_db \<Rightarrow> bool" for h where
  step_createSession: "createSession h c i plain a ip ua d = Inr (r, d') \<Longrightarrow> auth_step h d d'"
| step_revokeSession: "auth_step h d (revokeSession c i d)"
| step_revokeAll: "auth_step h d (revokeAllSessionsForAccount c a d)"
| step_createToken: "createSingleUseToken h c i plain scope a ttl d = Inr (r, d') \<Longrightarrow> auth_step h d d'"
| step_consumeToken: "snd (consumeSingleUseToken h c scope tok d) = d' \<Longrightarrow> auth_step h d d'"
| step_createAccount: "createAccount low sql_low c i email pw d = Inr (r, d') \<Longrightarrow> auth_step h d d'"
| step_markVerified: "auth_step h d (markAccountVerified c a d)"
| step_setPassword: "auth_step h d (setAccountPassword c a pw d)"
| step_disable: "auth_step h d (disableAccount c a d)"
| step_reenable: "auth_step h d (reenableAccount c a d)"
| step_requestDeletion: "auth_step h d (requestAccountDeletion c a n d)"
| step_cancelDeletion: "auth_step h d (cancelAccountDeletion c a d)"
| step_grantRole: "snd (grantAccountRole a role g d) = d' \<Longrightarrow> auth_step h d d'"
| step_revokeRole: "auth_step h d (revokeAccountRole a role d)"
| step_setTeacher: "setAssignedTeacher c l t d = Inr (r, d') \<Longrightarrow> auth_step h d d'"
| step_reset: "snd (reset_confirm h c i plain ip ua tok pw d) = d' \<Longrightarrow> auth_step h d d'"
| step_verify: "snd (verify_email h c i plain ip ua tok d) = d' \<Longrightarrow> auth_step h d d'"

lemma find_by_append_Some: "find_by key k xs = Some r \<Longrightarrow> find_by key k (xs @ ys) = Some r"
  by (simp add: find_by_append)

lemma update_account_fields [simp]:
  "ad_sessions (update_account i g f d) = ad_sessions d" "ad_tokens (update_account i g f d) = ad_tokens d"
  "ad_roles (update_account i g f d) = ad_roles d" "ad_links (update_account i g f d) = ad_links d"
  by (simp_all add: update_account_def)

lemmas account_writes = markAccountVerified_def setAccountPassword_def disableAccount_def reenableAccount_def
  requestAccountDeletion_def cancelAccountDeletion_def

text \<open>Which tables an operation writes.\<close>

lemma writes_only_sessions:
  "createSession h c i plain a ip ua d = Inr (r, d') \<Longrightarrow> \<exists>row. d' = d\<lparr>ad_sessions := ad_sessions d @ [row]\<rparr>
     \<and> find_by se_token_hash (se_token_hash row) (ad_sessions d) = None \<and> se_token_hash row = h plain \<and> se_account_id row = a"
  by (auto simp: createSession_def Let_def split: if_splits)

lemma writes_only_tokens:
  "createSingleUseToken h c i plain scope a ttl d = Inr (r, d')
     \<Longrightarrow> \<exists>row. d' = d\<lparr>ad_tokens := (ad_tokens d)(scope := ad_tokens d scope @ [row])\<rparr>"
  "\<exists>t. snd (consumeSingleUseToken h c scope tok d) = d\<lparr>ad_tokens := t\<rparr>"
  by (auto simp: createSingleUseToken_def consumeSingleUseToken_def Let_def split: if_splits option.splits)
    (metis (full_types) auth_db.surjective auth_db.update_convs(4))+

section \<open>A token works once\<close>

definition token_spent :: "token_scope \<Rightarrow> string \<Rightarrow> auth_db \<Rightarrow> bool" where
  "token_spent scope k d \<longleftrightarrow> (\<exists>r. find_by tk_token_hash k (ad_tokens d scope) = Some r \<and> tk_consumed_at r \<noteq> None)"

lemma token_spent_cong: "ad_tokens d' = ad_tokens d \<Longrightarrow> token_spent scope k d' \<longleftrightarrow> token_spent scope k d"
  by (simp add: token_spent_def)

lemma consume_row_fields [simp]:
  "tk_token_hash (consume_row now i x) = tk_token_hash x"
  "tk_consumed_at x \<noteq> None \<Longrightarrow> tk_consumed_at (consume_row now i x) \<noteq> None"
  "tk_consumed_at (consume_row now (tk_id x) x) \<noteq> None"
  by (simp_all add: consume_row_def)

lemma consume_cases:
  obtains (refused) "consumeSingleUseToken h c scope tok d = (None, d)"
  | (accepted) r where "find_by tk_token_hash (h tok) (ad_tokens d scope) = Some r" "tk_consumed_at r = None"
      "\<not> js_date_via_string (tk_expires_at r) \<le> js_now c"
      "consumeSingleUseToken h c scope tok d = (Some (tk_account_id r),
         d\<lparr>ad_tokens := (ad_tokens d)(scope := map (consume_row (pg_now c) (tk_id r)) (ad_tokens d scope))\<rparr>)"
proof (cases "fst (consumeSingleUseToken h c scope tok d)")
  case None
  then have "consumeSingleUseToken h c scope tok d = (None, d)"
    by (auto simp: consumeSingleUseToken_def split: option.splits if_splits)
  then show ?thesis by (rule that(1))
next
  case (Some a)
  then obtain r where r: "find_by tk_token_hash (h tok) (ad_tokens d scope) = Some r" "tok \<noteq> []"
    by (auto simp: consumeSingleUseToken_def split: option.splits if_splits)
  with Some have g: "tk_consumed_at r = None" "\<not> js_date_via_string (tk_expires_at r) \<le> js_now c"
    by (auto simp: consumeSingleUseToken_def split: if_splits)
  show ?thesis by (rule that(2) [OF r(1) g]) (simp add: consumeSingleUseToken_def r g)
qed

lemma consume_keeps_spent:
  assumes "token_spent scope k d"
  shows "token_spent scope k (snd (consumeSingleUseToken h c scope' tok d))"
proof (cases rule: consume_cases [of h c scope' tok d])
  case (accepted r)
  obtain x where x: "find_by tk_token_hash k (ad_tokens d scope) = Some x" "tk_consumed_at x \<noteq> None"
    using assms unfolding token_spent_def by blast
  then have "\<exists>y. find_by tk_token_hash k (ad_tokens (snd (consumeSingleUseToken h c scope' tok d)) scope) = Some y
      \<and> y \<in> {x, consume_row (pg_now c) (tk_id r) x}"
    using accepted(4) by (auto simp: find_by_map)
  with x consume_row_fields(2) show ?thesis unfolding token_spent_def by blast
qed (use assms in simp)

lemma create_keeps_spent:
  "createSingleUseToken h c i plain scope' a ttl d = Inr (r, d') \<Longrightarrow> token_spent scope k d \<Longrightarrow> token_spent scope k d'"
  using writes_only_tokens(1) [of h c i plain scope' a ttl d r d']
  by (auto simp: token_spent_def find_by_append_Some)

lemma session_ops_tokens [simp]:
  "ad_tokens (revokeSession c i d) = ad_tokens d" "ad_tokens (revokeAllSessionsForAccount c a d) = ad_tokens d"
  by (simp_all add: revokeSession_def revokeAllSessionsForAccount_def)

lemma account_writes_fields [simp]:
  "ad_tokens (markAccountVerified c a d) = ad_tokens d" "ad_sessions (markAccountVerified c a d) = ad_sessions d"
  "ad_tokens (setAccountPassword c a pw d) = ad_tokens d" "ad_sessions (setAccountPassword c a pw d) = ad_sessions d"
  "ad_roles (markAccountVerified c a d) = ad_roles d" "ad_roles (setAccountPassword c a pw d) = ad_roles d"
  by (simp_all add: account_writes)

lemma token_to_session_tokens:
  "ad_tokens (snd (reset_confirm h c i plain ip ua tok pw d)) = ad_tokens (snd (consumeSingleUseToken h c PasswordResets tok d))"
  "ad_tokens (snd (verify_email h c i plain ip ua tok d)) = ad_tokens (snd (consumeSingleUseToken h c EmailVerifications tok d))"
  by (auto simp: reset_confirm_def verify_email_def Let_def dest!: writes_only_sessions
      split: prod.splits option.splits sum.splits)

lemma other_ops_tokens:
  "createAccount low sql_low c i email pw d = Inr (r, d') \<Longrightarrow> ad_tokens d' = ad_tokens d \<and> ad_sessions d' = ad_sessions d"
  "ad_tokens (snd (grantAccountRole a role g d)) = ad_tokens d"
  "ad_sessions (snd (grantAccountRole a role g d)) = ad_sessions d"
  "setAssignedTeacher c l t d = Inr (x, d') \<Longrightarrow> ad_tokens d' = ad_tokens d \<and> ad_sessions d' = ad_sessions d \<and> ad_roles d' = ad_roles d"
  by (auto simp: createAccount_def grantAccountRole_def insert_role_def strip_consumer_roles_def setAssignedTeacher_def Let_def
      split: if_splits option.splits sum.splits)

interpretation spent: kept_by_steps "auth_step h" "token_spent scope k" for h scope k
proof
  fix d d' assume spent: "token_spent scope k d" and "auth_step h d d'"
  from this(2) show "token_spent scope k d'"
  proof cases
    case step_createToken then show ?thesis using create_keeps_spent spent by blast
  next
    case step_consumeToken then show ?thesis using consume_keeps_spent [OF spent] by blast
  next
    case step_reset then show ?thesis
      using consume_keeps_spent [OF spent] token_spent_cong token_to_session_tokens(1) by blast
  next
    case step_verify then show ?thesis
      using consume_keeps_spent [OF spent] token_spent_cong token_to_session_tokens(2) by blast
  next
    case step_createSession then show ?thesis using spent by (auto simp: token_spent_def dest!: writes_only_sessions)
  next
    case step_createAccount then show ?thesis using other_ops_tokens(1) spent by (auto simp: token_spent_def)
  next
    case step_grantRole then show ?thesis using other_ops_tokens(2) spent by (auto simp: token_spent_def)
  next
    case step_setTeacher then show ?thesis using other_ops_tokens(4) spent by (auto simp: token_spent_def)
  qed (use spent in \<open>simp_all add: token_spent_def account_writes revokeAccountRole_def\<close>)
qed

lemma consume_spends:
  assumes "consumeSingleUseToken h c scope tok d = (Some a, d')"
  shows "token_spent scope (h tok) d'"
proof (cases rule: consume_cases [of h c scope tok d])
  case (accepted r)
  then have "find_by tk_token_hash (h tok) (ad_tokens d' scope) = Some (consume_row (pg_now c) (tk_id r) r)"
    using assms by (auto simp: find_by_map)
  with consume_row_fields(3) show ?thesis unfolding token_spent_def by blast
qed (use assms in simp)

text \<open>
  A link for a password reset or an e-mail verification works at most once and not after
  it has expired. When a token is accepted it was stored, not consumed and not past its time; and
  after that, whatever the program does, every further use of the token is refused and changes nothing.
\<close>

theorem token_works_once:
  assumes ok: "consumeSingleUseToken h c scope tok d = (Some a, d1)" and later: "(auth_step h)\<^sup>*\<^sup>* d1 d2"
  shows "(\<exists>r \<in> set (ad_tokens d scope). tk_token_hash r = h tok \<and> tk_account_id r = a \<and> tk_consumed_at r = None
        \<and> js_now c * us_per_ms < tk_expires_at r)
    \<and> consumeSingleUseToken h c' scope tok d2 = (None, d2)"
proof
  obtain r where r: "find_by tk_token_hash (h tok) (ad_tokens d scope) = Some r" "tk_account_id r = a" "tk_consumed_at r = None"
    "\<not> js_date_via_string (tk_expires_at r) \<le> js_now c"
    using ok by (cases rule: consume_cases [of h c scope tok d]) auto
  have "js_now c * us_per_ms < tk_expires_at r"
    using r(4) by (simp add: js_date_via_string_def js_date_def us_per_ms_def)
  with r show "\<exists>r \<in> set (ad_tokens d scope). tk_token_hash r = h tok \<and> tk_account_id r = a \<and> tk_consumed_at r = None
        \<and> js_now c * us_per_ms < tk_expires_at r"
    by (auto dest!: find_by_SomeD)
  have "token_spent scope (h tok) d2" using spent.run_good [OF later consume_spends [OF ok]] .
  then show "consumeSingleUseToken h c' scope tok d2 = (None, d2)"
    by (auto simp: token_spent_def consumeSingleUseToken_def)
qed

section \<open>A password reset signs out everywhere\<close>

definition session_dead :: "string \<Rightarrow> auth_db \<Rightarrow> bool" where
  "session_dead k d \<longleftrightarrow> (\<exists>s. find_by se_token_hash k (ad_sessions d) = Some s \<and> se_revoked_at s \<noteq> None)"

lemma dead_not_found: "session_dead (h v) d \<Longrightarrow> lookupSession h c v d = None"
  by (auto simp: session_dead_def lookupSession_def split: option.splits)

lemma revoke_row_fields [simp]:
  "se_token_hash (revoke_row now s) = se_token_hash s" "se_revoked_at (revoke_row now s) \<noteq> None"
  "se_account_id (revoke_row now s) = se_account_id s"
  by (simp_all add: revoke_row_def)

lemma revoke_where_fields [simp]:
  "se_token_hash (revoke_where now P s) = se_token_hash s"
  "se_revoked_at s \<noteq> None \<Longrightarrow> se_revoked_at (revoke_where now P s) \<noteq> None"
  by (simp_all add: revoke_where_def revoke_row_def)

lemma revoke_keeps_dead:
  "session_dead k d \<Longrightarrow> session_dead k (revokeSession c i d)"
  "session_dead k d \<Longrightarrow> session_dead k (revokeAllSessionsForAccount c a d)"
proof -
  have "\<exists>s. map_option (revoke_where (pg_now c) P) (find_by se_token_hash k (ad_sessions d)) = Some s \<and> se_revoked_at s \<noteq> None"
    if dead: "session_dead k d" for P
  proof -
    obtain s where "find_by se_token_hash k (ad_sessions d) = Some s" "se_revoked_at s \<noteq> None"
      using dead unfolding session_dead_def by blast
    then show ?thesis by (auto simp: revoke_where_def revoke_row_def)
  qed
  then show "session_dead k d \<Longrightarrow> session_dead k (revokeSession c i d)"
    and "session_dead k d \<Longrightarrow> session_dead k (revokeAllSessionsForAccount c a d)"
    unfolding session_dead_def [of k "revokeSession c i d"] session_dead_def [of k "revokeAllSessionsForAccount c a d"]
    by (simp_all add: revokeSession_def revokeAllSessionsForAccount_def find_by_map)
qed

lemma create_keeps_dead:
  "createSession h c i plain a ip ua d = Inr (r, d') \<Longrightarrow> session_dead k d \<Longrightarrow> session_dead k d'"
  by (auto simp: session_dead_def find_by_append_Some dest!: writes_only_sessions)

lemma token_ops_sessions:
  "createSingleUseToken h c i plain scope a ttl d = Inr (r, d') \<Longrightarrow> ad_sessions d' = ad_sessions d"
  "ad_sessions (snd (consumeSingleUseToken h c scope tok d)) = ad_sessions d"
  using writes_only_tokens(2) [of h c scope tok d] by (auto dest!: writes_only_tokens(1))

lemma session_dead_cong: "ad_sessions d' = ad_sessions d \<Longrightarrow> session_dead k d' \<longleftrightarrow> session_dead k d"
  by (simp add: session_dead_def)

lemma token_to_session_keeps_dead:
  assumes "session_dead k d"
  shows "session_dead k (snd (reset_confirm h c i plain ip ua tok pw d))"
    and "session_dead k (snd (verify_email h c i plain ip ua tok d))"
proof -
  let ?cr = "consumeSingleUseToken h c PasswordResets tok d" and ?cv = "consumeSingleUseToken h c EmailVerifications tok d"
  have d1: "session_dead k (snd ?cr)" "session_dead k (snd ?cv)"
    using assms session_dead_cong [OF token_ops_sessions(2)] by blast+
  have r: "session_dead k (revokeAllSessionsForAccount c a (setAccountPassword c a pw (snd ?cr)))"
    and v: "session_dead k (markAccountVerified c a (snd ?cv))" for a
    using revoke_keeps_dead(2) d1 by (auto simp: session_dead_def)
  show "session_dead k (snd (reset_confirm h c i plain ip ua tok pw d))"
    using r d1(1) create_keeps_dead unfolding reset_confirm_def Let_def
    by (fastforce split: prod.splits option.splits sum.splits)
  show "session_dead k (snd (verify_email h c i plain ip ua tok d))"
    using v d1(2) create_keeps_dead unfolding verify_email_def Let_def
    by (fastforce split: prod.splits option.splits sum.splits)
qed

interpretation dead: kept_by_steps "auth_step h" "session_dead k" for h k
proof
  fix d d' assume dead: "session_dead k d" and "auth_step h d d'"
  from this(2) show "session_dead k d'"
  proof cases
    case step_createSession then show ?thesis using create_keeps_dead dead by blast
  next
    case step_createToken then show ?thesis using token_ops_sessions(1) dead by (auto simp: session_dead_def)
  next
    case step_consumeToken then show ?thesis using token_ops_sessions(2) dead by (auto simp: session_dead_def)
  next
    case step_reset then show ?thesis using token_to_session_keeps_dead(1) [OF dead] by blast
  next
    case step_verify then show ?thesis using token_to_session_keeps_dead(2) [OF dead] by blast
  next
    case step_createAccount then show ?thesis using other_ops_tokens(1) dead by (auto simp: session_dead_def)
  next
    case step_grantRole then show ?thesis using other_ops_tokens(3) dead by (auto simp: session_dead_def)
  next
    case step_setTeacher then show ?thesis using other_ops_tokens(4) dead by (auto simp: session_dead_def)
  qed (use dead revoke_keeps_dead in \<open>auto simp: session_dead_def account_writes revokeAccountRole_def\<close>)
qed

lemma createSession_found:
  assumes "createSession h c i plain a ip ua d = Inr (r, d')" and "plain \<noteq> []"
    and "find_by aa_id a (ad_accounts d) = Some acc" and "aa_disabled_at acc = None"
  shows "lookupSession h c plain d' \<noteq> None"
proof -
  obtain row where row: "d' = d\<lparr>ad_sessions := ad_sessions d @ [row]\<rparr>" "se_token_hash row = h plain" "se_account_id row = a"
    "se_revoked_at row = None" "se_expires_at row = (js_now c + SESSION_TTL_MS) * us_per_ms"
    "find_by se_token_hash (h plain) (ad_sessions d) = None"
    using assms(1) by (auto simp: createSession_def Let_def split: if_splits)
  have "\<not> js_date_via_string (se_expires_at row) \<le> js_now c"
    by (simp add: row(5) js_date_via_string_def js_date_def us_per_ms_def SESSION_TTL_MS_def)
  moreover have "find_by se_token_hash (h plain) (ad_sessions d') = Some row"
    using row by (simp add: find_by_append find_by_single)
  ultimately show ?thesis
    using assms(2-4) row(1,3,4) by (simp add: lookupSession_def Let_def)
qed

lemma revokeAll_kills:
  assumes "find_by se_token_hash k (ad_sessions d) = Some s" and "se_account_id s = a"
  shows "session_dead k (revokeAllSessionsForAccount c a d)"
  using assms by (auto simp: session_dead_def revokeAllSessionsForAccount_def find_by_map revoke_where_def revoke_row_def)

text \<open>
  C31: a reset of the password signs out everywhere. After it succeeded, every session the account had
  is refused for good, whatever the program does next; the account has the new password
  hash; and the cookie that the reset hands out is a valid session of the account, unless the
  account is disabled.
\<close>

theorem reset_signs_out_everywhere:
  assumes ok: "reset_confirm h c i plain ip ua tok newHash d = (Inr (Some (s, cookie)), d1)" and "plain \<noteq> []"
    and later: "(auth_step h)\<^sup>*\<^sup>* d1 d2"
  shows "\<exists>a. sv_accountId s = a \<and> fst (consumeSingleUseToken h c PasswordResets tok d) = Some a
     \<and> (\<forall>v x. find_by se_token_hash (h v) (ad_sessions d) = Some x \<and> se_account_id x = a \<longrightarrow> lookupSession h c' v d2 = None)
     \<and> (\<forall>acc. find_by aa_id a (ad_accounts d1) = Some acc \<longrightarrow>
           aa_password_hash acc = newHash \<and> (aa_disabled_at acc = None \<longrightarrow> cookie = plain \<and> lookupSession h c cookie d1 \<noteq> None))"
proof -
  obtain a d0 where con: "consumeSingleUseToken h c PasswordResets tok d = (Some a, d0)"
    and cs: "createSession h c i plain a ip ua (revokeAllSessionsForAccount c a (setAccountPassword c a newHash d0)) = Inr ((s, cookie), d1)"
    using ok by (auto simp: reset_confirm_def Let_def split: prod.splits option.splits sum.splits)
  let ?d = "revokeAllSessionsForAccount c a (setAccountPassword c a newHash d0)"
  have sess: "ad_sessions (setAccountPassword c a newHash d0) = ad_sessions d"
    using token_ops_sessions(2) [of h c PasswordResets tok d] con by simp
  have "lookupSession h c' v d2 = None"
    if "find_by se_token_hash (h v) (ad_sessions d) = Some x" "se_account_id x = a" for v x
  proof (rule dead_not_found, rule dead.run_good [OF later], rule create_keeps_dead [OF cs])
    show "session_dead (h v) ?d" by (rule revokeAll_kills) (use that sess in simp_all)
  qed
  moreover have acc: "aa_password_hash acc = newHash \<and> find_by aa_id a (ad_accounts ?d) = Some acc"
    if "find_by aa_id a (ad_accounts d1) = Some acc" for acc
  proof -
    have eq: "ad_accounts d1 = ad_accounts ?d" using cs by (auto dest!: writes_only_sessions)
    have "find_by aa_id a (ad_accounts ?d)
        = map_option (\<lambda>b. if aa_id b = a then b\<lparr>aa_password_hash := newHash, aa_updated_at := pg_now c\<rparr> else b)
            (find_by aa_id a (ad_accounts d0))"
      by (simp add: revokeAllSessionsForAccount_def setAccountPassword_def update_account_def find_by_map)
    with that eq obtain b where "find_by aa_id a (ad_accounts d0) = Some b"
      "acc = (if aa_id b = a then b\<lparr>aa_password_hash := newHash, aa_updated_at := pg_now c\<rparr> else b)"
      by (cases "find_by aa_id a (ad_accounts d0)") simp_all
    then have "aa_password_hash acc = newHash" using find_by_SomeD [of aa_id a "ad_accounts d0" b] by simp
    with that eq show ?thesis by simp
  qed
  moreover have "cookie = plain \<and> sv_accountId s = a"
    using cs by (auto simp: createSession_def Let_def session_view_of_def split: if_splits)
  moreover have "lookupSession h c plain d1 \<noteq> None"
    if "find_by aa_id a (ad_accounts d1) = Some acc" "aa_disabled_at acc = None" for acc
    using createSession_found [OF cs \<open>plain \<noteq> []\<close>] acc [OF that(1)] that(2) by blast
  ultimately show ?thesis using con by auto
qed

text \<open>An account with a session on another device and a reset link.\<close>

definition sample_account :: auth_account where
  "sample_account = \<lparr>aa_id = uuid_of CHR ''a'', aa_email = js ''a@b.ru'', aa_password_hash = ''old'', aa_email_verified_at = None,
     aa_disabled_at = None, aa_scheduled_purge_at = None, aa_purged_at = None, aa_assigned_teacher_id = None,
     aa_created_at = 0, aa_updated_at = 0\<rparr>"

definition sample_auth :: auth_db where
  "sample_auth = \<lparr>ad_accounts = [sample_account], ad_roles = [],
     ad_sessions = [\<lparr>se_id = uuid_of CHR ''1'', se_account_id = uuid_of CHR ''a'', se_token_hash = ''phone'',
       se_expires_at = 10 ^ 12, se_revoked_at = None, se_ip = None, se_user_agent = None, se_created_at = 0\<rparr>],
     ad_tokens = (\<lambda>s. if s = PasswordResets
       then [\<lparr>tk_id = uuid_of CHR ''2'', tk_account_id = uuid_of CHR ''a'', tk_token_hash = ''link'',
              tk_expires_at = 10 ^ 10, tk_consumed_at = None\<rparr>] else []),
     ad_links = []\<rparr>"

definition auth_clock :: clock where
  "auth_clock = \<lparr>pg_now = 5000000, js_now = 5000\<rparr>"

lemma sample_auth_consume: "\<exists>d. consumeSingleUseToken id auth_clock PasswordResets ''link'' sample_auth = (Some (uuid_of CHR ''a''), d)"
  by (simp add: consumeSingleUseToken_def sample_auth_def find_by_def auth_clock_def js_date_via_string_def js_date_def us_per_ms_def)

theorem token_works_once_witness:
  "\<exists>d1. consumeSingleUseToken id auth_clock PasswordResets ''link'' sample_auth = (Some (uuid_of CHR ''a''), d1)
     \<and> consumeSingleUseToken id auth_clock PasswordResets ''link'' (disableAccount auth_clock (uuid_of CHR ''b'') d1)
       = (None, disableAccount auth_clock (uuid_of CHR ''b'') d1)"
proof -
  obtain d1 where d1: "consumeSingleUseToken id auth_clock PasswordResets ''link'' sample_auth = (Some (uuid_of CHR ''a''), d1)"
    using sample_auth_consume by blast
  have "(auth_step id)\<^sup>*\<^sup>* d1 (disableAccount auth_clock (uuid_of CHR ''b'') d1)"
    by (rule r_into_rtranclp) (rule step_disable)
  from token_works_once [OF d1 this] d1 show ?thesis by blast
qed

theorem reset_signs_out_everywhere_witness:
  "\<exists>s d1. reset_confirm id auth_clock (uuid_of CHR ''3'') ''laptop'' None None ''link'' ''new'' sample_auth = (Inr (Some (s, ''laptop'')), d1)
     \<and> lookupSession id auth_clock ''phone'' sample_auth \<noteq> None
     \<and> lookupSession id auth_clock ''phone'' d1 = None \<and> lookupSession id auth_clock ''laptop'' d1 \<noteq> None"
proof -
  obtain s d1 where ok: "reset_confirm id auth_clock (uuid_of CHR ''3'') ''laptop'' None None ''link'' ''new'' sample_auth = (Inr (Some (s, ''laptop'')), d1)"
    and acc: "find_by aa_id (uuid_of CHR ''a'') (ad_accounts d1)
        = Some (sample_account\<lparr>aa_password_hash := ''new'', aa_updated_at := pg_now auth_clock\<rparr>)"
    and s: "sv_accountId s = uuid_of CHR ''a''"
    by (simp add: reset_confirm_def consumeSingleUseToken_def sample_auth_def find_by_def auth_clock_def js_date_via_string_def
        js_date_def us_per_ms_def setAccountPassword_def update_account_def revokeAllSessionsForAccount_def createSession_def
        has_account_def revoke_where_def revoke_row_def consume_row_def sample_account_def session_view_of_def uuid_of_def replicate_8 Let_def)
  have phone: "find_by se_token_hash (id ''phone'') (ad_sessions sample_auth) = Some (hd (ad_sessions sample_auth))"
    "se_account_id (hd (ad_sessions sample_auth)) = uuid_of CHR ''a''"
    by (simp_all add: sample_auth_def find_by_def)
  have "lookupSession id auth_clock ''phone'' sample_auth \<noteq> None"
    by (simp add: lookupSession_def sample_auth_def sample_account_def find_by_def auth_clock_def js_date_via_string_def js_date_def us_per_ms_def Let_def)
  moreover from reset_signs_out_everywhere [OF ok _ rtranclp.rtrancl_refl]
  have "lookupSession id auth_clock ''phone'' d1 = None \<and> lookupSession id auth_clock ''laptop'' d1 \<noteq> None"
    using phone acc s by (auto simp: sample_account_def)
  ultimately show ?thesis using ok by blast
qed

section \<open>Roles\<close>

definition roles_exclusive :: "auth_db \<Rightarrow> bool" where
  "roles_exclusive d \<longleftrightarrow> (\<forall>i. holds_role d i RoleAdmin \<longrightarrow> \<not> holds_role d i RoleTeacher \<and> \<not> holds_role d i RoleStudent)"

lemma holds_role_after:
  "holds_role (strip_consumer_roles i d) j r \<longleftrightarrow> holds_role d j r \<and> \<not> (j = i \<and> r \<in> {RoleTeacher, RoleStudent})"
  "holds_role (revokeAccountRole i r' d) j r \<longleftrightarrow> holds_role d j r \<and> \<not> (j = i \<and> r = r')"
  "insert_role i r' g d = Inr (x, d') \<Longrightarrow> holds_role d' j r \<longleftrightarrow> holds_role d j r \<or> j = i \<and> r = r'"
  by (auto simp: holds_role_def strip_consumer_roles_def revokeAccountRole_def insert_role_def list_ex_iff split: if_splits)

lemma grant_keeps_exclusive:
  assumes "roles_exclusive d"
  shows "roles_exclusive (snd (grantAccountRole i r g d))"
proof (cases "r = RoleAdmin")
  case True
  let ?d1 = "strip_consumer_roles i d"
  have d1: "roles_exclusive ?d1" using assms by (auto simp: roles_exclusive_def holds_role_after(1))
  show ?thesis
  proof (cases "insert_role i r g ?d1")
    case (Inr p)
    obtain d2 where p: "p = ((), d2)" by (cases p) simp
    have "roles_exclusive d2"
      using holds_role_after(3) [OF Inr [unfolded p]] d1 True
      by (auto simp: roles_exclusive_def holds_role_after(1))
    with True Inr p show ?thesis by (simp add: grantAccountRole_def Let_def)
  qed (use True d1 in \<open>simp add: grantAccountRole_def Let_def\<close>)
next
  case False
  show ?thesis
  proof (cases "holds_role d i RoleAdmin \<or> (\<exists>e. insert_role i r g d = Inl e)")
    case True
    then show ?thesis using False assms by (auto simp: grantAccountRole_def)
  next
    case no: False
    then obtain d2 where p: "insert_role i r g d = Inr ((), d2)" by (cases "insert_role i r g d") auto
    have "roles_exclusive d2"
      using holds_role_after(3) [OF p] assms no False by (auto simp: roles_exclusive_def)
    with no False p show ?thesis by (simp add: grantAccountRole_def)
  qed
qed

lemma token_to_session_roles:
  "ad_roles (snd (reset_confirm h c i plain ip ua tok pw d)) = ad_roles d"
  "ad_roles (snd (verify_email h c i plain ip ua tok d)) = ad_roles d"
proof -
  have con: "ad_roles (snd (consumeSingleUseToken h c scope tok d)) = ad_roles d" for scope
    using writes_only_tokens(2) [of h c scope tok d] by auto
  have rev: "ad_roles (revokeAllSessionsForAccount c a x) = ad_roles x" for a x
    by (simp add: revokeAllSessionsForAccount_def)
  show "ad_roles (snd (reset_confirm h c i plain ip ua tok pw d)) = ad_roles d"
    using con [of PasswordResets]
    by (auto simp: reset_confirm_def Let_def rev dest!: writes_only_sessions split: prod.splits option.splits sum.splits)
  show "ad_roles (snd (verify_email h c i plain ip ua tok d)) = ad_roles d"
    using con [of EmailVerifications]
    by (auto simp: verify_email_def Let_def dest!: writes_only_sessions split: prod.splits option.splits sum.splits)
qed

interpretation roles: kept_by_steps "auth_step h" roles_exclusive for h
proof
  fix d d' assume ex: "roles_exclusive d" and "auth_step h d d'"
  have same: "roles_exclusive d'" if "ad_roles d' = ad_roles d"
    using ex that by (simp add: roles_exclusive_def holds_role_def)
  from \<open>auth_step h d d'\<close> show "roles_exclusive d'"
  proof cases
    case step_grantRole then show ?thesis using grant_keeps_exclusive [OF ex] by blast
  next
    case step_revokeRole then show ?thesis using ex by (simp add: roles_exclusive_def holds_role_after(2))
  next
    case step_createSession then show ?thesis using same by (auto dest!: writes_only_sessions)
  next
    case step_createToken then show ?thesis using same by (auto dest!: writes_only_tokens(1))
  next
    case (step_consumeToken c scope tok) then show ?thesis using same writes_only_tokens(2) [of h c scope tok d] by auto
  next
    case step_createAccount then show ?thesis using same by (auto simp: createAccount_def Let_def split: if_splits)
  next
    case step_setTeacher then show ?thesis using same other_ops_tokens(4) by blast
  next
    case step_reset then show ?thesis using same token_to_session_roles(1) by blast
  next
    case step_verify then show ?thesis using same token_to_session_roles(2) by blast
  qed (use same in \<open>simp_all add: account_writes revokeSession_def revokeAllSessionsForAccount_def\<close>)
qed

text \<open>
  An account is never operator and teacher or learner at once, as long as the grants of roles
  do not overlap: every sequence of complete operations keeps the roles apart.
\<close>

theorem roles_stay_exclusive:
  assumes "roles_exclusive d" and "(auth_step h)\<^sup>*\<^sup>* d d'"
  shows "\<not> (holds_role d' i RoleAdmin \<and> (holds_role d' i RoleTeacher \<or> holds_role d' i RoleStudent))"
  using roles.run_good [OF assms(2,1)] by (auto simp: roles_exclusive_def)

theorem roles_stay_exclusive_witness:
  "\<not> (holds_role (snd (grantAccountRole (uuid_of CHR ''a'') RoleTeacher None (snd (grantAccountRole (uuid_of CHR ''a'') RoleAdmin None sample_auth))))
        (uuid_of CHR ''a'') RoleTeacher)
   \<and> holds_role (snd (grantAccountRole (uuid_of CHR ''a'') RoleAdmin None sample_auth)) (uuid_of CHR ''a'') RoleAdmin"
proof -
  let ?a = "uuid_of CHR ''a''"
  let ?d1 = "snd (grantAccountRole ?a RoleAdmin None sample_auth)"
  let ?d2 = "snd (grantAccountRole ?a RoleTeacher None ?d1)"
  have adm: "holds_role ?d1 ?a RoleAdmin" "holds_role ?d2 ?a RoleAdmin"
    by (simp_all add: grantAccountRole_def Let_def insert_role_def strip_consumer_roles_def holds_role_def has_account_def
        sample_auth_def sample_account_def find_by_def)
  have "(auth_step id)\<^sup>*\<^sup>* sample_auth ?d2"
    by (meson auth_step.step_grantRole rtranclp.rtrancl_into_rtrancl rtranclp.rtrancl_refl)
  moreover have "roles_exclusive sample_auth" by (simp add: roles_exclusive_def holds_role_def sample_auth_def)
  ultimately show ?thesis using roles_stay_exclusive [of sample_auth id ?d2 ?a] adm by blast
qed

text \<open>
  The statements of two grants that overlap: the check of the teacher grant passes before the
  operator grant inserts its row, and the account ends up with both roles.
\<close>

lemma overlapping_grants_mix_roles:
  assumes "has_account d i" and "\<not> holds_role d i RoleAdmin" and "roles_exclusive d"
  shows "\<exists>d1 d2. insert_role i RoleAdmin None (strip_consumer_roles i d) = Inr ((), d1)
    \<and> insert_role i RoleTeacher None d1 = Inr ((), d2)
    \<and> holds_role d2 i RoleAdmin \<and> holds_role d2 i RoleTeacher"
proof -
  have no: "\<not> holds_role (strip_consumer_roles i d) i RoleAdmin" using assms(2) by (simp add: holds_role_after(1))
  have has: "has_account (strip_consumer_roles i d) i" using assms(1) by (simp add: has_account_def strip_consumer_roles_def)
  obtain d1 where d1: "insert_role i RoleAdmin None (strip_consumer_roles i d) = Inr ((), d1)" "has_account d1 i"
    using no has by (auto simp: insert_role_def has_account_def)
  obtain d2 where d2: "insert_role i RoleTeacher None d1 = Inr ((), d2)"
    using d1(2) by (cases "holds_role d1 i RoleTeacher") (simp_all add: insert_role_def)
  show ?thesis using d1(1) d2 holds_role_after(3) [OF d1(1)] holds_role_after(3) [OF d2] by blast
qed

section \<open>The teacher of a learner\<close>

definition link_key :: "teacher_link_row \<Rightarrow> uuid \<times> uuid" where
  "link_key l = (lk_learner l, lk_teacher l)"

definition links_ok :: "auth_db \<Rightarrow> bool" where
  "links_ok d \<longleftrightarrow> distinct (map link_key (ad_links d))"

lemma filter_key: "distinct (map f xs) \<Longrightarrow> filter (\<lambda>x. f x = k) xs = (case find_by f k xs of None \<Rightarrow> [] | Some x \<Rightarrow> [x])"
proof (induction xs)
  case (Cons a xs)
  have "filter (\<lambda>x. f x = k) xs = []" if "f a = k" using Cons.prems that unfolding filter_empty_conv by (metis distinct.simps(2) image_eqI list.map(2) set_map)
  with Cons show ?case by (auto simp: find_by_def)
qed (simp add: find_by_def)

lemma order_by_single [simp]: "order_by before [x] = [x]"
  by simp

lemma link_rows_key [simp]:
  "link_key (unlinked_row now learner keep l) = link_key l" "link_key (revived_row now learner t l) = link_key l"
  by (simp_all add: unlinked_row_def revived_row_def link_key_def)

lemma setAssignedTeacher_links:
  assumes "setAssignedTeacher c learner t d = Inr (x, d')"
  shows "ad_links d' =
     (case t of
        None \<Rightarrow> map (unlinked_row (pg_now c) learner None) (ad_links d)
      | Some t' \<Rightarrow>
          if (learner, t') \<in> link_key ` set (ad_links d)
          then map (revived_row (pg_now c) learner t') (map (unlinked_row (pg_now c) learner t) (ad_links d))
          else map (unlinked_row (pg_now c) learner t) (ad_links d)
               @ [\<lparr>lk_learner = learner, lk_teacher = t', lk_linked_at = pg_now c, lk_unlinked_at = None, lk_via_invite_id = None, lk_teacher_note = None\<rparr>])"
proof -
  have ex: "list_ex (\<lambda>l. lk_learner l = learner \<and> lk_teacher l = t') (map (unlinked_row (pg_now c) learner keep) ls)
      \<longleftrightarrow> (learner, t') \<in> link_key ` set ls" for t' keep ls
  proof -
    have "(lk_learner l = learner \<and> lk_teacher l = t') \<longleftrightarrow> link_key l = (learner, t')" for l by (simp add: link_key_def)
    then show ?thesis unfolding list_ex_iff by (force simp: image_iff)
  qed
  show ?thesis
    using assms unfolding setAssignedTeacher_def Let_def ex
    by (cases t) (auto split: if_splits)
qed

lemma linked_rows:
  assumes "distinct (map link_key ls)"
    and "\<And>l. l \<in> set ls \<Longrightarrow> lk_learner l = learner \<Longrightarrow> lk_unlinked_at l = None \<longleftrightarrow> lk_teacher l = t"
    and "(learner, t) \<in> link_key ` set ls"
  shows "map lk_teacher (order_by link_before (filter (\<lambda>l. lk_learner l = learner \<and> lk_unlinked_at l = None) ls)) = [t]"
proof -
  have "filter (\<lambda>l. lk_learner l = learner \<and> lk_unlinked_at l = None) ls = filter (\<lambda>l. link_key l = (learner, t)) ls"
    by (rule filter_cong) (use assms(2) in \<open>auto simp: link_key_def\<close>)
  moreover obtain r where "filter (\<lambda>l. link_key l = (learner, t)) ls = [r]" "link_key r = (learner, t)"
    using filter_key [OF assms(1), of "(learner, t)"] assms(3)
    by (cases "find_by link_key (learner, t) ls") (auto simp: find_by_None_iff dest: find_by_SomeD)
  ultimately show ?thesis by (simp add: link_key_def)
qed

lemma link_rows_fields [simp]:
  "lk_learner (unlinked_row now learner keep l) = lk_learner l" "lk_teacher (unlinked_row now learner keep l) = lk_teacher l"
  "lk_learner (revived_row now learner t l) = lk_learner l" "lk_teacher (revived_row now learner t l) = lk_teacher l"
  "lk_learner l \<noteq> learner \<Longrightarrow> unlinked_row now learner keep l = l"
  "lk_learner l \<noteq> learner \<Longrightarrow> revived_row now learner t l = l"
  "lk_teacher l \<noteq> t \<Longrightarrow> revived_row now learner t l = l"
  "lk_learner l = learner \<Longrightarrow> lk_teacher l = t \<Longrightarrow> lk_unlinked_at (revived_row now learner t l) = None"
  by (simp_all add: unlinked_row_def revived_row_def)

lemma unlinked_row_ends:
  "lk_learner l = learner \<Longrightarrow> Some (lk_teacher l) \<noteq> keep \<Longrightarrow> lk_unlinked_at (unlinked_row now learner keep l) \<noteq> None"
  by (simp add: unlinked_row_def)

lemma assigned_links:
  assumes "setAssignedTeacher c learner (Some t) d = Inr (x, d')" and "links_ok d"
  shows "links_ok d'" and "(learner, t) \<in> link_key ` set (ad_links d')"
    and "\<And>l. l \<in> set (ad_links d') \<Longrightarrow> lk_learner l = learner \<Longrightarrow> lk_unlinked_at l = None \<longleftrightarrow> lk_teacher l = t"
proof -
  let ?u = "map (unlinked_row (pg_now c) learner (Some t)) (ad_links d)"
  have ends: "lk_unlinked_at l \<noteq> None" if l: "l \<in> set ?u" "lk_learner l = learner" "lk_teacher l \<noteq> t" for l
  proof -
    obtain z where "l = unlinked_row (pg_now c) learner (Some t) z" using l(1) by auto
    then show ?thesis using unlinked_row_ends [of z learner "Some t"] l(2,3) by simp
  qed
  have keys: "map link_key ?u = map link_key (ad_links d)" by simp
  then have set_keys: "link_key ` set ?u = link_key ` set (ad_links d)" by (metis set_map)
  have "links_ok d' \<and> (learner, t) \<in> link_key ` set (ad_links d')
    \<and> (\<forall>l \<in> set (ad_links d'). lk_learner l = learner \<longrightarrow> (lk_unlinked_at l = None \<longleftrightarrow> lk_teacher l = t))"
  proof (cases "(learner, t) \<in> link_key ` set (ad_links d)")
    case True
    then have d': "ad_links d' = map (revived_row (pg_now c) learner t) ?u"
      using setAssignedTeacher_links [OF assms(1)] by simp
    have key: "map link_key (ad_links d') = map link_key (ad_links d)" unfolding d' by simp
    have "lk_unlinked_at l = None \<longleftrightarrow> lk_teacher l = t" if l: "l \<in> set (ad_links d')" "lk_learner l = learner" for l
    proof -
      obtain z where z: "z \<in> set ?u" "l = revived_row (pg_now c) learner t z" using l(1) unfolding d' by auto
      show ?thesis using ends [OF z(1)] z(2) l(2) by (cases "lk_teacher z = t") simp_all
    qed
    then show ?thesis using key assms(2) True unfolding links_ok_def by (metis set_map)
  next
    case False
    let ?n = "\<lparr>lk_learner = learner, lk_teacher = t, lk_linked_at = pg_now c, lk_unlinked_at = None, lk_via_invite_id = None, lk_teacher_note = None\<rparr>"
    have d': "ad_links d' = ?u @ [?n]" using setAssignedTeacher_links [OF assms(1)] False by simp
    have n: "link_key ?n = (learner, t)" by (simp add: link_key_def)
    have "lk_unlinked_at l = None \<longleftrightarrow> lk_teacher l = t" if l: "l \<in> set (ad_links d')" "lk_learner l = learner" for l
    proof (cases "l = ?n")
      case no: False
      then have u: "l \<in> set ?u" using l(1) unfolding d' by simp
      then have "link_key l \<noteq> (learner, t)" using set_keys False by (metis image_eqI)
      then have "lk_teacher l \<noteq> t" using l(2) by (simp add: link_key_def)
      with ends [OF u l(2)] show ?thesis by simp
    qed simp
    moreover have "links_ok d'" using assms(2) False set_keys keys n unfolding links_ok_def d' by (simp add: comp_def)
    moreover have "(learner, t) \<in> link_key ` set (ad_links d')" unfolding d' using n by (metis image_eqI in_set_conv_decomp)
    ultimately show ?thesis by blast
  qed
  then show "links_ok d'" and "(learner, t) \<in> link_key ` set (ad_links d')"
    and "\<And>l. l \<in> set (ad_links d') \<Longrightarrow> lk_learner l = learner \<Longrightarrow> lk_unlinked_at l = None \<longleftrightarrow> lk_teacher l = t"
    by blast+
qed

lemma filter_map_same:
  "(\<And>l. P l \<Longrightarrow> f l = l) \<Longrightarrow> (\<And>l. P (f l) = P l) \<Longrightarrow> filter P (map f ls) = filter P ls"
  by (induction ls) auto

text \<open>
  An operator who assigns a teacher moves the learner: afterwards that teacher is the only active
  one (none when the assignment is cleared), there is nothing for the learner to pick, and the
  links of every other learner are as before.
\<close>

theorem assigned_teacher_is_the_only_one:
  assumes ok: "setAssignedTeacher c learner t d = Inr (x, d')" and links: "links_ok d"
    and uuid: "uuid_pattern learner" "pg_uuid learner = learner"
  shows "getActiveTeacherIdsForLearner learner d' = (case t of None \<Rightarrow> [] | Some t' \<Rightarrow> [t'])
    \<and> getActiveTeacherForLearner learner d' = (t, False)
    \<and> (\<forall>other. other \<noteq> learner \<longrightarrow> active_links other d' = active_links other d)"
proof -
  note new = setAssignedTeacher_links [OF ok]
  have ids: "map lk_teacher (active_links learner d') = (case t of None \<Rightarrow> [] | Some t' \<Rightarrow> [t'])"
  proof (cases t)
    case None
    have "\<not> (lk_learner (unlinked_row (pg_now c) learner None l) = learner \<and> lk_unlinked_at (unlinked_row (pg_now c) learner None l) = None)" for l
      by (simp add: unlinked_row_def)
    then have "filter (\<lambda>l. lk_learner l = learner \<and> lk_unlinked_at l = None) (ad_links d') = []"
      unfolding new None filter_empty_conv option.case set_map ball_simps by simp
    with None show ?thesis by (simp add: active_links_def)
  next
    case (Some t')
    have "map lk_teacher (order_by link_before (filter (\<lambda>l. lk_learner l = learner \<and> lk_unlinked_at l = None) (ad_links d'))) = [t']"
      using linked_rows assigned_links [OF ok [unfolded Some] links] unfolding links_ok_def by blast
    with Some show ?thesis by (simp add: active_links_def)
  qed
  then have "getActiveTeacherForLearner learner d' = (t, False)"
    using uuid by (cases "active_links learner d'"; cases t) (auto simp: getActiveTeacherForLearner_def)
  moreover have "active_links other d' = active_links other d" if "other \<noteq> learner" for other
  proof -
    let ?P = "\<lambda>l. lk_learner l = other \<and> lk_unlinked_at l = None"
    have u: "filter ?P (map (unlinked_row now learner keep) ls) = filter ?P ls"
      and r: "filter ?P (map (revived_row now learner t') ls) = filter ?P ls" for now keep t' ls
      by (rule filter_map_same; use that in \<open>auto simp: unlinked_row_def revived_row_def\<close>)+
    show ?thesis unfolding active_links_def new using that by (simp add: u r del: map_map split: option.split)
  qed
  ultimately show ?thesis using ids uuid by (simp add: getActiveTeacherIdsForLearner_def)
qed

text \<open>A learner of two teachers is moved to the second.\<close>

definition two_teachers :: auth_db where
  "two_teachers = sample_auth\<lparr>ad_roles := [\<lparr>ro_account_id = uuid_of CHR ''d'', ro_role = RoleTeacher, ro_granted_by = None\<rparr>],
     ad_links := [\<lparr>lk_learner = uuid_of CHR ''a'', lk_teacher = uuid_of CHR ''c'', lk_linked_at = 1, lk_unlinked_at = None, lk_via_invite_id = None, lk_teacher_note = None\<rparr>,
                  \<lparr>lk_learner = uuid_of CHR ''a'', lk_teacher = uuid_of CHR ''d'', lk_linked_at = 2, lk_unlinked_at = None, lk_via_invite_id = None, lk_teacher_note = None\<rparr>]\<rparr>"

theorem assigned_teacher_is_the_only_one_witness:
  "getActiveTeacherForLearner (uuid_of CHR ''a'') two_teachers = (None, True)
   \<and> (\<exists>d'. setAssignedTeacher auth_clock (uuid_of CHR ''a'') (Some (uuid_of CHR ''d'')) two_teachers = Inr ((), d')
        \<and> getActiveTeacherForLearner (uuid_of CHR ''a'') d' = (Some (uuid_of CHR ''d''), False))"
proof -
  let ?a = "uuid_of CHR ''a''" and ?t = "uuid_of CHR ''d''"
  have u: "uuid_pattern ?a" "pg_uuid ?a = ?a" by (simp_all add: hex_digit_def lower_hex_def)
  have ne: "uuid_of CHR ''c'' \<noteq> ?t" by (simp add: uuid_of_def replicate_8)
  have "getActiveTeacherForLearner ?a two_teachers = (None, True)"
    using u by (simp add: getActiveTeacherForLearner_def active_links_def two_teachers_def link_before_def)
  moreover obtain d' where d': "setAssignedTeacher auth_clock ?a (Some ?t) two_teachers = Inr ((), d')"
    by (simp add: setAssignedTeacher_def two_teachers_def holds_role_def Let_def)
  moreover have "links_ok two_teachers" using ne by (simp add: links_ok_def two_teachers_def link_key_def)
  ultimately show ?thesis using assigned_teacher_is_the_only_one [OF d' _ u] by auto
qed

end
