(* ===== verification/Subscription.thy ===== *)
theory Subscription
  imports Auth "HOL-Library.Extended_Nat"
begin

text \<open>
  The plan of a teacher: \<open>src/lib/billing/teacher-subscription.ts\<close> (paid periods, cancellation, expiry,
  the catalogue and the caps that follow from a plan) with the tables of \<open>src/migrations/0073, 0074\<close>
  and \<open>0098\<close>, the operator's route \<open>src/app/api/admin/teachers/[id]/plan\<close>, and the free row that comes
  with the teacher role (\<open>src/app/api/admin/accounts/[id]/role\<close>, \<open>src/app/api/auth/register\<close>).
  The tables of vouchers are declared here, their operations are in \<open>Promo\<close>. A period of \<open>n\<close> days is
  \<open>n\<close> times 24 hours (the database runs in a zone without daylight saving). Names and descriptions of
  the catalogue are left out.
\<close>

section \<open>Tables\<close>

datatype sub_state = SubActive | SubPastDue | SubCancelled | SubSuspended

record sub_row =
  sb_account_id :: uuid
  sb_plan_slug :: js_text
  sb_state :: sub_state
  sb_renewal_at :: "micros option"
  sb_period_start :: "micros option"
  sb_period_end :: "micros option"
  sb_amount_kopecks :: "int option"
  sb_payment_order_id :: "js_text option"
  sb_cp_token :: "js_text option"
  sb_cancelled_at :: "micros option"
  sb_created_at :: micros
  sb_updated_at :: micros

record plan_row =
  pn_slug :: js_text
  pn_learner_limit :: "int option"

record promo_row =
  pr_id :: uuid
  pr_code :: js_text
  pr_description :: "js_text option"
  pr_grant_plan_slug :: js_text
  pr_grant_days :: int
  pr_max_redemptions :: "int option"
  pr_redemption_count :: int
  pr_valid_from :: micros
  pr_valid_until :: "micros option"
  pr_created_by :: "uuid option"
  pr_revoked_at :: "micros option"
  pr_revoked_reason :: "js_text option"
  pr_requires_email_verified :: bool

record redemption_row =
  rd_id :: uuid
  rd_promo_code_id :: uuid
  rd_account_id :: uuid
  rd_granted_plan_slug :: js_text
  rd_granted_days :: int
  rd_granted_until :: micros
  rd_ip_prefix :: "js_text option"
  rd_ua :: "js_text option"

record saas_db =
  sd_auth :: auth_db
  sd_plans :: "plan_row list"
  sd_subs :: "sub_row list"
  sd_promos :: "promo_row list"
  sd_redemptions :: "redemption_row list"

definition sub_of :: "saas_db \<Rightarrow> uuid \<Rightarrow> sub_row option" where
  "sub_of d i = find_by sb_account_id i (sd_subs d)"

definition plan_exists :: "saas_db \<Rightarrow> js_text \<Rightarrow> bool" where
  "plan_exists d slug \<longleftrightarrow> find_by pn_slug slug (sd_plans d) \<noteq> None"

text \<open>\<open>insert .. on conflict (account_id) do update\<close>: the new row, or what becomes of the old one.\<close>

definition upsert_sub :: "sub_row \<Rightarrow> (sub_row \<Rightarrow> sub_row) \<Rightarrow> saas_db \<Rightarrow> exn + sub_row \<times> saas_db" where
  "upsert_sub fresh upd d =
     (let old = sub_of d (sb_account_id fresh);
          row = (case old of None \<Rightarrow> fresh | Some r \<Rightarrow> upd r) in
      if \<not> plan_exists d (sb_plan_slug row) \<or> old = None \<and> \<not> has_account (sd_auth d) (sb_account_id fresh)
      then Inl (PgErr ForeignKeyViolation)
      else Inr (row, d\<lparr>sd_subs := (if old = None then sd_subs d @ [row] else replace_row sb_account_id row (sd_subs d))\<rparr>))"

text \<open>A row of the columns the insert names, the rest by default.\<close>

definition new_sub :: "micros \<Rightarrow> uuid \<Rightarrow> js_text \<Rightarrow> sub_row" where
  "new_sub now i plan =
     \<lparr>sb_account_id = i, sb_plan_slug = plan, sb_state = SubActive, sb_renewal_at = None, sb_period_start = None,
      sb_period_end = None, sb_amount_kopecks = None, sb_payment_order_id = None, sb_cp_token = None,
      sb_cancelled_at = None, sb_created_at = now, sb_updated_at = now\<rparr>"

section \<open>The catalogue\<close>

datatype sub_tier = TierMid | TierPro

definition tier_slug :: "sub_tier \<Rightarrow> js_text" where
  "tier_slug t = (case t of TierMid \<Rightarrow> js ''mid'' | TierPro \<Rightarrow> js ''pro'')"

record sub_tariff =
  su_tier :: js_text
  su_amountKopecks :: int
  su_learnerLimit :: "int option"

definition SAAS_SUBSCRIPTION_TARIFFS :: "sub_tariff list" where
  "SAAS_SUBSCRIPTION_TARIFFS =
     [\<lparr>su_tier = js ''free'', su_amountKopecks = 0, su_learnerLimit = Some 3\<rparr>,
      \<lparr>su_tier = js ''mid'', su_amountKopecks = 39900, su_learnerLimit = None\<rparr>,
      \<lparr>su_tier = js ''pro'', su_amountKopecks = 80000, su_learnerLimit = Some 30\<rparr>]"

definition getSubscriptionTariff :: "js_text \<Rightarrow> sub_tariff option" where
  "getSubscriptionTariff tier = find_by su_tier tier SAAS_SUBSCRIPTION_TARIFFS"

definition getPaidSubscriptionTariff :: "js_text \<Rightarrow> (sub_tier \<times> sub_tariff) option" where
  "getPaidSubscriptionTariff tier =
     (if tier = js ''mid'' then map_option (Pair TierMid) (getSubscriptionTariff tier)
      else if tier = js ''pro'' then map_option (Pair TierPro) (getSubscriptionTariff tier)
      else None)"

datatype billing_cycle = Monthly | Annual

definition ANNUAL_OPTIMAL_PRICE_KOPECKS :: int where "ANNUAL_OPTIMAL_PRICE_KOPECKS = 400000"
definition ANNUAL_OPTIMAL_PERIOD_DAYS :: int where "ANNUAL_OPTIMAL_PERIOD_DAYS = 365"

text \<open>Amount and days.\<close>

definition resolveBillingCycleAmount :: "sub_tier \<Rightarrow> billing_cycle \<Rightarrow> (int \<times> int) option" where
  "resolveBillingCycleAmount tier cyc =
     (case cyc of
        Monthly \<Rightarrow> map_option (\<lambda>t. (su_amountKopecks t, 30)) (getSubscriptionTariff (tier_slug tier))
      | Annual \<Rightarrow> if tier \<noteq> TierMid then None else Some (ANNUAL_OPTIMAL_PRICE_KOPECKS, ANNUAL_OPTIMAL_PERIOD_DAYS))"

text \<open>How many packages and tariffs a teacher may keep, and what follows from a row.\<close>

definition EMPTY_CAPS :: "enat \<times> enat" where "EMPTY_CAPS = (0, 0)"

definition TIER_WRITE_CAPS :: "(js_text \<times> (enat \<times> enat)) list" where
  "TIER_WRITE_CAPS =
     [(js ''free'', (1, 1)), (js ''mid'', (\<infinity>, \<infinity>)), (js ''pro'', (\<infinity>, \<infinity>)), (js ''operator-managed'', (\<infinity>, \<infinity>))]"

definition resolveTeacherWriteCaps :: "string \<Rightarrow> saas_db \<Rightarrow> exn + enat \<times> enat" where
  "resolveTeacherWriteCaps teacher d =
     (if \<not> uuid_pattern teacher then Inl (PgErr InvalidUuidText)
      else Inr (case sub_of d (pg_uuid teacher) of
        None \<Rightarrow> EMPTY_CAPS
      | Some r \<Rightarrow>
          if sb_state r \<noteq> SubActive then EMPTY_CAPS
          else (case map_of TIER_WRITE_CAPS (sb_plan_slug r) of None \<Rightarrow> EMPTY_CAPS | Some caps \<Rightarrow> caps)))"

section \<open>Paid periods\<close>

record sub_view =
  sw_accountId :: uuid
  sw_planSlug :: js_text
  sw_state :: sub_state
  sw_renewalAt :: "millis option"
  sw_periodStart :: "millis option"
  sw_periodEnd :: "millis option"
  sw_amountKopecks :: "int option"
  sw_paymentOrderId :: "js_text option"
  sw_cpToken :: "js_text option"
  sw_cancelledAt :: "millis option"
  sw_createdAt :: millis
  sw_updatedAt :: millis

definition rowToSubscription :: "sub_row \<Rightarrow> sub_view" where
  "rowToSubscription r =
     \<lparr>sw_accountId = sb_account_id r, sw_planSlug = sb_plan_slug r, sw_state = sb_state r,
      sw_renewalAt = map_option js_date_via_string (sb_renewal_at r),
      sw_periodStart = map_option js_date_via_string (sb_period_start r),
      sw_periodEnd = map_option js_date_via_string (sb_period_end r), sw_amountKopecks = sb_amount_kopecks r,
      sw_paymentOrderId = sb_payment_order_id r, sw_cpToken = sb_cp_token r,
      sw_cancelledAt = map_option js_date_via_string (sb_cancelled_at r),
      sw_createdAt = js_date_via_string (sb_created_at r), sw_updatedAt = js_date_via_string (sb_updated_at r)\<rparr>"

definition paid_slugs :: "js_text set" where
  "paid_slugs = {js ''mid'', js ''pro''}"

definition getActiveTeacherSubscription :: "clock \<Rightarrow> string \<Rightarrow> saas_db \<Rightarrow> exn + (sub_view \<times> bool) option" where
  "getActiveTeacherSubscription c accountId d =
     (if \<not> uuid_pattern accountId then Inl (PgErr InvalidUuidText)
      else Inr (map_option
        (\<lambda>r. let row = rowToSubscription r in
          (row,
           if sw_state row \<noteq> SubActive then False
           else if sw_planSlug row \<notin> paid_slugs then True
           else (case sw_periodEnd row of None \<Rightarrow> False | Some e \<Rightarrow> e > js_now c)))
        (sub_of d (pg_uuid accountId))))"

record renew_input =
  rn_accountId :: string
  rn_tier :: sub_tier
  rn_amountKopecks :: js_num
  rn_paymentOrderId :: js_text
  rn_periodDays :: "js_num option"
  rn_cpToken :: "js_text option"

definition paid_sub :: "clock \<Rightarrow> renew_input \<Rightarrow> int \<Rightarrow> int \<Rightarrow> sub_row" where
  "paid_sub c input amount days =
     (new_sub (pg_now c) (pg_uuid (rn_accountId input)) (tier_slug (rn_tier input)))
       \<lparr>sb_period_start := Some (pg_now c), sb_period_end := Some (pg_now c + days * us_per_day),
        sb_amount_kopecks := Some amount, sb_payment_order_id := Some (rn_paymentOrderId input),
        sb_cp_token := rn_cpToken input\<rparr>"

definition renewed_sub :: "sub_row \<Rightarrow> sub_row \<Rightarrow> sub_row" where
  "renewed_sub excluded r =
     r\<lparr>sb_plan_slug := sb_plan_slug excluded, sb_state := SubActive, sb_period_start := sb_period_start excluded,
       sb_period_end := sb_period_end excluded, sb_amount_kopecks := sb_amount_kopecks excluded,
       sb_payment_order_id := sb_payment_order_id excluded,
       sb_cp_token := coalesce_opt (sb_cp_token excluded) (sb_cp_token r), sb_cancelled_at := None,
       sb_updated_at := sb_updated_at excluded\<rparr>"

definition createOrRenewTeacherSubscription :: "clock \<Rightarrow> renew_input \<Rightarrow> saas_db \<Rightarrow> exn + sub_view \<times> saas_db" where
  "createOrRenewTeacherSubscription c input d =
     (case rn_amountKopecks input of
        JsNonInt \<Rightarrow> Inl (JsError ''amountKopecks must be a positive integer'')
      | JsInt amount \<Rightarrow>
          if amount \<le> 0 then Inl (JsError ''amountKopecks must be a positive integer'')
          else (case coalesce (rn_periodDays input) (JsInt 30) of
            JsNonInt \<Rightarrow> Inl (JsError ''periodDays must be in (0, 366]'')
          | JsInt days \<Rightarrow>
              if days \<le> 0 \<or> days > 366 then Inl (JsError ''periodDays must be in (0, 366]'')
              else if \<not> uuid_pattern (rn_accountId input) then Inl (PgErr InvalidUuidText)
              else if amount > 2147483647 then Inl (PgErr (RaisedException ''22003''))
              else let fresh = paid_sub c input amount days in
                bindR (upsert_sub fresh (renewed_sub fresh) d) (\<lambda>(r, d'). Inr (rowToSubscription r, d'))))"

text \<open>Updates in place: the rows that satisfy \<open>guard\<close>.\<close>

definition update_subs :: "(sub_row \<Rightarrow> bool) \<Rightarrow> (sub_row \<Rightarrow> sub_row) \<Rightarrow> saas_db \<Rightarrow> saas_db" where
  "update_subs guard f d = d\<lparr>sd_subs := map (\<lambda>r. if guard r then f r else r) (sd_subs d)\<rparr>"

definition cancelled_sub :: "micros \<Rightarrow> sub_row \<Rightarrow> sub_row" where
  "cancelled_sub now r = r\<lparr>sb_cancelled_at := Some (coalesce (sb_cancelled_at r) now), sb_updated_at := now\<rparr>"

definition cancelTeacherSubscription :: "clock \<Rightarrow> string \<Rightarrow> saas_db \<Rightarrow> exn + sub_view option \<times> saas_db" where
  "cancelTeacherSubscription c accountId d =
     (if \<not> uuid_pattern accountId then Inl (PgErr InvalidUuidText)
      else
        let guard = (\<lambda>r. sb_account_id r = pg_uuid accountId \<and> sb_plan_slug r \<in> paid_slugs) in
        Inr (map_option (rowToSubscription \<circ> cancelled_sub (pg_now c)) (find guard (sd_subs d)),
             update_subs guard (cancelled_sub (pg_now c)) d))"

definition expired_sub :: "micros \<Rightarrow> sub_row \<Rightarrow> sub_row" where
  "expired_sub now r =
     r\<lparr>sb_plan_slug := js ''free'', sb_state := SubActive, sb_period_start := None, sb_period_end := None,
       sb_amount_kopecks := None, sb_payment_order_id := None, sb_cp_token := None, sb_updated_at := now\<rparr>"

definition overdue :: "micros \<Rightarrow> sub_row \<Rightarrow> bool" where
  "overdue now r \<longleftrightarrow>
     sb_plan_slug r \<in> paid_slugs \<and> (case sb_period_end r of None \<Rightarrow> False | Some e \<Rightarrow> e < now)"

definition expireOverdueSubscriptions :: "clock \<Rightarrow> saas_db \<Rightarrow> nat \<times> saas_db" where
  "expireOverdueSubscriptions c d =
     (length (filter (overdue (pg_now c)) (sd_subs d)), update_subs (overdue (pg_now c)) (expired_sub (pg_now c)) d)"

definition findSubscriptionByPaymentOrderId :: "js_text \<Rightarrow> saas_db \<Rightarrow> sub_view option" where
  "findSubscriptionByPaymentOrderId paymentOrderId d =
     map_option rowToSubscription (find (\<lambda>r. sb_payment_order_id r = Some paymentOrderId) (sd_subs d))"

section \<open>The other writers\<close>

text \<open>The row that comes with the teacher role: \<open>on conflict (account_id) do nothing\<close>.\<close>

definition insert_free_subscription :: "clock \<Rightarrow> uuid \<Rightarrow> saas_db \<Rightarrow> exn + unit \<times> saas_db" where
  "insert_free_subscription c accountId d =
     (if sub_of d accountId \<noteq> None then Inr ((), d)
      else bindR (upsert_sub (new_sub (pg_now c) accountId (js ''free'')) id d) (\<lambda>(_, d'). Inr ((), d')))"

datatype plan_answer = PlanSet | InvalidTeacherId | InvalidPlanSlug | TargetNotTeacher | PlanNotFound | CapExceeded nat int

definition KNOWN_PLAN_SLUGS :: "js_text set" where
  "KNOWN_PLAN_SLUGS = {js ''free'', js ''mid'', js ''pro'', js ''operator-managed''}"

definition replanned_sub :: "micros \<Rightarrow> js_text \<Rightarrow> sub_row \<Rightarrow> sub_row" where
  "replanned_sub now planSlug r = r\<lparr>sb_plan_slug := planSlug, sb_state := SubActive, sb_updated_at := now\<rparr>"

definition active_learners_of :: "uuid \<Rightarrow> auth_db \<Rightarrow> nat" where
  "active_learners_of teacher a = length (filter (\<lambda>l. lk_teacher l = teacher \<and> lk_unlinked_at l = None) (ad_links a))"

definition admin_set_plan :: "clock \<Rightarrow> string \<Rightarrow> js_text \<Rightarrow> saas_db \<Rightarrow> exn + plan_answer \<times> saas_db" where
  "admin_set_plan c teacherAccountId planSlug d =
     (let i = pg_uuid teacherAccountId in
      if \<not> uuid_pattern teacherAccountId then Inr (InvalidTeacherId, d)
      else if planSlug \<notin> KNOWN_PLAN_SLUGS then Inr (InvalidPlanSlug, d)
      else if \<not> list_ex (\<lambda>r. ro_account_id r = i \<and> ro_role r = RoleTeacher) (ad_roles (sd_auth d)) then Inr (TargetNotTeacher, d)
      else (case find_by pn_slug planSlug (sd_plans d) of
        None \<Rightarrow> Inr (PlanNotFound, d)
      | Some plan \<Rightarrow>
          (case pn_learner_limit plan of
             Some limit \<Rightarrow>
               if int (active_learners_of i (sd_auth d)) > limit
               then Inr (CapExceeded (active_learners_of i (sd_auth d)) limit, d)
               else bindR (upsert_sub (new_sub (pg_now c) i planSlug) (replanned_sub (pg_now c) planSlug) d)
                      (\<lambda>(_, d'). Inr (PlanSet, d'))
           | None \<Rightarrow> bindR (upsert_sub (new_sub (pg_now c) i planSlug) (replanned_sub (pg_now c) planSlug) d)
                      (\<lambda>(_, d'). Inr (PlanSet, d')))))"

section \<open>What every operation keeps\<close>

text \<open>
  One row per account, of a known plan, with a positive amount; a row that names the order which
  paid for it has a period of at most 366 days.
\<close>

definition sub_row_ok :: "sub_row \<Rightarrow> bool" where
  "sub_row_ok r \<longleftrightarrow>
     (case sb_amount_kopecks r of None \<Rightarrow> sb_payment_order_id r = None | Some k \<Rightarrow> 0 < k)
     \<and> (case (sb_period_start r, sb_period_end r) of
          (Some a, Some b) \<Rightarrow> a < b \<and> b \<le> a + 366 * us_per_day
        | (None, None) \<Rightarrow> sb_payment_order_id r = None
        | _ \<Rightarrow> False)"

definition subs_ok :: "saas_db \<Rightarrow> bool" where
  "subs_ok d \<longleftrightarrow>
     distinct (map sb_account_id (sd_subs d))
     \<and> (\<forall>r \<in> set (sd_subs d). sub_row_ok r \<and> plan_exists d (sb_plan_slug r) \<and> has_account (sd_auth d) (sb_account_id r))"

lemma update_fields [simp]:
  "sb_account_id (renewed_sub e r) = sb_account_id r" "sb_account_id (cancelled_sub now r) = sb_account_id r"
  "sb_account_id (expired_sub now r) = sb_account_id r" "sb_account_id (replanned_sub now p r) = sb_account_id r"
  "sb_account_id (new_sub now i p) = i" "sb_plan_slug (new_sub now i p) = p"
  "sb_plan_slug (cancelled_sub now r) = sb_plan_slug r" "sb_plan_slug (expired_sub now r) = js ''free''"
  "sb_account_id (paid_sub c inp k n) = pg_uuid (rn_accountId inp)"
  by (simp_all add: renewed_sub_def cancelled_sub_def expired_sub_def replanned_sub_def new_sub_def paid_sub_def)

lemma upsert_subE:
  assumes "upsert_sub fresh upd d = Inr (row, d')" and key: "\<And>r. sb_account_id (upd r) = sb_account_id r"
  shows "row = (case sub_of d (sb_account_id fresh) of None \<Rightarrow> fresh | Some r \<Rightarrow> upd r)"
    and "sub_of d' j = (if j = sb_account_id fresh then Some row else sub_of d j)"
    and "sd_auth d' = sd_auth d" and "sd_plans d' = sd_plans d" and "sd_promos d' = sd_promos d"
    and "sd_redemptions d' = sd_redemptions d"
    and "subs_ok d \<Longrightarrow> sub_row_ok row \<Longrightarrow> subs_ok d'"
proof -
  let ?i = "sb_account_id fresh"
  show row: "row = (case sub_of d ?i of None \<Rightarrow> fresh | Some r \<Rightarrow> upd r)"
    using assms(1) by (auto simp: upsert_sub_def Let_def split: if_splits)
  have id_row: "sb_account_id row = ?i"
    using row key by (auto simp: sub_of_def dest: find_by_key split: option.splits)
  have d': "d' = d\<lparr>sd_subs := (if sub_of d ?i = None then sd_subs d @ [row] else replace_row sb_account_id row (sd_subs d))\<rparr>"
    and plan: "plan_exists d (sb_plan_slug row)"
    and acc: "sub_of d ?i = None \<Longrightarrow> has_account (sd_auth d) ?i"
    using assms(1) row by (auto simp: upsert_sub_def Let_def split: if_splits)
  show "sub_of d' j = (if j = ?i then Some row else sub_of d j)"
    using id_row by (auto simp: d' sub_of_def find_by_snoc find_by_replace_row split: option.splits)
  show "sd_auth d' = sd_auth d" "sd_plans d' = sd_plans d" "sd_promos d' = sd_promos d" "sd_redemptions d' = sd_redemptions d"
    by (simp_all add: d')
  assume ok: "subs_ok d" and good: "sub_row_ok row"
  have same: "plan_exists d' = plan_exists d" "sd_auth d' = sd_auth d"
    by (simp_all add: d' plan_exists_def fun_eq_iff)
  show "subs_ok d'"
  proof (cases "sub_of d ?i")
    case None
    then have "?i \<notin> sb_account_id ` set (sd_subs d)" by (simp add: sub_of_def find_by_None_iff)
    with ok good plan acc [OF None] None id_row show ?thesis
      by (auto simp: subs_ok_def same) (auto simp: d')
  next
    case (Some r)
    then have mem: "has_account (sd_auth d) ?i"
      using ok id_row by (auto simp: subs_ok_def sub_of_def dest!: find_by_SomeD)
    have rows: "sd_subs d' = replace_row sb_account_id row (sd_subs d)" using Some by (simp add: d')
    show ?thesis
      using ok good plan mem id_row set_replace_row [of sb_account_id row "sd_subs d"]
      unfolding subs_ok_def same rows map_key_replace_row by auto
  qed
qed

lemma update_subs_fields [simp]:
  "sd_auth (update_subs P f d) = sd_auth d" "sd_plans (update_subs P f d) = sd_plans d"
  "sd_promos (update_subs P f d) = sd_promos d" "sd_redemptions (update_subs P f d) = sd_redemptions d"
  "plan_exists (update_subs P f d) = plan_exists d"
  by (simp_all add: update_subs_def plan_exists_def fun_eq_iff)

lemma sub_of_update:
  assumes "\<And>r. sb_account_id (f r) = sb_account_id r"
  shows "sub_of (update_subs P f d) i = map_option (\<lambda>r. if P r then f r else r) (sub_of d i)"
  using assms by (simp add: sub_of_def update_subs_def find_by_map)

lemma update_subs_ok:
  assumes "subs_ok d" and "\<And>r. sb_account_id (f r) = sb_account_id r"
    and "\<And>r. r \<in> set (sd_subs d) \<Longrightarrow> P r \<Longrightarrow> sub_row_ok r \<Longrightarrow> sub_row_ok (f r) \<and> plan_exists d (sb_plan_slug (f r))"
  shows "subs_ok (update_subs P f d)"
proof -
  have "map sb_account_id (sd_subs (update_subs P f d)) = map sb_account_id (sd_subs d)"
    using assms(2) by (simp add: update_subs_def)
  moreover have "sub_row_ok r \<and> plan_exists d (sb_plan_slug r) \<and> has_account (sd_auth d) (sb_account_id r)"
    if "r \<in> set (sd_subs (update_subs P f d))" for r
    using assms that by (auto simp: subs_ok_def update_subs_def)
  ultimately show ?thesis using assms(1) unfolding subs_ok_def update_subs_fields by simp
qed

lemma cancelled_ok: "sub_row_ok (cancelled_sub now r) = sub_row_ok r"
  by (simp add: sub_row_ok_def cancelled_sub_def split: option.split)

lemma replanned_ok: "sub_row_ok (replanned_sub now p r) = sub_row_ok r"
  by (simp add: sub_row_ok_def replanned_sub_def split: option.split)

lemma expired_ok: "sub_row_ok (expired_sub now r)"
  by (simp add: sub_row_ok_def expired_sub_def)

lemma new_ok: "sub_row_ok (new_sub now i p)"
  by (simp add: sub_row_ok_def new_sub_def)

text \<open>A success of the renewal: what was passed, and the row.\<close>

lemma renewE:
  assumes "createOrRenewTeacherSubscription c input d = Inr (v, d')"
  obtains amount days row where "rn_amountKopecks input = JsInt amount" and "0 < amount"
    and "coalesce (rn_periodDays input) (JsInt 30) = JsInt days" and "0 < days" and "days \<le> 366"
    and "uuid_pattern (rn_accountId input)"
    and "upsert_sub (paid_sub c input amount days) (renewed_sub (paid_sub c input amount days)) d = Inr (row, d')"
    and "v = rowToSubscription row"
  using assms
  by (auto simp: createOrRenewTeacherSubscription_def Let_def elim!: bindR_InrE split: js_num.splits if_splits)

lemma paid_row_ok:
  assumes "0 < amount" and "0 < days" and "days \<le> 366"
  shows "sub_row_ok (paid_sub c input amount days)" and "sub_row_ok (renewed_sub (paid_sub c input amount days) r)"
  using assms by (auto simp: sub_row_ok_def paid_sub_def renewed_sub_def new_sub_def us_per_day_def us_per_hour_def
      us_per_minute_def us_per_second_def)

lemma renew_keeps_ok:
  assumes "createOrRenewTeacherSubscription c input d = Inr (v, d')" and "subs_ok d"
  shows "subs_ok d'"
  using assms(1)
proof (rule renewE)
  fix amount days row
  assume "0 < amount" "0 < days" "days \<le> 366"
    and up: "upsert_sub (paid_sub c input amount days) (renewed_sub (paid_sub c input amount days)) d = Inr (row, d')"
  then have "sub_row_ok row"
    using upsert_subE(1) [OF up] paid_row_ok [of amount days] by (simp split: option.splits)
  then show "subs_ok d'" using upsert_subE(7) [OF up _ assms(2)] by simp
qed

lemma tier_paid [simp]: "tier_slug t \<in> paid_slugs" "js ''free'' \<notin> paid_slugs"
  by (simp_all add: tier_slug_def paid_slugs_def split: sub_tier.split)

text \<open>The row after a renewal, whatever was there before.\<close>

lemma renewed_row:
  assumes "row = (case sub_of d i of None \<Rightarrow> paid_sub c input amount days
      | Some r \<Rightarrow> renewed_sub (paid_sub c input amount days) r)"
  shows "sb_plan_slug row = tier_slug (rn_tier input)" and "sb_state row = SubActive"
    and "sb_period_start row = Some (pg_now c)" and "sb_period_end row = Some (pg_now c + days * us_per_day)"
    and "sb_payment_order_id row = Some (rn_paymentOrderId input)" and "sb_cancelled_at row = None"
    and "sb_amount_kopecks row = Some amount"
  using assms by (auto simp: renewed_sub_def paid_sub_def new_sub_def split: option.splits)

text \<open>An active row of a paid tier, while it lasts and after.\<close>

lemma running_plan:
  assumes shape: "uuid_pattern accountId" and row: "sub_of e (pg_uuid accountId) = Some row"
    and fields: "sb_plan_slug row = tier_slug t" "sb_state row = SubActive" "sb_period_end row = Some until_end"
  shows "(\<forall>c'. \<exists>x. getActiveTeacherSubscription c' accountId e = Inr (Some (x, js_now c' < js_date_via_string until_end))
             \<and> sw_planSlug x = tier_slug t \<and> sw_cancelledAt x = map_option js_date_via_string (sb_cancelled_at row))
       \<and> (\<forall>c'. pg_now c' \<le> until_end \<longrightarrow>
            sub_of (snd (expireOverdueSubscriptions c' e)) (pg_uuid accountId) = sub_of e (pg_uuid accountId))
       \<and> (\<forall>c'. until_end < pg_now c' \<longrightarrow>
            (\<exists>r. sub_of (snd (expireOverdueSubscriptions c' e)) (pg_uuid accountId) = Some r
               \<and> sb_plan_slug r = js ''free'' \<and> sb_state r = SubActive \<and> sb_period_end r = None)
            \<and> resolveTeacherWriteCaps accountId (snd (expireOverdueSubscriptions c' e)) = Inr (1, 1))"
proof -
  have act: "\<exists>x. getActiveTeacherSubscription c' accountId e = Inr (Some (x, js_now c' < js_date_via_string until_end))
      \<and> sw_planSlug x = tier_slug t \<and> sw_cancelledAt x = map_option js_date_via_string (sb_cancelled_at row)" for c'
    using shape row fields by (auto simp: getActiveTeacherSubscription_def Let_def rowToSubscription_def)
  have exp: "sub_of (snd (expireOverdueSubscriptions c' e)) (pg_uuid accountId)
      = Some (if until_end < pg_now c' then expired_sub (pg_now c') row else row)" for c'
    using row fields by (simp add: expireOverdueSubscriptions_def sub_of_update overdue_def)
  have caps: "resolveTeacherWriteCaps accountId (snd (expireOverdueSubscriptions c' e)) = Inr (1, 1)" if "until_end < pg_now c'" for c'
    using shape exp [of c'] that by (simp add: resolveTeacherWriteCaps_def TIER_WRITE_CAPS_def) (simp add: expired_sub_def)
  show ?thesis using act exp caps row by (auto simp: expired_sub_def)
qed

text \<open>
  C34: the life of a paid plan, and of one that is cancelled after the payment. Either way the plan is in force exactly
  until the paid days have passed (read to the second), on the tier that was paid; a cancellation does not shorten it
  but leaves its date on the row. Either way expiry leaves the row alone until then, and afterwards takes the teacher
  down to the free plan, active, with one package and one tariff. Other teachers are untouched throughout.
\<close>

theorem paid_period_life:
  assumes paid: "createOrRenewTeacherSubscription c input d = Inr (v, d1)"
    and cancel: "cancelTeacherSubscription c1 (rn_accountId input) d1 = Inr (w, d2)"
  shows "\<exists>days until_end. coalesce (rn_periodDays input) (JsInt 30) = JsInt days \<and> 0 < days \<and> days \<le> 366
    \<and> until_end = pg_now c + days * us_per_day
    \<and> (\<forall>(e, cancelled) \<in> {(d1, None), (d2, Some (js_date_via_string (pg_now c1)))}.
         (\<forall>c'. \<exists>x. getActiveTeacherSubscription c' (rn_accountId input) e
                 = Inr (Some (x, js_now c' < js_date_via_string until_end))
             \<and> sw_planSlug x = tier_slug (rn_tier input) \<and> sw_cancelledAt x = cancelled)
       \<and> (\<forall>c'. pg_now c' \<le> until_end \<longrightarrow>
            sub_of (snd (expireOverdueSubscriptions c' e)) (pg_uuid (rn_accountId input))
              = sub_of e (pg_uuid (rn_accountId input)))
       \<and> (\<forall>c'. until_end < pg_now c' \<longrightarrow>
            (\<exists>r. sub_of (snd (expireOverdueSubscriptions c' e)) (pg_uuid (rn_accountId input)) = Some r
               \<and> sb_plan_slug r = js ''free'' \<and> sb_state r = SubActive \<and> sb_period_end r = None)
            \<and> resolveTeacherWriteCaps (rn_accountId input) (snd (expireOverdueSubscriptions c' e)) = Inr (1, 1))
       \<and> (\<forall>j. j \<noteq> pg_uuid (rn_accountId input) \<longrightarrow> sub_of e j = sub_of d j))"
  using paid
proof (rule renewE)
  fix amount days row
  let ?i = "pg_uuid (rn_accountId input)" and ?f = "paid_sub c input amount days"
  assume days: "coalesce (rn_periodDays input) (JsInt 30) = JsInt days" "0 < days" "days \<le> 366"
    and shape: "uuid_pattern (rn_accountId input)" and up: "upsert_sub ?f (renewed_sub ?f) d = Inr (row, d1)"
  have row: "row = (case sub_of d ?i of None \<Rightarrow> ?f | Some r \<Rightarrow> renewed_sub ?f r)"
    using upsert_subE(1) [OF up] by simp
  note fields = renewed_row [OF row]
  have one: "sub_of d1 j = (if j = ?i then Some row else sub_of d j)" for j
    using upsert_subE(2) [OF up] by simp
  have id_row: "sb_account_id row = ?i"
    using one [of ?i] by (auto simp: sub_of_def dest: find_by_key)
  have d2: "d2 = update_subs (\<lambda>r. sb_account_id r = ?i \<and> sb_plan_slug r \<in> paid_slugs) (cancelled_sub (pg_now c1)) d1"
    using cancel shape by (auto simp: cancelTeacherSubscription_def Let_def)
  have two: "sub_of d2 j = (if j = ?i then Some (cancelled_sub (pg_now c1) row) else sub_of d j)" for j
  proof (cases "j = ?i")
    case True
    then show ?thesis using one [of ?i] id_row fields(1) by (simp add: d2 sub_of_update)
  next
    case False
    have "sb_account_id r \<noteq> ?i" if "sub_of d j = Some r" for r
      using that False by (auto simp: sub_of_def dest: find_by_key)
    with False show ?thesis using one [of j] by (cases "sub_of d j") (auto simp: d2 sub_of_update)
  qed
  note life = running_plan [OF shape _ fields(1,2,4)]
  have "sb_plan_slug (cancelled_sub (pg_now c1) row) = tier_slug (rn_tier input)" "sb_state (cancelled_sub (pg_now c1) row) = SubActive"
    "sb_period_end (cancelled_sub (pg_now c1) row) = Some (pg_now c + days * us_per_day)"
    using fields by (simp_all add: cancelled_sub_def)
  note cancelled_life = running_plan [OF shape _ this]
  have "sb_cancelled_at (cancelled_sub (pg_now c1) row) = Some (pg_now c1)" using fields(6) by (simp add: cancelled_sub_def)
  then show ?thesis
    using days life [of d1] cancelled_life [of d2] one two fields(6)
    by (intro exI [of _ days] exI [of _ "pg_now c + days * us_per_day"]) simp
qed

section \<open>A concrete teacher\<close>

definition sample_teacher_account :: auth_account where
  "sample_teacher_account =
     \<lparr>aa_id = uuid_of CHR ''a'', aa_email = js ''t@x.ru'', aa_password_hash = ''h'', aa_email_verified_at = Some 0,
      aa_disabled_at = None, aa_scheduled_purge_at = None, aa_purged_at = None, aa_assigned_teacher_id = None,
      aa_created_at = 0, aa_updated_at = 0\<rparr>"

definition sample_saas :: saas_db where
  "sample_saas =
     \<lparr>sd_auth = \<lparr>ad_accounts = [sample_teacher_account], ad_roles = [], ad_sessions = [], ad_tokens = (\<lambda>_. []), ad_links = []\<rparr>,
      sd_plans = [\<lparr>pn_slug = js ''free'', pn_learner_limit = Some 3\<rparr>, \<lparr>pn_slug = js ''mid'', pn_learner_limit = None\<rparr>,
                  \<lparr>pn_slug = js ''pro'', pn_learner_limit = Some 30\<rparr>, \<lparr>pn_slug = js ''operator-managed'', pn_learner_limit = None\<rparr>],
      sd_subs = [], sd_promos = [], sd_redemptions = []\<rparr>"

definition sample_renew :: renew_input where
  "sample_renew = \<lparr>rn_accountId = uuid_of CHR ''a'', rn_tier = TierMid, rn_amountKopecks = JsInt 39900,
     rn_paymentOrderId = js ''lc_sub_1'', rn_periodDays = None, rn_cpToken = None\<rparr>"

definition at_second :: "int \<Rightarrow> clock" where
  "at_second s = \<lparr>pg_now = s * us_per_second, js_now = s * 1000\<rparr>"

lemma sample_renewed:
  "\<exists>v d1. createOrRenewTeacherSubscription (at_second 0) sample_renew sample_saas = Inr (v, d1)"
  by (simp add: createOrRenewTeacherSubscription_def sample_renew_def upsert_sub_def Let_def plan_exists_def find_by_def
      sample_saas_def tier_slug_def has_account_def sample_teacher_account_def hex_digit_def lower_hex_def sub_of_def paid_sub_def new_sub_def)

theorem paid_period_life_witness:
  "\<exists>v d1 w d2 x y. createOrRenewTeacherSubscription (at_second 0) sample_renew sample_saas = Inr (v, d1)
     \<and> cancelTeacherSubscription (at_second 60) (uuid_of CHR ''a'') d1 = Inr (w, d2)
     \<and> getActiveTeacherSubscription (at_second (29 * 86400)) (uuid_of CHR ''a'') d1 = Inr (Some (x, True)) \<and> sw_cancelledAt x = None
     \<and> getActiveTeacherSubscription (at_second (29 * 86400)) (uuid_of CHR ''a'') d2 = Inr (Some (y, True)) \<and> sw_cancelledAt y = Some 60000
     \<and> resolveTeacherWriteCaps (uuid_of CHR ''a'') (snd (expireOverdueSubscriptions (at_second (31 * 86400)) d1)) = Inr (1, 1)
     \<and> resolveTeacherWriteCaps (uuid_of CHR ''a'') (snd (expireOverdueSubscriptions (at_second (31 * 86400)) d2)) = Inr (1, 1)"
proof -
  obtain v d1 where paid: "createOrRenewTeacherSubscription (at_second 0) sample_renew sample_saas = Inr (v, d1)"
    using sample_renewed by blast
  have i: "rn_accountId sample_renew = uuid_of CHR ''a''" "coalesce (rn_periodDays sample_renew) (JsInt 30) = JsInt 30"
    by (simp_all add: sample_renew_def)
  have "\<exists>w d2. cancelTeacherSubscription (at_second 60) (uuid_of CHR ''a'') d1 = Inr (w, d2)"
    by (simp add: cancelTeacherSubscription_def Let_def hex_digit_def)
  then obtain w d2 where cancel: "cancelTeacherSubscription (at_second 60) (uuid_of CHR ''a'') d1 = Inr (w, d2)" by blast
  let ?e = "pg_now (at_second 0) + 30 * us_per_day"
  obtain until_end where e: "until_end = ?e"
    and both: "\<forall>(e, cancelled) \<in> {(d1, None), (d2, Some (js_date_via_string (pg_now (at_second 60))))}.
        (\<forall>c'. \<exists>x. getActiveTeacherSubscription c' (uuid_of CHR ''a'') e = Inr (Some (x, js_now c' < js_date_via_string until_end))
             \<and> sw_cancelledAt x = cancelled)
       \<and> (\<forall>c'. until_end < pg_now c' \<longrightarrow> resolveTeacherWriteCaps (uuid_of CHR ''a'') (snd (expireOverdueSubscriptions c' e)) = Inr (1, 1))"
    using paid_period_life [OF paid, unfolded i, OF cancel] by auto blast
  have times: "js_now (at_second (29 * 86400)) < js_date_via_string ?e" "?e < pg_now (at_second (31 * 86400))"
      "js_date_via_string (pg_now (at_second 60)) = 60000"
    by (simp_all add: at_second_def js_date_via_string_def js_date_def us_per_ms_def us_per_day_def us_per_hour_def
        us_per_minute_def us_per_second_def)
  let ?act = "\<lambda>z cancelled. \<forall>c'. \<exists>x. getActiveTeacherSubscription c' (uuid_of CHR ''a'') z = Inr (Some (x, js_now c' < js_date_via_string ?e))
      \<and> sw_cancelledAt x = cancelled"
  let ?caps = "\<lambda>z. \<forall>c'. ?e < pg_now c' \<longrightarrow> resolveTeacherWriteCaps (uuid_of CHR ''a'') (snd (expireOverdueSubscriptions c' z)) = Inr (1, 1)"
  have "?act d1 None" "?act d2 (Some 60000)" and after: "?caps d1" "?caps d2" using both unfolding e times(3) by simp_all
  from this(1,2) [THEN spec, of "at_second (29 * 86400)"] obtain x y
    where "getActiveTeacherSubscription (at_second (29 * 86400)) (uuid_of CHR ''a'') d1 = Inr (Some (x, True))" "sw_cancelledAt x = None"
      and "getActiveTeacherSubscription (at_second (29 * 86400)) (uuid_of CHR ''a'') d2 = Inr (Some (y, True))" "sw_cancelledAt y = Some 60000"
    using times(1) by auto
  with paid cancel after [THEN spec, of "at_second (31 * 86400)"] times(2) show ?thesis by blast
qed

end
