(* ===== verification/Promo.thy ===== *)
theory Promo
  imports Subscription Policy
begin

text \<open>
  Vouchers: \<open>src/lib/promo/codes.ts\<close> over the tables of \<open>src/migrations/0120\<close>, with \<open>truncateIp\<close> of
  \<open>src/lib/analytics/server.ts\<close>, and the runs of all operations that write the plan of a teacher. How
  the database folds case (\<open>citext\<close>) and which texts it accepts as \<open>inet\<close> are arguments. The route
  rolls back on every exception, so a refusal returns the state it was given.
\<close>

section \<open>The prefix of an address\<close>

fun js_split :: "nat \<Rightarrow> js_text \<Rightarrow> js_text list" where
  "js_split sep [] = [[]]"
| "js_split sep (u # us) =
     (if u = sep then [] # js_split sep us
      else case js_split sep us of [] \<Rightarrow> [[u]] | p # ps \<Rightarrow> (u # p) # ps)"

definition ipv4_pattern :: "js_text \<Rightarrow> bool" where
  "ipv4_pattern t \<longleftrightarrow>
     length (js_split 46 t) = 4
     \<and> list_all (\<lambda>p. 1 \<le> length p \<and> length p \<le> 3 \<and> list_all (\<lambda>u. 48 \<le> u \<and> u \<le> 57) p) (js_split 46 t)"

definition truncateIp :: "js_text option \<Rightarrow> js_text option" where
  "truncateIp ip =
     (case ip of
        None \<Rightarrow> None
      | Some raw \<Rightarrow>
          let trimmed = js_trim raw in
          if trimmed = [] then None
          else if ipv4_pattern trimmed
          then let ps = js_split 46 trimmed in Some (ps ! 0 @ [46] @ ps ! 1 @ [46] @ ps ! 2 @ js ''.0/24'')
          else if 58 \<in> set trimmed
          then let ps = js_split 58 trimmed in
            if length ps < 3 then None else Some (ps ! 0 @ [58] @ ps ! 1 @ [58] @ ps ! 2 @ js ''::/48'')
          else None)"

section \<open>Redeeming\<close>

datatype promo_reason = UnknownCode | Revoked | NotYetValid | Expired | Exhausted | AccountUnavailable
  | EmailNotVerified | ActivePaidSubscription | AlreadyRedeemed

record redeem_result =
  re_promoCodeId :: uuid
  re_redemptionId :: uuid
  re_grantedPlanSlug :: js_text
  re_grantedDays :: int
  re_grantedUntil :: millis

definition isActivePaidSubscription :: "sub_row option \<Rightarrow> millis \<Rightarrow> bool" where
  "isActivePaidSubscription sub now =
     (case sub of
        None \<Rightarrow> False
      | Some s \<Rightarrow>
          if sb_plan_slug s \<notin> paid_slugs then False
          else if sb_state s = SubSuspended then True
          else if (case sb_period_end s of None \<Rightarrow> False | Some e \<Rightarrow> js_date e \<le> now) then False
          else if sb_state s = SubActive then True
          else if sb_state s = SubPastDue then True
          else if sb_state s = SubCancelled then True
          else False)"

record redeem_args =
  rg_codeRaw :: js_text
  rg_accountId :: uuid
  rg_ip :: "js_text option"
  rg_userAgent :: "js_text option"

definition promo_by_code :: "(js_text \<Rightarrow> js_text) \<Rightarrow> js_text \<Rightarrow> saas_db \<Rightarrow> promo_row option" where
  "promo_by_code lower code d = find_by (lower \<circ> pr_code) (lower code) (sd_promos d)"

definition promo_refusal :: "clock \<Rightarrow> redeem_args \<Rightarrow> promo_row \<Rightarrow> saas_db \<Rightarrow> promo_reason option" where
  "promo_refusal c args promo d =
     (let now = js_now c; i = rg_accountId args in
      if pr_revoked_at promo \<noteq> None then Some Revoked
      else if js_date (pr_valid_from promo) > now then Some NotYetValid
      else if (case pr_valid_until promo of None \<Rightarrow> False | Some u \<Rightarrow> js_date u \<le> now) then Some Expired
      else if (case pr_max_redemptions promo of None \<Rightarrow> False | Some m \<Rightarrow> pr_redemption_count promo \<ge> m) then Some Exhausted
      else case find_by aa_id i (ad_accounts (sd_auth d)) of
        None \<Rightarrow> Some AccountUnavailable
      | Some a \<Rightarrow>
          if aa_disabled_at a \<noteq> None then Some AccountUnavailable
          else if pr_requires_email_verified promo \<and> aa_email_verified_at a = None then Some EmailNotVerified
          else if list_ex (\<lambda>r. rd_promo_code_id r = pr_id promo \<and> rd_account_id r = i) (sd_redemptions d)
          then Some AlreadyRedeemed
          else if isActivePaidSubscription (sub_of d i) now then Some ActivePaidSubscription
          else None)"

definition granted_until_of :: "clock \<Rightarrow> promo_row \<Rightarrow> millis" where
  "granted_until_of c promo = js_now c + pr_grant_days promo * 24 * 60 * 60 * 1000"

definition granted_sub :: "clock \<Rightarrow> promo_row \<Rightarrow> sub_row \<Rightarrow> sub_row" where
  "granted_sub c promo r =
     r\<lparr>sb_plan_slug := pr_grant_plan_slug promo, sb_state := SubActive, sb_period_start := Some (js_now c * us_per_ms),
       sb_period_end := Some (granted_until_of c promo * us_per_ms), sb_cancelled_at := None, sb_updated_at := pg_now c\<rparr>"

definition redemption_of :: "clock \<Rightarrow> uuid \<Rightarrow> redeem_args \<Rightarrow> promo_row \<Rightarrow> redemption_row" where
  "redemption_of c i args promo =
     \<lparr>rd_id = i, rd_promo_code_id = pr_id promo, rd_account_id = rg_accountId args,
      rd_granted_plan_slug = pr_grant_plan_slug promo, rd_granted_days = pr_grant_days promo,
      rd_granted_until = granted_until_of c promo * us_per_ms, rd_ip_prefix = truncateIp (rg_ip args),
      rd_ua = (case rg_userAgent args of None \<Rightarrow> None | Some [] \<Rightarrow> None | Some t \<Rightarrow> Some (take 512 t))\<rparr>"

definition insert_redemption :: "(js_text \<Rightarrow> bool) \<Rightarrow> redemption_row \<Rightarrow> saas_db \<Rightarrow> exn + unit \<times> saas_db" where
  "insert_redemption inet_ok r d =
     (if (case rd_ip_prefix r of None \<Rightarrow> False | Some p \<Rightarrow> \<not> inet_ok p) then Inl (PgErr (RaisedException ''22P02''))
      else if find_by rd_id (rd_id r) (sd_redemptions d) \<noteq> None then Inl (PgErr UniqueViolation)
      else Inr ((), d\<lparr>sd_redemptions := sd_redemptions d @ [r]\<rparr>))"

definition count_redemption :: "uuid \<Rightarrow> promo_row \<Rightarrow> promo_row" where
  "count_redemption i p = (if pr_id p = i then p\<lparr>pr_redemption_count := pr_redemption_count p + 1\<rparr> else p)"

text \<open>
  The redemption, in one transaction under a lock on the row of the voucher. The unique key over voucher and teacher of
  the journal is left out: an insertion that it would refuse is proved never to happen.
\<close>

definition redeemPromoCode ::
  "(js_text \<Rightarrow> js_text) \<Rightarrow> (js_text \<Rightarrow> bool) \<Rightarrow> clock \<Rightarrow> uuid \<Rightarrow> redeem_args \<Rightarrow> saas_db
     \<Rightarrow> exn + (promo_reason + redeem_result) \<times> saas_db" where
  "redeemPromoCode lower inet_ok c newId args d =
     (let code = js_trim (rg_codeRaw args) in
      if code = [] then Inr (Inl UnknownCode, d)
      else case promo_by_code lower code d of
        None \<Rightarrow> Inr (Inl UnknownCode, d)
      | Some promo \<Rightarrow>
          (case promo_refusal c args promo d of
             Some reason \<Rightarrow> Inr (Inl reason, d)
           | None \<Rightarrow>
               bindR (upsert_sub (granted_sub c promo (new_sub (pg_now c) (rg_accountId args) (pr_grant_plan_slug promo)))
                        (granted_sub c promo) d)
                 (\<lambda>(_, d1). bindR (insert_redemption inet_ok (redemption_of c newId args promo) d1)
                   (\<lambda>(_, d2). Inr
                     (Inr \<lparr>re_promoCodeId = pr_id promo, re_redemptionId = newId,
                           re_grantedPlanSlug = pr_grant_plan_slug promo, re_grantedDays = pr_grant_days promo,
                           re_grantedUntil = granted_until_of c promo\<rparr>,
                      d2\<lparr>sd_promos := map (count_redemption (pr_id promo)) (sd_promos d2)\<rparr>)))))"

section \<open>Templates\<close>

record create_promo =
  cp_code :: js_text
  cp_description :: "js_text option"
  cp_grantPlanSlug :: js_text
  cp_grantDays :: js_float
  cp_maxRedemptions :: "js_float option"
  cp_validFrom :: "millis option"
  cp_validUntil :: "millis option"
  cp_requiresEmailVerified :: bool
  cp_createdBy :: "uuid option"

definition code_char :: "nat \<Rightarrow> bool" where
  "code_char u \<longleftrightarrow> 65 \<le> u \<and> u \<le> 90 \<or> 97 \<le> u \<and> u \<le> 122 \<or> 48 \<le> u \<and> u \<le> 57 \<or> u = 95 \<or> u = 45"

definition code_pattern :: "js_text \<Rightarrow> bool" where
  "code_pattern t \<longleftrightarrow> 3 \<le> length t \<and> length t \<le> 32 \<and> list_all code_char t"

text \<open>A number as an \<open>integer\<close> column takes it.\<close>

definition int_param :: "js_float \<Rightarrow> exn + int" where
  "int_param x =
     (case x of
        Finite q \<Rightarrow>
          if of_int \<lfloor>q\<rfloor> \<noteq> q then Inl (PgErr (RaisedException ''22P02''))
          else if \<lfloor>q\<rfloor> > 2147483647 \<or> \<lfloor>q\<rfloor> < - 2147483648 then Inl (PgErr (RaisedException ''22003''))
          else Inr \<lfloor>q\<rfloor>
      | _ \<Rightarrow> Inl (PgErr (RaisedException ''22P02'')))"

definition int_param_opt :: "js_float option \<Rightarrow> exn + int option" where
  "int_param_opt x = (case x of None \<Rightarrow> Inr None | Some v \<Rightarrow> bindR (int_param v) (\<lambda>n. Inr (Some n)))"

definition insert_promo :: "(js_text \<Rightarrow> js_text) \<Rightarrow> promo_row \<Rightarrow> saas_db \<Rightarrow> exn + uuid \<times> saas_db" where
  "insert_promo lower p d =
     (if (case pr_valid_until p of None \<Rightarrow> False | Some u \<Rightarrow> \<not> u > pr_valid_from p) then Inl (PgErr CheckViolation)
      else if find_by pr_id (pr_id p) (sd_promos d) \<noteq> None \<or> promo_by_code lower (pr_code p) d \<noteq> None
      then Inl (PgErr UniqueViolation)
      else if \<not> plan_exists d (pr_grant_plan_slug p)
        \<or> (case pr_created_by p of None \<Rightarrow> False | Some a \<Rightarrow> \<not> has_account (sd_auth d) a)
      then Inl (PgErr ForeignKeyViolation)
      else Inr (pr_id p, d\<lparr>sd_promos := sd_promos d @ [p]\<rparr>))"

definition createPromoCode :: "(js_text \<Rightarrow> js_text) \<Rightarrow> clock \<Rightarrow> uuid \<Rightarrow> create_promo \<Rightarrow> saas_db \<Rightarrow> exn + uuid \<times> saas_db" where
  "createPromoCode lower c newId args d =
     (let code = js_trim (cp_code args);
          row = (\<lambda>days m. \<lparr>pr_id = newId, pr_code = code, pr_description = cp_description args,
                 pr_grant_plan_slug = cp_grantPlanSlug args, pr_grant_days = days, pr_max_redemptions = m,
                 pr_redemption_count = 0,
                 pr_valid_from = (case cp_validFrom args of None \<Rightarrow> js_now c | Some t \<Rightarrow> t) * us_per_ms,
                 pr_valid_until = map_option (\<lambda>t. t * us_per_ms) (cp_validUntil args),
                 pr_created_by = cp_createdBy args, pr_revoked_at = None, pr_revoked_reason = None,
                 pr_requires_email_verified = cp_requiresEmailVerified args\<rparr>)
      in if \<not> code_pattern code then Inl (JsError ''promo/code/invalid'')
         else if cp_grantPlanSlug args \<notin> KNOWN_PLAN_SLUGS then Inl (JsError ''promo/grant_plan_slug/invalid'')
         else if \<not> (case cp_grantDays args of Finite q \<Rightarrow> 1 \<le> q \<and> q \<le> 365 | _ \<Rightarrow> False)
         then Inl (JsError ''promo/grant_days/out_of_range'')
         else if (case cp_maxRedemptions args of Some (Finite q) \<Rightarrow> q \<le> 0 | Some NegInfinity \<Rightarrow> True | _ \<Rightarrow> False)
         then Inl (JsError ''promo/max_redemptions/invalid'')
         else bindR (int_param (cp_grantDays args)) (\<lambda>days.
              bindR (int_param_opt (cp_maxRedemptions args)) (\<lambda>m. insert_promo lower (row days m) d)))"

definition revoked_promo :: "micros \<Rightarrow> js_text \<Rightarrow> promo_row \<Rightarrow> promo_row" where
  "revoked_promo now reason p = p\<lparr>pr_revoked_at := Some now, pr_revoked_reason := Some reason\<rparr>"

definition revokePromoCode :: "clock \<Rightarrow> string \<Rightarrow> js_text \<Rightarrow> saas_db \<Rightarrow> exn + unit \<times> saas_db" where
  "revokePromoCode c promoCodeId reason d =
     (if \<not> uuid_pattern promoCodeId then Inl (PgErr InvalidUuidText)
      else Inr ((), d\<lparr>sd_promos := map (\<lambda>p. if pr_id p = pg_uuid promoCodeId \<and> pr_revoked_at p = None
                                             then revoked_promo (pg_now c) reason p else p) (sd_promos d)\<rparr>))"

section \<open>Runs\<close>

definition redemptions_of :: "saas_db \<Rightarrow> uuid \<Rightarrow> redemption_row list" where
  "redemptions_of d i = filter (\<lambda>r. rd_promo_code_id r = i) (sd_redemptions d)"

definition promo_row_ok :: "saas_db \<Rightarrow> promo_row \<Rightarrow> bool" where
  "promo_row_ok d p \<longleftrightarrow>
     1 \<le> pr_grant_days p \<and> pr_grant_days p \<le> 365
     \<and> pr_redemption_count p = int (length (redemptions_of d (pr_id p)))
     \<and> (case pr_max_redemptions p of None \<Rightarrow> True | Some m \<Rightarrow> 0 < m \<and> pr_redemption_count p \<le> m)"

definition promos_ok :: "saas_db \<Rightarrow> bool" where
  "promos_ok d \<longleftrightarrow>
     distinct (map pr_id (sd_promos d))
     \<and> (\<forall>p \<in> set (sd_promos d). promo_row_ok d p)
     \<and> distinct (map (\<lambda>r. (rd_promo_code_id r, rd_account_id r)) (sd_redemptions d))
     \<and> rd_promo_code_id ` set (sd_redemptions d) \<subseteq> pr_id ` set (sd_promos d)"

text \<open>The steps, with the operator's changes of plans or without.\<close>

inductive saas_step :: "bool \<Rightarrow> (js_text \<Rightarrow> js_text) \<Rightarrow> (js_text \<Rightarrow> bool) \<Rightarrow> saas_db \<Rightarrow> saas_db \<Rightarrow> bool" for operator lower inet_ok where
  step_renew: "createOrRenewTeacherSubscription c input d = Inr (v, d') \<Longrightarrow> saas_step operator lower inet_ok d d'"
| step_cancel_sub: "cancelTeacherSubscription c i d = Inr (w, d') \<Longrightarrow> saas_step operator lower inet_ok d d'"
| step_expire: "expireOverdueSubscriptions c d = (n, d') \<Longrightarrow> saas_step operator lower inet_ok d d'"
| step_free: "insert_free_subscription c i d = Inr (u, d') \<Longrightarrow> saas_step operator lower inet_ok d d'"
| step_plan: "operator \<Longrightarrow> admin_set_plan c i slug d = Inr (a, d') \<Longrightarrow> saas_step operator lower inet_ok d d'"
| step_redeem: "redeemPromoCode lower inet_ok c i args d = Inr (r, d') \<Longrightarrow> saas_step operator lower inet_ok d d'"
| step_create_promo: "createPromoCode lower c i p d = Inr (k, d') \<Longrightarrow> saas_step operator lower inet_ok d d'"
| step_revoke: "revokePromoCode c i reason d = Inr (u, d') \<Longrightarrow> saas_step operator lower inet_ok d d'"

definition saas_ok :: "saas_db \<Rightarrow> bool" where
  "saas_ok d \<longleftrightarrow> subs_ok d \<and> promos_ok d"

lemma promos_ok_same:
  assumes "sd_promos d' = sd_promos d" and "sd_redemptions d' = sd_redemptions d"
  shows "promos_ok d' = promos_ok d"
  using assms by (simp add: promos_ok_def promo_row_ok_def redemptions_of_def)

lemma subs_ok_same:
  assumes "sd_subs d' = sd_subs d" and "sd_plans d' = sd_plans d" and "sd_auth d' = sd_auth d"
  shows "subs_ok d' = subs_ok d"
  using assms by (simp add: subs_ok_def plan_exists_def)

lemma granted_fields [simp]:
  "sb_account_id (granted_sub c p r) = sb_account_id r" "sb_plan_slug (granted_sub c p r) = pr_grant_plan_slug p"
  by (simp_all add: granted_sub_def)

lemma granted_row_ok:
  assumes "1 \<le> pr_grant_days p" and "pr_grant_days p \<le> 365" and "sub_row_ok r"
  shows "sub_row_ok (granted_sub c p r)"
  using assms
  by (auto simp: sub_row_ok_def granted_sub_def granted_until_of_def us_per_ms_def us_per_day_def us_per_hour_def
      us_per_minute_def us_per_second_def split: option.splits)

text \<open>A success of the redemption.\<close>

lemma redeemE:
  assumes "redeemPromoCode lower inet_ok c i args d = Inr (Inr r, d')"
  obtains promo row d1 where "js_trim (rg_codeRaw args) \<noteq> []"
    and "promo_by_code lower (js_trim (rg_codeRaw args)) d = Some promo" and "promo_refusal c args promo d = None"
    and "upsert_sub (granted_sub c promo (new_sub (pg_now c) (rg_accountId args) (pr_grant_plan_slug promo)))
           (granted_sub c promo) d = Inr (row, d1)"
    and "find_by rd_id i (sd_redemptions d) = None"
    and "d' = d1\<lparr>sd_redemptions := sd_redemptions d @ [redemption_of c i args promo],
                 sd_promos := map (count_redemption (pr_id promo)) (sd_promos d)\<rparr>"
proof -
  from assms obtain promo where *: "js_trim (rg_codeRaw args) \<noteq> []"
      "promo_by_code lower (js_trim (rg_codeRaw args)) d = Some promo" "promo_refusal c args promo d = None"
    by (auto simp: redeemPromoCode_def Let_def split: if_splits option.splits)
  with assms obtain row d1 u d2 where up: "upsert_sub (granted_sub c promo (new_sub (pg_now c) (rg_accountId args) (pr_grant_plan_slug promo)))
           (granted_sub c promo) d = Inr (row, d1)"
      and ins: "insert_redemption inet_ok (redemption_of c i args promo) d1 = Inr (u, d2)"
      and d': "d' = d2\<lparr>sd_promos := map (count_redemption (pr_id promo)) (sd_promos d2)\<rparr>"
    by (auto simp: redeemPromoCode_def Let_def elim!: bindR_InrE)
  note same = upsert_subE(5,6) [OF up, simplified]
  have "d2 = d1\<lparr>sd_redemptions := sd_redemptions d1 @ [redemption_of c i args promo]\<rparr>"
    and "find_by rd_id i (sd_redemptions d1) = None"
    using ins by (auto simp: insert_redemption_def redemption_of_def split: if_splits option.splits)
  with * up d' same that show thesis by simp
qed

lemma redeem_refused: "redeemPromoCode lower inet_ok c i args d = Inr (Inl reason, d') \<Longrightarrow> d' = d"
  by (auto simp: redeemPromoCode_def Let_def elim!: bindR_InrE split: if_splits option.splits)

lemma redeem_keeps_ok:
  assumes "saas_ok d" and "redeemPromoCode lower inet_ok c i args d = Inr (Inr r, d')"
  shows "saas_ok d'"
  using assms(2)
proof (rule redeemE)
  fix promo row d1
  let ?new = "redemption_of c i args promo"
  assume code: "promo_by_code lower (js_trim (rg_codeRaw args)) d = Some promo" and ok: "promo_refusal c args promo d = None"
    and up: "upsert_sub (granted_sub c promo (new_sub (pg_now c) (rg_accountId args) (pr_grant_plan_slug promo)))
           (granted_sub c promo) d = Inr (row, d1)"
    and d': "d' = d1\<lparr>sd_redemptions := sd_redemptions d @ [?new],
                 sd_promos := map (count_redemption (pr_id promo)) (sd_promos d)\<rparr>"
  have inv: "subs_ok d" "promos_ok d" using assms(1) by (simp_all add: saas_ok_def)
  have mem: "promo \<in> set (sd_promos d)" using code by (auto simp: promo_by_code_def dest: find_by_SomeD)
  then have row_ok: "promo_row_ok d promo" using inv(2) by (simp add: promos_ok_def)
  have room: "case pr_max_redemptions promo of None \<Rightarrow> True | Some m \<Rightarrow> pr_redemption_count promo < m"
    and fresh: "\<forall>x \<in> set (sd_redemptions d). \<not> (rd_promo_code_id x = pr_id promo \<and> rd_account_id x = rg_accountId args)"
    using ok by (auto simp: promo_refusal_def Let_def list_ex_iff split: if_splits option.splits)
  note u = upsert_subE [OF up, simplified]
  have "sub_row_ok row"
    using u(1) row_ok inv(1)
    by (auto intro!: granted_row_ok new_ok simp: promo_row_ok_def subs_ok_def sub_of_def dest!: find_by_SomeD split: option.splits)
  then have "subs_ok d1" using u(7) inv(1) by simp
  then have subs: "subs_ok d'" by (simp add: d' subs_ok_def plan_exists_def)
  have new: "rd_promo_code_id ?new = pr_id promo" "rd_account_id ?new = rg_accountId args"
    by (simp_all add: redemption_of_def)
  have count: "redemptions_of d' k = redemptions_of d k @ (if k = pr_id promo then [?new] else [])" for k
    using new by (simp add: d' redemptions_of_def)
  have fields: "pr_id (count_redemption k p) = pr_id p" "pr_grant_days (count_redemption k p) = pr_grant_days p"
    "pr_max_redemptions (count_redemption k p) = pr_max_redemptions p"
    "pr_redemption_count (count_redemption k p) = pr_redemption_count p + (if pr_id p = k then 1 else 0)" for k p
    by (simp_all add: count_redemption_def)
  have "promo_row_ok d' (count_redemption (pr_id promo) p)" if p: "p \<in> set (sd_promos d)" for p
  proof (cases "pr_id p = pr_id promo")
    case True
    with p mem inv(2) have "p = promo" by (auto simp: promos_ok_def dest: distinct_key_eq)
    with row_ok room show ?thesis by (auto simp: promo_row_ok_def fields count split: option.splits)
  next
    case False
    with p inv(2) show ?thesis by (auto simp: promos_ok_def promo_row_ok_def fields count split: option.splits)
  qed
  then have rows: "\<forall>p \<in> set (sd_promos d'). promo_row_ok d' p" by (simp add: d')
  have ids: "map pr_id (sd_promos d') = map pr_id (sd_promos d)" by (simp add: d' fields)
  then have "pr_id ` set (sd_promos d') = pr_id ` set (sd_promos d)" by (metis set_map)
  moreover have "sd_redemptions d' = sd_redemptions d @ [?new]" by (simp add: d')
  ultimately have "promos_ok d'"
    using inv(2) mem fresh new rows ids unfolding promos_ok_def by auto
  with subs show "saas_ok d'" by (simp add: saas_ok_def)
qed

lemma create_keeps_ok:
  assumes "saas_ok d" and "createPromoCode lower c i p d = Inr (k, d')"
  shows "saas_ok d'"
proof -
  let ?days = "cp_grantDays p" and ?max = "cp_maxRedemptions p"
  from assms(2) obtain n m row where days: "int_param ?days = Inr n" and m: "int_param_opt ?max = Inr m"
    and range: "case ?days of Finite q \<Rightarrow> 1 \<le> q \<and> q \<le> 365 | _ \<Rightarrow> False"
    and pos: "\<not> (case ?max of Some (Finite q) \<Rightarrow> q \<le> 0 | Some NegInfinity \<Rightarrow> True | _ \<Rightarrow> False)"
    and ins: "insert_promo lower row d = Inr (k, d')"
    and row: "pr_grant_days row = n" "pr_max_redemptions row = m" "pr_redemption_count row = 0" "pr_id row = i"
    by (auto simp: createPromoCode_def Let_def elim!: bindR_InrE split: if_splits)
  have n: "1 \<le> n" "n \<le> 365"
    using days range by (auto simp: int_param_def split: js_float.splits if_splits)
  have mpos: "case m of None \<Rightarrow> True | Some v \<Rightarrow> 0 < v"
    using m pos by (auto simp: int_param_opt_def int_param_def bindR_eq_Inr_iff split: option.splits js_float.splits if_splits)
  have fresh: "i \<notin> pr_id ` set (sd_promos d)" and d': "d' = d\<lparr>sd_promos := sd_promos d @ [row]\<rparr>"
    using ins row(4) by (auto simp: insert_promo_def find_by_None_iff split: if_splits)
  have inv: "subs_ok d" "promos_ok d" using assms(1) by (simp_all add: saas_ok_def)
  have none: "redemptions_of d i = []"
    using inv(2) fresh by (force simp: redemptions_of_def promos_ok_def filter_empty_conv)
  have same: "redemptions_of d' = redemptions_of d" by (simp add: d' redemptions_of_def fun_eq_iff)
  have rows: "promo_row_ok d' x" if "x \<in> set (sd_promos d')" for x
    using that inv(2) row n mpos none by (auto simp: d' promos_ok_def promo_row_ok_def redemptions_of_def split: option.splits)
  then have "promos_ok d'" using inv(2) fresh row(4) by (auto simp: promos_ok_def d')
  moreover have "subs_ok d'" using inv(1) subs_ok_same [of d' d] by (simp add: d')
  ultimately show ?thesis by (simp add: saas_ok_def)
qed

lemma revoke_keeps_ok:
  assumes "saas_ok d" and "revokePromoCode c i reason d = Inr (u, d')"
  shows "saas_ok d'"
proof -
  define f where "f p = (if pr_id p = pg_uuid i \<and> pr_revoked_at p = None then revoked_promo (pg_now c) reason p else p)" for p
  have d': "d' = d\<lparr>sd_promos := map f (sd_promos d)\<rparr>"
    using assms(2) by (auto simp: revokePromoCode_def f_def [abs_def] split: if_splits)
  have f: "pr_id (f p) = pr_id p" "promo_row_ok d' (f p) = promo_row_ok d p" for p
    by (simp_all add: f_def revoked_promo_def promo_row_ok_def redemptions_of_def d' split: option.split)
  have ids: "map pr_id (sd_promos d') = map pr_id (sd_promos d)" by (simp add: d' f)
  then have "pr_id ` set (sd_promos d') = pr_id ` set (sd_promos d)" by (metis set_map)
  moreover have "\<forall>p \<in> set (sd_promos d'). promo_row_ok d' p"
    using assms(1) by (auto simp: d' saas_ok_def promos_ok_def f [unfolded d'])
  moreover have "sd_redemptions d' = sd_redemptions d" by (simp add: d')
  ultimately have "promos_ok d'" using assms(1) ids unfolding saas_ok_def promos_ok_def by simp
  moreover have "subs_ok d'" using assms(1) subs_ok_same [of d' d] by (simp add: d' saas_ok_def)
  ultimately show ?thesis by (simp add: saas_ok_def)
qed

text \<open>The writers of \<open>Subscription\<close> leave the vouchers alone.\<close>

lemma plan_writers_keep_ok:
  "insert_free_subscription c i d = Inr (u, d') \<Longrightarrow> saas_ok d \<Longrightarrow> saas_ok d'"
  "admin_set_plan c t slug d = Inr (a, d') \<Longrightarrow> saas_ok d \<Longrightarrow> saas_ok d'"
  "createOrRenewTeacherSubscription c input d = Inr (v, d') \<Longrightarrow> saas_ok d \<Longrightarrow> saas_ok d'"
  "cancelTeacherSubscription c t d = Inr (w, d') \<Longrightarrow> saas_ok d \<Longrightarrow> saas_ok d'"
  "expireOverdueSubscriptions c d = (n, d') \<Longrightarrow> saas_ok d \<Longrightarrow> plan_exists d (js ''free'') \<Longrightarrow> saas_ok d'"
proof -
  have up: "saas_ok e'" if "upsert_sub (new_sub now j p) upd e = Inr (r, e')" "saas_ok e"
    "\<And>x. sb_account_id (upd x) = sb_account_id x" "\<And>x. sub_row_ok (upd x) = sub_row_ok x" for now j p upd e r e'
  proof -
    note u = upsert_subE [OF that(1,3)]
    have "sub_row_ok r"
      using u(1) that(2,4) new_ok by (auto simp: saas_ok_def subs_ok_def sub_of_def dest!: find_by_SomeD split: option.splits)
    then have "subs_ok e'" using u(7) that(2) by (simp add: saas_ok_def)
    then show ?thesis using that(2) promos_ok_same [OF u(5,6)] by (simp add: saas_ok_def)
  qed
  show "saas_ok d'" if "insert_free_subscription c i d = Inr (u, d')" "saas_ok d"
  proof -
    have "d' = d \<or> (\<exists>r. upsert_sub (new_sub (pg_now c) i (js ''free'')) id d = Inr (r, d'))"
      using that(1) by (auto simp: insert_free_subscription_def elim!: bindR_InrE split: if_splits)
    then show ?thesis using that(2) up [where upd = id] by auto
  qed
  show "saas_ok d'" if "admin_set_plan c t slug d = Inr (a, d')" "saas_ok d"
  proof -
    have "d' = d \<or> (\<exists>r. upsert_sub (new_sub (pg_now c) (pg_uuid t) slug) (replanned_sub (pg_now c) slug) d = Inr (r, d'))"
      using that(1) by (auto simp: admin_set_plan_def Let_def elim!: bindR_InrE split: if_splits option.splits)
    then show ?thesis using that(2) up [where upd = "replanned_sub (pg_now c) slug"] replanned_ok by auto
  qed
  show "saas_ok d'" if "createOrRenewTeacherSubscription c input d = Inr (v, d')" "saas_ok d"
    using that(1)
  proof (rule renewE)
    fix amount days row
    assume r: "upsert_sub (paid_sub c input amount days) (renewed_sub (paid_sub c input amount days)) d = Inr (row, d')"
    show "saas_ok d'"
      using renew_keeps_ok [OF that(1)] that(2) promos_ok_same [OF upsert_subE(5,6) [OF r]] by (simp add: saas_ok_def)
  qed
  have upd: "saas_ok (update_subs P f d)" if "saas_ok d" "\<And>r. sb_account_id (f r) = sb_account_id r"
    "\<And>r. r \<in> set (sd_subs d) \<Longrightarrow> P r \<Longrightarrow> sub_row_ok r \<Longrightarrow> sub_row_ok (f r) \<and> plan_exists d (sb_plan_slug (f r))" for P f
    using that update_subs_ok [of d f P] promos_ok_same [of "update_subs P f d" d] by (simp add: saas_ok_def)
  show "saas_ok d'" if "cancelTeacherSubscription c t d = Inr (w, d')" "saas_ok d"
  proof -
    have "d' = update_subs (\<lambda>r. sb_account_id r = pg_uuid t \<and> sb_plan_slug r \<in> paid_slugs) (cancelled_sub (pg_now c)) d"
      using that(1) by (auto simp: cancelTeacherSubscription_def Let_def split: if_splits)
    moreover have "plan_exists d (sb_plan_slug r)" if "r \<in> set (sd_subs d)" for r
      using \<open>saas_ok d\<close> that by (simp add: saas_ok_def subs_ok_def)
    ultimately show ?thesis using upd [OF that(2)] cancelled_ok by simp
  qed
  show "saas_ok d'" if "expireOverdueSubscriptions c d = (n, d')" "saas_ok d" "plan_exists d (js ''free'')"
  proof -
    have "d' = update_subs (overdue (pg_now c)) (expired_sub (pg_now c)) d"
      using that(1) by (simp add: expireOverdueSubscriptions_def)
    then show ?thesis using upd [OF that(2)] expired_ok that(3) by simp
  qed
qed

lemma saas_step_fixed:
  assumes "saas_step operator lower inet_ok d d'"
  shows "sd_plans d' = sd_plans d \<and> sd_auth d' = sd_auth d"
proof -
  have up: "sd_plans e' = sd_plans e \<and> sd_auth e' = sd_auth e" if "upsert_sub f g e = Inr (r, e')" for f g e r e'
    using that by (auto simp: upsert_sub_def Let_def split: if_splits)
  from assms show ?thesis
  proof cases
    case step_renew
    then show ?thesis by (auto elim!: renewE dest: up)
  next
    case step_cancel_sub
    then show ?thesis by (auto simp: cancelTeacherSubscription_def Let_def split: if_splits)
  next
    case step_expire
    then show ?thesis by (auto simp: expireOverdueSubscriptions_def)
  next
    case step_free
    then show ?thesis by (auto simp: insert_free_subscription_def elim!: bindR_InrE split: if_splits dest: up)
  next
    case step_plan
    then show ?thesis
      by (auto simp: admin_set_plan_def Let_def elim!: bindR_InrE split: if_splits option.splits dest: up)
  next
    case (step_redeem c i args r)
    then show ?thesis by (cases r) (auto dest: redeem_refused up elim!: redeemE)
  next
    case step_create_promo
    then show ?thesis
      by (auto simp: createPromoCode_def insert_promo_def Let_def elim!: bindR_InrE split: if_splits)
  next
    case step_revoke
    then show ?thesis by (auto simp: revokePromoCode_def split: if_splits)
  qed
qed

definition saas_good :: "saas_db \<Rightarrow> bool" where
  "saas_good d \<longleftrightarrow> saas_ok d \<and> plan_exists d (js ''free'')"

interpretation saas_run: kept_by_steps "saas_step operator lower inet_ok" saas_good for operator lower inet_ok
proof
  fix d d' assume good: "saas_good d" and step: "saas_step operator lower inet_ok d d'"
  have ok: "saas_ok d" and free: "plan_exists d (js ''free'')" using good by (simp_all add: saas_good_def)
  from step have "saas_ok d'"
  proof cases
    case (step_redeem c i args r)
    then show ?thesis using ok redeem_keeps_ok redeem_refused by (cases r) blast+
  next
    case step_renew then show ?thesis using ok by (rule plan_writers_keep_ok(3))
  next
    case step_cancel_sub then show ?thesis using ok by (rule plan_writers_keep_ok(4))
  next
    case step_expire then show ?thesis using ok free by (rule plan_writers_keep_ok(5))
  next
    case step_free then show ?thesis using ok by (rule plan_writers_keep_ok(1))
  next
    case step_plan show ?thesis using step_plan(2) ok by (rule plan_writers_keep_ok(2))
  next
    case step_create_promo show ?thesis by (rule create_keeps_ok [OF ok step_create_promo])
  next
    case step_revoke show ?thesis by (rule revoke_keeps_ok [OF ok step_revoke])
  qed
  moreover have "plan_exists d' = plan_exists d"
    using saas_step_fixed [OF step] by (simp add: plan_exists_def fun_eq_iff)
  ultimately show "saas_good d'" using free by (simp add: saas_good_def)
qed

lemma paid_row_period:
  "sub_row_ok r \<Longrightarrow> sb_payment_order_id r \<noteq> None \<Longrightarrow>
   \<exists>k a b. sb_amount_kopecks r = Some k \<and> 0 < k \<and> sb_period_start r = Some a
     \<and> sb_period_end r = Some b \<and> a < b \<and> b \<le> a + 366 * us_per_day"
  by (auto simp: sub_row_ok_def split: option.splits)

text \<open>A paid plan that somebody paid for or was granted by a voucher has a period.\<close>

definition paid_periods :: "saas_db \<Rightarrow> bool" where
  "paid_periods d \<longleftrightarrow> (\<forall>r \<in> set (sd_subs d). sb_plan_slug r \<in> paid_slugs \<longrightarrow> sb_period_start r \<noteq> None \<and> sb_period_end r \<noteq> None)"

definition teachers_with_plan :: "saas_db \<Rightarrow> uuid set" where
  "teachers_with_plan d = sb_account_id ` set (sd_subs d)"

lemma upsert_rows:
  assumes "upsert_sub fresh upd d = Inr (row, d')" and "\<And>r. sb_account_id (upd r) = sb_account_id r"
  shows "teachers_with_plan d \<subseteq> teachers_with_plan d'" and "set (sd_subs d') \<subseteq> insert row (set (sd_subs d))"
proof -
  have "row = (case sub_of d (sb_account_id fresh) of None \<Rightarrow> fresh | Some r \<Rightarrow> upd r)"
    by (rule upsert_subE(1) [OF assms])
  have d': "sd_subs d' = (if sub_of d (sb_account_id fresh) = None then sd_subs d @ [row] else replace_row sb_account_id row (sd_subs d))"
    using assms(1) by (auto simp: upsert_sub_def Let_def split: if_splits)
  have "sb_account_id ` set (replace_row sb_account_id row xs) = sb_account_id ` set xs" for xs
    by (metis map_key_replace_row set_map)
  then show "teachers_with_plan d \<subseteq> teachers_with_plan d'" by (auto simp: teachers_with_plan_def d')
  show "set (sd_subs d') \<subseteq> insert row (set (sd_subs d))"
    using set_replace_row [of sb_account_id row "sd_subs d"] by (auto simp: d')
qed

definition plan_kept :: "bool \<Rightarrow> saas_db \<Rightarrow> saas_db \<Rightarrow> bool" where
  "plan_kept operator d d' \<longleftrightarrow> teachers_with_plan d \<subseteq> teachers_with_plan d' \<and> (\<not> operator \<and> paid_periods d \<longrightarrow> paid_periods d')"

lemma plan_kept_refl: "plan_kept operator d d"
  by (simp add: plan_kept_def)

lemma plan_kept_same: "sd_subs d' = sd_subs d \<Longrightarrow> plan_kept operator d d'"
  by (simp add: plan_kept_def teachers_with_plan_def paid_periods_def)

lemma plan_kept_upsert:
  assumes "upsert_sub fresh upd d = Inr (row, d')" and "\<And>r. sb_account_id (upd r) = sb_account_id r"
    and "sb_plan_slug row \<in> paid_slugs \<Longrightarrow> \<not> operator \<Longrightarrow> paid_periods d \<Longrightarrow> sb_period_start row \<noteq> None \<and> sb_period_end row \<noteq> None"
  shows "plan_kept operator d d'"
  using upsert_rows [OF assms(1,2)] assms(3) unfolding plan_kept_def paid_periods_def by blast

lemma plan_kept_update:
  assumes "\<And>r. sb_account_id (f r) = sb_account_id r"
    and "\<And>r. sb_plan_slug (f r) \<in> paid_slugs \<Longrightarrow> sb_plan_slug (f r) = sb_plan_slug r \<and> sb_period_start (f r) = sb_period_start r
        \<and> sb_period_end (f r) = sb_period_end r"
  shows "plan_kept operator d (update_subs P f d)"
proof -
  have "map sb_account_id (sd_subs (update_subs P f d)) = map sb_account_id (sd_subs d)"
    using assms(1) by (simp add: update_subs_def)
  then have "teachers_with_plan (update_subs P f d) = teachers_with_plan d"
    unfolding teachers_with_plan_def by (metis set_map)
  moreover have "paid_periods (update_subs P f d)" if "paid_periods d"
    using that assms(2) by (auto simp: paid_periods_def update_subs_def)
  ultimately show ?thesis by (simp add: plan_kept_def)
qed

lemma saas_step_keeps_plans:
  assumes "saas_step operator lower inet_ok d d'"
  shows "plan_kept operator d d'"
  using assms
proof cases
  case (step_renew c input v)
  from step_renew show ?thesis
  proof (rule renewE)
    fix amount days row
    assume up: "upsert_sub (paid_sub c input amount days) (renewed_sub (paid_sub c input amount days)) d = Inr (row, d')"
    have row: "row = (case sub_of d (pg_uuid (rn_accountId input)) of None \<Rightarrow> paid_sub c input amount days
        | Some r \<Rightarrow> renewed_sub (paid_sub c input amount days) r)"
      using upsert_subE(1) [OF up] by simp
    show ?thesis using plan_kept_upsert [OF up] renewed_row(3,4) [OF row] by simp
  qed
next
  case (step_cancel_sub c i w)
  then have "d' = update_subs (\<lambda>r. sb_account_id r = pg_uuid i \<and> sb_plan_slug r \<in> paid_slugs) (cancelled_sub (pg_now c)) d"
    by (auto simp: cancelTeacherSubscription_def Let_def split: if_splits)
  then show ?thesis using plan_kept_update [of "cancelled_sub (pg_now c)"] by (simp add: cancelled_sub_def)
next
  case (step_expire c n)
  then have "d' = update_subs (overdue (pg_now c)) (expired_sub (pg_now c)) d"
    by (simp add: expireOverdueSubscriptions_def)
  then show ?thesis using plan_kept_update [of "expired_sub (pg_now c)"] by simp
next
  case (step_free c i u)
  then have "d' = d \<or> (\<exists>r. sub_of d i = None \<and> upsert_sub (new_sub (pg_now c) i (js ''free'')) id d = Inr (r, d'))"
    by (auto simp: insert_free_subscription_def elim!: bindR_InrE split: if_splits)
  then show ?thesis
  proof
    assume "\<exists>r. sub_of d i = None \<and> upsert_sub (new_sub (pg_now c) i (js ''free'')) id d = Inr (r, d')"
    then obtain r where none: "sub_of d i = None" and up: "upsert_sub (new_sub (pg_now c) i (js ''free'')) id d = Inr (r, d')" by blast
    have "sb_plan_slug r = js ''free''" using upsert_subE(1) [OF up] none by simp
    then show ?thesis using plan_kept_upsert [OF up] by simp
  qed (simp add: plan_kept_refl)
next
  case (step_plan c i slug a)
  then have "d' = d \<or> (\<exists>r. upsert_sub (new_sub (pg_now c) (pg_uuid i) slug) (replanned_sub (pg_now c) slug) d = Inr (r, d'))"
    by (auto simp: admin_set_plan_def Let_def elim!: bindR_InrE split: if_splits option.splits)
  then show ?thesis
  proof
    assume "\<exists>r. upsert_sub (new_sub (pg_now c) (pg_uuid i) slug) (replanned_sub (pg_now c) slug) d = Inr (r, d')"
    then obtain r where up: "upsert_sub (new_sub (pg_now c) (pg_uuid i) slug) (replanned_sub (pg_now c) slug) d = Inr (r, d')" by blast
    show ?thesis by (rule plan_kept_upsert [OF up]) (use step_plan(1) in simp_all)
  qed (simp add: plan_kept_refl)
next
  case (step_redeem c i args r)
  show ?thesis
  proof (cases r)
    case (Inl reason)
    then show ?thesis using step_redeem redeem_refused plan_kept_refl by blast
  next
    case (Inr res)
    from step_redeem [unfolded Inr] show ?thesis
    proof (rule redeemE)
      fix promo row d1
      assume up: "upsert_sub (granted_sub c promo (new_sub (pg_now c) (rg_accountId args) (pr_grant_plan_slug promo)))
           (granted_sub c promo) d = Inr (row, d1)"
        and d': "d' = d1\<lparr>sd_redemptions := sd_redemptions d @ [redemption_of c i args promo],
                 sd_promos := map (count_redemption (pr_id promo)) (sd_promos d)\<rparr>"
      have "sb_period_start row \<noteq> None \<and> sb_period_end row \<noteq> None"
        using upsert_subE(1) [OF up] by (auto simp: granted_sub_def split: option.splits)
      then have "plan_kept operator d d1" using plan_kept_upsert [OF up] by simp
      then show ?thesis by (simp add: d' plan_kept_def teachers_with_plan_def paid_periods_def)
    qed
  qed
next
  case step_create_promo
  then show ?thesis
    by (intro plan_kept_same) (auto simp: createPromoCode_def insert_promo_def Let_def elim!: bindR_InrE split: if_splits)
next
  case step_revoke
  then show ?thesis by (intro plan_kept_same) (auto simp: revokePromoCode_def split: if_splits)
qed

interpretation saas_plans: kept_by_steps "saas_step operator lower inet_ok" "plan_kept operator d0" for operator lower inet_ok d0
proof
  fix d d' assume "plan_kept operator d0 d" and "saas_step operator lower inet_ok d d'"
  then show "plan_kept operator d0 d'" using saas_step_keeps_plans [of operator lower inet_ok d d'] unfolding plan_kept_def by blast
qed

text \<open>
  C33: no sequence of payments, cancellations, expiries, plan changes by the operator, redemptions, new vouchers and
  revocations lets a voucher be used beyond its limit or twice by one teacher: the counter on the voucher is the number
  of its redemptions in the journal. No teacher ever loses the row of the plan, and none has two. Every row is on a known
  plan; its period has both ends, in order and at most 366 days apart, or neither; one that an order paid for has a
  period and an amount. And as long as the operator sets no plan by hand, mid and pro come with a period.
\<close>

theorem vouchers_never_overrun:
  assumes "saas_good d0" and "(saas_step operator lower inet_ok)\<^sup>*\<^sup>* d0 d"
  shows "(\<forall>p \<in> set (sd_promos d).
            pr_redemption_count p = int (length (redemptions_of d (pr_id p)))
            \<and> (\<forall>m. pr_max_redemptions p = Some m \<longrightarrow> int (length (redemptions_of d (pr_id p))) \<le> m)
            \<and> distinct (map rd_account_id (redemptions_of d (pr_id p))))
    \<and> distinct (map sb_account_id (sd_subs d)) \<and> teachers_with_plan d0 \<subseteq> teachers_with_plan d
    \<and> (\<forall>r \<in> set (sd_subs d). plan_exists d (sb_plan_slug r)
         \<and> (sb_period_start r = None \<longleftrightarrow> sb_period_end r = None)
         \<and> (\<forall>a b. sb_period_start r = Some a \<and> sb_period_end r = Some b \<longrightarrow> a < b \<and> b \<le> a + 366 * us_per_day)
         \<and> (sb_payment_order_id r \<noteq> None \<longrightarrow> sb_period_start r \<noteq> None \<and> (\<exists>k. sb_amount_kopecks r = Some k \<and> 0 < k)))
    \<and> (\<not> operator \<and> paid_periods d0 \<longrightarrow>
         (\<forall>r \<in> set (sd_subs d). sb_plan_slug r \<in> {js ''mid'', js ''pro''} \<longrightarrow> sb_period_end r \<noteq> None))"
proof -
  have ok: "subs_ok d" "promos_ok d"
    using saas_run.run_good [OF assms(2,1)] by (simp_all add: saas_good_def saas_ok_def)
  have kept: "plan_kept operator d0 d" by (rule saas_plans.run_good [OF assms(2) plan_kept_refl])
  have vouchers: "\<forall>p \<in> set (sd_promos d).
            pr_redemption_count p = int (length (redemptions_of d (pr_id p)))
            \<and> (\<forall>m. pr_max_redemptions p = Some m \<longrightarrow> int (length (redemptions_of d (pr_id p))) \<le> m)
            \<and> distinct (map rd_account_id (redemptions_of d (pr_id p)))"
  proof
    fix p assume "p \<in> set (sd_promos d)"
    moreover have "distinct (map rd_account_id (redemptions_of d (pr_id p)))"
      using ok(2) by (auto simp: promos_ok_def redemptions_of_def distinct_map inj_on_def)
    ultimately show "pr_redemption_count p = int (length (redemptions_of d (pr_id p)))
        \<and> (\<forall>m. pr_max_redemptions p = Some m \<longrightarrow> int (length (redemptions_of d (pr_id p))) \<le> m)
        \<and> distinct (map rd_account_id (redemptions_of d (pr_id p)))"
      using ok(2) by (auto simp: promos_ok_def promo_row_ok_def)
  qed
  have rows: "\<forall>r \<in> set (sd_subs d). plan_exists d (sb_plan_slug r)
         \<and> (sb_period_start r = None \<longleftrightarrow> sb_period_end r = None)
         \<and> (\<forall>a b. sb_period_start r = Some a \<and> sb_period_end r = Some b \<longrightarrow> a < b \<and> b \<le> a + 366 * us_per_day)
         \<and> (sb_payment_order_id r \<noteq> None \<longrightarrow> sb_period_start r \<noteq> None \<and> (\<exists>k. sb_amount_kopecks r = Some k \<and> 0 < k))"
  proof
    fix r assume "r \<in> set (sd_subs d)"
    then have "sub_row_ok r" "plan_exists d (sb_plan_slug r)" using ok(1) by (simp_all add: subs_ok_def)
    then show "plan_exists d (sb_plan_slug r)
         \<and> (sb_period_start r = None \<longleftrightarrow> sb_period_end r = None)
         \<and> (\<forall>a b. sb_period_start r = Some a \<and> sb_period_end r = Some b \<longrightarrow> a < b \<and> b \<le> a + 366 * us_per_day)
         \<and> (sb_payment_order_id r \<noteq> None \<longrightarrow> sb_period_start r \<noteq> None \<and> (\<exists>k. sb_amount_kopecks r = Some k \<and> 0 < k))"
      by (auto simp: sub_row_ok_def split: option.splits)
  qed
  have "distinct (map sb_account_id (sd_subs d))" using ok(1) by (simp add: subs_ok_def)
  moreover have "teachers_with_plan d0 \<subseteq> teachers_with_plan d" using kept by (simp add: plan_kept_def)
  moreover have "\<not> operator \<and> paid_periods d0 \<longrightarrow>
      (\<forall>r \<in> set (sd_subs d). sb_plan_slug r \<in> {js ''mid'', js ''pro''} \<longrightarrow> sb_period_end r \<noteq> None)"
    using kept unfolding plan_kept_def paid_periods_def paid_slugs_def by meson
  ultimately show ?thesis using vouchers rows by (intro conjI)
qed

section \<open>Which redemptions succeed\<close>

lemma refusal_None_iff:
  assumes "find_by aa_id (rg_accountId args) (ad_accounts (sd_auth d)) = Some a"
  shows "promo_refusal c args promo d = None \<longleftrightarrow>
     pr_revoked_at promo = None \<and> js_date (pr_valid_from promo) \<le> js_now c
     \<and> (case pr_valid_until promo of None \<Rightarrow> True | Some u \<Rightarrow> js_now c < js_date u)
     \<and> (case pr_max_redemptions promo of None \<Rightarrow> True | Some m \<Rightarrow> pr_redemption_count promo < m)
     \<and> aa_disabled_at a = None \<and> (pr_requires_email_verified promo \<longrightarrow> aa_email_verified_at a \<noteq> None)
     \<and> \<not> list_ex (\<lambda>r. rd_promo_code_id r = pr_id promo \<and> rd_account_id r = rg_accountId args) (sd_redemptions d)
     \<and> \<not> isActivePaidSubscription (sub_of d (rg_accountId args)) (js_now c)"
  using assms by (auto simp: promo_refusal_def Let_def split: option.splits)

lemma case_option_all: "(case x of None \<Rightarrow> True | Some u \<Rightarrow> P u) \<longleftrightarrow> (\<forall>u. x = Some u \<longrightarrow> P u)"
  by (cases x) simp_all

lemma active_paid_iff:
  "isActivePaidSubscription sub now \<longleftrightarrow>
     (\<exists>s. sub = Some s \<and> sb_plan_slug s \<in> paid_slugs
        \<and> (sb_state s = SubSuspended \<or> (case sb_period_end s of None \<Rightarrow> True | Some e \<Rightarrow> now < js_date e)))"
  by (auto simp: isActivePaidSubscription_def split: option.splits) (metis sub_state.exhaust)+

lemma redeem_succeeds:
  assumes "js_trim (rg_codeRaw args) \<noteq> []" and code: "promo_by_code lower (js_trim (rg_codeRaw args)) d = Some promo"
    and ok: "promo_refusal c args promo d = None"
    and plan: "plan_exists d (pr_grant_plan_slug promo)" and fresh: "find_by rd_id i (sd_redemptions d) = None"
    and inet: "\<And>p. truncateIp (rg_ip args) = Some p \<Longrightarrow> inet_ok p"
  shows "\<exists>r d'. redeemPromoCode lower inet_ok c i args d = Inr (Inr r, d')"
proof -
  let ?f = "granted_sub c promo (new_sub (pg_now c) (rg_accountId args) (pr_grant_plan_slug promo))"
  have "has_account (sd_auth d) (rg_accountId args)"
    using ok by (auto simp: promo_refusal_def Let_def has_account_def split: option.splits if_splits)
  with plan have "\<exists>x. upsert_sub ?f (granted_sub c promo) d = Inr x"
    by (auto simp: upsert_sub_def Let_def split: option.splits)
  then obtain row d1 where up: "upsert_sub ?f (granted_sub c promo) d = Inr (row, d1)" by auto
  have "sd_redemptions d1 = sd_redemptions d" using upsert_subE(6) [OF up] by simp
  with fresh inet have "\<exists>d2. insert_redemption inet_ok (redemption_of c i args promo) d1 = Inr ((), d2)"
    by (auto simp: insert_redemption_def redemption_of_def split: option.splits)
  then show ?thesis using assms(1) code ok up by (auto simp: redeemPromoCode_def Let_def)
qed

text \<open>
  Exactly when a voucher is granted, and what that does. It must not be revoked, be within its dates
  and below its limit (counted in the journal); the account must be enabled, verified if the voucher
  asks for it, and new to this voucher; and the teacher must not hold mid or pro that is suspended or
  has not run out. Then the row of the teacher, whatever it was, becomes an active row of the voucher's
  plan for its number of days from now, no other teacher changes, and one line is added to the journal. A
  refusal changes nothing. A suspended row of another plan is no obstacle: it comes back to life.
\<close>

theorem redeemPromoCode_decision:
  assumes good: "saas_good d" and "js_trim (rg_codeRaw args) \<noteq> []"
    and code: "promo_by_code lower (js_trim (rg_codeRaw args)) d = Some promo"
    and acc: "find_by aa_id (rg_accountId args) (ad_accounts (sd_auth d)) = Some a"
    and plan: "plan_exists d (pr_grant_plan_slug promo)" and fresh: "find_by rd_id i (sd_redemptions d) = None"
    and inet: "\<And>p. truncateIp (rg_ip args) = Some p \<Longrightarrow> inet_ok p"
  shows "if pr_revoked_at promo = None \<and> js_date (pr_valid_from promo) \<le> js_now c
       \<and> (\<forall>u. pr_valid_until promo = Some u \<longrightarrow> js_now c < js_date u)
       \<and> (\<forall>m. pr_max_redemptions promo = Some m \<longrightarrow> int (length (redemptions_of d (pr_id promo))) < m)
       \<and> aa_disabled_at a = None \<and> (pr_requires_email_verified promo \<longrightarrow> aa_email_verified_at a \<noteq> None)
       \<and> rg_accountId args \<notin> rd_account_id ` set (redemptions_of d (pr_id promo))
       \<and> (\<forall>s. sub_of d (rg_accountId args) = Some s \<and> sb_plan_slug s \<in> {js ''mid'', js ''pro''}
             \<longrightarrow> sb_state s \<noteq> SubSuspended \<and> (\<exists>e. sb_period_end s = Some e \<and> js_date e \<le> js_now c))
     then \<exists>r d' s. redeemPromoCode lower inet_ok c i args d = Inr (Inr r, d')
       \<and> sub_of d' (rg_accountId args) = Some s \<and> sb_plan_slug s = pr_grant_plan_slug promo \<and> sb_state s = SubActive
       \<and> sb_period_end s = Some ((js_now c + pr_grant_days promo * 86400000) * us_per_ms) \<and> sb_cancelled_at s = None
       \<and> (\<forall>j. j \<noteq> rg_accountId args \<longrightarrow> sub_of d' j = sub_of d j)
       \<and> map rd_account_id (redemptions_of d' (pr_id promo))
           = map rd_account_id (redemptions_of d (pr_id promo)) @ [rg_accountId args]
     else \<exists>reason. redeemPromoCode lower inet_ok c i args d = Inr (Inl reason, d)"
proof -
  let ?i = "rg_accountId args"
  have "promo \<in> set (sd_promos d)" using code by (auto simp: promo_by_code_def dest: find_by_SomeD)
  then have count: "pr_redemption_count promo = int (length (redemptions_of d (pr_id promo)))"
    using good by (auto simp: saas_good_def saas_ok_def promos_ok_def promo_row_ok_def)
  have used: "list_ex (\<lambda>r. rd_promo_code_id r = pr_id promo \<and> rd_account_id r = ?i) (sd_redemptions d)
      \<longleftrightarrow> ?i \<in> rd_account_id ` set (redemptions_of d (pr_id promo))"
    by (auto simp: list_ex_iff redemptions_of_def image_iff)
  have held: "isActivePaidSubscription (sub_of d ?i) (js_now c) \<longleftrightarrow>
      \<not> (\<forall>s. sub_of d ?i = Some s \<and> sb_plan_slug s \<in> {js ''mid'', js ''pro''}
             \<longrightarrow> sb_state s \<noteq> SubSuspended \<and> (\<exists>e. sb_period_end s = Some e \<and> js_date e \<le> js_now c))"
    unfolding active_paid_iff paid_slugs_def by (auto split: option.splits)
  have none: "promo_refusal c args promo d = None \<longleftrightarrow>
      pr_revoked_at promo = None \<and> js_date (pr_valid_from promo) \<le> js_now c
       \<and> (\<forall>u. pr_valid_until promo = Some u \<longrightarrow> js_now c < js_date u)
       \<and> (\<forall>m. pr_max_redemptions promo = Some m \<longrightarrow> int (length (redemptions_of d (pr_id promo))) < m)
       \<and> aa_disabled_at a = None \<and> (pr_requires_email_verified promo \<longrightarrow> aa_email_verified_at a \<noteq> None)
       \<and> ?i \<notin> rd_account_id ` set (redemptions_of d (pr_id promo))
       \<and> (\<forall>s. sub_of d ?i = Some s \<and> sb_plan_slug s \<in> {js ''mid'', js ''pro''}
             \<longrightarrow> sb_state s \<noteq> SubSuspended \<and> (\<exists>e. sb_period_end s = Some e \<and> js_date e \<le> js_now c))"
    unfolding refusal_None_iff [OF acc] count used held case_option_all not_not by (rule refl)
  show ?thesis
  proof (cases "promo_refusal c args promo d")
    case None
    obtain r d' where ok: "redeemPromoCode lower inet_ok c i args d = Inr (Inr r, d')"
      using redeem_succeeds [where inet_ok = inet_ok, OF assms(2) code None plan fresh inet] by blast
    have eff: "\<exists>s. sub_of d' ?i = Some s \<and> sb_plan_slug s = pr_grant_plan_slug promo \<and> sb_state s = SubActive
       \<and> sb_period_end s = Some ((js_now c + pr_grant_days promo * 86400000) * us_per_ms) \<and> sb_cancelled_at s = None
       \<and> (\<forall>j. j \<noteq> ?i \<longrightarrow> sub_of d' j = sub_of d j)
       \<and> map rd_account_id (redemptions_of d' (pr_id promo)) = map rd_account_id (redemptions_of d (pr_id promo)) @ [?i]"
      using ok
    proof (rule redeemE)
      fix promo' row d1
      assume "promo_by_code lower (js_trim (rg_codeRaw args)) d = Some promo'"
        and "upsert_sub (granted_sub c promo' (new_sub (pg_now c) ?i (pr_grant_plan_slug promo'))) (granted_sub c promo') d = Inr (row, d1)"
        and d': "d' = d1\<lparr>sd_redemptions := sd_redemptions d @ [redemption_of c i args promo'],
                 sd_promos := map (count_redemption (pr_id promo')) (sd_promos d)\<rparr>"
      then have p: "promo' = promo"
        and up: "upsert_sub (granted_sub c promo (new_sub (pg_now c) ?i (pr_grant_plan_slug promo))) (granted_sub c promo) d = Inr (row, d1)"
        using code by simp_all
      note u = upsert_subE(1,2) [OF up, simplified]
      have "sb_state row = SubActive \<and> sb_plan_slug row = pr_grant_plan_slug promo \<and> sb_cancelled_at row = None
          \<and> sb_period_end row = Some ((js_now c + pr_grant_days promo * 86400000) * us_per_ms)"
        using u(1) by (auto simp: granted_sub_def granted_until_of_def new_sub_def split: option.splits)
      moreover have "sub_of d' j = (if j = ?i then Some row else sub_of d j)" for j
        using u(2) [of j] by (simp add: d' sub_of_def)
      moreover have "redemptions_of d' (pr_id promo) = redemptions_of d (pr_id promo) @ [redemption_of c i args promo]"
        by (simp add: d' p redemptions_of_def redemption_of_def)
      ultimately show ?thesis by (simp add: redemption_of_def)
    qed
    from ok eff show ?thesis unfolding if_P [OF None [unfolded none]] by blast
  next
    case (Some reason)
    then have "redeemPromoCode lower inet_ok c i args d = Inr (Inl reason, d)"
      using assms(2) code by (simp add: redeemPromoCode_def Let_def)
    moreover have nc: "\<not> promo_refusal c args promo d = None" using Some by simp
    ultimately show ?thesis unfolding if_not_P [OF nc [unfolded none]] by (intro exI)
  qed
qed

definition sample_promo :: promo_row where
  "sample_promo =
     \<lparr>pr_id = uuid_of CHR ''9'', pr_code = js ''SPRING'', pr_description = None, pr_grant_plan_slug = js ''mid'',
      pr_grant_days = 30, pr_max_redemptions = Some 1, pr_redemption_count = 0, pr_valid_from = 0, pr_valid_until = None,
      pr_created_by = None, pr_revoked_at = None, pr_revoked_reason = None, pr_requires_email_verified = True\<rparr>"

text \<open>A teacher on the free plan whom the operator has suspended, and a voucher for a month of mid.\<close>

definition sample_suspended :: saas_db where
  "sample_suspended = sample_saas
     \<lparr>sd_subs := [(new_sub 0 (uuid_of CHR ''a'') (js ''free''))\<lparr>sb_state := SubSuspended\<rparr>], sd_promos := [sample_promo]\<rparr>"

definition sample_redeem :: redeem_args where
  "sample_redeem = \<lparr>rg_codeRaw = js ''SPRING'', rg_accountId = uuid_of CHR ''a'',
     rg_ip = Some (js ''2001:db8::1''), rg_userAgent = None\<rparr>"

lemma sample_suspended_good: "saas_good sample_suspended"
  by (simp add: saas_good_def saas_ok_def subs_ok_def promos_ok_def promo_row_ok_def redemptions_of_def sample_promo_def
      sample_suspended_def sample_saas_def plan_exists_def find_by_def sub_row_ok_def new_sub_def has_account_def
      sample_teacher_account_def)

lemma js_trim_word: "list_all (\<lambda>u. \<not> js_space u) t \<Longrightarrow> js_trim t = t"
proof -
  assume "list_all (\<lambda>u. \<not> js_space u) t"
  then have all: "\<And>u. u \<in> set t \<Longrightarrow> \<not> js_space u" by (simp add: list_all_iff)
  then have "dropWhile js_space t = t" by (cases t) simp_all
  moreover have "\<And>u. u \<in> set (rev t) \<Longrightarrow> \<not> js_space u" using all by simp
  then have "dropWhile js_space (rev t) = rev t" by (cases "rev t") simp_all
  ultimately show ?thesis by (simp add: js_trim_def)
qed

lemma sample_code [simp]: "js_trim (rg_codeRaw sample_redeem) = js ''SPRING''"
  by (simp add: sample_redeem_def) (rule js_trim_word, simp add: js_def js_space_def)

lemma sample_redeem_at: "promo_by_code id (js ''SPRING'') sample_suspended = Some sample_promo"
  "find_by aa_id (rg_accountId sample_redeem) (ad_accounts (sd_auth sample_suspended)) = Some sample_teacher_account"
  "plan_exists sample_suspended (pr_grant_plan_slug sample_promo)"
  "find_by rd_id (uuid_of CHR ''5'') (sd_redemptions sample_suspended) = None"
  by (simp_all add: promo_by_code_def find_by_def sample_suspended_def sample_saas_def sample_promo_def sample_redeem_def
      sample_teacher_account_def plan_exists_def)

theorem redeemPromoCode_decision_witness:
  "\<exists>r d' s. redeemPromoCode id (\<lambda>_. True) (at_second 60) (uuid_of CHR ''5'') sample_redeem sample_suspended = Inr (Inr r, d')
     \<and> sub_of d' (uuid_of CHR ''a'') = Some s \<and> sb_state s = SubActive
     \<and> map rd_account_id (redemptions_of d' (pr_id sample_promo)) = [uuid_of CHR ''a'']"
proof -
  have cond: "pr_revoked_at sample_promo = None \<and> js_date (pr_valid_from sample_promo) \<le> js_now (at_second 60)
       \<and> (\<forall>u. pr_valid_until sample_promo = Some u \<longrightarrow> js_now (at_second 60) < js_date u)
       \<and> (\<forall>m. pr_max_redemptions sample_promo = Some m \<longrightarrow> int (length (redemptions_of sample_suspended (pr_id sample_promo))) < m)
       \<and> aa_disabled_at sample_teacher_account = None
       \<and> (pr_requires_email_verified sample_promo \<longrightarrow> aa_email_verified_at sample_teacher_account \<noteq> None)
       \<and> rg_accountId sample_redeem \<notin> rd_account_id ` set (redemptions_of sample_suspended (pr_id sample_promo))
       \<and> (\<forall>s. sub_of sample_suspended (rg_accountId sample_redeem) = Some s \<and> sb_plan_slug s \<in> {js ''mid'', js ''pro''}
             \<longrightarrow> sb_state s \<noteq> SubSuspended \<and> (\<exists>e. sb_period_end s = Some e \<and> js_date e \<le> js_now (at_second 60)))"
    by (simp add: sample_promo_def sample_suspended_def sample_saas_def redemptions_of_def sample_teacher_account_def
        sample_redeem_def sub_of_def find_by_def new_sub_def at_second_def js_date_def us_per_ms_def)
  have ne: "js_trim (rg_codeRaw sample_redeem) \<noteq> []" by simp
  have "rg_accountId sample_redeem = uuid_of CHR ''a''" by (simp add: sample_redeem_def)
  moreover have "redemptions_of sample_suspended k = []" for k
    by (simp add: redemptions_of_def sample_suspended_def sample_saas_def)
  ultimately show ?thesis
    using redeemPromoCode_decision [where c = "at_second 60" and inet_ok = "\<lambda>_. True", OF sample_suspended_good ne
        sample_redeem_at(1) [folded sample_code] sample_redeem_at(2,3,4) TrueI] unfolding if_P [OF cond] by auto
qed

text \<open>The voucher for one teacher, redeemed.\<close>

theorem vouchers_never_overrun_witness:
  "\<exists>r d. redeemPromoCode id (\<lambda>_. True) (at_second 60) (uuid_of CHR ''5'') sample_redeem sample_suspended = Inr (Inr r, d)
     \<and> length (redemptions_of d (pr_id sample_promo)) = 1
     \<and> (\<forall>p \<in> set (sd_promos d). pr_redemption_count p = int (length (redemptions_of d (pr_id p))))
     \<and> uuid_of CHR ''a'' \<in> teachers_with_plan d
     \<and> (\<forall>x \<in> set (sd_subs d). sb_plan_slug x \<in> {js ''mid'', js ''pro''} \<longrightarrow> sb_period_end x \<noteq> None)"
proof -
  obtain r d where run: "redeemPromoCode id (\<lambda>_. True) (at_second 60) (uuid_of CHR ''5'') sample_redeem sample_suspended = Inr (Inr r, d)"
    and one: "map rd_account_id (redemptions_of d (pr_id sample_promo)) = [uuid_of CHR ''a'']"
    using redeemPromoCode_decision_witness by (elim exE conjE) (rule that)
  have step: "(saas_step False id (\<lambda>_. True))\<^sup>*\<^sup>* sample_suspended d" by (intro r_into_rtranclp step_redeem) (rule run)
  have "paid_periods sample_suspended" "uuid_of CHR ''a'' \<in> teachers_with_plan sample_suspended"
    by (simp_all add: paid_periods_def teachers_with_plan_def sample_suspended_def sample_saas_def)
  moreover have "length (redemptions_of d (pr_id sample_promo)) = 1" using arg_cong [OF one, of length] by simp
  ultimately show ?thesis using run vouchers_never_overrun [OF sample_suspended_good step] by blast
qed

lemma short_ipv6_prefix: "truncateIp (Some (js ''2001:db8::1'')) = Some (js ''2001:db8:::/48'')"
proof -
  have units: "js ''2001:db8::1'' = [50, 48, 48, 49, 58, 100, 98, 56, 58, 58, 49]" by (simp add: js_def)
  have "js_trim (js ''2001:db8::1'') = js ''2001:db8::1''"
    unfolding units by (rule js_trim_word) (simp add: js_space_def)
  then show ?thesis
    unfolding truncateIp_def option.case Let_def
    by (simp add: units ipv4_pattern_def) (simp add: js_def)
qed

text \<open>
  A voucher cannot be redeemed from some IPv6 addresses. The first three groups of an address that
  abbreviates there, such as 2001:db8::1, give the text 2001:db8:::/48, which the database does not
  take for an \<open>inet\<close>: a redemption that every rule allows ends in an exception.
\<close>

theorem redeem_fails_on_short_ipv6:
  assumes strict: "\<not> inet_ok (js ''2001:db8:::/48'')"
    and "js_trim (rg_codeRaw args) \<noteq> []" and code: "promo_by_code lower (js_trim (rg_codeRaw args)) d = Some promo"
    and ok: "promo_refusal c args promo d = None" and plan: "plan_exists d (pr_grant_plan_slug promo)"
    and ip: "rg_ip args = Some (js ''2001:db8::1'')"
  shows "redeemPromoCode lower inet_ok c i args d = Inl (PgErr (RaisedException ''22P02''))"
proof -
  let ?f = "granted_sub c promo (new_sub (pg_now c) (rg_accountId args) (pr_grant_plan_slug promo))"
  have prefix: "truncateIp (rg_ip args) = Some (js ''2001:db8:::/48'')"
    unfolding ip by (rule short_ipv6_prefix)
  have "has_account (sd_auth d) (rg_accountId args)"
    using ok by (auto simp: promo_refusal_def Let_def has_account_def split: option.splits if_splits)
  with plan have "\<exists>x. upsert_sub ?f (granted_sub c promo) d = Inr x"
    by (auto simp: upsert_sub_def Let_def split: option.splits)
  then obtain row d1 where up: "upsert_sub ?f (granted_sub c promo) d = Inr (row, d1)" by auto
  have "insert_redemption inet_ok (redemption_of c i args promo) d1 = Inl (PgErr (RaisedException ''22P02''))"
    using strict prefix by (simp add: insert_redemption_def redemption_of_def)
  then show ?thesis using assms(2) code ok up by (simp add: redeemPromoCode_def Let_def)
qed

theorem redeem_fails_on_short_ipv6_witness:
  "redeemPromoCode id (\<lambda>t. t \<noteq> js ''2001:db8:::/48'') (at_second 60) (uuid_of CHR ''5'') sample_redeem sample_suspended
     = Inl (PgErr (RaisedException ''22P02''))"
proof -
  have ok: "promo_refusal (at_second 60) sample_redeem sample_promo sample_suspended = None"
    by (simp add: promo_refusal_def Let_def isActivePaidSubscription_def sample_promo_def sample_suspended_def sample_saas_def
        sample_teacher_account_def sample_redeem_def sub_of_def find_by_def new_sub_def at_second_def js_date_def us_per_ms_def)
  show ?thesis
    by (rule redeem_fails_on_short_ipv6 [OF _ _ sample_redeem_at(1) [folded sample_code] ok sample_redeem_at(3)])
      (simp, simp, simp add: sample_redeem_def)
qed

end
