(* ===== verification/Grant.thy ===== *)
theory Grant
  imports Allocation Promo
begin

text \<open>
  The package a paid order buys: \<open>src/lib/billing/package-grant.ts\<close> with the two lookups of
  \<open>src/lib/billing/packages/catalog.ts\<close> it uses. The orders are the table of \<open>Orders\<close>, purchases and
  allocations are tables of \<open>db\<close>, accounts are those of \<open>Auth\<close>. The advisory lock makes the transaction
  one step. Audit rows and the mail to the operator, whose failures are swallowed, are left out: what they
  report is the answer of the function.
\<close>

section \<open>State\<close>

record package_entry =
  pk_id :: uuid
  pk_slug :: js_text
  pk_title_ru :: js_text
  pk_duration_minutes :: int
  pk_count :: int
  pk_amount_kopecks :: int
  pk_is_active :: bool
  pk_teacher_id :: uuid

record card_row =
  ct_customer_email :: js_text
  ct_token :: js_text
  ct_card_last_four :: "js_text option"
  ct_card_type :: "js_text option"
  ct_card_exp_month :: "js_text option"
  ct_card_exp_year :: "js_text option"
  ct_created_at :: millis
  ct_last_used_at :: millis

record pay_world =
  py_db :: db
  py_saas :: saas_db
  py_packages :: "package_entry list"
  py_cards :: "card_row list"

definition world_accounts :: "pay_world \<Rightarrow> auth_account list" where
  "world_accounts w = ad_accounts (sd_auth (py_saas w))"

text \<open>A key of \<open>order.metadata\<close> that is a string.\<close>

definition meta_text :: "payment_order \<Rightarrow> string \<Rightarrow> js_text option" where
  "meta_text ord k =
     (case od_metadata ord of
        None \<Rightarrow> None
      | Some fs \<Rightarrow> (case map_of fs k of Some (JStr t) \<Rightarrow> Some t | _ \<Rightarrow> None))"

definition getPackageById :: "js_text \<Rightarrow> pay_world \<Rightarrow> exn + package_entry option" where
  "getPackageById i w =
     (case uuid_text i of None \<Rightarrow> Inl (PgErr InvalidUuidText) | Some s \<Rightarrow> Inr (find_by pk_id (pg_uuid s) (py_packages w)))"

definition getPackageBySlug :: "js_text \<Rightarrow> pay_world \<Rightarrow> package_entry option" where
  "getPackageBySlug slug w = find_by pk_slug slug (py_packages w)"

section \<open>The grant\<close>

datatype grant_failure = NoMetadataAccountId | MetadataAccountIdUnknown | NoCustomerEmail | NoAccountMatch
  | MultiAccountMatch | MetadataEmailMismatch | AlreadyOwnsActivePackage

datatype grant_result = Granted uuid | AlreadyGranted | SemanticFailure grant_failure | PackageUnavailable js_text

text \<open>The account the order names and the account of its customer must be one.\<close>

definition customer_accounts :: "js_runtime \<Rightarrow> payment_order \<Rightarrow> pay_world \<Rightarrow> auth_account list" where
  "customer_accounts rt ord w =
     filter (\<lambda>x. aa_email x = normalizeAccountEmail (rt_lower rt) (od_customerEmail ord)) (world_accounts w)"

definition corroborate :: "js_runtime \<Rightarrow> payment_order \<Rightarrow> uuid \<Rightarrow> pay_world \<Rightarrow> grant_failure + uuid" where
  "corroborate rt ord metaId w =
     (if js_trim (od_customerEmail ord) = [] then Inl NoCustomerEmail
      else let rows = customer_accounts rt ord w in
        if length rows = 0 then Inl NoAccountMatch
        else if length rows > 1 then Inl MultiAccountMatch
        else if metaId \<noteq> aa_id (rows ! 0) then Inl MetadataEmailMismatch
        else Inr metaId)"

definition grant_account :: "js_runtime \<Rightarrow> payment_order \<Rightarrow> pay_world \<Rightarrow> exn + (grant_failure + uuid)" where
  "grant_account rt ord w =
     (case meta_text ord ''accountId'' of
        None \<Rightarrow> Inr (Inl NoMetadataAccountId)
      | Some t \<Rightarrow>
          if t = [] then Inr (Inl NoMetadataAccountId)
          else (case uuid_text t of
             None \<Rightarrow> Inl (PgErr InvalidUuidText)
           | Some s \<Rightarrow>
               Inr (if find_by aa_id (pg_uuid s) (world_accounts w) = None then Inl MetadataAccountIdUnknown
                    else corroborate rt ord (pg_uuid s) w)))"

text \<open>By the id first, then by the slug.\<close>

definition find_package :: "js_text option \<Rightarrow> js_text option \<Rightarrow> pay_world \<Rightarrow> exn + package_entry option" where
  "find_package pid slug w =
     bindR (case pid of None \<Rightarrow> Inr None | Some [] \<Rightarrow> Inr None | Some i \<Rightarrow> getPackageById i w)
       (\<lambda>found. Inr (case found of
          Some x \<Rightarrow> Some x
        | None \<Rightarrow> (case slug of None \<Rightarrow> None | Some [] \<Rightarrow> None | Some s \<Rightarrow> getPackageBySlug s w)))"

definition grant_package :: "payment_order \<Rightarrow> pay_world \<Rightarrow> exn + (grant_result + package_entry)" where
  "grant_package ord w =
     (let pid = meta_text ord ''packageId''; slug = meta_text ord ''packageSlug'' in
      if pid = None \<and> slug = None then Inr (Inl (SemanticFailure NoMetadataAccountId))
      else bindR (find_package pid slug w)
        (\<lambda>pkg. Inr (case pkg of
            None \<Rightarrow> Inl (PackageUnavailable (coalesce slug []))
          | Some x \<Rightarrow> if pk_is_active x then Inr x else Inl (PackageUnavailable (coalesce slug [])))))"

definition grant_expiry :: "clock \<Rightarrow> order_table \<Rightarrow> js_text \<Rightarrow> millis" where
  "grant_expiry c t invoiceId =
     (case Option.bind (order_row_by_id t invoiceId) od_paidAt of None \<Rightarrow> js_now c | Some p \<Rightarrow> seconds_of p)
       + 180 * 24 * 60 * 60000"

definition grant_purchase :: "uuid \<Rightarrow> js_text \<Rightarrow> package_entry \<Rightarrow> millis \<Rightarrow> purchase_input" where
  "grant_purchase accountId invoiceId pkg expiresAt =
     \<lparr>pi_accountId = accountId, pi_packageId = pk_id pkg, pi_paymentOrderId = invoiceId,
      pi_amountKopecks = pk_amount_kopecks pkg, pi_titleSnapshot = pk_title_ru pkg,
      pi_durationMinutes = pk_duration_minutes pkg, pi_countInitial = pk_count pkg, pi_expiresAt = expiresAt,
      pi_teacherId = Some (pk_teacher_id pkg)\<rparr>"

text \<open>The transaction: replay, anti-stacking, purchase, allocation.\<close>

definition grant_tx ::
  "clock \<Rightarrow> uuid \<Rightarrow> order_table \<Rightarrow> js_text \<Rightarrow> uuid \<Rightarrow> package_entry \<Rightarrow> millis \<Rightarrow> db \<Rightarrow> grant_result outcome" where
  "grant_tx c newId t invoiceId accountId pkg expiresAt d =
     (if find_by pp_payment_order_id invoiceId (package_purchases d) \<noteq> None then Inr (AlreadyGranted, d)
      else if learnerHasActivePackageOfDuration c accountId (pk_duration_minutes pkg) (Some (pk_teacher_id pkg)) d \<noteq> None
      then Inr (SemanticFailure AlreadyOwnsActivePackage, d)
      else bindR (createPackagePurchase c newId (grant_purchase accountId invoiceId pkg expiresAt) d)
        (\<lambda>(purchase, d1).
          case purchase of
            None \<Rightarrow> Inr (AlreadyGranted, d1)
          | Some p \<Rightarrow>
              bindR (insert_allocation t \<lparr>pa_payment_order_id = invoiceId, pa_kind = ''package'', pa_target_id = pp_id p,
                                          pa_amount_kopecks = pk_amount_kopecks pkg\<rparr> d1)
                (\<lambda>(_, d2). Inr (Granted (pp_id p), d2))))"

definition processPackageGrant ::
  "js_runtime \<Rightarrow> clock \<Rightarrow> uuid \<Rightarrow> order_table \<Rightarrow> js_text \<Rightarrow> pay_world \<Rightarrow> exn + grant_result \<times> pay_world" where
  "processPackageGrant rt c newId t invoiceId w =
     (case getOrder t invoiceId of
        None \<Rightarrow> Inr (SemanticFailure NoMetadataAccountId, w)
      | Some ord \<Rightarrow>
          bindR (grant_account rt ord w) (\<lambda>acc. case acc of
            Inl reason \<Rightarrow> Inr (SemanticFailure reason, w)
          | Inr accountId \<Rightarrow>
              bindR (grant_package ord w) (\<lambda>found. case found of
                Inl result \<Rightarrow> Inr (result, w)
              | Inr pkg \<Rightarrow>
                  bindR (grant_tx c newId t invoiceId accountId pkg (grant_expiry c t invoiceId) (py_db w))
                    (\<lambda>(r, d'). Inr (r, w\<lparr>py_db := d'\<rparr>)))))"

text \<open>The path of the mock provider: a failure is logged.\<close>

definition processPackageGrantInline ::
  "js_runtime \<Rightarrow> clock \<Rightarrow> uuid \<Rightarrow> order_table \<Rightarrow> js_text \<Rightarrow> pay_world \<Rightarrow> pay_world" where
  "processPackageGrantInline rt c newId t invoiceId w =
     (case processPackageGrant rt c newId t invoiceId w of Inl _ \<Rightarrow> w | Inr (_, w') \<Rightarrow> w')"

section \<open>What a grant does\<close>

text \<open>The package an order names, by its id first.\<close>

definition names_package :: "payment_order \<Rightarrow> package_entry \<Rightarrow> bool" where
  "names_package ord pkg \<longleftrightarrow>
     (\<exists>i s. meta_text ord ''packageId'' = Some i \<and> uuid_text i = Some s \<and> pk_id pkg = pg_uuid s)
     \<or> meta_text ord ''packageSlug'' = Some (pk_slug pkg)"

lemma find_package_ok:
  assumes "find_package pid slug w = Inr (Some pkg)"
  shows "pkg \<in> set (py_packages w)"
    and "(\<exists>i s. pid = Some i \<and> uuid_text i = Some s \<and> pk_id pkg = pg_uuid s) \<or> slug = Some (pk_slug pkg)"
proof -
  obtain found where
    f: "(case pid of None \<Rightarrow> Inr None | Some [] \<Rightarrow> Inr None | Some i \<Rightarrow> getPackageById i w) = Inr found"
    and p: "(case found of Some x \<Rightarrow> Some x
             | None \<Rightarrow> (case slug of None \<Rightarrow> None | Some [] \<Rightarrow> None | Some s \<Rightarrow> getPackageBySlug s w)) = Some pkg"
    using assms unfolding find_package_def bindR_eq_Inr_iff sum.inject by blast
  have "pkg \<in> set (py_packages w) \<and> ((\<exists>i s. pid = Some i \<and> uuid_text i = Some s \<and> pk_id pkg = pg_uuid s) \<or> slug = Some (pk_slug pkg))"
  proof (cases found)
    case None
    with p have "find_by pk_slug (the slug) (py_packages w) = Some pkg \<and> slug = Some (the slug)"
      by (cases slug) (simp_all add: getPackageBySlug_def split: list.splits)
    then show ?thesis by (auto dest!: find_by_SomeD)
  next
    case (Some x)
    with p have "x = pkg" by simp
    with f Some have "getPackageById (the pid) w = Inr (Some pkg) \<and> pid = Some (the pid)"
      by (cases pid) (simp_all split: list.splits)
    then show ?thesis by (auto simp: getPackageById_def dest!: find_by_SomeD split: option.splits)
  qed
  then show "pkg \<in> set (py_packages w)"
    and "(\<exists>i s. pid = Some i \<and> uuid_text i = Some s \<and> pk_id pkg = pg_uuid s) \<or> slug = Some (pk_slug pkg)" by auto
qed

lemma grant_package_ok:
  assumes "grant_package ord w = Inr (Inr pkg)"
  shows "pkg \<in> set (py_packages w) \<and> pk_is_active pkg \<and> names_package ord pkg"
proof -
  from assms have "find_package (meta_text ord ''packageId'') (meta_text ord ''packageSlug'') w = Inr (Some pkg) \<and> pk_is_active pkg"
    by (auto simp: grant_package_def Let_def bindR_eq_Inr_iff split: if_splits option.splits)
  then show ?thesis using find_package_ok unfolding names_package_def by blast
qed

lemma grant_account_ok:
  assumes "grant_account rt ord w = Inr (Inr i)"
  shows "\<exists>m s a. meta_text ord ''accountId'' = Some m \<and> uuid_text m = Some s \<and> i = pg_uuid s
     \<and> a \<in> set (world_accounts w) \<and> aa_id a = i
     \<and> aa_email a = normalizeAccountEmail (rt_lower rt) (od_customerEmail ord)"
proof -
  from assms obtain m s where ms: "meta_text ord ''accountId'' = Some m" "uuid_text m = Some s"
      and c: "corroborate rt ord (pg_uuid s) w = Inr i"
    by (auto simp: grant_account_def split: option.splits if_splits)
  let ?rows = "customer_accounts rt ord w"
  from c have i: "i = pg_uuid s" and "length ?rows \<noteq> 0" and id: "aa_id (?rows ! 0) = i"
    by (auto simp: corroborate_def Let_def split: if_splits)
  then have "?rows ! 0 \<in> set ?rows" by (intro nth_mem) simp
  then have "?rows ! 0 \<in> set (world_accounts w)"
      "aa_email (?rows ! 0) = normalizeAccountEmail (rt_lower rt) (od_customerEmail ord)"
    by (simp_all add: customer_accounts_def)
  with ms i id show ?thesis by blast
qed

lemma grant_txE:
  assumes "grant_tx c i t invoice acc pkg e d = Inr (r, d')"
  obtains (kept) "d' = d" "\<And>p. r \<noteq> Granted p"
      "find_by pp_payment_order_id invoice (package_purchases d) \<noteq> None \<Longrightarrow> r = AlreadyGranted"
  | (granted) row a where "r = Granted i" and "find_by pp_payment_order_id invoice (package_purchases d) = None"
      and "learnerHasActivePackageOfDuration c acc (pk_duration_minutes pkg) (Some (pk_teacher_id pkg)) d = None"
      and "createPackagePurchase c i (grant_purchase acc invoice pkg e) d
             = Inr (Some row, d\<lparr>package_purchases := package_purchases d @ [row]\<rparr>)"
      and "pp_id row = i" and "pp_account_id row = acc" and "pp_payment_order_id row = invoice"
      and "pp_package_id row = pk_id pkg" and "pp_amount_kopecks row = pk_amount_kopecks pkg"
      and "pp_duration_minutes row = pk_duration_minutes pkg" and "pp_count_initial row = pk_count pkg"
      and "pp_expires_at row = e * us_per_ms" and "pp_voided_at row = None"
      and "a = \<lparr>pa_payment_order_id = invoice, pa_kind = ''package'', pa_target_id = i, pa_amount_kopecks = pk_amount_kopecks pkg\<rparr>"
      and "\<exists>b. insert_allocation t a (d\<lparr>package_purchases := package_purchases d @ [row]\<rparr>) = Inr (b, d')"
proof (cases "find_by pp_payment_order_id invoice (package_purchases d)
      = None \<and> learnerHasActivePackageOfDuration c acc (pk_duration_minutes pkg) (Some (pk_teacher_id pkg)) d = None")
  case False
  then show thesis using assms kept by (auto simp: grant_tx_def split: if_splits)
next
  case True
  let ?in = "grant_purchase acc invoice pkg e"
  from True assms obtain purchase d1 where mk: "createPackagePurchase c i ?in d = Inr (purchase, d1)"
    and rest: "(case purchase of None \<Rightarrow> Inr (AlreadyGranted, d1)
          | Some p \<Rightarrow> bindR (insert_allocation t \<lparr>pa_payment_order_id = invoice, pa_kind = ''package'', pa_target_id = pp_id p,
                                          pa_amount_kopecks = pk_amount_kopecks pkg\<rparr> d1)
                (\<lambda>(_, d2). Inr (Granted (pp_id p), d2))) = Inr (r, d')"
    by (auto simp: grant_tx_def elim!: bindR_InrE)
  have "purchase \<noteq> None" using mk True by (auto simp: createPackagePurchase_def Let_def grant_purchase_def split: if_splits)
  then obtain row where row: "purchase = Some row" by blast
  have fields: "d1 = d\<lparr>package_purchases := package_purchases d @ [row]\<rparr>" "pp_id row = i" "pp_account_id row = acc"
    "pp_payment_order_id row = invoice" "pp_package_id row = pk_id pkg" "pp_amount_kopecks row = pk_amount_kopecks pkg"
    "pp_duration_minutes row = pk_duration_minutes pkg" "pp_count_initial row = pk_count pkg"
    "pp_expires_at row = e * us_per_ms" "pp_voided_at row = None"
    using mk unfolding row by (auto simp: createPackagePurchase_def Let_def grant_purchase_def split: if_splits)
  from rest row fields obtain b where ins: "insert_allocation t \<lparr>pa_payment_order_id = invoice, pa_kind = ''package'', pa_target_id = i,
      pa_amount_kopecks = pk_amount_kopecks pkg\<rparr> d1 = Inr (b, d')" and "r = Granted i"
    by (auto elim!: bindR_InrE)
  show thesis
  proof (rule granted [OF \<open>r = Granted i\<close> _ _ _ fields(2-10) refl])
    show "createPackagePurchase c i ?in d = Inr (Some row, d\<lparr>package_purchases := package_purchases d @ [row]\<rparr>)"
      using mk row fields(1) by simp
    show "\<exists>b. insert_allocation t \<lparr>pa_payment_order_id = invoice, pa_kind = ''package'', pa_target_id = i,
        pa_amount_kopecks = pk_amount_kopecks pkg\<rparr> (d\<lparr>package_purchases := package_purchases d @ [row]\<rparr>) = Inr (b, d')"
      using ins fields(1) by blast
  qed (use True in blast)+
qed

lemma processPackageGrantE:
  assumes "processPackageGrant rt c i t invoice w = Inr (r, w')"
  obtains (kept) "w' = w" "\<And>p. r \<noteq> Granted p" "r \<noteq> AlreadyGranted"
  | (tx) ord acc pkg d' where "getOrder t invoice = Some ord" and "grant_account rt ord w = Inr (Inr acc)"
      and "grant_package ord w = Inr (Inr pkg)"
      and "grant_tx c i t invoice acc pkg (grant_expiry c t invoice) (py_db w) = Inr (r, d')" and "w' = w\<lparr>py_db := d'\<rparr>"
proof (cases "getOrder t invoice")
  case None
  then show thesis using assms kept by (auto simp: processPackageGrant_def)
next
  case (Some ord)
  with assms obtain acc where acc: "grant_account rt ord w = Inr acc"
    by (auto simp: processPackageGrant_def elim!: bindR_InrE)
  show thesis
  proof (cases acc)
    case (Inl reason)
    then show thesis using assms Some acc kept by (auto simp: processPackageGrant_def)
  next
    case (Inr a)
    with assms Some acc obtain found where found: "grant_package ord w = Inr found"
      by (auto simp: processPackageGrant_def elim!: bindR_InrE)
    show thesis
    proof (cases found)
      case (Inl result)
      have "result \<noteq> Granted p \<and> result \<noteq> AlreadyGranted" for p
        using found Inl by (auto simp: grant_package_def Let_def bindR_eq_Inr_iff split: if_splits option.splits)
      then show thesis using assms Some acc Inr found Inl kept by (auto simp: processPackageGrant_def)
    next
      case (Inr pkg)
      then show thesis
        using assms Some acc \<open>acc = Inr a\<close> found tx by (auto simp: processPackageGrant_def elim!: bindR_InrE)
    qed
  qed
qed

text \<open>
  C9: who gets what. A package is granted only for an order whose metadata names an account that has
  the e-mail of the customer, on a package that the order names and that is for sale; the purchase
  is on that account with the price, length, number of lessons of the package and 180 days from the payment;
  the order had no purchase before and the account no live package of that length with that teacher;
  one purchase and its allocation are written and nothing else. Any other answer writes nothing.
\<close>

theorem grant_goes_to_the_payer:
  assumes "processPackageGrant rt c i t invoice w = Inr (r, w')"
  shows "case r of
      Granted p \<Rightarrow> (\<exists>ord m s a pkg row x. getOrder t invoice = Some ord
        \<and> meta_text ord ''accountId'' = Some m \<and> uuid_text m = Some s \<and> aa_id a = pg_uuid s
        \<and> a \<in> set (world_accounts w) \<and> aa_email a = normalizeAccountEmail (rt_lower rt) (od_customerEmail ord)
        \<and> pkg \<in> set (py_packages w) \<and> pk_is_active pkg \<and> names_package ord pkg
        \<and> find_by pp_payment_order_id invoice (package_purchases (py_db w)) = None
        \<and> learnerHasActivePackageOfDuration c (aa_id a) (pk_duration_minutes pkg) (Some (pk_teacher_id pkg)) (py_db w) = None
        \<and> pp_id row = p \<and> pp_account_id row = aa_id a \<and> pp_payment_order_id row = invoice
        \<and> pp_amount_kopecks row = pk_amount_kopecks pkg \<and> pp_duration_minutes row = pk_duration_minutes pkg
        \<and> pp_count_initial row = pk_count pkg \<and> pp_expires_at row = grant_expiry c t invoice * us_per_ms
        \<and> pa_payment_order_id x = invoice \<and> pa_target_id x = p \<and> pa_kind x = ''package''
        \<and> w' = w\<lparr>py_db := (py_db w)\<lparr>package_purchases := package_purchases (py_db w) @ [row],
             payment_allocations := payment_allocations (py_db w)
               @ (if find_by allocation_key (invoice, ''package'', p) (payment_allocations (py_db w)) = None then [x] else [])\<rparr>\<rparr>)
    | _ \<Rightarrow> w' = w"
  using assms
proof (cases rule: processPackageGrantE)
  case kept
  show ?thesis
  proof (cases r)
    case (Granted q)
    then show ?thesis using kept(2) [of q] by (rule notE [rotated])
  qed (use kept(1) in simp_all)
next
  case (tx ord acc pkg d')
  from tx(4) show ?thesis
  proof (cases rule: grant_txE)
    case kept
    show ?thesis
    proof (cases r)
      case (Granted q)
      then show ?thesis using kept(2) [of q] by (rule notE [rotated])
    qed (use kept(1) tx(5) in simp_all)
  next
    case (granted row a)
    from granted(15) obtain b where ins: "insert_allocation t a ((py_db w)\<lparr>package_purchases := package_purchases (py_db w) @ [row]\<rparr>) = Inr (b, d')"
      by blast
    have "b \<longleftrightarrow> find_by allocation_key (invoice, ''package'', i) (payment_allocations (py_db w)) = None"
      using ins by (auto simp: insert_allocation_def granted(14) allocation_key_def split: if_splits)
    then have d': "d' = (py_db w)\<lparr>package_purchases := package_purchases (py_db w) @ [row], payment_allocations :=
        payment_allocations (py_db w) @ (if find_by allocation_key (invoice, ''package'', i) (payment_allocations (py_db w)) = None then [a] else [])\<rparr>"
      using insert_allocation_cases [OF ins] by auto
    obtain m s x where acc: "meta_text ord ''accountId'' = Some m" "uuid_text m = Some s" "acc = pg_uuid s"
        "x \<in> set (world_accounts w)" "aa_id x = acc" "aa_email x = normalizeAccountEmail (rt_lower rt) (od_customerEmail ord)"
      using grant_account_ok [OF tx(2)] by blast
    note pkg = grant_package_ok [OF tx(3)]
    show ?thesis
      unfolding granted(1) grant_result.case
      using tx(1,5) acc pkg granted(2,3,5-14) d'
      by (intro exI [of _ ord] exI [of _ m] exI [of _ s] exI [of _ x] exI [of _ pkg] exI [of _ row] exI [of _ a]) simp
  qed
qed

text \<open>An order of the teacher's account for a package that a teacher sells.\<close>

definition sample_package :: package_entry where
  "sample_package =
     \<lparr>pk_id = uuid_of CHR ''5'', pk_slug = js ''five'', pk_title_ru = js ''Five'', pk_duration_minutes = 60, pk_count = 5,
      pk_amount_kopecks = 150000, pk_is_active = True, pk_teacher_id = uuid_of CHR ''c''\<rparr>"

definition sample_package_orders :: order_table where
  "sample_package_orders =
     [sample_order\<lparr>od_status := StPaid, od_paidAt := Some 1600, od_customerEmail := js ''t@x.ru'',
        od_metadata := Some [(''accountId'', JStr (js (uuid_of CHR ''a''))), (''packageSlug'', JStr (js ''five''))]\<rparr>]"

definition sample_pay_world :: pay_world where
  "sample_pay_world = \<lparr>py_db = empty_db, py_saas = sample_saas, py_packages = [sample_package], py_cards = []\<rparr>"

lemma some_teacher: "(case uuid_of CHR ''c'' of [] \<Rightarrow> x | t # ts \<Rightarrow> Some (t # ts)) = Some (uuid_of CHR ''c'')"
  by (simp add: uuid_of_def replicate_8)

lemma sample_order_resolves:
  assumes "py_saas w = sample_saas" and "py_packages w = [sample_package\<lparr>pk_is_active := b\<rparr>]"
  obtains ord where "getOrder sample_package_orders (js ''lc_1'') = Some ord"
    and "grant_account sample_runtime ord w = Inr (Inr (uuid_of CHR ''a''))"
    and "grant_package ord w = Inr (if b then Inr (sample_package\<lparr>pk_is_active := b\<rparr>) else Inl (PackageUnavailable (js ''five'')))"
proof -
  let ?ord = "mapRowToOrder (hd sample_package_orders)"
  have got: "getOrder sample_package_orders (js ''lc_1'') = Some ?ord"
    by (simp add: getOrder_def order_row_by_id_def find_by_def sample_package_orders_def sample_order_def)
  have meta: "meta_text ?ord ''accountId'' = Some (js (uuid_of CHR ''a''))" "meta_text ?ord ''packageSlug'' = Some (js ''five'')"
      "meta_text ?ord ''packageId'' = None" and mail: "od_customerEmail ?ord = js ''t@x.ru''"
    by (simp_all add: meta_text_def sample_package_orders_def sample_order_def mapRowToOrder_def)
  have trim: "js_trim (js ''t@x.ru'') = js ''t@x.ru''" by (rule js_trim_word) (simp add: js_def js_space_def)
  have id: "uuid_text (js (uuid_of CHR ''a'')) = Some (uuid_of CHR ''a'')"
  proof (rule uuid_text_js)
    show "uuid_pattern (uuid_of CHR ''a'')" by (simp add: hex_digit_def)
  qed (simp add: uuid_of_def replicate_8 replicate_4 replicate_12)
  have acc: "grant_account sample_runtime ?ord w = Inr (Inr (uuid_of CHR ''a''))"
    using meta(1) mail trim id assms(1)
    by (simp add: grant_account_def corroborate_def customer_accounts_def world_accounts_def sample_saas_def
        sample_teacher_account_def find_by_def normalizeAccountEmail_def sample_runtime_def lower_hex_def)
  have "grant_package ?ord w = Inr (if b then Inr (sample_package\<lparr>pk_is_active := b\<rparr>) else Inl (PackageUnavailable (js ''five'')))"
    using meta(2,3) assms(2) by (simp add: grant_package_def find_package_def getPackageBySlug_def find_by_def
        sample_package_def bindR_def js_def)
  from that [OF got acc this] show thesis .
qed

lemma sample_granted:
  "\<exists>w'. processPackageGrant sample_runtime (at_second 60) (uuid_of CHR ''9'') sample_package_orders (js ''lc_1'') sample_pay_world
     = Inr (Granted (uuid_of CHR ''9''), w')"
proof -
  have "py_saas sample_pay_world = sample_saas" "py_packages sample_pay_world = [sample_package\<lparr>pk_is_active := True\<rparr>]"
    by (simp_all add: sample_pay_world_def sample_package_def)
  then obtain ord where ord: "getOrder sample_package_orders (js ''lc_1'') = Some ord"
      "grant_account sample_runtime ord sample_pay_world = Inr (Inr (uuid_of CHR ''a''))"
      "grant_package ord sample_pay_world = Inr (Inr sample_package)"
    by (rule sample_order_resolves) (simp add: sample_package_def)
  have "\<exists>d'. grant_tx (at_second 60) (uuid_of CHR ''9'') sample_package_orders (js ''lc_1'') (uuid_of CHR ''a'') sample_package
      (grant_expiry (at_second 60) sample_package_orders (js ''lc_1'')) empty_db = Inr (Granted (uuid_of CHR ''9''), d')"
    by (simp add: grant_tx_def learnerHasActivePackageOfDuration_def createPackagePurchase_def grant_purchase_def Let_def
        purchase_check_def purchase_by_id_def find_by_def empty_db_def sample_package_def grant_expiry_def order_row_by_id_def
        sample_package_orders_def sample_order_def insert_allocation_def at_second_def seconds_of_def some_teacher)
  then show ?thesis using ord by (auto simp: processPackageGrant_def sample_pay_world_def)
qed

theorem grant_goes_to_the_payer_witness:
  "\<exists>w' row. processPackageGrant sample_runtime (at_second 60) (uuid_of CHR ''9'') sample_package_orders (js ''lc_1'') sample_pay_world
       = Inr (Granted (uuid_of CHR ''9''), w')
     \<and> package_purchases (py_db w') = [row] \<and> pp_amount_kopecks row = 150000 \<and> pp_count_initial row = 5"
proof -
  obtain w' where run: "processPackageGrant sample_runtime (at_second 60) (uuid_of CHR ''9'') sample_package_orders (js ''lc_1'')
      sample_pay_world = Inr (Granted (uuid_of CHR ''9''), w')" using sample_granted by blast
  from grant_goes_to_the_payer [OF run] obtain pkg row where "pkg \<in> set (py_packages sample_pay_world)"
      "pp_amount_kopecks row = pk_amount_kopecks pkg" "pp_count_initial row = pk_count pkg"
      "package_purchases (py_db w') = package_purchases (py_db sample_pay_world) @ [row]" by auto
  with run show ?thesis by (auto simp: sample_pay_world_def empty_db_def sample_package_def)
qed

section \<open>Once per order\<close>

lemma processPackageGrant_frame: "processPackageGrant rt c i t invoice w = Inr (r, w') \<Longrightarrow> \<exists>d'. w' = w\<lparr>py_db := d'\<rparr>"
  by (cases rule: processPackageGrantE) (assumption, (rule exI [of _ "py_db w"], simp), blast)

lemma granted_row:
  assumes "processPackageGrant rt c i t invoice w = Inr (Granted p, w1)"
  obtains row where "pp_payment_order_id row = invoice" and "find_by pp_payment_order_id invoice (package_purchases (py_db w)) = None"
    and "package_purchases (py_db w1) = package_purchases (py_db w) @ [row]"
  using assms
proof (cases rule: processPackageGrantE)
  case (tx ord acc pkg d')
  from tx(4) show thesis
  proof (cases rule: grant_txE)
    case (granted row a)
    from granted(15) obtain b where "insert_allocation t a ((py_db w)\<lparr>package_purchases := package_purchases (py_db w) @ [row]\<rparr>) = Inr (b, d')"
      by blast
    from insert_allocation_cases [OF this] tx(5) show thesis
      by (intro that [of row] granted(2,7)) (cases b; simp)
  qed blast
qed blast

lemma bought_order_again:
  assumes "find_by pp_payment_order_id invoice (package_purchases (py_db w)) \<noteq> None"
    and "getOrder t invoice = Some ord" "grant_account rt ord w = Inr (Inr acc)" "grant_package ord w = Inr (Inr pkg)"
  shows "processPackageGrant rt c i t invoice w = Inr (AlreadyGranted, w)"
  using assms by (simp add: processPackageGrant_def grant_tx_def)

text \<open>
  An order buys one package. After the grant the order has exactly one purchase; in every later state
  in which no purchase has been deleted, another grant for the order writes nothing and never answers granted. It
  answers already granted exactly when the order, its account and its package still resolve: the replay
  is looked for last, so an order whose package was archived after the purchase is reported as not granted.
\<close>

theorem package_granted_once:
  assumes first: "processPackageGrant rt c i t invoice w = Inr (Granted p, w1)"
    and kept: "set (map pp_payment_order_id (package_purchases (py_db w1))) \<subseteq> set (map pp_payment_order_id (package_purchases (py_db w2)))"
    and again: "processPackageGrant rt c' i' t' invoice w2 = Inr (r, w3)"
  shows "length (filter (\<lambda>row. pp_payment_order_id row = invoice) (package_purchases (py_db w1))) = 1
     \<and> w3 = w2 \<and> (\<forall>q. r \<noteq> Granted q)
     \<and> (r = AlreadyGranted \<longleftrightarrow> (\<exists>ord acc pkg. getOrder t' invoice = Some ord \<and> grant_account rt ord w2 = Inr (Inr acc)
            \<and> grant_package ord w2 = Inr (Inr pkg)))"
proof -
  from granted_row [OF first] obtain row where row: "pp_payment_order_id row = invoice"
      and new: "find_by pp_payment_order_id invoice (package_purchases (py_db w)) = None"
      and rows: "package_purchases (py_db w1) = package_purchases (py_db w) @ [row]" .
  have one: "length (filter (\<lambda>row. pp_payment_order_id row = invoice) (package_purchases (py_db w1))) = 1"
    using row new by (auto simp: rows find_by_None_iff filter_empty_conv image_iff)
  have has: "find_by pp_payment_order_id invoice (package_purchases (py_db w2)) \<noteq> None"
    using kept row by (auto simp: rows find_by_None_iff)
  then have tx: "grant_tx c' i' t' invoice acc pkg e (py_db w2) = Inr (AlreadyGranted, py_db w2)" for acc pkg e
    by (simp add: grant_tx_def)
  have "w3 = w2 \<and> (\<forall>q. r \<noteq> Granted q)"
    using again by (cases rule: processPackageGrantE) (auto simp: tx)
  moreover have "r = AlreadyGranted \<longleftrightarrow> (\<exists>ord acc pkg. getOrder t' invoice = Some ord \<and> grant_account rt ord w2 = Inr (Inr acc)
      \<and> grant_package ord w2 = Inr (Inr pkg))"
  proof
    assume r: "r = AlreadyGranted"
    from again show "\<exists>ord acc pkg. getOrder t' invoice = Some ord \<and> grant_account rt ord w2 = Inr (Inr acc) \<and> grant_package ord w2 = Inr (Inr pkg)"
      by (cases rule: processPackageGrantE) (use r in blast)+
  next
    assume "\<exists>ord acc pkg. getOrder t' invoice = Some ord \<and> grant_account rt ord w2 = Inr (Inr acc) \<and> grant_package ord w2 = Inr (Inr pkg)"
    then show "r = AlreadyGranted" using again by (auto simp: processPackageGrant_def tx)
  qed
  ultimately show ?thesis using one by blast
qed

theorem package_granted_once_witness:
  "\<exists>w1. processPackageGrant sample_runtime (at_second 60) (uuid_of CHR ''9'') sample_package_orders (js ''lc_1'') sample_pay_world
       = Inr (Granted (uuid_of CHR ''9''), w1)
     \<and> processPackageGrant sample_runtime (at_second 90) (uuid_of CHR ''8'') sample_package_orders (js ''lc_1'') w1 = Inr (AlreadyGranted, w1)
     \<and> processPackageGrant sample_runtime (at_second 90) (uuid_of CHR ''8'') sample_package_orders (js ''lc_1'')
         (w1\<lparr>py_packages := [sample_package\<lparr>pk_is_active := False\<rparr>]\<rparr>)
       = Inr (PackageUnavailable (js ''five''), w1\<lparr>py_packages := [sample_package\<lparr>pk_is_active := False\<rparr>]\<rparr>)"
proof -
  obtain w1 where one: "processPackageGrant sample_runtime (at_second 60) (uuid_of CHR ''9'') sample_package_orders (js ''lc_1'')
      sample_pay_world = Inr (Granted (uuid_of CHR ''9''), w1)" using sample_granted by blast
  from processPackageGrant_frame [OF one] have same: "py_saas w1 = sample_saas" "py_packages w1 = [sample_package]"
    by (auto simp: sample_pay_world_def)
  let ?w2 = "w1\<lparr>py_packages := [sample_package\<lparr>pk_is_active := False\<rparr>]\<rparr>"
  let ?run = "processPackageGrant sample_runtime (at_second 90) (uuid_of CHR ''8'') sample_package_orders (js ''lc_1'')"
  have "py_packages w1 = [sample_package\<lparr>pk_is_active := True\<rparr>]" using same(2) by (simp add: sample_package_def)
  with same(1) obtain ord where ord: "getOrder sample_package_orders (js ''lc_1'') = Some ord"
      "grant_account sample_runtime ord w1 = Inr (Inr (uuid_of CHR ''a''))" "\<exists>pkg. grant_package ord w1 = Inr (Inr pkg)"
    by (rule sample_order_resolves) auto
  obtain row where "pp_payment_order_id row = js ''lc_1''"
      "package_purchases (py_db w1) = package_purchases (py_db sample_pay_world) @ [row]"
    by (rule granted_row [OF one])
  then have bought: "find_by pp_payment_order_id (js ''lc_1'') (package_purchases (py_db w1)) \<noteq> None"
    by (auto simp: find_by_None_iff)
  from ord(3) obtain pkg where pkg: "grant_package ord w1 = Inr (Inr pkg)" by blast
  note again = bought_order_again [OF bought ord(1,2) pkg]
  from package_granted_once [OF one subset_refl again] again have "?run w1 = Inr (AlreadyGranted, w1)" by blast
  moreover have "?run ?w2 = Inr (PackageUnavailable (js ''five''), ?w2)"
  proof -
    obtain ord where "getOrder sample_package_orders (js ''lc_1'') = Some ord"
        "grant_account sample_runtime ord ?w2 = Inr (Inr (uuid_of CHR ''a''))"
        "grant_package ord ?w2 = Inr (Inl (PackageUnavailable (js ''five'')))"
      by (rule sample_order_resolves [of ?w2 False]) (simp_all add: same)
    then show ?thesis by (simp add: processPackageGrant_def)
  qed
  ultimately show ?thesis using one by blast
qed

end
