(* ===== verification/Replay.thy ===== *)
theory Replay
  imports Database Steps
begin

text \<open>
  Answers that are given once and repeated: the interface \<open>response_cache\<close> of a table in which the
  first answer to a key stays, and the idempotent requests of \<open>src/lib/security/idempotency.ts\<close> with
  their table (\<open>src/lib/security/idempotency-postgres.ts\<close>). The hash is an argument. Nothing is reserved
  between the lookup of a key and the save of its answer, so what comes between them is one argument:
  the code that the request runs, which answers or throws, together with all that other requests and
  the purge do to the table and the world in the meantime.
\<close>

section \<open>The interface\<close>

locale response_cache =
  fixes key_of :: "'v \<Rightarrow> 'k" and lookup :: "'s \<Rightarrow> 'k \<Rightarrow> 'v option" and store :: "'v \<Rightarrow> 's \<Rightarrow> 's"
  assumes lookup_same:
      "lookup (store v s) (key_of v) = (case lookup s (key_of v) of None \<Rightarrow> Some v | Some w \<Rightarrow> Some w)"
    and lookup_other: "k \<noteq> key_of v \<Longrightarrow> lookup (store v s) k = lookup s k"
begin

lemma lookup_store:
  "lookup (store v s) k = (if k = key_of v \<and> lookup s k = None then Some v else lookup s k)"
  by (cases "k = key_of v") (auto simp: lookup_same lookup_other split: option.split)

lemma first_stays: "lookup s k = Some v \<Longrightarrow> lookup (store v' s) k = Some v"
  unfolding lookup_store by simp

lemma lookup_fold:
  "lookup (fold store vs s) k = (case lookup s k of Some v \<Rightarrow> Some v | None \<Rightarrow> find (\<lambda>v. key_of v = k) vs)"
  by (induction vs arbitrary: s) (auto simp: lookup_store split: option.split)

end

section \<open>The table of idempotent requests\<close>

record 'j idem_outcome =
  io_status :: int
  io_body :: 'j

record 'j idem_record =
  ir_scope :: string
  ir_key :: string
  ir_request_hash :: string
  ir_response :: "'j idem_outcome"
  ir_created_at :: micros

type_synonym 'j idem_table = "'j idem_record list"

definition idem_key :: "'j idem_record \<Rightarrow> string \<times> string" where
  "idem_key r = (ir_scope r, ir_key r)"

definition getIdempotencyRecord :: "'j idem_table \<Rightarrow> string \<times> string \<Rightarrow> 'j idem_record option" where
  "getIdempotencyRecord t k = find_by idem_key k t"

definition saveIdempotencyRecord :: "'j idem_record \<Rightarrow> 'j idem_table \<Rightarrow> 'j idem_table" where
  "saveIdempotencyRecord r t = (if find_by idem_key (idem_key r) t \<noteq> None then t else t @ [r])"

definition purgeStaleIdempotencyRecords :: "micros \<Rightarrow> int \<Rightarrow> 'j idem_table \<Rightarrow> 'j idem_table" where
  "purgeStaleIdempotencyRecords now maxAgeHours t =
     filter (\<lambda>r. \<not> ir_created_at r < now - maxAgeHours * us_per_hour) t"

section \<open>A request\<close>

text \<open>\<open>IDEMPOTENCY_KEY_PATTERN\<close>: 8 to 128 letters, digits, underscores and hyphens.\<close>

definition key_char :: "char \<Rightarrow> bool" where
  "key_char c \<longleftrightarrow> c \<in> set ''abcdefghijklmnopqrstuvwxyzABCDEFGHIJKLMNOPQRSTUVWXYZ0123456789_-''"

definition idempotency_key_pattern :: "string \<Rightarrow> bool" where
  "idempotency_key_pattern s \<longleftrightarrow> 8 \<le> length s \<and> length s \<le> 128 \<and> list_all key_char s"

text \<open>
  The answers: the outcome of the executor, fresh or replayed; 400 for a malformed key, 409 for a
  key that came with another body.
\<close>

datatype 'j idem_answer =
  Answered "'j idem_outcome" bool
| InvalidKey
| KeyReused

text \<open>
  \<open>postgres\<close> is the storage backend; \<open>saved\<close> says whether the insert of the record succeeds, whose
  failure is caught.
\<close>

record idem_request =
  rq_key :: "string option"
  rq_scope :: string
  rq_body :: js_text
  rq_saved :: bool
  rq_now :: micros

type_synonym ('j, 'w) executor = "'j idem_table \<times> 'w \<Rightarrow> (exn + 'j idem_outcome) \<times> 'j idem_table \<times> 'w"

definition run_executor ::
  "('j, 'w) executor \<Rightarrow> 'j idem_table \<times> 'w \<Rightarrow> (exn + 'j idem_answer) \<times> 'j idem_table \<times> 'w" where
  "run_executor executor s =
     (case executor s of
        (Inl e, s') \<Rightarrow> (Inl e, s')
      | (Inr out, s') \<Rightarrow> (Inr (Answered out False), s'))"

definition withIdempotency ::
  "(js_text \<Rightarrow> string) \<Rightarrow> bool \<Rightarrow> idem_request \<Rightarrow> ('j, 'w) executor \<Rightarrow> 'j idem_table \<times> 'w
     \<Rightarrow> (exn + 'j idem_answer) \<times> 'j idem_table \<times> 'w" where
  "withIdempotency sha256Hex postgres r executor s =
     (case rq_key r of
        None \<Rightarrow> run_executor executor s
      | Some key \<Rightarrow>
          if key = '''' then run_executor executor s
          else if \<not> idempotency_key_pattern key then (Inr InvalidKey, s)
          else if \<not> postgres then run_executor executor s
          else
            let requestHash = sha256Hex (rq_body r) in
            case getIdempotencyRecord (fst s) (rq_scope r, key) of
              Some existing \<Rightarrow>
                if ir_request_hash existing \<noteq> requestHash then (Inr KeyReused, s)
                else (Inr (Answered (ir_response existing) True), s)
            | None \<Rightarrow>
                (case executor s of
                   (Inl e, s') \<Rightarrow> (Inl e, s')
                 | (Inr out, (t, w)) \<Rightarrow>
                     (Inr (Answered out False),
                      if io_status out < 500 \<and> rq_saved r
                      then saveIdempotencyRecord
                             \<lparr>ir_scope = rq_scope r, ir_key = key, ir_request_hash = requestHash,
                              ir_response = out, ir_created_at = rq_now r\<rparr> t
                      else t, w)))"

text \<open>What a request runs when nobody else comes between its lookup and its save.\<close>

definition undisturbed :: "('w \<Rightarrow> (exn + 'j idem_outcome) \<times> 'w) \<Rightarrow> ('j, 'w) executor" where
  "undisturbed run s = (fst (run (snd s)), fst s, snd (run (snd s)))"

section \<open>The table is a cache\<close>

interpretation idem: response_cache idem_key getIdempotencyRecord saveIdempotencyRecord
  by unfold_locales (auto simp: getIdempotencyRecord_def saveIdempotencyRecord_def find_by_append find_by_single
      split: option.split)

lemma purge_keeps:
  assumes "getIdempotencyRecord t k = Some r" and "now - hours * us_per_hour \<le> ir_created_at r"
  shows "getIdempotencyRecord (purgeStaleIdempotencyRecords now hours t) k = Some r"
  using assms by (induction t) (auto simp: getIdempotencyRecord_def purgeStaleIdempotencyRecords_def find_by_def split: if_splits)

text \<open>
  What happens to the pair of table and world, statement by statement: the save of a record, the purge of records older
  than a day by an instant, and any change of the world. A request is a run of these when what comes between its lookup
  and its save is one.
\<close>

inductive idem_step :: "micros \<Rightarrow> 'j idem_table \<times> 'w \<Rightarrow> 'j idem_table \<times> 'w \<Rightarrow> bool" for horizon where
  step_save: "idem_step horizon (t, w) (saveIdempotencyRecord x t, w)"
| step_purge: "now \<le> horizon \<Longrightarrow> idem_step horizon (t, w) (purgeStaleIdempotencyRecords now 24 t, w)"
| step_world: "idem_step horizon (t, w) (t, w')"

inductive_cases idem_stepE: "idem_step horizon s s'"

lemma request_is_a_run:
  assumes between: "\<And>s. (idem_step horizon)\<^sup>*\<^sup>* s (snd (executor s))"
  shows "(idem_step horizon)\<^sup>*\<^sup>* s (snd (withIdempotency sha postgres r executor s))"
proof -
  obtain res t w where run: "executor s = (res, t, w)" by (metis prod.exhaust)
  have "(idem_step horizon)\<^sup>*\<^sup>* s (t, w)" using between [of s] run by simp
  moreover from this have "(idem_step horizon)\<^sup>*\<^sup>* s (saveIdempotencyRecord x t, w)" for x
    using idem_step.step_save [of horizon t w x] by (rule rtranclp.rtrancl_into_rtrancl)
  ultimately show ?thesis
    by (auto simp: withIdempotency_def run_executor_def run Let_def split: option.split sum.split)
qed

definition keeps_record :: "string \<times> string \<Rightarrow> 'j idem_record \<Rightarrow> 'j idem_table \<times> 'w \<Rightarrow> bool" where
  "keeps_record k r s \<longleftrightarrow> getIdempotencyRecord (fst s) k = Some r"

interpretation idem_run: kept_by_steps "idem_step (ir_created_at r + 24 * us_per_hour)" "keeps_record k r"
  for k and r :: "'j idem_record"
proof
  fix s s' :: "'j idem_table \<times> 'w"
  assume "keeps_record k r s" and "idem_step (ir_created_at r + 24 * us_per_hour) s s'"
  from this(2,1) show "keeps_record k r s'"
    by (elim idem_stepE) (auto simp: keeps_record_def intro: idem.first_stays purge_keeps)
qed

text \<open>
  C32: what a key is good for. After a request with a key was answered by its executor with a status below 500 and the
  save did not fail, the key has a record: its own answer and hash, unless a request that overlapped with it had saved
  one first. For the 24 hours from that record on, whatever requests, purges and changes happen, every request that
  starts under the key runs nothing: with a body of the record's hash it gets the record's answer, and with any other it
  is refused with 409. Requests that overlap are not kept apart (\<open>overlapping_requests_both_run\<close>).
\<close>

theorem idempotent_replay:
  assumes first: "withIdempotency sha True r executor s = (Inr (Answered out False), s1)"
    and key: "rq_key r = Some key" "idempotency_key_pattern key"
    and saved: "rq_saved r" "io_status out < 500"
  shows "\<exists>kept. getIdempotencyRecord (fst s1) (rq_scope r, key) = Some kept
     \<and> (getIdempotencyRecord (fst (snd (executor s))) (rq_scope r, key) = None \<longrightarrow>
          ir_request_hash kept = sha (rq_body r) \<and> ir_response kept = out \<and> ir_created_at kept = rq_now r)
     \<and> (\<forall>s2 r' executor'. (idem_step (ir_created_at kept + 24 * us_per_hour))\<^sup>*\<^sup>* s1 s2
          \<and> rq_key r' = Some key \<and> rq_scope r' = rq_scope r \<longrightarrow>
          withIdempotency sha True r' executor' s2
          = (Inr (if sha (rq_body r') = ir_request_hash kept then Answered (ir_response kept) True else KeyReused), s2))"
proof -
  define own where "own = \<lparr>ir_scope = rq_scope r, ir_key = key, ir_request_hash = sha (rq_body r),
    ir_response = out, ir_created_at = rq_now r\<rparr>"
  have ne: "key \<noteq> ''''" using key(2) by (auto simp: idempotency_key_pattern_def)
  have s1: "fst s1 = saveIdempotencyRecord own (fst (snd (executor s)))"
    using first key saved ne
    by (auto simp: withIdempotency_def Let_def own_def split: option.splits prod.splits sum.splits if_splits)
  have "idem_key own = (rq_scope r, key)" by (simp add: idem_key_def own_def)
  with s1 obtain kept where kept: "getIdempotencyRecord (fst s1) (rq_scope r, key) = Some kept"
    and own: "getIdempotencyRecord (fst (snd (executor s))) (rq_scope r, key) = None \<longrightarrow> kept = own"
    by (cases "getIdempotencyRecord (fst (snd (executor s))) (rq_scope r, key)") (simp_all add: idem.lookup_store)
  have "withIdempotency sha True r' executor' s2
      = (Inr (if sha (rq_body r') = ir_request_hash kept then Answered (ir_response kept) True else KeyReused), s2)"
    if later: "(idem_step (ir_created_at kept + 24 * us_per_hour))\<^sup>*\<^sup>* s1 s2" "rq_key r' = Some key" "rq_scope r' = rq_scope r"
    for s2 r' executor'
  proof -
    have "keeps_record (rq_scope r, key) kept s2"
      using idem_run.run_good [OF later(1)] kept by (simp add: keeps_record_def)
    then show ?thesis using later(2,3) key ne by (auto simp: keeps_record_def withIdempotency_def Let_def)
  qed
  with kept own show ?thesis by (intro exI [of _ kept]) (simp add: own_def)
qed

text \<open>
  The other side of the contract: a request that comes whole while another one under its key runs finds no record and
  runs too. Both are answered fresh, both have their effect, and the answer that stays is that of the one that came in
  between.
\<close>

lemma overlapping_requests_both_run:
  assumes none: "getIdempotencyRecord t (rq_scope r, key) = None" and key: "idempotency_key_pattern key"
    and rs: "rq_key r = Some key" "rq_key q = Some key" "rq_scope q = rq_scope r" "rq_saved r" "rq_saved q"
    and runs: "run1 w0 = (Inr out1, w1)" "run2 w1 = (Inr out2, w2)" "io_status out1 < 500" "io_status out2 < 500"
  shows "\<exists>t'. withIdempotency sha True q (undisturbed run1) (t, w0) = (Inr (Answered out1 False), (t', w1))
     \<and> withIdempotency sha True r
          (\<lambda>s. undisturbed run2 (snd (withIdempotency sha True q (undisturbed run1) s))) (t, w0)
        = (Inr (Answered out2 False), (t', w2))
     \<and> map_option ir_response (getIdempotencyRecord t' (rq_scope r, key)) = Some out1"
proof -
  let ?x = "\<lparr>ir_scope = rq_scope r, ir_key = key, ir_request_hash = sha (rq_body q), ir_response = out1, ir_created_at = rq_now q\<rparr>"
  have ne: "key \<noteq> ''''" using key by (auto simp: idempotency_key_pattern_def)
  have q: "withIdempotency sha True q (undisturbed run1) (t, w0) = (Inr (Answered out1 False), (saveIdempotencyRecord ?x t, w1))"
    using assms ne by (simp add: withIdempotency_def undisturbed_def Let_def)
  have at_key: "idem_key ?x = (rq_scope r, key)" by (simp add: idem_key_def)
  have "getIdempotencyRecord (saveIdempotencyRecord ?x t) (rq_scope r, key) = Some ?x"
    using idem.lookup_store [of ?x t] none at_key by simp
  moreover from this have "saveIdempotencyRecord y (saveIdempotencyRecord ?x t) = saveIdempotencyRecord ?x t"
    if "idem_key y = (rq_scope r, key)" for y
    using that by (simp add: getIdempotencyRecord_def saveIdempotencyRecord_def [of y])
  ultimately show ?thesis
    using assms ne q
    by (intro exI [of _ "saveIdempotencyRecord ?x t"])
       (simp add: withIdempotency_def [of _ _ r] undisturbed_def [of run2] Let_def idem_key_def)
qed

text \<open>A first charge, an hour later a purge, and the retry of the client.\<close>

definition sample_idem_request :: "js_text \<Rightarrow> idem_request" where
  "sample_idem_request body = \<lparr>rq_key = Some ''abcd-1234'', rq_scope = ''pay'', rq_body = body, rq_saved = True, rq_now = 0\<rparr>"

definition sample_hash :: "js_text \<Rightarrow> string" where
  "sample_hash t = map (\<lambda>u. if u = 49 then CHR ''1'' else CHR ''0'') t"

definition charge_once :: "nat \<Rightarrow> (exn + nat idem_outcome) \<times> nat" where
  "charge_once w = (Inr \<lparr>io_status = 200, io_body = w\<rparr>, Suc w)"

theorem idempotent_replay_witness:
  "\<exists>s1. withIdempotency sample_hash True (sample_idem_request [49]) (undisturbed charge_once) ([], 0)
       = (Inr (Answered \<lparr>io_status = 200, io_body = 0\<rparr> False), s1) \<and> snd s1 = 1
     \<and> withIdempotency sample_hash True (sample_idem_request [49]) (undisturbed charge_once)
          (purgeStaleIdempotencyRecords us_per_hour 24 (fst s1), snd s1)
       = (Inr (Answered \<lparr>io_status = 200, io_body = 0\<rparr> True), purgeStaleIdempotencyRecords us_per_hour 24 (fst s1), snd s1)
     \<and> fst (withIdempotency sample_hash True (sample_idem_request [50]) (undisturbed charge_once) s1) = Inr KeyReused"
proof -
  let ?r = "sample_idem_request [49]" and ?out = "\<lparr>io_status = 200, io_body = 0 :: nat\<rparr>" and ?ex = "undisturbed charge_once"
  have pat: "idempotency_key_pattern ''abcd-1234''" by (simp add: idempotency_key_pattern_def key_char_def)
  obtain s1 where s1: "withIdempotency sample_hash True ?r ?ex ([], 0) = (Inr (Answered ?out False), s1)"
    and w: "snd s1 = 1"
    using pat by (simp add: withIdempotency_def sample_idem_request_def charge_once_def getIdempotencyRecord_def find_by_def undisturbed_def)
  have rq: "rq_key (sample_idem_request b) = Some ''abcd-1234''" "rq_saved (sample_idem_request b)"
    "rq_scope (sample_idem_request b) = rq_scope (sample_idem_request b')" "rq_body (sample_idem_request b) = b"
    "rq_now (sample_idem_request b) = 0" for b b'
    by (simp_all add: sample_idem_request_def)
  have alone: "getIdempotencyRecord (fst (snd (?ex ([], 0)))) (rq_scope ?r, ''abcd-1234'') = None"
    by (simp add: undisturbed_def getIdempotencyRecord_def find_by_def)
  have "io_status ?out < 500" by simp
  from idempotent_replay [OF s1 rq(1) pat rq(2) this, unfolded rq(4,5)] obtain kept :: "nat idem_record"
    where own: "getIdempotencyRecord (fst (snd (?ex ([], 0)))) (rq_scope ?r, ''abcd-1234'') = None \<longrightarrow>
          ir_request_hash kept = sample_hash [49] \<and> ir_response kept = ?out \<and> ir_created_at kept = 0"
      and replies: "\<forall>s2 r' ex. (idem_step (ir_created_at kept + 24 * us_per_hour))\<^sup>*\<^sup>* s1 s2
          \<and> rq_key r' = Some ''abcd-1234'' \<and> rq_scope r' = rq_scope ?r \<longrightarrow>
          withIdempotency sample_hash True r' ex s2
          = (Inr (if sample_hash (rq_body r') = ir_request_hash kept then Answered (ir_response kept) True else KeyReused), s2)"
    by (elim exE conjE) (rule that)
  have kept: "ir_request_hash kept = sample_hash [49]" "ir_response kept = ?out" "ir_created_at kept = 0"
    using own alone by blast+
  have after: "withIdempotency sample_hash True r' ex s2
      = (Inr (if sample_hash (rq_body r') = sample_hash [49] then Answered ?out True else KeyReused), s2)"
    if "(idem_step (24 * us_per_hour))\<^sup>*\<^sup>* s1 s2" "rq_key r' = Some ''abcd-1234''" "rq_scope r' = rq_scope ?r" for s2 r' ex
    using replies [unfolded kept, rule_format, of s2 r' ex] that by simp
  have purge: "(idem_step (24 * us_per_hour))\<^sup>*\<^sup>* s1 (purgeStaleIdempotencyRecords us_per_hour 24 (fst s1), snd s1)"
    using idem_step.step_purge [of us_per_hour "24 * us_per_hour" "fst s1" "snd s1"] by (simp add: time_defs)
  have "withIdempotency sample_hash True ?r ?ex (purgeStaleIdempotencyRecords us_per_hour 24 (fst s1), snd s1)
       = (Inr (Answered ?out True), purgeStaleIdempotencyRecords us_per_hour 24 (fst s1), snd s1)"
    using after [OF purge rq(1) rq(3), of "[49]"] by (simp add: rq(4))
  moreover have "fst (withIdempotency sample_hash True (sample_idem_request [50]) ?ex s1) = Inr KeyReused"
    using after [OF rtranclp.rtrancl_refl rq(1) rq(3), of "[50]"] by (simp add: rq(4) sample_hash_def)
  ultimately show ?thesis using s1 w by blast
qed

end
