(* ===== verification/Rate_Limit.thy ===== *)
theory Rate_Limit
  imports Database
begin

text \<open>
  The request limiter of \<open>src/lib/security/rate-limit.ts\<close>: a bucket per key in Postgres, and the
  bucket in memory the code falls back to when the database does not answer, with the two callers
  that name the key (\<open>src/lib/security/request.ts\<close>, \<open>src/lib/security/account-rate-limit.ts\<close>).
\<close>

section \<open>Buckets\<close>

record rate_result =
  rl_allowed :: bool
  rl_remaining :: int
  rl_retryAfterSeconds :: int

text \<open>\<open>Math.ceil\<close> of a quotient.\<close>

definition ceil_div :: "int \<Rightarrow> int \<Rightarrow> int" where
  "ceil_div a b = - ((- a) div b)"

text \<open>In memory: the count stops at the limit. The map is one of the process.\<close>

record memory_bucket =
  mb_count :: int
  mb_resetAt :: millis

type_synonym memory_buckets = "string \<rightharpoonup> memory_bucket"

definition cleanupExpiredMemoryBuckets :: "millis \<Rightarrow> memory_buckets \<Rightarrow> memory_buckets" where
  "cleanupExpiredMemoryBuckets currentTime m =
     (\<lambda>key. case m key of None \<Rightarrow> None | Some b \<Rightarrow> if mb_resetAt b \<le> currentTime then None else Some b)"

definition takeMemoryBucket ::
  "millis \<Rightarrow> string \<Rightarrow> int \<Rightarrow> int \<Rightarrow> memory_buckets \<Rightarrow> rate_result \<times> memory_buckets" where
  "takeMemoryBucket currentTime key limit windowMs buckets =
     (let m = cleanupExpiredMemoryBuckets currentTime buckets;
          fresh = (\<lparr>rl_allowed = True, rl_remaining = max 0 (limit - 1),
                    rl_retryAfterSeconds = ceil_div windowMs 1000\<rparr>,
                   m(key \<mapsto> \<lparr>mb_count = 1, mb_resetAt = currentTime + windowMs\<rparr>))
      in case m key of
           None \<Rightarrow> fresh
         | Some b \<Rightarrow>
             if mb_resetAt b \<le> currentTime then fresh
             else if mb_count b \<ge> limit
             then (\<lparr>rl_allowed = False, rl_remaining = 0,
                    rl_retryAfterSeconds = max 1 (ceil_div (mb_resetAt b - currentTime) 1000)\<rparr>, m)
             else (\<lparr>rl_allowed = True, rl_remaining = max 0 (limit - (mb_count b + 1)),
                    rl_retryAfterSeconds = max 1 (ceil_div (mb_resetAt b - currentTime) 1000)\<rparr>,
                   m(key \<mapsto> b\<lparr>mb_count := mb_count b + 1\<rparr>)))"

text \<open>In Postgres: the count goes on past the limit; a count beyond the column's range is an error.\<close>

record bucket_row =
  rb_count :: int
  rb_reset_at :: micros

type_synonym bucket_table = "string \<rightharpoonup> bucket_row"

definition upsert_bucket :: "micros \<Rightarrow> int \<Rightarrow> bucket_row option \<Rightarrow> bucket_row" where
  "upsert_bucket now windowSeconds b =
     (case b of
        None \<Rightarrow> \<lparr>rb_count = 1, rb_reset_at = now + windowSeconds * us_per_second\<rparr>
      | Some r \<Rightarrow>
          \<lparr>rb_count = (if rb_reset_at r \<le> now then 1 else rb_count r + 1),
           rb_reset_at = (if rb_reset_at r \<le> now then now + windowSeconds * us_per_second else rb_reset_at r)\<rparr>)"

definition takePostgresBucket ::
  "clock \<Rightarrow> string \<Rightarrow> int \<Rightarrow> int \<Rightarrow> bucket_table \<Rightarrow> (rate_result \<times> bucket_table) option" where
  "takePostgresBucket c key limit windowMs t =
     (let windowSeconds = max 1 (ceil_div windowMs 1000);
          row = upsert_bucket (pg_now c) windowSeconds (t key);
          retryAfterSeconds = max 1 (ceil_div (js_date (rb_reset_at row) - js_now c) 1000)
      in if rb_count row > 2147483647 then None
         else Some (if rb_count row > limit
                    then \<lparr>rl_allowed = False, rl_remaining = 0, rl_retryAfterSeconds = retryAfterSeconds\<rparr>
                    else \<lparr>rl_allowed = True, rl_remaining = max 0 (limit - rb_count row),
                          rl_retryAfterSeconds = retryAfterSeconds\<rparr>,
                    t(key \<mapsto> row)))"

text \<open>The limiter: the first argument says whether the database answers.\<close>

record limiter =
  lm_table :: bucket_table
  lm_memory :: memory_buckets

definition takeRateLimit :: "bool \<Rightarrow> clock \<Rightarrow> string \<Rightarrow> int \<Rightarrow> int \<Rightarrow> limiter \<Rightarrow> rate_result \<times> limiter" where
  "takeRateLimit up c key limit windowMs l =
     (case (if up then takePostgresBucket c key limit windowMs (lm_table l) else None) of
        Some (r, t) \<Rightarrow> (r, l\<lparr>lm_table := t\<rparr>)
      | None \<Rightarrow>
          (case takeMemoryBucket (js_now c) key limit windowMs (lm_memory l) of
             (r, m) \<Rightarrow> (r, l\<lparr>lm_memory := m\<rparr>)))"

text \<open>\<open>None\<close> lets the request through; otherwise it is answered with 429 and the seconds to wait.\<close>

definition getClientIp :: "string option \<Rightarrow> string option \<Rightarrow> string" where
  "getClientIp xRealIp cfConnectingIp =
     (case xRealIp of
        Some (ch # s) \<Rightarrow> ch # s
      | _ \<Rightarrow> (case cfConnectingIp of Some (ch # s) \<Rightarrow> ch # s | _ \<Rightarrow> ''unknown''))"

definition enforceRateLimit ::
  "bool \<Rightarrow> clock \<Rightarrow> string option \<Rightarrow> string option \<Rightarrow> string \<Rightarrow> int \<Rightarrow> int \<Rightarrow> limiter \<Rightarrow> int option \<times> limiter" where
  "enforceRateLimit up c xRealIp cfConnectingIp scope limit windowMs l =
     (case takeRateLimit up c (scope @ '':'' @ getClientIp xRealIp cfConnectingIp) limit windowMs l of
        (r, l') \<Rightarrow> (if rl_allowed r then None else Some (rl_retryAfterSeconds r), l'))"

definition enforceAccountRateLimit ::
  "bool \<Rightarrow> clock \<Rightarrow> string \<Rightarrow> string \<Rightarrow> int \<Rightarrow> int \<Rightarrow> limiter \<Rightarrow> int option \<times> limiter" where
  "enforceAccountRateLimit up c accountId scope limit windowMs l =
     (case takeRateLimit up c (''account:'' @ accountId @ '':'' @ scope) limit windowMs l of
        (r, l') \<Rightarrow> (if rl_allowed r then None else Some (rl_retryAfterSeconds r), l'))"

section \<open>How many requests pass\<close>

text \<open>A trace of calls, in the order of the database: instant, key, limit, window.\<close>

record call =
  cl_at :: micros
  cl_key :: string
  cl_limit :: int
  cl_window :: int

definition clock_at :: "micros \<Rightarrow> clock" where
  "clock_at t = \<lparr>pg_now = t, js_now = js_date t\<rparr>"

fun answers :: "bool \<Rightarrow> call list \<Rightarrow> limiter \<Rightarrow> rate_result list" where
  "answers up [] l = []"
| "answers up (x # xs) l =
     (case takeRateLimit up (clock_at (cl_at x)) (cl_key x) (cl_limit x) (cl_window x) l of
        (r, l') \<Rightarrow> r # answers up xs l')"

definition passed :: "bool \<Rightarrow> string \<Rightarrow> call list \<Rightarrow> limiter \<Rightarrow> nat" where
  "passed up k xs l = length (filter (\<lambda>(x, r). cl_key x = k \<and> rl_allowed r) (zip xs (answers up xs l)))"

text \<open>Room in the counters for the rest of a trace.\<close>

definition room :: "nat \<Rightarrow> bucket_table \<Rightarrow> bool" where
  "room n t \<longleftrightarrow> (\<forall>k b. t k = Some b \<longrightarrow> 1 \<le> rb_count b \<and> rb_count b + int n \<le> 2147483647)"

lemma room_take:
  assumes "room (Suc n) t" and "n < 2147483647"
  shows "rb_count (upsert_bucket now w (t k)) \<le> 2147483647" and "room n (t(k \<mapsto> upsert_bucket now w (t k)))"
proof -
  have c: "1 \<le> rb_count (upsert_bucket now w (t k)) \<and> rb_count (upsert_bucket now w (t k)) + int n \<le> 2147483647"
  proof (cases "t k")
    case (Some b)
    with assms(1) have "1 \<le> rb_count b \<and> rb_count b + int (Suc n) \<le> 2147483647" by (auto simp: room_def)
    with Some show ?thesis by (simp add: upsert_bucket_def)
  qed (use assms(2) in \<open>simp add: upsert_bucket_def\<close>)
  then show "rb_count (upsert_bucket now w (t k)) \<le> 2147483647" by linarith
  have "1 \<le> rb_count b \<and> rb_count b + int n \<le> 2147483647" if "t k' = Some b" for k' b
    using assms(1) that by (fastforce simp: room_def)
  with c show "room n (t(k \<mapsto> upsert_bucket now w (t k)))" by (auto simp: room_def)
qed

lemma takeRateLimit_up:
  assumes "room (Suc n) (lm_table l)" and "n < 2147483647"
    and row: "row = upsert_bucket (pg_now c) (max 1 (ceil_div w 1000)) (lm_table l k)"
  shows "\<exists>r. takeRateLimit True c k limit w l = (r, l\<lparr>lm_table := (lm_table l)(k \<mapsto> row)\<rparr>)
    \<and> (rl_allowed r \<longleftrightarrow> rb_count row \<le> limit)"
  using room_take(1) [OF assms(1,2), of "pg_now c" "max 1 (ceil_div w 1000)" k]
  by (simp add: takeRateLimit_def takePostgresBucket_def Let_def row)

lemma passed_Nil [simp]: "passed up k [] l = 0"
  by (simp add: passed_def)

lemma passed_Cons:
  "takeRateLimit up (clock_at (cl_at x)) (cl_key x) (cl_limit x) (cl_window x) l = (r, l') \<Longrightarrow>
   passed up k (x # xs) l = (if cl_key x = k \<and> rl_allowed r then 1 else 0) + passed up k xs l'"
  by (simp add: passed_def)

text \<open>The calls of a trace on one key, with one limit and one window of whole seconds.\<close>

definition on_key :: "string \<Rightarrow> int \<Rightarrow> int \<Rightarrow> call list \<Rightarrow> bool" where
  "on_key k limit w xs \<longleftrightarrow> (\<forall>x \<in> set xs. cl_key x = k \<longrightarrow> cl_limit x = limit \<and> cl_window x = w)"

definition count_of :: "bucket_table \<Rightarrow> string \<Rightarrow> int" where
  "count_of t k = (case t k of None \<Rightarrow> 0 | Some b \<Rightarrow> rb_count b)"

text \<open>One call on a table with room: the row it writes, and whether it passes.\<close>

lemma call_step:
  assumes "room (Suc (length xs)) (lm_table l)" and "length xs < 2147483647"
  obtains r l' row where
    "takeRateLimit True (clock_at (cl_at x)) (cl_key x) (cl_limit x) (cl_window x) l = (r, l')"
    "lm_table l' = (lm_table l)(cl_key x \<mapsto> row)"
    "row = upsert_bucket (cl_at x) (max 1 (ceil_div (cl_window x) 1000)) (lm_table l (cl_key x))"
    "rl_allowed r \<longleftrightarrow> rb_count row \<le> cl_limit x" "room (length xs) (lm_table l')"
proof -
  define row where "row = upsert_bucket (cl_at x) (max 1 (ceil_div (cl_window x) 1000)) (lm_table l (cl_key x))"
  obtain r where "takeRateLimit True (clock_at (cl_at x)) (cl_key x) (cl_limit x) (cl_window x) l
      = (r, l\<lparr>lm_table := (lm_table l)(cl_key x \<mapsto> row)\<rparr>)" "rl_allowed r \<longleftrightarrow> rb_count row \<le> cl_limit x"
    using takeRateLimit_up [OF assms, of row "clock_at (cl_at x)" "cl_window x" "cl_key x" "cl_limit x"]
    by (auto simp: clock_at_def row_def)
  moreover have "room (length xs) ((lm_table l)(cl_key x \<mapsto> row))" unfolding row_def by (rule room_take(2) [OF assms])
  ultimately show ?thesis using that [of r "l\<lparr>lm_table := (lm_table l)(cl_key x \<mapsto> row)\<rparr>" row] row_def by simp
qed

text \<open>As long as the bucket is not reset, no more pass than it has left.\<close>

lemma passed_one_epoch:
  assumes "on_key k limit w xs" and "lm_table l k = Some b" and "\<forall>x \<in> set xs. cl_at x < rb_reset_at b"
    and "room (length xs) (lm_table l)" and "length xs \<le> 2147483647"
  shows "int (passed True k xs l) \<le> max 0 (limit - rb_count b)"
  using assms
proof (induction xs arbitrary: l b)
  case (Cons x xs)
  then have "room (Suc (length xs)) (lm_table l)" "length xs < 2147483647" by simp_all
  then obtain r l' row where step: "takeRateLimit True (clock_at (cl_at x)) (cl_key x) (cl_limit x) (cl_window x) l = (r, l')"
    and t: "lm_table l' = (lm_table l)(cl_key x \<mapsto> row)"
    and row: "row = upsert_bucket (cl_at x) (max 1 (ceil_div (cl_window x) 1000)) (lm_table l (cl_key x))"
    and r: "rl_allowed r \<longleftrightarrow> rb_count row \<le> cl_limit x" and room: "room (length xs) (lm_table l')"
    by (rule call_step)
  have xs: "on_key k limit w xs" "\<forall>x \<in> set xs. cl_at x < rb_reset_at b" "length xs \<le> 2147483647"
    using Cons.prems by (simp_all add: on_key_def)
  show ?case
  proof (cases "cl_key x = k")
    case True
    with Cons.prems(2,3) row have row': "row = \<lparr>rb_count = rb_count b + 1, rb_reset_at = rb_reset_at b\<rparr>"
      by (simp add: upsert_bucket_def)
    have "lm_table l' k = Some row" using t True by simp
    from Cons.IH [OF xs(1) this _ room xs(3)] xs(2) row'
    have "int (passed True k xs l') \<le> max 0 (limit - (rb_count b + 1))" by simp
    moreover have "cl_limit x = limit" using Cons.prems(1) True by (simp add: on_key_def)
    ultimately show ?thesis using r True row' by (auto simp: passed_Cons [OF step])
  next
    case False
    then have "lm_table l' k = Some b" using t Cons.prems(2) by simp
    from Cons.IH [OF xs(1) this xs(2) room xs(3)] False show ?thesis by (simp add: passed_Cons [OF step])
  qed
qed simp

text \<open>
  Over a stretch no longer than the window the bucket is reset at most once: what it has left, and
  then the limit once more.
\<close>

lemma passed_in_window:
  assumes "on_key k limit w xs" and "1 \<le> limit" and "sorted (map cl_at xs)"
    and "\<forall>x \<in> set xs. from \<le> cl_at x \<and> cl_at x < from + max 1 (ceil_div w 1000) * us_per_second"
    and "room (length xs) (lm_table l)" and "length xs \<le> 2147483647"
  shows "int (passed True k xs l) \<le> max 0 (limit - count_of (lm_table l) k) + limit"
  using assms
proof (induction xs arbitrary: l)
  case (Cons x xs)
  then have "room (Suc (length xs)) (lm_table l)" "length xs < 2147483647" by simp_all
  then obtain r l' row where step: "takeRateLimit True (clock_at (cl_at x)) (cl_key x) (cl_limit x) (cl_window x) l = (r, l')"
    and t: "lm_table l' = (lm_table l)(cl_key x \<mapsto> row)"
    and row: "row = upsert_bucket (cl_at x) (max 1 (ceil_div (cl_window x) 1000)) (lm_table l (cl_key x))"
    and r: "rl_allowed r \<longleftrightarrow> rb_count row \<le> cl_limit x" and room: "room (length xs) (lm_table l')"
    by (rule call_step)
  have xs: "on_key k limit w xs" "sorted (map cl_at xs)" "length xs \<le> 2147483647"
    "\<forall>x \<in> set xs. from \<le> cl_at x \<and> cl_at x < from + max 1 (ceil_div w 1000) * us_per_second"
    using Cons.prems by (simp_all add: on_key_def)
  note IH = Cons.IH [OF xs(1) Cons.prems(2) xs(2,4) room xs(3)]
  show ?case
  proof (cases "cl_key x = k")
    case False
    with IH t show ?thesis by (simp add: passed_Cons [OF step] count_of_def)
  next
    case True
    then have lim: "cl_limit x = limit" "cl_window x = w" using Cons.prems(1) by (simp_all add: on_key_def)
    have new: "lm_table l' k = Some row" using t True by simp
    show ?thesis
    proof (cases "\<exists>b. lm_table l k = Some b \<and> cl_at x < rb_reset_at b")
      case False
      then have row': "row = \<lparr>rb_count = 1, rb_reset_at = cl_at x + max 1 (ceil_div w 1000) * us_per_second\<rparr>"
        using row True lim by (auto simp: upsert_bucket_def split: option.splits)
      have "\<forall>y \<in> set xs. cl_at y < rb_reset_at row" using xs(4) Cons.prems(4) row' by fastforce
      from passed_one_epoch [OF xs(1) new this room xs(3)] Cons.prems(2) row'
      show ?thesis by (auto simp: passed_Cons [OF step] max_def)
    next
      case True
      then obtain b where b: "lm_table l k = Some b" "cl_at x < rb_reset_at b" by blast
      with row \<open>cl_key x = k\<close> have "rb_count row = rb_count b + 1" by (simp add: upsert_bucket_def)
      with IH new b r lim \<open>cl_key x = k\<close> show ?thesis by (auto simp: passed_Cons [OF step] count_of_def)
    qed
  qed
qed simp

text \<open>The memory: one call, and the same two facts.\<close>

lemma memory_call:
  assumes "takeMemoryBucket now key limit w m = (r, m')"
  shows "k \<noteq> key \<Longrightarrow> m' k = (case m k of None \<Rightarrow> None | Some b \<Rightarrow> if mb_resetAt b \<le> now then None else Some b)"
    and "m key = Some b \<Longrightarrow> now < mb_resetAt b \<Longrightarrow> (rl_allowed r \<longleftrightarrow> mb_count b < limit)
        \<and> m' key = Some (if mb_count b < limit then b\<lparr>mb_count := mb_count b + 1\<rparr> else b)"
    and "(\<And>b. m key = Some b \<Longrightarrow> mb_resetAt b \<le> now) \<Longrightarrow> rl_allowed r \<and> m' key = Some \<lparr>mb_count = 1, mb_resetAt = now + w\<rparr>"
  using assms
  by (auto simp: takeMemoryBucket_def cleanupExpiredMemoryBuckets_def Let_def split: option.splits if_splits)

lemma passed_memory_Cons:
  assumes "takeMemoryBucket (js_date (cl_at x)) (cl_key x) (cl_limit x) (cl_window x) (lm_memory l) = (r, m)"
  shows "passed False k (x # xs) l = (if cl_key x = k \<and> rl_allowed r then 1 else 0) + passed False k xs (l\<lparr>lm_memory := m\<rparr>)"
  using assms by (intro passed_Cons) (simp add: takeRateLimit_def clock_at_def)

lemma memory_one_epoch:
  assumes "on_key k limit w xs" and "lm_memory l k = Some b" and "\<forall>x \<in> set xs. js_date (cl_at x) < mb_resetAt b"
  shows "int (passed False k xs l) \<le> max 0 (limit - mb_count b)"
  using assms
proof (induction xs arbitrary: l b)
  case (Cons x xs)
  obtain r m where call: "takeMemoryBucket (js_date (cl_at x)) (cl_key x) (cl_limit x) (cl_window x) (lm_memory l) = (r, m)"
    by (rule prod.exhaust)
  note one = memory_call [OF call]
  have xs: "on_key k limit w xs" "\<forall>x \<in> set xs. js_date (cl_at x) < mb_resetAt b" and now: "js_date (cl_at x) < mb_resetAt b"
    using Cons.prems by (simp_all add: on_key_def)
  show ?case
  proof (cases "cl_key x = k")
    case True
    have lim: "cl_limit x = limit" using Cons.prems(1) True by (simp add: on_key_def)
    define b' where "b' = (if mb_count b < limit then b\<lparr>mb_count := mb_count b + 1\<rparr> else b)"
    have r: "rl_allowed r \<longleftrightarrow> mb_count b < limit" "m k = Some b'"
      using one(2) [of b] Cons.prems(2) True now lim by (simp_all add: b'_def)
    have "int (passed False k xs (l\<lparr>lm_memory := m\<rparr>)) \<le> max 0 (limit - mb_count b')"
      by (rule Cons.IH [OF xs(1)]) (use r(2) xs(2) in \<open>simp_all add: b'_def\<close>)
    then show ?thesis using r(1) True by (auto simp: passed_memory_Cons [OF call] b'_def split: if_splits)
  next
    case False
    have "int (passed False k xs (l\<lparr>lm_memory := m\<rparr>)) \<le> max 0 (limit - mb_count b)"
      by (rule Cons.IH [OF xs(1) _ xs(2)]) (use one(1) [of k] False Cons.prems(2) now in simp)
    then show ?thesis using False by (simp add: passed_memory_Cons [OF call])
  qed
qed simp

definition memory_left :: "int \<Rightarrow> memory_bucket option \<Rightarrow> int" where
  "memory_left limit b = (case b of None \<Rightarrow> 0 | Some x \<Rightarrow> max 0 (limit - mb_count x))"

lemma memory_in_window:
  assumes "on_key k limit w xs" and "1 \<le> limit" and "sorted (map cl_at xs)"
    and "\<forall>x \<in> set xs. from \<le> cl_at x \<and> js_date (cl_at x) < js_date from + w"
  shows "int (passed False k xs l) \<le> memory_left limit (lm_memory l k) + limit"
  using assms
proof (induction xs arbitrary: l)
  case Nil
  then show ?case by (simp add: memory_left_def split: option.split)
next
  case (Cons x xs)
  obtain r m where call: "takeMemoryBucket (js_date (cl_at x)) (cl_key x) (cl_limit x) (cl_window x) (lm_memory l) = (r, m)"
    by (rule prod.exhaust)
  note one = memory_call [OF call]
  have xs: "on_key k limit w xs" "sorted (map cl_at xs)" "\<forall>x \<in> set xs. from \<le> cl_at x \<and> js_date (cl_at x) < js_date from + w"
    using Cons.prems by (simp_all add: on_key_def)
  have IH: "int (passed False k xs (l\<lparr>lm_memory := m\<rparr>)) \<le> memory_left limit (m k) + limit"
    using Cons.IH [OF xs(1) Cons.prems(2) xs(2,3), of "l\<lparr>lm_memory := m\<rparr>"] by simp
  show ?case
  proof (cases "cl_key x = k")
    case False
    then have "memory_left limit (m k) \<le> memory_left limit (lm_memory l k)"
      using one(1) [of k] by (auto simp: memory_left_def split: option.splits)
    with IH False show ?thesis by (simp add: passed_memory_Cons [OF call])
  next
    case True
    have lim: "cl_limit x = limit" "cl_window x = w" using Cons.prems(1) True by (simp_all add: on_key_def)
    show ?thesis
    proof (cases "\<exists>b. lm_memory l k = Some b \<and> js_date (cl_at x) < mb_resetAt b")
      case live: True
      then obtain b where b: "lm_memory l k = Some b" "js_date (cl_at x) < mb_resetAt b" by blast
      with one(2) [of b] True lim have "rl_allowed r \<longleftrightarrow> mb_count b < limit"
          "m k = Some (if mb_count b < limit then b\<lparr>mb_count := mb_count b + 1\<rparr> else b)" by simp_all
      then show ?thesis using IH b(1) True by (auto simp: passed_memory_Cons [OF call] memory_left_def split: if_splits)
    next
      case False
      then have "rl_allowed r \<and> m k = Some \<lparr>mb_count = 1, mb_resetAt = js_date (cl_at x) + w\<rparr>"
        using one(3) True lim by fastforce
      moreover have "js_date from \<le> js_date (cl_at x)"
        using Cons.prems(4) by (simp add: js_date_def us_per_ms_def zdiv_mono1)
      ultimately have "int (passed False k xs (l\<lparr>lm_memory := m\<rparr>)) \<le> max 0 (limit - 1)"
        using memory_one_epoch [OF xs(1), of "l\<lparr>lm_memory := m\<rparr>" "\<lparr>mb_count = 1, mb_resetAt = js_date (cl_at x) + w\<rparr>"] xs(3)
        by fastforce
      moreover have "0 \<le> memory_left limit (lm_memory l k)" by (simp add: memory_left_def split: option.split)
      ultimately show ?thesis using Cons.prems(2) by (simp add: passed_memory_Cons [OF call] max_def split: if_splits)
    qed
  qed
qed

text \<open>
  A database that answers some calls and not others: a trace in which every call carries whether it does. What passes is
  counted apart for the calls of either kind; they meet in nothing but the order.
\<close>

fun mixed_answers :: "(bool \<times> call) list \<Rightarrow> limiter \<Rightarrow> rate_result list" where
  "mixed_answers [] l = []"
| "mixed_answers ((up, x) # ys) l =
     (case takeRateLimit up (clock_at (cl_at x)) (cl_key x) (cl_limit x) (cl_window x) l of
        (r, l') \<Rightarrow> r # mixed_answers ys l')"

definition passed_by :: "bool \<Rightarrow> string \<Rightarrow> (bool \<times> call) list \<Rightarrow> limiter \<Rightarrow> nat" where
  "passed_by up k ys l = length (filter (\<lambda>((u, x), r). u = up \<and> cl_key x = k \<and> rl_allowed r) (zip ys (mixed_answers ys l)))"

lemma passed_by_Nil [simp]: "passed_by up k [] l = 0"
  by (simp add: passed_by_def)

lemma passed_by_Cons:
  "takeRateLimit u (clock_at (cl_at x)) (cl_key x) (cl_limit x) (cl_window x) l = (r, l') \<Longrightarrow>
   passed_by up k ((u, x) # ys) l = (if u = up \<and> cl_key x = k \<and> rl_allowed r then 1 else 0) + passed_by up k ys l'"
  by (simp add: passed_by_def)

lemma call_on_memory:
  obtains r m where "takeMemoryBucket (js_now c) k limit w (lm_memory l) = (r, m)"
    and "\<And>t. takeRateLimit False c k limit w (l\<lparr>lm_table := t\<rparr>) = (r, l\<lparr>lm_table := t, lm_memory := m\<rparr>)"
  using that by (cases "takeMemoryBucket (js_now c) k limit w (lm_memory l)") (simp add: takeRateLimit_def)

lemma limiter_updates: "l\<lparr>lm_memory := m, lm_table := t\<rparr> = l\<lparr>lm_table := t, lm_memory := m\<rparr>"
  by (cases l) simp

lemma room_less: "room n t \<Longrightarrow> m \<le> n \<Longrightarrow> room m t"
  unfolding room_def by (meson add_left_mono of_nat_mono order_trans)

lemma table_arm:
  assumes "room (length ys) (lm_table l)" and "length ys \<le> 2147483647"
  shows "passed_by True k ys l = passed True k (map snd (filter fst ys)) (l\<lparr>lm_memory := m\<rparr>)"
  using assms
proof (induction ys arbitrary: l m)
  case (Cons y ys)
  obtain u x where y: "y = (u, x)" by (rule prod.exhaust)
  have len: "room (Suc (length ys)) (lm_table l)" "length ys < 2147483647" using Cons.prems by simp_all
  have weak: "room (length ys) (lm_table l)" using len(1) by (fastforce simp: room_def)
  show ?case
  proof (cases u)
    case True
    define row where "row = upsert_bucket (cl_at x) (max 1 (ceil_div (cl_window x) 1000)) (lm_table l (cl_key x))"
    have now: "pg_now (clock_at t) = t" for t by (simp add: clock_at_def)
    have room: "room (length ys) ((lm_table l)(cl_key x \<mapsto> row))" unfolding row_def by (rule room_take(2) [OF len])
    have step: "\<exists>r. \<forall>m. takeRateLimit True (clock_at (cl_at x)) (cl_key x) (cl_limit x) (cl_window x) (l\<lparr>lm_memory := m\<rparr>)
        = (r, l\<lparr>lm_memory := m, lm_table := (lm_table l)(cl_key x \<mapsto> row)\<rparr>)"
      using room_take(1) [OF len, of "cl_at x" "max 1 (ceil_div (cl_window x) 1000)" "cl_key x"]
      by (simp add: takeRateLimit_def takePostgresBucket_def Let_def row_def now)
    then obtain r where r: "\<And>m. takeRateLimit True (clock_at (cl_at x)) (cl_key x) (cl_limit x) (cl_window x) (l\<lparr>lm_memory := m\<rparr>)
        = (r, l\<lparr>lm_memory := m, lm_table := (lm_table l)(cl_key x \<mapsto> row)\<rparr>)" by blast
    have "length ys \<le> 2147483647" using len(2) by simp
    with room have "passed_by True k ys (l\<lparr>lm_table := (lm_table l)(cl_key x \<mapsto> row)\<rparr>)
        = passed True k (map snd (filter fst ys)) (l\<lparr>lm_table := (lm_table l)(cl_key x \<mapsto> row), lm_memory := m\<rparr>)"
      by (intro Cons.IH) (simp_all del: fun_upd_apply)
    then have "passed_by True k ys (l\<lparr>lm_table := (lm_table l)(cl_key x \<mapsto> row)\<rparr>)
        = passed True k (map snd (filter fst ys)) (l\<lparr>lm_memory := m, lm_table := (lm_table l)(cl_key x \<mapsto> row)\<rparr>)"
      by (simp only: limiter_updates)
    then show ?thesis
      using r [of "lm_memory l"] by (simp add: y True passed_Cons [OF r] passed_by_Cons)
  next
    case False
    obtain r m' where "takeRateLimit False (clock_at (cl_at x)) (cl_key x) (cl_limit x) (cl_window x) (l\<lparr>lm_table := lm_table l\<rparr>)
        = (r, l\<lparr>lm_table := lm_table l, lm_memory := m'\<rparr>)" by (rule call_on_memory) blast
    then have "passed_by True k (y # ys) l = passed_by True k ys (l\<lparr>lm_memory := m'\<rparr>)" by (simp add: y False passed_by_Cons)
    then show ?thesis using Cons.IH [of "l\<lparr>lm_memory := m'\<rparr>" m] weak len(2) by (simp add: y False)
  qed
qed simp

lemma memory_arm:
  assumes "room (length ys) (lm_table l)" and "length ys \<le> 2147483647"
  shows "passed_by False k ys l = passed False k (map snd (filter (Not \<circ> fst) ys)) (l\<lparr>lm_table := t\<rparr>)"
  using assms
proof (induction ys arbitrary: l t)
  case (Cons y ys)
  obtain u x where y: "y = (u, x)" by (rule prod.exhaust)
  have len: "room (Suc (length ys)) (lm_table l)" "length ys < 2147483647" using Cons.prems by simp_all
  have weak: "room (length ys) (lm_table l)" using len(1) by (fastforce simp: room_def)
  show ?case
  proof (cases u)
    case True
    obtain r l' row where step: "takeRateLimit True (clock_at (cl_at x)) (cl_key x) (cl_limit x) (cl_window x) l = (r, l')"
      and l': "l' = l\<lparr>lm_table := (lm_table l)(cl_key x \<mapsto> row)\<rparr>" and room: "room (length ys) (lm_table l')"
      using takeRateLimit_up [OF len refl, where k = "cl_key x" and c = "clock_at (cl_at x)" and w = "cl_window x" and limit = "cl_limit x"]
        room_take(2) [OF len] by fastforce
    have "passed_by False k (y # ys) l = passed_by False k ys l'" using step by (simp add: y True passed_by_Cons)
    moreover have "passed_by False k ys l' = passed False k (map snd (filter (Not \<circ> fst) ys)) (l'\<lparr>lm_table := t\<rparr>)"
      by (rule Cons.IH [OF room]) (use len(2) in simp)
    moreover have "l'\<lparr>lm_table := t\<rparr> = l\<lparr>lm_table := t\<rparr>" by (simp add: l')
    ultimately show ?thesis by (simp add: y True comp_def)
  next
    case False
    obtain r m where r: "\<And>t. takeRateLimit False (clock_at (cl_at x)) (cl_key x) (cl_limit x) (cl_window x) (l\<lparr>lm_table := t\<rparr>)
        = (r, l\<lparr>lm_table := t, lm_memory := m\<rparr>)" by (rule call_on_memory) blast
    have "passed_by False k ys (l\<lparr>lm_memory := m\<rparr>) = passed False k (map snd (filter (Not \<circ> fst) ys)) (l\<lparr>lm_table := t, lm_memory := m\<rparr>)"
      using Cons.IH [of "l\<lparr>lm_memory := m\<rparr>" t] weak len(2) by (simp add: limiter_updates comp_def)
    then show ?thesis using r [of "lm_table l"] by (simp add: y False passed_Cons [OF r] passed_by_Cons comp_def)
  qed
qed simp

text \<open>
  C40: over any stretch of time no longer than the window, whatever the other keys do and whatever happened before, the
  requests on a key that get through are at most twice the limit among those that the database answers, and at most twice
  the limit among those for which it does not, when the memory of the process stands in. The database may fail at any of
  the calls; together they are at most four times the limit, and twice when it fails at none or at all. The window is
  that of the table, rounded up to whole seconds; for the memory it is counted in milliseconds.
\<close>

theorem rate_limit_bound:
  assumes "\<forall>(up, x) \<in> set ys. cl_key x = k \<longrightarrow> cl_limit x = limit \<and> cl_window x = w" and "1 \<le> limit"
    and "sorted (map (cl_at \<circ> snd) ys)"
    and "\<forall>(up, x) \<in> set ys. from \<le> cl_at x \<and> cl_at x < from + max 1 (ceil_div w 1000) * us_per_second"
    and "room (length ys) (lm_table l)" and "length ys \<le> 2147483647"
    and "\<forall>b. lm_memory l k = Some b \<longrightarrow> 0 \<le> mb_count b"
  shows "int (passed_by True k ys l) \<le> 2 * limit
     \<and> ((\<forall>(up, x) \<in> set ys. \<not> up \<longrightarrow> js_date (cl_at x) < js_date from + w) \<longrightarrow> int (passed_by False k ys l) \<le> 2 * limit)"
proof -
  let ?t = "map snd (filter fst ys)" and ?m = "map snd (filter (Not \<circ> fst) ys)"
  have trace: "on_key k limit w (map snd (filter P ys))" "sorted (map cl_at (map snd (filter P ys)))"
      "length (map snd (filter P ys)) \<le> length ys" for P
    using assms(1,3) by (fastforce simp: on_key_def, simp add: sorted_filter [where f = "cl_at \<circ> snd", simplified comp_def] comp_def, simp)
  have at_: "\<forall>x \<in> set ?t. from \<le> cl_at x \<and> cl_at x < from + max 1 (ceil_div w 1000) * us_per_second" using assms(4) by fastforce
  have room: "room (length ?t) (lm_table l)" by (rule room_less [OF assms(5) trace(3)])
  have "0 \<le> count_of (lm_table l) k"
    using assms(5) by (force simp: count_of_def room_def split: option.split)
  moreover have "int (passed True k ?t l) \<le> max 0 (limit - count_of (lm_table l) k) + limit"
    by (rule passed_in_window [OF trace(1) assms(2) trace(2) at_ room order_trans [OF trace(3) assms(6)]])
  moreover have "passed_by True k ys l = passed True k ?t l"
    using table_arm [OF assms(5,6), of k "lm_memory l"] by simp
  ultimately have up: "int (passed_by True k ys l) \<le> 2 * limit" by simp
  have down: "int (passed_by False k ys l) \<le> 2 * limit" if "\<forall>(up, x) \<in> set ys. \<not> up \<longrightarrow> js_date (cl_at x) < js_date from + w"
  proof -
    have "\<forall>x \<in> set ?m. from \<le> cl_at x \<and> js_date (cl_at x) < js_date from + w" using assms(4) that by fastforce
    from memory_in_window [OF trace(1) assms(2) trace(2) this, of l]
    have "int (passed False k ?m l) \<le> memory_left limit (lm_memory l k) + limit" .
    moreover have "memory_left limit (lm_memory l k) \<le> limit"
      using assms(2,7) by (auto simp: memory_left_def split: option.split)
    moreover have "passed_by False k ys l = passed False k ?m l"
      using memory_arm [OF assms(5,6), of k "lm_table l"] by simp
    ultimately show ?thesis by simp
  qed
  show ?thesis using up down by blast
qed

text \<open>
  A limit of one, a full bucket in the table that ends at the minute, and a database that fails at every other call: of
  four requests around the minute three pass.
\<close>

definition sample_call :: "micros \<Rightarrow> call" where
  "sample_call t = \<lparr>cl_at = t, cl_key = ''login'', cl_limit = 1, cl_window = 60000\<rparr>"

definition no_buckets :: limiter where
  "no_buckets = \<lparr>lm_table = (\<lambda>_. None), lm_memory = (\<lambda>_. None)\<rparr>"

theorem rate_limit_bound_witness:
  "let ys = [(True, sample_call 59000000), (False, sample_call 59000000), (True, sample_call 60000000), (False, sample_call 60000000)];
       l = no_buckets\<lparr>lm_table := [''login'' \<mapsto> \<lparr>rb_count = 1, rb_reset_at = 60000000\<rparr>]\<rparr> in
     int (passed_by True ''login'' ys l) \<le> 2 \<and> int (passed_by False ''login'' ys l) \<le> 2
     \<and> map rl_allowed (mixed_answers ys l) = [False, True, True, False]"
proof -
  let ?ys = "[(True, sample_call 59000000), (False, sample_call 59000000), (True, sample_call 60000000), (False, sample_call 60000000)]"
  let ?l = "no_buckets\<lparr>lm_table := [''login'' \<mapsto> \<lparr>rb_count = 1, rb_reset_at = 60000000\<rparr>]\<rparr>"
  have "int (passed_by True ''login'' ?ys ?l) \<le> 2 \<and> int (passed_by False ''login'' ?ys ?l) \<le> 2"
    using rate_limit_bound [of ?ys "''login''" 1 60000 59000000 ?l]
    by (simp add: sample_call_def ceil_div_def us_per_second_def room_def no_buckets_def js_date_def us_per_ms_def)
  moreover have "map rl_allowed (mixed_answers ?ys ?l) = [False, True, True, False]"
    by (simp add: sample_call_def no_buckets_def takeRateLimit_def takePostgresBucket_def upsert_bucket_def takeMemoryBucket_def
        cleanupExpiredMemoryBuckets_def clock_at_def ceil_div_def us_per_second_def js_date_def us_per_ms_def Let_def)
  ultimately show ?thesis by (simp add: Let_def del: mixed_answers.simps)
qed

section \<open>The fallback in memory answers the same\<close>

text \<open>
  A configuration gives every key its limit and its window, a whole number of seconds. A bucket of
  the table and one of the memory correspond while they run: same end, same count up to the limit.
\<close>

definition configured :: "(string \<Rightarrow> int \<times> int) \<Rightarrow> call \<Rightarrow> bool" where
  "configured cfg x \<longleftrightarrow> cfg (cl_key x) = (cl_limit x, cl_window x) \<and> 1 \<le> cl_limit x \<and> 1000 \<le> cl_window x
     \<and> cl_window x mod 1000 = 0 \<and> cl_at x mod 1000 = 0"

definition live_row :: "micros \<Rightarrow> bucket_row option \<Rightarrow> bucket_row option" where
  "live_row now b = (case b of None \<Rightarrow> None | Some r \<Rightarrow> if rb_reset_at r \<le> now then None else Some r)"

definition live_mem :: "micros \<Rightarrow> memory_bucket option \<Rightarrow> memory_bucket option" where
  "live_mem now b = (case b of None \<Rightarrow> None | Some r \<Rightarrow> if mb_resetAt r * 1000 \<le> now then None else Some r)"

definition corresponds :: "int \<Rightarrow> bucket_row option \<Rightarrow> memory_bucket option \<Rightarrow> bool" where
  "corresponds limit p q \<longleftrightarrow>
     (case (p, q) of
        (None, None) \<Rightarrow> True
      | (Some r, Some b) \<Rightarrow> 1 \<le> rb_count r \<and> rb_reset_at r = mb_resetAt b * 1000 \<and> mb_count b = min (rb_count r) limit
      | _ \<Rightarrow> False)"

definition in_step :: "(string \<Rightarrow> int \<times> int) \<Rightarrow> micros \<Rightarrow> bucket_table \<Rightarrow> memory_buckets \<Rightarrow> bool" where
  "in_step cfg now t m \<longleftrightarrow> (\<forall>k. corresponds (fst (cfg k)) (live_row now (t k)) (live_mem now (m k)))"

lemma in_step_later:
  assumes "in_step cfg now t m" and "now \<le> now'"
  shows "in_step cfg now' t m"
proof -
  have "corresponds L (live_row now' p) (live_mem now' q)" if "corresponds L (live_row now p) (live_mem now q)" for L p q
    using that assms(2) by (auto simp: corresponds_def live_row_def live_mem_def split: option.splits if_splits)
  with assms(1) show ?thesis by (simp add: in_step_def)
qed

lemma live_mem_cleanup:
  assumes "now mod 1000 = 0" and "now \<le> now'"
  shows "live_mem now' (cleanupExpiredMemoryBuckets (now div 1000) m k) = live_mem now' (m k)"
  using assms by (auto simp: cleanupExpiredMemoryBuckets_def live_mem_def split: option.splits)

lemma fresh_upsert: "live_row now b = None \<Longrightarrow>
    upsert_bucket now s b = \<lparr>rb_count = 1, rb_reset_at = now + s * us_per_second\<rparr>"
  by (auto simp: live_row_def upsert_bucket_def split: option.splits if_splits)

lemma live_upsert: "live_row now b = Some r \<Longrightarrow>
    upsert_bucket now s b = \<lparr>rb_count = rb_count r + 1, rb_reset_at = rb_reset_at r\<rparr> \<and> now < rb_reset_at r"
  by (auto simp: live_row_def upsert_bucket_def split: option.splits if_splits)

lemma whole_seconds:
  assumes "1000 \<le> w" and "w mod 1000 = (0::int)"
  shows "ceil_div w 1000 = w div 1000" and "max 1 (ceil_div w 1000) * us_per_second = w * 1000"
proof -
  obtain s where s: "w = s * 1000" using assms(2) by auto
  then show "ceil_div w 1000 = w div 1000" by (simp add: ceil_div_def)
  with s assms(1) show "max 1 (ceil_div w 1000) * us_per_second = w * 1000" by (simp add: us_per_second_def)
qed

lemma memory_fresh:
  assumes "live_mem now (m k) = None" and "now mod 1000 = 0"
  shows "takeMemoryBucket (js_date now) k limit w m
    = (\<lparr>rl_allowed = True, rl_remaining = max 0 (limit - 1), rl_retryAfterSeconds = ceil_div w 1000\<rparr>,
       (cleanupExpiredMemoryBuckets (now div 1000) m)(k \<mapsto> \<lparr>mb_count = 1, mb_resetAt = now div 1000 + w\<rparr>))"
  using assms
  by (auto simp: takeMemoryBucket_def Let_def live_mem_def cleanupExpiredMemoryBuckets_def js_date_def us_per_ms_def
      split: option.splits if_splits)

lemma memory_running:
  assumes "live_mem now (m k) = Some b" and "now mod 1000 = 0"
  shows "takeMemoryBucket (js_date now) k limit w m
    = (if mb_count b \<ge> limit
       then (\<lparr>rl_allowed = False, rl_remaining = 0, rl_retryAfterSeconds = max 1 (ceil_div (mb_resetAt b - now div 1000) 1000)\<rparr>,
             cleanupExpiredMemoryBuckets (now div 1000) m)
       else (\<lparr>rl_allowed = True, rl_remaining = max 0 (limit - (mb_count b + 1)),
              rl_retryAfterSeconds = max 1 (ceil_div (mb_resetAt b - now div 1000) 1000)\<rparr>,
             (cleanupExpiredMemoryBuckets (now div 1000) m)(k \<mapsto> b\<lparr>mb_count := mb_count b + 1\<rparr>)))"
proof -
  have b: "m k = Some b" "\<not> mb_resetAt b \<le> now div 1000"
    using assms by (auto simp: live_mem_def split: option.splits if_splits)
  then have "cleanupExpiredMemoryBuckets (now div 1000) m k = Some b" by (simp add: cleanupExpiredMemoryBuckets_def)
  with b show ?thesis by (simp add: takeMemoryBucket_def Let_def js_date_def us_per_ms_def)
qed

lemma in_step_update:
  assumes "in_step cfg now t m" and "now mod 1000 = 0"
    and "corresponds (fst (cfg k)) (live_row now (Some p)) (live_mem now q)"
  shows "in_step cfg now (t(k \<mapsto> p)) ((cleanupExpiredMemoryBuckets (now div 1000) m)(k := q))"
  using assms by (simp add: in_step_def live_mem_cleanup)

lemma take_same:
  assumes step: "in_step cfg now t m" and x: "configured cfg x" "cl_at x = now"
    and room: "rb_count (upsert_bucket now (max 1 (ceil_div (cl_window x) 1000)) (t (cl_key x))) \<le> 2147483647"
  obtains r t' m' where "takePostgresBucket (clock_at now) (cl_key x) (cl_limit x) (cl_window x) t = Some (r, t')"
    and "takeMemoryBucket (js_date now) (cl_key x) (cl_limit x) (cl_window x) m = (r, m')" and "in_step cfg now t' m'"
    and "t' = t(cl_key x \<mapsto> upsert_bucket now (max 1 (ceil_div (cl_window x) 1000)) (t (cl_key x)))"
proof -
  let ?k = "cl_key x" and ?L = "cl_limit x" and ?w = "cl_window x"
  have cfg: "fst (cfg ?k) = ?L" "1 \<le> ?L" "1000 \<le> ?w" "?w mod 1000 = 0" "now mod 1000 = 0"
    using x by (auto simp: configured_def)
  note w = whole_seconds [OF cfg(3,4)]
  obtain u where u: "now = u * 1000" using cfg(5) by auto
  have now_is: "pg_now (clock_at now) = now" "js_now (clock_at now) = js_date now" by (simp_all add: clock_at_def)
  have dates: "js_date (now + ?w * 1000) - js_date now = ?w" using u by (simp add: js_date_def us_per_ms_def)
  have cor: "corresponds ?L (live_row now (t ?k)) (live_mem now (m ?k))" using step cfg(1) unfolding in_step_def by metis
  show ?thesis
  proof (cases "live_row now (t ?k)")
    case None
    with cor have mem: "live_mem now (m ?k) = None" by (auto simp: corresponds_def split: option.splits)
    have row: "upsert_bucket now (max 1 (ceil_div ?w 1000)) (t ?k) = \<lparr>rb_count = 1, rb_reset_at = now + ?w * 1000\<rparr>"
      using fresh_upsert [OF None] w(2) by simp
    have keep: "corresponds (fst (cfg ?k)) (live_row now (Some \<lparr>rb_count = 1, rb_reset_at = now + ?w * 1000\<rparr>))
        (live_mem now (Some \<lparr>mb_count = 1, mb_resetAt = now div 1000 + ?w\<rparr>))"
      using cfg u by (simp add: corresponds_def live_row_def live_mem_def)
    have "takePostgresBucket (clock_at now) ?k ?L ?w t
        = Some (\<lparr>rl_allowed = True, rl_remaining = max 0 (?L - 1), rl_retryAfterSeconds = ceil_div ?w 1000\<rparr>,
                t(?k \<mapsto> \<lparr>rb_count = 1, rb_reset_at = now + ?w * 1000\<rparr>))"
      unfolding takePostgresBucket_def Let_def now_is row using cfg(2,3) w(1) dates by simp
    from that [OF this memory_fresh [of now m "cl_key x", OF mem cfg(5)] in_step_update [OF step cfg(5) keep]] row show ?thesis by simp
  next
    case (Some p)
    with cor obtain b where mem: "live_mem now (m ?k) = Some b" and b: "1 \<le> rb_count p" "rb_reset_at p = mb_resetAt b * 1000"
      "mb_count b = min (rb_count p) ?L"
      by (auto simp: corresponds_def split: option.splits)
    have row: "upsert_bucket now (max 1 (ceil_div ?w 1000)) (t ?k) = \<lparr>rb_count = rb_count p + 1, rb_reset_at = rb_reset_at p\<rparr>"
      and live: "now < rb_reset_at p"
      using live_upsert [OF Some] by simp_all
    let ?q = "if mb_count b \<ge> ?L then b else b\<lparr>mb_count := mb_count b + 1\<rparr>"
    have keep: "corresponds (fst (cfg ?k)) (live_row now (Some \<lparr>rb_count = rb_count p + 1, rb_reset_at = rb_reset_at p\<rparr>))
        (live_mem now (Some ?q))"
      using cfg b live by (auto simp: corresponds_def live_row_def live_mem_def)
    have stays: "(cleanupExpiredMemoryBuckets (now div 1000) m)(?k \<mapsto> b) = cleanupExpiredMemoryBuckets (now div 1000) m"
      using mem cfg(5) by (auto simp: fun_eq_iff cleanupExpiredMemoryBuckets_def live_mem_def split: option.splits if_splits)
    have post: "takePostgresBucket (clock_at now) ?k ?L ?w t
        = Some (fst (takeMemoryBucket (js_date now) ?k ?L ?w m),
                t(?k \<mapsto> \<lparr>rb_count = rb_count p + 1, rb_reset_at = rb_reset_at p\<rparr>))"
      using room b cfg(2) unfolding takePostgresBucket_def Let_def now_is row memory_running [of now m ?k, OF mem cfg(5)]
      by (auto simp: js_date_def us_per_ms_def)
    have "snd (takeMemoryBucket (js_date now) ?k ?L ?w m) = (cleanupExpiredMemoryBuckets (now div 1000) m)(?k \<mapsto> ?q)"
      using stays unfolding memory_running [of now m ?k, OF mem cfg(5)] by simp
    then have "takeMemoryBucket (js_date now) ?k ?L ?w m
        = (fst (takeMemoryBucket (js_date now) ?k ?L ?w m), (cleanupExpiredMemoryBuckets (now div 1000) m)(?k \<mapsto> ?q))"
      by (metis prod.collapse)
    from that [OF post this in_step_update [OF step cfg(5) keep]] row show ?thesis by simp
  qed
qed

lemma answers_in_step:
  assumes "in_step cfg now (lm_table l) (lm_memory l')" and "\<forall>x \<in> set xs. configured cfg x \<and> now \<le> cl_at x"
    and "sorted (map cl_at xs)" and "room (length xs) (lm_table l)" and "length xs \<le> 2147483647"
  shows "answers True xs l = answers False xs l'"
  using assms
proof (induction xs arbitrary: l l' now)
  case (Cons x xs)
  have step: "in_step cfg (cl_at x) (lm_table l) (lm_memory l')" using in_step_later Cons.prems(1,2) by simp
  have len: "room (Suc (length xs)) (lm_table l)" "length xs < 2147483647" using Cons.prems(4,5) by simp_all
  obtain r t' m' where pg: "takePostgresBucket (clock_at (cl_at x)) (cl_key x) (cl_limit x) (cl_window x) (lm_table l) = Some (r, t')"
    and mem: "takeMemoryBucket (js_date (cl_at x)) (cl_key x) (cl_limit x) (cl_window x) (lm_memory l') = (r, m')"
    and step': "in_step cfg (cl_at x) t' m'"
    and t': "t' = (lm_table l)(cl_key x \<mapsto> upsert_bucket (cl_at x) (max 1 (ceil_div (cl_window x) 1000)) (lm_table l (cl_key x)))"
    using take_same [OF step _ refl room_take(1) [OF len]] Cons.prems(2) by auto
  have "room (length xs) t'" unfolding t' by (rule room_take(2) [OF len])
  moreover have "\<forall>y \<in> set xs. configured cfg y \<and> cl_at x \<le> cl_at y" using Cons.prems(2,3) by auto
  ultimately have "answers True xs (l\<lparr>lm_table := t'\<rparr>) = answers False xs (l'\<lparr>lm_memory := m'\<rparr>)"
    using Cons.IH [of "cl_at x" "l\<lparr>lm_table := t'\<rparr>" "l'\<lparr>lm_memory := m'\<rparr>"] step' Cons.prems(3,5) by simp
  with pg mem show ?case by (simp add: takeRateLimit_def clock_at_def)
qed simp

text \<open>
  The fallback is no weaker than the limiter it stands in for: on every sequence of requests
  the buckets in memory and the buckets in Postgres give the same answers, with the same remaining
  requests and the same seconds to wait, when both start empty.
\<close>

theorem memory_limiter_refines_table:
  assumes "\<forall>x \<in> set xs. cfg (cl_key x) = (cl_limit x, cl_window x) \<and> 1 \<le> cl_limit x \<and> 1000 \<le> cl_window x
      \<and> cl_window x mod 1000 = 0 \<and> cl_at x mod 1000 = 0"
    and "sorted (map cl_at xs)" and "length xs \<le> 2147483647"
  shows "answers False xs no_buckets = answers True xs no_buckets"
proof (cases xs)
  case (Cons x ys)
  have "answers True xs no_buckets = answers False xs no_buckets"
  proof (rule answers_in_step)
    show "in_step cfg (cl_at x) (lm_table no_buckets) (lm_memory no_buckets)"
      by (simp add: no_buckets_def in_step_def corresponds_def live_row_def live_mem_def)
    show "\<forall>y \<in> set xs. configured cfg y \<and> cl_at x \<le> cl_at y"
      using assms(1,2) Cons by (auto simp: configured_def)
  qed (use assms in \<open>simp_all add: room_def no_buckets_def\<close>)
  then show ?thesis by simp
qed simp

theorem memory_limiter_refines_table_witness:
  "answers False [sample_call 0, sample_call 1000000, sample_call 60000000] no_buckets
   = answers True [sample_call 0, sample_call 1000000, sample_call 60000000] no_buckets"
  by (rule memory_limiter_refines_table [where cfg = "\<lambda>_. (1, 60000)"]) (simp_all add: sample_call_def)

end
