(* ===== verification/Webhook.thy ===== *)
theory Webhook
  imports Orders Replay Rate_Limit
begin

text \<open>
  The notifications of the acquirer: \<open>src/lib/payments/cloudpayments-webhook.ts\<close> (signature, payload,
  cross-check with the order), \<open>src/lib/payments/webhook-dedup.ts\<close> (the table of answered deliveries),
  \<open>src/lib/payments/cloudpayments-route.ts\<close> (the pipeline) and the routes \<open>check\<close> and \<open>fail\<close> of
  \<open>src/app/api/payments/webhooks/cloudpayments\<close>. The handler of a kind is an argument of the code and
  of the model: it works on the orders and on the rest of the world, and may throw after having
  changed both. The keyed hash and the hash are arguments. The audit rows and the mails are
  best effort and left out. What may fail in the infrastructure is an argument.
\<close>

section \<open>The payload\<close>

definition js_includes :: "js_text \<Rightarrow> js_text \<Rightarrow> bool" where
  "js_includes t s \<longleftrightarrow> list_ex (\<lambda>n. take (length s) (drop n t) = s) [0..<Suc (length t)]"

text \<open>\<open>String(a || b || '')\<close>.\<close>

fun first_truthy :: "js_runtime \<Rightarrow> json option list \<Rightarrow> js_text" where
  "first_truthy rt [] = []"
| "first_truthy rt (v # vs) =
     (case v of Some x \<Rightarrow> if js_truthy x then js_String rt x else first_truthy rt vs | None \<Rightarrow> first_truthy rt vs)"

definition getCloudPaymentsInvoiceId :: "js_runtime \<Rightarrow> json \<Rightarrow> js_text" where
  "getCloudPaymentsInvoiceId rt p = first_truthy rt [json_field p ''InvoiceId'', json_field p ''ExternalId'']"

definition getCloudPaymentsAccountId :: "js_runtime \<Rightarrow> json \<Rightarrow> js_text" where
  "getCloudPaymentsAccountId rt p = first_truthy rt [json_field p ''AccountId'']"

definition getCloudPaymentsEmail :: "js_runtime \<Rightarrow> json \<Rightarrow> js_text" where
  "getCloudPaymentsEmail rt p = first_truthy rt [json_field p ''Email'']"

text \<open>The secret, and the keyed hash of a body under it.\<close>

definition verifyCloudPaymentsHmac :: "(js_text \<Rightarrow> string) \<Rightarrow> bool \<Rightarrow> js_text \<Rightarrow> string option \<Rightarrow> bool" where
  "verifyCloudPaymentsHmac hmac secret_set message signature \<longleftrightarrow>
     (case signature of None \<Rightarrow> False | Some s \<Rightarrow> s \<noteq> '''' \<and> secret_set \<and> s = hmac message)"

definition verifyCloudPaymentsSignature ::
  "(js_text \<Rightarrow> string) \<Rightarrow> bool \<Rightarrow> js_text \<Rightarrow> string option \<Rightarrow> string option \<Rightarrow> bool" where
  "verifyCloudPaymentsSignature hmac secret_set rawBody xContentHmac contentHmac \<longleftrightarrow>
     verifyCloudPaymentsHmac hmac secret_set rawBody xContentHmac \<or> verifyCloudPaymentsHmac hmac secret_set rawBody contentHmac"

text \<open>\<open>None\<close>: the text is no JSON. A form sets each of its keys in turn, so the last one wins.\<close>

definition parseCloudPaymentsPayload :: "js_runtime \<Rightarrow> js_text \<Rightarrow> js_text option \<Rightarrow> json option" where
  "parseCloudPaymentsPayload rt rawBody contentType =
     (if (case contentType of None \<Rightarrow> False | Some t \<Rightarrow> js_includes t (js ''application/json''))
      then rt_json_parse rt rawBody
      else Some (JObj (rev (map (\<lambda>(k, v). (k, JStr v)) (rt_form_parse rt rawBody)))))"

definition text_field :: "json \<Rightarrow> string \<Rightarrow> js_text" where
  "text_field p k = (case json_field p k of Some (JStr t) \<Rightarrow> t | _ \<Rightarrow> [])"

definition SBP_METHOD_TOKENS :: "js_text list" where
  "SBP_METHOD_TOKENS =
     [js ''sbp'', js ''sbpqr'', js ''sbp_qr'', js ''fps'', js ''sbp_pay'', [1089, 1073, 1087],
      [1089, 1073, 1087, 32, 113, 114]]"

definition detectPaymentMethod :: "js_runtime \<Rightarrow> json \<Rightarrow> detected_method" where
  "detectPaymentMethod rt p =
     (if js_trim (text_field p ''CardType'') \<noteq> [] \<or> js_trim (text_field p ''CardLastFour'') \<noteq> [] then DetectedCard
      else
        let methodRaw = rt_lower rt (js_trim (text_field p ''PaymentMethod'')) in
        if methodRaw \<noteq> [] \<and> methodRaw \<in> set SBP_METHOD_TOKENS then DetectedSbp else DetectedUnknown)"

text \<open>\<open>Inl\<close> of the code the acquirer is answered with.\<close>

definition validateCloudPaymentsOrder :: "js_runtime \<Rightarrow> order_table \<Rightarrow> json \<Rightarrow> int + payment_order" where
  "validateCloudPaymentsOrder rt t p =
     (let invoiceId = getCloudPaymentsInvoiceId rt p in
      if invoiceId = [] then Inl 10
      else case getOrder t invoiceId of
        None \<Rightarrow> Inl 10
      | Some ord \<Rightarrow>
          let amount = (case json_field p ''Amount'' of None \<Rightarrow> NaN | Some v \<Rightarrow> js_Number rt v);
              accountId = getCloudPaymentsAccountId rt p;
              email = getCloudPaymentsEmail rt p
          in if amount \<noteq> Finite (od_amountRub ord) then Inl 12
             else if accountId \<noteq> [] \<and> accountId \<noteq> od_customerEmail ord then Inl 11
             else if email \<noteq> [] \<and> email \<noteq> od_customerEmail ord then Inl 11
             else if od_provider ord \<noteq> PrCloudPayments then Inl 10
             else Inr ord)"

definition readTransactionId :: "js_runtime \<Rightarrow> json \<Rightarrow> js_text option" where
  "readTransactionId rt p =
     (case json_field p ''TransactionId'' of
        None \<Rightarrow> None
      | Some JNull \<Rightarrow> None
      | Some v \<Rightarrow> (case js_trim (js_String rt v) of [] \<Rightarrow> None | s \<Rightarrow> Some s))"

text \<open>\<open>String(v ?? '')\<close>, and the four fields joined by the unit separator.\<close>

definition text_or_empty :: "js_runtime \<Rightarrow> json option \<Rightarrow> js_text" where
  "text_or_empty rt v = (case v of None \<Rightarrow> [] | Some JNull \<Rightarrow> [] | Some x \<Rightarrow> js_String rt x)"

definition computeRequestFingerprint :: "js_runtime \<Rightarrow> (js_text \<Rightarrow> string) \<Rightarrow> json \<Rightarrow> string" where
  "computeRequestFingerprint rt sha256 p =
     sha256 (join_with [31]
       [getCloudPaymentsInvoiceId rt p, text_or_empty rt (json_field p ''Amount''),
        text_or_empty rt (json_field p ''Email''), text_or_empty rt (json_field p ''AccountId'')])"

section \<open>The table of deliveries\<close>

datatype webhook_kind = KCheck | KPay | KFail

record wh_outcome =
  wo_status :: int
  wo_code :: int

record delivery_row =
  wd_provider :: string
  wd_kind :: webhook_kind
  wd_transaction_id :: js_text
  wd_invoice_id :: "js_text option"
  wd_outcome :: wh_outcome
  wd_request_fingerprint :: "string option"
  wd_received_at :: micros

type_synonym delivery_table = "delivery_row list"

definition delivery_key :: "delivery_row \<Rightarrow> string \<times> webhook_kind \<times> js_text" where
  "delivery_key r = (wd_provider r, wd_kind r, wd_transaction_id r)"

definition delivery_by_key :: "delivery_table \<Rightarrow> string \<times> webhook_kind \<times> js_text \<Rightarrow> delivery_row option" where
  "delivery_by_key t k = find_by delivery_key k t"

datatype delivery_lookup = DlHit wh_outcome | DlMiss | DlFingerprintMismatch string

definition lookupWebhookDelivery ::
  "string \<Rightarrow> webhook_kind \<Rightarrow> js_text \<Rightarrow> string option \<Rightarrow> delivery_table \<Rightarrow> delivery_lookup" where
  "lookupWebhookDelivery provider kind transactionId incoming t =
     (case delivery_by_key t (provider, kind, transactionId) of
        None \<Rightarrow> DlMiss
      | Some row \<Rightarrow>
          (case (if wd_request_fingerprint row = Some '''' then None else wd_request_fingerprint row, incoming) of
             (Some cached, Some new) \<Rightarrow> if cached \<noteq> new then DlFingerprintMismatch cached else DlHit (wd_outcome row)
           | _ \<Rightarrow> DlHit (wd_outcome row)))"

definition recordWebhookDelivery :: "delivery_row \<Rightarrow> delivery_table \<Rightarrow> delivery_table" where
  "recordWebhookDelivery r t = (if delivery_by_key t (delivery_key r) \<noteq> None then t else t @ [r])"

definition purgeStaleWebhookDeliveries :: "micros \<Rightarrow> int \<Rightarrow> delivery_table \<Rightarrow> delivery_table" where
  "purgeStaleWebhookDeliveries now maxAgeDays t = filter (\<lambda>r. \<not> wd_received_at r < now - maxAgeDays * us_per_day) t"

section \<open>The pipeline\<close>

record 'w pay_state =
  ps_world :: "order_table \<times> 'w"
  ps_deliveries :: delivery_table
  ps_limiter :: limiter

type_synonym 'w handler = "json \<Rightarrow> order_table \<times> 'w \<Rightarrow> (exn + unit) \<times> order_table \<times> 'w"

record pipeline_result =
  pl_outcome :: wh_outcome
  pl_invoiceId :: js_text
  pl_orderInvoiceId :: "js_text option"

definition runWebhookPipeline ::
  "js_runtime \<Rightarrow> 'w handler option \<Rightarrow> json \<Rightarrow> order_table \<times> 'w \<Rightarrow> (exn + pipeline_result) \<times> order_table \<times> 'w" where
  "runWebhookPipeline rt handler p w =
     (let invoiceId = getCloudPaymentsInvoiceId rt p;
          ord = (if invoiceId = [] then None else getOrder (fst w) invoiceId);
          answer = (\<lambda>code. \<lparr>pl_outcome = \<lparr>wo_status = 200, wo_code = code\<rparr>, pl_invoiceId = invoiceId,
                            pl_orderInvoiceId = map_option od_invoiceId ord\<rparr>)
      in case validateCloudPaymentsOrder rt (fst w) p of
           Inl code \<Rightarrow> (Inr (answer code), w)
         | Inr _ \<Rightarrow>
             (case handler of
                None \<Rightarrow> (Inr (answer 0), w)
              | Some h \<Rightarrow>
                  (case h p w of
                     (Inl e, w') \<Rightarrow> (Inl e, w')
                   | (Inr _, w') \<Rightarrow> (Inr (answer 0), w'))))"

text \<open>
  Where the infrastructure may fail: before the handler (no connection in time, the lock, the
  lookup), when the delivery is recorded, and when it is recorded after the fallback.
\<close>

record webhook_faults =
  wf_before :: bool
  wf_record :: bool
  wf_fallback :: bool

datatype wh_response = WhAnswer wh_outcome bool | WhTooMany int

definition PROVIDER :: string where "PROVIDER = ''cloudpayments''"

definition delivery_of :: "micros \<Rightarrow> webhook_kind \<Rightarrow> js_text \<Rightarrow> string \<Rightarrow> pipeline_result \<Rightarrow> delivery_row" where
  "delivery_of now kind transactionId fingerprint r =
     \<lparr>wd_provider = PROVIDER, wd_kind = kind, wd_transaction_id = transactionId,
      wd_invoice_id = Some (case pl_orderInvoiceId r of Some i \<Rightarrow> i | None \<Rightarrow> pl_invoiceId r),
      wd_outcome = pl_outcome r, wd_request_fingerprint = Some fingerprint, wd_received_at = now\<rparr>"

definition processSerialized ::
  "js_runtime \<Rightarrow> micros \<Rightarrow> webhook_faults \<Rightarrow> webhook_kind \<Rightarrow> 'w handler option \<Rightarrow> json \<Rightarrow> js_text \<Rightarrow> string
     \<Rightarrow> 'w pay_state \<Rightarrow> (exn + wh_response) \<times> 'w pay_state" where
  "processSerialized rt now faults kind handler p transactionId fingerprint s =
     (if wf_before faults then (Inl (JsError ''pool.connect() timed out''), s)
      else case lookupWebhookDelivery PROVIDER kind transactionId (Some fingerprint) (ps_deliveries s) of
        DlHit out \<Rightarrow> (Inr (WhAnswer out True), s)
      | _ \<Rightarrow>
          (case runWebhookPipeline rt handler p (ps_world s) of
             (Inl e, w) \<Rightarrow> (Inl e, s\<lparr>ps_world := w\<rparr>)
           | (Inr r, w) \<Rightarrow>
               (Inr (WhAnswer (pl_outcome r) False),
                s\<lparr>ps_world := w,
                  ps_deliveries :=
                    (if wf_record faults then ps_deliveries s
                     else recordWebhookDelivery (delivery_of now kind transactionId fingerprint r) (ps_deliveries s))\<rparr>)))"

record wh_request =
  wq_rawBody :: js_text
  wq_xContentHmac :: "string option"
  wq_contentHmac :: "string option"
  wq_contentType :: "js_text option"
  wq_xRealIp :: "string option"
  wq_cfConnectingIp :: "string option"

definition kind_text :: "webhook_kind \<Rightarrow> string" where
  "kind_text k = (case k of KCheck \<Rightarrow> ''check'' | KPay \<Rightarrow> ''pay'' | KFail \<Rightarrow> ''fail'')"

text \<open>The path without the lock: the same pipeline, and the delivery recorded when it can be.\<close>

definition process_fallback ::
  "js_runtime \<Rightarrow> micros \<Rightarrow> webhook_faults \<Rightarrow> bool \<Rightarrow> webhook_kind \<Rightarrow> 'w handler option \<Rightarrow> json \<Rightarrow> js_text \<Rightarrow> string
     \<Rightarrow> 'w pay_state \<Rightarrow> (exn + wh_response) \<times> 'w pay_state" where
  "process_fallback rt now faults dedupEnabled kind handler p transactionId fingerprint s =
     (case runWebhookPipeline rt handler p (ps_world s) of
        (Inl e, w) \<Rightarrow> (Inl e, s\<lparr>ps_world := w\<rparr>)
      | (Inr r, w) \<Rightarrow>
          (Inr (WhAnswer (pl_outcome r) False),
           s\<lparr>ps_world := w,
             ps_deliveries :=
               (if dedupEnabled \<and> \<not> wf_fallback faults
                   \<and> (case lookupWebhookDelivery PROVIDER kind transactionId (Some fingerprint) (ps_deliveries s) of
                        DlHit _ \<Rightarrow> False | _ \<Rightarrow> True)
                then recordWebhookDelivery (delivery_of now kind transactionId fingerprint r) (ps_deliveries s)
                else ps_deliveries s)\<rparr>))"

definition handleCloudPaymentsWebhook ::
  "js_runtime \<Rightarrow> (js_text \<Rightarrow> string) \<Rightarrow> bool \<Rightarrow> (js_text \<Rightarrow> string) \<Rightarrow> bool \<Rightarrow> bool \<Rightarrow> clock \<Rightarrow> webhook_faults \<Rightarrow>
   webhook_kind \<Rightarrow> 'w handler option \<Rightarrow> wh_request \<Rightarrow> 'w pay_state \<Rightarrow> (exn + wh_response) \<times> 'w pay_state" where
  "handleCloudPaymentsWebhook rt hmac secret_set sha256 postgres up c faults kind handler q s =
     (if \<not> verifyCloudPaymentsSignature hmac secret_set (wq_rawBody q) (wq_xContentHmac q) (wq_contentHmac q)
      then (Inr (WhAnswer \<lparr>wo_status = 401, wo_code = 13\<rparr> False), s)
      else case enforceRateLimit up c (wq_xRealIp q) (wq_cfConnectingIp q)
             (''webhook:cloudpayments:'' @ kind_text kind @ '':ip'') 60 60000 (ps_limiter s) of
        (Some retry, l) \<Rightarrow> (Inr (WhTooMany retry), s\<lparr>ps_limiter := l\<rparr>)
      | (None, l) \<Rightarrow>
          let s1 = s\<lparr>ps_limiter := l\<rparr> in
          case parseCloudPaymentsPayload rt (wq_rawBody q) (wq_contentType q) of
            None \<Rightarrow> (Inr (WhAnswer \<lparr>wo_status = 400, wo_code = 13\<rparr> False), s1)
          | Some JNull \<Rightarrow> (Inl TypeErrorUndefined, s1)
          | Some p \<Rightarrow>
              (case readTransactionId rt p of
                 None \<Rightarrow> (Inr (WhAnswer \<lparr>wo_status = 400, wo_code = 13\<rparr> False), s1)
               | Some transactionId \<Rightarrow>
                   let fingerprint = computeRequestFingerprint rt sha256 p;
                       dedup = postgres \<and> fingerprint \<noteq> '''' in
                   if dedup
                   then (case processSerialized rt (pg_now c) faults kind handler p transactionId fingerprint s1 of
                           (Inr r, s2) \<Rightarrow> (Inr r, s2)
                         | (Inl _, s2) \<Rightarrow> process_fallback rt (pg_now c) faults True kind handler p transactionId fingerprint s2)
                   else process_fallback rt (pg_now c) faults False kind handler p transactionId fingerprint s1))"

text \<open>The routes: \<open>check\<close> has no handler, \<open>fail\<close> marks the order failed.\<close>

definition payload_of :: "(string \<times> json option) list \<Rightarrow> payload" where
  "payload_of fs = [(k, v). (k, Some v) \<leftarrow> fs]"

definition check_route_handler :: "'w handler option" where
  "check_route_handler = None"

definition fail_route_handler :: "js_runtime \<Rightarrow> millis \<Rightarrow> 'w handler" where
  "fail_route_handler rt now p w =
     (case markOrderFailed rt now (getCloudPaymentsInvoiceId rt p)
             (Some (payload_of [(''transactionId'', json_field p ''TransactionId''), (''reason'', json_field p ''Reason''),
                                (''reasonCode'', json_field p ''ReasonCode'')])) (fst w) of
        Inl e \<Rightarrow> (Inl e, w)
      | Inr (_, t) \<Rightarrow> (Inr (), t, snd w))"

section \<open>What reaches the pipeline\<close>

text \<open>A request that passes the guards: its payload, transaction and fingerprint.\<close>

definition webhook_entry ::
  "js_runtime \<Rightarrow> (js_text \<Rightarrow> string) \<Rightarrow> bool \<Rightarrow> (js_text \<Rightarrow> string) \<Rightarrow> wh_request \<Rightarrow> (json \<times> js_text \<times> string) option" where
  "webhook_entry rt hmac secret_set sha256 q =
     (if verifyCloudPaymentsSignature hmac secret_set (wq_rawBody q) (wq_xContentHmac q) (wq_contentHmac q)
      then (case parseCloudPaymentsPayload rt (wq_rawBody q) (wq_contentType q) of
              None \<Rightarrow> None
            | Some JNull \<Rightarrow> None
            | Some p \<Rightarrow> map_option (\<lambda>i. (p, i, computeRequestFingerprint rt sha256 p)) (readTransactionId rt p))
      else None)"

definition webhook_scope :: "webhook_kind \<Rightarrow> string" where
  "webhook_scope kind = ''webhook:cloudpayments:'' @ kind_text kind @ '':ip''"

lemma handle_refused:
  assumes "webhook_entry rt hmac secret_set sha256 q = None
      \<or> fst (enforceRateLimit up c (wq_xRealIp q) (wq_cfConnectingIp q) (webhook_scope kind) 60 60000 (ps_limiter s)) \<noteq> None"
  shows "ps_world (snd (handleCloudPaymentsWebhook rt hmac secret_set sha256 postgres up c faults kind h q s)) = ps_world s"
    and "ps_deliveries (snd (handleCloudPaymentsWebhook rt hmac secret_set sha256 postgres up c faults kind h q s)) = ps_deliveries s"
  using assms
  by (auto simp: handleCloudPaymentsWebhook_def webhook_entry_def webhook_scope_def Let_def
      split: option.splits prod.splits if_splits json.splits)

lemma handle_entered:
  assumes "webhook_entry rt hmac secret_set sha256 q = Some (p, i, fp)"
    and "enforceRateLimit up c (wq_xRealIp q) (wq_cfConnectingIp q) (webhook_scope kind) 60 60000 (ps_limiter s) = (None, l)"
  shows "handleCloudPaymentsWebhook rt hmac secret_set sha256 postgres up c faults kind h q s
    = (if postgres \<and> fp \<noteq> ''''
       then (case processSerialized rt (pg_now c) faults kind h p i fp (s\<lparr>ps_limiter := l\<rparr>) of
               (Inr r, s2) \<Rightarrow> (Inr r, s2)
             | (Inl _, s2) \<Rightarrow> process_fallback rt (pg_now c) faults True kind h p i fp s2)
       else process_fallback rt (pg_now c) faults False kind h p i fp (s\<lparr>ps_limiter := l\<rparr>))"
  using assms
  by (auto simp: handleCloudPaymentsWebhook_def webhook_entry_def webhook_scope_def Let_def
      split: option.splits if_splits json.splits)

lemma handle_cases:
  obtains (refused) "ps_world (snd (handleCloudPaymentsWebhook rt hmac secret_set sha256 postgres up c faults kind h q s)) = ps_world s"
      "ps_deliveries (snd (handleCloudPaymentsWebhook rt hmac secret_set sha256 postgres up c faults kind h q s)) = ps_deliveries s"
  | (entered) p i fp l where "webhook_entry rt hmac secret_set sha256 q = Some (p, i, fp)"
      "enforceRateLimit up c (wq_xRealIp q) (wq_cfConnectingIp q) (webhook_scope kind) 60 60000 (ps_limiter s) = (None, l)"
proof (cases "webhook_entry rt hmac secret_set sha256 q = None
      \<or> fst (enforceRateLimit up c (wq_xRealIp q) (wq_cfConnectingIp q) (webhook_scope kind) 60 60000 (ps_limiter s)) \<noteq> None")
  case True
  show ?thesis by (rule that(1)) (rule handle_refused [OF True])+
next
  case False
  then obtain p i fp where e: "webhook_entry rt hmac secret_set sha256 q = Some (p, i, fp)" by auto
  obtain x l where "enforceRateLimit up c (wq_xRealIp q) (wq_cfConnectingIp q) (webhook_scope kind) 60 60000 (ps_limiter s) = (x, l)"
    by (cases "enforceRateLimit up c (wq_xRealIp q) (wq_cfConnectingIp q) (webhook_scope kind) 60 60000 (ps_limiter s)")
  with False that(2) [OF e] show ?thesis by auto
qed

section \<open>Only a matching order is touched\<close>

lemma pipeline_refused:
  "validateCloudPaymentsOrder rt (fst w) p = Inl code \<Longrightarrow> snd (runWebhookPipeline rt h p w) = w"
  by (simp add: runWebhookPipeline_def Let_def)

lemma pipeline_changes:
  "snd (runWebhookPipeline rt h p w) \<noteq> w \<Longrightarrow> \<exists>ord. validateCloudPaymentsOrder rt (fst w) p = Inr ord"
  using pipeline_refused [of rt w p] by (cases "validateCloudPaymentsOrder rt (fst w) p") blast+

lemma processSerialized_world:
  "ps_world (snd (processSerialized rt now faults kind h p i fp s)) \<in> {ps_world s, snd (runWebhookPipeline rt h p (ps_world s))}"
  by (auto simp: processSerialized_def split: delivery_lookup.splits prod.splits sum.splits)

lemma process_fallback_world:
  "ps_world (snd (process_fallback rt now faults dd kind h p i fp s)) = snd (runWebhookPipeline rt h p (ps_world s))"
  by (simp add: process_fallback_def split: prod.splits sum.splits)

text \<open>The pipeline runs at most twice in a request.\<close>

lemma entered_world:
  assumes "webhook_entry rt hmac secret_set sha256 q = Some (p, i, fp)"
    and "enforceRateLimit up c (wq_xRealIp q) (wq_cfConnectingIp q) (webhook_scope kind) 60 60000 (ps_limiter s) = (None, l)"
  shows "ps_world (snd (handleCloudPaymentsWebhook rt hmac secret_set sha256 postgres up c faults kind h q s))
    \<in> {ps_world s, snd (runWebhookPipeline rt h p (ps_world s)),
       snd (runWebhookPipeline rt h p (snd (runWebhookPipeline rt h p (ps_world s))))}"
proof -
  let ?s1 = "s\<lparr>ps_limiter := l\<rparr>"
  obtain r s2 where ser: "processSerialized rt (pg_now c) faults kind h p i fp ?s1 = (r, s2)" by fastforce
  have "ps_world s2 \<in> {ps_world s, snd (runWebhookPipeline rt h p (ps_world s))}"
    using processSerialized_world [of rt "pg_now c" faults kind h p i fp ?s1] ser by simp
  then show ?thesis
    unfolding handle_entered [OF assms] ser
    by (cases r) (auto simp: process_fallback_world)
qed

lemma validate_accepts:
  assumes "validateCloudPaymentsOrder rt t p = Inr ord"
  shows "getOrder t (getCloudPaymentsInvoiceId rt p) = Some ord" and "od_provider ord = PrCloudPayments"
    and "\<exists>v. json_field p ''Amount'' = Some v \<and> js_Number rt v = Finite (od_amountRub ord)"
    and "getCloudPaymentsAccountId rt p \<in> {[], od_customerEmail ord}"
    and "getCloudPaymentsEmail rt p \<in> {[], od_customerEmail ord}"
  using assms by (auto simp: validateCloudPaymentsOrder_def Let_def split: if_splits option.splits)

text \<open>
  C7: a webhook changes an order, or anything else its handler writes, only when one of the two
  signature headers is the keyed hash of the body under a configured secret, the body names a
  transaction, and it names an order of the acquirer whose amount it states exactly and whose
  customer it does not contradict. Whatever the handler, the kind and the failures of the infrastructure.
\<close>

theorem webhook_acts_only_on_match:
  assumes call: "handleCloudPaymentsWebhook rt hmac secret_set sha256 postgres up c faults kind h q s = (r, s')"
    and changed: "ps_world s' \<noteq> ps_world s"
  shows "secret_set \<and> Some (hmac (wq_rawBody q)) \<in> {wq_xContentHmac q, wq_contentHmac q}
    \<and> (\<exists>p ord. parseCloudPaymentsPayload rt (wq_rawBody q) (wq_contentType q) = Some p \<and> readTransactionId rt p \<noteq> None
        \<and> getOrder (fst (ps_world s)) (getCloudPaymentsInvoiceId rt p) = Some ord \<and> od_provider ord = PrCloudPayments
        \<and> (\<exists>v. json_field p ''Amount'' = Some v \<and> js_Number rt v = Finite (od_amountRub ord))
        \<and> getCloudPaymentsAccountId rt p \<in> {[], od_customerEmail ord}
        \<and> getCloudPaymentsEmail rt p \<in> {[], od_customerEmail ord})"
proof (cases rule: handle_cases [of rt hmac secret_set sha256 postgres up c faults kind h q s])
  case refused
  with call changed show ?thesis by simp
next
  case (entered p i fp l)
  have "snd (runWebhookPipeline rt h p (ps_world s)) \<noteq> ps_world s"
    using entered_world [OF entered, of postgres faults h] call changed by auto
  then obtain ord where "validateCloudPaymentsOrder rt (fst (ps_world s)) p = Inr ord" using pipeline_changes by blast
  with validate_accepts entered(1) show ?thesis
    by (auto simp: webhook_entry_def verifyCloudPaymentsSignature_def verifyCloudPaymentsHmac_def
        split: if_splits option.splits json.splits)
qed

section \<open>Deliveries are answered once\<close>

interpretation deliveries: response_cache delivery_key delivery_by_key recordWebhookDelivery
  by unfold_locales (auto simp: delivery_by_key_def recordWebhookDelivery_def find_by_append find_by_single
      split: option.split)

lemma purge_keeps_delivery:
  assumes "delivery_by_key t k = Some r" and "now - days * us_per_day \<le> wd_received_at r"
  shows "delivery_by_key (purgeStaleWebhookDeliveries now days t) k = Some r"
  using assms by (induction t) (auto simp: delivery_by_key_def purgeStaleWebhookDeliveries_def find_by_def split: if_splits)

text \<open>
  Everything that happens to the state: webhooks of any kind with any handler, the purge of deliveries
  older than 90 days by an instant, and any other change of the world and of the limiter.
\<close>

inductive webhook_step ::
  "js_runtime \<Rightarrow> (js_text \<Rightarrow> string) \<Rightarrow> bool \<Rightarrow> (js_text \<Rightarrow> string) \<Rightarrow> micros \<Rightarrow> 'w pay_state \<Rightarrow> 'w pay_state \<Rightarrow> bool"
  for rt hmac secret_set sha256 horizon where
  step_webhook: "snd (handleCloudPaymentsWebhook rt hmac secret_set sha256 True up c faults kind h q s) = s'
    \<Longrightarrow> webhook_step rt hmac secret_set sha256 horizon s s'"
| step_purge_deliveries: "now \<le> horizon
    \<Longrightarrow> webhook_step rt hmac secret_set sha256 horizon s
          (s\<lparr>ps_deliveries := purgeStaleWebhookDeliveries now 90 (ps_deliveries s)\<rparr>)"
| step_elsewhere: "webhook_step rt hmac secret_set sha256 horizon s (s\<lparr>ps_world := w, ps_limiter := l\<rparr>)"

lemma serialized_deliveries:
  "ps_deliveries (snd (processSerialized rt now faults kind h p i fp s))
     \<in> insert (ps_deliveries s) {recordWebhookDelivery x (ps_deliveries s) | x. True}"
  by (auto simp: processSerialized_def split: delivery_lookup.splits prod.splits sum.splits)

lemma fallback_deliveries:
  "ps_deliveries (snd (process_fallback rt now faults dd kind h p i fp s))
     \<in> insert (ps_deliveries s) {recordWebhookDelivery x (ps_deliveries s) | x. True}"
  by (auto simp: process_fallback_def split: prod.splits sum.splits)

definition keeps_delivery :: "delivery_row \<Rightarrow> 'w pay_state \<Rightarrow> bool" where
  "keeps_delivery r s \<longleftrightarrow> delivery_by_key (ps_deliveries s) (delivery_key r) = Some r"

lemma recorded_keeps:
  "ps_deliveries s' \<in> insert (ps_deliveries s) {recordWebhookDelivery x (ps_deliveries s) | x. True} \<Longrightarrow>
   keeps_delivery r s \<Longrightarrow> keeps_delivery r s'"
  unfolding keeps_delivery_def using deliveries.first_stays [of "ps_deliveries s" "delivery_key r" r] by auto

lemma webhook_keeps_delivery:
  assumes "keeps_delivery r s"
  shows "keeps_delivery r (snd (handleCloudPaymentsWebhook rt hmac secret_set sha256 postgres up c faults kind h q s))"
proof (cases rule: handle_cases [of rt hmac secret_set sha256 postgres up c faults kind h q s])
  case refused
  with assms show ?thesis by (simp add: keeps_delivery_def)
next
  case (entered p i fp l)
  let ?s1 = "s\<lparr>ps_limiter := l\<rparr>"
  have s1: "keeps_delivery r ?s1" using assms by (simp add: keeps_delivery_def)
  obtain x s2 where ser: "processSerialized rt (pg_now c) faults kind h p i fp ?s1 = (x, s2)" by fastforce
  have "keeps_delivery r s2"
    using recorded_keeps [OF _ s1] serialized_deliveries [of rt "pg_now c" faults kind h p i fp ?s1] ser by simp
  then show ?thesis
    unfolding handle_entered [OF entered] ser
    using recorded_keeps [OF fallback_deliveries] s1 by (cases x) auto
qed

interpretation webhook_run: kept_by_steps "webhook_step rt hmac secret_set sha256 (wd_received_at r + 90 * us_per_day)" "keeps_delivery r"
  for rt hmac secret_set sha256 r
proof
  fix s s' :: "'w pay_state"
  assume "keeps_delivery r s" and "webhook_step rt hmac secret_set sha256 (wd_received_at r + 90 * us_per_day) s s'"
  from this(2,1) show "keeps_delivery r s'"
  proof cases
    case step_webhook
    then show ?thesis using webhook_keeps_delivery \<open>keeps_delivery r s\<close> by blast
  next
    case (step_purge_deliveries now)
    then show ?thesis using \<open>keeps_delivery r s\<close> purge_keeps_delivery [of "ps_deliveries s" "delivery_key r" r now 90]
      by (simp add: keeps_delivery_def)
  qed (simp add: keeps_delivery_def)
qed

lemma answered_is_recorded:
  assumes entry: "webhook_entry rt hmac secret_set sha256 q = Some (p, i, fp)" "fp \<noteq> ''''"
    and rl: "enforceRateLimit up c (wq_xRealIp q) (wq_cfConnectingIp q) (webhook_scope kind) 60 60000 (ps_limiter s) = (None, l)"
    and call: "handleCloudPaymentsWebhook rt hmac secret_set sha256 True up c faults kind h q s = (Inr (WhAnswer out False), s1)"
    and new: "delivery_by_key (ps_deliveries s) (PROVIDER, kind, i) = None"
    and up: "\<not> wf_record faults" "\<not> wf_fallback faults"
  shows "\<exists>r. delivery_key r = (PROVIDER, kind, i) \<and> wd_outcome r = out \<and> wd_request_fingerprint r = Some fp
    \<and> wd_received_at r = pg_now c \<and> keeps_delivery r s1"
proof -
  let ?s = "s\<lparr>ps_limiter := l\<rparr>"
  have miss: "lookupWebhookDelivery PROVIDER kind i (Some fp) (ps_deliveries s) = DlMiss"
    using new by (simp add: lookupWebhookDelivery_def)
  obtain x where s1: "ps_deliveries s1 = recordWebhookDelivery (delivery_of (pg_now c) kind i fp x) (ps_deliveries s)"
    and out: "pl_outcome x = out"
    using call miss up unfolding handle_entered [OF entry(1) rl]
    by (auto simp: entry(2) processSerialized_def process_fallback_def
        split: prod.splits sum.splits if_splits)
  let ?r = "delivery_of (pg_now c) kind i fp x"
  have "delivery_key ?r = (PROVIDER, kind, i)" by (simp add: delivery_of_def delivery_key_def)
  then have "keeps_delivery ?r s1"
    using deliveries.lookup_store [of ?r "ps_deliveries s"] new s1 by (simp add: keeps_delivery_def)
  then show ?thesis
    using out by (intro exI [of _ ?r]) (simp add: delivery_of_def delivery_key_def)
qed

text \<open>
  C6: a delivery is processed once. After a webhook was answered and recorded, then for 90 days,
  whatever other webhooks, purges and changes happen, a delivery of the same kind with the
  same transaction and the same invoice, amount, e-mail and account is answered with the stored answer, and
  neither the orders nor anything else is touched.
\<close>

theorem webhook_replayed:
  assumes first: "webhook_entry rt hmac secret_set sha256 q = Some (p, i, fp)" "fp \<noteq> ''''"
    and rl: "enforceRateLimit up c (wq_xRealIp q) (wq_cfConnectingIp q) (webhook_scope kind) 60 60000 (ps_limiter s) = (None, l)"
    and call: "handleCloudPaymentsWebhook rt hmac secret_set sha256 True up c faults kind h q s = (Inr (WhAnswer out False), s1)"
    and new: "delivery_by_key (ps_deliveries s) (PROVIDER, kind, i) = None"
    and faults: "\<not> wf_record faults" "\<not> wf_fallback faults"
    and later: "(webhook_step rt hmac secret_set sha256 (pg_now c + 90 * us_per_day))\<^sup>*\<^sup>* s1 s2"
    and again: "webhook_entry rt hmac secret_set sha256 q' = Some (p', i, fp)" "\<not> wf_before faults'"
    and rl': "enforceRateLimit up' c' (wq_xRealIp q') (wq_cfConnectingIp q') (webhook_scope kind) 60 60000 (ps_limiter s2) = (None, l')"
  shows "handleCloudPaymentsWebhook rt hmac secret_set sha256 True up' c' faults' kind h' q' s2
    = (Inr (WhAnswer out True), s2\<lparr>ps_limiter := l'\<rparr>)"
proof -
  obtain r where r: "delivery_key r = (PROVIDER, kind, i)" "wd_outcome r = out" "wd_request_fingerprint r = Some fp"
    "wd_received_at r = pg_now c" and k: "keeps_delivery r s1"
    using answered_is_recorded [OF first rl call new faults] by blast
  have "keeps_delivery r s2" using webhook_run.run_good [of rt hmac secret_set sha256 r s1 s2] later k r(4) by simp
  then have "lookupWebhookDelivery PROVIDER kind i (Some fp) (ps_deliveries s2) = DlHit out"
    using r first(2) by (simp add: keeps_delivery_def lookupWebhookDelivery_def)
  then show ?thesis
    unfolding handle_entered [OF again(1) rl'] by (simp add: processSerialized_def first(2) again(2))
qed

text \<open>A refusal of the bank that is delivered twice: the order fails once, with one event.\<close>

definition sample_fail_payload :: json where
  "sample_fail_payload =
     JObj [(js ''InvoiceId'', JStr (js ''lc_1'')), (js ''Amount'', JStr (js ''1500.00'')),
           (js ''TransactionId'', JNum (Finite 42)), (js ''Reason'', JStr (js ''InsufficientFunds''))]"

definition pay_runtime :: js_runtime where
  "pay_runtime = sample_runtime\<lparr>rt_json_parse := (\<lambda>t. if t = [1] then Some sample_fail_payload else None)\<rparr>"

definition sample_webhook :: wh_request where
  "sample_webhook = \<lparr>wq_rawBody = [1], wq_xContentHmac = Some ''sig'', wq_contentHmac = None,
     wq_contentType = Some (js ''application/json''), wq_xRealIp = Some ''1.2.3.4'', wq_cfConnectingIp = None\<rparr>"

definition sample_pay_state :: "unit pay_state" where
  "sample_pay_state = \<lparr>ps_world = ([sample_order\<lparr>od_status := StPending\<rparr>], ()), ps_deliveries = [], ps_limiter = no_buckets\<rparr>"

definition no_faults :: webhook_faults where
  "no_faults = \<lparr>wf_before = False, wf_record = False, wf_fallback = False\<rparr>"

lemma sample_entry:
  "webhook_entry pay_runtime (\<lambda>_. ''sig'') True (\<lambda>_. ''fp'') sample_webhook = Some (sample_fail_payload, js ''42'', ''fp'')"
  by (simp add: webhook_entry_def sample_webhook_def verifyCloudPaymentsSignature_def verifyCloudPaymentsHmac_def
      parseCloudPaymentsPayload_def js_includes_def pay_runtime_def sample_runtime_def sample_fail_payload_def
      readTransactionId_def json_field_def js_def js_trim_def js_space_def computeRequestFingerprint_def upt_rec)

lemma sample_limit:
  "enforceRateLimit False (clock_at 0) (wq_xRealIp sample_webhook) (wq_cfConnectingIp sample_webhook) (webhook_scope KFail)
     60 60000 no_buckets
   = (None, no_buckets\<lparr>lm_memory := [''webhook:cloudpayments:fail:ip:1.2.3.4'' \<mapsto> \<lparr>mb_count = 1, mb_resetAt = 60000\<rparr>]\<rparr>)"
  by (simp add: enforceRateLimit_def takeRateLimit_def takeMemoryBucket_def cleanupExpiredMemoryBuckets_def
      no_buckets_def clock_at_def js_date_def sample_webhook_def getClientIp_def webhook_scope_def kind_text_def Let_def)

definition failed_sample :: payment_order where
  "failed_sample = failed_update pay_runtime 5000
     (Some [(''transactionId'', JNum (Finite 42)), (''reason'', JStr (js ''InsufficientFunds''))])
     (mapRowToOrder (sample_order\<lparr>od_status := StPending\<rparr>))"

lemma sample_pipeline:
  "runWebhookPipeline pay_runtime (Some (fail_route_handler pay_runtime 5000)) sample_fail_payload (ps_world sample_pay_state)
   = (Inr \<lparr>pl_outcome = \<lparr>wo_status = 200, wo_code = 0\<rparr>, pl_invoiceId = js ''lc_1'', pl_orderInvoiceId = Some (js ''lc_1'')\<rparr>,
      [toInsertValues failed_sample], ())"
proof -
  have inv: "getCloudPaymentsInvoiceId pay_runtime sample_fail_payload = js ''lc_1''"
    by (simp add: getCloudPaymentsInvoiceId_def sample_fail_payload_def json_field_def js_def)
  have rest: "getCloudPaymentsAccountId pay_runtime sample_fail_payload = []" "getCloudPaymentsEmail pay_runtime sample_fail_payload = []"
    "js_Number pay_runtime (JStr (js ''1500.00'')) = Finite 1500"
    "json_field sample_fail_payload ''Amount'' = Some (JStr (js ''1500.00''))"
    by (simp_all add: getCloudPaymentsAccountId_def getCloudPaymentsEmail_def sample_fail_payload_def json_field_def js_def
        pay_runtime_def sample_runtime_def)
  let ?t = "[sample_order\<lparr>od_status := StPending\<rparr>]"
  have row: "order_row_by_id ?t (js ''lc_1'') = Some (sample_order\<lparr>od_status := StPending\<rparr>)"
    by (simp add: order_row_by_id_def find_by_def sample_order_def)
  then have get: "getOrder ?t (js ''lc_1'') = Some (mapRowToOrder (sample_order\<lparr>od_status := StPending\<rparr>))"
    by (simp add: getOrder_def)
  have ne: "js ''lc_1'' \<noteq> []" by (simp add: js_def)
  have val: "validateCloudPaymentsOrder pay_runtime ?t sample_fail_payload = Inr (mapRowToOrder (sample_order\<lparr>od_status := StPending\<rparr>))"
    unfolding validateCloudPaymentsOrder_def inv get rest Let_def
    using ne rest(3) by (simp add: mapRowToOrder_def) (simp add: sample_order_def)
  have pay: "payload_of [(''transactionId'', json_field sample_fail_payload ''TransactionId''),
      (''reason'', json_field sample_fail_payload ''Reason''), (''reasonCode'', json_field sample_fail_payload ''ReasonCode'')]
    = [(''transactionId'', JNum (Finite 42)), (''reason'', JStr (js ''InsufficientFunds''))]"
    by (simp add: payload_of_def sample_fail_payload_def json_field_def js_def)
  have chk: "order_check failed_sample" "od_invoiceId (toInsertValues failed_sample) = js ''lc_1''"
    by (simp_all add: failed_sample_def order_check_def updates Let_def mapRowToOrder_def sample_order_def toInsertValues_def)
  have mark: "markOrderFailed pay_runtime 5000 (js ''lc_1'')
      (Some [(''transactionId'', JNum (Finite 42)), (''reason'', JStr (js ''InsufficientFunds''))]) ?t
    = Inr ((Some failed_sample, maybeEmitStatusChange (Some failed_sample)), [toInsertValues failed_sample])"
    using row chk by (simp add: markOrderFailed_def updateOrder_def Let_def failed_sample_def [symmetric] replace_row_def)
      (simp add: sample_order_def)
  show ?thesis
    unfolding runWebhookPipeline_def Let_def
    using val mark pay ne get inv
    by (simp add: sample_pay_state_def fail_route_handler_def mapRowToOrder_def) (simp add: sample_order_def)
qed

theorem webhook_replayed_witness:
  "\<exists>s1. handleCloudPaymentsWebhook pay_runtime (\<lambda>_. ''sig'') True (\<lambda>_. ''fp'') True False (clock_at 0) no_faults KFail
          (Some (fail_route_handler pay_runtime 5000)) sample_webhook sample_pay_state
        = (Inr (WhAnswer \<lparr>wo_status = 200, wo_code = 0\<rparr> False), s1)
     \<and> map od_status (fst (ps_world s1)) = [StFailed]
     \<and> (\<exists>l. handleCloudPaymentsWebhook pay_runtime (\<lambda>_. ''sig'') True (\<lambda>_. ''fp'') True False (clock_at 0) no_faults KFail
          (Some (fail_route_handler pay_runtime 9000)) sample_webhook (s1\<lparr>ps_limiter := no_buckets\<rparr>)
        = (Inr (WhAnswer \<lparr>wo_status = 200, wo_code = 0\<rparr> True), s1\<lparr>ps_limiter := l\<rparr>))"
proof -
  obtain l where rl: "enforceRateLimit False (clock_at 0) (wq_xRealIp sample_webhook) (wq_cfConnectingIp sample_webhook)
      (webhook_scope KFail) 60 60000 no_buckets = (None, l)"
    using sample_limit by blast
  have lim: "ps_limiter sample_pay_state = no_buckets" by (simp add: sample_pay_state_def)
  note entered = handle_entered [where s = sample_pay_state, unfolded lim, OF sample_entry rl]
  obtain s1 where s1: "handleCloudPaymentsWebhook pay_runtime (\<lambda>_. ''sig'') True (\<lambda>_. ''fp'') True False (clock_at 0) no_faults KFail
          (Some (fail_route_handler pay_runtime 5000)) sample_webhook sample_pay_state
        = (Inr (WhAnswer \<lparr>wo_status = 200, wo_code = 0\<rparr> False), s1)"
    and w: "ps_world s1 = ([toInsertValues failed_sample], ())"
    unfolding entered processSerialized_def
    using sample_pipeline
    by (simp add: no_faults_def lookupWebhookDelivery_def delivery_by_key_def find_by_def sample_pay_state_def)
  have st: "od_status (toInsertValues failed_sample) = StFailed"
    by (simp add: failed_sample_def updates Let_def mapRowToOrder_def sample_order_def toInsertValues_def)
  have step: "(webhook_step pay_runtime (\<lambda>_. ''sig'') True (\<lambda>_. ''fp'') (pg_now (clock_at 0) + 90 * us_per_day))\<^sup>*\<^sup>*
      s1 (s1\<lparr>ps_limiter := no_buckets\<rparr>)"
    using step_elsewhere [of pay_runtime "\<lambda>_. ''sig''" True "\<lambda>_. ''fp''" "pg_now (clock_at 0) + 90 * us_per_day" s1 no_buckets "ps_world s1"]
    by simp
  have "handleCloudPaymentsWebhook pay_runtime (\<lambda>_. ''sig'') True (\<lambda>_. ''fp'') True False (clock_at 0) no_faults KFail
          (Some (fail_route_handler pay_runtime 9000)) sample_webhook (s1\<lparr>ps_limiter := no_buckets\<rparr>)
        = (Inr (WhAnswer \<lparr>wo_status = 200, wo_code = 0\<rparr> True), (s1\<lparr>ps_limiter := no_buckets\<rparr>)\<lparr>ps_limiter := l\<rparr>)"
    by (rule webhook_replayed [OF sample_entry _ _ s1 _ _ _ step sample_entry])
      (use rl lim in \<open>simp_all add: no_faults_def sample_pay_state_def delivery_by_key_def find_by_def\<close>)
  then show ?thesis using s1 w st by auto
qed

theorem webhook_acts_only_on_match_witness:
  "\<exists>p ord. parseCloudPaymentsPayload pay_runtime (wq_rawBody sample_webhook) (wq_contentType sample_webhook) = Some p
     \<and> getOrder (fst (ps_world sample_pay_state)) (getCloudPaymentsInvoiceId pay_runtime p) = Some ord
     \<and> ps_world (snd (handleCloudPaymentsWebhook pay_runtime (\<lambda>_. ''sig'') True (\<lambda>_. ''fp'') True False (clock_at 0) no_faults KFail
          (Some (fail_route_handler pay_runtime 5000)) sample_webhook sample_pay_state)) \<noteq> ps_world sample_pay_state"
proof -
  let ?call = "handleCloudPaymentsWebhook pay_runtime (\<lambda>_. ''sig'') True (\<lambda>_. ''fp'') True False (clock_at 0) no_faults KFail
          (Some (fail_route_handler pay_runtime 5000)) sample_webhook sample_pay_state"
  obtain l where rl: "enforceRateLimit False (clock_at 0) (wq_xRealIp sample_webhook) (wq_cfConnectingIp sample_webhook)
      (webhook_scope KFail) 60 60000 (ps_limiter sample_pay_state) = (None, l)"
    using sample_limit by (simp add: sample_pay_state_def)
  have "ps_world (snd ?call) = ([toInsertValues failed_sample], ())"
    unfolding handle_entered [OF sample_entry rl] processSerialized_def
    using sample_pipeline
    by (simp add: no_faults_def lookupWebhookDelivery_def delivery_by_key_def find_by_def sample_pay_state_def)
  moreover have "od_status (toInsertValues failed_sample) = StFailed"
    by (simp add: failed_sample_def updates Let_def mapRowToOrder_def sample_order_def toInsertValues_def)
  ultimately have ch: "ps_world (snd ?call) \<noteq> ps_world sample_pay_state"
    by (auto simp: sample_pay_state_def)
  with webhook_acts_only_on_match [OF prod.collapse [symmetric], of pay_runtime "\<lambda>_. ''sig''" True "\<lambda>_. ''fp''" True False "clock_at 0"
      no_faults KFail "Some (fail_route_handler pay_runtime 5000)" sample_webhook sample_pay_state]
  show ?thesis by blast
qed

section \<open>A handler that throws\<close>

text \<open>
  A handler that throws after it has done part of its work is run again at once, on
  the world its first run left, by the path that was meant for failures before the handler.
\<close>

theorem throwing_handler_runs_twice:
  assumes entry: "webhook_entry rt hmac secret_set sha256 q = Some (p, i, fp)" "fp \<noteq> ''''"
    and rl: "enforceRateLimit up c (wq_xRealIp q) (wq_cfConnectingIp q) (webhook_scope kind) 60 60000 (ps_limiter s) = (None, l)"
    and first: "\<not> wf_before faults" "delivery_by_key (ps_deliveries s) (PROVIDER, kind, i) = None"
    and run1: "validateCloudPaymentsOrder rt (fst (ps_world s)) p = Inr ord" "h p (ps_world s) = (Inl e, w1)"
    and run2: "validateCloudPaymentsOrder rt (fst w1) p = Inr ord'" "h p w1 = (x, w2)"
  shows "ps_world (snd (handleCloudPaymentsWebhook rt hmac secret_set sha256 True up c faults kind (Some h) q s)) = w2
    \<and> fst (handleCloudPaymentsWebhook rt hmac secret_set sha256 True up c faults kind (Some h) q s)
      = (case x of Inl e' \<Rightarrow> Inl e' | Inr _ \<Rightarrow> Inr (WhAnswer \<lparr>wo_status = 200, wo_code = 0\<rparr> False))"
proof -
  have miss: "lookupWebhookDelivery PROVIDER kind i (Some fp) (ps_deliveries s) = DlMiss"
    using first(2) by (simp add: lookupWebhookDelivery_def)
  have ser: "processSerialized rt (pg_now c) faults kind (Some h) p i fp (s\<lparr>ps_limiter := l\<rparr>) = (Inl e, s\<lparr>ps_limiter := l, ps_world := w1\<rparr>)"
    using first(1) miss run1 by (simp add: processSerialized_def runWebhookPipeline_def Let_def)
  show ?thesis
    unfolding handle_entered [OF entry(1) rl] ser
    using run2 entry(2) by (cases x) (simp_all add: process_fallback_def runWebhookPipeline_def Let_def)
qed

definition flaky_handler :: "nat handler" where
  "flaky_handler p w = (if snd w = 0 then Inl (JsError ''grant failed'') else Inr (), fst w, Suc (snd w))"

theorem throwing_handler_runs_twice_witness:
  "snd (ps_world (snd (handleCloudPaymentsWebhook pay_runtime (\<lambda>_. ''sig'') True (\<lambda>_. ''fp'') True False (clock_at 0) no_faults KPay
      (Some flaky_handler) sample_webhook
      \<lparr>ps_world = ([sample_order\<lparr>od_status := StPending\<rparr>], 0), ps_deliveries = [], ps_limiter = no_buckets\<rparr>))) = 2"
proof -
  let ?w = "([sample_order\<lparr>od_status := StPending\<rparr>], 0) :: order_table \<times> nat"
  let ?s = "\<lparr>ps_world = ?w, ps_deliveries = [], ps_limiter = no_buckets\<rparr>"
  obtain l where rl: "enforceRateLimit False (clock_at 0) (wq_xRealIp sample_webhook) (wq_cfConnectingIp sample_webhook)
      (webhook_scope KPay) 60 60000 (ps_limiter ?s) = (None, l)"
    by (simp add: enforceRateLimit_def takeRateLimit_def takeMemoryBucket_def cleanupExpiredMemoryBuckets_def
        no_buckets_def clock_at_def js_date_def sample_webhook_def getClientIp_def webhook_scope_def kind_text_def Let_def)
  have "\<exists>ord. validateCloudPaymentsOrder pay_runtime (fst ?w) sample_fail_payload = Inr ord"
    using sample_pipeline
    by (cases "validateCloudPaymentsOrder pay_runtime (fst ?w) sample_fail_payload")
      (auto simp: runWebhookPipeline_def Let_def sample_pay_state_def split: if_splits,
       simp add: failed_sample_def updates sample_order_def toInsertValues_def mapRowToOrder_def)
  then obtain ord where val: "validateCloudPaymentsOrder pay_runtime (fst ?w) sample_fail_payload = Inr ord" by blast
  have "ps_world (snd (handleCloudPaymentsWebhook pay_runtime (\<lambda>_. ''sig'') True (\<lambda>_. ''fp'') True False (clock_at 0) no_faults KPay
      (Some flaky_handler) sample_webhook ?s)) = (fst ?w, 2)"
    using throwing_handler_runs_twice [OF sample_entry _ rl, of no_faults ord flaky_handler "JsError ''grant failed''" "(fst ?w, 1)" ord "Inr ()" "(fst ?w, 2)"]
      val by (simp add: no_faults_def delivery_by_key_def find_by_def flaky_handler_def)
  then show ?thesis by simp
qed

end
