(* ===== verification/Pay_Handler.thy ===== *)
theory Pay_Handler
  imports Grant Webhook
begin

text \<open>
  The handler of the notification that an order was paid
  (\<open>src/app/api/payments/webhooks/cloudpayments/pay/route.ts\<close>) and the saved cards
  (\<open>src/lib/payments/tokens.ts\<close>). It is a handler of the pipeline of \<open>Webhook\<close> over the world of \<open>Grant\<close>:
  order, card, allocation to a lesson, package, subscription, in this order. What the allocation throws
  is swallowed, what the package and the subscription throw leaves the handler with what was
  written before. Audit rows and mails, all best effort, are left out.
\<close>

section \<open>Saved cards\<close>

definition ascii_digit :: "nat \<Rightarrow> bool" where
  "ascii_digit u \<longleftrightarrow> 48 \<le> u \<and> u \<le> 57"

text \<open>The date is \<open>MM/YY\<close>.\<close>

definition parseCardExp :: "js_text option \<Rightarrow> (js_text \<times> js_text) option" where
  "parseCardExp v =
     (case v of
        Some [a, b, s, e, f] \<Rightarrow>
          if list_all ascii_digit [a, b, e, f] \<and> s = 47 then Some ([a, b], [e, f]) else None
      | _ \<Rightarrow> None)"

definition opt_text_field :: "json \<Rightarrow> string \<Rightarrow> js_text option" where
  "opt_text_field p k = (case json_field p k of Some (JStr t) \<Rightarrow> Some t | _ \<Rightarrow> None)"

text \<open>A key of the metadata of an order.\<close>

definition meta_value :: "payment_order \<Rightarrow> string \<Rightarrow> json option" where
  "meta_value ord k = Option.bind (od_metadata ord) (\<lambda>fs. map_of fs k)"

definition readRememberCardConsent :: "js_runtime \<Rightarrow> json \<Rightarrow> payment_order \<Rightarrow> bool" where
  "readRememberCardConsent rt p ord =
     (case meta_value ord ''rememberCard'' of
        Some (JBool b) \<Rightarrow> b
      | _ \<Rightarrow>
          (case (case opt_text_field p ''Data'' of Some t \<Rightarrow> Some t | None \<Rightarrow> opt_text_field p ''JsonData'') of
             None \<Rightarrow> False
           | Some raw \<Rightarrow> raw \<noteq> []
               \<and> Option.bind (rt_json_parse rt raw) (\<lambda>v. json_field v ''rememberCard'') = Some (JBool True)))"

definition extractTokenFromWebhookPayload :: "clock \<Rightarrow> json \<Rightarrow> js_text \<Rightarrow> card_row option" where
  "extractTokenFromWebhookPayload c p customerEmail =
     (let token = js_trim (text_field p ''Token'') in
      if token = [] \<or> customerEmail = [] then None
      else Some \<lparr>ct_customer_email = customerEmail, ct_token = token,
                 ct_card_last_four = opt_text_field p ''CardLastFour'', ct_card_type = opt_text_field p ''CardType'',
                 ct_card_exp_month = map_option fst (parseCardExp (opt_text_field p ''CardExpDate'')),
                 ct_card_exp_year = map_option snd (parseCardExp (opt_text_field p ''CardExpDate'')),
                 ct_created_at = js_now c, ct_last_used_at = js_now c\<rparr>)"

text \<open>\<open>on conflict (customer_email) do update\<close>: all but the date of creation.\<close>

definition card_values :: "card_row \<Rightarrow> card_row" where
  "card_values x = x\<lparr>ct_card_last_four := truthy_text (ct_card_last_four x), ct_card_type := truthy_text (ct_card_type x),
     ct_card_exp_month := truthy_text (ct_card_exp_month x), ct_card_exp_year := truthy_text (ct_card_exp_year x)\<rparr>"

definition upsertCardToken :: "card_row \<Rightarrow> card_row list \<Rightarrow> card_row list" where
  "upsertCardToken x cs =
     (case find_by ct_customer_email (ct_customer_email x) cs of
        None \<Rightarrow> cs @ [card_values x]
      | Some old \<Rightarrow> replace_row ct_customer_email ((card_values x)\<lparr>ct_created_at := ct_created_at old\<rparr>) cs)"

definition getCardTokenByEmail :: "js_text \<Rightarrow> card_row list \<Rightarrow> card_row option" where
  "getCardTokenByEmail email cs = find_by ct_customer_email email cs"

definition touchCardTokenUsedAt :: "js_text \<Rightarrow> millis \<Rightarrow> card_row list \<Rightarrow> card_row list" where
  "touchCardTokenUsedAt email usedAt cs =
     map (\<lambda>r. if ct_customer_email r = email then r\<lparr>ct_last_used_at := usedAt\<rparr> else r) cs"

definition deleteCardToken :: "js_text \<Rightarrow> card_row list \<Rightarrow> card_row list" where
  "deleteCardToken email cs = filter (\<lambda>r. ct_customer_email r \<noteq> email) cs"

definition maybePersistTokenFromWebhook :: "js_runtime \<Rightarrow> clock \<Rightarrow> json \<Rightarrow> payment_order \<Rightarrow> card_row list \<Rightarrow> card_row list" where
  "maybePersistTokenFromWebhook rt c p ord cs =
     (if od_paymentMethod ord = Some OmSbp then cs
      else if \<not> readRememberCardConsent rt p ord then cs
      else (case extractTokenFromWebhookPayload c p (od_customerEmail ord) of
        None \<Rightarrow> cs
      | Some x \<Rightarrow> upsertCardToken x cs))"

section \<open>The branches of the handler\<close>

definition getAccountByEmail :: "(js_text \<Rightarrow> js_text) \<Rightarrow> js_text \<Rightarrow> auth_account list \<Rightarrow> auth_account option" where
  "getAccountByEmail lower email rows = find_by aa_email (normalizeAccountEmail lower email) rows"

text \<open>The lesson named by the order, if the customer has it and the amount is its price.\<close>

definition allocation_branch :: "js_runtime \<Rightarrow> order_table \<Rightarrow> payment_order \<Rightarrow> pay_world \<Rightarrow> pay_world" where
  "allocation_branch rt t ord w =
     (case Option.bind (getOrder t (od_invoiceId ord)) (\<lambda>full. meta_text full ''slotId'') of
        None \<Rightarrow> w
      | Some slot \<Rightarrow>
          if slot = [] then w
          else (case getAccountByEmail (rt_lower rt) (od_customerEmail ord) (world_accounts w) of
            None \<Rightarrow> w
          | Some customer \<Rightarrow>
              (case uuid_text slot of
                 None \<Rightarrow> w
               | Some s \<Rightarrow>
                   (case validatePaymentSlotBinding s (aa_id customer) (od_amountRub ord) (py_db w) of
                      Inr (Inr _) \<Rightarrow>
                        w\<lparr>py_db := snd (recordAllocation t (od_invoiceId ord) ''lesson_slot'' s
                                         (JsInt (rublesToKopecks (od_amountRub ord))) (py_db w))\<rparr>
                    | _ \<Rightarrow> w))))"

definition package_branch :: "js_runtime \<Rightarrow> clock \<Rightarrow> uuid \<Rightarrow> order_table \<Rightarrow> payment_order \<Rightarrow> pay_world \<Rightarrow> exn + pay_world" where
  "package_branch rt c newId t ord w =
     (case getOrder t (od_invoiceId ord) of
        None \<Rightarrow> Inr w
      | Some full \<Rightarrow>
          if truthy_text (meta_text full ''packageId'') \<noteq> None \<or> truthy_text (meta_text full ''packageSlug'') \<noteq> None
          then map_sum id snd (processPackageGrant rt c newId t (od_invoiceId ord) w)
          else Inr w)"

definition saas_prefix :: js_text where
  "saas_prefix = js ''saas_subscription_''"

text \<open>\<open>typeof v === 'number' && Number.isInteger(v)\<close> within bounds.\<close>

definition int_value :: "json option \<Rightarrow> int option" where
  "int_value v =
     (case v of Some (JNum (Finite q)) \<Rightarrow> if of_int \<lfloor>q\<rfloor> = q then Some \<lfloor>q\<rfloor> else None | _ \<Rightarrow> None)"

definition saas_period_days :: "payment_order \<Rightarrow> int" where
  "saas_period_days ord =
     (case int_value (meta_value ord ''saasPeriodDays'') of
        None \<Rightarrow> 30
      | Some n \<Rightarrow> if 0 < n \<and> n \<le> 366 then n else 30)"

definition saas_amount :: "sub_tariff \<Rightarrow> payment_order \<Rightarrow> int" where
  "saas_amount tariff ord =
     (case int_value (meta_value ord ''saasAmountKopecks'') of
        None \<Rightarrow> su_amountKopecks tariff
      | Some n \<Rightarrow> if 0 < n then n else su_amountKopecks tariff)"

text \<open>The owner of the order, or the account in its metadata. A text that is no uuid fails in the database.\<close>

definition saas_teacher :: "payment_order \<Rightarrow> string option" where
  "saas_teacher ord =
     (case od_teacherAccountId ord of
        Some i \<Rightarrow> if i = [] then None else Some i
      | None \<Rightarrow>
          (case meta_text ord ''accountId'' of
             None \<Rightarrow> None
           | Some t \<Rightarrow> if t = [] then None else Some (coalesce (uuid_text t) [])))"

definition saas_tier :: "payment_order \<Rightarrow> js_text option" where
  "saas_tier ord =
     (case meta_text ord ''productKind'' of
        None \<Rightarrow> None
      | Some kind \<Rightarrow> if take (length saas_prefix) kind = saas_prefix then Some (drop (length saas_prefix) kind) else None)"

definition saas_input :: "json \<Rightarrow> payment_order \<Rightarrow> string \<Rightarrow> sub_tier \<Rightarrow> sub_tariff \<Rightarrow> renew_input" where
  "saas_input p full teacher tier tariff =
     \<lparr>rn_accountId = teacher, rn_tier = tier, rn_amountKopecks = JsInt (saas_amount tariff full),
      rn_paymentOrderId = od_invoiceId full, rn_periodDays = Some (JsInt (saas_period_days full)),
      rn_cpToken = truthy_text (opt_text_field p ''Token'')\<rparr>"

definition subscription_branch :: "clock \<Rightarrow> json \<Rightarrow> order_table \<Rightarrow> payment_order \<Rightarrow> pay_world \<Rightarrow> exn + pay_world" where
  "subscription_branch c p t ord w =
     (case getOrder t (od_invoiceId ord) of
        None \<Rightarrow> Inr w
      | Some full \<Rightarrow>
          (case (Option.bind (saas_tier full) getPaidSubscriptionTariff, saas_teacher full) of
             (Some (tier, tariff), Some teacher) \<Rightarrow>
               if findSubscriptionByPaymentOrderId (od_invoiceId full) (py_saas w) \<noteq> None then Inr w
               else map_sum id (\<lambda>(_, d). w\<lparr>py_saas := d\<rparr>)
                      (createOrRenewTeacherSubscription c (saas_input p full teacher tier tariff) (py_saas w))
           | _ \<Rightarrow> Inr w))"

section \<open>The handler\<close>

definition paid_note :: "json \<Rightarrow> payload" where
  "paid_note p = payload_of
     [(''transactionId'', json_field p ''TransactionId''), (''paymentMethod'', json_field p ''PaymentMethod''),
      (''status'', json_field p ''Status'')]"

definition card_branch :: "js_runtime \<Rightarrow> clock \<Rightarrow> json \<Rightarrow> payment_order \<Rightarrow> pay_world \<Rightarrow> pay_world" where
  "card_branch rt c p ord w =
     (if od_customerEmail ord = [] then w
      else w\<lparr>py_cards := maybePersistTokenFromWebhook rt c p ord (py_cards w)\<rparr>)"

definition pay_route_handler :: "js_runtime \<Rightarrow> clock \<Rightarrow> uuid \<Rightarrow> pay_world handler" where
  "pay_route_handler rt c newId p tw =
     (case tw of (t, w) \<Rightarrow>
        (case markOrderPaid rt (js_now c) (getCloudPaymentsInvoiceId rt p) (Some (paid_note p))
               (Some (detectPaymentMethod rt p)) t of
           Inl e \<Rightarrow> (Inl e, t, w)
         | Inr ((None, _), t') \<Rightarrow> (Inr (), t', w)
         | Inr ((Some ord, _), t') \<Rightarrow>
             let w1 = allocation_branch rt t' ord (card_branch rt c p ord w) in
             (case package_branch rt c newId t' ord w1 of
                Inl e \<Rightarrow> (Inl e, t', w1)
              | Inr w2 \<Rightarrow>
                  (case subscription_branch c p t' ord w2 of
                     Inl e \<Rightarrow> (Inl e, t', w2)
                   | Inr w3 \<Rightarrow> (Inr (), t', w3)))))"

section \<open>What the branches see and write\<close>

text \<open>The part of an order that the branches read.\<close>

definition same_sale :: "payment_order \<Rightarrow> payment_order \<Rightarrow> bool" where
  "same_sale a b \<longleftrightarrow> od_invoiceId b = od_invoiceId a \<and> od_amountRub b = od_amountRub a \<and> od_metadata b = od_metadata a
     \<and> od_customerEmail b = od_customerEmail a \<and> od_teacherAccountId b = od_teacherAccountId a"

lemma same_sale_trans: "same_sale a b \<Longrightarrow> same_sale b c \<Longrightarrow> same_sale a c"
  by (simp add: same_sale_def)

lemma same_sale_updates [simp]:
  "same_sale a (paid_update rt now n m a)" "same_sale a (mapRowToOrder a)" "same_sale a (toInsertValues a)"
  by (simp_all add: same_sale_def paid_update_def appendEvent_def mapRowToOrder_def toInsertValues_def)

lemma same_sale_reads:
  assumes "same_sale a b"
  shows "meta_text b = meta_text a" "meta_value b = meta_value a" "saas_teacher b = saas_teacher a" "saas_tier b = saas_tier a"
    "saas_period_days b = saas_period_days a" "saas_amount tariff b = saas_amount tariff a"
proof -
  show t: "meta_text b = meta_text a" and v: "meta_value b = meta_value a"
    using assms by (simp_all add: same_sale_def meta_text_def meta_value_def fun_eq_iff)
  show "saas_teacher b = saas_teacher a" "saas_tier b = saas_tier a" "saas_period_days b = saas_period_days a"
    "saas_amount tariff b = saas_amount tariff a"
    using assms unfolding same_sale_def saas_teacher_def saas_tier_def saas_period_days_def saas_amount_def t v by simp_all
qed

text \<open>Marking an order paid: it fails, finds no order, or writes the row that the branches then read.\<close>

lemma markOrderPaid_cases:
  obtains (failed) e where "\<And>now. markOrderPaid rt now i n m t = Inl e"
  | (missing) "\<And>now. markOrderPaid rt now i n m t = Inr ((None, None), t)"
  | (marked) row where "order_row_by_id t i = Some row"
      and "\<And>now. \<exists>b t'. let x = paid_update rt now n m (mapRowToOrder row) in
             markOrderPaid rt now i n m t = Inr ((Some x, b), t') \<and> order_row_by_id t' i = Some (toInsertValues x)"
proof (cases "order_row_by_id t i")
  case None
  show thesis by (rule missing) (simp add: markOrderPaid_def updateOrder_def None maybeEmitStatusChange_def)
next
  case (Some row)
  let ?x = "\<lambda>now. paid_update rt now n m (mapRowToOrder row)"
  have chk: "order_check (?x now) = order_check (?x 0)" for now
    by (simp add: order_check_def paid_update_def appendEvent_def)
  have id: "od_invoiceId (toInsertValues (?x now)) = i" for now
    using Some by (auto simp: order_row_by_id_def paid_update_def appendEvent_def toInsertValues_def mapRowToOrder_def dest!: find_by_SomeD)
  show thesis
  proof (cases "order_check (?x 0)")
    case False
    with chk have "\<not> order_check (?x now)" for now by blast
    then show thesis by (intro failed [of "PgErr CheckViolation"]) (simp add: markOrderPaid_def updateOrder_def Some Let_def)
  next
    case True
    with chk have ok: "order_check (?x now)" for now by blast
    have "\<exists>b t'. let x = ?x now in markOrderPaid rt now i n m t = Inr ((Some x, b), t') \<and> order_row_by_id t' i = Some (toInsertValues x)" for now
    proof -
      let ?t' = "replace_row od_invoiceId (toInsertValues (?x now)) t"
      have "markOrderPaid rt now i n m t = Inr ((Some (?x now), maybeEmitStatusChange (Some (?x now))), ?t')"
        using ok [of now] by (simp add: markOrderPaid_def updateOrder_def Some Let_def)
      moreover have "order_row_by_id ?t' i = Some (toInsertValues (?x now))"
        using id [of now] Some by (simp add: order_row_by_id_def find_by_replace_row)
      ultimately show ?thesis by (auto simp: Let_def)
    qed
    then show thesis by (rule marked [OF Some])
  qed
qed

lemma invoice_of_row: "order_row_by_id t i = Some row \<Longrightarrow> od_invoiceId row = i"
  by (auto simp: order_row_by_id_def dest: find_by_key)

section \<open>The allocation to a lesson\<close>

lemma allocation_branch_cases:
  obtains (kept) "allocation_branch rt t ord w = w"
  | (wrote) full s customer slot k b d' where "getOrder t (od_invoiceId ord) = Some full" and "meta_text full ''slotId'' = Some slot"
      and "getAccountByEmail (rt_lower rt) (od_customerEmail ord) (world_accounts w) = Some customer" and "uuid_text slot = Some s"
      and "validatePaymentSlotBinding s (aa_id customer) (od_amountRub ord) (py_db w) = Inr (Inr k)"
      and "recordAllocation t (od_invoiceId ord) ''lesson_slot'' s (JsInt (rublesToKopecks (od_amountRub ord))) (py_db w) = (b, d')"
      and "allocation_branch rt t ord w = w\<lparr>py_db := d'\<rparr>"
proof (cases "allocation_branch rt t ord w = w")
  case True
  then show thesis by (rule kept)
next
  case False
  then obtain full slot where f: "getOrder t (od_invoiceId ord) = Some full" "meta_text full ''slotId'' = Some slot" "slot \<noteq> []"
    by (auto simp: allocation_branch_def split: option.splits if_splits bind_splits)
  with False obtain customer where c: "getAccountByEmail (rt_lower rt) (od_customerEmail ord) (world_accounts w) = Some customer"
    by (auto simp: allocation_branch_def split: option.splits)
  from False f c obtain s where u: "uuid_text slot = Some s"
    by (auto simp: allocation_branch_def split: option.splits)
  from False f c u obtain k where v: "validatePaymentSlotBinding s (aa_id customer) (od_amountRub ord) (py_db w) = Inr (Inr k)"
    by (auto simp: allocation_branch_def split: sum.splits)
  obtain b d' where r: "recordAllocation t (od_invoiceId ord) ''lesson_slot'' s (JsInt (rublesToKopecks (od_amountRub ord))) (py_db w) = (b, d')"
    by (rule prod.exhaust)
  show thesis by (rule wrote [OF f(1,2) c u v r]) (use f c u v r in \<open>simp add: allocation_branch_def\<close>)
qed

text \<open>What the binding reads.\<close>

lemma binding_same:
  "lesson_slots d' = lesson_slots d \<Longrightarrow> pricing_tariffs d' = pricing_tariffs d \<Longrightarrow> validatePaymentSlotBinding s l x d' = validatePaymentSlotBinding s l x d"
  by (simp add: validatePaymentSlotBinding_def slot_by_id_def payable_amount_def tariff_by_id_def split: option.split)

definition grown :: "db \<Rightarrow> db \<Rightarrow> bool" where
  "grown d d' \<longleftrightarrow> lesson_slots d' = lesson_slots d \<and> pricing_tariffs d' = pricing_tariffs d \<and> set (payment_allocations d) \<subseteq> set (payment_allocations d')"

lemma recordAllocation_twice:
  assumes "order_row_by_id t i \<noteq> None" and "recordAllocation t i kind target (JsInt n) d = (b, d1)"
    and "set (payment_allocations d1) \<subseteq> set (payment_allocations d2)"
  shows "snd (recordAllocation t' i kind target (JsInt n) d2) = d2"
proof -
  let ?row = "\<lparr>pa_payment_order_id = i, pa_kind = kind, pa_target_id = target, pa_amount_kopecks = n\<rparr>"
  let ?had = "\<lambda>d. find_by allocation_key (allocation_key ?row) (payment_allocations d) \<noteq> None"
  consider "kind \<notin> ALLOWED_KINDS \<or> n < 0 \<or> n > 2147483647" | "kind \<in> ALLOWED_KINDS" "0 \<le> n" "n \<le> 2147483647" by linarith
  then show ?thesis
  proof cases
    case 1
    then show ?thesis by (auto simp: recordAllocation_def insert_allocation_def)
  next
    case 2
    have "?had d1"
    proof (cases "?had d")
      case True
      with 2 assms(2) show ?thesis by (auto simp: recordAllocation_def insert_allocation_def)
    next
      case False
      with 2 assms(1,2) have "d1 = d\<lparr>payment_allocations := payment_allocations d @ [?row]\<rparr>"
        by (auto simp: recordAllocation_def insert_allocation_def)
      then show ?thesis by (simp add: find_by_None_iff)
    qed
    then have "?had d2" using assms(3) by (auto simp: find_by_None_iff)
    with 2 show ?thesis by (simp add: recordAllocation_def insert_allocation_def)
  qed
qed

lemma allocation_branch_twice:
  assumes t: "getOrder t (od_invoiceId ord) = Some full" and t': "getOrder t' (od_invoiceId ord') = Some full'"
    and same: "same_sale ord ord'" "same_sale full full'"
    and accounts: "world_accounts w' = world_accounts w" and db: "grown (py_db (allocation_branch rt t ord w)) (py_db w')"
    and slots: "lesson_slots (py_db w') = lesson_slots (py_db w)" "pricing_tariffs (py_db w') = pricing_tariffs (py_db w)"
  shows "allocation_branch rt t' ord' w' = w'"
proof (cases rule: allocation_branch_cases [of rt t' ord' w'])
  case (wrote fl s customer slot k b d')
  have ids: "od_invoiceId ord' = od_invoiceId ord" "od_customerEmail ord' = od_customerEmail ord" "od_amountRub ord' = od_amountRub ord"
    and meta: "meta_text full' = meta_text full"
    using same same_sale_reads(1) [OF same(2)] by (simp_all add: same_sale_def)
  have slot: "meta_text full ''slotId'' = Some slot" using wrote(1,2) t' meta by simp
  obtain b1 d1 where r: "recordAllocation t (od_invoiceId ord) ''lesson_slot'' s (JsInt (rublesToKopecks (od_amountRub ord))) (py_db w) = (b1, d1)"
    by (rule prod.exhaust)
  have "slot \<noteq> []" using wrote(4) by (auto simp: uuid_text_def Let_def uuid_pattern_def)
  then have "allocation_branch rt t ord w = w\<lparr>py_db := d1\<rparr>"
    using t slot wrote(3,4,5) r unfolding allocation_branch_def ids accounts binding_same [OF slots] by simp
  then have "set (payment_allocations d1) \<subseteq> set (payment_allocations (py_db w'))" using db by (simp add: grown_def)
  moreover have "order_row_by_id t (od_invoiceId ord) \<noteq> None" using t by (auto simp: getOrder_def)
  ultimately have "d' = py_db w'"
    using recordAllocation_twice [OF _ r] wrote(6) unfolding ids by (metis snd_conv)
  then show ?thesis using wrote(7) by simp
qed

lemma allocation_branch_grown:
  "grown (py_db w) (py_db (allocation_branch rt t ord w))"
  "py_saas (allocation_branch rt t ord w) = py_saas w" "py_cards (allocation_branch rt t ord w) = py_cards w"
  "package_purchases (py_db (allocation_branch rt t ord w)) = package_purchases (py_db w)"
proof -
  have "grown (py_db w) (py_db (allocation_branch rt t ord w)) \<and> py_saas (allocation_branch rt t ord w) = py_saas w
     \<and> py_cards (allocation_branch rt t ord w) = py_cards w
     \<and> package_purchases (py_db (allocation_branch rt t ord w)) = package_purchases (py_db w)"
  proof (cases rule: allocation_branch_cases [of rt t ord w])
    case (wrote full s customer slot k b d')
    from recordAllocation_cases [OF wrote(6)] wrote(7) show ?thesis by (auto simp: grown_def)
  qed (simp add: grown_def)
  then show "grown (py_db w) (py_db (allocation_branch rt t ord w))"
    "py_saas (allocation_branch rt t ord w) = py_saas w" "py_cards (allocation_branch rt t ord w) = py_cards w"
    "package_purchases (py_db (allocation_branch rt t ord w)) = package_purchases (py_db w)" by blast+
qed

section \<open>The package\<close>

text \<open>What a grant does to the database: nothing for an order that has a purchase, and otherwise nothing or a purchase.\<close>

definition package_effect :: "js_text \<Rightarrow> db \<Rightarrow> db \<Rightarrow> bool" where
  "package_effect i d d' \<longleftrightarrow> grown d d'
     \<and> (find_by pp_payment_order_id i (package_purchases d) \<noteq> None \<longrightarrow> d' = d)
     \<and> (d' = d \<or> find_by pp_payment_order_id i (package_purchases d') \<noteq> None)
     \<and> (\<forall>a \<in> set (payment_allocations d') - set (payment_allocations d). pa_kind a = ''package'')"

lemma package_effect_refl [simp]: "package_effect i d d"
  by (simp add: package_effect_def grown_def)

lemma grant_effect:
  assumes "processPackageGrant rt c i t invoice w = Inr (r, w')"
  shows "\<exists>d'. w' = w\<lparr>py_db := d'\<rparr> \<and> package_effect invoice (py_db w) d'"
  using assms
proof (cases rule: processPackageGrantE)
  case kept
  then show ?thesis by (intro exI [of _ "py_db w"]) simp
next
  case (tx ord acc pkg d')
  from tx(4) show ?thesis
  proof (cases rule: grant_txE)
    case kept
    then show ?thesis using tx(5) by (intro exI [of _ "py_db w"]) simp
  next
    case (granted row a)
    from granted(15) obtain b where "insert_allocation t a ((py_db w)\<lparr>package_purchases := package_purchases (py_db w) @ [row]\<rparr>) = Inr (b, d')"
      by blast
    from insert_allocation_cases [OF this] have "grown (py_db w) d'" "package_purchases d' = package_purchases (py_db w) @ [row]"
        "set (payment_allocations d') \<subseteq> insert a (set (payment_allocations (py_db w)))"
      by (auto simp: grown_def)
    then show ?thesis using tx(5) granted(2,7,14) by (intro exI [of _ d']) (auto simp: package_effect_def find_by_None_iff)
  qed
qed

lemma package_branch_effect:
  assumes "package_branch rt c i t ord w = Inr w'"
  shows "\<exists>d'. w' = w\<lparr>py_db := d'\<rparr> \<and> package_effect (od_invoiceId ord) (py_db w) d'"
proof -
  have "w' = w \<or> (\<exists>r. processPackageGrant rt c i t (od_invoiceId ord) w = Inr (r, w'))"
    using assms by (cases "processPackageGrant rt c i t (od_invoiceId ord) w")
      (auto simp: package_branch_def split: option.splits if_splits)
  then show ?thesis
  proof
    assume "w' = w"
    then show ?thesis by (intro exI [of _ "py_db w"]) simp
  next
    assume "\<exists>r. processPackageGrant rt c i t (od_invoiceId ord) w = Inr (r, w')"
    then obtain r where "processPackageGrant rt c i t (od_invoiceId ord) w = Inr (r, w')" ..
    from grant_effect [OF this] show ?thesis .
  qed
qed

section \<open>The subscription\<close>

lemma subscription_branch_cases:
  assumes "subscription_branch c p t ord w = r" and "getOrder t (od_invoiceId ord) = Some full"
  obtains (none) "Option.bind (saas_tier full) getPaidSubscriptionTariff = None \<or> saas_teacher full = None" "r = Inr w"
  | (seen) "findSubscriptionByPaymentOrderId (od_invoiceId full) (py_saas w) \<noteq> None" "r = Inr w"
  | (renew) tier tariff teacher where "Option.bind (saas_tier full) getPaidSubscriptionTariff = Some (tier, tariff)"
      and "saas_teacher full = Some teacher" and "findSubscriptionByPaymentOrderId (od_invoiceId full) (py_saas w) = None"
      and "r = map_sum id (\<lambda>(_, d). w\<lparr>py_saas := d\<rparr>)
                 (createOrRenewTeacherSubscription c (saas_input p full teacher tier tariff) (py_saas w))"
  using assms by (auto simp: subscription_branch_def split: option.splits prod.splits if_splits)

lemma renew_leaves_trace:
  assumes "createOrRenewTeacherSubscription c input d = Inr (v, d')"
  shows "findSubscriptionByPaymentOrderId (rn_paymentOrderId input) d' \<noteq> None"
  using assms
proof (rule renewE)
  fix amount days row
  let ?f = "paid_sub c input amount days"
  assume up: "upsert_sub ?f (renewed_sub ?f) d = Inr (row, d')"
  have row: "row = (case sub_of d (pg_uuid (rn_accountId input)) of None \<Rightarrow> ?f | Some r \<Rightarrow> renewed_sub ?f r)"
    using upsert_subE(1) [OF up] by simp
  have "sub_of d' (pg_uuid (rn_accountId input)) = Some row" using upsert_subE(2) [OF up] by simp
  then have "row \<in> set (sd_subs d')" by (auto simp: sub_of_def dest: find_by_SomeD)
  with renewed_row(5) [OF row] show ?thesis by (auto simp: findSubscriptionByPaymentOrderId_def find_None_iff)
qed

lemma renew_keeps_accounts:
  assumes "createOrRenewTeacherSubscription c input d = Inr (v, d')"
  shows "sd_auth d' = sd_auth d"
  using assms
proof (rule renewE)
  fix amount days row
  assume up: "upsert_sub (paid_sub c input amount days) (renewed_sub (paid_sub c input amount days)) d = Inr (row, d')"
  show ?thesis by (rule upsert_subE(3) [OF up]) simp
qed

lemma subscription_branch_frame:
  assumes "subscription_branch c p t ord w = Inr w'"
  shows "\<exists>d. w' = w\<lparr>py_saas := d\<rparr> \<and> sd_auth d = sd_auth (py_saas w)"
proof (cases "getOrder t (od_invoiceId ord)")
  case None
  with assms have "w' = w" by (simp add: subscription_branch_def)
  then show ?thesis by (intro exI [of _ "py_saas w"]) simp
next
  case (Some full)
  from assms Some show ?thesis
  proof (cases rule: subscription_branch_cases)
    case (renew tier tariff teacher)
    then show ?thesis
      by (cases "createOrRenewTeacherSubscription c (saas_input p full teacher tier tariff) (py_saas w)")
        (auto dest: renew_keeps_accounts)
  qed (auto intro: exI [of _ "py_saas w"])
qed

lemma subscription_branch_twice:
  assumes one: "subscription_branch c p t ord w = Inr w1"
    and t: "getOrder t (od_invoiceId ord) = Some full" and t': "getOrder t' (od_invoiceId ord') = Some full'"
    and same: "same_sale full full'" and kept: "py_saas w2 = py_saas w1"
  shows "subscription_branch c' p' t' ord' w2 = Inr w2"
proof -
  note reads = same_sale_reads(3,4) [OF same]
  have id: "od_invoiceId full' = od_invoiceId full" using same by (simp add: same_sale_def)
  from one t have "Option.bind (saas_tier full) getPaidSubscriptionTariff = None \<or> saas_teacher full = None
      \<or> findSubscriptionByPaymentOrderId (od_invoiceId full) (py_saas w1) \<noteq> None"
  proof (cases rule: subscription_branch_cases)
    case (renew tier tariff teacher)
    let ?in = "saas_input p full teacher tier tariff"
    from renew(4) obtain v d where "createOrRenewTeacherSubscription c ?in (py_saas w) = Inr (v, d)" "w1 = w\<lparr>py_saas := d\<rparr>"
      by (cases "createOrRenewTeacherSubscription c ?in (py_saas w)") auto
    with renew_leaves_trace [of c ?in] show ?thesis by (simp add: saas_input_def)
  qed auto
  then show ?thesis using t' reads id kept by (auto simp: subscription_branch_def split: option.splits)
qed

section \<open>Cards\<close>

lemma getCardTokenByEmail_upsert:
  "getCardTokenByEmail e (upsertCardToken x cs) =
     (if e = ct_customer_email x
      then Some ((card_values x)\<lparr>ct_created_at := (case getCardTokenByEmail e cs of None \<Rightarrow> ct_created_at x | Some old \<Rightarrow> ct_created_at old)\<rparr>)
      else getCardTokenByEmail e cs)"
proof (cases "find_by ct_customer_email (ct_customer_email x) cs")
  case None
  then show ?thesis
    by (cases "find_by ct_customer_email e cs")
      (auto simp: upsertCardToken_def getCardTokenByEmail_def find_by_snoc card_values_def)
next
  case (Some old)
  then show ?thesis by (auto simp: upsertCardToken_def getCardTokenByEmail_def find_by_replace_row card_values_def)
qed

text \<open>A card up to the time of its last use.\<close>

definition card_content :: "js_text \<Rightarrow> card_row list \<Rightarrow> card_row option" where
  "card_content e cs = map_option (\<lambda>x. x\<lparr>ct_last_used_at := 0\<rparr>) (getCardTokenByEmail e cs)"

lemma card_branch_twice:
  assumes same: "same_sale ord ord'" and m: "od_paymentMethod ord' = od_paymentMethod ord"
    and kept: "py_cards w' = py_cards (card_branch rt c p ord w)"
  shows "card_content e (py_cards (card_branch rt c' p ord' w')) = card_content e (py_cards w')"
proof -
  have mail: "od_customerEmail ord' = od_customerEmail ord" and consent: "readRememberCardConsent rt p ord' = readRememberCardConsent rt p ord"
    using same same_sale_reads(2) [OF same] by (simp_all add: same_sale_def readRememberCardConsent_def)
  show ?thesis
  proof (cases "od_customerEmail ord = [] \<or> od_paymentMethod ord = Some OmSbp \<or> \<not> readRememberCardConsent rt p ord
      \<or> js_trim (text_field p ''Token'') = []")
    case True
    then show ?thesis
      using m mail consent by (auto simp: card_branch_def maybePersistTokenFromWebhook_def extractTokenFromWebhookPayload_def Let_def)
  next
    case False
    let ?x = "\<lambda>c. \<lparr>ct_customer_email = od_customerEmail ord, ct_token = js_trim (text_field p ''Token''),
                 ct_card_last_four = opt_text_field p ''CardLastFour'', ct_card_type = opt_text_field p ''CardType'',
                 ct_card_exp_month = map_option fst (parseCardExp (opt_text_field p ''CardExpDate'')),
                 ct_card_exp_year = map_option snd (parseCardExp (opt_text_field p ''CardExpDate'')),
                 ct_created_at = js_now c, ct_last_used_at = js_now c\<rparr>"
    from False have "extractTokenFromWebhookPayload c p (od_customerEmail ord) = Some (?x c)" for c
      by (simp add: extractTokenFromWebhookPayload_def Let_def)
    with False m mail consent have "py_cards (card_branch rt c' p ord' w') = upsertCardToken (?x c') (py_cards w')"
        "py_cards w' = upsertCardToken (?x c) (py_cards w)"
      using kept by (simp_all add: card_branch_def maybePersistTokenFromWebhook_def)
    then show ?thesis by (simp add: card_content_def getCardTokenByEmail_upsert card_values_def)
  qed
qed

lemma card_branch_frame [simp]:
  "py_db (card_branch rt c p ord w) = py_db w" "py_saas (card_branch rt c p ord w) = py_saas w"
  "world_accounts (card_branch rt c p ord w) = world_accounts w"
  by (simp_all add: card_branch_def world_accounts_def)

section \<open>A notification handled again\<close>

text \<open>The handler after the order has been marked.\<close>

definition after_mark :: "js_runtime \<Rightarrow> clock \<Rightarrow> uuid \<Rightarrow> json \<Rightarrow> order_table \<Rightarrow> payment_order \<Rightarrow> pay_world \<Rightarrow> (exn + unit) \<times> pay_world" where
  "after_mark rt c newId p t ord w =
     (let w1 = allocation_branch rt t ord (card_branch rt c p ord w) in
      case package_branch rt c newId t ord w1 of
        Inl e \<Rightarrow> (Inl e, w1)
      | Inr w2 \<Rightarrow> (case subscription_branch c p t ord w2 of Inl e \<Rightarrow> (Inl e, w2) | Inr w3 \<Rightarrow> (Inr (), w3)))"

lemma after_mark_parts:
  assumes run: "after_mark rt c newId p t ord w = (r, w')"
  defines "w1 \<equiv> allocation_branch rt t ord (card_branch rt c p ord w)"
  shows "py_cards w' = py_cards (card_branch rt c p ord w) \<and> world_accounts w' = world_accounts w
       \<and> package_effect (od_invoiceId ord) (py_db w1) (py_db w')
       \<and> (py_saas w' = py_saas w \<or> (\<exists>w2. py_saas w2 = py_saas w \<and> subscription_branch c p t ord w2 = Inr w'))
       \<and> (r = Inr () \<longrightarrow> (\<exists>w2. py_saas w2 = py_saas w \<and> subscription_branch c p t ord w2 = Inr w'))"
proof -
  have w1: "py_saas w1 = py_saas w" "py_cards w1 = py_cards (card_branch rt c p ord w)"
    unfolding w1_def by (simp_all add: allocation_branch_grown)
  show ?thesis
  proof (cases "package_branch rt c newId t ord w1")
    case (Inl e)
    with run have "w' = w1" "r = Inl e" by (simp_all add: after_mark_def w1_def Let_def)
    then show ?thesis using w1 by (simp add: world_accounts_def)
  next
    case pkg: (Inr w2)
    from package_branch_effect [OF pkg] obtain d' where d': "w2 = w1\<lparr>py_db := d'\<rparr>" "package_effect (od_invoiceId ord) (py_db w1) d'"
      by blast
    have w2: "py_saas w2 = py_saas w" "py_cards w2 = py_cards w1" "py_db w2 = d'" using d'(1) w1 by simp_all
    show ?thesis
    proof (cases "subscription_branch c p t ord w2")
      case (Inl e)
      with run pkg have "w' = w2" "r = Inl e" by (simp_all add: after_mark_def w1_def Let_def)
      with w2 w1 d'(2) show ?thesis by (simp add: world_accounts_def)
    next
      case (Inr w3)
      with run pkg have w3: "w' = w3" by (simp add: after_mark_def w1_def Let_def)
      from subscription_branch_frame [OF Inr] obtain d where "w3 = w2\<lparr>py_saas := d\<rparr>" "sd_auth d = sd_auth (py_saas w2)" by blast
      with w2 w1 w3 have "py_cards w' = py_cards (card_branch rt c p ord w)" "py_db w' = d'" "world_accounts w' = world_accounts w"
        by (simp_all add: world_accounts_def)
      with d'(2) w2(1) Inr w3 show ?thesis by blast
    qed
  qed
qed

lemma pay_route_handler_cases:
  assumes "pay_route_handler rt c newId p (t, w) = (r, t', w')"
  obtains (failed) e where "r = Inl e" "t' = t" "w' = w" "\<And>now. markOrderPaid rt now (getCloudPaymentsInvoiceId rt p) (Some (paid_note p))
        (Some (detectPaymentMethod rt p)) t = Inl e"
  | (missing) "t' = t" "w' = w" "\<And>now. markOrderPaid rt now (getCloudPaymentsInvoiceId rt p) (Some (paid_note p))
        (Some (detectPaymentMethod rt p)) t = Inr ((None, None), t)"
  | (marked) row ord where "order_row_by_id t (getCloudPaymentsInvoiceId rt p) = Some row"
      and "ord = paid_update rt (js_now c) (Some (paid_note p)) (Some (detectPaymentMethod rt p)) (mapRowToOrder row)"
      and "order_row_by_id t' (getCloudPaymentsInvoiceId rt p) = Some (toInsertValues ord)"
      and "after_mark rt c newId p t' ord w = (r, w')"
proof (cases rule: markOrderPaid_cases [of rt "getCloudPaymentsInvoiceId rt p" "Some (paid_note p)" "Some (detectPaymentMethod rt p)" t])
  case (failed e)
  then show thesis using assms by (intro that(1) [of e]) (simp_all add: pay_route_handler_def)
next
  case missing
  then show thesis using assms by (intro that(2)) (simp_all add: pay_route_handler_def)
next
  case (marked row)
  let ?x = "paid_update rt (js_now c) (Some (paid_note p)) (Some (detectPaymentMethod rt p)) (mapRowToOrder row)"
  from marked(2) [of "js_now c"] obtain b t1 where m: "markOrderPaid rt (js_now c) (getCloudPaymentsInvoiceId rt p) (Some (paid_note p))
      (Some (detectPaymentMethod rt p)) t = Inr ((Some ?x, b), t1)"
    and row1: "order_row_by_id t1 (getCloudPaymentsInvoiceId rt p) = Some (toInsertValues ?x)"
    by (auto simp: Let_def)
  from assms m have "t' = t1 \<and> after_mark rt c newId p t1 ?x w = (r, w')"
    by (auto simp: pay_route_handler_def after_mark_def Let_def split: sum.splits)
  with row1 marked(1) show thesis by (intro that(3) [of row ?x]) simp_all
qed

lemma paid_again:
  assumes "ord = paid_update rt now n m x"
    and "ord' = paid_update rt now' n' m' (mapRowToOrder (toInsertValues ord))"
  shows "same_sale ord ord'" and "od_paymentMethod ord' = od_paymentMethod ord" and "od_status ord = StPaid" and "od_status ord' = StPaid"
    and "map_option seconds_of (od_paidAt ord') = map_option seconds_of (od_paidAt ord)"
proof -
  have st: "od_status ord = StPaid" by (simp add: assms(1) paid_update_def appendEvent_def)
  then have "od_status (mapRowToOrder (toInsertValues ord)) = StPaid" by (simp add: mapRowToOrder_def toInsertValues_def)
  then have ord': "ord' = appendEvent now' (mapRowToOrder (toInsertValues ord)) ''payment.paid_duplicate'' n'"
    by (simp add: assms(2) paid_update_def)
  show "od_status ord = StPaid" "od_status ord' = StPaid" "od_paymentMethod ord' = od_paymentMethod ord"
    using st by (simp_all add: ord' appendEvent_def mapRowToOrder_def toInsertValues_def)
  show "same_sale ord ord'" by (simp add: ord' same_sale_def appendEvent_def mapRowToOrder_def toInsertValues_def)
  show "map_option seconds_of (od_paidAt ord') = map_option seconds_of (od_paidAt ord)"
    by (simp add: ord' appendEvent_def mapRowToOrder_def toInsertValues_def option.map_comp comp_def)
qed

text \<open>
  C8: handling the notification of a payment again is harmless. Whatever the first handling did and however
  it ended, a second one for the same payload writes no second allocation and no second package: the
  database is as before, unless the order had no package and gets its first one now. If the first returned, the
  subscriptions are as before too. A saved card only gets a new time of use. The order stays
  paid, since the same second.
\<close>

theorem pay_handled_again:
  assumes first: "pay_route_handler rt c i p (t, w) = (r1, t1, w1)"
    and again: "pay_route_handler rt c' i' p (t1, w1) = (r2, t2, w2)"
  shows "(py_db w2 = py_db w1
        \<or> find_by pp_payment_order_id (getCloudPaymentsInvoiceId rt p) (package_purchases (py_db w1)) = None
          \<and> find_by pp_payment_order_id (getCloudPaymentsInvoiceId rt p) (package_purchases (py_db w2)) \<noteq> None)
     \<and> (r1 = Inr () \<longrightarrow> py_saas w2 = py_saas w1)
     \<and> (\<forall>e. card_content e (py_cards w2) = card_content e (py_cards w1))
     \<and> (\<forall>a. order_row_by_id t1 (getCloudPaymentsInvoiceId rt p) = Some a \<longrightarrow>
          (\<exists>b. order_row_by_id t2 (getCloudPaymentsInvoiceId rt p) = Some b \<and> od_status b = od_status a
             \<and> map_option seconds_of (od_paidAt b) = map_option seconds_of (od_paidAt a)))"
  using first
proof (cases rule: pay_route_handler_cases)
  case (failed e)
  with again show ?thesis by (auto simp: pay_route_handler_def)
next
  case missing
  with again show ?thesis by (auto simp: pay_route_handler_def)
next
  case (marked row ord)
  let ?inv = "getCloudPaymentsInvoiceId rt p"
  from again show ?thesis
  proof (cases rule: pay_route_handler_cases)
    case m2: (marked row' ord')
    have row': "row' = toInsertValues ord" using m2(1) marked(3) by simp
    note pair = paid_again [OF marked(2) m2(2) [unfolded row']]
    have inv: "od_invoiceId ord = ?inv" "od_invoiceId ord' = ?inv"
      using invoice_of_row [OF marked(3)] invoice_of_row [OF m2(3)] by (simp_all add: toInsertValues_def)
    have full: "getOrder t1 (od_invoiceId ord) = Some (mapRowToOrder (toInsertValues ord))"
        "getOrder t2 (od_invoiceId ord') = Some (mapRowToOrder (toInsertValues ord'))"
      using marked(3) m2(3) by (simp_all add: getOrder_def inv)
    have same: "same_sale (mapRowToOrder (toInsertValues ord)) (mapRowToOrder (toInsertValues ord'))"
      using pair(1) by (simp add: same_sale_def mapRowToOrder_def toInsertValues_def)
    let ?a1 = "allocation_branch rt t1 ord (card_branch rt c p ord w)" and ?k2 = "card_branch rt c' p ord' w1"
    note one = after_mark_parts [OF marked(4)] and two = after_mark_parts [OF m2(4)]
    have g: "grown (py_db ?a1) (py_db w1)" using one by (simp add: package_effect_def)
    have slots: "lesson_slots (py_db w1) = lesson_slots (py_db w)" "pricing_tariffs (py_db w1) = pricing_tariffs (py_db w)"
      using g allocation_branch_grown(1) [of "card_branch rt c p ord w" rt t1 ord] by (simp_all add: grown_def)
    have alloc: "allocation_branch rt t2 ord' ?k2 = ?k2"
      by (rule allocation_branch_twice [where w = "card_branch rt c p ord w", OF full pair(1) same]) (use one g slots in simp_all)
    then have db: "package_effect ?inv (py_db w1) (py_db w2)" using two by (simp add: inv)
    have saas: "py_saas w2 = py_saas w1" if "r1 = Inr ()"
    proof -
      from one that obtain v where "subscription_branch c p t1 ord v = Inr w1" by blast
      then have "subscription_branch c' p t2 ord' v' = Inr v'" if "py_saas v' = py_saas w1" for v'
        by (rule subscription_branch_twice [OF _ full same that])
      with two show ?thesis by auto
    qed
    have "card_content e (py_cards w2) = card_content e (py_cards w1)" for e
      using two card_branch_twice [OF pair(1,2), of w1 rt c p w e c'] one by simp
    moreover have "order_row_by_id t2 ?inv = Some (toInsertValues ord') \<and> order_row_by_id t1 ?inv = Some (toInsertValues ord)
        \<and> od_status (toInsertValues ord') = od_status (toInsertValues ord)
        \<and> map_option seconds_of (od_paidAt (toInsertValues ord')) = map_option seconds_of (od_paidAt (toInsertValues ord))"
      using marked(3) m2(3) pair by (simp add: toInsertValues_def)
    ultimately show ?thesis using db saas by (auto simp: package_effect_def)
  qed auto
qed

section \<open>Only a bound payment is allocated to a lesson\<close>

lemma recordAllocation_writes:
  "recordAllocation t i kind target (JsInt n) d = (b, d') \<Longrightarrow>
     set (payment_allocations d') \<subseteq> insert \<lparr>pa_payment_order_id = i, pa_kind = kind, pa_target_id = target, pa_amount_kopecks = n\<rparr>
       (set (payment_allocations d))"
  by (auto simp: recordAllocation_def insert_allocation_def split: if_splits)

lemma binding_ok:
  assumes "validatePaymentSlotBinding s l x d = Inr (Inr k)"
  obtains sl where "slot_by_id d (pg_uuid s) = Some sl" and "ls_status sl = Booked" and "ls_learner_account_id sl = Some l"
    and "\<forall>k. payable_amount d sl = Some k \<longrightarrow> \<bar>rublesToKopecks x - k\<bar> \<le> 1"
proof -
  from assms obtain sl where "slot_by_id d (pg_uuid s) = Some sl" "ls_status sl = Booked" "ls_learner_account_id sl = Some l"
    by (auto simp: validatePaymentSlotBinding_def split: option.splits if_splits)
  moreover from this assms have "\<forall>k. payable_amount d sl = Some k \<longrightarrow> \<bar>rublesToKopecks x - k\<bar> \<le> 1"
    by (auto simp: validatePaymentSlotBinding_def KOPECKS_TOLERANCE_def split: if_splits)
  ultimately show thesis by (rule that)
qed

text \<open>
  C10: an allocation to a lesson that the handler writes is for the order of the notification, now paid, and its whole amount; the
  lesson is booked, its learner is the account with the e-mail of the customer, and the amount differs from the price of
  the lesson, when it has one, by at most a kopeck. Nothing else of the lessons changes.
\<close>

theorem handler_allocates_bound_only:
  assumes "pay_route_handler rt c i p (t, w) = (r, t', w')"
    and "a \<in> set (payment_allocations (py_db w')) - set (payment_allocations (py_db w))" and "pa_kind a = ''lesson_slot''"
  shows "\<exists>row customer s. order_row_by_id t' (getCloudPaymentsInvoiceId rt p) = Some row \<and> od_status row = StPaid
     \<and> pa_payment_order_id a = od_invoiceId row \<and> pa_amount_kopecks a = rublesToKopecks (od_amountRub row)
     \<and> customer \<in> set (world_accounts w) \<and> aa_email customer = normalizeAccountEmail (rt_lower rt) (od_customerEmail row)
     \<and> slot_by_id (py_db w) (pg_uuid (pa_target_id a)) = Some s \<and> ls_status s = Booked
     \<and> ls_learner_account_id s = Some (aa_id customer)
     \<and> (\<forall>k. payable_amount (py_db w) s = Some k \<longrightarrow> \<bar>pa_amount_kopecks a - k\<bar> \<le> 1)
     \<and> lesson_slots (py_db w') = lesson_slots (py_db w)"
  using assms(1)
proof (cases rule: pay_route_handler_cases)
  case (marked row ord)
  let ?w = "card_branch rt c p ord w" and ?o = "toInsertValues ord"
  have "package_effect (od_invoiceId ord) (py_db (allocation_branch rt t' ord ?w)) (py_db w')"
    using after_mark_parts [OF marked(4)] by blast
  then have mem: "a \<in> set (payment_allocations (py_db (allocation_branch rt t' ord ?w)))"
    and slots: "lesson_slots (py_db w') = lesson_slots (py_db w)"
    using assms(2,3) allocation_branch_grown(1) [of ?w rt t' ord] by (auto simp: package_effect_def grown_def)
  show ?thesis
  proof (cases rule: allocation_branch_cases [of rt t' ord ?w])
    case kept
    with mem assms(2) show ?thesis by simp
  next
    case (wrote full s customer slot k b d')
    from mem wrote(7) assms(2) recordAllocation_writes [OF wrote(6)]
    have a: "a = \<lparr>pa_payment_order_id = od_invoiceId ord, pa_kind = ''lesson_slot'', pa_target_id = s,
        pa_amount_kopecks = rublesToKopecks (od_amountRub ord)\<rparr>" by auto
    have cust: "customer \<in> set (world_accounts w)" "aa_email customer = normalizeAccountEmail (rt_lower rt) (od_customerEmail ord)"
      using wrote(3) by (auto simp: getAccountByEmail_def dest!: find_by_SomeD)
    have o: "od_invoiceId ?o = od_invoiceId ord" "od_amountRub ?o = od_amountRub ord" "od_customerEmail ?o = od_customerEmail ord"
        "od_status ?o = StPaid"
      by (simp_all add: toInsertValues_def marked(2) paid_update_def appendEvent_def)
    obtain sl where "slot_by_id (py_db w) (pg_uuid s) = Some sl" "ls_status sl = Booked" "ls_learner_account_id sl = Some (aa_id customer)"
        "\<forall>k. payable_amount (py_db w) sl = Some k \<longrightarrow> \<bar>rublesToKopecks (od_amountRub ord) - k\<bar> \<le> 1"
      by (rule binding_ok [OF wrote(5)]) simp
    with a cust o slots marked(3) show ?thesis
      by (intro exI [of _ ?o] exI [of _ customer] exI [of _ sl]) simp
  qed
qed (use assms(2) in auto)

text \<open>The teacher's account has booked a lesson of 1500 roubles and pays for it.\<close>

definition sample_lesson_order :: payment_order where
  "sample_lesson_order = sample_order\<lparr>od_status := StPending, od_customerEmail := js ''t@x.ru'',
     od_metadata := Some [(''slotId'', JStr (js (uuid_of CHR ''1'')))]\<rparr>"

definition sample_lesson_world :: pay_world where
  "sample_lesson_world = sample_pay_world
     \<lparr>py_db := empty_db\<lparr>lesson_slots := [sample_slot\<lparr>ls_learner_account_id := Some (uuid_of CHR ''a'')\<rparr>]\<rparr>\<rparr>"

definition sample_notification :: json where
  "sample_notification = JObj [(js ''InvoiceId'', JStr (js ''lc_1''))]"

definition sample_allocation :: allocation_row where
  "sample_allocation = \<lparr>pa_payment_order_id = js ''lc_1'', pa_kind = ''lesson_slot'', pa_target_id = uuid_of CHR ''1'',
     pa_amount_kopecks = 150000\<rparr>"

lemma sample_lesson_paid:
  "\<exists>t'. pay_route_handler sample_runtime (at_second 60) (uuid_of CHR ''9'') sample_notification ([sample_lesson_order], sample_lesson_world)
     = (Inr (), t', sample_lesson_world\<lparr>py_db := (py_db sample_lesson_world)\<lparr>payment_allocations := [sample_allocation]\<rparr>\<rparr>)"
proof -
  let ?rt = sample_runtime and ?p = sample_notification and ?o = sample_lesson_order and ?w = sample_lesson_world
  define x where x: "x = paid_update ?rt 60000 (Some (paid_note ?p)) (Some (detectPaymentMethod ?rt ?p)) (mapRowToOrder ?o)"
  have inv: "getCloudPaymentsInvoiceId ?rt ?p = js ''lc_1''"
    by (simp add: getCloudPaymentsInvoiceId_def sample_notification_def json_field_def)
  have row: "order_row_by_id [?o] (js ''lc_1'') = Some ?o"
    by (simp add: order_row_by_id_def find_by_def sample_lesson_order_def sample_order_def)
  have same: "same_sale ?o x" unfolding x using same_sale_trans [OF same_sale_updates(2) same_sale_updates(1)] .
  have check: "order_check x"
    by (simp add: x order_check_def paid_update_def appendEvent_def sample_lesson_order_def sample_order_def mapRowToOrder_def
        next_payment_method_def split: option.split detected_method.split)
  let ?t = "replace_row od_invoiceId (toInsertValues x) [?o]"
  have mark: "markOrderPaid ?rt (js_now (at_second 60)) (js ''lc_1'') (Some (paid_note ?p)) (Some (detectPaymentMethod ?rt ?p)) [?o]
      = Inr ((Some x, maybeEmitStatusChange (Some x)), ?t)"
    using check by (simp add: markOrderPaid_def updateOrder_def row Let_def at_second_def flip: x)
  have o: "od_invoiceId x = js ''lc_1''" "od_customerEmail x = js ''t@x.ru''" "od_amountRub x = 1500" "od_metadata x = od_metadata ?o"
    using same by (simp_all add: same_sale_def sample_lesson_order_def sample_order_def)
  have get: "getOrder ?t (js ''lc_1'') = Some (mapRowToOrder (toInsertValues x))" and present: "order_row_by_id ?t (js ''lc_1'') \<noteq> None"
    using row o(1) by (simp_all add: getOrder_def order_row_by_id_def find_by_replace_row toInsertValues_def)
  have meta: "meta_text (mapRowToOrder (toInsertValues x)) = meta_text ?o" "meta_value x = meta_value ?o"
    using o(4) by (simp_all add: fun_eq_iff meta_text_def meta_value_def mapRowToOrder_def toInsertValues_def)
  have mo: "meta_text ?o k = (if k = ''slotId'' then Some (js (uuid_of CHR ''1'')) else None)" "meta_value ?o ''rememberCard'' = None" for k
    by (simp_all add: meta_text_def meta_value_def sample_lesson_order_def)
  have "opt_text_field ?p ''Data'' = None" "opt_text_field ?p ''JsonData'' = None"
    by (simp_all add: opt_text_field_def json_field_def sample_notification_def)
  then have "\<not> readRememberCardConsent ?rt ?p x"
    unfolding readRememberCardConsent_def meta mo option.case by simp
  then have card: "card_branch ?rt c ?p x ?w = ?w" for c
    by (simp add: card_branch_def maybePersistTokenFromWebhook_def)
  have trim: "js_trim (js ''t@x.ru'') = js ''t@x.ru''" by (rule js_trim_word) (simp add: js_def js_space_def)
  have id: "uuid_text (js (uuid_of CHR ''1'')) = Some (uuid_of CHR ''1'')" and pat: "uuid_pattern (uuid_of CHR ''1'')"
  proof -
    show pat: "uuid_pattern (uuid_of CHR ''1'')" by (simp add: hex_digit_def)
    show "uuid_text (js (uuid_of CHR ''1'')) = Some (uuid_of CHR ''1'')"
      by (rule uuid_text_js [OF pat]) (simp add: uuid_of_def replicate_8 replicate_4 replicate_12)
  qed
  have acc: "getAccountByEmail (rt_lower ?rt) (js ''t@x.ru'') (world_accounts ?w) = Some sample_teacher_account"
    using trim by (simp add: getAccountByEmail_def normalizeAccountEmail_def sample_runtime_def world_accounts_def sample_lesson_world_def
        sample_pay_world_def sample_saas_def find_by_def sample_teacher_account_def)
  have kop: "rublesToKopecks 1500 = 150000"
    unfolding rublesToKopecks_def by (rule floor_unique) simp_all
  have bind: "\<exists>k. validatePaymentSlotBinding (uuid_of CHR ''1'') (aa_id sample_teacher_account) 1500 (py_db ?w) = Inr (Inr k)"
    using pat by (simp add: validatePaymentSlotBinding_def slot_by_id_def find_by_def sample_lesson_world_def sample_slot_def
        sample_teacher_account_def payable_amount_def coalesce_opt_def kop KOPECKS_TOLERANCE_def lower_hex_def)
  have "allocation_branch ?rt ?t x ?w = ?w\<lparr>py_db := (py_db ?w)\<lparr>payment_allocations := [sample_allocation]\<rparr>\<rparr>"
  proof -
    have "js (uuid_of CHR ''1'') \<noteq> []" by (simp add: js_def uuid_of_def replicate_8)
    moreover have "recordAllocation ?t (js ''lc_1'') ''lesson_slot'' (uuid_of CHR ''1'') (JsInt 150000) (py_db ?w)
        = (True, (py_db ?w)\<lparr>payment_allocations := [sample_allocation]\<rparr>)"
      using present by (simp add: recordAllocation_def ALLOWED_KINDS_def insert_allocation_def sample_allocation_def
          sample_lesson_world_def empty_db_def find_by_def)
    ultimately show ?thesis using bind by (auto simp: allocation_branch_def o get meta mo acc id kop)
  qed
  then show ?thesis
    by (simp add: pay_route_handler_def inv mark card package_branch_def subscription_branch_def o get meta mo saas_tier_def
        truthy_text_def)
qed

theorem handler_allocates_bound_only_witness:
  "\<exists>r t' w'. pay_route_handler sample_runtime (at_second 60) (uuid_of CHR ''9'') sample_notification
       ([sample_lesson_order], sample_lesson_world) = (r, t', w')
     \<and> sample_allocation \<in> set (payment_allocations (py_db w'))
     \<and> (\<exists>row. order_row_by_id t' (js ''lc_1'') = Some row \<and> od_status row = StPaid)"
proof -
  obtain t' where run: "pay_route_handler sample_runtime (at_second 60) (uuid_of CHR ''9'') sample_notification
      ([sample_lesson_order], sample_lesson_world)
     = (Inr (), t', sample_lesson_world\<lparr>py_db := (py_db sample_lesson_world)\<lparr>payment_allocations := [sample_allocation]\<rparr>\<rparr>)"
    using sample_lesson_paid by blast
  have inv: "getCloudPaymentsInvoiceId sample_runtime sample_notification = js ''lc_1''"
    by (simp add: getCloudPaymentsInvoiceId_def sample_notification_def json_field_def)
  from handler_allocates_bound_only [OF run, of sample_allocation, unfolded inv]
  have "\<exists>row. order_row_by_id t' (js ''lc_1'') = Some row \<and> od_status row = StPaid"
    by (auto simp: sample_allocation_def sample_lesson_world_def empty_db_def)
  with run show ?thesis by auto
qed

theorem pay_handled_again_witness:
  "\<exists>t1 w1 r2 t2 w2. pay_route_handler sample_runtime (at_second 60) (uuid_of CHR ''9'') sample_notification
       ([sample_lesson_order], sample_lesson_world) = (Inr (), t1, w1)
     \<and> pay_route_handler sample_runtime (at_second 90) (uuid_of CHR ''8'') sample_notification (t1, w1) = (r2, t2, w2)
     \<and> payment_allocations (py_db w1) = [sample_allocation] \<and> py_saas w2 = py_saas w1"
proof -
  obtain t1 w1 where run: "pay_route_handler sample_runtime (at_second 60) (uuid_of CHR ''9'') sample_notification
      ([sample_lesson_order], sample_lesson_world) = (Inr (), t1, w1)" and one: "payment_allocations (py_db w1) = [sample_allocation]"
    using sample_lesson_paid by auto
  obtain r2 t2 w2 where again: "pay_route_handler sample_runtime (at_second 90) (uuid_of CHR ''8'') sample_notification (t1, w1) = (r2, t2, w2)"
    by (rule prod_cases3)
  from pay_handled_again [OF run again] have "py_saas w2 = py_saas w1" by blast
  with run one again show ?thesis by blast
qed

section \<open>The guard of the subscription remembers one order\<close>

lemma renew_rows:
  assumes "createOrRenewTeacherSubscription c input d = Inr (v, d')"
  obtains days row where "coalesce (rn_periodDays input) (JsInt 30) = JsInt days"
    and "sub_of d' (pg_uuid (rn_accountId input)) = Some row"
    and "sb_payment_order_id row = Some (rn_paymentOrderId input)" and "sb_period_start row = Some (pg_now c)"
    and "sb_period_end row = Some (pg_now c + days * us_per_day)"
    and "set (sd_subs d') \<subseteq> insert row (set (sd_subs d))"
    and "sub_of d (pg_uuid (rn_accountId input)) \<noteq> None \<Longrightarrow>
           set (sd_subs d') \<subseteq> insert row {r \<in> set (sd_subs d). sb_account_id r \<noteq> pg_uuid (rn_accountId input)}"
  using assms
proof (rule renewE)
  fix amount days row
  let ?f = "paid_sub c input amount days" and ?i = "pg_uuid (rn_accountId input)"
  assume days: "coalesce (rn_periodDays input) (JsInt 30) = JsInt days"
    and up: "upsert_sub ?f (renewed_sub ?f) d = Inr (row, d')"
  have row: "row = (case sub_of d ?i of None \<Rightarrow> ?f | Some r \<Rightarrow> renewed_sub ?f r)"
    using upsert_subE(1) [OF up] by simp
  have at_i: "sub_of d' ?i = Some row" using upsert_subE(2) [OF up] by simp
  then have key: "sb_account_id row = ?i" by (auto simp: sub_of_def dest: find_by_key)
  have subs: "sd_subs d' = (if sub_of d ?i = None then sd_subs d @ [row] else replace_row sb_account_id row (sd_subs d))"
    using up row by (auto simp: upsert_sub_def Let_def split: if_splits)
  note rows = set_replace_row [of sb_account_id row "sd_subs d", unfolded key]
  show thesis
    by (rule that [OF days at_i renewed_row(5,3,4) [OF row]]) (use subs rows in auto)
qed

lemma not_seen_iff: "findSubscriptionByPaymentOrderId i d = None \<longleftrightarrow> (\<forall>r \<in> set (sd_subs d). sb_payment_order_id r \<noteq> Some i)"
  by (auto simp: findSubscriptionByPaymentOrderId_def find_None_iff)

text \<open>What a branch that is not skipped does.\<close>

lemma subscription_applied:
  assumes "subscription_branch c p t ord w = Inr w'" and "getOrder t (od_invoiceId ord) = Some full" and "od_invoiceId full = od_invoiceId ord"
    and "Option.bind (saas_tier full) getPaidSubscriptionTariff \<noteq> None" and "saas_teacher full = Some teacher"
    and "findSubscriptionByPaymentOrderId (od_invoiceId ord) (py_saas w) = None"
  obtains row where "sub_of (py_saas w') (pg_uuid teacher) = Some row" and "sb_payment_order_id row = Some (od_invoiceId ord)"
    and "sb_period_start row = Some (pg_now c)" and "sb_period_end row = Some (pg_now c + saas_period_days full * us_per_day)"
    and "set (sd_subs (py_saas w')) \<subseteq> insert row (set (sd_subs (py_saas w)))"
    and "sub_of (py_saas w) (pg_uuid teacher) \<noteq> None \<Longrightarrow>
           set (sd_subs (py_saas w')) \<subseteq> insert row {r \<in> set (sd_subs (py_saas w)). sb_account_id r \<noteq> pg_uuid teacher}"
  using assms(1,2)
proof (cases rule: subscription_branch_cases)
  case (renew tier tariff teacher')
  let ?in = "saas_input p full teacher' tier tariff"
  from renew(4) obtain v d where run: "createOrRenewTeacherSubscription c ?in (py_saas w) = Inr (v, d)" and w': "w' = w\<lparr>py_saas := d\<rparr>"
    by (cases "createOrRenewTeacherSubscription c ?in (py_saas w)") auto
  have "teacher' = teacher" using renew(2) assms(5) by simp
  then have f: "rn_accountId ?in = teacher" "rn_paymentOrderId ?in = od_invoiceId ord" "rn_periodDays ?in = Some (JsInt (saas_period_days full))"
    using assms(3) by (simp_all add: saas_input_def)
  show thesis
    by (rule renew_rows [OF run, unfolded f]) (rule that, simp_all add: w')
qed (use assms in auto)

text \<open>
  The guard that should make a second delivery of a paid order harmless looks at the last order of a
  subscription only. When another order of the teacher was applied in between, handling the
  first one again starts a whole new period, from the time of the second handling.
\<close>

theorem older_order_applied_again:
  assumes first: "subscription_branch c1 p1 t ordA w = Inr w1" and second: "subscription_branch c2 p2 t ordB w1 = Inr w2"
    and again: "subscription_branch c3 p1 t ordA w2 = Inr w3"
    and fullA: "getOrder t (od_invoiceId ordA) = Some fullA" and fullB: "getOrder t (od_invoiceId ordB) = Some fullB"
    and tiers: "Option.bind (saas_tier fullA) getPaidSubscriptionTariff \<noteq> None" "Option.bind (saas_tier fullB) getPaidSubscriptionTariff \<noteq> None"
    and teachers: "saas_teacher fullA = Some teacher" "saas_teacher fullB = Some teacher"
    and orders: "od_invoiceId ordA \<noteq> od_invoiceId ordB"
    and new: "findSubscriptionByPaymentOrderId (od_invoiceId ordA) (py_saas w) = None"
      "findSubscriptionByPaymentOrderId (od_invoiceId ordB) (py_saas w1) = None"
  shows "\<exists>row. sub_of (py_saas w3) (pg_uuid teacher) = Some row \<and> sb_payment_order_id row = Some (od_invoiceId ordA)
     \<and> sb_period_start row = Some (pg_now c3) \<and> sb_period_end row = Some (pg_now c3 + saas_period_days fullA * us_per_day)"
proof -
  have ids: "od_invoiceId fullA = od_invoiceId ordA" "od_invoiceId fullB = od_invoiceId ordB"
    using fullA fullB by (auto simp: getOrder_def mapRowToOrder_def dest!: invoice_of_row)
  obtain rowA where A: "sub_of (py_saas w1) (pg_uuid teacher) = Some rowA"
      "set (sd_subs (py_saas w1)) \<subseteq> insert rowA (set (sd_subs (py_saas w)))"
    by (rule subscription_applied [OF first fullA ids(1) tiers(1) teachers(1) new(1)])
  then have keyA: "sb_account_id rowA = pg_uuid teacher" by (auto simp: sub_of_def dest: find_by_key)
  obtain rowB where B: "sb_payment_order_id rowB = Some (od_invoiceId ordB)"
      "set (sd_subs (py_saas w2)) \<subseteq> insert rowB {r \<in> set (sd_subs (py_saas w1)). sb_account_id r \<noteq> pg_uuid teacher}"
    by (rule subscription_applied [OF second fullB ids(2) tiers(2) teachers(2) new(2)]) (use A(1) in auto)
  have "findSubscriptionByPaymentOrderId (od_invoiceId ordA) (py_saas w2) = None"
    unfolding not_seen_iff
  proof
    fix r assume "r \<in> set (sd_subs (py_saas w2))"
    with B(2) consider "r = rowB" | "r \<in> set (sd_subs (py_saas w1))" "sb_account_id r \<noteq> pg_uuid teacher" by blast
    then show "sb_payment_order_id r \<noteq> Some (od_invoiceId ordA)"
    proof cases
      case 1
      with B(1) orders show ?thesis by simp
    next
      case 2
      with A(2) keyA have "r \<in> set (sd_subs (py_saas w))" by auto
      with new(1) show ?thesis unfolding not_seen_iff by blast
    qed
  qed
  from subscription_applied [OF again fullA ids(1) tiers(1) teachers(1) this] show ?thesis by metis
qed

text \<open>Two months of the middle plan, of which the first is notified again on the last day of the second.\<close>

definition sample_saas_order :: "string \<Rightarrow> payment_order" where
  "sample_saas_order i = sample_order\<lparr>od_invoiceId := js i, od_status := StPaid,
     od_metadata := Some [(''productKind'', JStr (js ''saas_subscription_mid''))]\<rparr>"

definition sample_saas_orders :: order_table where
  "sample_saas_orders = [sample_saas_order ''A'', sample_saas_order ''B'']"

lemma sample_saas_full:
  "i \<in> {''A'', ''B''} \<Longrightarrow> \<exists>full. getOrder sample_saas_orders (od_invoiceId (sample_saas_order i)) = Some full
     \<and> Option.bind (saas_tier full) getPaidSubscriptionTariff \<noteq> None \<and> saas_teacher full = Some (uuid_of CHR ''a'')
     \<and> saas_period_days full = 30 \<and> od_invoiceId full = js i
     \<and> (\<forall>tariff. saas_amount tariff full = su_amountKopecks tariff)"
proof -
  assume i: "i \<in> {''A'', ''B''}"
  let ?full = "mapRowToOrder (sample_saas_order i)"
  have got: "getOrder sample_saas_orders (od_invoiceId (sample_saas_order i)) = Some ?full"
    using i by (auto simp: getOrder_def order_row_by_id_def find_by_def sample_saas_orders_def sample_saas_order_def js_def)
  have meta: "od_metadata ?full = Some [(''productKind'', JStr (js ''saas_subscription_mid''))]"
      "od_teacherAccountId ?full = Some (uuid_of CHR ''a'')" "od_invoiceId ?full = js i"
    by (simp_all add: mapRowToOrder_def sample_saas_order_def sample_order_def)
  have "saas_tier ?full = Some (js ''mid'')"
    by (simp add: saas_tier_def meta_text_def meta(1) saas_prefix_def js_def)
  moreover have "getPaidSubscriptionTariff (js ''mid'') \<noteq> None"
    by (simp add: getPaidSubscriptionTariff_def getSubscriptionTariff_def SAAS_SUBSCRIPTION_TARIFFS_def find_by_def)
  moreover have "saas_teacher ?full = Some (uuid_of CHR ''a'')"
    by (simp add: saas_teacher_def meta(2) uuid_of_def replicate_8)
  ultimately show ?thesis
    using got meta by (intro exI [of _ ?full]) (simp add: saas_period_days_def saas_amount_def meta_value_def int_value_def)
qed

lemma sample_saas_applies:
  assumes i: "i \<in> {''A'', ''B''}" and w: "sd_auth (py_saas w) = sd_auth sample_saas" "sd_plans (py_saas w) = sd_plans sample_saas"
  shows "\<exists>w'. subscription_branch c p sample_saas_orders (sample_saas_order i) w = Inr w'
     \<and> sd_auth (py_saas w') = sd_auth sample_saas \<and> sd_plans (py_saas w') = sd_plans sample_saas"
proof -
  from sample_saas_full [OF i] obtain full where full: "getOrder sample_saas_orders (od_invoiceId (sample_saas_order i)) = Some full"
      "Option.bind (saas_tier full) getPaidSubscriptionTariff \<noteq> None" "saas_teacher full = Some (uuid_of CHR ''a'')"
      "saas_period_days full = 30" "\<forall>tariff. saas_amount tariff full = su_amountKopecks tariff" by blast
  from full(2) obtain tier tariff where tr: "Option.bind (saas_tier full) getPaidSubscriptionTariff = Some (tier, tariff)" by auto
  then have k: "su_amountKopecks tariff = (case tier of TierMid \<Rightarrow> 39900 | TierPro \<Rightarrow> 80000)"
    by (cases "saas_tier full") (auto simp: getPaidSubscriptionTariff_def getSubscriptionTariff_def SAAS_SUBSCRIPTION_TARIFFS_def
        find_by_def split: if_splits)
  let ?in = "saas_input p full (uuid_of CHR ''a'') tier tariff"
  have pat: "uuid_pattern (uuid_of CHR ''a'')" by (simp add: hex_digit_def)
  have acc: "has_account (sd_auth (py_saas w)) (uuid_of CHR ''a'')"
    by (simp add: w has_account_def sample_saas_def find_by_def sample_teacher_account_def)
  have plan: "plan_exists (py_saas w) (tier_slug tier)"
    by (cases tier) (simp_all add: plan_exists_def w sample_saas_def tier_slug_def find_by_def)
  have "\<exists>v d. createOrRenewTeacherSubscription c ?in (py_saas w) = Inr (v, d)"
    using pat acc plan full(4,5) k
    by (cases "sub_of (py_saas w) (uuid_of CHR ''a'')"; cases tier)
      (simp_all add: createOrRenewTeacherSubscription_def saas_input_def upsert_sub_def Let_def paid_sub_def renewed_sub_def lower_hex_def)
  then obtain v d where run: "createOrRenewTeacherSubscription c ?in (py_saas w) = Inr (v, d)" by blast
  have "sd_auth d = sd_auth (py_saas w) \<and> sd_plans d = sd_plans (py_saas w)"
    using run
  proof (rule renewE)
    fix amount days row
    assume "upsert_sub (paid_sub c ?in amount days) (renewed_sub (paid_sub c ?in amount days)) (py_saas w) = Inr (row, d)"
    from upsert_subE(3,4) [OF this] show ?thesis by simp
  qed
  then show ?thesis
    using full(1,3) tr run w
    by (cases "findSubscriptionByPaymentOrderId (od_invoiceId full) (py_saas w)") (simp_all add: subscription_branch_def)
qed

theorem older_order_applied_again_witness:
  "\<exists>w1 w2 w3 row. subscription_branch (at_second 0) sample_notification sample_saas_orders (sample_saas_order ''A'') sample_pay_world = Inr w1
     \<and> subscription_branch (at_second (30 * 86400)) sample_notification sample_saas_orders (sample_saas_order ''B'') w1 = Inr w2
     \<and> subscription_branch (at_second (60 * 86400)) sample_notification sample_saas_orders (sample_saas_order ''A'') w2 = Inr w3
     \<and> sub_of (py_saas w3) (uuid_of CHR ''a'') = Some row
     \<and> sb_payment_order_id row = Some (js ''A'') \<and> sb_period_end row = Some (90 * us_per_day)"
proof -
  let ?b = "\<lambda>n i. subscription_branch (at_second n) sample_notification sample_saas_orders (sample_saas_order i)"
  have AB: "''A'' \<in> {''A'', ''B''}" "''B'' \<in> {''A'', ''B''}" by simp_all
  have "sd_auth (py_saas sample_pay_world) = sd_auth sample_saas" "sd_plans (py_saas sample_pay_world) = sd_plans sample_saas"
    by (simp_all add: sample_pay_world_def)
  from sample_saas_applies [OF AB(1) this] obtain w1 where one: "?b 0 ''A'' sample_pay_world = Inr w1"
      "sd_auth (py_saas w1) = sd_auth sample_saas" "sd_plans (py_saas w1) = sd_plans sample_saas" by blast
  from sample_saas_applies [OF AB(2) one(2,3)] obtain w2 where two: "?b (30 * 86400) ''B'' w1 = Inr w2"
      "sd_auth (py_saas w2) = sd_auth sample_saas" "sd_plans (py_saas w2) = sd_plans sample_saas" by blast
  from sample_saas_applies [OF AB(1) two(2,3)] obtain w3 where three: "?b (60 * 86400) ''A'' w2 = Inr w3" by blast
  obtain fullA where A: "getOrder sample_saas_orders (od_invoiceId (sample_saas_order ''A'')) = Some fullA"
      "Option.bind (saas_tier fullA) getPaidSubscriptionTariff \<noteq> None" "saas_teacher fullA = Some (uuid_of CHR ''a'')"
      "saas_period_days fullA = 30" "od_invoiceId fullA = js ''A''" using sample_saas_full [OF AB(1)] by blast
  obtain fullB where B: "getOrder sample_saas_orders (od_invoiceId (sample_saas_order ''B'')) = Some fullB"
      "Option.bind (saas_tier fullB) getPaidSubscriptionTariff \<noteq> None" "saas_teacher fullB = Some (uuid_of CHR ''a'')"
      using sample_saas_full [OF AB(2)] by blast
  have ids: "od_invoiceId (sample_saas_order i) = js i" for i by (simp add: sample_saas_order_def)
  have new0: "findSubscriptionByPaymentOrderId (js i) (py_saas sample_pay_world) = None" for i
    by (simp add: not_seen_iff sample_pay_world_def sample_saas_def)
  obtain row where "sb_payment_order_id row = Some (js ''A'')" "set (sd_subs (py_saas w1)) \<subseteq> insert row (set (sd_subs (py_saas sample_pay_world)))"
    by (rule subscription_applied [OF one(1) A(1) _ A(2,3)]) (simp_all add: ids A(5) new0)
  then have newB: "findSubscriptionByPaymentOrderId (od_invoiceId (sample_saas_order ''B'')) (py_saas w1) = None"
    unfolding not_seen_iff ids by (auto simp: sample_pay_world_def sample_saas_def)
  have "od_invoiceId (sample_saas_order ''A'') \<noteq> od_invoiceId (sample_saas_order ''B'')" by (simp add: ids js_def)
  from older_order_applied_again [OF one(1) two(1) three A(1) B(1) A(2) B(2) A(3) B(3) this _ newB]
  obtain row where "sub_of (py_saas w3) (uuid_of CHR ''a'') = Some row" "sb_payment_order_id row = Some (js ''A'')"
      "sb_period_end row = Some (pg_now (at_second (60 * 86400)) + 30 * us_per_day)"
    by (auto simp: ids new0 A(4) lower_hex_def)
  with one two three show ?thesis by (auto simp: at_second_def us_per_day_def us_per_hour_def us_per_minute_def us_per_second_def)
qed

end
