(* ===== verification/Catalog.thy ===== *)
theory Catalog
  imports Orders Subscription Promo
begin

text \<open>
  What a payer may type: amounts, comments and e-mail addresses (\<open>src/lib/payments/catalog.ts\<close>). The formatter of
  amounts (\<open>Intl.NumberFormat\<close>) is an argument.
\<close>

section \<open>Amounts\<close>

definition MIN_PAYMENT_AMOUNT_RUB :: rat where "MIN_PAYMENT_AMOUNT_RUB = 10"
definition MAX_PAYMENT_AMOUNT_RUB :: rat where "MAX_PAYMENT_AMOUNT_RUB = 50000"

definition normalizePaymentAmount :: "js_float \<Rightarrow> js_float" where
  "normalizePaymentAmount x = (case x of Finite q \<Rightarrow> Finite (of_int \<lfloor>q * 100 + 1 / 2\<rfloor> / 100) | _ \<Rightarrow> x)"

definition isValidPaymentAmount :: "js_float \<Rightarrow> bool" where
  "isValidPaymentAmount x \<longleftrightarrow>
     (case x of Finite q \<Rightarrow> MIN_PAYMENT_AMOUNT_RUB \<le> q \<and> q \<le> MAX_PAYMENT_AMOUNT_RUB | _ \<Rightarrow> False)"

section \<open>Comments\<close>

definition PAYMENT_COMMENT_MAX_LENGTH :: nat where "PAYMENT_COMMENT_MAX_LENGTH = 128"

definition control_char :: "nat \<Rightarrow> bool" where
  "control_char u \<longleftrightarrow> u \<le> 31 \<or> 127 \<le> u \<and> u \<le> 159"

datatype comment_verdict = CommentOk "js_text option" | CommentTooLong

definition validateCustomerComment :: "json option \<Rightarrow> comment_verdict" where
  "validateCustomerComment v =
     (case v of
        Some (JStr t) \<Rightarrow>
          let stripped = js_trim (filter (\<lambda>u. \<not> control_char u) t) in
          if stripped = [] then CommentOk None
          else if length stripped > PAYMENT_COMMENT_MAX_LENGTH then CommentTooLong
          else CommentOk (Some stripped)
      | _ \<Rightarrow> CommentOk None)"

definition PAYMENT_DESCRIPTION :: js_text where
  "PAYMENT_DESCRIPTION =
     [1054, 1087, 1083, 1072, 1090, 1072, 32, 1076, 1086, 1087, 1086, 1083, 1085, 1080, 1090, 1077, 1083, 1100, 1085, 1099, 1093,
      32, 1079, 1072, 1085, 1103, 1090, 1080, 1081, 32, 1087, 1086, 32, 1072, 1085, 1075, 1083, 1080, 1081, 1089, 1082, 1086, 1084,
      1091, 32, 1103, 1079, 1099, 1082, 1091]"

definition buildPaymentDescription :: "(rat \<Rightarrow> js_text) \<Rightarrow> rat \<Rightarrow> js_text option \<Rightarrow> js_text" where
  "buildPaymentDescription formatted amountRub customerComment =
     join_with [32, 8212, 32]
       ([PAYMENT_DESCRIPTION] @ (case customerComment of None \<Rightarrow> [] | Some t \<Rightarrow> if t = [] then [] else [t])
          @ [formatted amountRub @ [32, 8381]])"

section \<open>E-mail addresses\<close>

definition letter_or_digit :: "nat \<Rightarrow> bool" where
  "letter_or_digit u \<longleftrightarrow> 48 \<le> u \<and> u \<le> 57 \<or> 65 \<le> u \<and> u \<le> 90 \<or> 97 \<le> u \<and> u \<le> 122"

definition local_char :: "nat \<Rightarrow> bool" where
  "local_char u \<longleftrightarrow> letter_or_digit u \<or> u \<in> set (js ''.!#$%&*+/=?^_`{|}~-'') \<or> u = 39"

definition label_char :: "nat \<Rightarrow> bool" where
  "label_char u \<longleftrightarrow> letter_or_digit u \<or> u = 45"

fun double_dot :: "js_text \<Rightarrow> bool" where
  "double_dot (u # v # us) = (u = 46 \<and> v = 46 \<or> double_dot (v # us))"
| "double_dot _ = False"

datatype email_problem = EmailRequired | EmailTooLong | EmailSpaces | EmailFormat | LocalTooLong | LocalDots | LocalChars
  | DomainFormat | DomainLabel | EmailTld

definition bad_label :: "js_text \<Rightarrow> bool" where
  "bad_label l \<longleftrightarrow> l = [] \<or> length l > 63 \<or> hd l = 45 \<or> last l = 45 \<or> \<not> list_all label_char l"

definition check_local :: "js_text \<Rightarrow> email_problem option" where
  "check_local l =
     (if length l > 64 then Some LocalTooLong
      else if hd l = 46 \<or> last l = 46 \<or> double_dot l then Some LocalDots
      else if \<not> list_all local_char l then Some LocalChars
      else None)"

definition check_domain :: "js_text \<Rightarrow> email_problem option" where
  "check_domain d =
     (if double_dot d \<or> 46 \<notin> set d then Some DomainFormat
      else if list_ex bad_label (js_split 46 d) then Some DomainLabel
      else if length (last (js_split 46 d)) < 2 then Some EmailTld
      else None)"

definition check_parts :: "js_text list \<Rightarrow> email_problem option" where
  "check_parts parts =
     (case parts of
        [l, d] \<Rightarrow>
          if l = [] \<or> d = [] then Some EmailFormat
          else (case check_local l of Some e \<Rightarrow> Some e | None \<Rightarrow> check_domain d)
      | _ \<Rightarrow> Some EmailFormat)"

definition validateCustomerEmail :: "(js_text \<Rightarrow> js_text) \<Rightarrow> js_text \<Rightarrow> email_problem + js_text" where
  "validateCustomerEmail lower v =
     (let email = normalizeAccountEmail lower v in
      if email = [] then Inl EmailRequired
      else if length email > 254 then Inl EmailTooLong
      else if list_ex js_space email then Inl EmailSpaces
      else (case check_parts (js_split 64 email) of Some e \<Rightarrow> Inl e | None \<Rightarrow> Inr email))"

section \<open>What they promise\<close>

lemma js_split_join: "join_with [sep] (js_split sep t) = t" and js_split_nonempty: "js_split sep t \<noteq> []"
proof -
  have "join_with [sep] (js_split sep t) = t \<and> js_split sep t \<noteq> []"
  proof (induction t)
    case (Cons u us)
    then obtain p ps where "js_split sep us = p # ps" by (cases "js_split sep us") auto
    with Cons show ?case by (cases ps) auto
  qed simp
  then show "join_with [sep] (js_split sep t) = t" "js_split sep t \<noteq> []" by blast+
qed

lemma js_split_parts: "p \<in> set (js_split sep t) \<Longrightarrow> sep \<notin> set p"
proof (induction t arbitrary: p)
  case (Cons u us)
  then show ?case by (cases "js_split sep us") (auto split: if_splits)
qed simp

lemma js_split_append: "sep \<notin> set p \<Longrightarrow> js_split sep (p @ sep # us) = p # js_split sep us"
  by (induction p) auto

lemma js_split_plain: "sep \<notin> set p \<Longrightarrow> js_split sep p = [p]"
  by (induction p) auto

lemma js_split_join_with: "ps \<noteq> [] \<Longrightarrow> \<forall>p \<in> set ps. sep \<notin> set p \<Longrightarrow> js_split sep (join_with [sep] ps) = ps"
  by (induction ps rule: induct_list012) (simp_all add: js_split_plain js_split_append)

lemma js_split_one: "length (js_split sep t) = 1 \<longleftrightarrow> sep \<notin> set t"
proof (induction t)
  case (Cons u us)
  then show ?case using js_split_nonempty [of sep us] by (cases "js_split sep us") auto
qed simp

lemma double_dot_label: "double_dot t \<Longrightarrow> [] \<in> set (tl (js_split 46 t))"
proof (induction t rule: double_dot.induct)
  case (1 u v us)
  show ?case
  proof (cases "u = 46 \<and> v = 46")
    case False
    with 1 have "[] \<in> set (tl (js_split 46 (v # us)))" by auto
    moreover obtain p ps where "js_split 46 (v # us) = p # ps" by (meson js_split_nonempty neq_Nil_conv)
    ultimately show ?thesis unfolding js_split.simps(2) [of 46 u "v # us"] by simp
  qed simp
qed simp_all

text \<open>The grammar of the accepted addresses.\<close>

definition good_label :: "js_text \<Rightarrow> bool" where
  "good_label l \<longleftrightarrow> 1 \<le> length l \<and> length l \<le> 63 \<and> hd l \<noteq> 45 \<and> last l \<noteq> 45 \<and> list_all label_char l"

definition well_formed_email :: "js_text \<Rightarrow> bool" where
  "well_formed_email e \<longleftrightarrow>
     length e \<le> 254
     \<and> (\<exists>l labels. e = l @ [64] @ join_with [46] labels
          \<and> 1 \<le> length l \<and> length l \<le> 64 \<and> list_all local_char l \<and> hd l \<noteq> 46 \<and> last l \<noteq> 46 \<and> \<not> double_dot l
          \<and> 2 \<le> length labels \<and> (\<forall>x \<in> set labels. good_label x) \<and> 2 \<le> length (last labels))"

lemma chars_not: "local_char u \<Longrightarrow> u \<noteq> 64 \<and> \<not> js_space u" "label_char u \<Longrightarrow> u \<noteq> 64 \<and> u \<noteq> 46 \<and> \<not> js_space u"
  by (auto simp: local_char_def label_char_def letter_or_digit_def js_space_def js_def)

lemma bad_label_iff: "\<not> bad_label l \<longleftrightarrow> good_label l"
  by (cases l) (auto simp: bad_label_def good_label_def)

lemma check_domain_iff:
  "check_domain d = None \<longleftrightarrow>
     (\<exists>labels. d = join_with [46] labels \<and> 2 \<le> length labels \<and> (\<forall>x \<in> set labels. good_label x) \<and> 2 \<le> length (last labels))"
proof
  assume a: "check_domain d = None"
  let ?ls = "js_split 46 d"
  have "46 \<in> set d" and good: "\<forall>x \<in> set ?ls. good_label x" and "2 \<le> length (last ?ls)"
    using a by (auto simp: check_domain_def list_ex_iff bad_label_iff split: if_splits)
  moreover have "length ?ls \<noteq> 1" "?ls \<noteq> []" using \<open>46 \<in> set d\<close> js_split_one [of 46 d] js_split_nonempty [of 46 d] by auto
  then have "2 \<le> length ?ls" by (cases ?ls; cases "tl ?ls") auto
  ultimately show "\<exists>labels. d = join_with [46] labels \<and> 2 \<le> length labels \<and> (\<forall>x \<in> set labels. good_label x) \<and> 2 \<le> length (last labels)"
    by (intro exI [of _ ?ls]) (simp add: js_split_join)
next
  assume "\<exists>labels. d = join_with [46] labels \<and> 2 \<le> length labels \<and> (\<forall>x \<in> set labels. good_label x) \<and> 2 \<le> length (last labels)"
  then obtain labels where l: "d = join_with [46] labels" "2 \<le> length labels" "\<forall>x \<in> set labels. good_label x" "2 \<le> length (last labels)"
    by blast
  have "46 \<notin> set x" if "x \<in> set labels" for x
    using l(3) that chars_not(2) by (fastforce simp: good_label_def list_all_iff)
  then have split: "js_split 46 d = labels" unfolding l(1) using l(2) by (intro js_split_join_with) auto
  have "[] \<notin> set labels" using l(3) by (auto simp: good_label_def)
  then have "\<not> double_dot d" using double_dot_label [of d] list.set_sel(2) [of labels] by (cases labels) (auto simp: split)
  moreover have "46 \<in> set d" using js_split_one [of 46 d] l(2) by (auto simp: split)
  ultimately show "check_domain d = None" using l(3,4) by (auto simp: check_domain_def split list_ex_iff bad_label_iff)
qed

lemma email_parts: "(\<exists>l d. js_split 64 x = [l, d] \<and> l \<noteq> [] \<and> d \<noteq> [] \<and> check_local l = None \<and> check_domain d = None)
      \<and> length x \<le> 254 \<and> \<not> list_ex js_space x \<and> x \<noteq> [] \<longleftrightarrow> well_formed_email x" (is "?L \<longleftrightarrow> ?R")
proof
  assume ?L
  then obtain l d where x: "js_split 64 x = [l, d]" "l \<noteq> []" "check_local l = None" "check_domain d = None" "length x \<le> 254" by blast
  have "x = l @ [64] @ d" using js_split_join [of 64 x] x(1) by simp
  with x show ?R unfolding check_domain_iff well_formed_email_def
    by (auto simp: check_local_def Suc_le_eq split: if_splits intro!: exI [of _ l])
next
  assume ?R
  then obtain l labels where x: "x = l @ [64] @ join_with [46] labels" "1 \<le> length l" "length l \<le> 64" "list_all local_char l"
      "hd l \<noteq> 46" "last l \<noteq> 46" "\<not> double_dot l" "2 \<le> length labels" "\<forall>x \<in> set labels. good_label x" "2 \<le> length (last labels)"
      "length x \<le> 254"
    unfolding well_formed_email_def by blast
  let ?d = "join_with [46] labels"
  have dom: "check_domain ?d = None" using x(8-10) unfolding check_domain_iff by blast
  have dset: "set ?d \<subseteq> insert 46 (\<Union> (set ` set labels))" by (induction labels rule: induct_list012) auto
  have dchar: "u = 46 \<or> label_char u" if "u \<in> set ?d" for u
    using dset that x(9) by (fastforce simp: good_label_def list_all_iff)
  have "?d \<noteq> []" using dom by (auto simp: check_domain_def)
  have "64 \<notin> set l" "64 \<notin> set ?d" using x(4) dchar chars_not by (fastforce simp: list_all_iff)+
  then have "js_split 64 x = [l, ?d]" by (simp add: x(1) js_split_append js_split_plain)
  moreover have "\<not> list_ex js_space x"
    using x(4) dchar chars_not by (fastforce simp: list_ex_iff list_all_iff x(1) js_space_def)
  moreover have "check_local l = None" using x(3-7) by (simp add: check_local_def)
  moreover have "l \<noteq> []" using x(2) by auto
  ultimately show ?L using dom \<open>?d \<noteq> []\<close> x(1,11) by auto
qed

lemma accepted_email: "validateCustomerEmail lower v = Inr e \<Longrightarrow> well_formed_email e"
  using email_parts [of e] by (auto simp: validateCustomerEmail_def check_parts_def Let_def split: if_splits option.splits list.splits)

text \<open>
  The checks of an e-mail address, made one after the other on its pieces, accept exactly the
  normalised address when it is in this grammar: a local part of 1 to 64 allowed characters without a dot at an end or two in
  a row, an at sign, and two or more labels of 1 to 63 letters, digits and inner hyphens, the last of at least two.
\<close>

theorem validateCustomerEmail_iff:
  "validateCustomerEmail lower v = Inr e \<longleftrightarrow> e = normalizeAccountEmail lower v \<and> well_formed_email e"
proof -
  let ?e = "normalizeAccountEmail lower v"
  have "validateCustomerEmail lower v = Inr e \<longleftrightarrow> e = ?e \<and>
      ((\<exists>l d. js_split 64 ?e = [l, d] \<and> l \<noteq> [] \<and> d \<noteq> [] \<and> check_local l = None \<and> check_domain d = None)
      \<and> length ?e \<le> 254 \<and> \<not> list_ex js_space ?e \<and> ?e \<noteq> [])"
    by (auto simp: validateCustomerEmail_def check_parts_def Let_def split: if_splits option.splits list.splits)
  then show ?thesis unfolding email_parts by auto
qed

lemma email_of_case: "validateCustomerEmail lower v = Inr e \<Longrightarrow> e = normalizeAccountEmail lower v"
  by (auto simp: validateCustomerEmail_def Let_def split: if_splits option.splits)

lemma accepted_amount:
  assumes "isValidPaymentAmount (normalizePaymentAmount x)"
  obtains k :: int where "normalizePaymentAmount x = Finite (of_int k / 100)" and "1000 \<le> k" and "k \<le> 5000000"
proof (cases x)
  case (Finite q)
  let ?k = "\<lfloor>q * 100 + 1 / 2\<rfloor>"
  have x: "normalizePaymentAmount x = Finite (of_int ?k / 100)" by (simp add: Finite normalizePaymentAmount_def)
  then have "(10 :: rat) \<le> of_int ?k / 100" "of_int ?k / 100 \<le> (50000 :: rat)"
    using assms by (simp_all only: isValidPaymentAmount_def MIN_PAYMENT_AMOUNT_RUB_def MAX_PAYMENT_AMOUNT_RUB_def js_float.case)
  then have "(of_int 1000 :: rat) \<le> of_int ?k" "(of_int ?k :: rat) \<le> of_int 5000000" by simp_all
  then have "1000 \<le> ?k" "?k \<le> 5000000" unfolding of_int_le_iff by simp_all
  with x show thesis by (rule that)
qed (use assms in \<open>simp_all add: isValidPaymentAmount_def normalizePaymentAmount_def\<close>)

end
