(* ===== verification/Checkout.thy ===== *)
theory Checkout
  imports Pay_Handler Catalog
begin

text \<open>
  How orders come to be: the two makers of orders (\<open>src/lib/payments/cloudpayments.ts\<close>, \<open>mock.ts\<close>), the
  payment by widget, by saved card and after 3-D Secure (\<open>src/lib/payments/provider/checkout.ts\<close>), what is read of the
  answers of the acquirer (\<open>src/lib/payments/cloudpayments-api.ts\<close>), the owner of an order
  (\<open>teacher-derivation.ts\<close>), the gate of an order by its receipt token (\<open>receipt-token-gate.ts\<close>) and the routes
  \<open>src/app/api/payments/route.ts\<close> and \<open>[invoiceId]/cancel/route.ts\<close>. The answer of the acquirer is an argument,
  and so is what the rest of the system does while it is awaited (\<open>between\<close>). Texts that only the browser reads
  (redirects, the look of the widget), telemetry and audit rows are left out.
\<close>

section \<open>New orders\<close>

record personal_consent =
  pcs_acceptedAt :: millis
  pcs_fields :: payload
  pcs_snapshot :: json

record order_options =
  oo_rememberCard :: bool
  oo_source :: "js_text option"
  oo_consent :: "personal_consent option"
  oo_comment :: "js_text option"
  oo_slotId :: "js_text option"
  oo_method :: "order_method option"
  oo_teacher :: "uuid option"

definition no_order_options :: order_options where
  "no_order_options = \<lparr>oo_rememberCard = False, oo_source = None, oo_consent = None, oo_comment = None, oo_slotId = None,
     oo_method = None, oo_teacher = None\<rparr>"

text \<open>\<open>normalizePaymentAmount\<close> of an amount that is a number.\<close>

definition normal_rub :: "rat \<Rightarrow> rat" where
  "normal_rub q = of_int \<lfloor>q * 100 + 1 / 2\<rfloor> / 100"

definition buildReceipt :: "rat \<Rightarrow> js_text \<Rightarrow> json" where
  "buildReceipt amountRub email =
     (let n = (\<lambda>q. JNum (Finite q)); a = normal_rub amountRub in
      JObj [(js ''items'', JArr [JObj [(js ''label'', JStr PAYMENT_DESCRIPTION), (js ''price'', n a), (js ''quantity'', n 1),
              (js ''amount'', n a), (js ''vat'', n 0), (js ''method'', n 0), (js ''object'', n 0)]]),
            (js ''email'', JStr email), (js ''isBso'', JBool False),
            (js ''amounts'', JObj [(js ''electronic'', n a), (js ''advancePayment'', n 0), (js ''credit'', n 0),
              (js ''provision'', n 0)])])"

definition text_or_null :: "js_text option \<Rightarrow> json" where
  "text_or_null t = (case t of None \<Rightarrow> JNull | Some x \<Rightarrow> JStr x)"

definition first_events :: "millis \<Rightarrow> personal_consent option \<Rightarrow> order_event list" where
  "first_events now consent =
     (case consent of
        None \<Rightarrow> []
      | Some s \<Rightarrow> [\<lparr>oe_type = ''legal.personal_data_consent_accepted'', oe_at = pcs_acceptedAt s, oe_payload = Some (pcs_fields s)\<rparr>])
     @ [\<lparr>oe_type = ''order.created'', oe_at = now, oe_payload = None\<rparr>]"

definition awaiting_message :: js_text where
  "awaiting_message =
     [1054, 1078, 1080, 1076, 1072, 1077, 1084, 32, 1079, 1072, 1074, 1077, 1088, 1096, 1077, 1085, 1080, 1103, 32,
      1086, 1087, 1083, 1072, 1090, 1099, 32, 1074, 32, 67, 108, 111, 117, 100, 80, 97, 121, 109, 101, 110, 116, 115, 46]"

definition mock_message :: js_text where
  "mock_message =
     [77, 111, 99, 107, 45, 1088, 1077, 1078, 1080, 1084, 58, 32, 1086, 1087, 1083, 1072, 1090, 1072, 32, 1073, 1091, 1076,
      1077, 1090, 32, 1072, 1074, 1090, 1086, 1084, 1072, 1090, 1080, 1095, 1077, 1089, 1082, 1080, 32, 1087, 1086, 1076, 1090,
      1074, 1077, 1088, 1078, 1076, 1077, 1085, 1072, 46]"

text \<open>The fields that both makers set alike.\<close>

definition pending_order :: "(rat \<Rightarrow> js_text) \<Rightarrow> millis \<Rightarrow> rat \<Rightarrow> js_text \<Rightarrow> js_text \<Rightarrow> order_options \<Rightarrow> payment_order" where
  "pending_order formatted now amountRub customerEmail invoiceId opts =
     \<lparr>od_invoiceId = invoiceId, od_amountRub = normal_rub amountRub,
      od_description = buildPaymentDescription formatted (normal_rub amountRub) (oo_comment opts), od_provider = PrMock,
      od_status = StPending, od_createdAt = now, od_updatedAt = now, od_paidAt = None, od_failedAt = None,
      od_providerTransactionId = None, od_providerMessage = None, od_customerEmail = customerEmail,
      od_receiptEmail = customerEmail, od_receipt = buildReceipt (normal_rub amountRub) customerEmail, od_metadata = None,
      od_mockAutoConfirmAt = None, od_events = first_events now (oo_consent opts), od_customerComment = oo_comment opts,
      od_receiptTokenHash = None, od_grantedByOperatorId = None, od_paymentMethod = Some OmCard, od_grantedByTeacherId = None,
      od_teacherAccountId = oo_teacher opts\<rparr>"

definition createCloudPaymentsOrder ::
  "(rat \<Rightarrow> js_text) \<Rightarrow> bool \<Rightarrow> millis \<Rightarrow> rat \<Rightarrow> js_text \<Rightarrow> js_text \<Rightarrow> order_options \<Rightarrow> exn + payment_order" where
  "createCloudPaymentsOrder formatted is_configured now amountRub customerEmail invoiceId opts =
     (if \<not> is_configured then Inl (JsError ''CloudPayments credentials are not configured.'')
      else Inr ((pending_order formatted now amountRub customerEmail invoiceId opts)
        \<lparr>od_provider := PrCloudPayments, od_providerMessage := Some awaiting_message,
         od_paymentMethod := Some (coalesce (oo_method opts) OmCard),
         od_metadata := Some (payload_of
           [(''source'', Some (JStr (coalesce (truthy_text (oo_source opts)) (js ''widget'')))),
            (''rememberCard'', Some (JBool (oo_rememberCard opts))),
            (''personalDataConsent'', map_option pcs_snapshot (oo_consent opts)),
            (''customerComment'', Some (text_or_null (oo_comment opts))),
            (''slotId'', map_option JStr (truthy_text (oo_slotId opts)))])\<rparr>))"

definition createMockOrder ::
  "(rat \<Rightarrow> js_text) \<Rightarrow> int \<Rightarrow> millis \<Rightarrow> rat \<Rightarrow> js_text \<Rightarrow> js_text \<Rightarrow> js_text \<Rightarrow> order_options \<Rightarrow> payment_order" where
  "createMockOrder formatted autoConfirmSeconds now amountRub customerEmail invoiceId session opts =
     (pending_order formatted now amountRub customerEmail invoiceId opts)
       \<lparr>od_providerMessage := Some mock_message, od_mockAutoConfirmAt := Some (now + autoConfirmSeconds * 1000),
        od_metadata := Some (payload_of
          [(''mockBankSessionId'', Some (JStr session)),
           (''personalDataConsent'', map_option pcs_snapshot (oo_consent opts)),
           (''customerComment'', Some (text_or_null (oo_comment opts))),
           (''slotId'', map_option JStr (truthy_text (oo_slotId opts)))])\<rparr>"

section \<open>Payment by widget\<close>

datatype config_provider = CfgMock | CfgCloudPayments

record pay_config =
  cf_provider :: config_provider
  cf_configured :: bool
  cf_mockAutoConfirmSeconds :: int

record widget_intent =
  wi_amount :: rat
  wi_description :: js_text
  wi_externalId :: js_text
  wi_receiptEmail :: js_text
  wi_accountId :: js_text
  wi_receipt :: json
  wi_rememberCard :: bool
  wi_tokenize :: bool

definition buildCloudPaymentsWidgetIntent :: "payment_order \<Rightarrow> widget_intent" where
  "buildCloudPaymentsWidgetIntent ord =
     (let rememberCard = (case meta_value ord ''rememberCard'' of Some (JBool b) \<Rightarrow> b | _ \<Rightarrow> False) in
      \<lparr>wi_amount = od_amountRub ord, wi_description = od_description ord, wi_externalId = od_invoiceId ord,
       wi_receiptEmail = od_receiptEmail ord, wi_accountId = od_customerEmail ord, wi_receipt = od_receipt ord,
       wi_rememberCard = rememberCard, wi_tokenize = rememberCard\<rparr>)"

text \<open>What the process draws at random: the id of the order, the receipt token and its hash, the id of a mock session.\<close>

record drawn =
  dr_invoiceId :: js_text
  dr_token :: js_text
  dr_token_hash :: string
  dr_session :: js_text

definition createPayment ::
  "(rat \<Rightarrow> js_text) \<Rightarrow> pay_config \<Rightarrow> clock \<Rightarrow> drawn \<Rightarrow> (uuid \<Rightarrow> bool) \<Rightarrow> rat \<Rightarrow> js_text \<Rightarrow> order_options \<Rightarrow> order_table
     \<Rightarrow> exn + (public_order \<times> widget_intent option \<times> js_text) \<times> order_table" where
  "createPayment formatted cfg c dr account_exists amountRub customerEmail opts t =
     bindR (if cf_provider cfg = CfgCloudPayments
            then createCloudPaymentsOrder formatted (cf_configured cfg) (js_now c) amountRub customerEmail (dr_invoiceId dr) opts
            else Inr (createMockOrder formatted (cf_mockAutoConfirmSeconds cfg) (js_now c) amountRub customerEmail
                        (dr_invoiceId dr) (dr_session dr) opts))
       (\<lambda>made. let ord = made\<lparr>od_receiptTokenHash := Some (dr_token_hash dr)\<rparr> in
          bindR (createOrder account_exists ord t)
            (\<lambda>(_, t'). Inr ((toPublicOrder ord,
                             if cf_provider cfg = CfgCloudPayments then Some (buildCloudPaymentsWidgetIntent made) else None,
                             dr_token dr), t')))"

section \<open>The answers of the acquirer\<close>

datatype http_answer = HttpFailed js_text | HttpStatus int | HttpNoJson js_text | HttpJson json

record card_answer =
  ca_token :: "js_text option"
  ca_cardLastFour :: "js_text option"
  ca_cardType :: "js_text option"
  ca_cardExpDate :: "js_text option"

datatype charge_answer =
    ChSuccess js_text card_answer
  | ChRequires3ds js_text js_text js_text "js_text option"
  | ChDeclined "js_text option" js_text "js_text option"
  | ChError js_text

datatype confirm_answer = CfSuccess js_text card_answer | CfDeclined "js_text option" js_text "js_text option" | CfError js_text

definition pickString :: "js_runtime \<Rightarrow> json option \<Rightarrow> js_text option" where
  "pickString rt v = (case v of Some (JStr t) \<Rightarrow> Some t | Some (JNum x) \<Rightarrow> Some (rt_num_text rt x) | _ \<Rightarrow> None)"

definition answer_model :: "json \<Rightarrow> json" where
  "answer_model p = (case json_field p ''Model'' of Some v \<Rightarrow> if js_truthy v then v else JObj [] | None \<Rightarrow> JObj [])"

definition card_of_answer :: "js_runtime \<Rightarrow> json \<Rightarrow> card_answer" where
  "card_of_answer rt model =
     \<lparr>ca_token = pickString rt (json_field model ''Token''), ca_cardLastFour = pickString rt (json_field model ''CardLastFour''),
      ca_cardType = pickString rt (json_field model ''CardType''), ca_cardExpDate = pickString rt (json_field model ''CardExpDate'')\<rparr>"

text \<open>Transaction, message and code of a refusal.\<close>

definition declined_parts :: "js_runtime \<Rightarrow> js_text \<Rightarrow> json \<Rightarrow> js_text option \<times> js_text \<times> js_text option" where
  "declined_parts rt fallback p =
     (let model = answer_model p in
      (pickString rt (json_field model ''TransactionId''),
       coalesce (or_text (pickString rt (json_field model ''CardHolderMessage'')) (truthy_text (pickString rt (json_field p ''Message'')))) fallback,
       or_text (pickString rt (json_field model ''ReasonCode'')) (pickString rt (json_field p ''ReasonCode''))))"

definition charge_declined_text :: js_text where
  "charge_declined_text = [1055, 1083, 1072, 1090, 1105, 1078, 32, 1086, 1090, 1082, 1083, 1086, 1085, 1105, 1085, 46]"

definition bank_declined_text :: js_text where
  "bank_declined_text =
     [1055, 1083, 1072, 1090, 1105, 1078, 32, 1086, 1090, 1082, 1083, 1086, 1085, 1105, 1085, 32, 1073, 1072, 1085, 1082, 1086, 1084, 46]"

definition no_credentials_text :: js_text where
  "no_credentials_text = js ''CloudPayments credentials are not configured.''"

text \<open>Reading a property of a JSON null throws.\<close>

definition read_answer ::
  "js_runtime \<Rightarrow> bool \<Rightarrow> (js_text \<Rightarrow> 'a) \<Rightarrow> (json \<Rightarrow> 'a) \<Rightarrow> http_answer \<Rightarrow> exn + 'a" where
  "read_answer rt is_configured failure interpret a =
     (if \<not> is_configured then Inr (failure no_credentials_text)
      else case a of
        HttpFailed m \<Rightarrow> Inr (failure m)
      | HttpStatus n \<Rightarrow> Inr (failure (js ''CloudPayments responded with HTTP '' @ rt_num_text rt (Finite (of_int n)) @ js ''.''))
      | HttpNoJson m \<Rightarrow> Inr (failure m)
      | HttpJson p \<Rightarrow> if p = JNull then Inl TypeErrorUndefined else Inr (interpret p))"

definition chargeWithSavedToken :: "js_runtime \<Rightarrow> bool \<Rightarrow> http_answer \<Rightarrow> exn + charge_answer" where
  "chargeWithSavedToken rt is_configured =
     read_answer rt is_configured ChError (\<lambda>p.
       let model = answer_model p;
           tx = truthy_text (pickString rt (json_field model ''TransactionId''));
           paReq = truthy_text (pickString rt (json_field model ''PaReq''));
           acsUrl = truthy_text (pickString rt (json_field model ''AcsUrl''));
           declined = (case declined_parts rt charge_declined_text p of (i, m, code) \<Rightarrow> ChDeclined i m code)
       in case tx of
            Some i \<Rightarrow>
              if json_field p ''Success'' = Some (JBool True) then ChSuccess i (card_of_answer rt model)
              else (case (paReq, acsUrl) of
                 (Some q, Some u) \<Rightarrow> ChRequires3ds i q u (pickString rt (json_field model ''ThreeDsCallbackId''))
               | _ \<Rightarrow> declined)
          | None \<Rightarrow> declined)"

definition confirmThreeDs :: "js_runtime \<Rightarrow> bool \<Rightarrow> http_answer \<Rightarrow> exn + confirm_answer" where
  "confirmThreeDs rt is_configured =
     read_answer rt is_configured CfError (\<lambda>p.
       let model = answer_model p; tx = truthy_text (pickString rt (json_field model ''TransactionId''));
           declined = (case declined_parts rt bank_declined_text p of (i, m, code) \<Rightarrow> CfDeclined i m code)
       in case tx of
            Some i \<Rightarrow> if json_field p ''Success'' = Some (JBool True) then CfSuccess i (card_of_answer rt model) else declined
          | None \<Rightarrow> declined)"

section \<open>Payment by saved card\<close>

definition meta_put :: "string \<Rightarrow> json \<Rightarrow> payload \<Rightarrow> payload" where
  "meta_put k v fs = (k, v) # filter (\<lambda>(x, _). x \<noteq> k) fs"

definition map_cards :: "(card_row list \<Rightarrow> card_row list) \<Rightarrow> pay_world \<Rightarrow> pay_world" where
  "map_cards f w = w\<lparr>py_cards := f (py_cards w)\<rparr>"

definition one_click_order :: "clock \<Rightarrow> drawn \<Rightarrow> js_text option \<Rightarrow> payment_order \<Rightarrow> payment_order" where
  "one_click_order c dr accountId ord =
     (let fs = meta_put ''source'' (JStr (js ''one_click'')) (coalesce (od_metadata ord) []) in
      ord\<lparr>od_receiptTokenHash := Some (dr_token_hash dr),
          od_metadata := Some (case truthy_text accountId of None \<Rightarrow> fs | Some i \<Rightarrow> meta_put ''accountId'' (JStr i) fs),
          od_events := od_events ord @ [\<lparr>oe_type = ''one_click.charge_attempt'', oe_at = js_now c, oe_payload = None\<rparr>]\<rparr>)"

definition threeds_text :: js_text where
  "threeds_text =
     [1055, 1086, 1076, 1090, 1074, 1077, 1088, 1076, 1080, 1090, 1077, 32, 1086, 1087, 1083, 1072, 1090, 1091, 32, 1074, 32,
      1086, 1082, 1085, 1077, 32, 51, 45, 68, 32, 83, 101, 99, 117, 114, 101, 32, 1074, 1072, 1096, 1077, 1075, 1086, 32, 1073,
      1072, 1085, 1082, 1072, 46]"

datatype charge_outcome =
    NoSavedCard
  | ChargePaid public_order
  | ChargeRequires3ds public_order js_text js_text js_text "js_text option"
  | ChargeDeclined public_order js_text

type_synonym pay_store = "order_table \<times> pay_world"

text \<open>A step on the orders whose throw leaves the function.\<close>

definition on_orders ::
  "exn + ('a \<times> order_table) \<Rightarrow> pay_store \<Rightarrow> ('a \<Rightarrow> pay_store \<Rightarrow> (exn + 'b) \<times> pay_store) \<Rightarrow> (exn + 'b) \<times> pay_store" where
  "on_orders r s k = (case r of Inl e \<Rightarrow> (Inl e, s) | Inr (x, t') \<Rightarrow> k x (t', snd s))"

definition source_note :: "string \<Rightarrow> (string \<times> json option) list \<Rightarrow> payload option" where
  "source_note src fs = Some (payload_of (fs @ [(''source'', Some (JStr (js src)))]))"

definition decline_note :: "string \<Rightarrow> js_text option \<Rightarrow> js_text \<Rightarrow> js_text option \<Rightarrow> payload option" where
  "decline_note src tx m reasonCode =
     source_note src [(''transactionId'', map_option JStr tx), (''reason'', Some (JStr m)), (''reasonCode'', map_option JStr reasonCode)]"

text \<open>\<open>iso_text\<close> is \<open>toISOString\<close>.\<close>

definition begin_threeds ::
  "(millis \<Rightarrow> js_text) \<Rightarrow> clock \<Rightarrow> js_text \<Rightarrow> js_text \<Rightarrow> js_text option \<Rightarrow> payment_order \<Rightarrow> payment_order" where
  "begin_threeds iso_text c tx acsUrl callbackId current =
     (let state = payload_of [(''transactionId'', Some (JStr tx)), (''acsUrl'', Some (JStr acsUrl)),
                              (''threeDsCallbackId'', map_option JStr callbackId), (''startedAt'', Some (JStr (iso_text (js_now c))))]
      in appendEvent (js_now c)
       (current\<lparr>od_providerMessage := Some threeds_text,
          od_metadata := Some (meta_put ''threeDs'' (JObj (map (\<lambda>(k, v). (js k, v)) state)) (coalesce (od_metadata current) []))\<rparr>)
       ''one_click.requires_3ds''
       (Some (payload_of [(''transactionId'', Some (JStr tx)), (''threeDsCallbackId'', map_option JStr callbackId)])))"

definition dead_card_codes :: "js_text list" where
  "dead_card_codes = [js ''5051'', js ''5054'', js ''5057'']"

text \<open>What is done with the answer, in the state found then.\<close>

definition finish_charge ::
  "js_runtime \<Rightarrow> (millis \<Rightarrow> js_text) \<Rightarrow> clock \<Rightarrow> card_row \<Rightarrow> payment_order \<Rightarrow> charge_answer \<Rightarrow> pay_store \<Rightarrow> (exn + charge_outcome) \<times> pay_store" where
  "finish_charge rt iso_text c saved ord answer s =
     (let i = od_invoiceId ord; now = js_now c in
      case answer of
        ChSuccess tx _ \<Rightarrow>
          on_orders (markOrderPaid rt now i (source_note ''one_click'' [(''transactionId'', Some (JStr tx))]) None (fst s)) s
            (\<lambda>(paid, _) (t, w). (Inr (ChargePaid (toPublicOrder (coalesce paid ord))),
               t, map_cards (touchCardTokenUsedAt (ct_customer_email saved) now) w))
      | ChRequires3ds tx paReq acsUrl callbackId \<Rightarrow>
          on_orders (updateOrder i (begin_threeds iso_text c tx acsUrl callbackId) (fst s)) s
            (\<lambda>updated s'. (Inr (ChargeRequires3ds (toPublicOrder (coalesce updated ord)) tx paReq acsUrl callbackId), s'))
      | ChDeclined tx m reasonCode \<Rightarrow>
          on_orders (markOrderFailed rt now i (decline_note ''one_click'' tx m reasonCode) (fst s)) s
            (\<lambda>(failed, _) (t, w). (Inr (ChargeDeclined (toPublicOrder (coalesce failed ord)) m),
               t, if (case reasonCode of None \<Rightarrow> False | Some x \<Rightarrow> x \<in> set dead_card_codes)
                  then map_cards (deleteCardToken (ct_customer_email saved)) w else w))
      | ChError m \<Rightarrow>
          on_orders (markOrderFailed rt now i (source_note ''one_click'' [(''reason'', Some (JStr m))]) (fst s)) s
            (\<lambda>(failed, _) s'. (Inr (ChargeDeclined (toPublicOrder (coalesce failed ord)) m), s')))"

record charge_params =
  cp_amountRub :: rat
  cp_customerEmail :: js_text
  cp_consent :: personal_consent
  cp_accountId :: "js_text option"
  cp_teacher :: "uuid option"

definition charge_options :: "charge_params \<Rightarrow> order_options" where
  "charge_options params = no_order_options\<lparr>oo_consent := Some (cp_consent params), oo_teacher := cp_teacher params\<rparr>"

definition chargeWithSavedCard ::
  "js_runtime \<Rightarrow> (rat \<Rightarrow> js_text) \<Rightarrow> (millis \<Rightarrow> js_text) \<Rightarrow> pay_config \<Rightarrow> clock \<Rightarrow> clock \<Rightarrow> drawn \<Rightarrow> (uuid \<Rightarrow> bool) \<Rightarrow> charge_params \<Rightarrow> http_answer
     \<Rightarrow> (pay_store \<Rightarrow> pay_store) \<Rightarrow> pay_store \<Rightarrow> (exn + charge_outcome) \<times> pay_store" where
  "chargeWithSavedCard rt formatted iso_text cfg c c' dr account_exists params a between s =
     (if cf_provider cfg \<noteq> CfgCloudPayments then (Inr NoSavedCard, s)
      else case getCardTokenByEmail (cp_customerEmail params) (py_cards (snd s)) of
        None \<Rightarrow> (Inr NoSavedCard, s)
      | Some saved \<Rightarrow>
          (case createCloudPaymentsOrder formatted (cf_configured cfg) (js_now c) (cp_amountRub params) (cp_customerEmail params)
                  (dr_invoiceId dr) (charge_options params) of
             Inl e \<Rightarrow> (Inl e, s)
           | Inr made \<Rightarrow>
               let ord = one_click_order c dr (cp_accountId params) made in
               on_orders (createOrder account_exists ord (fst s)) s
                 (\<lambda>_ s1.
                    let s2 = between s1 in
                    case chargeWithSavedToken rt (cf_configured cfg) a of
                      Inl e \<Rightarrow> (Inl e, s2)
                    | Inr answer \<Rightarrow> finish_charge rt iso_text c' saved ord answer s2)))"

section \<open>After 3-D Secure\<close>

datatype threeds_outcome = ThPaid public_order | ThDeclined public_order js_text | ThUnknownInvoice | ThInvalidState public_order

definition threeds_transaction :: "payment_order \<Rightarrow> json option" where
  "threeds_transaction ord =
     (case Option.bind (meta_value ord ''threeDs'') (\<lambda>v. json_field v ''transactionId'') of
        None \<Rightarrow> None
      | Some v \<Rightarrow> if js_truthy v then Some v else None)"

definition split_exp :: "js_text option \<Rightarrow> nat \<Rightarrow> js_text option" where
  "split_exp v n = (case v of None \<Rightarrow> None | Some t \<Rightarrow> let ps = js_split 47 t in if n < length ps then Some (ps ! n) else None)"

definition fresh_card :: "clock \<Rightarrow> js_text \<Rightarrow> js_text \<Rightarrow> card_answer \<Rightarrow> card_row" where
  "fresh_card c email token ca =
     \<lparr>ct_customer_email = email, ct_token = token, ct_card_last_four = ca_cardLastFour ca, ct_card_type = ca_cardType ca,
      ct_card_exp_month = split_exp (ca_cardExpDate ca) 0, ct_card_exp_year = split_exp (ca_cardExpDate ca) 1,
      ct_created_at = js_now c, ct_last_used_at = js_now c\<rparr>"

text \<open>The saved card after a success: replaced by a fresh token with consent, else only touched.\<close>

definition keep_card :: "clock \<Rightarrow> payment_order \<Rightarrow> card_answer \<Rightarrow> card_row list \<Rightarrow> card_row list" where
  "keep_card c ord ca cs =
     (if od_customerEmail ord = [] then cs
      else case (meta_value ord ''rememberCard'', truthy_text (ca_token ca)) of
        (Some (JBool True), Some token) \<Rightarrow> upsertCardToken (fresh_card c (od_customerEmail ord) token ca) cs
      | _ \<Rightarrow> touchCardTokenUsedAt (od_customerEmail ord) (js_now c) cs)"

definition finish_threeds ::
  "js_runtime \<Rightarrow> clock \<Rightarrow> payment_order \<Rightarrow> confirm_answer \<Rightarrow> pay_store \<Rightarrow> (exn + threeds_outcome) \<times> pay_store" where
  "finish_threeds rt c ord answer s =
     (let i = od_invoiceId ord; now = js_now c in
      case answer of
        CfSuccess tx ca \<Rightarrow>
          on_orders (markOrderPaid rt now i (source_note ''one_click_3ds'' [(''transactionId'', Some (JStr tx))]) None (fst s)) s
            (\<lambda>(paid, _) (t, w). (Inr (ThPaid (toPublicOrder (coalesce paid ord))), t, map_cards (keep_card c ord ca) w))
      | CfDeclined tx m reasonCode \<Rightarrow>
          on_orders (markOrderFailed rt now i (decline_note ''one_click_3ds'' tx m reasonCode) (fst s)) s
            (\<lambda>(failed, _) s'. (Inr (ThDeclined (toPublicOrder (coalesce failed ord)) m), s'))
      | CfError m \<Rightarrow>
          on_orders (updateOrder i (\<lambda>current. appendEvent now current ''one_click.3ds_error'' (Some [(''message'', JStr m)])) (fst s)) s
            (\<lambda>_ s'. (Inr (ThDeclined (toPublicOrder ord) m), s')))"

definition confirmThreeDsAndFinalize ::
  "js_runtime \<Rightarrow> pay_config \<Rightarrow> clock \<Rightarrow> js_text \<Rightarrow> http_answer \<Rightarrow> (pay_store \<Rightarrow> pay_store) \<Rightarrow> pay_store
     \<Rightarrow> (exn + threeds_outcome) \<times> pay_store" where
  "confirmThreeDsAndFinalize rt cfg c invoiceId a between s =
     (case getOrder (fst s) invoiceId of
        None \<Rightarrow> (Inr ThUnknownInvoice, s)
      | Some ord \<Rightarrow>
          if od_status ord = StPaid then (Inr (ThPaid (toPublicOrder ord)), s)
          else if threeds_transaction ord = None \<or> od_status ord \<noteq> StPending then (Inr (ThInvalidState (toPublicOrder ord)), s)
          else
            let s' = between s in
            case confirmThreeDs rt (cf_configured cfg) a of
              Inl e \<Rightarrow> (Inl e, s')
            | Inr answer \<Rightarrow> finish_threeds rt c ord answer s')"

section \<open>The owner of an order\<close>

record owner_hints =
  oh_slotId :: "js_text option"
  oh_packageId :: "js_text option"
  oh_packageSlug :: "js_text option"
  oh_teacherSlug :: "js_text option"
  oh_explicit :: "js_text option"

definition uuid_hint :: "js_text option \<Rightarrow> string option" where
  "uuid_hint t = Option.bind t uuid_text"

definition deriveTeacherAccountIdForOrder ::
  "(js_text \<Rightarrow> uuid option) \<Rightarrow> uuid option \<Rightarrow> owner_hints \<Rightarrow> pay_world \<Rightarrow> uuid option" where
  "deriveTeacherAccountIdForOrder teacher_by_slug bootstrap hints w =
     coalesce_opt (uuid_hint (oh_explicit hints))
       (coalesce_opt (Option.bind (uuid_hint (oh_slotId hints)) (\<lambda>s. map_option ls_teacher_account_id (slot_by_id (py_db w) (pg_uuid s))))
       (coalesce_opt (Option.bind (uuid_hint (oh_packageId hints)) (\<lambda>s. map_option pk_teacher_id (find_by pk_id (pg_uuid s) (py_packages w))))
       (coalesce_opt (Option.bind (truthy_text (oh_packageSlug hints)) (\<lambda>s. map_option pk_teacher_id (getPackageBySlug s w)))
       (coalesce_opt (Option.bind (truthy_text (oh_teacherSlug hints)) teacher_by_slug)
          bootstrap))))"

definition isOperatorManagedTeacher :: "string \<Rightarrow> saas_db \<Rightarrow> bool" where
  "isOperatorManagedTeacher teacherAccountId d \<longleftrightarrow>
     uuid_pattern teacherAccountId
     \<and> (case sub_of d (pg_uuid teacherAccountId) of
          None \<Rightarrow> False
        | Some r \<Rightarrow> sb_plan_slug r = js ''operator-managed'' \<and> sb_state r = SubActive)"

section \<open>The route that creates a payment\<close>

datatype create_answer = CreateRefused int | Created public_order "widget_intent option" js_text

record create_request =
  cq_body :: "json option"
  cq_viewer :: "uuid option"
  cq_teacherSlug :: "js_text option"
  cq_consent :: personal_consent

text \<open>The slot of the body, if it has the form of an id: refused, or the slot that the payment is for.\<close>

definition body_slot :: "js_runtime \<Rightarrow> json \<Rightarrow> uuid option \<Rightarrow> rat \<Rightarrow> db \<Rightarrow> exn + (int + js_text option)" where
  "body_slot rt body viewer amount d =
     (case json_field body ''slotId'' of
        Some (JStr t) \<Rightarrow>
          (case uuid_text t of
             None \<Rightarrow> Inr (Inr None)
           | Some s \<Rightarrow>
               (case viewer of
                  None \<Rightarrow> Inr (Inl 401)
                | Some account \<Rightarrow>
                    bindR (validatePaymentSlotBinding s account amount d)
                      (\<lambda>verdict. Inr (case verdict of Inl _ \<Rightarrow> Inl 403 | Inr _ \<Rightarrow> Inr (Some t)))))
      | _ \<Rightarrow> Inr (Inr None))"

definition create_order_route ::
  "(rat \<Rightarrow> js_text) \<Rightarrow> pay_config \<Rightarrow> clock \<Rightarrow> drawn \<Rightarrow> rat \<Rightarrow> js_text \<Rightarrow> order_options \<Rightarrow> pay_store \<Rightarrow> create_answer \<times> pay_store" where
  "create_order_route formatted cfg c dr amount email opts s =
     (case createPayment formatted cfg c dr (has_account (sd_auth (py_saas (snd s)))) amount email opts (fst s) of
        Inl e \<Rightarrow> (CreateRefused (if e = JsError ''CloudPayments credentials are not configured.'' then 503 else 500), s)
      | Inr ((pub, intent, token), t') \<Rightarrow> (Created pub intent token, t', snd s))"

text \<open>After the amount, the address and the comment have passed.\<close>

definition pay_checked ::
  "js_runtime \<Rightarrow> (rat \<Rightarrow> js_text) \<Rightarrow> pay_config \<Rightarrow> clock \<Rightarrow> drawn \<Rightarrow> (js_text \<Rightarrow> uuid option) \<Rightarrow> uuid option \<Rightarrow> create_request
     \<Rightarrow> json \<Rightarrow> rat \<Rightarrow> js_text \<Rightarrow> js_text option \<Rightarrow> pay_store \<Rightarrow> exn + create_answer \<times> pay_store" where
  "pay_checked rt formatted cfg c dr teacher_by_slug bootstrap q body amount address comment s =
     (if json_field body ''personalDataConsentAccepted'' \<noteq> Some (JBool True) then Inr (CreateRefused 400, s)
      else bindR (body_slot rt body (cq_viewer q) amount (py_db (snd s))) (\<lambda>slot.
        case slot of
          Inl code \<Rightarrow> Inr (CreateRefused code, s)
        | Inr slotId \<Rightarrow>
            (case deriveTeacherAccountIdForOrder teacher_by_slug bootstrap
                    \<lparr>oh_slotId = slotId, oh_packageId = None, oh_packageSlug = None,
                     oh_teacherSlug = cq_teacherSlug q, oh_explicit = None\<rparr> (snd s) of
               None \<Rightarrow> Inr (CreateRefused 500, s)
             | Some teacher \<Rightarrow>
                 if teacher = [] then Inr (CreateRefused 500, s)
                 else if \<not> isOperatorManagedTeacher teacher (py_saas (snd s)) then Inr (CreateRefused 422, s)
                 else Inr (create_order_route formatted cfg c dr amount address
                   \<lparr>oo_rememberCard = (json_field body ''rememberCard'' = Some (JBool True)), oo_source = None,
                    oo_consent = Some (cq_consent q), oo_comment = comment, oo_slotId = slotId,
                    oo_method = None, oo_teacher = Some teacher\<rparr> s))))"

definition pay_with_body ::
  "js_runtime \<Rightarrow> (rat \<Rightarrow> js_text) \<Rightarrow> pay_config \<Rightarrow> clock \<Rightarrow> drawn \<Rightarrow> (js_text \<Rightarrow> uuid option) \<Rightarrow> uuid option \<Rightarrow> create_request
     \<Rightarrow> json \<Rightarrow> pay_store \<Rightarrow> exn + create_answer \<times> pay_store" where
  "pay_with_body rt formatted cfg c dr teacher_by_slug bootstrap q body s =
     (let amountRub = normalizePaymentAmount (case json_field body ''amountRub'' of None \<Rightarrow> NaN | Some v \<Rightarrow> js_Number rt v);
          email = validateCustomerEmail (rt_lower rt)
                    (normalizeAccountEmail (rt_lower rt) (first_truthy rt [json_field body ''customerEmail'']))
      in case (validateCustomerComment (json_field body ''customerComment''), amountRub, email) of
           (CommentOk comment, Finite amount, Inr address) \<Rightarrow>
             if \<not> isValidPaymentAmount amountRub then Inr (CreateRefused 400, s)
             else pay_checked rt formatted cfg c dr teacher_by_slug bootstrap q body amount address comment s
         | _ \<Rightarrow> Inr (CreateRefused 400, s))"

definition payments_route ::
  "js_runtime \<Rightarrow> (rat \<Rightarrow> js_text) \<Rightarrow> pay_config \<Rightarrow> clock \<Rightarrow> drawn \<Rightarrow> (js_text \<Rightarrow> uuid option) \<Rightarrow> uuid option \<Rightarrow> create_request
     \<Rightarrow> pay_store \<Rightarrow> exn + create_answer \<times> pay_store" where
  "payments_route rt formatted cfg c dr teacher_by_slug bootstrap q s =
     (case cq_body q of
        None \<Rightarrow> Inr (CreateRefused 400, s)
      | Some body \<Rightarrow>
          if body = JNull then Inl TypeErrorUndefined
          else pay_with_body rt formatted cfg c dr teacher_by_slug bootstrap q body s)"

section \<open>The gate of an order\<close>

datatype gate_verdict = TokenMatch | SessionMatch | TokenRequired | TokenMismatch | LegacyGraceExpired

definition gate_ok :: "gate_verdict \<Rightarrow> bool" where
  "gate_ok v \<longleftrightarrow> v = TokenMatch \<or> v = SessionMatch"

definition extractReceiptToken :: "js_text option \<Rightarrow> js_text option \<Rightarrow> js_text option" where
  "extractReceiptToken header param =
     or_text (map_option js_trim header) (truthy_text (map_option js_trim param))"

definition evaluateReceiptGate :: "(js_text \<Rightarrow> string) \<Rightarrow> payment_order \<Rightarrow> js_text option \<Rightarrow> js_text option \<Rightarrow> gate_verdict" where
  "evaluateReceiptGate hashToken ord presented sessionAccountId =
     (case od_receiptTokenHash ord of
        None \<Rightarrow> LegacyGraceExpired
      | Some stored \<Rightarrow>
          if stored = [] then LegacyGraceExpired
          else if (case truthy_text presented of None \<Rightarrow> False | Some t \<Rightarrow> hashToken t = stored) then TokenMatch
          else if truthy_text sessionAccountId \<noteq> None \<and> truthy_text (meta_text ord ''accountId'') = sessionAccountId then SessionMatch
          else if truthy_text presented = None then TokenRequired
          else TokenMismatch)"

text \<open>The account of the session, unless it is an operator's or a teacher's.\<close>

definition resolveSessionAccountIdForReceiptGate :: "auth_db \<Rightarrow> uuid option \<Rightarrow> js_text option" where
  "resolveSessionAccountIdForReceiptGate d session =
     (case session of
        None \<Rightarrow> None
      | Some i \<Rightarrow> if holds_role d i RoleAdmin \<or> holds_role d i RoleTeacher then None else Some (js i))"

definition INVOICE_ID_PATTERN :: "js_text \<Rightarrow> bool" where
  "INVOICE_ID_PATTERN t \<longleftrightarrow>
     length t \<ge> 11 \<and> length t \<le> 51 \<and> t ! 0 \<in> {76, 108} \<and> t ! 1 \<in> {67, 99} \<and> t ! 2 = 95
     \<and> list_all (\<lambda>u. letter_or_digit u \<or> u = 95) (drop 3 t)"

definition route_gate :: "(js_text \<Rightarrow> string) \<Rightarrow> auth_db \<Rightarrow> payment_order \<Rightarrow> js_text option \<Rightarrow> uuid option \<Rightarrow> gate_verdict" where
  "route_gate hashToken d ord presented session =
     (let first = evaluateReceiptGate hashToken ord presented None in
      if gate_ok first then first
      else case resolveSessionAccountIdForReceiptGate d session of
        None \<Rightarrow> first
      | Some i \<Rightarrow> evaluateReceiptGate hashToken ord presented (Some i))"

definition cancel_route ::
  "(js_text \<Rightarrow> string) \<Rightarrow> clock \<Rightarrow> js_text \<Rightarrow> js_text option \<Rightarrow> uuid option \<Rightarrow> pay_store \<Rightarrow> exn + int \<times> pay_store" where
  "cancel_route hashToken c invoiceId presented session s =
     (if \<not> INVOICE_ID_PATTERN invoiceId then Inr (400, s)
      else case getOrder (fst s) invoiceId of
        None \<Rightarrow> Inr (404, s)
      | Some existing \<Rightarrow>
          if \<not> gate_ok (route_gate hashToken (sd_auth (py_saas (snd s))) existing presented session) then Inr (401, s)
          else bindR (markOrderCancelled (js_now c) invoiceId
                 (Some [(''source'', JStr (js ''client'')), (''reason'', JStr (js ''widget_closed''))]) (fst s))
            (\<lambda>((ord, _), t). Inr (if ord = None then 404 else 200, t, snd s)))"

definition read_route ::
  "(js_text \<Rightarrow> string) \<Rightarrow> clock \<Rightarrow> js_text \<Rightarrow> js_text option \<Rightarrow> uuid option \<Rightarrow> pay_store \<Rightarrow> exn + (int + public_order) \<times> pay_store" where
  "read_route hashToken c invoiceId presented session s =
     (if \<not> INVOICE_ID_PATTERN invoiceId then Inr (Inl 400, s)
      else bindR (syncMockOrderState (js_now c) invoiceId (fst s) (fst s))
        (\<lambda>(found, t). Inr (case found of
             None \<Rightarrow> Inl 404
           | Some ord \<Rightarrow>
               if gate_ok (route_gate hashToken (sd_auth (py_saas (snd s))) ord presented session) then Inr (toPublicOrder ord)
               else Inl 401, t, snd s)))"

section \<open>What a created payment is\<close>

lemma createPayment_row:
  assumes "createPayment formatted cfg c dr acc amount email opts t = Inr ((pub, intent, token), t')"
  obtains ord where "t' = t @ [toInsertValues ord]" and "order_row_by_id t (dr_invoiceId dr) = None" and "pub = toPublicOrder ord"
    and "od_invoiceId ord = dr_invoiceId dr" and "od_amountRub ord = normal_rub amount" and "od_customerEmail ord = email"
    and "od_status ord = StPending" and "od_teacherAccountId ord = oo_teacher opts"
    and "meta_text ord ''slotId'' = truthy_text (oo_slotId opts)" and "od_receiptTokenHash ord = Some (dr_token_hash dr)"
proof -
  obtain made where
    made: "(if cf_provider cfg = CfgCloudPayments
            then createCloudPaymentsOrder formatted (cf_configured cfg) (js_now c) amount email (dr_invoiceId dr) opts
            else Inr (createMockOrder formatted (cf_mockAutoConfirmSeconds cfg) (js_now c) amount email
                        (dr_invoiceId dr) (dr_session dr) opts)) = Inr made"
    and rest: "bindR (createOrder acc (made\<lparr>od_receiptTokenHash := Some (dr_token_hash dr)\<rparr>) t)
        (\<lambda>(_, t'). Inr ((toPublicOrder (made\<lparr>od_receiptTokenHash := Some (dr_token_hash dr)\<rparr>),
           if cf_provider cfg = CfgCloudPayments then Some (buildCloudPaymentsWidgetIntent made) else None, dr_token dr), t'))
      = Inr ((pub, intent, token), t')"
    by (rule bindR_InrE [OF assms [unfolded createPayment_def Let_def]])
  have fields: "od_invoiceId made = dr_invoiceId dr" "od_amountRub made = normal_rub amount" "od_customerEmail made = email"
      "od_status made = StPending" "od_teacherAccountId made = oo_teacher opts"
      "meta_text made ''slotId'' = truthy_text (oo_slotId opts)"
    using made by (auto simp: createCloudPaymentsOrder_def createMockOrder_def pending_order_def meta_text_def payload_of_def
        split: if_splits option.splits)
  let ?ord = "made\<lparr>od_receiptTokenHash := Some (dr_token_hash dr)\<rparr>"
  have meta: "meta_text ?ord = meta_text made" by (simp add: meta_text_def fun_eq_iff)
  from rest obtain x where "createOrder acc ?ord t = Inr (x, t')" and pub: "pub = toPublicOrder ?ord"
    by (auto elim!: bindR_InrE)
  then have "t' = t @ [toInsertValues ?ord]" "order_row_by_id t (od_invoiceId ?ord) = None"
    by (auto simp: createOrder_def split: option.splits if_splits)
  then show thesis by (intro that [of ?ord]) (use fields meta pub in simp_all)
qed

lemma normal_rub_kopecks: "normal_rub (of_int k / 100) = of_int k / 100"
proof -
  have "\<lfloor>(of_int k :: rat) + 1 / 2\<rfloor> = k" by (rule floor_unique) simp_all
  then show ?thesis by (simp add: normal_rub_def)
qed

lemma rublesToKopecks_kopecks: "rublesToKopecks (of_int k / 100) = k"
proof -
  have "\<lfloor>(of_int k :: rat) + 1 / 2\<rfloor> = k" by (rule floor_unique) simp_all
  then show ?thesis by (simp add: rublesToKopecks_def)
qed

text \<open>The slot a body names, if it is accepted.\<close>

lemma body_slotE:
  assumes "body_slot rt body viewer amount d = Inr (Inr slotId)"
  obtains (none) "slotId = None"
  | (slot) t u account k where "slotId = Some t" and "json_field body ''slotId'' = Some (JStr t)" and "uuid_text t = Some u"
      and "viewer = Some account" and "validatePaymentSlotBinding u account amount d = Inr (Inr k)"
proof (cases "\<exists>t. json_field body ''slotId'' = Some (JStr t) \<and> uuid_text t \<noteq> None")
  case False
  with assms have "slotId = None" by (auto simp: body_slot_def split: option.splits json.splits)
  then show thesis by (rule none)
next
  case True
  then obtain t u where t: "json_field body ''slotId'' = Some (JStr t)" "uuid_text t = Some u" by blast
  with assms obtain account where v: "viewer = Some account" by (cases viewer) (auto simp: body_slot_def)
  with assms t obtain verdict where "validatePaymentSlotBinding u account amount d = Inr verdict"
      and x: "(case verdict of Inl _ \<Rightarrow> Inl (403 :: int) | Inr _ \<Rightarrow> Inr (Some t)) = Inr slotId"
    by (auto simp: body_slot_def elim!: bindR_InrE)
  with t v slot show thesis by (cases verdict) auto
qed

lemma payments_routeE:
  assumes "payments_route rt formatted cfg c dr tbs boot q s = Inr (Created pub intent token, s')"
  obtains body k address slotId teacher opts where "cq_body q = Some body"
    and "1000 \<le> k" and "k \<le> 5000000" and "well_formed_email address"
    and "body_slot rt body (cq_viewer q) (of_int k / 100) (py_db (snd s)) = Inr (Inr slotId)"
    and "deriveTeacherAccountIdForOrder tbs boot \<lparr>oh_slotId = slotId, oh_packageId = None, oh_packageSlug = None,
           oh_teacherSlug = cq_teacherSlug q, oh_explicit = None\<rparr> (snd s) = Some teacher"
    and "isOperatorManagedTeacher teacher (py_saas (snd s))" and "oo_slotId opts = slotId" and "oo_teacher opts = Some teacher"
    and "createPayment formatted cfg c dr (has_account (sd_auth (py_saas (snd s)))) (of_int k / 100) address opts (fst s)
           = Inr ((pub, intent, token), fst s')" and "snd s' = snd s"
proof -
  from assms obtain body where body: "cq_body q = Some body"
      and run: "pay_with_body rt formatted cfg c dr tbs boot q body s = Inr (Created pub intent token, s')"
    by (auto simp: payments_route_def split: option.splits if_splits)
  let ?a = "normalizePaymentAmount (case json_field body ''amountRub'' of None \<Rightarrow> NaN | Some v \<Rightarrow> js_Number rt v)"
  let ?e = "validateCustomerEmail (rt_lower rt) (normalizeAccountEmail (rt_lower rt) (first_truthy rt [json_field body ''customerEmail'']))"
  from run obtain comment amount address where address: "?e = Inr address" and amount: "?a = Finite amount"
      and valid: "isValidPaymentAmount ?a"
      and run: "pay_checked rt formatted cfg c dr tbs boot q body amount address comment s = Inr (Created pub intent token, s')"
    by (auto simp: pay_with_body_def Let_def split: comment_verdict.splits js_float.splits sum.splits if_splits)
  from valid obtain k :: int where k: "?a = Finite (of_int k / 100)" "1000 \<le> k" "k \<le> 5000000"
    by (rule accepted_amount)
  have amount: "amount = of_int k / 100" using amount k(1) by simp
  have consent: "json_field body ''personalDataConsentAccepted'' = Some (JBool True)"
    by (rule ccontr) (use run in \<open>simp add: pay_checked_def\<close>)
  from run consent obtain slot where slot: "body_slot rt body (cq_viewer q) amount (py_db (snd s)) = Inr slot"
    by (auto simp: pay_checked_def elim!: bindR_InrE)
  obtain slotId where slotId: "slot = Inr slotId"
    using run consent slot by (cases slot) (simp_all add: pay_checked_def bindR_def)
  let ?hints = "\<lparr>oh_slotId = slotId, oh_packageId = None, oh_packageSlug = None, oh_teacherSlug = cq_teacherSlug q, oh_explicit = None\<rparr>"
  obtain teacher where teacher: "deriveTeacherAccountIdForOrder tbs boot ?hints (snd s) = Some teacher"
    using run consent slot slotId
    by (cases "deriveTeacherAccountIdForOrder tbs boot ?hints (snd s)") (simp_all add: pay_checked_def bindR_def)
  let ?opts = "\<lparr>oo_rememberCard = (json_field body ''rememberCard'' = Some (JBool True)), oo_source = None,
     oo_consent = Some (cq_consent q), oo_comment = comment, oo_slotId = slotId, oo_method = None, oo_teacher = Some teacher\<rparr>"
  from run consent slot slotId teacher have managed: "isOperatorManagedTeacher teacher (py_saas (snd s))"
    and made: "create_order_route formatted cfg c dr amount address ?opts s = (Created pub intent token, s')"
    by (simp_all add: pay_checked_def bindR_def split: if_splits)
  from made have "createPayment formatted cfg c dr (has_account (sd_auth (py_saas (snd s)))) amount address ?opts (fst s)
        = Inr ((pub, intent, token), fst s') \<and> snd s' = snd s"
    by (auto simp: create_order_route_def split: sum.splits prod.splits)
  moreover have "well_formed_email address" using address by (rule accepted_email)
  ultimately show thesis
    using body k(2,3) slot slotId teacher managed unfolding amount by (intro that [of body k address slotId teacher ?opts]) simp_all
qed

text \<open>
  C11: what the route lets through. A created payment is a new pending order of 10 to 50000 roubles in whole kopecks, for a
  well-formed address, owned by a teacher on the plan that the platform manages. If it names a lesson, the person
  who pays has booked it, it belongs to that teacher, and the amount is its price to a kopeck if it has one. The other
  orders and the rest of the world stay as they are.
\<close>

theorem created_payment_is_sound:
  assumes "payments_route rt formatted cfg c dr tbs boot q s = Inr (Created pub intent token, s')"
  shows "\<exists>ord k teacher. s' = (fst s @ [ord], snd s) \<and> order_row_by_id (fst s) (od_invoiceId ord) = None
     \<and> od_invoiceId ord = dr_invoiceId dr \<and> od_status ord = StPending \<and> pu_invoiceId pub = od_invoiceId ord
     \<and> od_amountRub ord = of_int k / 100 \<and> 1000 \<le> k \<and> k \<le> 5000000 \<and> well_formed_email (od_customerEmail ord)
     \<and> od_teacherAccountId ord = Some teacher \<and> isOperatorManagedTeacher teacher (py_saas (snd s))
     \<and> (\<forall>t. meta_text ord ''slotId'' = Some t \<longrightarrow>
          (\<exists>u account slot. uuid_text t = Some u \<and> cq_viewer q = Some account \<and> slot_by_id (py_db (snd s)) (pg_uuid u) = Some slot
             \<and> ls_status slot = Booked \<and> ls_learner_account_id slot = Some account \<and> ls_teacher_account_id slot = teacher
             \<and> (\<forall>p. payable_amount (py_db (snd s)) slot = Some p \<longrightarrow> \<bar>k - p\<bar> \<le> 1)))"
  using assms
proof (rule payments_routeE)
  fix body k address slotId teacher opts
  assume k: "1000 \<le> k" "k \<le> 5000000" "well_formed_email address"
    and slot: "body_slot rt body (cq_viewer q) (of_int k / 100) (py_db (snd s)) = Inr (Inr slotId)"
    and teacher: "deriveTeacherAccountIdForOrder tbs boot \<lparr>oh_slotId = slotId, oh_packageId = None, oh_packageSlug = None,
           oh_teacherSlug = cq_teacherSlug q, oh_explicit = None\<rparr> (snd s) = Some teacher"
    and managed: "isOperatorManagedTeacher teacher (py_saas (snd s))" and opts: "oo_slotId opts = slotId" "oo_teacher opts = Some teacher"
    and made: "createPayment formatted cfg c dr (has_account (sd_auth (py_saas (snd s)))) (of_int k / 100) address opts (fst s)
           = Inr ((pub, intent, token), fst s')" and same: "snd s' = snd s"
  from made obtain ord where ord: "fst s' = fst s @ [toInsertValues ord]" "order_row_by_id (fst s) (dr_invoiceId dr) = None"
      "pub = toPublicOrder ord" "od_invoiceId ord = dr_invoiceId dr" "od_amountRub ord = normal_rub (of_int k / 100)"
      "od_customerEmail ord = address" "od_status ord = StPending" "od_teacherAccountId ord = oo_teacher opts"
      "meta_text ord ''slotId'' = truthy_text (oo_slotId opts)"
    by (rule createPayment_row)
  let ?o = "toInsertValues ord"
  have o: "od_invoiceId ?o = dr_invoiceId dr" "od_amountRub ?o = of_int k / 100" "od_customerEmail ?o = address" "od_status ?o = StPending"
      "od_teacherAccountId ?o = Some teacher" "meta_text ?o ''slotId'' = truthy_text slotId" "pu_invoiceId pub = dr_invoiceId dr"
    using ord opts by (simp_all add: toInsertValues_def meta_text_def normal_rub_kopecks toPublicOrder_def)
  have "\<exists>u account sl. uuid_text t = Some u \<and> cq_viewer q = Some account \<and> slot_by_id (py_db (snd s)) (pg_uuid u) = Some sl
      \<and> ls_status sl = Booked \<and> ls_learner_account_id sl = Some account \<and> ls_teacher_account_id sl = teacher
      \<and> (\<forall>p. payable_amount (py_db (snd s)) sl = Some p \<longrightarrow> \<bar>k - p\<bar> \<le> 1)" if t: "meta_text ?o ''slotId'' = Some t" for t
    using slot
  proof (cases rule: body_slotE)
    case none
    with t o(6) show ?thesis by (simp add: truthy_text_def)
  next
    case (slot t' u account amt)
    with t o(6) have "t' = t" by (auto simp: truthy_text_def split: list.splits)
    from slot(5) obtain sl where sl: "slot_by_id (py_db (snd s)) (pg_uuid u) = Some sl" "ls_status sl = Booked"
        "ls_learner_account_id sl = Some account"
        "\<forall>p. payable_amount (py_db (snd s)) sl = Some p \<longrightarrow> \<bar>rublesToKopecks (of_int k / 100) - p\<bar> \<le> 1"
      by (rule binding_ok)
    have "ls_teacher_account_id sl = teacher"
      using teacher slot(1,3) sl(1) by (simp add: deriveTeacherAccountIdForOrder_def uuid_hint_def coalesce_opt_def)
    with sl slot(3,4) \<open>t' = t\<close> show ?thesis by (auto simp: rublesToKopecks_kopecks)
  qed
  then show ?thesis
    using o k managed ord(1,2) same by (intro exI [of _ ?o] exI [of _ k] exI [of _ teacher]) (cases s', simp)
qed

text \<open>When the handler of a notification allocates an order to the lesson it names.\<close>

lemma handler_allocates_iff:
  assumes run: "pay_route_handler rt c i p (t, w) = (Inr (), t', w')"
    and row: "order_row_by_id t (getCloudPaymentsInvoiceId rt p) = Some row" "meta_text row ''slotId'' = Some slot" "uuid_text slot = Some u"
    and fresh: "\<forall>a \<in> set (payment_allocations (py_db w)). pa_payment_order_id a \<noteq> getCloudPaymentsInvoiceId rt p"
    and amount: "0 \<le> rublesToKopecks (od_amountRub row)" "rublesToKopecks (od_amountRub row) \<le> 2147483647"
  shows "(\<exists>a \<in> set (payment_allocations (py_db w')). allocation_key a = (getCloudPaymentsInvoiceId rt p, ''lesson_slot'', u))
     \<longleftrightarrow> (\<exists>customer k. getAccountByEmail (rt_lower rt) (od_customerEmail row) (world_accounts w) = Some customer
           \<and> validatePaymentSlotBinding u (aa_id customer) (od_amountRub row) (py_db w) = Inr (Inr k))"
    (is "?done \<longleftrightarrow> ?bound")
  using run
proof (cases rule: pay_route_handler_cases)
  case (marked row' ord)
  let ?inv = "getCloudPaymentsInvoiceId rt p" and ?w = "card_branch rt c p ord w"
  let ?w1 = "allocation_branch rt t' ord ?w"
  have "same_sale row ord"
    unfolding marked(2) using marked(1) row(1) same_sale_trans [OF same_sale_updates(2) same_sale_updates(1)] by simp
  then have o: "od_invoiceId ord = ?inv" "od_customerEmail ord = od_customerEmail row" "od_amountRub ord = od_amountRub row"
      "od_metadata ord = od_metadata row"
    using invoice_of_row [OF row(1)] by (simp_all add: same_sale_def)
  have full: "getOrder t' (od_invoiceId ord) = Some (mapRowToOrder (toInsertValues ord))" and present: "order_row_by_id t' ?inv \<noteq> None"
    using marked(3) by (simp_all add: getOrder_def o)
  have slot: "meta_text (mapRowToOrder (toInsertValues ord)) ''slotId'' = Some slot"
    using row(2) o(4) by (simp add: meta_text_def mapRowToOrder_def toInsertValues_def)
  have some: "slot \<noteq> []" using row(3) by (auto simp: uuid_text_def Let_def uuid_pattern_def)
  have "package_effect ?inv (py_db ?w1) (py_db w')" using after_mark_parts [OF marked(4)] o(1) by simp
  then have sub: "set (payment_allocations (py_db ?w1)) \<subseteq> set (payment_allocations (py_db w'))"
    and new: "\<forall>a \<in> set (payment_allocations (py_db w')) - set (payment_allocations (py_db ?w1)). pa_kind a = ''package''"
    by (simp_all add: package_effect_def grown_def)
  have "a \<in> set (payment_allocations (py_db ?w1))"
    if "a \<in> set (payment_allocations (py_db w'))" "allocation_key a = (?inv, ''lesson_slot'', u)" for a
    using new that by (rule_tac ccontr) (auto simp: allocation_key_def)
  with sub have here: "?done \<longleftrightarrow> (\<exists>a \<in> set (payment_allocations (py_db ?w1)). allocation_key a = (?inv, ''lesson_slot'', u))"
    by blast
  let ?row = "\<lparr>pa_payment_order_id = ?inv, pa_kind = ''lesson_slot'', pa_target_id = u, pa_amount_kopecks = rublesToKopecks (od_amountRub row)\<rparr>"
  show ?thesis
  proof (cases ?bound)
    case True
    then obtain customer k where b: "getAccountByEmail (rt_lower rt) (od_customerEmail row) (world_accounts w) = Some customer"
        "validatePaymentSlotBinding u (aa_id customer) (od_amountRub row) (py_db w) = Inr (Inr k)" by blast
    have "find_by allocation_key (allocation_key ?row) (payment_allocations (py_db w)) = None"
      using fresh by (auto simp: find_by_None_iff allocation_key_def)
    then have "recordAllocation t' ?inv ''lesson_slot'' u (JsInt (rublesToKopecks (od_amountRub row))) (py_db w)
        = (True, (py_db w)\<lparr>payment_allocations := payment_allocations (py_db w) @ [?row]\<rparr>)"
      using amount present by (simp add: recordAllocation_def ALLOWED_KINDS_def insert_allocation_def)
    then have "payment_allocations (py_db ?w1) = payment_allocations (py_db w) @ [?row]"
      using full slot some row(3) b by (simp add: allocation_branch_def o)
    with True show ?thesis unfolding here by (simp add: allocation_key_def)
  next
    case False
    then have "?w1 = ?w"
      using slot row(3) full by (cases rule: allocation_branch_cases [of rt t' ord ?w]) (auto simp: o)
    with False fresh show ?thesis unfolding here by (auto simp: allocation_key_def)
  qed
next
  case missing
  from missing(3) [of 0] row(1) show ?thesis
    by (auto simp: markOrderPaid_def updateOrder_def Let_def bindR_def split: if_splits sum.splits)
qed auto

lemma binding_viewer:
  assumes "validatePaymentSlotBinding u account amount d = Inr (Inr k)"
  shows "(\<exists>k'. validatePaymentSlotBinding u account' amount d = Inr (Inr k')) \<longleftrightarrow> account' = account"
  using assms by (auto simp: validatePaymentSlotBinding_def split: option.splits if_splits)

text \<open>
  C12: from the click to the lesson. A payment was created for a lesson; later, the slots and tariffs being as they
  were and the order still carrying what was sold, the handler of the notification returns. Then the payment is
  allocated to the lesson exactly when the e-mail that was typed in is that of the account which pays: the route takes any
  address, while the handler looks the customer up by it.
\<close>

theorem lesson_payment_allocated_iff:
  assumes created: "payments_route rt formatted cfg c dr tbs boot q s = Inr (Created pub intent token, s')"
    and sold: "order_row_by_id (fst s') (dr_invoiceId dr) = Some row0" "meta_text row0 ''slotId'' = Some slot" "uuid_text slot = Some u"
    and later: "lesson_slots (py_db w) = lesson_slots (py_db (snd s'))" "pricing_tariffs (py_db w) = pricing_tariffs (py_db (snd s'))"
      "order_row_by_id t (dr_invoiceId dr) = Some row" "same_sale row0 row"
      "\<forall>a \<in> set (payment_allocations (py_db w)). pa_payment_order_id a \<noteq> dr_invoiceId dr"
    and handled: "pay_route_handler rt c' i p (t, w) = (Inr (), t', w')" "getCloudPaymentsInvoiceId rt p = dr_invoiceId dr"
  shows "(\<exists>a \<in> set (payment_allocations (py_db w')). allocation_key a = (dr_invoiceId dr, ''lesson_slot'', u))
     \<longleftrightarrow> (\<exists>customer. getAccountByEmail (rt_lower rt) (od_customerEmail row0) (world_accounts w) = Some customer
           \<and> cq_viewer q = Some (aa_id customer))"
  using created
proof (rule payments_routeE)
  fix body k address slotId teacher opts
  assume k: "1000 \<le> k" "k \<le> 5000000"
    and bodySlot: "body_slot rt body (cq_viewer q) (of_int k / 100) (py_db (snd s)) = Inr (Inr slotId)"
    and opts: "oo_slotId opts = slotId"
    and made: "createPayment formatted cfg c dr (has_account (sd_auth (py_saas (snd s)))) (of_int k / 100) address opts (fst s)
           = Inr ((pub, intent, token), fst s')" and same: "snd s' = snd s"
  from made obtain ord where ord: "fst s' = fst s @ [toInsertValues ord]" "order_row_by_id (fst s) (dr_invoiceId dr) = None"
      "od_invoiceId ord = dr_invoiceId dr" "od_amountRub ord = normal_rub (of_int k / 100)"
      "meta_text ord ''slotId'' = truthy_text (oo_slotId opts)"
    by (rule createPayment_row)
  have row0: "row0 = toInsertValues ord"
    using sold(1) ord(1,2,3) by (auto simp: order_row_by_id_def find_by_snoc toInsertValues_def split: if_splits option.splits)
  have amount0: "od_amountRub row0 = of_int k / 100" and slot0: "truthy_text slotId = Some slot"
    using ord(4,5) sold(2) opts by (simp_all add: row0 toInsertValues_def normal_rub_kopecks meta_text_def)
  have row: "od_amountRub row = of_int k / 100" "od_customerEmail row = od_customerEmail row0" "meta_text row ''slotId'' = Some slot"
    using later(4) sold(2) amount0 same_sale_reads(1) [OF later(4)] by (simp_all add: same_sale_def)
  from bodySlot show ?thesis
  proof (cases rule: body_slotE)
    case none
    with slot0 show ?thesis by (simp add: truthy_text_def)
  next
    case (slot t' u' account amt)
    with slot0 sold(3) have u: "u' = u" by (auto simp: truthy_text_def split: list.splits)
    have bound: "validatePaymentSlotBinding u account (of_int k / 100) (py_db w) = Inr (Inr amt)"
      using slot(5) binding_same [OF later(1,2)] same u by simp
    have "rublesToKopecks (od_amountRub row) = k" unfolding row(1) by (rule rublesToKopecks_kopecks)
    then have "(\<exists>a \<in> set (payment_allocations (py_db w')). allocation_key a = (dr_invoiceId dr, ''lesson_slot'', u))
       \<longleftrightarrow> (\<exists>customer k'. getAccountByEmail (rt_lower rt) (od_customerEmail row) (world_accounts w) = Some customer
             \<and> validatePaymentSlotBinding u (aa_id customer) (of_int k / 100) (py_db w) = Inr (Inr k'))"
      using handler_allocates_iff [OF handled(1), unfolded handled(2), OF later(3) row(3) sold(3) later(5)] k row(1) by simp
    then show ?thesis unfolding row(2) using binding_viewer [OF bound] slot(4) by auto
  qed
qed

text \<open>A booked lesson of 1500 roubles is paid for, with the address of another person.\<close>

definition sample_managed_world :: pay_world where
  "sample_managed_world = sample_lesson_world\<lparr>py_saas := sample_saas\<lparr>sd_subs := [new_sub 0 (uuid_of CHR ''a'') (js ''operator-managed'')]\<rparr>\<rparr>"

definition sample_create_request :: create_request where
  "sample_create_request =
     \<lparr>cq_body = Some (JObj [(js ''amountRub'', JNum (Finite 1500)), (js ''customerEmail'', JStr (js ''q@x.ru'')),
         (js ''personalDataConsentAccepted'', JBool True), (js ''slotId'', JStr (js (uuid_of CHR ''1'')))]),
      cq_viewer = Some (uuid_of CHR ''a''), cq_teacherSlug = None,
      cq_consent = \<lparr>pcs_acceptedAt = 0, pcs_fields = [], pcs_snapshot = JNull\<rparr>\<rparr>"

definition sample_drawn :: drawn where
  "sample_drawn = \<lparr>dr_invoiceId = js ''lc_1'', dr_token = js ''t'', dr_token_hash = ''h'', dr_session = js ''m''\<rparr>"

definition sample_config :: pay_config where
  "sample_config = \<lparr>cf_provider = CfgMock, cf_configured = False, cf_mockAutoConfirmSeconds = 8\<rparr>"

definition sample_made :: payment_order where
  "sample_made = toInsertValues ((createMockOrder (\<lambda>_. js ''1500'') 8 0 1500 (js ''q@x.ru'') (js ''lc_1'') (js ''m'')
     \<lparr>oo_rememberCard = False, oo_source = None, oo_consent = Some (cq_consent sample_create_request), oo_comment = None,
      oo_slotId = Some (js (uuid_of CHR ''1'')), oo_method = None, oo_teacher = Some (uuid_of CHR ''a'')\<rparr>)
     \<lparr>od_receiptTokenHash := Some ''h''\<rparr>)"

lemma sample_payment_created:
  "\<exists>pub. payments_route sample_runtime (\<lambda>_. js ''1500'') sample_config (at_second 0) sample_drawn (\<lambda>_. None) None sample_create_request
      ([], sample_managed_world) = Inr (Created pub None (js ''t''), [sample_made], sample_managed_world)"
proof -
  let ?rt = sample_runtime
  obtain body where body: "cq_body sample_create_request = Some body" "body \<noteq> JNull"
      "json_field body ''amountRub'' = Some (JNum (Finite 1500))" "json_field body ''customerEmail'' = Some (JStr (js ''q@x.ru''))"
      "json_field body ''personalDataConsentAccepted'' = Some (JBool True)" "json_field body ''slotId'' = Some (JStr (js (uuid_of CHR ''1'')))"
      "json_field body ''customerComment'' = None" "json_field body ''rememberCard'' = None"
    by (simp add: sample_create_request_def json_field_def js_def)
  have "js_trim (js ''q@x.ru'') = js ''q@x.ru''" by (rule js_trim_word) (simp add: js_def js_space_def)
  then have email: "validateCustomerEmail (rt_lower ?rt) (normalizeAccountEmail (rt_lower ?rt) (js ''q@x.ru'')) = Inr (js ''q@x.ru'')"
    by (simp add: validateCustomerEmail_def normalizeAccountEmail_def sample_runtime_def check_parts_def check_local_def check_domain_def
        bad_label_def label_char_def local_char_def letter_or_digit_def js_def js_space_def)
  have "\<lfloor>(1500 :: rat) * 100 + 1 / 2\<rfloor> = 150000" by (rule floor_unique) simp_all
  then have amount: "normalizePaymentAmount (Finite 1500) = Finite 1500" "rublesToKopecks 1500 = 150000"
    by (simp_all add: normalizePaymentAmount_def rublesToKopecks_def)
  have id: "uuid_text (js (uuid_of CHR ''1'')) = Some (uuid_of CHR ''1'')" and pat: "uuid_pattern (uuid_of CHR ''1'')" "uuid_pattern (uuid_of CHR ''a'')"
  proof -
    show pat: "uuid_pattern (uuid_of CHR ''1'')" "uuid_pattern (uuid_of CHR ''a'')" by (simp_all add: hex_digit_def)
    show "uuid_text (js (uuid_of CHR ''1'')) = Some (uuid_of CHR ''1'')"
      by (rule uuid_text_js [OF pat(1)]) (simp add: uuid_of_def replicate_8 replicate_4 replicate_12)
  qed
  have sl: "slot_by_id (py_db sample_managed_world) (pg_uuid (uuid_of CHR ''1'')) = Some (sample_slot\<lparr>ls_learner_account_id := Some (uuid_of CHR ''a'')\<rparr>)"
    by (simp add: slot_by_id_def find_by_def sample_managed_world_def sample_lesson_world_def sample_slot_def lower_hex_def)
  have bind: "body_slot ?rt body (Some (uuid_of CHR ''a'')) 1500 (py_db sample_managed_world) = Inr (Inr (Some (js (uuid_of CHR ''1''))))"
    using sl pat by (simp add: body_slot_def body id validatePaymentSlotBinding_def sample_slot_def payable_amount_def coalesce_opt_def amount
        KOPECKS_TOLERANCE_def)
  have teacher: "deriveTeacherAccountIdForOrder (\<lambda>_. None) None \<lparr>oh_slotId = Some (js (uuid_of CHR ''1'')), oh_packageId = None,
      oh_packageSlug = None, oh_teacherSlug = None, oh_explicit = None\<rparr> sample_managed_world = Some (uuid_of CHR ''a'')"
    by (simp add: deriveTeacherAccountIdForOrder_def uuid_hint_def id sl coalesce_opt_def sample_slot_def)
  have managed: "isOperatorManagedTeacher (uuid_of CHR ''a'') (py_saas sample_managed_world)"
    using pat by (simp add: isOperatorManagedTeacher_def sample_managed_world_def sub_of_def find_by_def new_sub_def lower_hex_def)
  have some: "uuid_of CHR ''a'' \<noteq> []" by (simp add: uuid_of_def replicate_8)
  have acc: "has_account (sd_auth (py_saas sample_managed_world)) (uuid_of CHR ''a'')"
    by (simp add: has_account_def sample_managed_world_def sample_saas_def find_by_def sample_teacher_account_def)
  have q: "cq_viewer sample_create_request = Some (uuid_of CHR ''a'')" "cq_teacherSlug sample_create_request = None"
    by (simp_all add: sample_create_request_def)
  have made: "\<exists>pub. create_order_route (\<lambda>_. js ''1500'') sample_config (at_second 0) sample_drawn 1500 (js ''q@x.ru'')
        \<lparr>oo_rememberCard = False, oo_source = None, oo_consent = Some (cq_consent sample_create_request), oo_comment = None,
         oo_slotId = Some (js (uuid_of CHR ''1'')), oo_method = None, oo_teacher = Some (uuid_of CHR ''a'')\<rparr> ([], sample_managed_world)
      = (Created pub None (js ''t''), [sample_made], sample_managed_world)"
    using acc by (simp add: create_order_route_def createPayment_def Let_def sample_config_def createOrder_def order_row_by_id_def
        find_by_def sample_made_def createMockOrder_def pending_order_def order_check_def sample_drawn_def at_second_def)
  have verdict: "validateCustomerComment None = CommentOk None" and valid: "isValidPaymentAmount (Finite 1500)"
    by (simp_all add: validateCustomerComment_def isValidPaymentAmount_def MIN_PAYMENT_AMOUNT_RUB_def MAX_PAYMENT_AMOUNT_RUB_def)
  have typed: "first_truthy ?rt [json_field body ''customerEmail''] = js ''q@x.ru''" by (simp add: body js_def)
  have "pay_with_body ?rt (\<lambda>_. js ''1500'') sample_config (at_second 0) sample_drawn (\<lambda>_. None) None sample_create_request body
      ([], sample_managed_world)
    = pay_checked ?rt (\<lambda>_. js ''1500'') sample_config (at_second 0) sample_drawn (\<lambda>_. None) None sample_create_request body
        1500 (js ''q@x.ru'') None ([], sample_managed_world)"
    unfolding pay_with_body_def typed email body verdict by (simp add: amount valid Let_def email)
  then show ?thesis
    using made by (simp add: payments_route_def body(1,2) pay_checked_def body bind q teacher some managed)
qed

lemma sample_made_parts:
  "od_invoiceId sample_made = js ''lc_1''" "meta_text sample_made ''slotId'' = Some (js (uuid_of CHR ''1''))"
  "meta_text sample_made ''packageId'' = None" "meta_text sample_made ''packageSlug'' = None" "meta_text sample_made ''productKind'' = None"
  "od_customerEmail sample_made = js ''q@x.ru''" "od_provider sample_made = PrMock" "od_paymentMethod sample_made = Some OmCard"
  "od_grantedByOperatorId sample_made = None" "od_grantedByTeacherId sample_made = None"
  by (simp_all add: sample_made_def createMockOrder_def pending_order_def toInsertValues_def meta_text_def payload_of_def truthy_text_def
      sample_create_request_def uuid_of_def replicate_8 js_def)

text \<open>A handler returns when the order is of the acquirer or the mock and sells no package and no subscription.\<close>

lemma handler_returns:
  assumes row: "order_row_by_id t (getCloudPaymentsInvoiceId rt p) = Some row"
    and kind: "od_provider row = PrMock" "od_paymentMethod row = Some OmCard" "od_grantedByOperatorId row = None" "od_grantedByTeacherId row = None"
    and plain: "meta_text row ''packageId'' = None" "meta_text row ''packageSlug'' = None" "meta_text row ''productKind'' = None"
  shows "\<exists>t' w'. pay_route_handler rt c i p (t, w) = (Inr (), t', w')"
proof -
  obtain r t' w' where run: "pay_route_handler rt c i p (t, w) = (r, t', w')" by (rule prod_cases3)
  then show ?thesis
  proof (cases rule: pay_route_handler_cases)
    case (failed e)
    have "order_check (paid_update rt 0 (Some (paid_note p)) (Some (detectPaymentMethod rt p)) (mapRowToOrder row))"
      using kind by (auto simp: order_check_def paid_update_def appendEvent_def mapRowToOrder_def next_payment_method_def
          split: detected_method.split)
    with failed(4) [of 0] row show ?thesis by (simp add: markOrderPaid_def updateOrder_def Let_def)
  next
    case missing
    from missing(3) [of 0] row show ?thesis
      by (auto simp: markOrderPaid_def updateOrder_def Let_def bindR_def split: if_splits sum.splits)
  next
    case (marked row' ord)
    have "same_sale row ord"
      unfolding marked(2) using marked(1) row same_sale_trans [OF same_sale_updates(2) same_sale_updates(1)] by simp
    then have o: "od_invoiceId ord = getCloudPaymentsInvoiceId rt p" "od_metadata ord = od_metadata row"
      using invoice_of_row [OF row] by (simp_all add: same_sale_def)
    then have full: "getOrder t' (od_invoiceId ord) = Some (mapRowToOrder (toInsertValues ord))"
      using marked(3) by (simp add: getOrder_def)
    have "meta_text (mapRowToOrder (toInsertValues ord)) = meta_text row"
      using o(2) by (simp add: fun_eq_iff meta_text_def mapRowToOrder_def toInsertValues_def)
    with marked(4) full plain have "r = Inr ()"
      by (auto simp: after_mark_def package_branch_def subscription_branch_def truthy_text_def saas_tier_def Let_def)
    with run show ?thesis by blast
  qed
qed

text \<open>The claims at this payment: the order is made, the notification is handled, and nothing is allocated.\<close>

theorem created_payment_is_sound_witness:
  "\<exists>pub. payments_route sample_runtime (\<lambda>_. js ''1500'') sample_config (at_second 0) sample_drawn (\<lambda>_. None) None
        sample_create_request ([], sample_managed_world) = Inr (Created pub None (js ''t''), [sample_made], sample_managed_world)
     \<and> od_status sample_made = StPending \<and> pu_invoiceId pub = js ''lc_1''"
proof -
  obtain pub where run: "payments_route sample_runtime (\<lambda>_. js ''1500'') sample_config (at_second 0) sample_drawn (\<lambda>_. None) None
        sample_create_request ([], sample_managed_world) = Inr (Created pub None (js ''t''), [sample_made], sample_managed_world)"
    using sample_payment_created by blast
  from created_payment_is_sound [OF run] have "od_status sample_made = StPending" "pu_invoiceId pub = js ''lc_1''"
    by (auto simp: sample_drawn_def)
  with run show ?thesis by blast
qed

theorem lesson_payment_allocated_iff_witness:
  "\<exists>pub t' w'. payments_route sample_runtime (\<lambda>_. js ''1500'') sample_config (at_second 0) sample_drawn (\<lambda>_. None) None
        sample_create_request ([], sample_managed_world) = Inr (Created pub None (js ''t''), [sample_made], sample_managed_world)
     \<and> pay_route_handler sample_runtime (at_second 60) (uuid_of CHR ''9'') sample_notification ([sample_made], sample_managed_world) = (Inr (), t', w')
     \<and> \<not> (\<exists>a \<in> set (payment_allocations (py_db w')). allocation_key a = (js ''lc_1'', ''lesson_slot'', uuid_of CHR ''1''))"
proof -
  obtain pub where run: "payments_route sample_runtime (\<lambda>_. js ''1500'') sample_config (at_second 0) sample_drawn (\<lambda>_. None) None
        sample_create_request ([], sample_managed_world) = Inr (Created pub None (js ''t''), [sample_made], sample_managed_world)"
    using sample_payment_created by blast
  have inv: "getCloudPaymentsInvoiceId sample_runtime sample_notification = js ''lc_1''" "dr_invoiceId sample_drawn = js ''lc_1''"
    by (simp_all add: getCloudPaymentsInvoiceId_def sample_notification_def json_field_def sample_drawn_def)
  have row: "order_row_by_id [sample_made] (js ''lc_1'') = Some sample_made"
    by (simp add: order_row_by_id_def find_by_def sample_made_parts)
  from handler_returns [of "[sample_made]" sample_runtime sample_notification, unfolded inv, OF row]
  obtain t' w' where handled: "pay_route_handler sample_runtime (at_second 60) (uuid_of CHR ''9'') sample_notification
      ([sample_made], sample_managed_world) = (Inr (), t', w')"
    using sample_made_parts by blast
  have pat: "uuid_pattern (uuid_of CHR ''1'')" by (simp add: hex_digit_def)
  have id: "uuid_text (js (uuid_of CHR ''1'')) = Some (uuid_of CHR ''1'')"
    by (rule uuid_text_js [OF pat]) (simp add: uuid_of_def replicate_8 replicate_4 replicate_12)
  have none: "\<forall>a \<in> set (payment_allocations (py_db sample_managed_world)). pa_payment_order_id a \<noteq> dr_invoiceId sample_drawn"
    by (simp add: sample_managed_world_def sample_lesson_world_def empty_db_def)
  have "js_trim (js ''q@x.ru'') = js ''q@x.ru''" by (rule js_trim_word) (simp add: js_def js_space_def)
  then have "getAccountByEmail (rt_lower sample_runtime) (od_customerEmail sample_made) (world_accounts sample_managed_world) = None"
    by (simp add: getAccountByEmail_def normalizeAccountEmail_def sample_made_parts sample_runtime_def world_accounts_def
        sample_managed_world_def sample_saas_def find_by_def sample_teacher_account_def js_def)
  with lesson_payment_allocated_iff [OF run, of sample_made "js (uuid_of CHR ''1'')" "uuid_of CHR ''1''" sample_managed_world
      "[sample_made]" sample_made "at_second 60" "uuid_of CHR ''9''" sample_notification t' w']
  have "\<not> (\<exists>a \<in> set (payment_allocations (py_db w')). allocation_key a = (js ''lc_1'', ''lesson_slot'', uuid_of CHR ''1''))"
    using row id handled none by (simp add: inv sample_made_parts same_sale_def)
  with run handled show ?thesis by blast
qed

section \<open>What the bank answers after 3-D Secure\<close>

lemma marked_order_row:
  assumes "updateOrder i f t = Inr (r, t')" and "\<And>x. od_invoiceId (f x) = od_invoiceId x" and "order_row_by_id t i = Some row"
  shows "order_row_by_id t' i = Some (toInsertValues (f (mapRowToOrder row)))" and "r = Some (f (mapRowToOrder row))"
    and "j \<noteq> i \<Longrightarrow> order_row_by_id t' j = order_row_by_id t j"
  using updateOrder_rows(1) [OF assms(1,2), of j] updateOrder_rows(1) [OF assms(1,2), of i] updateOrder_rows(2) [OF assms] assms(3) by simp_all

lemma update_statuses:
  "od_status (paid_update rt now p m x) = StPaid"
  "(od_status (failed_update rt now p x) = StPaid) = (od_status x = StPaid)"
  "(od_status (cancelled_update now p x) = StPaid) = (od_status x = StPaid)"
  "od_status (toInsertValues x) = od_status x" "od_status (mapRowToOrder x) = od_status x"
  "od_status (appendEvent now x k n) = od_status x" "od_invoiceId (appendEvent now x k n) = od_invoiceId x"
  by (simp_all add: updates Let_def toInsertValues_def mapRowToOrder_def)

lemma on_ordersE:
  assumes "on_orders r s k = (Inr y, s')"
  obtains x t' where "r = Inr (x, t')" and "k x (t', snd s) = (Inr y, s')"
  using assms by (auto simp: on_orders_def split: sum.splits)

text \<open>What keeping a card does to the cards of others, and which token the customer has afterwards.\<close>

lemma kept_others:
  "filter (\<lambda>r. ct_customer_email r \<noteq> od_customerEmail ord) (keep_card c ord ca cs)
     = filter (\<lambda>r. ct_customer_email r \<noteq> od_customerEmail ord) cs"
proof -
  have up: "filter (\<lambda>r. ct_customer_email r \<noteq> ct_customer_email x) (upsertCardToken x cs) = filter (\<lambda>r. ct_customer_email r \<noteq> ct_customer_email x) cs" for x
  proof (cases "find_by ct_customer_email (ct_customer_email x) cs")
    case None
    then show ?thesis by (simp add: upsertCardToken_def card_values_def)
  next
    case (Some old)
    have "filter (\<lambda>r. ct_customer_email r \<noteq> ct_customer_email x) (replace_row ct_customer_email y cs)
        = filter (\<lambda>r. ct_customer_email r \<noteq> ct_customer_email x) cs" if "ct_customer_email y = ct_customer_email x" for y
      using that by (induction cs) (auto simp: replace_row_def)
    with Some show ?thesis by (simp add: upsertCardToken_def card_values_def)
  qed
  have touch: "filter (\<lambda>r. ct_customer_email r \<noteq> e) (touchCardTokenUsedAt e t cs) = filter (\<lambda>r. ct_customer_email r \<noteq> e) cs" for e t
    by (induction cs) (auto simp: touchCardTokenUsedAt_def)
  show ?thesis
    using touch up [of "fresh_card c (od_customerEmail ord) t ca" for t]
    by (auto simp: keep_card_def fresh_card_def split: option.splits json.splits bool.splits)
qed

lemma kept_tokens:
  assumes "r \<in> set (keep_card c ord ca cs)"
  shows "ct_token r \<in> ct_token ` {x \<in> set cs. ct_customer_email x = ct_customer_email r}
    \<or> meta_value ord ''rememberCard'' = Some (JBool True) \<and> ca_token ca = Some (ct_token r)"
proof -
  have up: "r \<in> set (upsertCardToken x cs) \<Longrightarrow> r \<in> set cs \<or> ct_token r = ct_token x" for x
    by (auto simp: upsertCardToken_def card_values_def replace_row_def split: option.splits if_splits)
  have touch: "r \<in> set (touchCardTokenUsedAt e t cs) \<Longrightarrow> \<exists>x \<in> set cs. ct_customer_email x = ct_customer_email r \<and> ct_token x = ct_token r" for e t
    by (auto simp: touchCardTokenUsedAt_def split: if_splits)
  have fresh: "truthy_text (ca_token ca) = Some t \<Longrightarrow> ca_token ca = Some t" for t
    by (auto simp: truthy_text_def split: option.splits list.splits)
  consider "keep_card c ord ca cs = cs"
    | t where "keep_card c ord ca cs = upsertCardToken (fresh_card c (od_customerEmail ord) t ca) cs" "truthy_text (ca_token ca) = Some t"
        "meta_value ord ''rememberCard'' = Some (JBool True)"
    | "keep_card c ord ca cs = touchCardTokenUsedAt (od_customerEmail ord) (js_now c) cs"
    proof -
    show thesis
    proof (cases "od_customerEmail ord \<noteq> [] \<and> meta_value ord ''rememberCard'' = Some (JBool True) \<and> truthy_text (ca_token ca) \<noteq> None")
      case True
      then show ?thesis using that(2) by (auto simp: keep_card_def)
    next
      case False
      then have "keep_card c ord ca cs = cs \<or> keep_card c ord ca cs = touchCardTokenUsedAt (od_customerEmail ord) (js_now c) cs"
        by (auto simp: keep_card_def split: option.split json.split bool.split)
      then show ?thesis using that(1,3) by blast
    qed
  qed
  then show ?thesis
  proof cases
    case 1
    then show ?thesis using assms by auto
  next
    case (2 t)
    then show ?thesis using assms up [of "fresh_card c (od_customerEmail ord) t ca"] fresh by (auto simp: fresh_card_def)
  next
    case 3
    then obtain x where "x \<in> set cs" "ct_customer_email x = ct_customer_email r" "ct_token x = ct_token r"
      using assms touch [of "od_customerEmail ord" "js_now c"] by auto
    then show ?thesis by (intro disjI1 image_eqI [of _ _ x]) simp_all
  qed
qed

text \<open>
  C13: the page after 3-D Secure says what the bank said. It answers paid when the order was paid before, touching nothing, or when
  the bank confirmed the payment, and then the order is paid; on any other answer of the bank it says declined, and an order
  that a notification has paid in the meantime stays paid. Nothing but this order and the saved card of its customer changes:
  the cards of all other customers stay as they are, the customer keeps the stored token or, with consent to remember the card,
  gets the one the bank has just sent with its confirmation, and an answer that confirms nothing leaves all cards alone.
\<close>

theorem threeds_answers_as_the_bank:
  assumes run: "confirmThreeDsAndFinalize rt cfg c i a between s = (Inr outcome, s')"
    and there: "order_row_by_id (fst (between s)) i = Some row"
  shows "(case outcome of
        ThUnknownInvoice \<Rightarrow> s' = s \<and> getOrder (fst s) i = None
      | ThInvalidState pub \<Rightarrow> s' = s \<and> pu_status pub \<noteq> StPaid
      | ThPaid pub \<Rightarrow> pu_status pub = StPaid
          \<and> (s' = s \<or> (\<exists>tx card b. confirmThreeDs rt (cf_configured cfg) a = Inr (CfSuccess tx card)
               \<and> order_row_by_id (fst s') i = Some b \<and> od_status b = StPaid))
      | ThDeclined pub m \<Rightarrow> (\<forall>tx card. confirmThreeDs rt (cf_configured cfg) a \<noteq> Inr (CfSuccess tx card))
          \<and> (\<exists>b. order_row_by_id (fst s') i = Some b \<and> (od_status b = StPaid \<longleftrightarrow> od_status row = StPaid)))
     \<and> (s' = s \<or> (\<exists>ord. getOrder (fst s) i = Some ord
            \<and> (\<forall>j. j \<noteq> i \<longrightarrow> order_row_by_id (fst s') j = order_row_by_id (fst (between s)) j)
            \<and> snd s' = (snd (between s))\<lparr>py_cards := py_cards (snd s')\<rparr>
            \<and> filter (\<lambda>r. ct_customer_email r \<noteq> od_customerEmail ord) (py_cards (snd s'))
                = filter (\<lambda>r. ct_customer_email r \<noteq> od_customerEmail ord) (py_cards (snd (between s)))
            \<and> (\<forall>r \<in> set (py_cards (snd s')). ct_token r \<in> ct_token ` {x \<in> set (py_cards (snd (between s))). ct_customer_email x = ct_customer_email r}
                 \<or> meta_value ord ''rememberCard'' = Some (JBool True)
                    \<and> (\<exists>tx card. confirmThreeDs rt (cf_configured cfg) a = Inr (CfSuccess tx card) \<and> ca_token card = Some (ct_token r)))
            \<and> ((\<forall>tx card. confirmThreeDs rt (cf_configured cfg) a \<noteq> Inr (CfSuccess tx card)) \<longrightarrow> snd s' = snd (between s))))"
proof (cases "getOrder (fst s) i")
  case None
  with run show ?thesis by (auto simp: confirmThreeDsAndFinalize_def)
next
  case (Some ord)
  have id: "od_invoiceId ord = i" using Some by (auto simp: getOrder_def mapRowToOrder_def dest: invoice_of_row)
  show ?thesis
  proof (cases "od_status ord = StPaid \<or> threeds_transaction ord = None \<or> od_status ord \<noteq> StPending")
    case True
    with run Some show ?thesis
      by (auto simp: confirmThreeDsAndFinalize_def toPublicOrder_def split: if_splits)
  next
    case False
    obtain t1 w1 where s1: "between s = (t1, w1)" by (rule prod.exhaust)
    from run Some False obtain answer where answer: "confirmThreeDs rt (cf_configured cfg) a = Inr answer"
        and fin: "finish_threeds rt c ord answer (t1, w1) = (Inr outcome, s')"
      by (auto simp: confirmThreeDsAndFinalize_def s1 Let_def split: sum.splits if_splits)
    have row: "order_row_by_id t1 i = Some row" using there s1 by simp
    show ?thesis
    proof (cases answer)
      case (CfSuccess tx ca)
      with fin obtain r t2 where m: "markOrderPaid rt (js_now c) i (source_note ''one_click_3ds'' [(''transactionId'', Some (JStr tx))]) None t1 = Inr (r, t2)"
          and o: "outcome = ThPaid (toPublicOrder (coalesce (fst r) ord))" "s' = (t2, map_cards (keep_card c ord ca) w1)"
        by (auto simp: finish_threeds_def Let_def id elim!: on_ordersE)
      note rows = marked_order_row [OF markOrder_update(1) [OF m] _ row, simplified]
      from o rows CfSuccess answer show ?thesis using Some kept_tokens [of _ c ord ca "py_cards w1"]
        by (fastforce simp: s1 map_cards_def toPublicOrder_def update_statuses coalesce_def kept_others)
    next
      case (CfDeclined tx m reasonCode)
      with fin obtain r t2 where m: "markOrderFailed rt (js_now c) i (decline_note ''one_click_3ds'' tx m reasonCode) t1 = Inr (r, t2)"
          and o: "\<exists>pub. outcome = ThDeclined pub m" "s' = (t2, w1)"
        by (auto simp: finish_threeds_def Let_def id elim!: on_ordersE)
      note rows = marked_order_row [OF markOrder_update(2) [OF m] _ row, simplified]
      from o rows CfDeclined answer Some show ?thesis by (auto simp: s1 update_statuses)
    next
      case (CfError m)
      with fin obtain r t2 where m: "updateOrder i (\<lambda>x. appendEvent (js_now c) x ''one_click.3ds_error'' (Some [(''message'', JStr m)])) t1 = Inr (r, t2)"
          and o: "\<exists>pub. outcome = ThDeclined pub m" "s' = (t2, w1)"
        by (auto simp: finish_threeds_def Let_def id elim!: on_ordersE)
      note rows = marked_order_row [OF m update_statuses(7) row]
      from o rows CfError answer Some show ?thesis by (auto simp: s1 update_statuses)
    qed
  qed
qed

lemma meta_put_value: "map_of (meta_put k v fs) j = (if j = k then Some v else map_of fs j)"
proof -
  have "map_of (filter (\<lambda>(x, _). x \<noteq> k) fs) j = (if j = k then None else map_of fs j)" by (induction fs) auto
  then show ?thesis by (simp add: meta_put_def)
qed

text \<open>
  The branch that keeps a fresh card token after 3-D Secure never runs. Every payment that comes to 3-D Secure was made
  by the payment with a saved card, which makes its order without consent to remember the card, so whatever the bank answers,
  every saved token stays as it is.
\<close>

theorem fresh_token_never_kept:
  assumes "createCloudPaymentsOrder formatted ok now (cp_amountRub params) (cp_customerEmail params) (dr_invoiceId dr)
             (charge_options params) = Inr made"
    and "order_row_by_id t (dr_invoiceId dr) = Some row"
    and "meta_value row ''rememberCard'' = meta_value (one_click_order c0 dr accountId made) ''rememberCard''"
    and "confirmThreeDsAndFinalize rt cfg c (dr_invoiceId dr) a between (t, w) = (r, s')" and "s' \<noteq> (t, w)"
  shows "map (\<lambda>x. (ct_customer_email x, ct_token x)) (py_cards (snd s'))
       = map (\<lambda>x. (ct_customer_email x, ct_token x)) (py_cards (snd (between (t, w))))"
proof -
  have "meta_value made ''rememberCard'' = Some (JBool False)"
    using assms(1) by (auto simp: createCloudPaymentsOrder_def meta_value_def payload_of_def charge_options_def no_order_options_def
        split: if_splits)
  moreover have "meta_value (one_click_order c0 dr accountId made) ''rememberCard'' = meta_value made ''rememberCard''"
    by (cases "od_metadata made") (auto simp: one_click_order_def meta_value_def meta_put_value Let_def coalesce_def split: option.split)
  ultimately have no: "meta_value (mapRowToOrder row) ''rememberCard'' = Some (JBool False)"
    using assms(3) by (simp add: meta_value_def mapRowToOrder_def)
  obtain t1 w1 where s1: "between (t, w) = (t1, w1)" by (rule prod.exhaust)
  have touched: "map (\<lambda>x. (ct_customer_email x, ct_token x)) (keep_card c (mapRowToOrder row) ca cs)
      = map (\<lambda>x. (ct_customer_email x, ct_token x)) cs" for ca cs
    by (simp add: keep_card_def no touchCardTokenUsedAt_def comp_def if_distrib cong: if_cong)
  have "getOrder t (dr_invoiceId dr) = Some (mapRowToOrder row)" using assms(2) by (simp add: getOrder_def)
  with assms(4,5) show ?thesis
    by (auto simp: confirmThreeDsAndFinalize_def finish_threeds_def on_orders_def Let_def s1 map_cards_def touched
        split: if_splits sum.splits confirm_answer.splits)
qed

section \<open>What the gate lets through\<close>

lemma gate_ok_cases:
  assumes "gate_ok (evaluateReceiptGate hashToken ord presented session)"
  obtains (token) token stored where "presented = Some token" and "od_receiptTokenHash ord = Some stored" and "hashToken token = stored"
  | (session) i where "session = Some i" and "meta_text ord ''accountId'' = Some i" and "i \<noteq> []"
  using assms
  by (auto simp: evaluateReceiptGate_def gate_ok_def truthy_text_def split: option.splits if_splits list.splits)

text \<open>
  The page of a payment cancels it only for who may. When the route changes anything, the caller presented the token whose hash
  is stored with the order, or is logged in, is neither an operator nor a teacher, and the order was made for the account. The order
  then was not paid; nothing else changes.
\<close>

theorem cancel_route_is_gated:
  assumes "cancel_route hashToken c i presented session (t, w) = Inr (code, t', w')"
  shows "w' = w
     \<and> (code \<noteq> 200 \<longrightarrow> t' = t)
     \<and> (t' \<noteq> t \<longrightarrow> (\<exists>row. order_row_by_id t i = Some row
          \<and> ((\<exists>token. presented = Some token \<and> od_receiptTokenHash row = Some (hashToken token))
             \<or> (\<exists>account. session = Some account \<and> meta_text row ''accountId'' = Some (js account)
                  \<and> \<not> holds_role (sd_auth (py_saas w)) account RoleAdmin \<and> \<not> holds_role (sd_auth (py_saas w)) account RoleTeacher))))
     \<and> (\<forall>j. j \<noteq> i \<longrightarrow> order_row_by_id t' j = order_row_by_id t j)
     \<and> (\<forall>a. order_row_by_id t i = Some a \<and> od_status a \<in> {StPaid, StFailed} \<longrightarrow>
          (\<exists>b. order_row_by_id t' i = Some b \<and> od_status b = od_status a))"
proof (cases "order_row_by_id t i")
  case None
  with assms show ?thesis by (auto simp: cancel_route_def getOrder_def split: if_splits)
next
  case (Some row)
  let ?e = "mapRowToOrder row"
  show ?thesis
  proof (cases "gate_ok (route_gate hashToken (sd_auth (py_saas w)) ?e presented session) \<and> INVOICE_ID_PATTERN i")
    case False
    with assms Some show ?thesis by (auto simp: cancel_route_def getOrder_def split: if_splits)
  next
    case True
    with assms Some obtain r where m: "markOrderCancelled (js_now c) i
         (Some [(''source'', JStr (js ''client'')), (''reason'', JStr (js ''widget_closed''))]) t = Inr (r, t')" "w' = w"
      and code: "code = (if fst r = None then 404 else 200)"
      by (auto simp: cancel_route_def getOrder_def elim!: bindR_InrE)
    note rows = marked_order_row [OF markOrder_update(3) [OF m(1)] _ Some, simplified]
    have "(\<exists>token. presented = Some token \<and> od_receiptTokenHash row = Some (hashToken token))
       \<or> (\<exists>account. session = Some account \<and> meta_text row ''accountId'' = Some (js account)
            \<and> \<not> holds_role (sd_auth (py_saas w)) account RoleAdmin \<and> \<not> holds_role (sd_auth (py_saas w)) account RoleTeacher)"
    proof -
      have same: "od_receiptTokenHash ?e = od_receiptTokenHash row" "meta_text ?e = meta_text row"
        by (simp_all add: mapRowToOrder_def meta_text_def fun_eq_iff)
      from True consider (one) "gate_ok (evaluateReceiptGate hashToken ?e presented None)"
        | (two) account where "session = Some account" "\<not> holds_role (sd_auth (py_saas w)) account RoleAdmin"
            "\<not> holds_role (sd_auth (py_saas w)) account RoleTeacher" "gate_ok (evaluateReceiptGate hashToken ?e presented (Some (js account)))"
        by (auto simp: route_gate_def Let_def resolveSessionAccountIdForReceiptGate_def split: option.splits if_splits)
      then show ?thesis
      proof cases
        case one
        then show ?thesis by (cases rule: gate_ok_cases) (auto simp: same)
      next
        case two
        from two(4) show ?thesis by (cases rule: gate_ok_cases) (use two in \<open>auto simp: same\<close>)
      qed
    qed
    moreover have "od_status a \<in> {StPaid, StFailed} \<longrightarrow> od_status (toInsertValues (cancelled_update now n (mapRowToOrder a))) = od_status a" for now n a
      by (simp add: updates toInsertValues_def mapRowToOrder_def)
    ultimately show ?thesis using m(2) code rows Some by auto
  qed
qed

text \<open>The claims at an order that waits for the bank, and at an order whose token is presented.\<close>

definition sample_waiting :: payment_order where
  "sample_waiting = sample_order\<lparr>od_status := StPending,
     od_metadata := Some [(''threeDs'', JObj [(js ''transactionId'', JStr (js ''7''))])], od_receiptTokenHash := Some ''h''\<rparr>"

definition sample_success :: json where
  "sample_success = JObj [(js ''Success'', JBool True), (js ''Model'', JObj [(js ''TransactionId'', JStr (js ''8''))])]"

theorem threeds_answers_as_the_bank_witness:
  "\<exists>pub s' b. confirmThreeDsAndFinalize sample_runtime (sample_config\<lparr>cf_configured := True\<rparr>) (at_second 60) (js ''lc_1'')
       (HttpJson sample_success) (\<lambda>s. s) ([sample_waiting], sample_pay_world) = (Inr (ThPaid pub), s')
     \<and> order_row_by_id (fst s') (js ''lc_1'') = Some b \<and> od_status b = StPaid \<and> pu_status pub = StPaid"
proof -
  let ?rt = sample_runtime and ?s = "([sample_waiting], sample_pay_world)" and ?cfg = "sample_config\<lparr>cf_configured := True\<rparr>"
  have row: "order_row_by_id (fst ?s) (js ''lc_1'') = Some sample_waiting"
    by (simp add: order_row_by_id_def find_by_def sample_waiting_def sample_order_def)
  then have got: "getOrder (fst ?s) (js ''lc_1'') = Some (mapRowToOrder sample_waiting)" by (simp add: getOrder_def)
  have st: "od_status (mapRowToOrder sample_waiting) = StPending" "od_invoiceId (mapRowToOrder sample_waiting) = js ''lc_1''"
      "threeds_transaction (mapRowToOrder sample_waiting) \<noteq> None"
    by (simp_all add: mapRowToOrder_def sample_waiting_def sample_order_def threeds_transaction_def meta_value_def json_field_def js_def)
  have "json_field sample_success ''Success'' = Some (JBool True)"
    "json_field (answer_model sample_success) ''TransactionId'' = Some (JStr (js ''8''))"
    by (simp_all add: sample_success_def json_field_def answer_model_def js_def)
  moreover have "sample_success \<noteq> JNull" by (simp add: sample_success_def)
  ultimately have answer: "\<exists>ca. confirmThreeDs ?rt True (HttpJson sample_success) = Inr (CfSuccess (js ''8'') ca)"
    by (simp add: confirmThreeDs_def read_answer_def pickString_def truthy_text_def js_def Let_def)
  define x where "x = paid_update ?rt 60000 (source_note ''one_click_3ds'' [(''transactionId'', Some (JStr (js ''8'')))]) None (mapRowToOrder sample_waiting)"
  have "order_check x"
    by (simp add: x_def order_check_def paid_update_def appendEvent_def mapRowToOrder_def sample_waiting_def sample_order_def
        next_payment_method_def)
  then have "markOrderPaid ?rt 60000 (js ''lc_1'') (source_note ''one_click_3ds'' [(''transactionId'', Some (JStr (js ''8'')))]) None [sample_waiting]
      = Inr ((Some x, maybeEmitStatusChange (Some x)), replace_row od_invoiceId (toInsertValues x) [sample_waiting])"
    using row by (simp add: markOrderPaid_def updateOrder_def Let_def flip: x_def)
  then obtain w' where run: "confirmThreeDsAndFinalize ?rt ?cfg (at_second 60) (js ''lc_1'') (HttpJson sample_success) (\<lambda>s. s) ?s
      = (Inr (ThPaid (toPublicOrder x)), replace_row od_invoiceId (toInsertValues x) [sample_waiting], w')"
    using got st answer by (auto simp: confirmThreeDsAndFinalize_def finish_threeds_def on_orders_def Let_def at_second_def coalesce_def)
  have x: "od_invoiceId (toInsertValues x) = js ''lc_1''" "od_status (toInsertValues x) = StPaid"
    using st(2) by (simp_all add: x_def update_statuses) (simp add: toInsertValues_def x_def)
  have "order_row_by_id (replace_row od_invoiceId (toInsertValues x) [sample_waiting]) (js ''lc_1'') = Some (toInsertValues x)"
    using x(1) row by (simp add: order_row_by_id_def find_by_replace_row)
  moreover have "pu_status (toPublicOrder x) = StPaid"
    using threeds_answers_as_the_bank [OF run row] by simp
  ultimately show ?thesis using run x(2) by auto
qed

theorem cancel_route_is_gated_witness:
  "\<exists>t'. cancel_route (\<lambda>_. ''h'') (at_second 60) (js ''lc_12345678'') (Some (js ''h'')) None
       ([sample_waiting\<lparr>od_invoiceId := js ''lc_12345678''\<rparr>], sample_pay_world) = Inr (200, t', sample_pay_world)
     \<and> t' \<noteq> [sample_waiting\<lparr>od_invoiceId := js ''lc_12345678''\<rparr>]"
proof -
  let ?i = "js ''lc_12345678''" and ?o = "sample_waiting\<lparr>od_invoiceId := js ''lc_12345678''\<rparr>" and ?n = "Some [(''source'', JStr (js ''client'')), (''reason'', JStr (js ''widget_closed''))]"
  have row: "order_row_by_id [?o] ?i = Some ?o" by (simp add: order_row_by_id_def find_by_def)
  define x where "x = cancelled_update 60000 ?n (mapRowToOrder ?o)"
  have "order_check x" and st: "od_status (toInsertValues x) = StCancelled"
    by (simp_all add: x_def order_check_def cancelled_update_def appendEvent_def mapRowToOrder_def sample_waiting_def sample_order_def toInsertValues_def)
  then have m: "markOrderCancelled 60000 ?i ?n [?o] = Inr ((Some x, maybeEmitStatusChange (Some x)), replace_row od_invoiceId (toInsertValues x) [?o])"
    using row by (simp add: markOrderCancelled_def updateOrder_def Let_def flip: x_def)
  have pat: "INVOICE_ID_PATTERN ?i" by (simp add: INVOICE_ID_PATTERN_def letter_or_digit_def js_def)
  have "gate_ok (route_gate (\<lambda>_. ''h'') d (mapRowToOrder ?o) (Some (js ''h'')) None)" for d
    by (simp add: route_gate_def evaluateReceiptGate_def gate_ok_def mapRowToOrder_def sample_waiting_def truthy_text_def js_def Let_def)
  then have run: "cancel_route (\<lambda>_. ''h'') (at_second 60) ?i (Some (js ''h'')) None ([?o], sample_pay_world)
      = Inr (200, replace_row od_invoiceId (toInsertValues x) [?o], sample_pay_world)"
    using pat row m by (simp add: cancel_route_def getOrder_def at_second_def)
  have "od_invoiceId x = ?i" by (simp add: x_def updates mapRowToOrder_def)
  then have t': "replace_row od_invoiceId (toInsertValues x) [?o] = [toInsertValues x]"
    by (simp add: replace_row_def toInsertValues_def)
  have "od_status ?o = StPending" by (simp add: sample_waiting_def)
  with st have "[toInsertValues x] \<noteq> [?o]" by auto
  with run t' cancel_route_is_gated [OF run] show ?thesis by auto
qed

end
