(* ===== verification/Event_Id.thy ===== *)
theory Event_Id
  imports Database "HOL-Library.Word"
begin

unbundle bit_operations_syntax

text \<open>
  The id under which a lesson is put into an external calendar (\<open>uuidToBase32\<close> and \<open>deterministicEventId\<close> of
  \<open>src/lib/calendar/google/push.ts\<close>). The bytes of the uuid are shifted through a number that JavaScript keeps in 32
  bits, so most of them are shifted out; the theorem says that nothing is lost by it.
\<close>

section \<open>The encoder\<close>

definition EVENT_ID_PREFIX :: string where "EVENT_ID_PREFIX = ''lc''"
definition BASE32HEX :: string where "BASE32HEX = ''0123456789abcdefghijklmnopqrstuv''"

definition hex_value :: "char \<Rightarrow> nat" where
  "hex_value c = (let n = of_char c in if n \<ge> 97 then n - 87 else n - 48)"

text \<open>\<open>parseInt(hex.slice(i * 2, i * 2 + 2), 16)\<close> for every pair.\<close>

fun hex_bytes :: "string \<Rightarrow> nat list" where
  "hex_bytes (a # b # s) = (16 * hex_value a + hex_value b) # hex_bytes s"
| "hex_bytes _ = []"

definition base32_char :: "32 word \<Rightarrow> char" where
  "base32_char v = BASE32HEX ! unat (v AND 0x1f)"

text \<open>\<open>while (bits >= 5)\<close>.\<close>

function drain_bits :: "nat \<Rightarrow> 32 word \<Rightarrow> string \<Rightarrow> nat \<times> string" where
  "drain_bits bits v out =
     (if bits \<ge> 5 then drain_bits (bits - 5) v (out @ [base32_char (drop_bit (bits - 5) v)]) else (bits, out))"
  by pat_completeness auto

termination by (relation "measure (\<lambda>(bits, _, _). bits)") auto

declare drain_bits.simps [simp del]

text \<open>The loop over the bytes; \<open><<\<close> and \<open>|\<close> work on 32 bits.\<close>

fun encode_bytes :: "nat list \<Rightarrow> nat \<Rightarrow> 32 word \<Rightarrow> string \<Rightarrow> string" where
  "encode_bytes [] bits v out = (if bits > 0 then out @ [base32_char (push_bit (5 - bits) v)] else out)"
| "encode_bytes (b # bs) bits v out =
     (let v' = push_bit 8 v OR of_nat b; (bits', out') = drain_bits (bits + 8) v' out in encode_bytes bs bits' v' out')"

definition uuidToBase32 :: "string \<Rightarrow> exn + string" where
  "uuidToBase32 uuid =
     (let hex = map lower_hex (filter (\<lambda>c. c \<noteq> CHR ''-'') uuid) in
      if length hex \<noteq> 32 \<or> \<not> list_all hex_digit hex then Inl (JsError ''deterministicEventId: invalid UUID input'')
      else Inr (encode_bytes (hex_bytes hex) 0 0 []))"

definition deterministicEventId :: "string \<Rightarrow> exn + string" where
  "deterministicEventId slotId = map_sum id (\<lambda>s. EVENT_ID_PREFIX @ s) (uuidToBase32 slotId)"

section \<open>What it computes\<close>

text \<open>The numbers that a text of base 32 and a list of bytes stand for.\<close>

definition digit32 :: "char \<Rightarrow> nat" where
  "digit32 c = (let n = of_char c in if n \<ge> 97 then n - 87 else n - 48)"

definition number32 :: "string \<Rightarrow> nat" where
  "number32 s = foldl (\<lambda>n c. 32 * n + digit32 c) 0 s"

definition number256 :: "nat list \<Rightarrow> nat" where
  "number256 bs = foldl (\<lambda>n b. 256 * n + b) 0 bs"

lemma base32_char: "digit32 (base32_char v) = unat v mod 32" "base32_char v \<in> set BASE32HEX"
proof -
  have "unat (v AND 0x1f) = unat v AND mask 5" by (simp add: unsigned_and_eq mask_numeral)
  then have v: "unat (v AND 0x1f) = unat v mod 32" by (simp flip: take_bit_eq_mask add: take_bit_eq_mod)
  have lt: "unat (v AND 0x1f) < length BASE32HEX" unfolding v by (simp add: BASE32HEX_def)
  then show "base32_char v \<in> set BASE32HEX" unfolding base32_char_def by (rule nth_mem)
  have "list_all (\<lambda>i. digit32 (BASE32HEX ! i) = i) [0..<32]"
    by (simp add: BASE32HEX_def digit32_def upt_rec)
  then have "digit32 (BASE32HEX ! i) = i" if "i < 32" for i using that by (simp add: list_all_iff)
  then show "digit32 (base32_char v) = unat v mod 32" unfolding base32_char_def v by simp
qed

text \<open>What the texts and the low bits stand for together, before and after draining.\<close>

lemma drain_bits_number:
  assumes "drain_bits bits v out = (bits', out')"
  shows "bits' < 5 \<and> 5 * length out' + bits' = 5 * length out + bits
     \<and> number32 out' * 2 ^ bits' + unat v mod 2 ^ bits' = number32 out * 2 ^ bits + unat v mod 2 ^ bits
     \<and> (set out \<subseteq> set BASE32HEX \<longrightarrow> set out' \<subseteq> set BASE32HEX)"
  using assms
proof (induction bits v out rule: drain_bits.induct)
  case (1 bits v out)
  show ?case
  proof (cases "bits \<ge> 5")
    case False
    with "1.prems" show ?thesis by (simp add: drain_bits.simps)
  next
    case True
    let ?c = "base32_char (drop_bit (bits - 5) v)"
    have run: "drain_bits (bits - 5) v (out @ [?c]) = (bits', out')"
      using "1.prems" True by (subst (asm) drain_bits.simps) simp
    note ih = "1.IH" [OF True run]
    obtain k where k: "bits = k + 5" using True by (metis le_add_diff_inverse2)
    have split: "unat v mod 2 ^ bits = 2 ^ k * (unat v div 2 ^ k mod 32) + unat v mod 2 ^ k"
      using mod_mult2_eq [of "unat v" "2 ^ k" 32] by (simp add: k power_add)
    have digit: "digit32 (base32_char (drop_bit k v)) = unat v div 2 ^ k mod 32"
      by (simp only: base32_char(1) unat_drop_bit_eq drop_bit_eq_div [of k "unat v"])
    have "number32 (out @ [?c]) * 2 ^ k + unat v mod 2 ^ k = number32 out * 2 ^ bits + unat v mod 2 ^ bits"
      unfolding split by (simp add: number32_def digit k power_add algebra_simps)
    with ih show ?thesis using base32_char(2) by (auto simp: k)
  qed
qed

lemma number256_Cons: "number256 (b # bs) = b * 256 ^ length bs + number256 bs"
proof -
  have "foldl (\<lambda>n b. 256 * n + b) m bs = m * 256 ^ length bs + foldl (\<lambda>n b. 256 * n + b) 0 bs" for m :: nat
  proof (induction bs arbitrary: m)
    case (Cons x xs)
    let ?f = "foldl (\<lambda>n b. 256 * n + b)"
    have "?f m (x # xs) = (256 * m + x) * 256 ^ length xs + ?f 0 xs" using Cons [of "256 * m + x"] by (simp only: foldl.simps)
    moreover have "?f 0 (x # xs) = x * 256 ^ length xs + ?f 0 xs" using Cons [of x] by (simp only: foldl.simps mult_0_right add_0)
    ultimately show ?case by (simp only: length_Cons power_Suc) (simp add: algebra_simps)
  qed simp
  from this [of b] show ?thesis by (simp add: number256_def)
qed

lemma shift_in:
  assumes "b < 256" and "bits < 5"
  shows "unat (push_bit 8 v OR of_nat b :: 32 word) mod 2 ^ (bits + 8) = (unat v mod 2 ^ bits) * 256 + b"
proof -
  let ?w = "push_bit 8 v OR of_nat b :: 32 word"
  have "push_bit 8 v AND (of_nat b :: 32 word) = 0"
  proof (rule bit_eqI)
    fix n
    have "\<not> bit b n" if "8 \<le> n"
    proof -
      have "b < 2 ^ n" using assms(1) power_increasing [OF that, of "2 :: nat"] by simp
      then show ?thesis by (simp add: bit_iff_odd)
    qed
    then show "bit (push_bit 8 v AND (of_nat b :: 32 word)) n = bit (0 :: 32 word) n"
      by (auto simp: bit_simps)
  qed
  then have "?w = push_bit 8 v + of_nat b" by (rule disjunctive_add_eq_or [symmetric])
  also have "\<dots> = of_nat (unat v * 256 + b)" by (simp add: push_bit_eq_mult)
  finally have w: "?w = of_nat (unat v * 256 + b)" .
  have u: "unat ?w = (unat v * 256 + b) mod 2 ^ 32" unfolding w unat_of_nat by simp
  have d: "(2 :: nat) ^ (bits + 8) dvd 2 ^ 32" using assms(2) by (intro le_imp_power_dvd) simp
  have "unat ?w mod 2 ^ (bits + 8) = (unat v * 256 + b) mod 2 ^ (bits + 8)" unfolding u by (rule mod_mod_cancel [OF d])
  also have "\<dots> = (unat v * 256 + b) mod (256 * 2 ^ bits)" by (simp add: power_add mult.commute)
  also have "\<dots> = 256 * ((unat v * 256 + b) div 256 mod 2 ^ bits) + (unat v * 256 + b) mod 256" by (rule mod_mult2_eq)
  also have "\<dots> = 256 * (unat v mod 2 ^ bits) + b" using assms(1) by (simp only: div_mult_self3 div_less mod_mult_self3 mod_less add_0_right zero_neq_numeral not_False_eq_True)
  finally show ?thesis by (simp only: mult.commute)
qed

text \<open>The number that the output and the pending bits stand for is the one of the bytes so far.\<close>

lemma encode_bytes_number:
  assumes "list_all (\<lambda>b. b < 256) bs" and "bits < 5"
  shows "\<exists>pad. number32 (encode_bytes bs bits v out) = (number32 out * 2 ^ bits + unat v mod 2 ^ bits) * 256 ^ length bs * 2 ^ pad
            + number256 bs * 2 ^ pad
      \<and> pad < 5 \<and> 5 * length (encode_bytes bs bits v out) = 5 * length out + bits + 8 * length bs + pad
      \<and> (set out \<subseteq> set BASE32HEX \<longrightarrow> set (encode_bytes bs bits v out) \<subseteq> set BASE32HEX)"
  using assms
proof (induction bs arbitrary: bits v out)
  case Nil
  show ?case
  proof (cases "bits = 0")
    case True
    then show ?thesis by (intro exI [of _ 0]) (simp add: number256_def)
  next
    case False
    have "unat (push_bit (5 - bits) v) mod 32 = (unat v mod 2 ^ bits) * 2 ^ (5 - bits)"
    proof -
      have "unat (push_bit (5 - bits) v) = (unat v * 2 ^ (5 - bits)) mod 2 ^ 32"
      proof -
        have w: "push_bit (5 - bits) v = of_nat (unat v * 2 ^ (5 - bits))" by (simp add: push_bit_eq_mult)
        show ?thesis unfolding w unat_of_nat by simp
      qed
      then have "unat (push_bit (5 - bits) v) mod 32 = (2 ^ (5 - bits) * unat v) mod (2 ^ (5 - bits) * 2 ^ bits)"
        using Nil.prems(2) by (simp add: mod_mod_cancel mult.commute flip: power_add)
      then show ?thesis by (simp add: mult_mod_right mult.commute)
    qed
    moreover have "(n * 2 ^ bits + x) * 2 ^ (5 - bits) = 32 * n + x * 2 ^ (5 - bits)" for n x :: nat
    proof -
      have "(2 :: nat) ^ bits * 2 ^ (5 - bits) = 32" using Nil.prems(2) by (simp flip: power_add)
      then show ?thesis by (simp add: add_mult_distrib mult.assoc)
    qed
    ultimately show ?thesis using False Nil.prems base32_char(2)
      by (intro exI [of _ "5 - bits"]) (auto simp: number256_def number32_def base32_char(1))
  qed
next
  case (Cons b bs)
  let ?v = "push_bit 8 v OR of_nat b :: 32 word"
  obtain bits' out' where d: "drain_bits (bits + 8) ?v out = (bits', out')" by (rule prod.exhaust)
  note n = drain_bits_number [OF d]
  have b: "list_all (\<lambda>b. b < 256) bs" "b < 256" "bits' < 5" using Cons.prems n by simp_all
  from Cons.IH [OF b(1,3), of ?v out'] obtain pad where ih:
      "number32 (encode_bytes bs bits' ?v out') = (number32 out' * 2 ^ bits' + unat ?v mod 2 ^ bits') * 256 ^ length bs * 2 ^ pad
            + number256 bs * 2 ^ pad" "pad < 5"
      "5 * length (encode_bytes bs bits' ?v out') = 5 * length out' + bits' + 8 * length bs + pad"
      "set out' \<subseteq> set BASE32HEX \<longrightarrow> set (encode_bytes bs bits' ?v out') \<subseteq> set BASE32HEX" by blast
  have run: "encode_bytes (b # bs) bits v out = encode_bytes bs bits' ?v out'" by (simp add: d Let_def)
  have "number32 out' * 2 ^ bits' + unat ?v mod 2 ^ bits' = number32 out * 2 ^ (bits + 8) + unat ?v mod 2 ^ (bits + 8)"
    using n by blast
  then have sum: "number32 out' * 2 ^ bits' + unat ?v mod 2 ^ bits' = (number32 out * 2 ^ bits + unat v mod 2 ^ bits) * 256 + b"
    unfolding shift_in [OF b(2) Cons.prems(2)] by (simp add: power_add)
  have "number256 (b # bs) = b * 256 ^ length bs + number256 bs" by (rule number256_Cons)
  then show ?case
    unfolding run using ih n by (intro exI [of _ pad]) (simp add: sum algebra_simps)
qed

section \<open>Two lessons never share an id\<close>

lemma number256_inject:
  "list_all (\<lambda>b. b < 256) bs \<Longrightarrow> list_all (\<lambda>b. b < 256) cs \<Longrightarrow> length bs = length cs \<Longrightarrow> number256 bs = number256 cs \<Longrightarrow> bs = cs"
proof (induction bs arbitrary: cs)
  case (Cons b bs)
  then obtain c cs' where cs: "cs = c # cs'" by (cases cs) auto
  have small: "number256 xs < 256 ^ length xs" if "list_all (\<lambda>b. b < 256) xs" for xs
    using that
  proof (induction xs)
    case (Cons x xs)
    then have "number256 xs < 256 ^ length xs" "x \<le> 255" by simp_all
    then have "x * 256 ^ length xs + number256 xs < 255 * 256 ^ length xs + 256 ^ length xs"
      by (intro add_le_less_mono mult_right_mono) simp_all
    then show ?case by (simp add: number256_Cons)
  qed (simp add: number256_def)
  let ?m = "(256 :: nat) ^ length bs"
  have eq: "b * ?m + number256 bs = c * ?m + number256 cs'" and lt: "number256 bs < ?m" "number256 cs' < ?m"
    using Cons.prems small [of bs] small [of cs'] by (simp_all add: cs number256_Cons)
  then have "(b * ?m + number256 bs) div ?m = (c * ?m + number256 cs') div ?m" by simp
  with lt have "b = c" by simp
  with eq have "number256 bs = number256 cs'" by simp
  with Cons \<open>b = c\<close> show ?case by (simp add: cs)
qed simp

definition low_digit :: "char \<Rightarrow> bool" where "low_digit c \<longleftrightarrow> c \<in> set ''0123456789abcdef''"

lemma lower_digit: "hex_digit c \<Longrightarrow> low_digit (lower_hex c)"
  by (auto simp: hex_digit_def lower_hex_def low_digit_def)

lemma low_digit_hex: "low_digit c \<Longrightarrow> hex_digit c"
  by (auto simp: hex_digit_def low_digit_def)

lemma hex_value_inject: "low_digit c \<Longrightarrow> low_digit d \<Longrightarrow> hex_value c = hex_value d \<Longrightarrow> c = d"
  by (auto simp: hex_value_def low_digit_def)

lemma hex_value_less: "low_digit c \<Longrightarrow> hex_value c < 16"
  by (auto simp: hex_value_def low_digit_def)

lemma hex_bytes_small: "list_all low_digit s \<Longrightarrow> list_all (\<lambda>b. b < 256) (hex_bytes s)"
proof (induction s rule: hex_bytes.induct)
  case (1 a b s)
  then have "hex_value a < 16" "hex_value b < 16" by (simp_all add: hex_value_less)
  with 1 show ?case by simp
qed simp_all

lemma length_hex_bytes: "length (hex_bytes s) = length s div 2"
  by (induction s rule: hex_bytes.induct) simp_all

lemma hex_bytes_inject:
  "list_all low_digit s \<Longrightarrow> list_all low_digit t \<Longrightarrow> length s = length t \<Longrightarrow> even (length s) \<Longrightarrow> hex_bytes s = hex_bytes t \<Longrightarrow> s = t"
proof (induction s arbitrary: t rule: hex_bytes.induct)
  case (1 a b s)
  obtain c t1 where t1: "t = c # t1" "length t1 = Suc (length s)" using "1.prems"(3) by (cases t) auto
  then obtain d t' where t: "t = c # d # t'" by (cases t1) auto
  have digits: "low_digit a" "low_digit b" "low_digit c" "low_digit d" using "1.prems"(1,2) by (simp_all add: t)
  have byte: "16 * hex_value a + hex_value b = 16 * hex_value c + hex_value d" and rest: "hex_bytes s = hex_bytes t'"
    using "1.prems"(5) by (simp_all add: t)
  have both: "x = y \<and> u = w" if "16 * x + u = 16 * y + w" "u < 16" "w < 16" for x y u w :: nat
    using that by presburger
  have same: "hex_value a = hex_value c" "hex_value b = hex_value d"
    using both [OF byte hex_value_less [OF digits(2)] hex_value_less [OF digits(4)]] by blast+
  have "a = c" by (rule hex_value_inject [OF digits(1,3) same(1)])
  moreover have "b = d" by (rule hex_value_inject [OF digits(2,4) same(2)])
  moreover have "s = t'" using "1.prems" rest by (intro "1.IH") (simp_all add: t)
  ultimately show ?case by (simp add: t)
qed auto

text \<open>The digits of a uuid, as the first two lines of the encoder take them.\<close>

definition uuid_digits :: "string \<Rightarrow> string" where
  "uuid_digits s = map lower_hex (filter (\<lambda>c. c \<noteq> CHR ''-'') s)"

lemma digits_by_index:
  assumes "uuid_pattern s"
  shows "uuid_digits s = map (\<lambda>i. pg_uuid s ! i) (filter (\<lambda>i. i \<notin> {8, 13, 18, 23}) [0..<36])"
proof -
  have len: "length s = 36" and pat: "\<And>i. i < 36 \<Longrightarrow> if i \<in> {8, 13, 18, 23} then s ! i = CHR ''-'' else hex_digit (s ! i)"
    using assms by (auto simp: uuid_pattern_def list_all_iff)
  have dash: "s ! i \<noteq> CHR ''-'' \<longleftrightarrow> i \<notin> {8, 13, 18, 23}" if "i < 36" for i
    using pat [OF that] by (auto simp: hex_digit_def split: if_splits)
  have "filter (\<lambda>c. c \<noteq> CHR ''-'') (map (nth s) [0..<36]) = map (nth s) (filter (\<lambda>i. s ! i \<noteq> CHR ''-'') [0..<36])"
    by (simp only: filter_map comp_def)
  also have "filter (\<lambda>i. s ! i \<noteq> CHR ''-'') [0..<36] = filter (\<lambda>i. i \<notin> {8, 13, 18, 23}) [0..<36]"
    by (rule filter_cong) (use dash in auto)
  also have "map (nth s) [0..<36] = s" using map_nth [of s] by (simp only: len)
  finally show ?thesis by (simp add: uuid_digits_def pg_uuid_def len nth_map)
qed

lemma uuid_digits_props:
  assumes "uuid_pattern s"
  shows "length (uuid_digits s) = 32" and "list_all low_digit (uuid_digits s)"
proof -
  have "length (filter (\<lambda>i. i \<notin> {8, 13, 18, 23 :: nat}) [0..<36]) = 32" by (simp add: upt_rec)
  then show "length (uuid_digits s) = 32" unfolding digits_by_index [OF assms] by simp
  have len: "length s = 36" and pat: "\<And>i. i < 36 \<Longrightarrow> if i \<in> {8, 13, 18, 23} then s ! i = CHR ''-'' else hex_digit (s ! i)"
    using assms by (auto simp: uuid_pattern_def list_all_iff)
  have "low_digit (pg_uuid s ! i)" if "i < 36" "i \<notin> {8, 13, 18, 23}" for i
    using pat [OF that(1)] that len by (simp add: pg_uuid_def lower_digit)
  then show "list_all low_digit (uuid_digits s)" unfolding digits_by_index [OF assms] by (auto simp: list_all_iff)
qed

lemma uuid_digits_inject:
  assumes "uuid_pattern s" and "uuid_pattern t" and "uuid_digits s = uuid_digits t"
  shows "pg_uuid s = pg_uuid t"
proof (rule nth_equalityI)
  show "length (pg_uuid s) = length (pg_uuid t)" using assms(1,2) by (simp add: pg_uuid_def uuid_pattern_def)
  fix i assume "i < length (pg_uuid s)"
  then have i: "i < 36" "i < length s" "i < length t" using assms(1,2) by (simp_all add: pg_uuid_def uuid_pattern_def)
  show "pg_uuid s ! i = pg_uuid t ! i"
  proof (cases "i \<in> {8, 13, 18, 23}")
    case True
    have "s ! i = CHR ''-'' \<and> t ! i = CHR ''-''" using assms(1,2) True i unfolding uuid_pattern_def list_all_iff by auto
    then show ?thesis using i by (simp add: pg_uuid_def)
  next
    case False
    then show ?thesis using assms(3) i unfolding digits_by_index [OF assms(1)] digits_by_index [OF assms(2)] by simp
  qed
qed

lemma uuid_digits_pg [simp]: "uuid_digits (pg_uuid s) = uuid_digits s"
proof -
  have "(lower_hex c \<noteq> CHR ''-'') = (c \<noteq> CHR ''-'')" for c by (auto simp: lower_hex_def)
  then show ?thesis by (simp add: uuid_digits_def pg_uuid_def filter_map comp_def)
qed

text \<open>The 26 digits of a uuid stand for its number, shifted by the two bits of the padding.\<close>

lemma base32_of_uuid:
  assumes "uuid_pattern s"
  obtains e where "uuidToBase32 s = Inr e" and "length e = 26" and "set e \<subseteq> set BASE32HEX"
    and "number32 e = 4 * number256 (hex_bytes (uuid_digits s))"
proof -
  let ?bs = "hex_bytes (uuid_digits s)"
  define e where "e = encode_bytes ?bs 0 0 []"
  note p = uuid_digits_props [OF assms]
  have len: "length ?bs = 16" unfolding length_hex_bytes p(1) by simp
  obtain pad where pad: "number32 e = number256 ?bs * 2 ^ pad" "pad < 5" "5 * length e = 128 + pad" "set e \<subseteq> set BASE32HEX"
    using encode_bytes_number [OF hex_bytes_small [OF p(2)], of 0 0 "[]"] by (auto simp: len e_def number32_def)
  then have two: "pad = 2" "length e = 26" by presburger+
  have "list_all hex_digit (uuid_digits s)" using p(2) by (auto simp: list_all_iff low_digit_hex)
  then have "uuidToBase32 s = Inr e" by (simp add: uuidToBase32_def Let_def e_def p(1) flip: uuid_digits_def)
  then show thesis using that pad(1,4) two by simp
qed

text \<open>
  C38: the id of an event is always made: the prefix and 26 characters of the calendar's alphabet, with no error. Two
  lessons get the same id exactly when the database takes their uuids for the same, so a repeated insert meets its own
  event and never the one of another lesson. The bits that the 32-bit accumulator drops were written out before.
\<close>

theorem event_id_names_the_lesson:
  assumes "uuid_pattern s" and "uuid_pattern t"
  shows "(\<exists>e. deterministicEventId s = Inr (EVENT_ID_PREFIX @ e) \<and> length e = 26 \<and> set e \<subseteq> set BASE32HEX)
     \<and> (deterministicEventId s = deterministicEventId t \<longleftrightarrow> pg_uuid s = pg_uuid t)"
proof
  obtain e where e: "uuidToBase32 s = Inr e" "length e = 26" "set e \<subseteq> set BASE32HEX"
      "number32 e = 4 * number256 (hex_bytes (uuid_digits s))" by (rule base32_of_uuid [OF assms(1)])
  obtain f where f: "uuidToBase32 t = Inr f" "number32 f = 4 * number256 (hex_bytes (uuid_digits t))"
    by (rule base32_of_uuid [OF assms(2)]) blast
  show "\<exists>e. deterministicEventId s = Inr (EVENT_ID_PREFIX @ e) \<and> length e = 26 \<and> set e \<subseteq> set BASE32HEX"
    using e by (simp add: deterministicEventId_def)
  note ps = uuid_digits_props [OF assms(1)] and pt = uuid_digits_props [OF assms(2)]
  show "deterministicEventId s = deterministicEventId t \<longleftrightarrow> pg_uuid s = pg_uuid t"
  proof
    assume "deterministicEventId s = deterministicEventId t"
    then have "number256 (hex_bytes (uuid_digits s)) = number256 (hex_bytes (uuid_digits t))"
      using e f by (simp add: deterministicEventId_def)
    then have "hex_bytes (uuid_digits s) = hex_bytes (uuid_digits t)"
      by (intro number256_inject hex_bytes_small ps pt) (simp_all add: length_hex_bytes ps pt)
    then have "uuid_digits s = uuid_digits t"
      by (intro hex_bytes_inject ps pt) (simp_all add: ps pt)
    then show "pg_uuid s = pg_uuid t" by (rule uuid_digits_inject [OF assms])
  next
    assume "pg_uuid s = pg_uuid t"
    then have "uuid_digits s = uuid_digits t" by (metis uuid_digits_pg)
    then show "deterministicEventId s = deterministicEventId t"
      by (simp add: deterministicEventId_def uuidToBase32_def Let_def flip: uuid_digits_def)
  qed
qed

lemma event_id_names_the_lesson_witness:
  "(\<exists>e. deterministicEventId (uuid_of CHR ''A'') = Inr (EVENT_ID_PREFIX @ e) \<and> length e = 26 \<and> set e \<subseteq> set BASE32HEX)
   \<and> deterministicEventId (uuid_of CHR ''A'') = deterministicEventId (uuid_of CHR ''a'')
   \<and> deterministicEventId (uuid_of CHR ''1'') \<noteq> deterministicEventId (uuid_of CHR ''2'')"
proof -
  have hex: "uuid_pattern (uuid_of CHR ''A'')" "uuid_pattern (uuid_of CHR ''a'')" "uuid_pattern (uuid_of CHR ''1'')" "uuid_pattern (uuid_of CHR ''2'')"
    by (simp_all add: hex_digit_def)
  have pg: "pg_uuid (uuid_of CHR ''A'') = pg_uuid (uuid_of CHR ''a'')" "pg_uuid (uuid_of CHR ''1'') \<noteq> pg_uuid (uuid_of CHR ''2'')"
    by (simp_all add: pg_uuid_def uuid_of_def lower_hex_def)
  show ?thesis
    using event_id_names_the_lesson [OF hex(1,2)] event_id_names_the_lesson [OF hex(3,4)] pg by blast
qed

end
