(* ===== verification/Calendar_State.thy ===== *)
theory Calendar_State
  imports Event_Id Orders
begin

text \<open>
  What the calendar sync keeps and how its operations run: the tables of \<open>src/migrations/0042-0047, 0107\<close> beside
  the lesson slots, the encryption of tokens (\<open>src/lib/calendar/encryption.ts\<close>), the integrations
  (\<open>src/lib/calendar/integrations.ts\<close>) and fresh tokens (\<open>src/lib/calendar/google/oauth.ts\<close>,
  \<open>token-refresh.ts\<close>, \<open>src/lib/calendar/token-retry.ts\<close>).

  \<^item> A program of this component commits statement by statement, so it returns the state it leaves behind also
    when it throws (\<open>prog\<close>).
  \<^item> The other side of the network is an argument: given a request and the world it gives the answer and the
    world after it. The world holds the tables too, so that whatever other processes do while an answer is
    awaited is part of the argument.
  \<^item> A token in a table is kept with the key it was encrypted under; decryption with another key fails, as
    \<open>pgp_sym_decrypt\<close> does.
\<close>

section \<open>Programs that commit as they go\<close>

type_synonym ('s, 'a) prog = "'s \<Rightarrow> (exn + 'a) \<times> 's"

definition retP :: "'a \<Rightarrow> ('s, 'a) prog" where "retP x s = (Inr x, s)"

definition bindP :: "('s, 'a) prog \<Rightarrow> ('a \<Rightarrow> ('s, 'b) prog) \<Rightarrow> ('s, 'b) prog" where
  "bindP m f s = (let (r, s') = m s in case r of Inl e \<Rightarrow> (Inl e, s') | Inr x \<Rightarrow> f x s')"

definition liftP :: "exn + 'a \<Rightarrow> ('s, 'a) prog" where "liftP r s = (r, s)"

text \<open>One statement, or one transaction, on the tables; a failed one leaves them as they were.\<close>

definition stmt :: "('d \<Rightarrow> exn + ('a \<times> 'd)) \<Rightarrow> ('d \<times> 'g, 'a) prog" where
  "stmt t w = (case t (fst w) of Inl e \<Rightarrow> (Inl e, w) | Inr (x, d) \<Rightarrow> (Inr x, (d, snd w)))"

definition reading :: "('d \<Rightarrow> 'a) \<Rightarrow> ('d \<times> 'g, 'a) prog" where
  "reading f w = (Inr (f (fst w)), w)"

text \<open>\<open>.catch(() => {})\<close>.\<close>

definition ignore_failure :: "('s, 'a) prog \<Rightarrow> ('s, unit) prog" where
  "ignore_failure m s = (Inr (), snd (m s))"

named_theorems prog_defs \<open>the ways programs are put together\<close>

lemmas [prog_defs] = retP_def bindP_def liftP_def stmt_def reading_def ignore_failure_def

text \<open>
  \<open>ensures P moves Q m\<close>: from a state with \<open>P\<close> the program ends, by returning or throwing, in one with \<open>Q\<close> that is
  related to the first by \<open>moves\<close>.
\<close>

definition ensures :: "('s \<Rightarrow> bool) \<Rightarrow> ('s \<Rightarrow> 's \<Rightarrow> bool) \<Rightarrow> ('s \<Rightarrow> bool) \<Rightarrow> ('s, 'a) prog \<Rightarrow> bool" where
  "ensures P moves Q m \<longleftrightarrow> (\<forall>s. P s \<longrightarrow> Q (snd (m s)) \<and> moves s (snd (m s)))"

lemma bindP_cases:
  obtains e s' where "m s = (Inl e, s')" and "bindP m f s = (Inl e, s')"
  | x s' where "m s = (Inr x, s')" and "bindP m f s = f x s'"
proof -
  obtain r s' where r: "m s = (r, s')" by (rule prod.exhaust)
  show thesis by (cases r) (use that r in \<open>auto simp: bindP_def\<close>)
qed

lemma bindP_step: "m s = (Inr x, s') \<Longrightarrow> bindP m f s = f x s'"
  and bindP_stop: "m s = (Inl e, s') \<Longrightarrow> bindP m f s = (Inl e, s')"
  by (simp_all add: bindP_def)

lemma run_simps:
  "bindP (reading h) f w = f (h (fst w)) w" "bindP (liftP (Inr x)) f s = f x s" "bindP (retP x) f s = f x s"
  "bindP (liftP (Inl e)) f s = (Inl e, s)" "retP x s = (Inr x, s)"
  by (simp_all add: bindP_def reading_def liftP_def retP_def)

lemma stmt_simps:
  "t D = Inr (x, D') \<Longrightarrow> stmt t (D, g) = (Inr x, (D', g))" "t D = Inl e \<Longrightarrow> stmt t (D, g) = (Inl e, (D, g))"
  by (simp_all add: stmt_def)

locale moving =
  fixes moves :: "'s \<Rightarrow> 's \<Rightarrow> bool"
  assumes moves_refl: "moves s s" and moves_trans: "moves s t \<Longrightarrow> moves t u \<Longrightarrow> moves s u"
begin

lemma ensures_seq:
  assumes m: "ensures P moves R m" and f: "\<And>x. ensures R moves Q (f x)" and out: "\<And>s. R s \<Longrightarrow> Q s"
  shows "ensures P moves Q (bindP m f)"
  unfolding ensures_def
proof (rule allI, rule impI)
  fix s assume p: "P s"
  have mp: "R (snd (m s))" "moves s (snd (m s))" using m p unfolding ensures_def by blast+
  show "Q (snd (bindP m f s)) \<and> moves s (snd (bindP m f s))"
  proof (cases rule: bindP_cases [of m s f])
    case (1 e s')
    with mp out show ?thesis by simp
  next
    case (2 x s')
    with mp have s': "R s'" "moves s s'" by simp_all
    with f [of x] have "Q (snd (f x s'))" "moves s' (snd (f x s'))" unfolding ensures_def by blast+
    with 2 s' show ?thesis by (auto intro: moves_trans)
  qed
qed

lemmas ensures_bind = ensures_seq [where R = P and P = P for P]

lemma ensures_pure:
  assumes "\<And>s. P s \<Longrightarrow> Q s"
  shows "ensures P moves Q (retP x)" and "ensures P moves Q (liftP r)" and "ensures P moves Q (\<lambda>s. (h s, s))"
  using assms by (auto simp: ensures_def retP_def liftP_def moves_refl)

end

section \<open>Tables\<close>

datatype sync_state = SyncActive | SyncDegraded | SyncDisconnected

datatype sealed = Sealed (sealed_text: js_text) (sealed_key: js_text)

record gcal_row =
  ig_account_id :: uuid
  ig_access_token_enc :: "sealed option"
  ig_refresh_token_enc :: "sealed option"
  ig_scope :: "js_text option"
  ig_token_expires_at :: "micros option"
  ig_read_calendar_ids :: "js_text list"
  ig_write_calendar_id :: "js_text option"
  ig_sync_state :: sync_state
  ig_epoch :: uuid
  ig_last_pulled_at :: "micros option"
  ig_last_push_at :: "micros option"
  ig_last_reconnected_at :: "micros option"
  ig_last_error :: "js_text option"
  ig_channel_id :: "js_text option"
  ig_channel_resource_id :: "js_text option"
  ig_channel_expires_at :: "micros option"
  ig_channel_token :: "js_text option"
  ig_channel_token_enc :: "sealed option"
  ig_last_seen_message_number :: "int option"
  ig_next_sync_token :: "js_text option"
  ig_created_at :: micros
  ig_updated_at :: micros

text \<open>The columns of \<open>lesson_slots\<close> that belong to the calendar sync.\<close>

record binding =
  bd_event_id :: "js_text option"
  bd_calendar_id :: "js_text option"
  bd_etag :: "js_text option"
  bd_epoch :: "js_text option"
  bd_sync_failed_at :: "micros option"
  bd_reconciled_at :: "micros option"
  bd_cancel_repush_count :: int
  bd_conflict_kind :: "string option"
  bd_conflict_calendar_id :: "js_text option"
  bd_conflict_event_id :: "js_text option"

definition no_binding :: binding where
  "no_binding = \<lparr>bd_event_id = None, bd_calendar_id = None, bd_etag = None, bd_epoch = None, bd_sync_failed_at = None,
     bd_reconciled_at = None, bd_cancel_repush_count = 0, bd_conflict_kind = None,
     bd_conflict_calendar_id = None, bd_conflict_event_id = None\<rparr>"

datatype job_kind = JobCreate | JobUpdate | JobDelete

datatype job_status = JobPending | JobInProgress | JobSucceeded | JobTerminalFailure | JobCancelledByDependent

text \<open>
  The fields of a payload that are read; every writer stores texts there. The text of \<open>last_error\<close> is kept as the
  parts it is printed from.
\<close>

record job_payload =
  pl_write_calendar_id :: "js_text option"
  pl_lc_epoch :: "js_text option"
  pl_summary :: "js_text option"

datatype token_refusal = TkIntegrationMissing | TkDisconnected | TkNoRefreshToken | TkConfigMissing | TkTransient | TkPermanent

datatype push_error = PeHttp int js_text | PeShape js_text | PeNetwork js_text | PeOwnership js_text "json option"

datatype pull_error = PuHttp int js_text | PuShape js_text | PuNetwork js_text | PuSyncTokenExpired

datatype run_pull_error =
    RpIntegrationMissing | RpIntegrationDisconnected "token_refusal option" | RpAccessTokenMissing | RpAccessTokenExpired
  | RpEncryptionKeyMissing | RpInvalidAccount | RpPull pull_error

datatype pull_reason = ReasonTokenRefused token_refusal | ReasonPull run_pull_error

datatype job_reason = ReasonText string | ReasonPush push_error | ReasonToken token_refusal

record push_job =
  pj_id :: uuid
  pj_slot_id :: uuid
  pj_teacher_account_id :: uuid
  pj_kind :: job_kind
  pj_payload :: job_payload
  pj_status :: job_status
  pj_attempts :: int
  pj_next_run_at :: micros
  pj_last_attempt_at :: "micros option"
  pj_last_error :: "job_reason option"
  pj_created_at :: micros

datatype intent_kind = PostCancelPush | PostMovePush | PostBookPush

datatype intent_reason = IrText string | IrBeyondAttempts int | IrNotCancelled slot_status

datatype intent_status = IntentPending | IntentInProgress | IntentSucceeded | IntentBlocked | IntentTerminal

record intent_row =
  in_id :: uuid
  in_slot_id :: uuid
  in_kind :: intent_kind
  in_status :: intent_status
  in_attempts :: int
  in_next_run_at :: micros
  in_last_run_at :: "micros option"
  in_last_error :: "intent_reason option"
  in_created_at :: micros

record profile_row =
  pf_account_id :: uuid
  pf_timezone :: "string option"

record busy_interval =
  bi_teacher_account_id :: uuid
  bi_calendar_id :: js_text
  bi_event_id :: js_text
  bi_start_at :: micros
  bi_end_at :: micros
  bi_summary_encrypted :: "sealed option"
  bi_is_all_day :: bool
  bi_is_writable_in_source :: bool
  bi_is_own_event :: bool
  bi_is_orphan_self :: bool
  bi_etag :: "js_text option"
  bi_fetched_at :: micros

record pull_job =
  ql_id :: uuid
  ql_teacher_account_id :: uuid
  ql_calendar_id :: js_text
  ql_priority :: int
  ql_status :: job_status
  ql_attempts :: int
  ql_next_run_at :: micros
  ql_last_attempt_at :: "micros option"
  ql_last_error :: "pull_reason option"
  ql_created_at :: micros

record cal_db =
  cd_db :: db
  cd_bindings :: "uuid \<Rightarrow> binding"
  cd_integrations :: "gcal_row list"
  cd_busy :: "busy_interval list"
  cd_pull_jobs :: "pull_job list"
  cd_push_jobs :: "push_job list"
  cd_intents :: "intent_row list"
  cd_profiles :: "profile_row list"

definition empty_cal :: cal_db where
  "empty_cal = \<lparr>cd_db = empty_db, cd_bindings = (\<lambda>_. no_binding), cd_integrations = [], cd_busy = [], cd_pull_jobs = [],
     cd_push_jobs = [], cd_intents = [], cd_profiles = []\<rparr>"

text \<open>What booking sees of the integrations and of the busy intervals.\<close>

definition sync_state_text :: "sync_state \<Rightarrow> string" where
  "sync_state_text s = (case s of SyncActive \<Rightarrow> ''active'' | SyncDegraded \<Rightarrow> ''degraded'' | SyncDisconnected \<Rightarrow> ''disconnected'')"

definition integration_view :: "gcal_row \<Rightarrow> integration_row" where
  "integration_view r = \<lparr>ci_account_id = ig_account_id r, ci_sync_state = sync_state_text (ig_sync_state r),
     ci_last_pulled_at = ig_last_pulled_at r\<rparr>"

definition busy_view :: "busy_interval \<Rightarrow> busy_row" where
  "busy_view b = \<lparr>eb_teacher_account_id = bi_teacher_account_id b, eb_start_at = bi_start_at b, eb_end_at = bi_end_at b,
     eb_is_own_event = bi_is_own_event b\<rparr>"

definition slots_view :: "cal_db \<Rightarrow> db" where
  "slots_view D = (cd_db D)\<lparr>teacher_calendar_integrations := map integration_view (cd_integrations D),
     teacher_external_busy_intervals := map busy_view (cd_busy D)\<rparr>"

section \<open>Encryption\<close>

text \<open>
  The environment of the process; the OAuth configuration is what its resolver returned or threw. \<open>ce_iso\<close> and
  \<open>ce_date_ms\<close> print and read dates, \<open>ce_text_le\<close> is the collation of the database.
\<close>

record oauth_config =
  oc_clientId :: js_text
  oc_clientSecret :: js_text

record cal_env =
  ce_production :: bool
  ce_key :: js_text
  ce_key_old :: js_text
  ce_oauth :: "exn + oauth_config option"
  ce_iso :: "millis \<Rightarrow> js_text"
  ce_rt :: js_runtime
  ce_date_ms :: "json option \<Rightarrow> millis option"
  ce_text_le :: "js_text \<Rightarrow> js_text \<Rightarrow> bool"

definition MIN_KEY_LENGTH :: nat where "MIN_KEY_LENGTH = 32"

definition readAndValidate :: "js_text \<Rightarrow> exn + js_text" where
  "readAndValidate raw = (if length raw < MIN_KEY_LENGTH then Inl (JsError ''encryption key too short'') else Inr raw)"

definition getCalendarEncryptionKey :: "cal_env \<Rightarrow> exn + js_text option" where
  "getCalendarEncryptionKey e =
     (let raw = js_trim (ce_key e) in
      if length raw = 0
      then (if ce_production e then Inl (JsError ''CALENDAR_ENCRYPTION_KEY is required in production'') else Inr None)
      else bindR (readAndValidate raw) (\<lambda>k. Inr (Some k)))"

definition getCalendarEncryptionKeyOld :: "cal_env \<Rightarrow> exn + js_text option" where
  "getCalendarEncryptionKeyOld e =
     (let raw = js_trim (ce_key_old e) in
      if length raw = 0 then Inr None else bindR (readAndValidate raw) (\<lambda>k. Inr (Some k)))"

definition pgp_sym_decrypt :: "sealed \<Rightarrow> js_text \<Rightarrow> js_text option" where
  "pgp_sym_decrypt e k = (if sealed_key e = k then Some (sealed_text e) else None)"

definition pgp_sym_decrypt_either :: "sealed \<Rightarrow> js_text option \<Rightarrow> js_text option \<Rightarrow> js_text option" where
  "pgp_sym_decrypt_either e primary old =
     (let try = (\<lambda>k. case k of None \<Rightarrow> None | Some t \<Rightarrow> if t = [] then None else pgp_sym_decrypt e t) in
      case try primary of Some t \<Rightarrow> Some t | None \<Rightarrow> try old)"

section \<open>Integrations\<close>

record google_integration =
  gi_accountId :: uuid
  gi_syncState :: sync_state
  gi_epoch :: uuid
  gi_scope :: "js_text option"
  gi_tokenExpiresAt :: "millis option"
  gi_readCalendarIds :: "js_text list"
  gi_writeCalendarId :: "js_text option"
  gi_lastPulledAt :: "millis option"
  gi_lastPushAt :: "millis option"
  gi_lastReconnectedAt :: "millis option"
  gi_lastError :: "js_text option"
  gi_channelId :: "js_text option"
  gi_channelResourceId :: "js_text option"
  gi_channelExpiresAt :: "millis option"
  gi_channelToken :: "js_text option"
  gi_lastSeenMessageNumber :: "int option"
  gi_nextSyncToken :: "js_text option"
  gi_createdAt :: millis
  gi_updatedAt :: millis
  gi_accessToken :: "js_text option"
  gi_refreshToken :: "js_text option"

text \<open>\<open>rowToRecord\<close>, with the two tokens beside it.\<close>

definition rowToRecord :: "gcal_row \<Rightarrow> js_text option \<Rightarrow> js_text option \<Rightarrow> google_integration" where
  "rowToRecord r access refresh =
     \<lparr>gi_accountId = ig_account_id r, gi_syncState = ig_sync_state r, gi_epoch = ig_epoch r, gi_scope = ig_scope r,
      gi_tokenExpiresAt = map_option js_date_via_string (ig_token_expires_at r),
      gi_readCalendarIds = ig_read_calendar_ids r, gi_writeCalendarId = ig_write_calendar_id r,
      gi_lastPulledAt = map_option js_date_via_string (ig_last_pulled_at r),
      gi_lastPushAt = map_option js_date_via_string (ig_last_push_at r),
      gi_lastReconnectedAt = map_option js_date_via_string (ig_last_reconnected_at r),
      gi_lastError = ig_last_error r, gi_channelId = ig_channel_id r, gi_channelResourceId = ig_channel_resource_id r,
      gi_channelExpiresAt = map_option js_date_via_string (ig_channel_expires_at r), gi_channelToken = ig_channel_token r,
      gi_lastSeenMessageNumber = ig_last_seen_message_number r, gi_nextSyncToken = ig_next_sync_token r,
      gi_createdAt = js_date_via_string (ig_created_at r), gi_updatedAt = js_date_via_string (ig_updated_at r),
      gi_accessToken = access, gi_refreshToken = refresh\<rparr>"

definition integration_of :: "cal_db \<Rightarrow> uuid \<Rightarrow> gcal_row option" where
  "integration_of D i = find_by ig_account_id i (cd_integrations D)"

text \<open>\<open>getGoogleIntegration\<close>: a missing key reads every token as null.\<close>

definition getGoogleIntegration :: "cal_env \<Rightarrow> string \<Rightarrow> cal_db \<Rightarrow> exn + google_integration option" where
  "getGoogleIntegration e accountId D =
     (if \<not> uuid_pattern accountId then Inr None
      else bindR (getCalendarEncryptionKey e) (\<lambda>primary. bindR (getCalendarEncryptionKeyOld e) (\<lambda>old.
        let plain = (\<lambda>enc. case enc of None \<Rightarrow> None
              | Some x \<Rightarrow> if primary = None then None else pgp_sym_decrypt_either x primary old) in
        Inr (map_option (\<lambda>r. rowToRecord r (plain (ig_access_token_enc r)) (plain (ig_refresh_token_enc r)))
               (integration_of D (pg_uuid accountId))))))"

definition getGoogleIntegrationMeta :: "string \<Rightarrow> cal_db \<Rightarrow> google_integration option" where
  "getGoogleIntegrationMeta accountId D =
     (if \<not> uuid_pattern accountId then None
      else map_option (\<lambda>r. rowToRecord r None None) (integration_of D (pg_uuid accountId)))"

text \<open>The trigger of migration 0107, before every insert and update of an integration.\<close>

definition timezone_known :: "cal_db \<Rightarrow> uuid \<Rightarrow> bool" where
  "timezone_known D i \<longleftrightarrow> list_ex (\<lambda>p. pf_account_id p = i \<and> pf_timezone p \<noteq> None) (cd_profiles D)"

definition require_timezone :: "cal_db \<Rightarrow> gcal_row \<Rightarrow> bool" where
  "require_timezone D r \<longleftrightarrow> ig_sync_state r \<in> {SyncActive, SyncDegraded} \<longrightarrow> timezone_known D (ig_account_id r)"

text \<open>\<open>update teacher_calendar_integrations set \<dots> where account_id = i and P returning *\<close>, with its two triggers.\<close>

definition pg_update_integration ::
  "clock \<Rightarrow> uuid \<Rightarrow> (gcal_row \<Rightarrow> bool) \<Rightarrow> (gcal_row \<Rightarrow> gcal_row) \<Rightarrow> cal_db \<Rightarrow> exn + (gcal_row option \<times> cal_db)" where
  "pg_update_integration c i P f D =
     (case integration_of D i of
        None \<Rightarrow> Inr (None, D)
      | Some r \<Rightarrow>
          if \<not> P r then Inr (None, D)
          else
            let r' = (f r)\<lparr>ig_updated_at := pg_now c\<rparr> in
            if \<not> require_timezone D r' then Inl (PgErr CheckViolation)
            else Inr (Some r', D\<lparr>cd_integrations := replace_row ig_account_id r' (cd_integrations D)\<rparr>))"

datatype upsert_reason = InitialConnect | TokenRefresh

record upsert_input =
  ui_accountId :: string
  ui_accessToken :: js_text
  ui_refreshToken :: "js_text option"
  ui_scope :: js_text
  ui_tokenExpiresAt :: millis
  ui_readCalendarIds :: "js_text list"
  ui_writeCalendarId :: "js_text option"
  ui_reason :: upsert_reason

datatype upsert_error = EncryptionKeyMissing | InvalidAccountId

definition connected_row :: "clock \<Rightarrow> uuid \<Rightarrow> js_text \<Rightarrow> upsert_input \<Rightarrow> micros \<Rightarrow> gcal_row" where
  "connected_row c newEpoch key input created =
     \<lparr>ig_account_id = pg_uuid (ui_accountId input), ig_access_token_enc = Some (Sealed (ui_accessToken input) key),
      ig_refresh_token_enc = map_option (\<lambda>t. Sealed t key) (ui_refreshToken input), ig_scope = Some (ui_scope input),
      ig_token_expires_at = Some (ui_tokenExpiresAt input * us_per_ms), ig_read_calendar_ids = ui_readCalendarIds input,
      ig_write_calendar_id = ui_writeCalendarId input, ig_sync_state = SyncActive, ig_epoch = newEpoch,
      ig_last_pulled_at = None, ig_last_push_at = None, ig_last_reconnected_at = Some (pg_now c), ig_last_error = None,
      ig_channel_id = None, ig_channel_resource_id = None, ig_channel_expires_at = None, ig_channel_token = None,
      ig_channel_token_enc = None, ig_last_seen_message_number = None, ig_next_sync_token = None,
      ig_created_at = created, ig_updated_at = pg_now c\<rparr>"

definition upsertGoogleIntegration ::
  "clock \<Rightarrow> cal_env \<Rightarrow> uuid \<Rightarrow> upsert_input \<Rightarrow> cal_db \<Rightarrow> exn + ((upsert_error + google_integration) \<times> cal_db)" where
  "upsertGoogleIntegration c e newEpoch input D =
     (let i = pg_uuid (ui_accountId input) in
      if \<not> uuid_pattern (ui_accountId input) then Inr (Inl InvalidAccountId, D)
      else bindR (getCalendarEncryptionKey e) (\<lambda>ko. case ko of
        None \<Rightarrow> Inr (Inl EncryptionKeyMissing, D)
      | Some key \<Rightarrow>
          (case ui_reason input of
             InitialConnect \<Rightarrow>
               (case integration_of D i of
                  None \<Rightarrow>
                    let r = connected_row c newEpoch key input (pg_now c) in
                    if \<not> require_timezone D r then Inl (PgErr CheckViolation)
                    else if find_by ac_id i (accounts (cd_db D)) = None then Inl (PgErr ForeignKeyViolation)
                    else Inr (Inr (rowToRecord r None None), D\<lparr>cd_integrations := cd_integrations D @ [r]\<rparr>)
                | Some old \<Rightarrow>
                    bindR (pg_update_integration c i (\<lambda>_. True)
                             (\<lambda>_. connected_row c newEpoch key input (ig_created_at old)) D)
                      (\<lambda>(ro, D'). Inr (Inr (rowToRecord (the ro) None None), D')))
           | TokenRefresh \<Rightarrow>
               bindR (pg_update_integration c i (\<lambda>_. True)
                        (\<lambda>r. r\<lparr>ig_access_token_enc := Some (Sealed (ui_accessToken input) key),
                              ig_refresh_token_enc := coalesce_opt (map_option (\<lambda>t. Sealed t key) (ui_refreshToken input))
                                                        (ig_refresh_token_enc r),
                              ig_scope := Some (ui_scope input),
                              ig_token_expires_at := Some (ui_tokenExpiresAt input * us_per_ms)\<rparr>) D)
                 (\<lambda>(ro, D'). Inr (case ro of None \<Rightarrow> Inl InvalidAccountId | Some r \<Rightarrow> Inr (rowToRecord r None None), D')))))"

definition disconnected_row :: "gcal_row \<Rightarrow> gcal_row" where
  "disconnected_row r = r\<lparr>ig_sync_state := SyncDisconnected, ig_access_token_enc := None, ig_refresh_token_enc := None,
     ig_token_expires_at := None, ig_channel_id := None, ig_channel_resource_id := None, ig_channel_expires_at := None,
     ig_channel_token := None, ig_channel_token_enc := None, ig_last_seen_message_number := None\<rparr>"

definition disconnectGoogleIntegration :: "clock \<Rightarrow> string \<Rightarrow> cal_db \<Rightarrow> exn + (bool \<times> cal_db)" where
  "disconnectGoogleIntegration c accountId D =
     (if \<not> uuid_pattern accountId then Inr (False, D)
      else bindR (pg_update_integration c (pg_uuid accountId) (\<lambda>r. ig_sync_state r \<noteq> SyncDisconnected) disconnected_row D)
             (\<lambda>(ro, D'). Inr (ro \<noteq> None, D')))"

section \<open>The other side of the network\<close>

datatype http_verb = VerbGet | VerbPost | VerbPatch | VerbDelete

datatype net_url =
    TokenUrl | EventsUrl js_text | EventUrl js_text js_text
  | EventsListUrl js_text "(string \<times> js_text) list" "json option" | CalendarListUrl "json option"

datatype net_body = NoBody | JsonBody json | FormBody "(js_text \<times> js_text) list"

record net_request =
  nr_verb :: http_verb
  nr_url :: net_url
  nr_bearer :: "js_text option"
  nr_body :: net_body

text \<open>The body of an answer as \<open>text()\<close> gives it (\<open>None\<close> where it fails) and as \<open>json()\<close> does.\<close>

record net_response =
  na_status :: int
  na_text :: "js_text option"
  na_json :: "js_text + json"

datatype net_answer = NetFailed js_text | NetAnswered net_response

type_synonym 'g world = "cal_db \<times> 'g"
type_synonym 'g network = "net_request \<Rightarrow> 'g world \<Rightarrow> net_answer \<times> 'g world"

definition fetchP :: "'g network \<Rightarrow> net_request \<Rightarrow> ('g world, net_answer) prog" where
  "fetchP net q w = (let (a, w') = net q w in (Inr a, w'))"

lemmas [prog_defs] = fetchP_def

definition response_ok :: "net_response \<Rightarrow> bool" where
  "response_ok r \<longleftrightarrow> 200 \<le> na_status r \<and> na_status r \<le> 299"

definition readBody :: "net_response \<Rightarrow> js_text" where
  "readBody r = coalesce (na_text r) []"

text \<open>\<open>typeof v === 'object' && v !== null\<close>.\<close>

definition json_is_object :: "json \<Rightarrow> bool" where
  "json_is_object v = (case v of JArr _ \<Rightarrow> True | JObj _ \<Rightarrow> True | _ \<Rightarrow> False)"

definition json_text :: "json option \<Rightarrow> js_text option" where
  "json_text v = (case v of Some (JStr t) \<Rightarrow> Some t | _ \<Rightarrow> None)"

definition nonempty :: "js_text option \<Rightarrow> js_text option" where
  "nonempty t = (case t of Some [] \<Rightarrow> None | _ \<Rightarrow> t)"

section \<open>Fresh tokens\<close>

datatype oauth_error = OaHttp int js_text | OaShape js_text | OaNetwork js_text

record token_response =
  tk_accessToken :: js_text
  tk_refreshToken :: "js_text option"
  tk_expiresIn :: js_float
  tk_scope :: js_text
  tk_tokenType :: js_text

definition shapeTokenResponse :: "json \<Rightarrow> js_text + token_response" where
  "shapeTokenResponse v =
     (if \<not> json_is_object v then Inl (js ''Google token response must be a JSON object'')
      else case nonempty (json_text (json_field v ''access_token'')) of
        None \<Rightarrow> Inl (js ''Google token response missing access_token'')
      | Some a \<Rightarrow>
          let shaped = (\<lambda>x. Inr \<lparr>tk_accessToken = a, tk_refreshToken = nonempty (json_text (json_field v ''refresh_token'')),
                  tk_expiresIn = x, tk_scope = coalesce (json_text (json_field v ''scope'')) [],
                  tk_tokenType = coalesce (json_text (json_field v ''token_type'')) (js ''Bearer'')\<rparr>);
              missing = Inl (js ''Google token response missing valid expires_in'') in
          (case json_field v ''expires_in'' of
             Some (JNum (Finite q)) \<Rightarrow> if q \<le> 0 then missing else shaped (Finite q)
           | Some (JNum NegInfinity) \<Rightarrow> missing
           | Some (JNum x) \<Rightarrow> shaped x
           | _ \<Rightarrow> missing))"

definition postToken :: "(js_text \<times> js_text) list \<Rightarrow> 'g network \<Rightarrow> ('g world, oauth_error + token_response) prog" where
  "postToken form net =
     bindP (fetchP net \<lparr>nr_verb = VerbPost, nr_url = TokenUrl, nr_bearer = None, nr_body = FormBody form\<rparr>) (\<lambda>a. retP (case a of
       NetFailed m \<Rightarrow> Inl (OaNetwork m)
     | NetAnswered r \<Rightarrow>
         if \<not> response_ok r then Inl (OaHttp (na_status r) (readBody r))
         else case na_json r of
           Inl m \<Rightarrow> Inl (OaShape (js ''failed to parse Google token JSON: '' @ m))
         | Inr v \<Rightarrow> (case shapeTokenResponse v of Inl m \<Rightarrow> Inl (OaShape m) | Inr t \<Rightarrow> Inr t)))"

definition refreshAccessToken :: "oauth_config \<Rightarrow> js_text \<Rightarrow> 'g network \<Rightarrow> ('g world, oauth_error + token_response) prog" where
  "refreshAccessToken cf refreshToken =
     postToken [(js ''refresh_token'', refreshToken), (js ''client_id'', oc_clientId cf),
                (js ''client_secret'', oc_clientSecret cf), (js ''grant_type'', js ''refresh_token'')]"

definition REFRESH_SKEW_MS :: int where "REFRESH_SKEW_MS = 60000"

text \<open>\<open>new Date(nowMs + seconds * 1000).toISOString()\<close>, which throws outside the range of dates.\<close>

definition expiry_date :: "millis \<Rightarrow> js_float \<Rightarrow> exn + millis" where
  "expiry_date nowMs x =
     (let failed = Inl (JsError ''Invalid time value'') in
      case x of
        Finite q \<Rightarrow> (let t = of_int nowMs + q * 1000 in
                     if t > 8640000000000000 \<or> t < - 8640000000000000 then failed
                     else Inr (if t \<ge> 0 then \<lfloor>t\<rfloor> else \<lceil>t\<rceil>))
      | _ \<Rightarrow> failed)"

datatype fresh_token = Fresh (fresh_token: js_text) google_integration bool | NotFresh token_refusal

text \<open>\<open>ensureFreshAccessToken\<close>; the text of the detail is left out.\<close>

definition persist_tokens ::
  "clock \<Rightarrow> cal_env \<Rightarrow> string \<Rightarrow> google_integration \<Rightarrow> token_response \<Rightarrow> ('g world, fresh_token) prog" where
  "persist_tokens c e accountId ig tokens =
     bindP (liftP (expiry_date (js_now c) (tk_expiresIn tokens))) (\<lambda>expires.
     bindP (stmt (upsertGoogleIntegration c e []
              \<lparr>ui_accountId = accountId, ui_accessToken = tk_accessToken tokens, ui_refreshToken = tk_refreshToken tokens,
               ui_scope = (if tk_scope tokens \<noteq> [] then tk_scope tokens else coalesce (gi_scope ig) []),
               ui_tokenExpiresAt = expires, ui_readCalendarIds = gi_readCalendarIds ig,
               ui_writeCalendarId = gi_writeCalendarId ig, ui_reason = TokenRefresh\<rparr>)) (\<lambda>up. case up of
       Inl _ \<Rightarrow> retP (NotFresh TkTransient)
     | Inr _ \<Rightarrow>
         bindP (\<lambda>w. (getGoogleIntegration e accountId (fst w), w)) (\<lambda>ro. retP (case ro of
           None \<Rightarrow> NotFresh TkTransient
         | Some ig' \<Rightarrow> (case nonempty (gi_accessToken ig') of
                            None \<Rightarrow> NotFresh TkTransient
                          | Some t \<Rightarrow> Fresh t ig' True)))))"

definition ensureFreshAccessToken ::
  "clock \<Rightarrow> cal_env \<Rightarrow> 'g network \<Rightarrow> string \<Rightarrow> bool \<Rightarrow> ('g world, fresh_token) prog" where
  "ensureFreshAccessToken c e net accountId forceRefresh =
     bindP (\<lambda>w. (getGoogleIntegration e accountId (fst w), w)) (\<lambda>io. case io of
       None \<Rightarrow> retP (NotFresh TkIntegrationMissing)
     | Some ig \<Rightarrow>
         if gi_syncState ig = SyncDisconnected then retP (NotFresh TkDisconnected)
         else
           let current = (if forceRefresh then None
                 else case (nonempty (gi_accessToken ig), gi_tokenExpiresAt ig) of
                   (Some t, Some x) \<Rightarrow> if x > js_now c + REFRESH_SKEW_MS then Some t else None
                 | _ \<Rightarrow> None) in
           case current of
             Some t \<Rightarrow> retP (Fresh t ig False)
           | None \<Rightarrow>
               (case nonempty (gi_refreshToken ig) of
                  None \<Rightarrow> retP (NotFresh TkNoRefreshToken)
                | Some refreshToken \<Rightarrow>
                    (case ce_oauth e of
                       Inl _ \<Rightarrow> retP (NotFresh TkConfigMissing)
                     | Inr None \<Rightarrow> retP (NotFresh TkConfigMissing)
                     | Inr (Some cf) \<Rightarrow>
                         bindP (refreshAccessToken cf refreshToken net) (\<lambda>refresh. case refresh of
                           Inl (OaHttp status _) \<Rightarrow>
                             if status \<in> {400, 401, 403}
                             then bindP (ignore_failure (stmt (disconnectGoogleIntegration c accountId)))
                                    (\<lambda>_. retP (NotFresh TkPermanent))
                             else retP (NotFresh TkTransient)
                         | Inl _ \<Rightarrow> retP (NotFresh TkTransient)
                         | Inr tokens \<Rightarrow> persist_tokens c e accountId ig tokens))))"

section \<open>Calls that are repeated with a fresh token\<close>

datatype 'b call_raw = RawToken token_refusal | RawCall 'b

datatype ('a, 'b) call_result = CallOk 'a | CallFailed (auth401: bool) "'b call_raw"

definition refused_401 :: "('a, 'b) call_result \<Rightarrow> bool" where
  "refused_401 r = (case r of CallOk _ \<Rightarrow> False | CallFailed a _ \<Rightarrow> a)"

type_synonym ('g, 'a, 'b) token_exec = "js_text \<Rightarrow> google_integration \<Rightarrow> ('g world, ('a, 'b) call_result) prog"

definition retry_with_token ::
  "(('a, 'b) call_result \<Rightarrow> ('g world, ('a, 'b) call_result) prog) \<Rightarrow> clock \<Rightarrow> cal_env \<Rightarrow> 'g network \<Rightarrow> string \<Rightarrow>
   ('g, 'a, 'b) token_exec \<Rightarrow> ('g world, ('a, 'b) call_result) prog" where
  "retry_with_token after c e net accountId exec =
     bindP (ensureFreshAccessToken c e net accountId False) (\<lambda>first. case first of
       NotFresh r \<Rightarrow> retP (CallFailed False (RawToken r))
     | Fresh t ig _ \<Rightarrow>
         bindP (exec t ig) (\<lambda>result.
           if \<not> refused_401 result then retP result
           else bindP (ensureFreshAccessToken c e net accountId True) (\<lambda>second. case second of
               NotFresh r \<Rightarrow> retP (CallFailed False (RawToken r))
             | Fresh t2 ig2 _ \<Rightarrow> bindP (exec t2 ig2) after)))"

definition withTokenRetry ::
  "clock \<Rightarrow> cal_env \<Rightarrow> 'g network \<Rightarrow> string \<Rightarrow> ('g, 'a, 'b) token_exec \<Rightarrow> ('g world, ('a, 'b) call_result) prog" where
  "withTokenRetry c e net accountId =
     retry_with_token (\<lambda>result. if refused_401 result
       then bindP (ignore_failure (stmt (disconnectGoogleIntegration c accountId))) (\<lambda>_. retP result)
       else retP result) c e net accountId"

text \<open>Without the disconnection after the second refusal.\<close>

definition tryRefreshOnce ::
  "clock \<Rightarrow> cal_env \<Rightarrow> 'g network \<Rightarrow> string \<Rightarrow> ('g, 'a, 'b) token_exec \<Rightarrow> ('g world, ('a, 'b) call_result) prog" where
  "tryRefreshOnce c e net accountId = retry_with_token retP c e net accountId"

section \<open>What fresh tokens leave alone\<close>

text \<open>Only the integrations change.\<close>

definition only_integrations :: "cal_db \<Rightarrow> cal_db \<Rightarrow> bool" where
  "only_integrations D D' \<longleftrightarrow> D' = D\<lparr>cd_integrations := cd_integrations D'\<rparr>"

lemma only_integrations_same:
  assumes "only_integrations D D'"
  shows "cd_db D' = cd_db D" and "cd_bindings D' = cd_bindings D" and "cd_push_jobs D' = cd_push_jobs D"
    and "cd_intents D' = cd_intents D" and "cd_profiles D' = cd_profiles D"
    and "cd_busy D' = cd_busy D" and "cd_pull_jobs D' = cd_pull_jobs D"
  by (subst assms [unfolded only_integrations_def], simp)+

lemma pg_update_integration_frame: "pg_update_integration c i P f D = Inr (ro, D') \<Longrightarrow> only_integrations D D'"
  by (auto simp: pg_update_integration_def only_integrations_def Let_def split: option.splits if_splits)

lemma disconnect_frame: "disconnectGoogleIntegration c i D = Inr (b, D') \<Longrightarrow> only_integrations D D'"
  unfolding disconnectGoogleIntegration_def
  by (auto simp: bindR_eq_Inr_iff dest: pg_update_integration_frame split: if_splits) (simp add: only_integrations_def)

lemma upsert_frame:
  assumes "upsertGoogleIntegration c e newEpoch input D = Inr (r, D')"
  shows "only_integrations D D'"
proof -
  have same: "only_integrations E E" and new: "only_integrations E (E\<lparr>cd_integrations := x\<rparr>)" for E x
    by (simp_all add: only_integrations_def)
  show ?thesis
  proof (cases "uuid_pattern (ui_accountId input)")
    case False
    then show ?thesis using assms same by (simp add: upsertGoogleIntegration_def)
  next
    case True
    obtain ko where k: "getCalendarEncryptionKey e = Inr ko"
      using assms True by (cases "getCalendarEncryptionKey e") (auto simp: upsertGoogleIntegration_def)
    show ?thesis
    proof (cases ko)
      case None
      then show ?thesis using assms True k same by (simp add: upsertGoogleIntegration_def)
    next
      case (Some key)
      show ?thesis
      proof (cases "ui_reason input")
        case InitialConnect
        show ?thesis
        proof (cases "integration_of D (pg_uuid (ui_accountId input))")
          case None
          then show ?thesis using assms True k Some InitialConnect new
            by (auto simp: upsertGoogleIntegration_def Let_def split: if_splits)
        next
          case (Some old)
          then show ?thesis using assms True k \<open>ko = Some key\<close> InitialConnect
            by (auto simp: upsertGoogleIntegration_def Let_def bindR_eq_Inr_iff dest: pg_update_integration_frame)
        qed
      next
        case TokenRefresh
        then show ?thesis using assms True k Some
          by (auto simp: upsertGoogleIntegration_def Let_def bindR_eq_Inr_iff dest: pg_update_integration_frame)
      qed
    qed
  qed
qed

lemma ensures_token:
  fixes moves :: "'g world \<Rightarrow> 'g world \<Rightarrow> bool"
  assumes m: "moving moves" and fetch: "\<And>q. ensures P moves P (fetchP net q)"
    and frame: "\<And>D D' g. P (D, g) \<Longrightarrow> only_integrations D D' \<Longrightarrow> P (D', g) \<and> moves (D, g) (D', g)"
  shows "ensures P moves P (ensureFreshAccessToken c e net acc b)"
    and "(\<And>t ig. ensures P moves P (exec t ig)) \<Longrightarrow> ensures P moves P (withTokenRetry c e net acc exec)"
proof -
  note bind = moving.ensures_bind [OF m, where P = P and Q = P]
  note pure = moving.ensures_pure [OF m, where P = P and Q = P]
  have stmt: "ensures P moves P (stmt t)" if "\<And>D x D'. t D = Inr (x, D') \<Longrightarrow> only_integrations D D'" for t :: "cal_db \<Rightarrow> exn + ('x \<times> cal_db)"
    unfolding ensures_def
  proof (intro allI impI)
    fix w :: "'g world" assume p: "P w"
    obtain D g where w: "w = (D, g)" by (rule prod.exhaust)
    show "P (snd (stmt t w)) \<and> moves w (snd (stmt t w))"
      using p frame [of D g] that [of D] moving.moves_refl [OF m, of w]
      by (auto simp: stmt_def w split: sum.splits)
  qed
  have ignore: "ensures P moves P (ignore_failure x)" if "ensures P moves P x" for x :: "('g world, 'y) prog"
    using that by (simp add: ensures_def ignore_failure_def)
  have disc: "ensures P moves P (ignore_failure (stmt (disconnectGoogleIntegration c acc)))"
    by (intro ignore stmt) (rule disconnect_frame)
  show fresh: "ensures P moves P (ensureFreshAccessToken c e net acc b)" for b
    unfolding ensureFreshAccessToken_def refreshAccessToken_def postToken_def persist_tokens_def Let_def
    by (auto intro!: bind pure fetch disc stmt upsert_frame split: option.split sum.split oauth_error.split)
  show "ensures P moves P (withTokenRetry c e net acc exec)" if "\<And>t ig. ensures P moves P (exec t ig)"
    unfolding withTokenRetry_def retry_with_token_def
    by (auto intro!: bind pure fresh disc that split: fresh_token.split)
qed

end
