(* ===== verification/Calendar_Push.thy ===== *)
theory Calendar_Push
  imports Calendar_State
begin

text \<open>
  Pushing lessons into the teacher's calendar: the calls of \<open>src/lib/calendar/google/push.ts\<close> and the worker of
  \<open>src/lib/calendar/push-worker.ts\<close> over \<open>calendar_push_jobs\<close>.
\<close>

section \<open>Calls\<close>

record google_event =
  ge_id :: js_text
  ge_etag :: js_text
  ge_iCalUID :: "js_text option"
  ge_extendedProperties :: "json option"

record push_input =
  pn_startAt :: "js_text option"
  pn_endAt :: "js_text option"
  pn_summary :: "js_text option"
  pn_description :: "js_text option"
  pn_ownership :: "(js_text \<times> js_text \<times> js_text) option"

definition ownership_fields :: "js_text \<times> js_text \<times> js_text \<Rightarrow> json" where
  "ownership_fields s = (case s of (origin, slotId, epoch) \<Rightarrow>
     JObj [(js ''shared'', JObj [(js ''lc_origin'', JStr origin), (js ''lc_slot_id'', JStr slotId), (js ''lc_epoch'', JStr epoch)]),
           (js ''private'', JObj [(js ''lc_slot_id'', JStr slotId)])])"

text \<open>The body of an insert or of a patch; a field that is undefined is not sent.\<close>

definition sent_fields :: "(string \<times> json option) list \<Rightarrow> (js_text \<times> json) list" where
  "sent_fields fs = map (\<lambda>(k, v). (js k, the v)) (filter (\<lambda>(k, v). v \<noteq> None) fs)"

definition date_field :: "js_text \<Rightarrow> json" where "date_field t = JObj [(js ''dateTime'', JStr t)]"

definition buildBody :: "uuid \<Rightarrow> push_input \<Rightarrow> exn + json" where
  "buildBody slotId input =
     bindR (deterministicEventId slotId) (\<lambda>i. Inr (JObj (sent_fields
       [(''id'', Some (JStr (js i))), (''summary'', map_option JStr (pn_summary input)),
        (''description'', map_option JStr (pn_description input)), (''start'', map_option date_field (pn_startAt input)),
        (''end'', map_option date_field (pn_endAt input)),
        (''extendedProperties'', map_option ownership_fields (pn_ownership input))])))"

definition patch_body :: "push_input \<Rightarrow> json" where
  "patch_body input = JObj (sent_fields
     [(''summary'', map_option JStr (pn_summary input)), (''description'', map_option JStr (pn_description input)),
      (''start'', map_option date_field (nonempty (pn_startAt input))), (''end'', map_option date_field (nonempty (pn_endAt input))),
      (''extendedProperties'', map_option ownership_fields (pn_ownership input))])"

definition parseEventResponse :: "net_response \<Rightarrow> js_text + google_event" where
  "parseEventResponse r =
     (case na_json r of
        Inl m \<Rightarrow> Inl (js ''JSON parse failed: '' @ m)
      | Inr v \<Rightarrow>
          if \<not> json_is_object v then Inl (js ''event response not an object'')
          else case nonempty (json_text (json_field v ''id'')) of
            None \<Rightarrow> Inl (js ''event response missing id'')
          | Some i \<Rightarrow> Inr \<lparr>ge_id = i, ge_etag = coalesce (json_text (json_field v ''etag'')) [],
                ge_iCalUID = json_text (json_field v ''iCalUID''),
                ge_extendedProperties = (case json_field v ''extendedProperties'' of
                   Some x \<Rightarrow> if json_is_object x then Some x else None | None \<Rightarrow> None)\<rparr>)"

text \<open>\<open>extendedProperties?.shared?.lc_slot_id\<close>.\<close>

definition shared_stamp :: "json option \<Rightarrow> string \<Rightarrow> json option" where
  "shared_stamp ext k =
     (case ext of None \<Rightarrow> None | Some x \<Rightarrow>
        (case json_field x ''shared'' of None \<Rightarrow> None | Some s \<Rightarrow> json_field s k))"

type_synonym pushed = "push_error + (google_event \<times> bool)"

definition event_request :: "http_verb \<Rightarrow> net_url \<Rightarrow> js_text \<Rightarrow> net_body \<Rightarrow> net_request" where
  "event_request verb url token body = \<lparr>nr_verb = verb, nr_url = url, nr_bearer = Some token, nr_body = body\<rparr>"

definition getAndConfirmOwnership :: "'g network \<Rightarrow> js_text \<Rightarrow> js_text \<Rightarrow> js_text \<Rightarrow> uuid \<Rightarrow> ('g world, pushed) prog" where
  "getAndConfirmOwnership net token calendarId eventId expectedSlotId =
     bindP (fetchP net (event_request VerbGet (EventUrl calendarId eventId) token NoBody)) (\<lambda>a. retP (case a of
       NetFailed m \<Rightarrow> Inl (PeNetwork m)
     | NetAnswered r \<Rightarrow>
         if \<not> response_ok r then Inl (PeHttp (na_status r) (readBody r))
         else case parseEventResponse r of
           Inl m \<Rightarrow> Inl (PeShape m)
         | Inr event \<Rightarrow>
             let claimed = shared_stamp (ge_extendedProperties event) ''lc_slot_id'' in
             if claimed \<noteq> Some (JStr (js expectedSlotId)) then Inl (PeOwnership (ge_id event) claimed)
             else Inr (event, True)))"

definition insertEventIdempotent :: "'g network \<Rightarrow> js_text \<Rightarrow> js_text \<Rightarrow> uuid \<Rightarrow> push_input \<Rightarrow> ('g world, pushed) prog" where
  "insertEventIdempotent net token calendarId slotId input =
     bindP (liftP (deterministicEventId slotId)) (\<lambda>eventId.
     bindP (liftP (buildBody slotId input)) (\<lambda>body.
     bindP (fetchP net (event_request VerbPost (EventsUrl calendarId) token (JsonBody body))) (\<lambda>a. case a of
       NetFailed m \<Rightarrow> retP (Inl (PeNetwork m))
     | NetAnswered r \<Rightarrow>
         if response_ok r
         then retP (case parseEventResponse r of Inl m \<Rightarrow> Inl (PeShape m) | Inr event \<Rightarrow> Inr (event, False))
         else if na_status r = 409 then getAndConfirmOwnership net token calendarId (js eventId) slotId
         else retP (Inl (PeHttp (na_status r) (readBody r))))))"

definition patchEvent :: "'g network \<Rightarrow> js_text \<Rightarrow> js_text \<Rightarrow> js_text \<Rightarrow> push_input \<Rightarrow> ('g world, pushed) prog" where
  "patchEvent net token calendarId eventId input =
     bindP (fetchP net (event_request VerbPatch (EventUrl calendarId eventId) token (JsonBody (patch_body input)))) (\<lambda>a. retP (case a of
       NetFailed m \<Rightarrow> Inl (PeNetwork m)
     | NetAnswered r \<Rightarrow>
         if response_ok r
         then (case parseEventResponse r of Inl m \<Rightarrow> Inl (PeShape m) | Inr event \<Rightarrow> Inr (event, False))
         else Inl (PeHttp (na_status r) (readBody r))))"

definition deleteEvent :: "'g network \<Rightarrow> js_text \<Rightarrow> js_text \<Rightarrow> js_text \<Rightarrow> ('g world, push_error + int) prog" where
  "deleteEvent net token calendarId eventId =
     bindP (fetchP net (event_request VerbDelete (EventUrl calendarId eventId) token NoBody)) (\<lambda>a. retP (case a of
       NetFailed m \<Rightarrow> Inl (PeNetwork m)
     | NetAnswered r \<Rightarrow>
         if response_ok r \<or> na_status r = 404 \<or> na_status r = 410 then Inr (na_status r)
         else Inl (PeHttp (na_status r) (readBody r))))"

section \<open>Jobs\<close>

definition MAX_PUSH_ATTEMPTS :: int where "MAX_PUSH_ATTEMPTS = 5"

definition PUSH_BACKOFF_MS :: "int list" where "PUSH_BACKOFF_MS = [60000, 2 * 60000, 5 * 60000, 15 * 60000, 30 * 60000]"

datatype push_outcome =
    PushSucceeded uuid uuid
  | PushDependent uuid uuid
  | PushRetried uuid uuid job_reason millis
  | PushTerminal uuid uuid job_reason

text \<open>\<open>update calendar_push_jobs\<close> of one row; the partial unique index keeps one pending job of a kind for a lesson.\<close>

definition pending_twin :: "cal_db \<Rightarrow> uuid \<Rightarrow> uuid \<Rightarrow> job_kind \<Rightarrow> bool" where
  "pending_twin D i slotId k \<longleftrightarrow>
     list_ex (\<lambda>x. pj_id x \<noteq> i \<and> pj_slot_id x = slotId \<and> pj_kind x = k \<and> pj_status x = JobPending) (cd_push_jobs D)"

definition pg_update_job :: "uuid \<Rightarrow> (push_job \<Rightarrow> push_job) \<Rightarrow> cal_db \<Rightarrow> exn + (unit \<times> cal_db)" where
  "pg_update_job i f D =
     (case find_by pj_id i (cd_push_jobs D) of
        None \<Rightarrow> Inr ((), D)
      | Some j \<Rightarrow>
          if pj_status (f j) = JobPending \<and> pending_twin D i (pj_slot_id j) (pj_kind j) then Inl (PgErr UniqueViolation)
          else Inr ((), D\<lparr>cd_push_jobs := replace_row pj_id (f j) (cd_push_jobs D)\<rparr>))"

definition job_due :: "clock \<Rightarrow> push_job \<Rightarrow> bool" where
  "job_due c j \<longleftrightarrow> pj_status j = JobPending \<and> pj_next_run_at j \<le> pg_now c"

definition claimNextJob :: "clock \<Rightarrow> cal_db \<Rightarrow> exn + (push_job option \<times> cal_db)" where
  "claimNextJob c D =
     Inr (case min_by (\<lambda>x y. pj_created_at x < pj_created_at y) (filter (job_due c) (cd_push_jobs D)) of
        None \<Rightarrow> (None, D)
      | Some j \<Rightarrow>
          let j' = j\<lparr>pj_status := JobInProgress, pj_attempts := pj_attempts j + 1, pj_last_attempt_at := Some (pg_now c)\<rparr> in
          (Some j', D\<lparr>cd_push_jobs := replace_row pj_id j' (cd_push_jobs D)\<rparr>))"

text \<open>\<open>readSlot\<close>.\<close>

record push_slot =
  ps_slotId :: uuid
  ps_startAt :: millis
  ps_endAt :: millis
  ps_cancelled :: bool
  ps_eventId :: "js_text option"
  ps_calendarId :: "js_text option"

definition readSlot :: "uuid \<Rightarrow> cal_db \<Rightarrow> push_slot option" where
  "readSlot i D =
     map_option (\<lambda>r. \<lparr>ps_slotId = ls_id r, ps_startAt = js_date_via_string (ls_start_at r),
          ps_endAt = js_date_via_string (ls_start_at r + ls_duration_minutes r * us_per_minute),
          ps_cancelled = (ls_status r = Cancelled), ps_eventId = nonempty (bd_event_id (cd_bindings D (ls_id r))),
          ps_calendarId = nonempty (bd_calendar_id (cd_bindings D (ls_id r)))\<rparr>)
       (slot_by_id (cd_db D) i)"

definition text_includes :: "string \<Rightarrow> js_text \<Rightarrow> bool" where
  "text_includes s t \<longleftrightarrow> list_ex (\<lambda>n. take (length s) (drop n t) = js s) [0..<Suc (length t)]"

definition isQuotaBody :: "cal_env \<Rightarrow> js_text \<Rightarrow> bool" where
  "isQuotaBody e body \<longleftrightarrow>
     body \<noteq> [] \<and> (let lower = rt_lower (ce_rt e) body in
       text_includes ''ratelimitexceeded'' lower \<or> text_includes ''userratelimitexceeded'' lower \<or> text_includes ''quotaexceeded'' lower)"

definition isTransientPushError :: "cal_env \<Rightarrow> push_error \<Rightarrow> bool" where
  "isTransientPushError e err =
     (case err of
        PeHttp status body \<Rightarrow> status \<ge> 500 \<or> status = 429 \<or> (status = 403 \<and> isQuotaBody e body)
      | PeOwnership _ _ \<Rightarrow> False
      | PeNetwork _ \<Rightarrow> True
      | PeShape _ \<Rightarrow> True)"

definition markFailure :: "clock \<Rightarrow> push_job \<Rightarrow> job_reason \<Rightarrow> bool \<Rightarrow> ('g world, push_outcome) prog" where
  "markFailure c job reason transient =
     (if \<not> transient \<or> pj_attempts job \<ge> MAX_PUSH_ATTEMPTS
      then bindP (stmt (pg_update_job (pj_id job) (\<lambda>j. j\<lparr>pj_status := JobTerminalFailure, pj_last_error := Some reason\<rparr>)))
             (\<lambda>_. retP (PushTerminal (pj_id job) (pj_slot_id job) reason))
      else
        let idx = min (pj_attempts job - 1) (int (length PUSH_BACKOFF_MS) - 1);
            next = js_now c + PUSH_BACKOFF_MS ! nat idx in
        bindP (stmt (pg_update_job (pj_id job)
                 (\<lambda>j. j\<lparr>pj_status := JobPending, pj_next_run_at := next * us_per_ms, pj_last_error := Some reason\<rparr>)))
          (\<lambda>_. retP (PushRetried (pj_id job) (pj_slot_id job) reason next)))"

definition job_succeeded :: "push_job \<Rightarrow> push_job" where
  "job_succeeded j = j\<lparr>pj_status := JobSucceeded, pj_last_error := None\<rparr>"

definition markPushSucceeded :: "push_job \<Rightarrow> uuid \<Rightarrow> ('g world, push_outcome) prog" where
  "markPushSucceeded job slotId =
     bindP (stmt (pg_update_job (pj_id job) job_succeeded)) (\<lambda>_. retP (PushSucceeded (pj_id job) slotId))"

definition markPushDependent :: "push_job \<Rightarrow> ('g world, push_outcome) prog" where
  "markPushDependent job =
     bindP (stmt (pg_update_job (pj_id job) (\<lambda>j. j\<lparr>pj_status := JobCancelledByDependent\<rparr>)))
       (\<lambda>_. retP (PushDependent (pj_id job) (pj_slot_id job)))"

text \<open>The end that the three kinds share: what the wrapped call failed with decides about a retry.\<close>

definition call_failed :: "clock \<Rightarrow> cal_env \<Rightarrow> push_job \<Rightarrow> push_error call_raw \<Rightarrow> ('g world, push_outcome) prog" where
  "call_failed c e job raw =
     (case raw of
        RawCall err \<Rightarrow> markFailure c job (ReasonPush err) (isTransientPushError e err)
      | RawToken r \<Rightarrow> markFailure c job (ReasonToken r) (r = TkTransient))"

definition is_401 :: "push_error \<Rightarrow> bool" where
  "is_401 err = (case err of PeHttp status _ \<Rightarrow> status = 401 | _ \<Rightarrow> False)"

definition default_summary :: js_text where
  "default_summary = [76, 67, 58, 32, 1091, 1088, 1086, 1082]"

text \<open>
  \<open>update lesson_slots set \<dots>\<close> of the calendar columns (\<open>g\<close>) and of the others (\<open>f\<close>), with the pairing CHECK and the
  unique index of migration 0042 and what the schema attaches to every update of a lesson.
\<close>

definition binding_taken :: "cal_db \<Rightarrow> uuid \<Rightarrow> binding \<Rightarrow> bool" where
  "binding_taken D i b \<longleftrightarrow>
     bd_event_id b \<noteq> None \<and> bd_calendar_id b \<noteq> None
     \<and> list_ex (\<lambda>x. ls_id x \<noteq> i \<and> bd_event_id (cd_bindings D (ls_id x)) = bd_event_id b
                  \<and> bd_calendar_id (cd_bindings D (ls_id x)) = bd_calendar_id b) (lesson_slots (cd_db D))"

definition pg_update_binding ::
  "uuid \<Rightarrow> (slot_row \<Rightarrow> binding \<Rightarrow> bool) \<Rightarrow> (slot_row \<Rightarrow> slot_row) \<Rightarrow> (binding \<Rightarrow> binding) \<Rightarrow> cal_db \<Rightarrow> exn + (slot_row option \<times> cal_db)" where
  "pg_update_binding i P f g D =
     (case slot_by_id (cd_db D) i of
        None \<Rightarrow> Inr (None, D)
      | Some r \<Rightarrow>
          let b = g (cd_bindings D i) in
          if \<not> P r (cd_bindings D i) then Inr (None, D)
          else if (bd_event_id b = None) \<noteq> (bd_calendar_id b = None) then Inl (PgErr CheckViolation)
          else if binding_taken D i b then Inl (PgErr UniqueViolation)
          else bindR (pg_update_slot i (\<lambda>_. True) f (cd_db D))
                 (\<lambda>(ro, d'). Inr (ro, D\<lparr>cd_db := d', cd_bindings := (cd_bindings D)(i := b)\<rparr>)))"

definition bind_and_succeed :: "clock \<Rightarrow> push_job \<Rightarrow> push_slot \<Rightarrow> google_event \<Rightarrow> js_text \<Rightarrow> js_text \<Rightarrow> cal_db \<Rightarrow> exn + (unit \<times> cal_db)" where
  "bind_and_succeed c job slot event calendarId lcEpoch D =
     bindR (pg_update_binding (ps_slotId slot) (\<lambda>_ _. True) (\<lambda>r. r\<lparr>ls_updated_at := pg_now c\<rparr>)
              (\<lambda>b. b\<lparr>bd_event_id := Some (ge_id event), bd_calendar_id := Some calendarId, bd_etag := Some (ge_etag event),
                    bd_epoch := Some lcEpoch\<rparr>) D)
       (\<lambda>(_, D'). pg_update_job (pj_id job) job_succeeded D')"

definition processCreate :: "clock \<Rightarrow> cal_env \<Rightarrow> 'g network \<Rightarrow> push_job \<Rightarrow> ('g world, push_outcome) prog" where
  "processCreate c e net job =
     bindP (reading (readSlot (pj_slot_id job))) (\<lambda>so. case so of
       None \<Rightarrow> markFailure c job (ReasonText ''slot_missing'') False
     | Some slot \<Rightarrow>
         if ps_cancelled slot then markPushDependent job
         else case nonempty (pl_write_calendar_id (pj_payload job)) of
           None \<Rightarrow> markFailure c job (ReasonText ''payload_missing_write_calendar_id'') False
         | Some writeCalendar \<Rightarrow>
             bindP (withTokenRetry c e net (pj_teacher_account_id job) (\<lambda>token ig.
               let lcEpoch = coalesce (pl_lc_epoch (pj_payload job)) (js (gi_epoch ig)) in
               bindP (insertEventIdempotent net token writeCalendar (ps_slotId slot)
                        \<lparr>pn_startAt = Some (ce_iso e (ps_startAt slot)), pn_endAt = Some (ce_iso e (ps_endAt slot)),
                         pn_summary = Some (coalesce (pl_summary (pj_payload job)) default_summary), pn_description = None,
                         pn_ownership = Some (js ''levelchannel'', js (ps_slotId slot), lcEpoch)\<rparr>)
                 (\<lambda>r. retP (case r of Inr (event, _) \<Rightarrow> CallOk (event, lcEpoch) | Inl err \<Rightarrow> CallFailed (is_401 err) (RawCall err)))))
             (\<lambda>wrapped. case wrapped of
               CallFailed _ raw \<Rightarrow> call_failed c e job raw
             | CallOk (event, lcEpoch) \<Rightarrow>
                 bindP (stmt (bind_and_succeed c job slot event writeCalendar lcEpoch))
                   (\<lambda>_. retP (PushSucceeded (pj_id job) (ps_slotId slot)))))"

definition processUpdate :: "clock \<Rightarrow> cal_env \<Rightarrow> 'g network \<Rightarrow> push_job \<Rightarrow> ('g world, push_outcome) prog" where
  "processUpdate c e net job =
     bindP (reading (readSlot (pj_slot_id job))) (\<lambda>so. case so of
       None \<Rightarrow> markFailure c job (ReasonText ''slot_missing'') False
     | Some slot \<Rightarrow>
         (case (ps_eventId slot, ps_calendarId slot) of
            (Some eventId, Some calendarId) \<Rightarrow>
              if ps_cancelled slot then markPushDependent job
              else
                bindP (withTokenRetry c e net (pj_teacher_account_id job) (\<lambda>token ig.
                  bindP (patchEvent net token calendarId eventId
                           \<lparr>pn_startAt = Some (ce_iso e (ps_startAt slot)), pn_endAt = Some (ce_iso e (ps_endAt slot)),
                            pn_summary = pl_summary (pj_payload job), pn_description = None, pn_ownership = None\<rparr>)
                    (\<lambda>r. retP (case r of Inr _ \<Rightarrow> CallOk () | Inl err \<Rightarrow> CallFailed (is_401 err) (RawCall err)))))
                (\<lambda>wrapped. case wrapped of
                  CallFailed _ raw \<Rightarrow> call_failed c e job raw
                | CallOk _ \<Rightarrow> markPushSucceeded job (ps_slotId slot))
          | _ \<Rightarrow> markFailure c job (ReasonText ''no_external_event_id_bound'') False))"

definition unbind_and_succeed :: "clock \<Rightarrow> push_job \<Rightarrow> push_slot \<Rightarrow> cal_db \<Rightarrow> exn + (unit \<times> cal_db)" where
  "unbind_and_succeed c job slot D =
     bindR (pg_update_binding (ps_slotId slot) (\<lambda>_ b. ps_eventId slot \<noteq> None \<and> bd_event_id b = ps_eventId slot)
              (\<lambda>r. r\<lparr>ls_updated_at := pg_now c\<rparr>)
              (\<lambda>b. b\<lparr>bd_event_id := None, bd_calendar_id := None, bd_etag := None\<rparr>) D)
       (\<lambda>(_, D'). pg_update_job (pj_id job) job_succeeded D')"

definition processDelete :: "clock \<Rightarrow> cal_env \<Rightarrow> 'g network \<Rightarrow> push_job \<Rightarrow> ('g world, push_outcome) prog" where
  "processDelete c e net job =
     bindP (reading (readSlot (pj_slot_id job))) (\<lambda>so. case so of
       None \<Rightarrow> markPushSucceeded job (pj_slot_id job)
     | Some slot \<Rightarrow>
         bindP (liftP (case ps_eventId slot of Some i \<Rightarrow> Inr i | None \<Rightarrow> map_sum id js (deterministicEventId (ps_slotId slot))))
           (\<lambda>eventIdToDelete.
              let writeCalendar = nonempty (coalesce_opt (ps_calendarId slot) (pl_write_calendar_id (pj_payload job))) in
              case writeCalendar of
                None \<Rightarrow> markFailure c job (ReasonText ''payload_missing_write_calendar_id'') False
              | Some calendarId \<Rightarrow>
                  bindP (withTokenRetry c e net (pj_teacher_account_id job) (\<lambda>token ig.
                    bindP (deleteEvent net token calendarId eventIdToDelete)
                      (\<lambda>r. retP (case r of Inr _ \<Rightarrow> CallOk () | Inl err \<Rightarrow> CallFailed (is_401 err) (RawCall err)))))
                  (\<lambda>wrapped. case wrapped of
                    CallFailed _ raw \<Rightarrow> call_failed c e job raw
                  | CallOk _ \<Rightarrow>
                      bindP (stmt (unbind_and_succeed c job slot))
                        (\<lambda>_. retP (PushSucceeded (pj_id job) (ps_slotId slot))))))"

definition processJob :: "clock \<Rightarrow> cal_env \<Rightarrow> 'g network \<Rightarrow> push_job \<Rightarrow> ('g world, push_outcome) prog" where
  "processJob c e net job =
     (case pj_kind job of
        JobCreate \<Rightarrow> processCreate c e net job
      | JobUpdate \<Rightarrow> processUpdate c e net job
      | JobDelete \<Rightarrow> processDelete c e net job)"

fun drainPushJobs :: "clock \<Rightarrow> cal_env \<Rightarrow> 'g network \<Rightarrow> nat \<Rightarrow> ('g world, push_outcome list) prog" where
  "drainPushJobs c e net 0 = retP []"
| "drainPushJobs c e net (Suc n) =
     bindP (stmt (claimNextJob c)) (\<lambda>jo. case jo of
       None \<Rightarrow> retP []
     | Some job \<Rightarrow>
         bindP (processJob c e net job) (\<lambda>outcome.
         bindP (drainPushJobs c e net n) (\<lambda>rest. retP (outcome # rest))))"

section \<open>Enqueueing\<close>

definition enqueuePushJob ::
  "clock \<Rightarrow> uuid \<Rightarrow> uuid \<Rightarrow> uuid \<Rightarrow> job_kind \<Rightarrow> job_payload \<Rightarrow> cal_db \<Rightarrow> exn + (bool \<times> cal_db)" where
  "enqueuePushJob c newId slotId teacherAccountId k payload D =
     (if list_ex (\<lambda>x. pj_slot_id x = slotId \<and> pj_kind x = k \<and> pj_status x = JobPending) (cd_push_jobs D) then Inr (False, D)
      else if find_by pj_id newId (cd_push_jobs D) \<noteq> None then Inl (PgErr UniqueViolation)
      else if slot_by_id (cd_db D) slotId = None then Inl (PgErr ForeignKeyViolation)
      else Inr (True, D\<lparr>cd_push_jobs := cd_push_jobs D @
        [\<lparr>pj_id = newId, pj_slot_id = slotId, pj_teacher_account_id = teacherAccountId, pj_kind = k, pj_payload = payload,
          pj_status = JobPending, pj_attempts = 0, pj_next_run_at = pg_now c, pj_last_attempt_at = None, pj_last_error = None,
          pj_created_at = pg_now c\<rparr>]\<rparr>))"

definition enqueueCreatePushIfIntegrationActive ::
  "clock \<Rightarrow> uuid \<Rightarrow> uuid \<Rightarrow> uuid \<Rightarrow> cal_db \<Rightarrow> exn + (bool \<times> cal_db)" where
  "enqueueCreatePushIfIntegrationActive c newId slotId teacherAccountId D =
     (case integration_of D teacherAccountId of
        None \<Rightarrow> Inr (False, D)
      | Some tci \<Rightarrow>
          if ig_sync_state tci = SyncDisconnected then Inr (False, D)
          else case nonempty (ig_write_calendar_id tci) of
            None \<Rightarrow> Inr (False, D)
          | Some writeCalendar \<Rightarrow>
              enqueuePushJob c newId slotId teacherAccountId JobCreate
                \<lparr>pl_write_calendar_id = Some writeCalendar, pl_lc_epoch = Some (js (ig_epoch tci)), pl_summary = None\<rparr> D)"


section \<open>The life of a job\<close>

definition job_final :: "push_job \<Rightarrow> bool" where
  "job_final j \<longleftrightarrow> pj_status j \<in> {JobSucceeded, JobTerminalFailure, JobCancelledByDependent}"

definition job_valid :: "push_job \<Rightarrow> bool" where
  "job_valid j \<longleftrightarrow> 0 \<le> pj_attempts j \<and> pj_attempts j \<le> MAX_PUSH_ATTEMPTS
     \<and> (pj_status j = JobPending \<longrightarrow> pj_attempts j < MAX_PUSH_ATTEMPTS)"

definition same_lot :: "push_job \<Rightarrow> push_job \<Rightarrow> bool" where
  "same_lot x y \<longleftrightarrow> pj_status x = JobPending \<and> pj_status y = JobPending \<and> pj_slot_id x = pj_slot_id y \<and> pj_kind x = pj_kind y"

definition jobs_ok :: "push_job list \<Rightarrow> bool" where
  "jobs_ok jl \<longleftrightarrow> distinct (map pj_id jl) \<and> list_all job_valid jl
     \<and> (\<forall>x \<in> set jl. \<forall>y \<in> set jl. same_lot x y \<longrightarrow> pj_id x = pj_id y)"

definition jobs_progress :: "push_job list \<Rightarrow> push_job list \<Rightarrow> bool" where
  "jobs_progress jl jl' \<longleftrightarrow> (\<forall>j \<in> set jl. \<exists>j' \<in> set jl'. pj_id j' = pj_id j \<and> pj_slot_id j' = pj_slot_id j \<and> pj_kind j' = pj_kind j
     \<and> pj_attempts j \<le> pj_attempts j' \<and> (job_final j \<longrightarrow> j' = j))"

text \<open>Other processes may work on the jobs while an answer is awaited, but not on a job that is claimed.\<close>

definition respects_claims :: "'g network \<Rightarrow> bool" where
  "respects_claims net \<longleftrightarrow> (\<forall>q D g. let D' = fst (snd (net q (D, g))) in
     (jobs_ok (cd_push_jobs D) \<longrightarrow> jobs_ok (cd_push_jobs D') \<and> jobs_progress (cd_push_jobs D) (cd_push_jobs D'))
     \<and> (\<forall>j \<in> set (cd_push_jobs D). pj_status j = JobInProgress \<longrightarrow> j \<in> set (cd_push_jobs D')))"

text \<open>
  What a run does to the jobs of the others: later states of the same jobs, and the claimed ones untouched, but those
  whose ids are in \<open>X\<close>. With \<open>N\<close>, when the other workers add no job either, the jobs stay the same ones.
\<close>

definition job_ids :: "push_job list \<Rightarrow> uuid set" where "job_ids jl = pj_id ` set jl"

definition adds_no_jobs :: "'g network \<Rightarrow> bool" where
  "adds_no_jobs net \<longleftrightarrow> (\<forall>q D g. job_ids (cd_push_jobs (fst (snd (net q (D, g))))) = job_ids (cd_push_jobs D))"

definition world_progress :: "bool \<Rightarrow> uuid set \<Rightarrow> 'g world \<Rightarrow> 'g world \<Rightarrow> bool" where
  "world_progress N X w w' \<longleftrightarrow> jobs_progress (cd_push_jobs (fst w)) (cd_push_jobs (fst w'))
     \<and> (N \<longrightarrow> job_ids (cd_push_jobs (fst w')) = job_ids (cd_push_jobs (fst w)))
     \<and> (\<forall>j \<in> set (cd_push_jobs (fst w)). pj_status j = JobInProgress \<and> pj_id j \<notin> X \<longrightarrow> j \<in> set (cd_push_jobs (fst w')))"

lemma jobs_progress_refl: "jobs_progress jl jl"
  by (auto simp: jobs_progress_def)

lemma jobs_progress_trans:
  assumes "jobs_progress s t" and "jobs_progress t u"
  shows "jobs_progress s u"
  unfolding jobs_progress_def
proof
  fix j assume "j \<in> set s"
  with assms(1) obtain j1 where j1: "j1 \<in> set t" "pj_id j1 = pj_id j" "pj_slot_id j1 = pj_slot_id j"
      "pj_kind j1 = pj_kind j" "pj_attempts j \<le> pj_attempts j1" "job_final j \<longrightarrow> j1 = j"
    unfolding jobs_progress_def by blast
  with assms(2) obtain j2 where "j2 \<in> set u" "pj_id j2 = pj_id j1" "pj_slot_id j2 = pj_slot_id j1"
      "pj_kind j2 = pj_kind j1" "pj_attempts j1 \<le> pj_attempts j2" "job_final j1 \<longrightarrow> j2 = j1"
    unfolding jobs_progress_def by blast
  with j1 show "\<exists>j' \<in> set u. pj_id j' = pj_id j \<and> pj_slot_id j' = pj_slot_id j \<and> pj_kind j' = pj_kind j
      \<and> pj_attempts j \<le> pj_attempts j' \<and> (job_final j \<longrightarrow> j' = j)"
    by (intro bexI [of _ j2]) auto
qed

interpretation push_moves: moving "world_progress N X :: 'g world \<Rightarrow> 'g world \<Rightarrow> bool" for N X
  by unfold_locales (auto simp: world_progress_def intro: jobs_progress_refl jobs_progress_trans)

definition world_ok :: "'g world \<Rightarrow> bool" where "world_ok w \<longleftrightarrow> jobs_ok (cd_push_jobs (fst w))"

definition holds_claim :: "push_job \<Rightarrow> 'g world \<Rightarrow> bool" where
  "holds_claim j w \<longleftrightarrow> world_ok w \<and> j \<in> set (cd_push_jobs (fst w)) \<and> pj_status j = JobInProgress"

lemma holds_claim_ok: "holds_claim j w \<Longrightarrow> world_ok w"
  by (simp add: holds_claim_def)

text \<open>A row that is replaced by a later state of itself.\<close>

lemma jobs_replace:
  assumes ok: "jobs_ok jl" and j: "j \<in> set jl" and id: "pj_id j' = pj_id j" "pj_slot_id j' = pj_slot_id j" "pj_kind j' = pj_kind j"
    and valid: "job_valid j'" and att: "pj_attempts j \<le> pj_attempts j'" and live: "\<not> job_final j"
    and twin: "pj_status j' = JobPending \<Longrightarrow> \<not> list_ex (\<lambda>x. pj_id x \<noteq> pj_id j \<and> pj_slot_id x = pj_slot_id j \<and> pj_kind x = pj_kind j \<and> pj_status x = JobPending) jl"
  shows "jobs_ok (replace_row pj_id j' jl) \<and> jobs_progress jl (replace_row pj_id j' jl)
     \<and> (\<forall>x \<in> set jl. pj_id x \<noteq> pj_id j \<longrightarrow> x \<in> set (replace_row pj_id j' jl)) \<and> job_ids (replace_row pj_id j' jl) = job_ids jl"
proof (intro conjI)
  have set: "set (replace_row pj_id j' jl) = insert j' {x \<in> set jl. pj_id x \<noteq> pj_id j'}"
    by (rule set_replace_row_eq) (use j id in auto)
  have same: "x = j" if "x \<in> set jl" "pj_id x = pj_id j" for x
    using distinct_key_eq [of pj_id jl x j] ok that j by (simp add: jobs_ok_def)
  show "jobs_ok (replace_row pj_id j' jl)"
    unfolding jobs_ok_def
  proof (intro conjI ballI impI)
    show "distinct (map pj_id (replace_row pj_id j' jl))" using ok by (simp add: jobs_ok_def tbl_simps)
    show "list_all job_valid (replace_row pj_id j' jl)" using ok valid unfolding list_all_iff set jobs_ok_def by auto
  next
    fix x y
    assume m: "x \<in> set (replace_row pj_id j' jl)" "y \<in> set (replace_row pj_id j' jl)" "same_lot x y"
    show "pj_id x = pj_id y"
    proof (rule ccontr)
      assume ne: "pj_id x \<noteq> pj_id y"
      with m(1,2) set consider "x = j'" "y \<in> set jl" | "y = j'" "x \<in> set jl" | "x \<in> set jl" "y \<in> set jl" by auto
      then show False
      proof cases
        case 1
        then show False using twin m(3) ne id by (auto simp: same_lot_def list_ex_iff)
      next
        case 2
        then show False using twin m(3) ne id by (auto simp: same_lot_def list_ex_iff)
      next
        case 3
        then show False using ok m(3) ne by (auto simp: jobs_ok_def)
      qed
    qed
  qed
  show "jobs_progress jl (replace_row pj_id j' jl)"
    unfolding jobs_progress_def
  proof
    fix x assume x: "x \<in> set jl"
    show "\<exists>x' \<in> set (replace_row pj_id j' jl). pj_id x' = pj_id x \<and> pj_slot_id x' = pj_slot_id x \<and> pj_kind x' = pj_kind x
        \<and> pj_attempts x \<le> pj_attempts x' \<and> (job_final x \<longrightarrow> x' = x)"
    proof (cases "pj_id x = pj_id j")
      case True
      with same [OF x] id att live show ?thesis unfolding set by auto
    next
      case False
      with x id show ?thesis unfolding set by (intro bexI [of _ x]) auto
    qed
  qed
  show "\<forall>x \<in> set jl. pj_id x \<noteq> pj_id j \<longrightarrow> x \<in> set (replace_row pj_id j' jl)" unfolding set using id by auto
  show "job_ids (replace_row pj_id j' jl) = job_ids jl" unfolding set job_ids_def using id j by force
qed

lemma ensures_update_job:
  assumes f: "\<And>x. pj_id (f x) = pj_id x \<and> pj_slot_id (f x) = pj_slot_id x \<and> pj_kind (f x) = pj_kind x \<and> pj_attempts (f x) = pj_attempts x"
    and pend: "pj_status (f j) = JobPending \<Longrightarrow> pj_attempts j < MAX_PUSH_ATTEMPTS"
    and up: "\<And>D x D'. k D = Inr (x, D') \<Longrightarrow> cd_push_jobs D' = cd_push_jobs D"
  shows "ensures (holds_claim j) (world_progress N {pj_id j}) world_ok
     (stmt (\<lambda>D. bindR (k D) (\<lambda>(_, D'). pg_update_job (pj_id j) f D')) :: ('a world, unit) prog)"
  unfolding ensures_def
proof (intro allI impI)
  fix w :: "'a world"
  assume h: "holds_claim j w"
  let ?t = "\<lambda>D. bindR (k D) (\<lambda>(_, D'). pg_update_job (pj_id j) f D')"
  have ok: "jobs_ok (cd_push_jobs (fst w))" and j: "j \<in> set (cd_push_jobs (fst w))" and st: "pj_status j = JobInProgress"
    using h by (simp_all add: holds_claim_def world_ok_def)
  show "world_ok (snd (stmt ?t w)) \<and> world_progress N {pj_id j} w (snd (stmt ?t w))"
  proof (cases "?t (fst w)")
    case (Inl e)
    then show ?thesis using h by (simp add: stmt_def holds_claim_ok push_moves.moves_refl)
  next
    case (Inr r)
    obtain u D' where r: "r = (u, D')" by (rule prod.exhaust)
    obtain x D1 where k: "k (fst w) = Inr (x, D1)" and run: "pg_update_job (pj_id j) f D1 = Inr (u, D')"
      using Inr r by (auto simp: bindR_eq_Inr_iff)
    note same = up [OF k]
    have find: "find_by pj_id (pj_id j) (cd_push_jobs D1) = Some j"
      unfolding same by (rule find_by_distinct [OF _ j]) (use ok in \<open>simp add: jobs_ok_def\<close>)
    have nt: "\<not> (pj_status (f j) = JobPending \<and> pending_twin D1 (pj_id j) (pj_slot_id j) (pj_kind j))"
      using run by (auto simp: pg_update_job_def find split: if_splits)
    then have D': "D' = D1\<lparr>cd_push_jobs := replace_row pj_id (f j) (cd_push_jobs (fst w))\<rparr>"
      using run find by (simp only: pg_update_job_def option.case if_False same) simp
    have valid: "job_valid (f j)" using ok j f [of j] pend by (auto simp: jobs_ok_def list_all_iff job_valid_def)
    have "jobs_ok (cd_push_jobs D') \<and> jobs_progress (cd_push_jobs (fst w)) (cd_push_jobs D')
        \<and> (\<forall>x \<in> set (cd_push_jobs (fst w)). pj_id x \<noteq> pj_id j \<longrightarrow> x \<in> set (cd_push_jobs D'))
        \<and> job_ids (cd_push_jobs D') = job_ids (cd_push_jobs (fst w))"
      unfolding D' using jobs_replace [OF ok j, of "f j"] f [of j] valid st nt
      by (simp add: job_final_def pending_twin_def same)
    then show ?thesis using Inr r by (simp add: stmt_def world_ok_def world_progress_def)
  qed
qed

lemma ensures_update_job_only:
  assumes "\<And>x. pj_id (f x) = pj_id x \<and> pj_slot_id (f x) = pj_slot_id x \<and> pj_kind (f x) = pj_kind x \<and> pj_attempts (f x) = pj_attempts x"
    and "pj_status (f j) = JobPending \<Longrightarrow> pj_attempts j < MAX_PUSH_ATTEMPTS"
  shows "ensures (holds_claim j) (world_progress N {pj_id j}) world_ok (stmt (pg_update_job (pj_id j) f))"
  using ensures_update_job [of f j "\<lambda>D. Inr ((), D)"] assms by simp

text \<open>What leaves the jobs alone keeps the claim.\<close>

lemma ensures_claim_stmt:
  assumes "\<And>D x D'. t D = Inr (x, D') \<Longrightarrow> cd_push_jobs D' = cd_push_jobs D"
  shows "ensures (holds_claim j) (world_progress N {pj_id j}) (holds_claim j) (stmt t :: ('a world, 'b) prog)"
  unfolding ensures_def
proof (intro allI impI)
  fix w :: "'a world"
  assume h: "holds_claim j w"
  show "holds_claim j (snd (stmt t w)) \<and> world_progress N {pj_id j} w (snd (stmt t w))"
  proof (cases "t (fst w)")
    case (Inl e)
    then show ?thesis using h by (simp add: stmt_def push_moves.moves_refl)
  next
    case (Inr r)
    then show ?thesis using h assms [of "fst w" "fst r" "snd r"] push_moves.moves_refl [of N "{pj_id j}" w]
      by (cases r) (auto simp: stmt_def holds_claim_def world_ok_def world_progress_def)
  qed
qed

lemma ensures_claim_fetch:
  assumes "respects_claims net" and "N \<longrightarrow> adds_no_jobs net"
  shows "ensures (holds_claim j) (world_progress N {pj_id j}) (holds_claim j) (fetchP net q)"
  unfolding ensures_def
proof (intro allI impI)
  fix w :: "'a world"
  assume h: "holds_claim j w"
  obtain a w' where r: "net q w = (a, w')" by (rule prod.exhaust)
  obtain D g where w: "w = (D, g)" by (rule prod.exhaust)
  have "jobs_ok (cd_push_jobs (fst w')) \<and> jobs_progress (cd_push_jobs D) (cd_push_jobs (fst w'))"
      "\<forall>x \<in> set (cd_push_jobs D). pj_status x = JobInProgress \<longrightarrow> x \<in> set (cd_push_jobs (fst w'))"
    using assms h r unfolding respects_claims_def holds_claim_def world_ok_def w Let_def by (metis fst_conv snd_conv)+
  moreover have "N \<longrightarrow> job_ids (cd_push_jobs (fst w')) = job_ids (cd_push_jobs D)"
    using assms(2) r unfolding adds_no_jobs_def w by (metis snd_conv)
  ultimately show "holds_claim j (snd (fetchP net q w)) \<and> world_progress N {pj_id j} w (snd (fetchP net q w))"
    using h r by (simp add: fetchP_def holds_claim_def world_ok_def world_progress_def w)
qed

lemma ensures_claim_retry:
  assumes "respects_claims net" and "N \<longrightarrow> adds_no_jobs net" and "\<And>t ig. ensures (holds_claim j) (world_progress N {pj_id j}) (holds_claim j) (exec t ig)"
  shows "ensures (holds_claim j) (world_progress N {pj_id j}) (holds_claim j) (withTokenRetry c e net acc exec)"
proof (rule ensures_token(2) [OF push_moves.moving_axioms])
  show "holds_claim j (D', g) \<and> world_progress N {pj_id j} (D, g) (D', g)" if "holds_claim j (D, g)" "only_integrations D D'" for D D' and g :: 'a
  proof -
    note only_integrations_same(3) [OF that(2)]
    with that(1) show ?thesis
      using push_moves.moves_refl [of N "{pj_id j}" "(D, g)"] by (simp add: holds_claim_def world_ok_def world_progress_def)
  qed
qed (use assms(3) ensures_claim_fetch [OF assms(1,2)] in auto)

lemma ensures_weaken: "ensures P m Q p \<Longrightarrow> (\<And>s. Q s \<Longrightarrow> Q' s) \<Longrightarrow> ensures P m Q' p"
  by (auto simp: ensures_def)

lemma update_binding_frame: "pg_update_binding i P f g D = Inr (x, D') \<Longrightarrow> cd_push_jobs D' = cd_push_jobs D"
  by (auto simp: pg_update_binding_def bindR_eq_Inr_iff Let_def split: option.splits if_splits)

lemmas ensures_done = push_moves.ensures_seq [where R = world_ok, OF _ push_moves.ensures_pure(1)]

lemma ensures_marks:
  shows "ensures (holds_claim j) (world_progress N {pj_id j}) world_ok (markFailure c j reason tr :: ('g world, push_outcome) prog)"
    and "ensures (holds_claim j) (world_progress N {pj_id j}) world_ok (markPushSucceeded j i :: ('g world, push_outcome) prog)"
    and "ensures (holds_claim j) (world_progress N {pj_id j}) world_ok (markPushDependent j :: ('g world, push_outcome) prog)"
  unfolding markFailure_def markPushSucceeded_def markPushDependent_def Let_def
  by (auto intro!: ensures_done ensures_update_job_only simp: job_succeeded_def)

lemma ensures_call_failed:
  "ensures (holds_claim j) (world_progress N {pj_id j}) world_ok (call_failed c e j raw :: ('g world, push_outcome) prog)"
  unfolding call_failed_def by (auto intro!: ensures_marks split: call_raw.split)

lemma ensures_process:
  fixes net :: "'g network"
  assumes "respects_claims net" and "N \<longrightarrow> adds_no_jobs net"
  shows "ensures (holds_claim j) (world_progress N {pj_id j}) world_ok (processJob c e net j)"
proof -
  note seq = push_moves.ensures_seq [where R = "holds_claim j" and P = "holds_claim j" and Q = world_ok]
  note bind = push_moves.ensures_bind [where P = "holds_claim j" and Q = "holds_claim j"]
  note pure = push_moves.ensures_pure [where P = "holds_claim j" and Q = "holds_claim j"]
  note call = ensures_claim_fetch [OF assms] ensures_claim_retry [OF assms]
  have read: "ensures (holds_claim j) (world_progress N {pj_id j}) (holds_claim j) (reading h)" for h :: "cal_db \<Rightarrow> 'x"
    using pure(3) [where h = "\<lambda>s. Inr (h (fst s))"] by (simp add: reading_def [abs_def])
  have insert: "ensures (holds_claim j) (world_progress N {pj_id j}) (holds_claim j) (insertEventIdempotent net t k s input)" for t k s input
    unfolding insertEventIdempotent_def getAndConfirmOwnership_def
    by (auto intro!: bind pure call split: net_answer.split)
  have patch: "ensures (holds_claim j) (world_progress N {pj_id j}) (holds_claim j) (patchEvent net t k s input)" for t k s input
    unfolding patchEvent_def by (auto intro!: bind pure call)
  have delete: "ensures (holds_claim j) (world_progress N {pj_id j}) (holds_claim j) (deleteEvent net t k s)" for t k s
    unfolding deleteEvent_def by (auto intro!: bind pure call)
  have last: "ensures (holds_claim j) (world_progress N {pj_id j}) world_ok (stmt (bind_and_succeed c j slot event k ep) :: ('g world, unit) prog)"
      "ensures (holds_claim j) (world_progress N {pj_id j}) world_ok (stmt (unbind_and_succeed c j slot) :: ('g world, unit) prog)" for slot event k ep
    unfolding bind_and_succeed_def [abs_def] unbind_and_succeed_def [abs_def]
    by (auto intro!: ensures_update_job simp: job_succeeded_def update_binding_frame)
  have read_then: "ensures (holds_claim j) (world_progress N {pj_id j}) world_ok (bindP (reading h) f)"
    if "\<And>x. ensures (holds_claim j) (world_progress N {pj_id j}) world_ok (f x)"
    for h :: "cal_db \<Rightarrow> 'x" and f :: "'x \<Rightarrow> ('g world, push_outcome) prog"
    by (rule seq [OF read that holds_claim_ok])
  have lift_then: "ensures (holds_claim j) (world_progress N {pj_id j}) world_ok (bindP (liftP r) f)"
    if "\<And>x. ensures (holds_claim j) (world_progress N {pj_id j}) world_ok (f x)"
    for r :: "exn + 'x" and f :: "'x \<Rightarrow> ('g world, push_outcome) prog"
    by (rule seq [OF pure(2) that holds_claim_ok]) simp
  have retry_then: "ensures (holds_claim j) (world_progress N {pj_id j}) world_ok (bindP (withTokenRetry c e net acc exec) f)"
    if "\<And>t ig. ensures (holds_claim j) (world_progress N {pj_id j}) (holds_claim j) (exec t ig)"
      and "\<And>x. ensures (holds_claim j) (world_progress N {pj_id j}) world_ok (f x)"
    for acc and exec :: "('g, 'x, push_error) token_exec" and f :: "('x, push_error) call_result \<Rightarrow> ('g world, push_outcome) prog"
    by (rule seq [OF call(2) [OF that(1)] that(2) holds_claim_ok])
  have exec: "ensures (holds_claim j) (world_progress N {pj_id j}) (holds_claim j) (bindP m (\<lambda>r. retP (h r)))"
    if "ensures (holds_claim j) (world_progress N {pj_id j}) (holds_claim j) m" for m :: "('g world, 'x) prog" and h :: "'x \<Rightarrow> 'y"
    by (intro bind pure that) simp_all
  show ?thesis
    unfolding processJob_def processCreate_def processUpdate_def processDelete_def Let_def
    by (auto intro!: read_then lift_then retry_then exec insert patch delete ensures_done [OF last(1)] ensures_done [OF last(2)]
      ensures_marks ensures_call_failed
      split: job_kind.split option.split call_result.split)
qed

text \<open>Claiming: the oldest due job becomes the caller's, with one attempt more.\<close>

lemma claim_cases:
  obtains "claimNextJob c D = Inr (None, D)" and "\<not> list_ex (job_due c) (cd_push_jobs D)"
  | j j' where "j \<in> set (cd_push_jobs D)" and "job_due c j"
      and "j' = j\<lparr>pj_status := JobInProgress, pj_attempts := pj_attempts j + 1, pj_last_attempt_at := Some (pg_now c)\<rparr>"
      and "claimNextJob c D = Inr (Some j', D\<lparr>cd_push_jobs := replace_row pj_id j' (cd_push_jobs D)\<rparr>)"
proof (cases "min_by (\<lambda>x y. pj_created_at x < pj_created_at y) (filter (job_due c) (cd_push_jobs D))")
  case None
  then have "filter (job_due c) (cd_push_jobs D) = []" by simp
  then have "\<not> list_ex (job_due c) (cd_push_jobs D)" by (simp add: filter_empty_conv list_ex_iff)
  with None show ?thesis using that(1) by (simp add: claimNextJob_def)
next
  case (Some j)
  then have "j \<in> set (cd_push_jobs D)" "job_due c j" using min_by_mem by force+
  with Some show ?thesis using that(2) by (simp add: claimNextJob_def Let_def)
qed

lemma claim_steps:
  assumes "world_ok w" and "stmt (claimNextJob c) w = (Inr (Some k), w')"
  shows "holds_claim k w' \<and> world_progress N {} w w' \<and> (\<forall>x \<in> set (cd_push_jobs (fst w)). pj_status x = JobInProgress \<longrightarrow> pj_id x \<noteq> pj_id k)"
proof -
  have ok: "jobs_ok (cd_push_jobs (fst w))" using assms(1) by (simp add: world_ok_def)
  show ?thesis
  proof (cases rule: claim_cases [of c "fst w"])
    case 1
    then show ?thesis using assms(2) by (simp add: stmt_def)
  next
    case (2 j j')
    have k: "k = j'" and w': "w' = ((fst w)\<lparr>cd_push_jobs := replace_row pj_id j' (cd_push_jobs (fst w))\<rparr>, snd w)"
      using assms(2) 2(4) by (auto simp: stmt_def)
    have pend: "pj_status j = JobPending" using 2(2) by (simp add: job_due_def)
    have valid: "job_valid j'" using ok 2(1) pend by (auto simp: jobs_ok_def list_all_iff job_valid_def 2(3))
    have rep: "jobs_ok (replace_row pj_id j' (cd_push_jobs (fst w)))"
        "jobs_progress (cd_push_jobs (fst w)) (replace_row pj_id j' (cd_push_jobs (fst w)))"
        "\<forall>x \<in> set (cd_push_jobs (fst w)). pj_id x \<noteq> pj_id j \<longrightarrow> x \<in> set (replace_row pj_id j' (cd_push_jobs (fst w)))"
        "job_ids (replace_row pj_id j' (cd_push_jobs (fst w))) = job_ids (cd_push_jobs (fst w))"
      using jobs_replace [OF ok 2(1), of j'] valid pend by (simp_all add: 2(3) job_final_def)
    have other: "pj_id x \<noteq> pj_id j" if "x \<in> set (cd_push_jobs (fst w))" "pj_status x = JobInProgress" for x
      using distinct_key_eq [of pj_id "cd_push_jobs (fst w)" x j] ok that 2(1) pend by (auto simp: jobs_ok_def)
    have "j' \<in> set (replace_row pj_id j' (cd_push_jobs (fst w)))"
      using set_replace_row_eq [of pj_id j' "cd_push_jobs (fst w)"] 2(1,3) by auto
    then have "holds_claim k w'" using rep(1) by (simp add: k w' holds_claim_def world_ok_def) (simp add: 2(3))
    moreover have "world_progress N {} w w'" using rep(2-4) other by (simp add: k w' world_progress_def)
    moreover have "pj_id k = pj_id j" by (simp add: k 2(3))
    ultimately show ?thesis using other by simp
  qed
qed

lemma ensures_drain:
  fixes net :: "'g network"
  assumes net: "respects_claims net" "N \<longrightarrow> adds_no_jobs net"
  shows "ensures world_ok (world_progress N {}) world_ok (drainPushJobs c e net n)"
proof (induction n)
  case 0
  show ?case using push_moves.ensures_pure(1) [where P = world_ok and Q = world_ok] by simp
next
  case (Suc n)
  have rest: "ensures world_ok (world_progress N {}) world_ok (bindP (drainPushJobs c e net n) (\<lambda>rest. retP (h rest)))"
    for h :: "push_outcome list \<Rightarrow> push_outcome list"
    by (intro push_moves.ensures_seq [OF Suc] push_moves.ensures_pure) simp_all
  show ?case
    unfolding ensures_def
  proof (intro allI impI)
    fix w :: "'g world" assume ok: "world_ok w"
    obtain r w1 where claim: "stmt (claimNextJob c) w = (r, w1)" by (rule prod.exhaust)
    let ?run = "drainPushJobs c e net (Suc n) w"
    show "world_ok (snd ?run) \<and> world_progress N {} w (snd ?run)"
    proof (cases r)
      case (Inl x)
      then have "w1 = w" using claim by (auto simp: stmt_def split: sum.splits prod.splits)
      then show ?thesis using Inl claim ok push_moves.moves_refl by (simp add: bindP_def)
    next
      case (Inr jo)
      show ?thesis
      proof (cases jo)
        case None
        have "w1 = w" using claim Inr None by (cases rule: claim_cases [of c "fst w"]) (auto simp: stmt_def)
        then show ?thesis using Inr None claim ok push_moves.moves_refl by (simp add: bindP_def retP_def)
      next
        case (Some k)
        have st: "holds_claim k w1" "world_progress N {} w w1"
            "(\<forall>x \<in> set (cd_push_jobs (fst w)). pj_status x = JobInProgress \<longrightarrow> pj_id x \<noteq> pj_id k)"
          using claim_steps [OF ok, of c k w1] claim Inr Some by simp_all
        define m where "m = processJob c e net k"
        define f where "f = (\<lambda>outcome. bindP (drainPushJobs c e net n) (\<lambda>rest. retP (outcome # rest)))"
        have run: "?run = bindP m f w1" using claim Inr Some by (simp add: bindP_def m_def f_def)
        have m: "world_ok (snd (m w1))" "world_progress N {pj_id k} w1 (snd (m w1))"
          using ensures_process [OF net, of k c e] st(1) unfolding ensures_def m_def by blast+
        have mid: "world_progress N {} w (snd (m w1))"
          unfolding world_progress_def
        proof (intro conjI ballI impI)
          show "jobs_progress (cd_push_jobs (fst w)) (cd_push_jobs (fst (snd (m w1))))"
            using st(2) m(2) jobs_progress_trans unfolding world_progress_def by blast
          show "job_ids (cd_push_jobs (fst (snd (m w1)))) = job_ids (cd_push_jobs (fst w))" if N
            using st(2) m(2) that by (simp add: world_progress_def)
          fix j assume j: "j \<in> set (cd_push_jobs (fst w))" "pj_status j = JobInProgress \<and> pj_id j \<notin> {}"
          have "j \<in> set (cd_push_jobs (fst w1))" using j st(2) by (simp add: world_progress_def)
          moreover have "pj_id j \<notin> {pj_id k}" using j st(3) by auto
          ultimately show "j \<in> set (cd_push_jobs (fst (snd (m w1))))" using m(2) j(2) by (simp add: world_progress_def)
        qed
        show ?thesis
        proof (cases rule: bindP_cases [of m w1 f])
          case (1 x s')
          then show ?thesis using run m mid by simp
        next
          case (2 x s')
          have "world_ok (snd (f x s'))" "world_progress N {} s' (snd (f x s'))"
            using rest [of "\<lambda>rest. x # rest"] m(1) 2(1) unfolding f_def ensures_def by (metis snd_conv)+
          moreover have "snd (m w1) = s'" "?run = f x s'" using 2 run by simp_all
          ultimately show ?thesis using push_moves.moves_trans [OF mid] by simp
        qed
      qed
    qed
  qed
qed

text \<open>
  C17: a drain of the queue, whatever the calendar answers and whatever other workers do meanwhile under the same
  rules, keeps every row valid (the CHECK constraints, one pending job of a lesson and kind, no more attempts than the
  limit, the limit reached only by a job that has ended), never loses or rewrites a job other than by a move of its
  state machine, and leaves alone the jobs that another worker had claimed before.
\<close>

theorem push_jobs_stay_valid:
  assumes "respects_claims net" and "jobs_ok (cd_push_jobs D)"
  shows "let jobs' = cd_push_jobs (fst (snd (drainPushJobs c e net n (D, g)))) in
     jobs_ok jobs' \<and> jobs_progress (cd_push_jobs D) jobs'
     \<and> (\<forall>j \<in> set (cd_push_jobs D). pj_status j = JobInProgress \<longrightarrow> j \<in> set jobs')"
  using ensures_drain [OF assms(1), of False c e n] assms(2)
  by (simp add: ensures_def world_ok_def world_progress_def)

definition sample_dates :: "json option \<Rightarrow> millis option" where
  "sample_dates v = (case v of Some (JNum (Finite q)) \<Rightarrow> Some \<lfloor>q\<rfloor> | _ \<Rightarrow> None)"

definition sample_cal_env :: cal_env where
  "sample_cal_env = \<lparr>ce_production = True, ce_key = replicate 32 107, ce_key_old = [], ce_oauth = Inr None,
     ce_iso = (\<lambda>_. []), ce_rt = sample_runtime, ce_date_ms = sample_dates, ce_text_le = (\<lambda>_ _. True)\<rparr>"

lemma push_jobs_stay_valid_witness:
  "let j = \<lparr>pj_id = ''j'', pj_slot_id = ''s'', pj_teacher_account_id = ''t'', pj_kind = JobDelete,
             pj_payload = \<lparr>pl_write_calendar_id = None, pl_lc_epoch = None, pl_summary = None\<rparr>, pj_status = JobPending,
             pj_attempts = 4, pj_next_run_at = 0, pj_last_attempt_at = None, pj_last_error = None, pj_created_at = 0\<rparr>;
       D = empty_cal\<lparr>cd_push_jobs := [j]\<rparr>;
       net = (\<lambda>q w. (NetFailed [], w)) :: unit network;
       jobs' = cd_push_jobs (fst (snd (drainPushJobs \<lparr>pg_now = 1, js_now = 1\<rparr> sample_cal_env net 1 (D, ())))) in
     jobs_ok jobs' \<and> jobs_progress [j] jobs'"
proof -
  let ?net = "(\<lambda>q w. (NetFailed [], w)) :: unit network"
  have "respects_claims ?net" by (simp add: respects_claims_def jobs_progress_refl)
  from push_jobs_stay_valid [OF this, where D = "empty_cal\<lparr>cd_push_jobs := [\<lparr>pj_id = ''j'', pj_slot_id = ''s'', pj_teacher_account_id = ''t'', pj_kind = JobDelete,
             pj_payload = \<lparr>pl_write_calendar_id = None, pl_lc_epoch = None, pl_summary = None\<rparr>, pj_status = JobPending,
             pj_attempts = 4, pj_next_run_at = 0, pj_last_attempt_at = None, pj_last_error = None, pj_created_at = 0\<rparr>]\<rparr>" and e = sample_cal_env and n = 1 and g = "()" and c = "\<lparr>pg_now = 1, js_now = 1\<rparr>"]
  show ?thesis by (simp add: jobs_ok_def job_valid_def MAX_PUSH_ATTEMPTS_def Let_def del: drainPushJobs.simps One_nat_def)
qed

text \<open>
  A retry beside a newer pending job of the same lesson and kind is refused by the unique index: the worker throws
  and the job stays claimed.
\<close>

lemma retry_beside_newer_job:
  assumes "jobs_ok (cd_push_jobs D)" and "j \<in> set (cd_push_jobs D)" and "pj_attempts j < MAX_PUSH_ATTEMPTS"
    and "pending_twin D (pj_id j) (pj_slot_id j) (pj_kind j)"
  shows "markFailure c j reason True (D, g) = (Inl (PgErr UniqueViolation), (D, g))"
proof -
  have "find_by pj_id (pj_id j) (cd_push_jobs D) = Some j"
    by (rule find_by_distinct [OF _ assms(2)]) (use assms(1) in \<open>simp add: jobs_ok_def\<close>)
  with assms(3,4) show ?thesis
    by (simp add: markFailure_def Let_def bindP_def stmt_def pg_update_job_def)
qed

text \<open>And no later run of the worker takes it up again.\<close>

lemma claimed_job_is_never_taken_up_again:
  assumes "respects_claims net" and "jobs_ok (cd_push_jobs D)" and "j \<in> set (cd_push_jobs D)"
    and "pj_status j = JobInProgress" and "pj_attempts j < MAX_PUSH_ATTEMPTS"
    and "pending_twin D (pj_id j) (pj_slot_id j) (pj_kind j)"
  shows "markFailure c j reason True (D, g) = (Inl (PgErr UniqueViolation), (D, g))
     \<and> j \<in> set (cd_push_jobs (fst (snd (drainPushJobs c' e net n (D, g)))))"
  using retry_beside_newer_job [OF assms(2,3,5,6)] ensures_drain [OF assms(1), of False c' e n] assms(2,3,4)
  by (simp add: ensures_def world_ok_def world_progress_def)

section \<open>However often it is retried, one event\<close>

text \<open>
  What the documentation of \<open>events.insert\<close> and \<open>events.get\<close> says of a calendar nobody else writes to meanwhile:
  an id that is in use is refused; an insertion may have happened although no answer came; an event is returned as
  it is kept. \<open>ev g k i\<close> is the event that calendar \<open>k\<close> keeps under the id \<open>i\<close>.
\<close>

definition answered_ok :: "net_answer \<Rightarrow> json option" where
  "answered_ok a = (case a of NetFailed _ \<Rightarrow> None
     | NetAnswered r \<Rightarrow> if response_ok r then (case na_json r of Inl _ \<Rightarrow> None | Inr v \<Rightarrow> Some v) else None)"

definition taken_over :: "json \<Rightarrow> json \<Rightarrow> bool" where
  "taken_over v b \<longleftrightarrow> json_field v ''id'' = json_field b ''id''
     \<and> json_field v ''extendedProperties'' = json_field b ''extendedProperties''"

definition documented_calendar :: "'g network \<Rightarrow> ('g \<Rightarrow> js_text \<Rightarrow> js_text \<Rightarrow> json option) \<Rightarrow> bool" where
  "documented_calendar net ev \<longleftrightarrow>
     (\<forall>g k i v. ev g k i = Some v \<longrightarrow> json_text (json_field v ''id'') = Some i)
     \<and> (\<forall>q w k t b i. q = event_request VerbPost (EventsUrl k) t (JsonBody b) \<and> json_text (json_field b ''id'') = Some i \<longrightarrow>
          (let (a, w') = net q w in
           ev (snd w') = ev (snd w) \<and> answered_ok a = None
           \<or> ev (snd w) k i = None \<and> (\<exists>v. taken_over v b \<and> ev (snd w') = (ev (snd w))(k := (ev (snd w) k)(i \<mapsto> v))
                                    \<and> (answered_ok a = None \<or> answered_ok a = Some v))))
     \<and> (\<forall>q w k t i. q = event_request VerbGet (EventUrl k i) t NoBody \<longrightarrow>
          (let (a, w') = net q w in
           ev (snd w') = ev (snd w) \<and> (answered_ok a = None \<or> answered_ok a = ev (snd w) k i)))"

definition stamped_with :: "json \<Rightarrow> uuid \<Rightarrow> bool" where
  "stamped_with v slotId \<longleftrightarrow>
     shared_stamp (case json_field v ''extendedProperties'' of Some x \<Rightarrow> if json_is_object x then Some x else None | None \<Rightarrow> None) ''lc_slot_id''
       = Some (JStr (js slotId))"

fun insert_attempts :: "'g network \<Rightarrow> js_text \<Rightarrow> uuid \<Rightarrow> (js_text \<times> push_input) list \<Rightarrow> 'g world \<Rightarrow> 'g world" where
  "insert_attempts net k slotId [] w = w"
| "insert_attempts net k slotId ((t, input) # rest) w =
     insert_attempts net k slotId rest (snd (insertEventIdempotent net t k slotId input w))"

text \<open>One attempt.\<close>

definition kept_but :: "(js_text \<Rightarrow> js_text \<Rightarrow> json option) \<Rightarrow> js_text \<Rightarrow> js_text \<Rightarrow> (js_text \<Rightarrow> js_text \<Rightarrow> json option) \<Rightarrow> bool" where
  "kept_but old k i new \<longleftrightarrow> (\<forall>k' i'. (k', i') = (k, i) \<and> old k' i' = None \<or> new k' i' = old k' i')"

lemma answered_event:
  assumes "parseEventResponse r = Inr event" and "response_ok r"
  obtains v where "answered_ok (NetAnswered r) = Some v" and "json_text (json_field v ''id'') = Some (ge_id event)"
    and "ge_extendedProperties event = (case json_field v ''extendedProperties'' of Some x \<Rightarrow> if json_is_object x then Some x else None | None \<Rightarrow> None)"
proof -
  obtain v where v: "na_json r = Inr v" "json_is_object v" using assms(1)
    by (auto simp: parseEventResponse_def split: sum.splits if_splits)
  then obtain i where i: "nonempty (json_text (json_field v ''id'')) = Some i"
    using assms(1) by (cases "nonempty (json_text (json_field v ''id''))") (auto simp: parseEventResponse_def)
  then have "json_text (json_field v ''id'') = Some i" by (auto simp: nonempty_def split: option.splits list.splits)
  then show thesis using that [of v] v i assms by (auto simp: parseEventResponse_def answered_ok_def)
qed

lemma attempt:
  assumes doc: "documented_calendar net ev" and i: "deterministicEventId slotId = Inr i"
    and own: "pn_ownership input = Some (js origin, js slotId, epoch)"
    and run: "insertEventIdempotent net t k slotId input w = (r, w')"
  shows "kept_but (ev (snd w)) k (js i) (ev (snd w'))
     \<and> (\<forall>event reused. r = Inr (Inr (event, reused)) \<longrightarrow>
          ge_id event = js i \<and> (\<exists>v. ev (snd w') k (js i) = Some v \<and> stamped_with v slotId))"
proof -
  obtain body where body: "buildBody slotId input = Inr body" using i by (simp add: buildBody_def)
  have fields: "json_text (json_field body ''id'') = Some (js i)"
      "json_field body ''extendedProperties'' = Some (ownership_fields (js origin, js slotId, epoch))"
    using body i own by (auto simp: buildBody_def sent_fields_def json_field_def json_text_def)
  have stamp: "stamped_with v slotId" if "taken_over v body" for v
    using that fields(2) by (simp add: stamped_with_def taken_over_def shared_stamp_def ownership_fields_def json_field_def json_is_object_def)
  have ids: "json_text (json_field v ''id'') = Some x" if "ev g y x = Some v" for g y x v
    using doc that by (auto simp: documented_calendar_def)
  let ?q = "event_request VerbPost (EventsUrl k) t (JsonBody body)"
  obtain a w1 where post: "net ?q w = (a, w1)" by (rule prod.exhaust)
  have ins: "ev (snd w1) = ev (snd w) \<and> answered_ok a = None
      \<or> ev (snd w) k (js i) = None \<and> (\<exists>v. taken_over v body \<and> ev (snd w1) = (ev (snd w))(k := (ev (snd w) k)(js i \<mapsto> v))
                                   \<and> (answered_ok a = None \<or> answered_ok a = Some v))"
    using doc [unfolded documented_calendar_def, THEN conjunct2, THEN conjunct1, rule_format, of ?q k t body "js i" w] fields(1)
    by (simp only: post Let_def prod.case simp_thms)
  then have kept: "kept_but (ev (snd w)) k (js i) (ev (snd w1))" by (auto simp: kept_but_def split: if_splits)
  note unfolded = insertEventIdempotent_def bindP_def liftP_def fetchP_def retP_def i body post
  show ?thesis
  proof (cases a)
    case (NetFailed m)
    then have "Inr (Inl (PeNetwork m)) = r" "w1 = w'" using run by (simp_all add: unfolded)
    then show ?thesis using kept by auto
  next
    case (NetAnswered resp)
    consider (made) "response_ok resp" | (there) "\<not> response_ok resp" "na_status resp = 409"
      | (other) "\<not> response_ok resp" "na_status resp \<noteq> 409" by blast
    then show ?thesis
    proof cases
      case made
      then have r: "w' = w1" "r = Inr (case parseEventResponse resp of Inl m \<Rightarrow> Inl (PeShape m) | Inr event \<Rightarrow> Inr (event, False))"
        using run NetAnswered by (auto simp add: unfolded)
      have "ge_id event = js i \<and> (\<exists>v. ev (snd w1) k (js i) = Some v \<and> stamped_with v slotId)"
        if p: "parseEventResponse resp = Inr event" for event
      proof -
        obtain v where v: "answered_ok a = Some v" "json_text (json_field v ''id'') = Some (ge_id event)"
          using NetAnswered by (auto intro: answered_event [OF p made])
        with ins have "taken_over v body" "ev (snd w1) k (js i) = Some v" by auto
        with v fields(1) stamp show ?thesis by (auto simp: taken_over_def)
      qed
      with r kept show ?thesis by (auto split: sum.splits)
    next
      case other
      then have "Inr (Inl (PeHttp (na_status resp) (readBody resp))) = r" "w1 = w'" using run NetAnswered by (simp_all add: unfolded)
      then show ?thesis using kept by auto
    next
      case there
      let ?g = "event_request VerbGet (EventUrl k (js i)) t NoBody"
      obtain a2 w2 where get: "net ?g w1 = (a2, w2)" by (rule prod.exhaust)
      have same: "ev (snd w2) = ev (snd w1)" "answered_ok a2 = None \<or> answered_ok a2 = ev (snd w1) k (js i)"
        using doc [unfolded documented_calendar_def, THEN conjunct2, THEN conjunct2, rule_format, of ?g k "js i" t w1]
        by (simp_all only: get Let_def prod.case simp_thms)
      have conf: "getAndConfirmOwnership net t k (js i) slotId w1 = (r, w')"
        using run NetAnswered there by (simp add: unfolded)
      then have w': "w' = w2" by (auto simp: getAndConfirmOwnership_def bindP_def fetchP_def retP_def get)
      have "ge_id event = js i \<and> (\<exists>v. ev (snd w') k (js i) = Some v \<and> stamped_with v slotId)"
        if r: "r = Inr (Inr (event, reused))" for event reused
      proof -
        obtain r2 where r2: "a2 = NetAnswered r2" "response_ok r2" "parseEventResponse r2 = Inr event"
            "shared_stamp (ge_extendedProperties event) ''lc_slot_id'' = Some (JStr (js slotId))"
          using conf r by (auto simp: getAndConfirmOwnership_def bindP_def fetchP_def retP_def get Let_def
              split: net_answer.splits if_splits sum.splits)
        obtain v where v: "answered_ok a2 = Some v" "json_text (json_field v ''id'') = Some (ge_id event)"
            "ge_extendedProperties event = (case json_field v ''extendedProperties'' of Some x \<Rightarrow> if json_is_object x then Some x else None | None \<Rightarrow> None)"
          using r2(1) by (auto intro: answered_event [OF r2(3,2)])
        with same have "ev (snd w') k (js i) = Some v" by (simp add: w')
        moreover from ids [OF this] v(2) have "ge_id event = js i" by simp
        moreover have "stamped_with v slotId" using r2(4) v(3) by (simp add: stamped_with_def)
        ultimately show ?thesis by blast
      qed
      with kept same(1) w' show ?thesis by simp
    qed
  qed
qed

text \<open>
  C19: the calendar holds at most one event of a lesson, however often its insertion is repeated after lost answers. For
  a calendar that keeps the documented rules (an id is used once, a refused or lost request leaves at most what it
  asked for) any number of insertions writes nothing but the event under the id of the lesson, and one that reports
  success names that event, which carries the stamp of the lesson.
\<close>

theorem retried_insert_makes_one_event:
  assumes "documented_calendar net ev" and "deterministicEventId slotId = Inr i"
    and "\<forall>(t, input) \<in> set ((t0, input0) # attempts). \<exists>origin epoch. pn_ownership input = Some (js origin, js slotId, epoch)"
    and "insertEventIdempotent net t0 k slotId input0 (insert_attempts net k slotId attempts w) = (r, w')"
  shows "kept_but (ev (snd w)) k (js i) (ev (snd w'))
     \<and> (\<forall>event reused. r = Inr (Inr (event, reused)) \<longrightarrow>
          ge_id event = js i \<and> (\<exists>v. ev (snd w') k (js i) = Some v \<and> stamped_with v slotId))"
proof -
  have trans: "kept_but x k (js i) z" if "kept_but x k (js i) y" "kept_but y k (js i) z" for x y z
    unfolding kept_but_def
  proof (intro allI)
    fix k' i'
    show "(k', i') = (k, js i) \<and> x k' i' = None \<or> z k' i' = x k' i'"
      using that [unfolded kept_but_def, rule_format, of k' i'] by auto
  qed
  have runs: "kept_but (ev (snd w)) k (js i) (ev (snd (insert_attempts net k slotId attempts w)))"
    using assms(3)
  proof (induction attempts arbitrary: w)
    case Nil
    show ?case by (simp add: kept_but_def)
  next
    case (Cons x rest)
    obtain t input where x: "x = (t, input)" by (rule prod.exhaust)
    obtain origin epoch where own: "pn_ownership input = Some (js origin, js slotId, epoch)" using Cons.prems x by auto
    obtain r1 w1 where run: "insertEventIdempotent net t k slotId input w = (r1, w1)" by (rule prod.exhaust)
    have "kept_but (ev (snd w)) k (js i) (ev (snd w1))" using attempt [OF assms(1,2) own run] by blast
    moreover have "kept_but (ev (snd w1)) k (js i) (ev (snd (insert_attempts net k slotId rest w1)))"
      by (rule Cons.IH) (use Cons.prems in auto)
    ultimately show ?case using trans by (simp add: x run)
  qed
  obtain origin epoch where "pn_ownership input0 = Some (js origin, js slotId, epoch)" using assms(3) by auto
  from attempt [OF assms(1,2) this assms(4)] runs trans show ?thesis by blast
qed


text \<open>A calendar as documented, which loses the answer of every insertion.\<close>

type_synonym demo_calendar = "js_text \<Rightarrow> js_text \<Rightarrow> json option"

definition demo_events :: "demo_calendar \<Rightarrow> js_text \<Rightarrow> js_text \<Rightarrow> json option" where
  "demo_events g k i = (case g k i of Some v \<Rightarrow> if json_text (json_field v ''id'') = Some i then Some v else None | None \<Rightarrow> None)"

definition answer_with :: "int \<Rightarrow> json \<Rightarrow> net_answer" where
  "answer_with status v = NetAnswered \<lparr>na_status = status, na_text = None, na_json = Inr v\<rparr>"

definition demo_network :: "demo_calendar network" where
  "demo_network q w =
     (case (nr_verb q, nr_url q, nr_body q) of
        (VerbPost, EventsUrl k, JsonBody b) \<Rightarrow>
          (case json_text (json_field b ''id'') of
             None \<Rightarrow> (answer_with 400 JNull, w)
           | Some i \<Rightarrow>
               if demo_events (snd w) k i = None
               then (NetFailed [], (fst w, (snd w)(k := (snd w k)(i \<mapsto> b))))
               else (answer_with 409 JNull, w))
      | (VerbGet, EventUrl k i, _) \<Rightarrow>
          (case demo_events (snd w) k i of None \<Rightarrow> (answer_with 404 JNull, w) | Some v \<Rightarrow> (answer_with 200 v, w))
      | _ \<Rightarrow> (NetFailed [], w))"

lemma demo_documented: "documented_calendar demo_network demo_events"
  unfolding documented_calendar_def
proof (intro conjI allI impI)
  show "json_text (json_field v ''id'') = Some i" if "demo_events g k i = Some v" for g k i v
    using that by (auto simp: demo_events_def split: option.splits if_splits)
next
  fix q and w :: "demo_calendar world" and k t b i
  assume q: "q = event_request VerbPost (EventsUrl k) t (JsonBody b) \<and> json_text (json_field b ''id'') = Some i"
  have put: "demo_events ((snd w)(k := (snd w k)(i \<mapsto> b))) = (demo_events (snd w))(k := (demo_events (snd w) k)(i \<mapsto> b))"
    using q by (intro ext) (simp add: demo_events_def)
  show "let (a, w') = demo_network q w in
      demo_events (snd w') = demo_events (snd w) \<and> answered_ok a = None
      \<or> demo_events (snd w) k i = None \<and> (\<exists>v. taken_over v b
           \<and> demo_events (snd w') = (demo_events (snd w))(k := (demo_events (snd w) k)(i \<mapsto> v))
           \<and> (answered_ok a = None \<or> answered_ok a = Some v))"
  proof (cases "demo_events (snd w) k i")
    case None
    have "demo_network q w = (NetFailed [], (fst w, (snd w)(k := (snd w k)(i \<mapsto> b))))"
      using q None by (simp add: demo_network_def event_request_def)
    then show ?thesis using None put by (auto simp: taken_over_def answered_ok_def)
  next
    case (Some v)
    have "demo_network q w = (answer_with 409 JNull, w)"
      using q Some by (simp add: demo_network_def event_request_def)
    then show ?thesis by (simp add: answered_ok_def answer_with_def response_ok_def)
  qed
next
  fix q and w :: "demo_calendar world" and k t i
  assume q: "q = event_request VerbGet (EventUrl k i) t NoBody"
  show "let (a, w') = demo_network q w in
      demo_events (snd w') = demo_events (snd w) \<and> (answered_ok a = None \<or> answered_ok a = demo_events (snd w) k i)"
    by (simp add: q demo_network_def event_request_def answered_ok_def answer_with_def response_ok_def split: option.split)
qed

lemma retried_insert_makes_one_event_witness:
  "\<exists>i r w'. let own = \<lparr>pn_startAt = None, pn_endAt = None, pn_summary = None, pn_description = None,
               pn_ownership = Some (js ''levelchannel'', js (uuid_of CHR ''1''), js ''e'')\<rparr>;
             w = (empty_cal, \<lambda>k i. None) in
     deterministicEventId (uuid_of CHR ''1'') = Inr i
     \<and> insertEventIdempotent demo_network [] [1] (uuid_of CHR ''1'') own
          (insert_attempts demo_network [1] (uuid_of CHR ''1'') [([], own), ([], own)] w) = (r, w')
     \<and> kept_but (demo_events (snd w)) [1] (js i) (demo_events (snd w'))"
proof -
  let ?s = "uuid_of CHR ''1''"
  let ?own = "\<lparr>pn_startAt = None, pn_endAt = None, pn_summary = None, pn_description = None,
               pn_ownership = Some (js ''levelchannel'', js ?s, js ''e'')\<rparr>"
  let ?w = "(empty_cal, \<lambda>k i. None) :: demo_calendar world"
  have "uuid_pattern ?s" by (simp add: hex_digit_def)
  then obtain i where i: "deterministicEventId ?s = Inr i"
    by (auto simp: deterministicEventId_def elim: base32_of_uuid)
  obtain r w' where run: "insertEventIdempotent demo_network [] [1] ?s ?own
      (insert_attempts demo_network [1] ?s [([], ?own), ([], ?own)] ?w) = (r, w')" by (rule prod.exhaust)
  have own: "\<forall>(t, input) \<in> set (([], ?own) # [([], ?own), ([], ?own)]). \<exists>origin epoch. pn_ownership input = Some (js origin, js ?s, epoch)"
    by auto
  from retried_insert_makes_one_event [OF demo_documented i own run] i run show ?thesis by (auto simp: Let_def)
qed

end
