(* ===== verification/Calendar_Intents.thy ===== *)
theory Calendar_Intents
  imports Calendar_Push Validation
begin

text \<open>
  What is owed to the calendar after a lesson was cancelled: the worker of \<open>src/lib/calendar/intent-worker.ts\<close>
  over \<open>slot_lifecycle_intents\<close>, and \<open>src/lib/calendar/orphan-cleanup.ts\<close>. Ids of new rows are drawn by an
  argument.
\<close>

section \<open>Intents\<close>

definition INTENT_MAX_ATTEMPTS :: int where "INTENT_MAX_ATTEMPTS = 10"

definition INTENT_BACKOFF_MS :: "int list" where
  "INTENT_BACKOFF_MS = [60000, 5 * 60000, 30 * 60000, 2 * 60 * 60000, 6 * 60 * 60000, 12 * 60 * 60000, 24 * 60 * 60000,
     2 * 24 * 60 * 60000, 3 * 24 * 60 * 60000, 3 * 24 * 60 * 60000]"

datatype intent_outcome =
    IoSucceeded uuid uuid
  | IoBlocked uuid uuid
  | IoRetried uuid uuid string
  | IoTerminal uuid uuid intent_reason
  | IoNoOp uuid uuid string

definition pg_update_intent :: "uuid \<Rightarrow> (intent_row \<Rightarrow> intent_row) \<Rightarrow> cal_db \<Rightarrow> exn + (unit \<times> cal_db)" where
  "pg_update_intent i f D =
     (case find_by in_id i (cd_intents D) of
        None \<Rightarrow> Inr ((), D)
      | Some x \<Rightarrow>
          if in_status (f x) = IntentPending
             \<and> list_ex (\<lambda>y. in_id y \<noteq> i \<and> in_slot_id y = in_slot_id x \<and> in_kind y = in_kind x \<and> in_status y = IntentPending) (cd_intents D)
          then Inl (PgErr UniqueViolation)
          else Inr ((), D\<lparr>cd_intents := replace_row in_id (f x) (cd_intents D)\<rparr>))"

definition claimNextIntent :: "clock \<Rightarrow> cal_db \<Rightarrow> exn + (intent_row option \<times> cal_db)" where
  "claimNextIntent c D =
     Inr (case min_by (\<lambda>x y. in_created_at x < in_created_at y)
             (filter (\<lambda>x. in_status x = IntentPending \<and> in_next_run_at x \<le> pg_now c) (cd_intents D)) of
        None \<Rightarrow> (None, D)
      | Some x \<Rightarrow>
          let x' = x\<lparr>in_status := IntentInProgress, in_attempts := in_attempts x + 1, in_last_run_at := Some (pg_now c)\<rparr> in
          (Some x', D\<lparr>cd_intents := replace_row in_id x' (cd_intents D)\<rparr>))"

definition markIntentSucceeded :: "intent_row \<Rightarrow> intent_outcome \<Rightarrow> ('g world, intent_outcome) prog" where
  "markIntentSucceeded x out =
     bindP (stmt (pg_update_intent (in_id x) (\<lambda>y. y\<lparr>in_status := IntentSucceeded, in_last_error := None\<rparr>))) (\<lambda>_. retP out)"

definition markBlocked :: "clock \<Rightarrow> intent_row \<Rightarrow> ('g world, intent_outcome) prog" where
  "markBlocked c x =
     bindP (stmt (pg_update_intent (in_id x) (\<lambda>y. y\<lparr>in_status := IntentBlocked, in_next_run_at := pg_now c + us_per_hour,
        in_last_error := Some (IrText ''integration_disconnected'')\<rparr>)))
       (\<lambda>_. retP (IoBlocked (in_id x) (in_slot_id x)))"

definition markTerminal :: "intent_row \<Rightarrow> intent_reason \<Rightarrow> ('g world, intent_outcome) prog" where
  "markTerminal x reason =
     bindP (stmt (pg_update_intent (in_id x) (\<lambda>y. y\<lparr>in_status := IntentTerminal, in_last_error := Some reason\<rparr>)))
       (\<lambda>_. retP (IoTerminal (in_id x) (in_slot_id x) reason))"

definition reschedule :: "clock \<Rightarrow> intent_row \<Rightarrow> string \<Rightarrow> ('g world, intent_outcome) prog" where
  "reschedule c x reason =
     (let idx = min (in_attempts x - 1) (int (length INTENT_BACKOFF_MS) - 1);
          next = js_now c + INTENT_BACKOFF_MS ! nat idx in
      bindP (stmt (pg_update_intent (in_id x)
               (\<lambda>y. y\<lparr>in_status := IntentPending, in_next_run_at := next * us_per_ms, in_last_error := Some (IrText reason)\<rparr>)))
        (\<lambda>_. retP (IoRetried (in_id x) (in_slot_id x) reason)))"

text \<open>The pending creation jobs of a lesson give way to its deletion.\<close>

definition cancel_pending_creates :: "uuid \<Rightarrow> cal_db \<Rightarrow> exn + (unit \<times> cal_db)" where
  "cancel_pending_creates slotId D = Inr ((), D\<lparr>cd_push_jobs :=
     map (\<lambda>j. if pj_slot_id j = slotId \<and> pj_kind j = JobCreate \<and> pj_status j = JobPending
              then j\<lparr>pj_status := JobCancelledByDependent\<rparr> else j) (cd_push_jobs D)\<rparr>)"

definition delete_job_live :: "uuid \<Rightarrow> cal_db \<Rightarrow> bool" where
  "delete_job_live slotId D \<longleftrightarrow>
     list_ex (\<lambda>j. pj_slot_id j = slotId \<and> pj_kind j = JobDelete \<and> pj_status j \<in> {JobPending, JobInProgress}) (cd_push_jobs D)"

definition processPostCancelPush :: "clock \<Rightarrow> uuid \<Rightarrow> intent_row \<Rightarrow> ('g world, intent_outcome) prog" where
  "processPostCancelPush c newId x =
     bindP (reading (\<lambda>D. map_option (\<lambda>r. (r, cd_bindings D (ls_id r), integration_of D (ls_teacher_account_id r)))
              (slot_by_id (cd_db D) (in_slot_id x)))) (\<lambda>ro. case ro of
       None \<Rightarrow> markTerminal x (IrText ''slot_missing'')
     | Some (r, b, None) \<Rightarrow>
         markIntentSucceeded x (IoNoOp (in_id x) (in_slot_id x)
           (if nonempty (bd_event_id b) \<noteq> None then ''no_integration_orphan_binding'' else ''no_integration_no_binding''))
     | Some (r, b, Some tci) \<Rightarrow>
         let writeCalendar = coalesce_opt (nonempty (ig_write_calendar_id tci)) (nonempty (bd_calendar_id b)) in
         if ig_sync_state tci = SyncDisconnected
         then (if in_attempts x \<ge> INTENT_MAX_ATTEMPTS then markTerminal x (IrBeyondAttempts (in_attempts x)) else markBlocked c x)
         else if ls_status r \<noteq> Cancelled then markTerminal x (IrNotCancelled (ls_status r))
         else case writeCalendar of
           None \<Rightarrow>
             if in_attempts x \<ge> INTENT_MAX_ATTEMPTS then markTerminal x (IrText ''no_write_calendar_id'')
             else reschedule c x ''no_write_calendar_id''
         | Some calendarId \<Rightarrow>
             bindP (stmt (enqueuePushJob c newId (ls_id r) (ls_teacher_account_id r) JobDelete
                      \<lparr>pl_write_calendar_id = Some calendarId, pl_lc_epoch = None, pl_summary = None\<rparr>)) (\<lambda>_.
             bindP (stmt (cancel_pending_creates (ls_id r))) (\<lambda>_.
             bindP (reading (delete_job_live (ls_id r))) (\<lambda>live.
               if \<not> live \<and> bd_event_id b \<noteq> None then reschedule c x ''enqueue_no_op_external_event_still_bound''
               else markIntentSucceeded x (IoSucceeded (in_id x) (in_slot_id x))))))"

definition processIntent :: "clock \<Rightarrow> (uuid \<Rightarrow> uuid) \<Rightarrow> intent_row \<Rightarrow> ('g world, intent_outcome) prog" where
  "processIntent c draw x =
     (if in_kind x = PostCancelPush then processPostCancelPush c (draw (in_id x)) x
      else markIntentSucceeded x (IoSucceeded (in_id x) (in_slot_id x)))"

fun drainIntents :: "clock \<Rightarrow> (uuid \<Rightarrow> uuid) \<Rightarrow> nat \<Rightarrow> ('g world, intent_outcome list) prog" where
  "drainIntents c draw 0 = retP []"
| "drainIntents c draw (Suc n) =
     bindP (stmt (claimNextIntent c)) (\<lambda>xo. case xo of
       None \<Rightarrow> retP []
     | Some x \<Rightarrow>
         bindP (processIntent c draw x) (\<lambda>outcome.
         bindP (drainIntents c draw n) (\<lambda>rest. retP (outcome # rest))))"

definition insertPostCancelIntent :: "clock \<Rightarrow> uuid \<Rightarrow> uuid \<Rightarrow> cal_db \<Rightarrow> exn + (unit \<times> cal_db)" where
  "insertPostCancelIntent c newId slotId D =
     (if list_ex (\<lambda>x. in_slot_id x = slotId \<and> in_kind x = PostCancelPush \<and> in_status x = IntentPending) (cd_intents D)
      then Inr ((), D)
      else if find_by in_id newId (cd_intents D) \<noteq> None then Inl (PgErr UniqueViolation)
      else if slot_by_id (cd_db D) slotId = None then Inl (PgErr ForeignKeyViolation)
      else Inr ((), D\<lparr>cd_intents := cd_intents D @
        [\<lparr>in_id = newId, in_slot_id = slotId, in_kind = PostCancelPush, in_status = IntentPending, in_attempts = 0,
          in_next_run_at = pg_now c, in_last_run_at = None, in_last_error = None, in_created_at = pg_now c\<rparr>]\<rparr>))"

definition intents_unique :: "intent_row list \<Rightarrow> bool" where
  "intents_unique xs \<longleftrightarrow>
     distinct (map (\<lambda>x. (in_slot_id x, in_kind x)) (filter (\<lambda>x. in_status x = IntentPending) xs))"

text \<open>One statement for all blocked intents: one that breaks the unique index fails them all.\<close>

definition revivable :: "cal_db \<Rightarrow> intent_row \<Rightarrow> bool" where
  "revivable D x \<longleftrightarrow> in_status x = IntentBlocked
     \<and> (case slot_by_id (cd_db D) (in_slot_id x) of None \<Rightarrow> False
        | Some r \<Rightarrow> (case integration_of D (ls_teacher_account_id r) of None \<Rightarrow> False
                      | Some tci \<Rightarrow> ig_sync_state tci \<in> {SyncActive, SyncDegraded}))"

definition reviveBlockedIntents :: "clock \<Rightarrow> cal_db \<Rightarrow> exn + (nat \<times> cal_db)" where
  "reviveBlockedIntents c D =
     (let xs = map (\<lambda>x. if revivable D x then x\<lparr>in_status := IntentPending, in_next_run_at := pg_now c\<rparr> else x) (cd_intents D) in
      if \<not> intents_unique xs then Inl (PgErr UniqueViolation)
      else Inr (length (filter (revivable D) (cd_intents D)), D\<lparr>cd_intents := xs\<rparr>))"

section \<open>Lessons bound under an earlier connection\<close>

record orphan_slot =
  os_slotId :: uuid
  os_startAt :: millis
  os_durationMinutes :: int
  os_status :: slot_status
  os_calendarId :: "js_text option"
  os_eventId :: js_text
  os_staleEpoch :: js_text

definition orphaned :: "gcal_row \<Rightarrow> uuid \<Rightarrow> slot_row \<Rightarrow> binding \<Rightarrow> bool" where
  "orphaned tci teacher r b \<longleftrightarrow> ls_teacher_account_id r = teacher \<and> bd_event_id b \<noteq> None
     \<and> (case bd_epoch b of None \<Rightarrow> False | Some ep \<Rightarrow> ep \<noteq> js (ig_epoch tci))"

definition listOrphanSelfSlotsForTeacher :: "string \<Rightarrow> cal_db \<Rightarrow> orphan_slot list" where
  "listOrphanSelfSlotsForTeacher teacher D =
     (if \<not> uuid_pattern teacher then []
      else case integration_of D (pg_uuid teacher) of
        None \<Rightarrow> []
      | Some tci \<Rightarrow>
          map (\<lambda>r. let b = cd_bindings D (ls_id r) in
                \<lparr>os_slotId = ls_id r, os_startAt = js_date_via_string (ls_start_at r), os_durationMinutes = ls_duration_minutes r,
                 os_status = ls_status r, os_calendarId = bd_calendar_id b, os_eventId = the (bd_event_id b),
                 os_staleEpoch = the (bd_epoch b)\<rparr>)
            (order_by (\<lambda>x y. ls_start_at x < ls_start_at y)
               (filter (\<lambda>r. orphaned tci (pg_uuid teacher) r (cd_bindings D (ls_id r))) (lesson_slots (cd_db D)))))"

definition unbound_orphan :: "clock \<Rightarrow> binding \<Rightarrow> binding" where
  "unbound_orphan c b = b\<lparr>bd_event_id := None, bd_calendar_id := None, bd_epoch := None, bd_reconciled_at := Some (pg_now c)\<rparr>"

definition ignoreOrphanSelfSlot :: "clock \<Rightarrow> string \<Rightarrow> string \<Rightarrow> cal_db \<Rightarrow> exn + (nat option \<times> cal_db)" where
  "ignoreOrphanSelfSlot c teacher slotId D =
     (if \<not> uuid_pattern teacher \<or> \<not> uuid_pattern slotId then Inr (None, D)
      else case integration_of D (pg_uuid teacher) of
        None \<Rightarrow> Inr (None, D)
      | Some tci \<Rightarrow>
          bindR (pg_update_binding (pg_uuid slotId) (orphaned tci (pg_uuid teacher)) id (unbound_orphan c) D)
            (\<lambda>(ro, D'). Inr (if ro = None then None else Some 1, D')))"

text \<open>The same for every lesson of the teacher, one after the other.\<close>

fun ignore_all :: "clock \<Rightarrow> gcal_row \<Rightarrow> uuid \<Rightarrow> uuid list \<Rightarrow> cal_db \<Rightarrow> exn + (nat \<times> cal_db)" where
  "ignore_all c tci teacher [] D = Inr (0, D)"
| "ignore_all c tci teacher (i # is) D =
     bindR (pg_update_binding i (orphaned tci teacher) id (unbound_orphan c) D) (\<lambda>(ro, D1).
     bindR (ignore_all c tci teacher is D1) (\<lambda>(n, D2). Inr ((if ro = None then 0 else 1) + n, D2)))"

definition ignoreAllOrphanSelfSlotsForTeacher :: "clock \<Rightarrow> string \<Rightarrow> cal_db \<Rightarrow> exn + (nat \<times> cal_db)" where
  "ignoreAllOrphanSelfSlotsForTeacher c teacher D =
     (if \<not> uuid_pattern teacher then Inr (0, D)
      else case integration_of D (pg_uuid teacher) of
        None \<Rightarrow> Inr (0, D)
      | Some tci \<Rightarrow> ignore_all c tci (pg_uuid teacher) (map ls_id (lesson_slots (cd_db D))) D)"

section \<open>No intent is settled for nothing\<close>

lemma update_intent_frame: "pg_update_intent i f D = Inr (x, D') \<Longrightarrow> cd_push_jobs D' = cd_push_jobs D \<and> cd_db D' = cd_db D"
  by (auto simp: pg_update_intent_def split: option.splits if_splits)

lemma enqueued_live:
  assumes "enqueuePushJob c newId slotId teacher JobDelete p D = Inr (b, D')"
  shows "delete_job_live slotId D'"
proof (cases "list_ex (\<lambda>x. pj_slot_id x = slotId \<and> pj_kind x = JobDelete \<and> pj_status x = JobPending) (cd_push_jobs D)")
  case True
  then have "D' = D" using assms by (simp add: enqueuePushJob_def)
  with True show ?thesis unfolding delete_job_live_def list_ex_iff by blast
next
  case False
  then show ?thesis using assms by (auto simp: enqueuePushJob_def delete_job_live_def split: if_splits)
qed

lemma mark_results:
  "markTerminal x reason v = (Inr out, v') \<Longrightarrow> out = IoTerminal (in_id x) (in_slot_id x) reason"
  "markBlocked c x v = (Inr out, v') \<Longrightarrow> out = IoBlocked (in_id x) (in_slot_id x)"
  "reschedule c x t v = (Inr out, v') \<Longrightarrow> out = IoRetried (in_id x) (in_slot_id x) t"
  "markIntentSucceeded x o' v = (Inr out, v') \<Longrightarrow> out = o'"
  by (auto simp: markTerminal_def markBlocked_def reschedule_def markIntentSucceeded_def Let_def bindP_def retP_def
      split: prod.splits sum.splits)

lemma cancel_creates_effect:
  assumes "cancel_pending_creates slotId D = Inr (u, D')"
  shows "delete_job_live slotId D' = delete_job_live slotId D"
    and "\<not> list_ex (\<lambda>j. pj_slot_id j = slotId \<and> pj_kind j = JobCreate \<and> pj_status j = JobPending) (cd_push_jobs D')"
proof -
  let ?f = "\<lambda>j. if pj_slot_id j = slotId \<and> pj_kind j = JobCreate \<and> pj_status j = JobPending
              then j\<lparr>pj_status := JobCancelledByDependent\<rparr> else j"
  have jobs: "cd_push_jobs D' = map ?f (cd_push_jobs D)" using assms by (auto simp: cancel_pending_creates_def)
  have same: "(pj_slot_id (?f j) = slotId \<and> pj_kind (?f j) = JobDelete \<and> pj_status (?f j) \<in> {JobPending, JobInProgress})
      = (pj_slot_id j = slotId \<and> pj_kind j = JobDelete \<and> pj_status j \<in> {JobPending, JobInProgress})" for j by simp
  show "delete_job_live slotId D' = delete_job_live slotId D"
    unfolding delete_job_live_def jobs list_ex_iff set_map bex_simps same ..
  have "\<not> (pj_slot_id (?f j) = slotId \<and> pj_kind (?f j) = JobCreate \<and> pj_status (?f j) = JobPending)" for j by simp
  then show "\<not> list_ex (\<lambda>j. pj_slot_id j = slotId \<and> pj_kind j = JobCreate \<and> pj_status j = JobPending) (cd_push_jobs D')"
    unfolding jobs list_ex_iff set_map by blast
qed

text \<open>
  An intent is settled only when what it stands for is on its way: the lesson is cancelled, its teacher has a
  connected calendar, the queue holds a live deletion of the lesson's event, and no insertion of it is pending any more.
\<close>

theorem settled_intent_has_its_deletion:
  assumes "processPostCancelPush c newId x w = (Inr (IoSucceeded i s), w')"
  shows "\<exists>r tci. slot_by_id (cd_db (fst w)) (in_slot_id x) = Some r \<and> ls_status r = Cancelled
     \<and> integration_of (fst w) (ls_teacher_account_id r) = Some tci \<and> ig_sync_state tci \<noteq> SyncDisconnected
     \<and> delete_job_live (ls_id r) (fst w')
     \<and> \<not> list_ex (\<lambda>j. pj_slot_id j = ls_id r \<and> pj_kind j = JobCreate \<and> pj_status j = JobPending) (cd_push_jobs (fst w'))"
proof -
  obtain D g where w: "w = (D, g)" by (rule prod.exhaust)
  have run: "processPostCancelPush c newId x (D, g) = (Inr (IoSucceeded i s), w')" using assms w by simp
  note go = processPostCancelPush_def bindP_def reading_def
  obtain r where r: "slot_by_id (cd_db D) (in_slot_id x) = Some r"
    using run by (cases "slot_by_id (cd_db D) (in_slot_id x)") (auto simp: go dest: mark_results)
  obtain tci where tci: "integration_of D (ls_teacher_account_id r) = Some tci"
    using run r by (cases "integration_of D (ls_teacher_account_id r)") (auto simp: go dest: mark_results)
  have conn: "ig_sync_state tci \<noteq> SyncDisconnected" and can: "ls_status r = Cancelled"
    using run r tci by (auto simp: go Let_def dest: mark_results split: if_splits)
  obtain k where k: "coalesce_opt (nonempty (ig_write_calendar_id tci)) (nonempty (bd_calendar_id (cd_bindings D (ls_id r)))) = Some k"
    using run r tci conn can
    by (cases "coalesce_opt (nonempty (ig_write_calendar_id tci)) (nonempty (bd_calendar_id (cd_bindings D (ls_id r))))")
       (auto simp: go dest: mark_results split: if_splits)
  define enq where "enq = enqueuePushJob c newId (ls_id r) (ls_teacher_account_id r) JobDelete
      \<lparr>pl_write_calendar_id = Some k, pl_lc_epoch = None, pl_summary = None\<rparr>"
  obtain b1 D1 where e1: "enq D = Inr (b1, D1)"
    using run r tci conn can k by (cases "enq D") (auto simp: go stmt_def enq_def)
  obtain D2 where e2: "cancel_pending_creates (ls_id r) D1 = Inr ((), D2)" by (simp add: cancel_pending_creates_def)
  have live: "delete_job_live (ls_id r) D2" using enqueued_live [of c newId] e1 cancel_creates_effect(1) [OF e2] by (auto simp: enq_def)
  have fin: "markIntentSucceeded x (IoSucceeded (in_id x) (in_slot_id x)) (D2, g) = (Inr (IoSucceeded i s), w')"
    using run r tci conn can k e1 e2 live unfolding enq_def by (simp add: go stmt_def Let_def)
  then have "cd_push_jobs (fst w') = cd_push_jobs D2"
    by (auto simp: markIntentSucceeded_def bindP_def retP_def stmt_def dest: update_intent_frame split: sum.splits prod.splits)
  then show ?thesis using r tci conn can live cancel_creates_effect(2) [OF e2] w by (auto simp: delete_job_live_def)
qed

section \<open>A cancelled lesson leaves the calendar\<close>

text \<open>The update that touches a cancelled lesson goes through.\<close>

lemma update_cancelled_binding:
  assumes r: "slot_by_id (cd_db D) i = Some r" and can: "ls_status r = Cancelled" and chk: "slot_check r"
    and P: "P r (cd_bindings D i)" and g: "bd_event_id (g (cd_bindings D i)) = None" "bd_calendar_id (g (cd_bindings D i)) = None"
  shows "\<exists>ro d'. pg_update_binding i P (\<lambda>r. r\<lparr>ls_updated_at := t\<rparr>) g D
     = Inr (ro, D\<lparr>cd_db := d', cd_bindings := (cd_bindings D)(i := g (cd_bindings D i))\<rparr>)"
proof -
  let ?r = "r\<lparr>ls_updated_at := t\<rparr>"
  have snap: "snapshot_on_book d ?r = ?r" for d
    using can by (auto simp: snapshot_on_book_def snapshot_value_def split: option.splits)
  have "\<not> slot_conflict d ?r" for d using can by (simp add: slot_conflict_def same_lane_def list_ex_iff)
  moreover have "snapshot_frozen r ?r" by (simp add: snapshot_frozen_def)
  ultimately have "\<exists>ro d'. pg_update_slot i (\<lambda>_. True) (\<lambda>r. r\<lparr>ls_updated_at := t\<rparr>) (cd_db D) = Inr (ro, d')"
    using r chk by (simp add: pg_update_slot_def snap Let_def)
  then show ?thesis using r P g by (auto simp: pg_update_binding_def Let_def binding_taken_def)
qed

text \<open>A call with a token that is still good is made once, with that token.\<close>

lemma fresh_token_used:
  assumes "getGoogleIntegration e acc D = Inr (Some ig)" and "gi_syncState ig \<noteq> SyncDisconnected"
    and "gi_accessToken ig = Some t" and "t \<noteq> []" and "gi_tokenExpiresAt ig = Some z" and "z > js_now c + REFRESH_SKEW_MS"
    and "exec t ig (D, g) = (Inr (CallOk v), w')"
  shows "withTokenRetry c e net acc exec (D, g) = (Inr (CallOk v), w')"
proof -
  have "nonempty (gi_accessToken ig) = Some t" using assms(3,4) by (cases t) (simp_all add: nonempty_def)
  then have "ensureFreshAccessToken c e net acc False (D, g) = (Inr (Fresh t ig False), (D, g))"
    using assms by (simp add: ensureFreshAccessToken_def bindP_def retP_def Let_def)
  then show ?thesis using assms(7)
    by (simp add: withTokenRetry_def retry_with_token_def bindP_def retP_def refused_401_def)
qed

lemma delete_answered:
  assumes "net (event_request VerbDelete (EventUrl k ev) t NoBody) (D, g) = (NetAnswered resp, (D, g'))"
    and "response_ok resp \<or> na_status resp \<in> {404, 410}"
  shows "deleteEvent net t k ev (D, g) = (Inr (Inr (na_status resp)), (D, g'))"
  using assms by (auto simp: deleteEvent_def bindP_def fetchP_def retP_def)

lemma replace_last:
  assumes "\<forall>x \<in> set old. key x \<noteq> key j" and "key j' = key j"
  shows "replace_row key j' (old @ [j]) = old @ [j']" and "find_by key (key j) (old @ [j]) = Some j"
proof -
  have "find_by key (key j) old = None" using assms(1) by (auto simp: find_by_None_iff)
  then show "find_by key (key j) (old @ [j]) = Some j" by (simp add: find_by_snoc)
  show "replace_row key j' (old @ [j]) = old @ [j']" using assms by (auto simp: replace_row_def intro: map_idI)
qed

lemma delete_job_runs:
  assumes r: "slot_by_id (cd_db D) i = Some r" and can: "ls_status r = Cancelled" and chk: "slot_check r"
    and b: "bd_event_id (cd_bindings D i) = Some ev" "ev \<noteq> []" "bd_calendar_id (cd_bindings D i) = Some k" "k \<noteq> []"
    and job: "cd_push_jobs D = old @ [j]" "job_due c j" "pj_kind j = JobDelete" "pj_slot_id j = i"
    and old: "\<forall>x \<in> set old. \<not> job_due c x \<and> pj_id x \<noteq> pj_id j"
    and tok: "getGoogleIntegration e (pj_teacher_account_id j) D = Inr (Some ig)" "gi_syncState ig \<noteq> SyncDisconnected"
      "gi_accessToken ig = Some t" "t \<noteq> []" "gi_tokenExpiresAt ig = Some z" "z > js_now c + REFRESH_SKEW_MS"
    and net: "\<And>D'. net (event_request VerbDelete (EventUrl k ev) t NoBody) (D', g) = (NetAnswered resp, (D', g'))"
      "response_ok resp \<or> na_status resp \<in> {404, 410}"
  shows "\<exists>w'. drainPushJobs c e net 1 (D, g) = (Inr [PushSucceeded (pj_id j) i], w') \<and> snd w' = g'
     \<and> bd_event_id (cd_bindings (fst w') i) = None \<and> bd_calendar_id (cd_bindings (fst w') i) = None
     \<and> (\<exists>j'. cd_push_jobs (fst w') = old @ [j'] \<and> pj_id j' = pj_id j \<and> pj_slot_id j' = i \<and> pj_kind j' = JobDelete
          \<and> pj_status j' = JobSucceeded) \<and> cd_intents (fst w') = cd_intents D"
proof -
  let ?j = "j\<lparr>pj_status := JobInProgress, pj_attempts := pj_attempts j + 1, pj_last_attempt_at := Some (pg_now c)\<rparr>"
  let ?D = "D\<lparr>cd_push_jobs := old @ [?j]\<rparr>"
  have ids: "\<forall>x \<in> set old. pj_id x \<noteq> pj_id j" using old by blast
  have "filter (job_due c) old = []" using old by (simp add: filter_empty_conv)
  then have claim: "claimNextJob c D = Inr (Some ?j, ?D)"
    using replace_last(1) [of old pj_id j ?j] ids by (simp add: claimNextJob_def job(1,2) Let_def)
  have ri: "ls_id r = i" using r by (auto dest: slot_by_id_SomeD)
  have non: "nonempty (Some ev) = Some ev" "nonempty (Some k) = Some k" using b(2,4) by (auto simp: nonempty_def split: list.splits)
  define slot where "slot = \<lparr>ps_slotId = i, ps_startAt = js_date_via_string (ls_start_at r),
          ps_endAt = js_date_via_string (ls_start_at r + ls_duration_minutes r * us_per_minute),
          ps_cancelled = True, ps_eventId = Some ev, ps_calendarId = Some k\<rparr>"
  have slot: "readSlot i ?D = Some slot" by (simp add: readSlot_def r can ri b non slot_def)
  have "getGoogleIntegration e (pj_teacher_account_id j) ?D = getGoogleIntegration e (pj_teacher_account_id j) D"
    by (simp add: getGoogleIntegration_def integration_of_def)
  with tok(1) have ig: "getGoogleIntegration e (pj_teacher_account_id j) ?D = Inr (Some ig)" by simp
  define exec :: "('a, unit, push_error) token_exec" where "exec = (\<lambda>token ig. bindP (deleteEvent net token k ev)
     (\<lambda>r. retP (case r of Inr _ \<Rightarrow> CallOk () | Inl err \<Rightarrow> CallFailed (is_401 err) (RawCall err))))"
  have "exec t ig (?D, g) = (Inr (CallOk ()), (?D, g'))"
    using delete_answered [of net k ev t ?D, OF net] by (simp add: exec_def bindP_def retP_def)
  from fresh_token_used [where exec = exec, OF ig tok(2-6) this]
  have call: "withTokenRetry c e net (pj_teacher_account_id j) exec (?D, g) = (Inr (CallOk ()), (?D, g'))" .
  let ?b = "(cd_bindings D i)\<lparr>bd_event_id := None, bd_calendar_id := None, bd_etag := None\<rparr>"
  obtain ro d' where up: "pg_update_binding i (\<lambda>_ b. ps_eventId slot \<noteq> None \<and> bd_event_id b = ps_eventId slot)
      (\<lambda>r. r\<lparr>ls_updated_at := pg_now c\<rparr>) (\<lambda>b. b\<lparr>bd_event_id := None, bd_calendar_id := None, bd_etag := None\<rparr>) ?D
      = Inr (ro, ?D\<lparr>cd_db := d', cd_bindings := (cd_bindings D)(i := ?b)\<rparr>)"
    using update_cancelled_binding [of ?D i r "\<lambda>_ b. ps_eventId slot \<noteq> None \<and> bd_event_id b = ps_eventId slot"
        "\<lambda>b. b\<lparr>bd_event_id := None, bd_calendar_id := None, bd_etag := None\<rparr>" "pg_now c"] r can chk b by (auto simp: slot_def)
  let ?D' = "?D\<lparr>cd_db := d', cd_bindings := (cd_bindings D)(i := ?b), cd_push_jobs := old @ [job_succeeded ?j]\<rparr>"
  have fin: "unbind_and_succeed c ?j slot ?D = Inr ((), ?D')"
  proof -
    have "unbind_and_succeed c ?j slot ?D = bindR (Inr (ro, ?D\<lparr>cd_db := d', cd_bindings := (cd_bindings D)(i := ?b)\<rparr>))
        (\<lambda>(_, D'). pg_update_job (pj_id ?j) job_succeeded D')"
      unfolding unbind_and_succeed_def using up by (simp add: slot_def)
    then show ?thesis
      using replace_last [of old pj_id ?j "job_succeeded ?j"] ids by (simp add: pg_update_job_def job_succeeded_def)
  qed
  have proc: "processJob c e net ?j (?D, g) = (Inr (PushSucceeded (pj_id j) i), (?D', g'))"
  proof -
    note calls = bindP_step [where m = "withTokenRetry c e net (pj_teacher_account_id j) exec", OF call, unfolded exec_def]
    have last: "stmt (unbind_and_succeed c ?j slot) (?D, g') = (Inr (), (?D', g'))" using fin by (rule stmt_simps)
    show ?thesis
      using slot by (simp add: processJob_def job(3) processDelete_def run_simps job(4) slot_def [symmetric])
        (simp add: slot_def run_simps non Let_def calls
          bindP_step [where m = "stmt (unbind_and_succeed c ?j slot)", OF last, unfolded slot_def])
  qed
  have "drainPushJobs c e net 1 (D, g) = (Inr [PushSucceeded (pj_id j) i], (?D', g'))"
    unfolding One_nat_def drainPushJobs.simps using claim proc by (simp add: bindP_def stmt_def retP_def)
  then show ?thesis by (intro exI [of _ "(?D', g')"]) (simp add: job_succeeded_def job)
qed

text \<open>The queue after the pending creations of a lesson were given up.\<close>

definition given_up :: "uuid \<Rightarrow> push_job \<Rightarrow> push_job" where
  "given_up i j = (if pj_slot_id j = i \<and> pj_kind j = JobCreate \<and> pj_status j = JobPending
     then j\<lparr>pj_status := JobCancelledByDependent\<rparr> else j)"

lemma given_up_facts:
  "pj_id (given_up i j) = pj_id j" "job_due c (given_up i j) \<Longrightarrow> job_due c j"
  by (auto simp: given_up_def job_due_def split: if_splits)

lemma cancel_creates_given_up: "cancel_pending_creates i D = Inr ((), D\<lparr>cd_push_jobs := map (given_up i) (cd_push_jobs D)\<rparr>)"
  by (simp add: cancel_pending_creates_def given_up_def [abs_def])

text \<open>
  C18: the way of a cancelled lesson out of the calendar, over both workers. The intent is stored with the
  cancellation; the first worker turns it into a deletion and gives up a creation that still waits; the second one
  deletes the event (or finds it gone) and unbinds the lesson. At the end the intent and the deletion have succeeded and
  the lesson names no event. The queues may hold anything that is not due when the workers come, above all the finished
  job that once put the lesson into the calendar; there is no earlier intent or deletion of this lesson that waits.
\<close>

theorem cancelled_lesson_leaves_the_calendar:
  assumes r: "slot_by_id (cd_db D) i = Some r" "ls_status r = Cancelled" "slot_check r"
    and b: "bd_event_id (cd_bindings D i) = Some ev" "ev \<noteq> []" "bd_calendar_id (cd_bindings D i) = Some k" "k \<noteq> []"
    and intents: "\<forall>x \<in> set (cd_intents D). in_id x \<noteq> n
        \<and> (in_status x = IntentPending \<longrightarrow> in_slot_id x \<noteq> i \<and> in_next_run_at x > pg_now c1)"
    and jobs: "\<forall>j \<in> set (cd_push_jobs D). pj_id j \<noteq> draw n \<and> \<not> job_due c2 j
        \<and> \<not> (pj_slot_id j = i \<and> pj_kind j = JobDelete \<and> pj_status j = JobPending)"
    and later: "pg_now c0 \<le> pg_now c1" "pg_now c1 \<le> pg_now c2"
    and tci: "integration_of D (ls_teacher_account_id r) = Some tci" "ig_sync_state tci \<noteq> SyncDisconnected"
    and tok: "getGoogleIntegration e (ls_teacher_account_id r) D = Inr (Some ig)" "gi_syncState ig \<noteq> SyncDisconnected"
      "gi_accessToken ig = Some t" "t \<noteq> []" "gi_tokenExpiresAt ig = Some z" "z > js_now c2 + REFRESH_SKEW_MS"
    and net: "\<forall>D'. net (event_request VerbDelete (EventUrl k ev) t NoBody) (D', g) = (NetAnswered resp, (D', g'))"
      "response_ok resp \<or> na_status resp \<in> {404, 410}"
  shows "\<exists>D1 D2 D3. insertPostCancelIntent c0 n i D = Inr ((), D1)
     \<and> drainIntents c1 draw 1 (D1, g) = (Inr [IoSucceeded n i], (D2, g))
     \<and> drainPushJobs c2 e net 1 (D2, g) = (Inr [PushSucceeded (draw n) i], (D3, g'))
     \<and> bd_event_id (cd_bindings D3 i) = None \<and> bd_calendar_id (cd_bindings D3 i) = None
     \<and> (\<exists>y. cd_intents D3 = cd_intents D @ [y] \<and> in_id y = n \<and> in_status y = IntentSucceeded)
     \<and> (\<exists>j. cd_push_jobs D3 = map (given_up i) (cd_push_jobs D) @ [j] \<and> pj_id j = draw n \<and> pj_slot_id j = i
          \<and> pj_kind j = JobDelete \<and> pj_status j = JobSucceeded)"
proof -
  let ?old = "map (given_up i) (cd_push_jobs D)"
  define x where "x = \<lparr>in_id = n, in_slot_id = i, in_kind = PostCancelPush, in_status = IntentPending, in_attempts = 0,
          in_next_run_at = pg_now c0, in_last_run_at = None, in_last_error = None, in_created_at = pg_now c0\<rparr>"
  define D1 where "D1 = D\<lparr>cd_intents := cd_intents D @ [x]\<rparr>"
  have fresh: "\<forall>y \<in> set (cd_intents D). in_id y \<noteq> n" using intents by blast
  have "find_by in_id n (cd_intents D) = None" using fresh by (auto simp: find_by_None_iff)
  moreover have "\<not> list_ex (\<lambda>x. in_slot_id x = i \<and> in_kind x = PostCancelPush \<and> in_status x = IntentPending) (cd_intents D)"
    using intents by (auto simp: list_ex_iff)
  ultimately have ins: "insertPostCancelIntent c0 n i D = Inr ((), D1)"
    by (simp add: insertPostCancelIntent_def r D1_def x_def)
  let ?x = "x\<lparr>in_status := IntentInProgress, in_attempts := in_attempts x + 1, in_last_run_at := Some (pg_now c1)\<rparr>"
  let ?y = "?x\<lparr>in_status := IntentSucceeded, in_last_error := None\<rparr>"
  have "filter (\<lambda>x. in_status x = IntentPending \<and> in_next_run_at x \<le> pg_now c1) (cd_intents D) = []"
    using intents by (auto simp: filter_empty_conv)
  moreover have "replace_row in_id ?x (cd_intents D @ [x]) = cd_intents D @ [?x]"
    using fresh by (intro replace_last(1)) (simp_all add: x_def)
  ultimately have claim: "claimNextIntent c1 D1 = Inr (Some ?x, D1\<lparr>cd_intents := cd_intents D @ [?x]\<rparr>)"
    using later(1) by (simp add: claimNextIntent_def D1_def Let_def) (simp add: x_def)
  have ri: "ls_id r = i" using r by (auto dest: slot_by_id_SomeD)
  have non: "nonempty (Some k) = Some k" using b(4) by (auto simp: nonempty_def split: list.splits)
  obtain k' where k': "coalesce_opt (nonempty (ig_write_calendar_id tci)) (nonempty (bd_calendar_id (cd_bindings D i))) = Some k'"
    by (cases "nonempty (ig_write_calendar_id tci)") (simp_all add: b non)
  define job where "job = \<lparr>pj_id = draw n, pj_slot_id = i, pj_teacher_account_id = ls_teacher_account_id r, pj_kind = JobDelete,
      pj_payload = \<lparr>pl_write_calendar_id = Some k', pl_lc_epoch = None, pl_summary = None\<rparr>, pj_status = JobPending, pj_attempts = 0,
      pj_next_run_at = pg_now c1, pj_last_attempt_at = None, pj_last_error = None, pj_created_at = pg_now c1\<rparr>"
  define D2 where "D2 = D\<lparr>cd_intents := cd_intents D @ [?y], cd_push_jobs := ?old @ [job]\<rparr>"
  have proc: "processIntent c1 draw ?x (D1\<lparr>cd_intents := cd_intents D @ [?x]\<rparr>, g) = (Inr (IoSucceeded n i), (D2, g))"
  proof -
    let ?E = "D1\<lparr>cd_intents := cd_intents D @ [?x]\<rparr>" and ?F = "D1\<lparr>cd_intents := cd_intents D @ [?x], cd_push_jobs := cd_push_jobs D @ [job]\<rparr>"
    let ?G = "D1\<lparr>cd_intents := cd_intents D @ [?x], cd_push_jobs := ?old @ [job]\<rparr>"
    have "find_by pj_id (draw n) (cd_push_jobs D) = None" using jobs by (auto simp: find_by_None_iff)
    moreover have "\<not> list_ex (\<lambda>x. pj_slot_id x = i \<and> pj_kind x = JobDelete \<and> pj_status x = JobPending) (cd_push_jobs D)"
      using jobs by (auto simp: list_ex_iff)
    ultimately have enq: "enqueuePushJob c1 (draw n) i (ls_teacher_account_id r) JobDelete
        \<lparr>pl_write_calendar_id = Some k', pl_lc_epoch = None, pl_summary = None\<rparr> ?E = Inr (True, ?F)"
      by (simp add: enqueuePushJob_def D1_def r job_def)
    have can: "cancel_pending_creates i ?F = Inr ((), ?G)"
      by (simp add: cancel_creates_given_up) (simp add: given_up_def job_def)
    have live: "delete_job_live i ?G" by (simp add: delete_job_live_def job_def)
    have mark: "pg_update_intent n (\<lambda>y. y\<lparr>in_status := IntentSucceeded, in_last_error := None\<rparr>) ?G = Inr ((), D2)"
      using replace_last [of "cd_intents D" in_id ?x ?y] fresh by (simp add: pg_update_intent_def x_def D1_def D2_def)
    have x: "in_kind ?x = PostCancelPush" "in_id ?x = n" "in_slot_id ?x = i" by (simp_all add: x_def)
    have seen: "slot_by_id (cd_db D1) i = Some r" "cd_bindings D1 = cd_bindings D" "integration_of ?E u = integration_of D u" for u
      by (simp_all add: D1_def r integration_of_def)
    show ?thesis
      unfolding processIntent_def x processPostCancelPush_def markIntentSucceeded_def run_simps(1)
      using r(2) tci k' live
      by (simp add: x seen ri Let_def bindP_step [where m = "stmt t" for t, OF stmt_simps(1)] enq can mark run_simps(1,5)
        del: cal_db.update_convs)
  qed
  have drain: "drainIntents c1 draw 1 (D1, g) = (Inr [IoSucceeded n i], (D2, g))"
    unfolding One_nat_def drainIntents.simps using claim proc by (simp add: bindP_def stmt_def retP_def)
  have same: "cd_db D2 = cd_db D" "cd_bindings D2 = cd_bindings D" "cd_push_jobs D2 = ?old @ [job]"
      "getGoogleIntegration e u D2 = getGoogleIntegration e u D" "cd_intents D2 = cd_intents D @ [?y]" for u
    by (simp_all add: D2_def getGoogleIntegration_def integration_of_def)
  have old: "\<forall>j \<in> set ?old. \<not> job_due c2 j \<and> pj_id j \<noteq> pj_id job"
    using jobs by (auto simp: given_up_facts(1) job_def dest: given_up_facts(2))
  have "\<exists>w'. drainPushJobs c2 e net 1 (D2, g) = (Inr [PushSucceeded (pj_id job) i], w') \<and> snd w' = g'
     \<and> bd_event_id (cd_bindings (fst w') i) = None \<and> bd_calendar_id (cd_bindings (fst w') i) = None
     \<and> (\<exists>j'. cd_push_jobs (fst w') = ?old @ [j'] \<and> pj_id j' = pj_id job \<and> pj_slot_id j' = i \<and> pj_kind j' = JobDelete
          \<and> pj_status j' = JobSucceeded) \<and> cd_intents (fst w') = cd_intents D2"
    by (rule delete_job_runs [where r = r and ev = ev and k = k and ig = ig and t = t and z = z and resp = resp, OF _ _ _ _ _ _ _ _ _ _ _ old])
       (use r b tok net later(2) in \<open>simp_all add: same job_def job_due_def\<close>)
  then obtain D3 j where "drainPushJobs c2 e net 1 (D2, g) = (Inr [PushSucceeded (draw n) i], (D3, g'))"
      "bd_event_id (cd_bindings D3 i) = None" "bd_calendar_id (cd_bindings D3 i) = None"
      "cd_push_jobs D3 = ?old @ [j]" "pj_id j = draw n" "pj_slot_id j = i" "pj_kind j = JobDelete" "pj_status j = JobSucceeded"
      "cd_intents D3 = cd_intents D @ [?y]"
    using same(5) by (auto simp: job_def)
  with ins drain show ?thesis by (intro exI [of _ D1] exI [of _ D2] exI [of _ D3]) (simp add: x_def)
qed

text \<open>A teacher connected with a token that is good until 2027, and a cancelled lesson in the calendar \<open>[99]\<close>.\<close>

definition sample_integration :: gcal_row where
  "sample_integration = \<lparr>ig_account_id = uuid_of CHR ''a'', ig_access_token_enc = Some (Sealed [116] (replicate 32 107)),
     ig_refresh_token_enc = None, ig_scope = None, ig_token_expires_at = Some 1800000000000000, ig_read_calendar_ids = [[99]],
     ig_write_calendar_id = Some [99], ig_sync_state = SyncActive, ig_epoch = ''e1'', ig_last_pulled_at = None,
     ig_last_push_at = None, ig_last_reconnected_at = None, ig_last_error = None, ig_channel_id = None,
     ig_channel_resource_id = None, ig_channel_expires_at = None, ig_channel_token = None, ig_channel_token_enc = None,
     ig_last_seen_message_number = None, ig_next_sync_token = None, ig_created_at = 0, ig_updated_at = 0\<rparr>"

definition sample_cancelled :: slot_row where
  "sample_cancelled = sample_slot\<lparr>ls_status := Cancelled, ls_cancelled_at := Some 1767500000000000\<rparr>"

definition sample_cal :: cal_db where
  "sample_cal = empty_cal\<lparr>cd_db := empty_db\<lparr>lesson_slots := [sample_cancelled]\<rparr>,
     cd_bindings := (\<lambda>_. no_binding\<lparr>bd_event_id := Some [101], bd_calendar_id := Some [99], bd_epoch := Some (js ''e1'')\<rparr>),
     cd_integrations := [sample_integration]\<rparr>"

definition sample_cal_clock :: clock where
  "sample_cal_clock = \<lparr>pg_now = 1767510000000000, js_now = 1767510000000\<rparr>"

lemma sample_cal_facts:
  "slot_by_id (cd_db sample_cal) (uuid_of CHR ''1'') = Some sample_cancelled" "ls_status sample_cancelled = Cancelled"
  "slot_check sample_cancelled" "ls_teacher_account_id sample_cancelled = uuid_of CHR ''a''"
  "ls_id sample_cancelled = uuid_of CHR ''1''"
  "integration_of sample_cal (uuid_of CHR ''a'') = Some sample_integration" "ig_sync_state sample_integration = SyncActive"
  "getGoogleIntegration sample_cal_env (uuid_of CHR ''a'') sample_cal = Inr (Some (rowToRecord sample_integration (Some [116]) None))"
proof -
  have "hex_digit CHR ''a''" by (simp add: hex_digit_def)
  then have "uuid_pattern (uuid_of CHR ''a'')" by simp
  moreover have "lower_hex CHR ''a'' = CHR ''a''" by (simp add: lower_hex_def)
  moreover have "getCalendarEncryptionKey sample_cal_env = Inr (Some (replicate 32 107))"
    by (simp add: getCalendarEncryptionKey_def sample_cal_env_def js_trim_def js_space_def readAndValidate_def MIN_KEY_LENGTH_def)
  moreover have "getCalendarEncryptionKeyOld sample_cal_env = Inr None"
    by (simp add: getCalendarEncryptionKeyOld_def sample_cal_env_def js_trim_def)
  ultimately show "getGoogleIntegration sample_cal_env (uuid_of CHR ''a'') sample_cal
      = Inr (Some (rowToRecord sample_integration (Some [116]) None))"
    by (simp add: getGoogleIntegration_def integration_of_def sample_cal_def empty_cal_def sample_integration_def find_by_single
        pgp_sym_decrypt_either_def pgp_sym_decrypt_def)
qed (simp_all add: slot_by_id_def sample_cal_def empty_cal_def sample_cancelled_def find_by_single sample_slot_def integration_of_def
  sample_integration_def slot_check_defs msk_defs)

text \<open>The same calendar with what put the lesson there: the creation, done.\<close>

definition sample_create_job :: push_job where
  "sample_create_job = \<lparr>pj_id = ''c'', pj_slot_id = uuid_of CHR ''1'', pj_teacher_account_id = uuid_of CHR ''a'', pj_kind = JobCreate,
     pj_payload = \<lparr>pl_write_calendar_id = Some [99], pl_lc_epoch = Some (js ''e1''), pl_summary = None\<rparr>, pj_status = JobSucceeded,
     pj_attempts = 1, pj_next_run_at = 0, pj_last_attempt_at = Some 0, pj_last_error = None, pj_created_at = 0\<rparr>"

lemma cancelled_lesson_leaves_the_calendar_witness:
  "\<exists>D1 D2 D3. let net = (\<lambda>q w. (NetAnswered \<lparr>na_status = 204, na_text = None, na_json = Inl []\<rparr>, (fst w, snd w + 1))) :: nat network in
     insertPostCancelIntent sample_cal_clock ''n'' (uuid_of CHR ''1'') (sample_cal\<lparr>cd_push_jobs := [sample_create_job]\<rparr>) = Inr ((), D1)
     \<and> drainIntents sample_cal_clock (\<lambda>_. ''j'') 1 (D1, 0 :: nat) = (Inr [IoSucceeded ''n'' (uuid_of CHR ''1'')], (D2, 0))
     \<and> drainPushJobs sample_cal_clock sample_cal_env net 1 (D2, 0) = (Inr [PushSucceeded ''j'' (uuid_of CHR ''1'')], (D3, 1))
     \<and> bd_event_id (cd_bindings D3 (uuid_of CHR ''1'')) = None"
proof -
  let ?net = "(\<lambda>q w. (NetAnswered \<lparr>na_status = 204, na_text = None, na_json = Inl []\<rparr>, (fst w, snd w + 1))) :: nat network"
  let ?D = "sample_cal\<lparr>cd_push_jobs := [sample_create_job]\<rparr>" and ?i = "uuid_of CHR ''1''"
  have seen: "cd_db ?D = cd_db sample_cal" "integration_of ?D u = integration_of sample_cal u"
      "getGoogleIntegration x u ?D = getGoogleIntegration x u sample_cal" for u x
    by (simp_all add: integration_of_def getGoogleIntegration_def)
  have "\<exists>D1 D2 D3. insertPostCancelIntent sample_cal_clock ''n'' ?i ?D = Inr ((), D1)
     \<and> drainIntents sample_cal_clock (\<lambda>_. ''j'') 1 (D1, 0 :: nat) = (Inr [IoSucceeded ''n'' ?i], (D2, 0))
     \<and> drainPushJobs sample_cal_clock sample_cal_env ?net 1 (D2, 0) = (Inr [PushSucceeded ((\<lambda>_. ''j'') ''n'') ?i], (D3, 1))
     \<and> bd_event_id (cd_bindings D3 ?i) = None \<and> bd_calendar_id (cd_bindings D3 ?i) = None
     \<and> (\<exists>y. cd_intents D3 = cd_intents ?D @ [y] \<and> in_id y = ''n'' \<and> in_status y = IntentSucceeded)
     \<and> (\<exists>j. cd_push_jobs D3 = map (given_up ?i) (cd_push_jobs ?D) @ [j] \<and> pj_id j = (\<lambda>_. ''j'') ''n'' \<and> pj_slot_id j = ?i
          \<and> pj_kind j = JobDelete \<and> pj_status j = JobSucceeded)"
    by (rule cancelled_lesson_leaves_the_calendar [where r = sample_cancelled and tci = sample_integration and ev = "[101]" and k = "[99]"
          and t = "[116]" and z = 1800000000000 and ig = "rowToRecord sample_integration (Some [116]) None"
          and resp = "\<lparr>na_status = 204, na_text = None, na_json = Inl []\<rparr>"])
      (simp_all add: sample_cal_facts seen, simp_all add: sample_cal_def empty_cal_def rowToRecord_def sample_integration_def sample_cal_clock_def
        REFRESH_SKEW_MS_def js_date_via_string_def js_date_def us_per_ms_def response_ok_def sample_create_job_def job_due_def)
  then show ?thesis by (auto simp: Let_def)
qed

lemma settled_intent_has_its_deletion_witness:
  "\<exists>w'. let x = \<lparr>in_id = ''n'', in_slot_id = uuid_of CHR ''1'', in_kind = PostCancelPush, in_status = IntentInProgress, in_attempts = 1,
          in_next_run_at = 0, in_last_run_at = None, in_last_error = None, in_created_at = 0\<rparr> in
     processPostCancelPush sample_cal_clock ''j'' x (sample_cal, ()) = (Inr (IoSucceeded ''n'' (uuid_of CHR ''1'')), w')
     \<and> delete_job_live (uuid_of CHR ''1'') (fst w')"
proof -
  let ?x = "\<lparr>in_id = ''n'', in_slot_id = uuid_of CHR ''1'', in_kind = PostCancelPush, in_status = IntentInProgress, in_attempts = 1,
          in_next_run_at = 0, in_last_run_at = None, in_last_error = None, in_created_at = 0\<rparr>"
  have "\<exists>w'. processPostCancelPush sample_cal_clock ''j'' ?x (sample_cal, ()) = (Inr (IoSucceeded ''n'' (uuid_of CHR ''1'')), w')"
    unfolding processPostCancelPush_def run_simps(1) fst_conv
    by (simp add: sample_cal_facts Let_def)
       (simp add: sample_cal_def empty_cal_def sample_integration_def nonempty_def enqueuePushJob_def bindP_def stmt_def find_by_def reading_def
         slot_by_id_def sample_cancelled_def sample_slot_def cancel_pending_creates_def delete_job_live_def markIntentSucceeded_def
         pg_update_intent_def retP_def)
  then obtain w' where run: "processPostCancelPush sample_cal_clock ''j'' ?x (sample_cal, ()) = (Inr (IoSucceeded ''n'' (uuid_of CHR ''1'')), w')" ..
  from settled_intent_has_its_deletion [OF run] have "delete_job_live (uuid_of CHR ''1'') (fst w')"
    by (auto simp: sample_cal_facts)
  with run show ?thesis by (auto simp: Let_def)
qed

end
