(* ===== verification/Calendar_Reconcile.thy ===== *)
theory Calendar_Reconcile
  imports Calendar_Intents
begin

text \<open>
  The daily comparison of bound lessons with the calendar: \<open>src/lib/calendar/reconcile-runner.ts\<close> and
  \<open>fetchEventById\<close> of \<open>src/lib/calendar/google/pull.ts\<close>. The one call of the network is an argument here as it is in
  the source (\<open>fetchEventImpl\<close>).
\<close>

section \<open>One event\<close>

datatype fetch_reason = FeNotFound | FeRateLimited | FeServerError int | FeAuthExpired | FeForbidden | FeNetwork js_text | FeShape js_text

definition fetchEventById :: "'g network \<Rightarrow> js_text \<Rightarrow> js_text \<Rightarrow> js_text \<Rightarrow> ('g world, fetch_reason + json) prog" where
  "fetchEventById net token calendarId eventId =
     bindP (fetchP net (event_request VerbGet (EventUrl calendarId eventId) token NoBody)) (\<lambda>a. retP (case a of
       NetFailed m \<Rightarrow> Inl (FeNetwork m)
     | NetAnswered r \<Rightarrow>
         if response_ok r
         then (case na_json r of
                 Inl m \<Rightarrow> Inl (FeShape m)
               | Inr v \<Rightarrow>
                   if \<not> json_is_object v then Inl (FeShape (js ''events.get returned non-object''))
                   else if nonempty (json_text (json_field v ''id'')) = None
                   then Inl (FeShape (js ''events.get returned event without id''))
                   else Inr v)
         else if na_status r = 404 \<or> na_status r = 410 then Inl FeNotFound
         else if na_status r = 401 then Inl FeAuthExpired
         else if na_status r = 403 then Inl FeForbidden
         else if na_status r = 429 then Inl FeRateLimited
         else if na_status r \<ge> 500 \<and> na_status r < 600 then Inl (FeServerError (na_status r))
         else Inl (FeShape (js ''unexpected events.get status''))))"

section \<open>The sweep\<close>

datatype gate_skip = GateInflight | GateRecentSuccess | GateTerminalNoChange

datatype reconcile_outcome =
    RcHealthy | RcOrphanSelf | RcUnboundDriftResolved | RcUnboundSyncFailure | RcCancelReenqueued | RcGateSkipped gate_skip
  | RcRateLimited | RcServerError int | RcAuthExpired | RcForbidden | RcNetwork js_text | RcShape js_text
  | RcIntegrationMissing | RcIntegrationDisconnected | RcStateChanged | RcUnboundAlien | RcThrown exn

record candidate =
  cn_id :: uuid
  cn_teacherAccountId :: uuid
  cn_calendarId :: js_text
  cn_eventId :: js_text
  cn_epoch :: "js_text option"
  cn_cancelled :: bool

text \<open>\<open>order by (cancelled first), last_reconciled_at nulls first, start_at\<close>.\<close>

definition null_or_le :: "micros option \<Rightarrow> micros option \<Rightarrow> bool" where
  "null_or_le x y = (case (x, y) of (None, None) \<Rightarrow> False | (None, Some _) \<Rightarrow> True | (Some _, None) \<Rightarrow> False | (Some a, Some b) \<Rightarrow> a < b)"

definition reconcile_before :: "cal_db \<Rightarrow> slot_row \<Rightarrow> slot_row \<Rightarrow> bool" where
  "reconcile_before D x y =
     (let c = (\<lambda>r. ls_status r = Cancelled); t = (\<lambda>r. bd_reconciled_at (cd_bindings D (ls_id r))) in
      if c x \<noteq> c y then c x
      else if t x \<noteq> t y then null_or_le (t x) (t y)
      else ls_start_at x < ls_start_at y)"

definition reconcilable :: "clock \<Rightarrow> cal_db \<Rightarrow> slot_row \<Rightarrow> bool" where
  "reconcilable c D r \<longleftrightarrow>
     bd_event_id (cd_bindings D (ls_id r)) \<noteq> None \<and> bd_calendar_id (cd_bindings D (ls_id r)) \<noteq> None
     \<and> ls_status r \<in> {Booked, Cancelled}
     \<and> (case integration_of D (ls_teacher_account_id r) of None \<Rightarrow> False | Some tci \<Rightarrow> ig_sync_state tci \<in> {SyncActive, SyncDegraded})
     \<and> ls_start_at r > pg_now c - 7 * us_per_day \<and> ls_start_at r < pg_now c + 30 * us_per_day"

definition pickReconcileCandidates :: "clock \<Rightarrow> nat \<Rightarrow> cal_db \<Rightarrow> candidate list" where
  "pickReconcileCandidates c limit D =
     map (\<lambda>r. \<lparr>cn_id = ls_id r, cn_teacherAccountId = ls_teacher_account_id r,
               cn_calendarId = the (bd_calendar_id (cd_bindings D (ls_id r))), cn_eventId = the (bd_event_id (cd_bindings D (ls_id r))),
               cn_epoch = bd_epoch (cd_bindings D (ls_id r)), cn_cancelled = (ls_status r = Cancelled)\<rparr>)
       (take limit (order_by (reconcile_before D) (filter (reconcilable c D) (lesson_slots (cd_db D)))))"

definition bumpReconciledAt :: "clock \<Rightarrow> int \<Rightarrow> uuid \<Rightarrow> cal_db \<Rightarrow> exn + (unit \<times> cal_db)" where
  "bumpReconciledAt c extra i D =
     bindR (pg_update_binding i (\<lambda>_ _. True) id
              (\<lambda>b. b\<lparr>bd_reconciled_at := Some (pg_now c), bd_cancel_repush_count := bd_cancel_repush_count b + extra\<rparr>) D)
       (\<lambda>(_, D'). Inr ((), D'))"

definition bumpReconciledAndCancelRepush :: "clock \<Rightarrow> uuid \<Rightarrow> cal_db \<Rightarrow> exn + (unit \<times> cal_db)" where
  "bumpReconciledAndCancelRepush c i = bumpReconciledAt c 1 i"

definition unbindSlot :: "clock \<Rightarrow> candidate \<Rightarrow> bool \<Rightarrow> cal_db \<Rightarrow> exn + (bool \<times> cal_db)" where
  "unbindSlot c cand markSyncFailed D =
     bindR (pg_update_binding (cn_id cand)
              (\<lambda>r b. ls_status r = (if cn_cancelled cand then Cancelled else Booked)
                   \<and> bd_event_id b = Some (cn_eventId cand) \<and> bd_calendar_id b = Some (cn_calendarId cand)) id
              (\<lambda>b. b\<lparr>bd_event_id := None, bd_calendar_id := None, bd_epoch := None, bd_reconciled_at := Some (pg_now c),
                    bd_sync_failed_at := (if markSyncFailed then Some (coalesce (bd_sync_failed_at b) (pg_now c))
                                          else bd_sync_failed_at b)\<rparr>) D)
       (\<lambda>(ro, D'). Inr (ro \<noteq> None, D'))"

text \<open>The latest deletion job of the lesson and what it means for another one.\<close>

definition readLatestDeletePushJob :: "uuid \<Rightarrow> cal_db \<Rightarrow> (job_status \<times> millis option) option" where
  "readLatestDeletePushJob slotId D =
     map_option (\<lambda>j. (pj_status j, map_option js_date_via_string (pj_last_attempt_at j)))
       (min_by (\<lambda>x y. pj_created_at x > pj_created_at y)
          (filter (\<lambda>j. pj_slot_id j = slotId \<and> pj_kind j = JobDelete) (cd_push_jobs D)))"

definition REENQUEUE_AFTER_SUCCESS_MS :: int where "REENQUEUE_AFTER_SUCCESS_MS = 6 * 60 * 60000"

definition decideCancelReenqueue :: "(job_status \<times> millis option) option \<Rightarrow> millis option \<Rightarrow> millis \<Rightarrow> gate_skip option" where
  "decideCancelReenqueue latestJob lastReconnectedAt nowMs =
     (case latestJob of
        None \<Rightarrow> None
      | Some (JobPending, _) \<Rightarrow> Some GateInflight
      | Some (JobInProgress, _) \<Rightarrow> Some GateInflight
      | Some (JobCancelledByDependent, _) \<Rightarrow> None
      | Some (_, None) \<Rightarrow> None
      | Some (JobSucceeded, Some at_) \<Rightarrow>
          if nowMs - at_ > REENQUEUE_AFTER_SUCCESS_MS then None else Some GateRecentSuccess
      | Some (JobTerminalFailure, Some at_) \<Rightarrow>
          (case lastReconnectedAt of
             Some rc \<Rightarrow> if rc > at_ then None else Some GateTerminalNoChange
           | None \<Rightarrow> Some GateTerminalNoChange))"

text \<open>The stamp of the event against the lesson and the connection it was made in.\<close>

definition stamp_text :: "json \<Rightarrow> string \<Rightarrow> js_text option" where
  "stamp_text event k = json_text (shared_stamp (json_field event ''extendedProperties'') k)"

definition stamp_mismatch :: "candidate \<Rightarrow> json \<Rightarrow> bool" where
  "stamp_mismatch cand event \<longleftrightarrow>
     stamp_text event ''lc_slot_id'' \<noteq> Some (js (cn_id cand))
     \<or> (case cn_epoch cand of None \<Rightarrow> False | Some ep \<Rightarrow> stamp_text event ''lc_epoch'' \<noteq> Some ep)"

definition unbind_with :: "clock \<Rightarrow> candidate \<Rightarrow> bool \<Rightarrow> reconcile_outcome \<Rightarrow> ('g world, reconcile_outcome) prog" where
  "unbind_with c cand mark out =
     bindP (stmt (unbindSlot c cand mark)) (\<lambda>updated. retP (if updated then out else RcStateChanged))"

definition gone :: "clock \<Rightarrow> candidate \<Rightarrow> ('g world, reconcile_outcome) prog" where
  "gone c cand = (let mark = \<not> cn_cancelled cand in
     unbind_with c cand mark (if mark then RcUnboundSyncFailure else RcUnboundDriftResolved))"

definition reenqueue_deletion ::
  "clock \<Rightarrow> uuid \<Rightarrow> google_integration \<Rightarrow> candidate \<Rightarrow> ('g world, reconcile_outcome) prog" where
  "reenqueue_deletion c newId ig cand =
     bindP (reading (readLatestDeletePushJob (cn_id cand))) (\<lambda>latest.
       case decideCancelReenqueue latest (gi_lastReconnectedAt ig) (js_now c) of
         Some reason \<Rightarrow> bindP (stmt (bumpReconciledAt c 0 (cn_id cand))) (\<lambda>_. retP (RcGateSkipped reason))
       | None \<Rightarrow>
           bindP (stmt (enqueuePushJob c newId (cn_id cand) (cn_teacherAccountId cand) JobDelete
                    \<lparr>pl_write_calendar_id = Some (coalesce (gi_writeCalendarId ig) (cn_calendarId cand)), pl_lc_epoch = None,
                     pl_summary = None\<rparr>)) (\<lambda>inserted.
             if \<not> inserted then bindP (stmt (bumpReconciledAt c 0 (cn_id cand))) (\<lambda>_. retP (RcGateSkipped GateInflight))
             else bindP (stmt (bumpReconciledAndCancelRepush c (cn_id cand))) (\<lambda>_. retP RcCancelReenqueued)))"

text \<open>
  The failures as the source tells them apart, by the text of \<open>reason\<close>. A failed token refresh carries a \<open>reason\<close>
  of its own.
\<close>

definition token_reason_text :: "token_refusal \<Rightarrow> string" where
  "token_reason_text r = (case r of TkIntegrationMissing \<Rightarrow> ''integration_missing'' | TkDisconnected \<Rightarrow> ''disconnected''
     | TkNoRefreshToken \<Rightarrow> ''no_refresh_token'' | TkConfigMissing \<Rightarrow> ''config_missing'' | TkTransient \<Rightarrow> ''transient''
     | TkPermanent \<Rightarrow> ''permanent'')"

definition fetch_reason_text :: "fetch_reason \<Rightarrow> string" where
  "fetch_reason_text r = (case r of FeNotFound \<Rightarrow> ''not_found'' | FeRateLimited \<Rightarrow> ''rate_limited'' | FeServerError _ \<Rightarrow> ''server_error''
     | FeAuthExpired \<Rightarrow> ''auth_expired'' | FeForbidden \<Rightarrow> ''forbidden'' | FeNetwork _ \<Rightarrow> ''network'' | FeShape _ \<Rightarrow> ''shape'')"

definition raw_reason :: "fetch_reason call_raw \<Rightarrow> string" where
  "raw_reason raw = (case raw of RawToken t \<Rightarrow> token_reason_text t | RawCall r \<Rightarrow> fetch_reason_text r)"

definition raw_status :: "fetch_reason call_raw \<Rightarrow> int" where
  "raw_status raw = (case raw of RawCall (FeServerError s) \<Rightarrow> s | _ \<Rightarrow> 0)"

definition raw_message :: "fetch_reason call_raw \<Rightarrow> js_text" where
  "raw_message raw = (case raw of RawCall (FeNetwork m) \<Rightarrow> m | RawCall (FeShape m) \<Rightarrow> m | _ \<Rightarrow> [])"

definition not_fetched :: "clock \<Rightarrow> candidate \<Rightarrow> fetch_reason call_raw \<Rightarrow> ('g world, reconcile_outcome) prog" where
  "not_fetched c cand raw =
     (let reason = raw_reason raw in
      if reason = ''rate_limited'' then retP RcRateLimited
      else if reason = ''server_error'' then retP (RcServerError (raw_status raw))
      else if reason = ''auth_expired'' then retP RcAuthExpired
      else if reason = ''forbidden'' then retP RcForbidden
      else if reason = ''network'' then retP (RcNetwork (raw_message raw))
      else if reason = ''shape'' then retP (RcShape (raw_message raw))
      else gone c cand)"

definition compare_event ::
  "clock \<Rightarrow> uuid \<Rightarrow> google_integration \<Rightarrow> candidate \<Rightarrow> json \<Rightarrow> ('g world, reconcile_outcome) prog" where
  "compare_event c newId ig cand event =
     (if json_field event ''status'' = Some (JStr (js ''cancelled'')) then gone c cand
      else if cn_cancelled cand
      then (if stamp_mismatch cand event then unbind_with c cand False RcUnboundAlien
            else reenqueue_deletion c newId ig cand)
      else bindP (stmt (bumpReconciledAt c 0 (cn_id cand)))
             (\<lambda>_. retP (if stamp_mismatch cand event then RcOrphanSelf else RcHealthy)))"

type_synonym 'g event_fetch = "js_text \<Rightarrow> js_text \<Rightarrow> js_text \<Rightarrow> ('g world, fetch_reason + json) prog"

definition reconcileSlot ::
  "clock \<Rightarrow> cal_env \<Rightarrow> 'g network \<Rightarrow> 'g event_fetch \<Rightarrow> uuid \<Rightarrow> candidate \<Rightarrow> ('g world, reconcile_outcome) prog" where
  "reconcileSlot c e net fetchEventImpl newId cand =
     bindP (\<lambda>w. (getGoogleIntegration e (cn_teacherAccountId cand) (fst w), w)) (\<lambda>io. case io of
       None \<Rightarrow> retP RcIntegrationMissing
     | Some ig \<Rightarrow>
         if gi_syncState ig = SyncDisconnected then retP RcIntegrationDisconnected
         else
           bindP (withTokenRetry c e net (cn_teacherAccountId cand) (\<lambda>token _.
             bindP (fetchEventImpl token (cn_calendarId cand) (cn_eventId cand))
               (\<lambda>r. retP (case r of Inr event \<Rightarrow> CallOk event | Inl reason \<Rightarrow> CallFailed (reason = FeAuthExpired) (RawCall reason)))))
           (\<lambda>wrapped. case wrapped of
              CallOk event \<Rightarrow> compare_event c newId ig cand event
            | CallFailed _ raw \<Rightarrow> not_fetched c cand raw))"

definition reconcile_caught ::
  "clock \<Rightarrow> cal_env \<Rightarrow> 'g network \<Rightarrow> 'g event_fetch \<Rightarrow> uuid \<Rightarrow> candidate \<Rightarrow> ('g world, reconcile_outcome) prog" where
  "reconcile_caught c e net fetchEventImpl newId cand w =
     (let (r, w') = reconcileSlot c e net fetchEventImpl newId cand w in
      (Inr (case r of Inl x \<Rightarrow> RcThrown x | Inr out \<Rightarrow> out), w'))"

fun reconcile_each ::
  "clock \<Rightarrow> cal_env \<Rightarrow> 'g network \<Rightarrow> 'g event_fetch \<Rightarrow> (uuid \<Rightarrow> uuid) \<Rightarrow> candidate list \<Rightarrow>
   ('g world, (uuid \<times> reconcile_outcome) list) prog" where
  "reconcile_each c e net f draw [] = retP []"
| "reconcile_each c e net f draw (cand # cands) =
     bindP (reconcile_caught c e net f (draw (cn_id cand)) cand) (\<lambda>out.
     bindP (reconcile_each c e net f draw cands) (\<lambda>rest. retP ((cn_id cand, out) # rest)))"

definition runReconcileSweep ::
  "clock \<Rightarrow> cal_env \<Rightarrow> 'g network \<Rightarrow> 'g event_fetch \<Rightarrow> (uuid \<Rightarrow> uuid) \<Rightarrow> nat \<Rightarrow> ('g world, (uuid \<times> reconcile_outcome) list) prog" where
  "runReconcileSweep c e net f draw limit =
     bindP (reading (pickReconcileCandidates c limit)) (reconcile_each c e net f draw)"

section \<open>Only the lesson's own event is deleted again\<close>

text \<open>What a repeated call returns, the call returned once.\<close>

lemma retry_ok:
  fixes w w' :: "'g world"
  assumes "withTokenRetry c e net acc exec w = (Inr (CallOk v), w')"
  shows "\<exists>t ig w1. exec t ig w1 = (Inr (CallOk v), w')"
proof -
  let ?fin = "\<lambda>result. if refused_401 result
       then bindP (ignore_failure (stmt (disconnectGoogleIntegration c acc))) (\<lambda>_. retP result) else retP result"
  have fin: "result = r \<and> (refused_401 r \<or> u' = u)" if "?fin result u = (Inr r, u')" for result r and u u' :: "'g world"
    using that by (auto simp: bindP_def ignore_failure_def retP_def split: if_splits)
  note go = withTokenRetry_def retry_with_token_def bindP_def retP_def
  obtain fr s1 where fr: "ensureFreshAccessToken c e net acc False w = (fr, s1)" by (rule prod.exhaust)
  obtain t ig b where f: "fr = Inr (Fresh t ig b)" using assms fr by (cases fr; cases "projr fr") (auto simp: go)
  obtain r1 s2 where ex: "exec t ig s1 = (r1, s2)" by (rule prod.exhaust)
  obtain result where r1: "r1 = Inr result" using assms fr f ex by (cases r1) (auto simp: go)
  show ?thesis
  proof (cases "refused_401 result")
    case False
    then have "result = CallOk v" "s2 = w'" using assms fr f ex r1 by (simp_all add: go)
    with ex r1 show ?thesis by blast
  next
    case True
    obtain fr2 s3 where fr2: "ensureFreshAccessToken c e net acc True s2 = (fr2, s3)" by (rule prod.exhaust)
    obtain t2 ig2 b2 where f2: "fr2 = Inr (Fresh t2 ig2 b2)"
      using assms fr f ex r1 True fr2 by (cases fr2; cases "projr fr2") (auto simp: go)
    obtain r3 s4 where ex2: "exec t2 ig2 s3 = (r3, s4)" by (rule prod.exhaust)
    obtain res where r3: "r3 = Inr res" using assms fr f ex r1 True fr2 f2 ex2 by (cases r3) (auto simp: go)
    have "?fin res s4 = (Inr (CallOk v), w')"
      using assms fr f ex r1 True fr2 f2 ex2 r3 by (simp add: go)
    then have "res = CallOk v" "w' = s4" using fin [of res s4 "CallOk v" w'] by (simp_all add: refused_401_def)
    with ex2 r3 show ?thesis by blast
  qed
qed

text \<open>Programs that write no push job.\<close>

definition leaves_jobs :: "('g world, 'a) prog \<Rightarrow> bool" where
  "leaves_jobs m \<longleftrightarrow> (\<forall>w r w'. m w = (r, w') \<longrightarrow> cd_push_jobs (fst w') = cd_push_jobs (fst w))"

lemma leaves_jobsD: "leaves_jobs m \<Longrightarrow> m w = (r, w') \<Longrightarrow> cd_push_jobs (fst w') = cd_push_jobs (fst w)"
  unfolding leaves_jobs_def by blast

lemma leaves_jobs_ret [simp]: "leaves_jobs (retP x)"
  by (simp add: leaves_jobs_def retP_def)

lemma leaves_jobs_bind: "leaves_jobs m \<Longrightarrow> (\<And>x. leaves_jobs (f x)) \<Longrightarrow> leaves_jobs (bindP m f)"
  unfolding leaves_jobs_def bindP_def by (auto simp: Let_def split: prod.splits sum.splits) metis+

lemma leaves_jobs_stmt: "(\<And>D x D'. t D = Inr (x, D') \<Longrightarrow> cd_push_jobs D' = cd_push_jobs D) \<Longrightarrow> leaves_jobs (stmt t)"
  unfolding leaves_jobs_def stmt_def by (auto split: sum.splits)

lemma binding_leaves_jobs: "pg_update_binding i P f g D = Inr (ro, D') \<Longrightarrow> cd_push_jobs D' = cd_push_jobs D"
  by (auto simp: pg_update_binding_def Let_def bindR_eq_Inr_iff split: option.splits if_splits)

lemma bump_leaves_jobs: "leaves_jobs (stmt (bumpReconciledAt c n i))"
  by (rule leaves_jobs_stmt) (auto simp: bumpReconciledAt_def bindR_eq_Inr_iff dest: binding_leaves_jobs)

lemma unbind_leaves_jobs: "leaves_jobs (unbind_with c cand mark out)"
  unfolding unbind_with_def
  by (intro leaves_jobs_bind leaves_jobs_stmt leaves_jobs_ret) (auto simp: unbindSlot_def bindR_eq_Inr_iff dest: binding_leaves_jobs)

lemma gone_leaves_jobs: "leaves_jobs (gone c cand)"
  by (simp add: gone_def Let_def unbind_leaves_jobs)

lemma not_fetched_leaves_jobs: "leaves_jobs (not_fetched c cand raw)"
  by (simp add: not_fetched_def Let_def gone_leaves_jobs)

lemma gone_results:
  "unbind_with c cand mark out w = (Inr o', w') \<Longrightarrow> o' = out \<or> o' = RcStateChanged"
  "gone c cand w = (Inr o', w') \<Longrightarrow> o' \<in> {RcUnboundSyncFailure, RcUnboundDriftResolved, RcStateChanged}"
  by (auto simp: gone_def unbind_with_def Let_def bindP_def retP_def split: prod.splits sum.splits if_splits)

lemma not_fetched_results:
  "not_fetched c cand raw w = (Inr o', w') \<Longrightarrow> o' \<noteq> RcCancelReenqueued"
  by (auto simp: not_fetched_def Let_def retP_def dest: gone_results(2) split: if_splits)

text \<open>One more deletion of the lesson in the queue, where none was waiting.\<close>

definition deletion_added :: "candidate \<Rightarrow> 'g world \<Rightarrow> 'g world \<Rightarrow> bool" where
  "deletion_added cand w w' \<longleftrightarrow>
     (\<exists>j. cd_push_jobs (fst w') = cd_push_jobs (fst w) @ [j] \<and> pj_kind j = JobDelete \<and> pj_slot_id j = cn_id cand \<and> pj_status j = JobPending)
     \<and> \<not> (\<exists>j \<in> set (cd_push_jobs (fst w)). pj_slot_id j = cn_id cand \<and> pj_kind j = JobDelete \<and> pj_status j = JobPending)"

lemma enqueue_adds:
  assumes "enqueuePushJob c i s t JobDelete p D = Inr (b, D')"
  shows "if b then deletion_added (cand\<lparr>cn_id := s\<rparr>) (D, g) (D', g') else D' = D"
  using assms by (auto simp: enqueuePushJob_def deletion_added_def list_ex_iff split: if_splits)

lemma reenqueue_effect:
  assumes "reenqueue_deletion c newId ig cand w = (r, w')"
  shows "deletion_added cand w w' \<or> cd_push_jobs (fst w') = cd_push_jobs (fst w) \<and> r \<noteq> Inr RcCancelReenqueued"
proof (cases "decideCancelReenqueue (readLatestDeletePushJob (cn_id cand) (fst w)) (gi_lastReconnectedAt ig) (js_now c)")
  case (Some reason)
  let ?m = "bindP (stmt (bumpReconciledAt c 0 (cn_id cand))) (\<lambda>_. retP (RcGateSkipped reason)) :: ('a world, reconcile_outcome) prog"
  have run: "?m w = (r, w')" using assms Some by (simp add: reenqueue_deletion_def bindP_def [of "reading _"] reading_def)
  have "leaves_jobs ?m" by (intro leaves_jobs_bind bump_leaves_jobs leaves_jobs_ret)
  then have "cd_push_jobs (fst w') = cd_push_jobs (fst w)" using run by (rule leaves_jobsD)
  moreover have "r \<noteq> Inr RcCancelReenqueued" using run by (auto simp: bindP_def retP_def split: prod.splits sum.splits)
  ultimately show ?thesis by blast
next
  case None
  let ?t = "enqueuePushJob c newId (cn_id cand) (cn_teacherAccountId cand) JobDelete
      \<lparr>pl_write_calendar_id = Some (coalesce (gi_writeCalendarId ig) (cn_calendarId cand)), pl_lc_epoch = None, pl_summary = None\<rparr>"
  let ?k = "\<lambda>inserted. (if \<not> inserted then bindP (stmt (bumpReconciledAt c 0 (cn_id cand))) (\<lambda>_. retP (RcGateSkipped GateInflight))
      else bindP (stmt (bumpReconciledAndCancelRepush c (cn_id cand))) (\<lambda>_. retP RcCancelReenqueued)) :: ('a world, reconcile_outcome) prog"
  have run: "bindP (stmt ?t) ?k w = (r, w')" using assms None by (simp add: reenqueue_deletion_def bindP_def [of "reading _"] reading_def)
  have rest: "leaves_jobs (?k b)" for b
    by (auto simp: bumpReconciledAndCancelRepush_def intro!: leaves_jobs_bind bump_leaves_jobs)
  show ?thesis
  proof (cases "?t (fst w)")
    case (Inl x)
    then show ?thesis using run by (auto simp: bindP_def stmt_def)
  next
    case (Inr y)
    obtain b D' where y: "y = (b, D')" by (rule prod.exhaust)
    have k: "?k b (D', snd w) = (r, w')" using run Inr y by (simp add: bindP_def stmt_def)
    have jobs: "cd_push_jobs (fst w') = cd_push_jobs D'" using leaves_jobsD [OF rest k] by simp
    show ?thesis
    proof (cases b)
      case True
      then have "deletion_added cand (fst w, snd w) (D', snd w)"
        using enqueue_adds [OF Inr [unfolded y], of cand] by (simp add: deletion_added_def)
      then show ?thesis using jobs by (simp add: deletion_added_def)
    next
      case False
      then have "D' = fst w" using enqueue_adds [OF Inr [unfolded y]] by simp
      moreover have "r \<noteq> Inr RcCancelReenqueued"
        using k False by (auto simp: bindP_def retP_def split: prod.splits sum.splits)
      ultimately show ?thesis using jobs by simp
    qed
  qed
qed

lemma compare_effect:
  assumes "compare_event c newId ig cand event w = (r, w')"
  shows "deletion_added cand w w' \<and> cn_cancelled cand \<and> \<not> stamp_mismatch cand event
     \<or> cd_push_jobs (fst w') = cd_push_jobs (fst w) \<and> r \<noteq> Inr RcCancelReenqueued"
proof -
  have quiet: ?thesis if m: "leaves_jobs m" "m w = (r, w')" and "\<And>out v. m w = (Inr out, v) \<Longrightarrow> out \<noteq> RcCancelReenqueued" for m
    using that unfolding leaves_jobs_def by blast
  consider "json_field event ''status'' = Some (JStr (js ''cancelled''))"
    | "json_field event ''status'' \<noteq> Some (JStr (js ''cancelled''))" "cn_cancelled cand" "stamp_mismatch cand event"
    | "json_field event ''status'' \<noteq> Some (JStr (js ''cancelled''))" "cn_cancelled cand" "\<not> stamp_mismatch cand event"
    | "json_field event ''status'' \<noteq> Some (JStr (js ''cancelled''))" "\<not> cn_cancelled cand" by blast
  then show ?thesis
  proof cases
    case 1
    show ?thesis by (rule quiet [OF gone_leaves_jobs]) (use 1 assms in \<open>auto simp: compare_event_def dest: gone_results(2)\<close>)
  next
    case 2
    show ?thesis by (rule quiet [OF unbind_leaves_jobs]) (use 2 assms in \<open>auto simp: compare_event_def dest: gone_results(1)\<close>)
  next
    case 3
    then show ?thesis using assms reenqueue_effect [of c newId ig cand w r w'] by (simp add: compare_event_def)
  next
    case 4
    let ?m = "bindP (stmt (bumpReconciledAt c 0 (cn_id cand))) (\<lambda>_. retP (if stamp_mismatch cand event then RcOrphanSelf else RcHealthy))
        :: ('a world, reconcile_outcome) prog"
    have "leaves_jobs ?m" by (intro leaves_jobs_bind bump_leaves_jobs leaves_jobs_ret)
    then show ?thesis
      by (rule quiet) (use 4 assms in \<open>auto simp: compare_event_def bindP_def retP_def split: prod.splits sum.splits if_splits\<close>)
  qed
qed

text \<open>The call for the event that the comparison wraps, and the state it leaves.\<close>

definition ask_event :: "'g event_fetch \<Rightarrow> candidate \<Rightarrow> ('g, json, fetch_reason) token_exec" where
  "ask_event f cand = (\<lambda>token _. bindP (f token (cn_calendarId cand) (cn_eventId cand))
     (\<lambda>r. retP (case r of Inr event \<Rightarrow> CallOk event | Inl reason \<Rightarrow> CallFailed (reason = FeAuthExpired) (RawCall reason))))"

text \<open>
  C37: what the comparison of one lesson does to the queue of pushes. Let \<open>w2\<close> be the state in which its calls to the
  calendar ended (the state it began in, when there is no connection to call with). From there it either leaves the queue
  as it is, and then it does not answer \<open>RcCancelReenqueued\<close>; or it adds one deletion of this lesson, where none was
  waiting. The second happens only for a cancelled lesson, and only when the last of these calls has just shown the event
  with the stamp of this very lesson and, where the binding has an epoch, of this epoch. An event that the teacher has
  made or copied is not deleted, whatever the comparison answers or throws.
\<close>

theorem only_own_event_is_deleted_again:
  assumes "reconcileSlot c e net f newId cand w = (r, w')"
  shows "\<exists>w2. (w2 = w \<or> w2 = snd (withTokenRetry c e net (cn_teacherAccountId cand) (ask_event f cand) w))
     \<and> (cd_push_jobs (fst w') = cd_push_jobs (fst w2) \<and> r \<noteq> Inr RcCancelReenqueued
        \<or> deletion_added cand w2 w' \<and> cn_cancelled cand
          \<and> (\<exists>token event w1. f token (cn_calendarId cand) (cn_eventId cand) w1 = (Inr (Inr event), w2)
               \<and> stamp_text event ''lc_slot_id'' = Some (js (cn_id cand))
               \<and> (\<forall>ep. cn_epoch cand = Some ep \<longrightarrow> stamp_text event ''lc_epoch'' = Some ep)))"
proof -
  let ?quiet = "\<lambda>w2. cd_push_jobs (fst w') = cd_push_jobs (fst w2) \<and> r \<noteq> Inr RcCancelReenqueued"
  let ?io = "getGoogleIntegration e (cn_teacherAccountId cand) (fst w)"
  obtain res w2 where wr: "withTokenRetry c e net (cn_teacherAccountId cand) (ask_event f cand) w = (res, w2)" by (rule prod.exhaust)
  have run: "(case ?io of Inl x \<Rightarrow> (Inl x, w) | Inr None \<Rightarrow> (Inr RcIntegrationMissing, w)
      | Inr (Some ig) \<Rightarrow> if gi_syncState ig = SyncDisconnected then (Inr RcIntegrationDisconnected, w)
          else (case res of Inl x \<Rightarrow> (Inl x, w2) | Inr wrapped \<Rightarrow> (case wrapped of
              CallOk event \<Rightarrow> compare_event c newId ig cand event
            | CallFailed _ raw \<Rightarrow> not_fetched c cand raw) w2)) = (r, w')"
    using assms wr unfolding reconcileSlot_def ask_event_def
    by (auto simp: bindP_def retP_def split: sum.splits option.splits if_splits)
  show ?thesis
  proof (cases "\<exists>ig event. ?io = Inr (Some ig) \<and> gi_syncState ig \<noteq> SyncDisconnected \<and> res = Inr (CallOk event)")
    case True
    then obtain ig event where res: "res = Inr (CallOk event)" and cmp: "compare_event c newId ig cand event w2 = (r, w')"
      using run by auto
    obtain t ig' w1 where "ask_event f cand t ig' w1 = (Inr (CallOk event), w2)" using retry_ok [OF wr [unfolded res]] by blast
    then have "f t (cn_calendarId cand) (cn_eventId cand) w1 = (Inr (Inr event), w2)"
      by (auto simp: ask_event_def bindP_def retP_def split: prod.splits sum.splits)
    moreover have "\<not> stamp_mismatch cand event \<Longrightarrow> stamp_text event ''lc_slot_id'' = Some (js (cn_id cand))
        \<and> (\<forall>ep. cn_epoch cand = Some ep \<longrightarrow> stamp_text event ''lc_epoch'' = Some ep)"
      by (auto simp: stamp_mismatch_def split: option.splits)
    moreover have "w2 = snd (withTokenRetry c e net (cn_teacherAccountId cand) (ask_event f cand) w)" by (simp add: wr)
    ultimately show ?thesis using compare_effect [OF cmp] by blast
  next
    case False
    have fail: "?quiet w2" if "not_fetched c cand raw w2 = (r, w')" for raw
      using not_fetched_leaves_jobs [of c cand raw] that not_fetched_results [of c cand raw w2 _ w'] unfolding leaves_jobs_def by blast
    have "?quiet w \<or> ?quiet w2"
      using run False fail by (auto split: sum.splits option.splits if_splits call_result.splits)
    then show ?thesis using wr by (metis snd_conv)
  qed
qed

section \<open>Trouble with the token is taken for a deleted event\<close>

lemma unbind_effect:
  assumes "slot_by_id (cd_db D) (cn_id cand) = Some r" and "ls_status r = Booked" and "\<not> cn_cancelled cand"
    and "bd_event_id (cd_bindings D (cn_id cand)) = Some (cn_eventId cand)"
    and "bd_calendar_id (cd_bindings D (cn_id cand)) = Some (cn_calendarId cand)"
    and "pg_update_slot (cn_id cand) (\<lambda>_. True) id (cd_db D) = Inr (Some r', d')"
  shows "\<exists>D'. unbindSlot c cand True D = Inr (True, D') \<and> bd_event_id (cd_bindings D' (cn_id cand)) = None
     \<and> bd_sync_failed_at (cd_bindings D' (cn_id cand)) \<noteq> None"
  using assms by (simp add: unbindSlot_def pg_update_binding_def Let_def binding_taken_def)

text \<open>
  What happens when no fresh token is at hand, a lost connection to the token service included: the comparison
  takes it for a deleted event. A booked lesson whose event nobody looked at is unbound and marked as failed, although
  the text of the module keeps that for events that are gone.
\<close>

theorem token_trouble_unbinds_the_lesson:
  assumes "getGoogleIntegration e (cn_teacherAccountId cand) D = Inr (Some ig)" and "gi_syncState ig \<noteq> SyncDisconnected"
    and "ensureFreshAccessToken c e net (cn_teacherAccountId cand) False (D, g) = (Inr (NotFresh reason), (D', g'))"
    and "slot_by_id (cd_db D') (cn_id cand) = Some r" and "ls_status r = Booked" and "\<not> cn_cancelled cand"
    and "bd_event_id (cd_bindings D' (cn_id cand)) = Some (cn_eventId cand)"
    and "bd_calendar_id (cd_bindings D' (cn_id cand)) = Some (cn_calendarId cand)"
    and "pg_update_slot (cn_id cand) (\<lambda>_. True) id (cd_db D') = Inr (Some r', d')"
  shows "\<exists>D2. reconcileSlot c e net f newId cand (D, g) = (Inr RcUnboundSyncFailure, (D2, g'))
     \<and> bd_event_id (cd_bindings D2 (cn_id cand)) = None \<and> bd_sync_failed_at (cd_bindings D2 (cn_id cand)) \<noteq> None"
proof -
  obtain D2 where un: "unbindSlot c cand True D' = Inr (True, D2)" "bd_event_id (cd_bindings D2 (cn_id cand)) = None"
      "bd_sync_failed_at (cd_bindings D2 (cn_id cand)) \<noteq> None"
    using unbind_effect [OF assms(4-9)] by blast
  have wr: "withTokenRetry c e net (cn_teacherAccountId cand) exec (D, g) = (Inr (CallFailed False (RawToken reason)), (D', g'))"
    for exec :: "('a, json, fetch_reason) token_exec"
    using assms(3) by (simp add: withTokenRetry_def retry_with_token_def bindP_def retP_def)
  have "not_fetched c cand (RawToken reason) (D', g') = gone c cand (D', g')"
    by (simp add: not_fetched_def raw_reason_def token_reason_text_def split: token_refusal.split)
  then have "reconcileSlot c e net f newId cand (D, g) = gone c cand (D', g')"
    using assms(1,2) by (simp add: reconcileSlot_def bindP_def wr)
  also have "\<dots> = (Inr RcUnboundSyncFailure, (D2, g'))"
    using assms(6) un(1) by (simp add: gone_def unbind_with_def bindP_def stmt_def retP_def)
  finally show ?thesis using un by blast
qed

text \<open>A booked lesson of a teacher whose token has expired, while the token server does not answer.\<close>

definition sample_expired :: cal_db where
  "sample_expired = sample_cal\<lparr>cd_db := empty_db\<lparr>lesson_slots := [sample_slot]\<rparr>,
     cd_integrations := [sample_integration\<lparr>ig_token_expires_at := Some 1767500000000000,
       ig_refresh_token_enc := Some (Sealed [114] (replicate 32 107))\<rparr>]\<rparr>"

definition sample_candidate :: candidate where
  "sample_candidate = \<lparr>cn_id = uuid_of CHR ''1'', cn_teacherAccountId = uuid_of CHR ''a'', cn_calendarId = [99], cn_eventId = [101],
     cn_epoch = Some (js ''e1''), cn_cancelled = False\<rparr>"

lemma sample_expired_facts:
  "getGoogleIntegration sample_cal_env (uuid_of CHR ''a'') sample_expired
     = Inr (Some (rowToRecord (hd (cd_integrations sample_expired)) (Some [116]) (Some [114])))"
  "cd_bindings sample_expired = cd_bindings sample_cal" "slot_by_id (cd_db sample_expired) (uuid_of CHR ''1'') = Some sample_slot"
  "pg_update_slot (uuid_of CHR ''1'') (\<lambda>_. True) id (cd_db sample_expired) = Inr (Some sample_slot, cd_db sample_expired)"
proof -
  show by_id: "slot_by_id (cd_db sample_expired) (uuid_of CHR ''1'') = Some sample_slot"
    by (simp add: slot_by_id_def sample_expired_def find_by_single sample_slot_def)
  show "getGoogleIntegration sample_cal_env (uuid_of CHR ''a'') sample_expired
     = Inr (Some (rowToRecord (hd (cd_integrations sample_expired)) (Some [116]) (Some [114])))"
  proof -
    have "uuid_pattern (uuid_of CHR ''a'')" "lower_hex CHR ''a'' = CHR ''a''" by (simp_all add: hex_digit_def lower_hex_def)
    moreover have "getCalendarEncryptionKey sample_cal_env = Inr (Some (replicate 32 107))"
      by (simp add: getCalendarEncryptionKey_def sample_cal_env_def js_trim_def js_space_def readAndValidate_def MIN_KEY_LENGTH_def)
    moreover have "getCalendarEncryptionKeyOld sample_cal_env = Inr None"
      by (simp add: getCalendarEncryptionKeyOld_def sample_cal_env_def js_trim_def)
    ultimately show ?thesis
      by (simp add: getGoogleIntegration_def integration_of_def sample_expired_def sample_integration_def find_by_single
        pgp_sym_decrypt_either_def pgp_sym_decrypt_def)
  qed
  show "cd_bindings sample_expired = cd_bindings sample_cal" by (simp add: sample_expired_def)
  have "snapshot_on_book d sample_slot = sample_slot" for d by (simp add: snapshot_on_book_def snapshot_value_def sample_slot_def)
  moreover have "\<not> slot_conflict (cd_db sample_expired) sample_slot" by (simp add: slot_conflict_def sample_expired_def)
  ultimately show "pg_update_slot (uuid_of CHR ''1'') (\<lambda>_. True) id (cd_db sample_expired) = Inr (Some sample_slot, cd_db sample_expired)"
    using by_id sample_slot_check
    by (simp add: pg_update_slot_def snapshot_frozen_def Let_def) (simp add: sample_expired_def replace_row_def)
qed

lemma token_trouble_unbinds_the_lesson_witness:
  "\<exists>D2. reconcileSlot sample_cal_clock (sample_cal_env\<lparr>ce_oauth := Inr (Some \<lparr>oc_clientId = [], oc_clientSecret = []\<rparr>)\<rparr>)
       (\<lambda>q w. (NetFailed [], w)) (\<lambda>_ _ _. retP (Inl FeNotFound)) ''j'' sample_candidate (sample_expired, ())
     = (Inr RcUnboundSyncFailure, (D2, ())) \<and> bd_event_id (cd_bindings D2 (uuid_of CHR ''1'')) = None"
proof -
  let ?e = "sample_cal_env\<lparr>ce_oauth := Inr (Some \<lparr>oc_clientId = [], oc_clientSecret = []\<rparr>)\<rparr>"
  let ?ig = "rowToRecord (hd (cd_integrations sample_expired)) (Some [116]) (Some [114])"
  have e: "getGoogleIntegration ?e i D = getGoogleIntegration sample_cal_env i D" for i D
    by (simp add: getGoogleIntegration_def getCalendarEncryptionKey_def getCalendarEncryptionKeyOld_def)
  have ig: "gi_syncState ?ig = SyncActive" "gi_tokenExpiresAt ?ig = Some 1767500000000" "gi_accessToken ?ig = Some [116]"
      "gi_refreshToken ?ig = Some [114]"
    by (simp_all add: rowToRecord_def sample_expired_def sample_integration_def js_date_via_string_def js_date_def us_per_ms_def)
  have fresh: "ensureFreshAccessToken sample_cal_clock ?e (\<lambda>q w. (NetFailed [], w)) (cn_teacherAccountId sample_candidate) False (sample_expired, ())
      = (Inr (NotFresh TkTransient), (sample_expired, ()))"
    by (simp add: ensureFreshAccessToken_def sample_candidate_def e sample_expired_facts(1) ig bindP_def retP_def nonempty_def
      sample_cal_clock_def REFRESH_SKEW_MS_def refreshAccessToken_def postToken_def fetchP_def)
  have "\<exists>D2. reconcileSlot sample_cal_clock ?e (\<lambda>q w. (NetFailed [], w)) (\<lambda>_ _ _. retP (Inl FeNotFound)) ''j'' sample_candidate (sample_expired, ())
     = (Inr RcUnboundSyncFailure, (D2, ())) \<and> bd_event_id (cd_bindings D2 (cn_id sample_candidate)) = None
     \<and> bd_sync_failed_at (cd_bindings D2 (cn_id sample_candidate)) \<noteq> None"
    by (rule token_trouble_unbinds_the_lesson [where ig = ?ig and r = sample_slot and r' = sample_slot and d' = "cd_db sample_expired", OF _ _ fresh])
       (simp_all add: sample_candidate_def e sample_expired_facts ig, simp_all add: sample_cal_def sample_slot_def)
  then show ?thesis by (auto simp: sample_candidate_def)
qed

lemma only_own_event_is_deleted_again_witness:
  "\<exists>w'. let cand = sample_candidate\<lparr>cn_cancelled := True\<rparr>;
       event = JObj [(js ''id'', JStr [101]), (js ''extendedProperties'', JObj [(js ''shared'',
         JObj [(js ''lc_slot_id'', JStr (js (uuid_of CHR ''1''))), (js ''lc_epoch'', JStr (js ''e1''))])])] in
     reconcileSlot sample_cal_clock sample_cal_env (\<lambda>q w. (NetFailed [], w)) (\<lambda>_ _ _. retP (Inr event)) ''j'' cand (sample_cal, ())
       = (Inr RcCancelReenqueued, w')
     \<and> deletion_added cand (sample_cal, ()) w' \<and> stamp_text event ''lc_slot_id'' = Some (js (cn_id cand))"
proof -
  let ?cand = "sample_candidate\<lparr>cn_cancelled := True\<rparr>"
  let ?event = "JObj [(js ''id'', JStr [101]), (js ''extendedProperties'', JObj [(js ''shared'',
         JObj [(js ''lc_slot_id'', JStr (js (uuid_of CHR ''1''))), (js ''lc_epoch'', JStr (js ''e1''))])])]"
  let ?ig = "rowToRecord sample_integration (Some [116]) None"
  let ?net = "(\<lambda>q w. (NetFailed [], w)) :: unit network"
  define exec where "exec = (\<lambda>(token :: js_text) (_ :: google_integration). bindP ((retP (Inr ?event)) :: (unit world, fetch_reason + json) prog)
     (\<lambda>r. retP (case r of Inr event \<Rightarrow> CallOk event | Inl reason \<Rightarrow> CallFailed (reason = FeAuthExpired) (RawCall reason))))"
  have ig: "gi_syncState ?ig = SyncActive" "gi_tokenExpiresAt ?ig = Some 1800000000000" "gi_accessToken ?ig = Some [116]"
      "gi_writeCalendarId ?ig = Some [99]"
    by (simp_all add: rowToRecord_def sample_integration_def js_date_via_string_def js_date_def us_per_ms_def)
  have call: "withTokenRetry sample_cal_clock sample_cal_env ?net (uuid_of CHR ''a'') exec (sample_cal, ()) = (Inr (CallOk ?event), (sample_cal, ()))"
    by (rule fresh_token_used [OF sample_cal_facts(8), where t = "[116]" and z = 1800000000000])
       (simp_all add: ig exec_def bindP_def retP_def sample_cal_clock_def REFRESH_SKEW_MS_def)
  have "snapshot_on_book d sample_cancelled = sample_cancelled" for d
    by (simp add: snapshot_on_book_def snapshot_value_def sample_cancelled_def sample_slot_def)
  moreover have "\<not> slot_conflict (cd_db sample_cal) sample_cancelled" by (simp add: slot_conflict_def sample_cal_def)
  ultimately have up: "pg_update_slot (uuid_of CHR ''1'') (\<lambda>_. True) id (cd_db sample_cal) = Inr (Some sample_cancelled, cd_db sample_cal)"
    using sample_cal_facts(1,3)
    by (simp add: pg_update_slot_def snapshot_frozen_def Let_def) (simp add: sample_cal_def replace_row_def empty_cal_def)
  have taken: "\<not> binding_taken (D\<lparr>cd_push_jobs := x\<rparr>) (uuid_of CHR ''1'') b" if "lesson_slots (cd_db D) = [sample_cancelled]" for D x b
    using that by (simp add: binding_taken_def sample_cal_facts(5))
  have "\<exists>w'. compare_event sample_cal_clock ''j'' ?ig ?cand ?event (sample_cal, ()) = (Inr RcCancelReenqueued, w')"
  proof -
    let ?jobs = "[\<lparr>pj_id = ''j'', pj_slot_id = uuid_of CHR ''1'', pj_teacher_account_id = uuid_of CHR ''a'', pj_kind = JobDelete,
          pj_payload = \<lparr>pl_write_calendar_id = Some [99], pl_lc_epoch = None, pl_summary = None\<rparr>, pj_status = JobPending, pj_attempts = 0,
          pj_next_run_at = pg_now sample_cal_clock, pj_last_attempt_at = None, pj_last_error = None, pj_created_at = pg_now sample_cal_clock\<rparr>]"
    have jobs: "cd_push_jobs sample_cal = []" "lesson_slots (cd_db sample_cal) = [sample_cancelled]" by (simp_all add: sample_cal_def empty_cal_def)
    have enq: "enqueuePushJob sample_cal_clock ''j'' (uuid_of CHR ''1'') (uuid_of CHR ''a'') JobDelete
        \<lparr>pl_write_calendar_id = Some [99], pl_lc_epoch = None, pl_summary = None\<rparr> sample_cal = Inr (True, sample_cal\<lparr>cd_push_jobs := ?jobs\<rparr>)"
      by (simp add: enqueuePushJob_def jobs find_by_def sample_cal_facts(1))
    have bump: "\<exists>D'. bumpReconciledAndCancelRepush sample_cal_clock (uuid_of CHR ''1'') (sample_cal\<lparr>cd_push_jobs := ?jobs\<rparr>) = Inr ((), D')"
      using taken [OF jobs(2)] up sample_cal_facts(1)
      by (simp add: bumpReconciledAndCancelRepush_def bumpReconciledAt_def pg_update_binding_def Let_def) (simp add: sample_cal_def)
    have match: "\<not> stamp_mismatch ?cand ?event"
      by (simp add: stamp_mismatch_def stamp_text_def shared_stamp_def json_field_def json_text_def sample_candidate_def)
    then obtain D' where D': "bumpReconciledAndCancelRepush sample_cal_clock (uuid_of CHR ''1'') (sample_cal\<lparr>cd_push_jobs := ?jobs\<rparr>) = Inr ((), D')"
      using bump by blast
    have latest: "reading (readLatestDeletePushJob (uuid_of CHR ''1'')) (sample_cal, ()) = (Inr None, (sample_cal, ()))"
      by (simp add: reading_def readLatestDeletePushJob_def jobs)
    have again: "reenqueue_deletion sample_cal_clock ''j'' ?ig ?cand (sample_cal, ()) = (Inr RcCancelReenqueued, (D', ()))"
      unfolding reenqueue_deletion_def
      using latest enq D' by (simp add: bindP_def stmt_def retP_def decideCancelReenqueue_def sample_candidate_def ig)
    have "json_field ?event ''status'' = None" by (simp add: json_field_def)
    with again match show ?thesis by (auto simp: compare_event_def sample_candidate_def)
  qed
  then obtain w' where cmp: "compare_event sample_cal_clock ''j'' ?ig ?cand ?event (sample_cal, ()) = (Inr RcCancelReenqueued, w')" ..
  have run: "reconcileSlot sample_cal_clock sample_cal_env ?net (\<lambda>_ _ _. retP (Inr ?event)) ''j'' ?cand (sample_cal, ()) = (Inr RcCancelReenqueued, w')"
    using cmp call ig(1) sample_cal_facts(8) unfolding reconcileSlot_def exec_def by (simp add: bindP_def sample_candidate_def)
  have calls: "withTokenRetry sample_cal_clock sample_cal_env ?net (cn_teacherAccountId ?cand) (ask_event (\<lambda>_ _ _. retP (Inr ?event)) ?cand)
      (sample_cal, ()) = (Inr (CallOk ?event), (sample_cal, ()))"
    using call unfolding ask_event_def exec_def by (simp add: sample_candidate_def)
  have "deletion_added ?cand (sample_cal, ()) w' \<and> stamp_text ?event ''lc_slot_id'' = Some (js (cn_id ?cand))"
    using only_own_event_is_deleted_again [OF run] unfolding calls by (auto simp: retP_def)
  with run show ?thesis by (auto simp: Let_def)
qed

end
