(* ===== verification/Calendar_Pull.thy ===== *)
theory Calendar_Pull
  imports Calendar_Reconcile Booking
begin

text \<open>
  Pulling the busy times of a teacher out of the calendar: \<open>src/lib/calendar/google/pull.ts\<close> and
  \<open>src/lib/calendar/pull-runner.ts\<close> over \<open>teacher_external_busy_intervals\<close>. What \<open>new Date(v).getTime()\<close> gives for a
  value of the answer is \<open>ce_date_ms\<close>, as the grammar of its texts is up to the engine; an ISO text that the code
  makes of a time stands for that time.
\<close>

section \<open>Events as the calendar sends them\<close>

record parsed_interval =
  pv_externalEventId :: js_text
  pv_externalCalendarId :: js_text
  pv_startAt :: millis
  pv_endAt :: millis
  pv_summary :: "js_text option"
  pv_isAllDay :: bool
  pv_etag :: "js_text option"
  pv_lcOrigin :: "json option"
  pv_lcSlotId :: "json option"
  pv_lcEpoch :: "json option"

definition ascii_digit16 :: "nat \<Rightarrow> bool" where "ascii_digit16 u \<longleftrightarrow> 48 \<le> u \<and> u \<le> 57"

definition ymd_shape :: "js_text \<Rightarrow> bool" where
  "ymd_shape t \<longleftrightarrow> length t = 10
     \<and> list_all (\<lambda>i. if i \<in> {4, 7} then t ! i = 45 else ascii_digit16 (t ! i)) [0..<10]"

definition timePartToUtcIso :: "cal_env \<Rightarrow> json \<Rightarrow> (millis \<times> bool) option" where
  "timePartToUtcIso e part =
     (case json_field part ''dateTime'' of
        Some v \<Rightarrow> map_option (\<lambda>t. (t, False)) (ce_date_ms e (Some v))
      | None \<Rightarrow>
          let ymd = json_field part ''date'';
              text = (case ymd of None \<Rightarrow> js ''undefined'' | Some v \<Rightarrow> js_String (ce_rt e) v) in
          map_option (\<lambda>t. (t, True))
            (ce_date_ms e (if ymd_shape text then Some (JStr (text @ js ''T00:00:00+03:00'')) else ymd)))"

definition object_field :: "json \<Rightarrow> string \<Rightarrow> json option" where
  "object_field v k = (case json_field v k of Some x \<Rightarrow> if json_is_object x then Some x else None | None \<Rightarrow> None)"

definition not_null :: "json option \<Rightarrow> json option" where
  "not_null v = (if v = Some JNull then None else v)"

definition shapeEvent :: "cal_env \<Rightarrow> json \<Rightarrow> js_text \<Rightarrow> parsed_interval option" where
  "shapeEvent e raw externalCalendarId =
     (case nonempty (json_text (json_field raw ''id'')) of
        None \<Rightarrow> None
      | Some i \<Rightarrow>
          if json_field raw ''status'' = Some (JStr (js ''cancelled'')) then None
          else case (object_field raw ''start'', object_field raw ''end'') of
            (Some s, Some t) \<Rightarrow>
              (case (timePartToUtcIso e s, timePartToUtcIso e t) of
                 (Some (a, allDayA), Some (b, allDayB)) \<Rightarrow>
                   if b \<le> a then None
                   else
                     let shared = (\<lambda>k. not_null (shared_stamp (json_field raw ''extendedProperties'') k)) in
                     Some \<lparr>pv_externalEventId = i, pv_externalCalendarId = externalCalendarId, pv_startAt = a, pv_endAt = b,
                           pv_summary = json_text (json_field raw ''summary''), pv_isAllDay = (allDayA \<or> allDayB),
                           pv_etag = json_text (json_field raw ''etag''), pv_lcOrigin = shared ''lc_origin'',
                           pv_lcSlotId = shared ''lc_slot_id'', pv_lcEpoch = shared ''lc_epoch''\<rparr>
               | _ \<Rightarrow> None)
          | _ \<Rightarrow> None)"

definition isCancelledTombstone :: "json \<Rightarrow> bool" where
  "isCancelledTombstone raw \<longleftrightarrow>
     nonempty (json_text (json_field raw ''id'')) \<noteq> None \<and> json_field raw ''status'' = Some (JStr (js ''cancelled''))"

section \<open>Page after page\<close>

record pull_value =
  pd_intervals :: "parsed_interval list"
  pd_cancelledEventIds :: "js_text list"
  pd_nextSyncToken :: "js_text option"

definition list_params :: "clock \<Rightarrow> cal_env \<Rightarrow> js_text option \<Rightarrow> (string \<times> js_text) list" where
  "list_params c e syncToken =
     (case nonempty syncToken of
        Some t \<Rightarrow> [(''syncToken'', t), (''showDeleted'', js ''true'')]
      | None \<Rightarrow> [(''timeMin'', ce_iso e (js_now c - 24 * 60 * 60000)), (''timeMax'', ce_iso e (js_now c + 30 * 24 * 60 * 60000)),
                  (''singleEvents'', js ''true''), (''showDeleted'', js ''false'')])
     @ [(''maxResults'', js ''250'')]"

text \<open>\<open>/invalid sync token/i\<close>: only letters of ASCII are matched in either case.\<close>

definition ascii_lower :: "js_text \<Rightarrow> js_text" where
  "ascii_lower t = map (\<lambda>u. if 65 \<le> u \<and> u \<le> 90 then u + 32 else u) t"

definition list_refusal :: "bool \<Rightarrow> net_response \<Rightarrow> pull_error" where
  "list_refusal isDelta r =
     (let body = readBody r in
      if isDelta \<and> (na_status r = 410 \<or> (na_status r = 400 \<and> text_includes ''invalid sync token'' (ascii_lower body)))
      then PuSyncTokenExpired else PuHttp (na_status r) body)"

definition take_items :: "cal_env \<Rightarrow> bool \<Rightarrow> js_text \<Rightarrow> json list \<Rightarrow> pull_value \<Rightarrow> pull_value" where
  "take_items e isDelta calendarId items v =
     (let tombstone = (\<lambda>x. isDelta \<and> isCancelledTombstone x) in
      v\<lparr>pd_intervals := pd_intervals v
           @ List.map_filter (\<lambda>x. shapeEvent e x calendarId) (filter (\<lambda>x. \<not> tombstone x) items),
        pd_cancelledEventIds := pd_cancelledEventIds v
           @ List.map_filter (\<lambda>x. nonempty (json_text (json_field x ''id''))) (filter tombstone items)\<rparr>)"

definition next_page_token :: "json \<Rightarrow> json option" where
  "next_page_token v = (case json_field v ''nextPageToken'' of Some t \<Rightarrow> if js_truthy t then Some t else None | None \<Rightarrow> None)"

definition MAX_PAGES :: nat where "MAX_PAGES = 10"

fun pull_pages ::
  "clock \<Rightarrow> cal_env \<Rightarrow> 'g network \<Rightarrow> js_text \<Rightarrow> js_text \<Rightarrow> js_text option \<Rightarrow> nat \<Rightarrow> json option \<Rightarrow> pull_value \<Rightarrow>
   ('g world, pull_error + pull_value) prog" where
  "pull_pages c e net token calendarId syncToken 0 pageToken v =
     retP (Inl (PuShape (js ''events.list paginated past 10 pages; possible loop'')))"
| "pull_pages c e net token calendarId syncToken (Suc n) pageToken v =
     bindP (fetchP net (event_request VerbGet (EventsListUrl calendarId (list_params c e syncToken) pageToken) token NoBody))
     (\<lambda>a. case a of
        NetFailed m \<Rightarrow> retP (Inl (PuNetwork m))
      | NetAnswered r \<Rightarrow>
          let isDelta = nonempty syncToken \<noteq> None in
          if \<not> response_ok r then retP (Inl (list_refusal isDelta r))
          else case na_json r of
            Inl m \<Rightarrow> retP (Inl (PuShape (js ''events.list JSON parse failed: '' @ m)))
          | Inr data \<Rightarrow>
              if data = JNull then liftP (Inl TypeErrorUndefined)
              else (case json_field data ''items'' of
                Some (JArr items) \<Rightarrow>
                  let v' = take_items e isDelta calendarId items v in
                  (case next_page_token data of
                     None \<Rightarrow> retP (Inr (v'\<lparr>pd_nextSyncToken := nonempty (json_text (json_field data ''nextSyncToken''))\<rparr>))
                   | Some t \<Rightarrow> pull_pages c e net token calendarId syncToken n (Some t) v')
              | _ \<Rightarrow> retP (Inl (PuShape (js ''events.list response missing items'')))))"

definition pullBusyIntervalsForCalendar ::
  "clock \<Rightarrow> cal_env \<Rightarrow> 'g network \<Rightarrow> js_text \<Rightarrow> js_text \<Rightarrow> js_text option \<Rightarrow> ('g world, pull_error + pull_value) prog" where
  "pullBusyIntervalsForCalendar c e net token calendarId syncToken =
     pull_pages c e net token calendarId syncToken MAX_PAGES None
       \<lparr>pd_intervals = [], pd_cancelledEventIds = [], pd_nextSyncToken = None\<rparr>"

record calendar_entry =
  ca_id :: js_text
  ca_summary :: js_text
  ca_accessRole :: js_text
  ca_primary :: bool
  ca_isWritable :: bool

definition calendar_of :: "json \<Rightarrow> calendar_entry option" where
  "calendar_of item =
     (case nonempty (json_text (json_field item ''id'')) of
        None \<Rightarrow> None
      | Some i \<Rightarrow>
          let accessRole = coalesce (json_text (json_field item ''accessRole'')) [] in
          Some \<lparr>ca_id = i, ca_summary = coalesce (json_text (json_field item ''summary'')) [], ca_accessRole = accessRole,
                ca_primary = (json_field item ''primary'' = Some (JBool True)),
                ca_isWritable = (accessRole = js ''owner'' \<or> accessRole = js ''writer'')\<rparr>)"

fun calendar_pages ::
  "'g network \<Rightarrow> js_text \<Rightarrow> nat \<Rightarrow> json option \<Rightarrow> calendar_entry list \<Rightarrow> ('g world, pull_error + calendar_entry list) prog" where
  "calendar_pages net token 0 pageToken cs =
     retP (Inl (PuShape (js ''calendarList.list paginated past 10 pages; possible loop'')))"
| "calendar_pages net token (Suc n) pageToken cs =
     bindP (fetchP net (event_request VerbGet (CalendarListUrl pageToken) token NoBody)) (\<lambda>a. case a of
        NetFailed m \<Rightarrow> retP (Inl (PuNetwork m))
      | NetAnswered r \<Rightarrow>
          if \<not> response_ok r then retP (Inl (PuHttp (na_status r) (readBody r)))
          else case na_json r of
            Inl m \<Rightarrow> retP (Inl (PuShape (js ''calendarList.list JSON parse failed: '' @ m)))
          | Inr data \<Rightarrow>
              if data = JNull then liftP (Inl TypeErrorUndefined)
              else (case json_field data ''items'' of
                Some (JArr items) \<Rightarrow>
                  (case next_page_token data of
                     None \<Rightarrow> retP (Inr (cs @ List.map_filter calendar_of items))
                   | Some t \<Rightarrow> calendar_pages net token n (Some t) (cs @ List.map_filter calendar_of items))
              | _ \<Rightarrow> retP (Inl (PuShape (js ''calendarList.list response missing items'')))))"

definition listCalendars :: "'g network \<Rightarrow> js_text \<Rightarrow> ('g world, pull_error + calendar_entry list) prog" where
  "listCalendars net token = calendar_pages net token MAX_PAGES None []"

section \<open>One pull\<close>

definition SUMMARY_MAX_CHARS :: nat where "SUMMARY_MAX_CHARS = 64"

record run_pull_result =
  rr_intervalsBefore :: nat
  rr_intervalsAfter :: nat
  rr_ownEvents :: nat
  rr_orphanSelf :: nat
  rr_delta :: bool
  rr_deltaTokenRefreshed :: bool
  rr_cancelledEvents :: nat

record pull_options =
  po_teacherAccountId :: string
  po_externalCalendarId :: js_text
  po_isWritableInSource :: "bool option"

definition isActiveTeacher :: "clock \<Rightarrow> uuid \<Rightarrow> millis option \<Rightarrow> cal_db \<Rightarrow> bool" where
  "isActiveTeacher c i lastPulledAt D \<longleftrightarrow>
     (case lastPulledAt of Some t \<Rightarrow> js_now c - t \<le> 24 * 60 * 60000 | None \<Rightarrow> False)
     \<or> list_ex (\<lambda>r. ls_teacher_account_id r = i \<and> ls_status r = Booked
            \<and> (case ls_booked_at r of Some b \<Rightarrow> b \<ge> pg_now c - 14 * us_per_day | None \<Rightarrow> False)) (lesson_slots (cd_db D))"

definition truncateForStorage :: "js_text option \<Rightarrow> js_text option" where
  "truncateForStorage s =
     (case s of None \<Rightarrow> None | Some t \<Rightarrow>
        let trimmed = js_trim t in if trimmed = [] then None else Some (take SUMMARY_MAX_CHARS trimmed))"

text \<open>The two flags, \<open>(isOwnEvent, isOrphanSelf)\<close>.\<close>

definition computeOwnership :: "parsed_interval \<Rightarrow> google_integration \<Rightarrow> uuid list \<Rightarrow> bool \<times> bool" where
  "computeOwnership v ig knownSlotIds =
     (if pv_lcOrigin v \<noteq> Some (JStr (js ''levelchannel''))
         \<or> \<not> (case pv_lcSlotId v of None \<Rightarrow> False | Some x \<Rightarrow> js_truthy x)
         \<or> \<not> (case pv_lcEpoch v of None \<Rightarrow> False | Some x \<Rightarrow> js_truthy x) then (False, False)
      else if \<not> list_ex (\<lambda>i. pv_lcSlotId v = Some (JStr (js i))) knownSlotIds then (False, False)
      else if pv_lcEpoch v = Some (JStr (js (gi_epoch ig))) then (True, False)
      else (False, True))"

definition bi_key :: "busy_interval \<Rightarrow> uuid \<times> js_text \<times> js_text" where
  "bi_key b = (bi_teacher_account_id b, bi_calendar_id b, bi_event_id b)"

definition stored_interval :: "clock \<Rightarrow> pull_options \<Rightarrow> parsed_interval \<Rightarrow> bool \<times> bool \<Rightarrow> js_text \<Rightarrow> busy_interval" where
  "stored_interval c opts v flags encKey =
     \<lparr>bi_teacher_account_id = pg_uuid (po_teacherAccountId opts), bi_calendar_id = po_externalCalendarId opts,
      bi_event_id = pv_externalEventId v, bi_start_at = pv_startAt v * us_per_ms, bi_end_at = pv_endAt v * us_per_ms,
      bi_summary_encrypted = map_option (\<lambda>t. Sealed t encKey) (truncateForStorage (pv_summary v)),
      bi_is_all_day = pv_isAllDay v, bi_is_writable_in_source = coalesce (po_isWritableInSource opts) False,
      bi_is_own_event = fst flags, bi_is_orphan_self = snd flags, bi_etag = pv_etag v, bi_fetched_at = pg_now c\<rparr>"

text \<open>The statement, with the CHECK constraints and the foreign key of migration 0044.\<close>

definition upsertInterval ::
  "clock \<Rightarrow> pull_options \<Rightarrow> parsed_interval \<Rightarrow> bool \<times> bool \<Rightarrow> js_text \<Rightarrow> cal_db \<Rightarrow> exn + cal_db" where
  "upsertInterval c opts v flags encKey D =
     (let b = stored_interval c opts v flags encKey in
      if (bi_is_own_event b \<and> bi_is_orphan_self b) \<or> bi_end_at b \<le> bi_start_at b then Inl (PgErr CheckViolation)
      else if find_by ac_id (bi_teacher_account_id b) (accounts (cd_db D)) = None then Inl (PgErr ForeignKeyViolation)
      else Inr (D\<lparr>cd_busy := if find_by bi_key (bi_key b) (cd_busy D) = None then cd_busy D @ [b]
                             else replace_row bi_key b (cd_busy D)\<rparr>))"

fun upsert_intervals ::
  "clock \<Rightarrow> pull_options \<Rightarrow> google_integration \<Rightarrow> uuid list \<Rightarrow> js_text \<Rightarrow> parsed_interval list \<Rightarrow> cal_db \<Rightarrow> exn + cal_db" where
  "upsert_intervals c opts ig known encKey [] D = Inr D"
| "upsert_intervals c opts ig known encKey (v # vs) D =
     bindR (upsertInterval c opts v (computeOwnership v ig known) encKey D) (upsert_intervals c opts ig known encKey vs)"

definition of_calendar :: "pull_options \<Rightarrow> busy_interval \<Rightarrow> bool" where
  "of_calendar opts b \<longleftrightarrow> bi_teacher_account_id b = pg_uuid (po_teacherAccountId opts) \<and> bi_calendar_id b = po_externalCalendarId opts"

text \<open>The transaction that stores a pull; when its guard misses it is rolled back.\<close>

definition guard_set :: "clock \<Rightarrow> js_text option \<Rightarrow> gcal_row \<Rightarrow> gcal_row" where
  "guard_set c token r = r\<lparr>ig_last_pulled_at := Some (pg_now c), ig_sync_state := SyncActive, ig_last_error := None,
     ig_next_sync_token := coalesce_opt token (ig_next_sync_token r)\<rparr>"

definition store_pull ::
  "clock \<Rightarrow> pull_options \<Rightarrow> google_integration \<Rightarrow> uuid list \<Rightarrow> js_text \<Rightarrow> bool \<Rightarrow> pull_value \<Rightarrow> cal_db \<Rightarrow>
   exn + (run_pull_result \<times> cal_db)" where
  "store_pull c opts ig known encKey delta pull D =
     (let mine = of_calendar opts;
          before = length (filter mine (cd_busy D));
          cancelled = (\<lambda>b. mine b \<and> bi_event_id b \<in> set (pd_cancelledEventIds pull));
          D1 = D\<lparr>cd_busy := filter (\<lambda>b. \<not> (if delta then cancelled b else mine b)) (cd_busy D)\<rparr>;
          gone = (if delta then length (filter cancelled (cd_busy D)) else 0);
          flags = map (\<lambda>v. computeOwnership v ig known) (pd_intervals pull) in
      bindR (upsert_intervals c opts ig known encKey (pd_intervals pull) D1) (\<lambda>D2.
      bindR (pg_update_integration c (pg_uuid (po_teacherAccountId opts))
               (\<lambda>r. ig_next_sync_token r = gi_nextSyncToken ig \<and> ig_epoch r = gi_epoch ig)
               (guard_set c (pd_nextSyncToken pull)) D2) (\<lambda>(guard, D3).
        let res = \<lparr>rr_intervalsBefore = before, rr_intervalsAfter = 0, rr_ownEvents = 0, rr_orphanSelf = 0, rr_delta = delta,
                   rr_deltaTokenRefreshed = False, rr_cancelledEvents = 0\<rparr> in
        if guard = None then Inr (res, D)
        else Inr (res\<lparr>rr_intervalsAfter := length (pd_intervals pull) + gone, rr_ownEvents := length (filter fst flags),
                      rr_orphanSelf := length (filter snd flags),
                      rr_deltaTokenRefreshed := delta \<and> pd_nextSyncToken pull \<noteq> None \<and> pd_nextSyncToken pull \<noteq> gi_nextSyncToken ig,
                      rr_cancelledEvents := gone\<rparr>, D3))))"

definition drop_sync_token :: "clock \<Rightarrow> pull_options \<Rightarrow> google_integration \<Rightarrow> cal_db \<Rightarrow> exn + (unit \<times> cal_db)" where
  "drop_sync_token c opts ig D =
     bindR (pg_update_integration c (pg_uuid (po_teacherAccountId opts))
              (\<lambda>r. ig_next_sync_token r = gi_nextSyncToken ig \<and> ig_epoch r = gi_epoch ig)
              (\<lambda>r. r\<lparr>ig_next_sync_token := None, ig_last_error := Some (js ''sync_token_expired'')\<rparr>) D)
       (\<lambda>(_, D'). Inr ((), D'))"

definition pull_exec :: "clock \<Rightarrow> cal_env \<Rightarrow> 'g network \<Rightarrow> js_text \<Rightarrow> js_text option \<Rightarrow> ('g, pull_value, pull_error) token_exec" where
  "pull_exec c e net calendarId syncToken token ig =
     bindP (pullBusyIntervalsForCalendar c e net token calendarId syncToken)
       (\<lambda>r. retP (case r of Inr v \<Rightarrow> CallOk v
                  | Inl err \<Rightarrow> CallFailed (case err of PuHttp s _ \<Rightarrow> s = 401 | _ \<Rightarrow> False) (RawCall err)))"

definition slot_ids_of :: "uuid \<Rightarrow> cal_db \<Rightarrow> uuid list" where
  "slot_ids_of i D = map ls_id (filter (\<lambda>r. ls_teacher_account_id r = i) (lesson_slots (cd_db D)))"

definition pull_in_mode ::
  "clock \<Rightarrow> cal_env \<Rightarrow> 'g network \<Rightarrow> pull_options \<Rightarrow> google_integration \<Rightarrow> js_text \<Rightarrow> bool \<Rightarrow>
   ('g world, run_pull_error + run_pull_result) prog" where
  "pull_in_mode c e net opts ig encKey delta =
     bindP (withTokenRetry c e net (po_teacherAccountId opts)
              (pull_exec c e net (po_externalCalendarId opts) (if delta then gi_nextSyncToken ig else None))) (\<lambda>wrapped.
       case wrapped of
         CallFailed _ (RawToken reason) \<Rightarrow> retP (Inl (RpIntegrationDisconnected (Some reason)))
       | CallFailed _ (RawCall err) \<Rightarrow>
           if err = PuSyncTokenExpired then bindP (stmt (drop_sync_token c opts ig)) (\<lambda>_. retP (Inl (RpPull err)))
           else retP (Inl (RpPull err))
       | CallOk pull \<Rightarrow>
           bindP (reading (slot_ids_of (pg_uuid (po_teacherAccountId opts)))) (\<lambda>known.
           bindP (stmt (store_pull c opts ig known encKey delta pull)) (\<lambda>res. retP (Inr res))))"

definition runPullForCalendar ::
  "clock \<Rightarrow> cal_env \<Rightarrow> 'g network \<Rightarrow> pull_options \<Rightarrow> ('g world, run_pull_error + run_pull_result) prog" where
  "runPullForCalendar c e net opts =
     (let teacher = po_teacherAccountId opts in
      if \<not> uuid_pattern teacher then retP (Inl RpInvalidAccount)
      else bindP (liftP (getCalendarEncryptionKey e)) (\<lambda>ko. case ko of
        None \<Rightarrow> retP (Inl RpEncryptionKeyMissing)
      | Some encKey \<Rightarrow>
          bindP (\<lambda>w. (getGoogleIntegration e teacher (fst w), w)) (\<lambda>io. case io of
            None \<Rightarrow> retP (Inl RpIntegrationMissing)
          | Some ig \<Rightarrow>
              if gi_syncState ig = SyncDisconnected then retP (Inl (RpIntegrationDisconnected None))
              else if nonempty (gi_accessToken ig) = None then retP (Inl RpAccessTokenMissing)
              else if (case gi_tokenExpiresAt ig of Some t \<Rightarrow> t \<le> js_now c | None \<Rightarrow> False) then retP (Inl RpAccessTokenExpired)
              else
                bindP (reading (isActiveTeacher c (pg_uuid teacher) (gi_lastPulledAt ig))) (\<lambda>active.
                pull_in_mode c e net opts ig encKey (gi_nextSyncToken ig \<noteq> None \<and> active)))))"

section \<open>What a pull leaves behind\<close>

definition busy_of :: "cal_db \<Rightarrow> pull_options \<Rightarrow> js_text \<Rightarrow> busy_interval option" where
  "busy_of D opts ev = find_by bi_key (pg_uuid (po_teacherAccountId opts), po_externalCalendarId opts, ev) (cd_busy D)"

definition others_busy :: "pull_options \<Rightarrow> cal_db \<Rightarrow> busy_interval list" where
  "others_busy opts D = filter (\<lambda>b. \<not> of_calendar opts b) (cd_busy D)"

text \<open>The answer as a map: the last event under an id counts.\<close>

definition answered :: "pull_value \<Rightarrow> js_text \<Rightarrow> parsed_interval option" where
  "answered v ev = find (\<lambda>x. pv_externalEventId x = ev) (rev (pd_intervals v))"

lemma stored_interval_simps [simp]:
  "bi_key (stored_interval c opts x fl k) = (pg_uuid (po_teacherAccountId opts), po_externalCalendarId opts, pv_externalEventId x)"
  "of_calendar opts (stored_interval c opts x fl k)"
  by (simp_all add: stored_interval_def bi_key_def of_calendar_def)

lemma of_calendar_key:
  "of_calendar opts b \<longleftrightarrow> bi_key b = (pg_uuid (po_teacherAccountId opts), po_externalCalendarId opts, bi_event_id b)"
  by (auto simp: of_calendar_def bi_key_def)

lemma upsertInterval_effect:
  assumes "upsertInterval c opts x fl k D = Inr D'"
  shows "busy_of D' opts ev = (if ev = pv_externalEventId x then Some (stored_interval c opts x fl k) else busy_of D opts ev)"
    and "others_busy opts D' = others_busy opts D" and "D' = D\<lparr>cd_busy := cd_busy D'\<rparr>"
proof -
  define b where "b = stored_interval c opts x fl k"
  have key: "bi_key b = (pg_uuid (po_teacherAccountId opts), po_externalCalendarId opts, pv_externalEventId x)" and mine: "of_calendar opts b"
    by (simp_all add: b_def)
  have busy: "cd_busy D' = (if find_by bi_key (bi_key b) (cd_busy D) = None then cd_busy D @ [b] else replace_row bi_key b (cd_busy D))"
    and rest: "D' = D\<lparr>cd_busy := cd_busy D'\<rparr>"
    using assms by (auto simp: upsertInterval_def b_def [symmetric] Let_def split: if_splits)
  show "busy_of D' opts ev = (if ev = pv_externalEventId x then Some b else busy_of D opts ev)" unfolding b_def [symmetric]
    by (auto simp: busy_of_def busy find_by_snoc find_by_replace_row key split: option.splits)
  have "filter (\<lambda>b. \<not> of_calendar opts b) (replace_row bi_key b rows) = filter (\<lambda>b. \<not> of_calendar opts b) rows" for rows
    using mine by (induction rows) (auto simp: replace_row_def of_calendar_def bi_key_def)
  then show "others_busy opts D' = others_busy opts D" by (simp add: others_busy_def busy mine)
  show "D' = D\<lparr>cd_busy := cd_busy D'\<rparr>" by (fact rest)
qed

lemma upsert_intervals_effect:
  assumes "upsert_intervals c opts ig known k vs D = Inr D'"
  shows "busy_of D' opts ev = (case find (\<lambda>x. pv_externalEventId x = ev) (rev vs) of
       Some x \<Rightarrow> Some (stored_interval c opts x (computeOwnership x ig known) k) | None \<Rightarrow> busy_of D opts ev)
     \<and> others_busy opts D' = others_busy opts D \<and> D' = D\<lparr>cd_busy := cd_busy D'\<rparr>"
  using assms
proof (induction vs arbitrary: D)
  case Nil
  then show ?case by simp
next
  case (Cons x vs)
  then obtain D1 where one: "upsertInterval c opts x (computeOwnership x ig known) k D = Inr D1"
    and rest: "upsert_intervals c opts ig known k vs D1 = Inr D'" by (auto simp: bindR_eq_Inr_iff)
  note first = upsertInterval_effect [OF one] and IH = Cons.IH [OF rest]
  have "find P (ys @ [x]) = (case find P ys of Some y \<Rightarrow> Some y | None \<Rightarrow> if P x then Some x else None)" for P ys
    by (induction ys) auto
  then have found: "find (\<lambda>y. pv_externalEventId y = ev) (rev (x # vs)) = (case find (\<lambda>y. pv_externalEventId y = ev) (rev vs) of
      Some y \<Rightarrow> Some y | None \<Rightarrow> if pv_externalEventId x = ev then Some x else None)" by simp
  have "D' = D\<lparr>cd_busy := cd_busy D'\<rparr>"
  proof -
    have "D' = D1\<lparr>cd_busy := cd_busy D'\<rparr>" using IH by blast
    also have "\<dots> = D\<lparr>cd_busy := cd_busy D1\<rparr>\<lparr>cd_busy := cd_busy D'\<rparr>" using first(3) by simp
    finally show ?thesis by simp
  qed
  with IH first(1,2) show ?case unfolding found by (auto split: option.splits)
qed

lemma integration_updated:
  assumes "pg_update_integration c i P f D = Inr (Some r, D')" and "\<And>x. ig_account_id (f x) = ig_account_id x"
  shows "integration_of D' i = Some r" and "\<exists>old. integration_of D i = Some old \<and> P old \<and> r = (f old)\<lparr>ig_updated_at := pg_now c\<rparr>"
    and "D' = D\<lparr>cd_integrations := cd_integrations D'\<rparr>" and "require_timezone D r"
proof -
  obtain old where old: "integration_of D i = Some old" "P old"
    and r: "r = (f old)\<lparr>ig_updated_at := pg_now c\<rparr>" and tz: "require_timezone D r"
    and D': "D' = D\<lparr>cd_integrations := replace_row ig_account_id r (cd_integrations D)\<rparr>"
    using assms(1) by (auto simp: pg_update_integration_def Let_def split: option.splits if_splits)
  have "ig_account_id r = i" using old(1) assms(2) [of old] find_by_key [of ig_account_id i "cd_integrations D" old]
    by (simp add: r integration_of_def)
  then show "integration_of D' i = Some r" using old(1) by (simp add: integration_of_def D' find_by_replace_row)
  show "\<exists>old. integration_of D i = Some old \<and> P old \<and> r = (f old)\<lparr>ig_updated_at := pg_now c\<rparr>" using old r by blast
  show "D' = D\<lparr>cd_integrations := cd_integrations D'\<rparr>" by (simp add: D')
  show "require_timezone D r" by (fact tz)
qed

text \<open>A stored pull: the answer replaces what was known of the calendar, or the guard missed and nothing was written.\<close>

definition pull_stored :: "clock \<Rightarrow> pull_options \<Rightarrow> google_integration \<Rightarrow> uuid list \<Rightarrow> js_text \<Rightarrow> bool \<Rightarrow> pull_value \<Rightarrow> cal_db \<Rightarrow> cal_db \<Rightarrow> bool" where
  "pull_stored c opts ig known k delta v D D' \<longleftrightarrow>
     (\<forall>ev. busy_of D' opts ev = (case answered v ev of
        Some x \<Rightarrow> Some (stored_interval c opts x (computeOwnership x ig known) k)
      | None \<Rightarrow> if delta \<and> ev \<notin> set (pd_cancelledEventIds v) then busy_of D opts ev else None))
     \<and> others_busy opts D' = others_busy opts D
     \<and> (\<exists>old r. integration_of D (pg_uuid (po_teacherAccountId opts)) = Some old
          \<and> ig_epoch old = gi_epoch ig \<and> ig_next_sync_token old = gi_nextSyncToken ig
          \<and> integration_of D' (pg_uuid (po_teacherAccountId opts)) = Some r
          \<and> r = (guard_set c (pd_nextSyncToken v) old)\<lparr>ig_updated_at := pg_now c\<rparr>)
     \<and> cd_db D' = cd_db D"

lemma find_by_filter:
  "(\<And>x. key x = k \<Longrightarrow> P x = b) \<Longrightarrow> find_by key k (filter P xs) = (if b then find_by key k xs else None)"
  by (induction xs) (auto simp: find_by_def)

lemma store_pull_effect:
  assumes "store_pull c opts ig known k delta v D = Inr (res, D')"
  shows "rr_delta res = delta \<and> (D' = D \<and> rr_intervalsAfter res = 0 \<or> pull_stored c opts ig known k delta v D D')"
proof -
  let ?i = "pg_uuid (po_teacherAccountId opts)"
  let ?drop = "\<lambda>b. if delta then of_calendar opts b \<and> bi_event_id b \<in> set (pd_cancelledEventIds v) else of_calendar opts b"
  define D1 where "D1 = D\<lparr>cd_busy := filter (\<lambda>b. \<not> ?drop b) (cd_busy D)\<rparr>"
  have D1_eq: "D\<lparr>cd_busy := filter (\<lambda>b. \<not> (if delta then of_calendar opts b \<and> bi_event_id b \<in> set (pd_cancelledEventIds v)
      else of_calendar opts b)) (cd_busy D)\<rparr> = D1" by (simp add: D1_def)
  let ?P = "\<lambda>r. ig_next_sync_token r = gi_nextSyncToken ig \<and> ig_epoch r = gi_epoch ig"
  let ?f = "guard_set c (pd_nextSyncToken v)"
  obtain D2 where up: "upsert_intervals c opts ig known k (pd_intervals v) D1 = Inr D2"
    using assms unfolding store_pull_def Let_def D1_eq by (elim bindR_InrE) blast
  obtain guard D3 where gd: "pg_update_integration c ?i ?P ?f D2 = Inr (guard, D3)"
    using assms up unfolding store_pull_def Let_def D1_eq by (cases "pg_update_integration c ?i ?P ?f D2") auto
  have res: "rr_delta res = delta \<and> (if guard = None then D' = D \<and> rr_intervalsAfter res = 0 else D' = D3)"
    using assms unfolding store_pull_def Let_def D1_eq up bindR.simps gd by (cases guard) auto
  show ?thesis
  proof (cases guard)
    case None
    with res show ?thesis by simp
  next
    case (Some r)
    have acc: "ig_account_id (guard_set c (pd_nextSyncToken v) x) = ig_account_id x" for x by (simp add: guard_set_def)
    note moved = integration_updated [OF gd [unfolded Some] acc]
    note eff = upsert_intervals_effect [OF up]
    obtain X where D2: "D2 = D1\<lparr>cd_busy := X\<rparr>" using eff by blast
    obtain Y where D3: "D3 = D2\<lparr>cd_integrations := Y\<rparr>" using moved(3) by blast
    have same: "integration_of D2 ?i = integration_of D ?i" "cd_db D2 = cd_db D" by (simp_all add: D2 D1_def integration_of_def)
    have kept: "cd_busy D3 = cd_busy D2" "cd_db D3 = cd_db D2" by (simp_all add: D3)
    have base: "busy_of D1 opts ev = (if delta \<and> ev \<notin> set (pd_cancelledEventIds v) then busy_of D opts ev else None)" for ev
    proof -
      have "cd_busy D1 = filter (\<lambda>b. \<not> ?drop b) (cd_busy D)" by (simp add: D1_def)
      then show ?thesis unfolding busy_of_def
        by (simp only:) (rule find_by_filter, auto simp: bi_key_def of_calendar_def)
    qed
    have others: "others_busy opts D1 = others_busy opts D"
      by (auto simp: others_busy_def D1_def intro!: filter_cong)
    have last: "busy_of D3 opts ev = busy_of D2 opts ev" "others_busy opts D3 = others_busy opts D2" for ev
      using kept(1) by (simp_all add: busy_of_def others_busy_def)
    have "busy_of D3 opts ev = (case answered v ev of
        Some x \<Rightarrow> Some (stored_interval c opts x (computeOwnership x ig known) k)
      | None \<Rightarrow> if delta \<and> ev \<notin> set (pd_cancelledEventIds v) then busy_of D opts ev else None)" for ev
      using eff [of ev] last(1) base [of ev] by (cases "answered v ev") (simp_all add: answered_def)
    moreover have "others_busy opts D3 = others_busy opts D" using eff last(2) others by simp
    moreover have "\<exists>old r. integration_of D ?i = Some old \<and> ig_epoch old = gi_epoch ig \<and> ig_next_sync_token old = gi_nextSyncToken ig
        \<and> integration_of D3 ?i = Some r \<and> r = (?f old)\<lparr>ig_updated_at := pg_now c\<rparr>"
      using moved(1,2) same(1) by auto
    ultimately have "pull_stored c opts ig known k delta v D D3" using same(2) kept(2) unfolding pull_stored_def by simp
    with res Some show ?thesis by simp
  qed
qed

lemma runPull_cases:
  fixes w w' :: "'g world"
  assumes "runPullForCalendar c e net opts w = (Inr (Inr res), w')"
  obtains ig known k delta token v w1 D2 g where "uuid_pattern (po_teacherAccountId opts)"
    and "pullBusyIntervalsForCalendar c e net token (po_externalCalendarId opts) (if delta then gi_nextSyncToken ig else None) w1
      = (Inr (Inr v), (D2, g))"
    and "snd w' = g" and "store_pull c opts ig known k delta v D2 = Inr (res, fst w')"
    and "known = slot_ids_of (pg_uuid (po_teacherAccountId opts)) D2"
proof -
  let ?i = "pg_uuid (po_teacherAccountId opts)"
  note go = runPullForCalendar_def Let_def bindP_def liftP_def retP_def reading_def
  have pat: "uuid_pattern (po_teacherAccountId opts)" using assms by (auto simp: go split: if_splits)
  obtain k where k: "getCalendarEncryptionKey e = Inr (Some k)"
    using assms pat by (auto simp: go split: sum.splits option.splits)
  obtain ig where ig: "getGoogleIntegration e (po_teacherAccountId opts) (fst w) = Inr (Some ig)"
    using assms pat k by (auto simp: go split: sum.splits option.splits)
  have ok: "gi_syncState ig \<noteq> SyncDisconnected" "nonempty (gi_accessToken ig) \<noteq> None"
      "\<not> (case gi_tokenExpiresAt ig of Some t \<Rightarrow> t \<le> js_now c | None \<Rightarrow> False)"
    using assms pat k ig by (auto simp: go split: if_splits)
  obtain delta where mode: "pull_in_mode c e net opts ig k delta w = (Inr (Inr res), w')"
    using assms pat k ig ok by (auto simp: go)
  obtain r w2 where wr: "withTokenRetry c e net (po_teacherAccountId opts)
      (pull_exec c e net (po_externalCalendarId opts) (if delta then gi_nextSyncToken ig else None)) w = (r, w2)" by (rule prod.exhaust)
  have run: "(case r of Inl x \<Rightarrow> (Inl x, w2) | Inr wrapped \<Rightarrow> (case wrapped of
                  CallFailed _ (RawToken reason) \<Rightarrow> retP (Inl (RpIntegrationDisconnected (Some reason)))
                | CallFailed _ (RawCall err) \<Rightarrow>
                    if err = PuSyncTokenExpired then bindP (stmt (drop_sync_token c opts ig)) (\<lambda>_. retP (Inl (RpPull err)))
                    else retP (Inl (RpPull err))
                | CallOk pull \<Rightarrow>
                    bindP (reading (slot_ids_of ?i)) (\<lambda>known.
                    bindP (stmt (store_pull c opts ig known k delta pull)) (\<lambda>res. retP (Inr res)))) w2)
       = (Inr (Inr res), w')"
    using mode wr unfolding pull_in_mode_def bindP_def [of "withTokenRetry _ _ _ _ _"] by simp
  obtain v where v: "r = Inr (CallOk v)"
  proof (cases r)
    case (Inl x)
    with run show thesis by simp
  next
    case (Inr wrapped)
    show thesis
    proof (cases wrapped)
      case (CallOk v)
      with Inr that show thesis by simp
    next
      case (CallFailed b raw)
      with Inr run show thesis
        by (cases raw) (auto simp: retP_def bindP_def split: if_splits prod.splits sum.splits)
    qed
  qed
  obtain D2 g where w2: "w2 = (D2, g)" by (rule prod.exhaust)
  obtain t ig' w1 where ex: "pull_exec c e net (po_externalCalendarId opts) (if delta then gi_nextSyncToken ig else None) t ig' w1
      = (Inr (CallOk v), w2)" using retry_ok [OF wr [unfolded v]] by blast
  then have page: "pullBusyIntervalsForCalendar c e net t (po_externalCalendarId opts) (if delta then gi_nextSyncToken ig else None) w1
      = (Inr (Inr v), w2)"
    by (auto simp: pull_exec_def bindP_def retP_def split: prod.splits sum.splits)
  have st: "store_pull c opts ig (slot_ids_of ?i D2) k delta v D2 = Inr (res, fst w')" and g: "snd w' = g"
    using run by (auto simp: v w2 reading_def bindP_def stmt_def retP_def split: sum.splits prod.splits)
  show thesis using that [OF pat page [unfolded w2] g st refl] .
qed

text \<open>
  C14: what a pull stores. It asks the calendar, with the stored token only when it is to get changes, and on success
  the busy times of this calendar are the events of the answer (the last one under an id), each with the flags its stamp
  has under the connection that the pull began with; of the earlier ones only those stay that a list of changes does not
  mention. Busy times of other calendars and teachers and all lessons stay. The connection is active, pulled just now,
  and it is the one the pull began with. Otherwise nothing was written.
\<close>

theorem pull_stores_the_answer:
  fixes w w' :: "'g world"
  assumes "runPullForCalendar c e net opts w = (Inr (Inr res), w')"
  shows "\<exists>ig k token v w1 D g.
     pullBusyIntervalsForCalendar c e net token (po_externalCalendarId opts) (if rr_delta res then gi_nextSyncToken ig else None) w1
       = (Inr (Inr v), (D, g))
     \<and> snd w' = g
     \<and> (fst w' = D \<and> rr_intervalsAfter res = 0
        \<or> pull_stored c opts ig (slot_ids_of (pg_uuid (po_teacherAccountId opts)) D) k (rr_delta res) v D (fst w'))"
proof -
  from assms obtain ig known k delta token v w1 D2 g where
      page: "pullBusyIntervalsForCalendar c e net token (po_externalCalendarId opts) (if delta then gi_nextSyncToken ig else None) w1
      = (Inr (Inr v), (D2, g))" and g: "snd w' = g" and st: "store_pull c opts ig known k delta v D2 = Inr (res, fst w')"
    and known: "known = slot_ids_of (pg_uuid (po_teacherAccountId opts)) D2" by (rule runPull_cases)
  from store_pull_effect [OF st] page g known show ?thesis by blast
qed

lemma pulled_interval_blocks:
  fixes w :: "'g world"
  assumes run: "runPullForCalendar c e net opts w = (Inr (Inr res), (D', g'))" and "rr_intervalsAfter res > 0"
    and b: "b \<in> set (cd_busy D')" "of_calendar opts b" "\<not> bi_is_own_event b"
    and meet: "ranges_overlap (bi_start_at b) (bi_end_at b) start (start + minutes * us_per_minute)"
    and soon: "pg_now c' \<le> pg_now c + 10 * us_per_minute"
  shows "busy_overlap c' (pg_uuid (po_teacherAccountId opts)) start minutes (slots_view D')"
proof -
  let ?i = "pg_uuid (po_teacherAccountId opts)"
  from run obtain ig known k delta token v w1 D2 g where
      st: "store_pull c opts ig known k delta v D2 = Inr (res, fst (D', g'))" by (rule runPull_cases)
  with store_pull_effect [OF st] assms(2) have "pull_stored c opts ig known k delta v D2 D'" by simp
  then obtain old x where x: "integration_of D' ?i = Some x" "x = (guard_set c (pd_nextSyncToken v) old)\<lparr>ig_updated_at := pg_now c\<rparr>"
    by (auto simp: pull_stored_def)
  have x_row: "x \<in> set (cd_integrations D')" "ig_account_id x = ?i"
    using x(1) find_by_SomeD [of ig_account_id ?i "cd_integrations D'" x] by (simp_all add: integration_of_def)
  have "ig_sync_state x = SyncActive" "ig_last_pulled_at x = Some (pg_now c)" by (simp_all add: x(2) guard_set_def)
  then have tci: "integration_view x \<in> set (teacher_calendar_integrations (slots_view D'))" "ci_account_id (integration_view x) = ?i"
      "integration_fresh c' (integration_view x)"
    using x_row soon by (auto simp: slots_view_def integration_fresh_def intro!: imageI) (simp_all add: integration_view_def sync_state_text_def)
  have eb: "busy_view b \<in> set (teacher_external_busy_intervals (slots_view D'))" "eb_teacher_account_id (busy_view b) = ?i"
      "\<not> eb_is_own_event (busy_view b)" "eb_start_at (busy_view b) = bi_start_at b" "eb_end_at (busy_view b) = bi_end_at b"
    using b by (auto simp: slots_view_def of_calendar_def intro!: imageI) (simp_all add: busy_view_def)
  show ?thesis using tci eb meet unfolding busy_overlap_def list_ex_iff by (metis (no_types, lifting))
qed

text \<open>
  C15: an event of the calendar that has been pulled keeps lessons out of its time. For ten minutes after a pull no
  lesson of the teacher that overlaps a busy time of this calendar, other than the event of a lesson, can be booked by
  anyone; the attempt changes nothing.
\<close>

theorem pulled_event_keeps_lessons_out:
  fixes w :: "'g world"
  assumes run: "runPullForCalendar c e net opts w = (Inr (Inr res), (D', g'))" and "rr_intervalsAfter res > 0"
    and b: "b \<in> set (cd_busy D')" "of_calendar opts b" "\<not> bi_is_own_event b"
    and r: "slot_by_id (cd_db D') (pg_uuid slotId) = Some r" "ls_teacher_account_id r = pg_uuid (po_teacherAccountId opts)"
    and meet: "ranges_overlap (bi_start_at b) (bi_end_at b) (ls_start_at r) (ls_start_at r + ls_duration_minutes r * us_per_minute)"
    and soon: "pg_now c' \<le> pg_now c + 10 * us_per_minute"
    and book: "bookSlot billing c' slotId learner actor options (slots_view D') = Inr (answer, d')"
  shows "isl answer \<and> d' = slots_view D'"
proof -
  note blocked = pulled_interval_blocks [OF run assms(2) b meet soon]
  have same: "slot_by_id (slots_view D') (pg_uuid slotId) = Some r" using r(1) by (simp add: slots_view_def slot_by_id_def)
  have no: "reserve_slot c' (pg_uuid slotId) learner actor options (slots_view D') \<noteq> Inr (Some slot, d1)" for slot d1
  proof
    assume "reserve_slot c' (pg_uuid slotId) learner actor options (slots_view D') = Inr (Some slot, d1)"
    then show False by (rule reserve_slot_SomeE) (use same blocked r(2) in \<open>auto simp: bookable_def\<close>)
  qed
  from book show ?thesis by (cases rule: bookSlot_cases) (use no in auto)
qed

section \<open>A disconnection during a pull\<close>

text \<open>
  The guard looks at the epoch and the stored token, which a disconnection leaves as they are. When the teacher
  disconnects while the answer is on its way, storing it makes the connection active again, without tokens.
\<close>

lemma disconnected_is_made_active:
  assumes "integration_of D (pg_uuid (po_teacherAccountId opts)) = Some r" and "gi_epoch ig = ig_epoch r"
    and "gi_nextSyncToken ig = ig_next_sync_token r" and "timezone_known D (ig_account_id r)"
    and "upsert_intervals c opts ig known k (pd_intervals v) (D0\<lparr>cd_busy := bs\<rparr>) = Inr D1"
    and "D0 = D\<lparr>cd_integrations := replace_row ig_account_id (disconnected_row r) (cd_integrations D)\<rparr>"
    and "bs = filter (\<lambda>b. \<not> of_calendar opts b) (cd_busy D)"
  shows "\<exists>res D' x. store_pull c opts ig known k False v D0 = Inr (res, D')
     \<and> integration_of D' (pg_uuid (po_teacherAccountId opts)) = Some x \<and> ig_sync_state x = SyncActive
     \<and> ig_access_token_enc x = None \<and> ig_refresh_token_enc x = None"
proof -
  let ?i = "pg_uuid (po_teacherAccountId opts)"
  have acc: "ig_account_id r = ?i" using assms(1) by (auto simp: integration_of_def dest: find_by_key)
  have D0: "integration_of D0 ?i = Some (disconnected_row r)"
    using assms(1) acc by (simp add: assms(6) integration_of_def find_by_replace_row disconnected_row_def)
  obtain X where D1: "D1 = D0\<lparr>cd_busy := X\<rparr>" using upsert_intervals_effect [OF assms(5)] by auto
  have "require_timezone D1 ((guard_set c (pd_nextSyncToken v) (disconnected_row r))\<lparr>ig_updated_at := pg_now c\<rparr>)"
    using assms(4) by (simp add: require_timezone_def timezone_known_def D1 assms(6) guard_set_def disconnected_row_def)
  then obtain D' where upd: "pg_update_integration c ?i (\<lambda>r. ig_next_sync_token r = gi_nextSyncToken ig \<and> ig_epoch r = gi_epoch ig)
      (guard_set c (pd_nextSyncToken v)) D1 = Inr (Some ((guard_set c (pd_nextSyncToken v) (disconnected_row r))\<lparr>ig_updated_at := pg_now c\<rparr>), D')"
    using D0 assms(2,3) by (auto simp: pg_update_integration_def Let_def D1 integration_of_def disconnected_row_def)
  have "ig_account_id (guard_set c (pd_nextSyncToken v) y) = ig_account_id y" for y by (simp add: guard_set_def)
  note row = integration_updated(1) [OF upd this]
  have busy: "D0\<lparr>cd_busy := filter (\<lambda>b. \<not> (if False then of_calendar opts b \<and> bi_event_id b \<in> set (pd_cancelledEventIds v)
      else of_calendar opts b)) (cd_busy D0)\<rparr> = D0\<lparr>cd_busy := bs\<rparr>" by (simp add: assms(6,7))
  have "\<exists>res. store_pull c opts ig known k False v D0 = Inr (res, D')"
    unfolding store_pull_def Let_def busy assms(5) bindR.simps upd by simp
  with row show ?thesis by (auto simp: guard_set_def disconnected_row_def)
qed

section \<open>A pull in a sample\<close>

definition sample_busy_event :: json where
  "sample_busy_event = JObj [(js ''id'', JStr [101]), (js ''start'', JObj [(js ''dateTime'', JNum (Finite 1767596400000))]),
     (js ''end'', JObj [(js ''dateTime'', JNum (Finite 1767600000000))])]"

definition sample_pull_net :: "unit network" where
  "sample_pull_net q w = (NetAnswered \<lparr>na_status = 200, na_text = None,
     na_json = Inr (JObj [(js ''items'', JArr [sample_busy_event]), (js ''nextSyncToken'', JStr [115])])\<rparr>, w)"

definition sample_pull_opts :: pull_options where
  "sample_pull_opts = \<lparr>po_teacherAccountId = uuid_of CHR ''a'', po_externalCalendarId = [99], po_isWritableInSource = None\<rparr>"

definition sample_pull_cal :: cal_db where
  "sample_pull_cal = sample_cal\<lparr>cd_db := empty_db\<lparr>lesson_slots := [sample_open],
       accounts := [\<lparr>ac_id = uuid_of CHR ''a'', ac_teacher_cancel_window_minutes = 0\<rparr>]\<rparr>,
     cd_profiles := [\<lparr>pf_account_id = uuid_of CHR ''a'', pf_timezone = Some ''Europe/Moscow''\<rparr>]\<rparr>"

definition sample_interval :: parsed_interval where
  "sample_interval = \<lparr>pv_externalEventId = [101], pv_externalCalendarId = [99], pv_startAt = 1767596400000, pv_endAt = 1767600000000,
     pv_summary = None, pv_isAllDay = False, pv_etag = None, pv_lcOrigin = None, pv_lcSlotId = None, pv_lcEpoch = None\<rparr>"

lemma sample_page:
  "pullBusyIntervalsForCalendar sample_cal_clock sample_cal_env sample_pull_net token [99] None w
     = (Inr (Inr \<lparr>pd_intervals = [sample_interval], pd_cancelledEventIds = [], pd_nextSyncToken = Some [115]\<rparr>), w)"
proof -
  have shape: "shapeEvent sample_cal_env sample_busy_event [99] = Some sample_interval"
    by (simp add: shapeEvent_def sample_busy_event_def json_field_def json_text_def object_field_def json_is_object_def timePartToUtcIso_def
        sample_cal_env_def sample_dates_def not_null_def shared_stamp_def sample_interval_def nonempty_def)
  have pages: "MAX_PAGES = Suc 9" by (simp add: MAX_PAGES_def)
  show ?thesis unfolding pullBusyIntervalsForCalendar_def pages pull_pages.simps
    by (simp add: bindP_def fetchP_def sample_pull_net_def response_ok_def
        retP_def Let_def json_field_def take_items_def shape next_page_token_def json_text_def nonempty_def List.map_filter_simps)
qed

lemma sample_pull:
  "\<exists>D'. runPullForCalendar sample_cal_clock sample_cal_env sample_pull_net sample_pull_opts (sample_pull_cal, ())
     = (Inr (Inr \<lparr>rr_intervalsBefore = 0, rr_intervalsAfter = 1, rr_ownEvents = 0, rr_orphanSelf = 0, rr_delta = False,
                  rr_deltaTokenRefreshed = False, rr_cancelledEvents = 0\<rparr>), (D', ()))
     \<and> cd_busy D' = [stored_interval sample_cal_clock sample_pull_opts sample_interval (False, False) (replicate 32 107)]
     \<and> cd_db D' = cd_db sample_pull_cal"
proof -
  let ?ig = "rowToRecord sample_integration (Some [116]) None" and ?k = "replicate 32 (107 :: nat)"
  have pg: "pg_uuid (uuid_of CHR ''a'') = uuid_of CHR ''a''" by (simp add: lower_hex_def)
  have pat: "uuid_pattern (uuid_of CHR ''a'')" by (simp add: hex_digit_def)
  have row: "integration_of sample_pull_cal (uuid_of CHR ''a'') = Some sample_integration"
    using sample_cal_facts(6) by (simp add: sample_pull_cal_def integration_of_def)
  have ig: "getGoogleIntegration sample_cal_env (uuid_of CHR ''a'') sample_pull_cal = Inr (Some ?ig)"
  proof -
    have same: "integration_of sample_pull_cal = integration_of sample_cal"
      by (rule ext) (simp add: sample_pull_cal_def integration_of_def)
    show ?thesis unfolding getGoogleIntegration_def same by (rule sample_cal_facts(8) [unfolded getGoogleIntegration_def])
  qed
  have igs: "gi_syncState ?ig = SyncActive" "gi_tokenExpiresAt ?ig = Some 1800000000000" "gi_accessToken ?ig = Some [116]"
      "gi_nextSyncToken ?ig = None" "gi_epoch ?ig = ''e1''" "gi_lastPulledAt ?ig = None"
    by (simp_all add: rowToRecord_def sample_integration_def js_date_via_string_def js_date_def us_per_ms_def)
  have key: "getCalendarEncryptionKey sample_cal_env = Inr (Some ?k)"
    by (simp add: getCalendarEncryptionKey_def sample_cal_env_def js_trim_def js_space_def readAndValidate_def MIN_KEY_LENGTH_def)
  let ?v = "\<lparr>pd_intervals = [sample_interval], pd_cancelledEventIds = [], pd_nextSyncToken = Some [115]\<rparr>"
  let ?res = "\<lparr>rr_intervalsBefore = 0, rr_intervalsAfter = 1, rr_ownEvents = 0, rr_orphanSelf = 0, rr_delta = False,
      rr_deltaTokenRefreshed = False, rr_cancelledEvents = 0\<rparr>"
  let ?b = "stored_interval sample_cal_clock sample_pull_opts sample_interval (False, False) ?k"
  have call: "withTokenRetry sample_cal_clock sample_cal_env sample_pull_net (uuid_of CHR ''a'')
      (pull_exec sample_cal_clock sample_cal_env sample_pull_net [99] None) (sample_pull_cal, ()) = (Inr (CallOk ?v), (sample_pull_cal, ()))"
  proof (rule fresh_token_used [OF ig, where t = "[116]" and z = 1800000000000])
    show "pull_exec sample_cal_clock sample_cal_env sample_pull_net [99] None [116] ?ig (sample_pull_cal, ()) = (Inr (CallOk ?v), (sample_pull_cal, ()))"
      by (simp add: pull_exec_def sample_page bindP_def retP_def)
  qed (simp_all add: igs sample_cal_clock_def REFRESH_SKEW_MS_def)
  have own: "computeOwnership sample_interval ?ig known = (False, False)" for known
    by (simp add: computeOwnership_def sample_interval_def)
  have busy: "cd_busy sample_pull_cal = []" by (simp add: sample_pull_cal_def sample_cal_def empty_cal_def)
  let ?D1 = "sample_pull_cal\<lparr>cd_busy := [?b]\<rparr>"
  have up: "upsert_intervals sample_cal_clock sample_pull_opts ?ig known ?k [sample_interval] (sample_pull_cal\<lparr>cd_busy := []\<rparr>) = Inr ?D1" for known
    by (simp add: upsertInterval_def own Let_def find_by_def)
       (simp add: stored_interval_def sample_interval_def us_per_ms_def sample_pull_opts_def pg sample_pull_cal_def)
  have upd: "\<exists>r D'. pg_update_integration sample_cal_clock (uuid_of CHR ''a'')
      (\<lambda>r. ig_next_sync_token r = gi_nextSyncToken ?ig \<and> ig_epoch r = gi_epoch ?ig) (guard_set sample_cal_clock (Some [115])) ?D1
      = Inr (Some r, D') \<and> cd_busy D' = [?b] \<and> cd_db D' = cd_db sample_pull_cal"
    using row by (simp add: pg_update_integration_def integration_of_def Let_def igs guard_set_def require_timezone_def timezone_known_def)
      (simp add: sample_integration_def sample_pull_cal_def)
  then obtain r D' where upd: "pg_update_integration sample_cal_clock (uuid_of CHR ''a'')
      (\<lambda>r. ig_next_sync_token r = gi_nextSyncToken ?ig \<and> ig_epoch r = gi_epoch ?ig) (guard_set sample_cal_clock (Some [115])) ?D1
      = Inr (Some r, D')" and D': "cd_busy D' = [?b]" "cd_db D' = cd_db sample_pull_cal" by blast
  have st: "store_pull sample_cal_clock sample_pull_opts ?ig known ?k False ?v sample_pull_cal = Inr (?res, D')" for known
    using up upd by (simp add: store_pull_def Let_def busy own sample_pull_opts_def pg)
  have mode: "pull_in_mode sample_cal_clock sample_cal_env sample_pull_net sample_pull_opts ?ig ?k False (sample_pull_cal, ())
      = (Inr (Inr ?res), (D', ()))"
  proof -
    have opts: "po_teacherAccountId sample_pull_opts = uuid_of CHR ''a''" "po_externalCalendarId sample_pull_opts = [99]"
      by (simp_all add: sample_pull_opts_def)
    have last: "stmt (store_pull sample_cal_clock sample_pull_opts ?ig known ?k False ?v) (sample_pull_cal, ()) = (Inr ?res, (D', ()))" for known
      by (simp add: stmt_def st)
    show ?thesis unfolding pull_in_mode_def opts if_False
      by (simp only: bindP_step [where m = "withTokenRetry _ _ _ _ _", OF call] call_result.case run_simps fst_conv
          bindP_step [where m = "stmt _", OF last])
  qed
  have "runPullForCalendar sample_cal_clock sample_cal_env sample_pull_net sample_pull_opts (sample_pull_cal, ())
      = (Inr (Inr ?res), (D', ()))"
  proof -
    have early: "\<not> 1800000000000 \<le> js_now sample_cal_clock" "po_teacherAccountId sample_pull_opts = uuid_of CHR ''a''"
      by (simp_all add: sample_cal_clock_def sample_pull_opts_def)
    show ?thesis using mode ig pat key igs early
      by (simp add: runPullForCalendar_def Let_def bindP_def liftP_def reading_def nonempty_def)
  qed
  with D' show ?thesis by blast
qed

lemma pull_stores_the_answer_witness:
  "\<exists>res D'. runPullForCalendar sample_cal_clock sample_cal_env sample_pull_net sample_pull_opts (sample_pull_cal, ()) = (Inr (Inr res), (D', ()))
     \<and> (\<exists>b. busy_of D' sample_pull_opts [101] = Some b \<and> bi_start_at b = 1767596400000000)"
proof -
  obtain res D' where run: "runPullForCalendar sample_cal_clock sample_cal_env sample_pull_net sample_pull_opts (sample_pull_cal, ())
      = (Inr (Inr res), (D', ()))" and res: "\<not> rr_delta res" "rr_intervalsAfter res = 1" using sample_pull by fastforce
  from pull_stores_the_answer [OF run] res obtain ig k token v w1 D where
      page: "pullBusyIntervalsForCalendar sample_cal_clock sample_cal_env sample_pull_net token [99] None w1 = (Inr (Inr v), (D, ()))"
    and st: "pull_stored sample_cal_clock sample_pull_opts ig (slot_ids_of (pg_uuid (po_teacherAccountId sample_pull_opts)) D) k False v D D'"
    by (auto simp: sample_pull_opts_def)
  have "answered v [101] = Some sample_interval"
    using page by (auto simp: sample_page answered_def sample_interval_def)
  then have "busy_of D' sample_pull_opts [101] = Some (stored_interval sample_cal_clock sample_pull_opts sample_interval
      (computeOwnership sample_interval ig (slot_ids_of (pg_uuid (po_teacherAccountId sample_pull_opts)) D)) k)"
    using st by (simp add: pull_stored_def)
  with run show ?thesis by (auto simp: stored_interval_def sample_interval_def us_per_ms_def)
qed

lemma pulled_event_keeps_lessons_out_witness:
  "\<exists>res D' e. runPullForCalendar sample_cal_clock sample_cal_env sample_pull_net sample_pull_opts (sample_pull_cal, ()) = (Inr (Inr res), (D', ()))
     \<and> bookSlot True sample_cal_clock (uuid_of CHR ''1'') (uuid_of CHR ''b'') BookLearner no_options (slots_view D') = (Inr (Inl e, slots_view D'))"
proof -
  let ?c = sample_cal_clock and ?o = sample_pull_opts
  obtain res D' where run: "runPullForCalendar ?c sample_cal_env sample_pull_net ?o (sample_pull_cal, ()) = (Inr (Inr res), (D', ()))"
    and res: "rr_intervalsAfter res > 0" and busy: "cd_busy D' = [stored_interval ?c ?o sample_interval (False, False) (replicate 32 107)]"
    and db: "cd_db D' = cd_db sample_pull_cal" using sample_pull by fastforce
  let ?b = "stored_interval ?c ?o sample_interval (False, False) (replicate 32 107)"
  have pg: "pg_uuid (uuid_of CHR ''a'') = uuid_of CHR ''a''" "pg_uuid (uuid_of CHR ''1'') = uuid_of CHR ''1''" by (simp_all add: lower_hex_def)
  have b: "?b \<in> set (cd_busy D')" "of_calendar ?o ?b" "\<not> bi_is_own_event ?b"
    "ranges_overlap (bi_start_at ?b) (bi_end_at ?b) (ls_start_at sample_open) (ls_start_at sample_open + ls_duration_minutes sample_open * us_per_minute)"
    by (simp_all add: busy) (simp_all add: stored_interval_def sample_interval_def us_per_ms_def ranges_overlap_def sample_open_def sample_slot_def us_per_minute_def us_per_second_def)
  have r: "slot_by_id (cd_db D') (pg_uuid (uuid_of CHR ''1'')) = Some sample_open" "ls_teacher_account_id sample_open = pg_uuid (po_teacherAccountId ?o)"
    by (simp_all add: db pg sample_pull_cal_def slot_by_id_def sample_open_def sample_slot_def find_by_single sample_pull_opts_def)
  have soon: "pg_now ?c \<le> pg_now ?c + 10 * us_per_minute" by (simp add: us_per_minute_def us_per_second_def)
  have "\<not> bookable ?c (uuid_of CHR ''b'') (pinned_teacher no_options) (slots_view D') sample_open"
    using pulled_interval_blocks [OF run res b soon] r(2) by (simp add: bookable_def)
  then have "reserve_slot ?c (uuid_of CHR ''1'') (uuid_of CHR ''b'') BookLearner no_options (slots_view D') = Inr (None, slots_view D')"
    using r(1) pg by (simp add: reserve_slot_def pg_update_slot_def slots_view_def slot_by_id_def)
  then obtain answer d' where book: "bookSlot True ?c (uuid_of CHR ''1'') (uuid_of CHR ''b'') BookLearner no_options (slots_view D') = Inr (answer, d')"
    by (simp add: bookSlot_def pg hex_digit_def)
  from pulled_event_keeps_lessons_out [OF run res b(1-3) r b(4) soon book] book run show ?thesis by (cases answer) auto
qed

end
