(* ===== verification/Calendar_Detect.thy ===== *)
theory Calendar_Detect
  imports Calendar_Pull
begin

text \<open>
  What follows a pull: \<open>src/lib/calendar/conflict-detector.ts\<close>, which marks the booked lessons that overlap an event of
  the teacher, and \<open>src/lib/calendar/pull-worker.ts\<close>, the worker over \<open>calendar_pull_jobs\<close>.
\<close>

section \<open>Overlaps\<close>

definition foreign_overlap :: "uuid \<Rightarrow> micros \<Rightarrow> int \<Rightarrow> busy_interval \<Rightarrow> bool" where
  "foreign_overlap teacher startAt duration b \<longleftrightarrow>
     bi_teacher_account_id b = teacher \<and> \<not> bi_is_own_event b \<and> \<not> bi_is_orphan_self b
     \<and> ranges_overlap (bi_start_at b) (bi_end_at b) startAt (startAt + duration * us_per_minute)"

text \<open>\<open>order by start_at asc, external_event_id asc\<close>.\<close>

definition busy_before :: "(js_text \<Rightarrow> js_text \<Rightarrow> bool) \<Rightarrow> busy_interval \<Rightarrow> busy_interval \<Rightarrow> bool" where
  "busy_before le a b \<longleftrightarrow> bi_start_at a < bi_start_at b \<or> (bi_start_at a = bi_start_at b \<and> le (bi_event_id a) (bi_event_id b))"

fun put_busy :: "(js_text \<Rightarrow> js_text \<Rightarrow> bool) \<Rightarrow> busy_interval \<Rightarrow> busy_interval list \<Rightarrow> busy_interval list" where
  "put_busy le x [] = [x]"
| "put_busy le x (y # ys) = (if busy_before le x y then x # y # ys else y # put_busy le x ys)"

definition overlaps_of :: "(js_text \<Rightarrow> js_text \<Rightarrow> bool) \<Rightarrow> uuid \<Rightarrow> micros \<Rightarrow> int \<Rightarrow> cal_db \<Rightarrow> busy_interval list" where
  "overlaps_of le teacher startAt duration D = foldr (put_busy le) (filter (foreign_overlap teacher startAt duration) (cd_busy D)) []"

lemma set_put_busy [simp]: "set (put_busy le x ys) = insert x (set ys)"
  by (induction ys) auto

text \<open>The overlaps are the ones asked for, the earliest first.\<close>

lemma overlaps_of_set: "set (overlaps_of le t s n D) = {b \<in> set (cd_busy D). foreign_overlap t s n b}"
proof -
  have "set (foldr (put_busy le) xs []) = set xs" for xs by (induction xs) auto
  then show ?thesis by (auto simp: overlaps_of_def)
qed

text \<open>An order of texts in which any two are comparable, as a collation gives it.\<close>

definition text_order :: "(js_text \<Rightarrow> js_text \<Rightarrow> bool) \<Rightarrow> bool" where
  "text_order le \<longleftrightarrow> (\<forall>a b. le a b \<or> le b a) \<and> (\<forall>a b d. le a b \<and> le b d \<longrightarrow> le a d)"

lemma busy_before_order:
  assumes "text_order le"
  shows "busy_before le a b \<or> busy_before le b a" and "busy_before le a b \<Longrightarrow> busy_before le b d \<Longrightarrow> busy_before le a d"
proof -
  have total: "le p q \<or> le q p" for p q using assms unfolding text_order_def by blast
  have trans: "le p q \<Longrightarrow> le q z \<Longrightarrow> le p z" for p q z using assms unfolding text_order_def by blast
  show "busy_before le a b \<or> busy_before le b a" using total [of "bi_event_id a" "bi_event_id b"] by (auto simp: busy_before_def)
  show "busy_before le a b \<Longrightarrow> busy_before le b d \<Longrightarrow> busy_before le a d"
    using trans [of "bi_event_id a" "bi_event_id b" "bi_event_id d"] by (auto simp: busy_before_def)
qed

lemma put_busy_least:
  assumes "text_order le" and "ys = [] \<or> (\<forall>b \<in> set ys. busy_before le (hd ys) b)"
  shows "\<forall>b \<in> set (put_busy le x ys). busy_before le (hd (put_busy le x ys)) b"
proof (cases ys)
  case Nil
  then show ?thesis using busy_before_order(1) [OF assms(1), of x x] by simp
next
  case (Cons y rest)
  have y: "\<forall>b \<in> set ys. busy_before le y b" using assms(2) Cons by simp
  show ?thesis
  proof (cases "busy_before le x y")
    case True
    then have "\<forall>b \<in> set ys. busy_before le x b" using y busy_before_order(2) [OF assms(1) True] by blast
    moreover have "busy_before le x x" using busy_before_order(1) [OF assms(1), of x x] by blast
    ultimately show ?thesis using True Cons by simp
  next
    case False
    then have "busy_before le y x" using busy_before_order(1) [OF assms(1), of x y] by blast
    then show ?thesis using False Cons y by simp
  qed
qed

lemma overlaps_of_least:
  assumes "text_order le" and "overlaps_of le t s n D = x # rest" and "b \<in> set (cd_busy D)" and "foreign_overlap t s n b"
  shows "busy_before le x b"
proof -
  have least: "foldr (put_busy le) xs [] = [] \<or> (\<forall>b \<in> set (foldr (put_busy le) xs []). busy_before le (hd (foldr (put_busy le) xs [])) b)" for xs
    by (induction xs) (use put_busy_least [OF assms(1)] in auto)
  have "b \<in> set (overlaps_of le t s n D)" using assms(3,4) by (simp add: overlaps_of_set)
  moreover have "\<forall>b \<in> set (overlaps_of le t s n D). busy_before le x b"
    using least [of "filter (foreign_overlap t s n) (cd_busy D)"] assms(2) by (simp add: overlaps_of_def)
  ultimately show ?thesis by blast
qed

section \<open>Conflicts of booked lessons\<close>

record conflict_outcome =
  co_scanned :: nat
  co_stamped :: nat
  co_cleared :: nat
  co_unchanged :: nat

definition scanned_slot :: "clock \<Rightarrow> uuid \<Rightarrow> slot_row \<Rightarrow> bool" where
  "scanned_slot c teacher r \<longleftrightarrow> ls_teacher_account_id r = teacher \<and> ls_status r = Booked \<and> ls_start_at r > pg_now c"

definition slot_instant :: "slot_row \<Rightarrow> micros" where
  "slot_instant r = js_date_via_string (ls_start_at r) * us_per_ms"

text \<open>\<open>update lesson_slots set external_conflict_at = \<dots>, \<dots>\<close>, with the source or without.\<close>

definition stamp_conflict :: "clock \<Rightarrow> uuid \<Rightarrow> (js_text \<times> js_text) option \<Rightarrow> cal_db \<Rightarrow> exn + (unit \<times> cal_db)" where
  "stamp_conflict c i source D =
     bindR (pg_update_binding i (\<lambda>_ _. True)
              (\<lambda>r. r\<lparr>ls_external_conflict_at := (if source = None then None else Some (pg_now c)), ls_updated_at := pg_now c\<rparr>)
              (\<lambda>b. b\<lparr>bd_conflict_kind := map_option (\<lambda>_. ''post_book_overlap'') source,
                    bd_conflict_calendar_id := map_option fst source, bd_conflict_event_id := map_option snd source\<rparr>) D)
       (\<lambda>(_, D'). Inr ((), D'))"

definition detect_slot ::
  "clock \<Rightarrow> (js_text \<Rightarrow> js_text \<Rightarrow> bool) \<Rightarrow> uuid \<Rightarrow> slot_row \<times> binding \<Rightarrow> conflict_outcome \<Rightarrow> ('g world, conflict_outcome) prog" where
  "detect_slot c le teacher row out =
     (let (r, b) = row; current = ls_external_conflict_at r \<noteq> None in
      bindP (reading (overlaps_of le teacher (slot_instant r) (ls_duration_minutes r))) (\<lambda>os. case os of
        [] \<Rightarrow>
          if current then bindP (stmt (stamp_conflict c (ls_id r) None)) (\<lambda>_. retP (out\<lparr>co_cleared := co_cleared out + 1\<rparr>))
          else retP (out\<lparr>co_unchanged := co_unchanged out + 1\<rparr>)
      | x # _ \<Rightarrow>
          if current \<and> nonempty (bd_conflict_calendar_id b) = Some (bi_calendar_id x)
               \<and> nonempty (bd_conflict_event_id b) = Some (bi_event_id x)
          then retP (out\<lparr>co_unchanged := co_unchanged out + 1\<rparr>)
          else bindP (stmt (stamp_conflict c (ls_id r) (Some (bi_calendar_id x, bi_event_id x))))
                 (\<lambda>_. retP (out\<lparr>co_stamped := co_stamped out + 1\<rparr>))))"

fun detect_each ::
  "clock \<Rightarrow> (js_text \<Rightarrow> js_text \<Rightarrow> bool) \<Rightarrow> uuid \<Rightarrow> (slot_row \<times> binding) list \<Rightarrow> conflict_outcome \<Rightarrow> ('g world, conflict_outcome) prog" where
  "detect_each c le teacher [] out = retP out"
| "detect_each c le teacher (row # rows) out =
     bindP (detect_slot c le teacher row out) (\<lambda>out'. detect_each c le teacher rows out')"

definition scanned_rows :: "clock \<Rightarrow> uuid \<Rightarrow> cal_db \<Rightarrow> (slot_row \<times> binding) list" where
  "scanned_rows c teacher D =
     map (\<lambda>r. (r, cd_bindings D (ls_id r))) (filter (scanned_slot c teacher) (lesson_slots (cd_db D)))"

text \<open>\<open>None\<close> stands for the answer \<open>invalid_account\<close>.\<close>

definition runConflictDetectionForTeacher ::
  "clock \<Rightarrow> (js_text \<Rightarrow> js_text \<Rightarrow> bool) \<Rightarrow> string \<Rightarrow> ('g world, conflict_outcome option) prog" where
  "runConflictDetectionForTeacher c le teacherAccountId =
     (if \<not> uuid_pattern teacherAccountId then retP None
      else bindP (reading (scanned_rows c (pg_uuid teacherAccountId))) (\<lambda>rows.
        bindP (detect_each c le (pg_uuid teacherAccountId) rows
                 \<lparr>co_scanned = length rows, co_stamped = 0, co_cleared = 0, co_unchanged = 0\<rparr>) (\<lambda>out. retP (Some out))))"

definition listConflictsForSlot :: "(js_text \<Rightarrow> js_text \<Rightarrow> bool) \<Rightarrow> string \<Rightarrow> cal_db \<Rightarrow> (slot_row \<times> busy_interval list) option" where
  "listConflictsForSlot le slotId D =
     (if \<not> uuid_pattern slotId then None
      else map_option (\<lambda>r. (r, overlaps_of le (ls_teacher_account_id r) (slot_instant r) (ls_duration_minutes r) D))
             (slot_by_id (cd_db D) (pg_uuid slotId)))"

text \<open>What a lesson says of conflicts: none, or the event it names.\<close>

definition conflict_of :: "cal_db \<Rightarrow> uuid \<Rightarrow> (js_text option \<times> js_text option) option" where
  "conflict_of D i =
     (case slot_by_id (cd_db D) i of
        None \<Rightarrow> None
      | Some r \<Rightarrow> if ls_external_conflict_at r = None then None
                  else Some (bd_conflict_calendar_id (cd_bindings D i), bd_conflict_event_id (cd_bindings D i)))"

lemma conflict_of_cong:
  "slot_by_id (cd_db D') j = slot_by_id (cd_db D) j \<Longrightarrow> cd_bindings D' j = cd_bindings D j \<Longrightarrow> conflict_of D' j = conflict_of D j"
  by (auto simp: conflict_of_def split: option.splits)

definition conflict_due :: "(js_text \<Rightarrow> js_text \<Rightarrow> bool) \<Rightarrow> slot_row \<Rightarrow> cal_db \<Rightarrow> (js_text option \<times> js_text option) option" where
  "conflict_due le r D =
     (case overlaps_of le (ls_teacher_account_id r) (slot_instant r) (ls_duration_minutes r) D of
        [] \<Rightarrow> None
      | x # _ \<Rightarrow> Some (Some (bi_calendar_id x), Some (bi_event_id x)))"

lemma stamp_conflict_effect:
  assumes "stamp_conflict c i source D = Inr (u, D')" and "slot_by_id (cd_db D) i = Some r"
  shows "conflict_of D' i = map_option (\<lambda>(k, ev). (Some k, Some ev)) source" and "cd_busy D' = cd_busy D"
    and "j \<noteq> i \<Longrightarrow> slot_by_id (cd_db D') j = slot_by_id (cd_db D) j \<and> cd_bindings D' j = cd_bindings D j"
proof -
  let ?f = "\<lambda>r. r\<lparr>ls_external_conflict_at := (if source = None then None else Some (pg_now c)), ls_updated_at := pg_now c\<rparr>"
  let ?g = "\<lambda>b. b\<lparr>bd_conflict_kind := map_option (\<lambda>_. ''post_book_overlap'') source,
                    bd_conflict_calendar_id := map_option fst source, bd_conflict_event_id := map_option snd source\<rparr>"
  obtain ro where run: "pg_update_binding i (\<lambda>_ _. True) ?f ?g D = Inr (ro, D')"
    using assms(1) by (auto simp: stamp_conflict_def bindR_eq_Inr_iff)
  then obtain d' where upd: "pg_update_slot i (\<lambda>_. True) ?f (cd_db D) = Inr (ro, d')"
    and D': "D' = D\<lparr>cd_db := d', cd_bindings := (cd_bindings D)(i := ?g (cd_bindings D i))\<rparr>"
    using assms(2) by (auto simp: pg_update_binding_def Let_def bindR_eq_Inr_iff split: if_splits)
  obtain x where ro: "ro = Some x" and x: "x = snapshot_on_book (cd_db D) (?f r)"
    using upd assms(2) by (auto simp: pg_update_slot_def Let_def split: if_splits)
  have by_id: "slot_by_id d' j = (if j = i then Some x else slot_by_id (cd_db D) j)" for j
    using slot_by_id_updated [OF upd [unfolded ro]] by simp
  show "conflict_of D' i = map_option (\<lambda>(k, ev). (Some k, Some ev)) source"
    by (cases source) (auto simp: conflict_of_def D' by_id x snapshot_on_book_def)
  show "cd_busy D' = cd_busy D" by (simp add: D')
  show "j \<noteq> i \<Longrightarrow> slot_by_id (cd_db D') j = slot_by_id (cd_db D) j \<and> cd_bindings D' j = cd_bindings D j"
    by (simp add: D' by_id)
qed

lemma detect_slot_effect:
  assumes run: "detect_slot c le (ls_teacher_account_id r) (r, cd_bindings D (ls_id r)) out (D, g) = (Inr out', w')"
    and r: "slot_by_id (cd_db D) (ls_id r) = Some r"
  shows "conflict_of (fst w') (ls_id r) = conflict_due le r D \<and> cd_busy (fst w') = cd_busy D \<and> snd w' = g
     \<and> (\<forall>j. j \<noteq> ls_id r \<longrightarrow> slot_by_id (cd_db (fst w')) j = slot_by_id (cd_db D) j \<and> cd_bindings (fst w') j = cd_bindings D j)
     \<and> co_stamped out' + co_cleared out' + co_unchanged out' = co_stamped out + co_cleared out + co_unchanged out + 1
     \<and> co_scanned out' = co_scanned out"
proof -
  let ?os = "overlaps_of le (ls_teacher_account_id r) (slot_instant r) (ls_duration_minutes r) D"
  have stamped: ?thesis if st1: "bindP (stmt (stamp_conflict c (ls_id r) source)) (\<lambda>_. retP outx) (D, g) = (Inr out', w')"
      and fin: "conflict_due le r D = map_option (\<lambda>(k, ev). (Some k, Some ev)) source"
        "co_stamped outx + co_cleared outx + co_unchanged outx = co_stamped out + co_cleared out + co_unchanged out + 1"
        "co_scanned outx = co_scanned out" for source outx
  proof -
    obtain u D' where st: "stamp_conflict c (ls_id r) source D = Inr (u, D')" and w': "w' = (D', g)" "out' = outx"
    proof (cases "stamp_conflict c (ls_id r) source D")
      case (Inl x)
      with st1 show thesis by (simp add: bindP_def stmt_def)
    next
      case (Inr y)
      then show thesis using st1 that by (cases y) (simp add: bindP_def stmt_def retP_def)
    qed
    show ?thesis using stamp_conflict_effect [OF st r] fin by (simp add: w')
  qed
  show ?thesis
  proof (cases ?os)
    case Nil
    then have due: "conflict_due le r D = None" by (simp add: conflict_due_def)
    show ?thesis
    proof (cases "ls_external_conflict_at r = None")
      case True
      then have "w' = (D, g)" "out' = out\<lparr>co_unchanged := co_unchanged out + 1\<rparr>"
        using run Nil by (simp_all add: detect_slot_def Let_def run_simps)
      then show ?thesis using due True r by (simp add: conflict_of_def)
    next
      case False
      show ?thesis
        by (rule stamped [where source = None and outx = "out\<lparr>co_cleared := co_cleared out + 1\<rparr>"])
           (use run Nil False due in \<open>simp_all add: detect_slot_def Let_def run_simps\<close>)
    qed
  next
    case (Cons x rest)
    then have due: "conflict_due le r D = Some (Some (bi_calendar_id x), Some (bi_event_id x))" by (simp add: conflict_due_def)
    let ?same = "ls_external_conflict_at r \<noteq> None \<and> nonempty (bd_conflict_calendar_id (cd_bindings D (ls_id r))) = Some (bi_calendar_id x)
       \<and> nonempty (bd_conflict_event_id (cd_bindings D (ls_id r))) = Some (bi_event_id x)"
    have non: "nonempty t = Some y \<Longrightarrow> t = Some y" for t y by (auto simp: nonempty_def split: option.splits list.splits)
    show ?thesis
    proof (cases ?same)
      case True
      then have "w' = (D, g)" "out' = out\<lparr>co_unchanged := co_unchanged out + 1\<rparr>"
        using run Cons by (auto simp: detect_slot_def Let_def run_simps)
      then show ?thesis using due True r by (auto simp: conflict_of_def dest: non)
    next
      case False
      show ?thesis
        by (rule stamped [where source = "Some (bi_calendar_id x, bi_event_id x)" and outx = "out\<lparr>co_stamped := co_stamped out + 1\<rparr>"])
           (use run Cons False due in \<open>auto simp: detect_slot_def Let_def run_simps\<close>)
    qed
  qed
qed

lemma detect_each_effect:
  assumes "detect_each c le t rows out (D, g) = (Inr out', w')" and "distinct (map (ls_id \<circ> fst) rows)"
    and "\<forall>(r, b) \<in> set rows. slot_by_id (cd_db D) (ls_id r) = Some r \<and> b = cd_bindings D (ls_id r) \<and> ls_teacher_account_id r = t"
  shows "cd_busy (fst w') = cd_busy D \<and> snd w' = g \<and> (\<forall>(r, b) \<in> set rows. conflict_of (fst w') (ls_id r) = conflict_due le r D)
     \<and> (\<forall>j. j \<notin> ls_id ` fst ` set rows \<longrightarrow> slot_by_id (cd_db (fst w')) j = slot_by_id (cd_db D) j \<and> cd_bindings (fst w') j = cd_bindings D j)
     \<and> co_stamped out' + co_cleared out' + co_unchanged out' = co_stamped out + co_cleared out + co_unchanged out + length rows
     \<and> co_scanned out' = co_scanned out"
  using assms
proof (induction rows arbitrary: out D g)
  case Nil
  then show ?case by (auto simp: retP_def)
next
  case (Cons row rows)
  obtain r b where row: "row = (r, b)" by (rule prod.exhaust)
  have r: "slot_by_id (cd_db D) (ls_id r) = Some r" "b = cd_bindings D (ls_id r)" "t = ls_teacher_account_id r"
    using Cons.prems(3) row by auto
  obtain out1 D1 g1 where one: "detect_slot c le t (r, b) out (D, g) = (Inr out1, (D1, g1))"
    and rest: "detect_each c le t rows out1 (D1, g1) = (Inr out', w')"
    using Cons.prems(1) row by (auto simp: bindP_def split: sum.splits prod.splits)
  note eff = detect_slot_effect [OF one [unfolded r(2,3)] r(1)]
  have fresh: "ls_id r \<notin> ls_id ` fst ` set rows" using Cons.prems(2) row by (auto simp: image_image)
  have "cd_busy (fst w') = cd_busy D1 \<and> snd w' = g1 \<and> (\<forall>(r, b) \<in> set rows. conflict_of (fst w') (ls_id r) = conflict_due le r D1)
     \<and> (\<forall>j. j \<notin> ls_id ` fst ` set rows \<longrightarrow> slot_by_id (cd_db (fst w')) j = slot_by_id (cd_db D1) j \<and> cd_bindings (fst w') j = cd_bindings D1 j)
     \<and> co_stamped out' + co_cleared out' + co_unchanged out' = co_stamped out1 + co_cleared out1 + co_unchanged out1 + length rows
     \<and> co_scanned out' = co_scanned out1"
  proof (rule Cons.IH [OF rest])
    show "distinct (map (ls_id \<circ> fst) rows)" using Cons.prems(2) by (simp add: comp_def)
    show "\<forall>(r', b') \<in> set rows. slot_by_id (cd_db D1) (ls_id r') = Some r' \<and> b' = cd_bindings D1 (ls_id r') \<and> ls_teacher_account_id r' = t"
    proof clarify
      fix r' b' assume m: "(r', b') \<in> set rows"
      then have "ls_id r' \<in> ls_id ` fst ` set rows" by (metis fst_conv imageI)
      then have other: "ls_id r' \<noteq> ls_id r" using fresh by metis
      have "slot_by_id (cd_db D) (ls_id r') = Some r' \<and> b' = cd_bindings D (ls_id r') \<and> ls_teacher_account_id r' = t"
        using Cons.prems(3) m by auto
      with other eff show "slot_by_id (cd_db D1) (ls_id r') = Some r' \<and> b' = cd_bindings D1 (ls_id r') \<and> ls_teacher_account_id r' = t"
        by simp
    qed
  qed
  moreover have "conflict_due le x D1 = conflict_due le x D" for x using eff by (simp add: conflict_due_def overlaps_of_def)
  moreover have "conflict_of (fst w') (ls_id r) = conflict_of D1 (ls_id r)"
    by (rule conflict_of_cong) (use calculation(1) fresh in blast)+
  ultimately show ?case using eff by (auto simp: row)
qed

text \<open>
  What the detector is for, said of the tables alone: an event is in the way of a lesson when it is an event of the same
  teacher, neither a lesson's own nor left over from an earlier connection, and some instant lies in both. A lesson names
  the first of these, by start and then by the text of the id.
\<close>

definition in_the_way :: "slot_row \<Rightarrow> busy_interval \<Rightarrow> bool" where
  "in_the_way r b \<longleftrightarrow> bi_teacher_account_id b = ls_teacher_account_id r \<and> \<not> bi_is_own_event b \<and> \<not> bi_is_orphan_self b
     \<and> (\<exists>t. bi_start_at b \<le> t \<and> t < bi_end_at b \<and> ls_start_at r \<le> t \<and> t < ls_start_at r + ls_duration_minutes r * 60000000)"

definition names_first :: "(js_text \<Rightarrow> js_text \<Rightarrow> bool) \<Rightarrow> slot_row \<Rightarrow> busy_interval list \<Rightarrow> (js_text option \<times> js_text option) option \<Rightarrow> bool" where
  "names_first le r busy named \<longleftrightarrow>
     (case named of
        None \<Rightarrow> \<not> (\<exists>b \<in> set busy. in_the_way r b)
      | Some (k, ev) \<Rightarrow> (\<exists>x \<in> set busy. in_the_way r x \<and> k = Some (bi_calendar_id x) \<and> ev = Some (bi_event_id x)
          \<and> (\<forall>b \<in> set busy. in_the_way r b \<longrightarrow>
               bi_start_at x < bi_start_at b \<or> (bi_start_at x = bi_start_at b \<and> le (bi_event_id x) (bi_event_id b)))))"

lemma minute_instant: "check_seconds_zero r \<Longrightarrow> slot_instant r = ls_start_at r"
proof -
  assume "check_seconds_zero r"
  then have "(ls_start_at r + 3 * us_per_hour) mod us_per_day mod us_per_minute = 0" by (simp add: check_seconds_zero_def msk_time_of_day_def)
  moreover have "us_per_minute dvd us_per_day" by (simp add: time_defs)
  ultimately have "us_per_minute dvd ls_start_at r + 3 * us_per_hour" by (metis mod_mod_cancel dvd_eq_mod_eq_0)
  then have "us_per_minute dvd ls_start_at r" by (simp add: us_per_hour_def dvd_add_left_iff)
  then have "(1000000::int) dvd ls_start_at r" by (rule dvd_trans [rotated]) (simp add: time_defs)
  then show ?thesis by (simp add: slot_instant_def js_date_via_string_def js_date_def us_per_ms_def zdiv_zmult2_eq [symmetric])
qed

lemma overlap_in_the_way:
  assumes "check_seconds_zero r"
  shows "foreign_overlap (ls_teacher_account_id r) (slot_instant r) (ls_duration_minutes r) b \<longleftrightarrow> in_the_way r b"
proof -
  have "ranges_overlap p q u v \<longleftrightarrow> (\<exists>t. p \<le> t \<and> t < q \<and> u \<le> t \<and> t < v)" for p q u v
    by (auto simp: ranges_overlap_def intro: exI [of _ "max p u"])
  then show ?thesis by (simp add: foreign_overlap_def in_the_way_def minute_instant [OF assms] time_defs)
qed

lemma due_names_first:
  assumes "text_order le" and "check_seconds_zero r"
  shows "names_first le r (cd_busy D) (conflict_due le r D)"
proof (cases "overlaps_of le (ls_teacher_account_id r) (slot_instant r) (ls_duration_minutes r) D")
  case Nil
  then show ?thesis using overlaps_of_set [of le "ls_teacher_account_id r" "slot_instant r" "ls_duration_minutes r" D]
    by (auto simp: names_first_def conflict_due_def overlap_in_the_way [OF assms(2)])
next
  case (Cons x rest)
  then have "x \<in> set (cd_busy D)" "in_the_way r x"
    using overlaps_of_set [of le "ls_teacher_account_id r" "slot_instant r" "ls_duration_minutes r" D]
    by (auto simp: overlap_in_the_way [OF assms(2)])
  moreover have "\<forall>b \<in> set (cd_busy D). in_the_way r b \<longrightarrow> busy_before le x b"
    using overlaps_of_least [OF assms(1) Cons] by (simp add: overlap_in_the_way [OF assms(2)])
  ultimately show ?thesis using Cons by (auto simp: names_first_def conflict_due_def busy_before_def)
qed

lemma detector_effect:
  assumes "runConflictDetectionForTeacher c le teacher (D, g) = (Inr (Some out), w')" and "distinct (map ls_id (lesson_slots (cd_db D)))"
  shows "(\<forall>r \<in> set (lesson_slots (cd_db D)). if scanned_slot c (pg_uuid teacher) r
         then conflict_of (fst w') (ls_id r) = conflict_due le r D
         else slot_by_id (cd_db (fst w')) (ls_id r) = Some r \<and> conflict_of (fst w') (ls_id r) = conflict_of D (ls_id r))
     \<and> cd_busy (fst w') = cd_busy D
     \<and> co_scanned out = length (filter (scanned_slot c (pg_uuid teacher)) (lesson_slots (cd_db D)))
     \<and> co_scanned out = co_stamped out + co_cleared out + co_unchanged out"
proof -
  let ?rows = "scanned_rows c (pg_uuid teacher) D"
  let ?out = "\<lparr>co_scanned = length ?rows, co_stamped = 0, co_cleared = 0, co_unchanged = 0\<rparr>"
  have run: "detect_each c le (pg_uuid teacher) ?rows ?out (D, g) = (Inr out, w')"
    using assms(1) by (auto simp: runConflictDetectionForTeacher_def run_simps bindP_def [of "detect_each _ _ _ _ _"] retP_def
        split: if_splits sum.splits prod.splits)
  have ids: "map (ls_id \<circ> fst) ?rows = map ls_id (filter (scanned_slot c (pg_uuid teacher)) (lesson_slots (cd_db D)))"
    by (simp add: scanned_rows_def)
  have dist: "distinct (map (ls_id \<circ> fst) ?rows)" unfolding ids using assms(2) by (rule distinct_map_filter)
  have cur: "slot_by_id (cd_db D) (ls_id r) = Some r" if "r \<in> set (lesson_slots (cd_db D))" for r
    using find_by_distinct [OF assms(2) that] by (simp add: slot_by_id_def)
  have "\<forall>(r, b) \<in> set ?rows. slot_by_id (cd_db D) (ls_id r) = Some r \<and> b = cd_bindings D (ls_id r) \<and> ls_teacher_account_id r = pg_uuid teacher"
    using cur by (auto simp: scanned_rows_def scanned_slot_def)
  note eff = detect_each_effect [OF run dist this]
  have "if scanned_slot c (pg_uuid teacher) r then conflict_of (fst w') (ls_id r) = conflict_due le r D
      else slot_by_id (cd_db (fst w')) (ls_id r) = Some r \<and> conflict_of (fst w') (ls_id r) = conflict_of D (ls_id r)"
    if r: "r \<in> set (lesson_slots (cd_db D))" for r
  proof (cases "scanned_slot c (pg_uuid teacher) r")
    case True
    then have "(r, cd_bindings D (ls_id r)) \<in> set ?rows" using r by (auto simp: scanned_rows_def)
    with eff True show ?thesis by auto
  next
    case False
    then have "ls_id r \<notin> ls_id ` fst ` set ?rows" using cur r by (auto simp: scanned_rows_def image_image) (metis option.inject)
    with eff have same: "slot_by_id (cd_db (fst w')) (ls_id r) = slot_by_id (cd_db D) (ls_id r)"
        "cd_bindings (fst w') (ls_id r) = cd_bindings D (ls_id r)" by blast+
    then have "conflict_of (fst w') (ls_id r) = conflict_of D (ls_id r)" by (rule conflict_of_cong)
    with False same(1) cur [OF r] show ?thesis by simp
  qed
  moreover have "length ?rows = length (filter (scanned_slot c (pg_uuid teacher)) (lesson_slots (cd_db D)))" by (simp add: scanned_rows_def)
  ultimately show ?thesis using eff by auto
qed

text \<open>
  C16: after the detector has run, every booked lesson of the teacher that is still to come names exactly the conflict it
  has: no event when none of the teacher's events shares an instant with it, else the first that does, by start and then
  by id, where events of lessons and leftovers of earlier connections do not count. All other lessons are as they were,
  and the counts of the answer add up to the lessons scanned.
\<close>

theorem conflicts_are_the_overlaps:
  assumes "runConflictDetectionForTeacher c le teacher (D, g) = (Inr (Some out), w')" and "distinct (map ls_id (lesson_slots (cd_db D)))"
    and "text_order le" and "\<forall>r \<in> set (lesson_slots (cd_db D)). check_seconds_zero r"
  shows "(\<forall>r \<in> set (lesson_slots (cd_db D)).
         if ls_teacher_account_id r = pg_uuid teacher \<and> ls_status r = Booked \<and> ls_start_at r > pg_now c
         then names_first le r (cd_busy D) (conflict_of (fst w') (ls_id r))
         else slot_by_id (cd_db (fst w')) (ls_id r) = Some r \<and> conflict_of (fst w') (ls_id r) = conflict_of D (ls_id r))
     \<and> cd_busy (fst w') = cd_busy D
     \<and> co_scanned out = length (filter (scanned_slot c (pg_uuid teacher)) (lesson_slots (cd_db D)))
     \<and> co_scanned out = co_stamped out + co_cleared out + co_unchanged out"
  using detector_effect [OF assms(1,2)] due_names_first [OF assms(3)] assms(4) by (auto simp: scanned_slot_def split: if_splits)

section \<open>The queue of pulls\<close>

definition MAX_PULL_ATTEMPTS :: int where "MAX_PULL_ATTEMPTS = 5"

definition PULL_BACKOFF_MS :: "int list" where "PULL_BACKOFF_MS = [60000, 2 * 60000, 5 * 60000, 15 * 60000, 30 * 60000]"

datatype pull_outcome =
    PullSucceeded uuid uuid nat bool bool | PullRetried uuid uuid pull_reason millis | PullTerminal uuid uuid pull_reason

text \<open>The unique index over the pending jobs of a teacher and a calendar.\<close>

definition pull_twin :: "cal_db \<Rightarrow> uuid \<Rightarrow> pull_job \<Rightarrow> bool" where
  "pull_twin D i j \<longleftrightarrow> ql_status j = JobPending
     \<and> list_ex (\<lambda>x. ql_id x \<noteq> i \<and> ql_teacher_account_id x = ql_teacher_account_id j \<and> ql_calendar_id x = ql_calendar_id j
                  \<and> ql_status x = JobPending) (cd_pull_jobs D)"

definition pg_update_pull_job :: "uuid \<Rightarrow> (pull_job \<Rightarrow> pull_job) \<Rightarrow> cal_db \<Rightarrow> exn + (unit \<times> cal_db)" where
  "pg_update_pull_job i f D =
     (case find_by ql_id i (cd_pull_jobs D) of
        None \<Rightarrow> Inr ((), D)
      | Some j \<Rightarrow> if pull_twin D i (f j) then Inl (PgErr UniqueViolation)
                  else Inr ((), D\<lparr>cd_pull_jobs := replace_row ql_id (f j) (cd_pull_jobs D)\<rparr>))"

text \<open>The job of highest priority that is due, the one that waits longest among those of one priority.\<close>

definition pull_before :: "pull_job \<Rightarrow> pull_job \<Rightarrow> bool" where
  "pull_before a b \<longleftrightarrow> ql_priority a > ql_priority b \<or> (ql_priority a = ql_priority b \<and> ql_next_run_at a \<le> ql_next_run_at b)"

fun first_pull :: "pull_job list \<Rightarrow> pull_job option" where
  "first_pull [] = None"
| "first_pull (j # rest) = (case first_pull rest of None \<Rightarrow> Some j | Some k \<Rightarrow> Some (if pull_before j k then j else k))"

definition claimNextPull :: "clock \<Rightarrow> cal_db \<Rightarrow> exn + (pull_job option \<times> cal_db)" where
  "claimNextPull c D =
     (case first_pull (filter (\<lambda>j. ql_status j = JobPending \<and> ql_next_run_at j \<le> pg_now c) (cd_pull_jobs D)) of
        None \<Rightarrow> Inr (None, D)
      | Some j \<Rightarrow>
          let j' = j\<lparr>ql_status := JobInProgress, ql_attempts := ql_attempts j + 1, ql_last_attempt_at := Some (pg_now c)\<rparr> in
          Inr (Some j', D\<lparr>cd_pull_jobs := replace_row ql_id j' (cd_pull_jobs D)\<rparr>))"

definition markPullFailure :: "clock \<Rightarrow> pull_job \<Rightarrow> pull_reason \<Rightarrow> bool \<Rightarrow> ('g world, pull_outcome) prog" where
  "markPullFailure c job reason transient =
     (if \<not> transient \<or> ql_attempts job \<ge> MAX_PULL_ATTEMPTS
      then bindP (stmt (pg_update_pull_job (ql_id job) (\<lambda>j. j\<lparr>ql_status := JobTerminalFailure, ql_last_error := Some reason\<rparr>)))
             (\<lambda>_. retP (PullTerminal (ql_id job) (ql_teacher_account_id job) reason))
      else
        let idx = nat (min (ql_attempts job - 1) (int (length PULL_BACKOFF_MS) - 1));
            nextRunAt = js_now c + PULL_BACKOFF_MS ! idx in
        bindP (stmt (pg_update_pull_job (ql_id job) (\<lambda>j. j\<lparr>ql_status := JobPending, ql_next_run_at := nextRunAt * us_per_ms,
                 ql_last_error := Some reason\<rparr>)))
          (\<lambda>_. retP (PullRetried (ql_id job) (ql_teacher_account_id job) reason nextRunAt)))"

definition isTransientReason :: "token_refusal \<Rightarrow> bool" where
  "isTransientReason r \<longleftrightarrow> r = TkTransient \<or> r = TkConfigMissing"

definition isTransientHttpError :: "cal_env \<Rightarrow> pull_error \<Rightarrow> bool" where
  "isTransientHttpError e err =
     (case err of PuHttp status body \<Rightarrow> status \<ge> 500 \<or> status = 429 \<or> (status = 403 \<and> isQuotaBody e body) | _ \<Rightarrow> True)"

definition isTransientPullError :: "cal_env \<Rightarrow> run_pull_error \<Rightarrow> bool" where
  "isTransientPullError e err = (case err of RpPull p \<Rightarrow> isTransientHttpError e p | _ \<Rightarrow> False)"

text \<open>\<open>try { \<dots> } catch\<close> around the detector, whose answer is only logged.\<close>

definition processPull :: "clock \<Rightarrow> cal_env \<Rightarrow> 'g network \<Rightarrow> pull_job \<Rightarrow> ('g world, pull_outcome) prog" where
  "processPull c e net job =
     (let teacher = ql_teacher_account_id job in
      bindP (ensureFreshAccessToken c e net teacher False) (\<lambda>fresh. case fresh of
        NotFresh reason \<Rightarrow> markPullFailure c job (ReasonTokenRefused reason) (isTransientReason reason)
      | Fresh token ig _ \<Rightarrow>
          bindP (runPullForCalendar c e net
                   \<lparr>po_teacherAccountId = teacher, po_externalCalendarId = ql_calendar_id job,
                    po_isWritableInSource = Some (gi_writeCalendarId ig = Some (ql_calendar_id job))\<rparr>) (\<lambda>pull. case pull of
            Inl err \<Rightarrow> markPullFailure c job (ReasonPull err) (isTransientPullError e err)
          | Inr res \<Rightarrow>
              bindP (ignore_failure (runConflictDetectionForTeacher c (ce_text_le e) teacher)) (\<lambda>_.
              bindP (stmt (pg_update_pull_job (ql_id job) (\<lambda>j. j\<lparr>ql_status := JobSucceeded, ql_last_error := None\<rparr>)))
                (\<lambda>_. retP (PullSucceeded (ql_id job) teacher (rr_intervalsAfter res) (rr_delta res) (rr_deltaTokenRefreshed res)))))))"

fun drainPullJobs :: "clock \<Rightarrow> cal_env \<Rightarrow> 'g network \<Rightarrow> nat \<Rightarrow> ('g world, pull_outcome list) prog" where
  "drainPullJobs c e net 0 = retP []"
| "drainPullJobs c e net (Suc n) =
     bindP (stmt (claimNextPull c)) (\<lambda>jo. case jo of
       None \<Rightarrow> retP []
     | Some job \<Rightarrow>
         bindP (processPull c e net job) (\<lambda>outcome.
         bindP (drainPullJobs c e net n) (\<lambda>rest. retP (outcome # rest))))"

definition same_pull :: "uuid \<Rightarrow> js_text \<Rightarrow> pull_job \<Rightarrow> bool" where
  "same_pull teacher calendarId j \<longleftrightarrow> ql_teacher_account_id j = teacher \<and> ql_calendar_id j = calendarId \<and> ql_status j = JobPending"

definition enqueuePullJob :: "clock \<Rightarrow> uuid \<Rightarrow> uuid \<Rightarrow> js_text \<Rightarrow> int \<Rightarrow> cal_db \<Rightarrow> exn + (bool \<times> cal_db)" where
  "enqueuePullJob c newId teacher calendarId priority D =
     (if list_ex (same_pull teacher calendarId) (cd_pull_jobs D)
      then Inr (True, D\<lparr>cd_pull_jobs := map (\<lambda>j. if same_pull teacher calendarId j
             then j\<lparr>ql_next_run_at := min (ql_next_run_at j) (pg_now c), ql_priority := max (ql_priority j) priority\<rparr> else j) (cd_pull_jobs D)\<rparr>)
      else if find_by ac_id teacher (accounts (cd_db D)) = None then Inl (PgErr ForeignKeyViolation)
      else Inr (True, D\<lparr>cd_pull_jobs := cd_pull_jobs D @
             [\<lparr>ql_id = newId, ql_teacher_account_id = teacher, ql_calendar_id = calendarId, ql_priority = priority, ql_status = JobPending,
               ql_attempts = 0, ql_next_run_at = pg_now c, ql_last_attempt_at = None, ql_last_error = None, ql_created_at = pg_now c\<rparr>]\<rparr>))"

section \<open>Facts of the queue\<close>

text \<open>
  A notice of a change moves a pending pull forward: after it the pair has a pending pull that is due, of at least the
  wanted priority, whatever delay an earlier failure had set.
\<close>

lemma notice_makes_pull_due:
  assumes "enqueuePullJob c newId teacher calendarId priority D = Inr (b, D')"
  shows "\<exists>j \<in> set (cd_pull_jobs D'). same_pull teacher calendarId j \<and> ql_next_run_at j \<le> pg_now c \<and> ql_priority j \<ge> priority"
proof (cases "list_ex (same_pull teacher calendarId) (cd_pull_jobs D)")
  case True
  then obtain j where "j \<in> set (cd_pull_jobs D)" "same_pull teacher calendarId j" by (auto simp: list_ex_iff)
  with True assms show ?thesis
    by (auto simp: enqueuePullJob_def same_pull_def intro!: bexI [of _ "j\<lparr>ql_next_run_at := min (ql_next_run_at j) (pg_now c),
      ql_priority := max (ql_priority j) priority\<rparr>"])
next
  case False
  with assms show ?thesis by (auto simp: enqueuePullJob_def same_pull_def split: if_splits)
qed

text \<open>
  A lost connection to the token service in the middle of a pull ends the job: the runner reports it as a disconnected
  integration, which the worker takes for permanent.
\<close>

lemma lost_refresh_ends_the_pull:
  assumes "ensureFreshAccessToken c e net (ql_teacher_account_id job) False w = (Inr (Fresh token ig fr), w1)"
    and "runPullForCalendar c e net \<lparr>po_teacherAccountId = ql_teacher_account_id job, po_externalCalendarId = ql_calendar_id job,
        po_isWritableInSource = Some (gi_writeCalendarId ig = Some (ql_calendar_id job))\<rparr> w1
      = (Inr (Inl (RpIntegrationDisconnected (Some TkTransient))), (D2, g2))"
    and "find_by ql_id (ql_id job) (cd_pull_jobs D2) = Some j"
  shows "\<exists>w'. processPull c e net job w
     = (Inr (PullTerminal (ql_id job) (ql_teacher_account_id job) (ReasonPull (RpIntegrationDisconnected (Some TkTransient)))), w')"
proof -
  have step: "markPullFailure c job (ReasonPull (RpIntegrationDisconnected (Some TkTransient))) False (D2, g2)
      = (Inr (PullTerminal (ql_id job) (ql_teacher_account_id job) (ReasonPull (RpIntegrationDisconnected (Some TkTransient)))),
         (D2\<lparr>cd_pull_jobs := replace_row ql_id (j\<lparr>ql_status := JobTerminalFailure,
            ql_last_error := Some (ReasonPull (RpIntegrationDisconnected (Some TkTransient)))\<rparr>) (cd_pull_jobs D2)\<rparr>, g2))"
    using assms(3) by (simp add: markPullFailure_def bindP_def stmt_def retP_def pg_update_pull_job_def pull_twin_def)
  have "processPull c e net job w = markPullFailure c job (ReasonPull (RpIntegrationDisconnected (Some TkTransient))) False (D2, g2)"
    using assms(1,2) by (simp add: processPull_def Let_def bindP_def isTransientPullError_def)
  with step show ?thesis by simp
qed

definition sample_booked_cal :: cal_db where
  "sample_booked_cal = sample_pull_cal\<lparr>cd_db := empty_db\<lparr>lesson_slots := [sample_slot]\<rparr>,
     cd_busy := [stored_interval sample_cal_clock sample_pull_opts sample_interval (False, False) []]\<rparr>"

lemma conflicts_are_the_overlaps_witness:
  "\<exists>out D'. runConflictDetectionForTeacher sample_cal_clock (\<lambda>_ _. True) (uuid_of CHR ''a'') (sample_booked_cal, ()) = (Inr (Some out), (D', ()))
     \<and> conflict_of D' (uuid_of CHR ''1'') = Some (Some [99], Some [101])"
proof -
  let ?le = "\<lambda>_ _. True" and ?D = sample_booked_cal and ?c = sample_cal_clock and ?t = "uuid_of CHR ''a''"
  let ?b = "stored_interval sample_cal_clock sample_pull_opts sample_interval (False, False) []"
  have pg: "pg_uuid ?t = ?t" by (simp add: lower_hex_def)
  have pat: "uuid_pattern ?t" by (simp add: hex_digit_def)
  have slot: "ls_id sample_slot = uuid_of CHR ''1''" "ls_teacher_account_id sample_slot = ?t" "ls_external_conflict_at sample_slot = None"
    by (simp_all add: sample_slot_def)
  have inst: "slot_instant sample_slot = 1767596400000000"
    by (simp add: slot_instant_def sample_slot_def js_date_via_string_def js_date_def us_per_ms_def)
  have rows: "scanned_rows ?c ?t ?D = [(sample_slot, cd_bindings ?D (uuid_of CHR ''1''))]"
    by (simp add: scanned_rows_def sample_booked_cal_def scanned_slot_def) (simp add: sample_slot_def sample_cal_clock_def)
  have b: "bi_start_at ?b = 1767596400000000" "bi_calendar_id ?b = [99]" "bi_event_id ?b = [101]"
    by (simp_all add: stored_interval_def sample_interval_def us_per_ms_def sample_pull_opts_def)
  have fo: "foreign_overlap ?t (slot_instant sample_slot) (ls_duration_minutes sample_slot) ?b"
    unfolding inst by (simp add: foreign_overlap_def stored_interval_def sample_interval_def us_per_ms_def sample_pull_opts_def pg
        ranges_overlap_def sample_slot_def us_per_minute_def us_per_second_def)
  then have os: "overlaps_of ?le ?t (slot_instant sample_slot) (ls_duration_minutes sample_slot) ?D = [?b]"
    by (simp add: overlaps_of_def sample_booked_cal_def)
  have byid: "slot_by_id (cd_db ?D) (uuid_of CHR ''1'') = Some sample_slot"
    by (simp add: sample_booked_cal_def slot_by_id_def find_by_single slot)
  have "slot_check (sample_slot\<lparr>ls_external_conflict_at := z, ls_updated_at := y\<rparr>)" for z y
    by (simp add: sample_slot_def slot_check_defs msk_defs)
  moreover have "snapshot_on_book d (sample_slot\<lparr>ls_external_conflict_at := z, ls_updated_at := y\<rparr>)
      = sample_slot\<lparr>ls_external_conflict_at := z, ls_updated_at := y\<rparr>" for d z y
    by (simp add: snapshot_on_book_def snapshot_value_def sample_slot_def)
  moreover have "\<not> slot_conflict (cd_db ?D) (sample_slot\<lparr>ls_external_conflict_at := z, ls_updated_at := y\<rparr>)" for z y
    by (simp add: slot_conflict_def sample_booked_cal_def slot)
  ultimately have "\<exists>r' d'. pg_update_slot (uuid_of CHR ''1'') (\<lambda>_. True)
      (\<lambda>r. r\<lparr>ls_external_conflict_at := z, ls_updated_at := y\<rparr>) (cd_db ?D) = Inr (Some r', d')" for z y
    using byid by (simp add: pg_update_slot_def Let_def snapshot_frozen_def)
  moreover have "bd_event_id (cd_bindings ?D i) \<noteq> None" "bd_calendar_id (cd_bindings ?D i) \<noteq> None" for i
    by (simp_all add: sample_booked_cal_def sample_pull_cal_def sample_cal_def)
  moreover have "lesson_slots (cd_db ?D) = [sample_slot]" by (simp add: sample_booked_cal_def)
  ultimately have "\<exists>D'. stamp_conflict ?c (uuid_of CHR ''1'') (Some ([99], [101])) ?D = Inr ((), D')"
    using byid by (simp add: stamp_conflict_def pg_update_binding_def Let_def binding_taken_def slot bindR_eq_Inr_iff) metis
  then obtain D' where st: "stamp_conflict ?c (uuid_of CHR ''1'') (Some ([99], [101])) ?D = Inr ((), D')" by blast
  have run: "runConflictDetectionForTeacher ?c ?le ?t (?D, ()) = (Inr (Some \<lparr>co_scanned = 1, co_stamped = 1, co_cleared = 0, co_unchanged = 0\<rparr>), (D', ()))"
    using pat rows os st by (simp add: runConflictDetectionForTeacher_def reading_def pg detect_slot_def Let_def slot b bindP_def stmt_def retP_def)
  have "sample_slot \<in> set (lesson_slots (cd_db ?D))" "distinct (map ls_id (lesson_slots (cd_db ?D)))"
      "\<forall>r \<in> set (lesson_slots (cd_db ?D)). check_seconds_zero r"
    using sample_slot_check by (simp_all add: sample_booked_cal_def slot_check_def)
  moreover have "ls_status sample_slot = Booked \<and> ls_start_at sample_slot > pg_now ?c" by (simp add: sample_slot_def sample_cal_clock_def)
  ultimately have "names_first ?le sample_slot (cd_busy ?D) (conflict_of D' (uuid_of CHR ''1''))"
    using conflicts_are_the_overlaps [OF run] by (fastforce simp: text_order_def pg slot)
  moreover have "in_the_way sample_slot ?b"
    using fo overlap_in_the_way [of sample_slot ?b] sample_slot_check unfolding slot slot_check_def by blast
  ultimately have "conflict_of D' (uuid_of CHR ''1'') = Some (Some [99], Some [101])"
    by (auto simp: names_first_def sample_booked_cal_def b split: option.splits)
  with run show ?thesis by blast
qed

end
