(* ===== verification/Calendar_Retries.thy ===== *)
theory Calendar_Retries
  imports Calendar_Push
begin

text \<open>
  The end of the retries of the push queue (src/lib/calendar/push-worker.ts). Every claim of \<open>drainPushJobs\<close> spends
  one of the attempts that its job has left, and nothing gives an attempt back. So \<open>tries_left\<close> bounds the attempts at
  each job over all drains, and \<open>attempts_left\<close>, the sum over a queue to which nothing is added, bounds a drain whatever
  its \<open>maxJobs\<close> is, and all drains together.
\<close>

definition job_left :: "push_job \<Rightarrow> nat" where
  "job_left j = (if job_final j then 0 else nat (MAX_PUSH_ATTEMPTS - pj_attempts j))"

definition attempts_left :: "push_job list \<Rightarrow> nat" where
  "attempts_left jl = sum_list (map job_left jl)"

definition world_left :: "'g world \<Rightarrow> nat" where "world_left w = attempts_left (cd_push_jobs (fst w))"

definition any_due :: "clock \<Rightarrow> 'g world \<Rightarrow> bool" where
  "any_due c w \<longleftrightarrow> list_ex (job_due c) (cd_push_jobs (fst w))"

lemma attempts_left_sum: "distinct (map pj_id jl) \<Longrightarrow> attempts_left jl = (\<Sum>j \<in> set jl. job_left j)"
  by (simp add: attempts_left_def sum_list_distinct_conv_sum_set distinct_map)

lemma attempts_left_bound:
  assumes "jobs_ok jl"
  shows "attempts_left jl \<le> 5 * length jl"
proof -
  have "job_left j \<le> 5" if "j \<in> set jl" for j
    using assms that by (auto simp: jobs_ok_def list_all_iff job_valid_def job_left_def MAX_PUSH_ATTEMPTS_def)
  then have "sum_list (map job_left jl) \<le> sum_list (map (\<lambda>_. 5) jl)" by (intro sum_list_mono) simp
  then show ?thesis by (simp add: attempts_left_def sum_list_triv)
qed

text \<open>Later states of the same jobs have no more attempts left, and a claim has one less.\<close>

lemma attempts_left_mono:
  assumes ok: "jobs_ok jl" "jobs_ok jl'" and prog: "jobs_progress jl jl'" and ids: "job_ids jl' = job_ids jl"
  shows "attempts_left jl' \<le> attempts_left jl"
proof -
  have "(\<Sum>j \<in> set jl'. job_left j) \<le> (\<Sum>j \<in> set jl. job_left j)"
  proof (rule sum_le_included [where i = "\<lambda>y. the (find_by pj_id (pj_id y) jl')"])
    show "\<forall>x \<in> set jl'. \<exists>y \<in> set jl. the (find_by pj_id (pj_id y) jl') = x \<and> job_left x \<le> job_left y"
    proof
      fix x assume x: "x \<in> set jl'"
      then obtain y where y: "y \<in> set jl" "pj_id y = pj_id x" using ids by (force simp: job_ids_def)
      have find: "find_by pj_id (pj_id x) jl' = Some x"
        by (rule find_by_distinct [OF _ x]) (use ok(2) in \<open>simp add: jobs_ok_def\<close>)
      obtain z where z: "z \<in> set jl'" "pj_id z = pj_id y" "pj_attempts y \<le> pj_attempts z" "job_final y \<longrightarrow> z = y"
        using prog y(1) unfolding jobs_progress_def by blast
      have "z = x" using distinct_key_eq [of pj_id jl' z x] ok(2) z(1,2) x y(2) by (simp add: jobs_ok_def)
      then have "job_left x \<le> job_left y" using z(3,4) by (auto simp: job_left_def)
      then show "\<exists>y \<in> set jl. the (find_by pj_id (pj_id y) jl') = x \<and> job_left x \<le> job_left y"
        using y find by (intro bexI [of _ y]) simp_all
    qed
  qed simp_all
  then show ?thesis using ok by (simp add: attempts_left_sum jobs_ok_def)
qed

lemma claim_spends_an_attempt:
  assumes ok: "jobs_ok jl" and j: "j \<in> set jl" "job_due c j"
    and j': "j' = j\<lparr>pj_status := JobInProgress, pj_attempts := pj_attempts j + 1, pj_last_attempt_at := t\<rparr>"
  shows "attempts_left (replace_row pj_id j' jl) < attempts_left jl"
proof -
  have set: "set (replace_row pj_id j' jl) = insert j' (set jl - {j})"
  proof -
    have "{x \<in> set jl. pj_id x \<noteq> pj_id j'} = set jl - {j}"
      using distinct_key_eq [of pj_id jl _ j] ok j(1) by (auto simp: jobs_ok_def j')
    then show ?thesis using set_replace_row_eq [of pj_id j' jl] j(1) j' by auto
  qed
  have fresh: "j' \<notin> set jl - {j}"
    using distinct_key_eq [of pj_id jl j' j] ok j(1) by (auto simp: jobs_ok_def j')
  have less: "job_left j' < job_left j"
    using ok j by (auto simp: jobs_ok_def list_all_iff job_valid_def job_due_def job_left_def job_final_def j')
  have "(\<Sum>x \<in> insert j' (set jl - {j}). job_left x) = job_left j' + (\<Sum>x \<in> set jl - {j}. job_left x)"
    using fresh by (intro sum.insert) simp_all
  also have "\<dots> < job_left j + (\<Sum>x \<in> set jl - {j}. job_left x)" using less by simp
  also have "\<dots> = (\<Sum>x \<in> set jl. job_left x)" using j(1) by (simp add: sum.remove [symmetric])
  finally show ?thesis
    using ok attempts_left_sum [of "replace_row pj_id j' jl"] by (simp add: attempts_left_sum set jobs_ok_def tbl_simps)
qed

lemma nothing_left_nothing_due:
  assumes "jobs_ok jl" and "j \<in> set jl" and "job_due c j"
  shows "0 < attempts_left jl"
proof -
  have "0 < job_left j"
    using assms by (auto simp: jobs_ok_def list_all_iff job_valid_def job_due_def job_left_def job_final_def)
  then show ?thesis using assms(2) member_le_sum_list [of "job_left j" "map job_left jl"] by (force simp: attempts_left_def)
qed

text \<open>The same for one job; one that is not there yet may come with all of its attempts.\<close>

definition tries_left :: "uuid \<Rightarrow> push_job list \<Rightarrow> nat" where
  "tries_left i jl = (case find_by pj_id i jl of None \<Rightarrow> 5 | Some j \<Rightarrow> job_left j)"

lemma tries_left_bound: "jobs_ok jl \<Longrightarrow> tries_left i jl \<le> 5"
  by (auto simp: tries_left_def jobs_ok_def list_all_iff job_valid_def job_left_def MAX_PUSH_ATTEMPTS_def
      split: option.split dest!: find_by_SomeD)

lemma tries_left_mono:
  assumes ok: "jobs_ok jl" "jobs_ok jl'" and prog: "jobs_progress jl jl'"
  shows "tries_left i jl' \<le> tries_left i jl"
proof (cases "find_by pj_id i jl")
  case None
  then have "tries_left i jl = 5" by (simp add: tries_left_def)
  then show ?thesis using tries_left_bound [OF ok(2), of i] by simp
next
  case (Some j)
  then have j: "j \<in> set jl" "pj_id j = i" by (auto dest: find_by_SomeD)
  obtain z where z: "z \<in> set jl'" "pj_id z = pj_id j" "pj_attempts j \<le> pj_attempts z" "job_final j \<longrightarrow> z = j"
    using prog j(1) unfolding jobs_progress_def by blast
  have "find_by pj_id (pj_id z) jl' = Some z" by (rule find_by_distinct [OF _ z(1)]) (use ok(2) in \<open>simp add: jobs_ok_def\<close>)
  moreover have "job_left z \<le> job_left j" using z(3,4) by (auto simp: job_left_def)
  ultimately show ?thesis using Some z(2) j(2) by (simp add: tries_left_def)
qed

lemma claim_uses_a_try:
  assumes ok: "jobs_ok jl" and j: "j \<in> set jl" "job_due c j"
    and j': "j' = j\<lparr>pj_status := JobInProgress, pj_attempts := pj_attempts j + 1, pj_last_attempt_at := t\<rparr>"
  shows "tries_left i (replace_row pj_id j' jl) + (if i = pj_id j then 1 else 0) \<le> tries_left i jl"
proof -
  have find: "find_by pj_id (pj_id j) jl = Some j" by (rule find_by_distinct [OF _ j(1)]) (use ok in \<open>simp add: jobs_ok_def\<close>)
  have less: "job_left j' < job_left j"
    using ok j by (auto simp: jobs_ok_def list_all_iff job_valid_def job_due_def job_left_def job_final_def j')
  show ?thesis
  proof (cases "i = pj_id j")
    case True
    then show ?thesis using find less by (simp add: tries_left_def find_by_replace_row j')
  next
    case False
    then show ?thesis by (simp add: tries_left_def find_by_replace_row j')
  qed
qed

text \<open>What is reported of an attempt names its job.\<close>

fun outcome_job :: "push_outcome \<Rightarrow> uuid" where
  "outcome_job (PushSucceeded i _) = i"
| "outcome_job (PushDependent i _) = i"
| "outcome_job (PushRetried i _ _ _) = i"
| "outcome_job (PushTerminal i _ _) = i"

definition reports :: "uuid \<Rightarrow> ('g world, push_outcome) prog \<Rightarrow> bool" where
  "reports i m \<longleftrightarrow> (\<forall>w out w'. m w = (Inr out, w') \<longrightarrow> outcome_job out = i)"

lemma reports_ret [intro!, simp]: "outcome_job out = i \<Longrightarrow> reports i (retP out)"
  by (simp add: reports_def retP_def)

lemma reports_bind [intro!]: "(\<And>x. reports i (f x)) \<Longrightarrow> reports i (bindP m f)"
  by (auto simp: reports_def bindP_def split: prod.splits sum.splits)

lemma reports_marks [simp]:
  "reports (pj_id job) (markFailure c job reason transient)" "reports (pj_id job) (markPushSucceeded job s)"
  "reports (pj_id job) (markPushDependent job)" "reports (pj_id job) (call_failed c e job raw)"
proof -
  show fail: "reports (pj_id job) (markFailure c job reason transient)" for reason transient
    by (auto simp: markFailure_def Let_def)
  show "reports (pj_id job) (markPushSucceeded job s)" by (auto simp: markPushSucceeded_def)
  show "reports (pj_id job) (markPushDependent job)" by (auto simp: markPushDependent_def)
  show "reports (pj_id job) (call_failed c e job raw)" by (auto simp: call_failed_def fail split: call_raw.split)
qed

lemma reports_process: "reports (pj_id job) (processJob c e net job)"
proof -
  have "reports (pj_id job) (processCreate c e net job)"
    by (auto simp: processCreate_def split: option.split call_result.split)
  moreover have "reports (pj_id job) (processUpdate c e net job)"
    by (auto simp: processUpdate_def split: option.split call_result.split)
  moreover have "reports (pj_id job) (processDelete c e net job)"
    by (auto simp: processDelete_def Let_def split: option.split call_result.split)
  ultimately show ?thesis by (simp add: processJob_def split: job_kind.split)
qed

text \<open>One turn of the loop.\<close>

lemma drain_turn:
  fixes net :: "'g network"
  assumes net: "respects_claims net" and ok: "world_ok w"
  obtains "\<not> any_due c w" and "\<And>n. drainPushJobs c e net n w = (Inr [], w)"
  | x w' where "any_due c w" and "world_ok w'" and "adds_no_jobs net \<longrightarrow> world_left w' < world_left w"
      and "\<And>i. tries_left i (cd_push_jobs (fst w')) \<le> tries_left i (cd_push_jobs (fst w))"
      and "\<And>n. drainPushJobs c e net (Suc n) w = (Inl x, w')"
  | out w' where "any_due c w" and "world_ok w'" and "adds_no_jobs net \<longrightarrow> world_left w' < world_left w"
      and "\<And>i. tries_left i (cd_push_jobs (fst w')) + (if i = outcome_job out then 1 else 0) \<le> tries_left i (cd_push_jobs (fst w))"
      and "\<And>n. drainPushJobs c e net (Suc n) w = bindP (drainPushJobs c e net n) (\<lambda>rest. retP (out # rest)) w'"
proof (cases rule: claim_cases [of c "fst w"])
  case 1
  have "drainPushJobs c e net n w = (Inr [], w)" for n
    by (cases n) (use 1(1) in \<open>simp_all add: prog_defs\<close>)
  then show ?thesis using 1(2) that(1) by (simp add: any_due_def)
next
  case (2 j j')
  define w1 where "w1 = ((fst w)\<lparr>cd_push_jobs := replace_row pj_id j' (cd_push_jobs (fst w))\<rparr>, snd w)"
  have claim: "stmt (claimNextJob c) w = (Inr (Some j'), w1)" using 2(4) by (simp add: stmt_def w1_def)
  have due: "any_due c w" using 2(1,2) by (auto simp: any_due_def list_ex_iff)
  have less: "world_left w1 < world_left w"
    using claim_spends_an_attempt [OF _ 2(1,2,3)] ok by (simp add: w1_def world_left_def world_ok_def)
  have used: "tries_left i (cd_push_jobs (fst w1)) + (if i = pj_id j then 1 else 0) \<le> tries_left i (cd_push_jobs (fst w))" for i
    using claim_uses_a_try [OF _ 2(1,2,3), of i] ok unfolding w1_def world_ok_def by simp
  have h: "holds_claim j' w1" using claim_steps [OF ok claim] by simp
  obtain r w2 where p: "processJob c e net j' w1 = (r, w2)" by (rule prod.exhaust)
  have after: "world_ok w2" "world_progress (adds_no_jobs net) {pj_id j'} w1 w2"
    using ensures_process [OF net, of "adds_no_jobs net" j' c e] h p unfolding ensures_def by (metis snd_conv)+
  have mono: "tries_left i (cd_push_jobs (fst w2)) \<le> tries_left i (cd_push_jobs (fst w1))" for i
    by (rule tries_left_mono) (use after holds_claim_ok [OF h] in \<open>simp_all add: world_ok_def world_progress_def\<close>)
  have left: "adds_no_jobs net \<longrightarrow> world_left w2 < world_left w"
  proof
    assume "adds_no_jobs net"
    then have "world_left w2 \<le> world_left w1"
      unfolding world_left_def
      by (intro attempts_left_mono) (use after holds_claim_ok [OF h] in \<open>simp_all add: world_ok_def world_progress_def\<close>)
    with less show "world_left w2 < world_left w" by simp
  qed
  show ?thesis
  proof (cases r)
    case (Inl x)
    have "drainPushJobs c e net (Suc n) w = (Inl x, w2)" for n
      using p Inl by (simp add: bindP_step [where m = "stmt (claimNextJob c)", OF claim] bindP_stop [of "processJob c e net j'"])
    moreover have "tries_left i (cd_push_jobs (fst w2)) \<le> tries_left i (cd_push_jobs (fst w))" for i
      using used [of i] mono [of i] by simp
    ultimately show ?thesis using due after(1) left that(2) by blast
  next
    case (Inr out)
    have "drainPushJobs c e net (Suc n) w = bindP (drainPushJobs c e net n) (\<lambda>rest. retP (out # rest)) w2" for n
      using p Inr by (simp add: bindP_step [where m = "stmt (claimNextJob c)", OF claim] bindP_step [of "processJob c e net j'"])
    moreover have "outcome_job out = pj_id j'" using reports_process [of j' c e net, unfolded reports_def] p Inr by blast
    then have "outcome_job out = pj_id j" by (simp add: 2(3))
    then have "tries_left i (cd_push_jobs (fst w2)) + (if i = outcome_job out then 1 else 0) \<le> tries_left i (cd_push_jobs (fst w))" for i
      using used [of i] mono [of i] by simp
    ultimately show ?thesis using due after(1) left that(3) by blast
  qed
qed

text \<open>A drain that reports fewer outcomes than it may has come to the end of what is due.\<close>

lemma drain_short:
  "drainPushJobs c e net n w = (Inr outs, w') \<Longrightarrow> length outs \<le> n \<and> (length outs < n \<longrightarrow> \<not> any_due c w')"
proof (induction n arbitrary: w outs)
  case 0
  then show ?case by (simp add: retP_def)
next
  case (Suc n)
  show ?case
  proof (cases rule: claim_cases [of c "fst w"])
    case 1
    then show ?thesis using Suc.prems by (auto simp: prog_defs any_due_def)
  next
    case (2 j j')
    obtain out w1 rest where "drainPushJobs c e net n w1 = (Inr rest, w')" "outs = out # rest"
      using Suc.prems 2(4) by (auto simp: bindP_def stmt_def retP_def split: prod.splits sum.splits)
    then show ?thesis using Suc.IH by simp
  qed
qed

text \<open>Every outcome uses up a try of its job.\<close>

lemma drain_uses:
  fixes net :: "'g network"
  assumes "respects_claims net" and "world_ok w"
  shows "world_ok (snd (drainPushJobs c e net n w))
     \<and> (case fst (drainPushJobs c e net n w) of Inl _ \<Rightarrow> 0 | Inr outs \<Rightarrow> length (filter (\<lambda>out. outcome_job out = i) outs))
         + tries_left i (cd_push_jobs (fst (snd (drainPushJobs c e net n w)))) \<le> tries_left i (cd_push_jobs (fst w))"
  using assms(2)
proof (induction n arbitrary: w)
  case 0
  then show ?case by (simp add: retP_def)
next
  case (Suc n)
  show ?case
  proof (cases rule: drain_turn [OF assms(1) Suc.prems, of c e])
    case 1
    show ?thesis unfolding 1(2) using Suc.prems by simp
  next
    case (2 x w')
    show ?thesis unfolding 2(5) using 2(2,4) by simp
  next
    case (3 out w')
    obtain r w2 where run: "drainPushJobs c e net n w' = (r, w2)" by (rule prod.exhaust)
    show ?thesis unfolding 3(5) using Suc.IH [OF 3(2)] 3(4) [of i] run
      by (cases r) (auto simp: bindP_def retP_def)
  qed
qed

lemma drain_spends:
  fixes net :: "'g network"
  assumes "respects_claims net" and "adds_no_jobs net" and "world_ok w"
  shows "world_ok (snd (drainPushJobs c e net n w))
     \<and> (case fst (drainPushJobs c e net n w) of Inl _ \<Rightarrow> 0 | Inr outs \<Rightarrow> length outs) + world_left (snd (drainPushJobs c e net n w)) \<le> world_left w
     \<and> (0 < n \<and> any_due c w \<longrightarrow> world_left (snd (drainPushJobs c e net n w)) < world_left w)"
  using assms(3)
proof (induction n arbitrary: w)
  case 0
  then show ?case by (simp add: retP_def)
next
  case (Suc n)
  show ?case
  proof (cases rule: drain_turn [OF assms(1) Suc.prems, of c e])
    case 1
    show ?thesis unfolding 1(2) using 1(1) Suc.prems by simp
  next
    case (2 x w')
    show ?thesis unfolding 2(5) using 2(2,3) assms(2) by simp
  next
    case (3 out w')
    obtain r w2 where run: "drainPushJobs c e net n w' = (r, w2)" by (rule prod.exhaust)
    show ?thesis unfolding 3(5) using Suc.IH [OF 3(2)] 3(3) assms(2) run
      by (cases r) (auto simp: bindP_def retP_def)
  qed
qed

lemma drain_settles:
  fixes net :: "'g network"
  assumes "respects_claims net" and "adds_no_jobs net" and "world_ok w" and "world_left w \<le> n"
  shows "drainPushJobs c e net (n + k) w = drainPushJobs c e net n w
     \<and> (\<forall>outs w'. drainPushJobs c e net n w = (Inr outs, w') \<longrightarrow> \<not> any_due c w')"
  using assms(3,4)
proof (induction n arbitrary: w)
  case 0
  have "\<not> any_due c w"
    using nothing_left_nothing_due [of "cd_push_jobs (fst w)"] 0 by (fastforce simp: any_due_def list_ex_iff world_left_def world_ok_def)
  moreover from this have "drainPushJobs c e net m w = (Inr [], w)" for m
    by (cases rule: drain_turn [OF assms(1) 0(1), of c e]) simp_all
  ultimately show ?case by (simp del: drainPushJobs.simps split_paired_All)
next
  case (Suc n)
  show ?case
  proof (cases rule: drain_turn [OF assms(1) Suc.prems(1), of c e])
    case 1
    show ?thesis unfolding 1(2) using 1(1) by auto
  next
    case (2 x w')
    show ?thesis unfolding add_Suc 2(5) by simp
  next
    case (3 out w')
    have ih: "drainPushJobs c e net (n + k) w' = drainPushJobs c e net n w'"
        "\<forall>outs v. drainPushJobs c e net n w' = (Inr outs, v) \<longrightarrow> \<not> any_due c v"
      using Suc.IH [OF 3(2)] 3(3) assms(2) Suc.prems(2) by simp_all
    have same: "drainPushJobs c e net (Suc n + k) w = drainPushJobs c e net (Suc n) w"
      unfolding add_Suc 3(5) bindP_def ih(1) ..
    moreover have "\<not> any_due c v" if run: "drainPushJobs c e net (Suc n) w = (Inr outs, v)" for outs v
    proof (cases rule: bindP_cases [of "drainPushJobs c e net n" w' "\<lambda>rest. retP (out # rest)"])
      case (1 x s')
      then show ?thesis using run unfolding 3(5) by simp
    next
      case (2 x s')
      then have "s' = v" using run unfolding 3(5) by (simp add: retP_def)
      then show ?thesis using 2(1) ih(2) by blast
    qed
    ultimately show ?thesis by blast
  qed
qed

text \<open>
  The cron calls the worker again and again; \<open>busy_rounds\<close> counts the calls that begin with a job to do, those that end
  with an exception included.
\<close>

fun busy_rounds :: "cal_env \<Rightarrow> 'g network \<Rightarrow> (clock \<times> nat) list \<Rightarrow> 'g world \<Rightarrow> nat" where
  "busy_rounds e net [] w = 0"
| "busy_rounds e net ((c, n) # rounds) w =
     (if 0 < n \<and> any_due c w then 1 else 0) + busy_rounds e net rounds (snd (drainPushJobs c e net n w))"

lemma busy_rounds_bound:
  fixes net :: "'g network"
  assumes "respects_claims net" and "adds_no_jobs net" and "world_ok w"
  shows "busy_rounds e net rounds w \<le> world_left w"
  using assms(3)
proof (induction rounds arbitrary: w)
  case Nil
  then show ?case by simp
next
  case (Cons r rounds)
  obtain c n where r: "r = (c, n)" by (rule prod.exhaust)
  define w' where "w' = snd (drainPushJobs c e net n w)"
  have spent: "world_ok w'" "world_left w' \<le> world_left w" "0 < n \<and> any_due c w \<longrightarrow> world_left w' < world_left w"
    using drain_spends [OF assms(1,2) Cons.prems, of c e n] by (simp_all add: w'_def)
  have "busy_rounds e net rounds w' \<le> world_left w'" by (rule Cons.IH [OF spent(1)])
  then show ?case using spent(2,3) by (cases "0 < n \<and> any_due c w") (auto simp: r w'_def [symmetric])
qed

text \<open>What all of these calls report.\<close>

fun all_outcomes :: "cal_env \<Rightarrow> 'g network \<Rightarrow> (clock \<times> nat) list \<Rightarrow> 'g world \<Rightarrow> push_outcome list" where
  "all_outcomes e net [] w = []"
| "all_outcomes e net ((c, n) # rounds) w =
     (case fst (drainPushJobs c e net n w) of Inl _ \<Rightarrow> [] | Inr outs \<Rightarrow> outs)
       @ all_outcomes e net rounds (snd (drainPushJobs c e net n w))"

lemma all_outcomes_bound:
  fixes net :: "'g network"
  assumes "respects_claims net" and "world_ok w"
  shows "length (filter (\<lambda>out. outcome_job out = i) (all_outcomes e net rounds w)) \<le> tries_left i (cd_push_jobs (fst w))"
  using assms(2)
proof (induction rounds arbitrary: w)
  case Nil
  then show ?case by simp
next
  case (Cons r rounds)
  obtain c n where r: "r = (c, n)" by (rule prod.exhaust)
  note used = drain_uses [OF assms(1) Cons.prems, of c e n i]
  show ?case using used Cons.IH [of "snd (drainPushJobs c e net n w)"]
    by (cases "fst (drainPushJobs c e net n w)") (simp_all add: r del: drainPushJobs.simps)
qed

text \<open>
  C30: the retries of the push queue end, whatever the calendar answers and as long as others leave claimed jobs alone.
  A drain reports at most as many outcomes as \<open>maxJobs\<close> allows, and one that reports fewer leaves no job that is due;
  over all drains, of any \<open>maxJobs\<close>, no job is reported on more than five times. If moreover nobody adds a job, the
  attempts that the whole queue has left bound a drain: a larger \<open>maxJobs\<close> changes nothing and nothing is due after it;
  and of all drains ever called, those that end with an exception included, at most five for each job of the queue find
  something to do.
\<close>

theorem push_retries_end:
  fixes net :: "'g network"
  assumes "respects_claims net" and "jobs_ok (cd_push_jobs D)"
  shows "(\<forall>outs w'. drainPushJobs c e net n (D, g) = (Inr outs, w') \<longrightarrow> length outs \<le> n \<and> (length outs < n \<longrightarrow> \<not> any_due c w'))
     \<and> (\<forall>i. length (filter (\<lambda>out. outcome_job out = i) (all_outcomes e net rounds (D, g))) \<le> 5)
     \<and> (adds_no_jobs net \<longrightarrow>
          (attempts_left (cd_push_jobs D) \<le> n \<longrightarrow> drainPushJobs c e net (n + k) (D, g) = drainPushJobs c e net n (D, g)
             \<and> (\<forall>outs w'. drainPushJobs c e net n (D, g) = (Inr outs, w') \<longrightarrow> \<not> any_due c w' \<and> length outs \<le> attempts_left (cd_push_jobs D)))
          \<and> busy_rounds e net rounds (D, g) \<le> 5 * length (cd_push_jobs D))"
proof -
  have ok: "world_ok (D, g)" using assms(2) by (simp add: world_ok_def)
  have each: "length (filter (\<lambda>out. outcome_job out = i) (all_outcomes e net rounds (D, g))) \<le> 5" for i
    using all_outcomes_bound [OF assms(1) ok, of i e rounds] tries_left_bound [OF assms(2), of i] by simp
  have queue: "(attempts_left (cd_push_jobs D) \<le> n \<longrightarrow> drainPushJobs c e net (n + k) (D, g) = drainPushJobs c e net n (D, g)
         \<and> (\<forall>outs w'. drainPushJobs c e net n (D, g) = (Inr outs, w') \<longrightarrow> \<not> any_due c w' \<and> length outs \<le> attempts_left (cd_push_jobs D)))
     \<and> busy_rounds e net rounds (D, g) \<le> 5 * length (cd_push_jobs D)" if "adds_no_jobs net"
  proof -
    have "length outs \<le> attempts_left (cd_push_jobs D)" if "drainPushJobs c e net n (D, g) = (Inr outs, w')" for outs w'
      using drain_spends [OF assms(1) \<open>adds_no_jobs net\<close> ok, of c e n] that by (simp add: world_left_def)
    moreover have "busy_rounds e net rounds (D, g) \<le> 5 * length (cd_push_jobs D)"
      using busy_rounds_bound [OF assms(1) that ok, of e rounds] attempts_left_bound [OF assms(2)] by (simp add: world_left_def)
    ultimately show ?thesis
      using drain_settles [OF assms(1) that ok, of n c e k] by (simp add: world_left_def del: drainPushJobs.simps)
  qed
  show ?thesis using drain_short [of c e net n "(D, g)"] each queue by (simp del: drainPushJobs.simps)
qed

lemma push_retries_end_witness:
  "let j = \<lparr>pj_id = ''j'', pj_slot_id = ''s'', pj_teacher_account_id = ''t'', pj_kind = JobDelete,
             pj_payload = \<lparr>pl_write_calendar_id = None, pl_lc_epoch = None, pl_summary = None\<rparr>, pj_status = JobPending,
             pj_attempts = 3, pj_next_run_at = 0, pj_last_attempt_at = None, pj_last_error = None, pj_created_at = 0\<rparr>;
       D = empty_cal\<lparr>cd_push_jobs := [j]\<rparr>; c = \<lparr>pg_now = 1, js_now = 1\<rparr>; net = (\<lambda>q w. (NetFailed [], w)) :: unit network in
     drainPushJobs c sample_cal_env net (2 + 100) (D, ()) = drainPushJobs c sample_cal_env net 2 (D, ())
     \<and> length (filter (\<lambda>out. outcome_job out = ''j'') (all_outcomes sample_cal_env net [(c, 1), (c, 7)] (D, ()))) \<le> 5
     \<and> busy_rounds sample_cal_env net [(c, 1), (c, 7)] (D, ()) \<le> 5"
proof -
  let ?net = "(\<lambda>q w. (NetFailed [], w)) :: unit network"
  let ?j = "\<lparr>pj_id = ''j'', pj_slot_id = ''s'', pj_teacher_account_id = ''t'', pj_kind = JobDelete,
             pj_payload = \<lparr>pl_write_calendar_id = None, pl_lc_epoch = None, pl_summary = None\<rparr>, pj_status = JobPending,
             pj_attempts = 3, pj_next_run_at = 0, pj_last_attempt_at = None, pj_last_error = None, pj_created_at = 0\<rparr>"
  have net: "respects_claims ?net" "adds_no_jobs ?net"
    by (simp_all add: respects_claims_def adds_no_jobs_def jobs_progress_refl)
  have jobs: "jobs_ok (cd_push_jobs (empty_cal\<lparr>cd_push_jobs := [?j]\<rparr>))" "attempts_left (cd_push_jobs (empty_cal\<lparr>cd_push_jobs := [?j]\<rparr>)) \<le> 2"
    by (simp_all add: jobs_ok_def job_valid_def MAX_PUSH_ATTEMPTS_def attempts_left_def job_left_def)
  note ends = push_retries_end [OF net(1) jobs(1), where e = sample_cal_env and g = "()" and c = "\<lparr>pg_now = 1, js_now = 1\<rparr>"]
  show ?thesis
    using ends [of 2 "[(\<lparr>pg_now = 1, js_now = 1\<rparr>, 1), (\<lparr>pg_now = 1, js_now = 1\<rparr>, 7)]" 100] jobs(2) net(2)
    by (simp add: Let_def del: drainPushJobs.simps busy_rounds.simps all_outcomes.simps One_nat_def)
qed

end
