(* ===== verification/Tariffs.thy ===== *)
theory Tariffs
  imports Auth Slot_Write
begin

text \<open>
  The tariffs of a teacher: \<open>src/lib/pricing/tariffs.ts\<close> over the table \<open>pricing_tariffs\<close> of \<open>src/migrations/0018,
  0033, 0046, 0075, 0088, 0102\<close>. The tables around a school (accounts and links, offers, invitations, who may use which
  offer) are one record, \<open>school\<close>; \<open>booking_view\<close> is what the booking component reads of them. Every function is one
  transaction; the checks of an update that run before it are backed by the triggers, which are part of the model.
\<close>

section \<open>Tables\<close>

record price_row =
  tf_id :: uuid
  tf_slug :: js_text
  tf_title_ru :: js_text
  tf_description_ru :: "js_text option"
  tf_amount_kopecks :: int
  tf_duration_minutes :: int
  tf_currency :: string
  tf_is_active :: bool
  tf_display_order :: int
  tf_teacher_id :: uuid
  tf_deleted_at :: "micros option"
  tf_visibility :: visibility
  tf_created_at :: micros
  tf_updated_at :: micros

record bundle_row =
  ki_id :: uuid
  ki_slug :: js_text
  ki_title_ru :: js_text
  ki_description_ru :: "js_text option"
  ki_duration_minutes :: int
  ki_count :: int
  ki_amount_kopecks :: int
  ki_currency :: string
  ki_is_active :: bool
  ki_display_order :: int
  ki_teacher_id :: uuid
  ki_visibility :: visibility
  ki_deleted_at :: "micros option"
  ki_created_at :: micros
  ki_updated_at :: micros

text \<open>The rows of \<open>learner_tariff_access\<close> and \<open>learner_package_access\<close>; the first has no priority.\<close>

record access_row =
  aw_teacher_id :: uuid
  aw_learner_account_id :: uuid
  aw_offer_id :: uuid
  aw_override_amount_kopecks :: "int option"
  aw_priority :: int
  aw_granted_at :: micros
  aw_granted_by_account_id :: "uuid option"
  aw_revoked_at :: "micros option"

record invite_row =
  iv_id :: uuid
  iv_teacher_account_id :: uuid
  iv_created_at :: micros
  iv_expires_at :: micros
  iv_used_at :: "micros option"
  iv_used_by_account_id :: "uuid option"
  iv_revoked_at :: "micros option"
  iv_default_payment_method :: string
  iv_default_tariff_ids :: "uuid list"
  iv_default_package_ids :: "uuid list"
  iv_teacher_note_seed :: "js_text option"

record school =
  sh_auth :: auth_db
  sh_db :: db
  sh_tariffs :: "price_row list"
  sh_packages :: "bundle_row list"
  sh_tariff_access :: "access_row list"
  sh_package_access :: "access_row list"
  sh_invites :: "invite_row list"

definition tariff_of :: "school \<Rightarrow> uuid \<Rightarrow> price_row option" where
  "tariff_of S i = find_by tf_id i (sh_tariffs S)"

text \<open>What bookings read: the same rows, with the columns they look at.\<close>

definition tariff_view :: "price_row \<Rightarrow> tariff_row" where
  "tariff_view t = \<lparr>pt_id = tf_id t, pt_slug = map char_of (tf_slug t), pt_teacher_id = Some (tf_teacher_id t),
     pt_amount_kopecks = tf_amount_kopecks t, pt_currency = tf_currency t, pt_duration_minutes = tf_duration_minutes t,
     pt_is_active = tf_is_active t, pt_deleted_at = tf_deleted_at t, pt_visibility = tf_visibility t\<rparr>"

definition access_view :: "access_row \<Rightarrow> tariff_access_row" where
  "access_view a = \<lparr>ta_tariff_id = aw_offer_id a, ta_learner_account_id = aw_learner_account_id a, ta_revoked_at = aw_revoked_at a\<rparr>"

definition link_view :: "teacher_link_row \<Rightarrow> link_row" where
  "link_view l = \<lparr>ln_learner_account_id = lk_learner l, ln_teacher_account_id = lk_teacher l, ln_unlinked_at = lk_unlinked_at l\<rparr>"

definition role_view :: "account_role_row \<Rightarrow> role_row" where
  "role_view r = \<lparr>ar_account_id = ro_account_id r,
     ar_role = (case ro_role r of RoleAdmin \<Rightarrow> ''admin'' | RoleTeacher \<Rightarrow> ''teacher'' | RoleStudent \<Rightarrow> ''student'')\<rparr>"

definition booking_view :: "school \<Rightarrow> db" where
  "booking_view S = (sh_db S)\<lparr>pricing_tariffs := map tariff_view (sh_tariffs S),
     learner_tariff_access := map access_view (sh_tariff_access S),
     learner_teacher_links := map link_view (ad_links (sh_auth S)),
     account_roles := map role_view (ad_roles (sh_auth S))\<rparr>"

lemma booking_view_slots [simp]: "lesson_slots (booking_view S) = lesson_slots (sh_db S)"
  by (simp add: booking_view_def)

lemma booking_view_tariff: "tariff_by_id (booking_view S) i = map_option tariff_view (tariff_of S i)"
proof -
  have "find_by pt_id i (map tariff_view rows) = map_option tariff_view (find_by tf_id i rows)" for rows
    by (induction rows) (auto simp: find_by_def tariff_view_def)
  then show ?thesis by (simp add: tariff_by_id_def tariff_of_def booking_view_def)
qed

section \<open>Input\<close>

text \<open>
  A key of a patch: absent, present with \<open>undefined\<close> or \<open>null\<close>, or present with a value. \<open>given\<close> is the value of the
  last case.
\<close>

definition given :: "'a option option \<Rightarrow> 'a option" where "given x = (case x of Some y \<Rightarrow> y | None \<Rightarrow> None)"

record tariff_patch =
  tq_slug :: "js_text option option"
  tq_titleRu :: "js_text option option"
  tq_descriptionRu :: "js_text option option"
  tq_amountKopecks :: "js_num option option"
  tq_durationMinutes :: "js_num option option"
  tq_isActive :: "bool option option"
  tq_displayOrder :: "js_num option option"

record tariff_input =
  tn_slug :: js_text
  tn_titleRu :: js_text
  tn_descriptionRu :: "js_text option"
  tn_amountKopecks :: js_num
  tn_durationMinutes :: "js_num option"
  tn_isActive :: "bool option"
  tn_displayOrder :: "js_num option"

definition MIN_DURATION_MIN :: int where "MIN_DURATION_MIN = 15"
definition MAX_DURATION_MIN :: int where "MAX_DURATION_MIN = 240"
definition MIN_AMOUNT_KOPECKS :: int where "MIN_AMOUNT_KOPECKS = 100"
definition MAX_TARIFF_AMOUNT_KOPECKS :: int where "MAX_TARIFF_AMOUNT_KOPECKS = 100000000"
definition MAX_TITLE_LEN :: nat where "MAX_TITLE_LEN = 120"
definition MAX_DESCRIPTION_LEN :: nat where "MAX_DESCRIPTION_LEN = 600"

lemmas tariff_bands = MIN_DURATION_MIN_def MAX_DURATION_MIN_def MIN_AMOUNT_KOPECKS_def MAX_TARIFF_AMOUNT_KOPECKS_def
  MAX_TITLE_LEN_def MAX_DESCRIPTION_LEN_def

definition slug_char :: "nat \<Rightarrow> bool" where "slug_char u \<longleftrightarrow> 97 \<le> u \<and> u \<le> 122 \<or> 48 \<le> u \<and> u \<le> 57"

definition slug_ok :: "js_text \<Rightarrow> bool" where
  "slug_ok t \<longleftrightarrow> 2 \<le> length t \<and> length t \<le> 64 \<and> slug_char (hd t) \<and> slug_char (last t)
     \<and> list_all (\<lambda>u. slug_char u \<or> u = 45) t"

text \<open>The first of several checks that finds something.\<close>

fun first_problem :: "'e option list \<Rightarrow> 'e option" where
  "first_problem [] = None"
| "first_problem (x # xs) = (case x of Some e \<Rightarrow> Some e | None \<Rightarrow> first_problem xs)"

definition band_problem :: "string \<Rightarrow> int \<Rightarrow> int \<Rightarrow> js_num option \<Rightarrow> (string \<times> string) option" where
  "band_problem field lo hi v =
     (case v of
        None \<Rightarrow> None
      | Some JsNonInt \<Rightarrow> Some (field, ''not_integer'')
      | Some (JsInt n) \<Rightarrow> if n < lo \<or> n > hi then Some (field, ''out_of_band'') else None)"

definition validateTariffInput :: "tariff_patch \<Rightarrow> (string \<times> string) option" where
  "validateTariffInput p = first_problem
     [case given (tq_slug p) of None \<Rightarrow> None | Some t \<Rightarrow> if \<not> slug_ok t then Some (''slug'', ''invalid_format'') else None,
      case given (tq_titleRu p) of None \<Rightarrow> None
      | Some t \<Rightarrow> let trimmed = js_trim t in
          if length trimmed = 0 then Some (''titleRu'', ''too_short'')
          else if length trimmed > MAX_TITLE_LEN then Some (''titleRu'', ''too_long'') else None,
      case given (tq_descriptionRu p) of None \<Rightarrow> None
      | Some t \<Rightarrow> if length t > MAX_DESCRIPTION_LEN then Some (''descriptionRu'', ''too_long'') else None,
      band_problem ''amountKopecks'' MIN_AMOUNT_KOPECKS MAX_TARIFF_AMOUNT_KOPECKS (given (tq_amountKopecks p)),
      band_problem ''durationMinutes'' MIN_DURATION_MIN MAX_DURATION_MIN (given (tq_durationMinutes p))]"

definition validation_failed :: "string \<Rightarrow> string \<Rightarrow> exn" where
  "validation_failed field reason = JsError (''tariff validation failed: '' @ field @ ''/'' @ reason)"

definition tariff_input_valid :: "tariff_patch \<Rightarrow> exn + unit" where
  "tariff_input_valid p = (case validateTariffInput p of None \<Rightarrow> Inr () | Some (f, r) \<Rightarrow> Inl (validation_failed f r))"

section \<open>Reading\<close>

record tariff_item =
  ti_id :: uuid
  ti_slug :: js_text
  ti_titleRu :: js_text
  ti_descriptionRu :: "js_text option"
  ti_amountKopecks :: int
  ti_durationMinutes :: int
  ti_isActive :: bool
  ti_displayOrder :: int
  ti_teacherId :: uuid
  ti_deletedAt :: "millis option"
  ti_visibility :: visibility
  ti_createdAt :: millis
  ti_updatedAt :: millis

definition rowToTariff :: "price_row \<Rightarrow> tariff_item" where
  "rowToTariff r = \<lparr>ti_id = tf_id r, ti_slug = tf_slug r, ti_titleRu = tf_title_ru r, ti_descriptionRu = tf_description_ru r,
     ti_amountKopecks = tf_amount_kopecks r, ti_durationMinutes = tf_duration_minutes r, ti_isActive = tf_is_active r,
     ti_displayOrder = tf_display_order r, ti_teacherId = tf_teacher_id r,
     ti_deletedAt = map_option js_date_via_string (tf_deleted_at r), ti_visibility = tf_visibility r,
     ti_createdAt = js_date_via_string (tf_created_at r), ti_updatedAt = js_date_via_string (tf_updated_at r)\<rparr>"

text \<open>The sort orders of the lists; \<open>false\<close> sorts before \<open>true\<close>, and \<open>desc\<close> turns that round.\<close>

definition shown_before :: "price_row \<Rightarrow> price_row \<Rightarrow> bool" where
  "shown_before a b \<longleftrightarrow> tf_display_order a < tf_display_order b
     \<or> tf_display_order a = tf_display_order b \<and> tf_created_at a < tf_created_at b"

definition active_first :: "price_row \<Rightarrow> price_row \<Rightarrow> bool" where
  "active_first a b \<longleftrightarrow> tf_is_active a \<and> \<not> tf_is_active b \<or> tf_is_active a = tf_is_active b \<and> shown_before a b"

definition archived_last :: "price_row \<Rightarrow> price_row \<Rightarrow> bool" where
  "archived_last a b \<longleftrightarrow>
     (case (tf_deleted_at a, tf_deleted_at b) of
        (None, Some _) \<Rightarrow> True
      | (Some _, None) \<Rightarrow> False
      | (Some x, Some y) \<Rightarrow> x < y \<or> x = y \<and> active_first a b
      | (None, None) \<Rightarrow> active_first a b)"

definition listAllTariffs :: "bool \<Rightarrow> school \<Rightarrow> tariff_item list" where
  "listAllTariffs includeArchived S =
     map rowToTariff (order_by active_first (filter (\<lambda>t. includeArchived \<or> tf_deleted_at t = None) (sh_tariffs S)))"

definition listActiveTariffs :: "string option \<Rightarrow> school \<Rightarrow> tariff_item list" where
  "listActiveTariffs teacherId S =
     (case teacherId of
        None \<Rightarrow> map rowToTariff (order_by shown_before (filter (\<lambda>t. tf_is_active t \<and> tf_deleted_at t = None) (sh_tariffs S)))
      | Some i \<Rightarrow>
          if \<not> uuid_pattern i then []
          else map rowToTariff (order_by shown_before
                 (filter (\<lambda>t. tf_is_active t \<and> tf_deleted_at t = None \<and> tf_teacher_id t = pg_uuid i) (sh_tariffs S))))"

definition listTariffsForTeacher :: "string \<Rightarrow> bool \<Rightarrow> school \<Rightarrow> tariff_item list" where
  "listTariffsForTeacher teacherId includeArchived S =
     (if \<not> uuid_pattern teacherId then []
      else map rowToTariff (order_by archived_last
             (filter (\<lambda>t. tf_teacher_id t = pg_uuid teacherId \<and> (includeArchived \<or> tf_deleted_at t = None)) (sh_tariffs S))))"

definition countActiveTariffsForTeacher :: "string \<Rightarrow> school \<Rightarrow> nat" where
  "countActiveTariffsForTeacher teacherId S =
     (if \<not> uuid_pattern teacherId then 0
      else length (filter (\<lambda>t. tf_teacher_id t = pg_uuid teacherId \<and> tf_deleted_at t = None) (sh_tariffs S)))"

definition uuid_param :: "string \<Rightarrow> exn + uuid" where
  "uuid_param s = (if uuid_pattern s then Inr (pg_uuid s) else Inl (PgErr InvalidUuidText))"

definition getTariffById :: "string \<Rightarrow> school \<Rightarrow> exn + tariff_item option" where
  "getTariffById i S = bindR (uuid_param i) (\<lambda>k. Inr (map_option rowToTariff (tariff_of S k)))"

text \<open>The tariff with this id of this teacher, not archived unless archived ones are asked for.\<close>

definition own_tariff :: "school \<Rightarrow> uuid \<Rightarrow> uuid \<Rightarrow> bool \<Rightarrow> price_row option" where
  "own_tariff S i teacher archived =
     (case tariff_of S i of
        None \<Rightarrow> None
      | Some t \<Rightarrow> if tf_teacher_id t = teacher \<and> (archived \<or> tf_deleted_at t = None) then Some t else None)"

definition getTariffForTeacher :: "string \<Rightarrow> string \<Rightarrow> bool \<Rightarrow> school \<Rightarrow> tariff_item option" where
  "getTariffForTeacher i teacherId includeArchived S =
     (if \<not> uuid_pattern i \<or> \<not> uuid_pattern teacherId then None
      else map_option rowToTariff (own_tariff S (pg_uuid i) (pg_uuid teacherId) includeArchived))"

section \<open>Writing\<close>

text \<open>The CHECK constraints of the table.\<close>

definition price_row_check :: "price_row \<Rightarrow> bool" where
  "price_row_check t \<longleftrightarrow> slug_ok (tf_slug t)
     \<and> 1 \<le> sql_char_length (tf_title_ru t) \<and> sql_char_length (tf_title_ru t) \<le> 120
     \<and> 100 \<le> tf_amount_kopecks t \<and> tf_amount_kopecks t \<le> 100000000
     \<and> 15 \<le> tf_duration_minutes t \<and> tf_duration_minutes t \<le> 240 \<and> tf_currency t = ''RUB''"

definition pg_int4 :: "js_num \<Rightarrow> exn + int" where
  "pg_int4 n =
     (case n of
        JsNonInt \<Rightarrow> Inl (PgErr (RaisedException ''22P02''))
      | JsInt k \<Rightarrow> if - 2147483648 \<le> k \<and> k \<le> 2147483647 then Inr k else Inl (PgErr (RaisedException ''22003'')))"

definition insert_tariff :: "price_row \<Rightarrow> school \<Rightarrow> exn + tariff_item \<times> school" where
  "insert_tariff row S =
     (if \<not> price_row_check row then Inl (PgErr CheckViolation)
      else if tariff_of S (tf_id row) \<noteq> None \<or> find_by tf_slug (tf_slug row) (sh_tariffs S) \<noteq> None then Inl (PgErr UniqueViolation)
      else if \<not> has_account (sh_auth S) (tf_teacher_id row) then Inl (PgErr ForeignKeyViolation)
      else Inr (rowToTariff row, S\<lparr>sh_tariffs := sh_tariffs S @ [row]\<rparr>))"

definition input_as_patch :: "tariff_input \<Rightarrow> tariff_patch" where
  "input_as_patch input = \<lparr>tq_slug = Some (Some (tn_slug input)), tq_titleRu = Some (Some (tn_titleRu input)),
     tq_descriptionRu = Some (tn_descriptionRu input), tq_amountKopecks = Some (Some (tn_amountKopecks input)),
     tq_durationMinutes = Some (tn_durationMinutes input), tq_isActive = Some (tn_isActive input),
     tq_displayOrder = Some (tn_displayOrder input)\<rparr>"

text \<open>\<open>createTariffForTeacher\<close>, and \<open>createTariff\<close> and the variant inside a caller's transaction, which do the same.\<close>

definition createTariffForTeacher :: "clock \<Rightarrow> uuid \<Rightarrow> string \<Rightarrow> tariff_input \<Rightarrow> school \<Rightarrow> exn + tariff_item \<times> school" where
  "createTariffForTeacher c newId teacherId input S =
     (if \<not> uuid_pattern teacherId then Inl (validation_failed ''teacherId'' ''invalid'')
      else bindR (tariff_input_valid (input_as_patch input)) (\<lambda>_.
        case tn_durationMinutes input of
          Some (JsInt duration) \<Rightarrow>
            bindR (pg_int4 (tn_amountKopecks input)) (\<lambda>amount.
            bindR (pg_int4 (case tn_displayOrder input of Some n \<Rightarrow> n | None \<Rightarrow> JsInt 0)) (\<lambda>order.
              insert_tariff \<lparr>tf_id = newId, tf_slug = tn_slug input, tf_title_ru = js_trim (tn_titleRu input),
                tf_description_ru = tn_descriptionRu input, tf_amount_kopecks = amount, tf_duration_minutes = duration,
                tf_currency = ''RUB'', tf_is_active = (case tn_isActive input of Some b \<Rightarrow> b | None \<Rightarrow> True),
                tf_display_order = order, tf_teacher_id = pg_uuid teacherId, tf_deleted_at = None, tf_visibility = Catalog,
                tf_created_at = pg_now c, tf_updated_at = pg_now c\<rparr> S))
        | _ \<Rightarrow> Inl (validation_failed ''durationMinutes'' ''required_integer'')))"

text \<open>Slots that name a tariff.\<close>

definition referenced :: "school \<Rightarrow> uuid \<Rightarrow> bool" where
  "referenced S i \<longleftrightarrow> list_ex (\<lambda>s. ls_tariff_id s = Some i) (lesson_slots (sh_db S))"

text \<open>The friendly check before an update: a changed price or length of a tariff that a slot names.\<close>

definition frozen_check :: "string \<Rightarrow> (price_row \<Rightarrow> int) \<Rightarrow> js_num option \<Rightarrow> uuid \<Rightarrow> school \<Rightarrow> exn + unit" where
  "frozen_check field current new i S =
     (case new of
        None \<Rightarrow> Inr ()
      | Some n \<Rightarrow>
          if referenced S i \<and> (case tariff_of S i of None \<Rightarrow> False | Some t \<Rightarrow> n \<noteq> JsInt (current t))
          then Inl (validation_failed field ''immutable_after_first_slot_reference'') else Inr ())"

text \<open>\<open>case when present then value else column end\<close>.\<close>

definition set_column :: "'a option option \<Rightarrow> 'a \<Rightarrow> exn + 'a" where
  "set_column p old = (case p of None \<Rightarrow> Inr old | Some None \<Rightarrow> Inl (PgErr NotNullViolation) | Some (Some v) \<Rightarrow> Inr v)"

definition set_int :: "js_num option option \<Rightarrow> int \<Rightarrow> exn + int" where
  "set_int p old = bindR (set_column p (JsInt old)) pg_int4"

definition patched_row :: "clock \<Rightarrow> tariff_patch \<Rightarrow> price_row \<Rightarrow> exn + price_row" where
  "patched_row c p t =
     bindR (set_column (tq_slug p) (tf_slug t)) (\<lambda>slug.
     bindR (set_column (map_option (map_option js_trim) (tq_titleRu p)) (tf_title_ru t)) (\<lambda>title.
     bindR (set_int (tq_amountKopecks p) (tf_amount_kopecks t)) (\<lambda>amount.
     bindR (set_column (tq_isActive p) (tf_is_active t)) (\<lambda>active.
     bindR (set_int (tq_displayOrder p) (tf_display_order t)) (\<lambda>order.
     bindR (set_int (tq_durationMinutes p) (tf_duration_minutes t)) (\<lambda>duration.
       Inr (t\<lparr>tf_slug := slug, tf_title_ru := title,
              tf_description_ru := (case tq_descriptionRu p of None \<Rightarrow> tf_description_ru t | Some d \<Rightarrow> d),
              tf_amount_kopecks := amount, tf_is_active := active, tf_display_order := order,
              tf_duration_minutes := duration, tf_updated_at := pg_now c\<rparr>)))))))"

text \<open>\<open>update pricing_tariffs .. where\<close> of one row, with both triggers, the CHECK constraints and the unique index.\<close>

definition pg_update_tariff :: "(price_row \<Rightarrow> exn + price_row) \<Rightarrow> price_row \<Rightarrow> school \<Rightarrow> exn + tariff_item \<times> school" where
  "pg_update_tariff f t S =
     bindR (f t) (\<lambda>t'.
       if (tf_amount_kopecks t' \<noteq> tf_amount_kopecks t \<or> tf_duration_minutes t' \<noteq> tf_duration_minutes t) \<and> referenced S (tf_id t)
       then Inl (PgErr CheckViolation)
       else if \<not> price_row_check t' then Inl (PgErr CheckViolation)
       else if list_ex (\<lambda>x. tf_id x \<noteq> tf_id t \<and> tf_slug x = tf_slug t') (sh_tariffs S) then Inl (PgErr UniqueViolation)
       else Inr (rowToTariff t', S\<lparr>sh_tariffs := replace_row tf_id t' (sh_tariffs S)\<rparr>))"

definition frozen_checks :: "tariff_patch \<Rightarrow> uuid \<Rightarrow> school \<Rightarrow> exn + unit" where
  "frozen_checks p i S =
     bindR (frozen_check ''amountKopecks'' tf_amount_kopecks (given (tq_amountKopecks p)) i S)
       (\<lambda>_. frozen_check ''durationMinutes'' tf_duration_minutes (given (tq_durationMinutes p)) i S)"

definition updateTariff :: "clock \<Rightarrow> string \<Rightarrow> tariff_patch \<Rightarrow> school \<Rightarrow> exn + tariff_item option \<times> school" where
  "updateTariff c i p S =
     bindR (tariff_input_valid p) (\<lambda>_. bindR (uuid_param i) (\<lambda>k. bindR (frozen_checks p k S) (\<lambda>_.
       case tariff_of S k of
         None \<Rightarrow> Inr (None, S)
       | Some t \<Rightarrow> bindR (pg_update_tariff (patched_row c p) t S) (\<lambda>(r, S'). Inr (Some r, S')))))"

definition updateTariffForTeacher :: "clock \<Rightarrow> string \<Rightarrow> string \<Rightarrow> tariff_patch \<Rightarrow> school \<Rightarrow> exn + tariff_item option \<times> school" where
  "updateTariffForTeacher c i teacherId p S =
     (if \<not> uuid_pattern i \<or> \<not> uuid_pattern teacherId then Inr (None, S)
      else bindR (tariff_input_valid p) (\<lambda>_.
        case own_tariff S (pg_uuid i) (pg_uuid teacherId) False of
          None \<Rightarrow> Inr (None, S)
        | Some t \<Rightarrow> bindR (frozen_checks p (pg_uuid i) S) (\<lambda>_.
            bindR (pg_update_tariff (patched_row c p) t S) (\<lambda>(r, S'). Inr (Some r, S')))))"

text \<open>Archiving; \<open>None\<close> is \<open>not_found\<close>.\<close>

definition archived_row :: "clock \<Rightarrow> price_row \<Rightarrow> exn + price_row" where
  "archived_row c t = Inr (t\<lparr>tf_deleted_at := Some (pg_now c), tf_is_active := False, tf_updated_at := pg_now c\<rparr>)"

definition softDeleteTariffForTeacher :: "clock \<Rightarrow> string \<Rightarrow> string \<Rightarrow> school \<Rightarrow> exn + tariff_item option \<times> school" where
  "softDeleteTariffForTeacher c i teacherId S =
     (if \<not> uuid_pattern i \<or> \<not> uuid_pattern teacherId then Inr (None, S)
      else case own_tariff S (pg_uuid i) (pg_uuid teacherId) False of
        None \<Rightarrow> Inr (None, S)
      | Some t \<Rightarrow> bindR (pg_update_tariff (archived_row c) t S) (\<lambda>(r, S'). Inr (Some r, S')))"

text \<open>Deleting for good; who was granted the tariff loses the row with it (\<open>on delete cascade\<close>).\<close>

datatype delete_verdict = DeleteNotFound | DeleteHasSlots nat | Deleted tariff_item

definition deleteTariffIfUnreferenced :: "string \<Rightarrow> school \<Rightarrow> exn + delete_verdict \<times> school" where
  "deleteTariffIfUnreferenced i S =
     bindR (uuid_param i) (\<lambda>k.
       case tariff_of S k of
         None \<Rightarrow> Inr (DeleteNotFound, S)
       | Some t \<Rightarrow>
           let n = length (filter (\<lambda>s. ls_tariff_id s = Some k) (lesson_slots (sh_db S))) in
           if n > 0 then Inr (DeleteHasSlots n, S)
           else Inr (Deleted (rowToTariff t),
             S\<lparr>sh_tariffs := filter (\<lambda>x. tf_id x \<noteq> k) (sh_tariffs S),
               sh_tariff_access := filter (\<lambda>a. aw_offer_id a \<noteq> k) (sh_tariff_access S)\<rparr>))"

section \<open>What stays true of tariffs\<close>

text \<open>The table as its types and constraints want it.\<close>

definition tariffs_typed :: "school \<Rightarrow> bool" where
  "tariffs_typed S \<longleftrightarrow> distinct (map tf_id (sh_tariffs S)) \<and> distinct (map tf_slug (sh_tariffs S))
     \<and> list_all price_row_check (sh_tariffs S) \<and> (\<forall>i. referenced S i \<longrightarrow> tariff_of S i \<noteq> None)"

text \<open>
  The steps: every operation on tariffs, and anything else that happens to the rest, of which only this matters: it
  writes no row of tariffs, and the foreign key of the slots holds, that is, what a slot names exists. A slot may stop
  naming a tariff: an open slot can be deleted (\<open>deleting_a_slot_is_a_step\<close>).
\<close>

inductive tariff_step :: "school \<Rightarrow> school \<Rightarrow> bool" where
  step_createTariff: "createTariffForTeacher c i teacher input S = Inr (r, S') \<Longrightarrow> tariff_step S S'"
| step_updateTariff: "updateTariff c i p S = Inr (ro, S') \<Longrightarrow> tariff_step S S'"
| step_updateTariffForTeacher: "updateTariffForTeacher c i teacher p S = Inr (ro, S') \<Longrightarrow> tariff_step S S'"
| step_softDeleteTariff: "softDeleteTariffForTeacher c i teacher S = Inr (ro, S') \<Longrightarrow> tariff_step S S'"
| step_deleteTariff: "deleteTariffIfUnreferenced i S = Inr (v, S') \<Longrightarrow> tariff_step S S'"
| step_elsewhere: "sh_tariffs S' = sh_tariffs S \<Longrightarrow> (\<And>k. referenced S' k \<Longrightarrow> tariff_of S k \<noteq> None) \<Longrightarrow> tariff_step S S'"

lemma deleting_a_slot_is_a_step:
  assumes "deleteOpenSlot slotId (booking_view S) = Inr (v, d')" and "tariffs_typed S"
  shows "tariff_step S (S\<lparr>sh_db := d'\<rparr>)"
proof (rule step_elsewhere)
  have "set (lesson_slots d') \<subseteq> set (lesson_slots (sh_db S))"
    using assms(1) by (auto simp: deleteOpenSlot_def pg_delete_slot_def bindR_eq_Inr_iff split: if_splits option.splits)
  then show "tariff_of S k \<noteq> None" if "referenced (S\<lparr>sh_db := d'\<rparr>) k" for k
    using that assms(2) by (auto simp: referenced_def tariffs_typed_def list_ex_iff)
qed simp

text \<open>The same price, length and teacher of one tariff in two states.\<close>

definition same_terms :: "uuid \<Rightarrow> school \<Rightarrow> school \<Rightarrow> bool" where
  "same_terms i S S' \<longleftrightarrow> (\<forall>t. tariff_of S i = Some t \<longrightarrow>
     (\<exists>t'. tariff_of S' i = Some t' \<and> tf_amount_kopecks t' = tf_amount_kopecks t
       \<and> tf_duration_minutes t' = tf_duration_minutes t \<and> tf_teacher_id t' = tf_teacher_id t))"

lemma same_terms_refl: "same_terms i S S"
  by (simp add: same_terms_def)

lemma same_terms_trans: "same_terms i S T \<Longrightarrow> same_terms i T U \<Longrightarrow> same_terms i S U"
  unfolding same_terms_def by metis

text \<open>A step keeps the terms of what slots name before it.\<close>

definition terms_kept :: "school \<Rightarrow> school \<Rightarrow> bool" where
  "terms_kept S S' \<longleftrightarrow> (\<forall>i. referenced S i \<longrightarrow> same_terms i S S')"

lemma terms_kept_refl: "terms_kept S S"
  by (simp add: terms_kept_def same_terms_refl)

text \<open>A stretch in which a slot names the tariff before every step.\<close>

definition named_run :: "uuid \<Rightarrow> school \<Rightarrow> school \<Rightarrow> bool" where
  "named_run i = (\<lambda>A B. tariff_step A B \<and> referenced A i)\<^sup>*\<^sup>*"

lemma referenced_frame: "sh_db S' = sh_db S \<Longrightarrow> referenced S' i = referenced S i"
  by (simp add: referenced_def)

lemma insert_tariff_typed:
  assumes "insert_tariff row S = Inr (r, S')" and "tariffs_typed S"
  shows "tariffs_typed S' \<and> terms_kept S S'"
proof -
  have row: "price_row_check row" "tariff_of S (tf_id row) = None" "find_by tf_slug (tf_slug row) (sh_tariffs S) = None"
      and S': "S' = S\<lparr>sh_tariffs := sh_tariffs S @ [row]\<rparr>"
    using assms(1) by (auto simp: insert_tariff_def split: if_splits)
  have kept: "tariff_of S i = Some t \<Longrightarrow> tariff_of S' i = Some t" for i t
    by (simp add: S' tariff_of_def find_by_append)
  have "referenced S' i = referenced S i" for i by (simp add: S' referenced_def)
  then show ?thesis
    using assms(2) row kept by (auto simp: tariffs_typed_def terms_kept_def same_terms_def S' tariff_of_def find_by_None_iff find_by_append split: option.split)
qed

lemma pg_update_tariff_typed:
  assumes run: "pg_update_tariff f t S = Inr (r, S')" and "tariffs_typed S" and t: "tariff_of S i = Some t"
    and f: "\<And>t'. f t = Inr t' \<Longrightarrow> tf_id t' = tf_id t \<and> tf_teacher_id t' = tf_teacher_id t"
  shows "tariffs_typed S' \<and> terms_kept S S'"
proof -
  obtain t' where t': "f t = Inr t'" "S' = S\<lparr>sh_tariffs := replace_row tf_id t' (sh_tariffs S)\<rparr>" "price_row_check t'"
      and terms: "referenced S (tf_id t) \<longrightarrow> tf_amount_kopecks t' = tf_amount_kopecks t \<and> tf_duration_minutes t' = tf_duration_minutes t"
      and slug: "\<forall>x \<in> set (sh_tariffs S). tf_id x \<noteq> tf_id t \<longrightarrow> tf_slug x \<noteq> tf_slug t'"
    using run by (auto simp: pg_update_tariff_def bindR_eq_Inr_iff list_ex_iff split: if_splits)
  note id = f [OF t'(1)]
  have mem: "t \<in> set (sh_tariffs S)" "tf_id t = i" using t find_by_SomeD unfolding tariff_of_def by fast+
  have find: "tariff_of S' k = (if k = i then Some t' else tariff_of S k)" for k
    using t id mem(2) by (auto simp: t'(2) tariff_of_def tbl_simps)
  have ids: "map tf_id (sh_tariffs S') = map tf_id (sh_tariffs S)" by (simp add: t'(2) tbl_simps)
  have set: "set (sh_tariffs S') = insert t' {x \<in> set (sh_tariffs S). tf_id x \<noteq> tf_id t}"
    using set_replace_row_eq [of tf_id t' "sh_tariffs S"] id mem by (force simp: t'(2))
  have slugs: "distinct (map tf_slug (sh_tariffs S'))"
  proof -
    have inj: "distinct (map tf_id (sh_tariffs S'))" "inj_on tf_slug (set (sh_tariffs S))"
      using assms(2) ids by (simp_all add: tariffs_typed_def distinct_map)
    have "inj_on tf_slug (set (sh_tariffs S'))"
      unfolding set using inj(2) slug by (auto simp: inj_on_def)
    then show ?thesis using inj(1) by (simp add: distinct_map)
  qed
  have ref: "referenced S' k = referenced S k" for k by (simp add: t'(2) referenced_def)
  have "tariffs_typed S'"
    using assms(2) t'(3) slugs ids find ref by (auto simp: tariffs_typed_def list_all_iff set)
  moreover have "terms_kept S S'"
    unfolding terms_kept_def same_terms_def using find terms id mem t by auto
  ultimately show ?thesis by blast
qed

lemma patched_row_keeps: "patched_row c p t = Inr t' \<Longrightarrow> tf_id t' = tf_id t \<and> tf_teacher_id t' = tf_teacher_id t"
  by (auto simp: patched_row_def bindR_eq_Inr_iff)

lemma archived_row_keeps: "archived_row c t = Inr t' \<Longrightarrow> tf_id t' = tf_id t \<and> tf_teacher_id t' = tf_teacher_id t"
  by (auto simp: archived_row_def)

lemma own_tariff_found: "own_tariff S i teacher a = Some t \<Longrightarrow> tariff_of S i = Some t"
  by (auto simp: own_tariff_def split: option.splits if_splits)

lemma delete_tariff_typed:
  assumes "deleteTariffIfUnreferenced i S = Inr (v, S')" and "tariffs_typed S"
  shows "tariffs_typed S' \<and> terms_kept S S'"
proof (cases "S' = S")
  case True
  then show ?thesis using assms(2) terms_kept_refl by simp
next
  case False
  then obtain k where un: "filter (\<lambda>s. ls_tariff_id s = Some k) (lesson_slots (sh_db S)) = []"
      and S': "S' = S\<lparr>sh_tariffs := filter (\<lambda>x. tf_id x \<noteq> k) (sh_tariffs S),
               sh_tariff_access := filter (\<lambda>a. aw_offer_id a \<noteq> k) (sh_tariff_access S)\<rparr>"
    using assms(1) by (auto simp: deleteTariffIfUnreferenced_def Let_def bindR_eq_Inr_iff split: option.splits if_splits)
  have k: "\<not> referenced S k" using un by (simp add: referenced_def list_ex_iff filter_empty_conv)
  have find: "j \<noteq> k \<Longrightarrow> tariff_of S' j = tariff_of S j" for j
  proof -
    have "j \<noteq> k \<Longrightarrow> find_by tf_id j (filter (\<lambda>x. tf_id x \<noteq> k) rows) = find_by tf_id j rows" for rows
      by (induction rows) (auto simp: find_by_def)
    then show "j \<noteq> k \<Longrightarrow> tariff_of S' j = tariff_of S j" by (simp add: S' tariff_of_def)
  qed
  have ref: "referenced S' j = referenced S j" for j by (simp add: S' referenced_def)
  have "distinct (map tf_id (sh_tariffs S'))" "distinct (map tf_slug (sh_tariffs S'))" "list_all price_row_check (sh_tariffs S')"
    using assms(2) by (auto simp: S' tariffs_typed_def distinct_map_filter list_all_iff)
  moreover have "tariff_of S' j \<noteq> None" if "referenced S' j" for j
    using that assms(2) find [of j] k ref by (cases "j = k") (auto simp: tariffs_typed_def)
  ultimately have "tariffs_typed S'" by (simp add: tariffs_typed_def)
  moreover have "terms_kept S S'"
    unfolding terms_kept_def same_terms_def
  proof (intro allI impI)
    fix j t assume j: "referenced S j" "tariff_of S j = Some t"
    then have "j \<noteq> k" using k by auto
    then show "\<exists>t'. tariff_of S' j = Some t' \<and> tf_amount_kopecks t' = tf_amount_kopecks t
       \<and> tf_duration_minutes t' = tf_duration_minutes t \<and> tf_teacher_id t' = tf_teacher_id t" using j find by auto
  qed
  ultimately show ?thesis by blast
qed

lemma tariff_step_typed:
  assumes "tariff_step S S'" and ok: "tariffs_typed S"
  shows "tariffs_typed S' \<and> terms_kept S S'"
  using assms(1)
proof (cases rule: tariff_step.cases)
  case (step_createTariff c i teacher input r)
  then show ?thesis using insert_tariff_typed [OF _ ok]
    by (auto simp: createTariffForTeacher_def bindR_eq_Inr_iff split: if_splits option.splits js_num.splits)
next
  case (step_updateTariff c i p ro)
  then show ?thesis using pg_update_tariff_typed [OF _ ok] patched_row_keeps ok terms_kept_refl
    by (auto simp: updateTariff_def bindR_eq_Inr_iff split: option.splits)
next
  case (step_updateTariffForTeacher c i teacher p ro)
  then show ?thesis using pg_update_tariff_typed [OF _ ok own_tariff_found] patched_row_keeps ok terms_kept_refl
    by (auto simp: updateTariffForTeacher_def bindR_eq_Inr_iff split: option.splits if_splits)
next
  case (step_softDeleteTariff c i teacher ro)
  then show ?thesis using pg_update_tariff_typed [OF _ ok own_tariff_found] archived_row_keeps ok terms_kept_refl
    by (auto simp: softDeleteTariffForTeacher_def bindR_eq_Inr_iff split: option.splits if_splits)
next
  case (step_deleteTariff i v)
  then show ?thesis using delete_tariff_typed ok by blast
next
  case step_elsewhere
  then show ?thesis using ok by (auto simp: tariffs_typed_def terms_kept_def same_terms_def tariff_of_def)
qed

interpretation tariffs: kept_by_steps tariff_step tariffs_typed
  by unfold_locales (use tariff_step_typed in blast)

interpretation named_tariff: kept_by_steps "\<lambda>A B. tariff_step A B \<and> referenced A i" "\<lambda>S. tariffs_typed S \<and> same_terms i S0 S" for i S0
  by unfold_locales (use tariff_step_typed same_terms_trans in \<open>unfold terms_kept_def, blast\<close>)

text \<open>
  C29: in every state that any sequence of steps leads to, the table is as its types and constraints want it (ids and
  slugs unique, every price and length in its band, every tariff that a slot names still there). And along every stretch
  in which some slot names a tariff, its price, its length and its teacher stay what they were at its beginning; once
  the last slot that names it is gone they may change.
\<close>

theorem tariffs_stay_typed:
  assumes "tariff_step\<^sup>*\<^sup>* S S'" and "tariffs_typed S"
  shows "tariffs_typed S' \<and> (\<forall>i. named_run i S S' \<longrightarrow> same_terms i S S')"
proof -
  have "same_terms i S S'" if "named_run i S S'" for i
    using named_tariff.run_good [OF that [unfolded named_run_def], of S] assms(2) same_terms_refl by blast
  then show ?thesis using tariffs.run_good [OF assms] by blast
qed

definition sample_tariff :: price_row where
  "sample_tariff = \<lparr>tf_id = uuid_of CHR ''7'', tf_slug = js ''hour'', tf_title_ru = js ''Hour'', tf_description_ru = None,
     tf_amount_kopecks = 150000, tf_duration_minutes = 60, tf_currency = ''RUB'', tf_is_active = True, tf_display_order = 0,
     tf_teacher_id = uuid_of CHR ''c'', tf_deleted_at = None, tf_visibility = Catalog, tf_created_at = 0, tf_updated_at = 0\<rparr>"

definition sample_school :: school where
  "sample_school = \<lparr>sh_auth = sample_auth, sh_db = empty_db, sh_tariffs = [sample_tariff], sh_packages = [],
     sh_tariff_access = [], sh_package_access = [], sh_invites = []\<rparr>"

lemma sample_school_typed: "tariffs_typed sample_school"
  by (simp add: tariffs_typed_def sample_school_def sample_tariff_def price_row_check_def slug_ok_def slug_char_def js_def
      sql_char_length_def referenced_def empty_db_def)

text \<open>The same with an open slot of an hour that names the tariff.\<close>

definition sample_named_school :: school where
  "sample_named_school = sample_school\<lparr>sh_db := empty_db\<lparr>lesson_slots := [sample_slot\<lparr>ls_tariff_id := Some (uuid_of CHR ''7'')\<rparr>]\<rparr>\<rparr>"

lemma tariffs_stay_typed_witness:
  "\<exists>S'. softDeleteTariffForTeacher \<lparr>pg_now = 0, js_now = 0\<rparr> (uuid_of CHR ''7'') (uuid_of CHR ''c'') sample_named_school
       = Inr (Some (rowToTariff (sample_tariff\<lparr>tf_deleted_at := Some 0, tf_is_active := False\<rparr>)), S') \<and> tariffs_typed S'
     \<and> referenced S' (uuid_of CHR ''7'') \<and> same_terms (uuid_of CHR ''7'') sample_named_school S'"
proof -
  let ?t = "sample_tariff\<lparr>tf_deleted_at := Some 0, tf_is_active := False\<rparr>" and ?S = sample_named_school and ?i = "uuid_of CHR ''7''"
  have tabs: "sh_tariffs ?S = [sample_tariff]" "referenced ?S k \<longleftrightarrow> k = ?i" for k
    by (auto simp: sample_named_school_def sample_school_def referenced_def)
  have typed: "tariffs_typed ?S"
    using sample_school_typed
    by (simp add: tariffs_typed_def tabs(2) tariff_of_def find_by_single) (simp add: tabs(1) sample_school_def find_by_single sample_tariff_def)
  have own: "own_tariff ?S ?i (uuid_of CHR ''c'') False = Some sample_tariff"
    by (simp add: own_tariff_def tariff_of_def tabs find_by_single) (simp add: sample_tariff_def)
  have check: "price_row_check ?t"
    by (simp add: sample_tariff_def price_row_check_def slug_ok_def slug_char_def js_def sql_char_length_def)
  have "\<exists>S'. softDeleteTariffForTeacher \<lparr>pg_now = 0, js_now = 0\<rparr> ?i (uuid_of CHR ''c'') ?S = Inr (Some (rowToTariff ?t), S') \<and> sh_db S' = sh_db ?S"
    using own check
    by (simp add: softDeleteTariffForTeacher_def hex_digit_def lower_hex_def pg_update_tariff_def archived_row_def tabs)
       (simp add: sample_tariff_def)
  then obtain S' where run: "softDeleteTariffForTeacher \<lparr>pg_now = 0, js_now = 0\<rparr> ?i (uuid_of CHR ''c'') ?S = Inr (Some (rowToTariff ?t), S')"
      and db: "sh_db S' = sh_db ?S" by blast
  have step: "tariff_step ?S S'" by (rule step_softDeleteTariff [OF run])
  have "named_run ?i ?S S'" unfolding named_run_def using step tabs(2) by blast
  moreover have "referenced S' ?i" using tabs(2) [of ?i] db by (simp add: referenced_def)
  moreover have "tariff_step\<^sup>*\<^sup>* ?S S'" using step by blast
  note tariffs_stay_typed [OF this typed]
  ultimately show ?thesis using run by blast
qed

end
