(* ===== verification/Roster.thy ===== *)
theory Roster
  imports Tariffs Subscription
begin

text \<open>
  Who may use which offer: the package catalogue (\<open>src/lib/billing/packages/catalog.ts\<close>), the access of a learner to
  single tariffs and packages (\<open>src/lib/billing/learner-tariff-access.ts\<close>, \<open>learner-package-access.ts\<close>, with the
  triggers of \<open>src/migrations/0102\<close>), and what teacher and learner do to their link: the private note
  (\<open>src/lib/learners/teacher-note.ts\<close>) and leaving (\<open>src/app/api/cabinet/links/[teacherId]/unlink\<close>).
\<close>

section \<open>The package catalogue\<close>

record catalogue_package =
  kv_id :: uuid
  kv_slug :: js_text
  kv_titleRu :: js_text
  kv_descriptionRu :: "js_text option"
  kv_durationMinutes :: int
  kv_count :: int
  kv_amountKopecks :: int
  kv_isActive :: bool
  kv_displayOrder :: int
  kv_teacherId :: uuid
  kv_visibility :: visibility
  kv_deletedAt :: "millis option"
  kv_createdAt :: millis
  kv_updatedAt :: millis

definition rowToPackage :: "bundle_row \<Rightarrow> catalogue_package" where
  "rowToPackage r = \<lparr>kv_id = ki_id r, kv_slug = ki_slug r, kv_titleRu = ki_title_ru r,
     kv_descriptionRu = (if ki_description_ru r = Some [] then None else ki_description_ru r),
     kv_durationMinutes = ki_duration_minutes r, kv_count = ki_count r, kv_amountKopecks = ki_amount_kopecks r,
     kv_isActive = ki_is_active r, kv_displayOrder = ki_display_order r, kv_teacherId = ki_teacher_id r,
     kv_visibility = ki_visibility r, kv_deletedAt = map_option js_date_via_string (ki_deleted_at r),
     kv_createdAt = js_date_via_string (ki_created_at r), kv_updatedAt = js_date_via_string (ki_updated_at r)\<rparr>"

definition bundle_of :: "school \<Rightarrow> uuid \<Rightarrow> bundle_row option" where
  "bundle_of S i = find_by ki_id i (sh_packages S)"

definition bundle_before :: "bundle_row \<Rightarrow> bundle_row \<Rightarrow> bool" where
  "bundle_before a b \<longleftrightarrow> ki_display_order a < ki_display_order b
     \<or> ki_display_order a = ki_display_order b \<and> ki_id a < ki_id b"

definition linked :: "auth_db \<Rightarrow> uuid \<Rightarrow> uuid \<Rightarrow> bool" where
  "linked d teacher learner \<longleftrightarrow>
     list_ex (\<lambda>l. lk_teacher l = teacher \<and> lk_learner l = learner \<and> lk_unlinked_at l = None) (ad_links d)"

definition sells_packages :: "sub_row list \<Rightarrow> uuid \<Rightarrow> bool" where
  "sells_packages subs teacher \<longleftrightarrow>
     list_ex (\<lambda>s. sb_account_id s = teacher \<and> sb_plan_slug s = js ''operator-managed'' \<and> sb_state s = SubActive) subs"

definition granted_package :: "school \<Rightarrow> uuid \<Rightarrow> uuid \<Rightarrow> bool" where
  "granted_package S package learner \<longleftrightarrow>
     list_ex (\<lambda>a. aw_offer_id a = package \<and> aw_learner_account_id a = learner \<and> aw_revoked_at a = None) (sh_package_access S)"

definition on_sale :: "sub_row list \<Rightarrow> bundle_row \<Rightarrow> bool" where
  "on_sale subs p \<longleftrightarrow> ki_is_active p \<and> ki_deleted_at p = None \<and> sells_packages subs (ki_teacher_id p)"

definition listActivePackages :: "sub_row list \<Rightarrow> uuid option \<Rightarrow> school \<Rightarrow> catalogue_package list" where
  "listActivePackages subs viewer S =
     map rowToPackage (order_by bundle_before (filter (\<lambda>p. on_sale subs p
       \<and> (case viewer of
            None \<Rightarrow> ki_visibility p = Catalog
          | Some v \<Rightarrow> linked (sh_auth S) (ki_teacher_id p) v
              \<and> (ki_visibility p = Catalog \<or> ki_visibility p = Private \<and> granted_package S (ki_id p) v))) (sh_packages S)))"

definition listActivePackagesByDuration ::
  "sub_row list \<Rightarrow> int \<Rightarrow> int \<Rightarrow> uuid option \<Rightarrow> uuid option \<Rightarrow> school \<Rightarrow> catalogue_package list" where
  "listActivePackagesByDuration subs duration limit teacher viewer S =
     take (nat (min (max limit 1) 20)) (map rowToPackage (order_by bundle_before (filter (\<lambda>p. on_sale subs p
       \<and> ki_duration_minutes p = duration
       \<and> (case teacher of None \<Rightarrow> True | Some t \<Rightarrow> ki_teacher_id p = t)
       \<and> (ki_visibility p = Catalog
          \<or> ki_visibility p = Private \<and> (case viewer of None \<Rightarrow> False | Some v \<Rightarrow> granted_package S (ki_id p) v))) (sh_packages S))))"

definition countPackagesBySlug :: "js_text \<Rightarrow> school \<Rightarrow> nat" where
  "countPackagesBySlug slug S = length (filter (\<lambda>p. ki_slug p = slug) (sh_packages S))"

definition getPackageBySlugForTeacher :: "uuid \<Rightarrow> js_text \<Rightarrow> school \<Rightarrow> catalogue_package option" where
  "getPackageBySlugForTeacher teacher slug S =
     map_option rowToPackage (find_by (\<lambda>p. (ki_teacher_id p, ki_slug p)) (teacher, slug) (sh_packages S))"

definition bundle_listed_before :: "bundle_row \<Rightarrow> bundle_row \<Rightarrow> bool" where
  "bundle_listed_before a b \<longleftrightarrow> ki_is_active a \<and> \<not> ki_is_active b \<or> ki_is_active a = ki_is_active b \<and> bundle_before a b"

definition listPackagesByTeacher :: "uuid \<Rightarrow> school \<Rightarrow> catalogue_package list" where
  "listPackagesByTeacher teacher S =
     map rowToPackage (order_by bundle_listed_before (filter (\<lambda>p. ki_teacher_id p = teacher) (sh_packages S)))"

definition countActivePackagesByTeacher :: "uuid \<Rightarrow> school \<Rightarrow> nat" where
  "countActivePackagesByTeacher teacher S =
     length (filter (\<lambda>p. ki_teacher_id p = teacher \<and> ki_is_active p \<and> ki_deleted_at p = None) (sh_packages S))"

text \<open>Creating, with the owner given; the values have been looked at by the caller, the constraints are the table's.\<close>

record package_input =
  kn_slug :: js_text
  kn_titleRu :: js_text
  kn_descriptionRu :: "js_text option"
  kn_durationMinutes :: js_num
  kn_count :: js_num
  kn_amountKopecks :: js_num
  kn_isActive :: "bool option"
  kn_displayOrder :: "js_num option"
  kn_teacherId :: uuid

definition bundle_row_check :: "bundle_row \<Rightarrow> bool" where
  "bundle_row_check p \<longleftrightarrow> 15 \<le> ki_duration_minutes p \<and> ki_duration_minutes p \<le> 180 \<and> 1 \<le> ki_count p \<and> ki_count p \<le> 100
     \<and> 100 \<le> ki_amount_kopecks p \<and> ki_amount_kopecks p \<le> 100000000 \<and> ki_currency p = ''RUB''"

definition createPackageTx :: "clock \<Rightarrow> uuid \<Rightarrow> package_input \<Rightarrow> school \<Rightarrow> exn + catalogue_package \<times> school" where
  "createPackageTx c newId input S =
     bindR (pg_int4 (kn_durationMinutes input)) (\<lambda>duration.
     bindR (pg_int4 (kn_count input)) (\<lambda>count.
     bindR (pg_int4 (kn_amountKopecks input)) (\<lambda>amount.
     bindR (pg_int4 (case kn_displayOrder input of Some n \<Rightarrow> n | None \<Rightarrow> JsInt 100)) (\<lambda>order.
       let row = \<lparr>ki_id = newId, ki_slug = kn_slug input, ki_title_ru = kn_titleRu input,
             ki_description_ru = kn_descriptionRu input, ki_duration_minutes = duration, ki_count = count,
             ki_amount_kopecks = amount, ki_currency = ''RUB'',
             ki_is_active = (case kn_isActive input of Some b \<Rightarrow> b | None \<Rightarrow> True), ki_display_order = order,
             ki_teacher_id = kn_teacherId input, ki_visibility = Catalog, ki_deleted_at = None,
             ki_created_at = pg_now c, ki_updated_at = pg_now c\<rparr> in
       if \<not> bundle_row_check row then Inl (PgErr CheckViolation)
       else if bundle_of S newId \<noteq> None
            \<or> find_by (\<lambda>p. (ki_teacher_id p, ki_slug p)) (kn_teacherId input, kn_slug input) (sh_packages S) \<noteq> None
       then Inl (PgErr UniqueViolation)
       else if \<not> has_account (sh_auth S) (kn_teacherId input) then Inl (PgErr ForeignKeyViolation)
       else Inr (rowToPackage row, S\<lparr>sh_packages := sh_packages S @ [row]\<rparr>)))))"

record package_patch =
  kq_titleRu :: "js_text option"
  kq_descriptionRu :: "js_text option option"
  kq_isActive :: "bool option"
  kq_displayOrder :: "js_num option"

definition updatePackageMetadata :: "clock \<Rightarrow> string \<Rightarrow> package_patch \<Rightarrow> school \<Rightarrow> exn + catalogue_package option \<times> school" where
  "updatePackageMetadata c i p S =
     bindR (uuid_param i) (\<lambda>k.
       if kq_titleRu p = None \<and> kq_descriptionRu p = None \<and> kq_isActive p = None \<and> kq_displayOrder p = None
       then Inr (map_option rowToPackage (bundle_of S k), S)
       else bindR (case kq_displayOrder p of None \<Rightarrow> Inr None | Some n \<Rightarrow> bindR (pg_int4 n) (\<lambda>v. Inr (Some v))) (\<lambda>order.
         case bundle_of S k of
           None \<Rightarrow> Inr (None, S)
         | Some r \<Rightarrow>
             let r' = r\<lparr>ki_title_ru := coalesce (kq_titleRu p) (ki_title_ru r),
                        ki_description_ru := coalesce (kq_descriptionRu p) (ki_description_ru r),
                        ki_is_active := coalesce (kq_isActive p) (ki_is_active r),
                        ki_display_order := coalesce order (ki_display_order r), ki_updated_at := pg_now c\<rparr>
             in Inr (Some (rowToPackage r'), S\<lparr>sh_packages := replace_row ki_id r' (sh_packages S)\<rparr>)))"

section \<open>Access to an offer\<close>

record grant_args =
  ga_teacherId :: uuid
  ga_learnerAccountId :: uuid
  ga_offerId :: uuid
  ga_overrideAmountKopecks :: "int option"
  ga_priority :: "int option"
  ga_grantedByAccountId :: "uuid option"

text \<open>
  The triggers \<open>learner_tariff_access_invariants\<close> and \<open>learner_package_access_invariants\<close> with the messages they raise:
  the offer is the teacher's, and, but for a revocation, the pair is linked.
\<close>

definition access_refusal :: "string \<Rightarrow> uuid option \<Rightarrow> uuid \<Rightarrow> uuid \<Rightarrow> uuid \<Rightarrow> bool \<Rightarrow> auth_db \<Rightarrow> string option" where
  "access_refusal noun owner offer teacher learner revoke_only d =
     (case owner of
        None \<Rightarrow> Some (noun @ '' '' @ offer @ '' not found'')
      | Some w \<Rightarrow>
          if w \<noteq> teacher then Some (noun @ '' '' @ offer @ '' owned by '' @ w @ '' not '' @ teacher)
          else if \<not> revoke_only \<and> \<not> linked d teacher learner
          then Some (''no active link teacher='' @ teacher @ '' learner='' @ learner)
          else None)"

definition access_key :: "access_row \<Rightarrow> uuid \<times> uuid \<times> uuid" where
  "access_key a = (aw_teacher_id a, aw_learner_account_id a, aw_offer_id a)"

definition granted_access_row :: "clock \<Rightarrow> grant_args \<Rightarrow> access_row option \<Rightarrow> access_row" where
  "granted_access_row c g old =
     \<lparr>aw_teacher_id = ga_teacherId g, aw_learner_account_id = ga_learnerAccountId g, aw_offer_id = ga_offerId g,
      aw_override_amount_kopecks = ga_overrideAmountKopecks g, aw_priority = coalesce (ga_priority g) 0,
      aw_granted_at = (case old of Some a \<Rightarrow> if aw_revoked_at a \<noteq> None then pg_now c else aw_granted_at a | None \<Rightarrow> pg_now c),
      aw_granted_by_account_id = ga_grantedByAccountId g, aw_revoked_at = None\<rparr>"

text \<open>\<open>insert .. on conflict do update\<close> on an access table.\<close>

definition pg_grant :: "string \<Rightarrow> uuid option \<Rightarrow> clock \<Rightarrow> grant_args \<Rightarrow> auth_db \<Rightarrow> access_row list \<Rightarrow> exn + access_row \<times> access_row list" where
  "pg_grant noun owner c g d rows =
     (case access_refusal noun owner (ga_offerId g) (ga_teacherId g) (ga_learnerAccountId g) False d of
        Some message \<Rightarrow> Inl (PgErr (RaisedException message))
      | None \<Rightarrow>
          let old = find_by access_key (ga_teacherId g, ga_learnerAccountId g, ga_offerId g) rows;
              row = granted_access_row c g old in
          if (case ga_overrideAmountKopecks g of None \<Rightarrow> False | Some n \<Rightarrow> n < 100 \<or> n > 100000000) then Inl (PgErr CheckViolation)
          else if \<not> has_account d (ga_teacherId g) \<or> \<not> has_account d (ga_learnerAccountId g)
               \<or> (case ga_grantedByAccountId g of None \<Rightarrow> False | Some i \<Rightarrow> \<not> has_account d i) then Inl (PgErr ForeignKeyViolation)
          else Inr (row, case old of None \<Rightarrow> rows @ [row] | Some _ \<Rightarrow> replace_row access_key row rows))"

definition grantLearnerTariffAccess :: "clock \<Rightarrow> grant_args \<Rightarrow> school \<Rightarrow> exn + access_row \<times> school" where
  "grantLearnerTariffAccess c g S =
     bindR (pg_grant ''tariff'' (map_option tf_teacher_id (tariff_of S (ga_offerId g))) c (g\<lparr>ga_priority := None\<rparr>)
              (sh_auth S) (sh_tariff_access S))
       (\<lambda>(row, rows). Inr (row, S\<lparr>sh_tariff_access := rows\<rparr>))"

definition grantLearnerPackageAccess :: "clock \<Rightarrow> grant_args \<Rightarrow> school \<Rightarrow> exn + access_row \<times> school" where
  "grantLearnerPackageAccess c g S =
     bindR (pg_grant ''package'' (map_option ki_teacher_id (bundle_of S (ga_offerId g))) c g
              (sh_auth S) (sh_package_access S))
       (\<lambda>(row, rows). Inr (row, S\<lparr>sh_package_access := rows\<rparr>))"

definition pg_revoke ::
  "string \<Rightarrow> uuid option \<Rightarrow> clock \<Rightarrow> uuid \<times> uuid \<times> uuid \<Rightarrow> auth_db \<Rightarrow> access_row list \<Rightarrow> exn + access_row option \<times> access_row list" where
  "pg_revoke noun owner c key d rows =
     (case find_by access_key key rows of
        None \<Rightarrow> Inr (None, rows)
      | Some a \<Rightarrow>
          if aw_revoked_at a \<noteq> None then Inr (None, rows)
          else case access_refusal noun owner (aw_offer_id a) (aw_teacher_id a) (aw_learner_account_id a) True d of
            Some message \<Rightarrow> Inl (PgErr (RaisedException message))
          | None \<Rightarrow> let row = a\<lparr>aw_revoked_at := Some (pg_now c)\<rparr> in Inr (Some row, replace_row access_key row rows))"

definition revokeLearnerTariffAccess :: "clock \<Rightarrow> uuid \<Rightarrow> uuid \<Rightarrow> uuid \<Rightarrow> school \<Rightarrow> exn + access_row option \<times> school" where
  "revokeLearnerTariffAccess c teacher learner tariff S =
     bindR (pg_revoke ''tariff'' (map_option tf_teacher_id (tariff_of S tariff)) c (teacher, learner, tariff)
              (sh_auth S) (sh_tariff_access S))
       (\<lambda>(row, rows). Inr (row, S\<lparr>sh_tariff_access := rows\<rparr>))"

definition revokeLearnerPackageAccess :: "clock \<Rightarrow> uuid \<Rightarrow> uuid \<Rightarrow> uuid \<Rightarrow> school \<Rightarrow> exn + access_row option \<times> school" where
  "revokeLearnerPackageAccess c teacher learner package S =
     bindR (pg_revoke ''package'' (map_option ki_teacher_id (bundle_of S package)) c (teacher, learner, package)
              (sh_auth S) (sh_package_access S))
       (\<lambda>(row, rows). Inr (row, S\<lparr>sh_package_access := rows\<rparr>))"

definition active_access :: "uuid \<Rightarrow> uuid \<Rightarrow> access_row list \<Rightarrow> access_row list" where
  "active_access teacher learner rows =
     order_by (\<lambda>a b. aw_granted_at a < aw_granted_at b)
       (filter (\<lambda>a. aw_teacher_id a = teacher \<and> aw_learner_account_id a = learner \<and> aw_revoked_at a = None) rows)"

definition listActiveTariffAccessForPair :: "uuid \<Rightarrow> uuid \<Rightarrow> school \<Rightarrow> access_row list" where
  "listActiveTariffAccessForPair teacher learner S = active_access teacher learner (sh_tariff_access S)"

definition listActivePackageAccessForPair :: "uuid \<Rightarrow> uuid \<Rightarrow> school \<Rightarrow> access_row list" where
  "listActivePackageAccessForPair teacher learner S = active_access teacher learner (sh_package_access S)"

text \<open>With the title and the price that applies to the learner.\<close>

definition listLearnerTariffAccessByTeacher :: "uuid \<Rightarrow> uuid \<Rightarrow> school \<Rightarrow> (uuid \<times> js_text \<times> int \<times> millis) list" where
  "listLearnerTariffAccessByTeacher teacher learner S =
     List.map_filter (\<lambda>a. case tariff_of S (aw_offer_id a) of
         None \<Rightarrow> None
       | Some t \<Rightarrow> Some (aw_offer_id a, tf_title_ru t, coalesce (aw_override_amount_kopecks a) (tf_amount_kopecks t),
                       js_date (aw_granted_at a)))
       (active_access teacher learner (sh_tariff_access S))"

definition aggregateActiveLearnersByTariff :: "uuid \<Rightarrow> school \<Rightarrow> (uuid \<times> nat) list" where
  "aggregateActiveLearnersByTariff teacher S =
     (let rows = filter (\<lambda>a. aw_teacher_id a = teacher \<and> aw_revoked_at a = None) (sh_tariff_access S) in
      map (\<lambda>t. (t, length (remdups (map aw_learner_account_id (filter (\<lambda>a. aw_offer_id a = t) rows)))))
        (remdups (map aw_offer_id rows)))"

section \<open>The link of a pair\<close>

definition update_link :: "uuid \<Rightarrow> uuid \<Rightarrow> (teacher_link_row \<Rightarrow> teacher_link_row) \<Rightarrow> school \<Rightarrow> school" where
  "update_link teacher learner f S =
     S\<lparr>sh_auth := (sh_auth S)\<lparr>ad_links := map (\<lambda>l. if lk_teacher l = teacher \<and> lk_learner l = learner \<and> lk_unlinked_at l = None
        then f l else l) (ad_links (sh_auth S))\<rparr>\<rparr>"

definition MAX_TEACHER_NOTE_LENGTH :: nat where "MAX_TEACHER_NOTE_LENGTH = 2000"

datatype note_refusal = NoteNotLinked | NoteTooLong

definition own_link :: "uuid \<Rightarrow> uuid \<Rightarrow> school \<Rightarrow> teacher_link_row option" where
  "own_link teacher learner S =
     List.find (\<lambda>l. lk_teacher l = teacher \<and> lk_learner l = learner \<and> lk_unlinked_at l = None) (ad_links (sh_auth S))"

definition getLearnerTeacherNote :: "uuid \<Rightarrow> uuid \<Rightarrow> school \<Rightarrow> note_refusal + js_text option" where
  "getLearnerTeacherNote teacher learner S =
     (case own_link teacher learner S of None \<Rightarrow> Inl NoteNotLinked | Some l \<Rightarrow> Inr (lk_teacher_note l))"

definition upsertLearnerTeacherNote ::
  "uuid \<Rightarrow> uuid \<Rightarrow> js_text option \<Rightarrow> school \<Rightarrow> (note_refusal + js_text option) \<times> school" where
  "upsertLearnerTeacherNote teacher learner note_text S =
     (let trimmed = map_option js_trim note_text;
          normalized = (if trimmed = Some [] then None else trimmed) in
      if (case normalized of None \<Rightarrow> False | Some t \<Rightarrow> length t > MAX_TEACHER_NOTE_LENGTH) then (Inl NoteTooLong, S)
      else if own_link teacher learner S = None then (Inl NoteNotLinked, S)
      else (Inr normalized, update_link teacher learner (\<lambda>l. l\<lparr>lk_teacher_note := normalized\<rparr>) S))"

text \<open>The learner leaves a teacher; the answer is whether there was a link.\<close>

definition unlink_route :: "clock \<Rightarrow> uuid \<Rightarrow> string \<Rightarrow> school \<Rightarrow> bool \<times> school" where
  "unlink_route c learner teacherId S =
     (if \<not> uuid_pattern teacherId then (False, S)
      else if own_link (pg_uuid teacherId) learner S = None then (False, S)
      else (True, update_link (pg_uuid teacherId) learner (\<lambda>l. l\<lparr>lk_unlinked_at := Some (pg_now c)\<rparr>) S))"

section \<open>What learners see and may use\<close>

lemma linked_iff_active: "linked (sh_auth S) teacher learner \<longleftrightarrow> own_link teacher learner S \<noteq> None"
  by (auto simp: linked_def own_link_def list_ex_iff find_None_iff)

text \<open>A learner is shown packages of teachers he is linked to, and a private one only if it was granted to him.\<close>

lemma shown_packages:
  assumes "p \<in> set (listActivePackages subs (Some v) S)"
  shows "linked (sh_auth S) (kv_teacherId p) v \<and> kv_isActive p
     \<and> (kv_visibility p = Private \<longrightarrow> granted_package S (kv_id p) v)"
  using assms by (auto simp: listActivePackages_def on_sale_def rowToPackage_def)

text \<open>After a learner has left, no offer can be granted to him and no package of the teacher is shown.\<close>

lemma unlinked_after_leaving:
  assumes "unlink_route c learner teacher S = (True, S')"
  shows "\<not> linked (sh_auth S') (pg_uuid teacher) learner"
proof -
  have "S' = update_link (pg_uuid teacher) learner (\<lambda>l. l\<lparr>lk_unlinked_at := Some (pg_now c)\<rparr>) S"
    using assms by (simp add: unlink_route_def split: if_splits)
  then have links: "ad_links (sh_auth S') = map (\<lambda>l. if lk_teacher l = pg_uuid teacher \<and> lk_learner l = learner \<and> lk_unlinked_at l = None
      then l\<lparr>lk_unlinked_at := Some (pg_now c)\<rparr> else l) (ad_links (sh_auth S))"
    by (simp add: update_link_def)
  show ?thesis
    unfolding linked_def links list_ex_iff set_map
  proof (rule notI, elim bexE imageE)
    fix l l'
    assume "lk_teacher l' = pg_uuid teacher \<and> lk_learner l' = learner \<and> lk_unlinked_at l' = None"
      and "l' = (if lk_teacher l = pg_uuid teacher \<and> lk_learner l = learner \<and> lk_unlinked_at l = None
        then l\<lparr>lk_unlinked_at := Some (pg_now c)\<rparr> else l)"
    then show False by (simp split: if_splits)
  qed
qed

lemma access_refusal_None:
  "access_refusal noun owner offer teacher learner False d = None \<longleftrightarrow> owner = Some teacher \<and> linked d teacher learner"
  by (simp add: access_refusal_def split: option.split)

lemma pg_grant_cases:
  assumes "pg_grant noun owner c g d rows = Inr (row, rows')"
  shows "owner = Some (ga_teacherId g) \<and> linked d (ga_teacherId g) (ga_learnerAccountId g)
     \<and> row = granted_access_row c g (find_by access_key (ga_teacherId g, ga_learnerAccountId g, ga_offerId g) rows)
     \<and> row \<in> set rows' \<and> set rows' \<subseteq> insert row (set rows)
     \<and> (\<forall>a \<in> set rows. access_key a \<noteq> (ga_teacherId g, ga_learnerAccountId g, ga_offerId g) \<longrightarrow> a \<in> set rows')"
proof -
  let ?k = "(ga_teacherId g, ga_learnerAccountId g, ga_offerId g)"
  define r where "r = granted_access_row c g (find_by access_key ?k rows)"
  have key: "access_key r = ?k" by (simp add: r_def granted_access_row_def access_key_def)
  have ok: "access_refusal noun owner (ga_offerId g) (ga_teacherId g) (ga_learnerAccountId g) False d = None"
    using assms by (simp add: pg_grant_def split: option.splits)
  have out: "row = r \<and> rows' = (if find_by access_key ?k rows = None then rows @ [r] else replace_row access_key r rows)"
  proof (cases "find_by access_key ?k rows")
    case None
    then show ?thesis using assms ok unfolding pg_grant_def Let_def r_def by (auto split: if_splits)
  next
    case (Some a)
    then show ?thesis using assms ok unfolding pg_grant_def Let_def r_def by (auto split: if_splits)
  qed
  show ?thesis
  proof (cases "find_by access_key ?k rows")
    case None
    then show ?thesis using ok out by (auto simp: access_refusal_None r_def)
  next
    case (Some a)
    then have "access_key r \<in> access_key ` set rows" using find_by_SomeD [OF Some] key by (auto simp: image_iff intro: bexI [of _ a])
    with set_replace_row_eq [of access_key r rows] Some show ?thesis using ok out key by (auto simp: access_refusal_None r_def)
  qed
qed

lemma grant_needs_link:
  assumes "grantLearnerTariffAccess c g S = Inr (row, S')"
  shows "linked (sh_auth S) (ga_teacherId g) (ga_learnerAccountId g)
     \<and> (\<exists>t. tariff_of S (ga_offerId g) = Some t \<and> tf_teacher_id t = ga_teacherId g)
     \<and> aw_revoked_at row = None \<and> access_key row = (ga_teacherId g, ga_learnerAccountId g, ga_offerId g)"
proof -
  obtain rows where "pg_grant ''tariff'' (map_option tf_teacher_id (tariff_of S (ga_offerId g))) c (g\<lparr>ga_priority := None\<rparr>)
      (sh_auth S) (sh_tariff_access S) = Inr (row, rows)"
    using assms by (auto simp: grantLearnerTariffAccess_def bindR_eq_Inr_iff)
  from pg_grant_cases [OF this] show ?thesis by (auto simp: granted_access_row_def access_key_def)
qed

end
