(* ===== verification/Invites.thy ===== *)
theory Invites
  imports Roster Promo Allocation "HOL-Library.Sublist"
begin

text \<open>
  Invitations: \<open>src/lib/auth/teacher-invites.ts\<close> over \<open>teacher_invites\<close> (\<open>src/migrations/0057, 0101, 0126, 0128, 0140\<close>)
  and \<open>learner_teacher_links\<close> (\<open>0077, 0137\<close>). HMAC-SHA256, UTF-8 and JSON are arguments; base64url is written out. A
  statement that fails inside a transaction aborts it: what follows is refused, and \<open>commit\<close> then rolls back without an
  error.
\<close>

section \<open>base64url\<close>

definition b64_char :: "nat \<Rightarrow> nat" where
  "b64_char v = (if v < 26 then v + 65 else if v < 52 then v + 71 else if v < 62 then v - 4 else if v = 62 then 45 else 95)"

definition b64_value :: "nat \<Rightarrow> nat option" where
  "b64_value u =
     (if 65 \<le> u \<and> u \<le> 90 then Some (u - 65) else if 97 \<le> u \<and> u \<le> 122 then Some (u - 71)
      else if 48 \<le> u \<and> u \<le> 57 then Some (u + 4) else if u = 45 then Some 62 else if u = 95 then Some 63 else None)"

fun base64urlEncode :: "nat list \<Rightarrow> js_text" where
  "base64urlEncode [] = []"
| "base64urlEncode [a] = [b64_char (a div 4), b64_char (a mod 4 * 16)]"
| "base64urlEncode [a, b] = [b64_char (a div 4), b64_char (a mod 4 * 16 + b div 16), b64_char (b mod 16 * 4)]"
| "base64urlEncode (a # b # d # rest) =
     b64_char (a div 4) # b64_char (a mod 4 * 16 + b div 16) # b64_char (b mod 16 * 4 + d div 64) # b64_char (d mod 64)
       # base64urlEncode rest"

text \<open>The bytes of a list of six-bit values; a single left-over value makes no byte.\<close>

fun b64_bytes :: "nat list \<Rightarrow> nat list" where
  "b64_bytes (p # q # r # s # rest) = (p * 4 + q div 16) # (q mod 16 * 16 + r div 4) # (r mod 4 * 64 + s) # b64_bytes rest"
| "b64_bytes [p, q, r] = [p * 4 + q div 16, q mod 16 * 16 + r div 4]"
| "b64_bytes [p, q] = [p * 4 + q div 16]"
| "b64_bytes [p] = []"
| "b64_bytes [] = []"

definition base64urlDecode :: "js_text \<Rightarrow> nat list option" where
  "base64urlDecode t =
     (if t = [] \<or> list_ex (\<lambda>u. b64_value u = None) t then None else Some (b64_bytes (map (\<lambda>u. the (b64_value u)) t)))"

lemma b64_value_char: "v < 64 \<Longrightarrow> b64_value (b64_char v) = Some v"
  by (auto simp: b64_value_def b64_char_def)

lemma b64_decode_encode:
  assumes "list_all (\<lambda>b. b < 256) bs"
  shows "list_all (\<lambda>u. b64_value u \<noteq> None) (base64urlEncode bs)
     \<and> b64_bytes (map (\<lambda>u. the (b64_value u)) (base64urlEncode bs)) = bs"
  using assms
proof (induction bs rule: base64urlEncode.induct)
  case 1
  then show ?case by simp
next
  case (2 a)
  then have "a div 4 < 64" "a mod 4 * 16 < 64" by auto
  then show ?case by (simp add: b64_value_char)
next
  case (3 a b)
  then have "a div 4 < 64" "a mod 4 * 16 + b div 16 < 64" "b mod 16 * 4 < 64" "b div 16 < 16" by auto
  then show ?case by (simp add: b64_value_char)
next
  case (4 a b d rest)
  then have "a div 4 < 64" "a mod 4 * 16 + b div 16 < 64" "b mod 16 * 4 + d div 64 < 64" "d mod 64 < 64" "b div 16 < 16" "d div 64 < 4"
    by auto
  then show ?case using 4 by (simp add: b64_value_char)
qed

lemma base64url_round_trip:
  assumes "list_all (\<lambda>b. b < 256) bs" and "bs \<noteq> []"
  shows "base64urlDecode (base64urlEncode bs) = Some bs"
proof -
  have "base64urlEncode bs \<noteq> []" using assms(2) by (cases bs rule: base64urlEncode.cases) simp_all
  then show ?thesis using b64_decode_encode [OF assms(1)] by (auto simp: base64urlDecode_def list_ex_iff list_all_iff)
qed

lemma encoded_without_dot: "list_all (\<lambda>b. b < 256) bs \<Longrightarrow> 46 \<notin> set (base64urlEncode bs)"
  using b64_decode_encode [of bs] by (auto simp: list_all_iff b64_value_def)

section \<open>Tokens\<close>

record invite_payload =
  ip_iid :: uuid
  ip_tid :: uuid
  ip_exp :: rat

record invite_env =
  ve_secret :: "js_text option"
  ve_production :: bool
  ve_hmac :: "js_text \<Rightarrow> js_text \<Rightarrow> nat list"
  ve_utf8 :: "js_text \<Rightarrow> nat list"
  ve_text :: "nat list \<Rightarrow> js_text"
  ve_rt :: js_runtime
  ve_siteUrl :: js_text

definition DEV_FALLBACK_SECRET :: js_text where "DEV_FALLBACK_SECRET = js ''lc-dev-teacher-invite-fallback''"

definition getTeacherInviteSecret :: "invite_env \<Rightarrow> exn + js_text" where
  "getTeacherInviteSecret e =
     (let raw = js_trim (case ve_secret e of Some t \<Rightarrow> t | None \<Rightarrow> []) in
      if length raw > 0 then Inr raw
      else if ve_production e then Inl (JsError ''TEACHER_INVITE_SECRET is required in production'')
      else Inr DEV_FALLBACK_SECRET)"

definition hmacSign :: "invite_env \<Rightarrow> js_text \<Rightarrow> js_text \<Rightarrow> js_text" where
  "hmacSign e secret payloadEncoded = base64urlEncode (ve_hmac e secret payloadEncoded)"

text \<open>\<open>JSON.stringify\<close> of the payload.\<close>

definition json_quoted :: "string \<Rightarrow> js_text" where "json_quoted s = 34 # js s @ [34]"

definition payload_json :: "js_runtime \<Rightarrow> invite_payload \<Rightarrow> js_text" where
  "payload_json rt p =
     123 # json_quoted ''v'' @ [58] @ rt_num_text rt (Finite 1) @ [44]
     @ json_quoted ''iid'' @ [58] @ json_quoted (ip_iid p) @ [44]
     @ json_quoted ''tid'' @ [58] @ json_quoted (ip_tid p) @ [44]
     @ json_quoted ''exp'' @ [58] @ rt_num_text rt (Finite (ip_exp p)) @ [125]"

definition signInviteToken :: "invite_env \<Rightarrow> invite_payload \<Rightarrow> exn + js_text" where
  "signInviteToken e p =
     bindR (getTeacherInviteSecret e) (\<lambda>secret.
       let payloadEncoded = base64urlEncode (ve_utf8 e (payload_json (ve_rt e) p)) in
       Inr (payloadEncoded @ 46 # hmacSign e secret payloadEncoded))"

definition json_uuid :: "json option \<Rightarrow> uuid option" where
  "json_uuid v = (case v of Some (JStr t) \<Rightarrow> uuid_text t | _ \<Rightarrow> None)"

definition invite_payload_of :: "rat \<Rightarrow> json \<Rightarrow> invite_payload option" where
  "invite_payload_of nowSeconds obj =
     (if json_field obj ''v'' \<noteq> Some (JNum (Finite 1)) then None
      else case (json_uuid (json_field obj ''iid''), json_uuid (json_field obj ''tid''), json_field obj ''exp'') of
        (Some iid, Some tid, Some (JNum (Finite until))) \<Rightarrow>
          if until \<le> nowSeconds then None else Some \<lparr>ip_iid = iid, ip_tid = tid, ip_exp = until\<rparr>
      | _ \<Rightarrow> None)"

definition verifyInviteToken :: "invite_env \<Rightarrow> rat \<Rightarrow> js_text \<Rightarrow> exn + invite_payload option" where
  "verifyInviteToken e nowSeconds token =
     (case js_split 46 token of
        [payloadEncoded, hmacEncoded] \<Rightarrow>
          if payloadEncoded = [] \<or> hmacEncoded = [] then Inr None
          else bindR (getTeacherInviteSecret e) (\<lambda>secret.
            let expected = base64urlDecode (hmacSign e secret payloadEncoded); actual = base64urlDecode hmacEncoded in
            if expected = None \<or> actual = None \<or> expected \<noteq> actual then Inr None
            else case base64urlDecode payloadEncoded of
              None \<Rightarrow> Inr None
            | Some bytes \<Rightarrow>
                (case rt_json_parse (ve_rt e) (ve_text e bytes) of
                   None \<Rightarrow> Inr None | Some v \<Rightarrow> Inr (invite_payload_of nowSeconds v)))
      | _ \<Rightarrow> Inr None)"

section \<open>Creating, listing and revoking\<close>

definition TEACHER_INVITE_DEFAULT_TTL_SECONDS :: int where "TEACHER_INVITE_DEFAULT_TTL_SECONDS = 7 * 24 * 60 * 60"
definition UNIQUE_UUID_ARRAY_LIMIT :: nat where "UNIQUE_UUID_ARRAY_LIMIT = 20"

definition isValidInviteDefaultPaymentMethod :: "string \<Rightarrow> bool" where
  "isValidInviteDefaultPaymentMethod v \<longleftrightarrow> v \<in> {''postpaid'', ''none''}"

record invite_options =
  vo_ttlSeconds :: "int option"
  vo_defaultPaymentMethod :: "string option"
  vo_defaultTariffIds :: "string list"
  vo_defaultPackageIds :: "string list"
  vo_teacherNoteSeed :: "js_text option"

record created_invite =
  vc_id :: uuid
  vc_token :: js_text
  vc_url :: js_text
  vc_expiresAt :: millis
  vc_defaultPaymentMethod :: string
  vc_defaultTariffIds :: "string list"
  vc_defaultPackageIds :: "string list"

text \<open>\<open>Array.from(new Set(..))\<close> keeps the first of equal elements.\<close>

definition js_unique :: "'a list \<Rightarrow> 'a list" where "js_unique xs = rev (remdups (rev xs))"

definition normaliseUuidArray :: "string list \<Rightarrow> string \<Rightarrow> exn + string list" where
  "normaliseUuidArray input label =
     (if list_ex (\<lambda>i. \<not> uuid_pattern i) input then Inl (JsError (''teacher-invites/'' @ label @ ''-invalid-uuid''))
      else if length (js_unique input) > UNIQUE_UUID_ARRAY_LIMIT then Inl (JsError (''teacher-invites/'' @ label @ ''-cap-exceeded''))
      else Inr (js_unique input))"

definition assertTariffsOwnedByTeacher :: "uuid \<Rightarrow> string list \<Rightarrow> school \<Rightarrow> exn + unit" where
  "assertTariffsOwnedByTeacher teacher ids S =
     (if ids = [] then Inr ()
      else if length (filter (\<lambda>t. tf_id t \<in> set (map pg_uuid ids) \<and> tf_teacher_id t = teacher \<and> tf_deleted_at t = None) (sh_tariffs S)) \<noteq> length ids
      then Inl (JsError ''teacher-invites/tariff_ownership_violation'') else Inr ())"

definition assertPackagesOwnedByTeacher :: "uuid \<Rightarrow> string list \<Rightarrow> school \<Rightarrow> exn + unit" where
  "assertPackagesOwnedByTeacher teacher ids S =
     (if ids = [] then Inr ()
      else if length (filter (\<lambda>p. ki_id p \<in> set (map pg_uuid ids) \<and> ki_teacher_id p = teacher \<and> ki_deleted_at p = None) (sh_packages S)) \<noteq> length ids
      then Inl (JsError ''teacher-invites/package_ownership_violation'') else Inr ())"

definition invite_of :: "school \<Rightarrow> uuid \<Rightarrow> invite_row option" where
  "invite_of S i = find_by iv_id i (sh_invites S)"

definition createInviteForTeacher ::
  "clock \<Rightarrow> invite_env \<Rightarrow> uuid \<Rightarrow> uuid \<Rightarrow> invite_options \<Rightarrow> school \<Rightarrow> (exn + created_invite) \<times> school" where
  "createInviteForTeacher c e newId teacher opts S =
     (let ttl = coalesce (vo_ttlSeconds opts) TEACHER_INVITE_DEFAULT_TTL_SECONDS;
          pay = coalesce (vo_defaultPaymentMethod opts) ''none'';
          trimmed = map_option js_trim (vo_teacherNoteSeed opts);
          seed = (if trimmed = Some [] then None else trimmed);
          expiresAt = js_now c + ttl * 1000;
          checks =
            (if \<not> isValidInviteDefaultPaymentMethod pay then Inl (JsError (''teacher-invites/invalid-default-payment-method: '' @ pay))
             else bindR (normaliseUuidArray (vo_defaultTariffIds opts) ''default-tariff-ids'') (\<lambda>ts.
               bindR (normaliseUuidArray (vo_defaultPackageIds opts) ''default-package-ids'') (\<lambda>ps.
               if (case seed of None \<Rightarrow> False | Some t \<Rightarrow> length t > 2000) then Inl (JsError ''teacher-invites/teacher-note-seed-too-long'')
               else bindR (assertTariffsOwnedByTeacher teacher ts S) (\<lambda>_.
                    bindR (assertPackagesOwnedByTeacher teacher ps S) (\<lambda>_. Inr (ts, ps))))))
      in case checks of
           Inl x \<Rightarrow> (Inl x, S)
         | Inr (ts, ps) \<Rightarrow>
             if invite_of S newId \<noteq> None then (Inl (PgErr UniqueViolation), S)
             else if \<not> has_account (sh_auth S) teacher then (Inl (PgErr ForeignKeyViolation), S)
             else
               let S1 = S\<lparr>sh_invites := sh_invites S @
                 [\<lparr>iv_id = newId, iv_teacher_account_id = teacher, iv_created_at = pg_now c, iv_expires_at = expiresAt * us_per_ms,
                   iv_used_at = None, iv_used_by_account_id = None, iv_revoked_at = None, iv_default_payment_method = pay,
                   iv_default_tariff_ids = map pg_uuid ts, iv_default_package_ids = map pg_uuid ps, iv_teacher_note_seed = seed\<rparr>]\<rparr>
               in case signInviteToken e \<lparr>ip_iid = newId, ip_tid = teacher, ip_exp = of_int (expiresAt div 1000)\<rparr> of
                    Inl x \<Rightarrow> (Inl x, S1)
                  | Inr token \<Rightarrow>
                      (Inr \<lparr>vc_id = newId, vc_token = token, vc_url = ve_siteUrl e @ js ''/register?invite='' @ token,
                            vc_expiresAt = expiresAt, vc_defaultPaymentMethod = pay, vc_defaultTariffIds = ts,
                            vc_defaultPackageIds = ps\<rparr>, S1))"

datatype invite_status = InviteActive | InviteUsed | InviteRevoked | InviteExpired

definition resolveInviteStatus :: "clock \<Rightarrow> invite_row \<Rightarrow> invite_status" where
  "resolveInviteStatus c v =
     (if iv_used_at v \<noteq> None then InviteUsed
      else if iv_revoked_at v \<noteq> None then InviteRevoked
      else if js_date (iv_expires_at v) \<le> js_now c then InviteExpired
      else InviteActive)"

record invite_item =
  vl_id :: uuid
  vl_createdAt :: millis
  vl_expiresAt :: millis
  vl_usedAt :: "millis option"
  vl_usedByEmail :: "js_text option"
  vl_revokedAt :: "millis option"
  vl_status :: invite_status

definition redeemer_email :: "auth_db \<Rightarrow> uuid option \<Rightarrow> js_text option" where
  "redeemer_email d i =
     (case i of None \<Rightarrow> None
      | Some k \<Rightarrow> (case find_by aa_id k (ad_accounts d) of
          None \<Rightarrow> None | Some a \<Rightarrow> if aa_purged_at a = None then Some (aa_email a) else None))"

definition listInvitesForTeacher :: "clock \<Rightarrow> uuid \<Rightarrow> nat \<Rightarrow> school \<Rightarrow> invite_item list" where
  "listInvitesForTeacher c teacher limit S =
     map (\<lambda>v. \<lparr>vl_id = iv_id v, vl_createdAt = js_date (iv_created_at v), vl_expiresAt = js_date (iv_expires_at v),
               vl_usedAt = map_option js_date (iv_used_at v), vl_usedByEmail = redeemer_email (sh_auth S) (iv_used_by_account_id v),
               vl_revokedAt = map_option js_date (iv_revoked_at v), vl_status = resolveInviteStatus c v\<rparr>)
       (take limit (order_by (\<lambda>a b. iv_created_at b < iv_created_at a) (filter (\<lambda>v. iv_teacher_account_id v = teacher) (sh_invites S))))"

definition revokeInvite :: "clock \<Rightarrow> string \<Rightarrow> uuid \<Rightarrow> school \<Rightarrow> exn + bool \<times> school" where
  "revokeInvite c inviteId teacher S =
     bindR (uuid_param inviteId) (\<lambda>i.
       case invite_of S i of
         None \<Rightarrow> Inr (False, S)
       | Some v \<Rightarrow>
           if iv_teacher_account_id v = teacher \<and> iv_used_at v = None \<and> iv_revoked_at v = None
           then Inr (True, S\<lparr>sh_invites := replace_row iv_id (v\<lparr>iv_revoked_at := Some (pg_now c)\<rparr>) (sh_invites S)\<rparr>)
           else Inr (False, S))"

section \<open>Redeeming\<close>

text \<open>The statement with four writing parts; \<open>None\<close> when the invitation is not to be redeemed.\<close>

definition redeemable :: "clock \<Rightarrow> school \<Rightarrow> invite_row \<Rightarrow> bool" where
  "redeemable c S v \<longleftrightarrow> iv_used_at v = None \<and> iv_revoked_at v = None \<and> iv_expires_at v > pg_now c
     \<and> holds_role (sh_auth S) (iv_teacher_account_id v) RoleTeacher"

definition revived_link :: "clock \<Rightarrow> invite_row \<Rightarrow> teacher_link_row \<Rightarrow> teacher_link_row" where
  "revived_link c v l = l\<lparr>lk_unlinked_at := None,
     lk_linked_at := (if lk_unlinked_at l \<noteq> None then pg_now c else lk_linked_at l),
     lk_via_invite_id := (case lk_via_invite_id l of Some i \<Rightarrow> Some i | None \<Rightarrow> Some (iv_id v)),
     lk_teacher_note := (case lk_teacher_note l of Some n \<Rightarrow> Some n | None \<Rightarrow> iv_teacher_note_seed v)\<rparr>"

definition joined_links :: "clock \<Rightarrow> invite_row \<Rightarrow> uuid \<Rightarrow> teacher_link_row list \<Rightarrow> teacher_link_row list" where
  "joined_links c v learner links =
     (if list_ex (\<lambda>l. lk_learner l = learner \<and> lk_teacher l = iv_teacher_account_id v) links
      then map (\<lambda>l. if lk_learner l = learner \<and> lk_teacher l = iv_teacher_account_id v then revived_link c v l else l) links
      else links @ [\<lparr>lk_learner = learner, lk_teacher = iv_teacher_account_id v, lk_linked_at = pg_now c, lk_unlinked_at = None,
                     lk_via_invite_id = Some (iv_id v), lk_teacher_note = iv_teacher_note_seed v\<rparr>])"

definition seed_preference :: "invite_row \<Rightarrow> uuid \<Rightarrow> db \<Rightarrow> bool \<times> db" where
  "seed_preference v learner d =
     (if preference_of (iv_teacher_account_id v) learner d \<noteq> None then (False, d)
      else (True, d\<lparr>learner_billing_preferences := learner_billing_preferences d @
        [\<lparr>bp_teacher_account_id = iv_teacher_account_id v, bp_learner_account_id = learner,
          bp_payment_method = iv_default_payment_method v, bp_updated_by_account_id = Some (iv_teacher_account_id v)\<rparr>]\<rparr>))"

definition redeem_statement :: "clock \<Rightarrow> uuid \<Rightarrow> uuid \<Rightarrow> school \<Rightarrow> exn + (invite_row \<times> bool \<times> school) option" where
  "redeem_statement c i learner S =
     (case invite_of S i of
        None \<Rightarrow> Inr None
      | Some v \<Rightarrow>
          if \<not> redeemable c S v then Inr None
          else if \<not> has_account (sh_auth S) learner then Inl (PgErr ForeignKeyViolation)
          else
            let (seeded, d') = seed_preference v learner (sh_db S);
                a' = update_account learner (\<lambda>_. True) (\<lambda>a. a\<lparr>aa_assigned_teacher_id := Some (iv_teacher_account_id v)\<rparr>) (sh_auth S)
            in Inr (Some (v, seeded,
                 S\<lparr>sh_invites := replace_row iv_id (v\<lparr>iv_used_at := Some (pg_now c), iv_used_by_account_id := Some learner\<rparr>) (sh_invites S),
                   sh_auth := a'\<lparr>ad_links := joined_links c v learner (ad_links (sh_auth S))\<rparr>, sh_db := d'\<rparr>)))"

text \<open>Which errors of a grant are to be passed over: the text of the message is searched.\<close>

definition skippable_parts :: "string list" where
  "skippable_parts = [''learner_tariff_access_invariants'', ''learner_package_access_invariants'',
     ''learner_tariff_not_owned_or_archived'', ''learner_package_not_owned_or_archived'', ''learner_link_not_active'']"

definition isTariffPackageGrantSkippable :: "exn \<Rightarrow> bool" where
  "isTariffPackageGrantSkippable x =
     (case x of PgErr (RaisedException message) \<Rightarrow> list_ex (\<lambda>part. sublist part message) skippable_parts | _ \<Rightarrow> False)"

text \<open>
  The grants, one statement each; the flag says that the transaction is aborted, and then every statement fails.
\<close>

definition aborted_error :: exn where
  "aborted_error = PgErr (RaisedException ''current transaction is aborted, commands ignored until end of transaction block'')"

fun grant_each :: "(uuid \<Rightarrow> school \<Rightarrow> exn + access_row \<times> school) \<Rightarrow> uuid list \<Rightarrow> bool \<times> school \<Rightarrow> exn + uuid list \<times> bool \<times> school" where
  "grant_each grant [] t = Inr ([], t)"
| "grant_each grant (i # rest) (aborted, S) =
     (case (if aborted then Inl aborted_error else grant i S) of
        Inr (_, S') \<Rightarrow> bindR (grant_each grant rest (False, S')) (\<lambda>(seeded, t). Inr (i # seeded, t))
      | Inl x \<Rightarrow> if isTariffPackageGrantSkippable x then grant_each grant rest (True, S) else Inl x)"

record invite_redemption =
  rx_teacherAccountId :: uuid
  rx_defaultPaymentMethod :: string
  rx_seededPrefInserted :: bool
  rx_seededTariffIds :: "uuid list"
  rx_seededPackageIds :: "uuid list"

definition invite_grant :: "invite_row \<Rightarrow> uuid \<Rightarrow> uuid \<Rightarrow> grant_args" where
  "invite_grant v learner offer =
     \<lparr>ga_teacherId = iv_teacher_account_id v, ga_learnerAccountId = learner, ga_offerId = offer,
      ga_overrideAmountKopecks = None, ga_priority = None, ga_grantedByAccountId = Some (iv_teacher_account_id v)\<rparr>"

definition redeemInviteAndBindLearnerAtomic :: "clock \<Rightarrow> string \<Rightarrow> string \<Rightarrow> school \<Rightarrow> exn + invite_redemption option \<times> school" where
  "redeemInviteAndBindLearnerAtomic c inviteId learnerId S =
     (if \<not> uuid_pattern inviteId \<or> \<not> uuid_pattern learnerId then Inr (None, S)
      else bindR (redeem_statement c (pg_uuid inviteId) (pg_uuid learnerId) S) (\<lambda>ro.
        case ro of
          None \<Rightarrow> Inr (None, S)
        | Some (v, seeded, S1) \<Rightarrow>
            bindR (grant_each (\<lambda>i. grantLearnerTariffAccess c (invite_grant v (pg_uuid learnerId) i))
                     (filter uuid_pattern (iv_default_tariff_ids v)) (False, S1)) (\<lambda>(ts, t1).
            bindR (grant_each (\<lambda>i. grantLearnerPackageAccess c (invite_grant v (pg_uuid learnerId) i))
                     (filter uuid_pattern (iv_default_package_ids v)) t1) (\<lambda>(ps, aborted, S2).
              Inr (Some \<lparr>rx_teacherAccountId = iv_teacher_account_id v,
                         rx_defaultPaymentMethod = (if isValidInviteDefaultPaymentMethod (iv_default_payment_method v)
                            then iv_default_payment_method v else ''none''),
                         rx_seededPrefInserted = seeded, rx_seededTariffIds = ts, rx_seededPackageIds = ps\<rparr>,
                   if aborted then S else S2)))))"

section \<open>Round trip\<close>

text \<open>What JSON and UTF-8 do with the payload of a token: it is read back as it was written, and there is something to sign.\<close>

definition payload_value :: "invite_payload \<Rightarrow> json" where
  "payload_value p = JObj [(js ''v'', JNum (Finite 1)), (js ''iid'', JStr (js (ip_iid p))), (js ''tid'', JStr (js (ip_tid p))),
     (js ''exp'', JNum (Finite (ip_exp p)))]"

definition bytes_ok :: "nat list \<Rightarrow> bool" where "bytes_ok bs \<longleftrightarrow> bs \<noteq> [] \<and> list_all (\<lambda>b. b < 256) bs"

definition reads_back :: "invite_env \<Rightarrow> invite_payload \<Rightarrow> bool" where
  "reads_back e p \<longleftrightarrow> bytes_ok (ve_utf8 e (payload_json (ve_rt e) p))
     \<and> rt_json_parse (ve_rt e) (ve_text e (ve_utf8 e (payload_json (ve_rt e) p))) = Some (payload_value p)"

definition uuid_ascii :: "uuid \<Rightarrow> bool" where "uuid_ascii i \<longleftrightarrow> uuid_pattern i \<and> list_all (\<lambda>c. of_char c < (128 :: nat)) i"

lemma two_parts: "46 \<notin> set a \<Longrightarrow> 46 \<notin> set b \<Longrightarrow> js_split 46 (a @ 46 # b) = [a, b]"
proof -
  assume ab: "46 \<notin> set a" "46 \<notin> set b"
  have b: "js_split 46 b = [b]" using ab(2) by (induction b) auto
  show ?thesis using ab(1) by (induction a) (auto simp: b)
qed

text \<open>
  C27: a token that was signed is accepted until it expires and gives back its payload; and whatever is accepted carries
  a second part that is the HMAC of the first one under the secret.
\<close>

theorem invite_token_round_trip:
  assumes "getTeacherInviteSecret e = Inr secret" and "\<And>k t. bytes_ok (ve_hmac e k t)"
  shows "(reads_back e p \<and> uuid_ascii (ip_iid p) \<and> uuid_ascii (ip_tid p) \<longrightarrow>
       (\<exists>token. signInviteToken e p = Inr token \<and> verifyInviteToken e nowSeconds token = Inr (if nowSeconds < ip_exp p then Some p else None)))
     \<and> (verifyInviteToken e nowSeconds t = Inr (Some q) \<longrightarrow>
       (\<exists>first second bytes. js_split 46 t = [first, second] \<and> base64urlDecode second = Some (ve_hmac e secret first)
         \<and> base64urlDecode first = Some bytes \<and> rt_json_parse (ve_rt e) (ve_text e bytes) \<noteq> None \<and> nowSeconds < ip_exp q))"
proof (intro conjI impI)
  have mac: "base64urlDecode (hmacSign e secret x) = Some (ve_hmac e secret x)" for x
    using base64url_round_trip assms(2) by (simp add: hmacSign_def bytes_ok_def)
  {
    assume p: "reads_back e p \<and> uuid_ascii (ip_iid p) \<and> uuid_ascii (ip_tid p)"
    define bytes where "bytes = ve_utf8 e (payload_json (ve_rt e) p)"
    let ?first = "base64urlEncode bytes" and ?second = "hmacSign e secret (base64urlEncode bytes)"
    have bytes: "bytes_ok bytes" "rt_json_parse (ve_rt e) (ve_text e bytes) = Some (payload_value p)"
      using p by (simp_all add: reads_back_def bytes_def)
    have dec: "base64urlDecode ?first = Some bytes" using base64url_round_trip bytes(1) by (simp add: bytes_ok_def)
    have sign: "signInviteToken e p = Inr (?first @ 46 # ?second)" by (simp add: signInviteToken_def assms(1) bytes_def Let_def)
    have parts: "js_split 46 (?first @ 46 # ?second) = [?first, ?second]"
      by (rule two_parts) (use encoded_without_dot bytes(1) assms(2) in \<open>simp_all add: bytes_ok_def hmacSign_def\<close>)
    have ne: "?first \<noteq> []" "?second \<noteq> []" using dec mac [of ?first] by (auto simp: base64urlDecode_def)
    have ids: "uuid_text (js (ip_iid p)) = Some (ip_iid p)" "uuid_text (js (ip_tid p)) = Some (ip_tid p)"
      using p by (simp_all add: uuid_ascii_def)
    have val: "invite_payload_of nowSeconds (payload_value p) = (if nowSeconds < ip_exp p then Some p else None)"
      by (simp add: invite_payload_of_def payload_value_def json_field_def json_uuid_def ids)
    have "verifyInviteToken e nowSeconds (?first @ 46 # ?second) = Inr (if nowSeconds < ip_exp p then Some p else None)"
      by (simp add: verifyInviteToken_def parts ne assms(1) mac dec bytes(2) val)
    with sign show "\<exists>token. signInviteToken e p = Inr token \<and> verifyInviteToken e nowSeconds token = Inr (if nowSeconds < ip_exp p then Some p else None)"
      by blast
  }
  assume v: "verifyInviteToken e nowSeconds t = Inr (Some q)"
  then obtain first second where parts: "js_split 46 t = [first, second]"
    by (auto simp: verifyInviteToken_def split: list.splits)
  with v mac [of first] obtain bytes w where "base64urlDecode second = Some (ve_hmac e secret first)" "base64urlDecode first = Some bytes"
      "rt_json_parse (ve_rt e) (ve_text e bytes) = Some w" "invite_payload_of nowSeconds w = Some q"
    by (auto simp: verifyInviteToken_def assms(1) Let_def split: if_splits option.splits)
  moreover from this(4) have "nowSeconds < ip_exp q"
    by (auto simp: invite_payload_of_def split: if_splits option.splits json.splits js_float.splits)
  ultimately show "\<exists>first second bytes. js_split 46 t = [first, second] \<and> base64urlDecode second = Some (ve_hmac e secret first)
         \<and> base64urlDecode first = Some bytes \<and> rt_json_parse (ve_rt e) (ve_text e bytes) \<noteq> None \<and> nowSeconds < ip_exp q"
    using parts by blast
qed

lemma invite_token_round_trip_witness:
  "let p = \<lparr>ip_iid = uuid_of CHR ''1'', ip_tid = uuid_of CHR ''c'', ip_exp = 100\<rparr>;
       e = \<lparr>ve_secret = Some (js ''k''), ve_production = True, ve_hmac = (\<lambda>_ t. [length t mod 256]), ve_utf8 = (\<lambda>_. [7]),
            ve_text = (\<lambda>bs. bs), ve_rt = sample_runtime\<lparr>rt_json_parse := (\<lambda>_. Some (payload_value p))\<rparr>, ve_siteUrl = []\<rparr> in
     \<exists>token. signInviteToken e p = Inr token \<and> verifyInviteToken e 99 token = Inr (Some p) \<and> verifyInviteToken e 100 token = Inr None"
proof -
  define p where "p = \<lparr>ip_iid = uuid_of CHR ''1'', ip_tid = uuid_of CHR ''c'', ip_exp = 100\<rparr>"
  define e where "e = \<lparr>ve_secret = Some (js ''k''), ve_production = True, ve_hmac = (\<lambda>_ t. [length t mod 256]), ve_utf8 = (\<lambda>_. [7]),
            ve_text = (\<lambda>bs. bs), ve_rt = sample_runtime\<lparr>rt_json_parse := (\<lambda>_. Some (payload_value p))\<rparr>, ve_siteUrl = []\<rparr>"
  have "js_trim (js ''k'') = js ''k''" by (simp add: js_trim_def js_def js_space_def)
  then have secret: "getTeacherInviteSecret e = Inr (js ''k'')" by (simp add: getTeacherInviteSecret_def e_def Let_def js_def)
  have mac: "\<And>k t. bytes_ok (ve_hmac e k t)" by (simp add: e_def bytes_ok_def)
  have p: "reads_back e p \<and> uuid_ascii (ip_iid p) \<and> uuid_ascii (ip_tid p)"
    by (simp add: reads_back_def e_def bytes_ok_def p_def uuid_ascii_def hex_digit_def uuid_of_def replicate_8 replicate_4 replicate_12)
      (simp add: uuid_pattern_def hex_digit_def upt_conv_Cons)
  from invite_token_round_trip [OF secret mac, of p 99] p obtain t where t: "signInviteToken e p = Inr t" "verifyInviteToken e 99 t = Inr (Some p)"
    by (force simp: p_def)
  from invite_token_round_trip [OF secret mac, of p 100] p obtain u where "signInviteToken e p = Inr u" "verifyInviteToken e 100 u = Inr None"
    by (force simp: p_def)
  with t have "\<exists>token. signInviteToken e p = Inr token \<and> verifyInviteToken e 99 token = Inr (Some p) \<and> verifyInviteToken e 100 token = Inr None"
    by simp
  then show ?thesis unfolding Let_def p_def e_def .
qed

section \<open>What redeeming does\<close>

text \<open>No message of the triggers has one of the parts that are looked for, so no refused grant is ever passed over.\<close>

lemma sublist_keeps_char: "sublist xs ys \<Longrightarrow> x \<in> set xs \<Longrightarrow> x \<in> set ys"
  by (auto simp: sublist_def)

lemma not_skippable:
  assumes "CHR ''_'' \<notin> set message"
  shows "\<not> isTariffPackageGrantSkippable (PgErr (RaisedException message))"
proof
  assume "isTariffPackageGrantSkippable (PgErr (RaisedException message))"
  then obtain part where "part \<in> set skippable_parts" "sublist part message"
    by (auto simp: isTariffPackageGrantSkippable_def list_ex_iff)
  moreover have "list_all (\<lambda>part. CHR ''_'' \<in> set part) skippable_parts" by (simp add: skippable_parts_def)
  ultimately show False using assms sublist_keeps_char [of part message "CHR ''_''"] unfolding list_all_iff by simp
qed

definition plain_id :: "uuid \<Rightarrow> bool" where "plain_id i \<longleftrightarrow> CHR ''_'' \<notin> set i"

lemma uuid_pattern_plain: "uuid_pattern i \<Longrightarrow> plain_id i"
proof -
  assume i: "uuid_pattern i"
  have "i ! k \<noteq> CHR ''_''" if "k < length i" for k
  proof -
    have "k < 36" using i that by (simp add: uuid_pattern_def)
    then have "if k \<in> {8, 13, 18, 23} then i ! k = CHR ''-'' else hex_digit (i ! k)"
      using i by (simp add: uuid_pattern_def list_all_iff)
    then show ?thesis by (auto simp: hex_digit_def split: if_splits)
  qed
  then show ?thesis by (auto simp: plain_id_def in_set_conv_nth)
qed

text \<open>All ids of the tables are plain; this is what keeps the messages free of the character.\<close>

definition plain_ids :: "school \<Rightarrow> bool" where
  "plain_ids S \<longleftrightarrow> list_all (\<lambda>t. plain_id (tf_teacher_id t)) (sh_tariffs S) \<and> list_all (\<lambda>p. plain_id (ki_teacher_id p)) (sh_packages S)
     \<and> list_all (\<lambda>v. plain_id (iv_teacher_account_id v)) (sh_invites S)"

lemma access_refusal_plain:
  assumes "access_refusal noun owner offer teacher learner False d = Some message"
    and "CHR ''_'' \<notin> set noun" and "plain_id offer" and "plain_id teacher" and "plain_id learner"
    and "\<And>w. owner = Some w \<Longrightarrow> plain_id w"
  shows "CHR ''_'' \<notin> set message"
  using assms by (auto simp: access_refusal_def plain_id_def split: option.splits if_splits)

lemma pg_grant_plain:
  assumes "pg_grant noun owner c g d rows = Inl x" and "CHR ''_'' \<notin> set noun"
    and "plain_id (ga_offerId g)" and "plain_id (ga_teacherId g)" and "plain_id (ga_learnerAccountId g)"
    and "\<And>w. owner = Some w \<Longrightarrow> plain_id w"
  shows "\<not> isTariffPackageGrantSkippable x"
proof (cases "access_refusal noun owner (ga_offerId g) (ga_teacherId g) (ga_learnerAccountId g) False d")
  case None
  with assms(1) have "x = PgErr CheckViolation \<or> x = PgErr ForeignKeyViolation"
    unfolding pg_grant_def Let_def by (simp split: if_splits)
  then show ?thesis by (auto simp: isTariffPackageGrantSkippable_def)
next
  case (Some message)
  with assms(1) have "x = PgErr (RaisedException message)" by (simp add: pg_grant_def)
  then show ?thesis using not_skippable access_refusal_plain [OF Some assms(2-6)] by simp
qed

lemma grant_plain:
  assumes "plain_ids S" and "plain_id (iv_teacher_account_id v)" and "plain_id learner" and "plain_id i"
  shows "grantLearnerTariffAccess c (invite_grant v learner i) S = Inl x \<Longrightarrow> \<not> isTariffPackageGrantSkippable x"
    and "grantLearnerPackageAccess c (invite_grant v learner i) S = Inl x \<Longrightarrow> \<not> isTariffPackageGrantSkippable x"
proof -
  have w: "\<And>w. map_option tf_teacher_id (tariff_of S i) = Some w \<Longrightarrow> plain_id w"
      "\<And>w. map_option ki_teacher_id (bundle_of S i) = Some w \<Longrightarrow> plain_id w"
    using assms(1) by (auto simp: plain_ids_def tariff_of_def bundle_of_def list_all_iff dest: find_by_SomeD)
  show "grantLearnerTariffAccess c (invite_grant v learner i) S = Inl x \<Longrightarrow> \<not> isTariffPackageGrantSkippable x"
    by (rule pg_grant_plain [where noun = "''tariff''" and owner = "map_option tf_teacher_id (tariff_of S i)" and c = c
          and g = "(invite_grant v learner i)\<lparr>ga_priority := None\<rparr>" and d = "sh_auth S" and rows = "sh_tariff_access S"])
      (use assms w in \<open>auto simp: grantLearnerTariffAccess_def bindR_eq_Inl_iff invite_grant_def\<close>)
  show "grantLearnerPackageAccess c (invite_grant v learner i) S = Inl x \<Longrightarrow> \<not> isTariffPackageGrantSkippable x"
    by (rule pg_grant_plain [where noun = "''package''" and owner = "map_option ki_teacher_id (bundle_of S i)" and c = c
          and g = "invite_grant v learner i" and d = "sh_auth S" and rows = "sh_package_access S"])
      (use assms w in \<open>auto simp: grantLearnerPackageAccess_def bindR_eq_Inl_iff invite_grant_def\<close>)
qed

text \<open>What grants leave alone, and that they take no access away.\<close>

definition granted_tariff :: "school \<Rightarrow> uuid \<Rightarrow> uuid \<Rightarrow> bool" where
  "granted_tariff S i learner \<longleftrightarrow>
     list_ex (\<lambda>a. aw_offer_id a = i \<and> aw_learner_account_id a = learner \<and> aw_revoked_at a = None) (sh_tariff_access S)"

definition only_grants :: "school \<Rightarrow> school \<Rightarrow> bool" where
  "only_grants S S' \<longleftrightarrow> sh_auth S' = sh_auth S \<and> sh_db S' = sh_db S \<and> sh_tariffs S' = sh_tariffs S
     \<and> sh_packages S' = sh_packages S \<and> sh_invites S' = sh_invites S
     \<and> (\<forall>i l. granted_tariff S i l \<longrightarrow> granted_tariff S' i l) \<and> (\<forall>i l. granted_package S i l \<longrightarrow> granted_package S' i l)"

lemma only_grants_refl: "only_grants S S" and only_grants_trans: "only_grants S T \<Longrightarrow> only_grants T U \<Longrightarrow> only_grants S U"
  by (simp_all add: only_grants_def)

lemma pg_grant_active:
  assumes "pg_grant noun owner c g d rows = Inr (row, rows')"
  shows "\<exists>a \<in> set rows'. aw_offer_id a = ga_offerId g \<and> aw_learner_account_id a = ga_learnerAccountId g \<and> aw_revoked_at a = None"
    and "a \<in> set rows \<Longrightarrow> aw_revoked_at a = None \<Longrightarrow>
      \<exists>b \<in> set rows'. aw_offer_id b = aw_offer_id a \<and> aw_learner_account_id b = aw_learner_account_id a \<and> aw_revoked_at b = None"
proof -
  note cases = pg_grant_cases [OF assms]
  have row: "row \<in> set rows'" "access_key row = (ga_teacherId g, ga_learnerAccountId g, ga_offerId g)" "aw_revoked_at row = None"
    using cases by (auto simp: granted_access_row_def access_key_def)
  then show "\<exists>a \<in> set rows'. aw_offer_id a = ga_offerId g \<and> aw_learner_account_id a = ga_learnerAccountId g \<and> aw_revoked_at a = None"
    by (auto simp: access_key_def)
  assume a: "a \<in> set rows" "aw_revoked_at a = None"
  show "\<exists>b \<in> set rows'. aw_offer_id b = aw_offer_id a \<and> aw_learner_account_id b = aw_learner_account_id a \<and> aw_revoked_at b = None"
  proof (cases "access_key a = access_key row")
    case True
    then show ?thesis using row by (intro bexI [of _ row]) (simp_all add: access_key_def)
  next
    case False
    then have "a \<in> set rows'" using cases a(1) row(2) by auto
    then show ?thesis using a(2) by blast
  qed
qed

lemma grant_steps:
  shows "grantLearnerTariffAccess c (invite_grant v learner i) S = Inr (r, S') \<Longrightarrow> only_grants S S' \<and> granted_tariff S' i learner"
    and "grantLearnerPackageAccess c (invite_grant v learner i) S = Inr (r, S') \<Longrightarrow> only_grants S S' \<and> granted_package S' i learner"
proof -
  assume "grantLearnerTariffAccess c (invite_grant v learner i) S = Inr (r, S')"
  then obtain rows where g: "pg_grant ''tariff'' (map_option tf_teacher_id (tariff_of S i)) c (invite_grant v learner i\<lparr>ga_priority := None\<rparr>)
      (sh_auth S) (sh_tariff_access S) = Inr (r, rows)" and S': "S' = S\<lparr>sh_tariff_access := rows\<rparr>"
    by (auto simp: grantLearnerTariffAccess_def bindR_eq_Inr_iff invite_grant_def)
  have "granted_tariff S' j m" if "granted_tariff S j m" for j m
    using that pg_grant_active(2) [OF g] by (fastforce simp: granted_tariff_def list_ex_iff S')
  then show "only_grants S S' \<and> granted_tariff S' i learner"
    using pg_grant_active(1) [OF g] by (auto simp: only_grants_def S' granted_tariff_def granted_package_def list_ex_iff invite_grant_def)
next
  assume "grantLearnerPackageAccess c (invite_grant v learner i) S = Inr (r, S')"
  then obtain rows where g: "pg_grant ''package'' (map_option ki_teacher_id (bundle_of S i)) c (invite_grant v learner i)
      (sh_auth S) (sh_package_access S) = Inr (r, rows)" and S': "S' = S\<lparr>sh_package_access := rows\<rparr>"
    by (auto simp: grantLearnerPackageAccess_def bindR_eq_Inr_iff invite_grant_def)
  have "granted_package S' j m" if "granted_package S j m" for j m
    using that pg_grant_active(2) [OF g] by (fastforce simp: granted_package_def list_ex_iff S')
  then show "only_grants S S' \<and> granted_package S' i learner"
    using pg_grant_active(1) [OF g] by (auto simp: only_grants_def S' granted_tariff_def granted_package_def list_ex_iff invite_grant_def)
qed

text \<open>A tariff that is granted exists and is the granting teacher's.\<close>

definition owned_tariff :: "school \<Rightarrow> uuid \<Rightarrow> uuid \<Rightarrow> bool" where
  "owned_tariff S teacher i \<longleftrightarrow> map_option tf_teacher_id (tariff_of S i) = Some teacher"

lemma owned_tariff_cong: "sh_tariffs S' = sh_tariffs S \<Longrightarrow> owned_tariff S' = owned_tariff S"
  by (simp add: fun_eq_iff owned_tariff_def tariff_of_def)

lemma grant_owned:
  assumes "grantLearnerTariffAccess c (invite_grant v learner i) S = Inr (r, S')"
  shows "owned_tariff S (iv_teacher_account_id v) i"
  using assms
  by (auto simp: grantLearnerTariffAccess_def bindR_eq_Inr_iff invite_grant_def pg_grant_def access_refusal_def owned_tariff_def
      split: option.splits if_splits)

lemma only_grants_plain: "only_grants S S' \<Longrightarrow> plain_ids S \<Longrightarrow> plain_ids S'"
  by (simp add: only_grants_def plain_ids_def)

text \<open>A series of grants ends with all of them made, or with an exception; none is passed over.\<close>

lemma grant_each_done:
  assumes "\<And>i T x. plain_ids T \<Longrightarrow> i \<in> set is \<Longrightarrow> grant i T = Inl x \<Longrightarrow> \<not> isTariffPackageGrantSkippable x"
    and "\<And>i T r T'. plain_ids T \<Longrightarrow> i \<in> set is \<Longrightarrow> grant i T = Inr (r, T') \<Longrightarrow> only_grants T T' \<and> G i T'"
    and "\<And>i T T'. only_grants T T' \<Longrightarrow> G i T \<Longrightarrow> G i T'"
    and "grant_each grant is (False, S) = Inr (seeded, ab, S')" and "plain_ids S"
  shows "seeded = is \<and> \<not> ab \<and> only_grants S S' \<and> (\<forall>i \<in> set is. G i S')"
  using assms
proof (induction "is" arbitrary: S seeded)
  case Nil
  then show ?case by (simp add: only_grants_refl)
next
  case (Cons i rest)
  obtain r T where g: "grant i S = Inr (r, T)"
    using Cons.prems(4) Cons.prems(1) [OF Cons.prems(5), of i] by (cases "grant i S") (auto split: if_splits)
  then obtain more_seeded where run: "grant_each grant rest (False, T) = Inr (more_seeded, ab, S')" "seeded = i # more_seeded"
    using Cons.prems(4) by (auto simp: bindR_eq_Inr_iff)
  have T: "only_grants S T" "G i T" using Cons.prems(2) [OF Cons.prems(5) _ g] by simp_all
  have "more_seeded = rest \<and> \<not> ab \<and> only_grants T S' \<and> (\<forall>i \<in> set rest. G i S')"
  proof (rule Cons.IH [OF _ _ _ run(1)])
    show "\<not> isTariffPackageGrantSkippable x" if "plain_ids U" "j \<in> set rest" "grant j U = Inl x" for j U x
      using Cons.prems(1) [OF that(1) _ that(3)] that(2) by simp
    show "only_grants U U' \<and> G j U'" if "plain_ids U" "j \<in> set rest" "grant j U = Inr (q, U')" for j U q U'
      using Cons.prems(2) [OF that(1) _ that(3)] that(2) by simp
    show "G j U'" if "only_grants U U'" "G j U" for j U U' by (rule Cons.prems(3) [OF that])
    show "plain_ids T" by (rule only_grants_plain [OF T(1) Cons.prems(5)])
  qed
  then show ?case using run(2) T only_grants_trans [OF T(1)] Cons.prems(3) by auto
qed

lemma revived_link_fields [simp]:
  "lk_learner (revived_link c v l) = lk_learner l" "lk_teacher (revived_link c v l) = lk_teacher l" "lk_unlinked_at (revived_link c v l) = None"
  by (simp_all add: revived_link_def)

lemma joined_links_linked: "\<exists>l \<in> set (joined_links c v learner links). lk_teacher l = iv_teacher_account_id v \<and> lk_learner l = learner \<and> lk_unlinked_at l = None"
proof (cases "list_ex (\<lambda>l. lk_learner l = learner \<and> lk_teacher l = iv_teacher_account_id v) links")
  case True
  then obtain l where l: "l \<in> set links" "lk_learner l = learner" "lk_teacher l = iv_teacher_account_id v" by (auto simp: list_ex_iff)
  with True have "revived_link c v l \<in> set (joined_links c v learner links)"
    by (auto simp: joined_links_def image_iff intro!: bexI [of _ l])
  with l show ?thesis by (intro bexI [of _ "revived_link c v l"]) simp_all
next
  case False
  then show ?thesis by (simp add: joined_links_def)
qed

lemma joined_links_others:
  assumes "(lk_teacher x, lk_learner x) \<noteq> (iv_teacher_account_id v, learner)"
  shows "x \<in> set (joined_links c v learner links) \<longleftrightarrow> x \<in> set links"
proof (cases "list_ex (\<lambda>l. lk_learner l = learner \<and> lk_teacher l = iv_teacher_account_id v) links")
  case True
  with assms show ?thesis by (auto simp: joined_links_def image_iff split: if_splits intro: bexI [of _ x])
next
  case False
  with assms show ?thesis by (auto simp: joined_links_def)
qed

lemma redeem_statement_Some:
  assumes "redeem_statement c i learner S = Inr (Some (v, seeded, T))"
  shows "invite_of S i = Some v" and "redeemable c S v" and "has_account (sh_auth S) learner"
    and "ad_links (sh_auth T) = joined_links c v learner (ad_links (sh_auth S))"
    and "sh_invites T = replace_row iv_id (v\<lparr>iv_used_at := Some (pg_now c), iv_used_by_account_id := Some learner\<rparr>) (sh_invites S)"
    and "preference_of t l (sh_db T) = (case preference_of t l (sh_db S) of
           Some p \<Rightarrow> Some p
         | None \<Rightarrow> if t = iv_teacher_account_id v \<and> l = learner
             then Some \<lparr>bp_teacher_account_id = t, bp_learner_account_id = l, bp_payment_method = iv_default_payment_method v,
                        bp_updated_by_account_id = Some t\<rparr> else None)"
    and "sh_tariffs T = sh_tariffs S" and "sh_packages T = sh_packages S"
proof -
  show v: "invite_of S i = Some v" and r: "redeemable c S v" and "has_account (sh_auth S) learner"
    using assms by (auto simp: redeem_statement_def Let_def split: option.splits if_splits prod.splits)
  then have T: "T = S\<lparr>sh_invites := replace_row iv_id (v\<lparr>iv_used_at := Some (pg_now c), iv_used_by_account_id := Some learner\<rparr>) (sh_invites S),
      sh_auth := (update_account learner (\<lambda>_. True) (\<lambda>a. a\<lparr>aa_assigned_teacher_id := Some (iv_teacher_account_id v)\<rparr>) (sh_auth S))
        \<lparr>ad_links := joined_links c v learner (ad_links (sh_auth S))\<rparr>,
      sh_db := snd (seed_preference v learner (sh_db S))\<rparr>"
    using assms by (simp add: redeem_statement_def Let_def split: prod.splits)
  show "ad_links (sh_auth T) = joined_links c v learner (ad_links (sh_auth S))"
    "sh_invites T = replace_row iv_id (v\<lparr>iv_used_at := Some (pg_now c), iv_used_by_account_id := Some learner\<rparr>) (sh_invites S)"
    "sh_tariffs T = sh_tariffs S" "sh_packages T = sh_packages S" by (simp_all add: T)
  have "preference_of t l (snd (seed_preference v learner d)) = (case preference_of t l d of
           Some p \<Rightarrow> Some p
         | None \<Rightarrow> if t = iv_teacher_account_id v \<and> l = learner
             then Some \<lparr>bp_teacher_account_id = t, bp_learner_account_id = l, bp_payment_method = iv_default_payment_method v,
                        bp_updated_by_account_id = Some t\<rparr> else None)" for d
  proof -
    have app: "find P (xs @ [x]) = (case find P xs of Some y \<Rightarrow> Some y | None \<Rightarrow> if P x then Some x else None)" for P xs and x :: billing_preference_row
      by (induction xs) auto
    show ?thesis by (auto simp: seed_preference_def preference_of_def app split: option.split)
  qed
  then show "preference_of t l (sh_db T) = (case preference_of t l (sh_db S) of
           Some p \<Rightarrow> Some p
         | None \<Rightarrow> if t = iv_teacher_account_id v \<and> l = learner
             then Some \<lparr>bp_teacher_account_id = t, bp_learner_account_id = l, bp_payment_method = iv_default_payment_method v,
                        bp_updated_by_account_id = Some t\<rparr> else None)" by (simp add: T)
qed

lemma redeem_cases:
  assumes run: "redeemInviteAndBindLearnerAtomic c i l S = Inr (Some r, S')" and plain: "plain_ids S"
  obtains v seeded T where "redeem_statement c (pg_uuid i) (pg_uuid l) S = Inr (Some (v, seeded, T))" and "only_grants T S'"
    and "rx_teacherAccountId r = iv_teacher_account_id v"
    and "\<forall>t \<in> set (filter uuid_pattern (iv_default_tariff_ids v)). granted_tariff S' t (pg_uuid l)"
    and "\<forall>p \<in> set (filter uuid_pattern (iv_default_package_ids v)). granted_package S' p (pg_uuid l)"
    and "\<forall>t \<in> set (filter uuid_pattern (iv_default_tariff_ids v)). owned_tariff S (iv_teacher_account_id v) t"
proof -
  have pat: "uuid_pattern i" "uuid_pattern l" using run by (auto simp: redeemInviteAndBindLearnerAtomic_def split: if_splits)
  then obtain v seeded T where st: "redeem_statement c (pg_uuid i) (pg_uuid l) S = Inr (Some (v, seeded, T))"
    using run by (auto simp: redeemInviteAndBindLearnerAtomic_def bindR_eq_Inr_iff split: option.splits)
  let ?tg = "\<lambda>i. grantLearnerTariffAccess c (invite_grant v (pg_uuid l) i)" and ?pg = "\<lambda>i. grantLearnerPackageAccess c (invite_grant v (pg_uuid l) i)"
  obtain ts ab U ps ab' V where g: "grant_each ?tg (filter uuid_pattern (iv_default_tariff_ids v)) (False, T) = Inr (ts, ab, U)"
      "grant_each ?pg (filter uuid_pattern (iv_default_package_ids v)) (ab, U) = Inr (ps, ab', V)"
      "rx_teacherAccountId r = iv_teacher_account_id v" "S' = (if ab' then S else V)"
    using run pat st by (auto simp: redeemInviteAndBindLearnerAtomic_def bindR_eq_Inr_iff)
  note stmt = redeem_statement_Some [OF st]
  have v: "plain_id (iv_teacher_account_id v)"
    using plain stmt(1) find_by_SomeD [of iv_id "pg_uuid i" "sh_invites S" v] by (auto simp: plain_ids_def invite_of_def list_all_iff)
  have l: "plain_id (pg_uuid l)"
  proof -
    have "lower_hex x \<noteq> CHR ''_''" if "x \<noteq> CHR ''_''" for x using that by (simp add: lower_hex_def)
    then show ?thesis using uuid_pattern_plain [OF pat(2)] unfolding plain_id_def pg_uuid_def set_map by (metis imageE)
  qed
  have T: "plain_ids T"
    using plain v stmt(5) set_replace_row [of iv_id "v\<lparr>iv_used_at := Some (pg_now c), iv_used_by_account_id := Some (pg_uuid l)\<rparr>" "sh_invites S"]
    by (auto simp: plain_ids_def stmt(7,8) list_all_iff)
  have 1: "ts = filter uuid_pattern (iv_default_tariff_ids v) \<and> \<not> ab \<and> only_grants T U
      \<and> (\<forall>t \<in> set (filter uuid_pattern (iv_default_tariff_ids v)).
            granted_tariff U t (pg_uuid l) \<and> owned_tariff U (iv_teacher_account_id v) t)"
  proof (rule grant_each_done [where G = "\<lambda>i T. granted_tariff T i (pg_uuid l) \<and> owned_tariff T (iv_teacher_account_id v) i", OF _ _ _ g(1) T])
    show "\<not> isTariffPackageGrantSkippable x" if "plain_ids W" "j \<in> set (filter uuid_pattern (iv_default_tariff_ids v))" "?tg j W = Inl x" for j W x
      using grant_plain(1) [OF that(1) v l uuid_pattern_plain that(3)] that(2) by simp
    show "only_grants W W' \<and> granted_tariff W' j (pg_uuid l) \<and> owned_tariff W' (iv_teacher_account_id v) j"
      if "?tg j W = Inr (q, W')" for j W q W'
      using grant_steps(1) [OF that] grant_owned [OF that] by (simp add: only_grants_def owned_tariff_def tariff_of_def)
  qed (simp add: only_grants_def owned_tariff_def tariff_of_def)
  have 2: "ps = filter uuid_pattern (iv_default_package_ids v) \<and> \<not> ab' \<and> only_grants U V
      \<and> (\<forall>p \<in> set (filter uuid_pattern (iv_default_package_ids v)). granted_package V p (pg_uuid l))"
  proof (rule grant_each_done [where G = "\<lambda>i T. granted_package T i (pg_uuid l)"])
    show "grant_each ?pg (filter uuid_pattern (iv_default_package_ids v)) (False, U) = Inr (ps, ab', V)" using g(2) 1 by simp
    show "plain_ids U" using only_grants_plain T 1 by blast
    show "\<not> isTariffPackageGrantSkippable x" if "plain_ids W" "j \<in> set (filter uuid_pattern (iv_default_package_ids v))" "?pg j W = Inl x" for j W x
      using grant_plain(2) [OF that(1) v l uuid_pattern_plain that(3)] that(2) by simp
    show "only_grants W W' \<and> granted_package W' j (pg_uuid l)" if "?pg j W = Inr (q, W')" for j W q W' using grant_steps(2) [OF that] .
  qed (simp add: only_grants_def)
  have S': "S' = V" using g(4) 2 by simp
  show thesis
  proof (rule that [OF st _ g(3)])
    show "only_grants T S'" using 1 2 S' only_grants_trans by blast
    show "\<forall>t \<in> set (filter uuid_pattern (iv_default_tariff_ids v)). granted_tariff S' t (pg_uuid l)"
      using 1 2 S' by (simp add: only_grants_def)
    show "\<forall>p \<in> set (filter uuid_pattern (iv_default_package_ids v)). granted_package S' p (pg_uuid l)" using 2 S' by simp
    show "\<forall>t \<in> set (filter uuid_pattern (iv_default_tariff_ids v)). owned_tariff S (iv_teacher_account_id v) t"
      using 1 owned_tariff_cong [of U S] stmt(7) by (simp add: only_grants_def)
  qed
qed

lemma used_invite_is_dead:
  assumes "\<exists>v. invite_of S (pg_uuid i) = Some v \<and> iv_used_at v \<noteq> None"
  shows "redeemInviteAndBindLearnerAtomic c i l S = Inr (None, S)"
  using assms by (auto simp: redeemInviteAndBindLearnerAtomic_def redeem_statement_def redeemable_def)

text \<open>
  C25: an invitation that is redeemed was open and its teacher still a teacher; it links this learner with this teacher,
  grants every offer it names, sets the payment method only of a pair that had none, and changes no other link. From
  then on it is used: whoever redeems it again, whenever, gets nothing and changes nothing.
\<close>

theorem invite_binds_one_learner:
  assumes "redeemInviteAndBindLearnerAtomic c i l S = Inr (Some r, S')" and "plain_ids S"
  shows "\<exists>v. invite_of S (pg_uuid i) = Some v \<and> redeemable c S v \<and> rx_teacherAccountId r = iv_teacher_account_id v
     \<and> linked (sh_auth S') (iv_teacher_account_id v) (pg_uuid l)
     \<and> (\<forall>x. (lk_teacher x, lk_learner x) \<noteq> (iv_teacher_account_id v, pg_uuid l)
          \<longrightarrow> (x \<in> set (ad_links (sh_auth S')) \<longleftrightarrow> x \<in> set (ad_links (sh_auth S))))
     \<and> (\<forall>t \<in> set (filter uuid_pattern (iv_default_tariff_ids v)). granted_tariff S' t (pg_uuid l))
     \<and> (\<forall>p \<in> set (filter uuid_pattern (iv_default_package_ids v)). granted_package S' p (pg_uuid l))
     \<and> (\<forall>p. preference_of (iv_teacher_account_id v) (pg_uuid l) (sh_db S) = Some p
          \<longrightarrow> preference_of (iv_teacher_account_id v) (pg_uuid l) (sh_db S') = Some p)
     \<and> (preference_of (iv_teacher_account_id v) (pg_uuid l) (sh_db S) = None
          \<longrightarrow> (\<exists>p. preference_of (iv_teacher_account_id v) (pg_uuid l) (sh_db S') = Some p \<and> bp_payment_method p = iv_default_payment_method v))
     \<and> (\<forall>c' l' S''. invite_of S'' (pg_uuid i) = invite_of S' (pg_uuid i) \<longrightarrow> redeemInviteAndBindLearnerAtomic c' i l' S'' = Inr (None, S''))"
proof (rule redeem_cases [OF assms])
  fix v seeded T
  assume st: "redeem_statement c (pg_uuid i) (pg_uuid l) S = Inr (Some (v, seeded, T))" and T: "only_grants T S'"
    and r: "rx_teacherAccountId r = iv_teacher_account_id v"
    and g: "\<forall>t \<in> set (filter uuid_pattern (iv_default_tariff_ids v)). granted_tariff S' t (pg_uuid l)"
      "\<forall>p \<in> set (filter uuid_pattern (iv_default_package_ids v)). granted_package S' p (pg_uuid l)"
  note stmt = redeem_statement_Some [OF st]
  have id: "iv_id v = pg_uuid i" using stmt(1) unfolding invite_of_def by (rule find_by_key)
  have same: "sh_auth S' = sh_auth T" "sh_db S' = sh_db T" "sh_invites S' = sh_invites T" using T by (simp_all add: only_grants_def)
  have now_used: "invite_of S' (pg_uuid i) = Some (v\<lparr>iv_used_at := Some (pg_now c), iv_used_by_account_id := Some (pg_uuid l)\<rparr>)"
    using stmt(1) unfolding invite_of_def same(3) stmt(5) find_by_replace_row by (simp add: id [symmetric])
  have used: "\<forall>c' l' S''. invite_of S'' (pg_uuid i) = invite_of S' (pg_uuid i) \<longrightarrow> redeemInviteAndBindLearnerAtomic c' i l' S'' = Inr (None, S'')"
    by (intro allI impI) (rule used_invite_is_dead, simp add: now_used)
  have lk: "linked (sh_auth S') (iv_teacher_account_id v) (pg_uuid l)"
    using joined_links_linked [where v = v and learner = "pg_uuid l" and c = c and links = "ad_links (sh_auth S)"] unfolding linked_def list_ex_iff same(1) stmt(4) by blast
  have others: "\<forall>x. (lk_teacher x, lk_learner x) \<noteq> (iv_teacher_account_id v, pg_uuid l)
      \<longrightarrow> (x \<in> set (ad_links (sh_auth S')) \<longleftrightarrow> x \<in> set (ad_links (sh_auth S)))"
    unfolding same(1) stmt(4) by (intro allI impI) (rule joined_links_others)
  have pref: "\<forall>p. preference_of (iv_teacher_account_id v) (pg_uuid l) (sh_db S) = Some p
          \<longrightarrow> preference_of (iv_teacher_account_id v) (pg_uuid l) (sh_db S') = Some p"
      "preference_of (iv_teacher_account_id v) (pg_uuid l) (sh_db S) = None
          \<longrightarrow> (\<exists>p. preference_of (iv_teacher_account_id v) (pg_uuid l) (sh_db S') = Some p \<and> bp_payment_method p = iv_default_payment_method v)"
    unfolding same(2) stmt(6) by (auto split: option.splits)
  show ?thesis by (intro exI [of _ v] conjI) (fact stmt(1) stmt(2) r lk others g pref used)+
qed

definition sample_invite :: invite_row where
  "sample_invite = \<lparr>iv_id = uuid_of CHR ''1'', iv_teacher_account_id = uuid_of CHR ''c'', iv_created_at = 0, iv_expires_at = 10 ^ 18,
     iv_used_at = None, iv_used_by_account_id = None, iv_revoked_at = None, iv_default_payment_method = ''postpaid'',
     iv_default_tariff_ids = [uuid_of CHR ''7''], iv_default_package_ids = [], iv_teacher_note_seed = Some (js ''new'')\<rparr>"

definition inviting_school :: "db \<Rightarrow> school" where
  "inviting_school d = sample_school\<lparr>sh_db := d, sh_invites := [sample_invite],
     sh_auth := sample_auth\<lparr>ad_accounts := [sample_account, sample_account\<lparr>aa_id := uuid_of CHR ''c''\<rparr>],
       ad_roles := [\<lparr>ro_account_id = uuid_of CHR ''c'', ro_role = RoleTeacher, ro_granted_by = None\<rparr>]\<rparr>\<rparr>"

lemmas inviting_defs = inviting_school_def sample_invite_def sample_school_def sample_auth_def sample_account_def sample_tariff_def

lemma pattern_uuid_of: "hex_digit ch \<Longrightarrow> uuid_pattern (uuid_of ch)"
  by (simp add: uuid_pattern_def uuid_of_def replicate_8 replicate_4 replicate_12 upt_conv_Cons hex_digit_def)

lemma inviting_school_plain: "plain_ids (inviting_school d)"
  by (simp add: plain_ids_def plain_id_def inviting_defs uuid_of_def replicate_8 replicate_4 replicate_12)

lemma inviting_redeemed:
  assumes "learner_billing_preferences d = []"
  shows "\<exists>S'. redeemInviteAndBindLearnerAtomic sample_clock (uuid_of CHR ''1'') (uuid_of CHR ''a'') (inviting_school d)
     = Inr (Some \<lparr>rx_teacherAccountId = uuid_of CHR ''c'', rx_defaultPaymentMethod = ''postpaid'', rx_seededPrefInserted = True,
                  rx_seededTariffIds = [uuid_of CHR ''7''], rx_seededPackageIds = []\<rparr>, S')
     \<and> sh_tariffs S' = [sample_tariff]
     \<and> sh_db S' = d\<lparr>learner_billing_preferences := [\<lparr>bp_teacher_account_id = uuid_of CHR ''c'', bp_learner_account_id = uuid_of CHR ''a'',
          bp_payment_method = ''postpaid'', bp_updated_by_account_id = Some (uuid_of CHR ''c'')\<rparr>]\<rparr>"
proof -
  have "lower_hex CHR ''1'' = CHR ''1''" "lower_hex CHR ''a'' = CHR ''a''" by (simp_all add: lower_hex_def)
  moreover have "uuid_pattern (uuid_of CHR ''1'')" "uuid_pattern (uuid_of CHR ''a'')" "uuid_pattern (uuid_of CHR ''7'')"
    by (simp_all add: pattern_uuid_of hex_digit_def)
  ultimately show ?thesis using assms
    by (simp add: redeemInviteAndBindLearnerAtomic_def redeem_statement_def invite_of_def redeemable_def holds_role_def has_account_def
        find_by_def seed_preference_def preference_of_def empty_db_def update_account_def joined_links_def inviting_defs sample_clock_def
        invite_grant_def grantLearnerTariffAccess_def pg_grant_def access_refusal_def tariff_of_def linked_def granted_access_row_def
        isValidInviteDefaultPaymentMethod_def access_key_def Let_def)
qed

lemma invite_binds_one_learner_witness:
  "\<exists>r S'. redeemInviteAndBindLearnerAtomic sample_clock (uuid_of CHR ''1'') (uuid_of CHR ''a'') (inviting_school empty_db) = Inr (Some r, S')
     \<and> redeemInviteAndBindLearnerAtomic sample_clock (uuid_of CHR ''1'') (uuid_of CHR ''a'') S' = Inr (None, S')"
proof -
  obtain r S' where run: "redeemInviteAndBindLearnerAtomic sample_clock (uuid_of CHR ''1'') (uuid_of CHR ''a'') (inviting_school empty_db) = Inr (Some r, S')"
    using inviting_redeemed [of empty_db] by (auto simp: empty_db_def)
  from invite_binds_one_learner [OF run inviting_school_plain] run show ?thesis by blast
qed

section \<open>An offer that is gone\<close>

lemma redeemable_not_None:
  assumes "invite_of S (pg_uuid i) = Some v" and "redeemable c S v" and "uuid_pattern i" and "uuid_pattern l"
  shows "redeemInviteAndBindLearnerAtomic c i l S \<noteq> Inr (None, S')"
  using assms by (auto simp: redeemInviteAndBindLearnerAtomic_def redeem_statement_def bindR_eq_Inr_iff Let_def split: prod.splits if_splits)

text \<open>
  C28: once a tariff that an open invitation names has been deleted, the invitation can no longer be redeemed by anybody:
  every attempt ends in an exception, with nothing written, although a grant that is refused is meant to be passed over.
\<close>

theorem gone_offer_blocks_invite:
  assumes "deleteTariffIfUnreferenced t S0 = Inr (Deleted d, S)" and "plain_ids S" and "invite_of S (pg_uuid i) = Some v"
    and "redeemable c S v" and "pg_uuid t \<in> set (iv_default_tariff_ids v)" and "uuid_pattern t"
    and "uuid_pattern i" and "uuid_pattern l"
  shows "\<exists>x. redeemInviteAndBindLearnerAtomic c i l S = Inl x"
proof (cases "redeemInviteAndBindLearnerAtomic c i l S")
  case (Inr q)
  obtain ro S' where q: "q = (ro, S')" by (cases q)
  then obtain r where run: "redeemInviteAndBindLearnerAtomic c i l S = Inr (Some r, S')"
    using Inr redeemable_not_None [OF assms(3,4,7,8)] by (cases ro) auto
  have gone: "tariff_of S (pg_uuid t) = None"
    using assms(1,6) by (auto simp: deleteTariffIfUnreferenced_def uuid_param_def Let_def tariff_of_def find_by_def find_None_iff
        split: option.splits if_splits)
  show ?thesis
  proof (rule redeem_cases [OF run assms(2)])
    fix v' seeded T
    assume st: "redeem_statement c (pg_uuid i) (pg_uuid l) S = Inr (Some (v', seeded, T))"
      and own: "\<forall>t \<in> set (filter uuid_pattern (iv_default_tariff_ids v')). owned_tariff S (iv_teacher_account_id v') t"
    have "v' = v" using redeem_statement_Some(1) [OF st] assms(3) by simp
    then have "owned_tariff S (iv_teacher_account_id v) (pg_uuid t)" using own assms(5,6) by simp
    then show ?thesis using gone by (simp add: owned_tariff_def)
  qed
qed blast

lemma gone_offer_blocks_invite_witness:
  "\<exists>d S. deleteTariffIfUnreferenced (uuid_of CHR ''7'') (inviting_school empty_db) = Inr (Deleted d, S)
     \<and> (\<exists>x. redeemInviteAndBindLearnerAtomic sample_clock (uuid_of CHR ''1'') (uuid_of CHR ''a'') S = Inl x)"
proof -
  have hex: "lower_hex CHR ''1'' = CHR ''1''" "lower_hex CHR ''7'' = CHR ''7''" by (simp_all add: lower_hex_def)
  have pat: "uuid_pattern (uuid_of CHR ''1'')" "uuid_pattern (uuid_of CHR ''a'')" "uuid_pattern (uuid_of CHR ''7'')"
    by (simp_all add: pattern_uuid_of hex_digit_def)
  obtain d S where del: "deleteTariffIfUnreferenced (uuid_of CHR ''7'') (inviting_school empty_db) = Inr (Deleted d, S)"
    and S: "S = (inviting_school empty_db)\<lparr>sh_tariffs := []\<rparr>"
    using pat by (auto simp: deleteTariffIfUnreferenced_def uuid_param_def hex inviting_defs tariff_of_def find_by_def empty_db_def Let_def)
  have "plain_ids S" using inviting_school_plain by (simp add: S plain_ids_def)
  moreover have "invite_of S (pg_uuid (uuid_of CHR ''1'')) = Some sample_invite" "redeemable sample_clock S sample_invite"
    "pg_uuid (uuid_of CHR ''7'') \<in> set (iv_default_tariff_ids sample_invite)"
    by (simp_all add: S hex invite_of_def find_by_def inviting_defs redeemable_def holds_role_def sample_clock_def)
  ultimately show ?thesis using gone_offer_blocks_invite [OF del _ _ _ _ pat(3,1,2)] del by blast
qed

section \<open>From the invitation to the first lesson\<close>

lemma booking_view_preference [simp]: "preference_of t l (booking_view S) = preference_of t l (sh_db S)"
  by (simp add: booking_view_def preference_of_def)

lemma granted_is_visible:
  "granted_tariff S t l \<Longrightarrow> list_ex (\<lambda>a. ta_tariff_id a = t \<and> ta_learner_account_id a = l \<and> ta_revoked_at a = None)
     (learner_tariff_access (booking_view S))"
  by (auto simp: granted_tariff_def booking_view_def access_view_def list_ex_iff)

text \<open>A booking of a slot whose tariff is granted, by a pair that pays afterwards.\<close>

lemma first_booking:
  assumes "\<exists>p. preference_of t l d = Some p \<and> bp_payment_method p = ''postpaid''"
    and "list_ex (\<lambda>a. ta_tariff_id a = k \<and> ta_learner_account_id a = l \<and> ta_revoked_at a = None) (learner_tariff_access d)"
    and "slot_by_id d (pg_uuid slotId) = Some row" and "uuid_pattern slotId"
    and "bookable c l (pinned_teacher options) d row" and "ls_teacher_account_id row = t" and "ls_tariff_id row = Some k"
    and "bookSlot billing c slotId l actor options d = Inr (res, d')"
  shows "res = Inl BookPendingPackageGrant
    \<or> (\<exists>slot b. res = Inr (slot, b) \<and> ls_learner_account_id slot = Some l \<and> slot_by_id d' (pg_uuid slotId) = Some slot)"
proof -
  obtain ro d1 where res: "reserve_slot c (pg_uuid slotId) l actor options d = Inr (ro, d1)"
    using assms(4,8) by (auto simp: bookSlot_def bindR_eq_Inr_iff)
  then obtain slot where ro: "ro = Some slot"
    using assms(3,5) by (auto simp: reserve_slot_def pg_update_slot_def Let_def split: if_splits)
  from res [unfolded ro] obtain r agenda where r: "slot_by_id d (pg_uuid slotId) = Some r"
      "slot = snapshot_on_book d (booked_row c l actor agenda r)" and d1: "d1 = d\<lparr>lesson_slots := replace_row ls_id slot (lesson_slots d)\<rparr>"
      and look: "\<And>j. slot_by_id d1 j = (if j = pg_uuid slotId then Some slot else slot_by_id d j)"
    by (rule reserve_slot_SomeE) blast
  have slot: "ls_teacher_account_id slot = t" "ls_tariff_id slot = Some k" "ls_learner_account_id slot = Some l"
    using r assms(3,6,7) by simp_all
  have visible: "\<not> private_no_access l slot d1"
    using assms(2) find_by_key [of pt_id k "pricing_tariffs d1"] by (auto simp: private_no_access_def slot d1 tariff_by_id_def split: option.split)
  have m: "getPaymentMethodForPairTx (ls_teacher_account_id slot) l d1 = Inr MPostpaid"
    using assms(1) by (auto simp: getPaymentMethodForPairTx_def preference_of_def slot d1 assertMethod_def)
  show ?thesis
  proof (cases billing)
    case False
    then show ?thesis using assms(4,8) res ro look slot(3) by (auto simp: bookSlot_def)
  next
    case True
    then have bill: "bill_booking c l actor slot d d1 = Inr (res, d')" using assms(4,8) res ro visible by (simp add: bookSlot_def)
    obtain cr d2 where con: "consumePackageUnit c l (ls_id slot) (ls_duration_minutes slot)
        (book_billing_actor actor) (ls_teacher_account_id slot) d1 = (cr, d2)" by (metis prod.exhaust)
    have "slot_by_id d2 (pg_uuid slotId) = Some slot"
      using consumePackageUnit_frame [of c l "ls_id slot" "ls_duration_minutes slot" "book_billing_actor actor" "ls_teacher_account_id slot" d1]
        consumePackageUnit_not_Consumed [OF con] con look by (cases cr) (simp_all add: slot_by_id_def)
    then show ?thesis using bill slot(2,3) unfolding bill_booking_def m bindR.simps con
      by (cases cr) (auto split: if_splits)
  qed
qed

text \<open>
  C26: a learner who joined through an invitation that sets lessons to be paid afterwards can book at once the open slots
  of that teacher for the tariffs it names, private ones included: the only refusal left is that of a package that is paid
  and not yet credited.
\<close>

theorem invited_learner_can_book:
  assumes "redeemInviteAndBindLearnerAtomic c i l S = Inr (Some r, S')" and "plain_ids S" and "invite_of S (pg_uuid i) = Some v"
    and "iv_default_payment_method v = ''postpaid''" and "preference_of (iv_teacher_account_id v) (pg_uuid l) (sh_db S) = None"
    and "slot_by_id (booking_view S') (pg_uuid slotId) = Some row" and "uuid_pattern slotId"
    and "bookable c' (pg_uuid l) (pinned_teacher options) (booking_view S') row"
    and "ls_teacher_account_id row = iv_teacher_account_id v" and "ls_tariff_id row = Some t"
    and "t \<in> set (iv_default_tariff_ids v)" and "uuid_pattern t"
    and "bookSlot billing c' slotId (pg_uuid l) actor options (booking_view S') = Inr (res, d')"
  shows "res = Inl BookPendingPackageGrant
    \<or> (\<exists>slot b. res = Inr (slot, b) \<and> ls_learner_account_id slot = Some (pg_uuid l) \<and> slot_by_id d' (pg_uuid slotId) = Some slot)"
proof (rule redeem_cases [OF assms(1,2)])
  fix v' seeded T
  assume st: "redeem_statement c (pg_uuid i) (pg_uuid l) S = Inr (Some (v', seeded, T))" and T: "only_grants T S'"
    and g: "\<forall>t \<in> set (filter uuid_pattern (iv_default_tariff_ids v')). granted_tariff S' t (pg_uuid l)"
  have v': "v' = v" using redeem_statement_Some(1) [OF st] assms(3) by simp
  have pref: "\<exists>p. preference_of (iv_teacher_account_id v) (pg_uuid l) (booking_view S') = Some p \<and> bp_payment_method p = ''postpaid''"
    using T redeem_statement_Some(6) [OF st, of "iv_teacher_account_id v" "pg_uuid l"] assms(4,5) by (simp add: only_grants_def v')
  have seen: "list_ex (\<lambda>a. ta_tariff_id a = t \<and> ta_learner_account_id a = pg_uuid l \<and> ta_revoked_at a = None)
      (learner_tariff_access (booking_view S'))"
    using g assms(11,12) by (intro granted_is_visible) (simp add: v')
  show ?thesis
    using first_booking [OF pref seen assms(6-10,13)] by blast
qed

text \<open>The witness: learner \<open>a\<close> joins teacher \<open>c\<close> and books the slot that \<open>c\<close> has open.\<close>

definition invited_slot :: slot_row where
  "invited_slot = sample_open\<lparr>ls_teacher_account_id := uuid_of CHR ''c'', ls_tariff_id := Some (uuid_of CHR ''7'')\<rparr>"

definition invited_db :: db where "invited_db = empty_db\<lparr>lesson_slots := [invited_slot]\<rparr>"

lemmas invited_defs = invited_db_def invited_slot_def sample_open_def sample_slot_def empty_db_def sample_clock_def

lemma invited_slot_bookable:
  assumes "teacher_external_busy_intervals d = []"
  shows "bookable sample_clock (uuid_of CHR ''a'') (pinned_teacher no_options) d invited_slot"
  using assms by (simp add: bookable_def busy_overlap_def no_options_def pinned_teacher_def invited_defs)

lemma invited_slot_books:
  assumes "lesson_slots d = [invited_slot]" and "teacher_external_busy_intervals d = []"
    and "tariff_by_id d (uuid_of CHR ''7'') = Some (tariff_view sample_tariff)"
    and "package_purchases d = []"
    and "payment_orders d = []" and "learner_billing_preferences d = [\<lparr>bp_teacher_account_id = uuid_of CHR ''c'', bp_learner_account_id = uuid_of CHR ''a'',
          bp_payment_method = ''postpaid'', bp_updated_by_account_id = Some (uuid_of CHR ''c'')\<rparr>]"
  shows "\<exists>slot d'. bookSlot True sample_clock (uuid_of CHR ''1'') (uuid_of CHR ''a'') BookLearner no_options d
     = Inr (Inr (slot, BillPostpaid (uuid_of CHR ''7'') 150000 ''RUB''), d')"
proof -
  define slot where "slot = snapshot_on_book d (booked_row sample_clock (uuid_of CHR ''a'') BookLearner None invited_slot)"
  note ok = invited_slot_bookable [OF assms(2)]
  have r: "slot_by_id d (uuid_of CHR ''1'') = Some invited_slot"
    using assms(1) by (simp add: slot_by_id_def find_by_def invited_defs)
  have chk: "slot_check slot"
    using sample_open_check by (simp add: slot_def slot_check_defs booked_row_def snapshot_on_book_def snapshot_value_def invited_slot_def assms(3)
        tariff_view_def sample_tariff_def sample_open_def sample_slot_def)
  have "\<not> slot_conflict d slot" by (simp add: slot_conflict_def assms(1) slot_def invited_slot_def)
  moreover have "snapshot_frozen invited_slot slot" by (simp add: slot_def snapshot_frozen_def invited_slot_def sample_open_def)
  moreover have hex: "hex_digit CHR ''1''" "lower_hex CHR ''1'' = CHR ''1''" by (simp_all add: hex_digit_def lower_hex_def)
  ultimately have res: "reserve_slot sample_clock (uuid_of CHR ''1'') (uuid_of CHR ''a'') BookLearner no_options d
      = Inr (Some slot, d\<lparr>lesson_slots := replace_row ls_id slot (lesson_slots d)\<rparr>)" (is "_ = Inr (_, ?d1)")
    using ok r chk by (simp add: reserve_slot_def pg_update_slot_def no_options_def sanitizeAgenda_def Let_def slot_def)
  have f: "ls_teacher_account_id slot = uuid_of CHR ''c''" "ls_tariff_id slot = Some (uuid_of CHR ''7'')" "ls_id slot = uuid_of CHR ''1''"
    by (simp_all add: slot_def invited_slot_def sample_open_def sample_slot_def)
  have t: "tariff_by_id ?d1 (uuid_of CHR ''7'') = Some (tariff_view sample_tariff)" using assms(3) by (simp add: tariff_by_id_def)
  have visible: "\<not> private_no_access (uuid_of CHR ''a'') slot ?d1"
    by (simp add: private_no_access_def f t tariff_view_def sample_tariff_def)
  have m: "getPaymentMethodForPairTx (ls_teacher_account_id slot) (uuid_of CHR ''a'') ?d1 = Inr MPostpaid"
    using assms(6) by (simp add: getPaymentMethodForPairTx_def preference_of_def f assertMethod_def)
  have con: "consumePackageUnit sample_clock (uuid_of CHR ''a'') (ls_id slot) (ls_duration_minutes slot) ActorLearner
      (ls_teacher_account_id slot) ?d1 = (NoEligiblePackage, ?d1)"
    using assms(4) by (simp add: consumePackageUnit_def)
  have pend: "\<not> accountHasPendingPackageGrantForDuration sample_clock (uuid_of CHR ''a'') (ls_duration_minutes slot)
      (Some (ls_teacher_account_id slot)) ?d1"
    using assms(5) by (simp add: accountHasPendingPackageGrantForDuration_def)
  have "bill_booking sample_clock (uuid_of CHR ''a'') BookLearner slot d ?d1 = Inr (Inr (slot, BillPostpaid (uuid_of CHR ''7'') 150000 ''RUB''), ?d1)"
    using pend unfolding bill_booking_def m bindR.simps by (simp add: con book_billing_actor_def f(2) postpaid_billing_def t tariff_view_def sample_tariff_def)
  then show ?thesis using visible by (simp add: bookSlot_def res hex pattern_uuid_of)
qed

lemma invited_learner_can_book_witness:
  "\<exists>r S' slot d'. redeemInviteAndBindLearnerAtomic sample_clock (uuid_of CHR ''1'') (uuid_of CHR ''a'') (inviting_school invited_db) = Inr (Some r, S')
     \<and> bookSlot True sample_clock (uuid_of CHR ''1'') (uuid_of CHR ''a'') BookLearner no_options (booking_view S')
         = Inr (Inr (slot, BillPostpaid (uuid_of CHR ''7'') 150000 ''RUB''), d')
     \<and> ls_learner_account_id slot = Some (uuid_of CHR ''a'')"
proof -
  have hex: "pg_uuid (uuid_of CHR ''1'') = uuid_of CHR ''1''" "pg_uuid (uuid_of CHR ''a'') = uuid_of CHR ''a''" by (simp_all add: lower_hex_def)
  obtain r S' where run: "redeemInviteAndBindLearnerAtomic sample_clock (uuid_of CHR ''1'') (uuid_of CHR ''a'') (inviting_school invited_db) = Inr (Some r, S')"
    and S': "sh_tariffs S' = [sample_tariff]" "sh_db S' = invited_db\<lparr>learner_billing_preferences :=
      [\<lparr>bp_teacher_account_id = uuid_of CHR ''c'', bp_learner_account_id = uuid_of CHR ''a'', bp_payment_method = ''postpaid'',
        bp_updated_by_account_id = Some (uuid_of CHR ''c'')\<rparr>]\<rparr>"
    using inviting_redeemed [of invited_db] by (auto simp: invited_db_def empty_db_def)
  let ?d = "booking_view S'"
  have d: "lesson_slots ?d = [invited_slot]" "teacher_external_busy_intervals ?d = []" "package_purchases ?d = []" "payment_orders ?d = []"
      "tariff_by_id ?d (uuid_of CHR ''7'') = Some (tariff_view sample_tariff)"
      "learner_billing_preferences ?d = [\<lparr>bp_teacher_account_id = uuid_of CHR ''c'', bp_learner_account_id = uuid_of CHR ''a'',
          bp_payment_method = ''postpaid'', bp_updated_by_account_id = Some (uuid_of CHR ''c'')\<rparr>]"
    by (simp_all add: booking_view_def S' invited_db_def empty_db_def tariff_by_id_def find_by_def tariff_view_def sample_tariff_def)
  from invited_slot_books [OF d(1,2,5,3,4,6)] obtain slot d' where book: "bookSlot True sample_clock (uuid_of CHR ''1'') (pg_uuid (uuid_of CHR ''a'')) BookLearner no_options ?d
     = Inr (Inr (slot, BillPostpaid (uuid_of CHR ''7'') 150000 ''RUB''), d')" unfolding hex by blast
  have "slot_by_id ?d (pg_uuid (uuid_of CHR ''1'')) = Some invited_slot"
    using d(1) by (simp add: slot_by_id_def find_by_def invited_slot_def sample_open_def sample_slot_def hex)
  note slot = this
  have v: "invite_of (inviting_school invited_db) (pg_uuid (uuid_of CHR ''1'')) = Some sample_invite"
      "preference_of (iv_teacher_account_id sample_invite) (pg_uuid (uuid_of CHR ''a'')) (sh_db (inviting_school invited_db)) = None"
    by (simp_all add: invite_of_def find_by_def inviting_school_def hex sample_invite_def preference_of_def invited_db_def empty_db_def
        sample_school_def)
  have w: "iv_default_payment_method sample_invite = ''postpaid''" "ls_teacher_account_id invited_slot = iv_teacher_account_id sample_invite"
      "ls_tariff_id invited_slot = Some (uuid_of CHR ''7'')" "uuid_of CHR ''7'' \<in> set (iv_default_tariff_ids sample_invite)"
    by (simp_all add: sample_invite_def invited_slot_def)
  have pat: "uuid_pattern (uuid_of CHR ''1'')" "uuid_pattern (uuid_of CHR ''7'')" by (simp_all add: pattern_uuid_of hex_digit_def)
  have bk: "bookable sample_clock (pg_uuid (uuid_of CHR ''a'')) (pinned_teacher no_options) ?d invited_slot"
    unfolding hex by (rule invited_slot_bookable [OF d(2)])
  have "Inr (slot, BillPostpaid (uuid_of CHR ''7'') 150000 ''RUB'') = Inl BookPendingPackageGrant
    \<or> (\<exists>slot2 b. Inr (slot, BillPostpaid (uuid_of CHR ''7'') 150000 ''RUB'') = (Inr (slot2, b) :: book_refusal + _)
        \<and> ls_learner_account_id slot2 = Some (pg_uuid (uuid_of CHR ''a'')) \<and> slot_by_id d' (pg_uuid (uuid_of CHR ''1'')) = Some slot2)"
    by (rule invited_learner_can_book [where i = "uuid_of CHR ''1''" and l = "uuid_of CHR ''a''" and slotId = "uuid_of CHR ''1''" and row = invited_slot
          and t = "uuid_of CHR ''7''" and v = sample_invite and c' = sample_clock and options = no_options and S' = S']) (fact run inviting_school_plain v w slot pat bk book)+
  then have "ls_learner_account_id slot = Some (uuid_of CHR ''a'')" by (simp add: hex)
  with run book show ?thesis unfolding hex by blast
qed

end
