(* ===== verification/Spec2Isabelle.thy ===== *)
theory Spec2Isabelle
  imports System Sbp_Reads Checkout Calendar_Detect Calendar_Retries Invites
begin

text \<open>
  LevelChannel is a service on which teachers publish lesson slots, learners book and pay for them,
  and the platform keeps the account of who owes what. It is a TypeScript program over one Postgres
  database: the operations are functions of \<open>src/lib\<close> whose SQL statements are inline, the schema is
  \<open>src/migrations\<close>. This development models the operations that decide and write, with the
  constraints and triggers of the schema they rely on.

  \<^bold>\<open>How code is represented.\<close> A table is a list (or a map) of records with the columns of the table;
  the database of the lessons is the record \<open>db\<close>. An operation is a function from its arguments and
  the state to \<open>exn + (answer \<times> state)\<close>: \<open>Inl\<close> is an exception that leaves the function, an answer
  \<open>{ ok: false }\<close> is a value of its own. One operation is one transaction unless the code reads
  outside of it; such an earlier read is an argument (\<open>pre\<close>), so that everything that may happen in
  between is covered. The clock of the database and the clock of the process are arguments
  (\<open>clock\<close>), as are the ids that the database generates. Timestamps are microseconds since the epoch
  and \<open>Date\<close>s are milliseconds; JavaScript text is its list of UTF-16 code units; ids are the text of
  their uuid; money is an integer number of kopecks, with the range of the column written out where
  it matters. Cryptographic functions, time zone data, the URL parser and the network are
  arguments.

  \<^bold>\<open>The theories.\<close>
  \<^item> \<open>Prelude\<close>: errors as values, text, numbers, instants, keyed lists of rows. \<open>Steps\<close>: the locales of
    systems that move in steps and keep an invariant.
  \<^item> \<open>Database\<close>: the rows and the statements on \<open>lesson_slots\<close> and \<open>lesson_completions\<close> with their
    CHECK constraints, the unique lane of a teacher and a start, the snapshot trigger and the completion triggers.
    \<open>Invariants\<close>: \<open>ledger_inv\<close>, the agreements between the tables that no constraint
    states, and what each kind of statement keeps of it.
  \<^item> \<open>Policy\<close> and \<open>Validation\<close> (\<open>scheduling/policy.ts\<close>, \<open>slots/validation.ts\<close>, \<open>slots/types.ts\<close>,
    \<open>slots/internal.ts\<close>): the cancel window, the validators and the bulk preview. The validator of a
    start is proved equal to the constraints of the database; the constraint on lessons across midnight
    is proved vacuous.
  \<^item> \<open>Consumption\<close> (\<open>billing/consumption.ts\<close>, \<open>billing/packages\<close>): package units. The locale
    \<open>unit_ledger\<close> is the contract the lesson flows rely on; consuming and restoring is a round trip.
  \<^item> \<open>Paid_State\<close> (\<open>billing/paid-state.ts\<close>, \<open>packages/debt.ts\<close>, \<open>billing/reversals.ts\<close>): the reads that
    say whether a lesson is paid or owed, and how they agree.
  \<^item> \<open>Ledger\<close> (\<open>teacher-ledger/\<close>): completions and settlements; the loop of a settlement is proved
    equal to a closed form.
  \<^item> \<open>Lifecycle\<close>, \<open>Change_Status\<close>, \<open>Personal_Events\<close>, \<open>Booking\<close>, \<open>Cancel\<close>, \<open>Slot_Write\<close>, \<open>Assign\<close>,
    \<open>Reschedule\<close>: one theory per file of \<open>src/lib/scheduling/slots\<close> that writes lessons. Each has
    the operations with every branch, that they keep \<open>ledger_inv\<close>, and a theorem that says what the
    operation does on success and on refusal.
  \<^item> \<open>System\<close>: all these operations as one step relation \<open>db_step\<close>; the invariant of every reachable
    database is the first theorem below.
  \<^item> \<open>Sbp_Methods\<close>, \<open>Sbp_Claims\<close>, \<open>Sbp_Reads\<close> (\<open>payments/sbp-methods.ts\<close>, \<open>sbp-claims.ts\<close>,
    \<open>sbp-refunds.ts\<close>, \<open>util/phone.ts\<close>): payments from learner to teacher outside the platform: the
    payment details, the journal of claims as a step relation with its invariant, a refinement of the
    abstract machine of a claim, and the reads that decide what may be claimed.
  \<^item> \<open>Rate_Limit\<close> (\<open>security/rate-limit.ts\<close>, \<open>request.ts\<close>, \<open>account-rate-limit.ts\<close>): the limiter in
    Postgres and its fallback in memory; how many requests pass in a window when the database fails at any of the calls,
    and that the two answer alike.
  \<^item> \<open>Replay\<close> (\<open>security/idempotency.ts\<close>): the interface of a table in which the first answer to a key stays,
    and the idempotent requests over it. Nothing reserves a key between its lookup and its save, so the executor acts on
    the table as well: it stands for the work of the request and for all that other requests do meanwhile. That two
    requests which overlap may both run is a lemma; the theorem is about requests that start after the save.
  \<^item> \<open>Orders\<close> (\<open>payments/types.ts\<close>, \<open>store-postgres.ts\<close>, \<open>provider/lifecycle.ts\<close>): payment orders, their
    transitions as a refinement of a machine of statuses, and what is announced.
  \<^item> \<open>Webhook\<close> (\<open>payments/cloudpayments-webhook.ts\<close>, \<open>webhook-dedup.ts\<close>, \<open>cloudpayments-route.ts\<close>): the
    notifications of the acquirer, for every handler and every failure of the infrastructure: what may
    change something, what is answered from the table of deliveries, and what a throwing handler causes.
  \<^item> \<open>Auth\<close> (\<open>auth/accounts.ts\<close>, \<open>sessions.ts\<close>, \<open>single-use-tokens.ts\<close>, \<open>teacher-scope.ts\<close> and the routes
    \<open>reset-confirm\<close> and \<open>verify\<close>): accounts, roles, sessions, single-use tokens and the teacher of a learner.
  \<^item> \<open>Subscription\<close> and \<open>Promo\<close> (\<open>billing/teacher-subscription.ts\<close>, \<open>promo/codes.ts\<close>, the route that sets a
    plan): the paid periods of a teacher, their cancellation and expiry, and the vouchers.
  \<^item> \<open>Allocation\<close> (\<open>payments/allocations.ts\<close>, \<open>slot-binding.ts\<close>, \<open>settle-paid-slots.ts\<close>): which lesson a paid
    order pays, and how the reads of it agree.
  \<^item> \<open>Grant\<close> (\<open>billing/package-grant.ts\<close>): who gets the package that a paid order buys, and that it is one.
  \<^item> \<open>Pay_Handler\<close> (\<open>payments/tokens.ts\<close> and the route \<open>pay\<close>): the handler of a payment over all of these, what it
    may write, and what happens when it runs again.
  \<^item> \<open>Catalog\<close> and \<open>Checkout\<close> (\<open>payments/catalog.ts\<close>, \<open>provider/checkout.ts\<close>, the routes of a payment): what a payer
    may type, and from the click of a customer to the order, saved cards, 3-D Secure and the gate of a receipt.
  \<^item> \<open>Event_Id\<close>, \<open>Calendar_State\<close>, \<open>Calendar_Push\<close>, \<open>Calendar_Intents\<close>, \<open>Calendar_Reconcile\<close>, \<open>Calendar_Pull\<close> and
    \<open>Calendar_Detect\<close> (\<open>src/lib/calendar\<close>): the sync with an external calendar. A program here commits statement
    by statement, so it returns the state also when it throws (\<open>prog\<close>); the network is an argument that may change
    the tables while it answers, so what other processes do meanwhile is covered. The tables and tokens; the queue of
    pushes and its state machine (by the locale \<open>moving\<close> of programs that keep an invariant along moves); the intents
    left by a cancellation, orphaned bindings and the daily comparison; the pull of busy times, which the booking
    consults, and the conflicts of booked lessons. A drain takes the number of jobs the source takes at most (\<open>maxJobs\<close>).
    \<open>Calendar_Retries\<close>: that the retries of the push queue end, by the attempts that are left.
  \<^item> \<open>Tariffs\<close> and \<open>Roster\<close> (\<open>pricing/tariffs.ts\<close>, \<open>packages/catalog.ts\<close>, \<open>learner-tariff-access.ts\<close>,
    \<open>learner-package-access.ts\<close>, \<open>learners/teacher-note.ts\<close>, the route \<open>unlink\<close>): what a teacher offers and to whom; the
    editor of tariffs as a step relation, over any bookings and deletions of lessons, whose table stays typed and whose
    terms stay fixed while a slot names them.
  \<^item> \<open>Invites\<close> (\<open>auth/teacher-invites.ts\<close>): tokens (base64url, round trip) and the redemption of an invitation, what it
    binds and grants, and its composition with the booking over \<open>booking_view\<close>, the tables a booking reads.

  \<^bold>\<open>Bounds.\<close> No definition uses fuel: the recursions are on lists of rows, candidates, days or events, or on the
  number of jobs a worker takes at most, so every operation is total. Overflow of an \<open>integer\<close> column is the exception 22003.

  \<^bold>\<open>Not modelled.\<close> The React pages and components (\<open>src/app\<close>, \<open>src/components\<close>) and the HTTP routes, which
  parse a request and call the operations; mails, push and Telegram messages, which are sent after
  the commit and whose failures are caught; the channels on which the calendar announces changes; audit rows with encrypted columns, which nothing reads for a
  decision; reports, content, consent texts and analytics; scripts and deployment.
  Not yet modelled either: the login and the registration.
\<close>

section \<open>What holds in every reachable state\<close>

lemma ledger_inv_readings:
  assumes inv: "ledger_inv d"
  shows "x \<in> set (lesson_slots d) \<Longrightarrow> y \<in> set (lesson_slots d) \<Longrightarrow> ls_id x \<noteq> ls_id y \<Longrightarrow> \<not> same_lane x y"
    and "(completion_of_slot d i \<noteq> None) \<longleftrightarrow> (\<exists>r. slot_by_id d i = Some r \<and> billable r)"
    and "0 \<le> free_units d p"
    and "held_unit d i = Some p \<Longrightarrow> \<exists>r pp. slot_by_id d i = Some r \<and> holds_unit r
      \<and> purchase_by_id d p = Some pp \<and> purchase_fits pp r"
    and "cr \<in> set (lesson_completions d) \<Longrightarrow> 0 \<le> covered d (lc_id cr) \<and> covered d (lc_id cr) \<le> lc_amount_kopecks cr"
proof -
  have keys: "keys_ok d" using inv by (rule ledger_inv_keys)
  show "\<not> same_lane x y"
    if "x \<in> set (lesson_slots d)" "y \<in> set (lesson_slots d)" "ls_id x \<noteq> ls_id y"
    using inv that by (auto simp: ledger_inv_def schema_ok_def lanes_ok_def)
  show "(completion_of_slot d i \<noteq> None) \<longleftrightarrow> (\<exists>r. slot_by_id d i = Some r \<and> billable r)" (is "?a \<longleftrightarrow> ?b")
  proof
    assume ?a
    then obtain cr where "cr \<in> set (lesson_completions d)" "lc_slot_id cr = i"
      using completion_of_slot_SomeD by blast
    with inv have "completion_backed d cr" by (simp add: ledger_inv_def completion_sync_def)
    then obtain r where "r \<in> set (lesson_slots d)" "ls_id r = i" "billable r"
      using \<open>lc_slot_id cr = i\<close> by (auto simp: completion_backed_def billable_def split: if_splits)
    then show ?b using slot_by_id_mem [OF keys] by blast
  next
    assume ?b
    then obtain r where r: "r \<in> set (lesson_slots d)" "ls_id r = i" "billable r"
      using slot_by_id_SomeD by blast
    then show ?a using inv by (auto simp: ledger_inv_def completion_sync_def completion_of_slot_None_iff)
  qed
  show "0 \<le> free_units d p"
    using inv by (auto simp: free_units_eq purchase_by_id_def ledger_inv_def capacity_ok_def
        dest!: find_by_SomeD split: option.split)
  show "\<exists>r pp. slot_by_id d i = Some r \<and> holds_unit r \<and> purchase_by_id d p = Some pp \<and> purchase_fits pp r"
    if "held_unit d i = Some p"
  proof -
    from that obtain u where u: "u \<in> set (package_consumptions d)" "pc_slot_id u = i" "unit_active u"
      "pc_package_purchase_id u = p"
      by (auto simp: held_unit_def consumption_of_slot_def dest!: find_by_SomeD split: option.splits if_splits)
    with inv have "unit_backed d u" by (simp add: ledger_inv_def consumption_sync_def)
    then obtain r pp where r: "r \<in> set (lesson_slots d)" "ls_id r = i" "holds_unit r"
      and pp: "pp \<in> set (package_purchases d)" "pp_id pp = p" "purchase_fits pp r"
      using u by (auto simp: unit_backed_def)
    have "purchase_by_id d p = Some pp"
      using keys pp find_by_distinct [of pp_id "package_purchases d" pp]
      by (simp add: keys_ok_def purchase_by_id_def)
    with r pp slot_by_id_mem [OF keys r(1)] show ?thesis by auto
  qed
  show "0 \<le> covered d (lc_id cr) \<and> covered d (lc_id cr) \<le> lc_amount_kopecks cr"
    if "cr \<in> set (lesson_completions d)"
    using inv that
    by (auto simp: ledger_inv_def coverage_ok_def covered_def intro!: sum_by_nonneg dest!: bspec)
qed

text \<open>
  C1: whatever the operations are called with, in whatever order, in every state that can be
  reached from a database without lessons and purchases: two slots of a teacher that are not
  cancelled never start at the same instant; a lesson has a completion row exactly when it is
  completed or missed by the learner; no package is overdrawn; a package unit that is out belongs
  to a booked or held lesson that the package fits; and settlements never cover more than the
  amount of a completion.
\<close>

theorem reachable_ledger_agrees:
  assumes "start_db d0" and "db_step\<^sup>*\<^sup>* d0 d"
  shows "(\<forall>x \<in> set (lesson_slots d). \<forall>y \<in> set (lesson_slots d).
        ls_id x \<noteq> ls_id y \<and> ls_status x \<noteq> Cancelled \<and> ls_status y \<noteq> Cancelled
        \<and> ls_teacher_account_id x = ls_teacher_account_id y \<longrightarrow> ls_start_at x \<noteq> ls_start_at y)
    \<and> (\<forall>i. (completion_of_slot d i \<noteq> None) \<longleftrightarrow> (\<exists>r. slot_by_id d i = Some r \<and> billable r))
    \<and> (\<forall>p. 0 \<le> free_units d p)
    \<and> (\<forall>i p. held_unit d i = Some p \<longrightarrow> (\<exists>r pp. slot_by_id d i = Some r \<and> holds_unit r
          \<and> purchase_by_id d p = Some pp \<and> purchase_fits pp r))
    \<and> (\<forall>cr \<in> set (lesson_completions d). 0 \<le> covered d (lc_id cr) \<and> covered d (lc_id cr) \<le> lc_amount_kopecks cr)"
proof -
  note read = ledger_inv_readings [OF ledger.reachable_good [OF assms]]
  show ?thesis using read(1) read(2-5) by (auto simp: same_lane_def)
qed

text \<open>A learner buys a package of five: one step from an empty database.\<close>

theorem reachable_ledger_agrees_witness:
  "\<exists>d row. createPackagePurchase sample_clock (uuid_of CHR ''7'') sample_purchase_input empty_db = Inr (Some row, d)
     \<and> 0 \<le> free_units d (uuid_of CHR ''7'')"
proof -
  have tch: "(case uuid_of CHR ''a'' of [] \<Rightarrow> x | t # ts \<Rightarrow> Some (t # ts)) = Some (uuid_of CHR ''a'')" for x
    by (simp add: uuid_of_def replicate_8)
  have "\<exists>row d. createPackagePurchase sample_clock (uuid_of CHR ''7'') sample_purchase_input empty_db = Inr (Some row, d)"
    by (simp add: createPackagePurchase_def Let_def sample_purchase_input_def tch purchase_check_def
        purchase_by_id_def find_by_def sample_defs)
  then obtain row d where buy: "createPackagePurchase sample_clock (uuid_of CHR ''7'') sample_purchase_input empty_db
      = Inr (Some row, d)" by blast
  have "db_step\<^sup>*\<^sup>* empty_db d" using db_step.step_createPackagePurchase [OF buy] by (rule r_into_rtranclp)
  moreover have "start_db empty_db" by (simp add: start_db_def empty_db_def)
  ultimately have "0 \<le> free_units d (uuid_of CHR ''7'')" using reachable_ledger_agrees by blast
  with buy show ?thesis by blast
qed

end
